(* ===== verification/Prelude.thy ===== *)
theory Prelude
  imports Complex_Main
begin

text \<open>
  What every component shares: the exceptions the services throw, the shape of a database
  transaction (\<open>bindE\<close>, the \<open>await\<close> sequence, and \<open>forE\<close>, a \<open>for ... of\<close> loop with
  awaits in its body, and its variants \<open>mapE\<close> and \<open>foldE\<close>), the compositional rules with which an invariant is carried through a
  transaction (\<open>holdsE\<close>), the table operations of the Prisma client over lists of rows, and the
  JavaScript string helpers the services use.
\<close>

named_theorems keeps \<open>rules that carry an invariant through a transaction\<close>
named_theorems table_simps \<open>simplification of table operations\<close>

section \<open>Exceptions and transactions\<close>

text \<open>
  The exception classes of \<open>@nestjs/common\<close> and of \<open>common/exceptions\<close>, each with the error code
  of the thrown object, or with its message where the object has no code. A unique-constraint
  violation is Prisma's \<open>P2002\<close>, named by the table, a broken foreign key \<open>P2003\<close>, an update of a
  missing row \<open>P2025\<close>; \<open>TypeError\<close> is JavaScript's.
\<close>

datatype err =
    NotFoundException string
  | BadRequestException string
  | ConflictException string
  | ForbiddenException string
  | InsufficientCreditException string
  | PolicyViolationException string
  | ServiceUnavailableException string
  | UnauthorizedException string
  | InternalServerErrorException string
  | UniqueConstraintViolation string
  | ForeignKeyViolation string
  | RecordNotFound string
  | TypeError string

text \<open>
  A step of a transaction maps the state to \<open>Inl\<close> an exception (the transaction is rolled back, so
  no state is returned) or to \<open>Inr\<close> its result and the next state.
\<close>

type_synonym ('a, 's) outcome = "err + ('a \<times> 's)"

definition bindE :: "('a, 's) outcome \<Rightarrow> ('a \<Rightarrow> 's \<Rightarrow> ('b, 's) outcome) \<Rightarrow> ('b, 's) outcome" where
  "bindE m f = (case m of Inl e \<Rightarrow> Inl e | Inr r \<Rightarrow> f (fst r) (snd r))"

fun forE :: "'x list \<Rightarrow> ('x \<Rightarrow> 's \<Rightarrow> (unit, 's) outcome) \<Rightarrow> 's \<Rightarrow> (unit, 's) outcome" where
  "forE [] body s = Inr ((), s)"
| "forE (x # xs) body s = bindE (body x s) (\<lambda>_ s'. forE xs body s')"

text \<open>A loop that collects the results of its rounds, and one that threads a local variable.\<close>

fun mapE :: "'x list \<Rightarrow> ('x \<Rightarrow> 's \<Rightarrow> ('a, 's) outcome) \<Rightarrow> 's \<Rightarrow> ('a list, 's) outcome" where
  "mapE [] body s = Inr ([], s)"
| "mapE (x # xs) body s = bindE (body x s) (\<lambda>a s. bindE (mapE xs body s) (\<lambda>rest s. Inr (a # rest, s)))"

fun foldE :: "'x list \<Rightarrow> ('x \<Rightarrow> 'v \<Rightarrow> 's \<Rightarrow> ('v, 's) outcome) \<Rightarrow> 'v \<Rightarrow> 's \<Rightarrow> ('v, 's) outcome" where
  "foldE [] body v s = Inr (v, s)"
| "foldE (x # xs) body v s = bindE (body x v s) (\<lambda>v s. foldE xs body v s)"

lemma bindE_simps [simp]:
  "bindE (Inl e) f = Inl e"
  "bindE (Inr (a, s)) f = f a s"
  by (simp_all add: bindE_def)

lemma bindE_Inr_iff: "bindE m f = Inr r \<longleftrightarrow> (\<exists>a s. m = Inr (a, s) \<and> f a s = Inr r)"
  by (cases m) (auto simp: bindE_def)

lemma bindE_elim:
  assumes "bindE m f = Inr r"
  obtains a s where "m = Inr (a, s)" "f a s = Inr r"
  using assms unfolding bindE_Inr_iff by blast

lemma bindE_Inl_iff:
  "bindE m f = Inl e \<longleftrightarrow> m = Inl e \<or> (\<exists>a s. m = Inr (a, s) \<and> f a s = Inl e)"
  by (cases m) (auto simp: bindE_def)

lemma bindE_assoc: "bindE (bindE m f) g = bindE m (\<lambda>a s. bindE (f a s) g)"
  by (cases m) (auto simp: bindE_def)

section \<open>Carrying an invariant through a transaction\<close>

text \<open>\<open>holdsE Q m\<close>: if \<open>m\<close> succeeds, its result and its state satisfy \<open>Q\<close>.\<close>

definition holdsE :: "('a \<Rightarrow> 's \<Rightarrow> bool) \<Rightarrow> ('a, 's) outcome \<Rightarrow> bool" where
  "holdsE Q m \<longleftrightarrow> (\<forall>a s. m = Inr (a, s) \<longrightarrow> Q a s)"

lemma holdsE_Inl [simp, keeps]: "holdsE Q (Inl e)"
  by (simp add: holdsE_def)

lemma holdsE_Inr [simp]: "holdsE Q (Inr (a, s)) \<longleftrightarrow> Q a s"
  by (simp add: holdsE_def)

lemma holdsE_D: "holdsE Q m \<Longrightarrow> m = Inr (a, s) \<Longrightarrow> Q a s"
  by (simp add: holdsE_def)

lemma holdsE_bind [keeps]:
  assumes "holdsE P m" and "\<And>a s. P a s \<Longrightarrow> holdsE Q (f a s)"
  shows "holdsE Q (bindE m f)"
  using assms by (cases m) (auto simp: holdsE_def bindE_def)

lemma holdsE_weaken: "holdsE P m \<Longrightarrow> (\<And>a s. P a s \<Longrightarrow> Q a s) \<Longrightarrow> holdsE Q m"
  by (auto simp: holdsE_def)

lemma holdsE_conj: "holdsE P m \<Longrightarrow> holdsE Q m \<Longrightarrow> holdsE (\<lambda>a s. P a s \<and> Q a s) m"
  by (auto simp: holdsE_def)

lemma holdsE_if [keeps]:
  "(b \<Longrightarrow> holdsE Q m) \<Longrightarrow> (\<not> b \<Longrightarrow> holdsE Q n) \<Longrightarrow> holdsE Q (if b then m else n)"
  by simp

lemma holdsE_option [keeps]:
  "(x = None \<Longrightarrow> holdsE Q m) \<Longrightarrow> (\<And>y. x = Some y \<Longrightarrow> holdsE Q (f y)) \<Longrightarrow>
   holdsE Q (case x of None \<Rightarrow> m | Some y \<Rightarrow> f y)"
  by (cases x) auto

lemma holdsE_for:
  assumes "P s" and "\<And>x s. x \<in> set xs \<Longrightarrow> P s \<Longrightarrow> holdsE (\<lambda>_. P) (body x s)"
  shows "holdsE (\<lambda>_. P) (forE xs body s)"
  using assms
proof (induction xs arbitrary: s)
  case Nil
  then show ?case by simp
next
  case (Cons x xs)
  have "holdsE (\<lambda>_. P) (body x s)"
    by (rule Cons.prems(2)) (use Cons.prems(1) in simp_all)
  moreover have "holdsE (\<lambda>_. P) (forE xs body t)" if "P t" for t
    by (rule Cons.IH [OF that]) (use Cons.prems(2) in simp)
  ultimately show ?case by (auto intro: holdsE_bind)
qed

text \<open>A loop whose invariant speaks about the elements still to come.\<close>

lemma holdsE_for_rest:
  assumes "P xs s" and "\<And>x ys s. P (x # ys) s \<Longrightarrow> holdsE (\<lambda>_. P ys) (body x s)"
  shows "holdsE (\<lambda>_. P []) (forE xs body s)"
  using assms(1)
proof (induction xs arbitrary: s)
  case Nil
  then show ?case by simp
next
  case (Cons x xs)
  show ?case
    by (simp, rule holdsE_bind [OF assms(2) [OF Cons.prems]]) (rule Cons.IH)
qed

lemma holdsE_map:
  assumes "P s" and "\<And>x s. x \<in> set xs \<Longrightarrow> P s \<Longrightarrow> holdsE (\<lambda>_. P) (body x s)"
  shows "holdsE (\<lambda>_. P) (mapE xs body s)"
  using assms
proof (induction xs arbitrary: s)
  case Nil
  then show ?case by simp
next
  case (Cons x xs)
  have "holdsE (\<lambda>_. P) (body x s)"
    by (rule Cons.prems(2)) (use Cons.prems(1) in simp_all)
  moreover have "holdsE (\<lambda>_. P) (mapE xs body t)" if "P t" for t
    by (rule Cons.IH [OF that]) (use Cons.prems(2) in simp)
  ultimately show ?case by (auto intro!: holdsE_bind)
qed

text \<open>A loop with a local variable, whose invariant speaks about the elements still to come.\<close>

lemma holdsE_fold_rest:
  assumes "P xs v s" and "\<And>x ys v s. P (x # ys) v s \<Longrightarrow> holdsE (P ys) (body x v s)"
  shows "holdsE (P []) (foldE xs body v s)"
  using assms(1)
proof (induction xs arbitrary: v s)
  case Nil
  then show ?case by simp
next
  case (Cons x xs)
  show ?case
    by (simp, rule holdsE_bind [OF assms(2) [OF Cons.prems]]) (rule Cons.IH)
qed

subsection \<open>What a transaction leaves alone\<close>

text \<open>\<open>agrees v s t\<close>: the view \<open>v\<close> of the state is the same in \<open>s\<close> and in \<open>t\<close>.\<close>

definition agrees :: "('s \<Rightarrow> 'v) \<Rightarrow> 's \<Rightarrow> 's \<Rightarrow> bool" where
  "agrees v s t \<longleftrightarrow> v t = v s"

lemma agrees_refl [simp]: "agrees v s s"
  by (simp add: agrees_def)

lemma agrees_trans: "agrees v s t \<Longrightarrow> agrees v t u \<Longrightarrow> agrees v s u"
  by (simp add: agrees_def)

lemma agrees_bind:
  assumes "holdsE (\<lambda>_. agrees v s) m" "\<And>a t. agrees v s t \<Longrightarrow> holdsE (\<lambda>_. agrees v t) (f a t)"
  shows "holdsE (\<lambda>_. agrees v s) (bindE m f)"
  by (rule holdsE_bind [OF assms(1)]) (rule holdsE_weaken [OF assms(2)], auto intro: agrees_trans)

lemma agrees_for:
  assumes "\<And>x t. holdsE (\<lambda>_. agrees v t) (body x t)"
  shows "holdsE (\<lambda>_. agrees v s) (forE xs body s)"
  by (rule holdsE_for) (simp, rule holdsE_weaken [OF assms], auto intro: agrees_trans)

section \<open>Tables\<close>

text \<open>
  A table is the list of its rows. \<open>findFirst\<close> is \<open>findFirst\<close>/\<open>findUnique\<close> of the Prisma client,
  \<open>findMany\<close> its \<open>findMany\<close> without an order, \<open>updateRows\<close> its \<open>update\<close>/\<open>updateMany\<close> and
  \<open>deleteRows\<close> its \<open>delete\<close>/\<open>deleteMany\<close>; a \<open>create\<close> appends the new row.
\<close>

abbreviation findFirst :: "('r \<Rightarrow> bool) \<Rightarrow> 'r list \<Rightarrow> 'r option" where
  "findFirst p t \<equiv> List.find p t"

abbreviation findMany :: "('r \<Rightarrow> bool) \<Rightarrow> 'r list \<Rightarrow> 'r list" where
  "findMany p t \<equiv> filter p t"

definition updateRows :: "('r \<Rightarrow> bool) \<Rightarrow> ('r \<Rightarrow> 'r) \<Rightarrow> 'r list \<Rightarrow> 'r list" where
  "updateRows p f t = map (\<lambda>r. if p r then f r else r) t"

definition deleteRows :: "('r \<Rightarrow> bool) \<Rightarrow> 'r list \<Rightarrow> 'r list" where
  "deleteRows p t = filter (\<lambda>r. \<not> p r) t"

lemma updateRows_simps [simp, table_simps]:
  "updateRows p f [] = []"
  "updateRows p f (r # t) = (if p r then f r else r) # updateRows p f t"
  "updateRows p f (t @ u) = updateRows p f t @ updateRows p f u"
  "length (updateRows p f t) = length t"
  by (simp_all add: updateRows_def)

lemma deleteRows_simps [simp, table_simps]:
  "deleteRows p [] = []"
  "deleteRows p (r # t) = (if p r then deleteRows p t else r # deleteRows p t)"
  "deleteRows p (t @ u) = deleteRows p t @ deleteRows p u"
  "set (deleteRows p t) = {r \<in> set t. \<not> p r}"
  by (auto simp: deleteRows_def)

lemma set_updateRows: "set (updateRows p f t) = (\<lambda>r. if p r then f r else r) ` set t"
  by (simp add: updateRows_def)

lemma map_updateRows: "(\<And>r. p r \<Longrightarrow> k (f r) = k r) \<Longrightarrow> map k (updateRows p f t) = map k t"
  by (induction t) auto

lemma updateRows_cong:
  "(\<And>r. r \<in> set t \<Longrightarrow> p r \<Longrightarrow> f r = g r) \<Longrightarrow> updateRows p f t = updateRows p g t"
  by (simp add: updateRows_def)

lemma updateRows_none: "(\<And>r. r \<in> set t \<Longrightarrow> \<not> p r) \<Longrightarrow> updateRows p f t = t"
  by (induction t) auto

lemma find_SomeD: "findFirst p t = Some r \<Longrightarrow> r \<in> set t \<and> p r"
  by (auto simp: find_Some_iff in_set_conv_nth)

lemma find_NoneD: "findFirst p t = None \<Longrightarrow> r \<in> set t \<Longrightarrow> \<not> p r"
  by (simp add: find_None_iff)

lemma find_append: "findFirst p (t @ u) = (case findFirst p t of None \<Rightarrow> findFirst p u | Some r \<Rightarrow> Some r)"
  by (induction t) auto

lemma find_updateRows:
  "(\<And>r. p (f r) = p r) \<Longrightarrow>
   findFirst p (updateRows q f t) = map_option (\<lambda>r. if q r then f r else r) (findFirst p t)"
  by (induction t) auto

lemma find_replace:
  "(\<And>r. p r \<Longrightarrow> p (f r)) \<Longrightarrow> findFirst p (updateRows p f t) = map_option f (findFirst p t)"
  by (induction t) auto

lemma find_exists: "r \<in> set t \<Longrightarrow> p r \<Longrightarrow> \<exists>x. findFirst p t = Some x"
  by (metis find_None_iff not_Some_eq)

lemma find_snoc_new: "(\<And>r. r \<in> set t \<Longrightarrow> \<not> p r) \<Longrightarrow> p x \<Longrightarrow> findFirst p (t @ [x]) = Some x"
  by (induction t) auto

lemma find_cong_set: "(\<And>r. r \<in> set t \<Longrightarrow> p r = q r) \<Longrightarrow> findFirst p t = findFirst q t"
  by (induction t) auto

subsection \<open>Tables with a key\<close>

text \<open>
  A row type with a key (its \<open>@id\<close>, or a \<open>@@unique\<close> group of columns). The lemmas are those every
  table of the schema uses: look-up by key, look-up after an update, and the effect of updating,
  creating or deleting one row on a sum over the table.
\<close>

locale keyed_table =
  fixes key :: "'r \<Rightarrow> 'k"
    and rowsum :: "('r \<Rightarrow> 'v::ab_group_add) \<Rightarrow> 'r list \<Rightarrow> 'v"
  assumes rowsum_Nil: "rowsum g [] = 0"
    and rowsum_Cons: "rowsum g (r # t) = g r + rowsum g t"
begin

lemma rowsum_append: "rowsum g (t @ u) = rowsum g t + rowsum g u"
  by (induction t) (simp_all add: rowsum_Nil rowsum_Cons add.assoc)

lemma find_key:
  "distinct (map key t) \<Longrightarrow> r \<in> set t \<Longrightarrow> findFirst (\<lambda>x. key x = key r) t = Some r"
  by (induction t) (auto simp: image_iff)

lemma key_eqD: "distinct (map key t) \<Longrightarrow> r \<in> set t \<Longrightarrow> x \<in> set t \<Longrightarrow> key r = key x \<Longrightarrow> r = x"
  by (metis find_key option.inject)

lemma find_update:
  "(\<And>r. key (f r) = key r) \<Longrightarrow>
   findFirst (\<lambda>x. key x = j) (updateRows (\<lambda>x. key x = i) f t) =
   map_option (\<lambda>r. if j = i then f r else r) (findFirst (\<lambda>x. key x = j) t)"
  by (induction t) auto

lemma rowsum_other: "(\<And>r. r \<in> set t \<Longrightarrow> key r \<noteq> i) \<Longrightarrow> rowsum g (updateRows (\<lambda>x. key x = i) f t) = rowsum g t"
  by (simp add: updateRows_none)

lemma rowsum_update:
  assumes "distinct (map key t)" and "findFirst (\<lambda>x. key x = i) t = Some r"
  shows "rowsum g (updateRows (\<lambda>x. key x = i) f t) = rowsum g t - g r + g (f r)"
  using assms
proof (induction t)
  case Nil
  then show ?case by simp
next
  case (Cons x t)
  show ?case
  proof (cases "key x = i")
    case True
    with Cons.prems have "r = x" and "\<And>y. y \<in> set t \<Longrightarrow> key y \<noteq> i" by (auto simp: image_iff)
    with True show ?thesis by (simp add: rowsum_Cons rowsum_other)
  next
    case False
    with Cons show ?thesis by (simp add: rowsum_Cons algebra_simps)
  qed
qed

lemma rowsum_delete:
  assumes "distinct (map key t)" and "findFirst (\<lambda>x. key x = i) t = Some r"
  shows "rowsum g (deleteRows (\<lambda>x. key x = i) t) = rowsum g t - g r"
  using assms
proof (induction t)
  case Nil
  then show ?case by simp
next
  case (Cons x t)
  show ?case
  proof (cases "key x = i")
    case True
    with Cons.prems have "r = x" and "\<And>y. y \<in> set t \<Longrightarrow> key y \<noteq> i" by (auto simp: image_iff)
    then have "deleteRows (\<lambda>x. key x = i) t = t"
      by (simp add: deleteRows_def filter_id_conv)
    with True \<open>r = x\<close> show ?thesis by (simp add: rowsum_Cons)
  next
    case False
    with Cons show ?thesis by (simp add: rowsum_Cons algebra_simps)
  qed
qed

lemma rowsum_zero: "(\<And>r. r \<in> set t \<Longrightarrow> g r = 0) \<Longrightarrow> rowsum g t = 0"
  by (induction t) (simp_all add: rowsum_Nil rowsum_Cons)

lemma rowsum_cong: "(\<And>r. r \<in> set t \<Longrightarrow> g r = h r) \<Longrightarrow> rowsum g t = rowsum h t"
  by (induction t) (simp_all add: rowsum_Nil rowsum_Cons)

end

definition total :: "('r \<Rightarrow> 'v::comm_monoid_add) \<Rightarrow> 'r list \<Rightarrow> 'v" where
  "total g t = sum_list (map g t)"

lemma total_simps [simp, table_simps]:
  "total g [] = 0"
  "total g (r # t) = g r + total g t"
  "total g (t @ u) = total g t + total g u"
  by (simp_all add: total_def)

lemma total_zero: "(\<And>r. r \<in> set t \<Longrightarrow> g r = 0) \<Longrightarrow> total g t = 0"
  by (induction t) auto

lemma total_cong: "(\<And>r. r \<in> set t \<Longrightarrow> g r = h r) \<Longrightarrow> total g t = total h t"
  by (induction t) auto

lemma total_nonneg: "(\<And>r. r \<in> set t \<Longrightarrow> (0::rat) \<le> g r) \<Longrightarrow> 0 \<le> total g t"
  by (induction t) auto

lemma total_member_le:
  "(\<And>x. x \<in> set t \<Longrightarrow> (0::rat) \<le> g x) \<Longrightarrow> r \<in> set t \<Longrightarrow> g r \<le> total g t"
proof (induction t)
  case (Cons x t)
  then show ?case
    using total_nonneg [of t g] by (cases "r = x") (auto simp: add_increasing2 add_increasing)
qed simp

section \<open>JavaScript strings\<close>

text \<open>A nullable string used as a condition: null, undefined and the empty string are false.\<close>

definition truthy :: "string option \<Rightarrow> bool" where
  "truthy x = (case x of None \<Rightarrow> False | Some y \<Rightarrow> y \<noteq> [])"

definition orElse :: "'a option \<Rightarrow> 'a option \<Rightarrow> 'a option" where
  "orElse x y = (case x of None \<Rightarrow> y | Some _ \<Rightarrow> x)"

definition withDefault :: "'a option \<Rightarrow> 'a \<Rightarrow> 'a" where
  "withDefault x d = (case x of None \<Rightarrow> d | Some v \<Rightarrow> v)"

lemma nullish_simps [simp]:
  "truthy None = False" "truthy (Some y) = (y \<noteq> [])"
  "orElse None z = z" "orElse (Some v) z = Some v"
  "withDefault None d = d" "withDefault (Some v) d = v"
  by (simp_all add: truthy_def orElse_def withDefault_def)

text \<open>\<open>toLowerCase\<close> on the letters A to Z, and \<open>includes\<close>.\<close>

definition lowerChar :: "char \<Rightarrow> char" where
  "lowerChar c = (let n = of_char c :: nat in if 65 \<le> n \<and> n \<le> 90 then char_of (n + 32) else c)"

definition toLowerCase :: "string \<Rightarrow> string" where
  "toLowerCase s = map lowerChar s"

fun startsWith :: "string \<Rightarrow> string \<Rightarrow> bool" where
  "startsWith s [] = True"
| "startsWith [] (c # p) = False"
| "startsWith (d # s) (c # p) = (c = d \<and> startsWith s p)"

fun hasSubstring :: "string \<Rightarrow> string \<Rightarrow> bool" where
  "hasSubstring [] p = (p = [])"
| "hasSubstring (c # s) p = (startsWith (c # s) p \<or> hasSubstring s p)"

text \<open>\<open>trim\<close> removes white space (tabs, line ends, spaces, the no-break space) at both ends.\<close>

definition isSpace :: "char \<Rightarrow> bool" where
  "isSpace c = (of_char c \<in> set [9, 10, 11, 12, 13, 32, 160 :: nat])"

definition trim :: "string \<Rightarrow> string" where
  "trim s = rev (dropWhile isSpace (rev (dropWhile isSpace s)))"

end
