(* ===== verification/Schema.thy ===== *)
theory Schema
  imports Prelude
begin

text \<open>
  The data model of \<open>prisma/schema.prisma\<close>: its enums as datatypes with the schema's constructors,
  its models as records, and the database \<open>db\<close> the transactions run on, with one list of rows per
  table. Columns that no modelled operation reads or writes (passwords apart from the house user's,
  display names of lists, Tahesab group names) are left out. Money, weights and prices
  (\<open>Decimal\<close>) are exact rationals: the 20 significant digits of decimal.js and the rounding of a
  stored value to its column's scale are not modelled. Identifiers are strings; the ones the
  database generates (\<open>cuid()\<close>) are \<open>db_gen s 0, db_gen s 1, ...\<close> for a generator \<open>db_gen\<close> that is a
  parameter of the model, and the proofs use only that it is injective. \<open>db_now\<close> is the time, in
  milliseconds, that \<open>new Date()\<close> and \<open>now()\<close> return during an operation.
\<close>

type_synonym id = string
type_synonym decimal = rat
type_synonym time = int

section \<open>Enums\<close>

datatype UserRole = ADMIN | TRADER | CLIENT
datatype UserStatus = ACTIVE | BLOCKED | PENDING_APPROVAL
datatype InstrumentType = FIAT | GOLD | COIN | OTHER
datatype InstrumentUnit = GRAM_750_EQ | PIECE | CURRENCY
datatype KycStatus = NONE | PENDING | VERIFIED | REJECTED
datatype KycLevel = NONE | BASIC | FULL
datatype PolicyAuditEntityType = CUSTOMER_GROUP | CUSTOMER_GROUP_SETTINGS | USER | USER_KYC | POLICY_RULE | ACCOUNT_ADJUSTMENT
datatype PolicyScopeType = GLOBAL | GROUP | USER
datatype PolicyAction = WITHDRAW_IRR | DEPOSIT_IRR | TRADE_BUY | TRADE_SELL | REMITTANCE_SEND
  | CUSTODY_IN | CUSTODY_OUT
datatype PolicyMetric = NOTIONAL_IRR | WEIGHT_750_G | COUNT
datatype PolicyPeriod = DAILY | MONTHLY
datatype LimitReservationStatus = RESERVED | CONSUMED | RELEASED
datatype AccountReservationStatus = RESERVED | CONSUMED | RELEASED
datatype TradeSide = BUY | SELL
datatype TradeStatus = PENDING | APPROVED | REJECTED | CANCELLED_BY_USER | CANCELLED_BY_ADMIN | SETTLED
datatype SettlementMethod = WALLET | EXTERNAL | CASH | PHYSICAL | MIXED
datatype TradeType = SPOT | TOMORROW | DAY_AFTER
datatype QuoteSourceType = PROVIDER | OVERRIDE
datatype MarketProductType = CASH | GOLD | COIN | FX | OTHER
datatype PhysicalCustodyMovementType = DEPOSIT | WITHDRAWAL
datatype PhysicalCustodyMovementStatus = PENDING | APPROVED | REJECTED | CANCELLED
datatype TxRefType = TRADE | DEPOSIT | WITHDRAW | WITHDRAW_ALLOCATION | ADJUSTMENT | GOLD_LOT
  | REMITTANCE | PHYSICAL_CUSTODY_MOVEMENT
datatype AccountTxType = DEPOSIT | WITHDRAW | TRADE_DEBIT | TRADE_CREDIT | ADJUSTMENT | FEE
  | REMITTANCE | CUSTODY
datatype AccountTxEntrySide = DEBIT | CREDIT
datatype DepositStatus = PENDING | APPROVED | REJECTED | CANCELLED | REVERSED | CREATED
  | WAITING_ASSIGNMENT | PARTIALLY_ASSIGNED | FULLY_ASSIGNED | PARTIALLY_SETTLED | SETTLED | EXPIRED
datatype WithdrawStatus = PENDING | APPROVED | REJECTED | CANCELLED | REVERSED | CREATED | VALIDATED
  | WAITING_ASSIGNMENT | PARTIALLY_ASSIGNED | FULLY_ASSIGNED | PARTIALLY_SETTLED | SETTLED | EXPIRED
datatype RequestPurpose = DIRECT | P2P
datatype P2PConfirmationMode = RECEIVER | ADMIN | BOTH | RECEIVER_OR_ADMIN
datatype PaymentDestinationDirection = PAYOUT | COLLECTION
datatype PaymentDestinationType = IBAN | CARD | ACCOUNT
datatype PaymentDestinationStatus = ACTIVE | PENDING_VERIFY | DISABLED
datatype WithdrawalChannel = USER_TO_USER | USER_TO_ORG
datatype PaymentMethod = CARD_TO_CARD | SATNA | PAYA | TRANSFER | UNKNOWN
datatype P2PAllocationStatus = ASSIGNED | PROOF_SUBMITTED | RECEIVER_CONFIRMED | ADMIN_VERIFIED
  | SETTLED | DISPUTED | CANCELLED | EXPIRED
datatype AttachmentLinkEntityType = P2P_ALLOCATION | WITHDRAWAL | DEPOSIT | REMITTANCE
datatype AttachmentLinkKind = P2P_PROOF | DISPUTE_EVIDENCE | ADMIN_NOTE | OTHER
datatype GoldLotStatus = IN_VAULT | SOLD | WITHDRAWN | MELTED
datatype AttachmentEntityType = TRADE | DEPOSIT | WITHDRAW | GOLD_LOT | KYC | REMITTANCE
datatype RemittanceGroupStatus = OPEN | PARTIAL | CLOSED | CANCELLED
datatype RemittanceStatus = PENDING | PARTIAL | COMPLETED | CANCELLED
datatype RemittanceChannel = INTERNAL | CASH | BANK_TRANSFER | CARD | MIXED | OTHER
datatype RemittanceGroupKind = TRANSFER | SETTLEMENT | NETTING | PASS_THROUGH | OTHER
datatype TahesabOutboxStatus = PENDING | SUCCESS | FAILED

section \<open>Rows\<close>

record user =
  us_id :: id
  us_fullName :: string
  us_mobile :: string
  us_email :: string
  us_role :: UserRole
  us_status :: UserStatus
  us_tahesabCustomerCode :: "string option"
  us_customerGroupId :: "id option"
  us_password :: string
  us_createdAt :: time
  us_updatedAt :: time

record userKyc =
  uk_userId :: id
  uk_status :: KycStatus
  uk_level :: KycLevel
  uk_verifiedAt :: "time option"
  uk_rejectedAt :: "time option"
  uk_rejectReason :: "string option"
  uk_updatedAt :: time

record customerGroup =
  cg_id :: id
  cg_code :: string
  cg_name :: string
  cg_tahesabGroupName :: "string option"
  cg_isDefault :: bool

record instrument =
  in_id :: id
  in_code :: string
  in_name :: string
  in_type :: InstrumentType
  in_unit :: InstrumentUnit

record marketProduct =
  mp_id :: id
  mp_code :: string
  mp_productType :: MarketProductType
  mp_tradeType :: TradeType
  mp_baseInstrumentId :: id
  mp_unitType :: PolicyMetric
  mp_isActive :: bool
  mp_createdAt :: time
  mp_displayName :: string
  mp_groupKey :: string
  mp_sortOrder :: int

record account =
  ac_id :: id
  ac_userId :: id
  ac_instrumentId :: id
  ac_balance :: decimal
  ac_blockedBalance :: decimal
  ac_minBalance :: decimal

record accountReservation =
  ar_id :: id
  ar_accountId :: id
  ar_amount :: decimal
  ar_refType :: TxRefType
  ar_refId :: id
  ar_status :: AccountReservationStatus

record accountTx =
  tx_id :: id
  tx_createdAt :: time
  tx_accountId :: id
  tx_delta :: decimal
  tx_type :: AccountTxType
  tx_entrySide :: AccountTxEntrySide
  tx_refType :: TxRefType
  tx_refId :: "id option"
  tx_createdById :: "id option"
  tx_reversalOfId :: "id option"

record policyRule =
  pr_id :: id
  pr_createdAt :: time
  pr_updatedAt :: time
  pr_scopeType :: PolicyScopeType
  pr_scopeUserId :: "id option"
  pr_scopeGroupId :: "id option"
  pr_action :: PolicyAction
  pr_metric :: PolicyMetric
  pr_period :: PolicyPeriod
  pr_limit :: decimal
  pr_minKycLevel :: KycLevel
  pr_instrumentId :: "id option"
  pr_instrumentType :: "InstrumentType option"
  pr_productId :: "id option"
  pr_enabled :: bool
  pr_priority :: int
  pr_note :: "string option"

record limitUsage =
  lu_id :: id
  lu_userId :: id
  lu_action :: PolicyAction
  lu_metric :: PolicyMetric
  lu_period :: PolicyPeriod
  lu_periodKey :: string
  lu_instrumentKey :: string
  lu_usedAmount :: decimal
  lu_reservedAmount :: decimal

record limitReservation =
  lr_id :: id
  lr_userId :: id
  lr_usageId :: id
  lr_amount :: decimal
  lr_refType :: TxRefType
  lr_refId :: id
  lr_status :: LimitReservationStatus

record destinationSnapshot =
  ds_type :: PaymentDestinationType
  ds_value :: "string option"
  ds_maskedValue :: "string option"
  ds_bankName :: "string option"
  ds_ownerName :: "string option"
  ds_title :: "string option"

record paymentDestination =
  pd_id :: id
  pd_createdAt :: time
  pd_deletedAt :: "time option"
  pd_ownerUserId :: "id option"
  pd_direction :: PaymentDestinationDirection
  pd_type :: PaymentDestinationType
  pd_encryptedValue :: string
  pd_encryptedValueHash :: string
  pd_maskedValue :: string
  pd_bankName :: "string option"
  pd_ownerName :: "string option"
  pd_title :: "string option"
  pd_isDefault :: bool
  pd_status :: PaymentDestinationStatus
  pd_lastUsedAt :: "time option"

record depositRequest =
  dp_id :: id
  dp_createdAt :: time
  dp_updatedAt :: time
  dp_userId :: id
  dp_amount :: decimal
  dp_method :: string
  dp_status :: DepositStatus
  dp_purpose :: RequestPurpose
  dp_remainingAmount :: "decimal option"
  dp_assignedAmountTotal :: decimal
  dp_settledAmountTotal :: decimal
  dp_refNo :: "string option"
  dp_note :: "string option"
  dp_processedAt :: "time option"
  dp_processedById :: "id option"
  dp_accountTxId :: "id option"

record withdrawRequest =
  wd_id :: id
  wd_createdAt :: time
  wd_updatedAt :: time
  wd_userId :: id
  wd_amount :: decimal
  wd_status :: WithdrawStatus
  wd_purpose :: RequestPurpose
  wd_channel :: "WithdrawalChannel option"
  wd_bankName :: "string option"
  wd_iban :: "string option"
  wd_cardNumber :: "string option"
  wd_payoutDestinationId :: "id option"
  wd_destinationSnapshot :: "destinationSnapshot option"
  wd_assignedAmountTotal :: decimal
  wd_settledAmountTotal :: decimal
  wd_note :: "string option"
  wd_processedAt :: "time option"
  wd_processedById :: "id option"
  wd_accountTxId :: "id option"
  wd_idempotencyKey :: "string option"

record trade =
  td_id :: id
  td_createdAt :: time
  td_updatedAt :: time
  td_clientId :: id
  td_instrumentId :: id
  td_side :: TradeSide
  td_status :: TradeStatus
  td_type :: TradeType
  td_settlementMethod :: SettlementMethod
  td_quantity :: decimal
  td_pricePerUnit :: decimal
  td_totalAmount :: decimal
  td_idempotencyKey :: "string option"
  td_quoteId :: "id option"
  td_executedPrice :: "decimal option"
  td_priceSourceAsOf :: "time option"
  td_lockedBaseBuy :: "decimal option"
  td_lockedBaseSell :: "decimal option"
  td_lockedDisplayBuy :: "decimal option"
  td_lockedDisplaySell :: "decimal option"
  td_settlementPrice :: "decimal option"
  td_settlementAmount :: "decimal option"
  td_realizedPnl :: "decimal option"
  td_clientNote :: "string option"
  td_adminNote :: "string option"
  td_approvedAt :: "time option"
  td_approvedById :: "id option"
  td_rejectedAt :: "time option"
  td_rejectReason :: "string option"
  td_reversedAt :: "time option"
  td_cancelledAt :: "time option"

record quoteLockAudit =
  qa_quoteId :: id
  qa_userId :: id
  qa_productId :: id
  qa_side :: TradeSide
  qa_expiresAt :: time
  qa_consumedAt :: "time option"
  qa_tradeId :: "id option"

record p2pAllocation =
  al_id :: id
  al_createdAt :: time
  al_updatedAt :: time
  al_withdrawalId :: id
  al_depositId :: id
  al_amount :: decimal
  al_status :: P2PAllocationStatus
  al_paymentCode :: string
  al_expiresAt :: time
  al_destinationSnapshot :: destinationSnapshot
  al_paymentMethod :: PaymentMethod
  al_payerBankRef :: "string option"
  al_proofSubmittedAt :: "time option"
  al_payerPaidAt :: "time option"
  al_receiverConfirmedAt :: "time option"
  al_receiverDisputedAt :: "time option"
  al_receiverDisputeReason :: "string option"
  al_adminVerifiedAt :: "time option"
  al_adminVerifierId :: "id option"
  al_adminNote :: "string option"
  al_settledAt :: "time option"
  al_withdrawerAccountTxId :: "id option"
  al_payerAccountTxId :: "id option"

record p2pAssignmentIdempotency =
  ai_key :: string
  ai_withdrawalId :: id
  ai_responseJson :: "p2pAllocation list"

record goldLot =
  gl_id :: id
  gl_userId :: id
  gl_grossWeight :: decimal
  gl_karat :: int
  gl_equivGram750 :: decimal
  gl_status :: GoldLotStatus
  gl_note :: "string option"

record physicalCustodyMovement =
  cm_id :: id
  cm_createdAt :: time
  cm_updatedAt :: time
  cm_idempotencyKey :: "string option"
  cm_userId :: id
  cm_movementType :: PhysicalCustodyMovementType
  cm_status :: PhysicalCustodyMovementStatus
  cm_weightGram :: decimal
  cm_ayar :: int
  cm_equivGram750 :: "decimal option"
  cm_userGoldAccountTxId :: "id option"
  cm_houseGoldAccountTxId :: "id option"
  cm_note :: "string option"

record remittanceGroup =
  rg_id :: id
  rg_createdByUserId :: id
  rg_note :: "string option"
  rg_kind :: RemittanceGroupKind
  rg_status :: RemittanceGroupStatus
  rg_tahesabDocId :: "string option"

record remittance =
  rm_id :: id
  rm_createdAt :: time
  rm_idempotencyKey :: "string option"
  rm_groupId :: "id option"
  rm_fromUserId :: id
  rm_toUserId :: id
  rm_onBehalfOfUserId :: "id option"
  rm_instrumentId :: id
  rm_amount :: decimal
  rm_note :: "string option"
  rm_channel :: RemittanceChannel
  rm_iban :: "string option"
  rm_cardLast4 :: "string option"
  rm_externalPaymentRef :: "string option"
  rm_status :: RemittanceStatus
  rm_tahesabDocId :: "string option"
  rm_fromAccountTxId :: "id option"
  rm_toAccountTxId :: "id option"

record settlementLink =
  sl_id :: id
  sl_legId :: id
  sl_sourceRemittanceId :: id
  sl_amount :: decimal
  sl_note :: "string option"

record fileRow =
  fi_id :: id
  fi_uploadedById :: id
  fi_storageKey :: string
  fi_createdAt :: time
  fi_fileName :: string
  fi_mimeType :: string
  fi_sizeBytes :: nat
  fi_label :: "string option"

record attachment =
  at_id :: id
  at_createdAt :: time
  at_fileId :: id
  at_entityType :: AttachmentEntityType
  at_entityId :: id
  at_purpose :: "string option"

record attachmentLink =
  lk_id :: id
  lk_createdAt :: time
  lk_entityType :: AttachmentLinkEntityType
  lk_entityId :: id
  lk_kind :: AttachmentLinkKind
  lk_fileId :: id
  lk_uploaderUserId :: "id option"

text \<open>
  The payloads of the Tahesab outbox: the vouchers of \<open>tahesab-documents.service.ts\<close> and
  \<open>dto/sanad.dto.ts\<close>, and the remittance payload of \<open>tahesab.methods.ts\<close>, with the fields the
  services set. The Shamsi date is the triple year, month, day.
\<close>

datatype SabteKolOrMovaghat = Movaghat | Kol
datatype VoroodOrKhorooj = Vorood | Khorooj
datatype BuyOrSale = Sell | Buy

record simpleVoucher =
  sv_sabteKolOrMovaghat :: SabteKolOrMovaghat
  sv_moshtariCode :: string
  sv_factorNumber :: id
  sv_date :: "string \<times> string \<times> string"
  sv_mablagh :: decimal
  sv_sharh :: string
  sv_factorCode :: string

record goldBuySell =
  gb_sabteKolOrMovaghat :: SabteKolOrMovaghat
  gb_moshtariCode :: string
  gb_factorNumber :: id
  gb_date :: "string \<times> string \<times> string"
  gb_mablagh :: decimal
  gb_ayar :: int
  gb_vazn :: decimal
  gb_angNumber :: string
  gb_nameAz :: string
  gb_buyOrSale :: BuyOrSale
  gb_sharh :: string

record goldVoucher =
  gv_sabteKolOrMovaghat :: SabteKolOrMovaghat
  gv_moshtariCode :: string
  gv_factorNumber :: id
  gv_radifNumber :: id
  gv_date :: "string \<times> string \<times> string"
  gv_vazn :: decimal
  gv_ayar :: int
  gv_angNumber :: string
  gv_nameAz :: string
  gv_isVoroodOrKhorooj :: VoroodOrKhorooj
  gv_isMotefaregheOrAbshode :: int
  gv_sharh :: string
  gv_factorCode :: "string option"

record remittancePayload =
  rp_legId :: id
  rp_fromCustomerCode :: string
  rp_toCustomerCode :: string
  rp_instrumentCode :: string
  rp_instrumentType :: InstrumentType
  rp_channel :: RemittanceChannel
  rp_amount :: decimal
  rp_accountCode :: string
  rp_date :: "string \<times> string \<times> string"
  rp_description :: string
  rp_settlements :: "(id \<times> decimal) list"

text \<open>\<open>DoNewMoshtari\<close> and \<open>DoEditMoshtari\<close>: the fields the source fills; a code is left out when creating.\<close>

record moshtariPayload =
  ms_moshtariCode :: "string option"
  ms_name :: string
  ms_groupName :: string
  ms_tel :: string

datatype outboxPayload =
    SimpleVoucher simpleVoucher
  | NewMoshtari moshtariPayload
  | EditMoshtari moshtariPayload
  | GoldBuySell goldBuySell
  | GoldVoucher goldVoucher
  | DeleteSanad string
  | RemittanceVoucher remittancePayload
  | OtherPayload string

record tahesabOutbox =
  ob_id :: id
  ob_createdAt :: time
  ob_method :: string
  ob_payload :: outboxPayload
  ob_status :: TahesabOutboxStatus
  ob_retryCount :: nat
  ob_lastError :: "string option"
  ob_nextRetryAt :: time
  ob_correlationId :: "string option"
  ob_tahesabFactorCode :: "string option"

text \<open>
  A row of the audit log. The JSON columns are what the administration stores there: the row before and
  after, or the list of the users moved, with the groups.
\<close>

datatype auditJson =
    AuditRule policyRule
  | AuditGroup customerGroup
  | AuditKyc userKyc
  | AuditUser user
  | AuditSettings id
  | AuditMove id id "id list" nat
  | AuditAdjustment id string decimal string

record policyAuditLog =
  pa_id :: id
  pa_createdAt :: time
  pa_entityType :: PolicyAuditEntityType
  pa_entityId :: id
  pa_actorId :: "id option"
  pa_beforeJson :: "auditJson option"
  pa_afterJson :: "auditJson option"
  pa_reason :: "string option"

section \<open>The database\<close>

record db =
  db_gen :: "nat \<Rightarrow> id"
  db_seq :: nat
  db_now :: time
  users :: "user list"
  userKycs :: "userKyc list"
  customerGroups :: "customerGroup list"
  instruments :: "instrument list"
  marketProducts :: "marketProduct list"
  accounts :: "account list"
  accountReservations :: "accountReservation list"
  accountTxs :: "accountTx list"
  policyRules :: "policyRule list"
  policyAuditLogs :: "policyAuditLog list"
  limitUsages :: "limitUsage list"
  limitReservations :: "limitReservation list"
  paymentDestinations :: "paymentDestination list"
  depositRequests :: "depositRequest list"
  withdrawRequests :: "withdrawRequest list"
  trades :: "trade list"
  quoteLockAudits :: "quoteLockAudit list"
  p2pAllocations :: "p2pAllocation list"
  p2pAssignmentIdempotencies :: "p2pAssignmentIdempotency list"
  goldLots :: "goldLot list"
  physicalCustodyMovements :: "physicalCustodyMovement list"
  remittanceGroups :: "remittanceGroup list"
  remittances :: "remittance list"
  settlementLinks :: "settlementLink list"
  fileRows :: "fileRow list"
  attachments :: "attachment list"
  attachmentLinks :: "attachmentLink list"
  tahesabOutboxes :: "tahesabOutbox list"

type_synonym 'a tx = "('a, db) outcome"

text \<open>The next generated identifier, and the state in which it is used up.\<close>

definition freshId :: "db \<Rightarrow> id" where
  "freshId s = db_gen s (db_seq s)"

definition bumpId :: "db \<Rightarrow> db" where
  "bumpId s = s\<lparr>db_seq := Suc (db_seq s)\<rparr>"

text \<open>Every identifier of a table came from the generator, and no two rows share one.\<close>

definition keys_ok :: "db \<Rightarrow> id list \<Rightarrow> bool" where
  "keys_ok s ks \<longleftrightarrow> inj (db_gen s) \<and> distinct ks \<and> set ks \<subseteq> db_gen s ` {..<db_seq s}"

lemma freshId_notin: "keys_ok s ks \<Longrightarrow> freshId s \<notin> set ks"
  by (auto simp: keys_ok_def freshId_def dest: injD)

lemma keys_ok_distinct [dest]: "keys_ok s ks \<Longrightarrow> distinct ks"
  by (simp add: keys_ok_def)

lemma keys_ok_bump: "keys_ok s ks \<Longrightarrow> keys_ok (bumpId s) ks"
  by (auto simp: keys_ok_def bumpId_def less_Suc_eq)

lemma keys_ok_snoc: "keys_ok s ks \<Longrightarrow> keys_ok (bumpId s) (ks @ [freshId s])"
  using freshId_notin [of s ks]
  by (auto simp: keys_ok_def bumpId_def freshId_def lessThan_Suc)

lemma keys_ok_cong: "db_gen t = db_gen s \<Longrightarrow> db_seq t = db_seq s \<Longrightarrow> keys_ok t ks = keys_ok s ks"
  by (simp add: keys_ok_def)

text \<open>An empty database, over a generator that numbers the identifiers in unary.\<close>

definition unaryId :: "nat \<Rightarrow> id" where
  "unaryId n = CHR ''k'' # replicate n CHR ''i''"

lemma inj_unaryId: "inj unaryId"
  by (rule injI) (auto simp: unaryId_def dest: arg_cong [where f = length])

definition emptyDb :: db where
  "emptyDb = \<lparr>db_gen = unaryId, db_seq = 0, db_now = 0, users = [], userKycs = [], customerGroups = [], instruments = [],
     marketProducts = [], accounts = [], accountReservations = [], accountTxs = [], policyRules = [], policyAuditLogs = [],
     limitUsages = [], limitReservations = [], paymentDestinations = [], depositRequests = [],
     withdrawRequests = [], trades = [], quoteLockAudits = [], p2pAllocations = [],
     p2pAssignmentIdempotencies = [], goldLots = [], physicalCustodyMovements = [],
     remittanceGroups = [], remittances = [], settlementLinks = [], fileRows = [], attachments = [],
     attachmentLinks = [], tahesabOutboxes = []\<rparr>"

end
