(* ===== verification/Accounts.thy ===== *)
theory Accounts
  imports Schema
begin

text \<open>
  \<open>modules/accounts/accounts.service.ts\<close> and \<open>common/utils/decimal.util.ts\<close>: the wallet ledger.
  First the operations, each with the branches of the source; then the ledger invariant
  \<open>ledger_ok\<close> (identifiers, blocked balance = sum of the open reservations, balance = sum of the
  posted transactions, the floor \<open>blocked + min \<le> balance\<close>) and its preservation; then the
  interface \<open>wallet_ledger\<close> the other services use, with its interpretation. Row locks
  (\<open>SELECT ... FOR UPDATE\<close>) have no effect on a transaction that runs alone.
\<close>

section \<open>Decimal helpers\<close>

definition dec :: "decimal option \<Rightarrow> decimal" where
  "dec value = withDefault value 0"

definition minDec :: "decimal option \<Rightarrow> decimal option \<Rightarrow> decimal" where
  "minDec a b = (let da = dec a; db = dec b in if da \<le> db then da else db)"

definition addDec :: "decimal option \<Rightarrow> decimal option \<Rightarrow> decimal" where
  "addDec a b = dec a + dec b"

definition subDec :: "decimal option \<Rightarrow> decimal option \<Rightarrow> decimal" where
  "subDec a b = dec a - dec b"

lemma dec_simps [simp]:
  "dec None = 0" "dec (Some x) = x"
  "addDec (Some x) (Some y) = x + y" "subDec (Some x) (Some y) = x - y"
  "minDec (Some x) (Some y) = min x y"
  by (simp_all add: dec_def addDec_def subDec_def minDec_def min_def)

section \<open>Operations\<close>

definition IRR_INSTRUMENT_CODE :: string where "IRR_INSTRUMENT_CODE = ''IRR''"
definition GOLD_750_INSTRUMENT_CODE :: string where "GOLD_750_INSTRUMENT_CODE = ''GOLD_750_EQ''"
definition HOUSE_USER_ID :: id where "HOUSE_USER_ID = ''house-system-user''"

definition getUsableCapacity :: "account \<Rightarrow> decimal" where
  "getUsableCapacity a = ac_balance a - ac_blockedBalance a - ac_minBalance a"

definition findAccount :: "id \<Rightarrow> db \<Rightarrow> account option" where
  "findAccount i s = findFirst (\<lambda>a. ac_id a = i) (accounts s)"

definition findAccountOf :: "id \<Rightarrow> id \<Rightarrow> db \<Rightarrow> account option" where
  "findAccountOf userId instrumentId s =
     findFirst (\<lambda>a. ac_userId a = userId \<and> ac_instrumentId a = instrumentId) (accounts s)"

definition findInstrument :: "string \<Rightarrow> db \<Rightarrow> instrument option" where
  "findInstrument code s = findFirst (\<lambda>i. in_code i = code) (instruments s)"

definition findReservation :: "TxRefType \<Rightarrow> id \<Rightarrow> id \<Rightarrow> db \<Rightarrow> accountReservation option" where
  "findReservation refType refId accountId s =
     findFirst (\<lambda>r. ar_refType r = refType \<and> ar_refId r = refId \<and> ar_accountId r = accountId)
       (accountReservations s)"

definition houseUser :: user where
  "houseUser = \<lparr>us_id = HOUSE_USER_ID, us_fullName = ''House Account'', us_mobile = ''09999999999'',
     us_email = ''house-system@goldnest.local'', us_role = UserRole.ADMIN,
     us_status = UserStatus.ACTIVE, us_tahesabCustomerCode = None, us_customerGroupId = None,
     us_password = ''$2b$10$1rC5KTpfKCrj3Ghr/2e3MOl4m2YPSPiJYn/DCz2yNLOUZo8Ag1KmG'', us_createdAt = 0, us_updatedAt = 0\<rparr>"

definition ensureHouseUser :: "db \<Rightarrow> unit tx" where
  "ensureHouseUser s =
     (if \<exists>u\<in>set (users s). us_id u = HOUSE_USER_ID then Inr ((), s)
      else if \<exists>u\<in>set (users s). us_mobile u = us_mobile houseUser \<or> us_email u = us_email houseUser
        then Inl (UniqueConstraintViolation ''User'')
      else Inr ((), s\<lparr>users := users s @ [houseUser\<lparr>us_createdAt := db_now s, us_updatedAt := db_now s\<rparr>]\<rparr>))"

definition createAccount :: "id \<Rightarrow> id \<Rightarrow> db \<Rightarrow> account tx" where
  "createAccount userId instrumentId s =
     (let a = \<lparr>ac_id = freshId s, ac_userId = userId, ac_instrumentId = instrumentId,
               ac_balance = 0, ac_blockedBalance = 0, ac_minBalance = 0\<rparr>
      in Inr (a, (bumpId s)\<lparr>accounts := accounts s @ [a]\<rparr>))"

definition getOrCreateAccount :: "id \<Rightarrow> string \<Rightarrow> db \<Rightarrow> account tx" where
  "getOrCreateAccount userId instrumentCode s =
     bindE (if userId = HOUSE_USER_ID then ensureHouseUser s else Inr ((), s)) (\<lambda>_ s.
     case findInstrument instrumentCode s of
       None \<Rightarrow> Inl (NotFoundException (''Instrument '' @ instrumentCode @ '' not found''))
     | Some instrument \<Rightarrow>
         (case findAccountOf userId (in_id instrument) s of
            Some existing \<Rightarrow> Inr (existing, s)
          | None \<Rightarrow> createAccount userId (in_id instrument) s))"

definition updateAccount :: "id \<Rightarrow> (account \<Rightarrow> account) \<Rightarrow> db \<Rightarrow> db" where
  "updateAccount i f s = s\<lparr>accounts := updateRows (\<lambda>a. ac_id a = i) f (accounts s)\<rparr>"

definition updateReservation :: "id \<Rightarrow> (accountReservation \<Rightarrow> accountReservation) \<Rightarrow> db \<Rightarrow> db" where
  "updateReservation i f s =
     s\<lparr>accountReservations := updateRows (\<lambda>r. ar_id r = i) f (accountReservations s)\<rparr>"

definition createReservation ::
  "id \<Rightarrow> decimal \<Rightarrow> TxRefType \<Rightarrow> id \<Rightarrow> AccountReservationStatus \<Rightarrow> db \<Rightarrow> accountReservation tx" where
  "createReservation accountId amount refType refId status s =
     (if findReservation refType refId accountId s \<noteq> None
        then Inl (UniqueConstraintViolation ''AccountReservation'')
      else let r = \<lparr>ar_id = freshId s, ar_accountId = accountId, ar_amount = amount,
                    ar_refType = refType, ar_refId = refId, ar_status = status\<rparr>
           in Inr (r, (bumpId s)\<lparr>accountReservations := accountReservations s @ [r]\<rparr>))"

definition reserveFunds ::
  "id \<Rightarrow> string \<Rightarrow> decimal \<Rightarrow> TxRefType \<Rightarrow> id \<Rightarrow> db \<Rightarrow> (account \<times> accountReservation) tx" where
  "reserveFunds userId instrumentCode amount refType refId s =
     bindE (getOrCreateAccount userId instrumentCode s) (\<lambda>account s.
     case findAccount (ac_id account) s of
       None \<Rightarrow> Inl (NotFoundException ''Account not found'')
     | Some fresh \<Rightarrow>
         (case findReservation refType refId (ac_id fresh) s of
            Some existing \<Rightarrow>
              (if ar_status existing = AccountReservationStatus.RELEASED
                 then Inl (ConflictException ''Reservation already released'')
               else Inr ((fresh, existing), s))
          | None \<Rightarrow>
              (if getUsableCapacity fresh < amount
                 then Inl (InsufficientCreditException ''Insufficient usable balance'')
               else bindE (createReservation (ac_id fresh) amount refType refId
                             AccountReservationStatus.RESERVED s) (\<lambda>reservation s.
                 let updated = fresh\<lparr>ac_blockedBalance := ac_blockedBalance fresh + amount\<rparr>
                 in Inr ((updated, reservation),
                         updateAccount (ac_id fresh)
                           (\<lambda>a. a\<lparr>ac_blockedBalance := ac_blockedBalance fresh + amount\<rparr>) s)))))"

text \<open>
  The part \<open>releaseFunds\<close> and \<open>consumeFunds\<close> share once the reservation is known to be open: the
  fresh read of the account, the guard on the blocked balance and the two updates.
\<close>

definition closeReservation ::
  "account \<Rightarrow> accountReservation \<Rightarrow> AccountReservationStatus \<Rightarrow> db \<Rightarrow>
   (account \<times> accountReservation) option tx" where
  "closeReservation fresh reservation status s =
     (let newBlocked = ac_blockedBalance fresh - ar_amount reservation
      in if newBlocked < 0 then Inl (BadRequestException ''Blocked balance cannot be negative'')
         else Inr (Some (fresh\<lparr>ac_blockedBalance := newBlocked\<rparr>, reservation\<lparr>ar_status := status\<rparr>),
                   updateAccount (ac_id fresh) (\<lambda>a. a\<lparr>ac_blockedBalance := newBlocked\<rparr>)
                     (updateReservation (ar_id reservation) (\<lambda>r. r\<lparr>ar_status := status\<rparr>) s)))"

definition releaseFunds ::
  "id \<Rightarrow> string \<Rightarrow> TxRefType \<Rightarrow> id \<Rightarrow> db \<Rightarrow> (account \<times> accountReservation) option tx" where
  "releaseFunds userId instrumentCode refType refId s =
     bindE (getOrCreateAccount userId instrumentCode s) (\<lambda>account s.
     case findReservation refType refId (ac_id account) s of
       None \<Rightarrow> Inr (None, s)
     | Some reservation \<Rightarrow>
         (if ar_status reservation = AccountReservationStatus.RELEASED
            then Inr (Some (account, reservation), s)
          else case findAccount (ac_id account) s of
            None \<Rightarrow> Inl (NotFoundException ''Account not found'')
          | Some fresh \<Rightarrow>
              (if ar_status reservation = AccountReservationStatus.CONSUMED
                 then Inr (Some (fresh, reservation), s)
               else closeReservation fresh reservation AccountReservationStatus.RELEASED s)))"

definition consumeFunds ::
  "id \<Rightarrow> string \<Rightarrow> TxRefType \<Rightarrow> id \<Rightarrow> db \<Rightarrow> (account \<times> accountReservation) option tx" where
  "consumeFunds userId instrumentCode refType refId s =
     bindE (getOrCreateAccount userId instrumentCode s) (\<lambda>account s.
     case findReservation refType refId (ac_id account) s of
       None \<Rightarrow> Inr (None, s)
     | Some reservation \<Rightarrow>
         (if ar_status reservation = AccountReservationStatus.CONSUMED
            then Inr (Some (account, reservation), s)
          else if ar_status reservation = AccountReservationStatus.RELEASED
            then Inl (BadRequestException ''Reservation already released'')
          else case findAccount (ac_id account) s of
            None \<Rightarrow> Inl (NotFoundException ''Account not found'')
          | Some fresh \<Rightarrow> closeReservation fresh reservation AccountReservationStatus.CONSUMED s))"

definition createAccountTx :: "accountTx \<Rightarrow> db \<Rightarrow> accountTx tx" where
  "createAccountTx t s =
     (if (tx_refId t \<noteq> None \<and>
          (\<exists>x\<in>set (accountTxs s). tx_refType x = tx_refType t \<and> tx_refId x = tx_refId t \<and>
             tx_accountId x = tx_accountId t \<and> tx_entrySide x = tx_entrySide t)) \<or>
         (tx_reversalOfId t \<noteq> None \<and> (\<exists>x\<in>set (accountTxs s). tx_reversalOfId x = tx_reversalOfId t))
        then Inl (UniqueConstraintViolation ''AccountTx'')
      else Inr (t, (bumpId s)\<lparr>accountTxs := accountTxs s @ [t]\<rparr>))"

definition applyTransaction ::
  "id \<Rightarrow> decimal \<Rightarrow> AccountTxType \<Rightarrow> TxRefType \<Rightarrow> id option \<Rightarrow> id option \<Rightarrow> id option \<Rightarrow>
   db \<Rightarrow> (accountTx \<times> account) tx" where
  "applyTransaction accountId delta type refType refId createdById reversalOfId s =
     (case findAccount accountId s of
        None \<Rightarrow> Inl (NotFoundException ''Account not found'')
      | Some account \<Rightarrow>
          (let newBalance = ac_balance account + delta;
               requiredBalance = ac_blockedBalance account + ac_minBalance account
           in if newBalance < requiredBalance
                then Inl (InsufficientCreditException ''Insufficient usable balance for this operation'')
              else bindE (createAccountTx
                     \<lparr>tx_id = freshId s, tx_createdAt = db_now s, tx_accountId = ac_id account,
                      tx_delta = delta, tx_type = type,
                      tx_entrySide = (if delta < 0 then AccountTxEntrySide.DEBIT else AccountTxEntrySide.CREDIT),
                      tx_refType = refType, tx_refId = refId, tx_createdById = createdById,
                      tx_reversalOfId = reversalOfId\<rparr> s) (\<lambda>txRecord s.
                Inr ((txRecord, account\<lparr>ac_balance := newBalance\<rparr>),
                     updateAccount (ac_id account) (\<lambda>a. a\<lparr>ac_balance := newBalance\<rparr>) s))))"

section \<open>The ledger invariant\<close>

interpretation acc: keyed_table ac_id "total :: (account \<Rightarrow> rat) \<Rightarrow> account list \<Rightarrow> rat"
  by unfold_locales simp_all

interpretation resv: keyed_table ar_id
  "total :: (accountReservation \<Rightarrow> rat) \<Rightarrow> accountReservation list \<Rightarrow> rat"
  by unfold_locales simp_all

text \<open>What the open reservations of an account hold, and what has been posted to it.\<close>

definition held :: "id \<Rightarrow> db \<Rightarrow> decimal" where
  "held i s = total (\<lambda>r. if ar_accountId r = i \<and> ar_status r = AccountReservationStatus.RESERVED
                          then ar_amount r else 0) (accountReservations s)"

definition posted :: "id \<Rightarrow> db \<Rightarrow> decimal" where
  "posted i s = total (\<lambda>t. if tx_accountId t = i then tx_delta t else 0) (accountTxs s)"

text \<open>
  \<open>signed\<close> says that no reservation has a negative amount: \<open>reserveFunds\<close> does not ask, and the floor is
  kept only then.
\<close>

definition account_inv :: "bool \<Rightarrow> db \<Rightarrow> account \<Rightarrow> bool" where
  "account_inv signed s a \<longleftrightarrow>
     ac_blockedBalance a = held (ac_id a) s \<and> ac_balance a = posted (ac_id a) s \<and>
     (signed \<longrightarrow> ac_blockedBalance a + ac_minBalance a \<le> ac_balance a)"

abbreviation account_ok :: "db \<Rightarrow> account \<Rightarrow> bool" where
  "account_ok \<equiv> account_inv True"

definition resvKey :: "accountReservation \<Rightarrow> TxRefType \<times> id \<times> id" where
  "resvKey r = (ar_refType r, ar_refId r, ar_accountId r)"

definition acctKey :: "account \<Rightarrow> id \<times> id" where
  "acctKey a = (ac_userId a, ac_instrumentId a)"

definition ledger_inv :: "bool \<Rightarrow> db \<Rightarrow> bool" where
  "ledger_inv signed s \<longleftrightarrow>
     keys_ok s (map ac_id (accounts s)) \<and> keys_ok s (map ar_id (accountReservations s)) \<and>
     distinct (map acctKey (accounts s)) \<and> distinct (map resvKey (accountReservations s)) \<and>
     (\<forall>r\<in>set (accountReservations s). (signed \<longrightarrow> 0 \<le> ar_amount r) \<and> ar_accountId r \<in> ac_id ` set (accounts s)) \<and>
     (\<forall>t\<in>set (accountTxs s). tx_accountId t \<in> ac_id ` set (accounts s)) \<and>
     (\<forall>a\<in>set (accounts s). account_inv signed s a)"

abbreviation ledger_ok :: "db \<Rightarrow> bool" where
  "ledger_ok \<equiv> ledger_inv True"

lemmas account_ok_def = account_inv_def [of True, simplified]
lemmas ledger_ok_def = ledger_inv_def [of True, simplified]

text \<open>Introduction and use of the invariant, one clause at a time.\<close>

lemma ledger_okI:
  assumes "keys_ok s (map ac_id (accounts s))" "keys_ok s (map ar_id (accountReservations s))"
    and "distinct (map acctKey (accounts s))" "distinct (map resvKey (accountReservations s))"
    and "\<And>r. r \<in> set (accountReservations s) \<Longrightarrow> signed \<Longrightarrow> 0 \<le> ar_amount r"
    and "\<And>r. r \<in> set (accountReservations s) \<Longrightarrow> ar_accountId r \<in> ac_id ` set (accounts s)"
    and "\<And>t. t \<in> set (accountTxs s) \<Longrightarrow> tx_accountId t \<in> ac_id ` set (accounts s)"
    and "\<And>a. a \<in> set (accounts s) \<Longrightarrow> account_inv signed s a"
  shows "ledger_inv signed s"
  using assms by (simp add: ledger_inv_def)

lemma ledger_okD:
  assumes "ledger_inv signed s"
  shows "keys_ok s (map ac_id (accounts s))" "keys_ok s (map ar_id (accountReservations s))"
    "distinct (map acctKey (accounts s))" "distinct (map resvKey (accountReservations s))"
    "\<And>r. r \<in> set (accountReservations s) \<Longrightarrow> signed \<Longrightarrow> 0 \<le> ar_amount r"
    "\<And>r. r \<in> set (accountReservations s) \<Longrightarrow> ar_accountId r \<in> ac_id ` set (accounts s)"
    "\<And>t. t \<in> set (accountTxs s) \<Longrightarrow> tx_accountId t \<in> ac_id ` set (accounts s)"
    "\<And>a. a \<in> set (accounts s) \<Longrightarrow> account_inv signed s a"
  using assms by (simp_all add: ledger_inv_def)

text \<open>Tables the ledger does not read, and identifiers used up elsewhere, leave it alone.\<close>

lemma ledger_ok_bump: "ledger_inv signed s \<Longrightarrow> ledger_inv signed (bumpId s)"
  by (auto simp: ledger_inv_def account_inv_def held_def posted_def bumpId_def keys_ok_def less_Suc_eq)

lemma ledger_ok_frame [simp]:
  "ledger_inv signed (s\<lparr>users := a1\<rparr>) = ledger_inv signed s"
  "ledger_inv signed (s\<lparr>limitUsages := a2\<rparr>) = ledger_inv signed s"
  "ledger_inv signed (s\<lparr>limitReservations := a3\<rparr>) = ledger_inv signed s"
  "ledger_inv signed (s\<lparr>paymentDestinations := a4\<rparr>) = ledger_inv signed s"
  "ledger_inv signed (s\<lparr>depositRequests := a5\<rparr>) = ledger_inv signed s"
  "ledger_inv signed (s\<lparr>withdrawRequests := a6\<rparr>) = ledger_inv signed s"
  "ledger_inv signed (s\<lparr>trades := a7\<rparr>) = ledger_inv signed s"
  "ledger_inv signed (s\<lparr>quoteLockAudits := a8\<rparr>) = ledger_inv signed s"
  "ledger_inv signed (s\<lparr>p2pAllocations := a9\<rparr>) = ledger_inv signed s"
  "ledger_inv signed (s\<lparr>p2pAssignmentIdempotencies := b1\<rparr>) = ledger_inv signed s"
  "ledger_inv signed (s\<lparr>goldLots := b2\<rparr>) = ledger_inv signed s"
  "ledger_inv signed (s\<lparr>physicalCustodyMovements := b3\<rparr>) = ledger_inv signed s"
  "ledger_inv signed (s\<lparr>remittanceGroups := b4\<rparr>) = ledger_inv signed s"
  "ledger_inv signed (s\<lparr>remittances := b5\<rparr>) = ledger_inv signed s"
  "ledger_inv signed (s\<lparr>settlementLinks := b6\<rparr>) = ledger_inv signed s"
  "ledger_inv signed (s\<lparr>fileRows := b7\<rparr>) = ledger_inv signed s"
  "ledger_inv signed (s\<lparr>attachments := b8\<rparr>) = ledger_inv signed s"
  "ledger_inv signed (s\<lparr>attachmentLinks := b9\<rparr>) = ledger_inv signed s"
  "ledger_inv signed (s\<lparr>tahesabOutboxes := c1\<rparr>) = ledger_inv signed s"
  "ledger_inv signed (s\<lparr>db_now := c2\<rparr>) = ledger_inv signed s"
  "ledger_inv signed (s\<lparr>userKycs := c3\<rparr>) = ledger_inv signed s"
  "ledger_inv signed (s\<lparr>customerGroups := c4\<rparr>) = ledger_inv signed s"
  "ledger_inv signed (s\<lparr>policyRules := c5\<rparr>) = ledger_inv signed s"
  "ledger_inv signed (s\<lparr>policyAuditLogs := c6\<rparr>) = ledger_inv signed s"
  by (simp_all add: ledger_inv_def account_inv_def held_def posted_def keys_ok_def)

lemma findAccount_SomeD: "findAccount i s = Some a \<Longrightarrow> a \<in> set (accounts s) \<and> ac_id a = i"
  unfolding findAccount_def by (rule find_SomeD)

lemma findAccount_member: "ledger_inv signed s \<Longrightarrow> a \<in> set (accounts s) \<Longrightarrow> findAccount (ac_id a) s = Some a"
  unfolding findAccount_def using ledger_okD(1) by (blast intro: acc.find_key keys_ok_distinct)

lemma findAccount_exists: "i \<in> ac_id ` set (accounts s) \<Longrightarrow> \<exists>a. findAccount i s = Some a"
  unfolding findAccount_def by (auto intro: find_exists)

lemma findReservation_SomeD:
  "findReservation rt ri i s = Some r \<Longrightarrow>
   r \<in> set (accountReservations s) \<and> ar_refType r = rt \<and> ar_refId r = ri \<and> ar_accountId r = i"
  unfolding findReservation_def by (drule find_SomeD) simp

lemma findReservation_id:
  "ledger_inv signed s \<Longrightarrow> r \<in> set (accountReservations s) \<Longrightarrow>
   findFirst (\<lambda>x. ar_id x = ar_id r) (accountReservations s) = Some r"
  using ledger_okD(2) by (blast intro: resv.find_key keys_ok_distinct)

lemma account_found:
  "ledger_inv signed s \<Longrightarrow> findAccount i s = Some a \<Longrightarrow> account_inv signed s a \<and> ac_id a = i \<and> i \<in> ac_id ` set (accounts s)"
  using findAccount_SomeD [of i s a] ledger_okD(8) [of signed s a] by auto

lemma account_updated:
  assumes "ledger_inv signed s" and "findAccount i s = Some a"
    and "b \<in> set (updateRows (\<lambda>a. ac_id a = i) f (accounts s))"
  obtains "b = f a" | "b \<in> set (accounts s)" "ac_id b \<noteq> i"
  using assms findAccount_member [OF assms(1)] by (auto simp: set_updateRows split: if_splits)

text \<open>The three changes of the ledger: a posting, a new hold, the end of a hold.\<close>

lemma account_ok_cong:
  "held (ac_id a) t = held (ac_id a) s \<Longrightarrow> posted (ac_id a) t = posted (ac_id a) s \<Longrightarrow>
   account_inv signed t a = account_inv signed s a"
  by (simp add: account_inv_def)

lemma map_account_update:
  "(\<And>a. k (f a) = k a) \<Longrightarrow> map k (accounts (updateAccount i f s)) = map k (accounts s)"
  by (simp add: updateAccount_def map_updateRows)

lemma updateAccount_sel [simp]:
  "accountReservations (updateAccount i f s) = accountReservations s"
  "accountTxs (updateAccount i f s) = accountTxs s"
  "db_gen (updateAccount i f s) = db_gen s" "db_seq (updateAccount i f s) = db_seq s"
  "accounts (updateAccount i f s) = updateRows (\<lambda>a. ac_id a = i) f (accounts s)"
  by (simp_all add: updateAccount_def)

lemma updateReservation_sel [simp]:
  "accountReservations (updateReservation i g s) = updateRows (\<lambda>r. ar_id r = i) g (accountReservations s)"
  "accountTxs (updateReservation i g s) = accountTxs s" "accounts (updateReservation i g s) = accounts s"
  "db_gen (updateReservation i g s) = db_gen s" "db_seq (updateReservation i g s) = db_seq s"
  by (simp_all add: updateReservation_def)

lemma bumpId_sel [simp]:
  "accounts (bumpId s) = accounts s" "accountReservations (bumpId s) = accountReservations s"
  "accountTxs (bumpId s) = accountTxs s" "db_gen (bumpId s) = db_gen s"
  "db_seq (bumpId s) = Suc (db_seq s)" "db_now (bumpId s) = db_now s"
  by (simp_all add: bumpId_def)

lemma ids_updateAccount:
  "(\<And>a. ac_id (f a) = ac_id a) \<Longrightarrow>
   ac_id ` set (updateRows (\<lambda>a. ac_id a = i) f t) = ac_id ` set t"
  by (metis list.set_map map_updateRows)

lemma ledger_ok_step:
  assumes ok: "ledger_inv signed s" and a: "findAccount i s = Some a"
    and gen: "db_gen t = db_gen s" "db_seq s \<le> db_seq t"
    and acc: "accounts t = updateRows (\<lambda>a. ac_id a = i) f (accounts s)"
    and f: "\<And>b. ac_id (f b) = ac_id b" "\<And>b. acctKey (f b) = acctKey b"
    and resv: "keys_ok t (map ar_id (accountReservations t))"
      "distinct (map resvKey (accountReservations t))"
      "\<And>r. r \<in> set (accountReservations t) \<Longrightarrow> signed \<Longrightarrow> 0 \<le> ar_amount r"
      "\<And>r. r \<in> set (accountReservations t) \<Longrightarrow> ar_accountId r \<in> ac_id ` set (accounts s)"
    and txs: "\<And>x. x \<in> set (accountTxs t) \<Longrightarrow> tx_accountId x \<in> ac_id ` set (accounts s)"
    and other: "\<And>j. j \<noteq> i \<Longrightarrow> held j t = held j s" "\<And>j. j \<noteq> i \<Longrightarrow> posted j t = posted j s"
    and self: "account_inv signed t (f a)"
  shows "ledger_inv signed t"
proof -
  have ids: "map ac_id (accounts t) = map ac_id (accounts s)"
    and keys: "map acctKey (accounts t) = map acctKey (accounts s)"
    using f by (simp_all add: acc map_updateRows)
  have idset: "ac_id ` set (accounts t) = ac_id ` set (accounts s)"
    using arg_cong [OF ids, of set] by simp
  have rows: "account_inv signed t b" if "b \<in> set (accounts t)" for b
    using that unfolding acc
  proof (rule account_updated [OF ok a])
    show "account_inv signed t b" if "b \<in> set (accounts s)" "ac_id b \<noteq> i"
      using that other ledger_okD(8) [OF ok] account_ok_cong [of b t s signed] by simp
  qed (simp add: self)
  show ?thesis
    using ledger_okD(1,3) [OF ok] gen resv txs
    by (intro ledger_okI rows) (auto simp: ids keys idset keys_ok_def)
qed

lemma ledger_ok_post:
  assumes ok: "ledger_inv signed s" and a: "findAccount i s = Some a"
    and t: "tx_accountId t = i" "tx_delta t = d"
    and floor: "ac_blockedBalance a + ac_minBalance a \<le> ac_balance a + d"
  shows "ledger_inv signed (updateAccount i (\<lambda>x. x\<lparr>ac_balance := ac_balance a + d\<rparr>)
                     ((bumpId s)\<lparr>accountTxs := accountTxs s @ [t]\<rparr>))" (is "ledger_inv signed ?s'")
proof (rule ledger_ok_step [where f = "\<lambda>x. x\<lparr>ac_balance := ac_balance a + d\<rparr>", OF ok a])
  have held: "held j ?s' = held j s" for j by (simp add: held_def)
  have posted: "posted j ?s' = posted j s + (if j = i then d else 0)" for j
    using t by (simp add: posted_def)
  show "account_inv signed ?s' (a\<lparr>ac_balance := ac_balance a + d\<rparr>)"
    unfolding account_inv_def held posted
    using account_found [OF ok a] floor by (simp add: account_inv_def)
  show "held j ?s' = held j s" "posted j ?s' = posted j s" if "j \<noteq> i" for j
    using that held posted by simp_all
  show "keys_ok ?s' (map ar_id (accountReservations ?s'))"
    using keys_ok_bump [OF ledger_okD(2) [OF ok]] by (simp add: keys_ok_def)
  show "tx_accountId x \<in> ac_id ` set (accounts s)" if "x \<in> set (accountTxs ?s')" for x
    using that ledger_okD(7) [OF ok] account_found [OF ok a] t by auto
qed (use ledger_okD(4-6) [OF ok] in \<open>simp_all add: acctKey_def\<close>)

lemma ledger_ok_hold:
  assumes ok: "ledger_inv signed s" and a: "findAccount i s = Some a"
    and new: "findReservation (ar_refType r) (ar_refId r) i s = None"
    and r: "ar_id r = freshId s" "ar_accountId r = i" "ar_status r = AccountReservationStatus.RESERVED"
    and amt: "signed \<longrightarrow> 0 \<le> ar_amount r" "ar_amount r \<le> getUsableCapacity a"
  shows "ledger_inv signed (updateAccount i (\<lambda>x. x\<lparr>ac_blockedBalance := ac_blockedBalance a + ar_amount r\<rparr>)
                     ((bumpId s)\<lparr>accountReservations := accountReservations s @ [r]\<rparr>))" (is "ledger_inv signed ?s'")
proof (rule ledger_ok_step [where f = "\<lambda>x. x\<lparr>ac_blockedBalance := ac_blockedBalance a + ar_amount r\<rparr>", OF ok a])
  have posted: "posted j ?s' = posted j s" for j by (simp add: posted_def)
  have held: "held j ?s' = held j s + (if j = i then ar_amount r else 0)" for j
    using r by (simp add: held_def)
  show "account_inv signed ?s' (a\<lparr>ac_blockedBalance := ac_blockedBalance a + ar_amount r\<rparr>)"
    unfolding account_inv_def held posted
    using account_found [OF ok a] amt
    by (simp add: account_inv_def getUsableCapacity_def)
  show "held j ?s' = held j s" "posted j ?s' = posted j s" if "j \<noteq> i" for j
    using that held posted by simp_all
  show "keys_ok ?s' (map ar_id (accountReservations ?s'))"
    using keys_ok_snoc [OF ledger_okD(2) [OF ok]] r by (simp add: keys_ok_def)
  have "resvKey r \<notin> resvKey ` set (accountReservations s)"
    using new r by (auto simp: findReservation_def resvKey_def find_None_iff)
  then show "distinct (map resvKey (accountReservations ?s'))" using ledger_okD(4) [OF ok] by simp
  show "0 \<le> ar_amount x" if "x \<in> set (accountReservations ?s')" signed for x
    using that ledger_okD(5) [OF ok] amt by auto
  show "ar_accountId x \<in> ac_id ` set (accounts s)" if "x \<in> set (accountReservations ?s')" for x
    using that ledger_okD(6) [OF ok] r account_found [OF ok a] by auto
qed (use ledger_okD(7) [OF ok] in \<open>simp_all add: acctKey_def\<close>)

lemma ledger_ok_close:
  assumes ok: "ledger_inv signed s" and a: "findAccount i s = Some a"
    and r: "r \<in> set (accountReservations s)" "ar_accountId r = i"
      "ar_status r = AccountReservationStatus.RESERVED" and st: "st \<noteq> AccountReservationStatus.RESERVED"
  shows "ledger_inv signed (updateAccount i (\<lambda>x. x\<lparr>ac_blockedBalance := ac_blockedBalance a - ar_amount r\<rparr>)
                     (updateReservation (ar_id r) (\<lambda>x. x\<lparr>ar_status := st\<rparr>) s))" (is "ledger_inv signed ?s'")
proof (rule ledger_ok_step [where f = "\<lambda>x. x\<lparr>ac_blockedBalance := ac_blockedBalance a - ar_amount r\<rparr>", OF ok a])
  have dist: "distinct (map ar_id (accountReservations s))" using ledger_okD(2) [OF ok] by blast
  have posted: "posted j ?s' = posted j s" for j by (simp add: posted_def)
  have held: "held j ?s' = held j s - (if j = i then ar_amount r else 0)" for j
    using r st resv.rowsum_update [OF dist findReservation_id [OF ok r(1)]] by (simp add: held_def)
  have "signed \<longrightarrow> 0 \<le> ar_amount r" using ledger_okD(5) [OF ok r(1)] by blast
  then show "account_inv signed ?s' (a\<lparr>ac_blockedBalance := ac_blockedBalance a - ar_amount r\<rparr>)"
    unfolding account_inv_def held posted
    using account_found [OF ok a] by (auto simp: account_inv_def)
  show "held j ?s' = held j s" "posted j ?s' = posted j s" if "j \<noteq> i" for j
    using that held posted by simp_all
  have rows: "map k (accountReservations ?s') = map k (accountReservations s)"
    if "\<And>x. k (x\<lparr>ar_status := st\<rparr>) = k x" for k :: "accountReservation \<Rightarrow> 'k"
    using that by (simp add: map_updateRows)
  show "keys_ok ?s' (map ar_id (accountReservations ?s'))"
    using rows [of ar_id] ledger_okD(2) [OF ok] by (simp add: keys_ok_def)
  show "distinct (map resvKey (accountReservations ?s'))"
    using rows [of resvKey] ledger_okD(4) [OF ok] by (simp add: resvKey_def)
  show "0 \<le> ar_amount x" if "x \<in> set (accountReservations ?s')" signed for x
    using that ledger_okD(5) [OF ok] by (auto simp: set_updateRows split: if_splits)
  show "ar_accountId x \<in> ac_id ` set (accounts s)" if "x \<in> set (accountReservations ?s')" for x
    using that ledger_okD(6) [OF ok] by (auto simp: set_updateRows split: if_splits)
qed (use ledger_okD(7) [OF ok] in \<open>simp_all add: acctKey_def\<close>)

section \<open>Every operation keeps the invariant\<close>

lemma ensureHouseUser_keeps [keeps]: "ledger_inv signed s \<Longrightarrow> holdsE (\<lambda>_. ledger_inv signed) (ensureHouseUser s)"
  by (simp add: ensureHouseUser_def)

lemma createAccount_keeps:
  assumes ok: "ledger_inv signed s" and new: "findAccountOf u i s = None"
  shows "holdsE (\<lambda>a t. ledger_inv signed t \<and> findAccount (ac_id a) t = Some a) (createAccount u i s)"
proof -
  let ?a = "\<lparr>ac_id = freshId s, ac_userId = u, ac_instrumentId = i,
              ac_balance = 0, ac_blockedBalance = 0, ac_minBalance = 0\<rparr>"
  let ?t = "(bumpId s)\<lparr>accounts := accounts s @ [?a]\<rparr>"
  have fresh: "freshId s \<notin> ac_id ` set (accounts s)"
    using freshId_notin [OF ledger_okD(1) [OF ok]] by simp
  have unused: "\<And>r. r \<in> set (accountReservations s) \<Longrightarrow> ar_accountId r \<noteq> freshId s"
    "\<And>x. x \<in> set (accountTxs s) \<Longrightarrow> tx_accountId x \<noteq> freshId s"
    using fresh ledger_okD(6,7) [OF ok] by metis+
  have held: "held j ?t = held j s" and posted: "posted j ?t = posted j s" for j
    by (simp_all add: held_def posted_def)
  have zero: "held (freshId s) s = 0" "posted (freshId s) s = 0"
    using unused by (auto simp: held_def posted_def intro!: total_zero)
  have acct: "account_inv signed ?t b" if "b \<in> set (accounts ?t)" for b
    using that ledger_okD(8) [OF ok] zero by (auto simp: account_inv_def held posted)
  have new': "acctKey ?a \<notin> acctKey ` set (accounts s)"
    using new by (auto simp: findAccountOf_def acctKey_def find_None_iff)
  have "ledger_inv signed ?t"
    using ledger_okD(2-7) [OF ok] keys_ok_snoc [OF ledger_okD(1) [OF ok]] new'
    by (intro ledger_okI acct) (auto simp: keys_ok_def less_Suc_eq)
  moreover have "findAccount (freshId s) ?t = Some ?a"
    using fresh by (force simp: findAccount_def find_append split: option.splits dest!: find_SomeD)
  ultimately show ?thesis by (simp add: createAccount_def Let_def)
qed

lemma getOrCreateAccount_keeps [keeps]:
  assumes "ledger_inv signed s"
  shows "holdsE (\<lambda>a t. ledger_inv signed t \<and> findAccount (ac_id a) t = Some a) (getOrCreateAccount u c s)"
proof -
  have "holdsE (\<lambda>_. ledger_inv signed) (if u = HOUSE_USER_ID then ensureHouseUser s else Inr ((), s))"
    using assms by (simp add: ensureHouseUser_keeps)
  then show ?thesis
    unfolding getOrCreateAccount_def
    by (rule holdsE_bind)
      (auto intro!: createAccount_keeps findAccount_member simp: findAccountOf_def
        split: option.splits dest: find_SomeD)
qed

lemma createReservation_hold:
  assumes "ledger_inv signed s" "findAccount i s = Some a" "signed \<longrightarrow> 0 \<le> amount" "amount \<le> getUsableCapacity a"
  shows "holdsE (\<lambda>r t. ledger_inv signed (updateAccount i (\<lambda>x. x\<lparr>ac_blockedBalance := ac_blockedBalance a + amount\<rparr>) t))
           (createReservation i amount rt ri AccountReservationStatus.RESERVED s)"
  using ledger_ok_hold [of signed s i a "\<lparr>ar_id = freshId s, ar_accountId = i, ar_amount = amount,
                    ar_refType = rt, ar_refId = ri, ar_status = AccountReservationStatus.RESERVED\<rparr>"] assms
  by (simp add: createReservation_def Let_def)

lemma reserveFunds_inv:
  assumes ok: "ledger_inv signed s" and amt: "signed \<longrightarrow> 0 \<le> amount"
  shows "holdsE (\<lambda>_. ledger_inv signed) (reserveFunds u c amount rt ri s)"
  unfolding reserveFunds_def
proof (rule holdsE_bind [OF getOrCreateAccount_keeps [OF ok]], goal_cases)
  case (1 a t)
  note account_found [of signed t "ac_id a" a]
  with 1 show ?case
    using createReservation_hold [of signed t "ac_id a" a amount rt ri] amt
    by (auto simp: Let_def split: option.splits intro!: holdsE_bind [OF createReservation_hold [where a = a]])
qed

lemma reserveFunds_keeps [keeps]:
  "ledger_ok s \<Longrightarrow> 0 \<le> amount \<Longrightarrow> holdsE (\<lambda>_. ledger_ok) (reserveFunds u c amount rt ri s)"
  by (simp add: reserveFunds_inv)

lemma closeReservation_keeps:
  assumes "ledger_inv signed s" "findAccount (ac_id a) s = Some a" "findReservation rt ri (ac_id a) s = Some r"
    "ar_status r = AccountReservationStatus.RESERVED" "st \<noteq> AccountReservationStatus.RESERVED"
  shows "holdsE (\<lambda>_. ledger_inv signed) (closeReservation a r st s)"
  using ledger_ok_close [of signed s "ac_id a" a r st] findReservation_SomeD [OF assms(3)] assms
  by (simp add: closeReservation_def Let_def)

lemma releaseFunds_keeps [keeps]:
  assumes ok: "ledger_inv signed s"
  shows "holdsE (\<lambda>_. ledger_inv signed) (releaseFunds u c rt ri s)"
  unfolding releaseFunds_def
proof (rule holdsE_bind [OF getOrCreateAccount_keeps [OF ok]], goal_cases)
  case (1 a t)
  then show ?case
    by (auto split: option.splits intro!: closeReservation_keeps)
      (metis AccountReservationStatus.exhaust)+
qed

lemma consumeFunds_keeps [keeps]:
  assumes ok: "ledger_inv signed s"
  shows "holdsE (\<lambda>_. ledger_inv signed) (consumeFunds u c rt ri s)"
  unfolding consumeFunds_def
proof (rule holdsE_bind [OF getOrCreateAccount_keeps [OF ok]], goal_cases)
  case (1 a t)
  then show ?case
    by (auto split: option.splits intro!: closeReservation_keeps)
      (metis AccountReservationStatus.exhaust)+
qed

lemma applyTransaction_keeps [keeps]:
  assumes ok: "ledger_inv signed s"
  shows "holdsE (\<lambda>_. ledger_inv signed) (applyTransaction i d ty rt ri cb rv s)"
proof (cases "findAccount i s")
  case (Some a)
  then have i: "ac_id a = i" by (simp add: findAccount_SomeD)
  show ?thesis
    using ledger_ok_post [OF ok Some, of "\<lparr>tx_id = freshId s, tx_createdAt = db_now s, tx_accountId = i,
        tx_delta = d, tx_type = ty,
        tx_entrySide = (if d < 0 then AccountTxEntrySide.DEBIT else AccountTxEntrySide.CREDIT),
        tx_refType = rt, tx_refId = ri, tx_createdById = cb, tx_reversalOfId = rv\<rparr>" d] Some i
    by (auto simp: applyTransaction_def createAccountTx_def Let_def)
qed (simp add: applyTransaction_def)

section \<open>Frame\<close>

text \<open>The ledger operations change the ledger tables, the users (the house user) and nothing else.\<close>

definition others :: "db \<Rightarrow> db" where
  "others s = s\<lparr>db_seq := 0, users := [], accounts := [], accountReservations := [], accountTxs := []\<rparr>"

text \<open>The id of the wallet of a user for an instrument, when there is one.\<close>

definition walletId :: "id \<Rightarrow> string \<Rightarrow> db \<Rightarrow> id option" where
  "walletId u c s = (case findInstrument c s of None \<Rightarrow> None
     | Some i \<Rightarrow> map_option ac_id (findAccountOf u (in_id i) s))"

definition walletFrame :: "db \<Rightarrow> db \<Rightarrow> bool" where
  "walletFrame s t \<longleftrightarrow> others t = others s \<and> db_seq s \<le> db_seq t \<and>
     (\<forall>u j w. map_option ac_id (findAccountOf u j s) = Some w \<longrightarrow> map_option ac_id (findAccountOf u j t) = Some w) \<and>
     ac_id ` set (accounts s) \<subseteq> ac_id ` set (accounts t) \<and>
     ac_minBalance ` set (accounts t) \<subseteq> insert 0 (ac_minBalance ` set (accounts s))"

text \<open>An account the frame adds has the minimum balance 0; the others keep theirs.\<close>

lemma walletFrame_refl [simp]: "walletFrame s s"
  by (auto simp: walletFrame_def)

lemma walletFrame_trans:
  assumes "walletFrame s t" and "walletFrame t u"
  shows "walletFrame s u"
proof -
  have "insert 0 (ac_minBalance ` set (accounts t)) \<subseteq> insert 0 (ac_minBalance ` set (accounts s))"
    using assms(1) unfolding walletFrame_def by (metis insert_subsetI insertI1)
  with assms show ?thesis
    unfolding walletFrame_def
    apply (elim conjE)
    apply (intro conjI allI impI)
        apply (simp only:)
       apply (erule (1) le_trans)
      apply simp
     apply (erule (1) order_trans)
    apply (erule order_trans, assumption)
    done
qed

lemma others_cong:
  assumes "others t = others s"
  shows "db_gen t = db_gen s" "db_now t = db_now s" "userKycs t = userKycs s"
    "instruments t = instruments s" "marketProducts t = marketProducts s" "policyRules t = policyRules s"
    "limitUsages t = limitUsages s" "limitReservations t = limitReservations s"
    "paymentDestinations t = paymentDestinations s" "depositRequests t = depositRequests s"
    "withdrawRequests t = withdrawRequests s" "trades t = trades s" "quoteLockAudits t = quoteLockAudits s"
    "p2pAllocations t = p2pAllocations s" "p2pAssignmentIdempotencies t = p2pAssignmentIdempotencies s"
    "goldLots t = goldLots s" "physicalCustodyMovements t = physicalCustodyMovements s"
    "remittanceGroups t = remittanceGroups s" "remittances t = remittances s"
    "settlementLinks t = settlementLinks s" "fileRows t = fileRows s" "attachments t = attachments s"
    "attachmentLinks t = attachmentLinks s" "tahesabOutboxes t = tahesabOutboxes s"
  using assms by (cases s; cases t; simp add: others_def)+

lemmas walletFrame_sel = others_cong [OF walletFrame_def [THEN iffD1, THEN conjunct1]]

lemma walletFrame_seq: "walletFrame s t \<Longrightarrow> db_seq s \<le> db_seq t"
  by (simp add: walletFrame_def)

lemma walletFrame_walletId:
  assumes "walletFrame s t" and "walletId u c s = Some w"
  shows "walletId u c t = Some w"
proof -
  have "findInstrument c t = findInstrument c s"
    unfolding findInstrument_def walletFrame_sel(4) [OF assms(1)] ..
  with assms(2) show ?thesis
    using assms(1) by (simp add: walletId_def walletFrame_def split: option.splits)
qed

lemma findAccountOf_updateAccount:
  "(\<And>a. acctKey (f a) = acctKey a) \<Longrightarrow>
   findAccountOf u j (updateAccount i f s) = map_option (\<lambda>a. if ac_id a = i then f a else a) (findAccountOf u j s)"
  unfolding findAccountOf_def updateAccount_def acctKey_def by (simp add: find_updateRows)

lemma walletFrame_updateAccount:
  "(\<And>a. ac_id (f a) = ac_id a) \<Longrightarrow> (\<And>a. ac_minBalance (f a) = ac_minBalance a) \<Longrightarrow>
   (\<And>a. acctKey (f a) = acctKey a) \<Longrightarrow> walletFrame s (updateAccount i f s)"
  by (auto simp: walletFrame_def others_def ids_updateAccount findAccountOf_updateAccount)
    (auto simp: updateAccount_def set_updateRows split: if_splits)

lemma walletFrame_rows [simp]:
  "walletFrame s (updateReservation i g s)"
  "ac_minBalance a = 0 \<Longrightarrow> walletFrame s ((bumpId s)\<lparr>accounts := accounts s @ [a]\<rparr>)"
  "walletFrame s ((bumpId s)\<lparr>accountReservations := rs\<rparr>)"
  "walletFrame s ((bumpId s)\<lparr>accountTxs := ts\<rparr>)"
  "walletFrame s (s\<lparr>users := us\<rparr>)"
  by (auto simp: walletFrame_def others_def updateReservation_def bumpId_def findAccountOf_def find_append)

lemma walletFrame_then_update:
  "walletFrame s t \<Longrightarrow> (\<And>a. ac_id (f a) = ac_id a) \<Longrightarrow>
   (\<And>a. ac_minBalance (f a) = ac_minBalance a) \<Longrightarrow> (\<And>a. acctKey (f a) = acctKey a) \<Longrightarrow>
   walletFrame s (updateAccount i f t)"
  by (rule walletFrame_trans [OF _ walletFrame_updateAccount])

named_theorems frames \<open>the frame of each ledger operation\<close>

lemma frame_bind:
  assumes "holdsE (\<lambda>_. walletFrame s) m" "\<And>a t. walletFrame s t \<Longrightarrow> holdsE (\<lambda>_. walletFrame t) (f a t)"
  shows "holdsE (\<lambda>_. walletFrame s) (bindE m f)"
  by (rule holdsE_bind [OF assms(1)]) (rule holdsE_weaken [OF assms(2)], auto intro: walletFrame_trans)

lemma getOrCreateAccount_frame [frames]: "holdsE (\<lambda>_. walletFrame s) (getOrCreateAccount u c s)"
  unfolding getOrCreateAccount_def
  by (rule frame_bind) (auto simp: ensureHouseUser_def createAccount_def Let_def split: option.split)

lemma createReservation_frame [frames]: "holdsE (\<lambda>_. walletFrame s) (createReservation i a rt ri st s)"
  by (simp add: createReservation_def Let_def)

lemma closeReservation_frame [frames]: "holdsE (\<lambda>_. walletFrame s) (closeReservation a r st s)"
  by (simp add: closeReservation_def Let_def walletFrame_then_update acctKey_def)

lemma reserveFunds_frame [frames]: "holdsE (\<lambda>_. walletFrame s) (reserveFunds u c amt rt ri s)"
  unfolding reserveFunds_def
  by (rule frame_bind [OF getOrCreateAccount_frame])
    (auto split: option.split simp: Let_def
      intro!: frame_bind [OF createReservation_frame] walletFrame_updateAccount simp: acctKey_def)

lemma releaseFunds_frame [frames]: "holdsE (\<lambda>_. walletFrame s) (releaseFunds u c rt ri s)"
  unfolding releaseFunds_def
  by (rule frame_bind [OF getOrCreateAccount_frame])
    (auto split: option.split intro: closeReservation_frame)

lemma consumeFunds_frame [frames]: "holdsE (\<lambda>_. walletFrame s) (consumeFunds u c rt ri s)"
  unfolding consumeFunds_def
  by (rule frame_bind [OF getOrCreateAccount_frame])
    (auto split: option.split intro: closeReservation_frame)

lemma applyTransaction_frame [frames]: "holdsE (\<lambda>_. walletFrame s) (applyTransaction i d ty rt ri cb rv s)"
  unfolding applyTransaction_def createAccountTx_def
  by (simp split: option.split add: Let_def walletFrame_then_update acctKey_def)

section \<open>The interface the other services use\<close>

text \<open>
  The five operations of \<open>AccountsService\<close> a client calls inside its own transaction, for a property
  \<open>inv\<close> of the state that each of them keeps. The client's lemmas: a transaction that starts with one
  of the calls keeps \<open>inv\<close> when the rest of it does, and so do the two patterns the services share,
  settling a reservation and moving an amount between two wallets.
\<close>

locale wallet_ledger =
  fixes inv :: "db \<Rightarrow> bool"
    and getAcc :: "id \<Rightarrow> string \<Rightarrow> db \<Rightarrow> account tx"
    and reserve :: "id \<Rightarrow> string \<Rightarrow> decimal \<Rightarrow> TxRefType \<Rightarrow> id \<Rightarrow> db \<Rightarrow> (account \<times> accountReservation) tx"
    and release :: "id \<Rightarrow> string \<Rightarrow> TxRefType \<Rightarrow> id \<Rightarrow> db \<Rightarrow> (account \<times> accountReservation) option tx"
    and consume :: "id \<Rightarrow> string \<Rightarrow> TxRefType \<Rightarrow> id \<Rightarrow> db \<Rightarrow> (account \<times> accountReservation) option tx"
    and post :: "id \<Rightarrow> decimal \<Rightarrow> AccountTxType \<Rightarrow> TxRefType \<Rightarrow> id option \<Rightarrow> id option \<Rightarrow> id option \<Rightarrow>
                 db \<Rightarrow> (accountTx \<times> account) tx"
  assumes getAcc_inv: "inv s \<Longrightarrow> holdsE (\<lambda>_. inv) (getAcc u c s)"
    and reserve_inv: "inv s \<Longrightarrow> 0 \<le> amount \<Longrightarrow> holdsE (\<lambda>_. inv) (reserve u c amount rt ri s)"
    and release_inv: "inv s \<Longrightarrow> holdsE (\<lambda>_. inv) (release u c rt ri s)"
    and consume_inv: "inv s \<Longrightarrow> holdsE (\<lambda>_. inv) (consume u c rt ri s)"
    and post_inv: "inv s \<Longrightarrow> holdsE (\<lambda>_. inv) (post i d ty rt rid cb rv s)"
begin

lemma getAcc_then:
  "inv s \<Longrightarrow> (\<And>a t. inv t \<Longrightarrow> holdsE (\<lambda>_. inv) (k a t)) \<Longrightarrow> holdsE (\<lambda>_. inv) (bindE (getAcc u c s) k)"
  by (rule holdsE_bind [OF getAcc_inv])

lemma reserve_then:
  "inv s \<Longrightarrow> 0 \<le> amount \<Longrightarrow> (\<And>a t. inv t \<Longrightarrow> holdsE (\<lambda>_. inv) (k a t)) \<Longrightarrow>
   holdsE (\<lambda>_. inv) (bindE (reserve u c amount rt ri s) k)"
  by (rule holdsE_bind [OF reserve_inv])

lemma release_then:
  "inv s \<Longrightarrow> (\<And>a t. inv t \<Longrightarrow> holdsE (\<lambda>_. inv) (k a t)) \<Longrightarrow>
   holdsE (\<lambda>_. inv) (bindE (release u c rt ri s) k)"
  by (rule holdsE_bind [OF release_inv])

lemma consume_then:
  "inv s \<Longrightarrow> (\<And>a t. inv t \<Longrightarrow> holdsE (\<lambda>_. inv) (k a t)) \<Longrightarrow>
   holdsE (\<lambda>_. inv) (bindE (consume u c rt ri s) k)"
  by (rule holdsE_bind [OF consume_inv])

lemma post_then:
  "inv s \<Longrightarrow> (\<And>a t. inv t \<Longrightarrow> holdsE (\<lambda>_. inv) (k a t)) \<Longrightarrow>
   holdsE (\<lambda>_. inv) (bindE (post i d ty rt rid cb rv s) k)"
  by (rule holdsE_bind [OF post_inv])

lemmas steps = getAcc_then reserve_then release_then consume_then post_then
lemmas ops = getAcc_inv reserve_inv release_inv consume_inv post_inv

lemma settle_inv:
  assumes "inv s"
  shows "holdsE (\<lambda>_. inv) (bindE (consume u c rt ri s) (\<lambda>_. post i d ty rt rid cb rv))"
  by (rule consume_then [OF assms]) (rule post_inv)

lemma move_inv:
  assumes "inv s"
  shows "holdsE (\<lambda>_. inv) (bindE (post i d ty rt rid cb rv s) (\<lambda>_. post j e ty' rt' rid' cb' rv'))"
  by (rule post_then [OF assms]) (rule post_inv)

lemma for_inv:
  assumes "inv s" and "\<And>x t. x \<in> set xs \<Longrightarrow> inv t \<Longrightarrow> holdsE (\<lambda>_. inv) (body x t)"
  shows "holdsE (\<lambda>_. inv) (forE xs body s)"
  by (rule holdsE_for [OF assms])

end

text \<open>The model's operations keep the ledger invariant, and keep everything outside the ledger.\<close>

interpretation ledger: wallet_ledger ledger_ok getOrCreateAccount reserveFunds releaseFunds consumeFunds applyTransaction
  by unfold_locales
    (blast intro: holdsE_weaken [OF getOrCreateAccount_keeps] reserveFunds_keeps releaseFunds_keeps
      consumeFunds_keeps applyTransaction_keeps)+

interpretation wframe: wallet_ledger "walletFrame s0" getOrCreateAccount reserveFunds releaseFunds consumeFunds applyTransaction for s0
  by unfold_locales
    (blast intro: holdsE_weaken [OF getOrCreateAccount_frame] holdsE_weaken [OF reserveFunds_frame]
      holdsE_weaken [OF releaseFunds_frame] holdsE_weaken [OF consumeFunds_frame]
      holdsE_weaken [OF applyTransaction_frame] walletFrame_trans)+

section \<open>The life of a reservation\<close>

text \<open>The wallet of user \<open>u\<close> for instrument code \<open>c\<close> is row \<open>a\<close>, and looking it up creates nothing.\<close>

definition walletOf :: "id \<Rightarrow> string \<Rightarrow> account \<Rightarrow> db \<Rightarrow> bool" where
  "walletOf u c a s \<longleftrightarrow> (u = HOUSE_USER_ID \<longrightarrow> HOUSE_USER_ID \<in> us_id ` set (users s)) \<and>
     (\<exists>i. findInstrument c s = Some i \<and> findAccountOf u (in_id i) s = Some a)"

lemma walletOf_getOrCreate: "walletOf u c a s \<Longrightarrow> getOrCreateAccount u c s = Inr (a, s)"
  by (auto simp: walletOf_def getOrCreateAccount_def ensureHouseUser_def)

lemma ensureHouseUser_exists: "ensureHouseUser s = Inr (x, t) \<Longrightarrow> HOUSE_USER_ID \<in> us_id ` set (users t)"
  by (force simp: ensureHouseUser_def houseUser_def split: if_splits)

lemma createAccount_finds:
  "createAccount u i s = Inr (a, t) \<Longrightarrow> findAccountOf u i s = None \<Longrightarrow>
   findAccountOf u i t = Some a \<and> users t = users s \<and> instruments t = instruments s"
  by (auto simp: createAccount_def Let_def findAccountOf_def find_append bumpId_def)

lemma getOrCreate_walletOf:
  assumes "getOrCreateAccount u c s = Inr (a, t)"
  shows "walletOf u c a t"
proof -
  from assms obtain x s' where house: "(if u = HOUSE_USER_ID then ensureHouseUser s else Inr ((), s)) = Inr (x, s')"
    and rest: "(case findInstrument c s' of None \<Rightarrow> Inl (NotFoundException (''Instrument '' @ c @ '' not found''))
      | Some instrument \<Rightarrow> (case findAccountOf u (in_id instrument) s' of Some existing \<Rightarrow> Inr (existing, s')
          | None \<Rightarrow> createAccount u (in_id instrument) s')) = Inr (a, t)"
    unfolding getOrCreateAccount_def bindE_Inr_iff by blast
  have "u = HOUSE_USER_ID \<longrightarrow> HOUSE_USER_ID \<in> us_id ` set (users s')"
    using house ensureHouseUser_exists by (metis (full_types))
  with rest show ?thesis
    by (auto simp: walletOf_def findInstrument_def split: option.splits dest!: createAccount_finds)
qed

lemma walletOf_member: "walletOf u c a s \<Longrightarrow> a \<in> set (accounts s) \<and> ac_userId a = u"
  by (auto simp: walletOf_def findAccountOf_def dest: find_SomeD)

lemma walletOf_find: "ledger_ok s \<Longrightarrow> walletOf u c a s \<Longrightarrow> findAccount (ac_id a) s = Some a"
  using findAccount_member walletOf_member by blast

lemma findAccountOf_update:
  assumes ok: "distinct (map acctKey (accounts s))" and a: "findAccountOf u j s = Some a"
    and f: "\<And>b. acctKey (f b) = acctKey b"
  shows "findAccountOf u j (updateAccount (ac_id a) f s) = Some (f a)"
proof -
  have "a \<in> set t \<Longrightarrow> acctKey a = (u, j) \<Longrightarrow> distinct (map acctKey t) \<Longrightarrow>
      findFirst (\<lambda>b. ac_userId b = u \<and> ac_instrumentId b = j) (updateRows (\<lambda>b. ac_id b = ac_id a) f t) = Some (f a)"
    for t
    using f by (induction t) (auto simp: acctKey_def image_iff; metis fst_conv snd_conv)+
  then show ?thesis
    using ok find_SomeD [OF a [unfolded findAccountOf_def]]
    by (simp add: findAccountOf_def acctKey_def)
qed

lemma walletOf_update:
  "distinct (map acctKey (accounts s)) \<Longrightarrow> walletOf u c a s \<Longrightarrow> (\<And>b. acctKey (f b) = acctKey b) \<Longrightarrow>
   walletOf u c (f a) (updateAccount (ac_id a) f s)"
  using findAccountOf_update [of s u _ a f]
  by (auto simp: walletOf_def findInstrument_def updateAccount_def)

lemma walletOf_cong:
  "walletOf u c a s \<Longrightarrow> users t = users s \<Longrightarrow> instruments t = instruments s \<Longrightarrow> accounts t = accounts s \<Longrightarrow>
   walletOf u c a t"
  by (simp add: walletOf_def findInstrument_def findAccountOf_def)

lemma findReservation_cong:
  "accountReservations t = accountReservations s \<Longrightarrow> findReservation rt ri i t = findReservation rt ri i s"
  by (simp add: findReservation_def)

text \<open>The branches of the operations, on a wallet that exists.\<close>

lemma reserveFunds_existing:
  assumes "ledger_ok s" "walletOf u c a s"
    and "findReservation rt ri (ac_id a) s = Some r" "ar_status r \<noteq> AccountReservationStatus.RELEASED"
  shows "reserveFunds u c amt rt ri s = Inr ((a, r), s)"
  using assms walletOf_getOrCreate walletOf_find by (simp add: reserveFunds_def)

lemma reserveFunds_released:
  assumes "ledger_ok s" "walletOf u c a s"
    and "findReservation rt ri (ac_id a) s = Some r" "ar_status r = AccountReservationStatus.RELEASED"
  shows "reserveFunds u c amt rt ri s = Inl (ConflictException ''Reservation already released'')"
  using assms walletOf_getOrCreate walletOf_find by (simp add: reserveFunds_def)

lemma reserveFunds_insufficient:
  assumes "ledger_ok s" "walletOf u c a s"
    and "findReservation rt ri (ac_id a) s = None" "getUsableCapacity a < amt"
  shows "reserveFunds u c amt rt ri s = Inl (InsufficientCreditException ''Insufficient usable balance'')"
  using assms walletOf_getOrCreate walletOf_find by (simp add: reserveFunds_def)

lemma reserveFunds_fresh:
  assumes ok: "ledger_ok s" and w: "walletOf u c a s"
    and new: "findReservation rt ri (ac_id a) s = None" and cap: "amt \<le> getUsableCapacity a"
  obtains r t where "reserveFunds u c amt rt ri s = Inr ((a\<lparr>ac_blockedBalance := ac_blockedBalance a + amt\<rparr>, r), t)"
    and "walletOf u c (a\<lparr>ac_blockedBalance := ac_blockedBalance a + amt\<rparr>) t"
    and "findReservation rt ri (ac_id a) t = Some r"
    and "ar_amount r = amt" "ar_status r = AccountReservationStatus.RESERVED"
    and "accountTxs t = accountTxs s"
proof -
  let ?r = "\<lparr>ar_id = freshId s, ar_accountId = ac_id a, ar_amount = amt, ar_refType = rt, ar_refId = ri,
             ar_status = AccountReservationStatus.RESERVED\<rparr>"
  let ?s = "(bumpId s)\<lparr>accountReservations := accountReservations s @ [?r]\<rparr>"
  let ?f = "\<lambda>x. x\<lparr>ac_blockedBalance := ac_blockedBalance a + amt\<rparr>"
  have "reserveFunds u c amt rt ri s = Inr ((?f a, ?r), updateAccount (ac_id a) ?f ?s)"
    using cap new walletOf_getOrCreate [OF w] walletOf_find [OF ok w]
    by (simp add: reserveFunds_def createReservation_def Let_def)
  moreover have "walletOf u c (?f a) (updateAccount (ac_id a) ?f ?s)"
    by (rule walletOf_update)
      (use ledger_okD(3) [OF ok] walletOf_cong [OF w] in \<open>auto simp: acctKey_def bumpId_def\<close>)
  moreover have "findReservation rt ri (ac_id a) (updateAccount (ac_id a) ?f ?s) = Some ?r"
    using new by (simp add: findReservation_def find_append)
  ultimately show ?thesis using that by simp
qed

text \<open>A posting above the floor, under a reference the account has no entry for yet.\<close>

lemma createAccountTx_new:
  assumes "\<forall>x\<in>set (accountTxs s). tx_refType x = rt \<and> tx_refId x = Some ri \<longrightarrow> tx_accountId x \<noteq> i"
    and "tx_refType t = rt" "tx_refId t = Some ri" "tx_accountId t = i" "tx_reversalOfId t = None"
  shows "createAccountTx t s = Inr (t, (bumpId s)\<lparr>accountTxs := accountTxs s @ [t]\<rparr>)"
  using assms by (auto simp: createAccountTx_def)

lemma applyTransaction_new:
  assumes "findAccount i s = Some a" and "ac_blockedBalance a + ac_minBalance a \<le> ac_balance a + d"
    and "\<forall>x\<in>set (accountTxs s). tx_refType x = rt \<and> tx_refId x = Some ri \<longrightarrow> tx_accountId x \<noteq> i"
  shows "\<exists>x t. applyTransaction i d ty rt (Some ri) cb None s = Inr ((x, a\<lparr>ac_balance := ac_balance a + d\<rparr>), t)"
proof -
  have "ac_id a = i" using findAccount_SomeD [OF assms(1)] by simp
  then show ?thesis
    unfolding applyTransaction_def using assms(1,2) by (simp add: createAccountTx_new [OF assms(3)] Let_def)
qed

text \<open>Closing an open reservation, by \<open>releaseFunds\<close> or by \<open>consumeFunds\<close>.\<close>

lemma closeReservation_open:
  assumes ok: "ledger_ok s" and w: "walletOf u c a s"
    and r: "findReservation rt ri (ac_id a) s = Some r" "ar_status r = AccountReservationStatus.RESERVED"
    and st: "st \<noteq> AccountReservationStatus.RESERVED"
  obtains t where "closeReservation a r st s = Inr (Some (a\<lparr>ac_blockedBalance := ac_blockedBalance a - ar_amount r\<rparr>,
                     r\<lparr>ar_status := st\<rparr>), t)"
    and "ledger_ok t" and "walletOf u c (a\<lparr>ac_blockedBalance := ac_blockedBalance a - ar_amount r\<rparr>) t"
    and "findReservation rt ri (ac_id a) t = Some (r\<lparr>ar_status := st\<rparr>)" and "accountTxs t = accountTxs s"
proof -
  let ?f = "\<lambda>x. x\<lparr>ac_blockedBalance := ac_blockedBalance a - ar_amount r\<rparr>"
  let ?s = "updateReservation (ar_id r) (\<lambda>x. x\<lparr>ar_status := st\<rparr>) s"
  have a: "findAccount (ac_id a) s = Some a" by (rule walletOf_find [OF ok w])
  have "ar_amount r \<le> held (ac_id a) s"
    unfolding held_def
    using total_member_le [of "accountReservations s" "\<lambda>r. if ar_accountId r = ac_id a \<and>
        ar_status r = AccountReservationStatus.RESERVED then ar_amount r else 0" r]
      findReservation_SomeD [OF r(1)] r(2) ledger_okD(5) [OF ok] by simp
  then have close: "closeReservation a r st s = Inr (Some (?f a, r\<lparr>ar_status := st\<rparr>), updateAccount (ac_id a) ?f ?s)"
    using account_found [OF ok a] by (simp add: closeReservation_def account_ok_def Let_def)
  have "ledger_ok (updateAccount (ac_id a) ?f ?s)"
    using closeReservation_keeps [OF ok a r st] by (simp add: close)
  moreover have "walletOf u c (?f a) (updateAccount (ac_id a) ?f ?s)"
    by (rule walletOf_update)
      (use ledger_okD(3) [OF ok] walletOf_cong [OF w] in \<open>auto simp: acctKey_def updateReservation_def\<close>)
  moreover have "findReservation rt ri (ac_id a) (updateAccount (ac_id a) ?f ?s) = Some (r\<lparr>ar_status := st\<rparr>)"
    using r(1) by (simp add: findReservation_def find_updateRows)
  ultimately show ?thesis using that close by simp
qed

section \<open>Effect on the sums\<close>

text \<open>
  What each operation does to the two sums of the ledger, \<open>posted\<close> and \<open>held\<close>, per account: the
  abstract view in which the services' theorems are stated.
\<close>

definition openAmount :: "TxRefType \<Rightarrow> id \<Rightarrow> id \<Rightarrow> db \<Rightarrow> decimal" where
  "openAmount rt ri w s =
     (case findReservation rt ri w s of None \<Rightarrow> 0
      | Some r \<Rightarrow> if ar_status r = AccountReservationStatus.RESERVED then ar_amount r else 0)"

lemma getOrCreateAccount_tables:
  "holdsE (\<lambda>_ t. accountTxs t = accountTxs s \<and> accountReservations t = accountReservations s)
     (getOrCreateAccount u c s)"
  unfolding getOrCreateAccount_def
  by (rule holdsE_bind [where P = "\<lambda>_ t. accountTxs t = accountTxs s \<and> accountReservations t = accountReservations s"])
    (auto simp: ensureHouseUser_def createAccount_def Let_def split: option.split)

lemma posted_cong: "accountTxs t = accountTxs s \<Longrightarrow> posted j t = posted j s"
  by (simp add: posted_def)

lemma held_cong: "accountReservations t = accountReservations s \<Longrightarrow> held j t = held j s"
  by (simp add: held_def)

lemma walletOf_walletId: "walletOf u c a s \<Longrightarrow> walletId u c s = Some (ac_id a)"
  by (auto simp: walletOf_def walletId_def)

lemma getOrCreateAccount_effect:
  assumes "getOrCreateAccount u c s = Inr (a, t)"
  shows "posted j t = posted j s" "held j t = held j s" "walletId u c t = Some (ac_id a)"
    "accountTxs t = accountTxs s" "accountReservations t = accountReservations s" "walletFrame s t"
  using holdsE_D [OF getOrCreateAccount_tables assms] posted_cong [of t s] held_cong [of t s]
    walletOf_walletId [OF getOrCreate_walletOf [OF assms]] holdsE_D [OF getOrCreateAccount_frame assms]
  by simp_all

lemma applyTransaction_effect:
  assumes "applyTransaction i d ty rt rid cb rv s = Inr ((x, b), t)"
  shows "posted j t = posted j s + (if j = i then d else 0)" "held j t = held j s"
    "tx_id x = freshId s" "tx_delta x = d" "tx_accountId x = i" "accountTxs t = accountTxs s @ [x]"
    "accountReservations t = accountReservations s" "walletFrame s t" "tx_refType x = rt" "tx_refId x = rid"
    "db_seq t = Suc (db_seq s)"
  using assms holdsE_D [OF applyTransaction_frame assms]
  by (auto simp: applyTransaction_def createAccountTx_def Let_def posted_def held_def
      dest: findAccount_SomeD split: option.splits if_splits)

lemma reserveFunds_effect:
  assumes "reserveFunds u c amt rt ri s = Inr ((a, r), t)"
  shows "posted j t = posted j s" "walletId u c t = Some (ac_id a)" "accountTxs t = accountTxs s"
    "findReservation rt ri (ac_id a) t = Some r" "ar_status r \<noteq> AccountReservationStatus.RELEASED"
    "findReservation rt ri (ac_id a) s = None \<Longrightarrow> held j t = held j s + (if j = ac_id a then amt else 0)"
    "findReservation rt ri (ac_id a) s = None \<Longrightarrow>
       ar_amount r = amt \<and> ar_status r = AccountReservationStatus.RESERVED"
    "findReservation rt ri (ac_id a) s \<noteq> None \<Longrightarrow> accountReservations t = accountReservations s" "walletFrame s t"
proof -
  from assms obtain b s' where 1: "getOrCreateAccount u c s = Inr (b, s')"
    and 2: "(case findAccount (ac_id b) s' of None \<Rightarrow> Inl (NotFoundException ''Account not found'')
     | Some fresh \<Rightarrow> (case findReservation rt ri (ac_id fresh) s' of
            Some existing \<Rightarrow> (if ar_status existing = AccountReservationStatus.RELEASED
                 then Inl (ConflictException ''Reservation already released'') else Inr ((fresh, existing), s'))
          | None \<Rightarrow> (if getUsableCapacity fresh < amt
                 then Inl (InsufficientCreditException ''Insufficient usable balance'')
               else bindE (createReservation (ac_id fresh) amt rt ri
                             AccountReservationStatus.RESERVED s') (\<lambda>reservation s.
                 let updated = fresh\<lparr>ac_blockedBalance := ac_blockedBalance fresh + amt\<rparr>
                 in Inr ((updated, reservation), updateAccount (ac_id fresh)
                           (\<lambda>a. a\<lparr>ac_blockedBalance := ac_blockedBalance fresh + amt\<rparr>) s))))) = Inr ((a, r), t)"
    unfolding reserveFunds_def bindE_Inr_iff by blast
  note e = getOrCreateAccount_effect [OF 1]
  have same: "findReservation rt ri k s' = findReservation rt ri k s" for k
    by (rule findReservation_cong [OF e(5)])
  have id: "ac_id a = ac_id b"
    using 2 by (auto simp: createReservation_def Let_def dest: findAccount_SomeD split: option.splits if_splits)
  show frame: "walletFrame s t" by (rule holdsE_D [OF reserveFunds_frame assms])
  have "walletFrame s' t"
    using 2 by (auto simp: createReservation_def Let_def acctKey_def intro!: walletFrame_then_update
        split: option.splits if_splits)
  then show "walletId u c t = Some (ac_id a)" unfolding id by (rule walletFrame_walletId [OF _ e(3)])
  show "posted j t = posted j s" "accountTxs t = accountTxs s"
    using 2 e(1,4) by (auto simp: createReservation_def Let_def posted_def split: option.splits if_splits)
  show "findReservation rt ri (ac_id a) t = Some r" "ar_status r \<noteq> AccountReservationStatus.RELEASED"
    "findReservation rt ri (ac_id a) s = None \<Longrightarrow>
       ar_amount r = amt \<and> ar_status r = AccountReservationStatus.RESERVED"
    "findReservation rt ri (ac_id a) s \<noteq> None \<Longrightarrow> accountReservations t = accountReservations s"
    using 2 e(5) by (auto simp: createReservation_def Let_def same [symmetric] findReservation_def find_append
        split: option.splits if_splits)
  show "held j t = held j s + (if j = ac_id a then amt else 0)" if "findReservation rt ri (ac_id a) s = None"
    using 2 e(2) id that
    by (auto simp: createReservation_def Let_def same held_def split: option.splits if_splits)
qed

lemma closeReservation_effect:
  assumes ok: "ledger_ok s" and r: "findReservation rt ri (ac_id a) s = Some r" "ar_status r = AccountReservationStatus.RESERVED"
    and st: "st \<noteq> AccountReservationStatus.RESERVED" and c: "closeReservation a r st s = Inr (q, t)"
  shows "posted j t = posted j s \<and> held j t = held j s - (if j = ac_id a then ar_amount r else 0) \<and>
    accountTxs t = accountTxs s \<and> walletFrame s t \<and>
    findReservation rt ri (ac_id a) t = Some (r\<lparr>ar_status := st\<rparr>)"
proof -
  have mem: "r \<in> set (accountReservations s)" "ar_accountId r = ac_id a" using findReservation_SomeD [OF r(1)] by auto
  have dist: "distinct (map ar_id (accountReservations s))" using ledger_okD(2) [OF ok] by blast
  have "held j t = held j s - (if j = ac_id a then ar_amount r else 0)"
    using c mem r st resv.rowsum_update [OF dist findReservation_id [OF ok mem(1)]]
    by (auto simp: closeReservation_def Let_def held_def split: if_splits)
  moreover have "findReservation rt ri (ac_id a) t = Some (r\<lparr>ar_status := st\<rparr>)"
    using c r by (auto simp: closeReservation_def Let_def findReservation_def find_updateRows split: if_splits)
  ultimately show ?thesis
    using c holdsE_D [OF closeReservation_frame c]
    by (auto simp: closeReservation_def Let_def posted_def split: if_splits)
qed

text \<open>The two ways to close a reservation have the same effect on the sums.\<close>

lemma closing_effect:
  assumes ok: "ledger_ok s"
    and run: "consumeFunds u c rt ri s = Inr (q, t) \<or> releaseFunds u c rt ri s = Inr (q, t)"
  shows "\<exists>w. walletId u c t = Some w \<and> (\<forall>j. posted j t = posted j s) \<and>
    (\<forall>j. held j t = held j s - (if j = w then openAmount rt ri w s else 0)) \<and> accountTxs t = accountTxs s \<and>
    walletFrame s t \<and> openAmount rt ri w t = 0"
proof -
  from run obtain a s' where 1: "getOrCreateAccount u c s = Inr (a, s')"
    unfolding consumeFunds_def releaseFunds_def bindE_Inr_iff by blast
  note e = getOrCreateAccount_effect [OF 1]
  have ok': "ledger_ok s'" and fa: "findAccount (ac_id a) s' = Some a"
    using holdsE_D [OF getOrCreateAccount_keeps [OF ok] 1] by auto
  have same: "findReservation rt ri k s' = findReservation rt ri k s" for k
    by (rule findReservation_cong [OF e(5)])
  have cases: "(t = s' \<and> openAmount rt ri (ac_id a) s = 0) \<or>
      (\<exists>r st. findReservation rt ri (ac_id a) s' = Some r \<and> ar_status r = AccountReservationStatus.RESERVED \<and>
         st \<noteq> AccountReservationStatus.RESERVED \<and> closeReservation a r st s' = Inr (q, t))"
    using run 1 fa
    by (cases "findReservation rt ri (ac_id a) s'"; cases "ar_status (the (findReservation rt ri (ac_id a) s'))")
      (auto simp: consumeFunds_def releaseFunds_def openAmount_def same [symmetric])
  then show ?thesis
  proof (elim disjE exE conjE)
    assume "t = s'" "openAmount rt ri (ac_id a) s = 0"
    moreover have "openAmount rt ri (ac_id a) s' = openAmount rt ri (ac_id a) s" by (simp add: openAmount_def same)
    ultimately show ?thesis using e by (intro exI [of _ "ac_id a"]) simp
  next
    fix r st
    assume r: "findReservation rt ri (ac_id a) s' = Some r" "ar_status r = AccountReservationStatus.RESERVED"
      and st: "st \<noteq> AccountReservationStatus.RESERVED" and c: "closeReservation a r st s' = Inr (q, t)"
    from closeReservation_effect [OF ok' r st c] e st r
    show ?thesis
      using walletFrame_walletId [of s' t u c "ac_id a"] walletFrame_trans [OF e(6), of t]
      by (intro exI [of _ "ac_id a"]) (simp add: openAmount_def same [symmetric])
  qed
qed

section \<open>Runs of the ledger\<close>

text \<open>A run is any sequence of successful calls; a call that throws rolls back and is no step.\<close>

inductive ledgerRun :: "db \<Rightarrow> db \<Rightarrow> bool" where
  run_start: "ledgerRun s s"
| run_account: "ledgerRun s t \<Longrightarrow> getOrCreateAccount u c t = Inr (a, t') \<Longrightarrow> ledgerRun s t'"
| run_reserve: "ledgerRun s t \<Longrightarrow> reserveFunds u c amount rt ri t = Inr (r, t') \<Longrightarrow> ledgerRun s t'"
| run_release: "ledgerRun s t \<Longrightarrow> releaseFunds u c rt ri t = Inr (x, t') \<Longrightarrow> ledgerRun s t'"
| run_consume: "ledgerRun s t \<Longrightarrow> consumeFunds u c rt ri t = Inr (x, t') \<Longrightarrow> ledgerRun s t'"
| run_apply: "ledgerRun s t \<Longrightarrow> applyTransaction i d ty rt rid cb rv t = Inr (x2, t') \<Longrightarrow> ledgerRun s t'"

lemma held_nonneg: "ledger_ok s \<Longrightarrow> 0 \<le> held i s"
  unfolding held_def by (rule total_nonneg) (use ledger_okD(5) in auto)

text \<open>Whatever amounts are reserved, the books of the accounts agree with their postings and reservations.\<close>

lemma ledger_inv_unsigned: "ledger_ok s \<Longrightarrow> ledger_inv False s"
  by (simp add: ledger_inv_def account_inv_def)

lemma ledgerRun_books: "ledgerRun s t \<Longrightarrow> ledger_inv False s \<Longrightarrow> ledger_inv False t"
  by (induction rule: ledgerRun.induct)
    (auto dest: holdsE_D [OF getOrCreateAccount_keeps] holdsE_D [OF reserveFunds_inv [where signed = False]]
      holdsE_D [OF releaseFunds_keeps] holdsE_D [OF consumeFunds_keeps] holdsE_D [OF applyTransaction_keeps])

text \<open>
  A reservation keeps its amount for good. So when no reservation is negative at the end of a run, none ever was,
  and the floor has been kept all along.
\<close>

definition amountsKept :: "db \<Rightarrow> db \<Rightarrow> bool" where
  "amountsKept s t \<longleftrightarrow> ar_amount ` set (accountReservations s) \<subseteq> ar_amount ` set (accountReservations t)"

lemma amountsKept_bind:
  assumes "holdsE (\<lambda>_. amountsKept s) m" "\<And>a t. amountsKept s t \<Longrightarrow> holdsE (\<lambda>_. amountsKept t) (f a t)"
  shows "holdsE (\<lambda>_. amountsKept s) (bindE m f)"
  by (rule holdsE_bind [OF assms(1)]) (rule holdsE_weaken [OF assms(2)], auto simp: amountsKept_def)

lemma amountsKept_rows [simp]:
  "amountsKept s s" "amountsKept s (updateAccount i f s)" "amountsKept s (bumpId s)"
  "amountsKept s ((bumpId s)\<lparr>accountReservations := accountReservations s @ [r]\<rparr>)"
  "amountsKept s ((bumpId s)\<lparr>accounts := as\<rparr>)" "amountsKept s (s\<lparr>users := us\<rparr>)"
  "amountsKept s (updateAccount i f ((bumpId s)\<lparr>accountTxs := ts\<rparr>))"
  "amountsKept s (updateAccount i f ((bumpId s)\<lparr>accountReservations := accountReservations s @ [r]\<rparr>))"
  by (auto simp: amountsKept_def)

lemma amountsKept_update [simp]:
  assumes "\<And>x. ar_amount (g x) = ar_amount x"
  shows "amountsKept s (updateAccount i f (updateReservation k g s))"
proof -
  have "set (map ar_amount (updateRows (\<lambda>r. ar_id r = k) g (accountReservations s))) = set (map ar_amount (accountReservations s))"
    using assms by (subst map_updateRows) simp_all
  then show ?thesis by (simp add: amountsKept_def)
qed

lemma getOrCreateAccount_amounts: "holdsE (\<lambda>_. amountsKept s) (getOrCreateAccount u c s)"
  unfolding getOrCreateAccount_def
  by (rule amountsKept_bind) (auto simp: ensureHouseUser_def createAccount_def Let_def split: option.split)

lemma reserveFunds_amounts: "holdsE (\<lambda>_. amountsKept s) (reserveFunds u c amt rt ri s)"
  unfolding reserveFunds_def
  by (rule amountsKept_bind [OF getOrCreateAccount_amounts])
    (auto split: option.split simp: Let_def createReservation_def intro!: amountsKept_bind)

lemma settle_amounts:
  "holdsE (\<lambda>_. amountsKept s) (releaseFunds u c rt ri s)" "holdsE (\<lambda>_. amountsKept s) (consumeFunds u c rt ri s)"
  unfolding releaseFunds_def consumeFunds_def
  by (rule amountsKept_bind [OF getOrCreateAccount_amounts],
      auto split: option.split simp: closeReservation_def Let_def)+

lemma applyTransaction_amounts: "holdsE (\<lambda>_. amountsKept s) (applyTransaction i d ty rt ri cb rv s)"
  unfolding applyTransaction_def createAccountTx_def by (simp split: option.split add: Let_def)

lemma amountsKept_nonneg:
  assumes "holdsE (\<lambda>_. amountsKept s) m" and "m = Inr (x, t)" and "\<forall>r\<in>set (accountReservations t). 0 \<le> ar_amount r"
  shows "\<forall>r\<in>set (accountReservations s). 0 \<le> ar_amount r"
  using holdsE_D [OF assms(1,2)] assms(3) unfolding amountsKept_def by (metis imageE imageI subsetD)

text \<open>A call that reserves: a new row has the amount, an old one is answered without asking for it.\<close>

lemma reserveFunds_signed:
  assumes ok: "ledger_ok s" and run: "reserveFunds u c amount rt ri s = Inr (x, t)"
    and nonneg: "\<forall>r\<in>set (accountReservations t). 0 \<le> ar_amount r"
  shows "ledger_ok t"
proof (cases "0 \<le> amount")
  case False
  obtain a s' where 1: "getOrCreateAccount u c s = Inr (a, s')"
    using run unfolding reserveFunds_def bindE_Inr_iff by blast
  then have "ledger_ok s'" using holdsE_D [OF getOrCreateAccount_keeps [OF ok]] by blast
  moreover have "t = s'" using run nonneg False
    by (auto simp: reserveFunds_def 1 createReservation_def Let_def bindE_Inr_iff split: option.splits if_splits)
  ultimately show ?thesis by simp
qed (use holdsE_D [OF reserveFunds_keeps [OF ok] run] in blast)

lemma ledgerRun_ok:
  assumes "ledgerRun s t" and "ledger_ok s" and "\<forall>r\<in>set (accountReservations t). 0 \<le> ar_amount r"
  shows "ledger_ok t"
  using assms
proof (induction rule: ledgerRun.induct)
  case (run_account s t u c a t')
  with amountsKept_nonneg [OF getOrCreateAccount_amounts] show ?case
    using holdsE_D [OF getOrCreateAccount_keeps run_account(2)] by blast
next
  case (run_reserve s t u c amount rt ri r t')
  with amountsKept_nonneg [OF reserveFunds_amounts] show ?case using reserveFunds_signed by blast
next
  case (run_release s t u c rt ri x t')
  with amountsKept_nonneg [OF settle_amounts(1)] show ?case
    using holdsE_D [OF releaseFunds_keeps run_release(2)] by blast
next
  case (run_consume s t u c rt ri x t')
  with amountsKept_nonneg [OF settle_amounts(2)] show ?case
    using holdsE_D [OF consumeFunds_keeps run_consume(2)] by blast
next
  case (run_apply s t i d ty rt rid cb rv x2 t')
  with amountsKept_nonneg [OF applyTransaction_amounts] show ?case
    using holdsE_D [OF applyTransaction_keeps run_apply(2)] by blast
qed

lemma ledgerRun_frame: "ledgerRun s t \<Longrightarrow> walletFrame s t"
  by (induction rule: ledgerRun.induct)
    (blast intro: walletFrame_refl walletFrame_trans dest: holdsE_D [OF getOrCreateAccount_frame] holdsE_D [OF reserveFunds_frame]
      holdsE_D [OF releaseFunds_frame] holdsE_D [OF consumeFunds_frame] holdsE_D [OF applyTransaction_frame])+

section \<open>A concrete ledger\<close>

text \<open>User \<open>ali\<close> with an IRR wallet of 100, posted by one deposit.\<close>

definition irr :: instrument where
  "irr = \<lparr>in_id = ''irr'', in_code = ''IRR'', in_name = ''Rial'', in_type = InstrumentType.FIAT,
    in_unit = InstrumentUnit.CURRENCY\<rparr>"

definition aliAccount :: account where
  "aliAccount = \<lparr>ac_id = unaryId 0, ac_userId = ''ali'', ac_instrumentId = ''irr'', ac_balance = 100,
                 ac_blockedBalance = 0, ac_minBalance = 0\<rparr>"

definition aliTx :: accountTx where
  "aliTx = \<lparr>tx_id = unaryId 1, tx_createdAt = 0, tx_accountId = unaryId 0, tx_delta = 100,
            tx_type = AccountTxType.DEPOSIT, tx_entrySide = AccountTxEntrySide.CREDIT,
            tx_refType = TxRefType.DEPOSIT, tx_refId = Some ''d1'', tx_createdById = None,
            tx_reversalOfId = None\<rparr>"

definition aliDb :: db where
  "aliDb = emptyDb\<lparr>db_seq := 2, instruments := [irr], accounts := [aliAccount], accountTxs := [aliTx]\<rparr>"

lemma aliDb_ok: "ledger_ok aliDb"
  using inj_unaryId
  by (auto simp: ledger_ok_def aliDb_def emptyDb_def keys_ok_def account_ok_def held_def posted_def
      aliAccount_def aliTx_def)

lemma aliDb_wallet: "walletOf ''ali'' ''IRR'' aliAccount aliDb"
  by (simp add: walletOf_def aliDb_def aliAccount_def irr_def findInstrument_def findAccountOf_def HOUSE_USER_ID_def)

lemma aliDb_reserve:
  obtains r t where "reserveFunds ''ali'' ''IRR'' 60 TxRefType.WITHDRAW ''w1'' aliDb =
      Inr ((aliAccount\<lparr>ac_blockedBalance := 60\<rparr>, r), t)"
    and "walletOf ''ali'' ''IRR'' (aliAccount\<lparr>ac_blockedBalance := 60\<rparr>) t"
    and "findReservation TxRefType.WITHDRAW ''w1'' (unaryId 0) t = Some r"
    and "ar_amount r = 60" "ar_status r = AccountReservationStatus.RESERVED"
    and "accountTxs t = [aliTx]"
  by (rule reserveFunds_fresh [OF aliDb_ok aliDb_wallet, of TxRefType.WITHDRAW "''w1''" 60])
    (auto simp: aliDb_def emptyDb_def findReservation_def getUsableCapacity_def aliAccount_def)

section \<open>Properties\<close>

text \<open>
  C1. In every state the wallet operations can reach from a sound one, whatever amounts they reserve and
  post, each account's balance is the sum of what was posted to it and its blocked balance is the sum of its
  open reservations. If besides no reservation has a negative amount (\<open>reserveFunds\<close> does not ask for it) and
  the minimum balances are at or above zero, the ledger is sound: the funds in reserve are never negative
  and never exceed the balance, so no wallet goes below zero.
\<close>

theorem ledger_never_overdrawn:
  assumes "ledgerRun s t" and "ledger_ok s" and "\<forall>a\<in>set (accounts s). 0 \<le> ac_minBalance a"
  shows "(\<forall>a\<in>set (accounts t). ac_balance a = posted (ac_id a) t \<and> ac_blockedBalance a = held (ac_id a) t) \<and>
    ((\<forall>r\<in>set (accountReservations t). 0 \<le> ar_amount r) \<longrightarrow>
       ledger_ok t \<and> (\<forall>a\<in>set (accounts t). 0 \<le> ac_blockedBalance a \<and> ac_blockedBalance a \<le> ac_balance a))"
proof (intro conjI impI)
  show "\<forall>a\<in>set (accounts t). ac_balance a = posted (ac_id a) t \<and> ac_blockedBalance a = held (ac_id a) t"
    using ledger_okD(8) [OF ledgerRun_books [OF assms(1) ledger_inv_unsigned [OF assms(2)]]]
    by (simp add: account_inv_def)
  assume "\<forall>r\<in>set (accountReservations t). 0 \<le> ar_amount r"
  then show ok: "ledger_ok t" by (rule ledgerRun_ok [OF assms(1,2)])
  have "0 \<le> ac_minBalance a" if "a \<in> set (accounts t)" for a
    using ledgerRun_frame [OF assms(1)] assms(3) that by (auto simp: walletFrame_def)
  with ledger_okD(8) [OF ok] held_nonneg [OF ok]
  show "\<forall>a\<in>set (accounts t). 0 \<le> ac_blockedBalance a \<and> ac_blockedBalance a \<le> ac_balance a"
    by (fastforce simp: account_inv_def)
qed

lemma ledger_never_overdrawn_witness:
  "\<exists>r t. reserveFunds ''ali'' ''IRR'' 60 TxRefType.WITHDRAW ''w1'' aliDb = Inr (r, t) \<and>
     ledger_ok t \<and> (\<forall>a\<in>set (accounts t). ac_blockedBalance a = held (ac_id a) t \<and> ac_blockedBalance a \<le> ac_balance a)"
proof -
  obtain r t where 1: "reserveFunds ''ali'' ''IRR'' 60 TxRefType.WITHDRAW ''w1'' aliDb = Inr (r, t)"
    by (rule aliDb_reserve)
  have run: "ledgerRun aliDb t" by (rule run_reserve [OF run_start 1])
  have "ledger_ok t" using holdsE_D [OF reserveFunds_keeps [OF aliDb_ok] 1] by simp
  with ledger_never_overdrawn [OF run aliDb_ok] 1 show ?thesis
    using ledger_okD(5) by (auto simp: aliDb_def aliAccount_def)
qed

text \<open>
  C28. A reservation that \<open>releaseFunds\<close> closes gives back exactly what it took: the wallet row is the
  one before the reservation, a second release changes nothing, and the reservation is terminal,
  since consuming it and reserving under the same reference are both refused.
\<close>

theorem reserve_release_restores:
  assumes ok: "ledger_ok s" and w: "walletOf u c a s" and pos: "0 \<le> amt"
    and new: "findReservation rt ri (ac_id a) s = None" and cap: "amt \<le> getUsableCapacity a"
  shows "\<exists>b r t t'. reserveFunds u c amt rt ri s = Inr ((b, r), t) \<and>
     getUsableCapacity b = getUsableCapacity a - amt \<and>
     releaseFunds u c rt ri t = Inr (Some (a, r\<lparr>ar_status := AccountReservationStatus.RELEASED\<rparr>), t') \<and>
     walletOf u c a t' \<and>
     releaseFunds u c rt ri t' = Inr (Some (a, r\<lparr>ar_status := AccountReservationStatus.RELEASED\<rparr>), t') \<and>
     consumeFunds u c rt ri t' = Inl (BadRequestException ''Reservation already released'') \<and>
     reserveFunds u c x rt ri t' = Inl (ConflictException ''Reservation already released'')"
proof -
  let ?b = "a\<lparr>ac_blockedBalance := ac_blockedBalance a + amt\<rparr>"
  obtain r t where t: "reserveFunds u c amt rt ri s = Inr ((?b, r), t)" "walletOf u c ?b t"
      "findReservation rt ri (ac_id ?b) t = Some r" "ar_amount r = amt"
      "ar_status r = AccountReservationStatus.RESERVED"
    by (rule reserveFunds_fresh [OF ok w new cap], rule that) simp_all
  have okt: "ledger_ok t" using holdsE_D [OF reserveFunds_keeps [OF ok pos] t(1)] .
  obtain t' where t': "closeReservation ?b r AccountReservationStatus.RELEASED t =
        Inr (Some (a, r\<lparr>ar_status := AccountReservationStatus.RELEASED\<rparr>), t')"
      "ledger_ok t'" "walletOf u c a t'"
      "findReservation rt ri (ac_id a) t' = Some (r\<lparr>ar_status := AccountReservationStatus.RELEASED\<rparr>)"
    by (rule closeReservation_open [OF okt t(2,3,5), of AccountReservationStatus.RELEASED]) (use t(4) in auto)
  have "releaseFunds u c rt ri t = Inr (Some (a, r\<lparr>ar_status := AccountReservationStatus.RELEASED\<rparr>), t')"
    using t t'(1) walletOf_getOrCreate [OF t(2)] walletOf_find [OF okt t(2)] by (simp add: releaseFunds_def)
  moreover have "releaseFunds u c rt ri t' = Inr (Some (a, r\<lparr>ar_status := AccountReservationStatus.RELEASED\<rparr>), t')"
    "consumeFunds u c rt ri t' = Inl (BadRequestException ''Reservation already released'')"
    using t' walletOf_getOrCreate [OF t'(3)] by (simp_all add: releaseFunds_def consumeFunds_def)
  moreover have "reserveFunds u c x rt ri t' = Inl (ConflictException ''Reservation already released'')"
    by (rule reserveFunds_released [OF t'(2-4)]) simp
  moreover have "getUsableCapacity ?b = getUsableCapacity a - amt" by (simp add: getUsableCapacity_def)
  ultimately show ?thesis using t(1) t'(3) by blast
qed

lemma reserve_release_restores_witness:
  "\<exists>b r t t'. reserveFunds ''ali'' ''IRR'' 60 TxRefType.WITHDRAW ''w1'' aliDb = Inr ((b, r), t) \<and>
     getUsableCapacity b = 40 \<and>
     releaseFunds ''ali'' ''IRR'' TxRefType.WITHDRAW ''w1'' t =
       Inr (Some (aliAccount, r\<lparr>ar_status := AccountReservationStatus.RELEASED\<rparr>), t')"
  using reserve_release_restores [OF aliDb_ok aliDb_wallet, of 60 TxRefType.WITHDRAW "''w1''" 0]
  by (auto simp: aliDb_def emptyDb_def findReservation_def getUsableCapacity_def aliAccount_def)

text \<open>
  Reserved funds can always be settled: whatever happened to the wallet since, consuming an open
  reservation succeeds, and so does the debit of its amount that follows it; the usable capacity of
  the wallet is the same before and after.
\<close>

theorem reserved_funds_settle:
  assumes ok: "ledger_ok s" and w: "walletOf u c a s"
    and r: "findReservation rt ri (ac_id a) s = Some r" "ar_status r = AccountReservationStatus.RESERVED"
    and new: "\<forall>x\<in>set (accountTxs s). tx_refType x = rt \<and> tx_refId x = Some ri \<longrightarrow> tx_accountId x \<noteq> ac_id a"
  shows "\<exists>q t x b t'. consumeFunds u c rt ri s = Inr (Some q, t) \<and>
     applyTransaction (ac_id a) (- ar_amount r) ty rt (Some ri) cb None t = Inr ((x, b), t') \<and>
     ac_balance b = ac_balance a - ar_amount r \<and> ac_blockedBalance b = ac_blockedBalance a - ar_amount r \<and>
     getUsableCapacity b = getUsableCapacity a"
proof -
  let ?b = "a\<lparr>ac_blockedBalance := ac_blockedBalance a - ar_amount r\<rparr>"
  obtain t where t: "closeReservation a r AccountReservationStatus.CONSUMED s =
        Inr (Some (?b, r\<lparr>ar_status := AccountReservationStatus.CONSUMED\<rparr>), t)"
      "ledger_ok t" "walletOf u c ?b t" "accountTxs t = accountTxs s"
    by (rule closeReservation_open [OF ok w r, of AccountReservationStatus.CONSUMED]) simp
  have consume: "consumeFunds u c rt ri s = Inr (Some (?b, r\<lparr>ar_status := AccountReservationStatus.CONSUMED\<rparr>), t)"
    using t(1) r walletOf_getOrCreate [OF w] walletOf_find [OF ok w] by (simp add: consumeFunds_def)
  have "account_ok s a" using account_found [OF ok walletOf_find [OF ok w]] by blast
  then have floor: "ac_blockedBalance ?b + ac_minBalance ?b \<le> ac_balance ?b + - ar_amount r"
    by (simp add: account_ok_def)
  have "findAccount (ac_id a) t = Some ?b" using walletOf_find [OF t(2,3)] by simp
  from applyTransaction_new [OF this floor, of rt ri ty cb] new t(4) obtain x t' where
    "applyTransaction (ac_id a) (- ar_amount r) ty rt (Some ri) cb None t =
       Inr ((x, ?b\<lparr>ac_balance := ac_balance ?b + - ar_amount r\<rparr>), t')"
    by auto
  with consume show ?thesis
    by (intro exI conjI) (assumption | simp add: getUsableCapacity_def)+
qed

lemma reserved_funds_settle_witness:
  "\<exists>r t q t2 x b t3. reserveFunds ''ali'' ''IRR'' 60 TxRefType.WITHDRAW ''w1'' aliDb = Inr (r, t) \<and>
     consumeFunds ''ali'' ''IRR'' TxRefType.WITHDRAW ''w1'' t = Inr (Some q, t2) \<and>
     applyTransaction (unaryId 0) (- 60) AccountTxType.WITHDRAW TxRefType.WITHDRAW (Some ''w1'') None None t2 =
       Inr ((x, b), t3) \<and> ac_balance b = 40"
proof -
  obtain r t where t: "reserveFunds ''ali'' ''IRR'' 60 TxRefType.WITHDRAW ''w1'' aliDb =
      Inr ((aliAccount\<lparr>ac_blockedBalance := 60\<rparr>, r), t)"
    "walletOf ''ali'' ''IRR'' (aliAccount\<lparr>ac_blockedBalance := 60\<rparr>) t"
    "findReservation TxRefType.WITHDRAW ''w1'' (unaryId 0) t = Some r"
    "ar_amount r = 60" "ar_status r = AccountReservationStatus.RESERVED" "accountTxs t = [aliTx]"
    by (rule aliDb_reserve)
  have ok: "ledger_ok t" using holdsE_D [OF reserveFunds_keeps [OF aliDb_ok] t(1)] by simp
  have id: "ac_id (aliAccount\<lparr>ac_blockedBalance := 60\<rparr>) = unaryId 0"
    and bal: "ac_balance (aliAccount\<lparr>ac_blockedBalance := 60\<rparr>) - 60 = 40"
    by (simp_all add: aliAccount_def)
  have "\<forall>x\<in>set (accountTxs t). tx_refType x = TxRefType.WITHDRAW \<and> tx_refId x = Some ''w1'' \<longrightarrow>
      tx_accountId x \<noteq> ac_id (aliAccount\<lparr>ac_blockedBalance := 60\<rparr>)"
    by (simp add: t(6) aliTx_def)
  from reserved_funds_settle [OF ok t(2) t(3) [folded id] t(5) this, unfolded id t(4) bal] t(1)
  show ?thesis by blast
qed

end
