(* ===== verification/Common.thy ===== *)
theory Common
  imports Prelude "HOL-Library.Product_Lexorder" "HOL-Library.Multiset"
begin

text \<open>
  \<open>common/db/tx.util.ts\<close> (the transaction retry loop), \<open>common/pagination/pagination.service.ts\<close>,
  the part of \<open>common/pagination/query-parsers.ts\<close> that works on strings, and \<open>Array.sort\<close> with a
  comparator, with the interface \<open>comparator\<close> of the comparators the services pass to it.
\<close>

section \<open>Sorting with a comparator\<close>

text \<open>
  \<open>xs.sort(cmp)\<close> is a stable sort; for a comparator that orders by a key there is only one stable
  result, which insertion computes.
\<close>

fun insertBy :: "('a \<Rightarrow> 'a \<Rightarrow> int) \<Rightarrow> 'a \<Rightarrow> 'a list \<Rightarrow> 'a list" where
  "insertBy cmp x [] = [x]"
| "insertBy cmp x (y # ys) = (if cmp x y \<le> 0 then x # y # ys else y # insertBy cmp x ys)"

definition sortBy :: "('a \<Rightarrow> 'a \<Rightarrow> int) \<Rightarrow> 'a list \<Rightarrow> 'a list" where
  "sortBy cmp xs = foldr (insertBy cmp) xs []"

lemma sortBy_rows: "mset (sortBy cmp xs) = mset xs" "length (sortBy cmp xs) = length xs"
proof -
  have "mset (insertBy cmp x ys) = add_mset x (mset ys)" for x ys by (induction ys) simp_all
  then show "mset (sortBy cmp xs) = mset xs" unfolding sortBy_def by (induction xs) simp_all
  then show "length (sortBy cmp xs) = length xs" by (metis size_mset)
qed

text \<open>A sum over a table does not depend on the order of its rows, and a filter can be moved into the sum.\<close>

lemma total_mset: "mset xs = mset ys \<Longrightarrow> total g xs = total g ys"
  unfolding total_def by (metis mset_map sum_mset_sum_list)

lemma total_filter: "total g (filter p xs) = total (\<lambda>x. if p x then g x else 0) xs"
  by (induction xs) simp_all

locale comparator =
  fixes cmp :: "'a \<Rightarrow> 'a \<Rightarrow> int" and key :: "'a \<Rightarrow> 'k::linorder"
  assumes cmp_le: "cmp a b \<le> 0 \<longleftrightarrow> key a \<le> key b"
begin

lemma insertBy_key: "insertBy cmp x xs = insort_key key x xs"
  by (induction xs) (simp_all add: cmp_le)

lemma sortBy_key: "sortBy cmp xs = sort_key key xs"
  unfolding sortBy_def sort_key_def by (induction xs) (simp_all add: insertBy_key)

lemma sortBy_mset: "mset (sortBy cmp xs) = mset xs" by (simp add: sortBy_key)
lemma sortBy_set: "set (sortBy cmp xs) = set xs" by (simp add: sortBy_key)
lemma sortBy_sorted: "sorted (map key (sortBy cmp xs))" by (simp add: sortBy_key)
lemma sortBy_stable: "filter (\<lambda>x. key x = k) (sortBy cmp xs) = filter (\<lambda>x. key x = k) xs"
  by (simp add: sortBy_key sort_key_stable)
lemma sortBy_Nil: "sortBy cmp xs = [] \<longleftrightarrow> xs = []"
  by (metis sortBy_set set_empty)

lemma sortBy_head:
  assumes "sortBy cmp xs = y # ys"
  shows "y \<in> set xs" "x \<in> set xs \<Longrightarrow> key y \<le> key x" "x \<in> set xs \<Longrightarrow> cmp y x \<le> 0"
proof -
  have set: "set xs = insert y (set ys)" using sortBy_set [of xs] assms by simp
  have "\<forall>z\<in>set ys. key y \<le> key z" using sortBy_sorted [of xs] assms by simp
  with set show "y \<in> set xs" "x \<in> set xs \<Longrightarrow> key y \<le> key x" "x \<in> set xs \<Longrightarrow> cmp y x \<le> 0"
    by (auto simp: cmp_le)
qed

end

section \<open>Decimals\<close>

text \<open>\<open>toFixed(6)\<close> of decimal.js rounds half away from zero.\<close>

definition toFixed6 :: "rat \<Rightarrow> rat" where
  "toFixed6 x = (if 0 \<le> x then of_int \<lfloor>x * 1000000 + 1 / 2\<rfloor> / 1000000
                 else - (of_int \<lfloor>(- x) * 1000000 + 1 / 2\<rfloor> / 1000000))"

section \<open>Decisions\<close>

text \<open>
  A request an administrator decides on: \<open>act\<close> is a handler that takes the id of a request, leaves an
  open one closed, and on one that is closed either throws or returns it unchanged. Two such handlers
  over the same requests (approve and reject) exclude each other.
\<close>

locale decision =
  fixes look :: "'i \<Rightarrow> 's \<Rightarrow> 'r option" and isOpen :: "'r \<Rightarrow> bool"
    and act :: "'i \<Rightarrow> 's \<Rightarrow> ('r, 's) outcome"
  assumes closes: "act i s = Inr (r, t) \<Longrightarrow> look i t = Some r \<and> (t = s \<or> \<not> isOpen r)"
    and decided: "look i s = Some r \<Longrightarrow> \<not> isOpen r \<Longrightarrow> act i s = Inr (r', t) \<Longrightarrow> r' = r \<and> t = s"
begin

lemma once: "act i s = Inr (r, t) \<Longrightarrow> act i t = Inr (r', t') \<Longrightarrow> r' = r \<and> t' = t"
  using closes [of i s r t] decided [of i t r r' t'] by fastforce

end

locale decision_pair =
  first: decision look isOpen approve + second: decision look isOpen reject
  for look :: "'i \<Rightarrow> 's \<Rightarrow> 'r option" and isOpen :: "'r \<Rightarrow> bool"
    and approve :: "'i \<Rightarrow> 's \<Rightarrow> ('r, 's) outcome" and reject :: "'i \<Rightarrow> 's \<Rightarrow> ('r, 's) outcome"
begin

lemma exclusive:
  assumes "approve i s = Inr (r, t)" "t \<noteq> s" "reject i t = Inr (r', t')"
  shows "r' = r \<and> t' = t"
  using first.closes [OF assms(1)] assms(2) second.decided [OF _ _ assms(3)] by blast

lemma exclusive':
  assumes "reject i s = Inr (r, t)" "t \<noteq> s" "approve i t = Inr (r', t')"
  shows "r' = r \<and> t' = t"
  using second.closes [OF assms(1)] assms(2) first.decided [OF _ _ assms(3)] by blast

end

section \<open>Transaction retries\<close>

datatype txError = PrismaKnownRequestError string "string option" | OtherError "string option"

definition isTransientPrismaError :: "txError \<Rightarrow> bool" where
  "isTransientPrismaError err =
     (case err of
        PrismaKnownRequestError code _ \<Rightarrow> code \<in> set [''P2034'', ''P2033'', ''P2028'']
      | OtherError msg \<Rightarrow>
          (let m = toLowerCase (withDefault msg [])
           in hasSubstring m ''deadlock'' \<or> hasSubstring m ''serialization failure'' \<or>
              hasSubstring m ''could not serialize'' \<or> hasSubstring m ''already closed'' \<or>
              hasSubstring m ''timeout''))"

text \<open>
  The loop of \<open>runInTx\<close>: \<open>run k\<close> is what the \<open>k\<close>-th \<open>$transaction\<close> does, the other argument counts
  the attempts left, and the result carries the delays slept, in milliseconds.
\<close>

fun txAttempts :: "(nat \<Rightarrow> txError + 'a) \<Rightarrow> nat \<Rightarrow> nat \<Rightarrow> nat \<Rightarrow> (txError + 'a) \<times> nat list" where
  "txAttempts run baseDelay attempt 0 = (Inl (OtherError (Some ''Exhausted transaction retries'')), [])"
| "txAttempts run baseDelay attempt (Suc left) =
     (case run attempt of
        Inr r \<Rightarrow> (Inr r, [])
      | Inl err \<Rightarrow>
          (if \<not> isTransientPrismaError err \<or> left = 0 then (Inl err, [])
           else let res = txAttempts run baseDelay (Suc attempt) left
                in (fst res, baseDelay * 2 ^ (attempt - 1) # snd res)))"

definition runInTx :: "(nat \<Rightarrow> txError + 'a) \<Rightarrow> nat option \<Rightarrow> nat option \<Rightarrow> (txError + 'a) \<times> nat list" where
  "runInTx run maxAttempts backoffMs =
     txAttempts run (withDefault backoffMs 100) 1 (withDefault maxAttempts 3)"

definition transientAt :: "(nat \<Rightarrow> txError + 'a) \<Rightarrow> nat \<Rightarrow> bool" where
  "transientAt run j \<longleftrightarrow> (\<exists>err. run j = Inl err \<and> isTransientPrismaError err)"

lemma txAttempts_spec:
  "0 < left \<Longrightarrow> \<exists>k<left. (\<forall>j<k. transientAt run (attempt + j)) \<and>
     (Suc k = left \<or> \<not> transientAt run (attempt + k)) \<and>
     txAttempts run base attempt left = (run (attempt + k), map (\<lambda>j. base * 2 ^ (attempt + j - 1)) [0..<k])"
proof (induction left arbitrary: attempt)
  case (Suc left)
  show ?case
  proof (cases "transientAt run attempt \<and> left \<noteq> 0")
    case False
    then have "txAttempts run base attempt (Suc left) = (run attempt, [])"
      by (auto simp: transientAt_def split: sum.splits)
    with False show ?thesis by (intro exI [of _ 0]) auto
  next
    case True
    then have "0 < left" by simp
    from Suc.IH [OF this, of "Suc attempt"] obtain k where k: "k < left"
      "\<forall>j<k. transientAt run (Suc attempt + j)" "Suc k = left \<or> \<not> transientAt run (Suc attempt + k)"
      "txAttempts run base (Suc attempt) left =
         (run (Suc attempt + k), map (\<lambda>j. base * 2 ^ (Suc attempt + j - 1)) [0..<k])" by blast
    have "txAttempts run base attempt (Suc left) =
        (run (attempt + Suc k), map (\<lambda>j. base * 2 ^ (attempt + j - 1)) [0..<Suc k])"
      using True k(4) by (auto simp: transientAt_def Let_def upt_conv_Cons map_Suc_upt [symmetric]
          simp del: upt_Suc)
    moreover have "\<forall>j<Suc k. transientAt run (attempt + j)"
      using True k(2) by (auto simp: less_Suc_eq_0_disj)
    ultimately show ?thesis using k(1,3) by (intro exI [of _ "Suc k"]) auto
  qed
qed simp

section \<open>Pagination\<close>

text \<open>\<open>Math.trunc\<close>; the numbers are finite.\<close>

definition trunc :: "rat \<Rightarrow> int" where
  "trunc x = (if 0 \<le> x then \<lfloor>x\<rfloor> else \<lceil>x\<rceil>)"

record skipTake =
  st_skip :: int
  st_take :: int
  st_page :: int
  st_limit :: int

record pageMeta =
  pm_totalItems :: int
  pm_page :: int
  pm_limit :: int
  pm_totalPages :: int
  pm_hasNextPage :: bool
  pm_hasPrevPage :: bool

definition getSkipTake :: "rat \<Rightarrow> rat \<Rightarrow> skipTake" where
  "getSkipTake page limit =
     (let sanitizedPage = max 1 (trunc page); sanitizedLimit = min (max 1 (trunc limit)) 100
      in \<lparr>st_skip = (sanitizedPage - 1) * sanitizedLimit, st_take = sanitizedLimit,
          st_page = sanitizedPage, st_limit = sanitizedLimit\<rparr>)"

definition meta :: "int \<Rightarrow> rat \<Rightarrow> rat \<Rightarrow> pageMeta" where
  "meta totalItems page limit =
     (let sanitized = getSkipTake page limit;
          totalPages = (if st_limit sanitized = 0 then 0 else \<lceil>rat_of_int totalItems / rat_of_int (st_limit sanitized)\<rceil>)
      in \<lparr>pm_totalItems = totalItems, pm_page = st_page sanitized, pm_limit = st_limit sanitized,
          pm_totalPages = totalPages, pm_hasNextPage = (st_page sanitized < totalPages),
          pm_hasPrevPage = (1 < st_page sanitized)\<rparr>)"

definition wrap :: "'a list \<Rightarrow> int \<Rightarrow> rat \<Rightarrow> rat \<Rightarrow> 'a list \<times> pageMeta" where
  "wrap items totalItems page limit =
     (let sanitized = getSkipTake page limit
      in (items, meta totalItems (of_int (st_page sanitized)) (of_int (st_limit sanitized))))"

definition resolvePaging :: "rat option \<Rightarrow> rat option \<Rightarrow> rat option \<Rightarrow> int \<times> int \<times> bool" where
  "resolvePaging page limit offset =
     (let lim = min (max (trunc (withDefault limit 20)) 1) 100
      in if page = None \<and> offset \<noteq> None
           then (\<lfloor>rat_of_int (max (trunc (withDefault offset 0)) 0) / rat_of_int lim\<rfloor> + 1, lim, True)
         else (max (trunc (withDefault page 1)) 1, lim, False))"

text \<open>\<open>items.slice(skip, skip + take)\<close> for \<open>skip \<ge> 0\<close>, as \<open>getStatementForUser\<close> takes a page.\<close>

definition pageOf :: "'a list \<Rightarrow> rat \<Rightarrow> rat \<Rightarrow> 'a list" where
  "pageOf xs page limit =
     (let st = getSkipTake page limit in take (nat (st_take st)) (drop (nat (st_skip st)) xs))"

lemma trunc_of_int [simp]: "trunc (of_int n) = n"
  by (simp add: trunc_def)

lemma getSkipTake_bounds:
  "1 \<le> st_page (getSkipTake p l)" "1 \<le> st_limit (getSkipTake p l)" "st_limit (getSkipTake p l) \<le> 100"
  "0 \<le> st_skip (getSkipTake p l)"
  by (auto simp: getSkipTake_def Let_def)

lemma concat_pages:
  "0 < m \<Longrightarrow> concat (map (\<lambda>p. take m (drop (p * m) xs)) [0..<n]) = take (n * m) xs"
  by (induction n) (simp_all add: take_add [symmetric] add.commute)

lemma page_before_end: "0 < m \<Longrightarrow> p < \<lceil>rat_of_int n / rat_of_int m\<rceil> \<longleftrightarrow> p * m < n"
  by (simp add: less_ceiling_iff pos_less_divide_eq flip: of_int_mult)

lemma pages_enough: "0 < m \<Longrightarrow> n \<le> \<lceil>rat_of_int n / rat_of_int m\<rceil> * m"
  using page_before_end [of m "\<lceil>rat_of_int n / rat_of_int m\<rceil>" n] by simp

text \<open>The pages put together, and what comes after a page.\<close>

lemma page_numbers:
  fixes xs :: "'a list" and limit :: rat
  defines "m \<equiv> min (max 1 (trunc limit)) 100" and "n \<equiv> \<lceil>rat_of_int (int (length xs)) / rat_of_int (min (max 1 (trunc limit)) 100)\<rceil>"
  shows "0 < m" "st_limit (getSkipTake p limit) = m" "st_take (getSkipTake p limit) = m"
    "st_skip (getSkipTake p limit) = (st_page (getSkipTake p limit) - 1) * m"
    "pm_totalPages (meta (int (length xs)) p limit) = n"
    "pm_hasNextPage (meta (int (length xs)) p limit) = (st_page (getSkipTake p limit) < n)"
    "pageOf xs (of_int (int q + 1)) limit = take (nat m) (drop (q * nat m) xs)"
proof -
  show m: "0 < m" by (simp add: m_def)
  show lim: "st_limit (getSkipTake p limit) = m" "st_take (getSkipTake p limit) = m"
    "st_skip (getSkipTake p limit) = (st_page (getSkipTake p limit) - 1) * m" for p
    by (simp_all add: getSkipTake_def Let_def m_def)
  show "pm_totalPages (meta (int (length xs)) p limit) = n"
    "pm_hasNextPage (meta (int (length xs)) p limit) = (st_page (getSkipTake p limit) < n)"
    using m by (simp_all add: meta_def Let_def lim n_def flip: m_def)
  show "pageOf xs (of_int (int q + 1)) limit = take (nat m) (drop (q * nat m) xs)"
    using m trunc_of_int [of "int q + 1"] by (simp add: pageOf_def Let_def lim) (simp add: getSkipTake_def Let_def nat_mult_distrib)
qed

lemma all_pages:
  "concat (map (\<lambda>p. pageOf xs (of_int (int p + 1)) limit)
     [0..<nat (pm_totalPages (meta (int (length xs)) 1 limit))]) = xs"
proof -
  let ?m = "min (max 1 (trunc limit)) 100"
  let ?n = "\<lceil>rat_of_int (int (length xs)) / rat_of_int ?m\<rceil>"
  have m: "0 < ?m" by simp
  have "0 \<le> rat_of_int (int (length xs)) / rat_of_int ?m" by simp
  then have "0 \<le> ?n" by linarith
  then have "int (length xs) \<le> int (nat ?n * nat ?m)" using m pages_enough [OF m, of "int (length xs)"] by simp
  then have "length xs \<le> nat ?n * nat ?m" by linarith
  then show ?thesis
    unfolding page_numbers(5,7) using m by (subst concat_pages) simp_all
qed

section \<open>Sort parameters\<close>

text \<open>
  One entry of \<open>normalizeSort\<close>, after \<open>trim\<close>: \<open>-field\<close>, \<open>field:direction\<close>, or a bare field with the
  direction hint. The \<open>field_direction\<close> form needs the regular expression of the source and is a
  parameter \<open>suffix\<close>, which returns the field and the direction when it matches.
\<close>

fun splitColon :: "string \<Rightarrow> string \<times> string option" where
  "splitColon [] = ([], None)"
| "splitColon (c # s) =
     (if c = CHR '':'' then ([], Some (takeWhile (\<lambda>x. x \<noteq> CHR '':'') s))
      else (c # fst (splitColon s), snd (splitColon s)))"

definition normalizeSortEntry ::
  "(string \<Rightarrow> (string \<times> string) option) \<Rightarrow> string option \<Rightarrow> string list option \<Rightarrow> string \<Rightarrow>
   err + (string \<times> string)" where
  "normalizeSortEntry suffix directionHint allowedFields entry =
     (let (field, direction) =
        (if startsWith entry ''-'' then (drop 1 entry, Some ''desc'')
         else if CHR '':'' \<in> set entry
           then (fst (splitColon entry),
                 (case snd (splitColon entry) of None \<Rightarrow> None
                  | Some d \<Rightarrow> if d = [] then None else Some (toLowerCase d)))
         else if CHR ''_'' \<in> set entry
           then (case suffix entry of Some (f, d) \<Rightarrow> (f, Some (toLowerCase d)) | None \<Rightarrow> (entry, None))
         else (entry, None));
          dir = (if truthy direction then the direction
                 else if directionHint = Some ''desc'' then ''desc'' else ''asc'')
      in if field = [] then Inl (BadRequestException ''must include a sort field'')
         else if dir \<noteq> ''asc'' \<and> dir \<noteq> ''desc''
           then Inl (BadRequestException ''must specify sort direction as asc or desc'')
         else if (case allowedFields of None \<Rightarrow> False | Some fs \<Rightarrow> fs \<noteq> [] \<and> field \<notin> set fs)
           then Inl (BadRequestException (''invalid sort field: '' @ field))
         else Inr (field, dir))"

section \<open>Properties\<close>

text \<open>
  \<open>runInTx\<close> with at least one attempt allowed returns exactly what some attempt did, at most the
  allowed number of attempts run, every earlier one failed with a transient error, the last one
  did not unless the attempts were used up, and the delays slept double from the base delay. The
  error "Exhausted transaction retries" is never thrown.
\<close>

theorem runInTx_retries:
  assumes "0 < n"
  shows "\<exists>k<n. (\<forall>j<k. transientAt run (1 + j)) \<and> (Suc k = n \<or> \<not> transientAt run (1 + k)) \<and>
    runInTx run (Some n) (Some base) = (run (1 + k), map (\<lambda>j. base * 2 ^ j) [0..<k])"
  using txAttempts_spec [OF assms, of run 1 base] by (simp add: runInTx_def)

lemma runInTx_retries_witness:
  "runInTx (\<lambda>k. if k = 1 then Inl (OtherError (Some ''Deadlock detected'')) else Inr k) (Some 3) (Some 100) =
     (Inr (2::nat), [100])"
proof -
  let ?run = "\<lambda>k. if k = 1 then Inl (OtherError (Some ''Deadlock detected'')) else Inr (k::nat)"
  have "\<exists>k<3. (\<forall>j<k. transientAt ?run (1 + j)) \<and> (Suc k = 3 \<or> \<not> transientAt ?run (1 + k)) \<and>
    runInTx ?run (Some 3) (Some 100) = (?run (1 + k), map (\<lambda>j. 100 * 2 ^ j) [0..<k])"
    by (rule runInTx_retries) simp
  moreover have "isTransientPrismaError (OtherError (Some ''Deadlock detected''))" by code_simp
  ultimately show ?thesis by (auto simp: transientAt_def less_Suc_eq numeral_3_eq_3)
qed

text \<open>
  The pages \<open>1, ..., totalPages\<close> of a list, cut as the services cut them, put together give the
  whole list, whatever page size the client asked for; and \<open>hasNextPage\<close> holds exactly when items
  come after the page.
\<close>

theorem pages_cover:
  "concat (map (\<lambda>p. pageOf xs (of_int (int p + 1)) limit)
     [0..<nat (pm_totalPages (meta (int (length xs)) 1 limit))]) = xs \<and>
   (pm_hasNextPage (meta (int (length xs)) page limit) \<longleftrightarrow>
      st_skip (getSkipTake page limit) + st_take (getSkipTake page limit) < int (length xs))"
proof
  show "pm_hasNextPage (meta (int (length xs)) page limit) \<longleftrightarrow>
      st_skip (getSkipTake page limit) + st_take (getSkipTake page limit) < int (length xs)"
    unfolding page_numbers page_before_end [OF page_numbers(1)] by (simp add: left_diff_distrib)
qed (rule all_pages)

end
