(* ===== verification/Policy.thy ===== *)
theory Policy
  imports Accounts Common
begin

text \<open>
  \<open>modules/policy\<close>: the selector normalisation, the context builder, \<open>PolicyResolutionService\<close> (the
  resolver the limits use: the most specific rule wins) and \<open>PolicyResolverService\<close> (the older one:
  the smallest limit wins). Both sort the rules with a comparator of their own; each is an
  interpretation of \<open>comparator\<close>, from which the choice of the best rule follows. A context field
  that may be undefined or null is an option of an option: \<open>None\<close> is undefined.
\<close>

section \<open>Selectors and contexts\<close>

text \<open>\<open>INSTRUMENT_TYPE\<close> is the source's \<open>TYPE\<close>, \<open>ALL_RULES\<close> its \<open>ALL\<close>; both words are reserved here.\<close>

datatype PolicySelectorSource = PRODUCT | INSTRUMENT | INSTRUMENT_TYPE | ALL_RULES

record selector =
  sel_productId :: "id option"
  sel_instrumentId :: "id option"
  sel_instrumentType :: "InstrumentType option"

definition normalizeSelector :: "selector \<Rightarrow> selector" where
  "normalizeSelector input =
     (if truthy (sel_productId input)
        then \<lparr>sel_productId = sel_productId input, sel_instrumentId = None, sel_instrumentType = None\<rparr>
      else if truthy (sel_instrumentId input)
        then \<lparr>sel_productId = None, sel_instrumentId = sel_instrumentId input, sel_instrumentType = None\<rparr>
      else if sel_instrumentType input \<noteq> None
        then \<lparr>sel_productId = None, sel_instrumentId = None, sel_instrumentType = sel_instrumentType input\<rparr>
      else \<lparr>sel_productId = None, sel_instrumentId = None, sel_instrumentType = None\<rparr>)"

record policyContext =
  pc_userId :: id
  pc_customerGroupId :: "id option option"
  pc_productId :: "id option"
  pc_instrumentId :: "id option"
  pc_instrumentType :: "InstrumentType option"
  pc_tradeType :: "TradeType option"
  pc_kycLevel :: "KycLevel option option"

record builtPolicyContext =
  bp_productId :: id
  bp_instrumentId :: id
  bp_instrumentType :: InstrumentType
  bp_tradeType :: TradeType

text \<open>The base instrument is there by the foreign key; reading a field of a missing one throws.\<close>

definition buildFromMarketProduct :: "id \<Rightarrow> db \<Rightarrow> err + builtPolicyContext" where
  "buildFromMarketProduct productId s =
     (case findFirst (\<lambda>p. mp_id p = productId) (marketProducts s) of
        None \<Rightarrow> Inl (NotFoundException ''MARKET_PRODUCT_NOT_FOUND'')
      | Some product \<Rightarrow>
          (case findFirst (\<lambda>i. in_id i = mp_baseInstrumentId product) (instruments s) of
             None \<Rightarrow> Inl (TypeError ''product.baseInstrument'')
           | Some baseInstrument \<Rightarrow>
               Inr \<lparr>bp_productId = mp_id product, bp_instrumentId = mp_baseInstrumentId product,
                    bp_instrumentType = in_type baseInstrument, bp_tradeType = mp_tradeType product\<rparr>))"

section \<open>Ranks\<close>

fun kycRank :: "KycLevel \<Rightarrow> int" where
  "kycRank KycLevel.NONE = 0" | "kycRank KycLevel.BASIC = 1" | "kycRank KycLevel.FULL = 2"

definition kycIndex :: "KycLevel option \<Rightarrow> int" where
  "kycIndex level = kycRank (withDefault level KycLevel.NONE)"

definition selectorUsed :: "policyRule \<Rightarrow> PolicySelectorSource" where
  "selectorUsed rule =
     (if truthy (pr_productId rule) then PRODUCT else if truthy (pr_instrumentId rule) then INSTRUMENT
      else if pr_instrumentType rule \<noteq> None then INSTRUMENT_TYPE else ALL_RULES)"

definition selectorRank :: "policyRule \<Rightarrow> int" where
  "selectorRank rule =
     (if truthy (pr_productId rule) then 0 else if truthy (pr_instrumentId rule) then 1
      else if pr_instrumentType rule \<noteq> None then 2 else 3)"

fun scopeRank :: "PolicyScopeType \<Rightarrow> int" where
  "scopeRank PolicyScopeType.USER = 0" | "scopeRank PolicyScopeType.GROUP = 1"
| "scopeRank PolicyScopeType.GLOBAL = 2"

definition matchesScope :: "policyRule \<Rightarrow> policyContext \<Rightarrow> bool" where
  "matchesScope rule context =
     (if pr_scopeType rule = PolicyScopeType.USER then pr_scopeUserId rule = Some (pc_userId context)
      else if pr_scopeType rule = PolicyScopeType.GROUP then Some (pr_scopeGroupId rule) = pc_customerGroupId context
      else True)"

definition matchesSelector :: "policyRule \<Rightarrow> policyContext \<Rightarrow> bool" where
  "matchesSelector rule context =
     (if truthy (pr_productId rule)
        then truthy (pc_productId context) \<and> pc_productId context = pr_productId rule
      else if truthy (pr_instrumentId rule)
        then truthy (pc_instrumentId context) \<and> pr_instrumentId rule = pc_instrumentId context
      else if pr_instrumentType rule \<noteq> None
        then pc_instrumentType context \<noteq> None \<and> pr_instrumentType rule = pc_instrumentType context
      else True)"

definition compareRules :: "policyRule \<Rightarrow> policyRule \<Rightarrow> int" where
  "compareRules a b =
     (let scopeDiff = scopeRank (pr_scopeType a) - scopeRank (pr_scopeType b);
          selectorDiff = selectorRank a - selectorRank b;
          priorityDiff = pr_priority a - pr_priority b;
          updatedDiff = pr_updatedAt b - pr_updatedAt a
      in if scopeDiff \<noteq> 0 then scopeDiff
         else if selectorDiff \<noteq> 0 then selectorDiff
         else if priorityDiff \<noteq> 0 then priorityDiff
         else if updatedDiff \<noteq> 0 then updatedDiff
         else pr_createdAt b - pr_createdAt a)"

definition hasRequiredKyc :: "KycLevel option \<Rightarrow> KycLevel \<Rightarrow> bool" where
  "hasRequiredKyc userLevel required = (kycIndex (Some required) \<le> kycIndex userLevel)"

section \<open>PolicyResolutionService\<close>

record policyCandidate =
  ca_rule :: policyRule
  ca_matches :: bool
  ca_selectorUsed :: PolicySelectorSource
  ca_selectorRank :: int
  ca_scopeRank :: int
  ca_eligibleByKyc :: bool

record selectedRule =
  se_rule :: policyRule
  se_value :: decimal
  se_source :: PolicyScopeType
  se_selectorUsed :: PolicySelectorSource

record policyTrace =
  tr_selected :: "selectedRule option"
  tr_candidates :: "policyCandidate list"
  tr_context :: policyContext
  tr_kycRequiredLevel :: "KycLevel option"

definition policyCandidateOf :: "policyContext \<Rightarrow> policyRule \<Rightarrow> policyCandidate" where
  "policyCandidateOf context rule =
     \<lparr>ca_rule = rule, ca_matches = matchesSelector rule context, ca_selectorUsed = selectorUsed rule,
      ca_selectorRank = selectorRank rule, ca_scopeRank = scopeRank (pr_scopeType rule),
      ca_eligibleByKyc = hasRequiredKyc (Option.bind (pc_kycLevel context) id) (pr_minKycLevel rule)\<rparr>"

definition lowestLevel :: "KycLevel option \<Rightarrow> KycLevel \<Rightarrow> KycLevel option" where
  "lowestLevel current level =
     (case current of None \<Rightarrow> Some level
      | Some c \<Rightarrow> if kycIndex (Some level) < kycIndex (Some c) then Some level else Some c)"

definition resolveFromRules ::
  "policyRule list \<Rightarrow> PolicyAction \<Rightarrow> PolicyMetric \<Rightarrow> PolicyPeriod \<Rightarrow> policyContext \<Rightarrow> policyTrace" where
  "resolveFromRules rules action metric period context =
     (let eligibleRules = filter (\<lambda>rule. matchesScope rule context \<and> pr_enabled rule) rules;
          candidates = map (policyCandidateOf context)
            (filter (\<lambda>rule. pr_action rule = action \<and> pr_metric rule = metric \<and> pr_period rule = period) eligibleRules);
          matching = filter (\<lambda>c. ca_matches c \<and> ca_eligibleByKyc c) candidates;
          blocked = filter (\<lambda>c. ca_matches c \<and> \<not> ca_eligibleByKyc c) candidates;
          sorted = sortBy (\<lambda>a b. compareRules (ca_rule a) (ca_rule b)) matching
      in \<lparr>tr_selected =
            (case sorted of [] \<Rightarrow> None
             | selected # _ \<Rightarrow> Some \<lparr>se_rule = ca_rule selected, se_value = dec (Some (pr_limit (ca_rule selected))),
                 se_source = pr_scopeType (ca_rule selected), se_selectorUsed = ca_selectorUsed selected\<rparr>),
          tr_candidates = candidates, tr_context = context,
          tr_kycRequiredLevel = foldl (\<lambda>cur c. lowestLevel cur (pr_minKycLevel (ca_rule c))) None blocked\<rparr>)"

definition getUserContext :: "id \<Rightarrow> db \<Rightarrow> err + (id \<times> id option \<times> KycLevel)" where
  "getUserContext userId s =
     (case findFirst (\<lambda>u. us_id u = userId) (users s) of
        None \<Rightarrow> Inl (NotFoundException ''USER_NOT_FOUND'')
      | Some user \<Rightarrow>
          Inr (us_id user, us_customerGroupId user,
               (case findFirst (\<lambda>k. uk_userId k = us_id user) (userKycs s) of
                  Some kyc \<Rightarrow> if uk_status kyc = KycStatus.VERIFIED then uk_level kyc else KycLevel.NONE
                | None \<Rightarrow> KycLevel.NONE)))"

definition hydrateContext :: "policyContext \<Rightarrow> db \<Rightarrow> err + policyContext" where
  "hydrateContext context s =
     (if pc_customerGroupId context \<noteq> None \<and> pc_kycLevel context \<noteq> None then Inr context
      else case getUserContext (pc_userId context) s of
        Inl e \<Rightarrow> Inl e
      | Inr (userId, grp, level) \<Rightarrow>
          Inr (context\<lparr>pc_customerGroupId := Some (orElse (Option.bind (pc_customerGroupId context) id) grp),
                       pc_kycLevel := Some (orElse (Option.bind (pc_kycLevel context) id) (Some level))\<rparr>))"

definition loadRulesForContext :: "policyContext \<Rightarrow> db \<Rightarrow> policyRule list" where
  "loadRulesForContext context s =
     findMany (\<lambda>r. pr_enabled r \<and>
       (pr_scopeType r = PolicyScopeType.USER \<and> pr_scopeUserId r = Some (pc_userId context) \<or>
        truthy (Option.bind (pc_customerGroupId context) id) \<and> pr_scopeType r = PolicyScopeType.GROUP \<and>
          pr_scopeGroupId r = Option.bind (pc_customerGroupId context) id \<or>
        pr_scopeType r = PolicyScopeType.GLOBAL)) (policyRules s)"

definition resolveWithTrace ::
  "PolicyAction \<Rightarrow> PolicyMetric \<Rightarrow> PolicyPeriod \<Rightarrow> policyContext \<Rightarrow> policyRule list option \<Rightarrow> db \<Rightarrow> err + policyTrace" where
  "resolveWithTrace action metric period context rules s =
     (case hydrateContext context s of
        Inl e \<Rightarrow> Inl e
      | Inr hydrated \<Rightarrow>
          Inr (resolveFromRules (withDefault rules (loadRulesForContext hydrated s)) action metric period hydrated))"

record policyResolution =
  po_value :: "decimal option"
  po_source :: "PolicyScopeType option"
  po_ruleId :: "id option"
  po_selectorUsed :: "PolicySelectorSource option"
  po_ruleUpdatedAt :: "time option"
  po_kycRequiredLevel :: "KycLevel option"

text \<open>The source \<open>'NONE'\<close> of an empty resolution is \<open>po_source = None\<close>.\<close>

definition resolvePolicy ::
  "PolicyAction \<Rightarrow> PolicyMetric \<Rightarrow> PolicyPeriod \<Rightarrow> policyContext \<Rightarrow> db \<Rightarrow> err + policyResolution" where
  "resolvePolicy action metric period context s =
     (case resolveWithTrace action metric period context None s of
        Inl e \<Rightarrow> Inl e
      | Inr tr \<Rightarrow>
          (case tr_selected tr of
             None \<Rightarrow> Inr \<lparr>po_value = None, po_source = None, po_ruleId = None, po_selectorUsed = None,
                          po_ruleUpdatedAt = None, po_kycRequiredLevel = tr_kycRequiredLevel tr\<rparr>
           | Some sel \<Rightarrow>
               Inr \<lparr>po_value = Some (se_value sel), po_source = Some (se_source sel),
                    po_ruleId = Some (pr_id (se_rule sel)), po_selectorUsed = Some (se_selectorUsed sel),
                    po_ruleUpdatedAt = Some (pr_updatedAt (se_rule sel)),
                    po_kycRequiredLevel = tr_kycRequiredLevel tr\<rparr>))"

section \<open>PolicyResolverService\<close>

record effectiveRules =
  ef_user :: user
  ef_userKyc :: "userKyc option"
  ef_rules :: "policyRule list"

definition resolverSelectorRank :: "policyRule \<Rightarrow> int" where
  "resolverSelectorRank rule =
     (if truthy (pr_instrumentId rule) then 0 else if pr_instrumentType rule \<noteq> None then 1 else 2)"

definition resolverCompareRules :: "policyRule \<Rightarrow> policyRule \<Rightarrow> int" where
  "resolverCompareRules a b =
     (let scopeDiff = scopeRank (pr_scopeType a) - scopeRank (pr_scopeType b);
          selectorDiff = resolverSelectorRank a - resolverSelectorRank b
      in if scopeDiff \<noteq> 0 then scopeDiff
         else if selectorDiff \<noteq> 0 then selectorDiff
         else if pr_priority a \<noteq> pr_priority b then pr_priority a - pr_priority b
         else pr_createdAt a - pr_createdAt b)"

definition getEffectiveRules :: "id \<Rightarrow> db \<Rightarrow> err + effectiveRules" where
  "getEffectiveRules userId s =
     (case findFirst (\<lambda>u. us_id u = userId) (users s) of
        None \<Rightarrow> Inl (NotFoundException ''User not found'')
      | Some user \<Rightarrow>
          Inr \<lparr>ef_user = user, ef_userKyc = findFirst (\<lambda>k. uk_userId k = us_id user) (userKycs s),
               ef_rules = sortBy resolverCompareRules
                 (findMany (\<lambda>r. pr_enabled r \<and>
                    (pr_scopeType r = PolicyScopeType.GLOBAL \<or>
                     pr_scopeType r = PolicyScopeType.GROUP \<and> pr_scopeGroupId r = us_customerGroupId user \<or>
                     pr_scopeType r = PolicyScopeType.USER \<and> pr_scopeUserId r = Some (us_id user)))
                   (policyRules s))\<rparr>)"

definition matchesRule ::
  "PolicyAction \<Rightarrow> PolicyMetric \<Rightarrow> PolicyPeriod \<Rightarrow> id option \<Rightarrow> InstrumentType option \<Rightarrow> policyRule \<Rightarrow> bool" where
  "matchesRule action metric period instrumentId instrumentType rule =
     (if pr_action rule \<noteq> action \<or> pr_metric rule \<noteq> metric \<or> pr_period rule \<noteq> period then False
      else if truthy (pr_instrumentId rule)
        then truthy instrumentId \<and> pr_instrumentId rule = instrumentId
      else if pr_instrumentType rule \<noteq> None
        then instrumentType \<noteq> None \<and> pr_instrumentType rule = instrumentType
      else True)"

definition findApplicableRules ::
  "policyRule list \<Rightarrow> PolicyAction \<Rightarrow> PolicyMetric \<Rightarrow> PolicyPeriod \<Rightarrow> id option \<Rightarrow> InstrumentType option \<Rightarrow>
   policyRule list" where
  "findApplicableRules rules action metric period instrumentId instrumentType =
     sortBy resolverCompareRules (filter (matchesRule action metric period instrumentId instrumentType) rules)"

definition computeEffectiveLimit :: "policyRule list \<Rightarrow> decimal option" where
  "computeEffectiveLimit rules =
     (case rules of [] \<Rightarrow> None
      | r # _ \<Rightarrow> Some (foldl (\<lambda>m rule. minDec (Some m) (Some (pr_limit rule))) (dec (Some (pr_limit r))) rules))"

record applicableRules =
  ap_kycLevel :: KycLevel
  ap_eligibleRules :: "policyRule list"
  ap_blockedByKycRules :: "policyRule list"
  ap_rulesApplied :: "policyRule list"
  ap_effectiveLimit :: "decimal option"
  ap_kycRequiredLevel :: "KycLevel option"

definition getApplicableRulesForRequest ::
  "id \<Rightarrow> PolicyAction \<Rightarrow> PolicyMetric \<Rightarrow> PolicyPeriod \<Rightarrow> id option \<Rightarrow> InstrumentType option \<Rightarrow> db \<Rightarrow>
   err + applicableRules" where
  "getApplicableRulesForRequest userId action metric period instrumentId instrumentType s =
     (case getEffectiveRules userId s of
        Inl e \<Rightarrow> Inl e
      | Inr effective \<Rightarrow>
          (let applicable = findApplicableRules (ef_rules effective) action metric period instrumentId instrumentType;
               userLevel = (case ef_userKyc effective of None \<Rightarrow> KycLevel.NONE | Some k \<Rightarrow> uk_level k);
               eligible = filter (\<lambda>r. kycRank (pr_minKycLevel r) \<le> kycRank userLevel) applicable;
               blocked = filter (\<lambda>r. kycRank userLevel < kycRank (pr_minKycLevel r)) applicable
           in Inr \<lparr>ap_kycLevel = userLevel, ap_eligibleRules = eligible, ap_blockedByKycRules = blocked,
                   ap_rulesApplied = applicable, ap_effectiveLimit = computeEffectiveLimit eligible,
                   ap_kycRequiredLevel = foldl (\<lambda>cur r. lowestLevel cur (pr_minKycLevel r)) None blocked\<rparr>))"

section \<open>The comparators\<close>

definition ruleKey :: "policyRule \<Rightarrow> int \<times> int \<times> int \<times> int \<times> int" where
  "ruleKey r = (scopeRank (pr_scopeType r), selectorRank r, pr_priority r, - pr_updatedAt r, - pr_createdAt r)"

definition resolverKey :: "policyRule \<Rightarrow> int \<times> int \<times> int \<times> int" where
  "resolverKey r = (scopeRank (pr_scopeType r), resolverSelectorRank r, pr_priority r, pr_createdAt r)"

lemma compareRules_le: "compareRules a b \<le> 0 \<longleftrightarrow> ruleKey a \<le> ruleKey b"
  by (auto simp: compareRules_def ruleKey_def Let_def less_eq_prod_def)

lemma resolverCompareRules_le: "resolverCompareRules a b \<le> 0 \<longleftrightarrow> resolverKey a \<le> resolverKey b"
  by (auto simp: resolverCompareRules_def resolverKey_def Let_def less_eq_prod_def)

interpretation candidateOrder:
  comparator "\<lambda>a b. compareRules (ca_rule a) (ca_rule b)" "\<lambda>c. ruleKey (ca_rule c)"
  by unfold_locales (rule compareRules_le)

interpretation resolverOrder: comparator resolverCompareRules resolverKey
  by unfold_locales (rule resolverCompareRules_le)

section \<open>What the resolution selects\<close>

text \<open>The rules that reach the choice: in scope, enabled, for the request, selected and within KYC.\<close>

definition inScope :: "PolicyAction \<Rightarrow> PolicyMetric \<Rightarrow> PolicyPeriod \<Rightarrow> policyContext \<Rightarrow> policyRule \<Rightarrow> bool" where
  "inScope action metric period context r \<longleftrightarrow> matchesScope r context \<and> pr_enabled r \<and> pr_action r = action \<and>
     pr_metric r = metric \<and> pr_period r = period \<and> matchesSelector r context"

definition withinKyc :: "policyContext \<Rightarrow> policyRule \<Rightarrow> bool" where
  "withinKyc context r = hasRequiredKyc (Option.bind (pc_kycLevel context) id) (pr_minKycLevel r)"

lemma resolveFromRules_unfold:
  "resolveFromRules rules action metric period context =
     \<lparr>tr_selected =
        (case sortBy (\<lambda>a b. compareRules (ca_rule a) (ca_rule b)) (map (policyCandidateOf context)
           (filter (\<lambda>r. inScope action metric period context r \<and> withinKyc context r) rules)) of
           [] \<Rightarrow> None
         | c # _ \<Rightarrow> Some \<lparr>se_rule = ca_rule c, se_value = pr_limit (ca_rule c),
             se_source = pr_scopeType (ca_rule c), se_selectorUsed = ca_selectorUsed c\<rparr>),
      tr_candidates = map (policyCandidateOf context) (filter (\<lambda>r. matchesScope r context \<and> pr_enabled r \<and>
         pr_action r = action \<and> pr_metric r = metric \<and> pr_period r = period) rules),
      tr_context = context,
      tr_kycRequiredLevel = foldl (\<lambda>cur c. lowestLevel cur (pr_minKycLevel (ca_rule c))) None
        (map (policyCandidateOf context)
          (filter (\<lambda>r. inScope action metric period context r \<and> \<not> withinKyc context r) rules))\<rparr>"
  unfolding resolveFromRules_def Let_def
  by (simp add: filter_map o_def policyCandidateOf_def inScope_def withinKyc_def conj_ac cong: conj_cong list.case_cong)

lemma candidate_rule [simp]: "ca_rule (policyCandidateOf context r) = r"
  by (simp add: policyCandidateOf_def)

lemma candidates_rules: "c \<in> set (map (policyCandidateOf context) rs) \<Longrightarrow> ca_rule c \<in> set rs"
  by auto

lemma lowestLevel_fold:
  "foldl lowestLevel cur ls = None \<longleftrightarrow> cur = None \<and> ls = []"
  "foldl lowestLevel cur ls = Some l \<Longrightarrow>
     l \<in> set_option cur \<union> set ls \<and> (\<forall>m \<in> set_option cur \<union> set ls. kycRank l \<le> kycRank m)"
proof (induction ls arbitrary: cur)
  case Nil
  { case 1 show ?case by simp }
  { case 2 then show ?case by simp }
next
  case (Cons x ls)
  { case 1 show ?case using Cons.IH(1) [of "lowestLevel cur x"] by (auto simp: lowestLevel_def split: option.splits) }
  { case 2 then show ?case using Cons.IH(2) [of "lowestLevel cur x"]
      by (auto simp: lowestLevel_def kycIndex_def split: option.splits if_splits) }
qed

lemma foldl_map_lowest:
  "foldl (\<lambda>cur c. lowestLevel cur (pr_minKycLevel (f c))) cur cs = foldl lowestLevel cur (map (\<lambda>c. pr_minKycLevel (f c)) cs)"
  by (induction cs arbitrary: cur) simp_all

lemma foldl_minDec: "foldl (\<lambda>m r. min m (pr_limit r)) d rs = Min (insert d (pr_limit ` set rs))"
proof (induction rs arbitrary: d)
  case (Cons r rs)
  then show ?case by (cases "rs = []") (simp_all add: min.assoc insert_commute)
qed simp

text \<open>Either no rule qualifies and none is selected, or the selected rule qualifies and comes first.\<close>

lemma resolution_choice:
  obtains (none) "tr_selected (resolveFromRules rules action metric period context) = None"
      "\<And>r. r \<in> set rules \<Longrightarrow> \<not> (inScope action metric period context r \<and> withinKyc context r)"
  | (some) sel where "tr_selected (resolveFromRules rules action metric period context) = Some sel"
      "se_rule sel \<in> set rules" "inScope action metric period context (se_rule sel)" "withinKyc context (se_rule sel)"
      "se_value sel = pr_limit (se_rule sel)" "se_source sel = pr_scopeType (se_rule sel)"
      "\<And>r. r \<in> set rules \<Longrightarrow> inScope action metric period context r \<Longrightarrow> withinKyc context r \<Longrightarrow>
         ruleKey (se_rule sel) \<le> ruleKey r"
proof -
  let ?rs = "filter (\<lambda>r. inScope action metric period context r \<and> withinKyc context r) rules"
  let ?cs = "map (policyCandidateOf context) ?rs"
  show thesis
  proof (cases "sortBy (\<lambda>a b. compareRules (ca_rule a) (ca_rule b)) ?cs")
    case Nil
    then have "?rs = []" using candidateOrder.sortBy_Nil [of ?cs] by simp
    with Nil show thesis by (intro none) (auto simp: resolveFromRules_unfold filter_empty_conv)
  next
    case (Cons c cs)
    have "ca_rule c \<in> set ?rs" using candidateOrder.sortBy_head(1) [OF Cons] by auto
    moreover have "ruleKey (ca_rule c) \<le> ruleKey r" if "r \<in> set ?rs" for r
      using candidateOrder.sortBy_head(2) [OF Cons, of "policyCandidateOf context r"] that by simp
    ultimately show thesis using Cons by (intro some) (auto simp: resolveFromRules_unfold)
  qed
qed

section \<open>Properties\<close>

text \<open>
  The specification of the choice, on the columns of a rule. What a rule is about is its product, else its
  instrument, else its type of instrument, else everything; an empty identifier counts as none.
\<close>

datatype ruleSubject = ForProduct id | ForInstrument id | ForType InstrumentType | ForAll

definition subjectOf :: "policyRule \<Rightarrow> ruleSubject" where
  "subjectOf r =
     (case (pr_productId r, pr_instrumentId r, pr_instrumentType r) of
        (Some (c # cs), _, _) \<Rightarrow> ForProduct (c # cs)
      | (_, Some (c # cs), _) \<Rightarrow> ForInstrument (c # cs)
      | (_, _, Some ty) \<Rightarrow> ForType ty
      | _ \<Rightarrow> ForAll)"

definition ruleApplies ::
  "PolicyAction \<Rightarrow> PolicyMetric \<Rightarrow> PolicyPeriod \<Rightarrow> policyContext \<Rightarrow> policyRule \<Rightarrow> bool" where
  "ruleApplies action metric period context r \<longleftrightarrow>
     pr_enabled r \<and> (pr_action r, pr_metric r, pr_period r) = (action, metric, period) \<and>
     (case pr_scopeType r of
        PolicyScopeType.GLOBAL \<Rightarrow> True
      | PolicyScopeType.GROUP \<Rightarrow> pc_customerGroupId context = Some (pr_scopeGroupId r)
      | PolicyScopeType.USER \<Rightarrow> pr_scopeUserId r = Some (pc_userId context)) \<and>
     (case subjectOf r of
        ForProduct p \<Rightarrow> pc_productId context = Some p
      | ForInstrument i \<Rightarrow> pc_instrumentId context = Some i
      | ForType ty \<Rightarrow> pc_instrumentType context = Some ty
      | ForAll \<Rightarrow> True) \<and>
     (case pr_minKycLevel r of
        KycLevel.NONE \<Rightarrow> True
      | KycLevel.BASIC \<Rightarrow> pc_kycLevel context \<in> {Some (Some KycLevel.BASIC), Some (Some KycLevel.FULL)}
      | KycLevel.FULL \<Rightarrow> pc_kycLevel context = Some (Some KycLevel.FULL))"

text \<open>When one rule is preferred to another: by scope, then by subject, priority, update and creation.\<close>

definition scopeBefore :: "PolicyScopeType \<Rightarrow> PolicyScopeType \<Rightarrow> bool" where
  "scopeBefore x y \<longleftrightarrow> (x, y) \<in> {(PolicyScopeType.USER, PolicyScopeType.GROUP),
     (PolicyScopeType.USER, PolicyScopeType.GLOBAL), (PolicyScopeType.GROUP, PolicyScopeType.GLOBAL)}"

fun subjectBefore :: "ruleSubject \<Rightarrow> ruleSubject \<Rightarrow> bool" where
  "subjectBefore (ForProduct p) y = (case y of ForProduct q \<Rightarrow> False | _ \<Rightarrow> True)"
| "subjectBefore (ForInstrument i) y = (case y of ForType ty \<Rightarrow> True | ForAll \<Rightarrow> True | _ \<Rightarrow> False)"
| "subjectBefore (ForType ty) y = (y = ForAll)"
| "subjectBefore ForAll y = False"

definition preferred :: "policyRule \<Rightarrow> policyRule \<Rightarrow> bool" where
  "preferred a b \<longleftrightarrow>
     (if pr_scopeType a \<noteq> pr_scopeType b then scopeBefore (pr_scopeType a) (pr_scopeType b)
      else if subjectBefore (subjectOf a) (subjectOf b) \<or> subjectBefore (subjectOf b) (subjectOf a)
        then subjectBefore (subjectOf a) (subjectOf b)
      else if pr_priority a \<noteq> pr_priority b then pr_priority a < pr_priority b
      else if pr_updatedAt a \<noteq> pr_updatedAt b then pr_updatedAt b < pr_updatedAt a
      else pr_createdAt b \<le> pr_createdAt a)"

lemma ruleApplies_iff:
  "ruleApplies action metric period context r \<longleftrightarrow> inScope action metric period context r \<and> withinKyc context r"
proof -
  have scope: "matchesScope r context \<longleftrightarrow> (case pr_scopeType r of
        PolicyScopeType.GLOBAL \<Rightarrow> True
      | PolicyScopeType.GROUP \<Rightarrow> pc_customerGroupId context = Some (pr_scopeGroupId r)
      | PolicyScopeType.USER \<Rightarrow> pr_scopeUserId r = Some (pc_userId context))"
    by (auto simp: matchesScope_def split: PolicyScopeType.split)
  have sub: "matchesSelector r context \<longleftrightarrow> (case subjectOf r of
        ForProduct p \<Rightarrow> pc_productId context = Some p
      | ForInstrument i \<Rightarrow> pc_instrumentId context = Some i
      | ForType ty \<Rightarrow> pc_instrumentType context = Some ty
      | ForAll \<Rightarrow> True)"
    by (auto simp: matchesSelector_def subjectOf_def truthy_def split: option.splits list.splits)
  have kyc: "withinKyc context r \<longleftrightarrow> (case pr_minKycLevel r of
        KycLevel.NONE \<Rightarrow> True
      | KycLevel.BASIC \<Rightarrow> pc_kycLevel context \<in> {Some (Some KycLevel.BASIC), Some (Some KycLevel.FULL)}
      | KycLevel.FULL \<Rightarrow> pc_kycLevel context = Some (Some KycLevel.FULL))"
  proof -
    have level: "kycRank l = 0 \<longleftrightarrow> l = KycLevel.NONE" "kycRank l = 1 \<longleftrightarrow> l = KycLevel.BASIC"
      "kycRank l = 2 \<longleftrightarrow> l = KycLevel.FULL" "0 \<le> kycRank l" "kycRank l \<le> 2" for l
      by (cases l; simp)+
    show ?thesis
      by (cases "pr_minKycLevel r"; cases "pc_kycLevel context"; cases "the (pc_kycLevel context)";
          cases "the (the (pc_kycLevel context))")
        (auto simp: withinKyc_def hasRequiredKyc_def kycIndex_def)
  qed
  show ?thesis unfolding ruleApplies_def inScope_def scope sub kyc by auto
qed

lemma preferred_iff: "preferred a b \<longleftrightarrow> ruleKey a \<le> ruleKey b"
proof -
  have rank: "selectorRank r = (case subjectOf r of ForProduct p \<Rightarrow> 0 | ForInstrument i \<Rightarrow> 1 | ForType ty \<Rightarrow> 2 | ForAll \<Rightarrow> 3)" for r
    by (auto simp: selectorRank_def subjectOf_def truthy_def split: option.splits list.splits)
  have sub: "subjectBefore (subjectOf x) (subjectOf y) \<longleftrightarrow> selectorRank x < selectorRank y" for x y
    by (cases "subjectOf x"; cases "subjectOf y") (simp_all add: rank)
  have sc: "scopeBefore x y \<longleftrightarrow> scopeRank x < scopeRank y" "x = y \<longleftrightarrow> scopeRank x = scopeRank y" for x y
    by (cases x; cases y; simp add: scopeBefore_def)+
  show ?thesis unfolding preferred_def sub sc ruleKey_def less_eq_prod_def by auto
qed

text \<open>
  C13. The rule \<open>resolveFromRules\<close> selects is the best one of those that apply: enabled, for the action, metric and
  period asked, of the user, of his group or global, about the product, the instrument or the type of the
  request or about everything, and within the user's KYC level; no rule that applies is preferred to it (user
  before group before global, product before instrument before type before all, smaller priority, later update,
  later creation), and its limit is the value answered. Nothing is selected exactly when no rule applies.
\<close>

theorem resolution_selects_best:
  "(tr_selected (resolveFromRules rules action metric period context) = None \<longleftrightarrow>
      \<not> (\<exists>r\<in>set rules. ruleApplies action metric period context r)) \<and>
   (\<forall>sel. tr_selected (resolveFromRules rules action metric period context) = Some sel \<longrightarrow>
      se_rule sel \<in> set rules \<and> ruleApplies action metric period context (se_rule sel) \<and>
      se_value sel = pr_limit (se_rule sel) \<and> se_source sel = pr_scopeType (se_rule sel) \<and>
      (\<forall>r\<in>set rules. ruleApplies action metric period context r \<longrightarrow> preferred (se_rule sel) r))"
  unfolding ruleApplies_iff preferred_iff
  by (rule resolution_choice [of rules action metric period "context"]) auto

definition aRule :: policyRule where
  "aRule = \<lparr>pr_id = ''r'', pr_createdAt = 0, pr_updatedAt = 0, pr_scopeType = PolicyScopeType.GLOBAL,
     pr_scopeUserId = None, pr_scopeGroupId = None, pr_action = PolicyAction.TRADE_BUY,
     pr_metric = PolicyMetric.NOTIONAL_IRR, pr_period = PolicyPeriod.DAILY, pr_limit = 5,
     pr_minKycLevel = KycLevel.NONE, pr_instrumentId = None, pr_instrumentType = None,
     pr_productId = None, pr_enabled = True, pr_priority = 100, pr_note = None\<rparr>"

lemma resolution_selects_best_witness:
  "\<exists>sel. tr_selected (resolveFromRules
      [aRule, aRule\<lparr>pr_scopeType := PolicyScopeType.GROUP, pr_scopeGroupId := Some ''vip'',
         pr_productId := Some ''coin'', pr_limit := 3\<rparr>]
      PolicyAction.TRADE_BUY PolicyMetric.NOTIONAL_IRR PolicyPeriod.DAILY
      \<lparr>pc_userId = ''u'', pc_customerGroupId = Some (Some ''vip''), pc_productId = Some ''coin'', pc_instrumentId = None,
       pc_instrumentType = None, pc_tradeType = None, pc_kycLevel = Some (Some KycLevel.NONE)\<rparr>) = Some sel \<and>
     se_value sel = 3 \<and> se_source sel = PolicyScopeType.GROUP"
  (is "\<exists>sel. tr_selected (resolveFromRules [?r, ?g] ?a ?m ?p ?c) = Some sel \<and> _")
proof -
  have ok: "ruleApplies ?a ?m ?p ?c ?g" and second: "\<not> preferred ?r ?g"
    by (simp_all add: ruleApplies_def subjectOf_def preferred_def scopeBefore_def aRule_def)
  from resolution_selects_best [of "[?r, ?g]" ?a ?m ?p ?c] ok second
  show ?thesis
    by (cases "tr_selected (resolveFromRules [?r, ?g] ?a ?m ?p ?c)") auto
qed

text \<open>
  The KYC level the resolution asks for is the lowest level that would let one more rule through:
  it is the minimum level of a rule that covers the request and that the user's level misses, every
  other such rule needs at least as much, and it is absent exactly when KYC blocks no rule.
\<close>

theorem kyc_required_is_lowest:
  "(case tr_kycRequiredLevel (resolveFromRules rules action metric period context) of
      None \<Rightarrow> \<forall>r\<in>set rules. inScope action metric period context r \<longrightarrow> withinKyc context r
    | Some l \<Rightarrow> (\<exists>r\<in>set rules. inScope action metric period context r \<and> \<not> withinKyc context r \<and> pr_minKycLevel r = l) \<and>
        (\<forall>r\<in>set rules. inScope action metric period context r \<and> \<not> withinKyc context r \<longrightarrow>
           kycRank l \<le> kycRank (pr_minKycLevel r)) \<and>
        kycIndex (Option.bind (pc_kycLevel context) id) < kycRank l)"
proof -
  let ?rs = "filter (\<lambda>r. inScope action metric period context r \<and> \<not> withinKyc context r) rules"
  have eq: "tr_kycRequiredLevel (resolveFromRules rules action metric period context) =
      foldl lowestLevel None (map pr_minKycLevel ?rs)"
    by (simp add: resolveFromRules_unfold foldl_map_lowest o_def)
  have low: "kycIndex (Option.bind (pc_kycLevel context) id) < kycRank (pr_minKycLevel r)"
    if "\<not> withinKyc context r" for r
    using that by (simp add: withinKyc_def hasRequiredKyc_def kycIndex_def)
  show ?thesis
    unfolding eq using lowestLevel_fold [of None "map pr_minKycLevel ?rs"] low
    by (fastforce split: option.split simp: filter_empty_conv)
qed

lemma kyc_required_is_lowest_witness:
  "tr_kycRequiredLevel (resolveFromRules
     [\<lparr>pr_id = ''r'', pr_createdAt = 0, pr_updatedAt = 0, pr_scopeType = PolicyScopeType.GLOBAL,
        pr_scopeUserId = None, pr_scopeGroupId = None, pr_action = PolicyAction.TRADE_BUY,
        pr_metric = PolicyMetric.COUNT, pr_period = PolicyPeriod.DAILY, pr_limit = 5,
        pr_minKycLevel = KycLevel.FULL, pr_instrumentId = None, pr_instrumentType = None,
        pr_productId = None, pr_enabled = True, pr_priority = 100, pr_note = None\<rparr>]
     PolicyAction.TRADE_BUY PolicyMetric.COUNT PolicyPeriod.DAILY
     \<lparr>pc_userId = ''ali'', pc_customerGroupId = Some None, pc_productId = None, pc_instrumentId = None,
       pc_instrumentType = None, pc_tradeType = None, pc_kycLevel = Some (Some KycLevel.NONE)\<rparr>) = Some KycLevel.FULL"
  (is "tr_kycRequiredLevel (resolveFromRules [?r] ?a ?m ?p ?c) = _")
proof -
  have "inScope ?a ?m ?p ?c ?r" "\<not> withinKyc ?c ?r"
    by (simp_all add: inScope_def withinKyc_def matchesScope_def matchesSelector_def hasRequiredKyc_def kycIndex_def)
  then show ?thesis
    using kyc_required_is_lowest [of "[?r]" ?a ?m ?p ?c]
    by (auto split: option.splits)
qed

text \<open>
  The older resolver applies the smallest limit: the effective limit of a request is the minimum
  over the eligible rules, which are all within the user's KYC level, and there is a limit exactly
  when a rule is eligible.
\<close>

theorem effective_limit_is_min:
  assumes "getApplicableRulesForRequest u action metric period i ty s = Inr a"
  shows "ap_effectiveLimit a =
      (if ap_eligibleRules a = [] then None else Some (Min (pr_limit ` set (ap_eligibleRules a)))) \<and>
    (\<forall>r\<in>set (ap_eligibleRules a). matchesRule action metric period i ty r \<and> pr_enabled r \<and>
       r \<in> set (policyRules s) \<and> kycRank (pr_minKycLevel r) \<le> kycRank (ap_kycLevel a))"
proof -
  have limit: "computeEffectiveLimit rs = (if rs = [] then None else Some (Min (pr_limit ` set rs)))" for rs
    using foldl_minDec [of "pr_limit (hd rs)" rs] by (cases rs) (auto simp: computeEffectiveLimit_def)
  from assms obtain ef where ef: "getEffectiveRules u s = Inr ef"
    by (cases "getEffectiveRules u s") (simp_all add: getApplicableRulesForRequest_def)
  let ?app = "findApplicableRules (ef_rules ef) action metric period i ty"
  have a: "ap_effectiveLimit a = computeEffectiveLimit (ap_eligibleRules a)"
    "ap_eligibleRules a = filter (\<lambda>r. kycRank (pr_minKycLevel r) \<le> kycRank (ap_kycLevel a)) ?app"
    using assms by (auto simp: getApplicableRulesForRequest_def ef Let_def)
  have "r \<in> set (policyRules s) \<and> pr_enabled r" if "r \<in> set (ef_rules ef)" for r
    using ef that by (auto simp: getEffectiveRules_def resolverOrder.sortBy_set split: option.splits)
  then have "matchesRule action metric period i ty r \<and> pr_enabled r \<and> r \<in> set (policyRules s)"
    if "r \<in> set ?app" for r
    using that by (simp add: findApplicableRules_def resolverOrder.sortBy_set)
  then show ?thesis unfolding a(1) limit by (simp add: a(2))
qed

lemma effective_limit_is_min_witness:
  "\<exists>a. getApplicableRulesForRequest HOUSE_USER_ID PolicyAction.TRADE_BUY PolicyMetric.COUNT PolicyPeriod.DAILY
         None None (emptyDb\<lparr>users := [houseUser], policyRules :=
     [\<lparr>pr_id = ''r'', pr_createdAt = 0, pr_updatedAt = 0, pr_scopeType = PolicyScopeType.GLOBAL,
        pr_scopeUserId = None, pr_scopeGroupId = None, pr_action = PolicyAction.TRADE_BUY,
        pr_metric = PolicyMetric.COUNT, pr_period = PolicyPeriod.DAILY, pr_limit = 5,
        pr_minKycLevel = KycLevel.NONE, pr_instrumentId = None, pr_instrumentType = None,
        pr_productId = None, pr_enabled = True, pr_priority = 100, pr_note = None\<rparr>]\<rparr>) = Inr a \<and>
     ap_effectiveLimit a = Some 5"
  (is "\<exists>a. ?get (emptyDb\<lparr>users := [houseUser], policyRules := [?r]\<rparr>) = Inr a \<and> _")
proof -
  obtain a where a: "?get (emptyDb\<lparr>users := [houseUser], policyRules := [?r]\<rparr>) = Inr a" "ap_eligibleRules a = [?r]"
    by (simp add: getApplicableRulesForRequest_def getEffectiveRules_def houseUser_def emptyDb_def Let_def
        findApplicableRules_def sortBy_def matchesRule_def kycIndex_def)
  then show ?thesis using effective_limit_is_min [OF a(1)] by simp
qed

end
