(* ===== verification/PolicyLimits.thy ===== *)
theory PolicyLimits
  imports Policy
begin

text \<open>
  \<open>modules/policy/limits.service.ts\<close>: reserving, consuming and releasing a policy limit. A usage row
  counts, per user, action, metric, period and key, what is used and what is reserved; \<open>limits_ok\<close>
  says that these are the sums of the consumed and of the open reservations. The period keys (luxon
  date formatting in the policy time zone) are parameters.
\<close>

section \<open>Operations\<close>

record periodKeys =
  getDailyKey :: "time \<Rightarrow> string"
  getMonthlyKey :: "time \<Rightarrow> string"

record limitRequest =
  lq_userId :: id
  lq_action :: PolicyAction
  lq_metric :: PolicyMetric
  lq_period :: PolicyPeriod
  lq_amount :: decimal
  lq_instrumentKey :: "string option"
  lq_instrumentId :: "id option"
  lq_instrumentType :: "InstrumentType option"
  lq_productId :: "id option"
  lq_refType :: TxRefType
  lq_refId :: id

definition DEFAULT_INSTRUMENT_KEY :: string where "DEFAULT_INSTRUMENT_KEY = ''ALL''"

definition limitInstrumentKey :: "limitRequest \<Rightarrow> string" where
  "limitInstrumentKey p =
     withDefault (orElse (lq_instrumentKey p) (orElse (lq_productId p) (lq_instrumentId p))) DEFAULT_INSTRUMENT_KEY"

definition limitPeriodKey :: "periodKeys \<Rightarrow> limitRequest \<Rightarrow> db \<Rightarrow> string" where
  "limitPeriodKey pk p s =
     (if lq_period p = PolicyPeriod.MONTHLY then getMonthlyKey pk (db_now s) else getDailyKey pk (db_now s))"

definition limitContext :: "limitRequest \<Rightarrow> db \<Rightarrow> err + policyContext" where
  "limitContext p s =
     (case (if truthy (lq_productId p)
              then map_sum id (\<lambda>b. (orElse (lq_instrumentId p) (Some (bp_instrumentId b)),
                                    orElse (lq_instrumentType p) (Some (bp_instrumentType b))))
                     (buildFromMarketProduct (the (lq_productId p)) s)
            else Inr (lq_instrumentId p, lq_instrumentType p)) of
        Inl e \<Rightarrow> Inl e
      | Inr (instrumentId, instrumentType) \<Rightarrow>
          (let ty = (if instrumentType = None \<and> truthy instrumentId
                       then map_option in_type (findFirst (\<lambda>i. Some (in_id i) = instrumentId) (instruments s))
                     else instrumentType)
           in Inr \<lparr>pc_userId = lq_userId p, pc_customerGroupId = None, pc_productId = lq_productId p,
                   pc_instrumentId = instrumentId, pc_instrumentType = ty, pc_tradeType = None,
                   pc_kycLevel = None\<rparr>))"

definition usageKey :: "limitUsage \<Rightarrow> id \<times> PolicyAction \<times> PolicyMetric \<times> PolicyPeriod \<times> string \<times> string" where
  "usageKey u = (lu_userId u, lu_action u, lu_metric u, lu_period u, lu_periodKey u, lu_instrumentKey u)"

definition upsertUsage :: "periodKeys \<Rightarrow> limitRequest \<Rightarrow> db \<Rightarrow> limitUsage tx" where
  "upsertUsage pk p s =
     (let new = \<lparr>lu_id = freshId s, lu_userId = lq_userId p, lu_action = lq_action p, lu_metric = lq_metric p,
                 lu_period = lq_period p, lu_periodKey = limitPeriodKey pk p s,
                 lu_instrumentKey = limitInstrumentKey p, lu_usedAmount = 0, lu_reservedAmount = 0\<rparr>
      in case findFirst (\<lambda>u. usageKey u = usageKey new) (limitUsages s) of
           Some u \<Rightarrow> Inr (u, s)
         | None \<Rightarrow> Inr (new, (bumpId s)\<lparr>limitUsages := limitUsages s @ [new]\<rparr>))"

definition findUsage :: "id \<Rightarrow> db \<Rightarrow> limitUsage option" where
  "findUsage i s = findFirst (\<lambda>u. lu_id u = i) (limitUsages s)"

definition updateUsage :: "id \<Rightarrow> (limitUsage \<Rightarrow> limitUsage) \<Rightarrow> db \<Rightarrow> db" where
  "updateUsage i f s = s\<lparr>limitUsages := updateRows (\<lambda>u. lu_id u = i) f (limitUsages s)\<rparr>"

definition setReservationStatus :: "id \<Rightarrow> LimitReservationStatus \<Rightarrow> db \<Rightarrow> db" where
  "setReservationStatus i st s =
     s\<lparr>limitReservations := updateRows (\<lambda>r. lr_id r = i) (\<lambda>r. r\<lparr>lr_status := st\<rparr>) (limitReservations s)\<rparr>"

text \<open>The reservation of an amount on a usage row, after the policy has been resolved.\<close>

definition reserveOn ::
  "limitUsage \<Rightarrow> limitRequest \<Rightarrow> policyResolution \<Rightarrow> db \<Rightarrow> (limitUsage \<times> limitReservation) tx" where
  "reserveOn lockedUsage p applicable s =
     (let amount = dec (Some (lq_amount p));
          projected = lu_usedAmount lockedUsage + lu_reservedAmount lockedUsage + amount
      in if po_value applicable = None \<and> po_kycRequiredLevel applicable \<noteq> None
           then Inl (PolicyViolationException ''KYC_REQUIRED'')
         else if (case po_value applicable of None \<Rightarrow> False | Some v \<Rightarrow> v < projected)
           then Inl (PolicyViolationException ''LIMIT_EXCEEDED'')
         else case findFirst (\<lambda>r. lr_refType r = lq_refType p \<and> lr_refId r = lq_refId p \<and>
                                  lr_usageId r = lu_id lockedUsage) (limitReservations s) of
           Some existing \<Rightarrow> Inr ((lockedUsage, existing), s)
         | None \<Rightarrow>
             (let r = \<lparr>lr_id = freshId s, lr_userId = lq_userId p, lr_usageId = lu_id lockedUsage,
                       lr_amount = amount, lr_refType = lq_refType p, lr_refId = lq_refId p,
                       lr_status = LimitReservationStatus.RESERVED\<rparr>;
                  f = (\<lambda>u. u\<lparr>lu_reservedAmount := addDec (Some (lu_reservedAmount lockedUsage)) (Some amount)\<rparr>)
              in Inr ((f lockedUsage, r),
                      updateUsage (lu_id lockedUsage) f
                        ((bumpId s)\<lparr>limitReservations := limitReservations s @ [r]\<rparr>))))"

definition reserveLimit ::
  "periodKeys \<Rightarrow> limitRequest \<Rightarrow> db \<Rightarrow> (limitUsage \<times> limitReservation) tx" where
  "reserveLimit pk p s =
     (case limitContext p s of
        Inl e \<Rightarrow> Inl e
      | Inr context \<Rightarrow>
          (case resolvePolicy (lq_action p) (lq_metric p) (lq_period p) context s of
             Inl e \<Rightarrow> Inl e
           | Inr applicable \<Rightarrow>
               bindE (upsertUsage pk p s) (\<lambda>usage s.
               case findUsage (lu_id usage) s of
                 None \<Rightarrow> Inl (NotFoundException ''Limit usage not found'')
               | Some lockedUsage \<Rightarrow> reserveOn lockedUsage p applicable s)))"

definition consumeOne :: "limitReservation \<Rightarrow> db \<Rightarrow> unit tx" where
  "consumeOne reservation s =
     (if lr_status reservation = LimitReservationStatus.CONSUMED then Inr ((), s)
      else case findUsage (lr_usageId reservation) s of
        None \<Rightarrow> Inr ((), s)
      | Some usage \<Rightarrow>
          (let newReserved = subDec (Some (lu_reservedAmount usage)) (Some (lr_amount reservation));
               newUsed = addDec (Some (lu_usedAmount usage)) (Some (lr_amount reservation))
           in Inr ((), setReservationStatus (lr_id reservation) LimitReservationStatus.CONSUMED
                  (updateUsage (lu_id usage)
                    (\<lambda>u. u\<lparr>lu_reservedAmount := newReserved, lu_usedAmount := newUsed\<rparr>) s))))"

definition reservationsOf :: "TxRefType \<Rightarrow> id \<Rightarrow> db \<Rightarrow> limitReservation list" where
  "reservationsOf refType refId s =
     findMany (\<lambda>r. lr_refType r = refType \<and> lr_refId r = refId) (limitReservations s)"

definition consumeLimit :: "TxRefType \<Rightarrow> id \<Rightarrow> db \<Rightarrow> unit tx" where
  "consumeLimit refType refId s = forE (reservationsOf refType refId s) consumeOne s"

definition releaseOne :: "limitReservation \<Rightarrow> db \<Rightarrow> unit tx" where
  "releaseOne reservation s =
     (if lr_status reservation \<noteq> LimitReservationStatus.RESERVED then Inr ((), s)
      else case findUsage (lr_usageId reservation) s of
        None \<Rightarrow> Inr ((), s)
      | Some usage \<Rightarrow>
          (let newReserved = subDec (Some (lu_reservedAmount usage)) (Some (lr_amount reservation))
           in Inr ((), setReservationStatus (lr_id reservation) LimitReservationStatus.RELEASED
                  (updateUsage (lu_id usage) (\<lambda>u. u\<lparr>lu_reservedAmount := newReserved\<rparr>) s))))"

definition releaseLimit :: "TxRefType \<Rightarrow> id \<Rightarrow> db \<Rightarrow> unit tx" where
  "releaseLimit refType refId s = forE (reservationsOf refType refId s) releaseOne s"

section \<open>The invariant\<close>

interpretation usages: keyed_table lu_id "total :: (limitUsage \<Rightarrow> rat) \<Rightarrow> limitUsage list \<Rightarrow> rat"
  by unfold_locales simp_all

interpretation limres: keyed_table lr_id "total :: (limitReservation \<Rightarrow> rat) \<Rightarrow> limitReservation list \<Rightarrow> rat"
  by unfold_locales simp_all

definition limitSum :: "LimitReservationStatus \<Rightarrow> id \<Rightarrow> db \<Rightarrow> decimal" where
  "limitSum st i s = total (\<lambda>r. if lr_usageId r = i \<and> lr_status r = st then lr_amount r else 0) (limitReservations s)"

definition usage_ok :: "db \<Rightarrow> limitUsage \<Rightarrow> bool" where
  "usage_ok s u \<longleftrightarrow> lu_reservedAmount u = limitSum LimitReservationStatus.RESERVED (lu_id u) s \<and>
     lu_usedAmount u = limitSum LimitReservationStatus.CONSUMED (lu_id u) s"

definition limits_ok :: "db \<Rightarrow> bool" where
  "limits_ok s \<longleftrightarrow>
     keys_ok s (map lu_id (limitUsages s)) \<and> keys_ok s (map lr_id (limitReservations s)) \<and>
     (\<forall>r\<in>set (limitReservations s). lr_usageId r \<in> lu_id ` set (limitUsages s)) \<and>
     (\<forall>u\<in>set (limitUsages s). usage_ok s u)"

lemma limits_okD:
  assumes "limits_ok s"
  shows "keys_ok s (map lu_id (limitUsages s))" "keys_ok s (map lr_id (limitReservations s))"
    "\<And>r. r \<in> set (limitReservations s) \<Longrightarrow> lr_usageId r \<in> lu_id ` set (limitUsages s)"
    "\<And>u. u \<in> set (limitUsages s) \<Longrightarrow> usage_ok s u"
  using assms by (simp_all add: limits_ok_def)

lemma findUsage_SomeD: "findUsage i s = Some u \<Longrightarrow> u \<in> set (limitUsages s) \<and> lu_id u = i"
  unfolding findUsage_def by (rule find_SomeD)

lemma findUsage_member: "limits_ok s \<Longrightarrow> u \<in> set (limitUsages s) \<Longrightarrow> findUsage (lu_id u) s = Some u"
  unfolding findUsage_def using limits_okD(1) by (blast intro: usages.find_key keys_ok_distinct)

text \<open>One usage row and the reservations change, the sums of the other rows do not.\<close>

lemma limits_ok_step:
  assumes ok: "limits_ok s" and u: "findUsage i s = Some u"
    and t: "db_gen t = db_gen s" "db_seq s \<le> db_seq t"
      "limitUsages t = updateRows (\<lambda>u. lu_id u = i) f (limitUsages s)" "\<And>u. lu_id (f u) = lu_id u"
    and resv: "keys_ok t (map lr_id (limitReservations t))"
      "\<And>r. r \<in> set (limitReservations t) \<Longrightarrow> lr_usageId r \<in> lu_id ` set (limitUsages s)"
    and other: "\<And>st j. j \<noteq> i \<Longrightarrow> limitSum st j t = limitSum st j s"
    and self: "usage_ok t (f u)"
  shows "limits_ok t"
proof -
  have ids: "map lu_id (limitUsages t) = map lu_id (limitUsages s)"
    using t by (simp add: map_updateRows)
  have idset: "lu_id ` set (limitUsages t) = lu_id ` set (limitUsages s)"
    using arg_cong [OF ids, of set] by simp
  have "usage_ok t v" if "v \<in> set (limitUsages t)" for v
  proof -
    from that t(3) obtain w where w: "w \<in> set (limitUsages s)" "v = (if lu_id w = i then f w else w)"
      by (auto simp: set_updateRows)
    show ?thesis
    proof (cases "lu_id w = i")
      case True
      then have "w = u" using findUsage_member [OF ok w(1)] u by simp
      with w True self show ?thesis by simp
    next
      case False
      with w other limits_okD(4) [OF ok w(1)] show ?thesis by (simp add: usage_ok_def)
    qed
  qed
  then show ?thesis
    using limits_okD(1) [OF ok] t(1,2) resv by (auto simp: limits_ok_def ids idset keys_ok_def)
qed

lemma usage_sel [simp]:
  "limitUsages (updateUsage i f s) = updateRows (\<lambda>u. lu_id u = i) f (limitUsages s)"
  "limitReservations (updateUsage i f s) = limitReservations s" "db_gen (updateUsage i f s) = db_gen s"
  "db_seq (updateUsage i f s) = db_seq s"
  "limitUsages (setReservationStatus j st s) = limitUsages s" "db_gen (setReservationStatus j st s) = db_gen s"
  "db_seq (setReservationStatus j st s) = db_seq s"
  "limitReservations (setReservationStatus j st s) =
     updateRows (\<lambda>r. lr_id r = j) (\<lambda>r. r\<lparr>lr_status := st\<rparr>) (limitReservations s)"
  "limitUsages (bumpId s) = limitUsages s" "limitReservations (bumpId s) = limitReservations s"
  by (simp_all add: updateUsage_def setReservationStatus_def bumpId_def)

lemma upsertUsage_ok:
  assumes ok: "limits_ok s"
  shows "holdsE (\<lambda>u t. limits_ok t \<and> findUsage (lu_id u) t = Some u \<and> limitReservations t = limitReservations s)
           (upsertUsage pk p s)"
proof -
  let ?new = "\<lparr>lu_id = freshId s, lu_userId = lq_userId p, lu_action = lq_action p, lu_metric = lq_metric p,
                 lu_period = lq_period p, lu_periodKey = limitPeriodKey pk p s,
                 lu_instrumentKey = limitInstrumentKey p, lu_usedAmount = 0, lu_reservedAmount = 0\<rparr>"
  let ?t = "(bumpId s)\<lparr>limitUsages := limitUsages s @ [?new]\<rparr>"
  have fresh: "freshId s \<notin> lu_id ` set (limitUsages s)" using freshId_notin [OF limits_okD(1) [OF ok]] by simp
  then have unused: "\<And>r. r \<in> set (limitReservations s) \<Longrightarrow> lr_usageId r \<noteq> freshId s"
    using limits_okD(3) [OF ok] by metis
  have sum: "limitSum st j ?t = limitSum st j s" for st j by (simp add: limitSum_def)
  have zero: "limitSum st (freshId s) s = 0" for st
    using unused by (auto simp: limitSum_def intro: total_zero)
  have rows: "usage_ok ?t v" if "v \<in> set (limitUsages ?t)" for v
    using that limits_okD(4) [OF ok] zero by (auto simp: usage_ok_def sum)
  have "limits_ok ?t"
    unfolding limits_ok_def
    using keys_ok_snoc [OF limits_okD(1) [OF ok]] keys_ok_bump [OF limits_okD(2) [OF ok]] rows limits_okD(3) [OF ok]
    by (auto simp: keys_ok_def)
  moreover have "findUsage (freshId s) ?t = Some ?new"
    unfolding findUsage_def using fresh by (force intro: find_snoc_new)
  ultimately show ?thesis
    using ok findUsage_member [OF ok]
    by (auto simp: upsertUsage_def Let_def split: option.split dest: find_SomeD)
qed

lemma limits_ok_hold:
  assumes ok: "limits_ok s" and u: "findUsage i s = Some u"
    and r: "lr_id r = freshId s" "lr_usageId r = i" "lr_status r = LimitReservationStatus.RESERVED"
  shows "limits_ok (updateUsage i (\<lambda>v. v\<lparr>lu_reservedAmount := lu_reservedAmount u + lr_amount r\<rparr>)
           ((bumpId s)\<lparr>limitReservations := limitReservations s @ [r]\<rparr>))" (is "limits_ok ?t")
proof (rule limits_ok_step [where f = "\<lambda>v. v\<lparr>lu_reservedAmount := lu_reservedAmount u + lr_amount r\<rparr>", OF ok u])
  have sum: "limitSum st j ?t = limitSum st j s + (if j = i \<and> st = LimitReservationStatus.RESERVED then lr_amount r else 0)"
    for st j using r by (auto simp: limitSum_def)
  then show "limitSum st j ?t = limitSum st j s" if "j \<noteq> i" for st j using that by simp
  show "usage_ok ?t (u\<lparr>lu_reservedAmount := lu_reservedAmount u + lr_amount r\<rparr>)"
    unfolding usage_ok_def sum using findUsage_SomeD [OF u] limits_okD(4) [OF ok] by (auto simp: usage_ok_def)
  show "keys_ok ?t (map lr_id (limitReservations ?t))"
    using keys_ok_snoc [OF limits_okD(2) [OF ok]] r by (simp add: keys_ok_def)
  show "lr_usageId x \<in> lu_id ` set (limitUsages s)" if "x \<in> set (limitReservations ?t)" for x
    using that limits_okD(3) [OF ok] findUsage_SomeD [OF u] r by (auto intro: rev_image_eqI)
qed simp_all

lemma limits_ok_close:
  assumes ok: "limits_ok s" and u: "findUsage (lr_usageId r) s = Some u"
    and r: "r \<in> set (limitReservations s)" "lr_status r = LimitReservationStatus.RESERVED"
    and st: "st = LimitReservationStatus.CONSUMED \<and> d = lr_amount r \<or> st = LimitReservationStatus.RELEASED \<and> d = 0"
    and f: "\<And>v. lu_id (f v) = lu_id v" "lu_reservedAmount (f u) = lu_reservedAmount u - lr_amount r"
      "lu_usedAmount (f u) = lu_usedAmount u + d"
  shows "limits_ok (setReservationStatus (lr_id r) st (updateUsage (lu_id u) f s))" (is "limits_ok ?t")
proof (rule limits_ok_step [where f = f, OF ok u])
  have i: "lu_id u = lr_usageId r" using findUsage_SomeD [OF u] by simp
  have dist: "distinct (map lr_id (limitReservations s))" using limits_okD(2) [OF ok] by blast
  have here: "findFirst (\<lambda>x. lr_id x = lr_id r) (limitReservations s) = Some r"
    by (rule limres.find_key [OF dist r(1)])
  have sum: "limitSum st' j ?t = limitSum st' j s
      - (if j = lr_usageId r \<and> st' = LimitReservationStatus.RESERVED then lr_amount r else 0)
      + (if j = lr_usageId r \<and> st' = st then lr_amount r else 0)" for st' j
    using r(2) st limres.rowsum_update [OF dist here] by (auto simp: limitSum_def)
  then show "limitSum st' j ?t = limitSum st' j s" if "j \<noteq> lr_usageId r" for st' j using that by simp
  show "usage_ok ?t (f u)"
    unfolding usage_ok_def sum f using findUsage_SomeD [OF u] limits_okD(4) [OF ok] st by (auto simp: usage_ok_def)
  show "keys_ok ?t (map lr_id (limitReservations ?t))"
    using limits_okD(2) [OF ok] by (simp add: keys_ok_def map_updateRows)
  show "lr_usageId x \<in> lu_id ` set (limitUsages s)" if "x \<in> set (limitReservations ?t)" for x
    using that limits_okD(3) [OF ok] by (auto simp: set_updateRows split: if_splits)
  show "limitUsages ?t = updateRows (\<lambda>u. lu_id u = lr_usageId r) f (limitUsages s)" using i by simp
qed (simp_all add: f)

lemma reserveOn_ok:
  assumes ok: "limits_ok s" and u: "findUsage (lu_id u) s = Some u"
  shows "holdsE (\<lambda>_. limits_ok) (reserveOn u p applicable s)"
  using limits_ok_hold [OF ok u, of "\<lparr>lr_id = freshId s, lr_userId = lq_userId p, lr_usageId = lu_id u,
     lr_amount = lq_amount p, lr_refType = lq_refType p, lr_refId = lq_refId p,
     lr_status = LimitReservationStatus.RESERVED\<rparr>"] ok
  by (auto simp: reserveOn_def Let_def split: option.split)

lemma reserveLimit_ok [keeps]:
  assumes ok: "limits_ok s"
  shows "holdsE (\<lambda>_. limits_ok) (reserveLimit pk p s)"
  unfolding reserveLimit_def
  by (auto split: sum.split option.split intro!: holdsE_bind [OF upsertUsage_ok [OF ok]] reserveOn_ok
      dest: findUsage_SomeD)

text \<open>The reservations a loop has still to visit are as the loop read them.\<close>

definition pending :: "limitReservation list \<Rightarrow> db \<Rightarrow> bool" where
  "pending rs s \<longleftrightarrow> limits_ok s \<and> distinct (map lr_id rs) \<and> set rs \<subseteq> set (limitReservations s)"

lemma pending_reservationsOf: "limits_ok s \<Longrightarrow> pending (reservationsOf rt ri s) s"
  unfolding pending_def reservationsOf_def
  using limits_okD(2) [of s] by (auto simp: keys_ok_def distinct_map_filter)

lemma pending_tail: "pending (r # rs) s \<Longrightarrow> pending rs s"
  by (simp add: pending_def)

lemma pending_close:
  "pending (r # rs) s \<Longrightarrow> limits_ok (setReservationStatus (lr_id r) st (updateUsage i f s)) \<Longrightarrow>
   pending rs (setReservationStatus (lr_id r) st (updateUsage i f s))"
  by (auto simp: pending_def set_updateRows image_iff)

lemma pendingD: "pending (r # rs) s \<Longrightarrow> limits_ok s \<and> r \<in> set (limitReservations s)"
  by (simp add: pending_def)

lemma consumeOne_ok:
  "pending (r # rs) s \<Longrightarrow> lr_status r \<noteq> LimitReservationStatus.RELEASED \<Longrightarrow> holdsE (\<lambda>_. pending rs) (consumeOne r s)"
  by (cases "lr_status r")
    (auto simp: consumeOne_def Let_def intro: pending_tail split: option.split dest: pendingD
      intro!: pending_close limits_ok_close [where d = "lr_amount r"])

lemma releaseOne_ok: "pending (r # rs) s \<Longrightarrow> holdsE (\<lambda>_. pending rs) (releaseOne r s)"
  by (auto simp: releaseOne_def Let_def intro: pending_tail split: option.split dest: pendingD
      intro!: pending_close limits_ok_close [where d = 0])

lemma consumeLimit_ok:
  assumes ok: "limits_ok s" and live: "\<forall>r\<in>set (reservationsOf rt ri s). lr_status r \<noteq> LimitReservationStatus.RELEASED"
  shows "holdsE (\<lambda>_. limits_ok) (consumeLimit rt ri s)"
  unfolding consumeLimit_def
proof (rule holdsE_weaken [OF holdsE_for_rest [where P = "\<lambda>rs t. pending rs t \<and>
        (\<forall>r\<in>set rs. lr_status r \<noteq> LimitReservationStatus.RELEASED)"]], goal_cases)
  case 1
  with live pending_reservationsOf [OF ok] show ?case by simp
next
  case (2 r rs t)
  then have "holdsE (\<lambda>_. pending rs) (consumeOne r t)" by (intro consumeOne_ok) auto
  with 2 show ?case by (simp add: holdsE_def)
qed (simp add: pending_def)

lemma releaseLimit_ok [keeps]:
  assumes ok: "limits_ok s"
  shows "holdsE (\<lambda>_. limits_ok) (releaseLimit rt ri s)"
  unfolding releaseLimit_def
  by (rule holdsE_weaken [OF holdsE_for_rest [where P = pending]])
    (use pending_reservationsOf [OF ok] releaseOne_ok in \<open>auto simp: pending_def\<close>)

text \<open>After a consumption every reservation of the reference is consumed.\<close>

definition consumedBut :: "TxRefType \<Rightarrow> id \<Rightarrow> limitReservation list \<Rightarrow> db \<Rightarrow> bool" where
  "consumedBut rt ri rs s \<longleftrightarrow> pending rs s \<and>
     (\<forall>r\<in>set rs. lr_status r \<noteq> LimitReservationStatus.RELEASED) \<and>
     (\<forall>x\<in>set (limitReservations s). lr_refType x = rt \<and> lr_refId x = ri \<and> lr_id x \<notin> lr_id ` set rs \<longrightarrow>
        lr_status x = LimitReservationStatus.CONSUMED)"

lemma limit_usage_exists: "pending (r # rs) s \<Longrightarrow> \<exists>u. findUsage (lr_usageId r) s = Some u"
  using pendingD [of r rs s] limits_okD(3) [of s r] findUsage_member [of s] by fastforce

lemma consumeOne_consumed:
  assumes "consumedBut rt ri (r # rs) s"
  shows "holdsE (\<lambda>_. consumedBut rt ri rs) (consumeOne r s)"
proof -
  have pen: "pending (r # rs) s" and live: "lr_status r \<noteq> LimitReservationStatus.RELEASED"
    using assms by (simp_all add: consumedBut_def)
  from limit_usage_exists [OF pen] obtain u where u: "findUsage (lr_usageId r) s = Some u" by blast
  have same: "x = r" if "x \<in> set (limitReservations s)" "lr_id x = lr_id r" for x
    using that pendingD [OF pen] limres.key_eqD [of "limitReservations s" x r] limits_okD(2) [of s] by blast
  have "holdsE (\<lambda>_ t. \<forall>x\<in>set (limitReservations t). lr_refType x = rt \<and> lr_refId x = ri \<and>
      lr_id x \<notin> lr_id ` set rs \<longrightarrow> lr_status x = LimitReservationStatus.CONSUMED) (consumeOne r s)"
    using assms u same by (auto simp: consumedBut_def consumeOne_def Let_def set_updateRows split: if_splits)
  from holdsE_conj [OF consumeOne_ok [OF pen live] this] assms show ?thesis
    by (simp add: holdsE_def consumedBut_def)
qed

lemma consumeLimit_consumes:
  assumes ok: "limits_ok s" and live: "\<forall>r\<in>set (reservationsOf rt ri s). lr_status r \<noteq> LimitReservationStatus.RELEASED"
  shows "holdsE (\<lambda>_ t. \<forall>r\<in>set (reservationsOf rt ri t). lr_status r = LimitReservationStatus.CONSUMED) (consumeLimit rt ri s)"
  unfolding consumeLimit_def
proof (rule holdsE_weaken [OF holdsE_for_rest [where P = "consumedBut rt ri"]], goal_cases)
  case 1
  with live pending_reservationsOf [OF ok] show ?case by (auto simp: consumedBut_def reservationsOf_def)
next
  case (2 r rs t)
  then show ?case by (rule consumeOne_consumed)
qed (simp add: consumedBut_def reservationsOf_def)

lemma consume_consumed: "\<forall>r\<in>set rs. lr_status r = LimitReservationStatus.CONSUMED \<Longrightarrow> forE rs consumeOne s = Inr ((), s)"
  by (induction rs) (simp_all add: consumeOne_def)

lemma consumeLimit_total: "\<exists>t. consumeLimit rt ri s = Inr ((), t)"
proof -
  have "\<exists>t. forE rs consumeOne s = Inr ((), t)" for rs
    by (induction rs arbitrary: s) (auto simp: consumeOne_def Let_def split: option.split)
  then show ?thesis by (simp add: consumeLimit_def)
qed

lemma releaseLimit_total: "\<exists>t. releaseLimit rt ri s = Inr ((), t)"
proof -
  have "\<exists>t. forE rs releaseOne s = Inr ((), t)" for rs
    by (induction rs arbitrary: s) (auto simp: releaseOne_def Let_def split: option.split)
  then show ?thesis by (simp add: releaseLimit_def)
qed

section \<open>A concrete limit\<close>

definition dayKeys :: periodKeys where
  "dayKeys = \<lparr>getDailyKey = (\<lambda>_. ''2025-01-01''), getMonthlyKey = (\<lambda>_. ''2025-01'')\<rparr>"

definition globalRule :: policyRule where
  "globalRule = \<lparr>pr_id = ''r'', pr_createdAt = 0, pr_updatedAt = 0, pr_scopeType = PolicyScopeType.GLOBAL,
        pr_scopeUserId = None, pr_scopeGroupId = None, pr_action = PolicyAction.WITHDRAW_IRR,
        pr_metric = PolicyMetric.NOTIONAL_IRR, pr_period = PolicyPeriod.DAILY, pr_limit = 100,
        pr_minKycLevel = KycLevel.NONE, pr_instrumentId = None, pr_instrumentType = None,
        pr_productId = None, pr_enabled = True, pr_priority = 100, pr_note = None\<rparr>"

definition withdrawLimit :: "decimal \<Rightarrow> id \<Rightarrow> limitRequest" where
  "withdrawLimit amount refId = \<lparr>lq_userId = HOUSE_USER_ID, lq_action = PolicyAction.WITHDRAW_IRR,
     lq_metric = PolicyMetric.NOTIONAL_IRR, lq_period = PolicyPeriod.DAILY, lq_amount = amount,
     lq_instrumentKey = None, lq_instrumentId = None, lq_instrumentType = None, lq_productId = None,
     lq_refType = TxRefType.WITHDRAW, lq_refId = refId\<rparr>"

definition limitDb :: db where
  "limitDb = emptyDb\<lparr>users := [houseUser], policyRules := [globalRule]\<rparr>"

lemma limitDb_ok: "limits_ok limitDb"
  using inj_unaryId by (simp add: limits_ok_def limitDb_def emptyDb_def keys_ok_def)

section \<open>Properties\<close>

text \<open>
  C11. A reservation of a limit that succeeds leaves the user within it: what is used and what is
  reserved on the usage row of the period, the consumed one included, together do not exceed the
  value of the rule the resolution selected; and both totals are the sums over the reservations.
\<close>

theorem reserve_within_limit:
  assumes "limits_ok s" and "reserveLimit pk p s = Inr ((u, r), t)" and "0 \<le> lq_amount p"
    and "limitContext p s = Inr context"
    and "resolvePolicy (lq_action p) (lq_metric p) (lq_period p) context s = Inr applicable"
    and "po_value applicable = Some v"
  shows "lu_usedAmount u + lu_reservedAmount u \<le> v \<and> limits_ok t \<and> u \<in> set (limitUsages t) \<and>
    lu_reservedAmount u = limitSum LimitReservationStatus.RESERVED (lu_id u) t \<and>
    lu_usedAmount u = limitSum LimitReservationStatus.CONSUMED (lu_id u) t"
proof -
  have ok: "limits_ok t" by (rule holdsE_D [OF reserveLimit_ok [OF assms(1)] assms(2)])
  from assms(2) obtain w s' where w: "upsertUsage pk p s = Inr (w, s')"
    and rest: "(case findUsage (lu_id w) s' of None \<Rightarrow> Inl (NotFoundException ''Limit usage not found'')
       | Some lockedUsage \<Rightarrow> reserveOn lockedUsage p applicable s') = Inr ((u, r), t)"
    unfolding reserveLimit_def assms(4,5) sum.case bindE_Inr_iff by blast
  have s': "limits_ok s'" "findUsage (lu_id w) s' = Some w"
    using holdsE_D [OF upsertUsage_ok [OF assms(1)] w] by simp_all
  have wmem: "w \<in> set (limitUsages s')" using findUsage_SomeD [OF s'(2)] by simp
  have "lu_usedAmount u + lu_reservedAmount u \<le> v \<and> u \<in> set (limitUsages t)"
    using rest s'(2) assms(3,6) wmem
    by (auto simp: reserveOn_def Let_def set_updateRows image_iff split: if_splits option.splits)
  with ok limits_okD(4) [OF ok, of u] show ?thesis by (simp add: usage_ok_def)
qed

lemma reserve_within_limit_witness:
  "\<exists>u r t. reserveLimit dayKeys (withdrawLimit 60 ''w1'') limitDb = Inr ((u, r), t) \<and>
     lu_usedAmount u + lu_reservedAmount u \<le> 100"
proof -
  let ?p = "withdrawLimit 60 ''w1''"
  have "\<not> isl (reserveLimit dayKeys ?p limitDb)" by code_simp
  then obtain u r t where 1: "reserveLimit dayKeys ?p limitDb = Inr ((u, r), t)"
    by (metis isl_def prod.exhaust sum.exhaust)
  have "\<not> isl (limitContext ?p limitDb)" by code_simp
  then obtain c where 2: "limitContext ?p limitDb = Inr c" by (metis isl_def sum.exhaust)
  have c: "c = projr (limitContext ?p limitDb)" by (simp add: 2)
  have "map_option po_value (case resolvePolicy (lq_action ?p) (lq_metric ?p) (lq_period ?p)
      (projr (limitContext ?p limitDb)) limitDb of Inl _ \<Rightarrow> None | Inr a \<Rightarrow> Some a) = Some (Some 100)" by code_simp
  then obtain a where 3: "resolvePolicy (lq_action ?p) (lq_metric ?p) (lq_period ?p) c limitDb = Inr a" "po_value a = Some 100"
    by (auto simp: c split: sum.splits)
  from reserve_within_limit [OF limitDb_ok 1 _ 2 3] 1 show ?thesis by (auto simp: withdrawLimit_def)
qed

text \<open>
  Consuming the reservations of a reference, none of them released, always succeeds, keeps the
  usage totals equal to the sums, leaves every reservation of the reference consumed, and doing it
  again changes nothing. Releasing keeps the totals as well.
\<close>

theorem consume_limit_settles:
  assumes "limits_ok s"
    and "\<forall>r\<in>set (reservationsOf rt ri s). lr_status r \<noteq> LimitReservationStatus.RELEASED"
  shows "(\<exists>t. consumeLimit rt ri s = Inr ((), t) \<and> limits_ok t \<and>
      (\<forall>r\<in>set (reservationsOf rt ri t). lr_status r = LimitReservationStatus.CONSUMED) \<and>
      consumeLimit rt ri t = Inr ((), t)) \<and>
    holdsE (\<lambda>_. limits_ok) (releaseLimit rt ri s)"
proof -
  obtain t where t: "consumeLimit rt ri s = Inr ((), t)" using consumeLimit_total by blast
  have "\<forall>r\<in>set (reservationsOf rt ri t). lr_status r = LimitReservationStatus.CONSUMED"
    by (rule holdsE_D [OF consumeLimit_consumes [OF assms] t])
  moreover have "limits_ok t" by (rule holdsE_D [OF consumeLimit_ok [OF assms] t])
  ultimately show ?thesis
    using t consume_consumed releaseLimit_ok [OF assms(1)] by (auto simp: consumeLimit_def)
qed

lemma consume_limit_settles_witness:
  "\<exists>t. consumeLimit TxRefType.WITHDRAW ''w1'' limitDb = Inr ((), t) \<and> limits_ok t"
  using consume_limit_settles [OF limitDb_ok, of TxRefType.WITHDRAW "''w1''"]
  by (auto simp: reservationsOf_def limitDb_def emptyDb_def)

text \<open>
  The hypothesis matters: \<open>consume\<close> skips only consumed reservations, so consuming one that was
  released takes its amount out of the reserved total a second time.
\<close>

lemma consume_after_release_corrupts:
  "(case reserveLimit dayKeys (withdrawLimit 60 ''w1'') limitDb of
      Inr (_, s1) \<Rightarrow> (case releaseLimit TxRefType.WITHDRAW ''w1'' s1 of
        Inr (_, s2) \<Rightarrow> (case consumeLimit TxRefType.WITHDRAW ''w1'' s2 of
          Inr (_, s3) \<Rightarrow> map lu_reservedAmount (limitUsages s3) = [- 60] \<and>
                         map lu_usedAmount (limitUsages s3) = [60]
        | _ \<Rightarrow> False) | _ \<Rightarrow> False) | _ \<Rightarrow> False)"
  by code_simp

end
