(* ===== verification/Outbox.thy ===== *)
theory Outbox
  imports PolicyLimits
begin

text \<open>
  \<open>modules/tahesab\<close>: the transactional outbox towards the Tahesab accounting system
  (\<open>tahesab-outbox.service.ts\<close>), the configuration (\<open>tahesab-integration.config.ts\<close>) and the voucher of
  a remittance leg (\<open>tahesab-remittances.service.ts\<close>). The HTTP client, the environment, the Persian
  calendar and the printing of a decimal are parameters.
\<close>

section \<open>Configuration\<close>

record tahesabConfig =
  tc_get :: "string \<Rightarrow> string option"
  tc_shamsi :: "time \<Rightarrow> string \<times> string \<times> string"
  tc_showDecimal :: "decimal \<Rightarrow> string"
  tc_showInt :: "int \<Rightarrow> string"

definition isEnabled :: "tahesabConfig \<Rightarrow> bool" where
  "isEnabled cfg =
     (let flag = tc_get cfg ''TAHESAB_ENABLED'' in flag = None \<or> flag = Some ''true'' \<or> flag = Some ''1'')"

definition getDefaultCashAccountCode :: "tahesabConfig \<Rightarrow> string option" where
  "getDefaultCashAccountCode cfg =
     orElse (tc_get cfg ''TAHESAB_DEFAULT_CASH_ACCOUNT_CODE'') (tc_get cfg ''TAHESAB_DEFAULT_BANK_ACCOUNT_CODE'')"

definition getDefaultBankAccountCode :: "tahesabConfig \<Rightarrow> string option" where
  "getDefaultBankAccountCode cfg = tc_get cfg ''TAHESAB_DEFAULT_BANK_ACCOUNT_CODE''"

definition getGoldAccountCode :: "tahesabConfig \<Rightarrow> string option" where
  "getGoldAccountCode cfg = tc_get cfg ''TAHESAB_DEFAULT_GOLD_ACCOUNT_CODE''"

definition getDescriptionPrefix :: "tahesabConfig \<Rightarrow> string" where
  "getDescriptionPrefix cfg = withDefault (tc_get cfg ''TAHESAB_DEFAULT_DOC_DESCRIPTION_PREFIX'') ''GN''"

definition getCustomerCode :: "user option \<Rightarrow> string option" where
  "getCustomerCode u = Option.bind u us_tahesabCustomerCode"

definition findUser :: "id \<Rightarrow> db \<Rightarrow> user option" where
  "findUser i s = findFirst (\<lambda>u. us_id u = i) (users s)"

section \<open>Enqueueing\<close>

definition enqueue :: "string \<Rightarrow> outboxPayload \<Rightarrow> string option \<Rightarrow> db \<Rightarrow> unit tx" where
  "enqueue method dto correlationId s =
     Inr ((), (bumpId s)\<lparr>tahesabOutboxes := tahesabOutboxes s @
       [\<lparr>ob_id = freshId s, ob_createdAt = db_now s, ob_method = method, ob_payload = dto,
         ob_status = TahesabOutboxStatus.PENDING, ob_retryCount = 0, ob_lastError = None,
         ob_nextRetryAt = db_now s, ob_correlationId = correlationId, ob_tahesabFactorCode = None\<rparr>]\<rparr>)"

definition enqueueOnce :: "string \<Rightarrow> outboxPayload \<Rightarrow> string \<Rightarrow> db \<Rightarrow> unit tx" where
  "enqueueOnce method dto correlationId s =
     (case findFirst (\<lambda>ob. ob_method ob = method \<and> ob_correlationId ob = Some correlationId) (tahesabOutboxes s) of
        Some _ \<Rightarrow> Inr ((), s)
      | None \<Rightarrow> enqueue method dto (Some correlationId) s)"

text \<open>
  What the two deletion helpers of the services share: find the factor code of a voucher already
  sent, and enqueue its deletion once.
\<close>

definition enqueueDeletion :: "string \<Rightarrow> string \<Rightarrow> string \<Rightarrow> db \<Rightarrow> unit tx" where
  "enqueueDeletion method correlationId deletionId s =
     (case findFirst (\<lambda>ob. ob_correlationId ob = Some correlationId \<and> ob_method ob = method \<and>
                          ob_status ob = TahesabOutboxStatus.SUCCESS \<and> ob_tahesabFactorCode ob \<noteq> None)
             (tahesabOutboxes s) of
        None \<Rightarrow> Inr ((), s)
      | Some existing \<Rightarrow>
          (if truthy (ob_tahesabFactorCode existing)
             then enqueueOnce ''DoDeleteSanad'' (DeleteSanad (the (ob_tahesabFactorCode existing))) deletionId s
           else Inr ((), s)))"

section \<open>Remittance vouchers\<close>

definition resolveAccountCode :: "tahesabConfig \<Rightarrow> instrument \<Rightarrow> RemittanceChannel \<Rightarrow> string option" where
  "resolveAccountCode cfg instrument channel =
     (if in_type instrument = InstrumentType.GOLD then getGoldAccountCode cfg
      else if channel = RemittanceChannel.BANK_TRANSFER
        then orElse (getDefaultBankAccountCode cfg) (getDefaultCashAccountCode cfg)
      else getDefaultCashAccountCode cfg)"

fun showChannel :: "RemittanceChannel \<Rightarrow> string" where
  "showChannel RemittanceChannel.INTERNAL = ''INTERNAL''" | "showChannel RemittanceChannel.CASH = ''CASH''"
| "showChannel RemittanceChannel.BANK_TRANSFER = ''BANK_TRANSFER''" | "showChannel RemittanceChannel.CARD = ''CARD''"
| "showChannel RemittanceChannel.MIXED = ''MIXED''" | "showChannel RemittanceChannel.OTHER = ''OTHER''"

definition buildTahesabDescriptionForRemittance ::
  "tahesabConfig \<Rightarrow> remittance \<Rightarrow> remittanceGroup option \<Rightarrow> instrument \<Rightarrow> string" where
  "buildTahesabDescriptionForRemittance cfg leg grp instrument =
     ''GN|RMT'' @ ''|GRP='' @ (case grp of None \<Rightarrow> ''-'' | Some g \<Rightarrow> rg_id g) @ ''|LEG='' @ rm_id leg @
     ''|FROM='' @ rm_fromUserId leg @ ''|TO='' @ rm_toUserId leg @ ''|INST='' @ in_code instrument @
     ''|AMT='' @ tc_showDecimal cfg (rm_amount leg) @ ''|CH='' @ showChannel (rm_channel leg) @
     ''|ONB='' @ withDefault (rm_onBehalfOfUserId leg) ''-''"

definition enqueueRemittanceLeg ::
  "tahesabConfig \<Rightarrow> remittance \<Rightarrow> remittanceGroup option \<Rightarrow> instrument \<Rightarrow> user \<Rightarrow> user \<Rightarrow>
   (id \<times> decimal) list \<Rightarrow> db \<Rightarrow> unit tx" where
  "enqueueRemittanceLeg cfg leg grp instrument fromUser toUser settlementsAsLeg s =
     (if \<not> isEnabled cfg then Inr ((), s)
      else let toCustomerCode = getCustomerCode (Some toUser); fromCustomerCode = getCustomerCode (Some fromUser)
      in if \<not> truthy toCustomerCode \<or> \<not> truthy fromCustomerCode then Inr ((), s)
      else let accountCode = resolveAccountCode cfg instrument (rm_channel leg)
      in if \<not> truthy accountCode then Inr ((), s)
      else enqueue ''RemittanceVoucher''
        (RemittanceVoucher \<lparr>rp_legId = rm_id leg, rp_fromCustomerCode = the fromCustomerCode,
           rp_toCustomerCode = the toCustomerCode, rp_instrumentCode = in_code instrument,
           rp_instrumentType = in_type instrument, rp_channel = rm_channel leg, rp_amount = \<bar>rm_amount leg\<bar>,
           rp_accountCode = the accountCode, rp_date = tc_shamsi cfg (rm_createdAt leg),
           rp_description = buildTahesabDescriptionForRemittance cfg leg grp instrument,
           rp_settlements = settlementsAsLeg\<rparr>) (Some (rm_id leg)) s)"

section \<open>Processing\<close>

text \<open>
  The answer of a Tahesab call: its \<open>Sh_factor\<close> and \<open>factorCode\<close> fields. The HTTP client is the
  parameter \<open>call\<close>: it throws with a message (\<open>Inl\<close>) or answers; it may depend on anything, so it
  takes the state as well.
\<close>

type_synonym tahesabAnswer = "(string option \<times> string option) option"
type_synonym tahesabClient = "db \<Rightarrow> string \<Rightarrow> outboxPayload \<Rightarrow> string + tahesabAnswer"

definition extractFactorCode :: "tahesabAnswer \<Rightarrow> string option" where
  "extractFactorCode result = (case result of None \<Rightarrow> None | Some (sh, fc) \<Rightarrow> orElse sh fc)"

text \<open>
  \<open>dispatch\<close>, where \<open>RemittanceVoucher\<close> builds a simple voucher and dispatches it again under
  \<open>DoNewSanadVKHBank\<close> or \<open>DoNewSanadVKHVaghNaghd\<close>; the actions without a case answer null.
\<close>

definition dispatchSimple :: "tahesabClient \<Rightarrow> db \<Rightarrow> string \<Rightarrow> outboxPayload \<Rightarrow> string + tahesabAnswer" where
  "dispatchSimple call s action payload =
     (if action = ''DoNewMoshtari'' \<or> action = ''DoEditMoshtari'' \<or> action = ''DoDeleteSanad''
        then call s action payload
      else Inr None)"

definition remittanceVoucher :: "remittancePayload \<Rightarrow> simpleVoucher" where
  "remittanceVoucher p =
     \<lparr>sv_sabteKolOrMovaghat = Kol, sv_moshtariCode = rp_toCustomerCode p, sv_factorNumber = rp_legId p,
      sv_date = rp_date p, sv_mablagh = rp_amount p, sv_sharh = rp_description p,
      sv_factorCode = rp_accountCode p\<rparr>"

definition processRemittanceVoucher :: "tahesabClient \<Rightarrow> db \<Rightarrow> remittancePayload \<Rightarrow> string + tahesabAnswer" where
  "processRemittanceVoucher call s payload =
     dispatchSimple call s
       (if rp_channel payload = RemittanceChannel.BANK_TRANSFER then ''DoNewSanadVKHBank''
        else ''DoNewSanadVKHVaghNaghd'') (SimpleVoucher (remittanceVoucher payload))"

definition dispatch :: "tahesabClient \<Rightarrow> db \<Rightarrow> string \<Rightarrow> outboxPayload \<Rightarrow> string + tahesabAnswer" where
  "dispatch call s action payload =
     (if action = ''RemittanceVoucher''
        then (case payload of RemittanceVoucher p \<Rightarrow> processRemittanceVoucher call s p
              | _ \<Rightarrow> Inr None)
      else dispatchSimple call s action payload)"

definition updateOutbox :: "id \<Rightarrow> (tahesabOutbox \<Rightarrow> tahesabOutbox) \<Rightarrow> db \<Rightarrow> db" where
  "updateOutbox i f s = s\<lparr>tahesabOutboxes := updateRows (\<lambda>ob. ob_id ob = i) f (tahesabOutboxes s)\<rparr>"

definition markSuccess :: "tahesabOutbox \<Rightarrow> string option \<Rightarrow> db \<Rightarrow> db" where
  "markSuccess item factorCode s =
     (let s = updateOutbox (ob_id item) (\<lambda>ob. ob\<lparr>ob_status := TahesabOutboxStatus.SUCCESS, ob_lastError := None,
                ob_tahesabFactorCode := factorCode\<rparr>) s
      in if truthy (ob_correlationId item) \<and> truthy factorCode
         then (case findFirst (\<lambda>r. Some (rm_id r) = ob_correlationId item) (remittances s) of
                 None \<Rightarrow> s
               | Some remittance \<Rightarrow>
                   (let s = s\<lparr>remittances := updateRows (\<lambda>r. rm_id r = rm_id remittance)
                          (\<lambda>r. r\<lparr>rm_tahesabDocId := orElse (rm_tahesabDocId remittance) factorCode\<rparr>) (remittances s)\<rparr>
                    in if truthy (rm_groupId remittance)
                       then s\<lparr>remittanceGroups := updateRows
                              (\<lambda>g. Some (rg_id g) = rm_groupId remittance \<and> rg_tahesabDocId g = None)
                              (\<lambda>g. g\<lparr>rg_tahesabDocId := factorCode\<rparr>) (remittanceGroups s)\<rparr>
                       else s))
         else s)"

definition markFailed :: "tahesabOutbox \<Rightarrow> string \<Rightarrow> db \<Rightarrow> db" where
  "markFailed item message s =
     (let retryCount = ob_retryCount item + 1; delayMs = min 600000 (1000 * 2 ^ retryCount)
      in updateOutbox (ob_id item) (\<lambda>ob. ob\<lparr>ob_status := TahesabOutboxStatus.FAILED, ob_retryCount := retryCount,
           ob_lastError := Some message, ob_nextRetryAt := db_now s + delayMs\<rparr>) s)"

definition processItem :: "tahesabClient \<Rightarrow> tahesabOutbox \<Rightarrow> db \<Rightarrow> db" where
  "processItem call item s =
     (case dispatch call s (ob_method item) (ob_payload item) of
        Inr result \<Rightarrow> markSuccess item (extractFactorCode result) s
      | Inl message \<Rightarrow> markFailed item message s)"

definition compareCreated :: "tahesabOutbox \<Rightarrow> tahesabOutbox \<Rightarrow> int" where
  "compareCreated a b = ob_createdAt a - ob_createdAt b"

definition pendingBatch :: "nat \<Rightarrow> db \<Rightarrow> tahesabOutbox list" where
  "pendingBatch limit s =
     take limit (sortBy compareCreated
       (findMany (\<lambda>ob. ob_status ob = TahesabOutboxStatus.PENDING \<and> ob_nextRetryAt ob \<le> db_now s) (tahesabOutboxes s)))"

definition processBatch :: "tahesabClient \<Rightarrow> nat \<Rightarrow> db \<Rightarrow> db" where
  "processBatch call limit s = foldl (\<lambda>s item. processItem call item s) s (pendingBatch limit s)"

section \<open>Lemmas\<close>

interpretation createdOrder: comparator compareCreated ob_createdAt
  by unfold_locales (simp add: compareCreated_def)

definition eraseOutbox :: "db \<Rightarrow> db" where
  "eraseOutbox s = s\<lparr>db_seq := 0, tahesabOutboxes := []\<rparr>"

lemma enqueue_frame: "holdsE (\<lambda>_. agrees eraseOutbox s) (enqueue m p c s)"
  by (simp add: enqueue_def agrees_def eraseOutbox_def bumpId_def)

lemma enqueueOnce_frame: "holdsE (\<lambda>_. agrees eraseOutbox s) (enqueueOnce m p c s)"
  by (auto simp: enqueueOnce_def split: option.split intro: enqueue_frame)

lemma enqueueDeletion_frame: "holdsE (\<lambda>_. agrees eraseOutbox s) (enqueueDeletion m c d s)"
  by (auto simp: enqueueDeletion_def split: option.split intro: enqueueOnce_frame)

lemma enqueueRemittanceLeg_frame: "holdsE (\<lambda>_. agrees eraseOutbox s) (enqueueRemittanceLeg cfg l g i f t st s)"
  by (auto simp: enqueueRemittanceLeg_def Let_def intro: enqueue_frame)

lemma ledger_ok_enqueue [keeps]: "ledger_ok s \<Longrightarrow> holdsE (\<lambda>_. ledger_ok) (enqueue m p c s)"
  by (simp add: enqueue_def ledger_ok_bump)

lemma ledger_ok_enqueueOnce [keeps]: "ledger_ok s \<Longrightarrow> holdsE (\<lambda>_. ledger_ok) (enqueueOnce m p c s)"
  by (auto simp: enqueueOnce_def split: option.split intro: ledger_ok_enqueue)

lemma ledger_ok_enqueueDeletion [keeps]: "ledger_ok s \<Longrightarrow> holdsE (\<lambda>_. ledger_ok) (enqueueDeletion m c d s)"
  by (auto simp: enqueueDeletion_def split: option.split intro: ledger_ok_enqueueOnce)

lemma ledger_ok_enqueueRemittanceLeg [keeps]:
  "ledger_ok s \<Longrightarrow> holdsE (\<lambda>_. ledger_ok) (enqueueRemittanceLeg cfg l g i f t st s)"
  by (auto simp: enqueueRemittanceLeg_def Let_def intro: ledger_ok_enqueue)

lemma enqueueOnce_total: "\<exists>t. enqueueOnce m p c s = Inr ((), t)"
  by (auto simp: enqueueOnce_def enqueue_def split: option.split)

text \<open>The row of an item after it has been processed.\<close>

definition outcomeRow :: "tahesabClient \<Rightarrow> db \<Rightarrow> tahesabOutbox \<Rightarrow> tahesabOutbox" where
  "outcomeRow call s o' =
     (case dispatch call s (ob_method o') (ob_payload o') of
        Inr result \<Rightarrow> o'\<lparr>ob_status := TahesabOutboxStatus.SUCCESS, ob_lastError := None,
                         ob_tahesabFactorCode := extractFactorCode result\<rparr>
      | Inl message \<Rightarrow> o'\<lparr>ob_status := TahesabOutboxStatus.FAILED, ob_retryCount := ob_retryCount o' + 1,
          ob_lastError := Some message, ob_nextRetryAt := db_now s + min 600000 (1000 * 2 ^ (ob_retryCount o' + 1))\<rparr>)"

lemma outcomeRow_id [simp]: "ob_id (outcomeRow call s o') = ob_id o'"
  by (simp add: outcomeRow_def split: sum.split)

lemma processItem_now [simp]: "db_now (processItem call item s) = db_now s"
  by (simp add: processItem_def markSuccess_def markFailed_def updateOutbox_def Let_def split: sum.split option.split)

lemma processItem_rows:
  assumes "distinct (map ob_id (tahesabOutboxes s))" and "item \<in> set (tahesabOutboxes s)"
  shows "tahesabOutboxes (processItem call item s) =
    updateRows (\<lambda>o'. ob_id o' = ob_id item) (\<lambda>_. outcomeRow call s item) (tahesabOutboxes s)"
proof -
  have same: "o' = item" if "o' \<in> set (tahesabOutboxes s)" "ob_id o' = ob_id item" for o'
    using assms that by (metis distinct_map inj_onD)
  have "tahesabOutboxes (processItem call item s) = updateRows (\<lambda>o'. ob_id o' = ob_id item)
      (\<lambda>o'. case dispatch call s (ob_method item) (ob_payload item) of
        Inr result \<Rightarrow> o'\<lparr>ob_status := TahesabOutboxStatus.SUCCESS, ob_lastError := None,
                         ob_tahesabFactorCode := extractFactorCode result\<rparr>
      | Inl message \<Rightarrow> o'\<lparr>ob_status := TahesabOutboxStatus.FAILED, ob_retryCount := ob_retryCount item + 1,
          ob_lastError := Some message, ob_nextRetryAt := db_now s + min 600000 (1000 * 2 ^ (ob_retryCount item + 1))\<rparr>)
      (tahesabOutboxes s)"
    by (simp add: processItem_def markSuccess_def markFailed_def updateOutbox_def Let_def split: sum.split option.split)
  also have "\<dots> = updateRows (\<lambda>o'. ob_id o' = ob_id item) (\<lambda>_. outcomeRow call s item) (tahesabOutboxes s)"
    by (rule updateRows_cong) (auto dest: same simp: outcomeRow_def split: sum.split)
  finally show ?thesis .
qed

lemma processItem_ids:
  "distinct (map ob_id (tahesabOutboxes s)) \<Longrightarrow> item \<in> set (tahesabOutboxes s) \<Longrightarrow>
   map ob_id (tahesabOutboxes (processItem call item s)) = map ob_id (tahesabOutboxes s)"
  by (simp add: processItem_rows updateRows_def o_def cong: map_cong)

lemma processItem_keeps:
  "distinct (map ob_id (tahesabOutboxes s)) \<Longrightarrow> item \<in> set (tahesabOutboxes s) \<Longrightarrow>
   o' \<in> set (tahesabOutboxes s) \<Longrightarrow> ob_id o' \<noteq> ob_id item \<Longrightarrow> o' \<in> set (tahesabOutboxes (processItem call item s))"
  by (force simp: processItem_rows set_updateRows)

lemma processItem_writes:
  "distinct (map ob_id (tahesabOutboxes s)) \<Longrightarrow> item \<in> set (tahesabOutboxes s) \<Longrightarrow>
   outcomeRow call s item \<in> set (tahesabOutboxes (processItem call item s))"
  by (force simp: processItem_rows set_updateRows)

lemma process_items:
  assumes "distinct (map ob_id items)" and "distinct (map ob_id (tahesabOutboxes s))"
    and "set items \<subseteq> set (tahesabOutboxes s)" and "o' \<in> set (tahesabOutboxes s)"
  shows "(ob_id o' \<notin> ob_id ` set items \<longrightarrow> o' \<in> set (tahesabOutboxes (foldl (\<lambda>s i. processItem call i s) s items))) \<and>
    (o' \<in> set items \<longrightarrow> (\<exists>u. db_now u = db_now s \<and>
       outcomeRow call u o' \<in> set (tahesabOutboxes (foldl (\<lambda>s i. processItem call i s) s items))))"
  using assms
proof (induction items arbitrary: s o')
  case Nil
  then show ?case by simp
next
  case (Cons x items)
  let ?s = "processItem call x s"
  have x: "x \<in> set (tahesabOutboxes s)" "x \<notin> set items" "ob_id x \<notin> ob_id ` set items"
    using Cons.prems(1,3) by auto
  have d: "distinct (map ob_id (tahesabOutboxes ?s))"
    using Cons.prems(2) processItem_ids [OF Cons.prems(2) x(1)] by simp
  have rest: "set items \<subseteq> set (tahesabOutboxes ?s)"
  proof
    fix i assume i: "i \<in> set items"
    then have "ob_id i \<noteq> ob_id x" using x(3) by (metis imageI)
    with i Cons.prems show "i \<in> set (tahesabOutboxes ?s)"
      by (intro processItem_keeps [OF Cons.prems(2) x(1)]) auto
  qed
  have IH: "o'' \<in> set (tahesabOutboxes ?s) \<Longrightarrow>
      (ob_id o'' \<notin> ob_id ` set items \<longrightarrow> o'' \<in> set (tahesabOutboxes (foldl (\<lambda>s i. processItem call i s) ?s items))) \<and>
      (o'' \<in> set items \<longrightarrow> (\<exists>u. db_now u = db_now s \<and>
         outcomeRow call u o'' \<in> set (tahesabOutboxes (foldl (\<lambda>s i. processItem call i s) ?s items))))" for o''
    using Cons.IH [OF _ d rest, of o''] Cons.prems(1) by simp
  show ?case
  proof (cases "ob_id o' = ob_id x")
    case True
    have "outcomeRow call s x \<in> set (tahesabOutboxes (foldl (\<lambda>s i. processItem call i s) ?s items))"
      using IH [OF processItem_writes [OF Cons.prems(2) x(1)]] x(3) by simp
    moreover have "o' = x" using True x(1) Cons.prems(2,4) by (metis distinct_map inj_onD)
    ultimately show ?thesis by auto
  next
    case False
    with IH [OF processItem_keeps [OF Cons.prems(2) x(1) Cons.prems(4) False]] show ?thesis by auto
  qed
qed

lemma batch_rows:
  assumes "distinct (map ob_id (tahesabOutboxes s))" and "o' \<in> set (tahesabOutboxes s)"
  shows "(if o' \<in> set (pendingBatch limit s)
          then ob_status o' = TahesabOutboxStatus.PENDING \<and>
            (\<exists>u. db_now u = db_now s \<and> outcomeRow call u o' \<in> set (tahesabOutboxes (processBatch call limit s)))
          else o' \<in> set (tahesabOutboxes (processBatch call limit s))) \<and>
    (ob_status o' = TahesabOutboxStatus.FAILED \<longrightarrow> o' \<in> set (tahesabOutboxes (processBatch call limit s)))"
proof -
  have batch: "set (pendingBatch limit s) \<subseteq> {o' \<in> set (tahesabOutboxes s). ob_status o' = TahesabOutboxStatus.PENDING}"
    unfolding pendingBatch_def
    by (rule order_trans [OF set_take_subset]) (auto simp: createdOrder.sortBy_set)
  have "distinct (map ob_id (sortBy compareCreated
      (findMany (\<lambda>ob. ob_status ob = TahesabOutboxStatus.PENDING \<and> ob_nextRetryAt ob \<le> db_now s) (tahesabOutboxes s))))"
    (is "distinct (map ob_id (sortBy _ ?rows))")
  proof -
    have "distinct (map ob_id ?rows)" using assms(1) by (rule distinct_map_filter)
    moreover have "mset (map ob_id (sortBy compareCreated ?rows)) = mset (map ob_id ?rows)"
      by (simp add: createdOrder.sortBy_mset)
    ultimately show ?thesis using mset_eq_imp_distinct_iff by blast
  qed
  then have d: "distinct (map ob_id (pendingBatch limit s))"
    by (simp add: pendingBatch_def flip: take_map)
  note items = process_items [OF d assms(1) _ assms(2), of call, folded processBatch_def]
  have same: "i = o'" if "i \<in> set (pendingBatch limit s)" "ob_id i = ob_id o'" for i
  proof (rule inj_onD [of ob_id "set (tahesabOutboxes s)" i o'])
    show "ob_id i = ob_id o'" by (rule that(2))
    show "inj_on ob_id (set (tahesabOutboxes s))" using assms(1) by (simp add: distinct_map)
    show "i \<in> set (tahesabOutboxes s)" using batch that(1) by blast
    show "o' \<in> set (tahesabOutboxes s)" by (rule assms(2))
  qed
  have new: "ob_id o' \<notin> ob_id ` set (pendingBatch limit s)" if "o' \<notin> set (pendingBatch limit s)"
    using same that by (metis image_iff)
  have "set (pendingBatch limit s) \<subseteq> set (tahesabOutboxes s)" using batch by blast
  note items = items [OF this]
  show ?thesis
  proof (cases "o' \<in> set (pendingBatch limit s)")
    case True
    with batch have "ob_status o' = TahesabOutboxStatus.PENDING" by blast
    with True items show ?thesis by simp
  next
    case False
    with items new show ?thesis by simp
  qed
qed


section \<open>Properties\<close>

text \<open>
  Which rows the first \<open>limit\<close> of the due ones are: every row with fewer than \<open>limit\<close> others created no later,
  and none with \<open>limit\<close> or more created before it.
\<close>

definition dueRows :: "db \<Rightarrow> tahesabOutbox list" where
  "dueRows s = filter (\<lambda>r. ob_status r = TahesabOutboxStatus.PENDING \<and> ob_nextRetryAt r \<le> db_now s) (tahesabOutboxes s)"

lemma sorted_take_first:
  assumes "sorted (map k xs)" and "x \<in> set xs" and "length (filter (\<lambda>y. y \<noteq> x \<and> k y \<le> k x) xs) < n"
  shows "x \<in> set (take n xs)"
proof (rule ccontr)
  assume out: "x \<notin> set (take n xs)"
  have split: "x \<in> set (take n xs) \<union> set (drop n xs)" using assms(2) by (metis append_take_drop_id set_append)
  with out have x: "x \<in> set (drop n xs)" and long: "n < length xs" by (auto intro: ccontr)
  have "sorted (map k (take n xs) @ map k (drop n xs))"
    using assms(1) by (metis append_take_drop_id map_append)
  then have "y \<noteq> x \<and> k y \<le> k x" if "y \<in> set (take n xs)" for y
    using that x out by (auto simp: sorted_append)
  then have "filter (\<lambda>y. y \<noteq> x \<and> k y \<le> k x) (take n xs) = take n xs" by simp
  then have "n \<le> length (filter (\<lambda>y. y \<noteq> x \<and> k y \<le> k x) (take n xs @ drop n xs))"
    using long by (simp only: filter_append length_append) simp
  with assms(3) show False by simp
qed

lemma sorted_take_late:
  assumes "sorted (map k xs)" and "n \<le> length (filter (\<lambda>y. k y < k x) xs)"
  shows "x \<notin> set (take n xs)"
proof
  assume "x \<in> set (take n xs)"
  then obtain i where i: "i < n" "i < length xs" "xs ! i = x" by (auto simp: in_set_conv_nth)
  have late: "k x \<le> k y" if y: "y \<in> set (drop i xs)" for y
  proof -
    obtain j where "j < length (drop i xs)" "drop i xs ! j = y" using y unfolding in_set_conv_nth by blast
    then have j: "i + j < length xs" "y = xs ! (i + j)" by simp_all
    then show ?thesis using sorted_nth_mono [OF assms(1), of i "i + j"] i by simp
  qed
  have "filter (\<lambda>y. k y < k x) (drop i xs) = []" using late by (auto simp: filter_empty_conv dest: leD)
  then have "length (filter (\<lambda>y. k y < k x) (take i xs @ drop i xs)) \<le> i"
    by (simp only: filter_append length_append list.size(3) add_0_right) (rule le_trans [OF length_filter_le], simp)
  with i(1) assms(2) show False by simp
qed

lemma pendingBatch_takes:
  "r \<in> set (dueRows s) \<Longrightarrow> length (filter (\<lambda>y. y \<noteq> r \<and> ob_createdAt y \<le> ob_createdAt r) (dueRows s)) < limit \<Longrightarrow>
   r \<in> set (pendingBatch limit s)"
  "limit \<le> length (filter (\<lambda>y. ob_createdAt y < ob_createdAt r) (dueRows s)) \<Longrightarrow> r \<notin> set (pendingBatch limit s)"
  "set (pendingBatch limit s) \<subseteq> set (dueRows s)"
proof -
  let ?xs = "sortBy compareCreated (dueRows s)"
  have eq: "pendingBatch limit s = take limit ?xs" by (simp add: pendingBatch_def dueRows_def)
  have len: "length (filter P ?xs) = length (filter P (dueRows s))" for P
    by (metis createdOrder.sortBy_mset mset_filter size_mset)
  show "r \<in> set (dueRows s) \<Longrightarrow> length (filter (\<lambda>y. y \<noteq> r \<and> ob_createdAt y \<le> ob_createdAt r) (dueRows s)) < limit \<Longrightarrow>
   r \<in> set (pendingBatch limit s)"
    unfolding eq by (rule sorted_take_first [OF createdOrder.sortBy_sorted]) (simp_all add: createdOrder.sortBy_set len)
  show "limit \<le> length (filter (\<lambda>y. ob_createdAt y < ob_createdAt r) (dueRows s)) \<Longrightarrow> r \<notin> set (pendingBatch limit s)"
    unfolding eq by (rule sorted_take_late [OF createdOrder.sortBy_sorted]) (simp add: len)
  show "set (pendingBatch limit s) \<subseteq> set (dueRows s)"
    unfolding eq using set_take_subset by (force simp: createdOrder.sortBy_set)
qed



text \<open>
  The vouchers of trades, deposits, withdrawals, custody movements and remittances are never
  sent: \<open>dispatch\<close> has no case for their actions, so whatever the Tahesab client would do, a batch
  marks such an item \<open>SUCCESS\<close> without a factor code.
\<close>

theorem vouchers_not_sent:
  assumes "distinct (map ob_id (tahesabOutboxes s))" and "o' \<in> set (pendingBatch limit s)"
    and "ob_method o' \<notin> {''DoNewMoshtari'', ''DoEditMoshtari'', ''DoDeleteSanad''}"
  shows "o'\<lparr>ob_status := TahesabOutboxStatus.SUCCESS, ob_lastError := None, ob_tahesabFactorCode := None\<rparr>
    \<in> set (tahesabOutboxes (processBatch call limit s))"
proof -
  have mem: "o' \<in> set (tahesabOutboxes s)"
    using assms(2) unfolding pendingBatch_def
    by (auto dest!: set_take_subset [THEN subsetD] simp: createdOrder.sortBy_set)
  have "dispatch call u (ob_method o') (ob_payload o') = Inr None" for u
    using assms(3) by (auto simp: dispatch_def processRemittanceVoucher_def dispatchSimple_def split: outboxPayload.split)
  then show ?thesis
    using batch_rows [OF assms(1) mem, of limit call] assms(2) by (simp add: outcomeRow_def extractFactorCode_def)
qed

lemma vouchers_not_sent_witness:
  "let o' = \<lparr>ob_id = ''o'', ob_createdAt = 0, ob_method = ''DoNewSanadVKHBank'', ob_payload = OtherPayload ''v'',
       ob_status = TahesabOutboxStatus.PENDING, ob_retryCount = 0, ob_lastError = None, ob_nextRetryAt = 0,
       ob_correlationId = None, ob_tahesabFactorCode = None\<rparr>
   in o'\<lparr>ob_status := TahesabOutboxStatus.SUCCESS\<rparr>
     \<in> set (tahesabOutboxes (processBatch (\<lambda>_ _ _. Inl ''down'') 50 (emptyDb\<lparr>tahesabOutboxes := [o']\<rparr>)))"
proof -
  let ?o = "\<lparr>ob_id = ''o'', ob_createdAt = 0, ob_method = ''DoNewSanadVKHBank'', ob_payload = OtherPayload ''v'',
       ob_status = TahesabOutboxStatus.PENDING, ob_retryCount = 0, ob_lastError = None, ob_nextRetryAt = 0,
       ob_correlationId = None, ob_tahesabFactorCode = None\<rparr>"
  let ?s = "emptyDb\<lparr>tahesabOutboxes := [?o]\<rparr>"
  have "?o \<in> set (pendingBatch 50 ?s)" by (simp add: pendingBatch_def sortBy_def emptyDb_def)
  with vouchers_not_sent [of ?s ?o 50 "\<lambda>_ _ _. Inl ''down''"] show ?thesis by simp
qed

end
