(* ===== verification/Files.thy ===== *)
theory Files
  imports Outbox
begin

text \<open>
  \<open>modules/files/files.service.ts\<close> and \<open>modules/attachments/attachments.service.ts\<close>: who may read,
  attach and delete a file. The bytes are in \<open>FileStore\<close>; the deletions here are their effect on the
  database, which precedes the call to the storage.
\<close>

section \<open>Operations\<close>

record actor =
  act_id :: id
  act_role :: UserRole

definition findFile :: "id \<Rightarrow> db \<Rightarrow> fileRow option" where
  "findFile i s = findFirst (\<lambda>f. fi_id f = i) (fileRows s)"

definition attachmentsOf :: "id \<Rightarrow> db \<Rightarrow> attachment list" where
  "attachmentsOf fileId s = findMany (\<lambda>a. at_fileId a = fileId) (attachments s)"

definition linksOf :: "id \<Rightarrow> db \<Rightarrow> attachmentLink list" where
  "linksOf fileId s = findMany (\<lambda>l. lk_fileId l = fileId) (attachmentLinks s)"

definition idsByType :: "AttachmentEntityType \<Rightarrow> attachment list \<Rightarrow> id list" where
  "idsByType t atts = map at_entityId (filter (\<lambda>a. at_entityType a = t) atts)"

definition groupCreator :: "remittance \<Rightarrow> db \<Rightarrow> id option" where
  "groupCreator r s =
     (case rm_groupId r of None \<Rightarrow> None
      | Some g \<Rightarrow> map_option rg_createdByUserId (findFirst (\<lambda>x. rg_id x = g) (remittanceGroups s)))"

definition isActorOwnerOfAttachmentEntities :: "attachment list \<Rightarrow> id \<Rightarrow> db \<Rightarrow> bool" where
  "isActorOwnerOfAttachmentEntities atts actorId s =
     ((\<exists>d\<in>set (depositRequests s). dp_id d \<in> set (idsByType AttachmentEntityType.DEPOSIT atts) \<and> dp_userId d = actorId) \<or>
      (\<exists>w\<in>set (withdrawRequests s). wd_id w \<in> set (idsByType AttachmentEntityType.WITHDRAW atts) \<and> wd_userId w = actorId) \<or>
      (\<exists>t\<in>set (trades s). td_id t \<in> set (idsByType AttachmentEntityType.TRADE atts) \<and> td_clientId t = actorId) \<or>
      (\<exists>g\<in>set (goldLots s). gl_id g \<in> set (idsByType AttachmentEntityType.GOLD_LOT atts) \<and> gl_userId g = actorId) \<or>
      (\<exists>r\<in>set (remittances s). rm_id r \<in> set (idsByType AttachmentEntityType.REMITTANCE atts) \<and>
         (rm_fromUserId r = actorId \<or> rm_toUserId r = actorId \<or> groupCreator r s = Some actorId)))"

definition isActorOwnerOfAttachmentLinks :: "attachmentLink list \<Rightarrow> id \<Rightarrow> db \<Rightarrow> bool" where
  "isActorOwnerOfAttachmentLinks links actorId s =
     (let allocationIds = map lk_entityId
            (filter (\<lambda>l. lk_entityType l = AttachmentLinkEntityType.P2P_ALLOCATION) links)
      in \<exists>a\<in>set (p2pAllocations s). al_id a \<in> set allocationIds \<and>
           ((\<exists>d\<in>set (depositRequests s). dp_id d = al_depositId a \<and> dp_userId d = actorId) \<or>
            (\<exists>w\<in>set (withdrawRequests s). wd_id w = al_withdrawalId a \<and> wd_userId w = actorId)))"

definition getFileAuthorized :: "id \<Rightarrow> actor \<Rightarrow> db \<Rightarrow> err + fileRow" where
  "getFileAuthorized fileId actor s =
     (case findFile fileId s of
        None \<Rightarrow> Inl (NotFoundException ''FILE_NOT_FOUND'')
      | Some file \<Rightarrow>
          (let atts = attachmentsOf fileId s; links = linksOf fileId s
           in if act_role actor = UserRole.ADMIN then Inr file
              else if fi_uploadedById file = act_id actor then Inr file
              else if atts = [] \<and> links = [] then Inl (ForbiddenException ''FILE_STREAM_ACCESS_DENIED'')
              else let isLinked = isActorOwnerOfAttachmentEntities atts (act_id actor) s
              in if \<not> isLinked \<and> links \<noteq> [] \<and> isActorOwnerOfAttachmentLinks links (act_id actor) s then Inr file
                 else if \<not> isLinked then Inl (ForbiddenException ''FILE_STREAM_ACCESS_DENIED'')
                 else Inr file))"

definition deleteFileRow :: "id \<Rightarrow> db \<Rightarrow> db" where
  "deleteFileRow fileId s = s\<lparr>fileRows := deleteRows (\<lambda>f. fi_id f = fileId) (fileRows s)\<rparr>"

definition deleteFileAsUser :: "id \<Rightarrow> actor \<Rightarrow> db \<Rightarrow> unit tx" where
  "deleteFileAsUser fileId actor s =
     (case findFile fileId s of
        None \<Rightarrow> Inl (NotFoundException ''FILE_NOT_FOUND'')
      | Some file \<Rightarrow>
          (if fi_uploadedById file \<noteq> act_id actor then Inl (ForbiddenException ''FILE_STREAM_ACCESS_DENIED'')
           else if attachmentsOf fileId s \<noteq> [] \<or> linksOf fileId s \<noteq> []
             then Inl (ConflictException ''BUSINESS_RULE_VIOLATION'')
           else Inr ((), deleteFileRow (fi_id file) s)))"

definition deleteFileAsAdmin :: "id \<Rightarrow> bool \<Rightarrow> db \<Rightarrow> unit tx" where
  "deleteFileAsAdmin fileId force s =
     (case findFile fileId s of
        None \<Rightarrow> Inl (NotFoundException ''FILE_NOT_FOUND'')
      | Some file \<Rightarrow>
          (if (attachmentsOf fileId s \<noteq> [] \<or> linksOf fileId s \<noteq> []) \<and> \<not> force
             then Inl (ConflictException ''BUSINESS_RULE_VIOLATION'')
           else Inr ((), deleteFileRow fileId
                  (if force
                     then s\<lparr>attachments := deleteRows (\<lambda>a. at_fileId a = fileId) (attachments s),
                            attachmentLinks := deleteRows (\<lambda>l. lk_fileId l = fileId) (attachmentLinks s)\<rparr>
                   else s))))"

definition createAttachment :: "AttachmentEntityType \<Rightarrow> id \<Rightarrow> id \<Rightarrow> db \<Rightarrow> unit tx" where
  "createAttachment entityType entityId fileId s =
     Inr ((), (bumpId s)\<lparr>attachments := attachments s @
       [\<lparr>at_id = freshId s, at_createdAt = db_now s, at_fileId = fileId, at_entityType = entityType, at_entityId = entityId,
         at_purpose = None\<rparr>]\<rparr>)"

definition createAttachmentsForActor ::
  "actor \<Rightarrow> id list option \<Rightarrow> AttachmentEntityType \<Rightarrow> id \<Rightarrow> db \<Rightarrow> unit tx" where
  "createAttachmentsForActor actor fileIds entityType entityId s =
     (case fileIds of
        None \<Rightarrow> Inr ((), s)
      | Some ids \<Rightarrow>
          (if ids = [] then Inr ((), s)
           else let files = findMany (\<lambda>f. fi_id f \<in> set ids) (fileRows s)
           in if length files \<noteq> length ids then Inl (BadRequestException ''KYC_INVALID_FILE_IDS'')
              else if act_role actor \<noteq> UserRole.ADMIN \<and> (\<exists>f\<in>set files. fi_uploadedById f \<noteq> act_id actor)
                then Inl (ForbiddenException ''KYC_FILES_FORBIDDEN'')
              else forE ids (createAttachment entityType entityId) s))"

definition assertActorOwnsEntity :: "id \<Rightarrow> AttachmentEntityType \<Rightarrow> id \<Rightarrow> db \<Rightarrow> err option" where
  "assertActorOwnsEntity actorId entityType entityId s =
     (let owned = (\<lambda>message owner. case owner of None \<Rightarrow> Some (NotFoundException message)
                    | Some u \<Rightarrow> if u \<noteq> actorId then Some (ForbiddenException ''Forbidden'') else None)
      in case entityType of
        AttachmentEntityType.DEPOSIT \<Rightarrow> owned ''Deposit not found''
          (map_option dp_userId (findFirst (\<lambda>d. dp_id d = entityId) (depositRequests s)))
      | AttachmentEntityType.WITHDRAW \<Rightarrow> owned ''Withdraw request not found''
          (map_option wd_userId (findFirst (\<lambda>w. wd_id w = entityId) (withdrawRequests s)))
      | AttachmentEntityType.TRADE \<Rightarrow> owned ''Trade not found''
          (map_option td_clientId (findFirst (\<lambda>t. td_id t = entityId) (trades s)))
      | AttachmentEntityType.GOLD_LOT \<Rightarrow> owned ''Gold lot not found''
          (map_option gl_userId (findFirst (\<lambda>g. gl_id g = entityId) (goldLots s)))
      | AttachmentEntityType.KYC \<Rightarrow>
          (if entityId \<noteq> actorId then Some (ForbiddenException ''Forbidden'') else None)
      | AttachmentEntityType.REMITTANCE \<Rightarrow>
          (case findFirst (\<lambda>r. rm_id r = entityId) (remittances s) of
             None \<Rightarrow> Some (NotFoundException ''Remittance not found'')
           | Some r \<Rightarrow>
               (if rm_fromUserId r \<noteq> actorId \<and> rm_toUserId r \<noteq> actorId \<and> groupCreator r s \<noteq> Some actorId
                  then Some (ForbiddenException ''Forbidden'') else None)))"

definition listForEntityAuthorized ::
  "actor \<Rightarrow> AttachmentEntityType \<Rightarrow> id \<Rightarrow> db \<Rightarrow> err + attachment list" where
  "listForEntityAuthorized actor entityType entityId s =
     (case (if act_role actor \<noteq> UserRole.ADMIN
              then assertActorOwnsEntity (act_id actor) entityType entityId s else None) of
        Some e \<Rightarrow> Inl e
      | None \<Rightarrow> Inr (findMany (\<lambda>a. at_entityType a = entityType \<and> at_entityId a = entityId) (attachments s)))"

section \<open>Lemmas\<close>

definition eraseAttachments :: "db \<Rightarrow> db" where
  "eraseAttachments s = s\<lparr>db_seq := 0, attachments := []\<rparr>"

lemma createAttachment_frame: "holdsE (\<lambda>_. agrees eraseAttachments s) (createAttachment et ei f s)"
  by (simp add: createAttachment_def agrees_def eraseAttachments_def bumpId_def)

lemma createAttachmentsForActor_frame:
  "holdsE (\<lambda>_. agrees eraseAttachments s) (createAttachmentsForActor actor ids et ei s)"
  by (auto simp: createAttachmentsForActor_def Let_def split: option.split
      intro: agrees_for createAttachment_frame)

lemma createAttachmentsForActor_ledger [keeps]:
  "ledger_ok s \<Longrightarrow> holdsE (\<lambda>_. ledger_ok) (createAttachmentsForActor actor ids et ei s)"
  by (auto simp: createAttachmentsForActor_def Let_def createAttachment_def ledger_ok_bump split: option.split
      intro!: holdsE_for)

lemma createAttachments_rows:
  "forE ids (createAttachment et ei) s = Inr ((), t) \<Longrightarrow>
   map (\<lambda>a. (at_fileId a, at_entityType a, at_entityId a)) (attachments t) =
     map (\<lambda>a. (at_fileId a, at_entityType a, at_entityId a)) (attachments s) @ map (\<lambda>i. (i, et, ei)) ids"
  by (induction ids arbitrary: s) (auto simp: createAttachment_def bumpId_def)

text \<open>The services compare numbers: as many rows found as identifiers asked for means all of them, each once.\<close>

lemma files_found:
  assumes rows: "distinct (map fi_id rows)" and len: "length (findMany (\<lambda>f. fi_id f \<in> set ids) rows) = length ids"
  shows "distinct ids" "\<And>i. i \<in> set ids \<Longrightarrow> \<exists>f\<in>set rows. fi_id f = i"
proof -
  let ?files = "findMany (\<lambda>f. fi_id f \<in> set ids) rows"
  have d: "distinct (map fi_id ?files)" by (rule distinct_map_filter [OF rows])
  have sub: "set (map fi_id ?files) \<subseteq> set ids" by auto
  have card: "card (set (map fi_id ?files)) = length ids"
    using distinct_card [OF d] len by simp
  with card_mono [OF _ sub] card_length [of ids] have n: "card (set ids) = length ids" by simp
  then show "distinct ids" by (rule card_distinct)
  have "set (map fi_id ?files) = set ids"
    using card_subset_eq [OF _ sub] card n by simp
  then show "\<exists>f\<in>set rows. fi_id f = i" if "i \<in> set ids" for i using that by force
qed

text \<open>The parties of an entity, as the two services understand ownership.\<close>

definition ownsEntity :: "id \<Rightarrow> AttachmentEntityType \<Rightarrow> id \<Rightarrow> db \<Rightarrow> bool" where
  "ownsEntity u et ei s =
     (case et of
        AttachmentEntityType.DEPOSIT \<Rightarrow> \<exists>d\<in>set (depositRequests s). dp_id d = ei \<and> dp_userId d = u
      | AttachmentEntityType.WITHDRAW \<Rightarrow> \<exists>w\<in>set (withdrawRequests s). wd_id w = ei \<and> wd_userId w = u
      | AttachmentEntityType.TRADE \<Rightarrow> \<exists>t\<in>set (trades s). td_id t = ei \<and> td_clientId t = u
      | AttachmentEntityType.GOLD_LOT \<Rightarrow> \<exists>g\<in>set (goldLots s). gl_id g = ei \<and> gl_userId g = u
      | AttachmentEntityType.KYC \<Rightarrow> False
      | AttachmentEntityType.REMITTANCE \<Rightarrow> \<exists>r\<in>set (remittances s). rm_id r = ei \<and>
          (rm_fromUserId r = u \<or> rm_toUserId r = u \<or> groupCreator r s = Some u))"

lemma owned_by_type:
  "(\<exists>x\<in>set (depositRequests s). dp_id x \<in> set (idsByType AttachmentEntityType.DEPOSIT atts) \<and> dp_userId x = u) \<longleftrightarrow>
     (\<exists>a\<in>set atts. at_entityType a = AttachmentEntityType.DEPOSIT \<and> ownsEntity u AttachmentEntityType.DEPOSIT (at_entityId a) s)"
  "(\<exists>x\<in>set (withdrawRequests s). wd_id x \<in> set (idsByType AttachmentEntityType.WITHDRAW atts) \<and> wd_userId x = u) \<longleftrightarrow>
     (\<exists>a\<in>set atts. at_entityType a = AttachmentEntityType.WITHDRAW \<and> ownsEntity u AttachmentEntityType.WITHDRAW (at_entityId a) s)"
  "(\<exists>x\<in>set (trades s). td_id x \<in> set (idsByType AttachmentEntityType.TRADE atts) \<and> td_clientId x = u) \<longleftrightarrow>
     (\<exists>a\<in>set atts. at_entityType a = AttachmentEntityType.TRADE \<and> ownsEntity u AttachmentEntityType.TRADE (at_entityId a) s)"
  "(\<exists>x\<in>set (goldLots s). gl_id x \<in> set (idsByType AttachmentEntityType.GOLD_LOT atts) \<and> gl_userId x = u) \<longleftrightarrow>
     (\<exists>a\<in>set atts. at_entityType a = AttachmentEntityType.GOLD_LOT \<and> ownsEntity u AttachmentEntityType.GOLD_LOT (at_entityId a) s)"
  "(\<exists>x\<in>set (remittances s). rm_id x \<in> set (idsByType AttachmentEntityType.REMITTANCE atts) \<and> (rm_fromUserId x = u \<or> rm_toUserId x = u \<or> groupCreator x s = Some u)) \<longleftrightarrow>
     (\<exists>a\<in>set atts. at_entityType a = AttachmentEntityType.REMITTANCE \<and> ownsEntity u AttachmentEntityType.REMITTANCE (at_entityId a) s)"
  by (auto simp: ownsEntity_def idsByType_def)

lemma ownsEntity_types:
  "ownsEntity u (at_entityType a) (at_entityId a) s \<longleftrightarrow>
     at_entityType a = AttachmentEntityType.DEPOSIT \<and> ownsEntity u AttachmentEntityType.DEPOSIT (at_entityId a) s \<or>
     at_entityType a = AttachmentEntityType.WITHDRAW \<and> ownsEntity u AttachmentEntityType.WITHDRAW (at_entityId a) s \<or>
     at_entityType a = AttachmentEntityType.TRADE \<and> ownsEntity u AttachmentEntityType.TRADE (at_entityId a) s \<or>
     at_entityType a = AttachmentEntityType.GOLD_LOT \<and> ownsEntity u AttachmentEntityType.GOLD_LOT (at_entityId a) s \<or>
     at_entityType a = AttachmentEntityType.REMITTANCE \<and> ownsEntity u AttachmentEntityType.REMITTANCE (at_entityId a) s"
  by (cases "at_entityType a") (simp_all add: ownsEntity_def)

lemma ownerOfEntities_iff:
  "isActorOwnerOfAttachmentEntities atts u s \<longleftrightarrow> (\<exists>a\<in>set atts. ownsEntity u (at_entityType a) (at_entityId a) s)"
proof -
  let ?R = "\<lambda>a. ownsEntity u (at_entityType a) (at_entityId a) s"
  have "(\<exists>a\<in>set atts. ?R a) \<longleftrightarrow> isActorOwnerOfAttachmentEntities atts u s"
    unfolding isActorOwnerOfAttachmentEntities_def owned_by_type
    by (simp only: ownsEntity_types [of u _ s] bex_disj_distrib)
  then show ?thesis by simp
qed

section \<open>Properties\<close>

text \<open>
  C16. A file can be read by exactly those who may: an administrator; its uploader; the owner of a deposit,
  a withdrawal, a trade or a gold lot it is attached to; the sender, the receiver and the creator of the group of
  a remittance it is attached to; and the owner of the deposit and the owner of the withdrawal of a P2P allocation
  it is linked to. Everyone else is refused. Attachments to a KYC record and links to anything but an allocation
  give nobody access.
\<close>

theorem file_access_exact:
  fixes actor :: actor
  assumes "findFile i s = Some f"
  defines "attached \<equiv> (\<lambda>ty ei. \<exists>a\<in>set (attachments s). at_fileId a = i \<and> at_entityType a = ty \<and> at_entityId a = ei)"
    and "linked \<equiv> (\<lambda>ei. \<exists>l\<in>set (attachmentLinks s). lk_fileId l = i \<and>
           lk_entityType l = AttachmentLinkEntityType.P2P_ALLOCATION \<and> lk_entityId l = ei)"
    and "u \<equiv> act_id actor"
  shows "getFileAuthorized i actor s =
    (if act_role actor = UserRole.ADMIN \<or> fi_uploadedById f = u \<or>
        (\<exists>d\<in>set (depositRequests s). dp_userId d = u \<and> attached AttachmentEntityType.DEPOSIT (dp_id d)) \<or>
        (\<exists>w\<in>set (withdrawRequests s). wd_userId w = u \<and> attached AttachmentEntityType.WITHDRAW (wd_id w)) \<or>
        (\<exists>t\<in>set (trades s). td_clientId t = u \<and> attached AttachmentEntityType.TRADE (td_id t)) \<or>
        (\<exists>g\<in>set (goldLots s). gl_userId g = u \<and> attached AttachmentEntityType.GOLD_LOT (gl_id g)) \<or>
        (\<exists>r\<in>set (remittances s). attached AttachmentEntityType.REMITTANCE (rm_id r) \<and>
           (rm_fromUserId r = u \<or> rm_toUserId r = u \<or>
            (\<exists>g. findFirst (\<lambda>x. rm_groupId r = Some (rg_id x)) (remittanceGroups s) = Some g \<and> rg_createdByUserId g = u))) \<or>
        (\<exists>al\<in>set (p2pAllocations s). linked (al_id al) \<and>
           ((\<exists>d\<in>set (depositRequests s). dp_id d = al_depositId al \<and> dp_userId d = u) \<or>
            (\<exists>w\<in>set (withdrawRequests s). wd_id w = al_withdrawalId al \<and> wd_userId w = u)))
     then Inr f else Inl (ForbiddenException ''FILE_STREAM_ACCESS_DENIED''))"
proof -
  have group: "groupCreator r s = Some u \<longleftrightarrow>
      (\<exists>g. findFirst (\<lambda>x. rm_groupId r = Some (rg_id x)) (remittanceGroups s) = Some g \<and> rg_createdByUserId g = u)" for r
  proof (cases "rm_groupId r")
    case (Some k)
    have "findFirst (\<lambda>x. rg_id x = k) (remittanceGroups s) = findFirst (\<lambda>x. k = rg_id x) (remittanceGroups s)"
      by (simp only: eq_commute)
    with Some show ?thesis by (simp add: groupCreator_def)
  qed (auto simp: groupCreator_def dest: find_SomeD)
  have ids: "x \<in> set (idsByType ty (attachmentsOf i s)) \<longleftrightarrow> attached ty x" for x ty
    by (auto simp: idsByType_def attachmentsOf_def attached_def)
  have links: "isActorOwnerOfAttachmentLinks (linksOf i s) u s \<longleftrightarrow>
      (\<exists>al\<in>set (p2pAllocations s). linked (al_id al) \<and>
           ((\<exists>d\<in>set (depositRequests s). dp_id d = al_depositId al \<and> dp_userId d = u) \<or>
            (\<exists>w\<in>set (withdrawRequests s). wd_id w = al_withdrawalId al \<and> wd_userId w = u)))"
    by (force simp: isActorOwnerOfAttachmentLinks_def linksOf_def linked_def)
  have none: "\<not> isActorOwnerOfAttachmentEntities [] u s" "\<not> isActorOwnerOfAttachmentLinks [] u s"
    by (simp_all add: isActorOwnerOfAttachmentEntities_def idsByType_def isActorOwnerOfAttachmentLinks_def)
  have "getFileAuthorized i actor s =
      (if act_role actor = UserRole.ADMIN \<or> fi_uploadedById f = u \<or>
          isActorOwnerOfAttachmentEntities (attachmentsOf i s) u s \<or> isActorOwnerOfAttachmentLinks (linksOf i s) u s
       then Inr f else Inl (ForbiddenException ''FILE_STREAM_ACCESS_DENIED''))"
    using assms(1) none by (auto simp: getFileAuthorized_def Let_def u_def)
  then show ?thesis
    unfolding links isActorOwnerOfAttachmentEntities_def ids group by (simp only: conj_commute disj_assoc)
qed

lemma file_access_exact_witness:
  "let s = emptyDb\<lparr>fileRows := [\<lparr>fi_id = ''f'', fi_uploadedById = ''ali'', fi_storageKey = ''k'', fi_createdAt = 0,
         fi_fileName = ''n'', fi_mimeType = ''t'', fi_sizeBytes = 1, fi_label = None\<rparr>],
       goldLots := [\<lparr>gl_id = ''g'', gl_userId = ''reza'', gl_grossWeight = 1, gl_karat = 750, gl_equivGram750 = 1,
         gl_status = GoldLotStatus.IN_VAULT, gl_note = None\<rparr>],
       attachments := [\<lparr>at_id = ''a'', at_createdAt = 0, at_fileId = ''f'', at_entityType = AttachmentEntityType.GOLD_LOT,
         at_entityId = ''g'', at_purpose = None\<rparr>]\<rparr>
   in getFileAuthorized ''f'' \<lparr>act_id = ''reza'', act_role = UserRole.CLIENT\<rparr> s = Inr (hd (fileRows s)) \<and>
     getFileAuthorized ''f'' \<lparr>act_id = ''eve'', act_role = UserRole.CLIENT\<rparr> s =
       Inl (ForbiddenException ''FILE_STREAM_ACCESS_DENIED'')"
proof -
  let ?f = "\<lparr>fi_id = ''f'', fi_uploadedById = ''ali'', fi_storageKey = ''k'', fi_createdAt = 0,
         fi_fileName = ''n'', fi_mimeType = ''t'', fi_sizeBytes = 1, fi_label = None\<rparr>"
  let ?s = "emptyDb\<lparr>fileRows := [?f],
       goldLots := [\<lparr>gl_id = ''g'', gl_userId = ''reza'', gl_grossWeight = 1, gl_karat = 750, gl_equivGram750 = 1,
         gl_status = GoldLotStatus.IN_VAULT, gl_note = None\<rparr>],
       attachments := [\<lparr>at_id = ''a'', at_createdAt = 0, at_fileId = ''f'', at_entityType = AttachmentEntityType.GOLD_LOT,
         at_entityId = ''g'', at_purpose = None\<rparr>]\<rparr>"
  have found: "findFile ''f'' ?s = Some ?f" by (simp add: findFile_def)
  show ?thesis
    using file_access_exact [OF found, of "\<lparr>act_id = ''reza'', act_role = UserRole.CLIENT\<rparr>"]
      file_access_exact [OF found, of "\<lparr>act_id = ''eve'', act_role = UserRole.CLIENT\<rparr>"]
    by (simp add: emptyDb_def)
qed

text \<open>
  Attaching files is all or nothing and safe: when it succeeds, exactly one attachment per file id
  is added to the entity, in order, every file exists, and a user who is not an administrator has
  uploaded all of them.
\<close>

theorem attach_only_own_files:
  assumes "createAttachmentsForActor actor (Some ids) et ei s = Inr ((), t)"
    and "distinct (map fi_id (fileRows s))"
  shows "map (\<lambda>a. (at_fileId a, at_entityType a, at_entityId a)) (attachments t) =
      map (\<lambda>a. (at_fileId a, at_entityType a, at_entityId a)) (attachments s) @ map (\<lambda>i. (i, et, ei)) ids \<and>
    distinct ids \<and>
    (\<forall>i\<in>set ids. \<exists>f\<in>set (fileRows s). fi_id f = i \<and>
       (act_role actor \<noteq> UserRole.ADMIN \<longrightarrow> fi_uploadedById f = act_id actor))"
proof (cases "ids = []")
  case True
  with assms(1) show ?thesis by (simp add: createAttachmentsForActor_def)
next
  case False
  let ?files = "findMany (\<lambda>f. fi_id f \<in> set ids) (fileRows s)"
  from assms(1) False have len: "length ?files = length ids"
    and own: "act_role actor \<noteq> UserRole.ADMIN \<longrightarrow> (\<forall>f\<in>set ?files. fi_uploadedById f = act_id actor)"
    and run: "forE ids (createAttachment et ei) s = Inr ((), t)"
    by (auto simp: createAttachmentsForActor_def Let_def split: if_splits)
  note found = files_found [OF assms(2) len]
  have ex: "\<exists>f\<in>set (fileRows s). fi_id f = i \<and> (act_role actor \<noteq> UserRole.ADMIN \<longrightarrow> fi_uploadedById f = act_id actor)"
    if "i \<in> set ids" for i
  proof -
    from found(2) [OF that] obtain f where "f \<in> set (fileRows s)" "fi_id f = i" by blast
    moreover from this have "f \<in> set ?files" using that by simp
    ultimately show ?thesis using own by blast
  qed
  show ?thesis by (intro conjI ballI createAttachments_rows [OF run] found(1) ex)
qed

lemma attach_only_own_files_witness:
  "\<exists>t. createAttachmentsForActor \<lparr>act_id = ''ali'', act_role = UserRole.CLIENT\<rparr> (Some [''f''])
     AttachmentEntityType.DEPOSIT ''d'' (emptyDb\<lparr>fileRows := [\<lparr>fi_id = ''f'', fi_uploadedById = ''ali'', fi_storageKey = ''k'', fi_createdAt = 0, fi_fileName = ''n'', fi_mimeType = ''t'',
       fi_sizeBytes = 1, fi_label = None\<rparr>]\<rparr>)
     = Inr ((), t) \<and> map at_fileId (attachments t) = [''f'']"
proof -
  let ?s = "emptyDb\<lparr>fileRows := [\<lparr>fi_id = ''f'', fi_uploadedById = ''ali'', fi_storageKey = ''k'', fi_createdAt = 0, fi_fileName = ''n'', fi_mimeType = ''t'',
       fi_sizeBytes = 1, fi_label = None\<rparr>]\<rparr>"
  obtain t where t: "createAttachmentsForActor \<lparr>act_id = ''ali'', act_role = UserRole.CLIENT\<rparr> (Some [''f''])
     AttachmentEntityType.DEPOSIT ''d'' ?s = Inr ((), t)"
    by (simp add: createAttachmentsForActor_def createAttachment_def Let_def)
  from attach_only_own_files [OF t] have "map (\<lambda>a. (at_fileId a, at_entityType a, at_entityId a)) (attachments t) =
      [(''f'', AttachmentEntityType.DEPOSIT, ''d'')]"
    by (simp add: emptyDb_def)
  then have "map at_fileId (attachments t) = [''f'']" by auto
  with t show ?thesis by (intro exI [of _ t] conjI)
qed

end
