(* ===== verification/Destinations.thy ===== *)
theory Destinations
  imports Files
begin

text \<open>
  \<open>modules/payment-destinations\<close>: the bank destinations of users and of the organisation, their
  masking, and the snapshots the withdrawals and the P2P allocations take of them. Encryption and
  hashing (AES-GCM, SHA-256) are parameters; what the code relies on, that decryption undoes
  encryption, is a hypothesis of the theorem that needs it.
\<close>

section \<open>Values\<close>

definition isAlnum :: "char \<Rightarrow> bool" where
  "isAlnum c = (let n = of_char c :: nat in 48 \<le> n \<and> n \<le> 57 \<or> 65 \<le> n \<and> n \<le> 90 \<or> 97 \<le> n \<and> n \<le> 122)"

definition upperChar :: "char \<Rightarrow> char" where
  "upperChar c = (let n = of_char c :: nat in if 97 \<le> n \<and> n \<le> 122 then char_of (n - 32) else c)"

definition normalizeDestinationValue :: "string \<Rightarrow> string" where
  "normalizeDestinationValue v = map upperChar (filter isAlnum v)"

definition lastN :: "nat \<Rightarrow> 'a list \<Rightarrow> 'a list" where
  "lastN n xs = drop (length xs - n) xs"

definition maskDestinationValue :: "string \<Rightarrow> string" where
  "maskDestinationValue v = (let trimmed = trim v in if trimmed = [] then ''****'' else ''****'' @ lastN 4 trimmed)"

definition maskOwnerName :: "string option \<Rightarrow> string option" where
  "maskOwnerName ownerName =
     (if \<not> truthy ownerName then None
      else let trimmed = trim (the ownerName)
      in if trimmed = [] then None
         else if length trimmed \<le> 2 then Some (hd trimmed # ''*'')
         else Some (hd trimmed # ''***'' @ lastN 1 trimmed))"

record destinationCrypto =
  cr_encrypt :: "string \<Rightarrow> string"
  cr_decrypt :: "string \<Rightarrow> string"
  cr_hash :: "string \<Rightarrow> string"

section \<open>Operations\<close>

record destinationDto =
  dd_value :: string
  dd_type :: PaymentDestinationType
  dd_bankName :: "string option"
  dd_ownerName :: "string option"
  dd_title :: "string option"
  dd_isDefault :: "bool option"

record destinationView =
  dv_id :: id
  dv_type :: PaymentDestinationType
  dv_maskedValue :: string
  dv_bankName :: "string option"
  dv_ownerNameMasked :: "string option"
  dv_title :: "string option"
  dv_isDefault :: bool
  dv_status :: PaymentDestinationStatus
  dv_lastUsedAt :: "time option"

definition toView :: "paymentDestination \<Rightarrow> destinationView" where
  "toView d = \<lparr>dv_id = pd_id d, dv_type = pd_type d, dv_maskedValue = pd_maskedValue d,
     dv_bankName = pd_bankName d, dv_ownerNameMasked = maskOwnerName (pd_ownerName d), dv_title = pd_title d,
     dv_isDefault = pd_isDefault d, dv_status = pd_status d, dv_lastUsedAt = pd_lastUsedAt d\<rparr>"

definition buildDestination ::
  "destinationCrypto \<Rightarrow> id option \<Rightarrow> PaymentDestinationDirection \<Rightarrow> destinationDto \<Rightarrow> db \<Rightarrow> paymentDestination" where
  "buildDestination cr ownerUserId direction dto s =
     (let normalized = normalizeDestinationValue (dd_value dto)
      in \<lparr>pd_id = freshId s, pd_createdAt = db_now s, pd_deletedAt = None, pd_ownerUserId = ownerUserId,
          pd_direction = direction, pd_type = dd_type dto, pd_encryptedValue = cr_encrypt cr normalized,
          pd_encryptedValueHash = cr_hash cr normalized, pd_maskedValue = maskDestinationValue normalized,
          pd_bankName = dd_bankName dto, pd_ownerName = dd_ownerName dto, pd_title = dd_title dto,
          pd_isDefault = withDefault (dd_isDefault dto) False, pd_status = PaymentDestinationStatus.ACTIVE,
          pd_lastUsedAt = None\<rparr>)"

definition clearDefaults :: "id option \<Rightarrow> PaymentDestinationDirection \<Rightarrow> db \<Rightarrow> db" where
  "clearDefaults owner direction s =
     s\<lparr>paymentDestinations := updateRows
         (\<lambda>d. pd_ownerUserId d = owner \<and> pd_direction d = direction \<and> pd_deletedAt d = None)
         (\<lambda>d. d\<lparr>pd_isDefault := False\<rparr>) (paymentDestinations s)\<rparr>"

definition createUserPayoutDestination ::
  "destinationCrypto \<Rightarrow> id \<Rightarrow> destinationDto \<Rightarrow> db \<Rightarrow> destinationView tx" where
  "createUserPayoutDestination cr userId dto s =
     (let d = buildDestination cr (Some userId) PaymentDestinationDirection.PAYOUT dto s
      in if length (normalizeDestinationValue (dd_value dto)) < 4
           then Inl (BadRequestException ''P2P_DESTINATION_INVALID'')
         else if (\<exists>x\<in>set (paymentDestinations s). pd_ownerUserId x = Some userId \<and>
                   pd_direction x = PaymentDestinationDirection.PAYOUT \<and> pd_type x = dd_type dto \<and>
                   pd_encryptedValueHash x = pd_encryptedValueHash d \<and> pd_deletedAt x = None)
           then Inl (ConflictException ''P2P_DESTINATION_EXISTS'')
         else let s1 = (if dd_isDefault dto = Some True
                          then clearDefaults (Some userId) PaymentDestinationDirection.PAYOUT s else s)
         in Inr (toView d, (bumpId s1)\<lparr>paymentDestinations := paymentDestinations s1 @ [d]\<rparr>))"

definition findDestination :: "id \<Rightarrow> db \<Rightarrow> paymentDestination option" where
  "findDestination i s = findFirst (\<lambda>d. pd_id d = i) (paymentDestinations s)"

definition updateDestination :: "id \<Rightarrow> (paymentDestination \<Rightarrow> paymentDestination) \<Rightarrow> db \<Rightarrow> db" where
  "updateDestination i f s = s\<lparr>paymentDestinations := updateRows (\<lambda>d. pd_id d = i) f (paymentDestinations s)\<rparr>"

definition updateUserPayoutDestination ::
  "id \<Rightarrow> id \<Rightarrow> string option \<Rightarrow> bool option \<Rightarrow> PaymentDestinationStatus option \<Rightarrow> db \<Rightarrow> destinationView tx" where
  "updateUserPayoutDestination userId i title isDefault status s =
     (case findDestination i s of
        None \<Rightarrow> Inl (NotFoundException ''Destination not found'')
      | Some destination \<Rightarrow>
          (if pd_deletedAt destination \<noteq> None then Inl (NotFoundException ''Destination not found'')
           else if pd_ownerUserId destination \<noteq> Some userId then Inl (ForbiddenException ''Forbidden'')
           else let f = (\<lambda>d. d\<lparr>pd_title := orElse title (pd_title destination),
                              pd_isDefault := withDefault isDefault (pd_isDefault destination),
                              pd_status := withDefault status (pd_status destination)\<rparr>);
                    s1 = (if isDefault = Some True
                            then clearDefaults (Some userId) (pd_direction destination) s else s)
           in Inr (toView (f destination), updateDestination i f s1)))"

definition makeDefault :: "id \<Rightarrow> id \<Rightarrow> db \<Rightarrow> destinationView tx" where
  "makeDefault userId i s =
     (case findDestination i s of
        None \<Rightarrow> Inl (NotFoundException ''Destination not found'')
      | Some destination \<Rightarrow>
          (if pd_deletedAt destination \<noteq> None then Inl (NotFoundException ''Destination not found'')
           else if pd_ownerUserId destination \<noteq> Some userId then Inl (ForbiddenException ''Forbidden'')
           else Inr (toView (destination\<lparr>pd_isDefault := True\<rparr>),
                     updateDestination i (\<lambda>d. d\<lparr>pd_isDefault := True\<rparr>)
                       (clearDefaults (Some userId) (pd_direction destination) s))))"

definition createSystemCollectionDestination ::
  "destinationCrypto \<Rightarrow> destinationDto \<Rightarrow> db \<Rightarrow> destinationView tx" where
  "createSystemCollectionDestination cr dto s =
     (let d = buildDestination cr None PaymentDestinationDirection.COLLECTION dto s
      in if length (normalizeDestinationValue (dd_value dto)) < 4
           then Inl (BadRequestException ''P2P_DESTINATION_INVALID'')
         else Inr (toView d, (bumpId s)\<lparr>paymentDestinations := paymentDestinations s @ [d]\<rparr>))"

definition snapshotOf :: "destinationCrypto \<Rightarrow> paymentDestination \<Rightarrow> destinationSnapshot" where
  "snapshotOf cr d =
     \<lparr>ds_type = pd_type d, ds_value = Some (cr_decrypt cr (pd_encryptedValue d)),
      ds_maskedValue = Some (pd_maskedValue d), ds_bankName = pd_bankName d, ds_ownerName = pd_ownerName d,
      ds_title = pd_title d\<rparr>"

definition resolvePayoutDestinationForUser ::
  "destinationCrypto \<Rightarrow> id \<Rightarrow> id \<Rightarrow> db \<Rightarrow> err + destinationSnapshot" where
  "resolvePayoutDestinationForUser cr userId destinationId s =
     (case findDestination destinationId s of
        None \<Rightarrow> Inl (NotFoundException ''Destination not found'')
      | Some d \<Rightarrow>
          (if pd_deletedAt d \<noteq> None then Inl (NotFoundException ''Destination not found'')
           else if pd_ownerUserId d \<noteq> Some userId then Inl (ForbiddenException ''Forbidden'')
           else if pd_status d \<noteq> PaymentDestinationStatus.ACTIVE
             then Inl (BadRequestException ''P2P_DESTINATION_INACTIVE'')
           else Inr (snapshotOf cr d)))"

definition resolveCollectionDestination :: "destinationCrypto \<Rightarrow> id \<Rightarrow> db \<Rightarrow> err + destinationSnapshot" where
  "resolveCollectionDestination cr destinationId s =
     (case findDestination destinationId s of
        None \<Rightarrow> Inl (NotFoundException ''Destination not found'')
      | Some d \<Rightarrow>
          (if pd_deletedAt d \<noteq> None then Inl (NotFoundException ''Destination not found'')
           else if pd_ownerUserId d \<noteq> None \<or> pd_direction d \<noteq> PaymentDestinationDirection.COLLECTION
             then Inl (BadRequestException ''P2P_DESTINATION_INVALID'')
           else if pd_status d \<noteq> PaymentDestinationStatus.ACTIVE
             then Inl (BadRequestException ''P2P_DESTINATION_INACTIVE'')
           else Inr (snapshotOf cr d)))"

definition buildLegacySnapshot :: "string option \<Rightarrow> string option \<Rightarrow> string option \<Rightarrow> destinationSnapshot option" where
  "buildLegacySnapshot iban cardNumber bankName =
     (let raw = (if truthy iban then iban else cardNumber)
      in if \<not> truthy raw then None
         else let normalized = normalizeDestinationValue (the raw)
         in Some \<lparr>ds_type = (if truthy iban then PaymentDestinationType.IBAN else PaymentDestinationType.CARD),
                  ds_value = Some normalized, ds_maskedValue = Some (maskDestinationValue normalized),
                  ds_bankName = bankName, ds_ownerName = None, ds_title = None\<rparr>)"

text \<open>\<open>orderBy: [{ isDefault: 'desc' }, { createdAt: 'desc' }]\<close>.\<close>

definition compareDestinations :: "paymentDestination \<Rightarrow> paymentDestination \<Rightarrow> int" where
  "compareDestinations a b =
     (if pd_isDefault a \<noteq> pd_isDefault b then (if pd_isDefault a then - 1 else 1)
      else pd_createdAt b - pd_createdAt a)"

definition listUserPayoutDestinations :: "id \<Rightarrow> db \<Rightarrow> destinationView list" where
  "listUserPayoutDestinations userId s =
     map toView (sortBy compareDestinations
       (findMany (\<lambda>d. pd_ownerUserId d = Some userId \<and> pd_direction d = PaymentDestinationDirection.PAYOUT \<and>
          pd_status d = PaymentDestinationStatus.ACTIVE \<and> pd_deletedAt d = None) (paymentDestinations s)))"

record collectionRow =
  cl_id :: id
  cl_title :: "string option"
  cl_bankName :: "string option"
  cl_ownerName :: "string option"
  cl_maskedValue :: string
  cl_fullValue :: string
  cl_isActive :: bool

definition listSystemCollectionDestinations :: "destinationCrypto \<Rightarrow> bool \<Rightarrow> db \<Rightarrow> collectionRow list" where
  "listSystemCollectionDestinations cr includeInactive s =
     map (\<lambda>d. \<lparr>cl_id = pd_id d, cl_title = pd_title d, cl_bankName = pd_bankName d, cl_ownerName = pd_ownerName d,
               cl_maskedValue = pd_maskedValue d, cl_fullValue = cr_decrypt cr (pd_encryptedValue d),
               cl_isActive = (pd_status d = PaymentDestinationStatus.ACTIVE)\<rparr>)
       (sortBy compareDestinations
         (findMany (\<lambda>d. pd_ownerUserId d = None \<and> pd_direction d = PaymentDestinationDirection.COLLECTION \<and>
            pd_deletedAt d = None \<and> (includeInactive \<or> pd_status d = PaymentDestinationStatus.ACTIVE))
           (paymentDestinations s)))"

section \<open>Lemmas\<close>

interpretation destinationOrder: comparator compareDestinations "\<lambda>d. (\<not> pd_isDefault d, - pd_createdAt d)"
  by unfold_locales (auto simp: compareDestinations_def less_eq_prod_def less_bool_def)

text \<open>At most one live default per user and direction.\<close>

definition oneDefault :: "db \<Rightarrow> bool" where
  "oneDefault s \<longleftrightarrow> (\<forall>u dir. length (filter (\<lambda>d. pd_ownerUserId d = Some u \<and> pd_direction d = dir \<and>
      pd_deletedAt d = None \<and> pd_isDefault d) (paymentDestinations s)) \<le> 1)"

definition liveDefaults :: "id \<Rightarrow> PaymentDestinationDirection \<Rightarrow> paymentDestination list \<Rightarrow> paymentDestination list" where
  "liveDefaults u dir ds = filter (\<lambda>d. pd_ownerUserId d = Some u \<and> pd_direction d = dir \<and>
      pd_deletedAt d = None \<and> pd_isDefault d) ds"

lemma oneDefault_alt: "oneDefault s \<longleftrightarrow> (\<forall>u dir. length (liveDefaults u dir (paymentDestinations s)) \<le> 1)"
  by (simp add: oneDefault_def liveDefaults_def)

lemma liveDefaults_simps [simp]:
  "liveDefaults u dir [] = []"
  "liveDefaults u dir (d # ds) = (if pd_ownerUserId d = Some u \<and> pd_direction d = dir \<and> pd_deletedAt d = None \<and>
     pd_isDefault d then d # liveDefaults u dir ds else liveDefaults u dir ds)"
  "liveDefaults u dir (ds @ es) = liveDefaults u dir ds @ liveDefaults u dir es"
  by (simp_all add: liveDefaults_def)

lemma liveDefaults_cleared:
  "liveDefaults u dir (paymentDestinations (clearDefaults (Some v) dir' s)) =
     (if u = v \<and> dir = dir' then [] else liveDefaults u dir (paymentDestinations s))"
proof -
  have "liveDefaults u dir (updateRows (\<lambda>d. pd_ownerUserId d = Some v \<and> pd_direction d = dir' \<and> pd_deletedAt d = None)
      (\<lambda>d. d\<lparr>pd_isDefault := False\<rparr>) ds) = (if u = v \<and> dir = dir' then [] else liveDefaults u dir ds)" for ds
    by (induction ds) auto
  then show ?thesis by (simp add: clearDefaults_def)
qed

lemma liveDefaults_update:
  assumes "distinct (map pd_id ds)"
    and "\<And>d. pd_id (f d) = pd_id d \<and> pd_ownerUserId (f d) = pd_ownerUserId d \<and> pd_direction (f d) = pd_direction d \<and>
       pd_deletedAt (f d) = pd_deletedAt d"
  shows "length (liveDefaults u dir (updateRows (\<lambda>d. pd_id d = i) f ds)) \<le> Suc (length (liveDefaults u dir ds))"
    and "(\<And>d. d \<in> set ds \<Longrightarrow> pd_id d = i \<Longrightarrow> pd_isDefault (f d) \<Longrightarrow> pd_isDefault d) \<Longrightarrow>
       length (liveDefaults u dir (updateRows (\<lambda>d. pd_id d = i) f ds)) \<le> length (liveDefaults u dir ds)"
    and "(\<And>d. d \<in> set ds \<Longrightarrow> pd_id d = i \<Longrightarrow> pd_ownerUserId d \<noteq> Some u \<or> pd_direction d \<noteq> dir) \<Longrightarrow>
       length (liveDefaults u dir (updateRows (\<lambda>d. pd_id d = i) f ds)) = length (liveDefaults u dir ds)"
proof -
  have skip: "liveDefaults v dir' (updateRows (\<lambda>d. pd_id d = pd_id x) f es) = liveDefaults v dir' es"
    if "pd_id x \<notin> pd_id ` set es" for x es v dir'
    by (subst updateRows_none) (use that in force)+
  show "length (liveDefaults u dir (updateRows (\<lambda>d. pd_id d = i) f ds)) \<le> Suc (length (liveDefaults u dir ds))"
    using assms by (induction ds) (auto simp: skip)
  show "length (liveDefaults u dir (updateRows (\<lambda>d. pd_id d = i) f ds)) \<le> length (liveDefaults u dir ds)"
    if "\<And>d. d \<in> set ds \<Longrightarrow> pd_id d = i \<Longrightarrow> pd_isDefault (f d) \<Longrightarrow> pd_isDefault d"
    using assms that by (induction ds) (auto simp: le_SucI skip)
  show "length (liveDefaults u dir (updateRows (\<lambda>d. pd_id d = i) f ds)) = length (liveDefaults u dir ds)"
    if "\<And>d. d \<in> set ds \<Longrightarrow> pd_id d = i \<Longrightarrow> pd_ownerUserId d \<noteq> Some u \<or> pd_direction d \<noteq> dir"
    using assms that by (induction ds) auto
qed

text \<open>Rows keep their identity when the defaults are cleared, so the row of an id is the one found.\<close>

lemma row_after_clear:
  assumes "distinct (map pd_id (paymentDestinations s))" "findDestination i s = Some x"
    and "d \<in> set (paymentDestinations (clearDefaults v dir s))" "pd_id d = i"
  shows "pd_ownerUserId d = pd_ownerUserId x \<and> pd_direction d = pd_direction x"
proof -
  from assms(3) obtain e where e: "e \<in> set (paymentDestinations s)" "pd_id e = pd_id d"
    "pd_ownerUserId e = pd_ownerUserId d" "pd_direction e = pd_direction d"
    by (fastforce simp: clearDefaults_def set_updateRows split: if_splits)
  have x: "x \<in> set (paymentDestinations s)" "pd_id x = i"
    using find_SomeD [OF assms(2) [unfolded findDestination_def]] by auto
  have "inj_on pd_id (set (paymentDestinations s))" using assms(1) by (simp add: distinct_map)
  from inj_onD [OF this _ e(1) x(1)] e(2) x(2) assms(4) have "e = x" by simp
  with e show ?thesis by simp
qed

lemma clear_then_switch:
  assumes one: "oneDefault s" and d: "distinct (map pd_id (paymentDestinations s))"
    and x: "findDestination i s = Some x" "pd_ownerUserId x = Some u"
    and f: "\<And>d. pd_id (f d) = pd_id d \<and> pd_ownerUserId (f d) = pd_ownerUserId d \<and>
       pd_direction (f d) = pd_direction d \<and> pd_deletedAt (f d) = pd_deletedAt d"
  shows "oneDefault (updateDestination i f (clearDefaults (Some u) (pd_direction x) s))"
  unfolding oneDefault_alt
proof (intro allI)
  fix v dir
  let ?c = "clearDefaults (Some u) (pd_direction x) s"
  have dc: "distinct (map pd_id (paymentDestinations ?c))"
    using d by (simp add: clearDefaults_def map_updateRows)
  show "length (liveDefaults v dir (paymentDestinations (updateDestination i f ?c))) \<le> 1"
  proof (cases "v = u \<and> dir = pd_direction x")
    case True
    then show ?thesis
      using liveDefaults_update(1) [OF dc f, of v dir i] by (simp add: updateDestination_def liveDefaults_cleared)
  next
    case False
    have "length (liveDefaults v dir (paymentDestinations (updateDestination i f ?c))) =
        length (liveDefaults v dir (paymentDestinations ?c))"
      unfolding updateDestination_def using row_after_clear [OF d x(1), of _ "Some u" "pd_direction x"] x(2) False
      by (simp, intro liveDefaults_update(3) [OF dc f]) auto
    with False one show ?thesis by (auto simp: liveDefaults_cleared oneDefault_alt)
  qed
qed

section \<open>Properties\<close>

text \<open>
  A user never has two default destinations in one direction: creating, updating and choosing the
  default each keep at most one live default per user and direction.
\<close>

theorem one_default_destination:
  assumes one: "oneDefault s" and d: "distinct (map pd_id (paymentDestinations s))"
  shows "holdsE (\<lambda>_. oneDefault) (createUserPayoutDestination cr u dto s) \<and>
    holdsE (\<lambda>_. oneDefault) (updateUserPayoutDestination u i title def st s) \<and>
    holdsE (\<lambda>_. oneDefault) (makeDefault u i s) \<and>
    holdsE (\<lambda>_. oneDefault) (createSystemCollectionDestination cr dto s)"
proof (intro conjI)
  show "holdsE (\<lambda>_. oneDefault) (createUserPayoutDestination cr u dto s)"
    using one
    by (auto simp: createUserPayoutDestination_def Let_def oneDefault_alt liveDefaults_cleared buildDestination_def
        withDefault_def split: option.splits)
  show "holdsE (\<lambda>_. oneDefault) (createSystemCollectionDestination cr dto s)"
    using one by (auto simp: createSystemCollectionDestination_def Let_def oneDefault_alt buildDestination_def)
  show "holdsE (\<lambda>_. oneDefault) (makeDefault u i s)"
    by (auto simp: makeDefault_def split: option.split intro!: clear_then_switch [OF one d])
  have same: "e = x" if "findDestination i s = Some x" "e \<in> set (paymentDestinations s)" "pd_id e = i" for x e
    using find_SomeD [OF that(1) [unfolded findDestination_def]] that(2,3) d by (auto simp: distinct_map dest: inj_onD)
  have plain: "oneDefault (updateDestination i (\<lambda>d. d\<lparr>pd_title := t, pd_isDefault := withDefault def (pd_isDefault x),
      pd_status := st'\<rparr>) s)" if "findDestination i s = Some x" "def \<noteq> Some True" for x t st'
    using one same [OF that(1)] that(2) unfolding oneDefault_alt updateDestination_def
    by (auto intro!: order_trans [OF liveDefaults_update(2) [OF d]] simp: withDefault_def split: option.splits)
  show "holdsE (\<lambda>_. oneDefault) (updateUserPayoutDestination u i title def st s)"
    by (auto simp: updateUserPayoutDestination_def Let_def split: option.split
        intro!: clear_then_switch [OF one d] plain)
qed

lemma one_default_destination_witness:
  "holdsE (\<lambda>_. oneDefault) (createUserPayoutDestination \<lparr>cr_encrypt = \<lambda>x. x, cr_decrypt = \<lambda>x. x, cr_hash = \<lambda>x. x\<rparr> ''ali''
     \<lparr>dd_value = ''1234'', dd_type = PaymentDestinationType.CARD, dd_bankName = None, dd_ownerName = None,
      dd_title = None, dd_isDefault = Some True\<rparr> emptyDb)"
  by (rule one_default_destination [THEN conjunct1]) (simp_all add: oneDefault_def emptyDb_def)

text \<open>
  What a user registers is what a withdrawal pays to: after \<open>createUserPayoutDestination\<close> the
  destination resolves, for its owner, to a snapshot with the normalised number, masked to its last
  four characters in the view, and registering the same number again is refused. Anyone else is
  refused. (Decryption undoes encryption.)
\<close>

theorem destination_roundtrip:
  assumes "createUserPayoutDestination cr u dto s = Inr (v, t)"
    and "keys_ok s (map pd_id (paymentDestinations s))"
    and "\<forall>x. cr_decrypt cr (cr_encrypt cr x) = x"
  shows "(\<exists>snap. resolvePayoutDestinationForUser cr u (dv_id v) t = Inr snap \<and>
      ds_value snap = Some (normalizeDestinationValue (dd_value dto)) \<and>
      ds_maskedValue snap = Some (dv_maskedValue v) \<and>
      dv_maskedValue v = maskDestinationValue (normalizeDestinationValue (dd_value dto))) \<and>
    (\<forall>w. w \<noteq> u \<longrightarrow> resolvePayoutDestinationForUser cr w (dv_id v) t = Inl (ForbiddenException ''Forbidden'')) \<and>
    createUserPayoutDestination cr u dto t = Inl (ConflictException ''P2P_DESTINATION_EXISTS'')"
proof -
  let ?d = "buildDestination cr (Some u) PaymentDestinationDirection.PAYOUT dto s"
  let ?s1 = "if dd_isDefault dto = Some True then clearDefaults (Some u) PaymentDestinationDirection.PAYOUT s else s"
  from assms(1) have v: "v = toView ?d" and len: "\<not> length (normalizeDestinationValue (dd_value dto)) < 4"
    and t: "t = (bumpId ?s1)\<lparr>paymentDestinations := paymentDestinations ?s1 @ [?d]\<rparr>"
    by (auto simp: createUserPayoutDestination_def Let_def split: if_splits)
  have "pd_id x \<noteq> freshId s" if "x \<in> set (paymentDestinations ?s1)" for x
  proof -
    from that obtain y where "y \<in> set (paymentDestinations s)" "pd_id y = pd_id x"
      by (auto simp: clearDefaults_def set_updateRows split: if_splits)
    with freshId_notin [OF assms(2)] show ?thesis by (metis imageI set_map)
  qed
  then have find: "findDestination (freshId s) t = Some ?d"
    unfolding findDestination_def t by (auto intro!: find_snoc_new simp: buildDestination_def Let_def)
  have id: "dv_id v = freshId s" by (simp add: v toView_def buildDestination_def Let_def)
  have 1: "\<exists>snap. resolvePayoutDestinationForUser cr u (dv_id v) t = Inr snap \<and>
      ds_value snap = Some (normalizeDestinationValue (dd_value dto)) \<and>
      ds_maskedValue snap = Some (dv_maskedValue v) \<and>
      dv_maskedValue v = maskDestinationValue (normalizeDestinationValue (dd_value dto))"
    unfolding resolvePayoutDestinationForUser_def id find
    using assms(3) by (simp add: buildDestination_def Let_def snapshotOf_def v toView_def)
  have 2: "resolvePayoutDestinationForUser cr w (dv_id v) t = Inl (ForbiddenException ''Forbidden'')" if "w \<noteq> u" for w
    unfolding resolvePayoutDestinationForUser_def id find using that by (simp add: buildDestination_def Let_def)
  have 3: "createUserPayoutDestination cr u dto t = Inl (ConflictException ''P2P_DESTINATION_EXISTS'')"
    using len by (simp add: createUserPayoutDestination_def Let_def t buildDestination_def)
  from 1 2 3 show ?thesis by blast
qed

lemma destination_roundtrip_witness:
  "let cr = \<lparr>cr_encrypt = \<lambda>x. CHR ''e'' # x, cr_decrypt = tl, cr_hash = \<lambda>x. x\<rparr>;
       dto = \<lparr>dd_value = ''6037-9911-2233-4455'', dd_type = PaymentDestinationType.CARD, dd_bankName = None,
              dd_ownerName = None, dd_title = None, dd_isDefault = None\<rparr>
   in \<exists>v t snap. createUserPayoutDestination cr ''ali'' dto emptyDb = Inr (v, t) \<and>
        resolvePayoutDestinationForUser cr ''ali'' (dv_id v) t = Inr snap \<and>
        ds_value snap = Some ''6037991122334455''"
proof -
  let ?cr = "\<lparr>cr_encrypt = \<lambda>x. CHR ''e'' # x, cr_decrypt = tl, cr_hash = \<lambda>x. x\<rparr>"
  let ?dto = "\<lparr>dd_value = ''6037-9911-2233-4455'', dd_type = PaymentDestinationType.CARD, dd_bankName = None,
              dd_ownerName = None, dd_title = None, dd_isDefault = None\<rparr>"
  have n: "normalizeDestinationValue (dd_value ?dto) = ''6037991122334455''" by code_simp
  then obtain v t where c: "createUserPayoutDestination ?cr ''ali'' ?dto emptyDb = Inr (v, t)"
    by (simp add: createUserPayoutDestination_def Let_def emptyDb_def)
  have k: "keys_ok emptyDb (map pd_id (paymentDestinations emptyDb))"
    by (simp add: keys_ok_def emptyDb_def inj_unaryId)
  from destination_roundtrip [OF c k] n have
    "\<exists>snap. resolvePayoutDestinationForUser ?cr ''ali'' (dv_id v) t = Inr snap \<and> ds_value snap = Some ''6037991122334455''"
    by auto
  with c show ?thesis unfolding Let_def by blast
qed

end
