(* ===== verification/Books.thy ===== *)
theory Books
  imports Destinations
begin

text \<open>
  The books of a request: the services post to the ledger under a reference (the type and the id of
  the request). \<open>books_ok\<close> says that what stands posted under each request of a table is what its
  status says is due. The interface \<open>request_books\<close> carries it through the steps the services are
  made of; the request tables interpret it.
\<close>

definition booked :: "TxRefType \<Rightarrow> id \<Rightarrow> db \<Rightarrow> decimal" where
  "booked rt i s = total (\<lambda>x. if tx_refType x = rt \<and> tx_refId x = Some i then tx_delta x else 0) (accountTxs s)"

definition books_ok :: "(db \<Rightarrow> 'r list) \<Rightarrow> ('r \<Rightarrow> id) \<Rightarrow> TxRefType \<Rightarrow> ('r \<Rightarrow> decimal) \<Rightarrow> db \<Rightarrow> bool" where
  "books_ok rows key rt due s \<longleftrightarrow>
     keys_ok s (map key (rows s)) \<and> keys_ok s (map tx_id (accountTxs s)) \<and>
     (\<forall>x\<in>set (accountTxs s). tx_refType x = rt \<longrightarrow> tx_refId x \<in> Some ` key ` set (rows s)) \<and>
     (\<forall>r\<in>set (rows s). booked rt (key r) s = due r)"

section \<open>Steps as the books see them\<close>

text \<open>A quiet step posts nothing; a posting step posts one entry under one reference.\<close>

definition quiet :: "db \<Rightarrow> db \<Rightarrow> bool" where
  "quiet s t \<longleftrightarrow> db_gen t = db_gen s \<and> db_seq s \<le> db_seq t \<and> accountTxs t = accountTxs s"

definition posting :: "TxRefType \<Rightarrow> id \<Rightarrow> decimal \<Rightarrow> db \<Rightarrow> db \<Rightarrow> bool" where
  "posting rt i d s t \<longleftrightarrow> db_gen t = db_gen s \<and> db_seq t = Suc (db_seq s) \<and>
     (\<exists>x. accountTxs t = accountTxs s @ [x] \<and> tx_id x = freshId s \<and> tx_delta x = d \<and>
          tx_refType x = rt \<and> tx_refId x = Some i)"

lemma quiet_trans: "quiet s t \<Longrightarrow> quiet t u \<Longrightarrow> quiet s u"
  by (auto simp: quiet_def)

lemma quiet_refl [simp]: "quiet s s"
  by (simp add: quiet_def)

lemma quiet_getOrCreate: "getOrCreateAccount u c s = Inr (a, t) \<Longrightarrow> quiet s t"
  using getOrCreateAccount_effect(4,6) [of u c s a t]
  by (simp add: quiet_def walletFrame_sel walletFrame_seq)

lemma quiet_reserve: "reserveFunds u c amt rt ri s = Inr (q, t) \<Longrightarrow> quiet s t"
  using reserveFunds_effect(3,9) [of u c amt rt ri s "fst q" "snd q" t]
  by (simp add: quiet_def walletFrame_sel walletFrame_seq)

lemma quiet_consume: "ledger_ok s \<Longrightarrow> consumeFunds u c rt ri s = Inr (q, t) \<Longrightarrow> quiet s t"
  using closing_effect [of s u c rt ri q t] by (auto simp: quiet_def walletFrame_sel(1) dest: walletFrame_seq)

lemma quiet_release: "ledger_ok s \<Longrightarrow> releaseFunds u c rt ri s = Inr (q, t) \<Longrightarrow> quiet s t"
  using closing_effect [of s u c rt ri q t] by (auto simp: quiet_def walletFrame_sel(1) dest: walletFrame_seq)

lemma posting_apply:
  "applyTransaction k d ty rt (Some i) cb rv s = Inr (q, t) \<Longrightarrow> posting rt i d s t"
  using applyTransaction_effect(3,4,6,8,9,10,11) [of k d ty rt "Some i" cb rv s "fst q" "snd q" t]
  by (auto simp: posting_def walletFrame_sel)

lemma quiet_keys: "quiet s t \<Longrightarrow> keys_ok s ks \<Longrightarrow> keys_ok t ks"
  by (force simp: quiet_def keys_ok_def)

lemma posting_keys: "posting rt i d s t \<Longrightarrow> keys_ok s ks \<Longrightarrow> keys_ok t ks"
  by (force simp: posting_def keys_ok_def)

lemma posting_txs:
  assumes "posting rt i d s t" and "keys_ok s (map tx_id (accountTxs s))"
  shows "keys_ok t (map tx_id (accountTxs t))"
proof -
  obtain x where x: "accountTxs t = accountTxs s @ [x]" "tx_id x = freshId s"
    "db_gen t = db_gen s" "db_seq t = Suc (db_seq s)"
    using assms(1) unfolding posting_def by blast
  with keys_ok_snoc [OF assms(2)] show ?thesis by (simp add: keys_ok_def bumpId_def)
qed

lemma quiet_booked: "quiet s t \<Longrightarrow> booked rt j t = booked rt j s"
  by (simp add: quiet_def booked_def)

lemma posting_booked:
  "posting rt i d s t \<Longrightarrow> booked rt' j t = booked rt' j s + (if rt' = rt \<and> j = i then d else 0)"
  by (auto simp: posting_def booked_def)

section \<open>Steps that leave the ledger alone\<close>

definition sameLedger :: "db \<Rightarrow> db \<Rightarrow> bool" where
  "sameLedger s t \<longleftrightarrow> db_gen t = db_gen s \<and> db_seq s \<le> db_seq t \<and> users t = users s \<and>
     instruments t = instruments s \<and> accounts t = accounts s \<and>
     accountReservations t = accountReservations s \<and> accountTxs t = accountTxs s"

lemma sameLedger_refl [simp]: "sameLedger s s"
  by (simp add: sameLedger_def)

lemma sameLedger_trans: "sameLedger s t \<Longrightarrow> sameLedger t u \<Longrightarrow> sameLedger s u"
  by (auto simp: sameLedger_def)

lemma sameLedger_quiet: "sameLedger s t \<Longrightarrow> quiet s t"
  by (simp add: quiet_def sameLedger_def)

lemma sameLedger_sums:
  assumes "sameLedger s t"
  shows "posted j t = posted j s" "held j t = held j s" "walletId u c t = walletId u c s"
    "findReservation rt ri j t = findReservation rt ri j s" "findAccount j t = findAccount j s"
    "openAmount rt ri j t = openAmount rt ri j s" "walletOf u c a t = walletOf u c a s"
proof -
  have eqs: "users t = users s" "instruments t = instruments s" "accounts t = accounts s"
    "accountReservations t = accountReservations s" "accountTxs t = accountTxs s"
    using assms by (simp_all add: sameLedger_def)
  show "posted j t = posted j s" "held j t = held j s" "walletId u c t = walletId u c s"
    "findReservation rt ri j t = findReservation rt ri j s" "findAccount j t = findAccount j s"
    "openAmount rt ri j t = openAmount rt ri j s" "walletOf u c a t = walletOf u c a s"
    unfolding posted_def held_def walletId_def walletOf_def findInstrument_def findAccountOf_def
      findReservation_def findAccount_def openAmount_def eqs by (rule refl)+
qed

lemma sameLedger_ok:
  assumes "sameLedger s t" and "ledger_ok s"
  shows "ledger_ok t"
proof -
  have eqs: "accounts t = accounts s" "accountReservations t = accountReservations s" "accountTxs t = accountTxs s"
    using assms(1) by (simp_all add: sameLedger_def)
  show ?thesis
    using assms(2) quiet_keys [OF sameLedger_quiet [OF assms(1)]]
    by (auto simp: ledger_ok_def account_ok_def eqs sameLedger_sums [OF assms(1)])
qed

section \<open>Side effects: outbox, attachments and limits\<close>

text \<open>A side step writes outbox items, attachments or limit counters, and uses up identifiers.\<close>

definition core :: "db \<Rightarrow> db" where
  "core s = s\<lparr>db_seq := 0, limitUsages := [], limitReservations := [], attachments := [], tahesabOutboxes := []\<rparr>"

definition side :: "db \<Rightarrow> db \<Rightarrow> bool" where
  "side s t \<longleftrightarrow> core t = core s \<and> db_seq s \<le> db_seq t"

lemma side_refl [simp]: "side s s"
  by (simp add: side_def)

lemma side_trans: "side s t \<Longrightarrow> side t u \<Longrightarrow> side s u"
  by (auto simp: side_def)

lemma side_sel:
  assumes "side s t"
  shows "db_gen t = db_gen s" "db_now t = db_now s" "users t = users s" "userKycs t = userKycs s"
    "instruments t = instruments s" "accounts t = accounts s" "accountReservations t = accountReservations s"
    "accountTxs t = accountTxs s" "depositRequests t = depositRequests s"
    "withdrawRequests t = withdrawRequests s" "trades t = trades s" "quoteLockAudits t = quoteLockAudits s"
    "p2pAllocations t = p2pAllocations s" "goldLots t = goldLots s"
    "physicalCustodyMovements t = physicalCustodyMovements s" "remittanceGroups t = remittanceGroups s"
    "remittances t = remittances s" "settlementLinks t = settlementLinks s"
    "p2pAssignmentIdempotencies t = p2pAssignmentIdempotencies s" "db_seq s \<le> db_seq t"
  using assms by (cases s; cases t; simp add: side_def core_def)+

lemma side_ledger: "side s t \<Longrightarrow> sameLedger s t"
  by (simp add: sameLedger_def side_sel)

lemma side_enqueue: "holdsE (\<lambda>_. side s) (enqueue m p c s)"
  by (simp add: enqueue_def side_def core_def bumpId_def)

lemma side_enqueueOnce: "holdsE (\<lambda>_. side s) (enqueueOnce m p c s)"
  by (auto simp: enqueueOnce_def split: option.split intro: side_enqueue)

lemma side_enqueueDeletion: "holdsE (\<lambda>_. side s) (enqueueDeletion m c d s)"
  by (auto simp: enqueueDeletion_def split: option.split intro: side_enqueueOnce)

lemma side_createAttachment: "side s t \<Longrightarrow> holdsE (\<lambda>_. side s) (createAttachment et ei f t)"
  by (simp add: createAttachment_def side_def core_def bumpId_def)

lemma side_createAttachments: "holdsE (\<lambda>_. side s) (createAttachmentsForActor actor ids et ei s)"
  unfolding createAttachmentsForActor_def Let_def
  by (auto split: option.split intro!: holdsE_for side_createAttachment)

lemma side_bind:
  assumes "holdsE (\<lambda>_. side s) m" and "\<And>a t. holdsE (\<lambda>_. side t) (f a t)"
  shows "holdsE (\<lambda>_. side s) (bindE m f)"
  by (rule holdsE_bind [OF assms(1)]) (rule holdsE_weaken [OF assms(2)], auto intro: side_trans)

lemma side_for:
  assumes "\<And>x t. holdsE (\<lambda>_. side t) (body x t)"
  shows "holdsE (\<lambda>_. side s) (forE xs body s)"
  by (rule holdsE_for) (simp, rule holdsE_weaken [OF assms], auto intro: side_trans)

lemma side_reserveLimit: "holdsE (\<lambda>_. side s) (reserveLimit pk p s)"
proof -
  have up: "holdsE (\<lambda>_. side s) (upsertUsage pk p s)" for s
    by (simp add: upsertUsage_def Let_def side_def core_def bumpId_def split: option.split)
  have "holdsE (\<lambda>_. side s) (reserveOn u p r s)" for u r s
    by (auto simp: reserveOn_def Let_def side_def core_def bumpId_def updateUsage_def split: option.split)
  with up show ?thesis
    by (auto simp: reserveLimit_def split: sum.split option.split intro!: side_bind)
qed

lemma side_consumeLimit: "holdsE (\<lambda>_. side s) (consumeLimit rt ri s)"
  unfolding consumeLimit_def
  by (rule side_for) (auto simp: consumeOne_def Let_def side_def core_def updateUsage_def setReservationStatus_def
      split: option.split)

lemma side_releaseLimit: "holdsE (\<lambda>_. side s) (releaseLimit rt ri s)"
  unfolding releaseLimit_def
  by (rule side_for) (auto simp: releaseOne_def Let_def side_def core_def updateUsage_def setReservationStatus_def
      split: option.split)

text \<open>Enqueueing the same item again finds it.\<close>

lemma enqueueOnce_again: "enqueueOnce m p c s = Inr (x, t) \<Longrightarrow> enqueueOnce m q c t = Inr ((), t)"
  by (cases "findFirst (\<lambda>ob. ob_method ob = m \<and> ob_correlationId ob = Some c) (tahesabOutboxes s)")
    (auto simp: enqueueOnce_def enqueue_def find_append bumpId_def)

section \<open>When the ledger operations succeed\<close>

lemma getOrCreateAccount_succeeds:
  assumes "u \<noteq> HOUSE_USER_ID" and "findInstrument c s \<noteq> None"
  shows "\<exists>a t. getOrCreateAccount u c s = Inr (a, t)"
  using assms by (auto simp: getOrCreateAccount_def createAccount_def Let_def split: option.split)

definition entrySideOf :: "decimal \<Rightarrow> AccountTxEntrySide" where
  "entrySideOf d = (if d < 0 then AccountTxEntrySide.DEBIT else AccountTxEntrySide.CREDIT)"

lemma applyTransaction_succeeds:
  assumes "findAccount k s = Some a" and "ac_blockedBalance a + ac_minBalance a \<le> ac_balance a + d"
    and "\<And>x. x \<in> set (accountTxs s) \<Longrightarrow> tx_refType x = rt \<Longrightarrow> tx_refId x = Some i \<Longrightarrow>
           tx_accountId x = k \<Longrightarrow> tx_entrySide x \<noteq> entrySideOf d"
  shows "\<exists>x t. applyTransaction k d ty rt (Some i) cb None s = Inr ((x, a\<lparr>ac_balance := ac_balance a + d\<rparr>), t) \<and>
    tx_entrySide x = entrySideOf d \<and> findAccount k t = Some (a\<lparr>ac_balance := ac_balance a + d\<rparr>)"
proof -
  have k: "ac_id a = k" using findAccount_SomeD [OF assms(1)] by simp
  let ?x = "\<lparr>tx_id = freshId s, tx_createdAt = db_now s, tx_accountId = k, tx_delta = d, tx_type = ty,
     tx_entrySide = entrySideOf d, tx_refType = rt, tx_refId = Some i, tx_createdById = cb, tx_reversalOfId = None\<rparr>"
  have "\<forall>x\<in>set (accountTxs s). \<not> (tx_refType x = rt \<and> tx_refId x = Some i \<and> tx_accountId x = k \<and>
      tx_entrySide x = entrySideOf d)"
    using assms(3) by blast
  then have "createAccountTx ?x s = Inr (?x, (bumpId s)\<lparr>accountTxs := accountTxs s @ [?x]\<rparr>)"
    by (simp add: createAccountTx_def)
  then have "applyTransaction k d ty rt (Some i) cb None s = Inr ((?x, a\<lparr>ac_balance := ac_balance a + d\<rparr>),
      updateAccount k (\<lambda>a'. a'\<lparr>ac_balance := ac_balance a + d\<rparr>) ((bumpId s)\<lparr>accountTxs := accountTxs s @ [?x]\<rparr>))"
    using assms(1,2) k by (simp add: applyTransaction_def Let_def entrySideOf_def [symmetric])
  then show ?thesis using assms(1) by (auto simp: findAccount_def find_replace)
qed

text \<open>One reference posts at most once to each side of an account.\<close>

lemma applyTransaction_unique:
  assumes "applyTransaction k d ty rt (Some i) cb rv s = Inr ((x, b), t)"
  shows "tx_entrySide x = entrySideOf d" "\<And>y. y \<in> set (accountTxs s) \<Longrightarrow>
    tx_refType y = rt \<Longrightarrow> tx_refId y = Some i \<Longrightarrow> tx_accountId y = k \<Longrightarrow> tx_entrySide y \<noteq> entrySideOf d"
proof -
  from assms obtain a where a: "findAccount k s = Some a" and rec: "createAccountTx
      \<lparr>tx_id = freshId s, tx_createdAt = db_now s, tx_accountId = ac_id a, tx_delta = d, tx_type = ty,
       tx_entrySide = entrySideOf d, tx_refType = rt, tx_refId = Some i, tx_createdById = cb,
       tx_reversalOfId = rv\<rparr> s = Inr (x, (bumpId s)\<lparr>accountTxs := accountTxs s @ [x]\<rparr>)"
    by (auto simp: applyTransaction_def Let_def bindE_Inr_iff createAccountTx_def entrySideOf_def [symmetric]
        split: option.splits if_splits)
  have k: "ac_id a = k" using findAccount_SomeD [OF a] by simp
  show "tx_entrySide x = entrySideOf d" using rec by (auto simp: createAccountTx_def split: if_splits)
  show "tx_entrySide y \<noteq> entrySideOf d" if "y \<in> set (accountTxs s)" "tx_refType y = rt" "tx_refId y = Some i"
    "tx_accountId y = k" for y
    using that rec k by (auto simp: createAccountTx_def split: if_splits)
qed

section \<open>The interface of a request table\<close>

locale request_books =
  fixes rows :: "db \<Rightarrow> 'r list" and key :: "'r \<Rightarrow> id" and rt :: TxRefType and due :: "'r \<Rightarrow> decimal"
  assumes rows_wallet: "walletFrame s t \<Longrightarrow> rows t = rows s"
    and rows_side: "side s t \<Longrightarrow> rows t = rows s"
begin

abbreviation books :: "db \<Rightarrow> bool" where
  "books \<equiv> books_ok rows key rt due"

lemma books_D:
  assumes "books s"
  shows "keys_ok s (map key (rows s))" "keys_ok s (map tx_id (accountTxs s))"
    "\<And>x. x \<in> set (accountTxs s) \<Longrightarrow> tx_refType x = rt \<Longrightarrow> tx_refId x \<in> Some ` key ` set (rows s)"
    "\<And>r. r \<in> set (rows s) \<Longrightarrow> booked rt (key r) s = due r"
  using assms by (auto simp: books_ok_def)

lemma books_quiet:
  assumes "books s" and "quiet s t" and "rows t = rows s"
  shows "books t"
  using assms quiet_keys [OF assms(2)] quiet_booked [OF assms(2)]
  by (simp add: books_ok_def) (simp add: quiet_def)

lemma books_replace:
  assumes ok: "books s" and q: "quiet s t" and r: "r \<in> set (rows s)" and r': "key r' = key r" "due r' = due r"
    and rows: "rows t = updateRows (\<lambda>x. key x = key r) (\<lambda>_. r') (rows s)"
  shows "books t"
proof -
  have keys: "map key (rows t) = map key (rows s)"
    unfolding rows using r'(1) by (simp add: updateRows_def)
  have ids: "key ` set (rows t) = key ` set (rows s)" using arg_cong [OF keys, of set] by simp
  have "booked rt (key x) t = due x" if "x \<in> set (rows t)" for x
    using that books_D(4) [OF ok] r r' quiet_booked [OF q]
    by (auto simp: rows set_updateRows split: if_splits)
  then show ?thesis
    using ok quiet_keys [OF q] q unfolding books_ok_def keys ids by (simp add: quiet_def)
qed

lemma books_posting:
  assumes ok: "books s" and p: "posting rt (key r) d s t" and q: "quiet t u" and r: "r \<in> set (rows s)"
    and r': "key r' = key r" "due r' = due r + d"
    and rows: "rows u = updateRows (\<lambda>x. key x = key r) (\<lambda>_. r') (rows s)"
  shows "books u"
proof -
  have keys: "map key (rows u) = map key (rows s)"
    unfolding rows using r'(1) by (simp add: updateRows_def)
  have ids: "key ` set (rows u) = key ` set (rows s)" using arg_cong [OF keys, of set] by simp
  have "booked rt (key x) u = due x" if "x \<in> set (rows u)" for x
    using that books_D(4) [OF ok] r r' quiet_booked [OF q] posting_booked [OF p]
    by (auto simp: rows set_updateRows split: if_splits)
  moreover have "tx_refId x \<in> Some ` key ` set (rows s)"
    if "x \<in> set (accountTxs u)" "tx_refType x = rt" for x
    using that p q r books_D(3) [OF ok, of x] by (auto simp: posting_def quiet_def)
  ultimately show ?thesis
    using books_D(1) [OF ok] quiet_keys [OF q posting_keys [OF p]] quiet_keys [OF q posting_txs [OF p books_D(2) [OF ok]]] q
    unfolding books_ok_def keys ids by (simp add: quiet_def)
qed

lemma books_posting_other:
  assumes ok: "books s" and p: "posting rt' i d s t" and rt': "rt' \<noteq> rt" and rows: "rows t = rows s"
  shows "books t"
proof -
  have "tx_refId x \<in> Some ` key ` set (rows s)" if "x \<in> set (accountTxs t)" "tx_refType x = rt" for x
    using that p rt' books_D(3) [OF ok, of x] by (auto simp: posting_def)
  then show ?thesis
    using ok posting_keys [OF p] posting_txs [OF p] posting_booked [OF p] rt'
    unfolding books_ok_def rows by auto
qed

lemma books_new:
  assumes ok: "books s" and r: "key r = freshId s" "due r = 0"
    and t: "db_gen t = db_gen s" "db_seq t = Suc (db_seq s)" "accountTxs t = accountTxs s" "rows t = rows s @ [r]"
  shows "books t"
proof -
  have fresh: "freshId s \<notin> key ` set (rows s)" using freshId_notin [OF books_D(1) [OF ok]] by simp
  have "booked rt (freshId s) s = 0"
    unfolding booked_def
  proof (rule total_zero)
    fix x assume "x \<in> set (accountTxs s)"
    then show "(if tx_refType x = rt \<and> tx_refId x = Some (freshId s) then tx_delta x else 0) = 0"
      using fresh books_D(3) [OF ok, of x] by auto
  qed
  moreover have "booked rt j t = booked rt j s" for j using t by (simp add: booked_def)
  moreover have "keys_ok t (map key (rows t))"
    using keys_ok_snoc [OF books_D(1) [OF ok]] t r by (simp add: keys_ok_def bumpId_def)
  moreover have "keys_ok t (map tx_id (accountTxs t))"
    using keys_ok_bump [OF books_D(2) [OF ok]] t by (simp add: keys_ok_def bumpId_def)
  ultimately show ?thesis
    using books_D(3,4) [OF ok] r t by (auto simp: books_ok_def)
qed

end

end
