(* ===== verification/Requests.thy ===== *)
theory Requests
  imports Books
begin

text \<open>
  Requests with a hold. A request reserves funds under its reference when it is made, posts to the
  ledger under the reference when it is approved, and gives the hold back otherwise. \<open>effect\<close> sums up
  what a stretch of a transaction that works under one reference does: the total it posts, the changes
  of \<open>posted\<close> and of \<open>held\<close> per account, and that it leaves the reservations of every other reference
  and every other table alone. The interface \<open>request_ledger\<close> carries the two halves of a request's
  soundness (what is posted and what is held is what its status says) through a run; the withdrawals, the
  custody movements, the trades and the remittances interpret it.
\<close>

section \<open>Reservations of a reference\<close>

definition reservationsUnder :: "TxRefType \<Rightarrow> id \<Rightarrow> db \<Rightarrow> accountReservation list" where
  "reservationsUnder rt i s = filter (\<lambda>v. ar_refType v = rt \<and> ar_refId v = i) (accountReservations s)"

text \<open>What is held under a reference, over all accounts.\<close>

definition heldUnder :: "TxRefType \<Rightarrow> id \<Rightarrow> db \<Rightarrow> decimal" where
  "heldUnder rt i s =
     total (\<lambda>v. if ar_status v = AccountReservationStatus.RESERVED then ar_amount v else 0) (reservationsUnder rt i s)"

text \<open>
  The hold of a request: none, or the one reservation with a status and an amount on a user's wallet.
\<close>

type_synonym hold = "(AccountReservationStatus \<times> decimal \<times> id \<times> string) option"

fun heldAs :: "TxRefType \<Rightarrow> id \<Rightarrow> hold \<Rightarrow> db \<Rightarrow> bool" where
  "heldAs rt i None s \<longleftrightarrow> reservationsUnder rt i s = []"
| "heldAs rt i (Some (x, amt, u, c)) s \<longleftrightarrow>
     (\<exists>v. reservationsUnder rt i s = [v] \<and> ar_status v = x \<and> ar_amount v = amt \<and>
          walletId u c s = Some (ar_accountId v))"

lemma heldAs_heldUnder:
  assumes "heldAs rt i x s"
  shows "heldUnder rt i s =
    (case x of Some (AccountReservationStatus.RESERVED, amt, u, c) \<Rightarrow> amt | _ \<Rightarrow> 0)"
  using assms
  by (cases "(rt, i, x, s)" rule: heldAs.cases)
    (auto simp: heldUnder_def split: AccountReservationStatus.split)

lemma findReservation_under: "findReservation rt i k s = findFirst (\<lambda>v. ar_accountId v = k) (reservationsUnder rt i s)"
proof -
  have "List.find (\<lambda>v. ar_refType v = rt \<and> ar_refId v = i \<and> ar_accountId v = k) xs =
      List.find (\<lambda>v. ar_accountId v = k) (filter (\<lambda>v. ar_refType v = rt \<and> ar_refId v = i) xs)" for xs
    by (induction xs) auto
  then show ?thesis by (simp add: findReservation_def reservationsUnder_def)
qed

lemma reservationsUnder_cong:
  "accountReservations t = accountReservations s \<Longrightarrow> reservationsUnder rt i t = reservationsUnder rt i s"
  by (simp add: reservationsUnder_def)

lemma heldAs_cong:
  assumes "reservationsUnder rt i t = reservationsUnder rt i s"
    and "\<And>u c w. walletId u c s = Some w \<Longrightarrow> walletId u c t = Some w" and "heldAs rt i x s"
  shows "heldAs rt i x t"
  using assms by (cases "(rt, i, x, s)" rule: heldAs.cases) auto

text \<open>Updating one row by its id, as the ledger does, leaves the other references alone.\<close>

lemma reservationsUnder_update:
  assumes "distinct (map ar_id (accountReservations s))" and "v \<in> set (accountReservations s)"
    and "ar_refType v = rt" "ar_refId v = i" and "\<And>r. ar_refType (f r) = ar_refType r \<and> ar_refId (f r) = ar_refId r"
    and "accountReservations t = updateRows (\<lambda>r. ar_id r = ar_id v) f (accountReservations s)"
  shows "reservationsUnder rt' i' t = (if rt' = rt \<and> i' = i then updateRows (\<lambda>r. ar_id r = ar_id v) f (reservationsUnder rt i s)
    else reservationsUnder rt' i' s)"
proof -
  have same: "filter (\<lambda>r. ar_refType r = rt' \<and> ar_refId r = i') (updateRows p f xs) =
      updateRows p f (filter (\<lambda>r. ar_refType r = rt' \<and> ar_refId r = i') xs)" for p xs
    by (induction xs) (use assms(5) in auto)
  have other: "updateRows (\<lambda>r. ar_id r = ar_id v) f (reservationsUnder rt' i' s) = reservationsUnder rt' i' s"
    if "(rt', i') \<noteq> (rt, i)"
  proof (rule updateRows_none)
    fix r assume r: "r \<in> set (reservationsUnder rt' i' s)"
    show "ar_id r \<noteq> ar_id v"
      using resv.key_eqD [OF assms(1), of r v] r assms(2-4) that by (auto simp: reservationsUnder_def)
  qed
  show ?thesis using same other by (auto simp: reservationsUnder_def assms(6))
qed

section \<open>Tables the ledger does not own\<close>

definition rowsView :: "db \<Rightarrow> db" where
  "rowsView s = s\<lparr>db_seq := 0, users := [], accounts := [], accountReservations := [], accountTxs := [],
     limitUsages := [], limitReservations := [], attachments := [], tahesabOutboxes := []\<rparr>"

definition sameRows :: "db \<Rightarrow> db \<Rightarrow> bool" where
  "sameRows s t \<longleftrightarrow> rowsView t = rowsView s"

lemma sameRows_refl [simp]: "sameRows s s"
  by (simp add: sameRows_def)

lemma sameRows_trans: "sameRows s t \<Longrightarrow> sameRows t u \<Longrightarrow> sameRows s u"
  by (simp add: sameRows_def)

lemma sameRows_sel:
  assumes "sameRows s t"
  shows "db_gen t = db_gen s" "db_now t = db_now s" "instruments t = instruments s"
    "depositRequests t = depositRequests s" "withdrawRequests t = withdrawRequests s" "trades t = trades s"
    "p2pAllocations t = p2pAllocations s" "goldLots t = goldLots s"
    "physicalCustodyMovements t = physicalCustodyMovements s" "remittanceGroups t = remittanceGroups s"
    "remittances t = remittances s" "settlementLinks t = settlementLinks s"
  using assms by (cases s; cases t; simp add: sameRows_def rowsView_def)+

lemma sameRows_wallet:
  assumes "walletFrame s t"
  shows "sameRows s t"
proof -
  have "others t = others s" using assms by (simp add: walletFrame_def)
  then show ?thesis by (cases s; cases t; simp add: sameRows_def rowsView_def others_def)
qed

lemma sameRows_side: "side s t \<Longrightarrow> sameRows s t"
  by (cases s; cases t) (simp add: side_def core_def sameRows_def rowsView_def)

section \<open>The effect of a stretch of a transaction\<close>

definition effect ::
  "TxRefType \<Rightarrow> id \<Rightarrow> decimal \<Rightarrow> (id \<Rightarrow> decimal) \<Rightarrow> (id \<Rightarrow> decimal) \<Rightarrow> db \<Rightarrow> db \<Rightarrow> bool" where
  "effect rt i d p h s t \<longleftrightarrow>
     ledger_ok s \<and> ledger_ok t \<and> sameRows s t \<and> db_seq s \<le> db_seq t \<and>
     (\<forall>u c w. walletId u c s = Some w \<longrightarrow> walletId u c t = Some w) \<and>
     (\<exists>xs. accountTxs t = accountTxs s @ xs \<and> (\<forall>x\<in>set xs. tx_refType x = rt \<and> tx_refId x = Some i) \<and>
           total tx_delta xs = d) \<and>
     (keys_ok s (map tx_id (accountTxs s)) \<longrightarrow> keys_ok t (map tx_id (accountTxs t))) \<and>
     (\<forall>rt' i'. (rt', i') \<noteq> (rt, i) \<longrightarrow> reservationsUnder rt' i' t = reservationsUnder rt' i' s) \<and>
     (\<forall>j. posted j t = posted j s + p j) \<and> (\<forall>j. held j t = held j s + h j)"

lemma effectI:
  assumes "ledger_ok s" "ledger_ok t" "sameRows s t" "db_seq s \<le> db_seq t"
    and "\<And>u c w. walletId u c s = Some w \<Longrightarrow> walletId u c t = Some w"
    and "accountTxs t = accountTxs s @ xs" "\<And>x. x \<in> set xs \<Longrightarrow> tx_refType x = rt \<and> tx_refId x = Some i"
    and "total tx_delta xs = d" "keys_ok s (map tx_id (accountTxs s)) \<Longrightarrow> keys_ok t (map tx_id (accountTxs t))"
    and "\<And>rt' i'. (rt', i') \<noteq> (rt, i) \<Longrightarrow> reservationsUnder rt' i' t = reservationsUnder rt' i' s"
    and "\<And>j. posted j t = posted j s + p j" "\<And>j. held j t = held j s + h j"
  shows "effect rt i d p h s t"
  unfolding effect_def using assms by blast

lemma effectD:
  assumes "effect rt i d p h s t"
  shows "ledger_ok s" "ledger_ok t" "sameRows s t" "db_seq s \<le> db_seq t"
    "\<And>u c w. walletId u c s = Some w \<Longrightarrow> walletId u c t = Some w"
    "keys_ok s (map tx_id (accountTxs s)) \<Longrightarrow> keys_ok t (map tx_id (accountTxs t))"
    "\<And>rt' i'. (rt', i') \<noteq> (rt, i) \<Longrightarrow> reservationsUnder rt' i' t = reservationsUnder rt' i' s"
    "\<And>j. posted j t = posted j s + p j" "\<And>j. held j t = held j s + h j"
  using assms unfolding effect_def by blast+

lemma effect_booked:
  assumes "effect rt i d p h s t"
  shows "booked rt' j t = booked rt' j s + (if rt' = rt \<and> j = i then d else 0)"
proof -
  obtain xs where xs: "accountTxs t = accountTxs s @ xs" "\<forall>x\<in>set xs. tx_refType x = rt \<and> tx_refId x = Some i"
    "total tx_delta xs = d" using assms by (auto simp: effect_def)
  have "total (\<lambda>x. if tx_refType x = rt' \<and> tx_refId x = Some j then tx_delta x else 0) xs =
      (if rt' = rt \<and> j = i then d else 0)"
    using xs(2,3) total_cong [of xs "\<lambda>x. if tx_refType x = rt' \<and> tx_refId x = Some j then tx_delta x else 0" tx_delta]
    by (auto intro: total_zero)
  then show ?thesis by (simp add: booked_def xs(1))
qed

lemma effect_entries:
  assumes "effect rt i d p h s t" and "x \<in> set (accountTxs t)"
  shows "x \<in> set (accountTxs s) \<or> tx_refType x = rt \<and> tx_refId x = Some i"
  using assms by (auto simp: effect_def)

lemma effect_refl: "ledger_ok s \<Longrightarrow> effect rt i 0 (\<lambda>_. 0) (\<lambda>_. 0) s s"
  by (rule effectI [where xs = "[]"]) auto

lemma effect_trans [trans]:
  assumes "effect rt i d p h s t" and "effect rt i d' p' h' t u"
  shows "effect rt i (d + d') (\<lambda>j. p j + p' j) (\<lambda>j. h j + h' j) s u"
proof -
  note a = effectD [OF assms(1)] and b = effectD [OF assms(2)]
  obtain xs ys where xs: "accountTxs t = accountTxs s @ xs" "\<forall>x\<in>set xs. tx_refType x = rt \<and> tx_refId x = Some i"
      "total tx_delta xs = d"
    and ys: "accountTxs u = accountTxs t @ ys" "\<forall>x\<in>set ys. tx_refType x = rt \<and> tx_refId x = Some i"
      "total tx_delta ys = d'" using assms by (auto simp: effect_def)
  show ?thesis
  proof (rule effectI [where xs = "xs @ ys"])
    show "ledger_ok s" "ledger_ok u" "sameRows s u" "db_seq s \<le> db_seq u"
      using a(1,4) b(2,4) sameRows_trans [OF a(3) b(3)] by simp_all
    show "walletId u' c u = Some w" if "walletId u' c s = Some w" for u' c w using a(5) [OF that] by (rule b(5))
    show "accountTxs u = accountTxs s @ xs @ ys" "total tx_delta (xs @ ys) = d + d'" using xs ys by simp_all
    show "tx_refType x = rt \<and> tx_refId x = Some i" if "x \<in> set (xs @ ys)" for x using that xs(2) ys(2) by auto
    show "keys_ok u (map tx_id (accountTxs u))" if "keys_ok s (map tx_id (accountTxs s))"
      using a(6) [OF that] by (rule b(6))
    show "reservationsUnder rt' i' u = reservationsUnder rt' i' s" if "(rt', i') \<noteq> (rt, i)" for rt' i'
      using a(7) [OF that] b(7) [OF that] by simp
    show "posted j u = posted j s + (p j + p' j)" "held j u = held j s + (h j + h' j)" for j
      using a(8,9) [of j] b(8,9) [of j] by simp_all
  qed
qed

text \<open>Steps that leave the reservations of the reference alone keep its hold.\<close>

lemma effect_heldAs_other:
  assumes "effect rt i d p h s t" and "(rt', i') \<noteq> (rt, i)" and "heldAs rt' i' x s"
  shows "heldAs rt' i' x t"
  using heldAs_cong [OF effectD(7) [OF assms(1,2)] effectD(5) [OF assms(1)] assms(3)] by blast

lemma effect_same_reservations:
  assumes "effect rt i d p h s t" and "accountReservations t = accountReservations s" and "heldAs rt' i' x s"
  shows "heldAs rt' i' x t"
  using heldAs_cong [OF reservationsUnder_cong [OF assms(2)] effectD(5) [OF assms(1)] assms(3)] by blast

subsection \<open>The operations\<close>

lemma effect_quiet:
  assumes "ledger_ok s" "ledger_ok t" "walletFrame s t" "accountTxs t = accountTxs s"
    and "\<And>rt' i'. (rt', i') \<noteq> (rt, i) \<Longrightarrow> reservationsUnder rt' i' t = reservationsUnder rt' i' s"
    and "\<And>j. held j t = held j s + h j"
  shows "effect rt i 0 (\<lambda>_. 0) h s t"
proof (rule effectI [where xs = "[]"])
  have "quiet s t" using assms(3,4) by (simp add: quiet_def walletFrame_sel walletFrame_seq)
  then show "keys_ok t (map tx_id (accountTxs t))" if "keys_ok s (map tx_id (accountTxs s))"
    using quiet_keys [OF _ that] assms(4) by simp
  show "walletId u c t = Some w" if "walletId u c s = Some w" for u c w
    by (rule walletFrame_walletId [OF assms(3) that])
qed (use assms sameRows_wallet [OF assms(3)] walletFrame_seq [OF assms(3)] posted_cong [OF assms(4)] in simp_all)

lemma effect_getOrCreate:
  assumes "ledger_ok s" and "getOrCreateAccount u c s = Inr (a, t)"
  shows "effect rt i 0 (\<lambda>_. 0) (\<lambda>_. 0) s t" "accountReservations t = accountReservations s"
    "walletId u c t = Some (ac_id a)"
proof -
  note e = getOrCreateAccount_effect [OF assms(2)]
  have ok: "ledger_ok t" using holdsE_D [OF ledger.getAcc_inv [OF assms(1)] assms(2)] .
  show "effect rt i 0 (\<lambda>_. 0) (\<lambda>_. 0) s t"
    by (rule effect_quiet [OF assms(1) ok e(6) e(4)]) (simp_all add: reservationsUnder_cong [OF e(5)] e(2))
  show "accountReservations t = accountReservations s" "walletId u c t = Some (ac_id a)" using e by simp_all
qed

lemma effect_side:
  assumes "ledger_ok s" and "side s t"
  shows "effect rt i 0 (\<lambda>_. 0) (\<lambda>_. 0) s t" "accountReservations t = accountReservations s"
proof -
  note l = side_ledger [OF assms(2)]
  show "effect rt i 0 (\<lambda>_. 0) (\<lambda>_. 0) s t"
  proof (rule effectI [where xs = "[]"])
    show "keys_ok t (map tx_id (accountTxs t))" if "keys_ok s (map tx_id (accountTxs s))"
      using quiet_keys [OF sameLedger_quiet [OF l] that] side_sel(8) [OF assms(2)] by simp
  qed (use sameLedger_ok [OF l assms(1)] sameRows_side [OF assms(2)] side_sel [OF assms(2)] sameLedger_sums [OF l]
      in \<open>simp_all add: assms(1) reservationsUnder_def\<close>)
  show "accountReservations t = accountReservations s" using side_sel [OF assms(2)] by simp
qed

lemma effect_post:
  assumes "ledger_ok s" and "applyTransaction k d ty rt (Some i) cb rv s = Inr (q, t)"
  shows "effect rt i d (\<lambda>j. if j = k then d else 0) (\<lambda>_. 0) s t" "accountReservations t = accountReservations s"
proof -
  obtain x b where q: "q = (x, b)" by (cases q)
  note e = applyTransaction_effect [OF assms(2) [unfolded q]]
  have ok: "ledger_ok t" using holdsE_D [OF ledger.post_inv [OF assms(1)] assms(2)] .
  show "accountReservations t = accountReservations s" using e by simp
  show "effect rt i d (\<lambda>j. if j = k then d else 0) (\<lambda>_. 0) s t"
  proof (rule effectI [where xs = "[x]"])
    show "keys_ok t (map tx_id (accountTxs t))" if "keys_ok s (map tx_id (accountTxs s))"
      by (rule posting_txs [OF posting_apply [OF assms(2)] that])
    show "walletId u c t = Some w" if "walletId u c s = Some w" for u c w
      by (rule walletFrame_walletId [OF e(8) that])
  qed (use assms(1) ok e sameRows_wallet [OF e(8)] in \<open>simp_all add: reservationsUnder_cong [OF e(7)]\<close>)
qed

lemma reserveFunds_table:
  assumes "reserveFunds u c amt rt i s = Inr ((a, r), t)" and "reservationsUnder rt i s = []"
  shows "accountReservations t = accountReservations s @ [r] \<and> ar_refType r = rt \<and> ar_refId r = i \<and>
    ar_accountId r = ac_id a \<and> ar_amount r = amt \<and> ar_status r = AccountReservationStatus.RESERVED"
proof -
  have none: "findReservation rt i k s' = None" if "accountReservations s' = accountReservations s" for k s'
    using assms(2) reservationsUnder_cong [OF that] by (simp add: findReservation_under)
  from assms(1) obtain b s' where 1: "getOrCreateAccount u c s = Inr (b, s')"
    unfolding reserveFunds_def bindE_Inr_iff by blast
  note e = getOrCreateAccount_effect(5) [OF 1]
  show ?thesis
    using assms(1) 1 none [OF e] e
    by (auto simp: reserveFunds_def createReservation_def Let_def split: option.splits if_splits)
qed

text \<open>Whatever the sign of the amount, a new reservation adds it to the blocked balance.\<close>

lemma reserveFunds_blocks:
  assumes ok: "ledger_ok s" and run: "reserveFunds u c amt rt i s = Inr ((a, r), t)" and new: "reservationsUnder rt i s = []"
  shows "findAccount (ac_id a) t = Some a" "walletId u c t = Some (ac_id a)"
    "ac_blockedBalance a = held (ac_id a) s + amt"
proof -
  from run obtain b s' where 1: "getOrCreateAccount u c s = Inr (b, s')" unfolding reserveFunds_def bindE_Inr_iff by blast
  note e = getOrCreateAccount_effect [OF 1]
  have ok1: "ledger_ok s'" "findAccount (ac_id b) s' = Some b" using holdsE_D [OF getOrCreateAccount_keeps [OF ok] 1] by auto
  have "findReservation rt i (ac_id b) s' = None"
    using new reservationsUnder_cong [OF e(5)] by (simp add: findReservation_under)
  with run 1 ok1(2) have a: "a = b\<lparr>ac_blockedBalance := ac_blockedBalance b + amt\<rparr>"
    "findAccount (ac_id b) t = Some a"
    by (auto simp: reserveFunds_def createReservation_def Let_def findAccount_def updateAccount_def bumpId_def find_updateRows
        dest: find_SomeD split: if_splits)
  then show "findAccount (ac_id a) t = Some a" by simp
  show "walletId u c t = Some (ac_id a)" using reserveFunds_effect(2) [OF run] .
  show "ac_blockedBalance a = held (ac_id a) s + amt"
    using account_found [OF ok1] e(2) a(1) by (simp add: account_ok_def)
qed

lemma effect_reserve:
  assumes "ledger_ok s" and "0 \<le> amt" and "heldAs rt i None s" and "reserveFunds u c amt rt i s = Inr (q, t)"
  shows "effect rt i 0 (\<lambda>_. 0) (\<lambda>j. if Some j = walletId u c t then amt else 0) s t"
    "heldAs rt i (Some (AccountReservationStatus.RESERVED, amt, u, c)) t"
proof -
  obtain a r where q: "q = (a, r)" by (cases q)
  have none: "reservationsUnder rt i s = []" using assms(3) by simp
  note e = reserveFunds_effect [OF assms(4) [unfolded q]] and tb = reserveFunds_table [OF assms(4) [unfolded q] none]
  have ok: "ledger_ok t" using holdsE_D [OF ledger.reserve_inv [OF assms(1,2)] assms(4)] .
  have new: "findReservation rt i (ac_id a) s = None" using none by (simp add: findReservation_under)
  show "effect rt i 0 (\<lambda>_. 0) (\<lambda>j. if Some j = walletId u c t then amt else 0) s t"
    by (rule effect_quiet [OF assms(1) ok e(9) e(3)]) (use tb e(2) e(6) [OF new] in \<open>auto simp: reservationsUnder_def\<close>)
  show "heldAs rt i (Some (AccountReservationStatus.RESERVED, amt, u, c)) t"
    using tb none e(2) by (auto simp: reservationsUnder_def)
qed

text \<open>The two ways to close a hold; without one they change nothing.\<close>

lemma closing_table:
  assumes "ledger_ok s" and w: "walletId u c s = Some (ar_accountId v)"
    and v: "reservationsUnder rt i s = [v]" "ar_status v = AccountReservationStatus.RESERVED"
    and run: "consumeFunds u c rt i s = Inr (q, t) \<and> st = AccountReservationStatus.CONSUMED \<or>
      releaseFunds u c rt i s = Inr (q, t) \<and> st = AccountReservationStatus.RELEASED"
  shows "(\<exists>a. q = Some (a, v\<lparr>ar_status := st\<rparr>) \<and> ac_id a = ar_accountId v) \<and>
    (\<exists>s'. accountReservations s' = accountReservations s \<and> ledger_ok s' \<and>
       accountReservations t = updateRows (\<lambda>r. ar_id r = ar_id v) (\<lambda>r. r\<lparr>ar_status := st\<rparr>) (accountReservations s'))"
proof -
  from run obtain a s' where 1: "getOrCreateAccount u c s = Inr (a, s')"
    unfolding consumeFunds_def releaseFunds_def bindE_Inr_iff by blast
  note e = getOrCreateAccount_effect [OF 1]
  have "walletId u c s' = Some (ar_accountId v)" by (rule walletFrame_walletId [OF e(6) w])
  then have a: "ac_id a = ar_accountId v" using e(3) by simp
  have ok': "ledger_ok s'" and fa: "findAccount (ac_id a) s' = Some a"
    using holdsE_D [OF getOrCreateAccount_keeps [OF assms(1)] 1] by auto
  have fr: "findReservation rt i (ac_id a) s' = Some v"
    using v a by (simp add: findReservation_under reservationsUnder_cong [OF e(5)])
  from run have "closeReservation a v st s' = Inr (q, t)"
    using fa fr v(2) 1 by (auto simp: consumeFunds_def releaseFunds_def)
  then have "q = Some (a\<lparr>ac_blockedBalance := ac_blockedBalance a - ar_amount v\<rparr>, v\<lparr>ar_status := st\<rparr>)"
    "accountReservations t = updateRows (\<lambda>r. ar_id r = ar_id v) (\<lambda>r. r\<lparr>ar_status := st\<rparr>) (accountReservations s')"
    by (auto simp: closeReservation_def Let_def split: if_splits)
  with a e(5) ok' show ?thesis by auto
qed

lemma effect_close:
  assumes ok: "ledger_ok s" and h: "heldAs rt i (Some (AccountReservationStatus.RESERVED, amt, u, c)) s"
    and run: "consumeFunds u c rt i s = Inr (q, t) \<and> st = AccountReservationStatus.CONSUMED \<or>
      releaseFunds u c rt i s = Inr (q, t) \<and> st = AccountReservationStatus.RELEASED"
  shows "effect rt i 0 (\<lambda>_. 0) (\<lambda>j. if Some j = walletId u c t then - amt else 0) s t"
    "heldAs rt i (Some (st, amt, u, c)) t" "\<exists>a r. q = Some (a, r) \<and> walletId u c t = Some (ac_id a)"
proof -
  from h obtain v where v: "reservationsUnder rt i s = [v]" "ar_status v = AccountReservationStatus.RESERVED"
    "ar_amount v = amt" "walletId u c s = Some (ar_accountId v)" by auto
  obtain a s' where tb: "q = Some (a, v\<lparr>ar_status := st\<rparr>)" "ac_id a = ar_accountId v"
      "accountReservations s' = accountReservations s" "ledger_ok s'"
      "accountReservations t = updateRows (\<lambda>r. ar_id r = ar_id v) (\<lambda>r. r\<lparr>ar_status := st\<rparr>) (accountReservations s')"
    using closing_table [OF ok v(4,1,2) run] by auto
  have run': "consumeFunds u c rt i s = Inr (q, t) \<or> releaseFunds u c rt i s = Inr (q, t)" using run by blast
  obtain w where e: "walletId u c t = Some w" "\<forall>j. held j t = held j s - (if j = w then openAmount rt i w s else 0)"
      "accountTxs t = accountTxs s" "walletFrame s t"
    using closing_effect [OF ok run'] by blast
  have w: "w = ar_accountId v" using e(1) walletFrame_walletId [OF e(4) v(4)] by simp
  have mem: "v \<in> set (accountReservations s)" "ar_refType v = rt" "ar_refId v = i"
    using arg_cong [OF v(1), of set] by (auto simp: reservationsUnder_def)
  have dist: "distinct (map ar_id (accountReservations s))" using ledger_okD(2) [OF ok] by blast
  have under: "reservationsUnder rt' i' t = (if rt' = rt \<and> i' = i
      then updateRows (\<lambda>r. ar_id r = ar_id v) (\<lambda>r. r\<lparr>ar_status := st\<rparr>) (reservationsUnder rt i s)
      else reservationsUnder rt' i' s)" for rt' i'
    using reservationsUnder_update [OF dist mem, of "\<lambda>r. r\<lparr>ar_status := st\<rparr>" t rt' i'] tb(3,5) by simp
  have ok': "ledger_ok t"
    using run holdsE_D [OF ledger.consume_inv [OF ok]] holdsE_D [OF ledger.release_inv [OF ok]] by blast
  have oa: "openAmount rt i w s = amt" using v w by (simp add: openAmount_def findReservation_under)
  show "effect rt i 0 (\<lambda>_. 0) (\<lambda>j. if Some j = walletId u c t then - amt else 0) s t"
    by (rule effect_quiet [OF ok ok' e(4) e(3)]) (use under e(1,2) oa in auto)
  show "heldAs rt i (Some (st, amt, u, c)) t" using under [of rt i] v w e(1) by simp
  show "\<exists>a r. q = Some (a, r) \<and> walletId u c t = Some (ac_id a)" using tb(1,2) e(1) w by simp
qed

lemmas effect_consume = effect_close [OF _ _ disjI1 [OF conjI [OF _ refl]]]
lemmas effect_release = effect_close [OF _ _ disjI2 [OF conjI [OF _ refl]]]

text \<open>An open hold can always be closed.\<close>

lemma open_hold_closes:
  assumes ok: "ledger_ok s" and u: "u \<noteq> HOUSE_USER_ID"
    and h: "heldAs rt i (Some (AccountReservationStatus.RESERVED, amt, u, c)) s"
  shows "\<exists>q t. consumeFunds u c rt i s = Inr (q, t)" "\<exists>q t. releaseFunds u c rt i s = Inr (q, t)"
proof -
  from h obtain v where v: "reservationsUnder rt i s = [v]" "ar_status v = AccountReservationStatus.RESERVED"
    "walletId u c s = Some (ar_accountId v)" by auto
  from v(3) obtain a where a: "walletOf u c a s" "ac_id a = ar_accountId v"
    using u by (auto simp: walletId_def walletOf_def split: option.splits)
  have fr: "findReservation rt i (ac_id a) s = Some v" using v a by (simp add: findReservation_under)
  have "\<exists>q t. closeReservation a v st s = Inr (q, t)" if "st \<noteq> AccountReservationStatus.RESERVED" for st
    using closeReservation_open [OF ok a(1) fr v(2) that] by metis
  then show "\<exists>q t. consumeFunds u c rt i s = Inr (q, t)" "\<exists>q t. releaseFunds u c rt i s = Inr (q, t)"
    using fr v(2) walletOf_getOrCreate [OF a(1)] walletOf_find [OF ok a(1)]
    by (simp_all add: consumeFunds_def releaseFunds_def)
qed

lemma closing_found:
  assumes ok: "ledger_ok s" and h: "heldAs rt i (Some (AccountReservationStatus.RESERVED, amt, u, c)) s"
    and run: "consumeFunds u c rt i s = Inr (q, t)"
  obtains a r where "q = Some (a, r)" "findAccount (ac_id a) t = Some a" "walletId u c t = Some (ac_id a)"
    "ac_blockedBalance a + amt + ac_minBalance a \<le> ac_balance a" "ledger_ok t"
proof -
  have ok': "ledger_ok t" using holdsE_D [OF ledger.consume_inv [OF ok] run] .
  from h obtain v where v: "reservationsUnder rt i s = [v]" "ar_status v = AccountReservationStatus.RESERVED"
    "ar_amount v = amt" "walletId u c s = Some (ar_accountId v)" by auto
  from run obtain a s' where 1: "getOrCreateAccount u c s = Inr (a, s')" unfolding consumeFunds_def bindE_Inr_iff by blast
  note e = getOrCreateAccount_effect [OF 1]
  have a: "ac_id a = ar_accountId v" using e(3) walletFrame_walletId [OF e(6) v(4)] by simp
  have fr: "findReservation rt i (ac_id a) s' = Some v"
    using v a by (simp add: findReservation_under reservationsUnder_cong [OF e(5)])
  have ok1: "ledger_ok s'" "findAccount (ac_id a) s' = Some a"
    using holdsE_D [OF getOrCreateAccount_keeps [OF ok] 1] by auto
  let ?a = "a\<lparr>ac_blockedBalance := ac_blockedBalance a - amt\<rparr>"
  have "closeReservation a v AccountReservationStatus.CONSUMED s' = Inr (q, t)"
    using run 1 ok1(2) fr v(2) by (simp add: consumeFunds_def)
  then have q: "q = Some (?a, v\<lparr>ar_status := AccountReservationStatus.CONSUMED\<rparr>)"
    "findAccount (ac_id a) t = Some ?a"
    using ok1(2) v(3) findAccount_SomeD [OF ok1(2)]
    by (auto simp: closeReservation_def Let_def findAccount_def updateAccount_def find_updateRows updateReservation_def split: if_splits)
  have "ac_blockedBalance a + ac_minBalance a \<le> ac_balance a"
    using account_found [OF ok1] by (simp add: account_ok_def)
  then show ?thesis using that [OF q(1)] q(2) effect_consume(3) [OF ok h run] q(1) ok' by auto
qed

lemma effect_cong:
  "effect rt i d p h s t \<Longrightarrow> d' = d \<Longrightarrow> (\<And>j. p' j = p j) \<Longrightarrow> (\<And>j. h' j = h j) \<Longrightarrow> effect rt i d' p' h' s t"
  by (simp add: effect_def)

text \<open>The settlement of a hold: consume the reservation, and post to the wallet it was on.\<close>

lemma effect_pay:
  assumes ok: "ledger_ok s" and h: "heldAs rt i (Some (AccountReservationStatus.RESERVED, amt, u, c)) s"
    and con: "consumeFunds u c rt i s = Inr (q, t)" and a: "\<And>w. walletId u c t = Some w \<Longrightarrow> k = w"
    and post: "applyTransaction k d ty rt (Some i) cb rv t = Inr (x, t')"
  shows "effect rt i d (\<lambda>j. if j = k then d else 0) (\<lambda>j. if j = k then - amt else 0) s t'"
    "heldAs rt i (Some (AccountReservationStatus.CONSUMED, amt, u, c)) t'" "walletId u c t' = Some k"
proof -
  note e = effect_consume [OF ok h con]
  have k: "walletId u c t = Some k" using e(3) a by auto
  note f = effect_post [OF effectD(2) [OF e(1)] post]
  show "effect rt i d (\<lambda>j. if j = k then d else 0) (\<lambda>j. if j = k then - amt else 0) s t'"
    by (rule effect_cong [OF effect_trans [OF e(1) f(1)]]) (auto simp: k)
  show "heldAs rt i (Some (AccountReservationStatus.CONSUMED, amt, u, c)) t'"
    by (rule effect_same_reservations [OF f(1,2) e(2)])
  show "walletId u c t' = Some k" by (rule effectD(5) [OF f(1) k])
qed

text \<open>The steps that leave every reservation alone, so that they keep every hold.\<close>

definition plain :: "TxRefType \<Rightarrow> id \<Rightarrow> decimal \<Rightarrow> (id \<Rightarrow> decimal) \<Rightarrow> db \<Rightarrow> db \<Rightarrow> bool" where
  "plain rt i d p s t \<longleftrightarrow> effect rt i d p (\<lambda>_. 0) s t \<and> accountReservations t = accountReservations s"

lemma plain_refl: "ledger_ok s \<Longrightarrow> plain rt i 0 (\<lambda>_. 0) s s"
  by (simp add: plain_def effect_refl)

lemma plain_trans [trans]:
  assumes "plain rt i d p s t" and "plain rt i d' p' t u"
  shows "plain rt i (d + d') (\<lambda>j. p j + p' j) s u"
  using assms effect_trans [of rt i d p "\<lambda>_. 0" s t d' p' "\<lambda>_. 0" u] by (simp add: plain_def)

lemma plainD:
  assumes "plain rt i d p s t"
  shows "ledger_ok t" "effect rt i d p (\<lambda>_. 0) s t" "heldAs rt' i' x s \<Longrightarrow> heldAs rt' i' x t"
    "walletId u c s = Some w \<Longrightarrow> walletId u c t = Some w" "sameRows s t"
proof -
  have e: "effect rt i d p (\<lambda>_. 0) s t" "accountReservations t = accountReservations s" using assms by (simp_all add: plain_def)
  show "ledger_ok t" "effect rt i d p (\<lambda>_. 0) s t" "sameRows s t" using effectD(2,3) [OF e(1)] e(1) by simp_all
  show "heldAs rt' i' x t" if "heldAs rt' i' x s" by (rule effect_same_reservations [OF e that])
  show "walletId u c t = Some w" if "walletId u c s = Some w" by (rule effectD(5) [OF e(1) that])
qed

lemma plain_getAcc: "ledger_ok s \<Longrightarrow> getOrCreateAccount u c s = Inr (a, t) \<Longrightarrow> plain rt i 0 (\<lambda>_. 0) s t"
  unfolding plain_def using effect_getOrCreate(1,2) by blast

lemma plain_side: "ledger_ok s \<Longrightarrow> side s t \<Longrightarrow> plain rt i 0 (\<lambda>_. 0) s t"
  unfolding plain_def using effect_side by blast

lemma plain_post:
  "ledger_ok s \<Longrightarrow> applyTransaction k d ty rt (Some i) cb rv s = Inr (q, t) \<Longrightarrow> plain rt i d (\<lambda>j. if j = k then d else 0) s t"
  unfolding plain_def using effect_post by blast

lemma plain_release_closed:
  assumes ok: "ledger_ok s" and h: "heldAs rt i (Some (AccountReservationStatus.RELEASED, amt, u, c)) s"
    and run: "releaseFunds u c rt i s = Inr (q, t)"
  shows "plain rt i 0 (\<lambda>_. 0) s t"
proof -
  from h obtain v where v: "reservationsUnder rt i s = [v]" "ar_status v = AccountReservationStatus.RELEASED"
    "walletId u c s = Some (ar_accountId v)" by auto
  from run obtain a s' where 1: "getOrCreateAccount u c s = Inr (a, s')" unfolding releaseFunds_def bindE_Inr_iff by blast
  note e = getOrCreateAccount_effect [OF 1]
  have "ac_id a = ar_accountId v" using e(3) walletFrame_walletId [OF e(6) v(3)] by simp
  then have "findReservation rt i (ac_id a) s' = Some v"
    using v by (simp add: findReservation_under reservationsUnder_cong [OF e(5)])
  then have "t = s'" using run 1 v(2) by (simp add: releaseFunds_def)
  then show ?thesis using plain_getAcc [OF ok 1] by simp
qed

text \<open>A hold closed between plain steps.\<close>

lemma plain_close_plain:
  assumes "plain rt i d p s s1" and "effect rt i d' p' h s1 s2" and "plain rt i d'' p'' s2 t"
  shows "effect rt i (d + d' + d'') (\<lambda>j. p j + p' j + p'' j) h s t"
  by (rule effect_cong [OF effect_trans [OF effect_trans [OF plainD(2) [OF assms(1)] assms(2)] plainD(2) [OF assms(3)]]])
    simp_all

lemma heldAs_fun: "heldAs rt i x s \<Longrightarrow> x = Some (st, amt, u, c) \<Longrightarrow> heldAs rt i (Some (st, amt, u, c)) s"
  by simp

section \<open>The interface of a request table with holds\<close>

definition requests_ok ::
  "(db \<Rightarrow> 'r list) \<Rightarrow> ('r \<Rightarrow> id) \<Rightarrow> TxRefType \<Rightarrow> ('r \<Rightarrow> decimal) \<Rightarrow> ('r \<Rightarrow> db \<Rightarrow> hold) \<Rightarrow> db \<Rightarrow> bool" where
  "requests_ok rows key rt due holdOf s \<longleftrightarrow>
     ledger_ok s \<and> books_ok rows key rt due s \<and> (\<forall>r\<in>set (rows s). heldAs rt (key r) (holdOf r s) s) \<and>
     (\<forall>v\<in>set (accountReservations s). ar_refType v = rt \<longrightarrow> ar_refId v \<in> key ` set (rows s))"

locale request_ledger =
  fixes rows :: "db \<Rightarrow> 'r list" and key :: "'r \<Rightarrow> id" and rt :: TxRefType and due :: "'r \<Rightarrow> decimal"
    and holdOf :: "'r \<Rightarrow> db \<Rightarrow> hold"
  assumes rows_same: "sameRows s t \<Longrightarrow> rows t = rows s"
    and holdOf_same: "instruments t = instruments s \<Longrightarrow> holdOf r t = holdOf r s"
begin

abbreviation ok :: "db \<Rightarrow> bool" where
  "ok \<equiv> requests_ok rows key rt due holdOf"

lemma ok_D:
  assumes "ok s"
  shows "ledger_ok s" "keys_ok s (map key (rows s))" "keys_ok s (map tx_id (accountTxs s))"
    "\<And>x. x \<in> set (accountTxs s) \<Longrightarrow> tx_refType x = rt \<Longrightarrow> tx_refId x \<in> Some ` key ` set (rows s)"
    "\<And>r. r \<in> set (rows s) \<Longrightarrow> booked rt (key r) s = due r"
    "\<And>r. r \<in> set (rows s) \<Longrightarrow> heldAs rt (key r) (holdOf r s) s"
    "\<And>v. v \<in> set (accountReservations s) \<Longrightarrow> ar_refType v = rt \<Longrightarrow> ar_refId v \<in> key ` set (rows s)"
  using assms by (auto simp: requests_ok_def books_ok_def)

lemma ok_I:
  assumes "ledger_ok s" "keys_ok s (map key (rows s))" "keys_ok s (map tx_id (accountTxs s))"
    "\<And>x. x \<in> set (accountTxs s) \<Longrightarrow> tx_refType x = rt \<Longrightarrow> tx_refId x \<in> Some ` key ` set (rows s)"
    "\<And>r. r \<in> set (rows s) \<Longrightarrow> booked rt (key r) s = due r"
    "\<And>r. r \<in> set (rows s) \<Longrightarrow> heldAs rt (key r) (holdOf r s) s"
    "\<And>v. v \<in> set (accountReservations s) \<Longrightarrow> ar_refType v = rt \<Longrightarrow> ar_refId v \<in> key ` set (rows s)"
  shows "ok s"
  using assms by (auto simp: requests_ok_def books_ok_def)

text \<open>Reservations of this type after a step under one reference are old ones or under it.\<close>

lemma effect_reservation:
  assumes "effect rt' i d p h s t" and "v \<in> set (accountReservations t)"
  shows "(\<exists>x\<in>set (accountReservations s). ar_refType x = ar_refType v \<and> ar_refId x = ar_refId v) \<or>
    ar_refType v = rt' \<and> ar_refId v = i"
proof (cases "(ar_refType v, ar_refId v) = (rt', i)")
  case False
  have "v \<in> set (reservationsUnder (ar_refType v) (ar_refId v) t)" using assms(2) by (simp add: reservationsUnder_def)
  then have "v \<in> set (reservationsUnder (ar_refType v) (ar_refId v) s)" using effectD(7) [OF assms(1) False] by simp
  then show ?thesis by (auto simp: reservationsUnder_def)
qed simp

lemma keys_later:
  assumes "sameRows s t" and "db_seq s \<le> db_seq t" and "keys_ok s ks"
  shows "keys_ok t ks"
  using assms sameRows_sel(1) [OF assms(1)] by (force simp: keys_ok_def)

lemma ok_other:
  assumes ok: "ok s" and e: "effect rt' i d p h s t" and ne: "rt' \<noteq> rt"
  shows "ok t"
proof -
  note o = ok_D [OF ok] and f = effectD [OF e]
  have rows: "rows t = rows s" by (rule rows_same [OF f(3)])
  show ?thesis
  proof (rule ok_I; (unfold rows)?)
    show "heldAs rt (key r) (holdOf r t) t" if "r \<in> set (rows s)" for r
      unfolding holdOf_same [OF sameRows_sel(3) [OF f(3)]]
      by (rule effect_heldAs_other [OF e _ o(6) [OF that]]) (use ne in simp)
    show "tx_refId x \<in> Some ` key ` set (rows s)" if "x \<in> set (accountTxs t)" "tx_refType x = rt" for x
      using effect_entries [OF e that(1)] that(2) ne o(4) by auto
    show "ar_refId v \<in> key ` set (rows s)" if v: "v \<in> set (accountReservations t)" "ar_refType v = rt" for v
    proof -
      obtain x where "x \<in> set (accountReservations s)" "ar_refType x = rt" "ar_refId x = ar_refId v"
        using effect_reservation [OF e v(1)] v(2) ne by auto
      with o(7) [of x] show ?thesis by simp
    qed
  qed (use o f ne effect_booked [OF e] keys_later [OF f(3,4) o(2)] in \<open>simp_all\<close>)
qed

lemma ok_side:
  assumes "ok s" and "side s t"
  shows "ok t"
proof -
  let ?rt = "if rt = TxRefType.TRADE then TxRefType.DEPOSIT else TxRefType.TRADE"
  have "effect ?rt [] 0 (\<lambda>_. 0) (\<lambda>_. 0) s t" by (rule effect_side(1) [OF ok_D(1) [OF assms(1)] assms(2)])
  then show ?thesis by (rule ok_other [OF assms(1)]) simp
qed

lemma ok_same:
  assumes "ok s" and l: "sameLedger s t" and rows: "rows t = rows s"
  shows "ok t"
proof -
  note o = ok_D [OF assms(1)] and sums = sameLedger_sums [OF l] and q = quiet_keys [OF sameLedger_quiet [OF l]]
  have same: "accountTxs t = accountTxs s" "accountReservations t = accountReservations s" "instruments t = instruments s"
    using l by (simp_all add: sameLedger_def)
  show ?thesis
  proof (rule ok_I; (unfold rows same)?)
    show "heldAs rt (key r) (holdOf r t) t" if "r \<in> set (rows s)" for r
      using heldAs_cong [OF reservationsUnder_cong [OF same(2)] _ o(6) [OF that]] holdOf_same [OF same(3)] by (simp add: sums)
    show "booked rt (key r) t = due r" if "r \<in> set (rows s)" for r
      using quiet_booked [OF sameLedger_quiet [OF l]] o(5) [OF that] by simp
  qed (use o q sameLedger_ok [OF l] in simp_all)
qed

lemma ok_clock: "ok s \<Longrightarrow> rows (s\<lparr>db_now := n\<rparr>) = rows s \<Longrightarrow> ok (s\<lparr>db_now := n\<rparr>)"
  by (rule ok_same) (simp_all add: sameLedger_def)

text \<open>A new request: its row, then the rest of its transaction, which places its hold.\<close>

lemma ok_fresh:
  assumes ok: "ok s" and r: "key r = freshId s" "due r = 0"
    and u: "ledger_ok u" "db_gen u = db_gen s" "db_seq u = Suc (db_seq s)" "rows u = rows s @ [r]"
      "accountTxs u = accountTxs s" "accountReservations u = accountReservations s" "accounts u = accounts s"
      "users u = users s" "instruments u = instruments s"
    and e: "effect rt (key r) 0 p h u t" and held: "heldAs rt (key r) (holdOf r t) t"
  shows "ok t"
proof -
  note o = ok_D [OF ok] and f = effectD [OF e]
  have rows: "rows t = rows s @ [r]" using rows_same [OF f(3)] u(4) by simp
  have fresh: "freshId s \<notin> key ` set (rows s)" using freshId_notin [OF o(2)] by simp
  have wid: "walletId u' c u = walletId u' c s" for u' c
    unfolding walletId_def findInstrument_def findAccountOf_def u by (rule refl)
  have bk: "booked rt j t = booked rt j s" for j using effect_booked [OF e] u(5) by (simp add: booked_def)
  have none: "booked rt (freshId s) s = 0"
    unfolding booked_def
  proof (rule total_zero)
    fix x assume "x \<in> set (accountTxs s)"
    then show "(if tx_refType x = rt \<and> tx_refId x = Some (freshId s) then tx_delta x else 0) = 0"
      using fresh o(4) [of x] by auto
  qed
  show ?thesis
  proof (rule ok_I; (unfold rows)?)
    show "ledger_ok t" by (rule f(2))
    have "keys_ok u (map key (rows s @ [r]))"
      using keys_ok_snoc [OF o(2)] r u(2,3) by (simp add: keys_ok_def bumpId_def)
    then show "keys_ok t (map key (rows s @ [r]))" by (rule keys_later [OF f(3,4)])
    have "keys_ok u (map tx_id (accountTxs u))"
      using keys_ok_bump [OF o(3)] u(2,3,5) by (simp add: keys_ok_def bumpId_def)
    then show "keys_ok t (map tx_id (accountTxs t))" by (rule f(6))
    show "tx_refId x \<in> Some ` key ` set (rows s @ [r])" if "x \<in> set (accountTxs t)" "tx_refType x = rt" for x
      using effect_entries [OF e that(1)] that(2) o(4) u(5) by auto
    show "booked rt (key q) t = due q" if "q \<in> set (rows s @ [r])" for q
      using that o(5) r none by (auto simp: bk)
    show "heldAs rt (key q) (holdOf q t) t" if "q \<in> set (rows s @ [r])" for q
    proof (cases "q = r")
      case False
      then have q: "q \<in> set (rows s)" using that by simp
      then have ne: "(rt, key q) \<noteq> (rt, key r)" using fresh r(1) by (metis imageI prod.inject)
      have "heldAs rt (key q) (holdOf q s) u"
        by (rule heldAs_cong [OF reservationsUnder_cong [OF u(6)] _ o(6) [OF q]]) (simp add: wid)
      then show ?thesis
        using effect_heldAs_other [OF e ne] holdOf_same [of t s] sameRows_sel(3) [OF f(3)] u(9) by simp
    qed (use held in simp)
    show "ar_refId v \<in> key ` set (rows s @ [r])" if v: "v \<in> set (accountReservations t)" "ar_refType v = rt" for v
    proof (cases "ar_refId v = key r")
      case False
      then obtain x where "x \<in> set (accountReservations s)" "ar_refType x = rt" "ar_refId x = ar_refId v"
        using effect_reservation [OF e v(1)] v(2) u(6) by auto
      with o(7) [of x] show ?thesis by simp
    qed simp
  qed
qed

lemma unused_key:
  assumes "ok s" and "i \<notin> key ` set (rows s)"
  shows "reservationsUnder rt i s = []"
proof (rule ccontr)
  assume "reservationsUnder rt i s \<noteq> []"
  then obtain v where "v \<in> set (reservationsUnder rt i s)" by (cases "reservationsUnder rt i s") auto
  then show False using ok_D(7) [OF assms(1), of v] assms(2) by (auto simp: reservationsUnder_def)
qed

text \<open>The two ways a request is placed: with a hold on a wallet, and without one.\<close>

definition addedRow :: "'r \<Rightarrow> db \<Rightarrow> db \<Rightarrow> bool" where
  "addedRow r s u \<longleftrightarrow> key r = freshId s \<and> due r = 0 \<and> ledger_ok u \<and> db_gen u = db_gen s \<and>
     db_seq u = Suc (db_seq s) \<and> rows u = rows s @ [r] \<and> accountTxs u = accountTxs s \<and>
     accountReservations u = accountReservations s \<and> accounts u = accounts s \<and> users u = users s \<and>
     instruments u = instruments s"

lemma addedRow_facts:
  assumes "ok s" and "addedRow r s u"
  shows "key r \<notin> key ` set (rows s)" "heldAs rt (key r) None u"
proof -
  show new: "key r \<notin> key ` set (rows s)"
    using freshId_notin [OF ok_D(2) [OF assms(1)]] assms(2) by (simp add: addedRow_def)
  show "heldAs rt (key r) None u"
    using unused_key [OF assms(1) new] assms(2) reservationsUnder_cong [of u s] by (simp add: addedRow_def)
qed

lemma ok_added:
  assumes "ok s" and "addedRow r s u" and "effect rt (key r) 0 p h u t" and "heldAs rt (key r) (holdOf r t) t"
  shows "ok t"
  by (rule ok_fresh [OF assms(1) _ _ _ _ _ _ _ _ _ _ _ assms(3,4)]) (use assms(2) in \<open>simp_all add: addedRow_def\<close>)

lemma ok_placed:
  assumes ok: "ok s" and u: "addedRow r s u" and s2: "side u s2" and amt: "0 \<le> amt"
    and res: "reserveFunds usr c amt rt (key r) s2 = Inr (q, s3)" and t: "side s3 t"
    and h: "holdOf r t = Some (AccountReservationStatus.RESERVED, amt, usr, c)"
  shows "ok t" "rows t = rows s @ [r]" "\<exists>w. walletId usr c t = Some w \<and>
    (\<forall>j. posted j t = posted j s \<and> held j t = held j s + (if j = w then amt else 0))"
proof -
  have ok': "ledger_ok u" using u by (simp add: addedRow_def)
  note e2 = effect_side(1) [OF ok' s2, where rt = rt and i = "key r"]
  have none: "heldAs rt (key r) None s2"
    by (rule effect_same_reservations [OF e2 effect_side(2) [OF ok' s2] addedRow_facts(2) [OF ok u]])
  note e3 = effect_reserve [OF effectD(2) [OF e2] amt none res]
  note ok3 = effectD(2) [OF e3(1)]
  note e4 = effect_side(1) [OF ok3 t, where rt = rt and i = "key r"]
  have held: "heldAs rt (key r) (holdOf r t) t"
    unfolding h by (rule effect_same_reservations [OF e4 effect_side(2) [OF ok3 t] e3(2)])
  note e = effect_trans [OF effect_trans [OF e2 e3(1)] e4, simplified]
  show "ok t" by (rule ok_added [OF ok u e held])
  show "rows t = rows s @ [r]" using rows_same [OF effectD(3) [OF e]] u by (simp add: addedRow_def)
  from e3(2) obtain w where w: "walletId usr c s3 = Some w" by auto
  have sums: "posted j u = posted j s" "held j u = held j s" for j
    using u posted_cong [of u s j] held_cong [of u s j] by (simp_all add: addedRow_def)
  show "\<exists>w. walletId usr c t = Some w \<and>
    (\<forall>j. posted j t = posted j s \<and> held j t = held j s + (if j = w then amt else 0))"
    using effectD(5) [OF e4 w] effectD(8,9) [OF e] by (auto simp: w sums)
qed

lemma ok_noted:
  assumes ok: "ok s" and u: "addedRow r s u" and s2: "side u t" and h: "holdOf r t = None"
  shows "ok t" "rows t = rows s @ [r]" "posted j t = posted j s" "held j t = held j s"
proof -
  have ok': "ledger_ok u" using u by (simp add: addedRow_def)
  note e = effect_side(1) [OF ok' s2, where rt = rt and i = "key r"]
  have "heldAs rt (key r) None t"
    by (rule effect_same_reservations [OF e effect_side(2) [OF ok' s2] addedRow_facts(2) [OF ok u]])
  then show "ok t" using ok_added [OF ok u e] h by simp
  show "rows t = rows s @ [r]" using rows_same [OF effectD(3) [OF e]] u by (simp add: addedRow_def)
  show "posted j t = posted j s" "held j t = held j s"
    using effectD(8,9) [OF e, of j] u posted_cong [of u s j] held_cong [of u s j] by (simp_all add: addedRow_def)
qed

text \<open>A decision: a stretch under the reference of a request, then the write of its new row.\<close>

lemma ok_settle:
  assumes ok: "ok s" and e: "effect rt (key r) d p h s u" and r: "r \<in> set (rows s)"
    and held: "heldAs rt (key r) (holdOf r' u) u" and r': "key r' = key r" "due r' = due r + d"
    and t: "sameLedger u t" "rows t = updateRows (\<lambda>x. key x = key r) (\<lambda>_. r') (rows s)"
  shows "ok t"
proof -
  note o = ok_D [OF ok] and f = effectD [OF e] and sums = sameLedger_sums [OF t(1)]
  have keys: "map key (rows t) = map key (rows s)" unfolding t(2) using r'(1) by (simp add: updateRows_def)
  have ids: "key ` set (rows t) = key ` set (rows s)" using arg_cong [OF keys, of set] by simp
  have same: "accountTxs t = accountTxs u" "accountReservations t = accountReservations u" "instruments t = instruments u"
    using t(1) by (simp_all add: sameLedger_def)
  have bk: "booked rt j t = booked rt j s + (if j = key r then d else 0)" for j
    using effect_booked [OF e] by (simp add: booked_def same)
  have old: "x = r' \<or> x \<in> set (rows s) \<and> key x \<noteq> key r" if "x \<in> set (rows t)" for x
    using that by (auto simp: t(2) set_updateRows split: if_splits)
  note q = quiet_keys [OF sameLedger_quiet [OF t(1)]]
  show ?thesis
  proof (rule ok_I)
    show "ledger_ok t" by (rule sameLedger_ok [OF t(1) f(2)])
    show "keys_ok t (map key (rows t))" unfolding keys by (rule q [OF keys_later [OF f(3,4) o(2)]])
    show "keys_ok t (map tx_id (accountTxs t))" unfolding same by (rule q [OF f(6) [OF o(3)]])
    show "tx_refId x \<in> Some ` key ` set (rows t)" if "x \<in> set (accountTxs t)" "tx_refType x = rt" for x
      using effect_entries [OF e, of x] that o(4) r unfolding same ids by auto
    show "booked rt (key x) t = due x" if "x \<in> set (rows t)" for x
      using old [OF that] o(5) [OF r] o(5) [of x] r' by (auto simp: bk)
    show "heldAs rt (key x) (holdOf x t) t" if x: "x \<in> set (rows t)" for x
    proof -
      have move: "heldAs rt i y t" if "heldAs rt i y u" for i y
        by (rule heldAs_cong [OF reservationsUnder_cong [OF same(2)] _ that]) (simp add: sums)
      show ?thesis
      proof (cases "x = r'")
        case False
        then have x': "x \<in> set (rows s)" "key x \<noteq> key r" using old [OF x] by auto
        then have "heldAs rt (key x) (holdOf x s) u" by (intro effect_heldAs_other [OF e _ o(6)]) simp_all
        then show ?thesis using move holdOf_same [of t s x] same(3) sameRows_sel(3) [OF f(3)] by simp
      qed (use move [OF held] r' holdOf_same [of t u r'] same(3) in simp)
    qed
    show "ar_refId v \<in> key ` set (rows t)" if v: "v \<in> set (accountReservations t)" "ar_refType v = rt" for v
    proof (cases "ar_refId v = key r")
      case False
      then obtain x where "x \<in> set (accountReservations s)" "ar_refType x = rt" "ar_refId x = ar_refId v"
        using effect_reservation [OF e, of v] v same(2) by auto
      with o(7) [of x] show ?thesis unfolding ids by simp
    qed (use r ids in simp)
  qed
qed

text \<open>What the invariant says of one request.\<close>

lemma ok_request:
  assumes "ok s" and "r \<in> set (rows s)"
  shows "ledger_ok s" "booked rt (key r) s = due r"
    "heldUnder rt (key r) s = (case holdOf r s of Some (AccountReservationStatus.RESERVED, amt, u, c) \<Rightarrow> amt | _ \<Rightarrow> 0)"
  using ok_D [OF assms(1)] assms(2) heldAs_heldUnder by auto

end

end
