(* ===== verification/Deposits.thy ===== *)
theory Deposits
  imports Books
begin

text \<open>
  \<open>modules/deposits/deposits.service.ts\<close> and \<open>modules/gold/gold.service.ts\<close>: the requests that bring
  money and gold in. A deposit is created, approved (the wallet is credited), rejected, or cancelled,
  which reverses the credit of an approved one; a gold lot credits the client and the house.
\<close>

section \<open>Deposits\<close>

definition findDeposit :: "id \<Rightarrow> db \<Rightarrow> depositRequest option" where
  "findDeposit i s = findFirst (\<lambda>d. dp_id d = i) (depositRequests s)"

text \<open>\<open>depositRequest.update\<close>: the new row, stamped with the time of the update.\<close>

definition updateDeposit :: "depositRequest \<Rightarrow> db \<Rightarrow> depositRequest tx" where
  "updateDeposit d s =
     (let d' = d\<lparr>dp_updatedAt := db_now s\<rparr>
      in Inr (d', s\<lparr>depositRequests := updateRows (\<lambda>x. dp_id x = dp_id d) (\<lambda>_. d') (depositRequests s)\<rparr>))"

record createDepositDto =
  cd_amount :: decimal
  cd_method :: string
  cd_purpose :: "RequestPurpose option"
  cd_refNo :: "string option"
  cd_note :: "string option"
  cd_fileIds :: "id list option"

definition createDepositForUser :: "actor \<Rightarrow> createDepositDto \<Rightarrow> db \<Rightarrow> depositRequest tx" where
  "createDepositForUser actor dto s =
     (let purpose = withDefault (cd_purpose dto) RequestPurpose.DIRECT;
          status = (if purpose = RequestPurpose.P2P then DepositStatus.WAITING_ASSIGNMENT else DepositStatus.PENDING);
          deposit = \<lparr>dp_id = freshId s, dp_createdAt = db_now s, dp_updatedAt = db_now s, dp_userId = act_id actor,
            dp_amount = cd_amount dto, dp_method = cd_method dto, dp_status = status, dp_purpose = purpose,
            dp_remainingAmount = (if purpose = RequestPurpose.P2P then Some (cd_amount dto) else None),
            dp_assignedAmountTotal = 0, dp_settledAmountTotal = 0, dp_refNo = cd_refNo dto, dp_note = cd_note dto,
            dp_processedAt = None, dp_processedById = None, dp_accountTxId = None\<rparr>
      in bindE (createAttachmentsForActor actor (cd_fileIds dto) AttachmentEntityType.DEPOSIT (dp_id deposit)
            ((bumpId s)\<lparr>depositRequests := depositRequests s @ [deposit]\<rparr>)) (\<lambda>_ s. Inr (deposit, s)))"

definition approveDepositTx :: "string option \<Rightarrow> id \<Rightarrow> id \<Rightarrow> db \<Rightarrow> depositRequest tx" where
  "approveDepositTx note adminId i s =
     (case findDeposit i s of
        None \<Rightarrow> Inl (NotFoundException ''Deposit not found'')
      | Some deposit \<Rightarrow>
          (if truthy (dp_accountTxId deposit) then Inr (deposit, s)
           else if dp_status deposit \<noteq> DepositStatus.PENDING \<and>
                   \<not> (dp_status deposit = DepositStatus.APPROVED \<and> dp_accountTxId deposit = None)
             then Inl (BadRequestException ''Deposit already processed'')
           else bindE (getOrCreateAccount (dp_userId deposit) IRR_INSTRUMENT_CODE s) (\<lambda>account s.
                bindE (applyTransaction (ac_id account) (dp_amount deposit) AccountTxType.DEPOSIT TxRefType.DEPOSIT
                         (Some (dp_id deposit)) (Some adminId) None s) (\<lambda>txResult s.
                updateDeposit
                  (deposit\<lparr>dp_status := DepositStatus.APPROVED,
                           dp_processedAt := Some (withDefault (dp_processedAt deposit) (db_now s)),
                           dp_processedById := orElse (dp_processedById deposit) (Some adminId),
                           dp_note := orElse note (dp_note deposit),
                           dp_accountTxId := Some (tx_id (fst txResult))\<rparr>) s))))"

definition enqueueTahesabCashInForDeposit :: "tahesabConfig \<Rightarrow> depositRequest \<Rightarrow> db \<Rightarrow> unit tx" where
  "enqueueTahesabCashInForDeposit cfg deposit s =
     (if dp_status deposit \<noteq> DepositStatus.APPROVED then Inr ((), s)
      else if \<not> isEnabled cfg then Inr ((), s)
      else let moshtariCode = getCustomerCode (findUser (dp_userId deposit) s)
      in if \<not> truthy moshtariCode then Inr ((), s)
      else let methodLabel = toLowerCase (dp_method deposit);
               useBankVoucher = (hasSubstring methodLabel ''bank'' \<or> hasSubstring methodLabel ''card'');
               accountCode = (if useBankVoucher
                 then orElse (getDefaultBankAccountCode cfg) (getDefaultCashAccountCode cfg)
                 else getDefaultCashAccountCode cfg)
      in if \<not> truthy accountCode then Inr ((), s)
      else enqueueOnce (if useBankVoucher then ''DoNewSanadVKHBank'' else ''DoNewSanadVKHVaghNaghd'')
        (SimpleVoucher \<lparr>sv_sabteKolOrMovaghat = Kol, sv_moshtariCode = the moshtariCode,
           sv_factorNumber = dp_id deposit,
           sv_date = tc_shamsi cfg (withDefault (dp_processedAt deposit) (dp_updatedAt deposit)),
           sv_mablagh = dp_amount deposit,
           sv_sharh = getDescriptionPrefix cfg @ '' Deposit '' @ dp_id deposit,
           sv_factorCode = the accountCode\<rparr>) (dp_id deposit) s)"

definition approveDeposit :: "tahesabConfig \<Rightarrow> id \<Rightarrow> string option \<Rightarrow> id \<Rightarrow> db \<Rightarrow> depositRequest tx" where
  "approveDeposit cfg i note adminId s =
     bindE (approveDepositTx note adminId i s) (\<lambda>updated s.
     bindE (enqueueTahesabCashInForDeposit cfg updated s) (\<lambda>_ s. Inr (updated, s)))"

definition rejectDeposit :: "string option \<Rightarrow> id \<Rightarrow> id \<Rightarrow> db \<Rightarrow> depositRequest tx" where
  "rejectDeposit note adminId i s =
     (case findDeposit i s of
        None \<Rightarrow> Inl (NotFoundException ''Deposit not found'')
      | Some deposit \<Rightarrow>
          (if dp_status deposit \<noteq> DepositStatus.PENDING
             then Inl (BadRequestException ''Deposit already processed'')
           else updateDeposit
                  (deposit\<lparr>dp_status := DepositStatus.REJECTED, dp_processedAt := Some (db_now s),
                           dp_processedById := Some adminId, dp_note := orElse note (dp_note deposit)\<rparr>) s))"

definition enqueueTahesabDeletionForDeposit :: "id \<Rightarrow> db \<Rightarrow> unit tx" where
  "enqueueTahesabDeletionForDeposit depositId s =
     (case findFirst (\<lambda>ob. ob_correlationId ob = Some depositId \<and>
             ob_method ob \<in> set [''DoNewSanadVKHVaghNaghd'', ''DoNewSanadVKHBank''] \<and>
             ob_status ob = TahesabOutboxStatus.SUCCESS \<and> ob_tahesabFactorCode ob \<noteq> None) (tahesabOutboxes s) of
        None \<Rightarrow> Inr ((), s)
      | Some existing \<Rightarrow>
          (if truthy (ob_tahesabFactorCode existing)
             then enqueueOnce ''DoDeleteSanad'' (DeleteSanad (the (ob_tahesabFactorCode existing)))
                    (''deposit:cancel:'' @ depositId) s
           else Inr ((), s)))"

definition cancelDepositTx :: "string option \<Rightarrow> id \<Rightarrow> db \<Rightarrow> depositRequest tx" where
  "cancelDepositTx reason i s =
     (case findDeposit i s of
        None \<Rightarrow> Inl (NotFoundException ''Deposit not found'')
      | Some deposit \<Rightarrow>
          (if dp_status deposit = DepositStatus.CANCELLED \<or> dp_status deposit = DepositStatus.REVERSED
             then Inr (deposit, s)
           else if dp_status deposit = DepositStatus.PENDING \<or> dp_status deposit = DepositStatus.REJECTED
             then updateDeposit (deposit\<lparr>dp_status := DepositStatus.CANCELLED,
                                         dp_note := orElse reason (dp_note deposit)\<rparr>) s
           else if dp_status deposit = DepositStatus.APPROVED
             then bindE (case (if truthy (dp_accountTxId deposit)
                               then findFirst (\<lambda>t. Some (tx_id t) = dp_accountTxId deposit) (accountTxs s) else None) of
                           None \<Rightarrow> Inr ((), s)
                         | Some accountTx \<Rightarrow>
                             bindE (applyTransaction (tx_accountId accountTx) (- dp_amount deposit)
                                      AccountTxType.ADJUSTMENT TxRefType.DEPOSIT (Some (dp_id deposit)) None None s)
                               (\<lambda>_ s. Inr ((), s)))
                    (\<lambda>_ s. updateDeposit (deposit\<lparr>dp_status := DepositStatus.REVERSED,
                                                  dp_note := orElse reason (dp_note deposit)\<rparr>) s)
           else Inr (deposit, s)))"

definition cancelDeposit :: "id \<Rightarrow> string option \<Rightarrow> db \<Rightarrow> depositRequest tx" where
  "cancelDeposit depositId reason s =
     bindE (cancelDepositTx reason depositId s) (\<lambda>updated s.
     bindE (enqueueTahesabDeletionForDeposit (dp_id updated) s) (\<lambda>_ s. Inr (updated, s)))"

definition compareDepositsDesc :: "depositRequest \<Rightarrow> depositRequest \<Rightarrow> int" where
  "compareDepositsDesc a b = dp_createdAt b - dp_createdAt a"

definition findMyDeposits :: "id \<Rightarrow> db \<Rightarrow> depositRequest list" where
  "findMyDeposits userId s =
     sortBy compareDepositsDesc (findMany (\<lambda>d. dp_userId d = userId) (depositRequests s))"

section \<open>Gold lots\<close>

record createGoldLotDto =
  cg_userId :: id
  cg_grossWeight :: decimal
  cg_karat :: int
  cg_note :: "string option"
  cg_fileIds :: "id list option"

definition createLot :: "createGoldLotDto \<Rightarrow> actor \<Rightarrow> db \<Rightarrow> goldLot tx" where
  "createLot dto actor s =
     (let equivGram750 = cg_grossWeight dto * of_int (cg_karat dto) / 1000 / (75 / 100)
      in if findInstrument GOLD_750_INSTRUMENT_CODE s = None
           then Inl (NotFoundException (''Instrument '' @ GOLD_750_INSTRUMENT_CODE @ '' not found''))
         else
           let lot = \<lparr>gl_id = freshId s, gl_userId = cg_userId dto, gl_grossWeight = cg_grossWeight dto,
                      gl_karat = cg_karat dto, gl_equivGram750 = equivGram750, gl_status = GoldLotStatus.IN_VAULT,
                      gl_note = cg_note dto\<rparr>
           in bindE (createAttachmentsForActor actor (cg_fileIds dto) AttachmentEntityType.GOLD_LOT (gl_id lot)
                       ((bumpId s)\<lparr>goldLots := goldLots s @ [lot]\<rparr>)) (\<lambda>_ s.
              bindE (getOrCreateAccount (cg_userId dto) GOLD_750_INSTRUMENT_CODE s) (\<lambda>userGold s.
              bindE (getOrCreateAccount HOUSE_USER_ID GOLD_750_INSTRUMENT_CODE s) (\<lambda>houseGold s.
              bindE (applyTransaction (ac_id userGold) equivGram750 AccountTxType.ADJUSTMENT TxRefType.GOLD_LOT
                       (Some (gl_id lot)) None None s) (\<lambda>_ s.
              bindE (applyTransaction (ac_id houseGold) equivGram750 AccountTxType.ADJUSTMENT TxRefType.GOLD_LOT
                       (Some (gl_id lot)) None None s) (\<lambda>_ s.
              Inr (lot, s)))))))"

section \<open>Lemmas\<close>

definition depositDue :: "depositRequest \<Rightarrow> decimal" where
  "depositDue d = (if dp_status d = DepositStatus.APPROVED then dp_amount d else 0)"

definition depositOpen :: "depositRequest \<Rightarrow> bool" where
  "depositOpen d \<longleftrightarrow> dp_status d = DepositStatus.PENDING \<or>
     dp_status d = DepositStatus.APPROVED \<and> dp_accountTxId d = None"

interpretation depositBooks: request_books depositRequests dp_id TxRefType.DEPOSIT depositDue
  by unfold_locales (simp_all add: walletFrame_sel side_sel)

lemma findDeposit_SomeD: "findDeposit i s = Some d \<Longrightarrow> d \<in> set (depositRequests s) \<and> dp_id d = i"
  unfolding findDeposit_def by (rule find_SomeD)

lemma findDeposit_cong: "depositRequests t = depositRequests s \<Longrightarrow> findDeposit i t = findDeposit i s"
  by (simp add: findDeposit_def)

lemma updateDeposit_result:
  assumes "updateDeposit d s = Inr (r, t)" and "findDeposit (dp_id d) s \<noteq> None"
  shows "r = d\<lparr>dp_updatedAt := db_now s\<rparr>" "findDeposit (dp_id d) t = Some r" "sameLedger s t"
    "depositRequests t = updateRows (\<lambda>x. dp_id x = dp_id d) (\<lambda>_. r) (depositRequests s)"
  using assms by (auto simp: updateDeposit_def Let_def findDeposit_def sameLedger_def find_replace)

text \<open>The three outcomes of an approval and of a cancellation.\<close>

lemma approveDepositTx_cases:
  assumes "approveDepositTx note admin i s = Inr (d, t)"
  obtains (same) "findDeposit i s = Some d" "truthy (dp_accountTxId d)" "t = s"
  | (credit) d0 a s1 x b s2 where "findDeposit i s = Some d0" "depositOpen d0" "\<not> truthy (dp_accountTxId d0)"
      "getOrCreateAccount (dp_userId d0) IRR_INSTRUMENT_CODE s = Inr (a, s1)"
      "applyTransaction (ac_id a) (dp_amount d0) AccountTxType.DEPOSIT TxRefType.DEPOSIT (Some (dp_id d0))
         (Some admin) None s1 = Inr ((x, b), s2)"
      "updateDeposit (d0\<lparr>dp_status := DepositStatus.APPROVED,
         dp_processedAt := Some (withDefault (dp_processedAt d0) (db_now s2)),
         dp_processedById := orElse (dp_processedById d0) (Some admin),
         dp_note := orElse note (dp_note d0), dp_accountTxId := Some (tx_id x)\<rparr>) s2 = Inr (d, t)"
  using assms
  by (auto simp: approveDepositTx_def bindE_Inr_iff depositOpen_def split: option.splits if_splits)

lemma rejectDeposit_cases:
  assumes "rejectDeposit note admin i s = Inr (d, t)"
  obtains d0 where "findDeposit i s = Some d0" "dp_status d0 = DepositStatus.PENDING"
    "updateDeposit (d0\<lparr>dp_status := DepositStatus.REJECTED, dp_processedAt := Some (db_now s),
       dp_processedById := Some admin, dp_note := orElse note (dp_note d0)\<rparr>) s = Inr (d, t)"
  using assms by (auto simp: rejectDeposit_def split: option.splits if_splits)

lemma cancelDepositTx_cases:
  assumes "cancelDepositTx reason i s = Inr (d, t)"
  obtains (same) "findDeposit i s = Some d" "t = s" "dp_status d \<noteq> DepositStatus.APPROVED"
  | (cancelled) d0 where "findDeposit i s = Some d0" "dp_status d0 \<in> {DepositStatus.PENDING, DepositStatus.REJECTED}"
      "updateDeposit (d0\<lparr>dp_status := DepositStatus.CANCELLED, dp_note := orElse reason (dp_note d0)\<rparr>) s = Inr (d, t)"
  | (unposted) d0 where "findDeposit i s = Some d0" "dp_status d0 = DepositStatus.APPROVED"
      "\<not> truthy (dp_accountTxId d0) \<or> (\<forall>x\<in>set (accountTxs s). Some (tx_id x) \<noteq> dp_accountTxId d0)"
      "updateDeposit (d0\<lparr>dp_status := DepositStatus.REVERSED, dp_note := orElse reason (dp_note d0)\<rparr>) s = Inr (d, t)"
  | (reversed) d0 x q s1 where "findDeposit i s = Some d0" "dp_status d0 = DepositStatus.APPROVED"
      "findFirst (\<lambda>x. Some (tx_id x) = dp_accountTxId d0) (accountTxs s) = Some x"
      "applyTransaction (tx_accountId x) (- dp_amount d0) AccountTxType.ADJUSTMENT TxRefType.DEPOSIT
         (Some (dp_id d0)) None None s = Inr (q, s1)"
      "updateDeposit (d0\<lparr>dp_status := DepositStatus.REVERSED, dp_note := orElse reason (dp_note d0)\<rparr>) s1 = Inr (d, t)"
  using assms
  by (auto simp: cancelDepositTx_def bindE_Inr_iff find_None_iff split: option.splits if_splits)

text \<open>Approval and rejection are decisions: they close an open deposit, once.\<close>

lemma approveDepositTx_closes:
  assumes "approveDepositTx note admin i s = Inr (d, t)"
  shows "findDeposit i t = Some d \<and> (t = s \<or> \<not> depositOpen d)"
  using assms
proof (cases rule: approveDepositTx_cases)
  case (credit d0 a s1 x b s2)
  have rows: "depositRequests s2 = depositRequests s"
    using getOrCreateAccount_effect(6) [OF credit(4)] applyTransaction_effect(8) [OF credit(5)]
    by (simp add: walletFrame_sel)
  have i: "dp_id d0 = i" using findDeposit_SomeD [OF credit(1)] by simp
  note upd = updateDeposit_result [OF credit(6)]
  show ?thesis using upd(1,2) credit(1) i by (simp add: findDeposit_cong [OF rows] depositOpen_def)
qed simp

lemma rejectDeposit_closes:
  assumes "rejectDeposit note admin i s = Inr (d, t)"
  shows "findDeposit i t = Some d \<and> (t = s \<or> \<not> depositOpen d)"
  using assms
proof (cases rule: rejectDeposit_cases)
  case (1 d0)
  have i: "dp_id d0 = i" using findDeposit_SomeD [OF 1(1)] by simp
  show ?thesis using updateDeposit_result(1,2) [OF 1(3)] 1(1) i by (simp add: depositOpen_def)
qed

interpretation depositDecision: decision_pair findDeposit depositOpen
    "approveDepositTx nt admin" "rejectDeposit nt' admin'" for nt admin nt' admin'
proof unfold_locales
  show "findDeposit i t = Some r \<and> (t = s \<or> \<not> depositOpen r)"
    if "approveDepositTx nt admin i s = Inr (r, t)" for i s r t
    by (rule approveDepositTx_closes [OF that])
  show "r' = r \<and> t = s"
    if "findDeposit i s = Some r" "\<not> depositOpen r" "approveDepositTx nt admin i s = Inr (r', t)" for i s r r' t
    using that by (auto simp: approveDepositTx_def depositOpen_def split: if_splits)
  show "findDeposit i t = Some r \<and> (t = s \<or> \<not> depositOpen r)"
    if "rejectDeposit nt' admin' i s = Inr (r, t)" for i s r t
    by (rule rejectDeposit_closes [OF that])
  show "r' = r \<and> t = s"
    if "findDeposit i s = Some r" "\<not> depositOpen r" "rejectDeposit nt' admin' i s = Inr (r', t)" for i s r r' t
    using that by (auto simp: rejectDeposit_def depositOpen_def split: if_splits)
qed

lemma approveDepositTx_effect:
  assumes "approveDepositTx nt admin i s = Inr (d, t)" and "findDeposit i s = Some d0"
    and "\<not> truthy (dp_accountTxId d0)"
  obtains w x s1 s2 where "walletId (dp_userId d0) IRR_INSTRUMENT_CODE t = Some w"
    "\<forall>j. posted j t = posted j s + (if j = w then dp_amount d0 else 0)" "\<forall>j. held j t = held j s"
    "d = d0\<lparr>dp_updatedAt := db_now s, dp_status := DepositStatus.APPROVED,
          dp_processedAt := Some (withDefault (dp_processedAt d0) (db_now s)),
          dp_processedById := orElse (dp_processedById d0) (Some admin),
          dp_note := orElse nt (dp_note d0), dp_accountTxId := Some (tx_id x)\<rparr>"
    "accountTxs t = accountTxs s @ [x]" "tx_accountId x = w" "tx_id x = freshId s1"
    "quiet s s1" "posting TxRefType.DEPOSIT i (dp_amount d0) s1 s2" "quiet s2 t"
    "depositRequests s1 = depositRequests s"
    "depositRequests t = updateRows (\<lambda>y. dp_id y = i) (\<lambda>_. d) (depositRequests s)"
    "ledger_ok s \<longrightarrow> ledger_ok t"
  using assms(1)
proof (cases rule: approveDepositTx_cases)
  case same
  then show ?thesis using assms by simp
next
  case (credit d0' a s1 x b s2)
  then have d0: "d0' = d0" using assms(2) by simp
  note acc = getOrCreateAccount_effect [OF credit(4)] and app = applyTransaction_effect [OF credit(5)]
  have fr: "walletFrame s s2" using acc(6) app(8) by (rule walletFrame_trans)
  have i: "dp_id d0 = i" using findDeposit_SomeD [OF assms(2)] by simp
  note upd = updateDeposit_result [OF credit(6)]
  have found: "findDeposit i s2 = Some d0" using assms(2) by (simp add: findDeposit_def walletFrame_sel(10) [OF fr])
  with i d0 have ex: "findDeposit (dp_id (d0'\<lparr>dp_status := DepositStatus.APPROVED,
         dp_processedAt := Some (withDefault (dp_processedAt d0') (db_now s2)),
         dp_processedById := orElse (dp_processedById d0') (Some admin),
         dp_note := orElse nt (dp_note d0'), dp_accountTxId := Some (tx_id x)\<rparr>)) s2 \<noteq> None" by simp
  note sums = sameLedger_sums [OF upd(3) [OF ex]]
  show ?thesis
  proof (rule that [of "ac_id a" x s1 s2])
    show "walletId (dp_userId d0) IRR_INSTRUMENT_CODE t = Some (ac_id a)"
      using walletFrame_walletId [OF app(8) acc(3)] by (simp add: sums d0)
    show "\<forall>j. posted j t = posted j s + (if j = ac_id a then dp_amount d0 else 0)" "\<forall>j. held j t = held j s"
      by (simp_all add: sums acc app d0)
    show "accountTxs t = accountTxs s @ [x]" "tx_accountId x = ac_id a" "tx_id x = freshId s1"
      using upd(3) [OF ex] by (simp_all add: sameLedger_def acc app)
    show "quiet s s1" "quiet s2 t"
      using quiet_getOrCreate [OF credit(4)] sameLedger_quiet [OF upd(3) [OF ex]] by simp_all
    show "posting TxRefType.DEPOSIT i (dp_amount d0) s1 s2" using posting_apply [OF credit(5)] i d0 by simp
    show "depositRequests s1 = depositRequests s" using walletFrame_sel(10) [OF acc(6)] .
    show "depositRequests t = updateRows (\<lambda>y. dp_id y = i) (\<lambda>_. d) (depositRequests s)"
      using upd(4) [OF ex] i d0 by (simp add: walletFrame_sel(10) [OF fr])
    show "ledger_ok s \<longrightarrow> ledger_ok t"
      using sameLedger_ok [OF upd(3) [OF ex]] holdsE_D [OF ledger.getAcc_inv credit(4)]
        holdsE_D [OF ledger.post_inv credit(5)] by blast
  qed (use upd(1) [OF ex] d0 walletFrame_sel(2) [OF fr] in simp)
qed

section \<open>The books of the deposits\<close>

text \<open>
  Soundness of the deposit table: what stands posted under a deposit is what is due for its status,
  and an approved deposit names the entry that credited it. A run is any sequence of successful
  requests and decisions on any deposits, with the clock moving in between.
\<close>

definition deposits_ok :: "db \<Rightarrow> bool" where
  "deposits_ok s \<longleftrightarrow> ledger_ok s \<and> books_ok depositRequests dp_id TxRefType.DEPOSIT depositDue s \<and>
     (\<forall>n. db_gen s n \<noteq> []) \<and>
     (\<forall>d\<in>set (depositRequests s). dp_status d = DepositStatus.APPROVED \<longrightarrow>
        dp_accountTxId d \<in> Some ` tx_id ` set (accountTxs s))"

inductive depositRun :: "db \<Rightarrow> db \<Rightarrow> bool" where
  dr_start: "depositRun s s"
| dr_clock: "depositRun s t \<Longrightarrow> depositRun s (t\<lparr>db_now := n\<rparr>)"
| dr_create: "depositRun s t \<Longrightarrow> createDepositForUser actor dto t = Inr (d, t') \<Longrightarrow> depositRun s t'"
| dr_approve: "depositRun s t \<Longrightarrow> approveDeposit cfg i nt admin t = Inr (d, t') \<Longrightarrow> depositRun s t'"
| dr_reject: "depositRun s t \<Longrightarrow> rejectDeposit nt admin i t = Inr (d, t') \<Longrightarrow> depositRun s t'"
| dr_cancel: "depositRun s t \<Longrightarrow> cancelDeposit i reason t = Inr (d, t') \<Longrightarrow> depositRun s t'"

lemma deposits_okD:
  assumes "deposits_ok s"
  shows "ledger_ok s" "books_ok depositRequests dp_id TxRefType.DEPOSIT depositDue s" "\<And>n. db_gen s n \<noteq> []"
    "\<And>d. d \<in> set (depositRequests s) \<Longrightarrow> dp_status d = DepositStatus.APPROVED \<Longrightarrow>
       dp_accountTxId d \<in> Some ` tx_id ` set (accountTxs s)"
  using assms by (auto simp: deposits_ok_def)

lemma deposits_ok_quiet:
  assumes "deposits_ok s" and "quiet s t" and "ledger_ok t" and "depositRequests t = depositRequests s"
  shows "deposits_ok t"
  using assms depositBooks.books_quiet [OF deposits_okD(2) [OF assms(1)] assms(2,4)]
  by (simp add: deposits_ok_def) (simp add: quiet_def)

lemma deposits_ok_side: "deposits_ok s \<Longrightarrow> side s t \<Longrightarrow> deposits_ok t"
  using sameLedger_ok [OF side_ledger, of s t] sameLedger_quiet [OF side_ledger, of s t] side_sel(9) [of s t]
  by (blast intro: deposits_ok_quiet deposits_okD(1))

text \<open>Replacing a row by one with nothing due before and after.\<close>

lemma deposits_ok_replace:
  assumes ok: "deposits_ok s" and d: "findDeposit i s = Some d" and due: "depositDue d = depositDue d'"
    and d': "dp_id d' = i" "dp_status d' \<noteq> DepositStatus.APPROVED"
    and upd: "updateDeposit d' s = Inr (r, t)"
  shows "deposits_ok t"
proof -
  have mem: "d \<in> set (depositRequests s)" "dp_id d = i" using findDeposit_SomeD [OF d] by auto
  have "findDeposit (dp_id d') s \<noteq> None" using d d' by simp
  note u = updateDeposit_result [OF upd this]
  have "books_ok depositRequests dp_id TxRefType.DEPOSIT depositDue t"
    by (rule depositBooks.books_replace [OF deposits_okD(2) [OF ok] sameLedger_quiet [OF u(3)] mem(1), of r])
      (use u mem d' due in \<open>simp_all add: depositDue_def\<close>)
  moreover have "dp_accountTxId y \<in> Some ` tx_id ` set (accountTxs t)"
    if "y \<in> set (depositRequests t)" "dp_status y = DepositStatus.APPROVED" for y
    using that u d' deposits_okD(4) [OF ok, of y]
    by (auto simp: set_updateRows sameLedger_def split: if_splits)
  ultimately show ?thesis
    using sameLedger_ok [OF u(3) deposits_okD(1) [OF ok]] deposits_okD(3) [OF ok] u(3)
    by (simp add: deposits_ok_def sameLedger_def)
qed

lemma deposits_ok_new:
  assumes ok: "deposits_ok s" and d: "dp_id d = freshId s" "dp_status d \<noteq> DepositStatus.APPROVED"
  shows "deposits_ok ((bumpId s)\<lparr>depositRequests := depositRequests s @ [d]\<rparr>)" (is "deposits_ok ?t")
proof -
  have "books_ok depositRequests dp_id TxRefType.DEPOSIT depositDue ?t"
    by (rule depositBooks.books_new [OF deposits_okD(2) [OF ok], of d]) (use d in \<open>simp_all add: depositDue_def bumpId_def\<close>)
  moreover have "ledger_ok ?t" using ledger_ok_bump [OF deposits_okD(1) [OF ok]] by simp
  ultimately show ?thesis using deposits_okD(3,4) [OF ok] d by (auto simp: deposits_ok_def)
qed

lemma deposits_ok_create:
  assumes "deposits_ok s"
  shows "holdsE (\<lambda>_. deposits_ok) (createDepositForUser actor dto s)"
  unfolding createDepositForUser_def Let_def
  by (rule holdsE_bind [OF side_createAttachments]) (auto intro!: deposits_ok_side [OF deposits_ok_new [OF assms]] split: if_splits)

lemma deposits_ok_pending:
  assumes ok: "deposits_ok s" and d: "findDeposit i s = Some d" "depositOpen d" "\<not> truthy (dp_accountTxId d)"
  shows "dp_status d = DepositStatus.PENDING"
proof (rule ccontr)
  assume "dp_status d \<noteq> DepositStatus.PENDING"
  with d have "dp_accountTxId d = None" "dp_status d = DepositStatus.APPROVED" by (auto simp: depositOpen_def)
  with deposits_okD(4) [OF ok, of d] findDeposit_SomeD [OF d(1)] show False by auto
qed

lemma deposits_ok_approve:
  assumes ok: "deposits_ok s"
  shows "holdsE (\<lambda>_. deposits_ok) (approveDepositTx nt admin i s)"
  unfolding holdsE_def
proof (intro allI impI)
  fix d t assume run: "approveDepositTx nt admin i s = Inr (d, t)"
  then show "deposits_ok t"
  proof (cases rule: approveDepositTx_cases)
    case same
    then show ?thesis using ok by simp
  next
    case (credit d0)
    have pend: "dp_status d0 = DepositStatus.PENDING"
      by (rule deposits_ok_pending [OF ok credit(1-3)])
    have mem: "d0 \<in> set (depositRequests s)" "dp_id d0 = i" using findDeposit_SomeD [OF credit(1)] by auto
    obtain w x s1 s2 where e: "d = d0\<lparr>dp_updatedAt := db_now s, dp_status := DepositStatus.APPROVED,
          dp_processedAt := Some (withDefault (dp_processedAt d0) (db_now s)),
          dp_processedById := orElse (dp_processedById d0) (Some admin),
          dp_note := orElse nt (dp_note d0), dp_accountTxId := Some (tx_id x)\<rparr>"
      "accountTxs t = accountTxs s @ [x]" "quiet s s1" "posting TxRefType.DEPOSIT i (dp_amount d0) s1 s2"
      "quiet s2 t" "depositRequests s1 = depositRequests s"
      "depositRequests t = updateRows (\<lambda>y. dp_id y = i) (\<lambda>_. d) (depositRequests s)" "ledger_ok s \<longrightarrow> ledger_ok t"
      by (rule approveDepositTx_effect [OF run credit(1,3)])
    have "books_ok depositRequests dp_id TxRefType.DEPOSIT depositDue s1"
      by (rule depositBooks.books_quiet [OF deposits_okD(2) [OF ok] e(3,6)])
    then have "books_ok depositRequests dp_id TxRefType.DEPOSIT depositDue t"
      by (rule depositBooks.books_posting [where r = d0 and r' = d and d = "dp_amount d0" and t = s2])
        (use e mem pend in \<open>simp_all add: depositDue_def\<close>)
    moreover have "dp_accountTxId y \<in> Some ` tx_id ` set (accountTxs t)"
      if "y \<in> set (depositRequests t)" "dp_status y = DepositStatus.APPROVED" for y
      using that e deposits_okD(4) [OF ok, of y] by (auto simp: set_updateRows split: if_splits)
    moreover have "db_gen t = db_gen s" using e(3-5) by (simp add: quiet_def posting_def)
    ultimately show ?thesis using e(8) deposits_okD(1,3) [OF ok] by (simp add: deposits_ok_def)
  qed
qed

lemma deposits_ok_reject:
  assumes ok: "deposits_ok s"
  shows "holdsE (\<lambda>_. deposits_ok) (rejectDeposit nt admin i s)"
  unfolding holdsE_def
proof (intro allI impI)
  fix d t assume "rejectDeposit nt admin i s = Inr (d, t)"
  then show "deposits_ok t"
    by (cases rule: rejectDeposit_cases, elim deposits_ok_replace [OF ok, rotated -1])
      (auto simp: depositDue_def dest: findDeposit_SomeD)
qed

text \<open>A row whose status changes with one posting under it.\<close>

lemma deposits_ok_reversal:
  assumes ok: "deposits_ok s" and d: "findDeposit i s = Some d" "dp_status d = DepositStatus.APPROVED"
    and app: "applyTransaction k (- dp_amount d) ty TxRefType.DEPOSIT (Some i) None None s = Inr (q, s1)"
    and upd: "updateDeposit (d\<lparr>dp_status := DepositStatus.REVERSED, dp_note := nt\<rparr>) s1 = Inr (r, t)"
  shows "deposits_ok t"
proof -
  have mem: "d \<in> set (depositRequests s)" "dp_id d = i" using findDeposit_SomeD [OF d(1)] by auto
  have fr: "walletFrame s s1" using holdsE_D [OF applyTransaction_frame app] .
  have "findDeposit (dp_id (d\<lparr>dp_status := DepositStatus.REVERSED, dp_note := nt\<rparr>)) s1 \<noteq> None"
    using d mem by (simp add: findDeposit_def walletFrame_sel(10) [OF fr])
  note u = updateDeposit_result [OF upd this]
  note post = posting_apply [OF app]
  have "books_ok depositRequests dp_id TxRefType.DEPOSIT depositDue t"
    by (rule depositBooks.books_posting [OF deposits_okD(2) [OF ok], where r = d and r' = r and d = "- dp_amount d" and t = s1])
      (use u mem d post sameLedger_quiet [OF u(3)] in \<open>simp_all add: depositDue_def walletFrame_sel(10) [OF fr]\<close>)
  moreover have "dp_accountTxId y \<in> Some ` tx_id ` set (accountTxs t)"
    if "y \<in> set (depositRequests t)" "dp_status y = DepositStatus.APPROVED" for y
    using that u mem deposits_okD(4) [OF ok, of y] post
    by (auto simp: set_updateRows sameLedger_def posting_def walletFrame_sel(10) [OF fr] split: if_splits)
  moreover have "ledger_ok t"
    by (rule sameLedger_ok [OF u(3) holdsE_D [OF ledger.post_inv app]]) (rule deposits_okD(1) [OF ok])
  moreover have "db_gen t = db_gen s" using u(3) post by (simp add: sameLedger_def posting_def)
  ultimately show ?thesis using deposits_okD(3) [OF ok] by (simp add: deposits_ok_def)
qed

text \<open>In a sound table the entry of an approved deposit is there to be reversed.\<close>

lemma deposits_ok_entry:
  assumes ok: "deposits_ok s" and d: "findDeposit i s = Some d" "dp_status d = DepositStatus.APPROVED"
  shows "truthy (dp_accountTxId d) \<and> (\<exists>x\<in>set (accountTxs s). Some (tx_id x) = dp_accountTxId d)"
proof -
  obtain x where x: "x \<in> set (accountTxs s)" "dp_accountTxId d = Some (tx_id x)"
    using deposits_okD(4) [OF ok, of d] d findDeposit_SomeD [OF d(1)] by auto
  then have "tx_id x \<in> range (db_gen s)"
    using depositBooks.books_D(2) [OF deposits_okD(2) [OF ok]] by (auto simp: keys_ok_def)
  then have "tx_id x \<noteq> []" using deposits_okD(3) [OF ok] by (metis rangeE)
  with x show ?thesis by auto
qed

lemma deposits_ok_cancel:
  assumes ok: "deposits_ok s"
  shows "holdsE (\<lambda>_. deposits_ok) (cancelDepositTx reason i s)"
  unfolding holdsE_def
proof (intro allI impI)
  fix d t assume "cancelDepositTx reason i s = Inr (d, t)"
  then show "deposits_ok t"
  proof (cases rule: cancelDepositTx_cases)
    case same
    then show ?thesis using ok by simp
  next
    case (cancelled d0)
    then show ?thesis
      by (elim deposits_ok_replace [OF ok, rotated -1]) (auto simp: depositDue_def dest: findDeposit_SomeD)
  next
    case (unposted d0)
    then show ?thesis using deposits_ok_entry [OF ok] by auto
  next
    case (reversed d0 x q s1)
    then have "dp_id d0 = i" using findDeposit_SomeD by blast
    with reversed show ?thesis by (intro deposits_ok_reversal [OF ok]) auto
  qed
qed

lemma side_cashIn: "holdsE (\<lambda>_. side s) (enqueueTahesabCashInForDeposit cfg d s)"
  by (auto simp: enqueueTahesabCashInForDeposit_def Let_def intro: side_enqueueOnce)

lemma side_depositDeletion: "holdsE (\<lambda>_. side s) (enqueueTahesabDeletionForDeposit i s)"
  by (auto simp: enqueueTahesabDeletionForDeposit_def split: option.split intro: side_enqueueOnce)

lemma depositRun_ok: "depositRun s t \<Longrightarrow> deposits_ok s \<Longrightarrow> deposits_ok t"
proof (induction rule: depositRun.induct)
  case (dr_clock s t n)
  then have ok: "deposits_ok t" by blast
  show ?case by (rule deposits_ok_quiet [OF ok]) (use deposits_okD(1) [OF ok] in \<open>simp_all add: quiet_def\<close>)
next
  case (dr_create s t actor dto d t')
  then show ?case using holdsE_D [OF deposits_ok_create] by blast
next
  case (dr_approve s t cfg i nt admin d t')
  have "holdsE (\<lambda>_. deposits_ok) (approveDeposit cfg i nt admin t)"
    unfolding approveDeposit_def
    by (rule holdsE_bind [OF deposits_ok_approve [OF dr_approve.IH [OF dr_approve.prems]]],
        rule holdsE_bind [OF side_cashIn]) (simp add: deposits_ok_side)
  then show ?case using dr_approve.hyps(2) by (blast dest: holdsE_D)
next
  case (dr_reject s t nt admin i d t')
  then show ?case using holdsE_D [OF deposits_ok_reject] by blast
next
  case (dr_cancel s t i reason d t')
  have "holdsE (\<lambda>_. deposits_ok) (cancelDeposit i reason t)"
    unfolding cancelDeposit_def
    by (rule holdsE_bind [OF deposits_ok_cancel [OF dr_cancel.IH [OF dr_cancel.prems]]],
        rule holdsE_bind [OF side_depositDeletion]) (simp add: deposits_ok_side)
  then show ?case using dr_cancel.hyps(2) by (blast dest: holdsE_D)
qed

lemma approveDeposit_split:
  assumes "approveDeposit cfg i nt admin s = Inr (d, t)"
  obtains t' where "approveDepositTx nt admin i s = Inr (d, t')" "side t' t"
    "enqueueTahesabCashInForDeposit cfg d t' = Inr ((), t)"
  using assms holdsE_D [OF side_cashIn] by (auto simp: approveDeposit_def bindE_Inr_iff)

lemma cashIn_again:
  "enqueueTahesabCashInForDeposit cfg d s = Inr (x, t) \<Longrightarrow> enqueueTahesabCashInForDeposit cfg d t = Inr ((), t)"
  by (auto simp: enqueueTahesabCashInForDeposit_def Let_def side_sel findUser_def dest: enqueueOnce_again
      split: if_splits)

text \<open>Approval and reversal succeed when the client has a rial instrument and nothing is posted yet.\<close>

definition nothingPosted :: "TxRefType \<Rightarrow> id \<Rightarrow> db \<Rightarrow> bool" where
  "nothingPosted rt i s \<longleftrightarrow> (\<forall>x\<in>set (accountTxs s). \<not> (tx_refType x = rt \<and> tx_refId x = Some i))"

lemma approveDepositTx_succeeds:
  assumes ok: "ledger_ok s" and d: "findDeposit i s = Some d0" "dp_status d0 = DepositStatus.PENDING"
      "dp_accountTxId d0 = None" "0 \<le> dp_amount d0" "dp_userId d0 \<noteq> HOUSE_USER_ID"
    and irr: "findInstrument IRR_INSTRUMENT_CODE s \<noteq> None" and new: "nothingPosted TxRefType.DEPOSIT i s"
  obtains d t b x where "approveDepositTx nt admin i s = Inr (d, t)" "ac_id b = tx_accountId x"
    "findAccount (ac_id b) t = Some b"
    "ac_blockedBalance b + ac_minBalance b \<le> ac_balance b + - dp_amount d0"
    "accountTxs t = accountTxs s @ [x]" "dp_accountTxId d = Some (tx_id x)"
    "tx_entrySide x = AccountTxEntrySide.CREDIT"
proof -
  obtain a s1 where acc: "getOrCreateAccount (dp_userId d0) IRR_INSTRUMENT_CODE s = Inr (a, s1)"
    using getOrCreateAccount_succeeds [OF d(5) irr] by blast
  have ok1: "ledger_ok s1 \<and> findAccount (ac_id a) s1 = Some a"
    using holdsE_D [OF getOrCreateAccount_keeps [OF ok] acc] .
  then have floor: "ac_blockedBalance a + ac_minBalance a \<le> ac_balance a"
    using account_found [of True s1 "ac_id a" a] by (simp add: account_ok_def)
  note e = getOrCreateAccount_effect [OF acc]
  have i: "dp_id d0 = i" using findDeposit_SomeD [OF d(1)] by simp
  let ?b = "a\<lparr>ac_balance := ac_balance a + dp_amount d0\<rparr>"
  have le: "ac_blockedBalance a + ac_minBalance a \<le> ac_balance a + dp_amount d0" using floor d(4) by simp
  have free: "tx_entrySide y \<noteq> entrySideOf (dp_amount d0)"
    if "y \<in> set (accountTxs s1)" "tx_refType y = TxRefType.DEPOSIT" "tx_refId y = Some i" "tx_accountId y = ac_id a" for y
    using that new by (simp add: e nothingPosted_def)
  from applyTransaction_succeeds [OF conjunct2 [OF ok1] le free, where ty = AccountTxType.DEPOSIT and cb = "Some admin"]
  obtain x s2 where app: "applyTransaction (ac_id a) (dp_amount d0) AccountTxType.DEPOSIT TxRefType.DEPOSIT (Some i)
      (Some admin) None s1 = Inr ((x, ?b), s2)" "tx_entrySide x = entrySideOf (dp_amount d0)"
      "findAccount (ac_id a) s2 = Some ?b" by blast
  note f = applyTransaction_effect [OF app(1)]
  let ?d = "d0\<lparr>dp_status := DepositStatus.APPROVED,
         dp_processedAt := Some (withDefault (dp_processedAt d0) (db_now s2)),
         dp_processedById := orElse (dp_processedById d0) (Some admin),
         dp_note := orElse nt (dp_note d0), dp_accountTxId := Some (tx_id x)\<rparr>"
  obtain d t where upd: "updateDeposit ?d s2 = Inr (d, t)" by (simp add: updateDeposit_def Let_def)
  have "findDeposit i s2 = Some d0"
    using d(1) by (simp add: findDeposit_def walletFrame_sel(10) [OF e(6)] walletFrame_sel(10) [OF f(8)])
  then have "findDeposit (dp_id ?d) s2 \<noteq> None" using i by simp
  note u = updateDeposit_result [OF upd this]
  have "approveDepositTx nt admin i s = Inr (d, t)"
    using d acc app(1) upd i by (simp add: approveDepositTx_def)
  then show ?thesis
  proof (rule that [of _ _ ?b x])
    show "findAccount (ac_id ?b) t = Some ?b" using app(3) by (simp add: sameLedger_sums(5) [OF u(3)])
    show "accountTxs t = accountTxs s @ [x]" using u(3) by (simp add: sameLedger_def f(6) e(4))
    show "dp_accountTxId d = Some (tx_id x)" using u(1) by simp
    show "tx_entrySide x = AccountTxEntrySide.CREDIT" using app(2) d(4) by (simp add: entrySideOf_def)
  qed (use floor f(5) in simp_all)
qed

lemma cashIn_total: "\<exists>t. enqueueTahesabCashInForDeposit cfg d s = Inr ((), t)"
  using enqueueOnce_total by (simp add: enqueueTahesabCashInForDeposit_def Let_def)

lemma depositDeletion_total: "\<exists>t. enqueueTahesabDeletionForDeposit i s = Inr ((), t)"
  using enqueueOnce_total by (simp add: enqueueTahesabDeletionForDeposit_def split: option.split)

lemma enqueueOnce_cases:
  "enqueueOnce m p c s = Inr (y, t) \<Longrightarrow> tahesabOutboxes t = tahesabOutboxes s \<and> t = s \<or>
   (\<exists>ob. tahesabOutboxes t = tahesabOutboxes s @ [ob] \<and> ob_method ob = m \<and> ob_status ob = TahesabOutboxStatus.PENDING)"
  by (auto simp: enqueueOnce_def enqueue_def split: option.splits)

lemma depositDeletion_again:
  assumes "enqueueTahesabDeletionForDeposit i s = Inr (x, t)"
  shows "enqueueTahesabDeletionForDeposit i t = Inr ((), t)"
proof -
  let ?p = "\<lambda>ob. ob_correlationId ob = Some i \<and> ob_method ob \<in> set [''DoNewSanadVKHVaghNaghd'', ''DoNewSanadVKHBank''] \<and>
             ob_status ob = TahesabOutboxStatus.SUCCESS \<and> ob_tahesabFactorCode ob \<noteq> None"
  show ?thesis
  proof (cases "findFirst ?p (tahesabOutboxes s)")
    case None
    then show ?thesis using assms by (simp add: enqueueTahesabDeletionForDeposit_def)
  next
    case (Some e)
    show ?thesis
    proof (cases "truthy (ob_tahesabFactorCode e)")
      case False
      then show ?thesis using assms Some by (simp add: enqueueTahesabDeletionForDeposit_def)
    next
      case True
      then have once: "enqueueOnce ''DoDeleteSanad'' (DeleteSanad (the (ob_tahesabFactorCode e))) (''deposit:cancel:'' @ i) s = Inr (x, t)"
        using assms Some by (simp add: enqueueTahesabDeletionForDeposit_def)
      have "findFirst ?p (tahesabOutboxes t) = Some e"
        using enqueueOnce_cases [OF once] Some by (auto simp: find_append)
      then show ?thesis using True enqueueOnce_again [OF once] by (simp add: enqueueTahesabDeletionForDeposit_def)
    qed
  qed
qed

lemma cancelDepositTx_reverses:
  assumes d: "findDeposit i s = Some d" "dp_status d = DepositStatus.APPROVED" "truthy (dp_accountTxId d)"
    and x: "findFirst (\<lambda>y. Some (tx_id y) = dp_accountTxId d) (accountTxs s) = Some x"
    and b: "findAccount (tx_accountId x) s = Some b" "ac_blockedBalance b + ac_minBalance b \<le> ac_balance b + - dp_amount d"
    and free: "\<And>y. y \<in> set (accountTxs s) \<Longrightarrow> tx_refType y = TxRefType.DEPOSIT \<Longrightarrow> tx_refId y = Some i \<Longrightarrow>
       tx_accountId y = tx_accountId x \<Longrightarrow> tx_entrySide y \<noteq> entrySideOf (- dp_amount d)"
  obtains d' t where "cancelDepositTx reason i s = Inr (d', t)" "dp_status d' = DepositStatus.REVERSED"
    "findDeposit i t = Some d'" "\<forall>j. posted j t = posted j s - (if j = tx_accountId x then dp_amount d else 0)"
    "\<forall>j. held j t = held j s"
proof -
  have i: "dp_id d = i" using findDeposit_SomeD [OF d(1)] by simp
  from applyTransaction_succeeds [OF b free, where ty = AccountTxType.ADJUSTMENT and cb = None]
  obtain y b' s1 where app: "applyTransaction (tx_accountId x) (- dp_amount d) AccountTxType.ADJUSTMENT TxRefType.DEPOSIT
      (Some i) None None s = Inr ((y, b'), s1)" by blast
  note e = applyTransaction_effect [OF app]
  let ?d = "d\<lparr>dp_status := DepositStatus.REVERSED, dp_note := orElse reason (dp_note d)\<rparr>"
  obtain d' t where upd: "updateDeposit ?d s1 = Inr (d', t)" by (simp add: updateDeposit_def Let_def)
  have "findDeposit (dp_id ?d) s1 \<noteq> None" using d(1) i by (simp add: findDeposit_def walletFrame_sel(10) [OF e(8)])
  note u = updateDeposit_result [OF upd this]
  show ?thesis
  proof (rule that)
    show "cancelDepositTx reason i s = Inr (d', t)" using d x app upd i by (simp add: cancelDepositTx_def)
    show "findDeposit i t = Some d'" using u(2) i by simp
    show "dp_status d' = DepositStatus.REVERSED" using u(1) by simp
  qed (simp_all add: sameLedger_sums [OF u(3)] e(1,2))
qed

lemma cancel_after_approval:
  assumes ok: "deposits_ok s" and d0: "findDeposit i s = Some d0" "dp_status d0 = DepositStatus.PENDING"
      "dp_accountTxId d0 = None" "0 < dp_amount d0" "dp_userId d0 \<noteq> HOUSE_USER_ID"
    and irr: "findInstrument ''IRR'' s \<noteq> None" and new: "nothingPosted TxRefType.DEPOSIT i s"
  obtains d t d' t' where "approveDeposit cfg i nt admin s = Inr (d, t)" "cancelDeposit i reason t = Inr (d', t')"
    "dp_status d' = DepositStatus.REVERSED" "\<forall>j. posted j t' = posted j s" "\<forall>j. held j t' = held j s"
    "cancelDeposit i reason' t' = Inr (d', t')"
proof -
  have le: "0 \<le> dp_amount d0" and irr': "findInstrument IRR_INSTRUMENT_CODE s \<noteq> None"
    using d0(4) irr by (simp_all add: IRR_INSTRUMENT_CODE_def)
  obtain d t1 and b :: account and x :: accountTx where a: "approveDepositTx nt admin i s = Inr (d, t1)"
    "ac_id b = tx_accountId x" "findAccount (ac_id b) t1 = Some b"
    "ac_blockedBalance b + ac_minBalance b \<le> ac_balance b + - dp_amount d0"
    "accountTxs t1 = accountTxs s @ [x]" "dp_accountTxId d = Some (tx_id x)" "tx_entrySide x = AccountTxEntrySide.CREDIT"
    by (rule approveDepositTx_succeeds [OF deposits_okD(1) [OF ok] d0(1-3) le d0(5) irr' new])
  have nt: "\<not> truthy (dp_accountTxId d0)" using d0(3) by simp
  obtain w and x' :: accountTx and s1 s2 where e: "\<forall>j. posted j t1 = posted j s + (if j = w then dp_amount d0 else 0)"
    "\<forall>j. held j t1 = held j s" "accountTxs t1 = accountTxs s @ [x']" "tx_accountId x' = w"
    "d = d0\<lparr>dp_updatedAt := db_now s, dp_status := DepositStatus.APPROVED,
          dp_processedAt := Some (withDefault (dp_processedAt d0) (db_now s)),
          dp_processedById := orElse (dp_processedById d0) (Some admin),
          dp_note := orElse nt (dp_note d0), dp_accountTxId := Some (tx_id x')\<rparr>"
    by (rule approveDepositTx_effect [OF a(1) d0(1) nt])
  have x': "x' = x" using a(5) e(3) by simp
  have st: "dp_status d = DepositStatus.APPROVED" "dp_amount d = dp_amount d0" by (simp_all add: e(5))
  obtain t where t: "enqueueTahesabCashInForDeposit cfg d t1 = Inr ((), t)" using cashIn_total by blast
  have side: "side t1 t" using holdsE_D [OF side_cashIn t] .
  note sums = sameLedger_sums [OF side_ledger [OF side]]
  have ok': "deposits_ok t" using deposits_ok_side [OF holdsE_D [OF deposits_ok_approve [OF ok] a(1)] side] .
  have txs: "accountTxs t = accountTxs s @ [x]" using a(5) side by (simp add: side_sel)
  have found: "findDeposit i t = Some d"
    using approveDepositTx_closes [OF a(1)] d0(1,2) st(1) side by (auto simp: findDeposit_def side_sel)
  have tru: "truthy (dp_accountTxId d)" using deposits_ok_entry [OF ok' found st(1)] by blast
  have "distinct (map tx_id (accountTxs t))" using depositBooks.books_D(2) [OF deposits_okD(2) [OF ok']] by blast
  then have fx: "findFirst (\<lambda>y. Some (tx_id y) = dp_accountTxId d) (accountTxs t) = Some x"
    unfolding txs a(6) by (intro find_snoc_new) (simp_all, metis imageI)
  have b: "findAccount (tx_accountId x) t = Some b" "ac_blockedBalance b + ac_minBalance b \<le> ac_balance b + - dp_amount d"
    using a(2-4) st by (simp_all add: sums)
  have free: "tx_entrySide y \<noteq> entrySideOf (- dp_amount d)"
    if "y \<in> set (accountTxs t)" "tx_refType y = TxRefType.DEPOSIT" "tx_refId y = Some i" for y
    using that new d0(4) st(2) a(7) by (auto simp: txs nothingPosted_def entrySideOf_def)
  obtain d' t2 where c: "cancelDepositTx reason i t = Inr (d', t2)" "dp_status d' = DepositStatus.REVERSED"
    "findDeposit i t2 = Some d'" "\<forall>j. posted j t2 = posted j t - (if j = tx_accountId x then dp_amount d else 0)"
    "\<forall>j. held j t2 = held j t"
    by (rule cancelDepositTx_reverses [OF found st(1) tru fx b free])
  have id: "dp_id d' = i" using findDeposit_SomeD [OF c(3)] by simp
  obtain t' where t': "enqueueTahesabDeletionForDeposit i t2 = Inr ((), t')" using depositDeletion_total by blast
  have side': "side t2 t'" using holdsE_D [OF side_depositDeletion t'] .
  have found': "findDeposit i t' = Some d'" using c(3) side' by (simp add: findDeposit_def side_sel)
  show ?thesis
  proof (rule that)
    show "approveDeposit cfg i nt admin s = Inr (d, t)" using a(1) t by (simp add: approveDeposit_def)
    show "cancelDeposit i reason t = Inr (d', t')" using c(1) t' id by (simp add: cancelDeposit_def)
    show "cancelDeposit i reason' t' = Inr (d', t')"
      using found' c(2) depositDeletion_again [OF t'] id by (simp add: cancelDeposit_def cancelDepositTx_def)
    show "\<forall>j. posted j t' = posted j s" "\<forall>j. held j t' = held j s"
      using c(4,5) e(1,2,4) x' st(2) by (simp_all add: sameLedger_sums [OF side_ledger [OF side']] sums)
  qed (rule c(2))
qed

section \<open>Properties\<close>

text \<open>The concrete ledger with one pending deposit of 40 of \<open>ali\<close>.\<close>

definition aliDeposit :: depositRequest where
  "aliDeposit = \<lparr>dp_id = unaryId 0, dp_createdAt = 0, dp_updatedAt = 0, dp_userId = ''ali'', dp_amount = 40,
     dp_method = ''card'', dp_status = DepositStatus.PENDING, dp_purpose = RequestPurpose.DIRECT,
     dp_remainingAmount = None, dp_assignedAmountTotal = 0, dp_settledAmountTotal = 0, dp_refNo = None,
     dp_note = None, dp_processedAt = None, dp_processedById = None, dp_accountTxId = None\<rparr>"

definition depositDb :: db where
  "depositDb = emptyDb\<lparr>db_seq := 1, instruments := [irr], depositRequests := [aliDeposit]\<rparr>"

lemma depositDb_ok: "deposits_ok depositDb"
  using inj_unaryId
  by (auto simp: deposits_ok_def depositDb_def emptyDb_def ledger_ok_def books_ok_def keys_ok_def booked_def
      depositDue_def aliDeposit_def unaryId_def)

lemma depositDb_facts:
  "findDeposit (unaryId 0) depositDb = Some aliDeposit" "dp_status aliDeposit = DepositStatus.PENDING"
  "dp_accountTxId aliDeposit = None" "0 < dp_amount aliDeposit" "dp_userId aliDeposit \<noteq> HOUSE_USER_ID"
  "findInstrument ''IRR'' depositDb \<noteq> None" "nothingPosted TxRefType.DEPOSIT (unaryId 0) depositDb"
  by (simp_all add: findDeposit_def depositDb_def emptyDb_def aliDeposit_def HOUSE_USER_ID_def findInstrument_def
      irr_def nothingPosted_def)

definition noTahesab :: tahesabConfig where
  "noTahesab = \<lparr>tc_get = (\<lambda>_. Some ''false''), tc_shamsi = (\<lambda>_. ([], [], [])), tc_showDecimal = (\<lambda>_. []),
     tc_showInt = (\<lambda>_. [])\<rparr>"

text \<open>
  C8. The books of the deposits always balance: after any sequence of requests, approvals, rejections
  and cancellations, in any order and repeated at will, what stands posted to the ledger under a
  deposit is its amount when it is approved and nothing in every other status, and the ledger is sound.
\<close>

theorem deposit_books_balance:
  assumes "depositRun s t" and "deposits_ok s" and "d \<in> set (depositRequests t)"
  shows "ledger_ok t \<and> booked TxRefType.DEPOSIT (dp_id d) t =
    (if dp_status d = DepositStatus.APPROVED then dp_amount d else 0)"
  using deposits_okD(1,2) [OF depositRun_ok [OF assms(1,2)]] depositBooks.books_D(4) [OF _ assms(3)]
  by (simp add: depositDue_def)

lemma deposit_books_balance_witness:
  "\<exists>d t. approveDeposit noTahesab (unaryId 0) None ''root'' depositDb = Inr (d, t) \<and>
     (\<forall>e\<in>set (depositRequests t). booked TxRefType.DEPOSIT (dp_id e) t =
        (if dp_status e = DepositStatus.APPROVED then dp_amount e else 0))"
proof -
  obtain d t where a: "approveDeposit noTahesab (unaryId 0) None ''root'' depositDb = Inr (d, t)"
    by (rule cancel_after_approval [OF depositDb_ok depositDb_facts])
  have "depositRun depositDb t" by (rule dr_approve [OF dr_start a])
  from deposit_books_balance [OF this depositDb_ok] a show ?thesis by blast
qed

text \<open>
  Approving a pending deposit credits the client's rial wallet with its amount, and no other
  account; approving it again answers the same row and changes nothing, and rejecting it is refused.
\<close>

theorem approve_credits_once:
  assumes "findDeposit i s = Some d0" and "dp_status d0 = DepositStatus.PENDING" and "dp_accountTxId d0 = None"
    and "deposits_ok s" and "approveDeposit cfg i nt admin s = Inr (d, t)"
  shows "dp_status d = DepositStatus.APPROVED \<and> findDeposit i t = Some d \<and>
    (\<exists>w. walletId (dp_userId d0) ''IRR'' t = Some w \<and>
       (\<forall>j. posted j t = posted j s + (if j = w then dp_amount d0 else 0))) \<and>
    approveDeposit cfg i nt' admin' t = Inr (d, t) \<and>
    rejectDeposit nt' admin' i t = Inl (BadRequestException ''Deposit already processed'')"
proof -
  from assms(5) obtain t' where 1: "approveDepositTx nt admin i s = Inr (d, t')" "side t' t"
      "enqueueTahesabCashInForDeposit cfg d t' = Inr ((), t)" by (rule approveDeposit_split)
  have nt: "\<not> truthy (dp_accountTxId d0)" using assms(3) by simp
  obtain w and x :: accountTx where e: "walletId (dp_userId d0) IRR_INSTRUMENT_CODE t' = Some w"
    "\<forall>j. posted j t' = posted j s + (if j = w then dp_amount d0 else 0)"
    and d: "d = d0\<lparr>dp_updatedAt := db_now s, dp_status := DepositStatus.APPROVED,
          dp_processedAt := Some (withDefault (dp_processedAt d0) (db_now s)),
          dp_processedById := orElse (dp_processedById d0) (Some admin),
          dp_note := orElse nt (dp_note d0), dp_accountTxId := Some (tx_id x)\<rparr>"
    by (rule approveDepositTx_effect [OF 1(1) assms(1) nt])
  have st: "dp_status d = DepositStatus.APPROVED" by (simp add: d)
  note sums = sameLedger_sums [OF side_ledger [OF 1(2)]]
  have found: "findDeposit i t = Some d"
    using approveDepositTx_closes [OF 1(1)] assms(1) st assms(2) 1(2) by (auto simp: findDeposit_def side_sel)
  have "deposits_ok t" using deposits_ok_side [OF holdsE_D [OF deposits_ok_approve [OF assms(4)] 1(1)] 1(2)] .
  from deposits_ok_entry [OF this found st] have "truthy (dp_accountTxId d)" by blast
  then have "approveDeposit cfg i nt' admin' t = Inr (d, t)"
    using found cashIn_again [OF 1(3)] by (simp add: approveDeposit_def approveDepositTx_def)
  with found e st show ?thesis by (auto simp: sums IRR_INSTRUMENT_CODE_def rejectDeposit_def)
qed

lemma approve_credits_once_witness:
  "\<exists>d t. approveDeposit noTahesab (unaryId 0) None ''root'' depositDb = Inr (d, t) \<and>
     (\<exists>w. walletId ''ali'' ''IRR'' t = Some w \<and> posted w t = 40) \<and>
     approveDeposit noTahesab (unaryId 0) None ''root'' t = Inr (d, t)"
proof -
  obtain d t where a: "approveDeposit noTahesab (unaryId 0) None ''root'' depositDb = Inr (d, t)"
    by (rule cancel_after_approval [OF depositDb_ok depositDb_facts])
  have zero: "posted j depositDb = 0" for j by (simp add: posted_def depositDb_def emptyDb_def)
  have fields: "dp_userId aliDeposit = ''ali''" "dp_amount aliDeposit = 40" by (simp_all add: aliDeposit_def)
  from approve_credits_once [OF depositDb_facts(1-3) depositDb_ok a, of None "''root''"] a show ?thesis
    by (auto simp: zero fields)
qed

text \<open>
  C27. Cancelling an approved deposit right after its approval, when its amount is positive, its user is not the
  house and nothing stood posted under it before, succeeds and takes back exactly the credit: every account has the
  postings and the holds it had before the approval, the deposit is reversed, and cancelling it again changes
  nothing.
\<close>

theorem cancel_undoes_approval:
  assumes "deposits_ok s" and "findDeposit i s = Some d0" and "dp_status d0 = DepositStatus.PENDING"
    and "dp_accountTxId d0 = None" and "0 < dp_amount d0" and "dp_userId d0 \<noteq> HOUSE_USER_ID"
    and "findInstrument ''IRR'' s \<noteq> None" and "nothingPosted TxRefType.DEPOSIT i s"
  shows "\<exists>d t d' t'. approveDeposit cfg i nt admin s = Inr (d, t) \<and> cancelDeposit i reason t = Inr (d', t') \<and>
    dp_status d' = DepositStatus.REVERSED \<and> (\<forall>j. posted j t' = posted j s \<and> held j t' = held j s) \<and>
    cancelDeposit i reason' t' = Inr (d', t')"
  by (rule cancel_after_approval [OF assms, of cfg nt admin reason reason']) blast

lemma cancel_undoes_approval_witness:
  "\<exists>d t d' t'. approveDeposit noTahesab (unaryId 0) None ''root'' depositDb = Inr (d, t) \<and>
     cancelDeposit (unaryId 0) None t = Inr (d', t') \<and> dp_status d' = DepositStatus.REVERSED \<and>
     (\<forall>j. posted j t' = 0)"
  using cancel_undoes_approval [OF depositDb_ok depositDb_facts, of noTahesab None "''root''" None None]
  by (auto simp: depositDb_def emptyDb_def posted_def)

interpretation entries: keyed_table tx_id "total :: (accountTx \<Rightarrow> rat) \<Rightarrow> accountTx list \<Rightarrow> rat"
  by unfold_locales simp_all

text \<open>
  C37. An approved deposit can be cancelled as long as its money is there. At any later time, when the credit is still the
  only entry under the deposit: if the wallet has the amount free, the cancellation succeeds, takes the amount from
  that wallet and from no other, leaves every hold, reverses the deposit, and done again changes nothing; if the
  wallet has less free, it is refused for insufficient balance.
\<close>

theorem cancel_needs_the_money:
  assumes ok: "deposits_ok s" and d: "findDeposit i s = Some d" "dp_status d = DepositStatus.APPROVED" "0 < dp_amount d"
    and x: "x \<in> set (accountTxs s)" "dp_accountTxId d = Some (tx_id x)" "tx_entrySide x = AccountTxEntrySide.CREDIT"
    and only: "\<forall>y\<in>set (accountTxs s). tx_refType y = TxRefType.DEPOSIT \<and> tx_refId y = Some i \<longrightarrow> y = x"
    and a: "findAccount (tx_accountId x) s = Some a"
  shows "(dp_amount d \<le> getUsableCapacity a \<longrightarrow>
      (\<exists>d' t. cancelDeposit i reason s = Inr (d', t) \<and> dp_status d' = DepositStatus.REVERSED \<and> findDeposit i t = Some d' \<and>
         (\<forall>j. posted j t = posted j s - (if j = ac_id a then dp_amount d else 0) \<and> held j t = held j s) \<and>
         cancelDeposit i reason' t = Inr (d', t))) \<and>
    (getUsableCapacity a < dp_amount d \<longrightarrow>
      cancelDeposit i reason s = Inl (InsufficientCreditException ''Insufficient usable balance for this operation''))"
proof -
  have tru: "truthy (dp_accountTxId d)" using deposits_ok_entry [OF ok d(1,2)] by blast
  have "distinct (map tx_id (accountTxs s))" using depositBooks.books_D(2) [OF deposits_okD(2) [OF ok]] by blast
  then have fx: "findFirst (\<lambda>y. Some (tx_id y) = dp_accountTxId d) (accountTxs s) = Some x"
    using x(1,2) by (simp add: entries.find_key)
  have id: "ac_id a = tx_accountId x" using findAccount_SomeD [OF a] by simp
  have free: "tx_entrySide y \<noteq> entrySideOf (- dp_amount d)"
    if "y \<in> set (accountTxs s)" "tx_refType y = TxRefType.DEPOSIT" "tx_refId y = Some i" "tx_accountId y = tx_accountId x" for y
    using that only x(3) d(3) by (auto simp: entrySideOf_def)
  show ?thesis
  proof (intro conjI impI)
    assume "dp_amount d \<le> getUsableCapacity a"
    then have b: "ac_blockedBalance a + ac_minBalance a \<le> ac_balance a + - dp_amount d" by (simp add: getUsableCapacity_def)
    obtain d' t2 where c: "cancelDepositTx reason i s = Inr (d', t2)" "dp_status d' = DepositStatus.REVERSED"
      "findDeposit i t2 = Some d'" "\<forall>j. posted j t2 = posted j s - (if j = tx_accountId x then dp_amount d else 0)"
      "\<forall>j. held j t2 = held j s"
      by (rule cancelDepositTx_reverses [OF d(1,2) tru fx a b free])
    have di: "dp_id d' = i" using findDeposit_SomeD [OF c(3)] by simp
    obtain t where t: "enqueueTahesabDeletionForDeposit i t2 = Inr ((), t)" using depositDeletion_total by blast
    have side: "side t2 t" using holdsE_D [OF side_depositDeletion t] .
    have found: "findDeposit i t = Some d'" using c(3) side by (simp add: findDeposit_def side_sel)
    have "cancelDeposit i reason s = Inr (d', t)" using c(1) t di by (simp add: cancelDeposit_def)
    moreover have "cancelDeposit i reason' t = Inr (d', t)"
      using found c(2) depositDeletion_again [OF t] di by (simp add: cancelDeposit_def cancelDepositTx_def)
    ultimately show "\<exists>d' t. cancelDeposit i reason s = Inr (d', t) \<and> dp_status d' = DepositStatus.REVERSED \<and> findDeposit i t = Some d' \<and>
         (\<forall>j. posted j t = posted j s - (if j = ac_id a then dp_amount d else 0) \<and> held j t = held j s) \<and>
         cancelDeposit i reason' t = Inr (d', t)"
      using c found id by (intro exI [of _ d'] exI [of _ t]) (simp add: sameLedger_sums [OF side_ledger [OF side]])
  next
    assume "getUsableCapacity a < dp_amount d"
    then have "ac_balance a - dp_amount d < ac_blockedBalance a + ac_minBalance a" by (simp add: getUsableCapacity_def)
    then have "applyTransaction (tx_accountId x) (- dp_amount d) AccountTxType.ADJUSTMENT TxRefType.DEPOSIT (Some (dp_id d)) None None s =
        Inl (InsufficientCreditException ''Insufficient usable balance for this operation'')"
      by (simp add: applyTransaction_def a)
    then show "cancelDeposit i reason s = Inl (InsufficientCreditException ''Insufficient usable balance for this operation'')"
      using d tru fx by (simp add: cancelDeposit_def cancelDepositTx_def)
  qed
qed

text \<open>The wallet of \<open>ali\<close> with its deposit of 100; and with 60 of it held for a withdrawal.\<close>

definition creditedDb :: db where
  "creditedDb = aliDb\<lparr>accountTxs := [aliTx\<lparr>tx_refId := Some (unaryId 0)\<rparr>], depositRequests := [aliDeposit\<lparr>dp_amount := 100, dp_status := DepositStatus.APPROVED,
     dp_accountTxId := Some (unaryId 1)\<rparr>]\<rparr>"

definition spentDb :: db where
  "spentDb = creditedDb\<lparr>accounts := [aliAccount\<lparr>ac_blockedBalance := 60\<rparr>],
     accountReservations := [\<lparr>ar_id = unaryId 0, ar_accountId = unaryId 0, ar_amount = 60,
       ar_refType = TxRefType.WITHDRAW, ar_refId = ''w1'', ar_status = AccountReservationStatus.RESERVED\<rparr>]\<rparr>"

lemma credited_ok: "deposits_ok creditedDb" "deposits_ok spentDb"
  using inj_unaryId
  by (auto simp: deposits_ok_def spentDb_def creditedDb_def books_ok_def keys_ok_def booked_def depositDue_def aliDeposit_def
      aliDb_def aliTx_def aliAccount_def emptyDb_def unaryId_def ledger_ok_def account_ok_def held_def posted_def)
    (rule image_eqI [where x = 1], simp_all)+

lemma cancel_needs_the_money_witness:
  "(\<exists>d t. cancelDeposit (unaryId 0) None creditedDb = Inr (d, t) \<and> posted (unaryId 0) t = 0) \<and>
   cancelDeposit (unaryId 0) None spentDb = Inl (InsufficientCreditException ''Insufficient usable balance for this operation'')"
proof -
  let ?d = "aliDeposit\<lparr>dp_amount := 100, dp_status := DepositStatus.APPROVED, dp_accountTxId := Some (unaryId 1)\<rparr>"
  have f: "findDeposit (unaryId 0) creditedDb = Some ?d" "findDeposit (unaryId 0) spentDb = Some ?d"
    "accountTxs creditedDb = [aliTx\<lparr>tx_refId := Some (unaryId 0)\<rparr>]" "accountTxs spentDb = [aliTx\<lparr>tx_refId := Some (unaryId 0)\<rparr>]"
    "findAccount (tx_accountId aliTx) creditedDb = Some aliAccount"
    "findAccount (tx_accountId aliTx) spentDb = Some (aliAccount\<lparr>ac_blockedBalance := 60\<rparr>)"
    "getUsableCapacity aliAccount = 100" "getUsableCapacity (aliAccount\<lparr>ac_blockedBalance := 60\<rparr>) = 40"
    "ac_id aliAccount = unaryId 0" "posted (unaryId 0) creditedDb = 100"
    "tx_id aliTx = unaryId 1" "tx_entrySide aliTx = AccountTxEntrySide.CREDIT"
    by (simp_all add: creditedDb_def spentDb_def aliDb_def findDeposit_def findAccount_def aliDeposit_def aliTx_def aliAccount_def
        getUsableCapacity_def posted_def)
  let ?x = "aliTx\<lparr>tx_refId := Some (unaryId 0)\<rparr>"
  have p: "dp_status ?d = DepositStatus.APPROVED" "0 < dp_amount ?d" "dp_accountTxId ?d = Some (tx_id ?x)"
    "tx_entrySide ?x = AccountTxEntrySide.CREDIT" "tx_accountId ?x = tx_accountId aliTx" "dp_amount ?d = 100" "?x \<in> set [?x]"
    by (simp_all add: f)
  have only: "\<forall>y\<in>set [?x]. tx_refType y = TxRefType.DEPOSIT \<and> tx_refId y = Some (unaryId 0) \<longrightarrow> y = ?x" by simp
  note run = cancel_needs_the_money [OF _ _ p(1,2) _ p(3,4), of _ "unaryId 0", unfolded p(5,6)]
  have one: "\<exists>d t. cancelDeposit (unaryId 0) None creditedDb = Inr (d, t) \<and> posted (unaryId 0) t = 0"
    using run [OF credited_ok(1) f(1) _ _ f(5), of None None, unfolded f(3)] only f(7,9,10) by auto
  have "cancelDeposit (unaryId 0) None spentDb = Inl (InsufficientCreditException ''Insufficient usable balance for this operation'')"
    using run [OF credited_ok(2) f(2) _ _ f(6), of None None, unfolded f(4,8)] only by simp
  with one show ?thesis ..
qed

lemma createLot_effect:
  assumes run: "createLot dto actor s = Inr (lot, t)" and ok: "ledger_ok s"
  obtains wu wh where "walletId (cg_userId dto) ''GOLD_750_EQ'' t = Some wu"
    "walletId HOUSE_USER_ID ''GOLD_750_EQ'' t = Some wh" "wu \<noteq> wh"
    "\<forall>j. posted j t = posted j s + (if j \<in> {wu, wh} then cg_grossWeight dto * of_int (cg_karat dto) / 750 else 0)"
    "goldLots t = goldLots s @ [lot]" "gl_status lot = GoldLotStatus.IN_VAULT" "ledger_ok t"
proof -
  let ?e = "cg_grossWeight dto * of_int (cg_karat dto) / 750 :: decimal"
  let ?s0 = "(bumpId s)\<lparr>goldLots := goldLots s @ [lot]\<rparr>"
  from run obtain s1 u s2 h s3 p s4 q where
    1: "createAttachmentsForActor actor (cg_fileIds dto) AttachmentEntityType.GOLD_LOT (gl_id lot) ?s0 = Inr ((), s1)"
      "getOrCreateAccount (cg_userId dto) GOLD_750_INSTRUMENT_CODE s1 = Inr (u, s2)"
      "getOrCreateAccount HOUSE_USER_ID GOLD_750_INSTRUMENT_CODE s2 = Inr (h, s3)"
      "applyTransaction (ac_id u) ?e AccountTxType.ADJUSTMENT TxRefType.GOLD_LOT (Some (gl_id lot)) None None s3 = Inr (p, s4)"
      "applyTransaction (ac_id h) ?e AccountTxType.ADJUSTMENT TxRefType.GOLD_LOT (Some (gl_id lot)) None None s4 = Inr (q, t)"
    and lot: "gl_status lot = GoldLotStatus.IN_VAULT"
    unfolding createLot_def Let_def by (auto simp: bindE_Inr_iff split: if_splits)
  obtain x b y b' where pq: "p = (x, b)" "q = (y, b')" by (cases p; cases q)
  note eu = getOrCreateAccount_effect [OF 1(2)] and eh = getOrCreateAccount_effect [OF 1(3)]
    and ex = applyTransaction_effect [OF 1(4) [unfolded pq]] and ey = applyTransaction_effect [OF 1(5) [unfolded pq]]
  have side: "side ?s0 s1" using holdsE_D [OF side_createAttachments 1(1)] .
  have fr: "walletFrame s2 t" "walletFrame s3 t" "walletFrame s1 t"
    using eu(6) eh(6) ex(8) ey(8) walletFrame_trans by metis+
  have ne: "ac_id u \<noteq> ac_id h"
  proof
    assume "ac_id u = ac_id h"
    then show False
      using applyTransaction_unique(2) [OF 1(5) [unfolded pq], of x]
        applyTransaction_unique(1) [OF 1(4) [unfolded pq]] ex by simp
  qed
  have sum: "posted j s1 = posted j s" for j using side by (simp add: posted_def side_sel)
  have ok1: "ledger_ok s1"
    by (rule sameLedger_ok [OF side_ledger [OF side]]) (use ledger_ok_bump [OF ok] in simp)
  have "ledger_ok t"
    using holdsE_D [OF ledger.getAcc_inv 1(2)] holdsE_D [OF ledger.getAcc_inv 1(3)]
      holdsE_D [OF ledger.post_inv 1(4)] holdsE_D [OF ledger.post_inv 1(5)] ok1 by blast
  moreover have "goldLots s1 = goldLots s @ [lot]" using side_sel(14) [OF side] by simp
  then have "goldLots t = goldLots s @ [lot]" using walletFrame_sel(16) [OF fr(3)] by simp
  ultimately show ?thesis
    using lot ne walletFrame_walletId [OF fr(1) eu(3)] walletFrame_walletId [OF fr(2) eh(3)]
    by (intro that [of "ac_id u" "ac_id h"])
      (auto simp: GOLD_750_INSTRUMENT_CODE_def eu(1) eh(1) ex(1) ey(1) sum)
qed

text \<open>
  A gold lot credits the pure-gold weight of the lot, its gross weight times its karat over 750,
  to the client's gold wallet and the same weight to the house's, two different wallets, and nothing
  else; the lot is in the vault and the ledger stays sound.
\<close>

theorem gold_lot_credits_both:
  assumes "createLot dto actor s = Inr (lot, t)" and "ledger_ok s"
  shows "ledger_ok t \<and> goldLots t = goldLots s @ [lot] \<and> gl_status lot = GoldLotStatus.IN_VAULT \<and>
    (\<exists>wu wh. walletId (cg_userId dto) ''GOLD_750_EQ'' t = Some wu \<and>
       walletId HOUSE_USER_ID ''GOLD_750_EQ'' t = Some wh \<and> wu \<noteq> wh \<and>
       (\<forall>j. posted j t = posted j s +
          (if j \<in> {wu, wh} then cg_grossWeight dto * of_int (cg_karat dto) / 750 else 0)))"
  by (rule createLot_effect [OF assms]) blast

definition gold750 :: instrument where
  "gold750 = \<lparr>in_id = ''gold'', in_code = ''GOLD_750_EQ'', in_name = ''Gold 750'', in_type = InstrumentType.GOLD,
    in_unit = InstrumentUnit.GRAM_750_EQ\<rparr>"

definition goldDb :: db where
  "goldDb = emptyDb\<lparr>instruments := [irr, gold750]\<rparr>"

definition aliLot :: createGoldLotDto where
  "aliLot = \<lparr>cg_userId = ''ali'', cg_grossWeight = 10, cg_karat = 750, cg_note = None, cg_fileIds = None\<rparr>"

lemma goldDb_ok: "ledger_ok goldDb"
  using inj_unaryId by (simp add: ledger_ok_def goldDb_def emptyDb_def keys_ok_def)

lemma goldDb_lot: "\<exists>r. createLot aliLot \<lparr>act_id = ''root'', act_role = UserRole.ADMIN\<rparr> goldDb = Inr r"
  by (simp add: createLot_def aliLot_def goldDb_def gold750_def irr_def emptyDb_def findInstrument_def
      GOLD_750_INSTRUMENT_CODE_def createAttachmentsForActor_def getOrCreateAccount_def findAccountOf_def
      HOUSE_USER_ID_def ensureHouseUser_def createAccount_def applyTransaction_def findAccount_def
      createAccountTx_def updateAccount_def bumpId_def freshId_def unaryId_def Let_def)

lemma gold_lot_credits_both_witness:
  "\<exists>lot t. createLot aliLot \<lparr>act_id = ''root'', act_role = UserRole.ADMIN\<rparr> goldDb = Inr (lot, t) \<and>
     ledger_ok t \<and> (\<exists>w. walletId ''ali'' ''GOLD_750_EQ'' t = Some w \<and> posted w t = 10)"
proof -
  obtain lot t where 1: "createLot aliLot \<lparr>act_id = ''root'', act_role = UserRole.ADMIN\<rparr> goldDb = Inr (lot, t)"
    using goldDb_lot by auto
  have zero: "posted j goldDb = 0" for j by (simp add: posted_def goldDb_def emptyDb_def)
  from gold_lot_credits_both [OF 1 goldDb_ok] 1 show ?thesis
    by (auto simp: zero aliLot_def)
qed

end
