(* ===== verification/Withdrawals.thy ===== *)
theory Withdrawals
  imports Deposits Requests
begin

text \<open>
  \<open>modules/withdrawals/withdrawals.service.ts\<close>: the requests that take money out. The amount is
  reserved on the rial wallet and counted against the daily and the monthly limit when the request is
  made; approval consumes the reservation and debits the wallet, rejection and cancellation release it.
\<close>

section \<open>Operations\<close>

definition findWithdraw :: "id \<Rightarrow> db \<Rightarrow> withdrawRequest option" where
  "findWithdraw i s = findFirst (\<lambda>w. wd_id w = i) (withdrawRequests s)"

definition updateWithdraw :: "withdrawRequest \<Rightarrow> db \<Rightarrow> withdrawRequest tx" where
  "updateWithdraw w s =
     (let w' = w\<lparr>wd_updatedAt := db_now s\<rparr>
      in Inr (w', s\<lparr>withdrawRequests := updateRows (\<lambda>x. wd_id x = wd_id w) (\<lambda>_. w') (withdrawRequests s)\<rparr>))"

record createWithdrawalDto =
  cw_amount :: decimal
  cw_purpose :: "RequestPurpose option"
  cw_channel :: "WithdrawalChannel option"
  cw_payoutDestinationId :: "id option"
  cw_bankName :: "string option"
  cw_iban :: "string option"
  cw_cardNumber :: "string option"
  cw_note :: "string option"
  cw_fileIds :: "id list option"

definition createWithdrawRow :: "withdrawRequest \<Rightarrow> db \<Rightarrow> withdrawRequest tx" where
  "createWithdrawRow w s =
     (if wd_idempotencyKey w \<noteq> None \<and> (\<exists>x\<in>set (withdrawRequests s). wd_userId x = wd_userId w \<and>
            wd_idempotencyKey x = wd_idempotencyKey w)
        then Inl (UniqueConstraintViolation ''WithdrawRequest'')
      else Inr (w, (bumpId s)\<lparr>withdrawRequests := withdrawRequests s @ [w]\<rparr>))"

definition withdrawLimitRequest :: "id \<Rightarrow> PolicyPeriod \<Rightarrow> decimal \<Rightarrow> id \<Rightarrow> limitRequest" where
  "withdrawLimitRequest userId period amount refId =
     \<lparr>lq_userId = userId, lq_action = PolicyAction.WITHDRAW_IRR, lq_metric = PolicyMetric.NOTIONAL_IRR,
      lq_period = period, lq_amount = amount, lq_instrumentKey = Some ''ALL'', lq_instrumentId = None,
      lq_instrumentType = None, lq_productId = None, lq_refType = TxRefType.WITHDRAW, lq_refId = refId\<rparr>"

text \<open>The destination snapshot of a new withdrawal.\<close>

definition withdrawalSnapshot ::
  "destinationCrypto \<Rightarrow> id \<Rightarrow> createWithdrawalDto \<Rightarrow> WithdrawalChannel option \<Rightarrow> db \<Rightarrow> err + destinationSnapshot option" where
  "withdrawalSnapshot cr userId dto channel s =
     (if truthy (cw_payoutDestinationId dto)
        then map_sum id Some
               (if channel = Some WithdrawalChannel.USER_TO_ORG
                  then resolveCollectionDestination cr (the (cw_payoutDestinationId dto)) s
                else resolvePayoutDestinationForUser cr userId (the (cw_payoutDestinationId dto)) s)
      else Inr (buildLegacySnapshot (cw_iban dto) (cw_cardNumber dto) (cw_bankName dto)))"

definition newWithdrawal ::
  "id \<Rightarrow> createWithdrawalDto \<Rightarrow> RequestPurpose \<Rightarrow> WithdrawalChannel option \<Rightarrow> destinationSnapshot option \<Rightarrow>
   WithdrawStatus \<Rightarrow> string option \<Rightarrow> db \<Rightarrow> withdrawRequest" where
  "newWithdrawal userId dto purpose channel snapshot status idempotencyKey s =
     \<lparr>wd_id = freshId s, wd_createdAt = db_now s, wd_updatedAt = db_now s, wd_userId = userId,
      wd_amount = cw_amount dto, wd_status = status, wd_purpose = purpose, wd_channel = channel,
      wd_bankName = cw_bankName dto, wd_iban = cw_iban dto, wd_cardNumber = cw_cardNumber dto,
      wd_payoutDestinationId = cw_payoutDestinationId dto, wd_destinationSnapshot = snapshot,
      wd_assignedAmountTotal = 0, wd_settledAmountTotal = 0, wd_note = cw_note dto,
      wd_processedAt = None, wd_processedById = None, wd_accountTxId = None,
      wd_idempotencyKey = idempotencyKey\<rparr>"

definition createWithdrawalForUser ::
  "periodKeys \<Rightarrow> destinationCrypto \<Rightarrow> actor \<Rightarrow> createWithdrawalDto \<Rightarrow> string option \<Rightarrow> db \<Rightarrow> withdrawRequest tx" where
  "createWithdrawalForUser pk cr actor dto idempotencyKey s =
     (let amount = cw_amount dto; userId = act_id actor
      in if amount \<le> 0 then Inl (BadRequestException ''Withdrawal amount must be positive'')
      else bindE (getOrCreateAccount userId IRR_INSTRUMENT_CODE s) (\<lambda>account s.
      case (if truthy idempotencyKey
              then findFirst (\<lambda>w. wd_userId w = userId \<and> wd_idempotencyKey w = idempotencyKey) (withdrawRequests s)
            else None) of
        Some existing \<Rightarrow> Inr (existing, s)
      | None \<Rightarrow>
      (if getUsableCapacity account < amount
         then Inl (BadRequestException ''Insufficient capacity for withdrawal'')
       else let purpose = withDefault (cw_purpose dto) RequestPurpose.DIRECT
       in if purpose = RequestPurpose.P2P \<and> \<not> truthy (cw_payoutDestinationId dto)
         then Inl (BadRequestException ''P2P_WITHDRAWAL_DESTINATION_REQUIRED'')
       else let channel = (if purpose = RequestPurpose.P2P
                             then Some (withDefault (cw_channel dto) WithdrawalChannel.USER_TO_USER) else None)
       in case withdrawalSnapshot cr userId dto channel s of
            Inl e \<Rightarrow> Inl e
          | Inr snapshot \<Rightarrow>
       (if purpose = RequestPurpose.P2P \<and> snapshot = None
          then Inl (BadRequestException ''P2P_WITHDRAWAL_DESTINATION_REQUIRED'')
        else let status = (if purpose = RequestPurpose.P2P then WithdrawStatus.WAITING_ASSIGNMENT
                           else WithdrawStatus.PENDING)
        in bindE (createWithdrawRow (newWithdrawal userId dto purpose channel snapshot status idempotencyKey s) s)
             (\<lambda>withdraw s.
           bindE (reserveLimit pk (withdrawLimitRequest userId PolicyPeriod.DAILY amount (wd_id withdraw)) s) (\<lambda>_ s.
           bindE (reserveLimit pk (withdrawLimitRequest userId PolicyPeriod.MONTHLY amount (wd_id withdraw)) s) (\<lambda>_ s.
           bindE (reserveFunds userId IRR_INSTRUMENT_CODE amount TxRefType.WITHDRAW (wd_id withdraw) s) (\<lambda>_ s.
           bindE (createAttachmentsForActor actor (cw_fileIds dto) AttachmentEntityType.WITHDRAW (wd_id withdraw) s) (\<lambda>_ s.
           Inr (withdraw, s))))))))))"

definition compareWithdrawsDesc :: "withdrawRequest \<Rightarrow> withdrawRequest \<Rightarrow> int" where
  "compareWithdrawsDesc a b = wd_createdAt b - wd_createdAt a"

definition findMyWithdrawals :: "id \<Rightarrow> db \<Rightarrow> withdrawRequest list" where
  "findMyWithdrawals userId s =
     sortBy compareWithdrawsDesc (findMany (\<lambda>w. wd_userId w = userId) (withdrawRequests s))"

definition approveWithdrawTx :: "string option \<Rightarrow> id \<Rightarrow> id \<Rightarrow> db \<Rightarrow> withdrawRequest tx" where
  "approveWithdrawTx note adminId i s =
     (case findWithdraw i s of
        None \<Rightarrow> Inl (NotFoundException ''Withdraw not found'')
      | Some withdraw \<Rightarrow>
          (if truthy (wd_accountTxId withdraw) then Inr (withdraw, s)
           else if \<not> (wd_status withdraw = WithdrawStatus.PENDING \<or>
                      wd_status withdraw = WithdrawStatus.APPROVED \<and> wd_accountTxId withdraw = None)
             then Inl (BadRequestException ''Withdrawal already processed'')
           else bindE (getOrCreateAccount (wd_userId withdraw) IRR_INSTRUMENT_CODE s) (\<lambda>account s.
                bindE (consumeFunds (wd_userId withdraw) IRR_INSTRUMENT_CODE TxRefType.WITHDRAW (wd_id withdraw) s)
                  (\<lambda>consumedReservation s.
                let acct = (case consumedReservation of None \<Rightarrow> account | Some (a, _) \<Rightarrow> a)
                in if getUsableCapacity acct < wd_amount withdraw
                     then Inl (InsufficientCreditException ''Insufficient IRR balance for withdrawal'')
                   else bindE (applyTransaction (ac_id acct) (- wd_amount withdraw) AccountTxType.WITHDRAW
                                 TxRefType.WITHDRAW (Some (wd_id withdraw)) (Some adminId) None s) (\<lambda>txResult s.
                        bindE (consumeLimit TxRefType.WITHDRAW (wd_id withdraw) s) (\<lambda>_ s.
                        updateWithdraw
                          (withdraw\<lparr>wd_status := WithdrawStatus.APPROVED,
                             wd_processedAt := Some (withDefault (wd_processedAt withdraw) (db_now s)),
                             wd_processedById := orElse (wd_processedById withdraw) (Some adminId),
                             wd_note := orElse note (wd_note withdraw),
                             wd_accountTxId := Some (tx_id (fst txResult))\<rparr>) s))))))"

definition rejectWithdraw :: "string option \<Rightarrow> id \<Rightarrow> id \<Rightarrow> db \<Rightarrow> withdrawRequest tx" where
  "rejectWithdraw note adminId i s =
     (case findWithdraw i s of
        None \<Rightarrow> Inl (NotFoundException ''Withdraw not found'')
      | Some withdraw \<Rightarrow>
          (if wd_status withdraw = WithdrawStatus.REJECTED then Inr (withdraw, s)
           else if truthy (wd_accountTxId withdraw) \<or> wd_status withdraw \<noteq> WithdrawStatus.PENDING
             then Inl (BadRequestException ''Withdrawal already processed'')
           else bindE (releaseLimit TxRefType.WITHDRAW (wd_id withdraw) s) (\<lambda>_ s.
                bindE (releaseFunds (wd_userId withdraw) IRR_INSTRUMENT_CODE TxRefType.WITHDRAW (wd_id withdraw) s) (\<lambda>_ s.
                updateWithdraw
                  (withdraw\<lparr>wd_status := WithdrawStatus.REJECTED, wd_processedAt := Some (db_now s),
                     wd_processedById := Some adminId, wd_note := orElse note (wd_note withdraw)\<rparr>) s))))"

definition enqueueTahesabCashOutForWithdrawal :: "tahesabConfig \<Rightarrow> withdrawRequest \<Rightarrow> db \<Rightarrow> unit tx" where
  "enqueueTahesabCashOutForWithdrawal cfg withdrawal s =
     (if wd_status withdrawal \<noteq> WithdrawStatus.APPROVED then Inr ((), s)
      else if \<not> isEnabled cfg then Inr ((), s)
      else let moshtariCode = getCustomerCode (findUser (wd_userId withdrawal) s)
      in if \<not> truthy moshtariCode then Inr ((), s)
      else let isBankWithdrawal = (withDefault (wd_iban withdrawal) [] \<noteq> [] \<or>
                 withDefault (wd_cardNumber withdrawal) [] \<noteq> [] \<or> withDefault (wd_bankName withdrawal) [] \<noteq> []);
               accountCode = (if isBankWithdrawal
                 then orElse (getDefaultBankAccountCode cfg) (getDefaultCashAccountCode cfg)
                 else getDefaultCashAccountCode cfg)
      in if \<not> truthy accountCode then Inr ((), s)
      else enqueueOnce (if isBankWithdrawal then ''DoNewSanadVKHBank'' else ''DoNewSanadVKHVaghNaghd'')
        (SimpleVoucher \<lparr>sv_sabteKolOrMovaghat = Kol, sv_moshtariCode = the moshtariCode,
           sv_factorNumber = wd_id withdrawal,
           sv_date = tc_shamsi cfg (withDefault (wd_processedAt withdrawal) (wd_updatedAt withdrawal)),
           sv_mablagh = wd_amount withdrawal,
           sv_sharh = getDescriptionPrefix cfg @ '' Withdrawal '' @ wd_id withdrawal,
           sv_factorCode = the accountCode\<rparr>) (wd_id withdrawal) s)"

definition approveWithdraw :: "tahesabConfig \<Rightarrow> id \<Rightarrow> string option \<Rightarrow> id \<Rightarrow> db \<Rightarrow> withdrawRequest tx" where
  "approveWithdraw cfg i note adminId s =
     bindE (approveWithdrawTx note adminId i s) (\<lambda>updated s.
     bindE (enqueueTahesabCashOutForWithdrawal cfg updated s) (\<lambda>_ s. Inr (updated, s)))"

definition enqueueTahesabDeletionForWithdrawal :: "id \<Rightarrow> db \<Rightarrow> unit tx" where
  "enqueueTahesabDeletionForWithdrawal withdrawalId s =
     (case findFirst (\<lambda>ob. ob_correlationId ob = Some withdrawalId \<and>
             ob_method ob \<in> set [''DoNewSanadVKHVaghNaghd'', ''DoNewSanadVKHBank''] \<and>
             ob_status ob = TahesabOutboxStatus.SUCCESS \<and> ob_tahesabFactorCode ob \<noteq> None) (tahesabOutboxes s) of
        None \<Rightarrow> Inr ((), s)
      | Some existing \<Rightarrow>
          (if truthy (ob_tahesabFactorCode existing)
             then enqueueOnce ''DoDeleteSanad'' (DeleteSanad (the (ob_tahesabFactorCode existing)))
                    (''withdraw:cancel:'' @ withdrawalId) s
           else Inr ((), s)))"

definition cancelWithdrawTx :: "string option \<Rightarrow> id \<Rightarrow> db \<Rightarrow> withdrawRequest tx" where
  "cancelWithdrawTx reason i s =
     (case findWithdraw i s of
        None \<Rightarrow> Inl (NotFoundException ''Withdraw not found'')
      | Some withdrawal \<Rightarrow>
          (if wd_status withdrawal = WithdrawStatus.CANCELLED \<or> wd_status withdrawal = WithdrawStatus.REVERSED
             then Inr (withdrawal, s)
           else if truthy (wd_accountTxId withdrawal) \<or> wd_status withdrawal = WithdrawStatus.APPROVED
             then Inl (BadRequestException ''Withdrawal already processed'')
           else if wd_status withdrawal \<noteq> WithdrawStatus.PENDING \<and> wd_status withdrawal \<noteq> WithdrawStatus.REJECTED
             then Inr (withdrawal, s)
           else bindE (releaseLimit TxRefType.WITHDRAW (wd_id withdrawal) s) (\<lambda>_ s.
                bindE (releaseFunds (wd_userId withdrawal) IRR_INSTRUMENT_CODE TxRefType.WITHDRAW (wd_id withdrawal) s) (\<lambda>_ s.
                updateWithdraw (withdrawal\<lparr>wd_status := WithdrawStatus.CANCELLED,
                                           wd_note := orElse reason (wd_note withdrawal)\<rparr>) s))))"

definition cancelWithdrawal :: "id \<Rightarrow> string option \<Rightarrow> db \<Rightarrow> withdrawRequest tx" where
  "cancelWithdrawal withdrawalId reason s =
     bindE (cancelWithdrawTx reason withdrawalId s) (\<lambda>updated s.
     bindE (enqueueTahesabDeletionForWithdrawal (wd_id updated) s) (\<lambda>_ s. Inr (updated, s)))"

section \<open>Lemmas\<close>

text \<open>
  What stands posted under a withdrawal, and what is held under it: a request that waits holds its
  amount on the client's rial wallet, an approved one has spent it, a closed one has given it back. The
  requests that are matched with payers (\<open>modules/p2p-allocations\<close>) leave these statuses.
\<close>

definition withdrawDue :: "withdrawRequest \<Rightarrow> decimal" where
  "withdrawDue w = (if wd_status w = WithdrawStatus.APPROVED then - wd_amount w else 0)"

definition withdrawHold :: "withdrawRequest \<Rightarrow> db \<Rightarrow> hold" where
  "withdrawHold w s =
     (if wd_status w = WithdrawStatus.PENDING \<or> wd_status w = WithdrawStatus.WAITING_ASSIGNMENT
        then Some (AccountReservationStatus.RESERVED, wd_amount w, wd_userId w, IRR_INSTRUMENT_CODE)
      else if wd_status w = WithdrawStatus.APPROVED
        then Some (AccountReservationStatus.CONSUMED, wd_amount w, wd_userId w, IRR_INSTRUMENT_CODE)
      else if wd_status w = WithdrawStatus.REJECTED \<or> wd_status w = WithdrawStatus.CANCELLED
        then Some (AccountReservationStatus.RELEASED, wd_amount w, wd_userId w, IRR_INSTRUMENT_CODE)
      else None)"

interpretation withdrawLedger: request_ledger withdrawRequests wd_id TxRefType.WITHDRAW withdrawDue withdrawHold
  by unfold_locales (simp_all add: sameRows_sel withdrawHold_def)

definition withdrawals_ok :: "db \<Rightarrow> bool" where
  "withdrawals_ok s \<longleftrightarrow> requests_ok withdrawRequests wd_id TxRefType.WITHDRAW withdrawDue withdrawHold s \<and>
     (\<forall>n. db_gen s n \<noteq> []) \<and>
     (\<forall>w\<in>set (withdrawRequests s). wd_status w = WithdrawStatus.APPROVED \<longrightarrow> truthy (wd_accountTxId w))"

lemma withdrawals_okD:
  assumes "withdrawals_ok s"
  shows "requests_ok withdrawRequests wd_id TxRefType.WITHDRAW withdrawDue withdrawHold s" "ledger_ok s"
    "\<And>n. db_gen s n \<noteq> []"
    "\<And>w. w \<in> set (withdrawRequests s) \<Longrightarrow> wd_status w = WithdrawStatus.APPROVED \<Longrightarrow> truthy (wd_accountTxId w)"
  using assms withdrawLedger.ok_D(1) by (auto simp: withdrawals_ok_def)

lemma findWithdraw_SomeD: "findWithdraw i s = Some w \<Longrightarrow> w \<in> set (withdrawRequests s) \<and> wd_id w = i"
  unfolding findWithdraw_def by (rule find_SomeD)

lemma findWithdraw_cong: "withdrawRequests t = withdrawRequests s \<Longrightarrow> findWithdraw i t = findWithdraw i s"
  by (simp add: findWithdraw_def)

lemma updateWithdraw_result:
  assumes "updateWithdraw w s = Inr (r, t)" and "findWithdraw (wd_id w) s \<noteq> None"
  shows "r = w\<lparr>wd_updatedAt := db_now s\<rparr>" "findWithdraw (wd_id w) t = Some r" "sameLedger s t"
    "withdrawRequests t = updateRows (\<lambda>x. wd_id x = wd_id w) (\<lambda>_. r) (withdrawRequests s)"
  using assms by (auto simp: updateWithdraw_def Let_def findWithdraw_def sameLedger_def find_replace)

text \<open>A decision on a withdrawal keeps the table sound when it leaves the hold and the books of its new status.\<close>

lemma withdrawals_ok_settle:
  assumes ok: "withdrawals_ok s" and w: "findWithdraw i s = Some w" and e: "effect TxRefType.WITHDRAW i d p h s u"
    and w': "wd_id w' = i" "withdrawDue w' = withdrawDue w + d" "heldAs TxRefType.WITHDRAW i (withdrawHold w' u) u"
      "wd_status w' = WithdrawStatus.APPROVED \<Longrightarrow> truthy (wd_accountTxId w')"
    and upd: "updateWithdraw w' u = Inr (r, t)"
  shows "withdrawals_ok t \<and> findWithdraw i t = Some r \<and> r = w'\<lparr>wd_updatedAt := db_now s\<rparr> \<and> sameLedger u t"
proof -
  have mem: "w \<in> set (withdrawRequests s)" "wd_id w = i" using findWithdraw_SomeD [OF w] by auto
  note rows = sameRows_sel [OF effectD(3) [OF e]]
  have "findWithdraw (wd_id w') u \<noteq> None" using w w'(1) by (simp add: findWithdraw_cong [OF rows(5)])
  note r = updateWithdraw_result [OF upd this]
  have rt: "withdrawRequests t = updateRows (\<lambda>x. wd_id x = wd_id w) (\<lambda>_. r) (withdrawRequests s)"
    using r(4) w'(1) mem(2) rows(5) by simp
  have same: "withdrawHold r u = withdrawHold w' u" "withdrawDue r = withdrawDue w'"
    unfolding r(1) withdrawHold_def withdrawDue_def by simp_all
  have "requests_ok withdrawRequests wd_id TxRefType.WITHDRAW withdrawDue withdrawHold t"
    by (rule withdrawLedger.ok_settle [OF withdrawals_okD(1) [OF ok] _ mem(1) _ _ _ r(3) rt])
      (unfold same mem(2), use e w' r(1) in simp_all)
  moreover have "truthy (wd_accountTxId x)" if "x \<in> set (withdrawRequests t)" "wd_status x = WithdrawStatus.APPROVED" for x
    using that w'(4) r(1) withdrawals_okD(4) [OF ok, of x] by (auto simp: rt set_updateRows split: if_splits)
  moreover have "db_gen t n \<noteq> []" for n
    using withdrawals_okD(3) [OF ok] r(3) rows(1) by (simp add: sameLedger_def)
  ultimately show ?thesis using r(1-3) w'(1) rows(2) by (simp add: withdrawals_ok_def)
qed

text \<open>The outcomes of the decisions.\<close>

lemma approveWithdrawTx_cases:
  assumes "approveWithdrawTx note admin i s = Inr (w, t)"
  obtains (same) "findWithdraw i s = Some w" "truthy (wd_accountTxId w)" "t = s"
  | (pay) w0 a s1 q s2 k y s3 s4 where "findWithdraw i s = Some w0" "\<not> truthy (wd_accountTxId w0)"
      "wd_status w0 \<in> {WithdrawStatus.PENDING, WithdrawStatus.APPROVED}"
      "getOrCreateAccount (wd_userId w0) IRR_INSTRUMENT_CODE s = Inr (a, s1)"
      "consumeFunds (wd_userId w0) IRR_INSTRUMENT_CODE TxRefType.WITHDRAW (wd_id w0) s1 = Inr (q, s2)"
      "k = ac_id (case q of None \<Rightarrow> a | Some (a', _) \<Rightarrow> a')"
      "applyTransaction k (- wd_amount w0) AccountTxType.WITHDRAW TxRefType.WITHDRAW (Some (wd_id w0))
         (Some admin) None s2 = Inr (y, s3)"
      "consumeLimit TxRefType.WITHDRAW (wd_id w0) s3 = Inr ((), s4)"
      "updateWithdraw (w0\<lparr>wd_status := WithdrawStatus.APPROVED,
         wd_processedAt := Some (withDefault (wd_processedAt w0) (db_now s4)),
         wd_processedById := orElse (wd_processedById w0) (Some admin),
         wd_note := orElse note (wd_note w0), wd_accountTxId := Some (tx_id (fst y))\<rparr>) s4 = Inr (w, t)"
proof (cases "findWithdraw i s")
  case (Some w0)
  show ?thesis
  proof (cases "truthy (wd_accountTxId w0)")
    case False
    with assms Some have "\<exists>a s1 q s2 x b s3 s4. wd_status w0 \<in> {WithdrawStatus.PENDING, WithdrawStatus.APPROVED} \<and>
      getOrCreateAccount (wd_userId w0) IRR_INSTRUMENT_CODE s = Inr (a, s1) \<and>
      consumeFunds (wd_userId w0) IRR_INSTRUMENT_CODE TxRefType.WITHDRAW (wd_id w0) s1 = Inr (q, s2) \<and>
      applyTransaction (ac_id (case q of None \<Rightarrow> a | Some (a', _) \<Rightarrow> a')) (- wd_amount w0) AccountTxType.WITHDRAW
        TxRefType.WITHDRAW (Some (wd_id w0)) (Some admin) None s2 = Inr ((x, b), s3) \<and>
      consumeLimit TxRefType.WITHDRAW (wd_id w0) s3 = Inr ((), s4) \<and>
      updateWithdraw (w0\<lparr>wd_status := WithdrawStatus.APPROVED,
         wd_processedAt := Some (withDefault (wd_processedAt w0) (db_now s4)),
         wd_processedById := orElse (wd_processedById w0) (Some admin),
         wd_note := orElse note (wd_note w0), wd_accountTxId := Some (tx_id x)\<rparr>) s4 = Inr (w, t)"
      by (auto simp: approveWithdrawTx_def bindE_Inr_iff Let_def split: if_splits)
    then obtain a s1 q s2 x b s3 s4 where r: "wd_status w0 \<in> {WithdrawStatus.PENDING, WithdrawStatus.APPROVED}"
      "getOrCreateAccount (wd_userId w0) IRR_INSTRUMENT_CODE s = Inr (a, s1)"
      "consumeFunds (wd_userId w0) IRR_INSTRUMENT_CODE TxRefType.WITHDRAW (wd_id w0) s1 = Inr (q, s2)"
      "applyTransaction (ac_id (case q of None \<Rightarrow> a | Some (a', _) \<Rightarrow> a')) (- wd_amount w0) AccountTxType.WITHDRAW
        TxRefType.WITHDRAW (Some (wd_id w0)) (Some admin) None s2 = Inr ((x, b), s3)"
      "consumeLimit TxRefType.WITHDRAW (wd_id w0) s3 = Inr ((), s4)"
      "updateWithdraw (w0\<lparr>wd_status := WithdrawStatus.APPROVED,
         wd_processedAt := Some (withDefault (wd_processedAt w0) (db_now s4)),
         wd_processedById := orElse (wd_processedById w0) (Some admin),
         wd_note := orElse note (wd_note w0), wd_accountTxId := Some (tx_id x)\<rparr>) s4 = Inr (w, t)" by blast
    show ?thesis by (rule pay [OF Some False r(1-3) refl r(4,5)]) (simp add: r(6))
  next
    case True
    show ?thesis by (rule same) (use assms Some True in \<open>simp_all add: approveWithdrawTx_def\<close>)
  qed
next
  case None
  have False using assms None by (simp add: approveWithdrawTx_def)
  then show ?thesis ..
qed

text \<open>
  What rejection and cancellation share: an unchanged row, or the release of the limits and of the funds
  and the write of a closed status.
\<close>

inductive withdrawReleased :: "id \<Rightarrow> db \<Rightarrow> withdrawRequest \<Rightarrow> db \<Rightarrow> bool" for i :: id and s :: db where
  wc_release: "findWithdraw i s = Some w0 \<Longrightarrow> wd_status w0 \<in> {WithdrawStatus.PENDING, WithdrawStatus.REJECTED} \<Longrightarrow>
     \<not> truthy (wd_accountTxId w0) \<Longrightarrow> wd_id w' = i \<Longrightarrow> wd_amount w' = wd_amount w0 \<Longrightarrow> wd_userId w' = wd_userId w0 \<Longrightarrow>
     wd_status w' \<in> {WithdrawStatus.REJECTED, WithdrawStatus.CANCELLED} \<Longrightarrow>
     releaseLimit TxRefType.WITHDRAW i s = Inr ((), s1) \<Longrightarrow>
     releaseFunds (wd_userId w0) IRR_INSTRUMENT_CODE TxRefType.WITHDRAW i s1 = Inr (q, s2) \<Longrightarrow>
     updateWithdraw w' s2 = Inr (w, t) \<Longrightarrow> withdrawReleased i s w t"

lemma withdrawReleasedI:
  assumes "findWithdraw i s = Some w0" "wd_status w0 \<in> {WithdrawStatus.PENDING, WithdrawStatus.REJECTED}"
    and "\<not> truthy (wd_accountTxId w0)" and "wd_id w' = i" "wd_amount w' = wd_amount w0" "wd_userId w' = wd_userId w0"
    and "wd_status w' = st" "st \<in> {WithdrawStatus.REJECTED, WithdrawStatus.CANCELLED}"
    and "bindE (releaseLimit TxRefType.WITHDRAW i s) (\<lambda>_ s1.
      bindE (releaseFunds (wd_userId w0) IRR_INSTRUMENT_CODE TxRefType.WITHDRAW i s1) (\<lambda>_ s2. updateWithdraw w' s2)) = Inr (w, t)"
  shows "withdrawReleased i s w t \<and> wd_status w = st"
proof -
  obtain s1 q s2 where r: "releaseLimit TxRefType.WITHDRAW i s = Inr ((), s1)"
    "releaseFunds (wd_userId w0) IRR_INSTRUMENT_CODE TxRefType.WITHDRAW i s1 = Inr (q, s2)" "updateWithdraw w' s2 = Inr (w, t)"
    using assms(9) by (auto simp: bindE_Inr_iff)
  have "wd_status w = st" using r(3) assms(7) by (auto simp: updateWithdraw_def Let_def)
  moreover have "withdrawReleased i s w t" by (rule wc_release [OF assms(1-6) _ r]) (use assms(7,8) in simp)
  ultimately show ?thesis by blast
qed

lemma rejectWithdraw_closed:
  assumes "rejectWithdraw nt admin i s = Inr (w, t)"
  shows "findWithdraw i s = Some w \<and> wd_status w = WithdrawStatus.REJECTED \<and> t = s \<or>
    withdrawReleased i s w t \<and> wd_status w = WithdrawStatus.REJECTED"
proof (cases "findWithdraw i s")
  case (Some w0)
  have i: "wd_id w0 = i" using findWithdraw_SomeD [OF Some] by simp
  show ?thesis
  proof (cases "wd_status w0 = WithdrawStatus.REJECTED")
    case False
    show ?thesis
      by (rule disjI2, rule withdrawReleasedI [OF Some, where w' = "w0\<lparr>wd_status := WithdrawStatus.REJECTED,
           wd_processedAt := Some (db_now t), wd_processedById := Some admin, wd_note := orElse nt (wd_note w0)\<rparr>"])
        (use assms Some False i in \<open>auto simp: rejectWithdraw_def bindE_Inr_iff updateWithdraw_def Let_def split: if_splits\<close>)
  qed (use assms Some in \<open>simp add: rejectWithdraw_def\<close>)
qed (use assms in \<open>simp add: rejectWithdraw_def\<close>)

lemma cancelWithdrawTx_closed:
  assumes "cancelWithdrawTx reason i s = Inr (w, t)"
  shows "findWithdraw i s = Some w \<and> wd_status w \<noteq> WithdrawStatus.APPROVED \<and> t = s \<or>
    withdrawReleased i s w t \<and> wd_status w = WithdrawStatus.CANCELLED"
proof (cases "findWithdraw i s")
  case (Some w0)
  have i: "wd_id w0 = i" using findWithdraw_SomeD [OF Some] by simp
  show ?thesis
  proof (cases "wd_status w0 \<in> {WithdrawStatus.PENDING, WithdrawStatus.REJECTED}")
    case True
    show ?thesis
      by (rule disjI2, rule withdrawReleasedI [OF Some True, where w' = "w0\<lparr>wd_status := WithdrawStatus.CANCELLED,
           wd_note := orElse reason (wd_note w0)\<rparr>"])
        (use assms Some True i in \<open>auto simp: cancelWithdrawTx_def split: if_splits\<close>)
  qed (use assms Some in \<open>auto simp: cancelWithdrawTx_def split: if_splits\<close>)
qed (use assms in \<open>simp add: cancelWithdrawTx_def\<close>)

inductive withdrawPlaced :: "actor \<Rightarrow> createWithdrawalDto \<Rightarrow> db \<Rightarrow> withdrawRequest \<Rightarrow> db \<Rightarrow> bool"
  for actor :: actor and dto :: createWithdrawalDto and s :: db where
  wp_reserve: "getOrCreateAccount (act_id actor) IRR_INSTRUMENT_CODE s = Inr (a, s1) \<Longrightarrow>
     0 < cw_amount dto \<Longrightarrow> cw_amount dto \<le> getUsableCapacity a \<Longrightarrow>
     wd_id w = freshId s1 \<Longrightarrow> wd_amount w = cw_amount dto \<Longrightarrow> wd_userId w = act_id actor \<Longrightarrow>
     wd_status w \<in> {WithdrawStatus.PENDING, WithdrawStatus.WAITING_ASSIGNMENT} \<Longrightarrow>
     (wd_status w = WithdrawStatus.PENDING \<longleftrightarrow> cw_purpose dto \<noteq> Some RequestPurpose.P2P) \<Longrightarrow> wd_accountTxId w = None \<Longrightarrow>
     side ((bumpId s1)\<lparr>withdrawRequests := withdrawRequests s1 @ [w]\<rparr>) s2 \<Longrightarrow>
     reserveFunds (act_id actor) IRR_INSTRUMENT_CODE (cw_amount dto) TxRefType.WITHDRAW (wd_id w) s2 = Inr (q, s3) \<Longrightarrow>
     side s3 t \<Longrightarrow> withdrawPlaced actor dto s w t"

lemma createWithdrawal_outcomes:
  assumes "createWithdrawalForUser pk cr actor dto key s = Inr (w, t)"
  shows "(\<exists>a. getOrCreateAccount (act_id actor) IRR_INSTRUMENT_CODE s = Inr (a, t) \<and> truthy key \<and>
       w \<in> set (withdrawRequests s) \<and> wd_userId w = act_id actor \<and> wd_idempotencyKey w = key) \<or>
    withdrawPlaced actor dto s w t"
proof -
  obtain a s1 where 1: "getOrCreateAccount (act_id actor) IRR_INSTRUMENT_CODE s = Inr (a, s1)" "0 < cw_amount dto"
    using assms by (auto simp: createWithdrawalForUser_def bindE_Inr_iff Let_def split: if_splits)
  have rows: "withdrawRequests s1 = withdrawRequests s" using walletFrame_sel(11) [OF getOrCreateAccount_effect(6) [OF 1(1)]] .
  show ?thesis
  proof (cases "if truthy key then findFirst (\<lambda>w. wd_userId w = act_id actor \<and> wd_idempotencyKey w = key) (withdrawRequests s1)
            else None")
    case (Some e)
    then have "truthy key" by (auto split: if_splits)
    with assms 1 Some rows show ?thesis
      by (simp add: createWithdrawalForUser_def Let_def) (auto dest: find_SomeD)
  next
    case None
    have cap: "cw_amount dto \<le> getUsableCapacity a"
      using assms 1 None by (simp add: createWithdrawalForUser_def Let_def split: if_splits)
    define purpose where "purpose = withDefault (cw_purpose dto) RequestPurpose.DIRECT"
    define channel where "channel = (if purpose = RequestPurpose.P2P
      then Some (withDefault (cw_channel dto) WithdrawalChannel.USER_TO_USER) else None)"
    define status where "status = (if purpose = RequestPurpose.P2P then WithdrawStatus.WAITING_ASSIGNMENT else WithdrawStatus.PENDING)"
    obtain snapshot where sn: "withdrawalSnapshot cr (act_id actor) dto channel s1 = Inr snapshot"
      "\<not> (purpose = RequestPurpose.P2P \<and> snapshot = None)" "\<not> (purpose = RequestPurpose.P2P \<and> \<not> truthy (cw_payoutDestinationId dto))"
      using assms 1 None cap unfolding createWithdrawalForUser_def Let_def purpose_def [symmetric] channel_def [symmetric]
      by (auto split: if_splits sum.splits)
    let ?row = "newWithdrawal (act_id actor) dto purpose channel snapshot status key s1"
    have rest: "bindE (createWithdrawRow ?row s1) (\<lambda>withdraw s.
           bindE (reserveLimit pk (withdrawLimitRequest (act_id actor) PolicyPeriod.DAILY (cw_amount dto) (wd_id withdraw)) s) (\<lambda>_ s.
           bindE (reserveLimit pk (withdrawLimitRequest (act_id actor) PolicyPeriod.MONTHLY (cw_amount dto) (wd_id withdraw)) s) (\<lambda>_ s.
           bindE (reserveFunds (act_id actor) IRR_INSTRUMENT_CODE (cw_amount dto) TxRefType.WITHDRAW (wd_id withdraw) s) (\<lambda>_ s.
           bindE (createAttachmentsForActor actor (cw_fileIds dto) AttachmentEntityType.WITHDRAW (wd_id withdraw) s) (\<lambda>_ s.
           Inr (withdraw, s)))))) = Inr (w, t)"
      using assms 1 None cap sn
      unfolding createWithdrawalForUser_def Let_def purpose_def [symmetric] channel_def [symmetric] status_def [symmetric]
      by (simp only: bindE_simps sum.case option.case not_less [symmetric] if_False not_le if_True refl simp_thms)
    from rest obtain s2 l1 s3 l2 s4 q s5 where r: "createWithdrawRow ?row s1 = Inr (w, s2)"
      "reserveLimit pk (withdrawLimitRequest (act_id actor) PolicyPeriod.DAILY (cw_amount dto) (wd_id w)) s2 = Inr (l1, s3)"
      "reserveLimit pk (withdrawLimitRequest (act_id actor) PolicyPeriod.MONTHLY (cw_amount dto) (wd_id w)) s3 = Inr (l2, s4)"
      "reserveFunds (act_id actor) IRR_INSTRUMENT_CODE (cw_amount dto) TxRefType.WITHDRAW (wd_id w) s4 = Inr (q, s5)"
      "createAttachmentsForActor actor (cw_fileIds dto) AttachmentEntityType.WITHDRAW (wd_id w) s5 = Inr ((), t)"
      unfolding bindE_Inr_iff by auto
    have s2: "w = ?row" "s2 = (bumpId s1)\<lparr>withdrawRequests := withdrawRequests s1 @ [w]\<rparr>"
      using r(1) by (auto simp: createWithdrawRow_def split: if_splits)
    have "side s2 s4" using holdsE_D [OF side_reserveLimit r(2)] holdsE_D [OF side_reserveLimit r(3)] by (rule side_trans)
    then have "withdrawPlaced actor dto s w t"
      by (intro wp_reserve [OF 1 cap _ _ _ _ _ _ _ r(4) holdsE_D [OF side_createAttachments r(5)]])
        (use s2 in \<open>auto simp: newWithdrawal_def status_def purpose_def withDefault_def split: option.splits\<close>)
    then show ?thesis ..
  qed
qed

section \<open>A run of the withdrawals\<close>

lemma withdrawals_ok_ledgerStep:
  assumes ok: "withdrawals_ok s" and e: "effect rt i d p h s t" and "rt \<noteq> TxRefType.WITHDRAW"
  shows "withdrawals_ok t"
  using withdrawLedger.ok_other [OF withdrawals_okD(1) [OF ok] e assms(3)] sameRows_sel [OF effectD(3) [OF e]]
    withdrawals_okD(3,4) [OF ok] by (simp add: withdrawals_ok_def)

lemma withdrawals_ok_side:
  assumes "withdrawals_ok s" and "side s t"
  shows "withdrawals_ok t"
proof -
  have "effect TxRefType.TRADE [] 0 (\<lambda>_. 0) (\<lambda>_. 0) s t" by (rule effect_side(1) [OF withdrawals_okD(2) [OF assms(1)] assms(2)])
  then show ?thesis by (rule withdrawals_ok_ledgerStep [OF assms(1)]) simp
qed

lemma withdrawals_ok_getAcc:
  assumes "withdrawals_ok s" and "getOrCreateAccount u c s = Inr (a, t)"
  shows "withdrawals_ok t"
proof -
  have "effect TxRefType.TRADE [] 0 (\<lambda>_. 0) (\<lambda>_. 0) s t"
    by (rule effect_getOrCreate(1) [OF withdrawals_okD(2) [OF assms(1)] assms(2)])
  then show ?thesis by (rule withdrawals_ok_ledgerStep [OF assms(1)]) simp
qed

lemma withdrawals_ok_placed:
  assumes ok: "withdrawals_ok s" and "withdrawPlaced actor dto s w t"
  shows "withdrawals_ok t \<and> findWithdraw (wd_id w) t = Some w \<and> nothingPosted TxRefType.WITHDRAW (wd_id w) t \<and> (\<exists>k. walletId (act_id actor) IRR_INSTRUMENT_CODE t = Some k \<and>
    (\<forall>j. posted j t = posted j s \<and> held j t = held j s + (if j = k then cw_amount dto else 0)))"
  using assms(2)
proof cases
  case (wp_reserve a s1 s2 q s3)
  let ?u = "(bumpId s1)\<lparr>withdrawRequests := withdrawRequests s1 @ [w]\<rparr>"
  have ok1: "withdrawals_ok s1" by (rule withdrawals_ok_getAcc [OF ok wp_reserve(1)])
  note e1 = getOrCreateAccount_effect [OF wp_reserve(1)]
  have new: "withdrawLedger.addedRow w s1 ?u"
    using wp_reserve(4,7) ledger_ok_bump [OF withdrawals_okD(2) [OF ok1]]
    by (auto simp: withdrawLedger.addedRow_def withdrawDue_def bumpId_def)
  have "withdrawHold w t = Some (AccountReservationStatus.RESERVED, cw_amount dto, act_id actor, IRR_INSTRUMENT_CODE)"
    using wp_reserve(5-7) by (auto simp: withdrawHold_def)
  note p = withdrawLedger.ok_placed [OF withdrawals_okD(1) [OF ok1] new wp_reserve(10) less_imp_le [OF wp_reserve(2)]
      wp_reserve(11,12) this]
  have "db_gen t n \<noteq> []" for n
    using withdrawals_okD(3) [OF ok1, of n] side_sel(1) [OF wp_reserve(10)] side_sel(1) [OF wp_reserve(12)]
      walletFrame_sel(1) [OF holdsE_D [OF reserveFunds_frame wp_reserve(11)]] by (simp add: bumpId_def)
  moreover have "findWithdraw (wd_id w) t = Some w"
    unfolding findWithdraw_def p(2) using withdrawLedger.addedRow_facts(1) [OF withdrawals_okD(1) [OF ok1] new]
    by (intro find_snoc_new) (auto simp: image_iff)
  moreover have txs: "accountTxs t = accountTxs s1"
    using side_sel(8) [OF wp_reserve(10)] side_sel(8) [OF wp_reserve(12)]
      reserveFunds_effect(3) [of _ _ _ _ _ s2 "fst q" "snd q" s3] wp_reserve(11) by (simp add: bumpId_def)
  moreover have "nothingPosted TxRefType.WITHDRAW (wd_id w) t"
    unfolding nothingPosted_def txs
    using withdrawLedger.ok_D(4) [OF withdrawals_okD(1) [OF ok1]] withdrawLedger.addedRow_facts(1) [OF withdrawals_okD(1) [OF ok1] new]
    by (metis (no_types, lifting) imageE option.inject)
  ultimately show ?thesis
    using p withdrawals_okD(4) [OF ok1] wp_reserve(7) e1(1,2) by (auto simp: withdrawals_ok_def)
qed

lemma withdrawals_ok_create:
  assumes ok: "withdrawals_ok s" and "createWithdrawalForUser pk cr actor dto key s = Inr (w, t)"
  shows "withdrawals_ok t"
  using createWithdrawal_outcomes [OF assms(2)]
proof
  assume "withdrawPlaced actor dto s w t"
  then show ?thesis using withdrawals_ok_placed [OF ok] by blast
next
  assume "\<exists>a. getOrCreateAccount (act_id actor) IRR_INSTRUMENT_CODE s = Inr (a, t) \<and> truthy key \<and>
       w \<in> set (withdrawRequests s) \<and> wd_userId w = act_id actor \<and> wd_idempotencyKey w = key"
  then show ?thesis using withdrawals_ok_getAcc [OF ok] by blast
qed

text \<open>A request with an open hold: its approval pays it, its rejection or cancellation gives it back.\<close>

lemma withdrawals_ok_request:
  assumes "withdrawals_ok s" and "findWithdraw i s = Some w"
  shows "w \<in> set (withdrawRequests s)" "wd_id w = i" "heldAs TxRefType.WITHDRAW i (withdrawHold w s) s"
    "wd_status w = WithdrawStatus.APPROVED \<Longrightarrow> truthy (wd_accountTxId w)"
  using findWithdraw_SomeD [OF assms(2)] withdrawLedger.ok_D(6) [OF withdrawals_okD(1) [OF assms(1)], of w]
    withdrawals_okD(4) [OF assms(1), of w] by auto

lemma withdrawals_ok_approve:
  assumes ok: "withdrawals_ok s" and run: "approveWithdrawTx nt admin i s = Inr (w, t)"
  shows "withdrawals_ok t \<and> findWithdraw i t = Some w \<and> (t = s \<and> findWithdraw i s = Some w \<and> truthy (wd_accountTxId w) \<or>
   (\<exists>w0 k. findWithdraw i s = Some w0 \<and>
    wd_status w0 = WithdrawStatus.PENDING \<and> wd_status w = WithdrawStatus.APPROVED \<and>
    walletId (wd_userId w0) IRR_INSTRUMENT_CODE s = Some k \<and> walletId (wd_userId w0) IRR_INSTRUMENT_CODE t = Some k \<and>
    (\<forall>j. posted j t = posted j s - (if j = k then wd_amount w0 else 0) \<and>
         held j t = held j s - (if j = k then wd_amount w0 else 0))))"
  using run
proof (cases rule: approveWithdrawTx_cases)
  case same
  then show ?thesis using ok by simp
next
  case (pay w0 a s1 q s2 k y s3 s4)
  let ?w = "w0\<lparr>wd_status := WithdrawStatus.APPROVED,
         wd_processedAt := Some (withDefault (wd_processedAt w0) (db_now s4)),
         wd_processedById := orElse (wd_processedById w0) (Some admin),
         wd_note := orElse nt (wd_note w0), wd_accountTxId := Some (tx_id (fst y))\<rparr>"
  note w0 = withdrawals_ok_request [OF ok pay(1)]
  have pend: "wd_status w0 = WithdrawStatus.PENDING" using pay(2,3) w0(4) by auto
  have h: "heldAs TxRefType.WITHDRAW i (Some (AccountReservationStatus.RESERVED, wd_amount w0, wd_userId w0, IRR_INSTRUMENT_CODE)) s"
    by (rule heldAs_fun [OF w0(3)]) (simp add: withdrawHold_def pend)
  note p1 = plain_getAcc [OF withdrawals_okD(2) [OF ok] pay(4), where rt = TxRefType.WITHDRAW and i = i]
  note con = pay(5) [unfolded w0(2)] and pst = pay(7) [unfolded w0(2)]
  note c = effect_consume [OF plainD(1) [OF p1] plainD(3) [OF p1 h] con]
  have k: "k = v" if "walletId (wd_userId w0) IRR_INSTRUMENT_CODE s2 = Some v" for v using c(3) that pay(6) by auto
  note e = effect_pay [OF plainD(1) [OF p1] plainD(3) [OF p1 h] con k pst]
  note p4 = plain_side [OF effectD(2) [OF e(1)] holdsE_D [OF side_consumeLimit pay(8)], where rt = TxRefType.WITHDRAW and i = i]
  note all = plain_close_plain [OF p1 e(1) p4, simplified]
  have set: "withdrawals_ok t \<and> findWithdraw i t = Some w \<and> w = ?w\<lparr>wd_updatedAt := db_now s\<rparr> \<and> sameLedger s4 t"
  proof (rule withdrawals_ok_settle [OF ok pay(1) all])
    show "heldAs TxRefType.WITHDRAW i (withdrawHold ?w s4) s4"
      using plainD(3) [OF p4 e(2)] by (simp add: withdrawHold_def)
    have "tx_id (fst y) = freshId s2" using applyTransaction_effect(3) [of k _ _ _ _ _ _ s2 "fst y" "snd y" s3] pst by simp
    moreover have "db_gen s2 n \<noteq> []" for n
      using withdrawals_okD(3) [OF ok, of n] sameRows_sel(1) [OF plainD(5) [OF p1]] sameRows_sel(1) [OF effectD(3) [OF c(1)]] by simp
    ultimately show "truthy (wd_accountTxId ?w)" by (simp add: freshId_def)
    show "updateWithdraw ?w s4 = Inr (w, t)" by (rule pay(9))
  qed (use w0(2) pend in \<open>simp_all add: withdrawDue_def\<close>)
  have k4: "walletId (wd_userId w0) IRR_INSTRUMENT_CODE s4 = Some k" by (rule plainD(4) [OF p4 e(3)])
  moreover obtain m where "walletId (wd_userId w0) IRR_INSTRUMENT_CODE s = Some m" using h by auto
  ultimately have "walletId (wd_userId w0) IRR_INSTRUMENT_CODE s = Some k" using effectD(5) [OF all] by fastforce
  with k4 have "walletId (wd_userId w0) IRR_INSTRUMENT_CODE s = Some k \<and> walletId (wd_userId w0) IRR_INSTRUMENT_CODE t = Some k \<and>
    (\<forall>j. posted j t = posted j s - (if j = k then wd_amount w0 else 0) \<and>
         held j t = held j s - (if j = k then wd_amount w0 else 0))"
    using sameLedger_sums [OF conjunct2 [OF conjunct2 [OF conjunct2 [OF set]]]] effectD(8,9) [OF all] by simp
  then show ?thesis using set pay(1) pend by auto
qed

lemma withdrawals_ok_closed:
  assumes ok: "withdrawals_ok s" and "withdrawReleased i s w t"
  shows "withdrawals_ok t \<and> findWithdraw i t = Some w \<and> wd_status w \<noteq> WithdrawStatus.APPROVED \<and> (\<exists>w0 k. findWithdraw i s = Some w0 \<and>
    walletId (wd_userId w0) IRR_INSTRUMENT_CODE s = Some k \<and> walletId (wd_userId w0) IRR_INSTRUMENT_CODE t = Some k \<and>
    (\<forall>j. posted j t = posted j s \<and> held j t = held j s -
       (if wd_status w0 = WithdrawStatus.PENDING \<and> j = k then wd_amount w0 else 0)))"
  using assms(2)
proof cases
  case (wc_release w0 w' s1 q s2)
  note w0 = withdrawals_ok_request [OF ok wc_release(1)]
  let ?open = "wd_status w0 = WithdrawStatus.PENDING"
  note p1 = plain_side [OF withdrawals_okD(2) [OF ok] holdsE_D [OF side_releaseLimit wc_release(8)], where rt = TxRefType.WITHDRAW and i = i]
  obtain k where e: "effect TxRefType.WITHDRAW i 0 (\<lambda>_. 0) (\<lambda>j. if ?open \<and> j = k then - wd_amount w0 else 0) s1 s2"
    "heldAs TxRefType.WITHDRAW i (Some (AccountReservationStatus.RELEASED, wd_amount w0, wd_userId w0, IRR_INSTRUMENT_CODE)) s2"
    "walletId (wd_userId w0) IRR_INSTRUMENT_CODE s2 = Some k"
  proof (cases ?open)
    case True
    have "heldAs TxRefType.WITHDRAW i (Some (AccountReservationStatus.RESERVED, wd_amount w0, wd_userId w0, IRR_INSTRUMENT_CODE)) s1"
      by (rule plainD(3) [OF p1 heldAs_fun [OF w0(3)]]) (simp add: withdrawHold_def True)
    note c = effect_release [OF plainD(1) [OF p1] this wc_release(9)]
    from c(3) obtain k where k: "walletId (wd_userId w0) IRR_INSTRUMENT_CODE s2 = Some k" by auto
    show ?thesis by (rule that [OF effect_cong [OF c(1)] c(2) k]) (auto simp: k True)
  next
    case False
    then have h: "heldAs TxRefType.WITHDRAW i (Some (AccountReservationStatus.RELEASED, wd_amount w0, wd_userId w0, IRR_INSTRUMENT_CODE)) s1"
      using wc_release(2) by (intro plainD(3) [OF p1 heldAs_fun [OF w0(3)]]) (auto simp: withdrawHold_def)
    note c = plain_release_closed [OF plainD(1) [OF p1] h wc_release(9)]
    have h2: "heldAs TxRefType.WITHDRAW i (Some (AccountReservationStatus.RELEASED, wd_amount w0, wd_userId w0, IRR_INSTRUMENT_CODE)) s2"
      by (rule plainD(3) [OF c h])
    then obtain k where k: "walletId (wd_userId w0) IRR_INSTRUMENT_CODE s2 = Some k" by auto
    show ?thesis by (rule that [OF effect_cong [OF plainD(2) [OF c]] h2 k]) (simp_all add: False)
  qed
  note all = effect_trans [OF plainD(2) [OF p1] e(1), simplified]
  have set: "withdrawals_ok t \<and> findWithdraw i t = Some w \<and> w = w'\<lparr>wd_updatedAt := db_now s\<rparr> \<and> sameLedger s2 t"
    by (rule withdrawals_ok_settle [OF ok wc_release(1) all wc_release(4) _ _ _ wc_release(10)])
      (use wc_release(2,5,6,7) e(2) in \<open>auto simp: withdrawDue_def withdrawHold_def\<close>)
  obtain k0 where k0: "walletId (wd_userId w0) IRR_INSTRUMENT_CODE s = Some k0"
    using w0(3) wc_release(2) by (auto simp: withdrawHold_def)
  then have "walletId (wd_userId w0) IRR_INSTRUMENT_CODE s2 = Some k0" by (rule effectD(5) [OF all])
  then have "k0 = k" using e(3) by simp
  then show ?thesis
    using set k0 sameLedger_sums [OF conjunct2 [OF conjunct2 [OF conjunct2 [OF set]]]] effectD(8,9) [OF all] wc_release(1,7) e(3)
    by auto
qed

lemma side_cashOut: "holdsE (\<lambda>_. side s) (enqueueTahesabCashOutForWithdrawal cfg w s)"
  by (auto simp: enqueueTahesabCashOutForWithdrawal_def Let_def intro: side_enqueueOnce)

lemma side_withdrawDeletion: "holdsE (\<lambda>_. side s) (enqueueTahesabDeletionForWithdrawal i s)"
  by (auto simp: enqueueTahesabDeletionForWithdrawal_def split: option.split intro: side_enqueueOnce)

lemma approveWithdraw_split:
  assumes "approveWithdraw cfg i nt admin s = Inr (w, t)"
  obtains t' where "approveWithdrawTx nt admin i s = Inr (w, t')" "side t' t"
    "enqueueTahesabCashOutForWithdrawal cfg w t' = Inr ((), t)"
  using assms holdsE_D [OF side_cashOut] by (auto simp: approveWithdraw_def bindE_Inr_iff)

lemma cashOut_again:
  "enqueueTahesabCashOutForWithdrawal cfg w s = Inr (x, t) \<Longrightarrow> enqueueTahesabCashOutForWithdrawal cfg w t = Inr ((), t)"
  by (auto simp: enqueueTahesabCashOutForWithdrawal_def Let_def side_sel findUser_def dest: enqueueOnce_again
      split: if_splits)

text \<open>Any sequence of successful requests and decisions, with the clock moving in between.\<close>

inductive withdrawRun :: "db \<Rightarrow> db \<Rightarrow> bool" where
  wr_start: "withdrawRun s s"
| wr_clock: "withdrawRun s t \<Longrightarrow> withdrawRun s (t\<lparr>db_now := n\<rparr>)"
| wr_create: "withdrawRun s t \<Longrightarrow> createWithdrawalForUser pk cr actor dto key t = Inr (w, t') \<Longrightarrow> withdrawRun s t'"
| wr_approve: "withdrawRun s t \<Longrightarrow> approveWithdraw cfg i nt admin t = Inr (w, t') \<Longrightarrow> withdrawRun s t'"
| wr_reject: "withdrawRun s t \<Longrightarrow> rejectWithdraw nt admin i t = Inr (w, t') \<Longrightarrow> withdrawRun s t'"
| wr_cancel: "withdrawRun s t \<Longrightarrow> cancelWithdrawal i reason t = Inr (w, t') \<Longrightarrow> withdrawRun s t'"

lemma withdrawRun_ok: "withdrawRun s t \<Longrightarrow> withdrawals_ok s \<Longrightarrow> withdrawals_ok t"
proof (induction rule: withdrawRun.induct)
  case (wr_clock s t n)
  then have ok: "withdrawals_ok t" by blast
  have "requests_ok withdrawRequests wd_id TxRefType.WITHDRAW withdrawDue withdrawHold (t\<lparr>db_now := n\<rparr>)"
    by (rule withdrawLedger.ok_clock [OF withdrawals_okD(1) [OF ok]]) simp
  then show ?case using ok by (simp add: withdrawals_ok_def)
next
  case (wr_create s t pk cr actor dto key w t')
  then show ?case using withdrawals_ok_create by blast
next
  case (wr_approve s t cfg i nt admin w t')
  then show ?case using approveWithdraw_split withdrawals_ok_approve withdrawals_ok_side by metis
next
  case (wr_reject s t nt admin i w t')
  then show ?case using rejectWithdraw_closed withdrawals_ok_closed by metis
next
  case (wr_cancel s t i reason w t')
  then obtain t1 where 1: "cancelWithdrawTx reason i t = Inr (w, t1)" "side t1 t'"
    using holdsE_D [OF side_withdrawDeletion] by (auto simp: cancelWithdrawal_def bindE_Inr_iff)
  have "withdrawals_ok t1" using wr_cancel cancelWithdrawTx_closed [OF 1(1)] withdrawals_ok_closed by metis
  then show ?case using 1(2) by (rule withdrawals_ok_side)
qed

text \<open>A pending withdrawal can be rejected.\<close>

lemma rejectWithdraw_succeeds:
  assumes ok: "withdrawals_ok s" and w: "findWithdraw i s = Some w" "wd_status w = WithdrawStatus.PENDING"
      "wd_accountTxId w = None" "wd_userId w \<noteq> HOUSE_USER_ID"
  obtains r t k where "rejectWithdraw nt admin i s = Inr (r, t)" "wd_status r = WithdrawStatus.REJECTED" "withdrawals_ok t"
    "walletId (wd_userId w) IRR_INSTRUMENT_CODE t = Some k" "findWithdraw i t = Some r" "wd_accountTxId r = None"
    "\<forall>j. posted j t = posted j s \<and> held j t = held j s - (if j = k then wd_amount w else 0)"
    "walletId (wd_userId w) IRR_INSTRUMENT_CODE s = Some k"
proof -
  note w0 = withdrawals_ok_request [OF ok w(1)]
  obtain s1 where s1: "releaseLimit TxRefType.WITHDRAW i s = Inr ((), s1)" using releaseLimit_total by blast
  note p1 = plain_side [OF withdrawals_okD(2) [OF ok] holdsE_D [OF side_releaseLimit s1], where rt = TxRefType.WITHDRAW and i = i]
  have h: "heldAs TxRefType.WITHDRAW i (Some (AccountReservationStatus.RESERVED, wd_amount w, wd_userId w, IRR_INSTRUMENT_CODE)) s1"
    by (rule plainD(3) [OF p1 heldAs_fun [OF w0(3)]]) (simp add: withdrawHold_def w(2))
  from open_hold_closes(2) [OF plainD(1) [OF p1] w(4) h]
  obtain q s2 where "releaseFunds (wd_userId w) IRR_INSTRUMENT_CODE TxRefType.WITHDRAW i s1 = Inr (q, s2)" by blast
  with s1 obtain r t where run: "rejectWithdraw nt admin i s = Inr (r, t)"
    using w w0(2) by (auto simp: rejectWithdraw_def updateWithdraw_def Let_def)
  have "wd_accountTxId r = None"
    using run w by (auto simp: rejectWithdraw_def updateWithdraw_def bindE_Inr_iff Let_def)
  moreover have cl: "withdrawReleased i s r t" "wd_status r = WithdrawStatus.REJECTED"
    using rejectWithdraw_closed [OF run] w by auto
  ultimately show ?thesis using withdrawals_ok_closed [OF ok cl(1)] run w(1,2) that by auto
qed

text \<open>A pending withdrawal nothing is posted for yet can be approved.\<close>

lemma approveWithdraw_succeeds:
  assumes ok: "withdrawals_ok s" and w: "findWithdraw i s = Some w" "wd_status w = WithdrawStatus.PENDING"
      "wd_accountTxId w = None" "wd_userId w \<noteq> HOUSE_USER_ID"
    and new: "nothingPosted TxRefType.WITHDRAW i s"
  shows "\<exists>r t. approveWithdraw cfg i nt admin s = Inr (r, t)"
proof -
  note w0 = withdrawals_ok_request [OF ok w(1)]
  have h: "heldAs TxRefType.WITHDRAW i (Some (AccountReservationStatus.RESERVED, wd_amount w, wd_userId w, IRR_INSTRUMENT_CODE)) s"
    by (rule heldAs_fun [OF w0(3)]) (simp add: withdrawHold_def w(2))
  then obtain k where "walletId (wd_userId w) IRR_INSTRUMENT_CODE s = Some k" by auto
  then have "findInstrument IRR_INSTRUMENT_CODE s \<noteq> None" by (auto simp: walletId_def split: option.splits)
  from getOrCreateAccount_succeeds [OF w(4) this]
  obtain a s1 where acc: "getOrCreateAccount (wd_userId w) IRR_INSTRUMENT_CODE s = Inr (a, s1)" by blast
  note p1 = plain_getAcc [OF withdrawals_okD(2) [OF ok] acc, where rt = TxRefType.WITHDRAW and i = i]
  note h1 = plainD(3) [OF p1 h]
  obtain q s2 where con: "consumeFunds (wd_userId w) IRR_INSTRUMENT_CODE TxRefType.WITHDRAW i s1 = Inr (q, s2)"
    using open_hold_closes(1) [OF plainD(1) [OF p1] w(4) h1] by blast
  obtain b and v :: accountReservation where b: "q = Some (b, v)" "findAccount (ac_id b) s2 = Some b"
    "ac_blockedBalance b + wd_amount w + ac_minBalance b \<le> ac_balance b"
    by (rule closing_found [OF plainD(1) [OF p1] h1 con])
  have txs: "accountTxs s2 = accountTxs s"
    using closing_effect [OF plainD(1) [OF p1] disjI1 [OF con]] getOrCreateAccount_effect(4) [OF acc] by auto
  have le: "ac_blockedBalance b + ac_minBalance b \<le> ac_balance b + - wd_amount w" using b(3) by simp
  have free: "tx_entrySide y \<noteq> entrySideOf (- wd_amount w)"
    if "y \<in> set (accountTxs s2)" "tx_refType y = TxRefType.WITHDRAW" "tx_refId y = Some i" "tx_accountId y = ac_id b" for y
    using that new by (simp add: txs nothingPosted_def)
  from applyTransaction_succeeds [OF b(2) le free, where ty = AccountTxType.WITHDRAW and cb = "Some admin"]
  obtain x b' s3 where pst: "applyTransaction (ac_id b) (- wd_amount w) AccountTxType.WITHDRAW TxRefType.WITHDRAW (Some i)
      (Some admin) None s2 = Inr ((x, b'), s3)" by blast
  obtain s4 where lim: "consumeLimit TxRefType.WITHDRAW i s3 = Inr ((), s4)" using consumeLimit_total by blast
  have "getUsableCapacity b \<ge> wd_amount w" using b(3) by (simp add: getUsableCapacity_def)
  with w w0(2) acc con b(1) pst lim obtain r t where r: "approveWithdrawTx nt admin i s = Inr (r, t)"
    by (auto simp: approveWithdrawTx_def updateWithdraw_def Let_def)
  have "\<exists>t'. enqueueTahesabCashOutForWithdrawal cfg r t = Inr ((), t')"
    using enqueueOnce_total by (simp add: enqueueTahesabCashOutForWithdrawal_def Let_def)
  with r show ?thesis by (auto simp: approveWithdraw_def)
qed

lemma created_withdrawal:
  assumes "withdrawals_ok s" and "createWithdrawalForUser pk cr actor dto key s = Inr (w, t)"
    and "\<not> truthy key \<or> w \<notin> set (withdrawRequests s)"
  obtains k where "withdrawals_ok t" "findWithdraw (wd_id w) t = Some w" "nothingPosted TxRefType.WITHDRAW (wd_id w) t"
    "wd_amount w = cw_amount dto" "wd_userId w = act_id actor" "wd_accountTxId w = None"
    "wd_status w \<in> {WithdrawStatus.PENDING, WithdrawStatus.WAITING_ASSIGNMENT}"
    "wd_status w = WithdrawStatus.PENDING \<longleftrightarrow> cw_purpose dto \<noteq> Some RequestPurpose.P2P"
    "walletId (act_id actor) IRR_INSTRUMENT_CODE t = Some k"
    "\<forall>j. posted j t = posted j s \<and> held j t = held j s + (if j = k then cw_amount dto else 0)"
proof -
  have p: "withdrawPlaced actor dto s w t" using createWithdrawal_outcomes [OF assms(2)] assms(3) by blast
  then have "wd_amount w = cw_amount dto" "wd_userId w = act_id actor" "wd_accountTxId w = None"
    "wd_status w \<in> {WithdrawStatus.PENDING, WithdrawStatus.WAITING_ASSIGNMENT}"
    "wd_status w = WithdrawStatus.PENDING \<longleftrightarrow> cw_purpose dto \<noteq> Some RequestPurpose.P2P" by (cases; simp)+
  with withdrawals_ok_placed [OF assms(1) p] show ?thesis using that by blast
qed

section \<open>Properties\<close>

text \<open>The concrete state: a client \<open>ali\<close> with 100 rials, and a request for 60 of them.\<close>

definition aliUser :: user where
  "aliUser = \<lparr>us_id = ''ali'', us_fullName = ''Ali'', us_mobile = ''0912'', us_email = ''ali@example.com'',
     us_role = UserRole.CLIENT, us_status = UserStatus.ACTIVE, us_tahesabCustomerCode = None, us_customerGroupId = None,
     us_password = [], us_createdAt = 0, us_updatedAt = 0\<rparr>"

definition clientDb :: db where
  "clientDb = aliDb\<lparr>users := [aliUser]\<rparr>"

definition sixty :: createWithdrawalDto where
  "sixty = \<lparr>cw_amount = 60, cw_purpose = None, cw_channel = None, cw_payoutDestinationId = None, cw_bankName = None,
     cw_iban = Some ''IR1'', cw_cardNumber = None, cw_note = None, cw_fileIds = None\<rparr>"

definition aliActor :: actor where
  "aliActor = \<lparr>act_id = ''ali'', act_role = UserRole.CLIENT\<rparr>"

definition plainCrypto :: destinationCrypto where
  "plainCrypto = \<lparr>cr_encrypt = (\<lambda>x. CHR ''e'' # x), cr_decrypt = tl, cr_hash = (\<lambda>x. x)\<rparr>"

lemma clientDb_ok: "withdrawals_ok clientDb"
proof -
  have "ledger_ok clientDb" using aliDb_ok by (simp add: clientDb_def)
  moreover have "unaryId n \<noteq> []" for n by (simp add: unaryId_def)
  ultimately show ?thesis
    using inj_unaryId
    by (simp add: withdrawals_ok_def requests_ok_def books_ok_def keys_ok_def clientDb_def aliDb_def emptyDb_def aliTx_def)
qed

lemma clientDb_create:
  obtains w t where "createWithdrawalForUser dayKeys cr aliActor sixty None clientDb = Inr (w, t)" "wd_amount w = 60"
    "wd_userId w = ''ali''"
proof -
  have "case createWithdrawalForUser dayKeys cr aliActor sixty None clientDb of Inl _ \<Rightarrow> False
    | Inr (w, _) \<Rightarrow> wd_amount w = 60 \<and> wd_userId w = ''ali''" by code_simp
  then show ?thesis using that by (auto split: sum.splits)
qed

text \<open>
  C3. The withdrawals are always sound: after any sequence of requests, approvals, rejections and
  cancellations, what is held under a request is its amount while it waits and nothing otherwise, what
  stands posted under it is minus its amount once it is approved and nothing otherwise, and the ledger
  is sound.
\<close>

theorem withdrawal_holds_and_books:
  assumes "withdrawRun s t" and "withdrawals_ok s" and "w \<in> set (withdrawRequests t)"
  shows "ledger_ok t \<and>
    heldUnder TxRefType.WITHDRAW (wd_id w) t =
      (if wd_status w \<in> {WithdrawStatus.PENDING, WithdrawStatus.WAITING_ASSIGNMENT} then wd_amount w else 0) \<and>
    booked TxRefType.WITHDRAW (wd_id w) t = (if wd_status w = WithdrawStatus.APPROVED then - wd_amount w else 0)"
  using withdrawLedger.ok_request [OF withdrawals_okD(1) [OF withdrawRun_ok [OF assms(1,2)]] assms(3)]
  by (simp add: withdrawDue_def withdrawHold_def)

lemma withdrawal_holds_and_books_witness:
  "\<exists>w t. createWithdrawalForUser dayKeys plainCrypto aliActor sixty None clientDb = Inr (w, t) \<and>
     heldUnder TxRefType.WITHDRAW (wd_id w) t = 60"
proof -
  obtain w t where 1: "createWithdrawalForUser dayKeys plainCrypto aliActor sixty None clientDb = Inr (w, t)" "wd_amount w = 60"
    by (rule clientDb_create)
  have run: "withdrawRun clientDb t" by (rule wr_create [OF wr_start 1(1)])
  have 2: "\<not> truthy (None :: string option)" by simp
  have w: "findWithdraw (wd_id w) t = Some w" "wd_status w \<in> {WithdrawStatus.PENDING, WithdrawStatus.WAITING_ASSIGNMENT}"
    by (rule created_withdrawal [OF clientDb_ok 1(1) disjI1 [OF 2]], assumption)+
  have "w \<in> set (withdrawRequests t)" using findWithdraw_SomeD [OF w(1)] by blast
  from withdrawal_holds_and_books [OF run clientDb_ok this] w(2) 1 show ?thesis by auto
qed

text \<open>
  C19. Approving a pending withdrawal takes its amount from the client's rial wallet together with the
  hold on it, and touches no other account; approving it again answers the same row and changes
  nothing, and rejecting or cancelling it is refused from then on.
\<close>

theorem approve_debits_once:
  assumes "findWithdraw i s = Some w0" and "wd_status w0 = WithdrawStatus.PENDING" and "wd_accountTxId w0 = None"
    and "withdrawals_ok s" and "approveWithdraw cfg i nt admin s = Inr (w, t)"
  shows "wd_status w = WithdrawStatus.APPROVED \<and> findWithdraw i t = Some w \<and>
    (\<exists>k. walletId (wd_userId w0) ''IRR'' t = Some k \<and>
       (\<forall>j. posted j t = posted j s - (if j = k then wd_amount w0 else 0) \<and>
            held j t = held j s - (if j = k then wd_amount w0 else 0))) \<and>
    approveWithdraw cfg i nt' admin' t = Inr (w, t) \<and>
    rejectWithdraw nt' admin' i t = Inl (BadRequestException ''Withdrawal already processed'') \<and>
    cancelWithdrawal i reason t = Inl (BadRequestException ''Withdrawal already processed'')"
proof -
  from assms(5) obtain t' where 1: "approveWithdrawTx nt admin i s = Inr (w, t')" "side t' t"
      "enqueueTahesabCashOutForWithdrawal cfg w t' = Inr ((), t)" by (rule approveWithdraw_split)
  note a = withdrawals_ok_approve [OF assms(4) 1(1)] and sums = sameLedger_sums [OF side_ledger [OF 1(2)]]
  have ok: "withdrawals_ok t" using withdrawals_ok_side a 1(2) by blast
  have found: "findWithdraw i t = Some w" using a 1(2) by (simp add: findWithdraw_def side_sel)
  from a assms(1,3) obtain k where k: "wd_status w = WithdrawStatus.APPROVED"
    "walletId (wd_userId w0) IRR_INSTRUMENT_CODE t' = Some k"
    "\<forall>j. posted j t' = posted j s - (if j = k then wd_amount w0 else 0) \<and>
       held j t' = held j s - (if j = k then wd_amount w0 else 0)" by auto
  have tru: "truthy (wd_accountTxId w)" by (rule withdrawals_ok_request(4) [OF ok found k(1)])
  have "approveWithdraw cfg i nt' admin' t = Inr (w, t)"
    using found tru cashOut_again [OF 1(3)] by (simp add: approveWithdraw_def approveWithdrawTx_def)
  then show ?thesis
    using found k tru by (auto simp: sums IRR_INSTRUMENT_CODE_def rejectWithdraw_def cancelWithdrawal_def cancelWithdrawTx_def)
qed

lemma approve_debits_once_witness:
  "\<exists>w t w' t'. createWithdrawalForUser dayKeys plainCrypto aliActor sixty None clientDb = Inr (w, t) \<and>
     approveWithdraw noTahesab (wd_id w) None ''root'' t = Inr (w', t') \<and> wd_status w' = WithdrawStatus.APPROVED \<and>
     approveWithdraw noTahesab (wd_id w) None ''root'' t' = Inr (w', t') \<and>
     (\<exists>k. walletId ''ali'' ''IRR'' t' = Some k \<and> posted k t' = posted k t - 60)"
proof -
  obtain w t where 1: "createWithdrawalForUser dayKeys plainCrypto aliActor sixty None clientDb = Inr (w, t)" "wd_amount w = 60"
    "wd_userId w = ''ali''" by (rule clientDb_create)
  have key: "\<not> truthy (None :: string option)" by simp
  have w: "withdrawals_ok t" "findWithdraw (wd_id w) t = Some w" "nothingPosted TxRefType.WITHDRAW (wd_id w) t"
    "wd_accountTxId w = None" "wd_status w = WithdrawStatus.PENDING \<longleftrightarrow> cw_purpose sixty \<noteq> Some RequestPurpose.P2P"
    by (rule created_withdrawal [OF clientDb_ok 1(1) disjI1 [OF key]], assumption)+
  have pend: "wd_status w = WithdrawStatus.PENDING" using w(5) by (simp add: sixty_def)
  have "wd_userId w \<noteq> HOUSE_USER_ID" by (simp add: 1 HOUSE_USER_ID_def)
  from approveWithdraw_succeeds [OF w(1,2) pend w(4) this w(3), of noTahesab None "''root''"]
  obtain w' t' where a: "approveWithdraw noTahesab (wd_id w) None ''root'' t = Inr (w', t')" by blast
  from approve_debits_once [OF w(2) pend w(4,1) a, of None "''root''" None] 1 a show ?thesis by auto
qed

lemma withdrawals_ok_placed_new:
  assumes "withdrawals_ok s" and "withdrawPlaced actor dto s w t"
  shows "w \<notin> set (withdrawRequests s)"
  using assms(2)
proof cases
  case (wp_reserve a s1 s2 q s3)
  note ok = withdrawals_ok_getAcc [OF assms(1) wp_reserve(1)]
  have "wd_id w \<notin> wd_id ` set (withdrawRequests s1)"
    using freshId_notin [OF withdrawLedger.ok_D(2) [OF withdrawals_okD(1) [OF ok]]] wp_reserve(4) by simp
  then show ?thesis using walletFrame_sel(11) [OF getOrCreateAccount_effect(6) [OF wp_reserve(1)]] by auto
qed

text \<open>What the decisions on a new request do: the approval and the rejection of a direct one, and the refusals for a P2P one.\<close>

lemma decisions_of_new:
  assumes "withdrawals_ok s" and "createWithdrawalForUser pk cr actor dto key s = Inr (w, t)"
    and new: "w \<notin> set (withdrawRequests s)" and "act_id actor \<noteq> HOUSE_USER_ID"
  shows "\<exists>k. walletId (act_id actor) ''IRR'' t = Some k \<and>
      (\<forall>j. posted j t = posted j s \<and> held j t = held j s + (if j = k then cw_amount dto else 0))"
    and "cw_purpose dto \<noteq> Some RequestPurpose.P2P \<Longrightarrow> \<exists>r u k. approveWithdraw cfg (wd_id w) nt admin t = Inr (r, u) \<and>
      wd_status r = WithdrawStatus.APPROVED \<and> walletId (act_id actor) ''IRR'' u = Some k \<and>
      (\<forall>j. posted j u = posted j s - (if j = k then cw_amount dto else 0) \<and> held j u = held j s)"
    and "cw_purpose dto \<noteq> Some RequestPurpose.P2P \<Longrightarrow>
      \<exists>r u. rejectWithdraw nt admin (wd_id w) t = Inr (r, u) \<and> wd_status r = WithdrawStatus.REJECTED \<and>
      (\<forall>j. posted j u = posted j s \<and> held j u = held j s) \<and>
      approveWithdraw cfg (wd_id w) nt admin u = Inl (BadRequestException ''Withdrawal already processed'')"
    and "cw_purpose dto = Some RequestPurpose.P2P \<Longrightarrow>
      approveWithdraw cfg (wd_id w) nt admin t = Inl (BadRequestException ''Withdrawal already processed'') \<and>
      rejectWithdraw nt admin (wd_id w) t = Inl (BadRequestException ''Withdrawal already processed'') \<and>
      (\<exists>u. cancelWithdrawal (wd_id w) nt t = Inr (w, u) \<and> sameLedger t u \<and> withdrawRequests u = withdrawRequests t)"
proof -
  obtain k where w: "withdrawals_ok t" "findWithdraw (wd_id w) t = Some w" "nothingPosted TxRefType.WITHDRAW (wd_id w) t"
    "wd_amount w = cw_amount dto" "wd_userId w = act_id actor" "wd_accountTxId w = None"
    "wd_status w \<in> {WithdrawStatus.PENDING, WithdrawStatus.WAITING_ASSIGNMENT}"
    "wd_status w = WithdrawStatus.PENDING \<longleftrightarrow> cw_purpose dto \<noteq> Some RequestPurpose.P2P"
    "walletId (act_id actor) IRR_INSTRUMENT_CODE t = Some k"
    "\<forall>j. posted j t = posted j s \<and> held j t = held j s + (if j = k then cw_amount dto else 0)"
    by (rule created_withdrawal [OF assms(1,2) disjI2 [OF new]])
  have house: "wd_userId w \<noteq> HOUSE_USER_ID" using w(5) assms(4) by simp
  show "\<exists>k. walletId (act_id actor) ''IRR'' t = Some k \<and>
      (\<forall>j. posted j t = posted j s \<and> held j t = held j s + (if j = k then cw_amount dto else 0))"
    using w(9,10) by (auto simp: IRR_INSTRUMENT_CODE_def)
  show "\<exists>r u k. approveWithdraw cfg (wd_id w) nt admin t = Inr (r, u) \<and>
      wd_status r = WithdrawStatus.APPROVED \<and> walletId (act_id actor) ''IRR'' u = Some k \<and>
      (\<forall>j. posted j u = posted j s - (if j = k then cw_amount dto else 0) \<and> held j u = held j s)"
    if d: "cw_purpose dto \<noteq> Some RequestPurpose.P2P"
  proof -
    have pend: "wd_status w = WithdrawStatus.PENDING" using w(8) d by simp
    from approveWithdraw_succeeds [OF w(1,2) pend w(6) house w(3)]
    obtain r u where a: "approveWithdraw cfg (wd_id w) nt admin t = Inr (r, u)" by blast
    obtain t' where 1: "approveWithdrawTx nt admin (wd_id w) t = Inr (r, t')" "side t' u" by (rule approveWithdraw_split [OF a])
    note sums = sameLedger_sums [OF side_ledger [OF 1(2)]]
    have "wd_status r = WithdrawStatus.APPROVED \<and> walletId (wd_userId w) IRR_INSTRUMENT_CODE t' = Some k \<and>
      (\<forall>j. posted j t' = posted j t - (if j = k then wd_amount w else 0) \<and> held j t' = held j t - (if j = k then wd_amount w else 0))"
      using withdrawals_ok_approve [OF w(1) 1(1)] w(2,5,6,9) by auto
    then show ?thesis using a w(4,5,10) by (auto simp: sums IRR_INSTRUMENT_CODE_def)
  qed
  show "\<exists>r u. rejectWithdraw nt admin (wd_id w) t = Inr (r, u) \<and> wd_status r = WithdrawStatus.REJECTED \<and>
      (\<forall>j. posted j u = posted j s \<and> held j u = held j s) \<and>
      approveWithdraw cfg (wd_id w) nt admin u = Inl (BadRequestException ''Withdrawal already processed'')"
    if d: "cw_purpose dto \<noteq> Some RequestPurpose.P2P"
  proof -
    have pend: "wd_status w = WithdrawStatus.PENDING" using w(8) d by simp
    obtain r u k' where r: "rejectWithdraw nt admin (wd_id w) t = Inr (r, u)" "wd_status r = WithdrawStatus.REJECTED"
      "walletId (wd_userId w) IRR_INSTRUMENT_CODE u = Some k'" "findWithdraw (wd_id w) u = Some r" "wd_accountTxId r = None"
      "\<forall>j. posted j u = posted j t \<and> held j u = held j t - (if j = k' then wd_amount w else 0)"
      "walletId (wd_userId w) IRR_INSTRUMENT_CODE t = Some k'"
      by (rule rejectWithdraw_succeeds [OF w(1,2) pend w(6) house, of nt admin])
    have "k' = k" using r(7) w(5,9) by simp
    then have "\<forall>j. posted j u = posted j s \<and> held j u = held j s" using r(6) w(4,10) by simp
    moreover have "approveWithdraw cfg (wd_id w) nt admin u = Inl (BadRequestException ''Withdrawal already processed'')"
      using r(2,4,5) by (simp add: approveWithdraw_def approveWithdrawTx_def)
    ultimately show ?thesis using r(1,2) by blast
  qed
  show "approveWithdraw cfg (wd_id w) nt admin t = Inl (BadRequestException ''Withdrawal already processed'') \<and>
      rejectWithdraw nt admin (wd_id w) t = Inl (BadRequestException ''Withdrawal already processed'') \<and>
      (\<exists>u. cancelWithdrawal (wd_id w) nt t = Inr (w, u) \<and> sameLedger t u \<and> withdrawRequests u = withdrawRequests t)"
    if d: "cw_purpose dto = Some RequestPurpose.P2P"
  proof -
    have wait: "wd_status w = WithdrawStatus.WAITING_ASSIGNMENT" using w(7,8) d by auto
    obtain u where u: "enqueueTahesabDeletionForWithdrawal (wd_id w) t = Inr ((), u)"
      using enqueueOnce_total by (fastforce simp: enqueueTahesabDeletionForWithdrawal_def split: option.split)
    note side = holdsE_D [OF side_withdrawDeletion u]
    have "cancelWithdrawal (wd_id w) nt t = Inr (w, u)"
      using w(2,6) u wait by (simp add: cancelWithdrawal_def cancelWithdrawTx_def)
    moreover have "sameLedger t u" "withdrawRequests u = withdrawRequests t" using side_ledger [OF side] side_sel [OF side] by simp_all
    ultimately show ?thesis using w(2,6) wait by (simp add: approveWithdraw_def approveWithdrawTx_def rejectWithdraw_def)
  qed
qed



end
