(* ===== verification/Custody.thy ===== *)
theory Custody
  imports Withdrawals
begin

text \<open>
  \<open>modules/physical-custody/physical-custody.service.ts\<close>: gold brought to the vault and taken from
  it. An approved movement moves its 750-equivalent weight between the client's gold wallet and the
  house's; a withdrawal is reserved when it is requested. The printing of a weight is a parameter.
\<close>

section \<open>Operations\<close>

definition toEquivGram750 :: "decimal \<Rightarrow> int \<Rightarrow> decimal" where
  "toEquivGram750 weightGram ayar = toFixed6 (weightGram * of_int ayar / 750)"

definition findMovement :: "id \<Rightarrow> db \<Rightarrow> physicalCustodyMovement option" where
  "findMovement i s = findFirst (\<lambda>m. cm_id m = i) (physicalCustodyMovements s)"

definition updateMovement :: "physicalCustodyMovement \<Rightarrow> db \<Rightarrow> physicalCustodyMovement tx" where
  "updateMovement m s =
     (let m' = m\<lparr>cm_updatedAt := db_now s\<rparr>
      in Inr (m', s\<lparr>physicalCustodyMovements :=
                updateRows (\<lambda>x. cm_id x = cm_id m) (\<lambda>_. m') (physicalCustodyMovements s)\<rparr>))"

definition createMovementRow :: "physicalCustodyMovement \<Rightarrow> db \<Rightarrow> physicalCustodyMovement tx" where
  "createMovementRow m s =
     (if cm_idempotencyKey m \<noteq> None \<and> (\<exists>x\<in>set (physicalCustodyMovements s). cm_userId x = cm_userId m \<and>
            cm_idempotencyKey x = cm_idempotencyKey m)
        then Inl (UniqueConstraintViolation ''PhysicalCustodyMovement'')
      else Inr (m, (bumpId s)\<lparr>physicalCustodyMovements := physicalCustodyMovements s @ [m]\<rparr>))"

record createMovementDto =
  cc_movementType :: PhysicalCustodyMovementType
  cc_weightGram :: decimal
  cc_ayar :: int
  cc_note :: "string option"

definition newMovement :: "id \<Rightarrow> createMovementDto \<Rightarrow> string option \<Rightarrow> db \<Rightarrow> physicalCustodyMovement" where
  "newMovement userId dto idempotencyKey s =
     \<lparr>cm_id = freshId s, cm_createdAt = db_now s, cm_updatedAt = db_now s, cm_idempotencyKey = idempotencyKey,
      cm_userId = userId, cm_movementType = cc_movementType dto,
      cm_status = PhysicalCustodyMovementStatus.PENDING, cm_weightGram = cc_weightGram dto, cm_ayar = cc_ayar dto,
      cm_equivGram750 = Some (toEquivGram750 (cc_weightGram dto) (cc_ayar dto)), cm_userGoldAccountTxId = None,
      cm_houseGoldAccountTxId = None, cm_note = cc_note dto\<rparr>"

definition custodyLimitRequest ::
  "id \<Rightarrow> PhysicalCustodyMovementType \<Rightarrow> PolicyPeriod \<Rightarrow> decimal \<Rightarrow> instrument \<Rightarrow> id \<Rightarrow> limitRequest" where
  "custodyLimitRequest userId movementType period equivWeight instrument refId =
     \<lparr>lq_userId = userId,
      lq_action = (if movementType = PhysicalCustodyMovementType.DEPOSIT then PolicyAction.CUSTODY_IN
                   else PolicyAction.CUSTODY_OUT),
      lq_metric = PolicyMetric.WEIGHT_750_G, lq_period = period, lq_amount = equivWeight, lq_instrumentKey = None,
      lq_instrumentId = Some (in_id instrument), lq_instrumentType = Some (in_type instrument),
      lq_productId = None, lq_refType = TxRefType.PHYSICAL_CUSTODY_MOVEMENT, lq_refId = refId\<rparr>"

definition requestMovement ::
  "periodKeys \<Rightarrow> id \<Rightarrow> createMovementDto \<Rightarrow> string option \<Rightarrow> db \<Rightarrow> physicalCustodyMovement tx" where
  "requestMovement pk userId dto idempotencyKey s =
     (let weight = cc_weightGram dto; equivWeight = toEquivGram750 weight (cc_ayar dto)
      in if userId = [] then Inl (BadRequestException ''Authenticated user is required for custody requests'')
      else if weight \<le> 0 then Inl (BadRequestException ''Weight must be positive'')
      else case (if truthy idempotencyKey
              then findFirst (\<lambda>m. cm_userId m = userId \<and> cm_idempotencyKey m = idempotencyKey) (physicalCustodyMovements s)
            else None) of
        Some existing \<Rightarrow> Inr (existing, s)
      | None \<Rightarrow>
      (case findInstrument GOLD_750_INSTRUMENT_CODE s of
         None \<Rightarrow> Inl (NotFoundException ''Gold instrument not configured'')
       | Some instrument \<Rightarrow>
         bindE (createMovementRow (newMovement userId dto idempotencyKey s) s) (\<lambda>movement s.
         bindE (reserveLimit pk (custodyLimitRequest userId (cc_movementType dto) PolicyPeriod.DAILY equivWeight
                                   instrument (cm_id movement)) s) (\<lambda>_ s.
         bindE (reserveLimit pk (custodyLimitRequest userId (cc_movementType dto) PolicyPeriod.MONTHLY equivWeight
                                   instrument (cm_id movement)) s) (\<lambda>_ s.
         if cc_movementType dto = PhysicalCustodyMovementType.WITHDRAWAL
           then bindE (reserveFunds userId (in_code instrument) equivWeight TxRefType.PHYSICAL_CUSTODY_MOVEMENT
                         (cm_id movement) s) (\<lambda>_ s. Inr (movement, s))
         else Inr (movement, s))))))"

definition movementEquiv :: "physicalCustodyMovement \<Rightarrow> decimal" where
  "movementEquiv m = (case cm_equivGram750 m of Some e \<Rightarrow> e | None \<Rightarrow> toEquivGram750 (cm_weightGram m) (cm_ayar m))"

definition approveMovementTx :: "id option \<Rightarrow> id \<Rightarrow> db \<Rightarrow> physicalCustodyMovement tx" where
  "approveMovementTx adminId i s =
     (case findMovement i s of
        None \<Rightarrow> Inl (NotFoundException ''Movement not found'')
      | Some movement \<Rightarrow>
          (if cm_status movement = PhysicalCustodyMovementStatus.APPROVED then Inr (movement, s)
           else if cm_status movement \<noteq> PhysicalCustodyMovementStatus.PENDING
             then Inl (BadRequestException ''INVALID_STATUS'')
           else
             let deltaEquiv = movementEquiv movement;
                 withdrawal = (cm_movementType movement = PhysicalCustodyMovementType.WITHDRAWAL);
                 userDelta = (if cm_movementType movement = PhysicalCustodyMovementType.DEPOSIT then deltaEquiv
                              else - deltaEquiv)
             in bindE (if withdrawal
                         then bindE (consumeFunds (cm_userId movement) GOLD_750_INSTRUMENT_CODE
                                TxRefType.PHYSICAL_CUSTODY_MOVEMENT (cm_id movement) s) (\<lambda>_ s. Inr ((), s))
                       else Inr ((), s)) (\<lambda>_ s.
                bindE (getOrCreateAccount (cm_userId movement) GOLD_750_INSTRUMENT_CODE s) (\<lambda>userGold s.
                bindE (getOrCreateAccount HOUSE_USER_ID GOLD_750_INSTRUMENT_CODE s) (\<lambda>houseGold s.
                bindE (applyTransaction (ac_id userGold) userDelta AccountTxType.CUSTODY
                         TxRefType.PHYSICAL_CUSTODY_MOVEMENT (Some (cm_id movement)) adminId None s) (\<lambda>userTx s.
                bindE (applyTransaction (ac_id houseGold) (- userDelta) AccountTxType.CUSTODY
                         TxRefType.PHYSICAL_CUSTODY_MOVEMENT (Some (cm_id movement)) adminId None s) (\<lambda>houseTx s.
                bindE (consumeLimit TxRefType.PHYSICAL_CUSTODY_MOVEMENT (cm_id movement) s) (\<lambda>_ s.
                updateMovement
                  (movement\<lparr>cm_status := PhysicalCustodyMovementStatus.APPROVED, cm_equivGram750 := Some deltaEquiv,
                     cm_userGoldAccountTxId := Some (tx_id (fst userTx)),
                     cm_houseGoldAccountTxId := Some (tx_id (fst houseTx))\<rparr>) s))))))))"

text \<open>The part \<open>cancelMovement\<close> and \<open>rejectMovement\<close> share: release, and write the new status.\<close>

definition closeMovement ::
  "PhysicalCustodyMovementStatus \<Rightarrow> string option \<Rightarrow> physicalCustodyMovement \<Rightarrow> db \<Rightarrow> physicalCustodyMovement tx" where
  "closeMovement status reason movement s =
     bindE (releaseLimit TxRefType.PHYSICAL_CUSTODY_MOVEMENT (cm_id movement) s) (\<lambda>_ s.
     bindE (if cm_movementType movement = PhysicalCustodyMovementType.WITHDRAWAL
              then bindE (releaseFunds (cm_userId movement) GOLD_750_INSTRUMENT_CODE
                     TxRefType.PHYSICAL_CUSTODY_MOVEMENT (cm_id movement) s) (\<lambda>_ s. Inr ((), s))
            else Inr ((), s)) (\<lambda>_ s.
     updateMovement (movement\<lparr>cm_status := status, cm_note := orElse reason (cm_note movement)\<rparr>) s))"

definition cancelMovementTx :: "string option \<Rightarrow> id \<Rightarrow> db \<Rightarrow> physicalCustodyMovement tx" where
  "cancelMovementTx reason i s =
     (case findMovement i s of
        None \<Rightarrow> Inl (NotFoundException ''Movement not found'')
      | Some movement \<Rightarrow>
          (if cm_status movement = PhysicalCustodyMovementStatus.CANCELLED \<or>
              cm_status movement = PhysicalCustodyMovementStatus.REJECTED then Inr (movement, s)
           else if cm_status movement \<noteq> PhysicalCustodyMovementStatus.PENDING
             then Inl (BadRequestException ''INVALID_STATUS'')
           else closeMovement PhysicalCustodyMovementStatus.CANCELLED reason movement s))"

definition rejectMovement :: "string option \<Rightarrow> id \<Rightarrow> db \<Rightarrow> physicalCustodyMovement tx" where
  "rejectMovement reason i s =
     (case findMovement i s of
        None \<Rightarrow> Inl (NotFoundException ''Movement not found'')
      | Some movement \<Rightarrow>
          (if cm_status movement = PhysicalCustodyMovementStatus.REJECTED then Inr (movement, s)
           else if cm_status movement \<noteq> PhysicalCustodyMovementStatus.PENDING
             then Inl (BadRequestException ''INVALID_STATUS'')
           else closeMovement PhysicalCustodyMovementStatus.REJECTED reason movement s))"

definition enqueueTahesabForPhysicalCustodyMovement ::
  "tahesabConfig \<Rightarrow> physicalCustodyMovement \<Rightarrow> db \<Rightarrow> unit tx" where
  "enqueueTahesabForPhysicalCustodyMovement cfg movement s =
     (if cm_status movement \<noteq> PhysicalCustodyMovementStatus.APPROVED then Inr ((), s)
      else if \<not> isEnabled cfg then Inr ((), s)
      else let moshtariCode = getCustomerCode (findUser (cm_userId movement) s)
      in if \<not> truthy moshtariCode then Inr ((), s)
      else let normalizedWeight = movementEquiv movement;
               isDeposit = (cm_movementType movement = PhysicalCustodyMovementType.DEPOSIT);
               direction = (if isDeposit then ''deposit'' else ''withdrawal'')
      in enqueueOnce ''DoNewSanadVKHGOLD''
        (GoldVoucher \<lparr>gv_sabteKolOrMovaghat = Kol, gv_moshtariCode = the moshtariCode,
           gv_factorNumber = cm_id movement, gv_radifNumber = cm_id movement,
           gv_date = tc_shamsi cfg (cm_updatedAt movement), gv_vazn = normalizedWeight, gv_ayar = 750,
           gv_angNumber = [], gv_nameAz = ''Physical custody'',
           gv_isVoroodOrKhorooj = (if isDeposit then Vorood else Khorooj), gv_isMotefaregheOrAbshode = 1,
           gv_sharh = getDescriptionPrefix cfg @ '' Custody '' @ direction @ '' #'' @ cm_id movement @ '': '' @
             tc_showDecimal cfg (cm_weightGram movement) @ ''g @ '' @ tc_showInt cfg (cm_ayar movement) @ '' -> '' @
             tc_showDecimal cfg normalizedWeight @ ''g 750eq'',
           gv_factorCode = getGoldAccountCode cfg\<rparr>) (''custody:'' @ cm_id movement) s)"

definition approveMovement :: "tahesabConfig \<Rightarrow> id \<Rightarrow> id option \<Rightarrow> db \<Rightarrow> physicalCustodyMovement tx" where
  "approveMovement cfg i adminId s =
     bindE (approveMovementTx adminId i s) (\<lambda>updated s.
     bindE (enqueueTahesabForPhysicalCustodyMovement cfg updated s) (\<lambda>_ s. Inr (updated, s)))"

definition cancelMovement :: "id \<Rightarrow> string option \<Rightarrow> db \<Rightarrow> physicalCustodyMovement tx" where
  "cancelMovement i reason s =
     bindE (cancelMovementTx reason i s) (\<lambda>updated s.
     bindE (if cm_status updated = PhysicalCustodyMovementStatus.CANCELLED
              then enqueueDeletion ''DoNewSanadVKHGOLD'' (''custody:'' @ cm_id updated)
                     (''custody:cancel:'' @ cm_id updated) s
            else Inr ((), s)) (\<lambda>_ s. Inr (updated, s)))"

text \<open>The administrator's list: filter, newest first, one page; \<open>sortBy\<close>/\<open>order\<close> at their defaults.\<close>

record movementFilters =
  mf_status :: "PhysicalCustodyMovementStatus option"
  mf_userId :: "string option"
  mf_mobile :: "string option"
  mf_fromDate :: "time option"
  mf_toDate :: "time option"
  mf_page :: "nat option"
  mf_limit :: "nat option"

definition movementMatches :: "movementFilters \<Rightarrow> db \<Rightarrow> physicalCustodyMovement \<Rightarrow> bool" where
  "movementMatches f s m =
     ((case mf_status f of None \<Rightarrow> True | Some st \<Rightarrow> cm_status m = st) \<and>
      (truthy (mf_userId f) \<longrightarrow> Some (cm_userId m) = mf_userId f) \<and>
      (truthy (mf_mobile f) \<longrightarrow> (case findUser (cm_userId m) s of None \<Rightarrow> False
         | Some u \<Rightarrow> hasSubstring (us_mobile u) (the (mf_mobile f)))) \<and>
      (case mf_fromDate f of None \<Rightarrow> True | Some d \<Rightarrow> d \<le> cm_createdAt m) \<and>
      (case mf_toDate f of None \<Rightarrow> True | Some d \<Rightarrow> cm_createdAt m \<le> d))"

definition compareMovementsDesc :: "physicalCustodyMovement \<Rightarrow> physicalCustodyMovement \<Rightarrow> int" where
  "compareMovementsDesc a b = cm_createdAt b - cm_createdAt a"

definition adminListMovements :: "movementFilters \<Rightarrow> db \<Rightarrow> physicalCustodyMovement list \<times> nat \<times> nat \<times> nat" where
  "adminListMovements f s =
     (let matching = findMany (movementMatches f s) (physicalCustodyMovements s);
          size = withDefault (mf_limit f) 20; page = withDefault (mf_page f) 1
      in (take size (drop ((page - 1) * size) (sortBy compareMovementsDesc matching)), length matching, page, size))"

section \<open>Lemmas\<close>

text \<open>
  The books of a movement sum to nothing, because the house's leg is the negative of the client's; a
  pending withdrawal holds its weight on the client's gold wallet.
\<close>

definition movementHold :: "physicalCustodyMovement \<Rightarrow> db \<Rightarrow> hold" where
  "movementHold m s =
     (if cm_movementType m = PhysicalCustodyMovementType.DEPOSIT then None
      else Some (case cm_status m of
          PhysicalCustodyMovementStatus.PENDING \<Rightarrow> AccountReservationStatus.RESERVED
        | PhysicalCustodyMovementStatus.APPROVED \<Rightarrow> AccountReservationStatus.CONSUMED
        | _ \<Rightarrow> AccountReservationStatus.RELEASED, movementEquiv m, cm_userId m, GOLD_750_INSTRUMENT_CODE))"

definition movementDue :: "physicalCustodyMovement \<Rightarrow> decimal" where
  "movementDue m = 0"

interpretation custodyLedger: request_ledger physicalCustodyMovements cm_id TxRefType.PHYSICAL_CUSTODY_MOVEMENT
    movementDue movementHold
  by unfold_locales (simp_all add: sameRows_sel movementHold_def)

definition custody_ok :: "db \<Rightarrow> bool" where
  "custody_ok s \<longleftrightarrow> requests_ok physicalCustodyMovements cm_id TxRefType.PHYSICAL_CUSTODY_MOVEMENT movementDue movementHold s"

lemma custody_okD: "custody_ok s \<Longrightarrow> ledger_ok s"
  using custodyLedger.ok_D(1) by (simp add: custody_ok_def)

lemma findMovement_SomeD: "findMovement i s = Some m \<Longrightarrow> m \<in> set (physicalCustodyMovements s) \<and> cm_id m = i"
  unfolding findMovement_def by (rule find_SomeD)

lemma updateMovement_result:
  assumes "updateMovement m s = Inr (r, t)" and "findMovement (cm_id m) s \<noteq> None"
  shows "r = m\<lparr>cm_updatedAt := db_now s\<rparr>" "findMovement (cm_id m) t = Some r" "sameLedger s t"
    "physicalCustodyMovements t = updateRows (\<lambda>x. cm_id x = cm_id m) (\<lambda>_. r) (physicalCustodyMovements s)"
  using assms by (auto simp: updateMovement_def Let_def findMovement_def sameLedger_def find_replace)

lemma custody_ok_settle:
  assumes ok: "custody_ok s" and m: "findMovement i s = Some m"
    and e: "effect TxRefType.PHYSICAL_CUSTODY_MOVEMENT i 0 p h s u"
    and m': "cm_id m' = i" "heldAs TxRefType.PHYSICAL_CUSTODY_MOVEMENT i (movementHold m' u) u"
    and upd: "updateMovement m' u = Inr (r, t)"
  shows "custody_ok t \<and> findMovement i t = Some r \<and> cm_status r = cm_status m' \<and> sameLedger u t"
proof -
  have mem: "m \<in> set (physicalCustodyMovements s)" "cm_id m = i" using findMovement_SomeD [OF m] by auto
  note rows = sameRows_sel [OF effectD(3) [OF e]]
  have "findMovement (cm_id m') u \<noteq> None" using m m'(1) by (simp add: findMovement_def rows(9))
  note r = updateMovement_result [OF upd this]
  have rt: "physicalCustodyMovements t = updateRows (\<lambda>x. cm_id x = cm_id m) (\<lambda>_. r) (physicalCustodyMovements s)"
    using r(4) m'(1) mem(2) rows(9) by simp
  have same: "movementHold r u = movementHold m' u" unfolding r(1) by (simp add: movementHold_def movementEquiv_def split: option.split)
  have "custody_ok t"
    unfolding custody_ok_def
    by (rule custodyLedger.ok_settle [OF ok [unfolded custody_ok_def] _ mem(1) _ _ _ r(3) rt])
      (unfold same mem(2), use e m' r(1) in \<open>simp_all add: movementDue_def\<close>)
  then show ?thesis using r m'(1) by simp
qed

lemma custody_ok_step:
  assumes "custody_ok s" and "effect rt i d p h s t" and "rt \<noteq> TxRefType.PHYSICAL_CUSTODY_MOVEMENT"
  shows "custody_ok t"
  using custodyLedger.ok_other [OF _ assms(2,3)] assms(1) by (simp add: custody_ok_def)

lemma custody_ok_side: "custody_ok s \<Longrightarrow> side s t \<Longrightarrow> custody_ok t"
  unfolding custody_ok_def by (rule custodyLedger.ok_side)

lemma custody_ok_request:
  assumes "custody_ok s" and "findMovement i s = Some m"
  shows "cm_id m = i" "heldAs TxRefType.PHYSICAL_CUSTODY_MOVEMENT i (movementHold m s) s"
  using findMovement_SomeD [OF assms(2)] custodyLedger.ok_D(6) [OF assms(1) [unfolded custody_ok_def], of m] by auto

text \<open>The outcomes of a request, of an approval, and of a rejection or cancellation.\<close>

lemma requestMovement_outcomes:
  assumes "requestMovement pk u dto key s = Inr (m, t)"
  obtains (found) "m \<in> set (physicalCustodyMovements s)" "t = s" "truthy key"
  | (placed) s1 where "m = newMovement u dto key s" "0 < cc_weightGram dto"
      "side ((bumpId s)\<lparr>physicalCustodyMovements := physicalCustodyMovements s @ [m]\<rparr>) s1"
      "(if cc_movementType dto = PhysicalCustodyMovementType.WITHDRAWAL
        then \<exists>q. reserveFunds u GOLD_750_INSTRUMENT_CODE (toEquivGram750 (cc_weightGram dto) (cc_ayar dto))
               TxRefType.PHYSICAL_CUSTODY_MOVEMENT (cm_id m) s1 = Inr (q, t)
        else t = s1)"
proof -
  have 1: "0 < cc_weightGram dto" "u \<noteq> []" using assms by (auto simp: requestMovement_def Let_def split: if_splits)
  show ?thesis
  proof (cases "if truthy key then findFirst (\<lambda>m. cm_userId m = u \<and> cm_idempotencyKey m = key) (physicalCustodyMovements s) else None")
    case (Some e)
    then have key: "truthy key" "e \<in> set (physicalCustodyMovements s)" by (auto split: if_splits dest: find_SomeD)
    have "m = e \<and> t = s" using assms 1 Some by (simp add: requestMovement_def Let_def)
    then show ?thesis using key by (intro found) simp_all
  next
    case None
    then obtain instrument where i: "findInstrument GOLD_750_INSTRUMENT_CODE s = Some instrument"
      using assms 1 by (auto simp: requestMovement_def Let_def split: option.splits)
    then have code: "in_code instrument = GOLD_750_INSTRUMENT_CODE" by (auto simp: findInstrument_def dest: find_SomeD)
    let ?e = "toEquivGram750 (cc_weightGram dto) (cc_ayar dto)"
    have rest: "bindE (createMovementRow (newMovement u dto key s) s) (\<lambda>movement s.
         bindE (reserveLimit pk (custodyLimitRequest u (cc_movementType dto) PolicyPeriod.DAILY ?e
                                   instrument (cm_id movement)) s) (\<lambda>_ s.
         bindE (reserveLimit pk (custodyLimitRequest u (cc_movementType dto) PolicyPeriod.MONTHLY ?e
                                   instrument (cm_id movement)) s) (\<lambda>_ s.
         if cc_movementType dto = PhysicalCustodyMovementType.WITHDRAWAL
           then bindE (reserveFunds u (in_code instrument) ?e TxRefType.PHYSICAL_CUSTODY_MOVEMENT
                         (cm_id movement) s) (\<lambda>_ s. Inr (movement, s))
         else Inr (movement, s)))) = Inr (m, t)"
      using assms 1 None i unfolding requestMovement_def Let_def
      by (simp only: option.case if_False if_True not_le [symmetric] refl)
    from rest obtain m' s1 l1 s2 l2 s3 where r0: "createMovementRow (newMovement u dto key s) s = Inr (m', s1)"
      "reserveLimit pk (custodyLimitRequest u (cc_movementType dto) PolicyPeriod.DAILY ?e instrument (cm_id m')) s1 = Inr (l1, s2)"
      "reserveLimit pk (custodyLimitRequest u (cc_movementType dto) PolicyPeriod.MONTHLY ?e instrument (cm_id m')) s2 = Inr (l2, s3)"
      "(if cc_movementType dto = PhysicalCustodyMovementType.WITHDRAWAL
         then bindE (reserveFunds u (in_code instrument) ?e TxRefType.PHYSICAL_CUSTODY_MOVEMENT (cm_id m') s3)
                (\<lambda>_ s. Inr (m', s))
         else Inr (m', s3)) = Inr (m, t)" by (elim bindE_elim)
    have "m' = m" and fin: "if cc_movementType dto = PhysicalCustodyMovementType.WITHDRAWAL
        then \<exists>q. reserveFunds u GOLD_750_INSTRUMENT_CODE ?e TxRefType.PHYSICAL_CUSTODY_MOVEMENT (cm_id m) s3 = Inr (q, t)
        else t = s3" using r0(4) by (auto simp: bindE_Inr_iff code split: if_splits)
    with r0 have r: "createMovementRow (newMovement u dto key s) s = Inr (m, s1)"
      "reserveLimit pk (custodyLimitRequest u (cc_movementType dto) PolicyPeriod.DAILY ?e instrument (cm_id m)) s1 = Inr (l1, s2)"
      "reserveLimit pk (custodyLimitRequest u (cc_movementType dto) PolicyPeriod.MONTHLY ?e instrument (cm_id m)) s2 = Inr (l2, s3)"
      by simp_all
    have m: "m = newMovement u dto key s" "s1 = (bumpId s)\<lparr>physicalCustodyMovements := physicalCustodyMovements s @ [m]\<rparr>"
      using r(1) by (auto simp: createMovementRow_def split: if_splits)
    have "side s1 s3" using holdsE_D [OF side_reserveLimit r(2)] holdsE_D [OF side_reserveLimit r(3)] by (rule side_trans)
    with placed [OF m(1) 1(1) _ fin] m(2) show ?thesis by simp
  qed
qed

lemma custody_ok_request_step:
  assumes ok: "custody_ok s" and run: "requestMovement pk u dto key s = Inr (m, t)" and ayar: "0 \<le> cc_ayar dto"
  shows "custody_ok t"
  using run
proof (cases rule: requestMovement_outcomes)
  case (placed s1)
  let ?u = "(bumpId s)\<lparr>physicalCustodyMovements := physicalCustodyMovements s @ [m]\<rparr>"
  have new: "custodyLedger.addedRow m s ?u"
    using ledger_ok_bump [OF custody_okD [OF ok]] placed(1)
    by (simp add: custodyLedger.addedRow_def movementDue_def newMovement_def bumpId_def)
  show ?thesis
  proof (cases "cc_movementType dto = PhysicalCustodyMovementType.WITHDRAWAL")
    case True
    then obtain q where res: "reserveFunds u GOLD_750_INSTRUMENT_CODE (toEquivGram750 (cc_weightGram dto) (cc_ayar dto))
        TxRefType.PHYSICAL_CUSTODY_MOVEMENT (cm_id m) s1 = Inr (q, t)" using placed(4) by auto
    have "0 \<le> toEquivGram750 (cc_weightGram dto) (cc_ayar dto)"
      using placed(2) ayar by (simp add: toEquivGram750_def toFixed6_def)
    moreover have "movementHold m t = Some (AccountReservationStatus.RESERVED,
        toEquivGram750 (cc_weightGram dto) (cc_ayar dto), u, GOLD_750_INSTRUMENT_CODE)"
      using True placed(1) by (simp add: movementHold_def newMovement_def movementEquiv_def)
    ultimately show ?thesis
      using custodyLedger.ok_placed(1) [OF ok [unfolded custody_ok_def] new placed(3) _ res side_refl] by (simp add: custody_ok_def)
  next
    case False
    then have "movementHold m t = None" "t = s1"
      using placed(1,4) by (cases "cc_movementType dto"; simp add: movementHold_def newMovement_def)+
    then show ?thesis
      using custodyLedger.ok_noted(1) [OF ok [unfolded custody_ok_def] new, of t] placed(3) by (simp add: custody_ok_def)
  qed
qed (use ok in simp)

definition userDelta :: "physicalCustodyMovement \<Rightarrow> decimal" where
  "userDelta m = (if cm_movementType m = PhysicalCustodyMovementType.DEPOSIT then movementEquiv m else - movementEquiv m)"

lemma approveMovementTx_cases:
  assumes "approveMovementTx admin i s = Inr (m, t)"
  obtains (same) "findMovement i s = Some m" "cm_status m = PhysicalCustodyMovementStatus.APPROVED" "t = s"
  | (moved) m0 s1 a s2 h s3 x s4 y s5 s6 where "findMovement i s = Some m0"
      "cm_status m0 = PhysicalCustodyMovementStatus.PENDING"
      "(if cm_movementType m0 = PhysicalCustodyMovementType.WITHDRAWAL
        then \<exists>q. consumeFunds (cm_userId m0) GOLD_750_INSTRUMENT_CODE TxRefType.PHYSICAL_CUSTODY_MOVEMENT (cm_id m0) s = Inr (q, s1)
        else s1 = s)"
      "getOrCreateAccount (cm_userId m0) GOLD_750_INSTRUMENT_CODE s1 = Inr (a, s2)"
      "getOrCreateAccount HOUSE_USER_ID GOLD_750_INSTRUMENT_CODE s2 = Inr (h, s3)"
      "applyTransaction (ac_id a) (userDelta m0) AccountTxType.CUSTODY TxRefType.PHYSICAL_CUSTODY_MOVEMENT
         (Some (cm_id m0)) admin None s3 = Inr (x, s4)"
      "applyTransaction (ac_id h) (- userDelta m0) AccountTxType.CUSTODY TxRefType.PHYSICAL_CUSTODY_MOVEMENT
         (Some (cm_id m0)) admin None s4 = Inr (y, s5)"
      "consumeLimit TxRefType.PHYSICAL_CUSTODY_MOVEMENT (cm_id m0) s5 = Inr ((), s6)"
      "updateMovement (m0\<lparr>cm_status := PhysicalCustodyMovementStatus.APPROVED,
         cm_equivGram750 := Some (movementEquiv m0), cm_userGoldAccountTxId := Some (tx_id (fst x)),
         cm_houseGoldAccountTxId := Some (tx_id (fst y))\<rparr>) s6 = Inr (m, t)"
proof (cases "findMovement i s")
  case (Some m0)
  show ?thesis
  proof (cases "cm_status m0 = PhysicalCustodyMovementStatus.PENDING")
    case True
    let ?rest = "\<lambda>s. bindE (getOrCreateAccount (cm_userId m0) GOLD_750_INSTRUMENT_CODE s) (\<lambda>userGold s.
                bindE (getOrCreateAccount HOUSE_USER_ID GOLD_750_INSTRUMENT_CODE s) (\<lambda>houseGold s.
                bindE (applyTransaction (ac_id userGold) (userDelta m0) AccountTxType.CUSTODY
                         TxRefType.PHYSICAL_CUSTODY_MOVEMENT (Some (cm_id m0)) admin None s) (\<lambda>userTx s.
                bindE (applyTransaction (ac_id houseGold) (- userDelta m0) AccountTxType.CUSTODY
                         TxRefType.PHYSICAL_CUSTODY_MOVEMENT (Some (cm_id m0)) admin None s) (\<lambda>houseTx s.
                bindE (consumeLimit TxRefType.PHYSICAL_CUSTODY_MOVEMENT (cm_id m0) s) (\<lambda>_ s.
                updateMovement
                  (m0\<lparr>cm_status := PhysicalCustodyMovementStatus.APPROVED, cm_equivGram750 := Some (movementEquiv m0),
                     cm_userGoldAccountTxId := Some (tx_id (fst userTx)),
                     cm_houseGoldAccountTxId := Some (tx_id (fst houseTx))\<rparr>) s)))))"
    have "bindE (if cm_movementType m0 = PhysicalCustodyMovementType.WITHDRAWAL
        then bindE (consumeFunds (cm_userId m0) GOLD_750_INSTRUMENT_CODE TxRefType.PHYSICAL_CUSTODY_MOVEMENT (cm_id m0) s)
               (\<lambda>_ s. Inr ((), s)) else Inr ((), s)) (\<lambda>_. ?rest) = Inr (m, t)"
      using assms Some True by (simp add: approveMovementTx_def Let_def userDelta_def)
    then obtain u s1 where "(if cm_movementType m0 = PhysicalCustodyMovementType.WITHDRAWAL
        then bindE (consumeFunds (cm_userId m0) GOLD_750_INSTRUMENT_CODE TxRefType.PHYSICAL_CUSTODY_MOVEMENT (cm_id m0) s)
               (\<lambda>_ s. Inr ((), s)) else Inr ((), s)) = Inr (u, s1)" and rest: "?rest s1 = Inr (m, t)" by (rule bindE_elim)
    then have s1: "if cm_movementType m0 = PhysicalCustodyMovementType.WITHDRAWAL
        then \<exists>q. consumeFunds (cm_userId m0) GOLD_750_INSTRUMENT_CODE TxRefType.PHYSICAL_CUSTODY_MOVEMENT (cm_id m0) s = Inr (q, s1)
        else s1 = s" by (auto simp: bindE_Inr_iff split: if_splits)
    obtain a s2 h s3 x s4 y s5 s6 where r:
      "getOrCreateAccount (cm_userId m0) GOLD_750_INSTRUMENT_CODE s1 = Inr (a, s2)"
      "getOrCreateAccount HOUSE_USER_ID GOLD_750_INSTRUMENT_CODE s2 = Inr (h, s3)"
      "applyTransaction (ac_id a) (userDelta m0) AccountTxType.CUSTODY TxRefType.PHYSICAL_CUSTODY_MOVEMENT
         (Some (cm_id m0)) admin None s3 = Inr (x, s4)"
      "applyTransaction (ac_id h) (- userDelta m0) AccountTxType.CUSTODY TxRefType.PHYSICAL_CUSTODY_MOVEMENT
         (Some (cm_id m0)) admin None s4 = Inr (y, s5)"
      "consumeLimit TxRefType.PHYSICAL_CUSTODY_MOVEMENT (cm_id m0) s5 = Inr ((), s6)"
      "updateMovement (m0\<lparr>cm_status := PhysicalCustodyMovementStatus.APPROVED,
         cm_equivGram750 := Some (movementEquiv m0), cm_userGoldAccountTxId := Some (tx_id (fst x)),
         cm_houseGoldAccountTxId := Some (tx_id (fst y))\<rparr>) s6 = Inr (m, t)"
      using rest by (elim bindE_elim) simp
    show ?thesis by (rule moved [OF Some True s1 r])
  next
    case False
    show ?thesis by (rule same) (use assms Some False in \<open>auto simp: approveMovementTx_def split: if_splits\<close>)
  qed
next
  case None
  have False using assms None by (simp add: approveMovementTx_def)
  then show ?thesis ..
qed

text \<open>The hold of a pending movement, closed one way or the other.\<close>

lemma custody_close_hold:
  assumes ok: "ledger_ok s" and h: "heldAs TxRefType.PHYSICAL_CUSTODY_MOVEMENT i (movementHold m s) s"
    and m: "cm_status m = PhysicalCustodyMovementStatus.PENDING"
    and st: "cm_status m' = st" "st \<noteq> PhysicalCustodyMovementStatus.PENDING" "cm_movementType m' = cm_movementType m"
      "movementEquiv m' = movementEquiv m" "cm_userId m' = cm_userId m"
    and run: "if cm_movementType m = PhysicalCustodyMovementType.WITHDRAWAL
        then if st = PhysicalCustodyMovementStatus.APPROVED
          then \<exists>q. consumeFunds (cm_userId m) GOLD_750_INSTRUMENT_CODE TxRefType.PHYSICAL_CUSTODY_MOVEMENT i s = Inr (q, t)
          else \<exists>q. releaseFunds (cm_userId m) GOLD_750_INSTRUMENT_CODE TxRefType.PHYSICAL_CUSTODY_MOVEMENT i s = Inr (q, t)
        else t = s"
  shows "\<exists>h'. effect TxRefType.PHYSICAL_CUSTODY_MOVEMENT i 0 (\<lambda>_. 0) h' s t \<and>
    heldAs TxRefType.PHYSICAL_CUSTODY_MOVEMENT i (movementHold m' t) t \<and>
    (if cm_movementType m = PhysicalCustodyMovementType.WITHDRAWAL
     then \<exists>w. walletId (cm_userId m) GOLD_750_INSTRUMENT_CODE t = Some w \<and> h' = (\<lambda>j. if j = w then - movementEquiv m else 0)
     else h' = (\<lambda>_. 0))"
proof (cases "cm_movementType m = PhysicalCustodyMovementType.WITHDRAWAL")
  case True
  have h0: "heldAs TxRefType.PHYSICAL_CUSTODY_MOVEMENT i
      (Some (AccountReservationStatus.RESERVED, movementEquiv m, cm_userId m, GOLD_750_INSTRUMENT_CODE)) s"
    by (rule heldAs_fun [OF h]) (simp add: movementHold_def True m)
  let ?st = "if st = PhysicalCustodyMovementStatus.APPROVED then AccountReservationStatus.CONSUMED else AccountReservationStatus.RELEASED"
  from run True obtain q where "consumeFunds (cm_userId m) GOLD_750_INSTRUMENT_CODE TxRefType.PHYSICAL_CUSTODY_MOVEMENT i s = Inr (q, t) \<and>
      ?st = AccountReservationStatus.CONSUMED \<or>
    releaseFunds (cm_userId m) GOLD_750_INSTRUMENT_CODE TxRefType.PHYSICAL_CUSTODY_MOVEMENT i s = Inr (q, t) \<and>
      ?st = AccountReservationStatus.RELEASED" by (auto split: if_splits)
  note c = effect_close [OF ok h0 this]
  have "movementHold m' t = Some (?st, movementEquiv m, cm_userId m, GOLD_750_INSTRUMENT_CODE)"
    using True st by (cases st) (auto simp: movementHold_def)
  moreover from c(3) obtain w where "walletId (cm_userId m) GOLD_750_INSTRUMENT_CODE t = Some w" by auto
  ultimately show ?thesis using c(1,2) True by (intro exI conjI) (auto simp: fun_eq_iff)
next
  case False
  then have t: "t = s" "cm_movementType m = PhysicalCustodyMovementType.DEPOSIT" using run by (auto intro: PhysicalCustodyMovementType.exhaust)
  then have "movementHold m s = None" "movementHold m' t = None" using st(3) by (simp_all add: movementHold_def)
  then show ?thesis using effect_refl [OF ok] h t False by (intro exI conjI) auto
qed

lemma custody_ok_approve:
  assumes ok: "custody_ok s" and run: "approveMovementTx admin i s = Inr (m, t)"
  shows "custody_ok t \<and> findMovement i t = Some m \<and> cm_status m = PhysicalCustodyMovementStatus.APPROVED \<and>
    (t = s \<or> (\<exists>m0 wu wh. findMovement i s = Some m0 \<and> cm_status m0 = PhysicalCustodyMovementStatus.PENDING \<and>
       walletId (cm_userId m0) GOLD_750_INSTRUMENT_CODE t = Some wu \<and>
       walletId HOUSE_USER_ID GOLD_750_INSTRUMENT_CODE t = Some wh \<and>
       (\<forall>j. posted j t = posted j s + (if j = wu then userDelta m0 else 0) - (if j = wh then userDelta m0 else 0) \<and>
            held j t = held j s -
              (if cm_movementType m0 = PhysicalCustodyMovementType.WITHDRAWAL \<and> j = wu then movementEquiv m0 else 0))))"
  using run
proof (cases rule: approveMovementTx_cases)
  case same
  then show ?thesis using ok by simp
next
  case (moved m0 s1 a s2 h s3 x s4 y s5 s6)
  note m0 = custody_ok_request [OF ok moved(1)]
  let ?rt = "TxRefType.PHYSICAL_CUSTODY_MOVEMENT"
  let ?m = "m0\<lparr>cm_status := PhysicalCustodyMovementStatus.APPROVED,
         cm_equivGram750 := Some (movementEquiv m0), cm_userGoldAccountTxId := Some (tx_id (fst x)),
         cm_houseGoldAccountTxId := Some (tx_id (fst y))\<rparr>"
  have eq: "movementEquiv ?m = movementEquiv m0" by (simp add: movementEquiv_def)
  have "cm_status ?m = PhysicalCustodyMovementStatus.APPROVED" by simp
  from custody_close_hold [OF custody_okD [OF ok] m0(2) moved(2) this _ _ eq] moved(3) [unfolded m0(1)]
  have "\<exists>h'. effect ?rt i 0 (\<lambda>_. 0) h' s s1 \<and> heldAs ?rt i (movementHold ?m s1) s1 \<and>
    (if cm_movementType m0 = PhysicalCustodyMovementType.WITHDRAWAL
     then \<exists>w. walletId (cm_userId m0) GOLD_750_INSTRUMENT_CODE s1 = Some w \<and> h' = (\<lambda>j. if j = w then - movementEquiv m0 else 0)
     else h' = (\<lambda>_. 0))" by simp
  then obtain h' where c: "effect ?rt i 0 (\<lambda>_. 0) h' s s1" "heldAs ?rt i (movementHold ?m s1) s1"
    "if cm_movementType m0 = PhysicalCustodyMovementType.WITHDRAWAL
     then \<exists>w. walletId (cm_userId m0) GOLD_750_INSTRUMENT_CODE s1 = Some w \<and> h' = (\<lambda>j. if j = w then - movementEquiv m0 else 0)
     else h' = (\<lambda>_. 0)" by blast
  note p2 = plain_getAcc [OF effectD(2) [OF c(1)] moved(4), where rt = ?rt and i = i]
  note p3 = plain_getAcc [OF plainD(1) [OF p2] moved(5), where rt = ?rt and i = i]
  note p4 = plain_post [OF plainD(1) [OF p3] moved(6) [unfolded m0(1)]]
  note p5 = plain_post [OF plainD(1) [OF p4] moved(7) [unfolded m0(1)]]
  note p6 = plain_side [OF plainD(1) [OF p5] holdsE_D [OF side_consumeLimit moved(8)], where rt = ?rt and i = i]
  note p = plain_trans [OF p2 plain_trans [OF p3 plain_trans [OF p4 plain_trans [OF p5 p6]]], simplified]
  note all = effect_trans [OF c(1) plainD(2) [OF p], simplified]
  have same: "movementHold ?m s6 = movementHold ?m s1" by (simp add: movementHold_def eq)
  have "heldAs ?rt i (movementHold ?m s6) s6" unfolding same by (rule plainD(3) [OF p c(2)])
  note set = custody_ok_settle [OF ok moved(1) all _ this moved(9)]
  have wu: "walletId (cm_userId m0) GOLD_750_INSTRUMENT_CODE s6 = Some (ac_id a)"
    using plainD(4) [OF plain_trans [OF p3 plain_trans [OF p4 plain_trans [OF p5 p6]]] getOrCreateAccount_effect(3) [OF moved(4)]] .
  have wh: "walletId HOUSE_USER_ID GOLD_750_INSTRUMENT_CODE s6 = Some (ac_id h)"
    using plainD(4) [OF plain_trans [OF p4 plain_trans [OF p5 p6]] getOrCreateAccount_effect(3) [OF moved(5)]] .
  have h': "h' = (\<lambda>j. if cm_movementType m0 = PhysicalCustodyMovementType.WITHDRAWAL \<and> j = ac_id a then - movementEquiv m0 else 0)"
    using c(3) plainD(4) [OF p2, of "cm_userId m0" GOLD_750_INSTRUMENT_CODE] getOrCreateAccount_effect(3) [OF moved(4)]
    by (auto split: if_splits)
  show ?thesis
    using set m0(1) moved(1,2) wu wh effectD(8,9) [OF all] sameLedger_sums [of s6 t] by (auto simp: h')
qed

lemma custody_ok_close:
  assumes ok: "custody_ok s" and m: "findMovement i s = Some m" "cm_status m = PhysicalCustodyMovementStatus.PENDING"
    and st: "st \<in> {PhysicalCustodyMovementStatus.CANCELLED, PhysicalCustodyMovementStatus.REJECTED}"
    and run: "closeMovement st reason m s = Inr (r, t)"
  shows "custody_ok t \<and> findMovement i t = Some r \<and> cm_status r = st"
proof -
  let ?rt = "TxRefType.PHYSICAL_CUSTODY_MOVEMENT"
  note m0 = custody_ok_request [OF ok m(1)]
  let ?m = "m\<lparr>cm_status := st, cm_note := orElse reason (cm_note m)\<rparr>"
  from run obtain u s1 v s2 where r: "releaseLimit ?rt i s = Inr (u, s1)"
    "(if cm_movementType m = PhysicalCustodyMovementType.WITHDRAWAL
        then bindE (releaseFunds (cm_userId m) GOLD_750_INSTRUMENT_CODE ?rt i s1) (\<lambda>_ s. Inr ((), s)) else Inr ((), s1)) = Inr (v, s2)"
    "updateMovement ?m s2 = Inr (r, t)"
    unfolding closeMovement_def m0(1) by (elim bindE_elim)
  have p1: "plain ?rt i 0 (\<lambda>_. 0) s s1"
    by (rule plain_side [OF custody_okD [OF ok]]) (use holdsE_D [OF side_releaseLimit r(1)] in simp)
  have h: "heldAs ?rt i (movementHold m s1) s1"
    using plainD(3) [OF p1 m0(2)] by (simp add: movementHold_def)
  have step: "if cm_movementType m = PhysicalCustodyMovementType.WITHDRAWAL
        then if st = PhysicalCustodyMovementStatus.APPROVED
          then \<exists>q. consumeFunds (cm_userId m) GOLD_750_INSTRUMENT_CODE ?rt i s1 = Inr (q, s2)
          else \<exists>q. releaseFunds (cm_userId m) GOLD_750_INSTRUMENT_CODE ?rt i s1 = Inr (q, s2)
        else s2 = s1" using r(2) st by (auto simp: bindE_Inr_iff split: if_splits)
  have eq: "movementEquiv ?m = movementEquiv m" by (simp add: movementEquiv_def split: option.split)
  from custody_close_hold [OF plainD(1) [OF p1] h m(2), of ?m st s2] step st eq obtain h' where
    c: "effect ?rt i 0 (\<lambda>_. 0) h' s1 s2" "heldAs ?rt i (movementHold ?m s2) s2" by auto
  from custody_ok_settle [OF ok m(1) effect_trans [OF plainD(2) [OF p1] c(1), simplified] _ c(2) r(3)] m0(1)
  show ?thesis by simp
qed

lemma cancelMovementTx_outcomes:
  assumes "cancelMovementTx reason i s = Inr (m, t)"
  obtains (same) "findMovement i s = Some m" "t = s"
  | (closed) m0 where "findMovement i s = Some m0" "cm_status m0 = PhysicalCustodyMovementStatus.PENDING"
      "closeMovement PhysicalCustodyMovementStatus.CANCELLED reason m0 s = Inr (m, t)"
  using assms by (auto simp: cancelMovementTx_def split: option.splits if_splits)

lemma rejectMovement_outcomes:
  assumes "rejectMovement reason i s = Inr (m, t)"
  obtains (same) "findMovement i s = Some m" "t = s"
  | (closed) m0 where "findMovement i s = Some m0" "cm_status m0 = PhysicalCustodyMovementStatus.PENDING"
      "closeMovement PhysicalCustodyMovementStatus.REJECTED reason m0 s = Inr (m, t)"
  using assms by (auto simp: rejectMovement_def split: option.splits if_splits)

lemma custody_ok_cancel:
  assumes ok: "custody_ok s" and run: "cancelMovementTx reason i s = Inr (m, t)"
  shows "custody_ok t"
  using run
proof (cases rule: cancelMovementTx_outcomes)
  case (closed m0)
  then show ?thesis using custody_ok_close [OF ok closed(1,2) _ closed(3)] by simp
qed (use ok in simp)

lemma custody_ok_reject:
  assumes ok: "custody_ok s" and run: "rejectMovement reason i s = Inr (m, t)"
  shows "custody_ok t"
  using run
proof (cases rule: rejectMovement_outcomes)
  case (closed m0)
  then show ?thesis using custody_ok_close [OF ok closed(1,2) _ closed(3)] by simp
qed (use ok in simp)

lemma side_custodyVoucher: "holdsE (\<lambda>_. side s) (enqueueTahesabForPhysicalCustodyMovement cfg m s)"
  by (auto simp: enqueueTahesabForPhysicalCustodyMovement_def Let_def intro: side_enqueueOnce)

lemma custodyVoucher_again:
  "enqueueTahesabForPhysicalCustodyMovement cfg m s = Inr (x, t) \<Longrightarrow>
   enqueueTahesabForPhysicalCustodyMovement cfg m t = Inr ((), t)"
  by (auto simp: enqueueTahesabForPhysicalCustodyMovement_def Let_def side_sel findUser_def dest: enqueueOnce_again
      split: if_splits)

text \<open>Any sequence of successful requests and decisions; the fineness of a request is not negative.\<close>

inductive custodyRun :: "db \<Rightarrow> db \<Rightarrow> bool" where
  cr_start: "custodyRun s s"
| cr_clock: "custodyRun s t \<Longrightarrow> custodyRun s (t\<lparr>db_now := n\<rparr>)"
| cr_request: "custodyRun s t \<Longrightarrow> 0 \<le> cc_ayar dto \<Longrightarrow> requestMovement pk u dto key t = Inr (m, t') \<Longrightarrow> custodyRun s t'"
| cr_approve: "custodyRun s t \<Longrightarrow> approveMovement cfg i admin t = Inr (m, t') \<Longrightarrow> custodyRun s t'"
| cr_cancel: "custodyRun s t \<Longrightarrow> cancelMovement i reason t = Inr (m, t') \<Longrightarrow> custodyRun s t'"
| cr_reject: "custodyRun s t \<Longrightarrow> rejectMovement reason i t = Inr (m, t') \<Longrightarrow> custodyRun s t'"

lemma approveMovement_split:
  assumes "approveMovement cfg i admin s = Inr (m, t)"
  obtains t' where "approveMovementTx admin i s = Inr (m, t')" "side t' t"
    "enqueueTahesabForPhysicalCustodyMovement cfg m t' = Inr ((), t)"
  using assms holdsE_D [OF side_custodyVoucher] by (auto simp: approveMovement_def bindE_Inr_iff)

lemma cancelMovement_split:
  assumes "cancelMovement i reason s = Inr (m, t)"
  obtains t' where "cancelMovementTx reason i s = Inr (m, t')" "side t' t"
  using assms holdsE_D [OF side_enqueueDeletion] by (fastforce simp: cancelMovement_def bindE_Inr_iff split: if_splits)

lemma custodyRun_ok: "custodyRun s t \<Longrightarrow> custody_ok s \<Longrightarrow> custody_ok t"
proof (induction rule: custodyRun.induct)
  case (cr_clock s t n)
  then show ?case using custodyLedger.ok_clock [of t n] by (simp add: custody_ok_def)
next
  case (cr_request s t dto pk u key m t')
  then show ?case using custody_ok_request_step by blast
next
  case (cr_approve s t cfg i admin m t')
  then show ?case using approveMovement_split custody_ok_approve custody_ok_side by metis
next
  case (cr_cancel s t i reason m t')
  then have ok: "custody_ok t" by blast
  from cr_cancel obtain t1 where 1: "cancelMovementTx reason i t = Inr (m, t1)" "side t1 t'" using cancelMovement_split by blast
  have "custody_ok t1" by (rule custody_ok_cancel [OF ok 1(1)])
  then show ?case using 1(2) by (rule custody_ok_side)
next
  case (cr_reject s t reason i m t')
  then show ?case using custody_ok_reject by blast
qed

section \<open>Properties\<close>

text \<open>The concrete state: \<open>ali\<close> has 100 grams of 750 gold, and asks for 10 grams of fineness 750.\<close>

definition aliGold :: account where
  "aliGold = \<lparr>ac_id = unaryId 0, ac_userId = ''ali'', ac_instrumentId = in_id gold750, ac_balance = 100,
     ac_blockedBalance = 0, ac_minBalance = 0\<rparr>"

definition aliGoldTx :: accountTx where
  "aliGoldTx = \<lparr>tx_id = unaryId 1, tx_createdAt = 0, tx_accountId = unaryId 0, tx_delta = 100,
     tx_type = AccountTxType.ADJUSTMENT, tx_entrySide = AccountTxEntrySide.CREDIT, tx_refType = TxRefType.ADJUSTMENT,
     tx_refId = None, tx_createdById = None, tx_reversalOfId = None\<rparr>"

definition vaultDb :: db where
  "vaultDb = emptyDb\<lparr>db_seq := 2, users := [aliUser], instruments := [gold750], accounts := [aliGold],
     accountTxs := [aliGoldTx]\<rparr>"

definition tenGrams :: "PhysicalCustodyMovementType \<Rightarrow> int \<Rightarrow> createMovementDto" where
  "tenGrams ty ayar = \<lparr>cc_movementType = ty, cc_weightGram = 10, cc_ayar = ayar, cc_note = None\<rparr>"

lemma vaultDb_ok: "custody_ok vaultDb"
  using inj_unaryId
  by (simp add: custody_ok_def requests_ok_def books_ok_def ledger_ok_def keys_ok_def account_ok_def held_def posted_def
      vaultDb_def emptyDb_def aliGold_def aliGoldTx_def)

lemma vaultDb_request:
  obtains m t where "requestMovement dayKeys ''ali'' (tenGrams PhysicalCustodyMovementType.WITHDRAWAL 750) None vaultDb = Inr (m, t)"
    "m \<in> set (physicalCustodyMovements t)" "findMovement (cm_id m) t = Some m" "movementEquiv m = 10"
    "cm_movementType m = PhysicalCustodyMovementType.WITHDRAWAL" "cm_status m = PhysicalCustodyMovementStatus.PENDING"
    "\<exists>m' t'. approveMovement noTahesab (cm_id m) None t = Inr (m', t')" "cm_userId m = ''ali''"
proof -
  have "case requestMovement dayKeys ''ali'' (tenGrams PhysicalCustodyMovementType.WITHDRAWAL 750) None vaultDb of Inl _ \<Rightarrow> False
    | Inr (m, t) \<Rightarrow> m \<in> set (physicalCustodyMovements t) \<and> findMovement (cm_id m) t = Some m \<and> movementEquiv m = 10 \<and>
        cm_movementType m = PhysicalCustodyMovementType.WITHDRAWAL \<and> cm_status m = PhysicalCustodyMovementStatus.PENDING \<and>
        \<not> isl (approveMovement noTahesab (cm_id m) None t) \<and> cm_userId m = ''ali''" by code_simp
  then show ?thesis using that by (auto simp: isl_def split: sum.splits) (metis obj_sumE surj_pair)
qed

text \<open>
  C7. The movements are always sound: after any sequence of requests, approvals, cancellations and
  rejections, exactly the weight of a withdrawal that is still pending is held on the client's gold
  wallet, nothing is held under any other movement, the entries under a movement sum to nothing (what
  one side gets the other gives), and the ledger is sound.
\<close>

theorem custody_holds_and_books:
  assumes "custodyRun s t" and "custody_ok s" and "m \<in> set (physicalCustodyMovements t)"
  shows "ledger_ok t \<and> booked TxRefType.PHYSICAL_CUSTODY_MOVEMENT (cm_id m) t = 0 \<and>
    heldUnder TxRefType.PHYSICAL_CUSTODY_MOVEMENT (cm_id m) t =
      (if cm_movementType m = PhysicalCustodyMovementType.WITHDRAWAL \<and> cm_status m = PhysicalCustodyMovementStatus.PENDING
       then movementEquiv m else 0)"
proof -
  have "custody_ok t" by (rule custodyRun_ok [OF assms(1,2)])
  from custodyLedger.ok_request [OF this [unfolded custody_ok_def] assms(3)] show ?thesis
    by (cases "cm_movementType m"; cases "cm_status m") (simp_all add: movementDue_def movementHold_def)
qed

lemma custody_holds_and_books_witness:
  "\<exists>m t. requestMovement dayKeys ''ali'' (tenGrams PhysicalCustodyMovementType.WITHDRAWAL 750) None vaultDb = Inr (m, t) \<and>
     heldUnder TxRefType.PHYSICAL_CUSTODY_MOVEMENT (cm_id m) t = 10"
proof -
  obtain m t where 1: "requestMovement dayKeys ''ali'' (tenGrams PhysicalCustodyMovementType.WITHDRAWAL 750) None vaultDb = Inr (m, t)"
    "m \<in> set (physicalCustodyMovements t)" "movementEquiv m = 10" "cm_movementType m = PhysicalCustodyMovementType.WITHDRAWAL"
    "cm_status m = PhysicalCustodyMovementStatus.PENDING" by (rule vaultDb_request)
  have "custodyRun vaultDb t" by (rule cr_request [OF cr_start _ 1(1)]) (simp add: tenGrams_def)
  from custody_holds_and_books [OF this vaultDb_ok 1(2)] 1 show ?thesis by auto
qed

text \<open>
  Approving a pending movement moves its 750-equivalent weight, from the house's gold wallet to
  the client's for a deposit and back for a withdrawal, lifting the hold of a withdrawal, and touches no
  other account; approving it again answers the same row and changes nothing, and it can no longer be
  rejected or cancelled.
\<close>

theorem custody_approval_moves_gold:
  assumes "findMovement i s = Some m0" and "cm_status m0 = PhysicalCustodyMovementStatus.PENDING"
    and "custody_ok s" and "approveMovement cfg i admin s = Inr (m, t)"
  shows "cm_status m = PhysicalCustodyMovementStatus.APPROVED \<and> findMovement i t = Some m \<and>
    (\<exists>wu wh. walletId (cm_userId m0) ''GOLD_750_EQ'' t = Some wu \<and> walletId HOUSE_USER_ID ''GOLD_750_EQ'' t = Some wh \<and>
       (let d = (if cm_movementType m0 = PhysicalCustodyMovementType.DEPOSIT then movementEquiv m0 else - movementEquiv m0)
        in \<forall>j. posted j t = posted j s + (if j = wu then d else 0) - (if j = wh then d else 0)) \<and>
       (\<forall>j. held j t = held j s -
          (if cm_movementType m0 = PhysicalCustodyMovementType.WITHDRAWAL \<and> j = wu then movementEquiv m0 else 0))) \<and>
    approveMovement cfg i admin' t = Inr (m, t) \<and>
    cancelMovement i reason t = Inl (BadRequestException ''INVALID_STATUS'') \<and>
    rejectMovement reason i t = Inl (BadRequestException ''INVALID_STATUS'')"
proof -
  from assms(4) obtain t' where 1: "approveMovementTx admin i s = Inr (m, t')" "side t' t"
    "enqueueTahesabForPhysicalCustodyMovement cfg m t' = Inr ((), t)" by (rule approveMovement_split)
  note a = custody_ok_approve [OF assms(3) 1(1)] and sums = sameLedger_sums [OF side_ledger [OF 1(2)]]
  have found: "findMovement i t = Some m" using a 1(2) by (simp add: findMovement_def side_sel)
  from a assms(1,2) obtain wu wh where w: "walletId (cm_userId m0) GOLD_750_INSTRUMENT_CODE t' = Some wu"
    "walletId HOUSE_USER_ID GOLD_750_INSTRUMENT_CODE t' = Some wh"
    "\<forall>j. posted j t' = posted j s + (if j = wu then userDelta m0 else 0) - (if j = wh then userDelta m0 else 0) \<and>
            held j t' = held j s -
              (if cm_movementType m0 = PhysicalCustodyMovementType.WITHDRAWAL \<and> j = wu then movementEquiv m0 else 0)"
    by auto
  have "approveMovement cfg i admin' t = Inr (m, t)"
    using found a custodyVoucher_again [OF 1(3)] by (simp add: approveMovement_def approveMovementTx_def)
  then show ?thesis
    using found a w by (simp add: sums GOLD_750_INSTRUMENT_CODE_def userDelta_def [symmetric] cancelMovement_def
        cancelMovementTx_def rejectMovement_def)
qed

lemma custody_approval_moves_gold_witness:
  "\<exists>m t m' t' w. requestMovement dayKeys ''ali'' (tenGrams PhysicalCustodyMovementType.WITHDRAWAL 750) None vaultDb = Inr (m, t) \<and>
     approveMovement noTahesab (cm_id m) None t = Inr (m', t') \<and> walletId HOUSE_USER_ID ''GOLD_750_EQ'' t' = Some w \<and>
     approveMovement noTahesab (cm_id m) None t' = Inr (m', t')"
proof -
  obtain m t m' t' where 1: "requestMovement dayKeys ''ali'' (tenGrams PhysicalCustodyMovementType.WITHDRAWAL 750) None vaultDb = Inr (m, t)"
    "findMovement (cm_id m) t = Some m" "cm_status m = PhysicalCustodyMovementStatus.PENDING"
    "approveMovement noTahesab (cm_id m) None t = Inr (m', t')" by (rule vaultDb_request) blast
  have "custodyRun vaultDb t" by (rule cr_request [OF cr_start _ 1(1)]) (simp add: tenGrams_def)
  from custody_approval_moves_gold [OF 1(2,3) custodyRun_ok [OF this vaultDb_ok] 1(4), of None None] 1 show ?thesis by auto
qed

text \<open>
  The fineness of a request is not checked. A withdrawal whose fineness is negative is accepted and
  "reserves" a negative weight: the blocked balance of the client's gold wallet falls below what its
  other reservations hold, so the client can spend gold that is reserved.
\<close>

theorem negative_fineness_unblocks:
  assumes "requestMovement pk u dto key s = Inr (m, t)" and "\<not> truthy key" and "custody_ok s"
    and "cc_movementType dto = PhysicalCustodyMovementType.WITHDRAWAL"
    and "toEquivGram750 (cc_weightGram dto) (cc_ayar dto) < 0"
  shows "\<exists>a. findAccount (ac_id a) t = Some a \<and> walletId u ''GOLD_750_EQ'' t = Some (ac_id a) \<and>
    ac_blockedBalance a < held (ac_id a) s \<and> ac_balance a - held (ac_id a) s - ac_minBalance a < getUsableCapacity a"
  using assms(1)
proof (cases rule: requestMovement_outcomes)
  case found
  then show ?thesis using assms(2) by simp
next
  case (placed s1)
  let ?u = "(bumpId s)\<lparr>physicalCustodyMovements := physicalCustodyMovements s @ [m]\<rparr>"
  have new: "custodyLedger.addedRow m s ?u"
    using ledger_ok_bump [OF custody_okD [OF assms(3)]] placed(1)
    by (simp add: custodyLedger.addedRow_def movementDue_def newMovement_def bumpId_def)
  from placed(4) assms(4) obtain a r where res: "reserveFunds u GOLD_750_INSTRUMENT_CODE
      (toEquivGram750 (cc_weightGram dto) (cc_ayar dto)) TxRefType.PHYSICAL_CUSTODY_MOVEMENT (cm_id m) s1 = Inr ((a, r), t)" by auto
  have okU: "ledger_ok ?u" using ledger_ok_bump [OF custody_okD [OF assms(3)]] by simp
  note ok1 = sameLedger_ok [OF side_ledger [OF placed(3)] okU]
  have "reservationsUnder TxRefType.PHYSICAL_CUSTODY_MOVEMENT (cm_id m) s1 = []"
    using custodyLedger.addedRow_facts(2) [OF assms(3) [unfolded custody_ok_def] new] effect_side(2) [OF okU placed(3)]
    by (simp add: reservationsUnder_def)
  note b = reserveFunds_blocks [OF ok1 res this]
  have "held j s1 = held j s" for j using held_cong [of s1 s j] effect_side(2) [OF okU placed(3)] by (simp add: bumpId_def)
  then show ?thesis using b assms(5) by (auto simp: GOLD_750_INSTRUMENT_CODE_def getUsableCapacity_def)
qed

lemma negative_fineness_unblocks_witness:
  "\<exists>m t a. requestMovement dayKeys ''ali'' (tenGrams PhysicalCustodyMovementType.WITHDRAWAL (- 750)) None vaultDb = Inr (m, t) \<and>
     findAccount (ac_id a) t = Some a \<and> ac_blockedBalance a < 0"
proof -
  let ?dto = "tenGrams PhysicalCustodyMovementType.WITHDRAWAL (- 750)"
  have "\<not> isl (requestMovement dayKeys ''ali'' ?dto None vaultDb)" by code_simp
  then obtain m t where 1: "requestMovement dayKeys ''ali'' ?dto None vaultDb = Inr (m, t)"
    by (metis isl_def prod.exhaust sum.exhaust)
  have 2: "\<not> truthy (None :: string option)" "cc_movementType ?dto = PhysicalCustodyMovementType.WITHDRAWAL"
    "toEquivGram750 (cc_weightGram ?dto) (cc_ayar ?dto) < 0"
    by (simp_all add: tenGrams_def toEquivGram750_def toFixed6_def)
  have "held j vaultDb = 0" for j by (simp add: held_def vaultDb_def emptyDb_def)
  with negative_fineness_unblocks [OF 1 2(1) vaultDb_ok 2(2,3)] 1 show ?thesis by auto
qed

end
