(* ===== verification/Settings.thy ===== *)
theory Settings
  imports Common
begin

text \<open>
  \<open>modules/user-settings\<close>: the settings of a user, his group's, and the defaults. A row is a record
  of optional values (\<open>None\<close> is null or a missing column); \<open>EffectiveSettingsService\<close> keeps a cache
  for the length of one request, which is part of the state passed along.
\<close>

section \<open>State\<close>

record settings =
  st_showBalances :: "bool option"
  st_showGold :: "bool option"
  st_showCoins :: "bool option"
  st_showCash :: "bool option"
  st_tradeEnabled :: "bool option"
  st_withdrawEnabled :: "bool option"
  st_maxOpenTrades :: "int option"
  st_metaJson :: "string option"

definition USER_SETTINGS_DEFAULTS :: settings where
  "USER_SETTINGS_DEFAULTS = \<lparr>st_showBalances = Some True, st_showGold = Some True, st_showCoins = Some True,
     st_showCash = Some True, st_tradeEnabled = Some True, st_withdrawEnabled = Some True,
     st_maxOpenTrades = None, st_metaJson = None\<rparr>"

text \<open>The tables the services read: groups of users, settings of groups, settings of users.\<close>

record settingsStore =
  ss_groupOf :: "string \<rightharpoonup> string"
  ss_groupSettings :: "string \<rightharpoonup> settings"
  ss_userSettings :: "string \<rightharpoonup> settings"

datatype settingsSource = DEFAULT | GROUP | USER

record settingsSources =
  so_showBalances :: settingsSource
  so_showGold :: settingsSource
  so_showCoins :: settingsSource
  so_showCash :: settingsSource
  so_tradeEnabled :: settingsSource
  so_withdrawEnabled :: settingsSource
  so_maxOpenTrades :: settingsSource
  so_metaJson :: settingsSource

type_synonym settingsCache = "string \<rightharpoonup> settings \<times> settingsSources"

section \<open>UserSettingsService\<close>

definition getForUser :: "settingsStore \<Rightarrow> string \<Rightarrow> settings" where
  "getForUser st userId = (case ss_userSettings st userId of Some row \<Rightarrow> row | None \<Rightarrow> USER_SETTINGS_DEFAULTS)"

text \<open>
  \<open>upsert\<close>: the defaults overwritten by the fields the request carries; a field that is \<open>undefined\<close>
  in the request keeps the value of the defaults, and a \<open>maxOpenTrades\<close> of null writes null, so
  that field is an option of an option; \<open>metaJson\<close> is undefined in the data, so a row keeps its value.
\<close>

record settingsDto =
  sd_showBalances :: "bool option"
  sd_showGold :: "bool option"
  sd_showCoins :: "bool option"
  sd_showCash :: "bool option"
  sd_tradeEnabled :: "bool option"
  sd_withdrawEnabled :: "bool option"
  sd_maxOpenTrades :: "int option option"

definition upsertSettings :: "string \<Rightarrow> settingsDto \<Rightarrow> settingsStore \<Rightarrow> settingsStore" where
  "upsertSettings userId dto st =
     (let d = USER_SETTINGS_DEFAULTS;
          row = d\<lparr>st_showBalances := orElse (sd_showBalances dto) (st_showBalances d),
                  st_showGold := orElse (sd_showGold dto) (st_showGold d),
                  st_showCoins := orElse (sd_showCoins dto) (st_showCoins d),
                  st_showCash := orElse (sd_showCash dto) (st_showCash d),
                  st_tradeEnabled := orElse (sd_tradeEnabled dto) (st_tradeEnabled d),
                  st_withdrawEnabled := orElse (sd_withdrawEnabled dto) (st_withdrawEnabled d),
                  st_maxOpenTrades := withDefault (sd_maxOpenTrades dto) (st_maxOpenTrades d),
                  st_metaJson := Option.bind (ss_userSettings st userId) st_metaJson\<rparr>
      in st\<lparr>ss_userSettings := (ss_userSettings st)(userId \<mapsto> row)\<rparr>)"

section \<open>EffectiveSettingsService\<close>

text \<open>One round of the loop over the fields: the user's value, else the group's, else the default.\<close>

definition effectiveField :: "'v option \<Rightarrow> 'v option \<Rightarrow> 'v option \<Rightarrow> 'v option \<times> settingsSource" where
  "effectiveField userValue groupValue defaultValue =
     (if userValue \<noteq> None then (userValue, USER)
      else if groupValue \<noteq> None then (groupValue, GROUP)
      else (defaultValue, DEFAULT))"

definition effectiveOf :: "settings option \<Rightarrow> settings option \<Rightarrow> settings \<times> settingsSources" where
  "effectiveOf userSettings groupSettings =
     (let d = USER_SETTINGS_DEFAULTS;
          b = (\<lambda>sel :: settings \<Rightarrow> bool option.
            effectiveField (Option.bind userSettings sel) (Option.bind groupSettings sel) (sel d));
          n = effectiveField (Option.bind userSettings st_maxOpenTrades)
                (Option.bind groupSettings st_maxOpenTrades) (st_maxOpenTrades d);
          j = effectiveField (Option.bind userSettings st_metaJson)
                (Option.bind groupSettings st_metaJson) (st_metaJson d)
      in (\<lparr>st_showBalances = fst (b st_showBalances), st_showGold = fst (b st_showGold),
           st_showCoins = fst (b st_showCoins), st_showCash = fst (b st_showCash),
           st_tradeEnabled = fst (b st_tradeEnabled), st_withdrawEnabled = fst (b st_withdrawEnabled),
           st_maxOpenTrades = fst n, st_metaJson = fst j\<rparr>,
          \<lparr>so_showBalances = snd (b st_showBalances), so_showGold = snd (b st_showGold),
           so_showCoins = snd (b st_showCoins), so_showCash = snd (b st_showCash),
           so_tradeEnabled = snd (b st_tradeEnabled), so_withdrawEnabled = snd (b st_withdrawEnabled),
           so_maxOpenTrades = snd n, so_metaJson = snd j\<rparr>))"

definition getEffectiveWithSources ::
  "settingsStore \<Rightarrow> string \<Rightarrow> settingsCache \<Rightarrow> (settings \<times> settingsSources) \<times> settingsCache" where
  "getEffectiveWithSources st userId cache =
     (case cache userId of
        Some cached \<Rightarrow> (cached, cache)
      | None \<Rightarrow>
          (let groupSettings = (if truthy (ss_groupOf st userId) then ss_groupSettings st (the (ss_groupOf st userId)) else None);
               result = effectiveOf (ss_userSettings st userId) groupSettings
           in (result, cache(userId \<mapsto> result))))"

definition getEffective :: "settingsStore \<Rightarrow> string \<Rightarrow> settingsCache \<Rightarrow> settings \<times> settingsCache" where
  "getEffective st userId cache =
     (let r = getEffectiveWithSources st userId cache in (fst (fst r), snd r))"

section \<open>Lemmas\<close>

lemma effectiveField_simps [simp]:
  "effectiveField (Some v) g d = (Some v, USER)"
  "effectiveField None (Some v) d = (Some v, GROUP)"
  "effectiveField None None d = (d, DEFAULT)"
  by (simp_all add: effectiveField_def)

lemma effectiveField_default: "fst (effectiveField u g d) = orElse u (orElse g d)"
  by (cases u; cases g) simp_all

text \<open>Every answer of a request's cache was computed for the user it is stored under, from one store.\<close>

definition fromStore :: "settingsStore \<Rightarrow> string \<Rightarrow> settings \<times> settingsSources" where
  "fromStore st u = fst (getEffectiveWithSources st u Map.empty)"

definition cache_ok :: "settingsStore \<Rightarrow> settingsCache \<Rightarrow> bool" where
  "cache_ok st cache \<longleftrightarrow> (\<forall>u r. cache u = Some r \<longrightarrow> r = fromStore st u)"

lemma getEffectiveWithSources_hit:
  "cache u = Some r \<Longrightarrow> getEffectiveWithSources st u cache = (r, cache)"
  by (simp add: getEffectiveWithSources_def)

lemma getEffectiveWithSources_miss:
  assumes "cache u = None"
  shows "getEffectiveWithSources st u cache = (fromStore st u, cache(u \<mapsto> fromStore st u))"
  unfolding fromStore_def getEffectiveWithSources_def Let_def assms by simp

lemma getEffectiveWithSources_result:
  assumes "cache_ok st cache"
  shows "fst (getEffectiveWithSources st u cache) = fromStore st u"
    and "cache_ok st (snd (getEffectiveWithSources st u cache))"
proof -
  have "fst (getEffectiveWithSources st u cache) = fromStore st u \<and> cache_ok st (snd (getEffectiveWithSources st u cache))"
  proof (cases "cache u")
    case None
    then show ?thesis
      using assms unfolding getEffectiveWithSources_miss [of cache u, OF None] cache_ok_def by simp
  next
    case (Some r)
    from assms have "r = fromStore st u" using Some unfolding cache_ok_def by blast
    then show ?thesis using assms by (simp add: getEffectiveWithSources_hit [of cache u, OF Some])
  qed
  then show "fst (getEffectiveWithSources st u cache) = fromStore st u"
    and "cache_ok st (snd (getEffectiveWithSources st u cache))" by blast+
qed

text \<open>The queries of one request, in order: the answers, and the cache at the end.\<close>

fun queriesOf :: "settingsStore \<Rightarrow> string list \<Rightarrow> settingsCache \<Rightarrow> settings list \<times> settingsCache" where
  "queriesOf st [] cache = ([], cache)"
| "queriesOf st (u # us) cache =
     (let r = getEffective st u cache; rest = queriesOf st us (snd r) in (fst r # fst rest, snd rest))"

lemma queriesOf_answers:
  "cache_ok st cache \<Longrightarrow> fst (queriesOf st us cache) = map (\<lambda>u. fst (fromStore st u)) us"
  by (induction us arbitrary: cache) (simp_all add: getEffective_def Let_def getEffectiveWithSources_result)

section \<open>Properties\<close>

text \<open>The specification: one field of a user's settings, over the tables.\<close>

definition specField :: "settingsStore \<Rightarrow> string \<Rightarrow> (settings \<Rightarrow> 'v option) \<Rightarrow> 'v option \<Rightarrow> 'v option" where
  "specField st u sel d =
     orElse (Option.bind (ss_userSettings st u) sel)
       (orElse (Option.bind (if truthy (ss_groupOf st u) then ss_groupSettings st (the (ss_groupOf st u)) else None) sel) d)"

text \<open>
  The request cache is transparent: in any sequence of queries of one request that starts with an
  empty cache, over tables that do not change, every answer is the one computed from the tables: each
  field is the user's value when the user has one, else the value of his group, else the default.
\<close>

theorem effective_settings_cached:
  "fst (queriesOf st us Map.empty) =
   map (\<lambda>u. \<lparr>st_showBalances = specField st u st_showBalances (Some True),
      st_showGold = specField st u st_showGold (Some True), st_showCoins = specField st u st_showCoins (Some True),
      st_showCash = specField st u st_showCash (Some True),
      st_tradeEnabled = specField st u st_tradeEnabled (Some True),
      st_withdrawEnabled = specField st u st_withdrawEnabled (Some True),
      st_maxOpenTrades = specField st u st_maxOpenTrades None, st_metaJson = specField st u st_metaJson None\<rparr>) us"
proof -
  have "fst (queriesOf st us Map.empty) = map (\<lambda>u. fst (fromStore st u)) us"
    by (rule queriesOf_answers) (simp add: cache_ok_def)
  then show ?thesis
    by (simp add: fromStore_def getEffectiveWithSources_def effectiveOf_def effectiveField_default specField_def
        USER_SETTINGS_DEFAULTS_def Let_def)
qed

end
