(* ===== verification/Market.thy ===== *)
theory Market
  imports Outbox Settings
begin

text \<open>
  \<open>modules/market\<close>: the pricing engine, the resolver of a product's quote, the quotes a user sees and
  the locking of a quote. The price providers, the Redis store and the environment are parameters; a
  printed time (\<open>toISOString\<close>) is the time.
\<close>

section \<open>Quotes\<close>

datatype QuoteStatus = OK | STALE | NO_PRICE

record canonicalQuote =
  cq_baseBuy :: "decimal option"
  cq_baseSell :: "decimal option"
  cq_displayBuy :: "decimal option"
  cq_displaySell :: "decimal option"
  cq_status :: QuoteStatus
  cq_asOf :: time
  cq_updatedAt :: time

section \<open>PricingEngineService\<close>

text \<open>The environment as the engine reads it: a variable's number, \<open>None\<close> when it is not set.\<close>

definition spreadBps :: "(string \<Rightarrow> decimal option) \<Rightarrow> MarketProductType \<Rightarrow> decimal \<times> decimal" where
  "spreadBps env productType =
     (let suffix = (if productType = MarketProductType.GOLD then ''GOLD''
                    else if productType = MarketProductType.COIN then ''COIN'' else ''CASH'')
      in (withDefault (env (''MARKET_SPREAD_BPS_'' @ suffix @ ''_BUY'')) 0,
          withDefault (env (''MARKET_SPREAD_BPS_'' @ suffix @ ''_SELL'')) 0))"

definition applySpread :: "decimal \<Rightarrow> decimal \<Rightarrow> decimal" where
  "applySpread base bps = toFixed6 (base * (1 + bps / 10000))"

definition applyPricing ::
  "(string \<Rightarrow> decimal option) \<Rightarrow> MarketProductType \<Rightarrow> decimal option \<Rightarrow> decimal option \<Rightarrow>
   decimal option \<times> decimal option" where
  "applyPricing env productType baseBuy baseSell =
     (map_option (\<lambda>b. applySpread b (fst (spreadBps env productType))) baseBuy,
      map_option (\<lambda>b. applySpread b (snd (spreadBps env productType))) baseSell)"

section \<open>QuoteResolverService\<close>

record providerQuote =
  pq_buy :: "decimal option"
  pq_sell :: "decimal option"
  pq_asOf :: time

definition validateProviderQuote :: "providerQuote option \<Rightarrow> bool" where
  "validateProviderQuote q =
     (case q of None \<Rightarrow> False
      | Some p \<Rightarrow> (case (pq_buy p, pq_sell p) of (Some b, Some s) \<Rightarrow> 0 \<le> b \<and> 0 \<le> s | _ \<Rightarrow> False))"

definition isStale :: "time \<Rightarrow> time \<Rightarrow> time \<Rightarrow> bool" where
  "isStale staleAfterSec now asOf = (asOf < now - staleAfterSec * 1000)"

record priceOverride =
  po_isActive :: bool
  po_revokedAt :: "time option"
  po_startsAt :: "time option"
  po_expiresAt :: "time option"

definition isOverrideActive :: "priceOverride option \<Rightarrow> time \<Rightarrow> bool" where
  "isOverrideActive ov now =
     (case ov of None \<Rightarrow> False
      | Some r \<Rightarrow> po_isActive r \<and> \<not> (case po_revokedAt r of None \<Rightarrow> False | Some t \<Rightarrow> t \<le> now) \<and>
          \<not> (case po_startsAt r of None \<Rightarrow> False | Some t \<Rightarrow> now < t) \<and>
          \<not> (case po_expiresAt r of None \<Rightarrow> False | Some t \<Rightarrow> t \<le> now))"

text \<open>
  The loop over the mappings of a product: \<open>fetch\<close> is a mapping's provider, which is missing
  (\<open>None\<close>), throws (\<open>Some (Inl message)\<close>) or answers.
\<close>

fun chooseQuote :: "('m \<Rightarrow> (string + providerQuote option) option) \<Rightarrow> 'm list \<Rightarrow> providerQuote option" where
  "chooseQuote fetch [] = None"
| "chooseQuote fetch (m # ms) =
     (case fetch m of
        None \<Rightarrow> chooseQuote fetch ms
      | Some (Inl message) \<Rightarrow> chooseQuote fetch ms
      | Some (Inr q) \<Rightarrow> (if validateProviderQuote q then q else chooseQuote fetch ms))"

text \<open>
  \<open>resolve\<close>: \<open>applyOverride\<close> answers null whatever the override; without a price the base quote is
  returned, and with one the last statement returns null.
\<close>

definition applyOverride :: "priceOverride option \<Rightarrow> canonicalQuote option" where
  "applyOverride activeOverride = None"

definition resolveQuote ::
  "('m \<Rightarrow> (string + providerQuote option) option) \<Rightarrow> 'm list \<Rightarrow> priceOverride option \<Rightarrow> time \<Rightarrow>
   canonicalQuote option" where
  "resolveQuote fetch mappings ov now =
     (let base = \<lparr>cq_baseBuy = None, cq_baseSell = None, cq_displayBuy = None, cq_displaySell = None,
                  cq_status = NO_PRICE, cq_asOf = now, cq_updatedAt = now\<rparr>;
          chosen = chooseQuote fetch mappings;
          activeOverride = (if isOverrideActive ov now then ov else None)
      in case applyOverride activeOverride of
           Some overridden \<Rightarrow> Some overridden
         | None \<Rightarrow> (case chosen of None \<Rightarrow> Some base | Some q \<Rightarrow> None))"

section \<open>MarketQuotesService\<close>

text \<open>A setting that is null is false.\<close>

definition isOn :: "bool option \<Rightarrow> bool" where
  "isOn b = (b = Some True)"

definition isVisible :: "MarketProductType \<Rightarrow> settings \<Rightarrow> bool" where
  "isVisible productType st =
     (if productType = MarketProductType.GOLD \<and> \<not> isOn (st_showGold st) then False
      else if productType = MarketProductType.COIN \<and> \<not> isOn (st_showCoins st) then False
      else if productType = MarketProductType.CASH \<and> \<not> isOn (st_showCash st) then False
      else True)"

definition findProduct :: "id \<Rightarrow> db \<Rightarrow> marketProduct option" where
  "findProduct i s = findFirst (\<lambda>p. mp_id p = i) (marketProducts s)"

definition quoteItem :: "marketProduct \<Rightarrow> canonicalQuote option \<Rightarrow> marketProduct \<times> canonicalQuote" where
  "quoteItem product q =
     (product,
      case q of Some r \<Rightarrow> r
      | None \<Rightarrow> \<lparr>cq_baseBuy = None, cq_baseSell = None, cq_displayBuy = None, cq_displaySell = None,
                cq_status = NO_PRICE, cq_asOf = 0, cq_updatedAt = 0\<rparr>)"

definition getOneQuote ::
  "settingsStore \<Rightarrow> (id \<Rightarrow> canonicalQuote option) \<Rightarrow> id \<Rightarrow> id \<Rightarrow> db \<Rightarrow> err + marketProduct \<times> canonicalQuote" where
  "getOneQuote st cache userId productId s =
     (let settings = getForUser st userId
      in case findProduct productId s of
           None \<Rightarrow> Inl (NotFoundException ''MARKET_PRODUCT_NOT_FOUND'')
         | Some product \<Rightarrow>
             (if \<not> mp_isActive product then Inl (NotFoundException ''MARKET_PRODUCT_NOT_FOUND'')
              else if \<not> isVisible (mp_productType product) settings
                then Inl (ForbiddenException ''MARKET_PRODUCT_HIDDEN'')
              else let fallback = \<lparr>cq_baseBuy = None, cq_baseSell = None, cq_displayBuy = None,
                         cq_displaySell = None, cq_status = NO_PRICE, cq_asOf = db_now s, cq_updatedAt = db_now s\<rparr>
                in Inr (quoteItem product (orElse (cache productId) (Some fallback)))))"

text \<open>\<open>listForUser\<close> up to the read of the quotes: \<open>getQuotes\<close> answers null, so indexing it throws.\<close>

definition getQuotes :: "id list \<Rightarrow> canonicalQuote option list option" where
  "getQuotes productIds = None"

definition listQuotesForUser :: "settingsStore \<Rightarrow> id \<Rightarrow> db \<Rightarrow> err + (marketProduct \<times> canonicalQuote) list" where
  "listQuotesForUser st userId s =
     (let settings = getForUser st userId;
          products = findMany mp_isActive (marketProducts s);
          filteredProducts = filter (\<lambda>p. isVisible (mp_productType p) settings) products;
          quotes = getQuotes (map mp_id filteredProducts)
      in case quotes of
           None \<Rightarrow> (if filteredProducts = [] then Inr [] else Inl (TypeError ''quotes''))
         | Some qs \<Rightarrow> Inr (map2 quoteItem filteredProducts qs))"

section \<open>QuoteLockService\<close>

record lockedQuote =
  ql_quoteId :: id
  ql_userId :: id
  ql_productId :: id
  ql_productCode :: string
  ql_side :: TradeSide
  ql_metric :: PolicyMetric
  ql_baseInstrumentId :: id
  ql_baseInstrumentCode :: string
  ql_baseBuy :: "decimal option"
  ql_baseSell :: "decimal option"
  ql_displayBuy :: "decimal option"
  ql_displaySell :: "decimal option"
  ql_executablePrice :: decimal
  ql_asOf :: time
  ql_expiresAt :: time
  ql_createdAt :: time

text \<open>
  What the service reads from outside: the quote cache, the Redis key of a lock, and the lifetime of a
  lock in seconds.
\<close>

record quoteEnv =
  qe_quote :: "id \<Rightarrow> canonicalQuote option"
  qe_lock :: "id \<Rightarrow> lockedQuote option"
  qe_lockTtlSec :: int

definition assertExecutable :: "canonicalQuote option \<Rightarrow> err option" where
  "assertExecutable q =
     (case q of None \<Rightarrow> Some (ConflictException ''NO_EXECUTABLE_QUOTE'')
      | Some r \<Rightarrow> (if cq_status r = NO_PRICE then Some (ConflictException ''NO_EXECUTABLE_QUOTE'')
                   else if cq_status r = STALE then Some (ConflictException ''QUOTE_STALE'') else None))"

definition getExistingLockId :: "id \<Rightarrow> id \<Rightarrow> TradeSide \<Rightarrow> id option" where
  "getExistingLockId userId productId side = None"

definition getExecutablePrice :: "canonicalQuote \<Rightarrow> TradeSide \<Rightarrow> err + decimal" where
  "getExecutablePrice q side =
     (case (if side = TradeSide.BUY then cq_displayBuy q else cq_displaySell q) of
        None \<Rightarrow> Inl (ConflictException ''NO_EXECUTABLE_QUOTE'')
      | Some price \<Rightarrow> Inr price)"

definition saveAudit :: "lockedQuote \<Rightarrow> db \<Rightarrow> unit tx" where
  "saveAudit payload s =
     (if \<exists>a\<in>set (quoteLockAudits s). qa_quoteId a = ql_quoteId payload
        then Inl (UniqueConstraintViolation ''QuoteLockAudit'')
      else Inr ((), s\<lparr>quoteLockAudits := quoteLockAudits s @
        [\<lparr>qa_quoteId = ql_quoteId payload, qa_userId = ql_userId payload, qa_productId = ql_productId payload,
          qa_side = ql_side payload, qa_expiresAt = ql_expiresAt payload, qa_consumedAt = None,
          qa_tradeId = None\<rparr>]\<rparr>))"

definition lockRow ::
  "quoteEnv \<Rightarrow> id \<Rightarrow> id \<Rightarrow> marketProduct \<Rightarrow> TradeSide \<Rightarrow> decimal \<Rightarrow> canonicalQuote \<Rightarrow> db \<Rightarrow> lockedQuote" where
  "lockRow env userId productId product side executablePrice quote s =
     \<lparr>ql_quoteId = freshId s, ql_userId = userId, ql_productId = productId, ql_productCode = mp_code product,
      ql_side = side, ql_metric = mp_unitType product, ql_baseInstrumentId = mp_baseInstrumentId product,
      ql_baseInstrumentCode =
        (case findFirst (\<lambda>i. in_id i = mp_baseInstrumentId product) (instruments s) of
           None \<Rightarrow> [] | Some i \<Rightarrow> in_code i),
      ql_baseBuy = cq_baseBuy quote, ql_baseSell = cq_baseSell quote, ql_displayBuy = cq_displayBuy quote,
      ql_displaySell = cq_displaySell quote, ql_executablePrice = executablePrice, ql_asOf = cq_asOf quote,
      ql_expiresAt = db_now s + qe_lockTtlSec env * 1000, ql_createdAt = db_now s\<rparr>"

definition lockQuote ::
  "settingsStore \<Rightarrow> quoteEnv \<Rightarrow> id \<Rightarrow> id \<Rightarrow> TradeSide \<Rightarrow> bool \<Rightarrow> db \<Rightarrow> lockedQuote tx" where
  "lockQuote st env userId productId side forceNew s =
     (let settings = getForUser st userId
      in case findProduct productId s of
           None \<Rightarrow> Inl (NotFoundException ''MARKET_PRODUCT_NOT_FOUND'')
         | Some product \<Rightarrow>
       (if \<not> mp_isActive product then Inl (NotFoundException ''MARKET_PRODUCT_NOT_FOUND'')
        else let hiddenTypes = (if isOn (st_showGold settings) then [] else [MarketProductType.GOLD]) @
                   (if isOn (st_showCoins settings) then [] else [MarketProductType.COIN]) @
                   (if isOn (st_showCash settings) then [] else [MarketProductType.CASH])
        in if mp_productType product \<in> set hiddenTypes then Inl (ForbiddenException ''MARKET_PRODUCT_HIDDEN'')
        else let existingLockId = (if forceNew then None else getExistingLockId userId productId side)
        in case (if truthy existingLockId then qe_lock env (the existingLockId) else None) of
             Some reuse \<Rightarrow> Inr (reuse, s)
           | None \<Rightarrow>
         (case assertExecutable (qe_quote env productId) of
            Some e \<Rightarrow> Inl e
          | None \<Rightarrow>
         (case getExecutablePrice (the (qe_quote env productId)) side of
            Inl e \<Rightarrow> Inl e
          | Inr executablePrice \<Rightarrow>
              (let payload = lockRow env userId productId product side executablePrice (the (qe_quote env productId)) s
               in bindE (saveAudit payload (bumpId s)) (\<lambda>_ s. Inr (payload, s)))))))"

definition getLockForUser :: "quoteEnv \<Rightarrow> id \<Rightarrow> id \<Rightarrow> err + lockedQuote" where
  "getLockForUser env quoteId userId =
     (case qe_lock env quoteId of
        None \<Rightarrow> Inl (NotFoundException ''QUOTE_LOCK_EXPIRED'')
      | Some payload \<Rightarrow>
          (if ql_userId payload \<noteq> userId then Inl (ForbiddenException ''QUOTE_LOCK_FORBIDDEN'')
           else Inr payload))"

text \<open>
  \<open>evalConsume\<close> returns undefined: its body is commented out. Reading \<open>status\<close> of undefined throws a
  \<open>TypeError\<close>.
\<close>

datatype ConsumeStatus = CONSUME_OK | NOT_FOUND | ALREADY_CONSUMED | FORBIDDEN

definition evalConsume :: "id \<Rightarrow> id option \<Rightarrow> (ConsumeStatus \<times> lockedQuote) option" where
  "evalConsume quoteId expectedUserId = None"

text \<open>The three tests of \<open>consumeLock\<close> and \<open>consumeForUser\<close> exclude each other; their order differs.\<close>

definition consumedPayload :: "(ConsumeStatus \<times> lockedQuote) option \<Rightarrow> err + lockedQuote" where
  "consumedPayload result =
     (case result of
        None \<Rightarrow> Inl (TypeError ''status'')
      | Some (status, payload) \<Rightarrow>
          (if status = NOT_FOUND then Inl (ConflictException ''QUOTE_LOCK_EXPIRED'')
           else if status = FORBIDDEN then Inl (ForbiddenException ''QUOTE_LOCK_FORBIDDEN'')
           else if status = ALREADY_CONSUMED then Inl (ConflictException ''QUOTE_LOCK_ALREADY_USED'')
           else Inr payload))"

definition consumeLock :: "id \<Rightarrow> err + lockedQuote" where
  "consumeLock quoteId = consumedPayload (evalConsume quoteId None)"

definition consumeForUser :: "id \<Rightarrow> id \<Rightarrow> err + lockedQuote" where
  "consumeForUser quoteId expectedUserId = consumedPayload (evalConsume quoteId (Some expectedUserId))"

definition markConsumed :: "id \<Rightarrow> id \<Rightarrow> db \<Rightarrow> unit tx" where
  "markConsumed quoteId tradeId s =
     Inr ((), s\<lparr>quoteLockAudits := updateRows (\<lambda>a. qa_quoteId a = quoteId)
       (\<lambda>a. a\<lparr>qa_consumedAt := Some (db_now s), qa_tradeId := Some tradeId\<rparr>) (quoteLockAudits s)\<rparr>)"

section \<open>Properties\<close>

text \<open>Rounding to six digits.\<close>

lemma round_half_nonneg: "(0 :: rat) \<le> y \<Longrightarrow> 0 \<le> \<lfloor>y + 1 / 2\<rfloor>"
  by (simp add: zero_le_floor)

lemma round_half_near: "\<bar>of_int \<lfloor>y + 1 / 2\<rfloor> - y\<bar> \<le> (1 / 2 :: rat)"
proof -
  have "of_int \<lfloor>y + 1 / 2\<rfloor> \<le> y + 1 / 2" "y + 1 / 2 < of_int \<lfloor>y + 1 / 2\<rfloor> + 1" 
    using floor_correct [of "y + 1 / 2"] by (simp_all only: of_int_add of_int_1)
  then show ?thesis by (simp only: abs_le_iff) linarith
qed

lemma toFixed6_near: "\<bar>toFixed6 x - x\<bar> \<le> 1 / 2000000"
proof -
  have "\<bar>of_int \<lfloor>y * 1000000 + 1 / 2\<rfloor> / 1000000 - y\<bar> \<le> 1 / 2000000" for y :: rat
    using round_half_near [of "y * 1000000"] by (simp add: abs_le_iff field_simps)
  note near = this
  show ?thesis
  proof (cases "0 \<le> x")
    case False
    have "- (of_int \<lfloor>(- x) * 1000000 + 1 / 2\<rfloor> / 1000000) - x = - (of_int \<lfloor>(- x) * 1000000 + 1 / 2\<rfloor> / 1000000 - (- x))" by simp
    then show ?thesis unfolding toFixed6_def if_not_P [OF False] by (metis abs_minus_cancel near)
  qed (use near [of x] in \<open>simp add: toFixed6_def\<close>)
qed

lemma toFixed6_nonneg: "0 \<le> x \<Longrightarrow> 0 \<le> toFixed6 x"
  using round_half_nonneg [of "x * 1000000"] by (simp add: toFixed6_def)

lemma toFixed6_mono: "0 \<le> x \<Longrightarrow> x \<le> y \<Longrightarrow> toFixed6 x \<le> toFixed6 y"
  by (simp add: toFixed6_def divide_right_mono floor_mono)

text \<open>A market of one product, whose quote can be executed.\<close>

definition aCoin :: marketProduct where
  "aCoin = \<lparr>mp_id = ''p'', mp_code = ''COIN'', mp_productType = MarketProductType.COIN, mp_tradeType = TradeType.SPOT,
     mp_baseInstrumentId = ''c'', mp_unitType = PolicyMetric.COUNT, mp_isActive = True, mp_createdAt = 0,
     mp_displayName = [], mp_groupKey = [], mp_sortOrder = 0\<rparr>"

definition coinMarket :: quoteEnv where
  "coinMarket = \<lparr>qe_quote = (\<lambda>_. Some \<lparr>cq_baseBuy = Some 5, cq_baseSell = Some 4, cq_displayBuy = Some 6,
       cq_displaySell = Some 3, cq_status = OK, cq_asOf = 0, cq_updatedAt = 0\<rparr>),
     qe_lock = (\<lambda>_. None), qe_lockTtlSec = 60\<rparr>"

definition noSettings :: settingsStore where
  "noSettings = \<lparr>ss_groupOf = (\<lambda>_. None), ss_groupSettings = (\<lambda>_. None), ss_userSettings = (\<lambda>_. None)\<rparr>"

text \<open>
  The prices a user sees stay close to the market: a displayed price is the base price with its
  spread up to half of the sixth digit, is never negative when the base price is not and the spread takes
  at most all of it, and the buying price stays above the selling price when both the base prices and
  the spreads are in that order.
\<close>

theorem displayed_prices_bounded:
  assumes "applyPricing env ty (Some buy) (Some sell) = (Some b, Some s)"
    and "0 \<le> sell" and "sell \<le> buy" and "- 10000 \<le> snd (spreadBps env ty)"
    and "snd (spreadBps env ty) \<le> fst (spreadBps env ty)"
  shows "\<bar>b - buy * (1 + fst (spreadBps env ty) / 10000)\<bar> \<le> 1 / 2000000 \<and>
    \<bar>s - sell * (1 + snd (spreadBps env ty) / 10000)\<bar> \<le> 1 / 2000000 \<and> 0 \<le> s \<and> s \<le> b"
proof -
  have f: "0 \<le> 1 + snd (spreadBps env ty) / 10000"
    "1 + snd (spreadBps env ty) / 10000 \<le> 1 + fst (spreadBps env ty) / 10000" using assms(4,5) by simp_all
  have nn: "0 \<le> sell * (1 + snd (spreadBps env ty) / 10000)" using f(1) assms(2) by simp
  moreover have "sell * (1 + snd (spreadBps env ty) / 10000) \<le> buy * (1 + fst (spreadBps env ty) / 10000)"
    using f assms(2,3) by (intro mult_mono) simp_all
  ultimately have "0 \<le> s \<and> s \<le> b"
    using assms(1) toFixed6_nonneg toFixed6_mono by (auto simp: applyPricing_def applySpread_def)
  then show ?thesis using assms(1) toFixed6_near by (auto simp: applyPricing_def applySpread_def)
qed

lemma displayed_prices_bounded_witness:
  "\<exists>b s. applyPricing (\<lambda>v. if v = ''MARKET_SPREAD_BPS_COIN_BUY'' then Some 100 else None) MarketProductType.COIN
      (Some 5) (Some 4) = (Some b, Some s) \<and> s \<le> b"
proof -
  let ?env = "\<lambda>v. if v = ''MARKET_SPREAD_BPS_COIN_BUY'' then Some 100 else None :: decimal option"
  have "spreadBps ?env MarketProductType.COIN = (100, 0)" by (simp add: spreadBps_def)
  with displayed_prices_bounded [of ?env MarketProductType.COIN 5 4 "applySpread 5 100" "applySpread 4 0"]
  show ?thesis by (simp add: applyPricing_def)
qed

text \<open>
  The lock and the quote of a product agree: a user is refused a lock because the product is hidden
  exactly when he is refused its quote for that reason; and a lock that is given carries the price
  displayed to the user for his side of the trade, of a quote that is fresh, and expires after the
  configured number of seconds.
\<close>

theorem lock_agrees_with_quote:
  "(lockQuote st env u p side f s = Inl (ForbiddenException ''MARKET_PRODUCT_HIDDEN'') \<longleftrightarrow>
    getOneQuote st (qe_quote env) u p s = Inl (ForbiddenException ''MARKET_PRODUCT_HIDDEN'')) \<and>
   (\<forall>l t. lockQuote st env u p side f s = Inr (l, t) \<longrightarrow>
      (\<exists>product q. getOneQuote st (qe_quote env) u p s = Inr (product, q) \<and> cq_status q = OK \<and>
         (if side = TradeSide.BUY then cq_displayBuy q else cq_displaySell q) = Some (ql_executablePrice l) \<and>
         ql_userId l = u \<and> ql_productId l = p \<and> ql_side l = side \<and>
         ql_expiresAt l = db_now s + qe_lockTtlSec env * 1000))"
proof (cases "findProduct p s")
  case (Some product)
  let ?st = "getForUser st u"
  have fresh: "(if f then None else getExistingLockId u p side) = None" by (simp add: getExistingLockId_def)
  have hid: "mp_productType product \<in> set ((if isOn (st_showGold ?st) then [] else [MarketProductType.GOLD]) @
       (if isOn (st_showCoins ?st) then [] else [MarketProductType.COIN]) @
       (if isOn (st_showCash ?st) then [] else [MarketProductType.CASH])) \<longleftrightarrow>
     \<not> isVisible (mp_productType product) ?st"
    by (cases "mp_productType product") (simp_all add: isVisible_def)
  show ?thesis
  proof (cases "mp_isActive product \<and> isVisible (mp_productType product) ?st")
    case True
    have "lockQuote st env u p side f s \<noteq> Inl (ForbiddenException ''MARKET_PRODUCT_HIDDEN'')"
      using Some True hid
      by (auto simp: lockQuote_def fresh Let_def assertExecutable_def getExecutablePrice_def saveAudit_def
          split: option.splits if_splits QuoteStatus.splits)
    moreover have "\<exists>q. qe_quote env p = Some q \<and> cq_status q = OK \<and>
         (if side = TradeSide.BUY then cq_displayBuy q else cq_displaySell q) = Some (ql_executablePrice l) \<and>
         ql_userId l = u \<and> ql_productId l = p \<and> ql_side l = side \<and>
         ql_expiresAt l = db_now s + qe_lockTtlSec env * 1000"
      if run: "lockQuote st env u p side f s = Inr (l, t)" for l t
    proof -
      have a: "assertExecutable (qe_quote env p) = None"
        using run Some True hid by (cases "assertExecutable (qe_quote env p)") (simp_all add: lockQuote_def fresh Let_def)
      then obtain q where q: "qe_quote env p = Some q" "cq_status q = OK"
        using QuoteStatus.exhaust by (auto simp: assertExecutable_def split: option.splits if_splits)
      obtain price where price: "getExecutablePrice q side = Inr price"
        using run Some True hid a q(1)
        by (cases "getExecutablePrice q side") (simp_all add: lockQuote_def fresh Let_def)
      have "l = lockRow env u p product side price q s"
        using run Some True hid a q(1) price
        by (auto simp: lockQuote_def fresh bindE_Inr_iff Let_def)
      then show ?thesis
        using q price Some by (auto simp: lockRow_def getExecutablePrice_def findProduct_def split: option.splits dest: find_SomeD)
    qed
    ultimately show ?thesis using Some True by (fastforce simp: getOneQuote_def quoteItem_def Let_def)
  next
    case False
    then show ?thesis using Some hid by (auto simp: lockQuote_def getOneQuote_def Let_def)
  qed
qed (simp add: lockQuote_def getOneQuote_def)

lemma lock_agrees_with_quote_witness:
  "\<exists>l t. lockQuote noSettings coinMarket ''ali'' ''p'' TradeSide.SELL False (emptyDb\<lparr>marketProducts := [aCoin]\<rparr>) = Inr (l, t) \<and>
     ql_executablePrice l = 3"
proof -
  let ?s = "emptyDb\<lparr>marketProducts := [aCoin]\<rparr>"
  have "\<not> isl (lockQuote noSettings coinMarket ''ali'' ''p'' TradeSide.SELL False ?s)" by code_simp
  then obtain l t where 1: "lockQuote noSettings coinMarket ''ali'' ''p'' TradeSide.SELL False ?s = Inr (l, t)"
    by (metis isl_def prod.exhaust sum.exhaust)
  have "getForUser noSettings ''ali'' = USER_SETTINGS_DEFAULTS" by (simp add: getForUser_def noSettings_def)
  moreover have "isVisible MarketProductType.COIN USER_SETTINGS_DEFAULTS" by code_simp
  ultimately have "getOneQuote noSettings (qe_quote coinMarket) ''ali'' ''p'' ?s = Inr (aCoin, the (qe_quote coinMarket ''p''))"
    by (simp add: getOneQuote_def quoteItem_def coinMarket_def findProduct_def aCoin_def)
  moreover from 1 conjunct2 [OF lock_agrees_with_quote [of noSettings coinMarket "''ali''" "''p''" TradeSide.SELL False ?s]]
  obtain product q where "getOneQuote noSettings (qe_quote coinMarket) ''ali'' ''p'' ?s = Inr (product, q)"
    "(if TradeSide.SELL = TradeSide.BUY then cq_displayBuy q else cq_displaySell q) = Some (ql_executablePrice l)" by blast
  ultimately have "cq_displaySell (the (qe_quote coinMarket ''p'')) = Some (ql_executablePrice l)" by simp
  then show ?thesis using 1 by (simp add: coinMarket_def)
qed

end
