(* ===== verification/Trades.thy ===== *)
theory Trades
  imports Custody Market
begin

text \<open>
  \<open>modules/trades/trades.service.ts\<close>: the trades of the clients with the house. A trade is created
  from a locked quote, reserves the money or the asset it sells, and is approved (money and asset
  change hands between the client's and the house's wallets), rejected, cancelled or reversed; a
  forward trade is settled in cash.
\<close>

section \<open>Creation\<close>

definition findTrade :: "id \<Rightarrow> db \<Rightarrow> trade option" where
  "findTrade i s = findFirst (\<lambda>t. td_id t = i) (trades s)"

definition updateTrade :: "trade \<Rightarrow> db \<Rightarrow> trade tx" where
  "updateTrade t s =
     (let t' = t\<lparr>td_updatedAt := db_now s\<rparr>
      in Inr (t', s\<lparr>trades := updateRows (\<lambda>x. td_id x = td_id t) (\<lambda>_. t') (trades s)\<rparr>))"

definition createTradeRow :: "trade \<Rightarrow> db \<Rightarrow> trade tx" where
  "createTradeRow t s =
     (if td_idempotencyKey t \<noteq> None \<and> (\<exists>x\<in>set (trades s). td_clientId x = td_clientId t \<and>
            td_idempotencyKey x = td_idempotencyKey t)
        then Inl (UniqueConstraintViolation ''Trade'')
      else Inr (t, (bumpId s)\<lparr>trades := trades s @ [t]\<rparr>))"

definition instrumentById :: "id \<Rightarrow> db \<Rightarrow> instrument option" where
  "instrumentById i s = findFirst (\<lambda>x. in_id x = i) (instruments s)"

record createTradeDto =
  ct_instrumentCode :: "string option"
  ct_side :: TradeSide
  ct_quantity :: decimal
  ct_settlementMethod :: SettlementMethod
  ct_clientNote :: "string option"
  ct_fileIds :: "id list option"
  ct_quoteId :: "id option"

definition validateTypeAndSettlementMethod :: "TradeType \<Rightarrow> SettlementMethod \<Rightarrow> err option" where
  "validateTypeAndSettlementMethod type method =
     (if method \<noteq> SettlementMethod.WALLET then Some (BadRequestException ''NOT_IMPLEMENTED'')
      else if type \<noteq> TradeType.SPOT then Some (BadRequestException ''NOT_IMPLEMENTED'') else None)"

definition tradeLimitRequest ::
  "id \<Rightarrow> PolicyAction \<Rightarrow> PolicyMetric \<Rightarrow> PolicyPeriod \<Rightarrow> decimal \<Rightarrow> string \<Rightarrow> id option \<Rightarrow> instrument \<Rightarrow> id \<Rightarrow> limitRequest" where
  "tradeLimitRequest userId action metric period amount instrumentKey productId instrument refId =
     \<lparr>lq_userId = userId, lq_action = action, lq_metric = metric, lq_period = period, lq_amount = amount,
      lq_instrumentKey = Some instrumentKey, lq_instrumentId = Some (in_id instrument),
      lq_instrumentType = Some (in_type instrument), lq_productId = productId,
      lq_refType = TxRefType.TRADE, lq_refId = refId\<rparr>"

definition reserveMetric ::
  "periodKeys \<Rightarrow> PolicyAction \<Rightarrow> id option \<Rightarrow> instrument \<Rightarrow> trade \<Rightarrow> PolicyMetric \<Rightarrow> decimal \<Rightarrow> string \<Rightarrow> db \<Rightarrow> unit tx" where
  "reserveMetric pk action productId instrument trade metric amount instrumentKey s =
     bindE (reserveLimit pk (tradeLimitRequest (td_clientId trade) action metric PolicyPeriod.DAILY amount
              instrumentKey productId instrument (td_id trade)) s) (\<lambda>_ s.
     bindE (reserveLimit pk (tradeLimitRequest (td_clientId trade) action metric PolicyPeriod.MONTHLY amount
              instrumentKey productId instrument (td_id trade)) s) (\<lambda>_ s. Inr ((), s)))"

definition tradeMetric :: "PolicyMetric option \<Rightarrow> instrument \<Rightarrow> PolicyMetric option" where
  "tradeMetric metric instrument =
     (if metric \<noteq> None then metric
      else if in_type instrument = InstrumentType.GOLD then Some PolicyMetric.WEIGHT_750_G
      else if in_type instrument = InstrumentType.COIN then Some PolicyMetric.COUNT else None)"

definition reserveLimitsForTrade ::
  "periodKeys \<Rightarrow> PolicyAction \<Rightarrow> instrument \<Rightarrow> PolicyMetric option \<Rightarrow> id option \<Rightarrow> decimal \<Rightarrow> decimal \<Rightarrow> trade \<Rightarrow>
   db \<Rightarrow> unit tx" where
  "reserveLimitsForTrade pk action instrument lockMetric productId quantity totalAmount trade s =
     (let instrumentKey = withDefault productId (in_id instrument)
      in bindE (reserveMetric pk action productId instrument trade PolicyMetric.NOTIONAL_IRR totalAmount ''ALL'' s)
           (\<lambda>_ s. case tradeMetric lockMetric instrument of
                    Some metric \<Rightarrow> reserveMetric pk action productId instrument trade metric quantity instrumentKey s
                  | None \<Rightarrow> Inr ((), s)))"

definition reserveFundsForTrade :: "trade \<Rightarrow> instrument \<Rightarrow> decimal \<Rightarrow> decimal \<Rightarrow> db \<Rightarrow> unit tx" where
  "reserveFundsForTrade trade instrument quantity totalAmount s =
     (if td_settlementMethod trade \<noteq> SettlementMethod.WALLET then Inr ((), s)
      else if td_side trade = TradeSide.BUY
        then bindE (reserveFunds (td_clientId trade) IRR_INSTRUMENT_CODE totalAmount TxRefType.TRADE (td_id trade) s)
               (\<lambda>_ s. Inr ((), s))
      else bindE (reserveFunds (td_clientId trade) (in_code instrument) quantity TxRefType.TRADE (td_id trade) s)
               (\<lambda>_ s. Inr ((), s)))"

text \<open>\<open>createWithQuoteLock\<close> once the lock is consumed: the checks, and the transaction.\<close>

definition newTrade ::
  "id \<Rightarrow> createTradeDto \<Rightarrow> lockedQuote \<Rightarrow> instrument \<Rightarrow> TradeType \<Rightarrow> decimal \<Rightarrow> string option \<Rightarrow> db \<Rightarrow> trade" where
  "newTrade userId dto lock instrument tradeType quantity idempotencyKey s =
     \<lparr>td_id = freshId s, td_createdAt = db_now s, td_updatedAt = db_now s, td_clientId = userId,
      td_instrumentId = in_id instrument, td_side = ct_side dto, td_status = TradeStatus.PENDING,
      td_type = tradeType, td_settlementMethod = ct_settlementMethod dto, td_quantity = quantity,
      td_pricePerUnit = ql_executablePrice lock, td_totalAmount = quantity * ql_executablePrice lock,
      td_idempotencyKey = idempotencyKey, td_quoteId = Some (ql_quoteId lock),
      td_executedPrice = Some (ql_executablePrice lock),
      td_priceSourceAsOf = Some (ql_asOf lock), td_lockedBaseBuy = ql_baseBuy lock, td_lockedBaseSell = ql_baseSell lock,
      td_lockedDisplayBuy = ql_displayBuy lock, td_lockedDisplaySell = ql_displaySell lock,
      td_settlementPrice = None, td_settlementAmount = None,
      td_realizedPnl = None, td_clientNote = ct_clientNote dto, td_adminNote = None, td_approvedAt = None,
      td_approvedById = None, td_rejectedAt = None, td_rejectReason = None, td_reversedAt = None,
      td_cancelledAt = None\<rparr>"

definition createTradeTx ::
  "periodKeys \<Rightarrow> actor \<Rightarrow> createTradeDto \<Rightarrow> lockedQuote \<Rightarrow> instrument \<Rightarrow> TradeType \<Rightarrow> decimal \<Rightarrow> string option \<Rightarrow>
   db \<Rightarrow> trade tx" where
  "createTradeTx pk actor dto lock instrument tradeType quantity idempotencyKey s =
     (let userId = act_id actor; totalAmount = quantity * ql_executablePrice lock
      in case (if truthy idempotencyKey
              then findFirst (\<lambda>t. td_clientId t = userId \<and> td_idempotencyKey t = idempotencyKey) (trades s)
            else None) of
        Some existing \<Rightarrow> Inr (existing, s)
      | None \<Rightarrow>
        (case findFirst (\<lambda>t. td_clientId t = userId \<and> td_quoteId t = Some (ql_quoteId lock)) (trades s) of
           Some existingByQuote \<Rightarrow> Inr (existingByQuote, s)
         | None \<Rightarrow>
           bindE (createTradeRow (newTrade userId dto lock instrument tradeType quantity idempotencyKey s) s) (\<lambda>trade s.
           bindE (reserveLimitsForTrade pk
                    (if ct_side dto = TradeSide.BUY then PolicyAction.TRADE_BUY else PolicyAction.TRADE_SELL)
                    instrument (Some (ql_metric lock)) (Some (ql_productId lock)) quantity totalAmount trade s) (\<lambda>_ s.
           bindE (reserveFundsForTrade trade instrument quantity totalAmount s) (\<lambda>_ s.
           bindE (createAttachmentsForActor actor (ct_fileIds dto) AttachmentEntityType.TRADE (td_id trade) s) (\<lambda>_ s.
           bindE (markConsumed (ql_quoteId lock) (td_id trade) s) (\<lambda>_ s. Inr (trade, s))))))))"

definition createFromLock ::
  "periodKeys \<Rightarrow> actor \<Rightarrow> createTradeDto \<Rightarrow> lockedQuote \<Rightarrow> decimal \<Rightarrow> string option \<Rightarrow> db \<Rightarrow> trade tx" where
  "createFromLock pk actor dto lock quantity idempotencyKey s =
     (if ct_side dto \<noteq> ql_side lock then Inl (ConflictException ''QUOTE_LOCK_SIDE_MISMATCH'')
      else case instrumentById (ql_baseInstrumentId lock) s of
        None \<Rightarrow> Inl (NotFoundException ''Instrument not found for locked quote'')
      | Some instrument \<Rightarrow>
        (case findProduct (ql_productId lock) s of
           None \<Rightarrow> Inl (NotFoundException ''MARKET_PRODUCT_NOT_FOUND'')
         | Some product \<Rightarrow>
             (if ql_executablePrice lock \<le> 0 then Inl (BadRequestException ''INVALID_PRICE'')
              else case validateTypeAndSettlementMethod (mp_tradeType product) (ct_settlementMethod dto) of
                Some e \<Rightarrow> Inl e
              | None \<Rightarrow> createTradeTx pk actor dto lock instrument (mp_tradeType product) quantity idempotencyKey s)))"

definition createWithQuoteLock ::
  "periodKeys \<Rightarrow> actor \<Rightarrow> createTradeDto \<Rightarrow> id \<Rightarrow> decimal \<Rightarrow> string option \<Rightarrow> db \<Rightarrow> trade tx" where
  "createWithQuoteLock pk actor dto quoteId quantity idempotencyKey s =
     (case consumeForUser quoteId (act_id actor) of
        Inl e \<Rightarrow> Inl e
      | Inr lock \<Rightarrow> createFromLock pk actor dto lock quantity idempotencyKey s)"

definition compareProductsDesc :: "marketProduct \<Rightarrow> marketProduct \<Rightarrow> int" where
  "compareProductsDesc a b = mp_createdAt b - mp_createdAt a"

definition createWithLatestQuote ::
  "settingsStore \<Rightarrow> quoteEnv \<Rightarrow> periodKeys \<Rightarrow> actor \<Rightarrow> createTradeDto \<Rightarrow> decimal \<Rightarrow> string option \<Rightarrow> db \<Rightarrow> trade tx" where
  "createWithLatestQuote st env pk actor dto quantity idempotencyKey s =
     (if \<not> truthy (ct_instrumentCode dto) then Inl (BadRequestException ''QUOTE_REQUIRED'')
      else case findInstrument (the (ct_instrumentCode dto)) s of
        None \<Rightarrow> Inl (NotFoundException ''Instrument not found'')
      | Some instrument \<Rightarrow>
        (case sortBy compareProductsDesc
                (findMany (\<lambda>p. mp_baseInstrumentId p = in_id instrument) (marketProducts s)) of
           [] \<Rightarrow> Inl (ConflictException ''NO_MARKET_PRODUCT'')
         | product # _ \<Rightarrow>
             bindE (lockQuote st env (act_id actor) (mp_id product) (ct_side dto) True s) (\<lambda>lock s.
             case validateTypeAndSettlementMethod (mp_tradeType product) (ct_settlementMethod dto) of
               Some e \<Rightarrow> Inl e
             | None \<Rightarrow> createWithQuoteLock pk actor dto (ql_quoteId lock) quantity idempotencyKey s)))"

definition createTradeForUser ::
  "settingsStore \<Rightarrow> quoteEnv \<Rightarrow> periodKeys \<Rightarrow> actor \<Rightarrow> createTradeDto \<Rightarrow> string option \<Rightarrow> db \<Rightarrow> trade tx" where
  "createTradeForUser st env pk actor dto idempotencyKey s =
     (let quantity = ct_quantity dto
      in if quantity \<le> 0 then Inl (BadRequestException ''Quantity must be positive'')
         else if truthy (ct_quoteId dto)
           then createWithQuoteLock pk actor dto (the (ct_quoteId dto)) quantity idempotencyKey s
         else createWithLatestQuote st env pk actor dto quantity idempotencyKey s)"

definition compareTradesDesc :: "trade \<Rightarrow> trade \<Rightarrow> int" where
  "compareTradesDesc a b = td_createdAt b - td_createdAt a"

definition findMyTrades :: "id \<Rightarrow> db \<Rightarrow> trade list" where
  "findMyTrades userId s = sortBy compareTradesDesc (findMany (\<lambda>t. td_clientId t = userId) (trades s))"

section \<open>Approval\<close>

text \<open>The postings of an approval, in order: the account, the amount and the type of each.\<close>

definition postLegs :: "trade \<Rightarrow> id option \<Rightarrow> (id \<times> decimal \<times> AccountTxType) list \<Rightarrow> db \<Rightarrow> unit tx" where
  "postLegs trade adminId legs s =
     forE legs (\<lambda>(acc, delta, type) s.
       bindE (applyTransaction acc delta type TxRefType.TRADE (Some (td_id trade)) adminId None s)
         (\<lambda>_ s. Inr ((), s))) s"

text \<open>\<open>consumedReservation?.account ?? getOrCreateAccount(...)\<close>.\<close>

definition consumedAccount :: "trade \<Rightarrow> string \<Rightarrow> db \<Rightarrow> account tx" where
  "consumedAccount trade code s =
     bindE (consumeFunds (td_clientId trade) code TxRefType.TRADE (td_id trade) s) (\<lambda>consumedReservation s.
       case consumedReservation of
         Some (account, _) \<Rightarrow> Inr (account, s)
       | None \<Rightarrow> getOrCreateAccount (td_clientId trade) code s)"

definition settleBuy :: "trade \<Rightarrow> string \<Rightarrow> id \<Rightarrow> db \<Rightarrow> unit tx" where
  "settleBuy trade assetCode adminId s =
     (let quantity = td_quantity trade; amount = td_totalAmount trade
      in bindE (consumedAccount trade IRR_INSTRUMENT_CODE s) (\<lambda>userIrr s.
         bindE (getOrCreateAccount HOUSE_USER_ID IRR_INSTRUMENT_CODE s) (\<lambda>houseIrr s.
         bindE (getOrCreateAccount (td_clientId trade) assetCode s) (\<lambda>userAsset s.
         bindE (getOrCreateAccount HOUSE_USER_ID assetCode s) (\<lambda>houseAsset s.
         if getUsableCapacity userIrr < amount
           then Inl (InsufficientCreditException ''Insufficient IRR balance for trade approval'')
         else postLegs trade (Some adminId)
                [(ac_id userIrr, - amount, AccountTxType.TRADE_DEBIT),
                 (ac_id houseIrr, amount, AccountTxType.TRADE_CREDIT),
                 (ac_id userAsset, quantity, AccountTxType.TRADE_CREDIT),
                 (ac_id houseAsset, - quantity, AccountTxType.TRADE_DEBIT)] s)))))"

definition settleSell :: "trade \<Rightarrow> string \<Rightarrow> id \<Rightarrow> db \<Rightarrow> unit tx" where
  "settleSell trade assetCode adminId s =
     (let quantity = td_quantity trade; amount = td_totalAmount trade
      in bindE (consumedAccount trade assetCode s) (\<lambda>userAsset s.
         bindE (getOrCreateAccount HOUSE_USER_ID assetCode s) (\<lambda>houseAsset s.
         bindE (getOrCreateAccount (td_clientId trade) IRR_INSTRUMENT_CODE s) (\<lambda>userIrr s.
         bindE (getOrCreateAccount HOUSE_USER_ID IRR_INSTRUMENT_CODE s) (\<lambda>houseIrr s.
         if getUsableCapacity userAsset < quantity
           then Inl (InsufficientCreditException ''Not enough asset to approve sell trade'')
         else postLegs trade (Some adminId)
                [(ac_id userAsset, - quantity, AccountTxType.TRADE_DEBIT),
                 (ac_id houseAsset, quantity, AccountTxType.TRADE_CREDIT),
                 (ac_id userIrr, amount, AccountTxType.TRADE_CREDIT),
                 (ac_id houseIrr, - amount, AccountTxType.TRADE_DEBIT)] s)))))"

text \<open>The instrument of a trade is a foreign key, so the row exists.\<close>

definition tradeCode :: "trade \<Rightarrow> db \<Rightarrow> string" where
  "tradeCode trade s = (case instrumentById (td_instrumentId trade) s of None \<Rightarrow> [] | Some i \<Rightarrow> in_code i)"

definition approveTradeTx :: "string option \<Rightarrow> id \<Rightarrow> id \<Rightarrow> db \<Rightarrow> trade tx" where
  "approveTradeTx adminNote adminId i s =
     (case findTrade i s of
        None \<Rightarrow> Inl (NotFoundException ''Trade not found'')
      | Some trade \<Rightarrow>
          (if td_status trade \<noteq> TradeStatus.PENDING then Inr (trade, s)
           else if td_settlementMethod trade \<noteq> SettlementMethod.WALLET
             then Inl (BadRequestException ''NOT_IMPLEMENTED'')
           else bindE (if td_side trade = TradeSide.BUY then settleBuy trade (tradeCode trade s) adminId s
                       else settleSell trade (tradeCode trade s) adminId s) (\<lambda>_ s.
                bindE (consumeLimit TxRefType.TRADE (td_id trade) s) (\<lambda>_ s.
                updateTrade (trade\<lparr>td_status := TradeStatus.APPROVED, td_approvedAt := Some (db_now s),
                   td_approvedById := Some adminId, td_adminNote := orElse adminNote (td_adminNote trade)\<rparr>) s))))"

definition tradeVoucher :: "tahesabConfig \<Rightarrow> trade \<Rightarrow> string \<Rightarrow> string \<Rightarrow> db \<Rightarrow> outboxPayload" where
  "tradeVoucher cfg trade moshtariCode label s =
     (let instrument = instrumentById (td_instrumentId trade) s;
          code = (case instrument of None \<Rightarrow> [] | Some i \<Rightarrow> in_code i)
      in GoldBuySell \<lparr>gb_sabteKolOrMovaghat = Kol, gb_moshtariCode = moshtariCode, gb_factorNumber = td_id trade,
           gb_date = tc_shamsi cfg (withDefault (td_approvedAt trade) (td_updatedAt trade)),
           gb_mablagh = td_totalAmount trade, gb_ayar = 750, gb_vazn = td_quantity trade, gb_angNumber = code,
           gb_nameAz = (case instrument of None \<Rightarrow> code | Some i \<Rightarrow> in_name i),
           gb_buyOrSale = (if td_side trade = TradeSide.BUY then Buy else Sell),
           gb_sharh = getDescriptionPrefix cfg @ label @ td_id trade\<rparr>)"

definition enqueueTahesabForWalletTrade :: "tahesabConfig \<Rightarrow> trade \<Rightarrow> db \<Rightarrow> unit tx" where
  "enqueueTahesabForWalletTrade cfg trade s =
     (if td_status trade \<noteq> TradeStatus.APPROVED then Inr ((), s)
      else if td_type trade \<noteq> TradeType.SPOT then Inr ((), s)
      else if td_settlementMethod trade \<noteq> SettlementMethod.WALLET then Inr ((), s)
      else if \<not> isEnabled cfg then Inr ((), s)
      else let moshtariCode = getCustomerCode (findUser (td_clientId trade) s)
      in if \<not> truthy moshtariCode then Inr ((), s)
      else enqueueOnce ''DoNewSanadBuySaleGOLD'' (tradeVoucher cfg trade (the moshtariCode) '' Trade '' s)
             (td_id trade) s)"

definition enqueueTahesabForForwardPhysicalSettlement :: "tahesabConfig \<Rightarrow> trade \<Rightarrow> db \<Rightarrow> unit tx" where
  "enqueueTahesabForForwardPhysicalSettlement cfg trade s =
     (if td_status trade \<noteq> TradeStatus.APPROVED then Inr ((), s)
      else if td_type trade \<noteq> TradeType.TOMORROW \<and> td_type trade \<noteq> TradeType.DAY_AFTER then Inr ((), s)
      else if td_settlementMethod trade \<noteq> SettlementMethod.PHYSICAL \<and>
              td_settlementMethod trade \<noteq> SettlementMethod.MIXED then Inr ((), s)
      else if \<not> isEnabled cfg then Inr ((), s)
      else let moshtariCode = getCustomerCode (findUser (td_clientId trade) s)
      in if \<not> truthy moshtariCode then Inr ((), s)
      else enqueueOnce ''DoNewSanadBuySaleGOLD''
             (tradeVoucher cfg trade (the moshtariCode) '' Forward physical trade '' s)
             (''forward:physical:'' @ td_id trade) s)"

definition approveTrade :: "tahesabConfig \<Rightarrow> id \<Rightarrow> string option \<Rightarrow> id \<Rightarrow> db \<Rightarrow> trade tx" where
  "approveTrade cfg i adminNote adminId s =
     bindE (approveTradeTx adminNote adminId i s) (\<lambda>updated s.
     bindE (enqueueTahesabForWalletTrade cfg updated s) (\<lambda>_ s. Inr (updated, s)))"

section \<open>Rejection, cancellation and reversal\<close>

text \<open>What \<open>cancelTrade\<close> and \<open>reject\<close> share: release the limits and the funds.\<close>

definition releaseTrade :: "trade \<Rightarrow> db \<Rightarrow> unit tx" where
  "releaseTrade trade s =
     bindE (releaseLimit TxRefType.TRADE (td_id trade) s) (\<lambda>_ s.
     if td_settlementMethod trade = SettlementMethod.WALLET
       then bindE (releaseFunds (td_clientId trade)
                     (if td_side trade = TradeSide.BUY then IRR_INSTRUMENT_CODE else tradeCode trade s)
                     TxRefType.TRADE (td_id trade) s) (\<lambda>_ s. Inr ((), s))
     else Inr ((), s))"

definition cancelTradeTx :: "string option \<Rightarrow> id \<Rightarrow> db \<Rightarrow> trade tx" where
  "cancelTradeTx reason i s =
     (case findTrade i s of
        None \<Rightarrow> Inl (NotFoundException ''Trade not found'')
      | Some trade \<Rightarrow>
          (if td_status trade = TradeStatus.CANCELLED_BY_ADMIN \<or> td_status trade = TradeStatus.CANCELLED_BY_USER
             then Inr (trade, s)
           else if td_status trade \<noteq> TradeStatus.PENDING
             then Inl (ConflictException ''Only PENDING trades can be cancelled'')
           else bindE (releaseTrade trade s) (\<lambda>_ s.
                updateTrade (trade\<lparr>td_status := TradeStatus.CANCELLED_BY_ADMIN,
                   td_adminNote := orElse reason (td_adminNote trade), td_cancelledAt := Some (db_now s)\<rparr>) s)))"

definition rejectTrade :: "string option \<Rightarrow> id \<Rightarrow> db \<Rightarrow> trade tx" where
  "rejectTrade rejectReason i s =
     (case findTrade i s of
        None \<Rightarrow> Inl (NotFoundException ''Trade not found'')
      | Some trade \<Rightarrow>
          (if td_status trade = TradeStatus.REJECTED then Inr (trade, s)
           else if td_status trade \<noteq> TradeStatus.PENDING
             then Inl (BadRequestException ''Only PENDING trades can be rejected'')
           else bindE (releaseTrade trade s) (\<lambda>_ s.
                updateTrade (trade\<lparr>td_status := TradeStatus.REJECTED, td_rejectedAt := Some (db_now s),
                   td_rejectReason := orElse rejectReason (td_rejectReason trade),
                   td_adminNote := orElse rejectReason (td_adminNote trade)\<rparr>) s)))"

definition compareTxCreated :: "accountTx \<Rightarrow> accountTx \<Rightarrow> int" where
  "compareTxCreated a b = tx_createdAt a - tx_createdAt b"

text \<open>The postings of a trade are reversed one by one, except those that already have a reversal.\<close>

definition reversePosting :: "trade \<Rightarrow> id option \<Rightarrow> accountTx \<Rightarrow> db \<Rightarrow> unit tx" where
  "reversePosting trade adminId x s =
     (if \<exists>y\<in>set (accountTxs s). tx_reversalOfId y = Some (tx_id x) then Inr ((), s)
      else bindE (applyTransaction (tx_accountId x) (- tx_delta x) AccountTxType.ADJUSTMENT TxRefType.TRADE
                    (Some (td_id trade)) adminId (Some (tx_id x)) s) (\<lambda>_ s. Inr ((), s)))"

definition reversePostings :: "trade \<Rightarrow> id option \<Rightarrow> db \<Rightarrow> unit tx" where
  "reversePostings trade adminId s =
     forE (sortBy compareTxCreated
             (findMany (\<lambda>x. tx_refType x = TxRefType.TRADE \<and> tx_refId x = Some (td_id trade)) (accountTxs s)))
       (reversePosting trade adminId) s"

definition reverseTradeTx :: "id option \<Rightarrow> string option \<Rightarrow> id \<Rightarrow> db \<Rightarrow> trade tx" where
  "reverseTradeTx adminId reason i s =
     (case findTrade i s of
        None \<Rightarrow> Inl (NotFoundException ''Trade not found'')
      | Some trade \<Rightarrow>
          (if td_reversedAt trade \<noteq> None then Inr (trade, s)
           else if td_status trade \<noteq> TradeStatus.APPROVED
             then Inl (ConflictException ''Only APPROVED trades can be reversed'')
           else bindE (if td_settlementMethod trade = SettlementMethod.WALLET
                         then reversePostings trade adminId s else Inr ((), s)) (\<lambda>_ s.
                updateTrade (trade\<lparr>td_status := TradeStatus.CANCELLED_BY_ADMIN, td_reversedAt := Some (db_now s),
                   td_adminNote := orElse reason (td_adminNote trade)\<rparr>) s)))"

definition enqueueTahesabDeletionForTrade :: "id \<Rightarrow> string \<Rightarrow> db \<Rightarrow> unit tx" where
  "enqueueTahesabDeletionForTrade tradeId correlationId s =
     enqueueDeletion ''DoNewSanadBuySaleGOLD'' tradeId correlationId s"

definition cancelTrade :: "id \<Rightarrow> string option \<Rightarrow> db \<Rightarrow> trade tx" where
  "cancelTrade tradeId reason s =
     bindE (cancelTradeTx reason tradeId s) (\<lambda>updated s.
     bindE (enqueueTahesabDeletionForTrade tradeId (''spot:cancel:'' @ tradeId) s) (\<lambda>_ s. Inr (updated, s)))"

definition reverseTrade :: "id \<Rightarrow> id option \<Rightarrow> string option \<Rightarrow> db \<Rightarrow> trade tx" where
  "reverseTrade tradeId adminId reason s =
     bindE (reverseTradeTx adminId reason tradeId s) (\<lambda>reversed s.
     bindE (enqueueTahesabDeletionForTrade tradeId (''trade:'' @ tradeId @ '':reverse'') s)
       (\<lambda>_ s. Inr (reversed, s)))"

section \<open>Forward trades\<close>

record settleForwardCashDto =
  sf_settlementPrice :: decimal
  sf_settlementAmount :: decimal
  sf_realizedPnl :: "decimal option"

definition settleCash :: "trade \<Rightarrow> decimal \<Rightarrow> id option \<Rightarrow> db \<Rightarrow> unit tx" where
  "settleCash trade amount adminId s =
     bindE (getOrCreateAccount (td_clientId trade) IRR_INSTRUMENT_CODE s) (\<lambda>userIrr s.
     bindE (getOrCreateAccount HOUSE_USER_ID IRR_INSTRUMENT_CODE s) (\<lambda>houseIrr s.
     if 0 < amount
       then (if getUsableCapacity userIrr < amount
               then Inl (InsufficientCreditException ''Not enough IRR balance for forward cash settlement'')
             else postLegs trade adminId [(ac_id userIrr, - amount, AccountTxType.TRADE_DEBIT),
                                          (ac_id houseIrr, amount, AccountTxType.TRADE_CREDIT)] s)
     else (if getUsableCapacity houseIrr < \<bar>amount\<bar>
             then Inl (InsufficientCreditException ''House IRR balance is not enough to credit client for forward cash settlement'')
           else postLegs trade adminId [(ac_id houseIrr, - \<bar>amount\<bar>, AccountTxType.TRADE_DEBIT),
                                        (ac_id userIrr, \<bar>amount\<bar>, AccountTxType.TRADE_CREDIT)] s)))"

definition settleForwardTx :: "settleForwardCashDto \<Rightarrow> id option \<Rightarrow> id \<Rightarrow> db \<Rightarrow> trade tx" where
  "settleForwardTx dto adminId i s =
     (case findTrade i s of
        None \<Rightarrow> Inl (NotFoundException ''Trade not found'')
      | Some trade \<Rightarrow>
          (if td_type trade \<noteq> TradeType.TOMORROW \<and> td_type trade \<noteq> TradeType.DAY_AFTER
             then Inl (BadRequestException ''Only forward trades can be settled in cash'')
           else if td_settlementMethod trade \<noteq> SettlementMethod.CASH \<and>
                   td_settlementMethod trade \<noteq> SettlementMethod.MIXED
             then Inl (BadRequestException ''Settlement method must be CASH or MIXED'')
           else if td_status trade = TradeStatus.SETTLED
             then Inl (BadRequestException ''Trade is already settled'')
           else if td_status trade = TradeStatus.CANCELLED_BY_ADMIN \<or> td_status trade = TradeStatus.CANCELLED_BY_USER
             then Inl (BadRequestException ''Cannot settle a cancelled trade'')
           else if td_status trade \<noteq> TradeStatus.APPROVED
             then Inl (BadRequestException ''Only APPROVED forward trades can be settled in cash'')
           else let amount = sf_settlementAmount dto
           in bindE (if amount \<noteq> 0 then settleCash trade amount adminId s else Inr ((), s)) (\<lambda>_ s.
              updateTrade (trade\<lparr>td_settlementPrice := Some (sf_settlementPrice dto),
                 td_settlementAmount := Some amount,
                 td_realizedPnl := orElse (sf_realizedPnl dto) (td_realizedPnl trade),
                 td_status := TradeStatus.SETTLED,
                 td_approvedById := orElse (td_approvedById trade) adminId\<rparr>) s)))"

definition enqueueTahesabForForwardCashSettlement :: "tahesabConfig \<Rightarrow> trade \<Rightarrow> db \<Rightarrow> unit tx" where
  "enqueueTahesabForForwardCashSettlement cfg trade s =
     (if td_type trade \<noteq> TradeType.TOMORROW \<and> td_type trade \<noteq> TradeType.DAY_AFTER then Inr ((), s)
      else if td_settlementMethod trade \<noteq> SettlementMethod.CASH \<and>
              td_settlementMethod trade \<noteq> SettlementMethod.MIXED then Inr ((), s)
      else if dec (td_settlementAmount trade) = 0 then Inr ((), s)
      else if \<not> isEnabled cfg then Inr ((), s)
      else let moshtariCode = getCustomerCode (findUser (td_clientId trade) s)
      in if \<not> truthy moshtariCode then Inr ((), s)
      else let factorCode = withDefault (getDefaultCashAccountCode cfg) []
      in if factorCode = [] then Inr ((), s)
      else enqueueOnce ''DoNewSanadVKHVaghNaghd''
        (SimpleVoucher \<lparr>sv_sabteKolOrMovaghat = Kol, sv_moshtariCode = the moshtariCode,
           sv_factorNumber = td_id trade,
           sv_date = tc_shamsi cfg (withDefault (td_approvedAt trade) (td_updatedAt trade)),
           sv_mablagh = \<bar>dec (td_settlementAmount trade)\<bar>,
           sv_sharh = getDescriptionPrefix cfg @ '' Forward cash settlement '' @ td_id trade,
           sv_factorCode = factorCode\<rparr>) (''forward:cash:'' @ td_id trade) s)"

definition settleForwardTradeInCash ::
  "tahesabConfig \<Rightarrow> id \<Rightarrow> settleForwardCashDto \<Rightarrow> id option \<Rightarrow> db \<Rightarrow> trade tx" where
  "settleForwardTradeInCash cfg tradeId dto adminId s =
     bindE (settleForwardTx dto adminId tradeId s) (\<lambda>updated s.
     bindE (enqueueTahesabForForwardCashSettlement cfg updated s) (\<lambda>_ s. Inr (updated, s)))"

section \<open>Lemmas\<close>

text \<open>
  The books of a trade sum to nothing over both instruments, because each leg has a counter-leg; a
  pending wallet trade holds the rials it pays, or the asset it sells.
\<close>

definition tradeHold :: "trade \<Rightarrow> db \<Rightarrow> hold" where
  "tradeHold t s =
     (if td_settlementMethod t \<noteq> SettlementMethod.WALLET then None
      else Some (if td_status t = TradeStatus.PENDING then AccountReservationStatus.RESERVED
                 else if td_status t = TradeStatus.APPROVED \<or> td_reversedAt t \<noteq> None then AccountReservationStatus.CONSUMED
                 else AccountReservationStatus.RELEASED,
                 if td_side t = TradeSide.BUY then td_totalAmount t else td_quantity t, td_clientId t,
                 if td_side t = TradeSide.BUY then IRR_INSTRUMENT_CODE else tradeCode t s))"

definition tradeDue :: "trade \<Rightarrow> decimal" where
  "tradeDue t = 0"

interpretation tradeLedger: request_ledger trades td_id TxRefType.TRADE tradeDue tradeHold
  by unfold_locales (simp_all add: sameRows_sel tradeHold_def tradeCode_def instrumentById_def)

interpretation txCreated: comparator compareTxCreated tx_createdAt
  by unfold_locales (simp add: compareTxCreated_def)

text \<open>Stretches that append entries, with what they reverse.\<close>

definition legSum :: "(id \<times> decimal \<times> 'a) list \<Rightarrow> id \<Rightarrow> decimal" where
  "legSum legs j = total (\<lambda>(a, d, _). if a = j then d else 0) legs"

lemma applyTransaction_reversal:
  "applyTransaction k d ty rt ri cb rv s = Inr ((x, b), t) \<Longrightarrow> tx_reversalOfId x = rv"
  by (auto simp: applyTransaction_def createAccountTx_def Let_def split: option.splits if_splits)

lemma postLegs_effect:
  assumes "ledger_ok s" and "postLegs tr cb legs s = Inr (u, t)"
  shows "plain TxRefType.TRADE (td_id tr) (total (\<lambda>(_, d, _). d) legs) (legSum legs) s t \<and>
    (\<exists>xs. accountTxs t = accountTxs s @ xs \<and> (\<forall>x\<in>set xs. tx_reversalOfId x = None))"
  using assms
proof (induction legs arbitrary: s)
  case Nil
  then show ?case using plain_refl by (simp add: postLegs_def legSum_def)
next
  case (Cons l legs)
  obtain a d ty where l: "l = (a, d, ty)" by (cases l)
  from Cons.prems(2) obtain q s1 where 1: "applyTransaction a d ty TxRefType.TRADE (Some (td_id tr)) cb None s = Inr (q, s1)"
    "postLegs tr cb legs s1 = Inr (u, t)" by (auto simp: postLegs_def l bindE_Inr_iff)
  note p = plain_post [OF Cons.prems(1) 1(1)]
  from Cons.IH [OF plainD(1) [OF p] 1(2)] obtain xs where
    ih: "plain TxRefType.TRADE (td_id tr) (total (\<lambda>(_, d, _). d) legs) (legSum legs) s1 t"
    "accountTxs t = accountTxs s1 @ xs" "\<forall>x\<in>set xs. tx_reversalOfId x = None" by blast
  have "accountTxs s1 = accountTxs s @ [fst q]" "tx_reversalOfId (fst q) = None"
    using applyTransaction_effect(6) [of _ _ _ _ _ _ _ s "fst q" "snd q" s1] applyTransaction_reversal [of _ _ _ _ _ _ _ s "fst q" "snd q" s1]
      1(1) by simp_all
  moreover have "plain TxRefType.TRADE (td_id tr) (total (\<lambda>(_, d, _). d) (l # legs)) (legSum (l # legs)) s t"
    using plain_trans [OF p ih(1)] by (simp add: l legSum_def [abs_def] eq_commute)
  ultimately show ?case using ih(2,3) by auto
qed

text \<open>The effect of the settlement of an approval: the hold is consumed and the four legs are posted.\<close>

lemma consumedAccount_effect:
  assumes ok: "ledger_ok s" and h: "heldAs TxRefType.TRADE (td_id tr) (Some (AccountReservationStatus.RESERVED, amt, td_clientId tr, c)) s"
    and run: "consumedAccount tr c s = Inr (a, t)"
  shows "effect TxRefType.TRADE (td_id tr) 0 (\<lambda>_. 0) (\<lambda>j. if j = ac_id a then - amt else 0) s t"
    "heldAs TxRefType.TRADE (td_id tr) (Some (AccountReservationStatus.CONSUMED, amt, td_clientId tr, c)) t"
    "walletId (td_clientId tr) c t = Some (ac_id a)" "accountTxs t = accountTxs s"
proof -
  obtain q s1 where 1: "consumeFunds (td_clientId tr) c TxRefType.TRADE (td_id tr) s = Inr (q, s1)"
    "(case q of Some (account, _) \<Rightarrow> Inr (account, s1) | None \<Rightarrow> getOrCreateAccount (td_clientId tr) c s1) = Inr (a, t)"
    using run unfolding consumedAccount_def by (rule bindE_elim)
  note e = effect_consume [OF ok h 1(1)]
  from e(3) 1(2) have a: "t = s1" "walletId (td_clientId tr) c s1 = Some (ac_id a)" by auto
  then show "effect TxRefType.TRADE (td_id tr) 0 (\<lambda>_. 0) (\<lambda>j. if j = ac_id a then - amt else 0) s t"
    "heldAs TxRefType.TRADE (td_id tr) (Some (AccountReservationStatus.CONSUMED, amt, td_clientId tr, c)) t"
    "walletId (td_clientId tr) c t = Some (ac_id a)" using e(1,2) by simp_all
  show "accountTxs t = accountTxs s" using closing_effect [OF ok disjI1 [OF 1(1)]] a(1) by auto
qed

text \<open>
  What an approval exchanges, seen from the client: the wallet that pays and what it pays, the wallet
  that receives and what it receives. \<open>paid\<close> and \<open>got\<close> are instrument codes.
\<close>

definition exchanged ::
  "trade \<Rightarrow> string \<Rightarrow> decimal \<Rightarrow> string \<Rightarrow> decimal \<Rightarrow> db \<Rightarrow> db \<Rightarrow> bool" where
  "exchanged tr paid p got g s t \<longleftrightarrow>
     (\<exists>up hp ug hg xs. walletId (td_clientId tr) paid t = Some up \<and> walletId HOUSE_USER_ID paid t = Some hp \<and>
        walletId (td_clientId tr) got t = Some ug \<and> walletId HOUSE_USER_ID got t = Some hg \<and>
        accountTxs t = accountTxs s @ xs \<and> (\<forall>x\<in>set xs. tx_reversalOfId x = None) \<and>
        effect TxRefType.TRADE (td_id tr) 0 (\<lambda>j. (if j = up then - p else 0) + (if j = hp then p else 0) +
            (if j = ug then g else 0) + (if j = hg then - g else 0))
          (\<lambda>j. if j = up then - p else 0) s t)"

lemma settle_exchanges:
  assumes ok: "ledger_ok s" and h: "heldAs TxRefType.TRADE (td_id tr) (Some (AccountReservationStatus.RESERVED, p, td_clientId tr, paid)) s"
    and 1: "consumedAccount tr paid s = Inr (up, s1)" and 2: "getOrCreateAccount HOUSE_USER_ID paid s1 = Inr (hp, s2)"
    and 3: "getOrCreateAccount (td_clientId tr) got s2 = Inr (ug, s3)" and 4: "getOrCreateAccount HOUSE_USER_ID got s3 = Inr (hg, s4)"
    and 5: "postLegs tr cb [(ac_id up, - p, t1), (ac_id hp, p, t2), (ac_id ug, g, t3), (ac_id hg, - g, t4)] s4 = Inr (u, t)"
  shows "exchanged tr paid p got g s t"
    "heldAs TxRefType.TRADE (td_id tr) (Some (AccountReservationStatus.CONSUMED, p, td_clientId tr, paid)) t"
proof -
  let ?rt = "TxRefType.TRADE" and ?i = "td_id tr"
  note c = consumedAccount_effect [OF ok h 1]
  note p2 = plain_getAcc [OF effectD(2) [OF c(1)] 2, where rt = ?rt and i = ?i]
  note p3 = plain_getAcc [OF plainD(1) [OF p2] 3, where rt = ?rt and i = ?i]
  note p4 = plain_getAcc [OF plainD(1) [OF p3] 4, where rt = ?rt and i = ?i]
  from postLegs_effect [OF plainD(1) [OF p4] 5] obtain xs where
    p5: "plain ?rt ?i 0 (legSum [(ac_id up, - p, t1), (ac_id hp, p, t2), (ac_id ug, g, t3), (ac_id hg, - g, t4)]) s4 t"
    and xs: "accountTxs t = accountTxs s4 @ xs" "\<forall>x\<in>set xs. tx_reversalOfId x = None" by auto
  note p45 = plain_trans [OF p4 p5, simplified] note p35 = plain_trans [OF p3 p45, simplified]
  note p = plain_trans [OF p2 p35, simplified]
  have w: "walletId (td_clientId tr) paid t = Some (ac_id up)" "walletId HOUSE_USER_ID paid t = Some (ac_id hp)"
    "walletId (td_clientId tr) got t = Some (ac_id ug)" "walletId HOUSE_USER_ID got t = Some (ac_id hg)"
    using plainD(4) [OF p c(3)] plainD(4) [OF p35 getOrCreateAccount_effect(3) [OF 2]]
      plainD(4) [OF p45 getOrCreateAccount_effect(3) [OF 3]] plainD(4) [OF p5 getOrCreateAccount_effect(3) [OF 4]] .
  have "accountTxs s4 = accountTxs s"
    using getOrCreateAccount_effect(4) [OF 2] getOrCreateAccount_effect(4) [OF 3] getOrCreateAccount_effect(4) [OF 4] c(4) by simp
  moreover have "effect ?rt ?i 0 (\<lambda>j. (if j = ac_id up then - p else 0) + (if j = ac_id hp then p else 0) +
            (if j = ac_id ug then g else 0) + (if j = ac_id hg then - g else 0))
          (\<lambda>j. if j = ac_id up then - p else 0) s t"
    by (rule effect_cong [OF effect_trans [OF c(1) plainD(2) [OF p]]]) (auto simp: legSum_def)
  ultimately show "exchanged tr paid p got g s t" unfolding exchanged_def using w xs by auto
  show "heldAs ?rt ?i (Some (AccountReservationStatus.CONSUMED, p, td_clientId tr, paid)) t"
    by (rule plainD(3) [OF p c(2)])
qed

lemma settleBuy_exchanges:
  assumes "ledger_ok s" and "heldAs TxRefType.TRADE (td_id tr)
      (Some (AccountReservationStatus.RESERVED, td_totalAmount tr, td_clientId tr, IRR_INSTRUMENT_CODE)) s"
    and "settleBuy tr code admin s = Inr (u, t)"
  shows "exchanged tr IRR_INSTRUMENT_CODE (td_totalAmount tr) code (td_quantity tr) s t"
    "heldAs TxRefType.TRADE (td_id tr)
      (Some (AccountReservationStatus.CONSUMED, td_totalAmount tr, td_clientId tr, IRR_INSTRUMENT_CODE)) t"
proof -
  from assms(3) obtain up s1 hp s2 ug s3 hg s4 where 1: "consumedAccount tr IRR_INSTRUMENT_CODE s = Inr (up, s1)"
    "getOrCreateAccount HOUSE_USER_ID IRR_INSTRUMENT_CODE s1 = Inr (hp, s2)"
    "getOrCreateAccount (td_clientId tr) code s2 = Inr (ug, s3)" "getOrCreateAccount HOUSE_USER_ID code s3 = Inr (hg, s4)"
    "postLegs tr (Some admin) [(ac_id up, - td_totalAmount tr, AccountTxType.TRADE_DEBIT),
       (ac_id hp, td_totalAmount tr, AccountTxType.TRADE_CREDIT), (ac_id ug, td_quantity tr, AccountTxType.TRADE_CREDIT),
       (ac_id hg, - td_quantity tr, AccountTxType.TRADE_DEBIT)] s4 = Inr (u, t)"
    unfolding settleBuy_def Let_def by (elim bindE_elim) (auto split: if_splits)
  show "exchanged tr IRR_INSTRUMENT_CODE (td_totalAmount tr) code (td_quantity tr) s t"
    "heldAs TxRefType.TRADE (td_id tr)
      (Some (AccountReservationStatus.CONSUMED, td_totalAmount tr, td_clientId tr, IRR_INSTRUMENT_CODE)) t"
    by (rule settle_exchanges [OF assms(1,2) 1])+
qed

lemma settleSell_exchanges:
  assumes "ledger_ok s" and "heldAs TxRefType.TRADE (td_id tr)
      (Some (AccountReservationStatus.RESERVED, td_quantity tr, td_clientId tr, code)) s"
    and "settleSell tr code admin s = Inr (u, t)"
  shows "exchanged tr code (td_quantity tr) IRR_INSTRUMENT_CODE (td_totalAmount tr) s t"
    "heldAs TxRefType.TRADE (td_id tr) (Some (AccountReservationStatus.CONSUMED, td_quantity tr, td_clientId tr, code)) t"
proof -
  from assms(3) obtain up s1 hp s2 ug s3 hg s4 where 1: "consumedAccount tr code s = Inr (up, s1)"
    "getOrCreateAccount HOUSE_USER_ID code s1 = Inr (hp, s2)"
    "getOrCreateAccount (td_clientId tr) IRR_INSTRUMENT_CODE s2 = Inr (ug, s3)"
    "getOrCreateAccount HOUSE_USER_ID IRR_INSTRUMENT_CODE s3 = Inr (hg, s4)"
    "postLegs tr (Some admin) [(ac_id up, - td_quantity tr, AccountTxType.TRADE_DEBIT),
       (ac_id hp, td_quantity tr, AccountTxType.TRADE_CREDIT), (ac_id ug, td_totalAmount tr, AccountTxType.TRADE_CREDIT),
       (ac_id hg, - td_totalAmount tr, AccountTxType.TRADE_DEBIT)] s4 = Inr (u, t)"
    unfolding settleSell_def Let_def by (elim bindE_elim) (auto split: if_splits)
  show "exchanged tr code (td_quantity tr) IRR_INSTRUMENT_CODE (td_totalAmount tr) s t"
    "heldAs TxRefType.TRADE (td_id tr) (Some (AccountReservationStatus.CONSUMED, td_quantity tr, td_clientId tr, code)) t"
    by (rule settle_exchanges [OF assms(1,2) 1])+
qed

section \<open>A run of the trades\<close>

text \<open>
  A reversal names an entry that is there, and the entries of a trade that has not been reversed have no
  reversal.
\<close>

definition reversals_ok :: "db \<Rightarrow> bool" where
  "reversals_ok s \<longleftrightarrow> (\<forall>y\<in>set (accountTxs s). \<forall>k. tx_reversalOfId y = Some k \<longrightarrow> k \<in> tx_id ` set (accountTxs s)) \<and>
     (\<forall>r\<in>set (trades s). td_reversedAt r = None \<longrightarrow>
        (\<forall>x\<in>set (accountTxs s). tx_refType x = TxRefType.TRADE \<and> tx_refId x = Some (td_id r) \<longrightarrow>
           (\<forall>y\<in>set (accountTxs s). tx_reversalOfId y \<noteq> Some (tx_id x))))"

definition trades_ok :: "db \<Rightarrow> bool" where
  "trades_ok s \<longleftrightarrow> requests_ok trades td_id TxRefType.TRADE tradeDue tradeHold s \<and> reversals_ok s \<and>
     (\<forall>r\<in>set (trades s). td_reversedAt r \<noteq> None \<longrightarrow> td_status r = TradeStatus.CANCELLED_BY_ADMIN)"

lemma trades_okD:
  assumes "trades_ok s"
  shows "requests_ok trades td_id TxRefType.TRADE tradeDue tradeHold s" "ledger_ok s" "reversals_ok s"
    "distinct (map tx_id (accountTxs s))"
    "\<And>r. r \<in> set (trades s) \<Longrightarrow> td_reversedAt r \<noteq> None \<Longrightarrow> td_status r = TradeStatus.CANCELLED_BY_ADMIN"
proof -
  show "\<And>r. r \<in> set (trades s) \<Longrightarrow> td_reversedAt r \<noteq> None \<Longrightarrow> td_status r = TradeStatus.CANCELLED_BY_ADMIN"
    using assms by (simp add: trades_ok_def)
  show ok: "requests_ok trades td_id TxRefType.TRADE tradeDue tradeHold s" "reversals_ok s"
    using assms by (simp_all add: trades_ok_def)
  show "ledger_ok s" using tradeLedger.ok_D(1) [OF ok(1)] .
  show "distinct (map tx_id (accountTxs s))" using tradeLedger.ok_D(3) [OF ok(1)] by (simp add: keys_ok_def)
qed

lemma reversals_okD:
  assumes "reversals_ok s"
  shows "\<And>y k. y \<in> set (accountTxs s) \<Longrightarrow> tx_reversalOfId y = Some k \<Longrightarrow> k \<in> tx_id ` set (accountTxs s)"
    "\<And>r x y. r \<in> set (trades s) \<Longrightarrow> td_reversedAt r = None \<Longrightarrow> x \<in> set (accountTxs s) \<Longrightarrow>
       tx_refType x = TxRefType.TRADE \<Longrightarrow> tx_refId x = Some (td_id r) \<Longrightarrow> y \<in> set (accountTxs s) \<Longrightarrow>
       tx_reversalOfId y \<noteq> Some (tx_id x)"
  using assms unfolding reversals_ok_def by blast+

text \<open>New entries either reverse nothing, or reverse entries of the trade \<open>i\<close>, which is then marked.\<close>

definition reversing :: "id \<Rightarrow> accountTx list \<Rightarrow> db \<Rightarrow> bool" where
  "reversing i xs s \<longleftrightarrow> (\<forall>x\<in>set xs. \<forall>k. tx_reversalOfId x = Some k \<longrightarrow>
     (\<exists>y\<in>set (accountTxs s). tx_id y = k \<and> tx_refId y = Some i))"

lemma reversing_none: "\<forall>x\<in>set xs. tx_reversalOfId x = None \<Longrightarrow> reversing i xs s"
  by (simp add: reversing_def)

lemma reversals_ok_append:
  assumes ok: "reversals_ok s" and dist: "distinct (map tx_id (accountTxs t))"
    and t: "accountTxs t = accountTxs s @ xs" "reversing i xs s"
    and rows: "\<And>r. r \<in> set (trades t) \<Longrightarrow> td_reversedAt r = None \<Longrightarrow>
      (td_id r = i \<longrightarrow> (\<forall>x\<in>set xs. tx_reversalOfId x = None)) \<and>
      ((\<exists>r'\<in>set (trades s). td_id r' = td_id r \<and> td_reversedAt r' = None) \<or>
       (\<forall>x\<in>set (accountTxs s). tx_refType x = TxRefType.TRADE \<longrightarrow> tx_refId x \<noteq> Some (td_id r)))"
  shows "reversals_ok t"
proof -
  have rev: "k \<in> tx_id ` set (accountTxs s)" if "y \<in> set (accountTxs t)" "tx_reversalOfId y = Some k" for y k
  proof (cases "y \<in> set xs")
    case True
    with t(2) that(2) show ?thesis unfolding reversing_def by blast
  next
    case False
    with t(1) that reversals_okD(1) [OF ok] show ?thesis by simp
  qed
  show ?thesis
    unfolding reversals_ok_def
  proof (intro conjI ballI allI impI)
    show "k \<in> tx_id ` set (accountTxs t)" if "y \<in> set (accountTxs t)" "tx_reversalOfId y = Some k" for y k
      using rev [OF that] t(1) by auto
    show "tx_reversalOfId y \<noteq> Some (tx_id x)"
      if r: "r \<in> set (trades t)" "td_reversedAt r = None" and x: "x \<in> set (accountTxs t)"
        "tx_refType x = TxRefType.TRADE \<and> tx_refId x = Some (td_id r)" and y: "y \<in> set (accountTxs t)" for r x y
    proof
      assume yx: "tx_reversalOfId y = Some (tx_id x)"
      then have "tx_id x \<in> tx_id ` set (accountTxs s)" by (rule rev [OF y])
      then have xs: "x \<in> set (accountTxs s)" using dist x(1) by (auto simp: t(1) image_iff)
      show False
      proof (cases "y \<in> set xs")
        case True
        with t(2) yx obtain z where "z \<in> set (accountTxs s)" "tx_id z = tx_id x" "tx_refId z = Some i"
          unfolding reversing_def by blast
        then have "tx_refId x = Some i" using dist xs by (auto simp: t(1) distinct_map inj_on_def)
        with rows [OF r] x(2) yx True show False by auto
      next
        case False
        then have "y \<in> set (accountTxs s)" using y t(1) by simp
        with rows [OF r] x(2) xs yx reversals_okD(2) [OF ok _ _ xs _ _ this] show False by metis
      qed
    qed
  qed
qed

lemma trades_ok_same:
  assumes ok: "trades_ok s" and t: "sameLedger s t" "trades t = trades s"
  shows "trades_ok t"
proof -
  have "accountTxs t = accountTxs s" using t(1) by (simp add: sameLedger_def)
  then show ?thesis
    using tradeLedger.ok_same [OF trades_okD(1) [OF ok] t] trades_okD(3,5) [OF ok] t(2)
    by (simp add: trades_ok_def reversals_ok_def)
qed

lemma trades_ok_side: "trades_ok s \<Longrightarrow> side s t \<Longrightarrow> trades_ok t"
  by (rule trades_ok_same [OF _ side_ledger]) (simp_all add: side_sel)

lemma findTrade_SomeD: "findTrade i s = Some t \<Longrightarrow> t \<in> set (trades s) \<and> td_id t = i"
  unfolding findTrade_def by (rule find_SomeD)

lemma trades_ok_request:
  assumes "trades_ok s" and "findTrade i s = Some r"
  shows "r \<in> set (trades s)" "td_id r = i" "heldAs TxRefType.TRADE i (tradeHold r s) s"
  using findTrade_SomeD [OF assms(2)] tradeLedger.ok_D(6) [OF trades_okD(1) [OF assms(1)], of r] by auto

lemma updateTrade_result:
  assumes "updateTrade r s = Inr (q, t)" and "findTrade (td_id r) s \<noteq> None"
  shows "q = r\<lparr>td_updatedAt := db_now s\<rparr>" "findTrade (td_id r) t = Some q" "sameLedger s t"
    "trades t = updateRows (\<lambda>x. td_id x = td_id r) (\<lambda>_. q) (trades s)"
  using assms by (auto simp: updateTrade_def Let_def findTrade_def sameLedger_def find_replace)

lemma trades_ok_settle:
  assumes ok: "trades_ok s" and r: "findTrade i s = Some r" and e: "effect TxRefType.TRADE i 0 p h s u"
    and r': "td_id r' = i" "heldAs TxRefType.TRADE i (tradeHold r' u) u" "td_reversedAt r' = None \<Longrightarrow> td_reversedAt r = None"
      "td_reversedAt r' \<noteq> None \<Longrightarrow> td_status r' = TradeStatus.CANCELLED_BY_ADMIN"
    and txs: "accountTxs u = accountTxs s @ xs" "reversing i xs s"
      "td_reversedAt r' = None \<Longrightarrow> \<forall>x\<in>set xs. tx_reversalOfId x = None"
    and upd: "updateTrade r' u = Inr (q, t)"
  shows "trades_ok t \<and> findTrade i t = Some q \<and> q = r'\<lparr>td_updatedAt := db_now s\<rparr> \<and> sameLedger u t"
proof -
  note m = trades_ok_request [OF ok r]
  note rows = sameRows_sel [OF effectD(3) [OF e]]
  have "findTrade (td_id r') u \<noteq> None" using r r'(1) by (simp add: findTrade_def rows(6))
  note c = updateTrade_result [OF upd this]
  have rt: "trades t = updateRows (\<lambda>x. td_id x = td_id r) (\<lambda>_. q) (trades s)" using c(4) r'(1) m(2) rows(6) by simp
  have same: "tradeHold q u = tradeHold r' u" unfolding c(1) by (simp add: tradeHold_def tradeCode_def)
  have req: "requests_ok trades td_id TxRefType.TRADE tradeDue tradeHold t"
    by (rule tradeLedger.ok_settle [OF trades_okD(1) [OF ok] _ m(1) _ _ _ c(3) rt])
      (unfold same m(2), use e r' c(1) in \<open>simp_all add: tradeDue_def\<close>)
  have tt: "accountTxs t = accountTxs s @ xs" using txs(1) c(3) by (simp add: sameLedger_def)
  have "distinct (map tx_id (accountTxs t))" using tradeLedger.ok_D(3) [OF req] by (simp add: keys_ok_def)
  then have "reversals_ok t"
  proof (rule reversals_ok_append [OF trades_okD(3) [OF ok] _ tt txs(2)])
    fix v assume v: "v \<in> set (trades t)" "td_reversedAt v = None"
    then have "\<exists>r'\<in>set (trades s). td_id r' = td_id v \<and> td_reversedAt r' = None"
      using m(1,2) r' c(1) by (auto simp: rt set_updateRows split: if_splits)
    moreover have "td_reversedAt r' = None" if "td_id v = i"
      using v that m(2) c(1) by (auto simp: rt set_updateRows split: if_splits)
    ultimately show "(td_id v = i \<longrightarrow> (\<forall>x\<in>set xs. tx_reversalOfId x = None)) \<and>
      ((\<exists>r'\<in>set (trades s). td_id r' = td_id v \<and> td_reversedAt r' = None) \<or>
       (\<forall>x\<in>set (accountTxs s). tx_refType x = TxRefType.TRADE \<longrightarrow> tx_refId x \<noteq> Some (td_id v)))"
      using txs(3) by blast
  qed
  moreover have "td_status v = TradeStatus.CANCELLED_BY_ADMIN" if "v \<in> set (trades t)" "td_reversedAt v \<noteq> None" for v
    using that trades_okD(5) [OF ok, of v] r'(4) c(1) by (auto simp: rt set_updateRows split: if_splits)
  ultimately show ?thesis using req c r'(1) rows(2) by (simp add: trades_ok_def)
qed

text \<open>Approval.\<close>

lemma approveTradeTx_cases:
  assumes "approveTradeTx nt admin i s = Inr (r, t)"
  obtains (same) "findTrade i s = Some r" "td_status r \<noteq> TradeStatus.PENDING" "t = s"
  | (settled) r0 s1 s2 where "findTrade i s = Some r0" "td_status r0 = TradeStatus.PENDING"
      "td_settlementMethod r0 = SettlementMethod.WALLET"
      "(if td_side r0 = TradeSide.BUY then settleBuy r0 (tradeCode r0 s) admin s
        else settleSell r0 (tradeCode r0 s) admin s) = Inr ((), s1)"
      "consumeLimit TxRefType.TRADE i s1 = Inr ((), s2)"
      "updateTrade (r0\<lparr>td_status := TradeStatus.APPROVED, td_approvedAt := Some (db_now s2),
         td_approvedById := Some admin, td_adminNote := orElse nt (td_adminNote r0)\<rparr>) s2 = Inr (r, t)"
proof (cases "findTrade i s")
  case (Some r0)
  have i: "td_id r0 = i" using findTrade_SomeD [OF Some] by simp
  show ?thesis
  proof (cases "td_status r0 = TradeStatus.PENDING")
    case True
    have w: "td_settlementMethod r0 = SettlementMethod.WALLET"
      using assms Some True by (auto simp: approveTradeTx_def split: if_splits)
    have "bindE (if td_side r0 = TradeSide.BUY then settleBuy r0 (tradeCode r0 s) admin s
                       else settleSell r0 (tradeCode r0 s) admin s) (\<lambda>_ s.
                bindE (consumeLimit TxRefType.TRADE i s) (\<lambda>_ s.
                updateTrade (r0\<lparr>td_status := TradeStatus.APPROVED, td_approvedAt := Some (db_now s),
                   td_approvedById := Some admin, td_adminNote := orElse nt (td_adminNote r0)\<rparr>) s)) = Inr (r, t)"
      using assms Some True w i by (simp add: approveTradeTx_def)
    then show ?thesis by (elim bindE_elim) (rule settled [OF Some True w]; simp)
  next
    case False
    show ?thesis by (rule same) (use assms Some False in \<open>simp_all add: approveTradeTx_def\<close>)
  qed
next
  case None
  have False using assms None by (simp add: approveTradeTx_def)
  then show ?thesis ..
qed

text \<open>The two instruments of a trade, from the client's side, with the amounts paid and received.\<close>

definition paidCode :: "trade \<Rightarrow> db \<Rightarrow> string" where
  "paidCode r s = (if td_side r = TradeSide.BUY then IRR_INSTRUMENT_CODE else tradeCode r s)"

definition gotCode :: "trade \<Rightarrow> db \<Rightarrow> string" where
  "gotCode r s = (if td_side r = TradeSide.BUY then tradeCode r s else IRR_INSTRUMENT_CODE)"

definition paidAmount :: "trade \<Rightarrow> decimal" where
  "paidAmount r = (if td_side r = TradeSide.BUY then td_totalAmount r else td_quantity r)"

definition gotAmount :: "trade \<Rightarrow> decimal" where
  "gotAmount r = (if td_side r = TradeSide.BUY then td_quantity r else td_totalAmount r)"

lemma tradeHold_wallet:
  "td_settlementMethod r = SettlementMethod.WALLET \<Longrightarrow> tradeHold r s =
     Some (if td_status r = TradeStatus.PENDING then AccountReservationStatus.RESERVED
           else if td_status r = TradeStatus.APPROVED \<or> td_reversedAt r \<noteq> None then AccountReservationStatus.CONSUMED
           else AccountReservationStatus.RELEASED, paidAmount r, td_clientId r, paidCode r s)"
  by (simp add: tradeHold_def paidAmount_def paidCode_def)

lemma trades_ok_approve:
  assumes ok: "trades_ok s" and run: "approveTradeTx nt admin i s = Inr (r, t)"
  shows "trades_ok t \<and> findTrade i t = Some r \<and> (t = s \<and> findTrade i s = Some r \<and> td_status r \<noteq> TradeStatus.PENDING \<or>
    (\<exists>r0 u. findTrade i s = Some r0 \<and> td_status r0 = TradeStatus.PENDING \<and> td_status r = TradeStatus.APPROVED \<and>
       td_settlementMethod r0 = SettlementMethod.WALLET \<and> td_settlementMethod r = SettlementMethod.WALLET \<and>
       td_reversedAt r = td_reversedAt r0 \<and>
       exchanged r0 (paidCode r0 s) (paidAmount r0) (gotCode r0 s) (gotAmount r0) s u \<and> sameLedger u t))"
  using run
proof (cases rule: approveTradeTx_cases)
  case same
  then show ?thesis using ok by simp
next
  case (settled r0 s1 s2)
  let ?rt = "TxRefType.TRADE"
  let ?r = "r0\<lparr>td_status := TradeStatus.APPROVED, td_approvedAt := Some (db_now s2),
         td_approvedById := Some admin, td_adminNote := orElse nt (td_adminNote r0)\<rparr>"
  note r0 = trades_ok_request [OF ok settled(1)]
  have h: "heldAs ?rt (td_id r0) (Some (AccountReservationStatus.RESERVED, paidAmount r0, td_clientId r0, paidCode r0 s)) s"
    unfolding r0(2) by (rule heldAs_fun [OF r0(3)]) (simp add: tradeHold_wallet [OF settled(3)] settled(2))
  have ex: "exchanged r0 (paidCode r0 s) (paidAmount r0) (gotCode r0 s) (gotAmount r0) s s1"
    "heldAs ?rt (td_id r0) (Some (AccountReservationStatus.CONSUMED, paidAmount r0, td_clientId r0, paidCode r0 s)) s1"
    using settleBuy_exchanges [OF trades_okD(2) [OF ok], of r0 "tradeCode r0 s" admin "()" s1]
      settleSell_exchanges [OF trades_okD(2) [OF ok], of r0 "tradeCode r0 s" admin "()" s1] h settled(4)
    by (auto simp: paidCode_def gotCode_def paidAmount_def gotAmount_def split: if_splits)
  from ex(1) obtain xs p hh where e: "effect ?rt i 0 p hh s s1" "accountTxs s1 = accountTxs s @ xs" "\<forall>x\<in>set xs. tx_reversalOfId x = None"
    unfolding exchanged_def r0(2) by blast
  have side: "side s1 s2" using holdsE_D [OF side_consumeLimit settled(5)] .
  note p2 = plain_side [OF effectD(2) [OF e(1)] side, where rt = ?rt and i = i]
  note all = effect_trans [OF e(1) plainD(2) [OF p2], simplified]
  have wal: "td_settlementMethod ?r = SettlementMethod.WALLET" using settled(3) by simp
  have code: "paidCode ?r s2 = paidCode r0 s"
    using sameRows_sel(3) [OF effectD(3) [OF all]] by (simp add: paidCode_def tradeCode_def instrumentById_def)
  have amount: "paidAmount ?r = paidAmount r0" by (simp add: paidAmount_def)
  have hold: "heldAs ?rt i (tradeHold ?r s2) s2"
    unfolding tradeHold_wallet [OF wal] code using plainD(3) [OF p2 ex(2)] r0(2) by (simp add: amount)
  have "trades_ok t \<and> findTrade i t = Some r \<and> r = ?r\<lparr>td_updatedAt := db_now s\<rparr> \<and> sameLedger s2 t"
    by (rule trades_ok_settle [OF ok settled(1) all _ hold _ _ _ _ _ settled(6)])
      (use r0(2) e(2,3) side_sel(8) [OF side] settled(2) trades_okD(5) [OF ok r0(1)] in \<open>auto simp: reversing_none\<close>)
  then show ?thesis using settled(1-3) ex(1) sameLedger_trans [OF side_ledger [OF side]] by auto
qed

text \<open>Rejection and cancellation.\<close>

lemma releaseTrade_effect:
  assumes ok: "trades_ok s" and r: "findTrade i s = Some r" "td_status r = TradeStatus.PENDING"
    and run: "releaseTrade r s = Inr (u, t)"
  shows "\<exists>h. effect TxRefType.TRADE i 0 (\<lambda>_. 0) h s t \<and> accountTxs t = accountTxs s \<and>
    (td_settlementMethod r = SettlementMethod.WALLET \<longrightarrow>
       heldAs TxRefType.TRADE i (Some (AccountReservationStatus.RELEASED, paidAmount r, td_clientId r, paidCode r s)) t \<and>
       (\<exists>w. walletId (td_clientId r) (paidCode r s) t = Some w \<and> h = (\<lambda>j. if j = w then - paidAmount r else 0))) \<and>
    (td_settlementMethod r \<noteq> SettlementMethod.WALLET \<longrightarrow> heldAs TxRefType.TRADE i None t \<and> h = (\<lambda>_. 0))"
proof -
  let ?rt = "TxRefType.TRADE"
  note r0 = trades_ok_request [OF ok r(1)]
  obtain x s1 where 1: "releaseLimit ?rt i s = Inr (x, s1)"
    "(if td_settlementMethod r = SettlementMethod.WALLET
       then bindE (releaseFunds (td_clientId r) (if td_side r = TradeSide.BUY then IRR_INSTRUMENT_CODE else tradeCode r s1) ?rt i s1)
              (\<lambda>_ s. Inr ((), s)) else Inr ((), s1)) = Inr (u, t)"
    using run unfolding releaseTrade_def r0(2) by (rule bindE_elim)
  have side: "side s s1" using holdsE_D [OF side_releaseLimit] 1(1) by auto
  have p1: "plain ?rt i 0 (\<lambda>_. 0) s s1" by (rule plain_side [OF trades_okD(2) [OF ok] side])
  have code: "(if td_side r = TradeSide.BUY then IRR_INSTRUMENT_CODE else tradeCode r s1) = paidCode r s"
    using side_sel(5) [OF side] by (simp add: paidCode_def tradeCode_def instrumentById_def)
  show ?thesis
  proof (cases "td_settlementMethod r = SettlementMethod.WALLET")
    case True
    then obtain q where rel: "releaseFunds (td_clientId r) (paidCode r s) ?rt i s1 = Inr (q, t)"
      using 1(2) code by (auto simp: bindE_Inr_iff)
    have h: "heldAs ?rt i (Some (AccountReservationStatus.RESERVED, paidAmount r, td_clientId r, paidCode r s)) s1"
      by (rule plainD(3) [OF p1 heldAs_fun [OF r0(3)]]) (simp add: tradeHold_wallet [OF True] r(2))
    note c = effect_release [OF plainD(1) [OF p1] h rel]
    from c(3) obtain w where w: "walletId (td_clientId r) (paidCode r s) t = Some w" by auto
    have "accountTxs t = accountTxs s"
      using closing_effect [OF plainD(1) [OF p1] disjI2 [OF rel]] side_sel(8) [OF side] by auto
    moreover have "effect ?rt i 0 (\<lambda>_. 0) (\<lambda>j. if j = w then - paidAmount r else 0) s t"
      by (rule effect_cong [OF effect_trans [OF plainD(2) [OF p1] c(1)]]) (simp_all add: w)
    ultimately show ?thesis using c(2) w True by blast
  next
    case False
    then have "heldAs ?rt i None s" using r0(3) by (simp add: tradeHold_def)
    moreover have "t = s1" using 1(2) False by simp
    ultimately show ?thesis using p1 plainD(2,3) [OF p1] side_sel(8) [OF side] False by blast
  qed
qed

lemma trades_ok_close:
  assumes ok: "trades_ok s" and r: "findTrade i s = Some r" "td_status r = TradeStatus.PENDING"
    and rel: "releaseTrade r s = Inr (u, s1)" and upd: "updateTrade r' s1 = Inr (q, t)"
    and r': "td_id r' = td_id r" "td_status r' \<in> {TradeStatus.REJECTED, TradeStatus.CANCELLED_BY_ADMIN}"
      "td_settlementMethod r' = td_settlementMethod r" "td_side r' = td_side r" "td_totalAmount r' = td_totalAmount r"
      "td_quantity r' = td_quantity r" "td_clientId r' = td_clientId r" "td_instrumentId r' = td_instrumentId r"
      "td_reversedAt r' = None" "td_reversedAt r = None"
  shows "trades_ok t \<and> findTrade i t = Some q \<and> td_status q = td_status r' \<and> (\<forall>j. posted j t = posted j s)"
proof -
  let ?rt = "TxRefType.TRADE"
  note r0 = trades_ok_request [OF ok r(1)]
  from releaseTrade_effect [OF ok r rel] obtain h where e: "effect ?rt i 0 (\<lambda>_. 0) h s s1" "accountTxs s1 = accountTxs s"
    and held: "td_settlementMethod r = SettlementMethod.WALLET \<Longrightarrow>
       heldAs ?rt i (Some (AccountReservationStatus.RELEASED, paidAmount r, td_clientId r, paidCode r s)) s1"
      "td_settlementMethod r \<noteq> SettlementMethod.WALLET \<Longrightarrow> heldAs ?rt i None s1" by blast
  have same: "paidAmount r' = paidAmount r" "paidCode r' s1 = paidCode r s"
    using r' sameRows_sel(3) [OF effectD(3) [OF e(1)]] by (simp_all add: paidAmount_def paidCode_def tradeCode_def instrumentById_def)
  have hold: "heldAs ?rt i (tradeHold r' s1) s1"
  proof (cases "td_settlementMethod r = SettlementMethod.WALLET")
    case True
    then have "td_settlementMethod r' = SettlementMethod.WALLET" using r'(3) by simp
    then show ?thesis using held(1) [OF True] r'(2,7,9) by (auto simp: tradeHold_wallet same)
  next
    case False
    then show ?thesis using held(2) r'(3) by (simp add: tradeHold_def)
  qed
  have "trades_ok t \<and> findTrade i t = Some q \<and> q = r'\<lparr>td_updatedAt := db_now s\<rparr> \<and> sameLedger s1 t"
    by (rule trades_ok_settle [OF ok r(1) e(1) _ hold _ _ _ _ _ upd, where xs = "[]"])
      (use r'(1,9,10) r0(2) e(2) in \<open>simp_all add: reversing_none\<close>)
  then show ?thesis using sameLedger_sums(1) [of s1 t] effectD(8) [OF e(1)] by simp
qed

lemma cancelTradeTx_outcomes:
  assumes "cancelTradeTx reason i s = Inr (q, t)"
  obtains (same) "findTrade i s = Some q" "t = s"
  | (closed) r u s1 where "findTrade i s = Some r" "td_status r = TradeStatus.PENDING" "releaseTrade r s = Inr (u, s1)"
      "updateTrade (r\<lparr>td_status := TradeStatus.CANCELLED_BY_ADMIN, td_adminNote := orElse reason (td_adminNote r),
         td_cancelledAt := Some (db_now s1)\<rparr>) s1 = Inr (q, t)"
  using assms by (auto simp: cancelTradeTx_def bindE_Inr_iff split: option.splits if_splits)

lemma rejectTrade_outcomes:
  assumes "rejectTrade reason i s = Inr (q, t)"
  obtains (same) "findTrade i s = Some q" "t = s"
  | (closed) r u s1 where "findTrade i s = Some r" "td_status r = TradeStatus.PENDING" "releaseTrade r s = Inr (u, s1)"
      "updateTrade (r\<lparr>td_status := TradeStatus.REJECTED, td_rejectedAt := Some (db_now s1),
         td_rejectReason := orElse reason (td_rejectReason r), td_adminNote := orElse reason (td_adminNote r)\<rparr>) s1 = Inr (q, t)"
  using assms by (auto simp: rejectTrade_def bindE_Inr_iff split: option.splits if_splits)

text \<open>Creation from a consumed lock.\<close>

lemma side_reserveMetric: "holdsE (\<lambda>_. side s) (reserveMetric pk a p i tr m amt k s)"
  unfolding reserveMetric_def by (intro side_bind side_reserveLimit) simp

lemma side_reserveLimitsForTrade: "holdsE (\<lambda>_. side s) (reserveLimitsForTrade pk a i m p q amt tr s)"
  unfolding reserveLimitsForTrade_def Let_def
  by (intro side_bind side_reserveMetric) (simp add: side_reserveMetric split: option.split)

lemma createFromLock_outcomes:
  assumes "createFromLock pk actor dto lock q key s = Inr (r, t)"
  obtains (found) "r \<in> set (trades s)" "t = s" "td_clientId r = act_id actor"
      "truthy key \<and> td_idempotencyKey r = key \<or> td_quoteId r = Some (ql_quoteId lock)"
  | (placed) instrument ty s2 s3 s4 where "instrumentById (ql_baseInstrumentId lock) s = Some instrument"
      "r = newTrade (act_id actor) dto lock instrument ty q key s" "0 < ql_executablePrice lock"
      "ct_settlementMethod dto = SettlementMethod.WALLET" "ct_side dto = ql_side lock"
      "side ((bumpId s)\<lparr>trades := trades s @ [r]\<rparr>) s2"
      "\<exists>x. reserveFunds (act_id actor) (if ct_side dto = TradeSide.BUY then IRR_INSTRUMENT_CODE else in_code instrument)
         (if ct_side dto = TradeSide.BUY then q * ql_executablePrice lock else q) TxRefType.TRADE (td_id r) s2 = Inr (x, s3)"
      "side s3 s4" "sameLedger s4 t" "trades t = trades s4"
proof -
  obtain instrument product where 1: "instrumentById (ql_baseInstrumentId lock) s = Some instrument"
    "findProduct (ql_productId lock) s = Some product" "0 < ql_executablePrice lock" "ct_side dto = ql_side lock"
    "ct_settlementMethod dto = SettlementMethod.WALLET"
    "createTradeTx pk actor dto lock instrument (mp_tradeType product) q key s = Inr (r, t)"
    using assms by (auto simp: createFromLock_def validateTypeAndSettlementMethod_def split: option.splits if_splits)
  show ?thesis
  proof (cases "if truthy key then findFirst (\<lambda>t. td_clientId t = act_id actor \<and> td_idempotencyKey t = key) (trades s) else None")
    case (Some e)
    then have e: "e \<in> set (trades s)" "td_clientId e = act_id actor" "truthy key" "td_idempotencyKey e = key"
      by (auto split: if_splits dest: find_SomeD)
    have "r = e \<and> t = s" using 1(6) Some by (simp add: createTradeTx_def Let_def)
    then show ?thesis using e by (intro found) simp_all
  next
    case None
    show ?thesis
    proof (cases "findFirst (\<lambda>t. td_clientId t = act_id actor \<and> td_quoteId t = Some (ql_quoteId lock)) (trades s)")
      case (Some e)
      have "r = e \<and> t = s" using 1(6) None Some by (simp add: createTradeTx_def Let_def)
      then show ?thesis using find_SomeD [OF Some] by (intro found) simp_all
    next
      case none: None
      let ?row = "newTrade (act_id actor) dto lock instrument (mp_tradeType product) q key s"
      let ?amt = "q * ql_executablePrice lock"
      have "bindE (createTradeRow ?row s) (\<lambda>trade s.
           bindE (reserveLimitsForTrade pk
                    (if ct_side dto = TradeSide.BUY then PolicyAction.TRADE_BUY else PolicyAction.TRADE_SELL)
                    instrument (Some (ql_metric lock)) (Some (ql_productId lock)) q ?amt trade s) (\<lambda>_ s.
           bindE (reserveFundsForTrade trade instrument q ?amt s) (\<lambda>_ s.
           bindE (createAttachmentsForActor actor (ct_fileIds dto) AttachmentEntityType.TRADE (td_id trade) s) (\<lambda>_ s.
           bindE (markConsumed (ql_quoteId lock) (td_id trade) s) (\<lambda>_ s. Inr (trade, s)))))) = Inr (r, t)"
        using 1(6) None none unfolding createTradeTx_def Let_def by (simp only: option.case)
      then obtain r' s1 l s2 f s3 a s4 m s5 where r: "createTradeRow ?row s = Inr (r', s1)"
        "reserveLimitsForTrade pk (if ct_side dto = TradeSide.BUY then PolicyAction.TRADE_BUY else PolicyAction.TRADE_SELL)
           instrument (Some (ql_metric lock)) (Some (ql_productId lock)) q ?amt r' s1 = Inr (l, s2)"
        "reserveFundsForTrade r' instrument q ?amt s2 = Inr (f, s3)"
        "createAttachmentsForActor actor (ct_fileIds dto) AttachmentEntityType.TRADE (td_id r') s3 = Inr (a, s4)"
        "markConsumed (ql_quoteId lock) (td_id r') s4 = Inr (m, s5)" "r' = r" "s5 = t" by (elim bindE_elim) simp
      have row: "r = ?row" "s1 = (bumpId s)\<lparr>trades := trades s @ [r]\<rparr>" "r' = r"
        using r(1,6) by (auto simp: createTradeRow_def split: if_splits)
      have res: "\<exists>x. reserveFunds (act_id actor) (if ct_side dto = TradeSide.BUY then IRR_INSTRUMENT_CODE else in_code instrument)
         (if ct_side dto = TradeSide.BUY then ?amt else q) TxRefType.TRADE (td_id r) s2 = Inr (x, s3)"
        using r(3) row(3) 1(5) unfolding row(1)
        by (auto simp: reserveFundsForTrade_def newTrade_def bindE_Inr_iff split: if_splits)
      have "sameLedger s4 t" "trades t = trades s4"
        using r(5,7) by (auto simp: markConsumed_def sameLedger_def)
      moreover have "side s1 s2" "side s3 s4"
        using holdsE_D [OF side_reserveLimitsForTrade r(2)] holdsE_D [OF side_createAttachments] r(4) by auto
      ultimately show ?thesis using placed [OF 1(1) row(1) 1(3,5,4) _ res] row(2) by simp
    qed
  qed
qed

lemma newTrade_hold:
  assumes "instrumentById (ql_baseInstrumentId lock) s = Some instrument" and "ct_settlementMethod dto = SettlementMethod.WALLET"
    and "instruments t = instruments s"
  shows "tradeHold (newTrade u dto lock instrument ty q key s) t = Some (AccountReservationStatus.RESERVED,
    if ct_side dto = TradeSide.BUY then q * ql_executablePrice lock else q, u,
    if ct_side dto = TradeSide.BUY then IRR_INSTRUMENT_CODE else in_code instrument)"
proof -
  have "in_id instrument = ql_baseInstrumentId lock" using assms(1) by (auto simp: instrumentById_def dest: find_SomeD)
  then have "instrumentById (in_id instrument) t = Some instrument" using assms(1,3) by (simp add: instrumentById_def)
  then show ?thesis using assms(2) by (simp add: tradeHold_def newTrade_def tradeCode_def)
qed

lemma trades_ok_create:
  assumes ok: "trades_ok s" and run: "createFromLock pk actor dto lock q key s = Inr (r, t)" and q: "0 < q"
  shows "trades_ok t \<and> (t = s \<and> r \<in> set (trades s) \<or> findTrade (td_id r) t = Some r \<and> td_status r = TradeStatus.PENDING \<and>
    nothingPosted TxRefType.TRADE (td_id r) t \<and>
    (\<exists>w. walletId (act_id actor) (paidCode r t) t = Some w \<and>
       (\<forall>j. posted j t = posted j s \<and> held j t = held j s + (if j = w then paidAmount r else 0))))"
  using run
proof (cases rule: createFromLock_outcomes)
  case (placed instrument ty s2 s3 s4)
  let ?u = "(bumpId s)\<lparr>trades := trades s @ [r]\<rparr>"
  let ?c = "if ct_side dto = TradeSide.BUY then IRR_INSTRUMENT_CODE else in_code instrument"
  let ?a = "if ct_side dto = TradeSide.BUY then q * ql_executablePrice lock else q"
  have new: "tradeLedger.addedRow r s ?u"
    using ledger_ok_bump [OF trades_okD(2) [OF ok]] placed(2)
    by (simp add: tradeLedger.addedRow_def tradeDue_def newTrade_def bumpId_def)
  obtain x where res: "reserveFunds (act_id actor) ?c ?a TxRefType.TRADE (td_id r) s2 = Inr (x, s3)" using placed(7) by blast
  have ins: "instruments s4 = instruments s" "accountTxs s4 = accountTxs s"
    using side_sel(5,8) [OF placed(6)] side_sel(5,8) [OF placed(8)] walletFrame_sel(4) [OF holdsE_D [OF reserveFunds_frame res]]
      reserveFunds_effect(3) [of _ _ _ _ _ s2 "fst x" "snd x" s3] res by (simp_all add: bumpId_def)
  have h: "tradeHold r s4 = Some (AccountReservationStatus.RESERVED, ?a, act_id actor, ?c)"
    unfolding placed(2) by (rule newTrade_hold [OF placed(1,4) ins(1)])
  have "0 \<le> ?a" using q placed(3) by simp
  note p = tradeLedger.ok_placed [OF trades_okD(1) [OF ok] new placed(6) this res placed(8) h]
  note new1 = tradeLedger.addedRow_facts(1) [OF trades_okD(1) [OF ok] new]
  have none: "nothingPosted TxRefType.TRADE (td_id r) s4"
    unfolding nothingPosted_def ins(2) using tradeLedger.ok_D(4) [OF trades_okD(1) [OF ok]] new1
    by (metis (no_types, lifting) imageE option.inject)
  have "trades_ok s4"
  proof -
    have dist: "distinct (map tx_id (accountTxs s4))" using trades_okD(4) [OF ok] by (simp add: ins(2))
    have "reversals_ok s4"
    proof (rule reversals_ok_append [OF trades_okD(3) [OF ok] dist, where xs = "[]" and i = "[]"])
      fix v assume "v \<in> set (trades s4)" "td_reversedAt v = None"
      then show "(td_id v = [] \<longrightarrow> (\<forall>x\<in>set []. tx_reversalOfId x = None)) \<and>
        ((\<exists>r'\<in>set (trades s). td_id r' = td_id v \<and> td_reversedAt r' = None) \<or>
         (\<forall>x\<in>set (accountTxs s). tx_refType x = TxRefType.TRADE \<longrightarrow> tx_refId x \<noteq> Some (td_id v)))"
        using none by (auto simp: p(2) nothingPosted_def ins(2))
    qed (simp_all add: ins(2) reversing_def)
    moreover have "td_reversedAt r = None" by (simp add: placed(2) newTrade_def)
    ultimately show ?thesis using p(1,2) trades_okD(5) [OF ok] by (auto simp: trades_ok_def)
  qed
  then have okt: "trades_ok t" by (rule trades_ok_same [OF _ placed(9,10)])
  have found: "findTrade (td_id r) t = Some r"
    unfolding findTrade_def placed(10) p(2) using new1 by (intro find_snoc_new) (auto simp: image_iff)
  have "instruments t = instruments s4" using placed(9) by (simp add: sameLedger_def)
  then have eqs: "paidCode r t = ?c" "paidAmount r = ?a" "td_status r = TradeStatus.PENDING"
    using newTrade_hold [OF placed(1,4), of t "act_id actor" ty q key] ins(1)
      tradeHold_wallet [of r t] placed(4) by (auto simp: placed(2) [symmetric] newTrade_def) (simp_all add: placed(2) newTrade_def)
  have "\<exists>w. walletId (act_id actor) (paidCode r t) t = Some w \<and>
       (\<forall>j. posted j t = posted j s \<and> held j t = held j s + (if j = w then paidAmount r else 0))"
    unfolding eqs(1,2) sameLedger_sums [OF placed(9)] by (rule p(3))
  moreover have "nothingPosted TxRefType.TRADE (td_id r) t"
    using none placed(9) by (simp add: nothingPosted_def sameLedger_def)
  ultimately show ?thesis using okt found eqs(3) by blast
qed (use ok in simp)

text \<open>Reversal: every entry of the trade gets its counter-entry.\<close>

definition bookedOn :: "id \<Rightarrow> id \<Rightarrow> db \<Rightarrow> decimal" where
  "bookedOn i j s = total (\<lambda>x. if tx_refType x = TxRefType.TRADE \<and> tx_refId x = Some i \<and> tx_accountId x = j
     then tx_delta x else 0) (accountTxs s)"

lemma reverseLoop_effect:
  assumes "ledger_ok s" and "distinct (map tx_id L)"
    and "\<And>x y. x \<in> set L \<Longrightarrow> y \<in> set (accountTxs s) \<Longrightarrow> tx_reversalOfId y \<noteq> Some (tx_id x)"
    and "forE L (reversePosting tr ad) s = Inr (u, t)"
  shows "plain TxRefType.TRADE (td_id tr) (- total tx_delta L) (\<lambda>j. - total (\<lambda>x. if tx_accountId x = j then tx_delta x else 0) L) s t \<and>
    (\<exists>xs. accountTxs t = accountTxs s @ xs \<and> (\<forall>x\<in>set xs. \<exists>y\<in>set L. tx_reversalOfId x = Some (tx_id y)))"
  using assms
proof (induction L arbitrary: s)
  case Nil
  then show ?case using plain_refl by simp
next
  case (Cons x L)
  from Cons.prems(3) have new: "\<not> (\<exists>y\<in>set (accountTxs s). tx_reversalOfId y = Some (tx_id x))" by auto
  obtain v s1 where 1: "reversePosting tr ad x s = Inr (v, s1)" "forE L (reversePosting tr ad) s1 = Inr (u, t)"
    using Cons.prems(4) by (auto elim: bindE_elim)
  from 1(1) new obtain q where app: "applyTransaction (tx_accountId x) (- tx_delta x) AccountTxType.ADJUSTMENT TxRefType.TRADE
      (Some (td_id tr)) ad (Some (tx_id x)) s = Inr (q, s1)" by (auto simp: reversePosting_def bindE_Inr_iff)
  have txs: "accountTxs s1 = accountTxs s @ [fst q]" "tx_reversalOfId (fst q) = Some (tx_id x)"
    by (cases q; use app in \<open>simp add: applyTransaction_effect(6) applyTransaction_reversal\<close>)+
  note p = plain_post [OF Cons.prems(1) app]
  have "tx_reversalOfId y \<noteq> Some (tx_id z)" if "z \<in> set L" "y \<in> set (accountTxs s1)" for z y
    using that Cons.prems(2) Cons.prems(3) [of z y] txs by (auto simp: image_iff)
  from Cons.IH [OF plainD(1) [OF p] _ this 1(2)] Cons.prems(2) obtain xs where
    ih: "plain TxRefType.TRADE (td_id tr) (- total tx_delta L) (\<lambda>j. - total (\<lambda>x. if tx_accountId x = j then tx_delta x else 0) L) s1 t"
    "accountTxs t = accountTxs s1 @ xs" "\<forall>x\<in>set xs. \<exists>y\<in>set L. tx_reversalOfId x = Some (tx_id y)" by auto
  have fn: "(\<lambda>j. (if j = tx_accountId x then - tx_delta x else 0) + - total (\<lambda>x. if tx_accountId x = j then tx_delta x else 0) L) =
      (\<lambda>j. - total (\<lambda>x. if tx_accountId x = j then tx_delta x else 0) (x # L))" by auto
  have "plain TxRefType.TRADE (td_id tr) (- total tx_delta (x # L))
      (\<lambda>j. - total (\<lambda>x. if tx_accountId x = j then tx_delta x else 0) (x # L)) s t"
    using plain_trans [OF p ih(1)] unfolding fn by simp
  then show ?case using ih(2,3) txs by auto
qed

lemma reversePostings_effect:
  assumes ok: "trades_ok s" and r: "findTrade i s = Some r" "td_reversedAt r = None"
    and run: "reversePostings r ad s = Inr (u, t)"
  shows "plain TxRefType.TRADE i 0 (\<lambda>j. - bookedOn i j s) s t \<and>
    (\<exists>xs. accountTxs t = accountTxs s @ xs \<and> reversing i xs s)"
proof -
  note r0 = trades_ok_request [OF ok r(1)]
  let ?p = "\<lambda>x. tx_refType x = TxRefType.TRADE \<and> tx_refId x = Some i"
  let ?L = "sortBy compareTxCreated (findMany ?p (accountTxs s))"
  have set: "set ?L = {x \<in> set (accountTxs s). ?p x}" by (auto simp: txCreated.sortBy_set)
  have "distinct (map tx_id (filter ?p (accountTxs s)))" by (rule distinct_map_filter [OF trades_okD(4) [OF ok]])
  then have dist: "distinct (map tx_id ?L)"
    using mset_eq_imp_distinct_iff [of "map tx_id ?L" "map tx_id (filter ?p (accountTxs s))"]
    by (simp add: txCreated.sortBy_mset)
  have new: "tx_reversalOfId y \<noteq> Some (tx_id x)" if "x \<in> set ?L" "y \<in> set (accountTxs s)" for x y
    using that reversals_okD(2) [OF trades_okD(3) [OF ok] r0(1) r(2)] r0(2) by (auto simp: set)
  have "forE ?L (reversePosting r ad) s = Inr (u, t)" using run by (simp add: reversePostings_def r0(2))
  from reverseLoop_effect [OF trades_okD(2) [OF ok] dist new this] obtain xs where
    p: "plain TxRefType.TRADE i (- total tx_delta ?L) (\<lambda>j. - total (\<lambda>x. if tx_accountId x = j then tx_delta x else 0) ?L) s t"
    and xs: "accountTxs t = accountTxs s @ xs" "\<forall>x\<in>set xs. \<exists>y\<in>set ?L. tx_reversalOfId x = Some (tx_id y)"
    unfolding r0(2) by blast
  have sums: "total g ?L = total (\<lambda>x. if ?p x then g x else 0) (accountTxs s)" for g :: "accountTx \<Rightarrow> decimal"
    using total_mset [OF txCreated.sortBy_mset, of g] by (simp add: total_filter)
  have "total tx_delta ?L = booked TxRefType.TRADE i s" by (simp add: sums booked_def)
  also have "\<dots> = 0" using tradeLedger.ok_D(5) [OF trades_okD(1) [OF ok] r0(1)] r0(2) by (simp add: tradeDue_def)
  finally have zero: "- total tx_delta ?L = 0" by simp
  have on: "(\<lambda>j. - total (\<lambda>x. if tx_accountId x = j then tx_delta x else 0) ?L) = (\<lambda>j. - bookedOn i j s)"
    unfolding sums bookedOn_def by (intro ext arg_cong [where f = uminus] total_cong) simp
  have "reversing i xs s"
    using xs(2) unfolding reversing_def set by fastforce
  then show ?thesis using p xs(1) unfolding zero on by blast
qed

lemma reverseTradeTx_outcomes:
  assumes "reverseTradeTx ad reason i s = Inr (q, t)"
  obtains (same) "findTrade i s = Some q" "td_reversedAt q \<noteq> None" "t = s"
  | (reversed) r u s1 where "findTrade i s = Some r" "td_status r = TradeStatus.APPROVED" "td_reversedAt r = None"
      "(if td_settlementMethod r = SettlementMethod.WALLET then reversePostings r ad s else Inr ((), s)) = Inr (u, s1)"
      "updateTrade (r\<lparr>td_status := TradeStatus.CANCELLED_BY_ADMIN, td_reversedAt := Some (db_now s1),
         td_adminNote := orElse reason (td_adminNote r)\<rparr>) s1 = Inr (q, t)"
proof (cases "findTrade i s")
  case (Some r)
  show ?thesis
  proof (cases "td_reversedAt r = None")
    case True
    have st: "td_status r = TradeStatus.APPROVED" using assms Some True by (auto simp: reverseTradeTx_def split: if_splits)
    have "bindE (if td_settlementMethod r = SettlementMethod.WALLET then reversePostings r ad s else Inr ((), s)) (\<lambda>_ s.
                updateTrade (r\<lparr>td_status := TradeStatus.CANCELLED_BY_ADMIN, td_reversedAt := Some (db_now s),
                   td_adminNote := orElse reason (td_adminNote r)\<rparr>) s) = Inr (q, t)"
      using assms Some True st by (simp add: reverseTradeTx_def)
    then show ?thesis by (rule bindE_elim) (rule reversed [OF Some st True])
  next
    case False
    show ?thesis by (rule same) (use assms Some False in \<open>simp_all add: reverseTradeTx_def\<close>)
  qed
next
  case None
  have False using assms None by (simp add: reverseTradeTx_def)
  then show ?thesis ..
qed

lemma trades_ok_reverse:
  assumes ok: "trades_ok s" and run: "reverseTradeTx ad reason i s = Inr (q, t)"
  shows "trades_ok t \<and> findTrade i t = Some q \<and> td_reversedAt q \<noteq> None \<and>
    (t = s \<or> (\<exists>r. findTrade i s = Some r \<and> td_status q = TradeStatus.CANCELLED_BY_ADMIN \<and>
       (\<forall>j. held j t = held j s \<and> posted j t = posted j s -
          (if td_settlementMethod r = SettlementMethod.WALLET then bookedOn i j s else 0))))"
  using run
proof (cases rule: reverseTradeTx_outcomes)
  case same
  then show ?thesis using ok by simp
next
  case (reversed r u s1)
  let ?rt = "TxRefType.TRADE"
  let ?r = "r\<lparr>td_status := TradeStatus.CANCELLED_BY_ADMIN, td_reversedAt := Some (db_now s1),
         td_adminNote := orElse reason (td_adminNote r)\<rparr>"
  note r0 = trades_ok_request [OF ok reversed(1)]
  have "\<exists>xs. plain ?rt i 0 (\<lambda>j. - (if td_settlementMethod r = SettlementMethod.WALLET then bookedOn i j s else 0)) s s1 \<and>
      accountTxs s1 = accountTxs s @ xs \<and> reversing i xs s"
    using reversePostings_effect [OF ok reversed(1,3)] reversed(4) plain_refl [OF trades_okD(2) [OF ok]]
    by (cases "td_settlementMethod r = SettlementMethod.WALLET") (auto simp: reversing_def)
  then obtain xs where p: "plain ?rt i 0 (\<lambda>j. - (if td_settlementMethod r = SettlementMethod.WALLET then bookedOn i j s else 0)) s s1"
    and xs: "accountTxs s1 = accountTxs s @ xs" "reversing i xs s" by blast
  have same: "paidAmount ?r = paidAmount r" "paidCode ?r s1 = paidCode r s" "td_settlementMethod ?r = td_settlementMethod r"
    using sameRows_sel(3) [OF plainD(5) [OF p]] by (simp_all add: paidAmount_def paidCode_def tradeCode_def instrumentById_def)
  have "tradeHold ?r s1 = tradeHold r s"
  proof (cases "td_settlementMethod r = SettlementMethod.WALLET")
    case True
    then have "td_settlementMethod ?r = SettlementMethod.WALLET" using same(3) by simp
    from tradeHold_wallet [OF this, of s1] tradeHold_wallet [OF True, of s] show ?thesis
      unfolding same by (simp add: reversed(2))
  qed (simp add: tradeHold_def)
  then have hold: "heldAs ?rt i (tradeHold ?r s1) s1" using plainD(3) [OF p r0(3)] by simp
  have "trades_ok t \<and> findTrade i t = Some q \<and> q = ?r\<lparr>td_updatedAt := db_now s\<rparr> \<and> sameLedger s1 t"
    by (rule trades_ok_settle [OF ok reversed(1) plainD(2) [OF p] _ hold _ _ xs _ reversed(5)]) (simp_all add: r0(2))
  then show ?thesis using reversed(1) sameLedger_sums(1,2) [of s1 t] effectD(8,9) [OF plainD(2) [OF p]] by auto
qed

text \<open>The cash settlement of a forward trade: two legs that cancel out.\<close>

lemma settleCash_effect:
  assumes ok: "ledger_ok s" and run: "settleCash tr amt ad s = Inr (u, t)"
  shows "\<exists>p xs. plain TxRefType.TRADE (td_id tr) 0 p s t \<and> accountTxs t = accountTxs s @ xs \<and>
    (\<forall>x\<in>set xs. tx_reversalOfId x = None)"
proof -
  obtain a s1 h s2 legs where 1: "getOrCreateAccount (td_clientId tr) IRR_INSTRUMENT_CODE s = Inr (a, s1)"
    "getOrCreateAccount HOUSE_USER_ID IRR_INSTRUMENT_CODE s1 = Inr (h, s2)"
    and legs: "postLegs tr ad legs s2 = Inr (u, t)" "total (\<lambda>(_, d, _). d) legs = 0"
    using run unfolding settleCash_def by (elim bindE_elim) (auto split: if_splits)
  note p1 = plain_getAcc [OF ok 1(1), where rt = TxRefType.TRADE and i = "td_id tr"]
  note p2 = plain_getAcc [OF plainD(1) [OF p1] 1(2), where rt = TxRefType.TRADE and i = "td_id tr"]
  from postLegs_effect [OF plainD(1) [OF p2] legs(1)] obtain xs where
    p3: "plain TxRefType.TRADE (td_id tr) 0 (legSum legs) s2 t" "accountTxs t = accountTxs s2 @ xs"
      "\<forall>x\<in>set xs. tx_reversalOfId x = None" unfolding legs(2) by blast
  show ?thesis
    using plain_trans [OF p1 plain_trans [OF p2 p3(1)]] p3(2,3) getOrCreateAccount_effect(4) [OF 1(1)]
      getOrCreateAccount_effect(4) [OF 1(2)] by auto
qed

lemma trades_ok_forward:
  assumes ok: "trades_ok s" and run: "settleForwardTx dto ad i s = Inr (q, t)"
  shows "trades_ok t"
proof (cases "findTrade i s")
  case (Some r)
  let ?rt = "TxRefType.TRADE"
  let ?r = "r\<lparr>td_settlementPrice := Some (sf_settlementPrice dto),
                 td_settlementAmount := Some (sf_settlementAmount dto),
                 td_realizedPnl := orElse (sf_realizedPnl dto) (td_realizedPnl r),
                 td_status := TradeStatus.SETTLED,
                 td_approvedById := orElse (td_approvedById r) ad\<rparr>"
  note r0 = trades_ok_request [OF ok Some]
  have m: "td_settlementMethod r \<noteq> SettlementMethod.WALLET" "td_status r = TradeStatus.APPROVED"
    using run Some by (auto simp: settleForwardTx_def split: if_splits)
  have "bindE (if sf_settlementAmount dto \<noteq> 0 then settleCash r (sf_settlementAmount dto) ad s else Inr ((), s)) (\<lambda>_ s.
      updateTrade ?r s) = Inr (q, t)"
    using run Some m by (auto simp: settleForwardTx_def Let_def split: if_splits)
  then obtain u s1 where 1: "(if sf_settlementAmount dto \<noteq> 0 then settleCash r (sf_settlementAmount dto) ad s else Inr ((), s)) = Inr (u, s1)"
    "updateTrade ?r s1 = Inr (q, t)" by (rule bindE_elim)
  have "\<exists>p xs. plain ?rt i 0 p s s1 \<and> accountTxs s1 = accountTxs s @ xs \<and> (\<forall>x\<in>set xs. tx_reversalOfId x = None)"
  proof (cases "sf_settlementAmount dto = 0")
    case True
    then show ?thesis using 1(1) plain_refl [OF trades_okD(2) [OF ok]] by (intro exI [of _ "\<lambda>_. 0"] exI [of _ "[]"]) simp
  next
    case False
    then show ?thesis using settleCash_effect [OF trades_okD(2) [OF ok], of r "sf_settlementAmount dto" ad u s1] 1(1) r0(2) by simp
  qed
  then obtain p xs where p: "plain ?rt i 0 p s s1" "accountTxs s1 = accountTxs s @ xs" "\<forall>x\<in>set xs. tx_reversalOfId x = None" by blast
  have hold: "heldAs ?rt i (tradeHold ?r s1) s1"
    using plainD(3) [OF p(1) r0(3)] m(1) by (simp add: tradeHold_def)
  have "td_reversedAt r = None" using trades_okD(5) [OF ok r0(1)] m(2) by (cases "td_reversedAt r") auto
  then show ?thesis
    using trades_ok_settle [OF ok Some plainD(2) [OF p(1)] _ hold _ _ p(2) reversing_none [OF p(3)] _ 1(2)] p(3) r0(2) by simp
next
  case None
  then show ?thesis using run by (simp add: settleForwardTx_def)
qed

lemma side_walletTrade: "holdsE (\<lambda>_. side s) (enqueueTahesabForWalletTrade cfg tr s)"
  by (auto simp: enqueueTahesabForWalletTrade_def Let_def intro: side_enqueueOnce)

lemma side_forwardCash: "holdsE (\<lambda>_. side s) (enqueueTahesabForForwardCashSettlement cfg tr s)"
  by (auto simp: enqueueTahesabForForwardCashSettlement_def Let_def intro: side_enqueueOnce)

lemma side_tradeDeletion: "holdsE (\<lambda>_. side s) (enqueueTahesabDeletionForTrade i c s)"
  unfolding enqueueTahesabDeletionForTrade_def by (rule side_enqueueDeletion)

lemma walletTrade_again:
  "enqueueTahesabForWalletTrade cfg tr s = Inr (x, t) \<Longrightarrow> enqueueTahesabForWalletTrade cfg tr t = Inr ((), t)"
  by (auto simp: enqueueTahesabForWalletTrade_def Let_def side_sel findUser_def dest: enqueueOnce_again split: if_splits)

lemma approveTrade_split:
  assumes "approveTrade cfg i nt admin s = Inr (r, t)"
  obtains t' where "approveTradeTx nt admin i s = Inr (r, t')" "side t' t" "enqueueTahesabForWalletTrade cfg r t' = Inr ((), t)"
  using assms holdsE_D [OF side_walletTrade] by (auto simp: approveTrade_def bindE_Inr_iff)

lemma cancelTrade_split:
  assumes "cancelTrade i reason s = Inr (r, t)"
  obtains t' where "cancelTradeTx reason i s = Inr (r, t')" "side t' t"
  using assms holdsE_D [OF side_tradeDeletion] by (auto simp: cancelTrade_def bindE_Inr_iff)

lemma reverseTrade_split:
  assumes "reverseTrade i ad reason s = Inr (r, t)"
  obtains t' where "reverseTradeTx ad reason i s = Inr (r, t')" "side t' t"
  using assms holdsE_D [OF side_tradeDeletion] by (auto simp: reverseTrade_def bindE_Inr_iff)

lemma settleForward_split:
  assumes "settleForwardTradeInCash cfg i dto ad s = Inr (r, t)"
  obtains t' where "settleForwardTx dto ad i s = Inr (r, t')" "side t' t"
  using assms holdsE_D [OF side_forwardCash] by (auto simp: settleForwardTradeInCash_def bindE_Inr_iff)

lemma trades_ok_cancel:
  assumes ok: "trades_ok s" and run: "cancelTradeTx reason i s = Inr (q, t)"
  shows "trades_ok t"
  using run
proof (cases rule: cancelTradeTx_outcomes)
  case (closed r u s1)
  have "td_reversedAt r = None" using trades_okD(5) [OF ok, of r] trades_ok_request(1) [OF ok closed(1)] closed(2) by (cases "td_reversedAt r") auto
  then show ?thesis using trades_ok_close [OF ok closed] by simp
qed (use ok in simp)

lemma trades_ok_reject:
  assumes ok: "trades_ok s" and run: "rejectTrade reason i s = Inr (q, t)"
  shows "trades_ok t"
  using run
proof (cases rule: rejectTrade_outcomes)
  case (closed r u s1)
  have "td_reversedAt r = None" using trades_okD(5) [OF ok, of r] trades_ok_request(1) [OF ok closed(1)] closed(2) by (cases "td_reversedAt r") auto
  then show ?thesis using trades_ok_close [OF ok closed] by simp
qed (use ok in simp)

text \<open>
  Any sequence of successful operations on trades, with the clock moving in between; creation starts
  from a lock that was consumed, with a positive quantity, as \<open>createForUser\<close> checks.
\<close>

inductive tradeRun :: "db \<Rightarrow> db \<Rightarrow> bool" where
  tr_start: "tradeRun s s"
| tr_clock: "tradeRun s t \<Longrightarrow> tradeRun s (t\<lparr>db_now := n\<rparr>)"
| tr_create: "tradeRun s t \<Longrightarrow> 0 < q \<Longrightarrow> createFromLock pk actor dto lock q key t = Inr (r, t') \<Longrightarrow> tradeRun s t'"
| tr_approve: "tradeRun s t \<Longrightarrow> approveTrade cfg i nt admin t = Inr (r, t') \<Longrightarrow> tradeRun s t'"
| tr_cancel: "tradeRun s t \<Longrightarrow> cancelTrade i reason t = Inr (r, t') \<Longrightarrow> tradeRun s t'"
| tr_reject: "tradeRun s t \<Longrightarrow> rejectTrade reason i t = Inr (r, t') \<Longrightarrow> tradeRun s t'"
| tr_reverse: "tradeRun s t \<Longrightarrow> reverseTrade i ad reason t = Inr (r, t') \<Longrightarrow> tradeRun s t'"
| tr_forward: "tradeRun s t \<Longrightarrow> settleForwardTradeInCash cfg i fdto ad t = Inr (r, t') \<Longrightarrow> tradeRun s t'"

lemma tradeRun_ok: "tradeRun s t \<Longrightarrow> trades_ok s \<Longrightarrow> trades_ok t"
proof (induction rule: tradeRun.induct)
  case (tr_clock s t n)
  then have ok: "trades_ok t" by blast
  show ?case by (rule trades_ok_same [OF ok]) (simp_all add: sameLedger_def)
next
  case (tr_create s t q pk actor dto lock key r t')
  then show ?case using trades_ok_create by blast
next
  case (tr_approve s t cfg i nt admin r t')
  then obtain t1 where "approveTradeTx nt admin i t = Inr (r, t1)" "side t1 t'" using approveTrade_split by blast
  then show ?case using trades_ok_approve tr_approve trades_ok_side by blast
next
  case (tr_cancel s t i reason r t')
  then obtain t1 where "cancelTradeTx reason i t = Inr (r, t1)" "side t1 t'" using cancelTrade_split by blast
  then show ?case using trades_ok_cancel tr_cancel trades_ok_side by blast
next
  case (tr_reject s t reason i r t')
  then show ?case using trades_ok_reject by blast
next
  case (tr_reverse s t i ad reason r t')
  then obtain t1 where "reverseTradeTx ad reason i t = Inr (r, t1)" "side t1 t'" using reverseTrade_split by blast
  then show ?case using trades_ok_reverse tr_reverse trades_ok_side by blast
next
  case (tr_forward s t cfg i fdto ad r t')
  then obtain t1 where "settleForwardTx fdto ad i t = Inr (r, t1)" "side t1 t'" using settleForward_split by blast
  then show ?case using trades_ok_forward tr_forward trades_ok_side by blast
qed

lemma effect_bookedOn:
  assumes "effect TxRefType.TRADE i d p h s t"
  shows "bookedOn i j t = bookedOn i j s + p j"
proof -
  obtain xs where xs: "accountTxs t = accountTxs s @ xs" "\<forall>x\<in>set xs. tx_refType x = TxRefType.TRADE \<and> tx_refId x = Some i"
    using assms by (auto simp: effect_def)
  have "total (\<lambda>x. if tx_refType x = TxRefType.TRADE \<and> tx_refId x = Some i \<and> tx_accountId x = j then tx_delta x else 0) xs =
      total (\<lambda>x. if tx_accountId x = j then tx_delta x else 0) xs" using xs(2) by (intro total_cong) simp
  then show ?thesis using effectD(8) [OF assms, of j] by (simp add: bookedOn_def posted_def xs(1))
qed

lemma nothingPosted_bookedOn: "nothingPosted TxRefType.TRADE i s \<Longrightarrow> bookedOn i j s = 0"
  unfolding bookedOn_def nothingPosted_def by (rule total_zero) auto

section \<open>Properties\<close>

text \<open>
  The concrete state: \<open>ali\<close> has 100 rials, the house has 100 grams of gold, and a consumed lock lets
  \<open>ali\<close> buy gold at 6 rials a gram.
\<close>

definition houseGold :: account where
  "houseGold = \<lparr>ac_id = unaryId 2, ac_userId = HOUSE_USER_ID, ac_instrumentId = in_id gold750, ac_balance = 100,
     ac_blockedBalance = 0, ac_minBalance = 0\<rparr>"

definition goldProduct :: marketProduct where
  "goldProduct = \<lparr>mp_id = ''p'', mp_code = ''GOLD'', mp_productType = MarketProductType.GOLD, mp_tradeType = TradeType.SPOT,
     mp_baseInstrumentId = in_id gold750, mp_unitType = PolicyMetric.WEIGHT_750_G, mp_isActive = True, mp_createdAt = 0,
     mp_displayName = [], mp_groupKey = [], mp_sortOrder = 0\<rparr>"

definition exchangeDb :: db where
  "exchangeDb = aliDb\<lparr>db_seq := 4, users := [aliUser], instruments := [irr, gold750], marketProducts := [goldProduct],
     accounts := [aliAccount, houseGold], accountTxs := [aliTx, aliGoldTx\<lparr>tx_id := unaryId 3, tx_accountId := unaryId 2\<rparr>]\<rparr>"

definition goldLock :: lockedQuote where
  "goldLock = \<lparr>ql_quoteId = ''q'', ql_userId = ''ali'', ql_productId = ''p'', ql_productCode = ''GOLD'',
     ql_side = TradeSide.BUY, ql_metric = PolicyMetric.WEIGHT_750_G, ql_baseInstrumentId = in_id gold750,
     ql_baseInstrumentCode = in_code gold750, ql_baseBuy = None, ql_baseSell = None,
     ql_displayBuy = Some 6, ql_displaySell = None, ql_executablePrice = 6, ql_asOf = 0, ql_expiresAt = 0, ql_createdAt = 0\<rparr>"

definition buyGold :: createTradeDto where
  "buyGold = \<lparr>ct_instrumentCode = None, ct_side = TradeSide.BUY, ct_quantity = 10,
     ct_settlementMethod = SettlementMethod.WALLET, ct_clientNote = None, ct_fileIds = None, ct_quoteId = Some ''q''\<rparr>"

lemma exchangeDb_ok: "trades_ok exchangeDb"
  using inj_unaryId
  by (auto simp: inj_eq [OF inj_unaryId] acctKey_def HOUSE_USER_ID_def gold750_def trades_ok_def reversals_ok_def
      requests_ok_def books_ok_def ledger_ok_def keys_ok_def account_ok_def held_def posted_def exchangeDb_def aliDb_def emptyDb_def aliAccount_def houseGold_def aliTx_def aliGoldTx_def)

lemma exchangeDb_create:
  obtains r t where "createFromLock dayKeys aliActor buyGold goldLock 10 None exchangeDb = Inr (r, t)"
    "r \<in> set (trades t)" "findTrade (td_id r) t = Some r" "td_status r = TradeStatus.PENDING"
    "td_settlementMethod r = SettlementMethod.WALLET" "paidAmount r = 60" "nothingPosted TxRefType.TRADE (td_id r) t"
    "tradeRun exchangeDb t" "trades_ok t"
    "\<exists>r' t' q u. approveTrade noTahesab (td_id r) None ''root'' t = Inr (r', t') \<and>
       reverseTrade (td_id r) None None t' = Inr (q, u)"
proof -
  have "case createFromLock dayKeys aliActor buyGold goldLock 10 None exchangeDb of Inl _ \<Rightarrow> False
    | Inr (r, t) \<Rightarrow> r \<in> set (trades t) \<and> findTrade (td_id r) t = Some r \<and> td_status r = TradeStatus.PENDING \<and>
        td_settlementMethod r = SettlementMethod.WALLET \<and> paidAmount r = 60 \<and>
        list_all (\<lambda>x. tx_refType x = TxRefType.TRADE \<longrightarrow> tx_refId x \<noteq> Some (td_id r)) (accountTxs t) \<and>
        (case approveTrade noTahesab (td_id r) None ''root'' t of Inl _ \<Rightarrow> False
         | Inr (_, t') \<Rightarrow> \<not> isl (reverseTrade (td_id r) None None t'))" by code_simp
  then obtain r t r' t' q u where 1: "createFromLock dayKeys aliActor buyGold goldLock 10 None exchangeDb = Inr (r, t)"
    "r \<in> set (trades t)" "findTrade (td_id r) t = Some r" "td_status r = TradeStatus.PENDING"
    "td_settlementMethod r = SettlementMethod.WALLET" "paidAmount r = 60" "nothingPosted TxRefType.TRADE (td_id r) t"
    "approveTrade noTahesab (td_id r) None ''root'' t = Inr (r', t')" "reverseTrade (td_id r) None None t' = Inr (q, u)"
    by (auto simp: isl_def nothingPosted_def list_all_iff split: sum.splits) (metis obj_sumE surj_pair)
  have run: "tradeRun exchangeDb t" by (rule tr_create [OF tr_start _ 1(1)]) simp
  show ?thesis using that [OF 1(1-7) run tradeRun_ok [OF run exchangeDb_ok]] 1(8,9) by blast
qed

text \<open>
  C4. The trades are always sound: after any sequence of creations from consumed locks, approvals,
  cancellations, rejections, reversals and forward settlements, what is held under a trade is what the
  client pays while it waits for approval and nothing otherwise, the entries posted under it always
  cancel out, and the ledger is sound.
\<close>

theorem trade_holds_and_books:
  assumes "tradeRun s t" and "trades_ok s" and "r \<in> set (trades t)"
  shows "ledger_ok t \<and>
    heldUnder TxRefType.TRADE (td_id r) t =
      (if td_settlementMethod r = SettlementMethod.WALLET \<and> td_status r = TradeStatus.PENDING
       then if td_side r = TradeSide.BUY then td_totalAmount r else td_quantity r else 0) \<and>
    booked TxRefType.TRADE (td_id r) t = 0"
  using tradeLedger.ok_request [OF trades_okD(1) [OF tradeRun_ok [OF assms(1,2)]] assms(3)]
  by (simp add: tradeDue_def tradeHold_def)

lemma trade_holds_and_books_witness:
  "\<exists>r t. createFromLock dayKeys aliActor buyGold goldLock 10 None exchangeDb = Inr (r, t) \<and>
     heldUnder TxRefType.TRADE (td_id r) t = 60"
proof -
  obtain r t where 1: "createFromLock dayKeys aliActor buyGold goldLock 10 None exchangeDb = Inr (r, t)"
    "r \<in> set (trades t)" "td_status r = TradeStatus.PENDING" "td_settlementMethod r = SettlementMethod.WALLET"
    "paidAmount r = 60" "tradeRun exchangeDb t" by (rule exchangeDb_create)
  from trade_holds_and_books [OF 1(6) exchangeDb_ok 1(2)] 1 show ?thesis by (auto simp: paidAmount_def)
qed

text \<open>
  C9. Approving a pending trade exchanges money against the asset between the client and the house: each
  of the four wallets moves by exactly the amount or the quantity, the hold of the client is used up, and
  no other account moves. Approving again answers the same row and changes nothing, and the trade can no
  longer be cancelled or rejected.
\<close>

theorem trade_approval_exchanges:
  assumes "findTrade i s = Some r0" and "td_status r0 = TradeStatus.PENDING" and "trades_ok s"
    and "approveTrade cfg i nt admin s = Inr (r, t)"
  shows "td_status r = TradeStatus.APPROVED \<and> findTrade i t = Some r \<and>
    (\<exists>up hp ug hg. walletId (td_clientId r0) (paidCode r0 s) t = Some up \<and> walletId HOUSE_USER_ID (paidCode r0 s) t = Some hp \<and>
       walletId (td_clientId r0) (gotCode r0 s) t = Some ug \<and> walletId HOUSE_USER_ID (gotCode r0 s) t = Some hg \<and>
       (\<forall>j. posted j t = posted j s + ((if j = up then - paidAmount r0 else 0) + (if j = hp then paidAmount r0 else 0) +
              (if j = ug then gotAmount r0 else 0) + (if j = hg then - gotAmount r0 else 0)) \<and>
            held j t = held j s - (if j = up then paidAmount r0 else 0))) \<and>
    approveTrade cfg i nt' admin' t = Inr (r, t) \<and>
    cancelTrade i reason t = Inl (ConflictException ''Only PENDING trades can be cancelled'') \<and>
    rejectTrade reason i t = Inl (BadRequestException ''Only PENDING trades can be rejected'')"
proof -
  from assms(4) obtain t' where 1: "approveTradeTx nt admin i s = Inr (r, t')" "side t' t"
    "enqueueTahesabForWalletTrade cfg r t' = Inr ((), t)" by (rule approveTrade_split)
  note a = trades_ok_approve [OF assms(3) 1(1)]
  have found: "findTrade i t = Some r" using a 1(2) by (simp add: findTrade_def side_sel)
  from a assms(1,2) obtain u where u: "td_status r = TradeStatus.APPROVED" "sameLedger u t'"
    "exchanged r0 (paidCode r0 s) (paidAmount r0) (gotCode r0 s) (gotAmount r0) s u" by auto
  note sums = sameLedger_sums [OF sameLedger_trans [OF u(2) side_ledger [OF 1(2)]]]
  from u(3) obtain up hp ug hg where ex: "walletId (td_clientId r0) (paidCode r0 s) u = Some up"
      "walletId HOUSE_USER_ID (paidCode r0 s) u = Some hp" "walletId (td_clientId r0) (gotCode r0 s) u = Some ug"
      "walletId HOUSE_USER_ID (gotCode r0 s) u = Some hg"
    and e: "effect TxRefType.TRADE (td_id r0) 0 (\<lambda>j. (if j = up then - paidAmount r0 else 0) + (if j = hp then paidAmount r0 else 0) +
            (if j = ug then gotAmount r0 else 0) + (if j = hg then - gotAmount r0 else 0))
          (\<lambda>j. if j = up then - paidAmount r0 else 0) s u" unfolding exchanged_def by blast
  have "approveTrade cfg i nt' admin' t = Inr (r, t)"
    using found u(1) walletTrade_again [OF 1(3)] by (simp add: approveTrade_def approveTradeTx_def)
  then show ?thesis
    using found u(1) ex effectD(8,9) [OF e] by (auto simp: sums cancelTrade_def cancelTradeTx_def rejectTrade_def)
qed

lemma trade_approval_exchanges_witness:
  "\<exists>r t r' t'. createFromLock dayKeys aliActor buyGold goldLock 10 None exchangeDb = Inr (r, t) \<and>
     approveTrade noTahesab (td_id r) None ''root'' t = Inr (r', t') \<and> td_status r' = TradeStatus.APPROVED \<and>
     (\<exists>w. walletId (td_clientId r) (paidCode r t) t' = Some w \<and> held w t' = held w t - 60)"
proof -
  obtain r t r' t' where 1: "createFromLock dayKeys aliActor buyGold goldLock 10 None exchangeDb = Inr (r, t)"
    "findTrade (td_id r) t = Some r" "td_status r = TradeStatus.PENDING" "trades_ok t" "paidAmount r = 60"
    "approveTrade noTahesab (td_id r) None ''root'' t = Inr (r', t')" by (rule exchangeDb_create) blast
  from trade_approval_exchanges [OF 1(2-4) 1(6), of None "''root''" None] 1 show ?thesis by auto
qed

text \<open>
  C26. Reversing a trade takes back what its approval moved: when a pending trade nothing was posted for is
  approved and then reversed, the postings of every account are those before the approval, and the holds are those
  before the approval less the hold of the trade itself, which is gone from the client's wallet and not placed
  again. The trade is cancelled, and it cannot be reversed a second time: the second call posts nothing.
\<close>

theorem trade_reversal_restores:
  assumes "findTrade i s = Some r0" and "td_status r0 = TradeStatus.PENDING" and "trades_ok s"
    and "nothingPosted TxRefType.TRADE i s"
    and "approveTrade cfg i nt admin s = Inr (r, t)" and "reverseTrade i ad reason t = Inr (q, u)"
  shows "(\<exists>w. walletId (td_clientId r0) (paidCode r0 s) t = Some w \<and>
      (\<forall>j. posted j u = posted j s \<and> held j u = held j s - (if j = w then paidAmount r0 else 0))) \<and>
    td_status q = TradeStatus.CANCELLED_BY_ADMIN \<and> reverseTradeTx ad' reason' i u = Inr (q, u)"
proof -
  from assms(5) obtain t' where 1: "approveTradeTx nt admin i s = Inr (r, t')" "side t' t" by (rule approveTrade_split)
  note a = trades_ok_approve [OF assms(3) 1(1)]
  have ok: "trades_ok t" using trades_ok_side a 1(2) by blast
  have found: "findTrade i t = Some r" using a 1(2) by (simp add: findTrade_def side_sel)
  from a assms(1,2) obtain v where v: "td_status r = TradeStatus.APPROVED" "sameLedger v t'"
      "td_settlementMethod r = SettlementMethod.WALLET"
      "exchanged r0 (paidCode r0 s) (paidAmount r0) (gotCode r0 s) (gotAmount r0) s v" by auto
  have i: "td_id r0 = i" using findTrade_SomeD [OF assms(1)] by simp
  from v(4) obtain p w where e: "effect TxRefType.TRADE i 0 p (\<lambda>j. if j = w then - paidAmount r0 else 0) s v"
    and w: "walletId (td_clientId r0) (paidCode r0 s) v = Some w" unfolding exchanged_def i by blast
  have led: "sameLedger v t" by (rule sameLedger_trans [OF v(2) side_ledger [OF 1(2)]])
  then have "bookedOn i j t = bookedOn i j v" for j by (simp add: bookedOn_def sameLedger_def)
  then have on: "posted j t - bookedOn i j t = posted j s" for j
    using effect_bookedOn [OF e, of j] effectD(8) [OF e, of j] sameLedger_sums(1) [OF led] nothingPosted_bookedOn [OF assms(4), of j]
    by simp
  from assms(6) obtain u' where 2: "reverseTradeTx ad reason i t = Inr (q, u')" "side u' u" by (rule reverseTrade_split)
  have "td_reversedAt r = None"
    using trades_okD(5) [OF ok, of r] findTrade_SomeD [OF found] v(1) by (cases "td_reversedAt r") auto
  then have "u' \<noteq> t" using found trades_ok_reverse [OF ok 2(1)] by auto
  with trades_ok_reverse [OF ok 2(1)] found v(3) have q: "findTrade i u' = Some q" "td_reversedAt q \<noteq> None"
    "td_status q = TradeStatus.CANCELLED_BY_ADMIN" "\<forall>j. held j u' = held j t \<and> posted j u' = posted j t - bookedOn i j t"
    by auto
  have again: "findTrade i u = Some q" using q(1) 2(2) by (simp add: findTrade_def side_sel)
  have "walletId (td_clientId r0) (paidCode r0 s) t = Some w" using w sameLedger_sums(3) [OF led] by simp
  moreover have "held j t = held j s - (if j = w then paidAmount r0 else 0)" for j
    using effectD(9) [OF e, of j] sameLedger_sums(2) [OF led] by simp
  ultimately show ?thesis
    using again q(2-4) on sameLedger_sums [OF side_ledger [OF 2(2)]] by (simp add: reverseTradeTx_def)
qed

lemma trade_reversal_restores_witness:
  "\<exists>r t r' t' q u. createFromLock dayKeys aliActor buyGold goldLock 10 None exchangeDb = Inr (r, t) \<and>
     approveTrade noTahesab (td_id r) None ''root'' t = Inr (r', t') \<and> reverseTrade (td_id r) None None t' = Inr (q, u) \<and>
     (\<forall>j. posted j u = posted j t) \<and> (\<exists>w. held w t = held w u + 60)"
proof -
  obtain r t r' t' q u where 1: "createFromLock dayKeys aliActor buyGold goldLock 10 None exchangeDb = Inr (r, t)"
    "findTrade (td_id r) t = Some r" "td_status r = TradeStatus.PENDING" "trades_ok t" "nothingPosted TxRefType.TRADE (td_id r) t"
    "approveTrade noTahesab (td_id r) None ''root'' t = Inr (r', t')" "reverseTrade (td_id r) None None t' = Inr (q, u)"
    "paidAmount r = 60"
    by (rule exchangeDb_create) blast
  from trade_reversal_restores [OF 1(2-7), of None None] 1(8) have "(\<forall>j. posted j u = posted j t) \<and> (\<exists>w. held w t = held w u + 60)"
    by auto
  with 1 show ?thesis by blast
qed

text \<open>
  As the code stands no trade can be created: consuming a quote lock evaluates a script whose call
  is commented out, so every request with a valid quantity and a quote fails with a \<open>TypeError\<close>, and a
  request without a quote fails too, whatever the tables hold.
\<close>

theorem no_trade_can_be_created:
  "isl (createTradeForUser st env pk actor dto key s) \<and>
   (0 < ct_quantity dto \<and> truthy (ct_quoteId dto) \<longrightarrow>
      createTradeForUser st env pk actor dto key s = Inl (TypeError ''status''))"
proof -
  have c: "consumeForUser i u = Inl (TypeError ''status'')" for i u
    by (simp add: consumeForUser_def evalConsume_def consumedPayload_def)
  have "isl (createWithLatestQuote st env pk actor dto (ct_quantity dto) key s)"
  proof (cases "createWithLatestQuote st env pk actor dto (ct_quantity dto) key s")
    case (Inr p)
    then show ?thesis
      by (cases p) (auto simp: createWithLatestQuote_def createWithQuoteLock_def c bindE_Inr_iff
          split: if_splits option.splits list.splits)
  qed simp
  then show ?thesis by (simp add: createTradeForUser_def createWithQuoteLock_def c Let_def)
qed

lemma no_trade_can_be_created_witness:
  "createTradeForUser noSettings coinMarket dayKeys aliActor buyGold None exchangeDb = Inl (TypeError ''status'')"
  using no_trade_can_be_created [of noSettings coinMarket dayKeys aliActor buyGold None exchangeDb] by (simp add: buyGold_def)

end
