(* ===== verification/Remittances.thy ===== *)
theory Remittances
  imports Trades
begin

text \<open>
  \<open>modules/remittances/remittances.service.ts\<close>: transfers between users. A single transfer is requested
  (the amount is reserved) and approved, rejected or cancelled; a group of legs is created and posted at
  once, and its legs may settle earlier remittances.
\<close>

section \<open>Single remittances\<close>

definition findRemittance :: "id \<Rightarrow> db \<Rightarrow> remittance option" where
  "findRemittance i s = findFirst (\<lambda>r. rm_id r = i) (remittances s)"

definition updateRemittance :: "remittance \<Rightarrow> db \<Rightarrow> remittance tx" where
  "updateRemittance r s =
     Inr (r, s\<lparr>remittances := updateRows (\<lambda>x. rm_id x = rm_id r) (\<lambda>_. r) (remittances s)\<rparr>)"

definition createRemittanceRow :: "remittance \<Rightarrow> db \<Rightarrow> remittance tx" where
  "createRemittanceRow r s =
     (if rm_idempotencyKey r \<noteq> None \<and> (\<exists>x\<in>set (remittances s). rm_fromUserId x = rm_fromUserId r \<and>
            rm_idempotencyKey x = rm_idempotencyKey r)
        then Inl (UniqueConstraintViolation ''Remittance'')
      else Inr (r, (bumpId s)\<lparr>remittances := remittances s @ [r]\<rparr>))"

definition findUserByMobile :: "string \<Rightarrow> db \<Rightarrow> user option" where
  "findUserByMobile mobile s = findFirst (\<lambda>u. us_mobile u = mobile) (users s)"

record createRemittanceDto =
  cr_toMobile :: string
  cr_instrumentCode :: string
  cr_amount :: decimal
  cr_note :: "string option"

definition remittanceLimitRequest :: "id \<Rightarrow> PolicyPeriod \<Rightarrow> decimal \<Rightarrow> instrument \<Rightarrow> id \<Rightarrow> limitRequest" where
  "remittanceLimitRequest userId period amount instrument refId =
     \<lparr>lq_userId = userId, lq_action = PolicyAction.REMITTANCE_SEND, lq_metric = PolicyMetric.NOTIONAL_IRR,
      lq_period = period, lq_amount = amount, lq_instrumentKey = None, lq_instrumentId = Some (in_id instrument),
      lq_instrumentType = None, lq_productId = None, lq_refType = TxRefType.REMITTANCE, lq_refId = refId\<rparr>"

definition newRemittance ::
  "id \<Rightarrow> id \<Rightarrow> createRemittanceDto \<Rightarrow> instrument \<Rightarrow> string option \<Rightarrow> db \<Rightarrow> remittance" where
  "newRemittance fromUserId toUserId dto instrument idempotencyKey s =
     \<lparr>rm_id = freshId s, rm_createdAt = db_now s, rm_idempotencyKey = idempotencyKey, rm_groupId = None,
      rm_fromUserId = fromUserId, rm_toUserId = toUserId, rm_onBehalfOfUserId = None,
      rm_instrumentId = in_id instrument, rm_amount = cr_amount dto, rm_note = cr_note dto,
      rm_channel = RemittanceChannel.INTERNAL, rm_iban = None, rm_cardLast4 = None, rm_externalPaymentRef = None,
      rm_status = RemittanceStatus.PENDING, rm_tahesabDocId = None, rm_fromAccountTxId = None,
      rm_toAccountTxId = None\<rparr>"

definition createRemittanceForUser ::
  "periodKeys \<Rightarrow> id \<Rightarrow> createRemittanceDto \<Rightarrow> string option \<Rightarrow> db \<Rightarrow> remittance tx" where
  "createRemittanceForUser pk fromUserId dto idempotencyKey s =
     (if cr_amount dto \<le> 0 then Inl (BadRequestException ''Amount must be positive'')
      else case findInstrument (cr_instrumentCode dto) s of
        None \<Rightarrow> Inl (NotFoundException ''Instrument not found'')
      | Some instrument \<Rightarrow>
        (case findUserByMobile (cr_toMobile dto) s of
           None \<Rightarrow> Inl (NotFoundException ''Destination user not found'')
         | Some toUser \<Rightarrow>
           (if us_id toUser = fromUserId then Inl (BadRequestException ''Cannot transfer to self'')
            else case (if truthy idempotencyKey
                then findFirst (\<lambda>r. rm_fromUserId r = fromUserId \<and> rm_idempotencyKey r = idempotencyKey) (remittances s)
                else None) of
              Some existing \<Rightarrow> Inr (existing, s)
            | None \<Rightarrow>
              bindE (createRemittanceRow (newRemittance fromUserId (us_id toUser) dto instrument idempotencyKey s) s)
                (\<lambda>remittance s.
              bindE (reserveLimit pk (remittanceLimitRequest fromUserId PolicyPeriod.DAILY (cr_amount dto) instrument
                       (rm_id remittance)) s) (\<lambda>_ s.
              bindE (reserveLimit pk (remittanceLimitRequest fromUserId PolicyPeriod.MONTHLY (cr_amount dto) instrument
                       (rm_id remittance)) s) (\<lambda>_ s.
              bindE (reserveFunds fromUserId (in_code instrument) (cr_amount dto) TxRefType.REMITTANCE
                       (rm_id remittance) s) (\<lambda>_ s. Inr (remittance, s))))))))"

definition remittanceCode :: "remittance \<Rightarrow> db \<Rightarrow> string" where
  "remittanceCode r s =
     (case findFirst (\<lambda>i. in_id i = rm_instrumentId r) (instruments s) of None \<Rightarrow> ''IRR'' | Some i \<Rightarrow> in_code i)"

definition approveRemittance :: "id \<Rightarrow> id \<Rightarrow> db \<Rightarrow> remittance tx" where
  "approveRemittance i adminId s =
     (case findRemittance i s of
        None \<Rightarrow> Inl (NotFoundException ''Remittance not found'')
      | Some r \<Rightarrow>
          (if rm_status r = RemittanceStatus.COMPLETED then Inr (r, s)
           else if rm_status r \<noteq> RemittanceStatus.PENDING then Inl (BadRequestException ''INVALID_STATUS'')
           else let amount = rm_amount r; code = remittanceCode r s
           in bindE (consumeFunds (rm_fromUserId r) code TxRefType.REMITTANCE (rm_id r) s) (\<lambda>_ s.
              bindE (getOrCreateAccount (rm_fromUserId r) code s) (\<lambda>fromAccount s.
              bindE (getOrCreateAccount (rm_toUserId r) code s) (\<lambda>toAccount s.
              bindE (applyTransaction (ac_id fromAccount) (- amount) AccountTxType.REMITTANCE TxRefType.REMITTANCE
                       (Some (rm_id r)) (Some adminId) None s) (\<lambda>fromTx s.
              bindE (applyTransaction (ac_id toAccount) amount AccountTxType.REMITTANCE TxRefType.REMITTANCE
                       (Some (rm_id r)) (Some adminId) None s) (\<lambda>toTx s.
              bindE (consumeLimit TxRefType.REMITTANCE (rm_id r) s) (\<lambda>_ s.
              updateRemittance (r\<lparr>rm_status := RemittanceStatus.COMPLETED,
                 rm_fromAccountTxId := Some (tx_id (fst fromTx)), rm_toAccountTxId := Some (tx_id (fst toTx))\<rparr>) s))))))))"

text \<open>The part \<open>reject\<close> and \<open>cancelByUser\<close> share, from the test of the status on.\<close>

definition closeRemittance :: "remittance \<Rightarrow> db \<Rightarrow> remittance tx" where
  "closeRemittance r s =
     (if rm_status r = RemittanceStatus.CANCELLED then Inr (r, s)
      else if rm_status r \<noteq> RemittanceStatus.PENDING then Inl (BadRequestException ''INVALID_STATUS'')
      else bindE (releaseLimit TxRefType.REMITTANCE (rm_id r) s) (\<lambda>_ s.
           bindE (releaseFunds (rm_fromUserId r) (remittanceCode r s) TxRefType.REMITTANCE (rm_id r) s) (\<lambda>_ s.
           updateRemittance (r\<lparr>rm_status := RemittanceStatus.CANCELLED\<rparr>) s)))"

definition rejectRemittance :: "id \<Rightarrow> db \<Rightarrow> remittance tx" where
  "rejectRemittance i s =
     (case findRemittance i s of
        None \<Rightarrow> Inl (NotFoundException ''Remittance not found'')
      | Some r \<Rightarrow> closeRemittance r s)"

definition cancelByUser :: "id \<Rightarrow> id \<Rightarrow> db \<Rightarrow> remittance tx" where
  "cancelByUser i userId s =
     (case findRemittance i s of
        None \<Rightarrow> Inl (NotFoundException ''Remittance not found'')
      | Some r \<Rightarrow> (if rm_fromUserId r \<noteq> userId then Inl (NotFoundException ''Remittance not found'')
                  else closeRemittance r s))"

section \<open>Reading\<close>

definition compareRemittancesDesc :: "remittance \<Rightarrow> remittance \<Rightarrow> int" where
  "compareRemittancesDesc a b = rm_createdAt b - rm_createdAt a"

definition findRemittancesByUser :: "id \<Rightarrow> db \<Rightarrow> remittance list" where
  "findRemittancesByUser userId s =
     sortBy compareRemittancesDesc
       (findMany (\<lambda>r. rm_fromUserId r = userId \<or> rm_toUserId r = userId) (remittances s))"

text \<open>The links of a remittance: \<open>settlementsAsLeg\<close> and \<open>settlementsAsSource\<close>.\<close>

definition linksAsLeg :: "id \<Rightarrow> db \<Rightarrow> settlementLink list" where
  "linksAsLeg i s = findMany (\<lambda>l. sl_legId l = i) (settlementLinks s)"

definition linksAsSource :: "id \<Rightarrow> db \<Rightarrow> settlementLink list" where
  "linksAsSource i s = findMany (\<lambda>l. sl_sourceRemittanceId l = i) (settlementLinks s)"

definition settledOf :: "id \<Rightarrow> db \<Rightarrow> decimal" where
  "settledOf i s = total sl_amount (linksAsSource i s)"

definition findOneWithSettlementsForUser ::
  "id \<Rightarrow> id \<Rightarrow> db \<Rightarrow> err + remittance \<times> (remittance option \<times> decimal) list \<times> (remittance option \<times> decimal) list" where
  "findOneWithSettlementsForUser remittanceId userId s =
     (case findRemittance remittanceId s of
        None \<Rightarrow> Inl (NotFoundException ''Remittance not found'')
      | Some r \<Rightarrow>
          (if rm_fromUserId r \<noteq> userId \<and> rm_toUserId r \<noteq> userId \<and> rm_onBehalfOfUserId r \<noteq> Some userId \<and>
              groupCreator r s \<noteq> Some userId
             then Inl (NotFoundException ''Remittance not found'')
           else Inr (r, map (\<lambda>l. (findRemittance (sl_sourceRemittanceId l) s, sl_amount l)) (linksAsLeg remittanceId s),
                     map (\<lambda>l. (findRemittance (sl_legId l) s, sl_amount l)) (linksAsSource remittanceId s))))"

datatype obligationDirection = INCOMING | OUTGOING | ON_BEHALF

record openObligation =
  oo_remittance :: remittance
  oo_settledAmount :: decimal
  oo_remainingAmount :: decimal
  oo_direction :: obligationDirection
  oo_counterpartyUserId :: id

definition obligationOf :: "id \<Rightarrow> db \<Rightarrow> remittance \<Rightarrow> openObligation" where
  "obligationOf userId s r =
     \<lparr>oo_remittance = r, oo_settledAmount = settledOf (rm_id r) s,
      oo_remainingAmount = rm_amount r - settledOf (rm_id r) s,
      oo_direction = (if truthy (rm_onBehalfOfUserId r) \<and> rm_onBehalfOfUserId r = Some userId then ON_BEHALF
                      else if rm_toUserId r = userId then INCOMING else OUTGOING),
      oo_counterpartyUserId = (if truthy (rm_onBehalfOfUserId r) \<and> rm_onBehalfOfUserId r = Some userId then rm_toUserId r
                      else if rm_toUserId r = userId then rm_fromUserId r else rm_toUserId r)\<rparr>"

definition findOpenObligationsForUser :: "id \<Rightarrow> db \<Rightarrow> openObligation list" where
  "findOpenObligationsForUser userId s =
     filter (\<lambda>ob. 0 < oo_remainingAmount ob)
       (map (obligationOf userId s)
         (sortBy compareRemittancesDesc
           (findMany (\<lambda>r. (rm_status r = RemittanceStatus.PENDING \<or> rm_status r = RemittanceStatus.PARTIAL) \<and>
               (rm_toUserId r = userId \<or> rm_fromUserId r = userId \<or> rm_onBehalfOfUserId r = Some userId))
             (remittances s))))"

record remittanceFilters =
  rf_status :: "RemittanceStatus option"
  rf_fromUserId :: "id option"
  rf_toUserId :: "id option"
  rf_createdFrom :: "time option"
  rf_createdTo :: "time option"

definition remittanceMatches :: "remittanceFilters \<Rightarrow> remittance \<Rightarrow> bool" where
  "remittanceMatches f r =
     ((case rf_status f of None \<Rightarrow> True | Some st \<Rightarrow> rm_status r = st) \<and>
      (case rf_fromUserId f of None \<Rightarrow> True | Some u \<Rightarrow> rm_fromUserId r = u) \<and>
      (case rf_toUserId f of None \<Rightarrow> True | Some u \<Rightarrow> rm_toUserId r = u) \<and>
      (case rf_createdFrom f of None \<Rightarrow> True | Some d \<Rightarrow> d \<le> rm_createdAt r) \<and>
      (case rf_createdTo f of None \<Rightarrow> True | Some d \<Rightarrow> rm_createdAt r \<le> d))"

definition adminListRemittances :: "remittanceFilters \<Rightarrow> rat \<Rightarrow> rat \<Rightarrow> db \<Rightarrow> remittance list \<times> nat" where
  "adminListRemittances f page pageLimit s =
     (let matching = findMany (remittanceMatches f) (remittances s)
      in (pageOf (sortBy compareRemittancesDesc matching) page pageLimit, length matching))"

section \<open>Groups of legs\<close>

record legSettlementInput =
  ls_remittanceId :: id
  ls_amount :: decimal
  ls_note :: "string option"

record legInput =
  li_toMobile :: string
  li_instrumentCode :: string
  li_amount :: decimal
  li_onBehalfOfMobile :: "string option"
  li_channel :: "string option"
  li_iban :: "string option"
  li_cardLast4 :: "string option"
  li_externalPaymentRef :: "string option"
  li_note :: "string option"
  li_settlements :: "legSettlementInput list option"

text \<open>\<open>Array.from(new Set(xs))\<close>: the first occurrences, in order.\<close>

fun uniqOf :: "'a list \<Rightarrow> 'a list" where
  "uniqOf [] = []"
| "uniqOf (x # xs) = x # uniqOf (filter (\<lambda>y. y \<noteq> x) xs)"

definition groupKinds :: "(string \<times> RemittanceGroupKind) list" where
  "groupKinds = [(''TRANSFER'', RemittanceGroupKind.TRANSFER), (''SETTLEMENT'', RemittanceGroupKind.SETTLEMENT),
     (''NETTING'', RemittanceGroupKind.NETTING), (''PASS_THROUGH'', RemittanceGroupKind.PASS_THROUGH),
     (''OTHER'', RemittanceGroupKind.OTHER)]"

definition channels :: "(string \<times> RemittanceChannel) list" where
  "channels = [(''INTERNAL'', RemittanceChannel.INTERNAL), (''CASH'', RemittanceChannel.CASH),
     (''BANK_TRANSFER'', RemittanceChannel.BANK_TRANSFER), (''CARD'', RemittanceChannel.CARD),
     (''MIXED'', RemittanceChannel.MIXED), (''OTHER'', RemittanceChannel.OTHER)]"

definition settlementsOf :: "legInput \<Rightarrow> legSettlementInput list" where
  "settlementsOf leg = withDefault (li_settlements leg) []"

definition resolveKind :: "string option \<Rightarrow> legInput list \<Rightarrow> err + RemittanceGroupKind" where
  "resolveKind explicitKind legs =
     (if truthy explicitKind
        then (case map_of groupKinds (the explicitKind) of
                None \<Rightarrow> Inl (BadRequestException ''Invalid remittance group kind'')
              | Some k \<Rightarrow> Inr k)
      else if list_ex (\<lambda>l. settlementsOf l \<noteq> []) legs then Inr RemittanceGroupKind.SETTLEMENT
      else if list_ex (\<lambda>l. truthy (li_onBehalfOfMobile l)) legs then Inr RemittanceGroupKind.PASS_THROUGH
      else Inr RemittanceGroupKind.TRANSFER)"

text \<open>The checks before the transaction; the first that fails throws.\<close>

definition checkLegs :: "id \<Rightarrow> legInput list \<Rightarrow> db \<Rightarrow> err option" where
  "checkLegs fromUserId legs s =
     (if legs = [] then Some (BadRequestException ''At least one leg is required'')
      else if list_ex (\<lambda>l. li_amount l \<le> 0) legs then Some (BadRequestException ''Amount must be positive'')
      else case findFirst (\<lambda>m. findUserByMobile m s = None) (map li_toMobile legs) of
        Some mobile \<Rightarrow> Some (NotFoundException (''Destination user with mobile '' @ mobile @ '' not found''))
      | None \<Rightarrow>
        (case findFirst (\<lambda>m. findUserByMobile m s = None)
                (map (\<lambda>l. the (li_onBehalfOfMobile l)) (filter (\<lambda>l. truthy (li_onBehalfOfMobile l)) legs)) of
           Some mobile \<Rightarrow> Some (NotFoundException (''On-behalf-of user not found for mobile: '' @ mobile))
         | None \<Rightarrow>
           (case findFirst (\<lambda>c. findInstrument c s = None) (map li_instrumentCode legs) of
              Some code \<Rightarrow> Some (NotFoundException (''Instrument '' @ code @ '' not found''))
            | None \<Rightarrow>
                (if list_ex (\<lambda>l. map_option us_id (findUserByMobile (li_toMobile l) s) = Some fromUserId) legs
                   then Some (BadRequestException ''Cannot transfer to self'') else None))))"

definition totalForInstrument :: "string \<Rightarrow> legInput list \<Rightarrow> decimal" where
  "totalForInstrument code legs = total li_amount (filter (\<lambda>l. li_instrumentCode l = code) legs)"

text \<open>
  The accounts of the sender: one per instrument, checked against the sum of the legs. The maps of
  accounts the source keeps answer what fetching the account again answers; only its id is used later.
\<close>

definition checkSender :: "id \<Rightarrow> legInput list \<Rightarrow> db \<Rightarrow> unit tx" where
  "checkSender fromUserId legs s =
     forE (uniqOf (map li_instrumentCode legs)) (\<lambda>code s.
       bindE (getOrCreateAccount fromUserId code s) (\<lambda>account s.
       if getUsableCapacity account < totalForInstrument code legs
         then Inl (InsufficientCreditException ''Insufficient balance for remittance'')
       else Inr ((), s))) s"

record pendingLeg =
  pl_remittance :: remittance
  pl_fromAccount :: id
  pl_toAccount :: id

definition newLeg ::
  "id \<Rightarrow> id \<Rightarrow> id \<Rightarrow> id option \<Rightarrow> instrument \<Rightarrow> RemittanceChannel \<Rightarrow> legInput \<Rightarrow> db \<Rightarrow> remittance" where
  "newLeg groupId fromUserId toUserId onBehalfOfUserId instrument channel leg s =
     \<lparr>rm_id = freshId s, rm_createdAt = db_now s, rm_idempotencyKey = None, rm_groupId = Some groupId,
      rm_fromUserId = fromUserId, rm_toUserId = toUserId, rm_onBehalfOfUserId = onBehalfOfUserId,
      rm_instrumentId = in_id instrument, rm_amount = li_amount leg, rm_note = li_note leg,
      rm_channel = channel, rm_iban = li_iban leg, rm_cardLast4 = li_cardLast4 leg,
      rm_externalPaymentRef = li_externalPaymentRef leg, rm_status = RemittanceStatus.PENDING,
      rm_tahesabDocId = None, rm_fromAccountTxId = None, rm_toAccountTxId = None\<rparr>"

definition createLeg :: "id \<Rightarrow> id \<Rightarrow> legInput \<Rightarrow> db \<Rightarrow> pendingLeg tx" where
  "createLeg groupId fromUserId leg s =
     (let toUserId = us_id (the (findUserByMobile (li_toMobile leg) s));
          instrument = the (findInstrument (li_instrumentCode leg) s);
          onBehalfOfUserId = (if truthy (li_onBehalfOfMobile leg)
            then map_option us_id (findUserByMobile (the (li_onBehalfOfMobile leg)) s) else None)
      in bindE (getOrCreateAccount fromUserId (li_instrumentCode leg) s) (\<lambda>fromAccount s.
         bindE (getOrCreateAccount toUserId (li_instrumentCode leg) s) (\<lambda>toAccount s.
         if truthy (li_channel leg) \<and> map_of channels (the (li_channel leg)) = None
           then Inl (BadRequestException ''Invalid remittance channel'')
         else let channel = (if truthy (li_channel leg) then the (map_of channels (the (li_channel leg)))
                             else RemittanceChannel.INTERNAL)
         in bindE (createRemittanceRow (newLeg groupId fromUserId toUserId onBehalfOfUserId instrument channel leg s) s) (\<lambda>remittance s.
            Inr (\<lparr>pl_remittance = remittance, pl_fromAccount = ac_id fromAccount, pl_toAccount = ac_id toAccount\<rparr>, s)))))"

definition postLeg :: "id \<Rightarrow> pendingLeg \<Rightarrow> db \<Rightarrow> remittance tx" where
  "postLeg fromUserId leg s =
     (let r = pl_remittance leg; amount = rm_amount r
      in bindE (applyTransaction (pl_fromAccount leg) (- amount) AccountTxType.REMITTANCE TxRefType.REMITTANCE
                  (Some (rm_id r)) (Some fromUserId) None s) (\<lambda>fromTx s.
         bindE (applyTransaction (pl_toAccount leg) amount AccountTxType.REMITTANCE TxRefType.REMITTANCE
                  (Some (rm_id r)) (Some fromUserId) None s) (\<lambda>toTx s.
         updateRemittance (r\<lparr>rm_fromAccountTxId := Some (tx_id (fst fromTx)),
            rm_toAccountTxId := Some (tx_id (fst toTx)), rm_status := RemittanceStatus.COMPLETED\<rparr>) s)))"

text \<open>
  The settlements. The running totals are maps in the source: what each source remittance has been
  settled by, starting from the links in the database, and what each leg has settled so far.
\<close>

record settlementTotals =
  tt_bySource :: "id \<Rightarrow> decimal"
  tt_byLeg :: "id \<Rightarrow> decimal"

definition createSettlementLink :: "settlementLink \<Rightarrow> db \<Rightarrow> db" where
  "createSettlementLink l s = (bumpId s)\<lparr>settlementLinks := settlementLinks s @ [l]\<rparr>"

definition settleOne ::
  "db \<Rightarrow> remittance \<times> legSettlementInput \<Rightarrow> settlementTotals \<Rightarrow> db \<Rightarrow> settlementTotals tx" where
  "settleOne s0 item t s =
     (let leg = fst item; inp = snd item; amount = ls_amount inp; source = the (findRemittance (ls_remittanceId inp) s0)
      in if amount \<le> 0 then Inl (BadRequestException ''Settlement amount must be positive'')
      else if rm_instrumentId source \<noteq> rm_instrumentId leg
        then Inl (BadRequestException ''Settlement instrument mismatch'')
      else let newLegTotal = tt_byLeg t (rm_id leg) + amount
      in if rm_amount leg < newLegTotal
        then Inl (BadRequestException (''Settlement amount exceeds leg amount for leg '' @ rm_id leg))
      else let currentSettled = tt_bySource t (rm_id source); remaining = rm_amount source - currentSettled
      in if remaining \<le> 0
        then Inl (BadRequestException (''Remittance '' @ rm_id source @ '' is already fully settled''))
      else if remaining < amount
        then Inl (BadRequestException (''Settlement amount exceeds remaining balance of remittance '' @ rm_id source))
      else let updatedSettled = currentSettled + amount;
               status = (if updatedSettled = rm_amount source then RemittanceStatus.COMPLETED else RemittanceStatus.PARTIAL);
               s = createSettlementLink \<lparr>sl_id = freshId s, sl_legId = rm_id leg, sl_sourceRemittanceId = rm_id source,
                     sl_amount = amount, sl_note = ls_note inp\<rparr> s
      in Inr (\<lparr>tt_bySource = (tt_bySource t)(rm_id source := updatedSettled),
               tt_byLeg = (tt_byLeg t)(rm_id leg := newLegTotal)\<rparr>,
              s\<lparr>remittances := updateRows (\<lambda>r. rm_id r = rm_id source) (\<lambda>r. r\<lparr>rm_status := status\<rparr>) (remittances s)\<rparr>))"

definition settleLegs :: "(remittance \<times> legSettlementInput) list \<Rightarrow> db \<Rightarrow> unit tx" where
  "settleLegs items s =
     (if items = [] then Inr ((), s)
      else case findFirst (\<lambda>i. findRemittance i s = None) (map (\<lambda>it. ls_remittanceId (snd it)) items) of
        Some sourceId \<Rightarrow> Inl (NotFoundException (''Source remittance not found: '' @ sourceId))
      | None \<Rightarrow> bindE (foldE items (settleOne s)
                  \<lparr>tt_bySource = (\<lambda>i. settledOf i s), tt_byLeg = (\<lambda>_. 0)\<rparr> s) (\<lambda>_ s. Inr ((), s)))"

definition createGroupTx ::
  "id \<Rightarrow> legInput list \<Rightarrow> string option \<Rightarrow> RemittanceGroupKind \<Rightarrow> db \<Rightarrow> (remittanceGroup \<times> remittance list) tx" where
  "createGroupTx fromUserId legs groupNote kind s =
     (let grp = \<lparr>rg_id = freshId s, rg_createdByUserId = fromUserId, rg_note = groupNote, rg_kind = kind,
                 rg_status = RemittanceGroupStatus.OPEN, rg_tahesabDocId = None\<rparr>
      in bindE (checkSender fromUserId legs ((bumpId s)\<lparr>remittanceGroups := remittanceGroups s @ [grp]\<rparr>)) (\<lambda>_ s.
         bindE (mapE legs (createLeg (rg_id grp) fromUserId) s) (\<lambda>pendingLegs s.
         bindE (mapE pendingLegs (postLeg fromUserId) s) (\<lambda>legsCreated s.
         bindE (settleLegs (concat (map2 (\<lambda>leg inp. map (\<lambda>st. (leg, st)) (settlementsOf inp)) legsCreated legs)) s) (\<lambda>_ s.
         let closed = grp\<lparr>rg_status := RemittanceGroupStatus.CLOSED\<rparr>;
             s = s\<lparr>remittanceGroups := updateRows (\<lambda>g. rg_id g = rg_id grp) (\<lambda>_. closed) (remittanceGroups s)\<rparr>
         in Inr ((closed, findMany (\<lambda>r. rm_id r \<in> rm_id ` set legsCreated) (remittances s)), s))))))"

definition enqueueLeg :: "tahesabConfig \<Rightarrow> remittanceGroup \<Rightarrow> remittance \<Rightarrow> db \<Rightarrow> unit tx" where
  "enqueueLeg cfg grp leg s =
     (case (instrumentById (rm_instrumentId leg) s, findUser (rm_fromUserId leg) s, findUser (rm_toUserId leg) s) of
        (Some instrument, Some fromUser, Some toUser) \<Rightarrow>
          enqueueRemittanceLeg cfg leg (Some grp) instrument fromUser toUser
            (map (\<lambda>l. (sl_sourceRemittanceId l, sl_amount l)) (linksAsLeg (rm_id leg) s)) s
      | _ \<Rightarrow> Inr ((), s))"

definition createGroupForUser ::
  "tahesabConfig \<Rightarrow> id \<Rightarrow> legInput list \<Rightarrow> string option \<Rightarrow> string option \<Rightarrow> db \<Rightarrow>
   (remittanceGroup \<times> remittance list) tx" where
  "createGroupForUser cfg fromUserId legs groupNote explicitKind s =
     (case checkLegs fromUserId legs s of
        Some e \<Rightarrow> Inl e
      | None \<Rightarrow>
        (case resolveKind explicitKind legs of
           Inl e \<Rightarrow> Inl e
         | Inr kind \<Rightarrow>
             bindE (createGroupTx fromUserId legs groupNote kind s) (\<lambda>result s.
             bindE (forE (snd result) (enqueueLeg cfg (fst result)) s) (\<lambda>_ s. Inr (result, s)))))"

section \<open>Steps that leave the requests alone\<close>

definition still :: "db \<Rightarrow> db \<Rightarrow> bool" where
  "still s t \<longleftrightarrow> sameRows s t \<and> db_seq s \<le> db_seq t"

lemma still_refl [simp]: "still s s"
  by (simp add: still_def)

lemma still_trans: "still s t \<Longrightarrow> still t u \<Longrightarrow> still s u"
  by (auto simp: still_def intro: sameRows_trans)

lemma still_wallet: "walletFrame s t \<Longrightarrow> still s t"
  by (simp add: still_def sameRows_wallet) (simp add: walletFrame_def)

lemma still_side: "side s t \<Longrightarrow> still s t"
  by (simp add: still_def sameRows_side side_sel)

lemmas still_steps =
  still_wallet [OF holdsE_D [OF getOrCreateAccount_frame]] still_wallet [OF holdsE_D [OF reserveFunds_frame]]
  still_wallet [OF holdsE_D [OF releaseFunds_frame]] still_wallet [OF holdsE_D [OF consumeFunds_frame]]
  still_wallet [OF holdsE_D [OF applyTransaction_frame]] still_side [OF holdsE_D [OF side_reserveLimit]]
  still_side [OF holdsE_D [OF side_consumeLimit]] still_side [OF holdsE_D [OF side_releaseLimit]]

lemma still_sel:
  assumes "still s t"
  shows "db_gen t = db_gen s" "db_now t = db_now s" "instruments t = instruments s" "remittances t = remittances s"
    "settlementLinks t = settlementLinks s" "db_seq s \<le> db_seq t" "remittanceGroups t = remittanceGroups s"
  using assms by (simp_all add: still_def sameRows_sel)

section \<open>The settlements\<close>

text \<open>What a remittance, as a leg, has settled of others; and the amounts, which no operation changes.\<close>

definition legSettled :: "id \<Rightarrow> db \<Rightarrow> decimal" where
  "legSettled i s = total sl_amount (linksAsLeg i s)"

definition amountsOf :: "db \<Rightarrow> (id \<times> decimal) list" where
  "amountsOf s = map (\<lambda>r. (rm_id r, rm_amount r)) (remittances s)"

text \<open>
  The status says how far a remittance is settled: nothing is settled of one whose status was never
  changed by a settlement, and one that is settled is complete exactly when the whole of it is.
\<close>

definition settlements_ok :: "db \<Rightarrow> bool" where
  "settlements_ok s \<longleftrightarrow> keys_ok s (map rm_id (remittances s)) \<and>
     (\<forall>l\<in>set (settlementLinks s). 0 < sl_amount l \<and> sl_legId l \<in> rm_id ` set (remittances s) \<and>
        sl_sourceRemittanceId l \<in> rm_id ` set (remittances s)) \<and>
     (\<forall>r\<in>set (remittances s). 0 < rm_amount r \<and> settledOf (rm_id r) s \<le> rm_amount r \<and>
        legSettled (rm_id r) s \<le> rm_amount r \<and>
        (settledOf (rm_id r) s \<noteq> 0 \<longrightarrow> rm_status r =
           (if settledOf (rm_id r) s = rm_amount r then RemittanceStatus.COMPLETED else RemittanceStatus.PARTIAL)))"

lemma settlements_okD:
  assumes "settlements_ok s"
  shows "keys_ok s (map rm_id (remittances s))"
    "\<And>l. l \<in> set (settlementLinks s) \<Longrightarrow> 0 < sl_amount l \<and> sl_legId l \<in> rm_id ` set (remittances s) \<and>
       sl_sourceRemittanceId l \<in> rm_id ` set (remittances s)"
    "\<And>r. r \<in> set (remittances s) \<Longrightarrow> 0 < rm_amount r \<and> settledOf (rm_id r) s \<le> rm_amount r \<and>
       legSettled (rm_id r) s \<le> rm_amount r \<and>
       (settledOf (rm_id r) s \<noteq> 0 \<longrightarrow> rm_status r =
           (if settledOf (rm_id r) s = rm_amount r then RemittanceStatus.COMPLETED else RemittanceStatus.PARTIAL))"
  using assms unfolding settlements_ok_def by blast+

lemma settled_cong:
  "settlementLinks t = settlementLinks s \<Longrightarrow> settledOf i t = settledOf i s \<and> legSettled i t = legSettled i s"
  by (simp add: settledOf_def legSettled_def linksAsSource_def linksAsLeg_def)

lemma settled_nonneg:
  assumes "settlements_ok s"
  shows "0 \<le> settledOf i s" "0 \<le> legSettled i s"
  unfolding settledOf_def legSettled_def linksAsSource_def linksAsLeg_def
  by (rule total_nonneg; use settlements_okD(2) [OF assms] in \<open>force simp: less_imp_le\<close>)+

lemma settled_unknown:
  assumes "settlements_ok s" and "i \<notin> rm_id ` set (remittances s)"
  shows "settledOf i s = 0" "legSettled i s = 0"
  unfolding settledOf_def legSettled_def linksAsSource_def linksAsLeg_def
  by (rule total_zero; use settlements_okD(2) [OF assms(1)] assms(2) in auto)+

lemma settlements_ok_still: "settlements_ok s \<Longrightarrow> still s t \<Longrightarrow> settlements_ok t"
  using still_sel(4-5) [of s t] settled_cong [of t s] still_sel(1,6) [of s t]
  by (force simp: settlements_ok_def keys_ok_def)

text \<open>A row nothing is settled of may take any status; a new row has a new identifier and an amount.\<close>

lemma settlements_ok_status:
  assumes ok: "settlements_ok s" and r: "settledOf (rm_id r) s = 0"
      "\<And>x. x \<in> set (remittances s) \<Longrightarrow> rm_id x = rm_id r \<Longrightarrow> rm_amount r = rm_amount x"
    and t: "remittances t = updateRows (\<lambda>x. rm_id x = rm_id r) (\<lambda>_. r) (remittances s)"
      "settlementLinks t = settlementLinks s" "db_gen t = db_gen s" "db_seq t = db_seq s"
  shows "settlements_ok t" "amountsOf t = amountsOf s"
proof -
  have keys: "map rm_id (remittances t) = map rm_id (remittances s)"
    unfolding t(1) by (rule map_updateRows) simp
  then have ids: "rm_id ` set (remittances t) = rm_id ` set (remittances s)" by (metis set_map)
  note same = settled_cong [OF t(2)]
  have "0 < rm_amount x \<and> settledOf (rm_id x) t \<le> rm_amount x \<and> legSettled (rm_id x) t \<le> rm_amount x \<and>
       (settledOf (rm_id x) t \<noteq> 0 \<longrightarrow> rm_status x =
           (if settledOf (rm_id x) t = rm_amount x then RemittanceStatus.COMPLETED else RemittanceStatus.PARTIAL))"
    if x: "x \<in> set (remittances t)" for x
  proof (cases "x \<in> set (remittances s)")
    case True
    then show ?thesis using settlements_okD(3) [OF ok, of x] by (simp add: same)
  next
    case False
    then obtain y where y: "y \<in> set (remittances s)" "rm_id y = rm_id r" "x = r"
      using x unfolding t(1) set_updateRows by (auto split: if_splits)
    then show ?thesis using settlements_okD(3) [OF ok y(1)] r(1) r(2) [OF y(1,2)] by (simp add: same)
  qed
  moreover have "keys_ok t (map rm_id (remittances t))"
    using settlements_okD(1) [OF ok] unfolding keys keys_ok_cong [OF t(3,4)] .
  ultimately show "settlements_ok t"
    using settlements_okD(2) [OF ok] unfolding settlements_ok_def ids t(2) by blast
  show "amountsOf t = amountsOf s"
    using r(2) by (auto simp: amountsOf_def t(1) updateRows_def)
qed

lemma settlements_ok_add:
  assumes ok: "settlements_ok s" and r: "rm_id r = freshId s" "0 < rm_amount r"
  shows "settlements_ok ((bumpId s)\<lparr>remittances := remittances s @ [r]\<rparr>)"
proof -
  have new: "rm_id r \<notin> rm_id ` set (remittances s)" using freshId_notin [OF settlements_okD(1) [OF ok]] r(1) by simp
  let ?t = "(bumpId s)\<lparr>remittances := remittances s @ [r]\<rparr>"
  have t: "settlementLinks ?t = settlementLinks s" "remittances ?t = remittances s @ [r]" by (simp_all add: bumpId_def)
  have "keys_ok ?t (map rm_id (remittances ?t))"
    using keys_ok_snoc [OF settlements_okD(1) [OF ok]] keys_ok_cong [of ?t "bumpId s"] r(1) by (simp add: bumpId_def)
  moreover have "settledOf (rm_id r) ?t = 0" "legSettled (rm_id r) ?t = 0"
    using settled_unknown [OF ok new] settled_cong [OF t(1)] by simp_all
  ultimately show ?thesis
    using settlements_okD(2,3) [OF ok] r(2) unfolding settlements_ok_def t by (simp add: settled_cong [OF t(1)])
qed

text \<open>\<open>untouched r\<close>: the row is there with its amount, and no link mentions it.\<close>

definition untouched :: "remittance \<Rightarrow> db \<Rightarrow> bool" where
  "untouched r s \<longleftrightarrow> (rm_id r, rm_amount r) \<in> set (amountsOf s) \<and> settledOf (rm_id r) s = 0 \<and> legSettled (rm_id r) s = 0"

lemma untouched_mono:
  "untouched r s \<Longrightarrow> settlementLinks t = settlementLinks s \<Longrightarrow> set (amountsOf s) \<subseteq> set (amountsOf t) \<Longrightarrow> untouched r t"
  using settled_cong [of t s] by (auto simp: untouched_def)

lemma untouched_still: "untouched r s \<Longrightarrow> still s t \<Longrightarrow> untouched r t"
  by (rule untouched_mono) (auto simp: amountsOf_def still_sel)

lemma amountsOf_unique:
  assumes "settlements_ok s" and "(i, a) \<in> set (amountsOf s)" and "r \<in> set (remittances s)" and "rm_id r = i"
  shows "rm_amount r = a"
proof -
  from assms(2) obtain x where x: "x \<in> set (remittances s)" "rm_id x = i" "rm_amount x = a" by (auto simp: amountsOf_def)
  have "distinct (map rm_id (remittances s))" using settlements_okD(1) [OF assms(1)] by (simp add: keys_ok_def)
  then have "x = r" using x(1,2) assms(3,4) by (metis distinct_map inj_onD)
  then show ?thesis using x(3) by simp
qed

text \<open>The rows of a group: created, posted, and settled.\<close>

lemma createLeg_settlements:
  assumes ok: "settlements_ok s" and amt: "0 < li_amount leg" and run: "createLeg g u leg s = Inr (pl, t)"
  shows "settlements_ok t" "untouched (pl_remittance pl) t" "\<And>r. untouched r s \<Longrightarrow> untouched r t"
proof -
  obtain to ob ins ch a s1 b s2 s3 where 1: "getOrCreateAccount u (li_instrumentCode leg) s = Inr (a, s1)"
    "getOrCreateAccount to (li_instrumentCode leg) s1 = Inr (b, s2)"
    "createRemittanceRow (newLeg g u to ob ins ch leg s2) s2 = Inr (pl_remittance pl, t)"
    using run unfolding createLeg_def Let_def
    by (elim bindE_elim) (auto split: if_splits elim!: bindE_elim)
  note st = still_trans [OF still_steps(1) [OF 1(1)] still_steps(1) [OF 1(2)]]
  let ?r = "pl_remittance pl"
  have r: "?r = newLeg g u to ob ins ch leg s2" "t = (bumpId s2)\<lparr>remittances := remittances s2 @ [?r]\<rparr>"
    using 1(3) by (auto simp: createRemittanceRow_def newLeg_def)
  have id: "rm_id ?r = freshId s2" "0 < rm_amount ?r" using amt by (simp_all add: r(1) newLeg_def)
  note ok2 = settlements_ok_still [OF ok st]
  show "settlements_ok t" unfolding r(2) by (rule settlements_ok_add [OF ok2 id])
  have links: "settlementLinks t = settlementLinks s2" by (simp add: r(2) bumpId_def)
  have am: "amountsOf t = amountsOf s2 @ [(rm_id ?r, rm_amount ?r)]" by (subst r(2)) (simp add: amountsOf_def)
  then have sub: "set (amountsOf s2) \<subseteq> set (amountsOf t)" by auto
  have "rm_id ?r \<notin> rm_id ` set (remittances s2)"
    using freshId_notin [OF settlements_okD(1) [OF ok2]] id(1) by simp
  from settled_unknown [OF ok2 this] show "untouched ?r t"
    by (simp add: untouched_def am settled_cong [OF links])
  show "untouched r t" if "untouched r s" for r
    by (rule untouched_mono [OF untouched_still [OF that st] links sub])
qed

lemma createLegs_settlements:
  assumes "settlements_ok s" and "\<And>l. l \<in> set legs \<Longrightarrow> 0 < li_amount l" and "mapE legs (createLeg g u) s = Inr (pls, t)"
  shows "settlements_ok t \<and> (\<forall>p\<in>set pls. untouched (pl_remittance p) t) \<and> (\<forall>r. untouched r s \<longrightarrow> untouched r t)"
  using assms
proof (induction legs arbitrary: s pls)
  case (Cons leg legs)
  obtain p s1 ps where 1: "createLeg g u leg s = Inr (p, s1)" "mapE legs (createLeg g u) s1 = Inr (ps, t)" "pls = p # ps"
    using Cons.prems(3) by (auto elim!: bindE_elim)
  have amt: "0 < li_amount leg" using Cons.prems(2) by simp
  note c = createLeg_settlements [OF Cons.prems(1) amt 1(1)]
  show ?case using Cons.IH [OF c(1) _ 1(2)] Cons.prems(2) c(2,3) by (simp add: 1(3))
qed simp

lemma updateRemittance_untouched:
  assumes ok: "settlements_ok s" and r: "untouched r s" "rm_id r' = rm_id r" "rm_amount r' = rm_amount r"
    and run: "updateRemittance r' s = Inr (q, t)"
  shows "settlements_ok t" "\<And>x. untouched x s \<Longrightarrow> untouched x t" "untouched q t"
proof -
  have t: "q = r'" "remittances t = updateRows (\<lambda>x. rm_id x = rm_id r') (\<lambda>_. r') (remittances s)"
    "settlementLinks t = settlementLinks s" "db_gen t = db_gen s" "db_seq t = db_seq s"
    using run by (auto simp: updateRemittance_def)
  have z: "settledOf (rm_id r') s = 0" using r(1,2) by (simp add: untouched_def)
  have am: "rm_amount r' = rm_amount x" if "x \<in> set (remittances s)" "rm_id x = rm_id r'" for x
    using amountsOf_unique [OF ok, of "rm_id r" "rm_amount r" x] that r by (simp add: untouched_def)
  note st = settlements_ok_status [OF ok z am t(2-5)]
  show "settlements_ok t" by (rule st(1))
  show un: "untouched x t" if "untouched x s" for x by (rule untouched_mono [OF that t(3)]) (simp add: st(2))
  show "untouched q t" using un [OF r(1)] r(2,3) by (simp add: t(1) untouched_def)
qed

lemma postLeg_settlements:
  assumes ok: "settlements_ok s" and p: "untouched (pl_remittance p) s" and run: "postLeg u p s = Inr (q, t)"
  shows "settlements_ok t" "untouched q t" "\<And>r. untouched r s \<Longrightarrow> untouched r t"
proof -
  let ?r = "pl_remittance p"
  obtain x s1 y s2 where 1: "applyTransaction (pl_fromAccount p) (- rm_amount ?r) AccountTxType.REMITTANCE TxRefType.REMITTANCE
                  (Some (rm_id ?r)) (Some u) None s = Inr (x, s1)"
    "applyTransaction (pl_toAccount p) (rm_amount ?r) AccountTxType.REMITTANCE TxRefType.REMITTANCE
                  (Some (rm_id ?r)) (Some u) None s1 = Inr (y, s2)"
    "updateRemittance (?r\<lparr>rm_fromAccountTxId := Some (tx_id (fst x)), rm_toAccountTxId := Some (tx_id (fst y)),
       rm_status := RemittanceStatus.COMPLETED\<rparr>) s2 = Inr (q, t)"
    using run unfolding postLeg_def Let_def by (elim bindE_elim)
  note st = still_trans [OF still_steps(5) [OF 1(1)] still_steps(5) [OF 1(2)]]
  note c = updateRemittance_untouched [OF settlements_ok_still [OF ok st] untouched_still [OF p st] _ _ 1(3)]
  show "settlements_ok t" "untouched q t" using c by simp_all
  show "untouched r t" if "untouched r s" for r using c(2) untouched_still [OF that st] by simp
qed

lemma postLegs_settlements:
  assumes "settlements_ok s" and "\<And>p. p \<in> set pls \<Longrightarrow> untouched (pl_remittance p) s"
    and "mapE pls (postLeg u) s = Inr (qs, t)"
  shows "settlements_ok t \<and> (\<forall>q\<in>set qs. untouched q t) \<and> (\<forall>r. untouched r s \<longrightarrow> untouched r t)"
  using assms
proof (induction pls arbitrary: s qs)
  case (Cons p pls)
  obtain q s1 ps where 1: "postLeg u p s = Inr (q, s1)" "mapE pls (postLeg u) s1 = Inr (ps, t)" "qs = q # ps"
    using Cons.prems(3) by (auto elim!: bindE_elim)
  have un: "untouched (pl_remittance p) s" using Cons.prems(2) by simp
  note c = postLeg_settlements [OF Cons.prems(1) un 1(1)]
  show ?case using Cons.IH [OF c(1) _ 1(2)] Cons.prems(2) c(2,3) by (simp add: 1(3))
qed simp

text \<open>The invariant of the loop over the settlements; \<open>L\<close> are the legs of the group.\<close>

definition settling :: "id set \<Rightarrow> db \<Rightarrow> (remittance \<times> legSettlementInput) list \<Rightarrow> settlementTotals \<Rightarrow> db \<Rightarrow> bool" where
  "settling L s0 items tt s \<longleftrightarrow> settlements_ok s \<and> amountsOf s = amountsOf s0 \<and>
     (\<forall>i. tt_bySource tt i = settledOf i s) \<and> (\<forall>j\<in>L. tt_byLeg tt j = legSettled j s) \<and>
     (\<forall>(leg, inp)\<in>set items. rm_id leg \<in> L \<and> (rm_id leg, rm_amount leg) \<in> set (amountsOf s0) \<and>
        findRemittance (ls_remittanceId inp) s0 \<noteq> None)"

lemma findRemittance_SomeD: "findRemittance i s = Some r \<Longrightarrow> r \<in> set (remittances s) \<and> rm_id r = i"
  unfolding findRemittance_def by (rule find_SomeD)

lemma settleOne_settling:
  assumes "settling L s0 (it # items) tt s" and "settleOne s0 it tt s = Inr (tt', t)"
  shows "settling L s0 items tt' t"
proof -
  obtain leg inp where it: "it = (leg, inp)" by (cases it)
  let ?a = "ls_amount inp"
  have inv: "settlements_ok s" "amountsOf s = amountsOf s0" "\<And>i. tt_bySource tt i = settledOf i s"
    "\<And>j. j \<in> L \<Longrightarrow> tt_byLeg tt j = legSettled j s" "rm_id leg \<in> L" "(rm_id leg, rm_amount leg) \<in> set (amountsOf s)"
    and rest: "\<forall>(leg, inp)\<in>set items. rm_id leg \<in> L \<and> (rm_id leg, rm_amount leg) \<in> set (amountsOf s0) \<and>
        findRemittance (ls_remittanceId inp) s0 \<noteq> None"
    using assms(1) by (auto simp: settling_def it)
  obtain src where src: "findRemittance (ls_remittanceId inp) s0 = Some src"
    using assms(1) by (auto simp: settling_def it)
  then have srcA: "(rm_id src, rm_amount src) \<in> set (amountsOf s)"
    using findRemittance_SomeD [OF src] unfolding inv(2) unfolding amountsOf_def set_map by (intro image_eqI [of _ _ src]) simp_all
  let ?new = "settledOf (rm_id src) s + ?a"
  let ?st = "if ?new = rm_amount src then RemittanceStatus.COMPLETED else RemittanceStatus.PARTIAL"
  let ?l = "\<lparr>sl_id = freshId s, sl_legId = rm_id leg, sl_sourceRemittanceId = rm_id src, sl_amount = ?a, sl_note = ls_note inp\<rparr>"
  have g: "0 < ?a" "legSettled (rm_id leg) s + ?a \<le> rm_amount leg" "?new \<le> rm_amount src"
    and tt': "tt' = \<lparr>tt_bySource = (tt_bySource tt)(rm_id src := ?new),
       tt_byLeg = (tt_byLeg tt)(rm_id leg := legSettled (rm_id leg) s + ?a)\<rparr>"
    and t: "remittances t = updateRows (\<lambda>r. rm_id r = rm_id src) (\<lambda>r. r\<lparr>rm_status := ?st\<rparr>) (remittances s)"
      "settlementLinks t = settlementLinks s @ [?l]" "db_gen t = db_gen s" "db_seq t = Suc (db_seq s)"
    using assms(2) src inv(3) inv(4) [OF inv(5)]
    by (auto simp: settleOne_def it Let_def createSettlementLink_def bumpId_def split: if_splits)
  have src': "settledOf i t = settledOf i s + (if i = rm_id src then ?a else 0)"
    "legSettled i t = legSettled i s + (if i = rm_id leg then ?a else 0)" for i
    by (auto simp: settledOf_def legSettled_def linksAsSource_def linksAsLeg_def t(2))
  have keys: "map rm_id (remittances t) = map rm_id (remittances s)" unfolding t(1) by (rule map_updateRows) simp
  then have ids: "rm_id ` set (remittances t) = rm_id ` set (remittances s)" by (metis set_map)
  have am: "amountsOf t = amountsOf s" by (auto simp: amountsOf_def t(1) updateRows_def)
  have known: "rm_id leg \<in> rm_id ` set (remittances s)" "rm_id src \<in> rm_id ` set (remittances s)"
    using inv(6) srcA by (auto simp: amountsOf_def)
  have row: "0 < rm_amount x \<and> settledOf (rm_id x) t \<le> rm_amount x \<and> legSettled (rm_id x) t \<le> rm_amount x \<and>
        (settledOf (rm_id x) t \<noteq> 0 \<longrightarrow> rm_status x =
           (if settledOf (rm_id x) t = rm_amount x then RemittanceStatus.COMPLETED else RemittanceStatus.PARTIAL))"
    if x: "x \<in> set (remittances t)" for x
  proof -
    from x obtain y where y: "y \<in> set (remittances s)" "rm_id x = rm_id y" "rm_amount x = rm_amount y"
      "rm_status x = (if rm_id y = rm_id src then ?st else rm_status y)"
      unfolding t(1) set_updateRows by (auto split: if_splits)
    have "rm_id y = rm_id src \<Longrightarrow> rm_amount y = rm_amount src" "rm_id y = rm_id leg \<Longrightarrow> rm_amount y = rm_amount leg"
      using amountsOf_unique [OF inv(1) srcA y(1)] amountsOf_unique [OF inv(1) inv(6) y(1)] by simp_all
    then show ?thesis using settlements_okD(3) [OF inv(1) y(1)] g y(2-4) by (auto simp: src')
  qed
  have "keys_ok t (map rm_id (remittances t))"
    using keys_ok_bump [OF settlements_okD(1) [OF inv(1)]] keys_ok_cong [of t "bumpId s"] t(3,4)
    unfolding keys by (simp add: bumpId_def)
  moreover have "\<forall>l\<in>set (settlementLinks t). 0 < sl_amount l \<and> sl_legId l \<in> rm_id ` set (remittances t) \<and>
        sl_sourceRemittanceId l \<in> rm_id ` set (remittances t)"
    using settlements_okD(2) [OF inv(1)] known g(1) unfolding ids t(2) by simp
  ultimately have "settlements_ok t" using row unfolding settlements_ok_def by blast
  then show ?thesis
    using am inv(2-4) rest by (auto simp: settling_def tt' src')
qed

lemma settleLegs_settlements:
  assumes ok: "settlements_ok s" and legs: "\<And>leg inp. (leg, inp) \<in> set items \<Longrightarrow> untouched leg s"
    and run: "settleLegs items s = Inr (u, t)"
  shows "settlements_ok t"
proof (cases "items = []")
  case False
  let ?tt = "\<lparr>tt_bySource = (\<lambda>i. settledOf i s), tt_byLeg = (\<lambda>_. 0)\<rparr>" and ?L = "rm_id ` fst ` set items"
  have none: "findFirst (\<lambda>i. findRemittance i s = None) (map (\<lambda>it. ls_remittanceId (snd it)) items) = None"
    using run False by (cases "findFirst (\<lambda>i. findRemittance i s = None) (map (\<lambda>it. ls_remittanceId (snd it)) items)")
      (simp_all add: settleLegs_def)
  then obtain tt where loop: "foldE items (settleOne s) ?tt s = Inr (tt, t)"
    using run False by (auto simp: settleLegs_def elim!: bindE_elim)
  have src: "findRemittance (ls_remittanceId inp) s \<noteq> None" if "(leg, inp) \<in> set items" for leg inp
    using none that by (fastforce simp: find_None_iff)
  have start: "settling ?L s items ?tt s"
    using ok legs src by (force simp: settling_def untouched_def)
  have "holdsE (settling ?L s []) (foldE items (settleOne s) ?tt s)"
    by (rule holdsE_fold_rest [of "settling ?L s", OF start]) (auto simp: holdsE_def dest: settleOne_settling)
  then show ?thesis using loop by (auto simp: holdsE_def settling_def)
qed (use ok run in \<open>simp add: settleLegs_def\<close>)

lemma settlements_ok_groups: "settlements_ok s \<Longrightarrow> settlements_ok (s\<lparr>remittanceGroups := gs\<rparr>)"
  by (simp add: settlements_ok_def keys_ok_def settledOf_def legSettled_def linksAsSource_def linksAsLeg_def)

lemma still_checkSender: "checkSender u legs s = Inr (x, t) \<Longrightarrow> still s t"
proof -
  have "holdsE (\<lambda>_. still s) (checkSender u legs s)"
    unfolding checkSender_def
    by (intro holdsE_for) (auto simp: holdsE_def elim!: bindE_elim split: if_splits
        intro: still_trans [OF _ still_steps(1)])
  then show "checkSender u legs s = Inr (x, t) \<Longrightarrow> still s t" by (rule holdsE_D)
qed

lemma side_enqueueLeg: "holdsE (\<lambda>_. side s) (enqueueLeg cfg g leg s)"
  by (auto simp: enqueueLeg_def enqueueRemittanceLeg_def Let_def split: option.split intro: side_enqueue)

lemma still_enqueueLegs: "forE legs (enqueueLeg cfg g) s = Inr (x, t) \<Longrightarrow> side s t"
proof -
  have "holdsE (\<lambda>_. side s) (forE legs (enqueueLeg cfg g) s)"
    by (rule holdsE_for) (auto intro: holdsE_weaken [OF side_enqueueLeg] side_trans)
  then show "forE legs (enqueueLeg cfg g) s = Inr (x, t) \<Longrightarrow> side s t" by (rule holdsE_D)
qed

lemma createGroupTx_steps:
  assumes "createGroupTx u legs nt kd s = Inr (q, t)"
  obtains g s0 x s1 pls s2 rows s3 y s4 where
    "s0 = (bumpId s)\<lparr>remittanceGroups := remittanceGroups s @ [g]\<rparr>" "checkSender u legs s0 = Inr (x, s1)"
    "mapE legs (createLeg (rg_id g) u) s1 = Inr (pls, s2)" "mapE pls (postLeg u) s2 = Inr (rows, s3)"
    "settleLegs (concat (map2 (\<lambda>leg inp. map (\<lambda>st. (leg, st)) (settlementsOf inp)) rows legs)) s3 = Inr (y, s4)"
    "\<exists>gs. t = s4\<lparr>remittanceGroups := gs\<rparr>"
  using assms unfolding createGroupTx_def Let_def
  by (elim bindE_elim) (rule that [OF refl]; (assumption | auto))

lemma settlements_ok_group:
  assumes ok: "settlements_ok s" and run: "createGroupForUser cfg u legs nt kd s = Inr (q, t)"
  shows "settlements_ok t"
proof -
  have chk: "checkLegs u legs s = None" using run by (cases "checkLegs u legs s") (simp_all add: createGroupForUser_def)
  then have amt: "\<And>l. l \<in> set legs \<Longrightarrow> 0 < li_amount l"
    by (auto simp: checkLegs_def list_ex_iff not_le [symmetric] split: if_splits)
  obtain kind where "resolveKind kd legs = Inr kind"
    using run chk by (cases "resolveKind kd legs") (simp_all add: createGroupForUser_def)
  then obtain r s5 x where tx: "createGroupTx u legs nt kind s = Inr (r, s5)" "forE (snd r) (enqueueLeg cfg (fst r)) s5 = Inr (x, t)"
    using run chk by (auto simp: createGroupForUser_def elim!: bindE_elim)
  obtain g s0 x1 s1 pls s2 rows s3 y s4 where 1: "s0 = (bumpId s)\<lparr>remittanceGroups := remittanceGroups s @ [g]\<rparr>"
    "checkSender u legs s0 = Inr (x1, s1)" "mapE legs (createLeg (rg_id g) u) s1 = Inr (pls, s2)"
    "mapE pls (postLeg u) s2 = Inr (rows, s3)"
    "settleLegs (concat (map2 (\<lambda>leg inp. map (\<lambda>st. (leg, st)) (settlementsOf inp)) rows legs)) s3 = Inr (y, s4)"
    "\<exists>gs. s5 = s4\<lparr>remittanceGroups := gs\<rparr>" by (rule createGroupTx_steps [OF tx(1)])
  have "still s (bumpId s)" by (simp add: still_def sameRows_def rowsView_def bumpId_def)
  from settlements_ok_groups [OF settlements_ok_still [OF ok this]] have "settlements_ok s0"
    unfolding 1(1) by (simp add: bumpId_def)
  then have "settlements_ok s1" using still_checkSender [OF 1(2)] by (rule settlements_ok_still)
  from createLegs_settlements [OF this amt 1(3)] have c: "settlements_ok s2" "\<forall>p\<in>set pls. untouched (pl_remittance p) s2" by blast+
  from postLegs_settlements [OF c(1) _ 1(4)] c(2) have d: "settlements_ok s3" "\<forall>q\<in>set rows. untouched q s3" by blast+
  have "settlements_ok s4"
    by (rule settleLegs_settlements [OF d(1) _ 1(5)]) (use d(2) in \<open>auto dest!: set_zip_leftD\<close>)
  then have "settlements_ok s5" using 1(6) settlements_ok_groups by blast
  then show ?thesis by (rule settlements_ok_still [OF _ still_side [OF still_enqueueLegs [OF tx(2)]]])
qed

text \<open>The single operations.\<close>

lemma createRemittance_outcomes:
  assumes "createRemittanceForUser pk u dto key s = Inr (r, t)"
  obtains (found) "r \<in> set (remittances s)" "t = s" "truthy key"
  | (placed) instrument and toUser :: user and s2 x where "findInstrument (cr_instrumentCode dto) s = Some instrument"
      "r = newRemittance u (us_id toUser) dto instrument key s" "0 < cr_amount dto" "us_id toUser \<noteq> u"
      "side ((bumpId s)\<lparr>remittances := remittances s @ [r]\<rparr>) s2"
      "reserveFunds u (in_code instrument) (cr_amount dto) TxRefType.REMITTANCE (rm_id r) s2 = Inr (x, t)"
proof -
  obtain instrument toUser where 1: "findInstrument (cr_instrumentCode dto) s = Some instrument"
    "findUserByMobile (cr_toMobile dto) s = Some toUser" "us_id toUser \<noteq> u" "0 < cr_amount dto"
    using assms by (auto simp: createRemittanceForUser_def not_le split: option.splits if_splits)
  show ?thesis
  proof (cases "if truthy key then findFirst (\<lambda>r. rm_fromUserId r = u \<and> rm_idempotencyKey r = key) (remittances s) else None")
    case (Some e)
    then have e: "e \<in> set (remittances s)" "truthy key" by (auto split: if_splits dest: find_SomeD)
    have "r = e \<and> t = s" using assms 1 Some by (simp add: createRemittanceForUser_def)
    then show ?thesis using e by (intro found) simp_all
  next
    case None
    let ?row = "newRemittance u (us_id toUser) dto instrument key s"
    have "bindE (createRemittanceRow ?row s) (\<lambda>remittance s.
              bindE (reserveLimit pk (remittanceLimitRequest u PolicyPeriod.DAILY (cr_amount dto) instrument
                       (rm_id remittance)) s) (\<lambda>_ s.
              bindE (reserveLimit pk (remittanceLimitRequest u PolicyPeriod.MONTHLY (cr_amount dto) instrument
                       (rm_id remittance)) s) (\<lambda>_ s.
              bindE (reserveFunds u (in_code instrument) (cr_amount dto) TxRefType.REMITTANCE
                       (rm_id remittance) s) (\<lambda>_ s. Inr (remittance, s))))) = Inr (r, t)"
      using assms 1 None by (simp only: createRemittanceForUser_def not_le [symmetric] option.case if_False if_True simp_thms)
    then obtain r' s1 l s2 m s3 x where r: "createRemittanceRow ?row s = Inr (r', s1)"
      "reserveLimit pk (remittanceLimitRequest u PolicyPeriod.DAILY (cr_amount dto) instrument (rm_id r')) s1 = Inr (l, s2)"
      "reserveLimit pk (remittanceLimitRequest u PolicyPeriod.MONTHLY (cr_amount dto) instrument (rm_id r')) s2 = Inr (m, s3)"
      "reserveFunds u (in_code instrument) (cr_amount dto) TxRefType.REMITTANCE (rm_id r') s3 = Inr (x, t)" "r' = r"
      by (elim bindE_elim) simp
    have row: "r = ?row" "s1 = (bumpId s)\<lparr>remittances := remittances s @ [r]\<rparr>"
      using r(1,5) by (auto simp: createRemittanceRow_def split: if_splits)
    have "side s1 s3" using side_trans [OF holdsE_D [OF side_reserveLimit r(2)] holdsE_D [OF side_reserveLimit r(3)]] .
    then show ?thesis using placed [OF 1(1) row(1) 1(4,3)] r(4,5) row(2) by blast
  qed
qed

lemma settlements_ok_replace:
  assumes ok: "settlements_ok s" and r: "findRemittance i s = Some r" "rm_status r = RemittanceStatus.PENDING"
    and st: "still s u" and r': "rm_id r' = rm_id r" "rm_amount r' = rm_amount r"
    and run: "updateRemittance r' u = Inr (q, t)"
  shows "settlements_ok t"
proof -
  note ok' = settlements_ok_still [OF ok st]
  have m: "r \<in> set (remittances u)" using findRemittance_SomeD [OF r(1)] st by (simp add: still_sel)
  have t: "remittances t = updateRows (\<lambda>x. rm_id x = rm_id r') (\<lambda>_. r') (remittances u)"
    "settlementLinks t = settlementLinks u" "db_gen t = db_gen u" "db_seq t = db_seq u"
    using run by (auto simp: updateRemittance_def)
  have z: "settledOf (rm_id r') u = 0" using settlements_okD(3) [OF ok' m] r(2) r'(1) by (auto split: if_splits)
  have am: "rm_amount r' = rm_amount x" if "x \<in> set (remittances u)" "rm_id x = rm_id r'" for x
    using amountsOf_unique [OF ok', of "rm_id r" "rm_amount r" x] that m r' by (auto simp: amountsOf_def)
  show ?thesis by (rule settlements_ok_status(1) [OF ok' z am t])
qed

lemma approveRemittance_outcomes:
  assumes "approveRemittance i ad s = Inr (q, t)"
  obtains (same) "findRemittance i s = Some q" "rm_status q = RemittanceStatus.COMPLETED" "t = s"
  | (approved) r x0 s1 a s2 b s3 x s4 y s5 l s6 where "findRemittance i s = Some r" "rm_status r = RemittanceStatus.PENDING"
      "consumeFunds (rm_fromUserId r) (remittanceCode r s) TxRefType.REMITTANCE (rm_id r) s = Inr (x0, s1)"
      "getOrCreateAccount (rm_fromUserId r) (remittanceCode r s) s1 = Inr (a, s2)"
      "getOrCreateAccount (rm_toUserId r) (remittanceCode r s) s2 = Inr (b, s3)"
      "applyTransaction (ac_id a) (- rm_amount r) AccountTxType.REMITTANCE TxRefType.REMITTANCE
                       (Some (rm_id r)) (Some ad) None s3 = Inr (x, s4)"
      "applyTransaction (ac_id b) (rm_amount r) AccountTxType.REMITTANCE TxRefType.REMITTANCE
                       (Some (rm_id r)) (Some ad) None s4 = Inr (y, s5)"
      "consumeLimit TxRefType.REMITTANCE (rm_id r) s5 = Inr (l, s6)"
      "updateRemittance (r\<lparr>rm_status := RemittanceStatus.COMPLETED,
                 rm_fromAccountTxId := Some (tx_id (fst x)), rm_toAccountTxId := Some (tx_id (fst y))\<rparr>) s6 = Inr (q, t)"
proof (cases "findRemittance i s")
  case None
  have False using assms None by (simp add: approveRemittance_def)
  then show ?thesis ..
next
  case (Some r)
  show ?thesis
  proof (cases "rm_status r = RemittanceStatus.COMPLETED")
    case True
    show ?thesis by (rule same) (use assms Some True in \<open>simp_all add: approveRemittance_def\<close>)
  next
    case False
    have p: "rm_status r = RemittanceStatus.PENDING"
      using assms Some False by (auto simp: approveRemittance_def split: if_splits)
    show ?thesis
      using assms unfolding approveRemittance_def Some option.case p Let_def
      by (simp only: RemittanceStatus.distinct if_False if_True simp_thms, elim bindE_elim) (rule approved [OF Some p]; assumption)
  qed
qed

lemma closeRemittance_outcomes:
  assumes "closeRemittance r s = Inr (q, t)"
  obtains (same) "q = r" "rm_status r = RemittanceStatus.CANCELLED" "t = s"
  | (closed) l s1 x s2 where "rm_status r = RemittanceStatus.PENDING" "releaseLimit TxRefType.REMITTANCE (rm_id r) s = Inr (l, s1)"
      "releaseFunds (rm_fromUserId r) (remittanceCode r s1) TxRefType.REMITTANCE (rm_id r) s1 = Inr (x, s2)"
      "updateRemittance (r\<lparr>rm_status := RemittanceStatus.CANCELLED\<rparr>) s2 = Inr (q, t)"
  using assms unfolding closeRemittance_def by (auto split: if_splits elim!: bindE_elim)

text \<open>Any sequence of successful operations on remittances, single or in groups.\<close>

inductive remittanceRun :: "db \<Rightarrow> db \<Rightarrow> bool" where
  rr_start: "remittanceRun s s"
| rr_clock: "remittanceRun s t \<Longrightarrow> remittanceRun s (t\<lparr>db_now := n\<rparr>)"
| rr_create: "remittanceRun s t \<Longrightarrow> createRemittanceForUser pk u dto key t = Inr (r, t') \<Longrightarrow> remittanceRun s t'"
| rr_approve: "remittanceRun s t \<Longrightarrow> approveRemittance i ad t = Inr (r, t') \<Longrightarrow> remittanceRun s t'"
| rr_reject: "remittanceRun s t \<Longrightarrow> rejectRemittance i t = Inr (r, t') \<Longrightarrow> remittanceRun s t'"
| rr_cancel: "remittanceRun s t \<Longrightarrow> cancelByUser i u t = Inr (r, t') \<Longrightarrow> remittanceRun s t'"
| rr_group: "remittanceRun s t \<Longrightarrow> createGroupForUser cfg u legs nt kd t = Inr (q, t') \<Longrightarrow> remittanceRun s t'"

lemma settlements_ok_create:
  assumes ok: "settlements_ok s" and run: "createRemittanceForUser pk u dto key s = Inr (r, t)"
  shows "settlements_ok t"
  using run
proof (cases rule: createRemittance_outcomes)
  case (placed instrument toUser s2 x)
  have "settlements_ok ((bumpId s)\<lparr>remittances := remittances s @ [r]\<rparr>)"
    by (rule settlements_ok_add [OF ok]) (use placed(3) in \<open>simp_all add: placed(2) newRemittance_def\<close>)
  then show ?thesis
    using settlements_ok_still still_trans [OF still_side [OF placed(5)] still_steps(2) [OF placed(6)]] by blast
qed (use ok in simp)

lemma settlements_ok_approve:
  assumes ok: "settlements_ok s" and run: "approveRemittance i ad s = Inr (q, t)"
  shows "settlements_ok t"
  using run
proof (cases rule: approveRemittance_outcomes)
  case (approved r x0 s1 a s2 b s3 x s4 y s5 l s6)
  have "still s s6"
    using still_steps(4) [OF approved(3)] still_steps(1) [OF approved(4)] still_steps(1) [OF approved(5)]
      still_steps(5) [OF approved(6)] still_steps(5) [OF approved(7)] still_side [OF holdsE_D [OF side_consumeLimit approved(8)]]
    by (blast intro: still_trans)
  from settlements_ok_replace [OF ok approved(1,2) this _ _ approved(9)] show ?thesis by simp
qed (use ok in simp)

lemma settlements_ok_close:
  assumes ok: "settlements_ok s" and r: "findRemittance i s = Some r" and run: "closeRemittance r s = Inr (q, t)"
  shows "settlements_ok t"
  using run
proof (cases rule: closeRemittance_outcomes)
  case (closed l s1 x s2)
  have "still s s2" using still_trans [OF still_side [OF holdsE_D [OF side_releaseLimit closed(2)]] still_steps(3) [OF closed(3)]] .
  from settlements_ok_replace [OF ok r closed(1) this _ _ closed(4)] show ?thesis by simp
qed (use ok in simp)

lemma remittanceRun_settlements: "remittanceRun s t \<Longrightarrow> settlements_ok s \<Longrightarrow> settlements_ok t"
proof (induction rule: remittanceRun.induct)
  case (rr_clock s t n)
  then have ok: "settlements_ok t" by blast
  show ?case using ok
    by (simp add: settlements_ok_def keys_ok_def settledOf_def legSettled_def linksAsSource_def linksAsLeg_def)
next
  case (rr_reject s t i r t')
  then show ?case using settlements_ok_close by (auto simp: rejectRemittance_def split: option.splits)
next
  case (rr_cancel s t i u r t')
  then show ?case using settlements_ok_close by (auto simp: cancelByUser_def split: option.splits if_splits)
qed (use settlements_ok_create settlements_ok_approve settlements_ok_group in blast)+

section \<open>The approval of a remittance\<close>

lemma remittance_approval:
  assumes ok: "ledger_ok s" and r: "findRemittance i s = Some r0" "rm_status r0 = RemittanceStatus.PENDING"
    and h: "heldAs TxRefType.REMITTANCE i
      (Some (AccountReservationStatus.RESERVED, rm_amount r0, rm_fromUserId r0, remittanceCode r0 s)) s"
    and run: "approveRemittance i ad s = Inr (q, t)"
  obtains wf wt where "walletId (rm_fromUserId r0) (remittanceCode r0 s) t = Some wf"
    "walletId (rm_toUserId r0) (remittanceCode r0 s) t = Some wt"
    "\<forall>j. posted j t = posted j s - (if j = wf then rm_amount r0 else 0) + (if j = wt then rm_amount r0 else 0) \<and>
       held j t = held j s - (if j = wf then rm_amount r0 else 0)"
    "rm_status q = RemittanceStatus.COMPLETED" "findRemittance i t = Some q" "ledger_ok t"
  using run
proof (cases rule: approveRemittance_outcomes)
  case same
  then show ?thesis using r by simp
next
  case (approved r x0 s1 a s2 b s3 x s4 y s5 l s6)
  let ?rt = "TxRefType.REMITTANCE" and ?c = "remittanceCode r0 s"
  have eq: "r = r0" "rm_id r0 = i" using approved(1) assms(2) findRemittance_SomeD by auto
  note a = approved(3-9) [unfolded eq]
  note e = effect_consume [OF ok h a(1)]
  note p1 = plain_getAcc [OF effectD(2) [OF e(1)] a(2), where rt = ?rt and i = i]
  note p2 = plain_getAcc [OF plainD(1) [OF p1] a(3), where rt = ?rt and i = i]
  note p3 = plain_post [OF plainD(1) [OF p2] a(4)]
  note p4 = plain_post [OF plainD(1) [OF p3] a(5)]
  note p5 = plain_side [OF plainD(1) [OF p4] holdsE_D [OF side_consumeLimit a(6)], where rt = ?rt and i = i]
  note p35 = plain_trans [OF p3 plain_trans [OF p4 p5]]
  note all = effect_trans [OF e(1) plainD(2) [OF plain_trans [OF p1 plain_trans [OF p2 p35]]]]
  obtain wf where wf: "walletId (rm_fromUserId r0) ?c s1 = Some wf" using e(3) by auto
  have ids: "walletId (rm_fromUserId r0) ?c s6 = Some (ac_id a)" "walletId (rm_toUserId r0) ?c s6 = Some (ac_id b)"
    using plainD(4) [OF plain_trans [OF p2 p35] getOrCreateAccount_effect(3) [OF a(2)]]
      plainD(4) [OF p35 getOrCreateAccount_effect(3) [OF a(3)]] by simp_all
  have "ac_id a = wf" using plainD(4) [OF plain_trans [OF p1 plain_trans [OF p2 p35]] wf] ids(1) by simp
  have t: "sameLedger s6 t" "q = r0\<lparr>rm_status := RemittanceStatus.COMPLETED, rm_fromAccountTxId := Some (tx_id (fst x)),
      rm_toAccountTxId := Some (tx_id (fst y))\<rparr>"
    "remittances t = updateRows (\<lambda>z. rm_id z = i) (\<lambda>_. q) (remittances s6)"
    using a(7) by (auto simp: updateRemittance_def sameLedger_def eq(2))
  have "findRemittance i s6 = Some r0" using r(1) sameRows_sel(11) [OF effectD(3) [OF all]] by (simp add: findRemittance_def)
  then have found: "findRemittance i t = Some q"
    unfolding findRemittance_def t(3) by (subst find_replace) (simp_all add: t(2) eq(2))
  have "ledger_ok t" using sameLedger_ok [OF t(1) effectD(2) [OF all]] .
  moreover have "\<forall>j. posted j t = posted j s - (if j = ac_id a then rm_amount r0 else 0) + (if j = ac_id b then rm_amount r0 else 0) \<and>
       held j t = held j s - (if j = ac_id a then rm_amount r0 else 0)"
    using effectD(8,9) [OF all] wf \<open>ac_id a = wf\<close> by (auto simp: sameLedger_sums [OF t(1)])
  ultimately show ?thesis using that [of "ac_id a" "ac_id b"] ids found t(2) by (simp add: sameLedger_sums [OF t(1)] eq(2))
qed

section \<open>Groups leave the holds alone\<close>

lemma createLeg_holds: "createLeg g u leg s = Inr (pl, t) \<Longrightarrow> accountReservations t = accountReservations s"
  unfolding createLeg_def Let_def
  by (auto simp: createRemittanceRow_def bumpId_def split: if_splits elim!: bindE_elim dest!: getOrCreateAccount_effect(5))

lemma applyTransaction_holds:
  "applyTransaction i d ty rt rid cb rv s = Inr (q, t) \<Longrightarrow> accountReservations t = accountReservations s"
  by (cases q) (simp add: applyTransaction_effect(7))

lemma postLeg_holds: "postLeg u p s = Inr (q, t) \<Longrightarrow> accountReservations t = accountReservations s"
  unfolding postLeg_def Let_def
  by (auto simp: updateRemittance_def elim!: bindE_elim dest!: applyTransaction_holds)

lemma settleOne_holds: "settleOne s0 it tt s = Inr (tt', t) \<Longrightarrow> accountReservations t = accountReservations s"
  by (auto simp: settleOne_def Let_def createSettlementLink_def bumpId_def split: if_splits)

lemma checkSender_holds: "checkSender u legs s = Inr (x, t) \<Longrightarrow> accountReservations t = accountReservations s"
proof -
  have "holdsE (\<lambda>_ t. accountReservations t = accountReservations s) (checkSender u legs s)"
    unfolding checkSender_def
    by (intro holdsE_for) (auto simp: holdsE_def elim!: bindE_elim split: if_splits dest!: getOrCreateAccount_effect(5))
  then show "checkSender u legs s = Inr (x, t) \<Longrightarrow> accountReservations t = accountReservations s" by (rule holdsE_D)
qed

lemma mapE_holds:
  assumes "\<And>x s y t. body x s = Inr (y, t) \<Longrightarrow> accountReservations t = accountReservations s"
    and "mapE xs body s = Inr (ys, t)"
  shows "accountReservations t = accountReservations s"
proof -
  have "holdsE (\<lambda>_ t. accountReservations t = accountReservations s) (mapE xs body s)"
    by (rule holdsE_map) (auto simp: holdsE_def dest: assms(1))
  then show ?thesis using assms(2) by (rule holdsE_D)
qed

lemma settleLegs_holds: "settleLegs items s = Inr (x, t) \<Longrightarrow> accountReservations t = accountReservations s"
proof -
  have "holdsE (\<lambda>_ t. accountReservations t = accountReservations s) (foldE items (settleOne s) tt s)" for tt
    by (rule holdsE_fold_rest [of "\<lambda>_ _ t. accountReservations t = accountReservations s"])
      (auto simp: holdsE_def dest: settleOne_holds)
  then show "settleLegs items s = Inr (x, t) \<Longrightarrow> accountReservations t = accountReservations s"
    by (auto simp: settleLegs_def holdsE_def split: if_splits option.splits elim!: bindE_elim)
qed

lemma group_holds:
  assumes "createGroupForUser cfg u legs nt kd s = Inr (q, t)"
  shows "accountReservations t = accountReservations s"
proof -
  obtain kind r s5 x where tx: "createGroupTx u legs nt kind s = Inr (r, s5)" "forE (snd r) (enqueueLeg cfg (fst r)) s5 = Inr (x, t)"
    using assms by (auto simp: createGroupForUser_def split: option.splits sum.splits elim!: bindE_elim)
  obtain g s0 x1 s1 pls s2 rows s3 y s4 where 1: "s0 = (bumpId s)\<lparr>remittanceGroups := remittanceGroups s @ [g]\<rparr>"
    "checkSender u legs s0 = Inr (x1, s1)" "mapE legs (createLeg (rg_id g) u) s1 = Inr (pls, s2)"
    "mapE pls (postLeg u) s2 = Inr (rows, s3)"
    "settleLegs (concat (map2 (\<lambda>leg inp. map (\<lambda>st. (leg, st)) (settlementsOf inp)) rows legs)) s3 = Inr (y, s4)"
    "\<exists>gs. s5 = s4\<lparr>remittanceGroups := gs\<rparr>" by (rule createGroupTx_steps [OF tx(1)])
  have "accountReservations s0 = accountReservations s" by (simp add: 1(1) bumpId_def)
  moreover have "accountReservations s5 = accountReservations s4" using 1(6) by auto
  moreover have "accountReservations t = accountReservations s5" using side_sel(7) [OF still_enqueueLegs [OF tx(2)]] .
  ultimately show ?thesis
    using checkSender_holds [OF 1(2)] mapE_holds [OF createLeg_holds 1(3)] mapE_holds [OF postLeg_holds 1(4)]
      settleLegs_holds [OF 1(5)] by simp
qed

section \<open>What a settled remittance keeps\<close>

text \<open>Reservations under another reference are not touched when one is placed or closed.\<close>

lemma reserve_others:
  assumes "reserveFunds u c amt rt j s = Inr (q, t)" and "i \<noteq> j"
  shows "reservationsUnder rt' i t = reservationsUnder rt' i s"
proof -
  from assms(1) obtain b s' where 1: "getOrCreateAccount u c s = Inr (b, s')" unfolding reserveFunds_def bindE_Inr_iff by blast
  show ?thesis
    using assms 1 getOrCreateAccount_effect(5) [OF 1]
    by (auto simp: reserveFunds_def createReservation_def Let_def reservationsUnder_def split: option.splits if_splits)
qed

lemma close_others:
  assumes ok: "ledger_ok s" and run: "consumeFunds u c rt j s = Inr (q, t) \<or> releaseFunds u c rt j s = Inr (q, t)" and "i \<noteq> j"
  shows "reservationsUnder rt' i t = reservationsUnder rt' i s"
proof -
  from run obtain a s' where 1: "getOrCreateAccount u c s = Inr (a, s')"
    unfolding consumeFunds_def releaseFunds_def bindE_Inr_iff by blast
  note e = getOrCreateAccount_effect(5) [OF 1]
  have ok': "ledger_ok s'" "findAccount (ac_id a) s' = Some a" using holdsE_D [OF getOrCreateAccount_keeps [OF ok] 1] by auto
  have dist: "distinct (map ar_id (accountReservations s'))" using ledger_okD(2) [OF ok'(1)] by blast
  have "t = s' \<or> (\<exists>r st. findReservation rt j (ac_id a) s' = Some r \<and> closeReservation a r st s' = Inr (q, t))"
    using run 1 ok'(2) by (auto simp: consumeFunds_def releaseFunds_def split: option.splits if_splits)
  then have "reservationsUnder rt' i t = reservationsUnder rt' i s'"
  proof (elim disjE exE conjE)
    fix r st assume r: "findReservation rt j (ac_id a) s' = Some r" and c: "closeReservation a r st s' = Inr (q, t)"
    have mem: "r \<in> set (accountReservations s')" "ar_refType r = rt" "ar_refId r = j" using findReservation_SomeD [OF r] by auto
    have "accountReservations t = updateRows (\<lambda>v. ar_id v = ar_id r) (\<lambda>v. v\<lparr>ar_status := st\<rparr>) (accountReservations s')"
      using c by (auto simp: closeReservation_def Let_def split: if_splits)
    from reservationsUnder_update [OF dist mem _ this] show ?thesis using assms(3) by simp
  qed simp
  then show ?thesis using e by (simp add: reservationsUnder_def)
qed

text \<open>Links are only added, and the ledger stays sound.\<close>

definition grows :: "db \<Rightarrow> db \<Rightarrow> bool" where
  "grows s t \<longleftrightarrow> ledger_ok t \<and> (\<exists>ls. settlementLinks t = settlementLinks s @ ls)"

lemma grows_refl: "ledger_ok s \<Longrightarrow> grows s s"
  by (simp add: grows_def)

lemma grows_step: "grows s t \<Longrightarrow> ledger_ok u \<Longrightarrow> settlementLinks u = settlementLinks t \<Longrightarrow> grows s u"
  by (simp add: grows_def)

lemma grows_trans: "grows s t \<Longrightarrow> grows t u \<Longrightarrow> grows s u"
  by (auto simp: grows_def)

lemma grows_settled:
  assumes "grows s t" and "settlements_ok t"
  shows "settledOf i s \<le> settledOf i t"
proof -
  obtain ls where ls: "settlementLinks t = settlementLinks s @ ls" using assms(1) by (auto simp: grows_def)
  have "0 \<le> total sl_amount (filter (\<lambda>l. sl_sourceRemittanceId l = i) ls)"
    by (rule total_nonneg) (use settlements_okD(2) [OF assms(2)] ls in \<open>force simp: less_imp_le\<close>)
  then show ?thesis by (simp add: settledOf_def linksAsSource_def ls)
qed

lemma grows_getAcc: "grows s t \<Longrightarrow> getOrCreateAccount u c t = Inr (a, v) \<Longrightarrow> grows s v"
  by (rule grows_step) (auto simp: grows_def dest: holdsE_D [OF getOrCreateAccount_keeps] still_sel(5) [OF still_steps(1)])

lemma grows_reserve:
  assumes "grows s t" and "0 \<le> amt" and "reserveFunds u c amt rt i t = Inr (x, v)"
  shows "grows s v"
  using assms(1) holdsE_D [OF reserveFunds_keeps [OF _ assms(2)] assms(3)] still_sel(5) [OF still_steps(2) [OF assms(3)]]
  by (simp add: grows_def)

lemma grows_post: "grows s t \<Longrightarrow> applyTransaction i d ty rt rid cb rv t = Inr (a, v) \<Longrightarrow> grows s v"
  by (rule grows_step) (auto simp: grows_def dest: holdsE_D [OF applyTransaction_keeps] still_sel(5) [OF still_steps(5)])

lemma grows_side: "grows s t \<Longrightarrow> side t v \<Longrightarrow> grows s v"
  by (rule grows_step) (auto simp: grows_def dest: sameLedger_ok [OF side_ledger] still_sel(5) [OF still_side])

lemma grows_rows: "grows s t \<Longrightarrow> grows s (t\<lparr>remittances := rs\<rparr>)" "grows s t \<Longrightarrow> grows s (t\<lparr>remittanceGroups := gs\<rparr>)"
  by (auto simp: grows_def)

lemma grows_bump: "grows s t \<Longrightarrow> grows s (bumpId t)"
  unfolding grows_def using ledger_ok_bump [of True t] by (simp add: bumpId_def)

lemma grows_link: "grows s t \<Longrightarrow> grows s (createSettlementLink l t)"
  using grows_bump [of s t] by (auto simp: createSettlementLink_def grows_def)

lemma grows_createRow: "grows s t \<Longrightarrow> createRemittanceRow r t = Inr (q, v) \<Longrightarrow> grows s v"
  by (auto simp: createRemittanceRow_def intro!: grows_rows(1) grows_bump split: if_splits)

lemma grows_createLeg: "grows s t \<Longrightarrow> createLeg g u leg t = Inr (pl, v) \<Longrightarrow> grows s v"
  unfolding createLeg_def Let_def
  by (auto simp del: bindE_simps split: if_splits elim!: bindE_elim; blast dest: grows_getAcc grows_createRow)

lemma grows_postLeg: "grows s t \<Longrightarrow> postLeg u p t = Inr (q, v) \<Longrightarrow> grows s v"
  unfolding postLeg_def Let_def
  by (elim bindE_elim) (auto simp: updateRemittance_def intro!: grows_rows(1) dest: grows_post)

lemma grows_settleOne: "grows s t \<Longrightarrow> settleOne s0 it tt t = Inr (tt', v) \<Longrightarrow> grows s v"
  by (auto simp: settleOne_def Let_def intro!: grows_rows(1) grows_link split: if_splits)

lemma grows_checkSender: "grows s t \<Longrightarrow> checkSender u legs t = Inr (x, v) \<Longrightarrow> grows s v"
proof -
  assume g: "grows s t" and "checkSender u legs t = Inr (x, v)"
  moreover have "holdsE (\<lambda>_. grows s) (checkSender u legs t)"
    unfolding checkSender_def
    by (intro holdsE_for g) (auto simp: holdsE_def elim!: bindE_elim split: if_splits dest: grows_getAcc)
  ultimately show "grows s v" by (blast dest: holdsE_D)
qed

lemma grows_map:
  assumes "grows s t" and "\<And>x t y v. grows s t \<Longrightarrow> body x t = Inr (y, v) \<Longrightarrow> grows s v" and "mapE xs body t = Inr (ys, v)"
  shows "grows s v"
  using holdsE_D [OF holdsE_map [of "grows s" t xs body] assms(3)] assms(1,2) by (auto simp: holdsE_def)

lemma grows_settleLegs: "grows s t \<Longrightarrow> settleLegs items t = Inr (x, v) \<Longrightarrow> grows s v"
proof -
  assume g: "grows s t" and run: "settleLegs items t = Inr (x, v)"
  have "holdsE (\<lambda>_. grows s) (foldE items (settleOne t) tt t)" for tt
    by (rule holdsE_fold_rest [of "\<lambda>_ _. grows s"]) (use g in \<open>auto simp: holdsE_def dest: grows_settleOne\<close>)
  then show "grows s v"
    using run g by (auto simp: settleLegs_def holdsE_def split: if_splits option.splits elim!: bindE_elim)
qed

lemma grows_group:
  assumes ok: "ledger_ok s" and "createGroupForUser cfg u legs nt kd s = Inr (q, t)"
  shows "grows s t"
proof -
  obtain kind r s5 x where tx: "createGroupTx u legs nt kind s = Inr (r, s5)" "forE (snd r) (enqueueLeg cfg (fst r)) s5 = Inr (x, t)"
    using assms(2) by (auto simp: createGroupForUser_def split: option.splits sum.splits elim!: bindE_elim)
  obtain g s0 x1 s1 pls s2 rows s3 y s4 where 1: "s0 = (bumpId s)\<lparr>remittanceGroups := remittanceGroups s @ [g]\<rparr>"
    "checkSender u legs s0 = Inr (x1, s1)" "mapE legs (createLeg (rg_id g) u) s1 = Inr (pls, s2)"
    "mapE pls (postLeg u) s2 = Inr (rows, s3)"
    "settleLegs (concat (map2 (\<lambda>leg inp. map (\<lambda>st. (leg, st)) (settlementsOf inp)) rows legs)) s3 = Inr (y, s4)"
    "\<exists>gs. s5 = s4\<lparr>remittanceGroups := gs\<rparr>" by (rule createGroupTx_steps [OF tx(1)])
  have "grows s s0" unfolding 1(1) by (intro grows_rows(2) grows_bump grows_refl ok)
  then have "grows s s1" using 1(2) by (rule grows_checkSender)
  then have "grows s s2" using grows_createLeg 1(3) by (rule grows_map)
  then have "grows s s3" using grows_postLeg 1(4) by (rule grows_map)
  then have "grows s s4" using 1(5) by (rule grows_settleLegs)
  then have "grows s s5" using 1(6) grows_rows(2) by blast
  then show ?thesis using still_enqueueLegs [OF tx(2)] by (rule grows_side)
qed

text \<open>
  A remittance of which something is settled: whatever is done to remittances, it stays settled and the reservations
  under it stay as they are.
\<close>

lemma settled_refuses:
  assumes ok: "settlements_ok s" and "settledOf i s \<noteq> 0"
  obtains r where "findRemittance i s = Some r"
    "rm_status r = RemittanceStatus.PARTIAL \<or> rm_status r = RemittanceStatus.COMPLETED"
proof -
  have "i \<in> rm_id ` set (remittances s)" using settled_unknown(1) [OF ok] assms(2) by blast
  then obtain r where r: "findRemittance i s = Some r"
    by (cases "findRemittance i s") (auto simp: findRemittance_def find_None_iff)
  show ?thesis using that [OF r] settlements_okD(3) [OF ok, of r] findRemittance_SomeD [OF r] assms(2) by auto
qed

lemma settled_not_pending:
  assumes "settlements_ok s" "settledOf i s \<noteq> 0" "findRemittance j s = Some r" "rm_status r = RemittanceStatus.PENDING"
  shows "i \<noteq> rm_id r"
proof
  assume "i = rm_id r"
  then have "findRemittance i s = Some r" using assms(3) findRemittance_SomeD [OF assms(3)] by simp
  then show False using settled_refuses [OF assms(1,2)] assms(4) by (metis RemittanceStatus.distinct option.inject)
qed

definition stranded :: "id \<Rightarrow> db \<Rightarrow> db \<Rightarrow> bool" where
  "stranded i s t \<longleftrightarrow> settlements_ok t \<and> grows s t \<and>
     reservationsUnder TxRefType.REMITTANCE i t = reservationsUnder TxRefType.REMITTANCE i s"

lemma stranded_create:
  assumes st: "stranded i s t" and pos: "settledOf i s \<noteq> 0" "settlements_ok s" and run: "createRemittanceForUser pk u dto key t = Inr (r, v)"
  shows "stranded i s v"
  using run
proof (cases rule: createRemittance_outcomes)
  case (placed instrument toUser s2 x)
  have ok: "settlements_ok t" "grows s t" using st by (simp_all add: stranded_def)
  have "settledOf i t \<noteq> 0" using grows_settled [OF ok(2,1), of i] settled_nonneg(1) [OF pos(2), of i] pos(1) by simp
  then have "i \<in> rm_id ` set (remittances t)" using settled_unknown(1) [OF ok(1)] by blast
  then have "i \<noteq> rm_id r" using freshId_notin [OF settlements_okD(1) [OF ok(1)]] by (force simp: placed(2) newRemittance_def)
  then have "reservationsUnder TxRefType.REMITTANCE i v = reservationsUnder TxRefType.REMITTANCE i s2"
    by (rule reserve_others [OF placed(6)])
  moreover have "accountReservations s2 = accountReservations t" using side_sel(7) [OF placed(5)] by (simp add: bumpId_def)
  moreover have "grows s s2" by (rule grows_side [OF grows_rows(1) [OF grows_bump [OF ok(2)]] placed(5)])
  then have "grows s v" by (rule grows_reserve [OF _ less_imp_le [OF placed(3)] placed(6)])
  ultimately show ?thesis using st settlements_ok_create [OF ok(1) run] by (simp add: stranded_def reservationsUnder_def)
qed (use st in simp)

lemma stranded_settled:
  "stranded i s t \<Longrightarrow> settlements_ok s \<Longrightarrow> settledOf i s \<noteq> 0 \<Longrightarrow> settledOf i t \<noteq> 0"
  using grows_settled [of s t i] settled_nonneg(1) [of s i] by (fastforce simp: stranded_def)

lemma grows_update: "grows s t \<Longrightarrow> updateRemittance r t = Inr (q, v) \<Longrightarrow> grows s v"
  by (auto simp: updateRemittance_def intro: grows_rows(1))

lemma stranded_approve:
  assumes st: "stranded i s t" and pos: "settledOf i s \<noteq> 0" "settlements_ok s" and run: "approveRemittance j ad t = Inr (q, v)"
  shows "stranded i s v"
  using run
proof (cases rule: approveRemittance_outcomes)
  case (approved r x0 s1 a s2 b s3 x s4 y s5 l s6)
  have ok: "settlements_ok t" "grows s t" "ledger_ok t" using st by (simp_all add: stranded_def grows_def)
  have "settledOf i t \<noteq> 0" by (rule stranded_settled [OF st pos(2,1)])
  note ij = settled_not_pending [OF ok(1) this approved(1,2)]
  have "grows s s1"
    by (rule grows_step [OF ok(2)]) (use approved(3) ok(3) in \<open>auto dest: holdsE_D [OF consumeFunds_keeps] still_sel(5) [OF still_steps(4)]\<close>)
  note g = grows_side [OF grows_post [OF grows_post [OF grows_getAcc [OF grows_getAcc [OF this approved(4)] approved(5)] approved(6)]
      approved(7)] holdsE_D [OF side_consumeLimit approved(8)]]
  have "accountReservations v = accountReservations s1"
    using getOrCreateAccount_effect(5) [OF approved(4)] getOrCreateAccount_effect(5) [OF approved(5)]
      applyTransaction_holds [OF approved(6)] applyTransaction_holds [OF approved(7)]
      side_sel(7) [OF holdsE_D [OF side_consumeLimit approved(8)]] approved(9) by (auto simp: updateRemittance_def)
  moreover have "reservationsUnder TxRefType.REMITTANCE i s1 = reservationsUnder TxRefType.REMITTANCE i t"
    by (rule close_others [OF ok(3) disjI1 [OF approved(3)] ij])
  ultimately show ?thesis
    using st settlements_ok_approve [OF ok(1) run] grows_update [OF g approved(9)] by (simp add: stranded_def reservationsUnder_def)
qed (use st in simp)

lemma stranded_close:
  assumes st: "stranded i s t" and pos: "settledOf i s \<noteq> 0" "settlements_ok s"
    and r: "findRemittance j t = Some r" and run: "closeRemittance r t = Inr (q, v)"
  shows "stranded i s v"
  using run
proof (cases rule: closeRemittance_outcomes)
  case (closed l s1 x s2)
  have ok: "settlements_ok t" "grows s t" "ledger_ok t" using st by (simp_all add: stranded_def grows_def)
  note side = holdsE_D [OF side_releaseLimit closed(2)]
  have "settledOf i t \<noteq> 0" by (rule stranded_settled [OF st pos(2,1)])
  note ij = settled_not_pending [OF ok(1) this r closed(1)]
  have g1: "grows s s1" by (rule grows_side [OF ok(2) side])
  then have ok1: "ledger_ok s1" by (simp add: grows_def)
  have g2: "grows s s2"
    by (rule grows_step [OF g1]) (use closed(3) ok1 in \<open>auto dest: holdsE_D [OF releaseFunds_keeps] still_sel(5) [OF still_steps(3)]\<close>)
  have "reservationsUnder TxRefType.REMITTANCE i s2 = reservationsUnder TxRefType.REMITTANCE i s1"
    by (rule close_others [OF ok1 disjI2 [OF closed(3)] ij])
  moreover have "accountReservations s1 = accountReservations t" "accountReservations v = accountReservations s2"
    using side_sel(7) [OF side] closed(4) by (auto simp: updateRemittance_def)
  ultimately show ?thesis
    using st settlements_ok_close [OF ok(1) r run] grows_update [OF g2 closed(4)] by (simp add: stranded_def reservationsUnder_def)
qed (use st in simp)

lemma stranded_group:
  assumes st: "stranded i s t" and run: "createGroupForUser cfg u legs nt kd t = Inr (q, v)"
  shows "stranded i s v"
  using st settlements_ok_group [OF _ run] grows_trans [OF _ grows_group [OF _ run]] group_holds [OF run]
  by (auto simp: stranded_def grows_def reservationsUnder_def)

lemma stranded_run: "remittanceRun s t \<Longrightarrow> settlements_ok s \<Longrightarrow> ledger_ok s \<Longrightarrow> settledOf i s \<noteq> 0 \<Longrightarrow> stranded i s t"
proof (induction rule: remittanceRun.induct)
  case (rr_start s)
  then show ?case by (simp add: stranded_def grows_refl)
next
  case (rr_clock s t n)
  have "settlements_ok (t\<lparr>db_now := n\<rparr>)"
    by (rule remittanceRun_settlements [OF remittanceRun.rr_clock [OF rr_clock(1)] rr_clock(3)])
  then show ?case using rr_clock by (simp add: stranded_def grows_def reservationsUnder_def)
next
  case (rr_reject s t j r t')
  then show ?case using stranded_close [of i s t j] by (auto simp: rejectRemittance_def split: option.splits)
next
  case (rr_cancel s t j u r t')
  then show ?case using stranded_close [of i s t j] by (auto simp: cancelByUser_def split: option.splits if_splits)
next
  case (rr_create s t pk u dto key r t')
  then show ?case using stranded_create [OF _ _ _ rr_create(2)] by blast
next
  case (rr_approve s t j ad r t')
  then show ?case using stranded_approve [OF _ _ _ rr_approve(2)] by blast
next
  case (rr_group s t cfg u legs nt kd q t')
  then show ?case using stranded_group [OF _ rr_group(2)] by blast
qed

section \<open>Properties\<close>

text \<open>
  The concrete state: \<open>ali\<close> has 100 rials and asks to send 60 to \<open>sara\<close>; then he sends her 40 in a group
  whose leg settles 40 of the first remittance.
\<close>

definition sara :: user where
  "sara = aliUser\<lparr>us_id := ''sara'', us_mobile := ''0913''\<rparr>"

definition remittanceDb :: db where
  "remittanceDb = aliDb\<lparr>users := [aliUser, sara]\<rparr>"

definition sixtyToSara :: createRemittanceDto where
  "sixtyToSara = \<lparr>cr_toMobile = ''0913'', cr_instrumentCode = ''IRR'', cr_amount = 60, cr_note = None\<rparr>"

definition fortyToSara :: "id \<Rightarrow> legInput" where
  "fortyToSara source = \<lparr>li_toMobile = ''0913'', li_instrumentCode = ''IRR'', li_amount = 40, li_onBehalfOfMobile = None,
     li_channel = None, li_iban = None, li_cardLast4 = None, li_externalPaymentRef = None, li_note = None,
     li_settlements = Some [\<lparr>ls_remittanceId = source, ls_amount = 40, ls_note = None\<rparr>]\<rparr>"

lemma remittanceDb_ok: "settlements_ok remittanceDb" "ledger_ok remittanceDb"
proof -
  show "ledger_ok remittanceDb" using aliDb_ok by (simp add: remittanceDb_def)
  show "settlements_ok remittanceDb" using inj_unaryId
    by (simp add: settlements_ok_def keys_ok_def remittanceDb_def aliDb_def emptyDb_def)
qed

lemma outcome_cases:
  "(case m of Inl _ \<Rightarrow> False | Inr (a, s) \<Rightarrow> P a s) \<Longrightarrow> \<exists>a s. m = Inr (a, s) \<and> P a s"
  by (auto split: sum.splits)

lemma remittanceDb_create:
  obtains r t q u x where "createRemittanceForUser dayKeys ''ali'' sixtyToSara None remittanceDb = Inr (r, t)"
    "findRemittance (rm_id r) t = Some r" "rm_status r = RemittanceStatus.PENDING" "rm_amount r = 60"
    "rm_fromUserId r = ''ali''" "rm_toUserId r = ''sara''" "remittanceCode r t = ''IRR''"
    "\<exists>v w. approveRemittance (rm_id r) ''root'' t = Inr (v, w)"
    "createGroupForUser noTahesab ''ali'' [fortyToSara (rm_id r)] None None t = Inr (q, u)" "settledOf (rm_id r) u = 40"
    "findRemittance (rm_id r) u = Some x" "rm_amount x = 60"
proof -
  have "case createRemittanceForUser dayKeys ''ali'' sixtyToSara None remittanceDb of Inl _ \<Rightarrow> False
    | Inr (r, t) \<Rightarrow> findRemittance (rm_id r) t = Some r \<and> rm_status r = RemittanceStatus.PENDING \<and> rm_amount r = 60 \<and>
        rm_fromUserId r = ''ali'' \<and> rm_toUserId r = ''sara'' \<and> remittanceCode r t = ''IRR'' \<and>
        (case approveRemittance (rm_id r) ''root'' t of Inl _ \<Rightarrow> False | Inr (v, w) \<Rightarrow> True) \<and>
        (case createGroupForUser noTahesab ''ali'' [fortyToSara (rm_id r)] None None t of Inl _ \<Rightarrow> False
         | Inr (q, u) \<Rightarrow> settledOf (rm_id r) u = 40 \<and> map_option rm_amount (findRemittance (rm_id r) u) = Some 60)" by code_simp
  from outcome_cases [OF this] obtain r t where 1: "createRemittanceForUser dayKeys ''ali'' sixtyToSara None remittanceDb = Inr (r, t)"
    "findRemittance (rm_id r) t = Some r" "rm_status r = RemittanceStatus.PENDING" "rm_amount r = 60"
    "rm_fromUserId r = ''ali''" "rm_toUserId r = ''sara''" "remittanceCode r t = ''IRR''"
    and 2: "case approveRemittance (rm_id r) ''root'' t of Inl _ \<Rightarrow> False | Inr (v, w) \<Rightarrow> True"
    and 3: "case createGroupForUser noTahesab ''ali'' [fortyToSara (rm_id r)] None None t of Inl _ \<Rightarrow> False
         | Inr (q, u) \<Rightarrow> settledOf (rm_id r) u = 40 \<and> map_option rm_amount (findRemittance (rm_id r) u) = Some 60" by blast
  from outcome_cases [OF 3] obtain q u x where
    4: "createGroupForUser noTahesab ''ali'' [fortyToSara (rm_id r)] None None t = Inr (q, u)" "settledOf (rm_id r) u = 40"
      "findRemittance (rm_id r) u = Some x" "rm_amount x = 60" by auto
  show ?thesis by (rule that [OF 1 _ 4]) (use outcome_cases [OF 2] in blast)
qed

lemma remittanceDb_held:
  assumes run: "createRemittanceForUser dayKeys ''ali'' sixtyToSara None remittanceDb = Inr (r, t)"
  shows "ledger_ok t" "heldAs TxRefType.REMITTANCE (rm_id r) (Some (AccountReservationStatus.RESERVED, 60, ''ali'', ''IRR'')) t"
proof -
  from run have "ledger_ok t \<and>
    heldAs TxRefType.REMITTANCE (rm_id r) (Some (AccountReservationStatus.RESERVED, 60, ''ali'', ''IRR'')) t"
  proof (cases rule: createRemittance_outcomes)
    case (placed instrument toUser s2 x)
    let ?u = "(bumpId remittanceDb)\<lparr>remittances := remittances remittanceDb @ [r]\<rparr>"
    have okU: "ledger_ok ?u" using ledger_ok_bump [OF remittanceDb_ok(2)] by simp
    note ok2 = sameLedger_ok [OF side_ledger [OF placed(5)] okU]
    have none: "accountReservations s2 = []" using side_sel(7) [OF placed(5)] by (simp add: bumpId_def remittanceDb_def aliDb_def emptyDb_def)
    have code: "in_code instrument = ''IRR''" using placed(1) by (auto simp: sixtyToSara_def findInstrument_def dest: find_SomeD)
    obtain a v where x: "x = (a, v)" by (cases x)
    have "heldAs TxRefType.REMITTANCE (rm_id r) None s2" by (simp add: reservationsUnder_def none)
    with effect_reserve [OF ok2 _ _ placed(6)] show ?thesis by (auto simp: sixtyToSara_def code effect_def)
  qed simp
  then show "ledger_ok t" "heldAs TxRefType.REMITTANCE (rm_id r) (Some (AccountReservationStatus.RESERVED, 60, ''ali'', ''IRR'')) t"
    by blast+
qed

text \<open>
  C6. No remittance is settled beyond its amount, and no leg settles more than its own: after any
  sequence of operations on remittances, the settlement links of a remittance add up to at most its
  amount in either direction, and one that is settled at all is complete exactly when the whole of its
  amount is settled and partial otherwise.
\<close>

theorem settlements_never_exceed:
  assumes "remittanceRun s t" and "settlements_ok s" and "r \<in> set (remittances t)"
  shows "0 \<le> settledOf (rm_id r) t \<and> settledOf (rm_id r) t \<le> rm_amount r \<and>
    0 \<le> total sl_amount (linksAsLeg (rm_id r) t) \<and> total sl_amount (linksAsLeg (rm_id r) t) \<le> rm_amount r \<and>
    (settledOf (rm_id r) t \<noteq> 0 \<longrightarrow> rm_status r =
       (if settledOf (rm_id r) t = rm_amount r then RemittanceStatus.COMPLETED else RemittanceStatus.PARTIAL))"
  using settlements_okD(3) [OF remittanceRun_settlements [OF assms(1,2)] assms(3)]
    settled_nonneg [OF remittanceRun_settlements [OF assms(1,2)], of "rm_id r"] by (simp add: legSettled_def)

lemma settlements_never_exceed_witness:
  "\<exists>r t q u x. createRemittanceForUser dayKeys ''ali'' sixtyToSara None remittanceDb = Inr (r, t) \<and>
     createGroupForUser noTahesab ''ali'' [fortyToSara (rm_id r)] None None t = Inr (q, u) \<and>
     findRemittance (rm_id r) u = Some x \<and> rm_status x = RemittanceStatus.PARTIAL"
proof -
  obtain r t q u x where 1: "createRemittanceForUser dayKeys ''ali'' sixtyToSara None remittanceDb = Inr (r, t)"
    "createGroupForUser noTahesab ''ali'' [fortyToSara (rm_id r)] None None t = Inr (q, u)" "settledOf (rm_id r) u = 40"
    "findRemittance (rm_id r) u = Some x" "rm_amount x = 60" by (rule remittanceDb_create)
  have run: "remittanceRun remittanceDb u" by (rule rr_group [OF rr_create [OF rr_start 1(1)] 1(2)])
  have x: "x \<in> set (remittances u)" "rm_id x = rm_id r" using findRemittance_SomeD [OF 1(4)] by simp_all
  from settlements_never_exceed [OF run remittanceDb_ok(1) x(1)] 1 x(2) show ?thesis by auto
qed

text \<open>
  C22. Approving a pending remittance whose amount is held moves exactly that amount from the sender's
  wallet to the receiver's, uses the hold up, and touches nothing else; approving again answers the same
  row and changes nothing, and the remittance can no longer be rejected or cancelled.
\<close>

theorem remittance_approval_transfers:
  assumes "findRemittance i s = Some r0" and "rm_status r0 = RemittanceStatus.PENDING" and "ledger_ok s"
    and "heldAs TxRefType.REMITTANCE i
      (Some (AccountReservationStatus.RESERVED, rm_amount r0, rm_fromUserId r0, remittanceCode r0 s)) s"
    and "approveRemittance i ad s = Inr (q, t)"
  shows "ledger_ok t \<and> rm_status q = RemittanceStatus.COMPLETED \<and> findRemittance i t = Some q \<and>
    (\<exists>wf wt. walletId (rm_fromUserId r0) (remittanceCode r0 s) t = Some wf \<and>
       walletId (rm_toUserId r0) (remittanceCode r0 s) t = Some wt \<and>
       (\<forall>j. posted j t = posted j s - (if j = wf then rm_amount r0 else 0) + (if j = wt then rm_amount r0 else 0) \<and>
            held j t = held j s - (if j = wf then rm_amount r0 else 0))) \<and>
    approveRemittance i ad' t = Inr (q, t) \<and> rejectRemittance i t = Inl (BadRequestException ''INVALID_STATUS'') \<and>
    cancelByUser i (rm_fromUserId q) t = Inl (BadRequestException ''INVALID_STATUS'')"
proof -
  obtain wf wt where w: "walletId (rm_fromUserId r0) (remittanceCode r0 s) t = Some wf"
    "walletId (rm_toUserId r0) (remittanceCode r0 s) t = Some wt"
    "\<forall>j. posted j t = posted j s - (if j = wf then rm_amount r0 else 0) + (if j = wt then rm_amount r0 else 0) \<and>
       held j t = held j s - (if j = wf then rm_amount r0 else 0)"
    "rm_status q = RemittanceStatus.COMPLETED" "findRemittance i t = Some q" "ledger_ok t"
    by (rule remittance_approval [OF assms(3,1,2,4,5)])
  then show ?thesis by (auto simp: approveRemittance_def rejectRemittance_def cancelByUser_def closeRemittance_def)
qed

lemma remittance_approval_transfers_witness:
  "\<exists>r t q u w. createRemittanceForUser dayKeys ''ali'' sixtyToSara None remittanceDb = Inr (r, t) \<and>
     approveRemittance (rm_id r) ''root'' t = Inr (q, u) \<and> walletId ''ali'' ''IRR'' u = Some w \<and> held w u = held w t - 60 \<and>
     approveRemittance (rm_id r) ''root'' u = Inr (q, u)"
proof -
  obtain r t q u where 1: "createRemittanceForUser dayKeys ''ali'' sixtyToSara None remittanceDb = Inr (r, t)"
    "findRemittance (rm_id r) t = Some r" "rm_status r = RemittanceStatus.PENDING" "rm_amount r = 60"
    "rm_fromUserId r = ''ali''" "remittanceCode r t = ''IRR''" "approveRemittance (rm_id r) ''root'' t = Inr (q, u)"
    by (rule remittanceDb_create) blast
  have "heldAs TxRefType.REMITTANCE (rm_id r)
      (Some (AccountReservationStatus.RESERVED, rm_amount r, rm_fromUserId r, remittanceCode r t)) t"
    using remittanceDb_held(2) [OF 1(1)] unfolding 1(4-6) .
  from remittance_approval_transfers [OF 1(2,3) remittanceDb_held(1) [OF 1(1)] this 1(7), of "''root''"] 1
  show ?thesis by auto
qed

text \<open>
  C40. Settling a pending remittance strands its hold for good. When a group of legs settles any part of a remittance,
  the remittance leaves the pending status without its reservation being used or released; and from then on, after
  any sequence of operations on remittances, single or in groups, the reservations under it are those of before the
  settlement, and approving it changes nothing or is refused and rejecting and cancelling it are refused.
\<close>

theorem settling_strands_the_hold:
  assumes "createGroupForUser cfg u legs nt kd s = Inr (q, t)" and "settlements_ok s" and "ledger_ok s"
    and "settledOf i t \<noteq> 0" and "remittanceRun t v"
  shows "reservationsUnder TxRefType.REMITTANCE i v = reservationsUnder TxRefType.REMITTANCE i s \<and>
    (\<exists>r. findRemittance i v = Some r \<and>
      (rm_status r = RemittanceStatus.PARTIAL \<and> approveRemittance i ad v = Inl (BadRequestException ''INVALID_STATUS'') \<or>
       rm_status r = RemittanceStatus.COMPLETED \<and> approveRemittance i ad v = Inr (r, v)) \<and>
      rejectRemittance i v = Inl (BadRequestException ''INVALID_STATUS'') \<and>
      cancelByUser i (rm_fromUserId r) v = Inl (BadRequestException ''INVALID_STATUS''))"
proof -
  have ok: "settlements_ok t" "ledger_ok t"
    using settlements_ok_group [OF assms(2,1)] grows_group [OF assms(3,1)] by (simp_all add: grows_def)
  note st = stranded_run [OF assms(5) ok assms(4)]
  then have okv: "settlements_ok v" by (simp add: stranded_def)
  obtain r where r: "findRemittance i v = Some r" "rm_status r = RemittanceStatus.PARTIAL \<or> rm_status r = RemittanceStatus.COMPLETED"
    by (rule settled_refuses [OF okv stranded_settled [OF st ok(1) assms(4)]])
  have "reservationsUnder TxRefType.REMITTANCE i v = reservationsUnder TxRefType.REMITTANCE i s"
    using st group_holds [OF assms(1)] by (simp add: stranded_def reservationsUnder_def)
  then show ?thesis
    using r by (auto simp: approveRemittance_def rejectRemittance_def cancelByUser_def closeRemittance_def)
qed

lemma settling_strands_the_hold_witness:
  "\<exists>r t q u. createRemittanceForUser dayKeys ''ali'' sixtyToSara None remittanceDb = Inr (r, t) \<and>
     createGroupForUser noTahesab ''ali'' [fortyToSara (rm_id r)] None None t = Inr (q, u) \<and>
     (\<forall>v. remittanceRun u v \<longrightarrow> heldUnder TxRefType.REMITTANCE (rm_id r) v = 60 \<and>
        rejectRemittance (rm_id r) v = Inl (BadRequestException ''INVALID_STATUS''))"
proof -
  obtain r t q u where 1: "createRemittanceForUser dayKeys ''ali'' sixtyToSara None remittanceDb = Inr (r, t)"
    "createGroupForUser noTahesab ''ali'' [fortyToSara (rm_id r)] None None t = Inr (q, u)" "settledOf (rm_id r) u = 40"
    by (rule remittanceDb_create)
  have ok: "settlements_ok t" by (rule remittanceRun_settlements [OF rr_create [OF rr_start 1(1)] remittanceDb_ok(1)])
  have "settledOf (rm_id r) u \<noteq> 0" using 1(3) by simp
  note st = settling_strands_the_hold [OF 1(2) ok remittanceDb_held(1) [OF 1(1)] this, of _ "''root''"]
  moreover have "heldUnder TxRefType.REMITTANCE (rm_id r) t = 60"
    using remittanceDb_held(2) [OF 1(1)] by (auto simp: heldUnder_def)
  ultimately have "\<forall>v. remittanceRun u v \<longrightarrow> heldUnder TxRefType.REMITTANCE (rm_id r) v = 60 \<and>
        rejectRemittance (rm_id r) v = Inl (BadRequestException ''INVALID_STATUS'')"
    by (auto simp: heldUnder_def)
  with 1(1,2) show ?thesis by blast
qed

end
