(* ===== verification/P2P.thy ===== *)
theory P2P
  imports Remittances
begin

text \<open>
  \<open>modules/p2p-allocations\<close>: withdrawals paid by the deposits of other users. An administrator assigns
  parts of a withdrawal to deposits; the payer proves the payment, the receiver and the administrator
  confirm it, and the finalization moves the amount from the withdrawer's wallet to the payer's. Each
  allocation takes a part of the withdrawal's reservations with it, and gives it back when it is
  cancelled or expires. The environment variables and the random payment codes are parameters; the
  operations return the row, from which \<open>buildAllocationVm\<close> makes the view.
\<close>

section \<open>Derived statuses\<close>

definition deriveWithdrawP2PStatus :: "decimal \<Rightarrow> decimal \<Rightarrow> decimal \<Rightarrow> bool \<Rightarrow> bool \<Rightarrow> WithdrawStatus" where
  "deriveWithdrawP2PStatus amount assigned settled cancelled expired =
     (if cancelled then WithdrawStatus.CANCELLED
      else if expired then WithdrawStatus.EXPIRED
      else if amount \<le> settled then WithdrawStatus.SETTLED
      else if 0 < settled then WithdrawStatus.PARTIALLY_SETTLED
      else if amount \<le> assigned then WithdrawStatus.FULLY_ASSIGNED
      else if 0 < assigned then WithdrawStatus.PARTIALLY_ASSIGNED
      else WithdrawStatus.WAITING_ASSIGNMENT)"

definition deriveDepositP2PStatus :: "decimal \<Rightarrow> decimal \<Rightarrow> decimal \<Rightarrow> bool \<Rightarrow> bool \<Rightarrow> DepositStatus" where
  "deriveDepositP2PStatus requestedAmount assigned settled cancelled expired =
     (if cancelled then DepositStatus.CANCELLED
      else if expired then DepositStatus.EXPIRED
      else if requestedAmount \<le> settled then DepositStatus.SETTLED
      else if 0 < settled then DepositStatus.PARTIALLY_SETTLED
      else if requestedAmount \<le> assigned then DepositStatus.FULLY_ASSIGNED
      else if 0 < assigned then DepositStatus.PARTIALLY_ASSIGNED
      else DepositStatus.WAITING_ASSIGNMENT)"

section \<open>Environment\<close>

record p2pEnv =
  pe_ttlMinutes :: "decimal option"
  pe_confirmationMode :: "string option"
  pe_paymentCode :: "id \<Rightarrow> string"
  pe_crypto :: destinationCrypto

text \<open>\<open>pe_ttlMinutes\<close> is the number the variable holds, \<open>None\<close> when it is not set or not finite.\<close>

definition getAllocationTtlMinutes :: "p2pEnv \<Rightarrow> decimal" where
  "getAllocationTtlMinutes env =
     (case pe_ttlMinutes env of Some v \<Rightarrow> (if 0 < v then v else 1440) | None \<Rightarrow> 1440)"

definition getExpiringSoonThreshold :: "decimal option \<Rightarrow> time \<Rightarrow> time" where
  "getExpiringSoonThreshold minutes now =
     (let clamped = (case minutes of Some v \<Rightarrow> (if 0 < v then v else 60) | None \<Rightarrow> 60)
      in \<lfloor>of_int now + clamped * 60000\<rfloor>)"

definition getConfirmationMode :: "p2pEnv \<Rightarrow> P2PConfirmationMode" where
  "getConfirmationMode env =
     (let raw = map upperChar (withDefault (pe_confirmationMode env) ''RECEIVER'')
      in if raw = ''ADMIN'' then P2PConfirmationMode.ADMIN
         else if raw = ''BOTH'' then P2PConfirmationMode.BOTH
         else if raw = ''RECEIVER_OR_ADMIN'' \<or> raw = ''RECEIVER-OR-ADMIN'' then P2PConfirmationMode.RECEIVER_OR_ADMIN
         else P2PConfirmationMode.RECEIVER)"

definition ensureFinalizable :: "p2pEnv \<Rightarrow> p2pAllocation \<Rightarrow> err option" where
  "ensureFinalizable env allocation =
     (let refused = Some (BadRequestException ''P2P_ALLOCATION_NOT_FINALIZABLE'')
      in if al_status allocation = P2PAllocationStatus.DISPUTED
           then Some (BadRequestException ''Allocation cannot be finalized'')
         else case getConfirmationMode env of
           P2PConfirmationMode.RECEIVER \<Rightarrow>
             (if al_status allocation \<noteq> P2PAllocationStatus.RECEIVER_CONFIRMED then refused else None)
         | P2PConfirmationMode.ADMIN \<Rightarrow>
             (if al_status allocation \<noteq> P2PAllocationStatus.ADMIN_VERIFIED then refused else None)
         | P2PConfirmationMode.RECEIVER_OR_ADMIN \<Rightarrow>
             (if al_receiverConfirmedAt allocation = None \<and> al_adminVerifiedAt allocation = None then refused else None)
         | P2PConfirmationMode.BOTH \<Rightarrow>
             (if al_receiverConfirmedAt allocation = None \<or> al_adminVerifiedAt allocation = None then refused else None))"

definition isFinalizable :: "p2pEnv \<Rightarrow> p2pAllocation \<Rightarrow> bool" where
  "isFinalizable env allocation = (ensureFinalizable env allocation = None)"

definition allocationExpired :: "p2pAllocation \<Rightarrow> time \<Rightarrow> bool" where
  "allocationExpired allocation now = (al_expiresAt allocation \<le> now)"

definition allocationExpiresSoon :: "p2pAllocation \<Rightarrow> time option \<Rightarrow> time \<Rightarrow> bool" where
  "allocationExpiresSoon allocation threshold now =
     (al_expiresAt allocation \<le> withDefault threshold (getExpiringSoonThreshold None now) \<and> now < al_expiresAt allocation)"

section \<open>Rows\<close>

definition findAllocation :: "id \<Rightarrow> db \<Rightarrow> p2pAllocation option" where
  "findAllocation i s = findFirst (\<lambda>a. al_id a = i) (p2pAllocations s)"

text \<open>\<open>update({ where: { id }, data })\<close>: the fields of \<open>data\<close>, and the time of the update.\<close>

definition modifyAllocation :: "id \<Rightarrow> (p2pAllocation \<Rightarrow> p2pAllocation) \<Rightarrow> db \<Rightarrow> db" where
  "modifyAllocation i f s =
     s\<lparr>p2pAllocations := updateRows (\<lambda>a. al_id a = i) (\<lambda>a. (f a)\<lparr>al_updatedAt := db_now s\<rparr>) (p2pAllocations s)\<rparr>"

definition modifyWithdraw :: "id \<Rightarrow> (withdrawRequest \<Rightarrow> withdrawRequest) \<Rightarrow> db \<Rightarrow> db" where
  "modifyWithdraw i f s =
     s\<lparr>withdrawRequests := updateRows (\<lambda>w. wd_id w = i) (\<lambda>w. (f w)\<lparr>wd_updatedAt := db_now s\<rparr>) (withdrawRequests s)\<rparr>"

definition modifyDeposit :: "id \<Rightarrow> (depositRequest \<Rightarrow> depositRequest) \<Rightarrow> db \<Rightarrow> db" where
  "modifyDeposit i f s =
     s\<lparr>depositRequests := updateRows (\<lambda>d. dp_id d = i) (\<lambda>d. (f d)\<lparr>dp_updatedAt := db_now s\<rparr>) (depositRequests s)\<rparr>"

text \<open>An allocation with its withdrawal and its deposit; both are foreign keys, so the rows exist.\<close>

definition loadAllocation :: "id \<Rightarrow> db \<Rightarrow> err + p2pAllocation \<times> withdrawRequest \<times> depositRequest" where
  "loadAllocation i s =
     (case findAllocation i s of
        None \<Rightarrow> Inl (NotFoundException ''Allocation not found'')
      | Some a \<Rightarrow>
          (case (findWithdraw (al_withdrawalId a) s, findDeposit (al_depositId a) s) of
             (Some w, Some d) \<Rightarrow> Inr (a, w, d)
           | _ \<Rightarrow> Inl (TypeError ''allocation'')))"

section \<open>Reservations\<close>

definition modifyReservation :: "id \<Rightarrow> decimal \<Rightarrow> db \<Rightarrow> db" where
  "modifyReservation i amount s = updateReservation i (\<lambda>r. r\<lparr>ar_amount := amount\<rparr>) s"

definition modifyLimitReservation :: "id \<Rightarrow> decimal \<Rightarrow> db \<Rightarrow> db" where
  "modifyLimitReservation i amount s =
     s\<lparr>limitReservations := updateRows (\<lambda>r. lr_id r = i) (\<lambda>r. r\<lparr>lr_amount := amount\<rparr>) (limitReservations s)\<rparr>"

definition createLimitReservation :: "limitReservation \<Rightarrow> db \<Rightarrow> unit tx" where
  "createLimitReservation r s =
     (if \<exists>x\<in>set (limitReservations s). lr_refType x = lr_refType r \<and> lr_refId x = lr_refId r \<and> lr_usageId x = lr_usageId r
        then Inl (UniqueConstraintViolation ''LimitReservation'')
      else Inr ((), (bumpId s)\<lparr>limitReservations := limitReservations s @ [r]\<rparr>))"

definition firstReservation :: "TxRefType \<Rightarrow> id \<Rightarrow> db \<Rightarrow> accountReservation option" where
  "firstReservation refType refId s =
     findFirst (\<lambda>r. ar_refType r = refType \<and> ar_refId r = refId) (accountReservations s)"

definition splitLimitReservation :: "id \<Rightarrow> decimal \<Rightarrow> limitReservation \<Rightarrow> db \<Rightarrow> unit tx" where
  "splitLimitReservation allocationId amount reservation s =
     createLimitReservation
       \<lparr>lr_id = freshId s, lr_userId = lr_userId reservation, lr_usageId = lr_usageId reservation, lr_amount = amount,
        lr_refType = TxRefType.WITHDRAW_ALLOCATION, lr_refId = allocationId, lr_status = lr_status reservation\<rparr>
       (modifyLimitReservation (lr_id reservation) (subDec (Some (lr_amount reservation)) (Some amount)) s)"

definition splitReservationForAllocation :: "id \<Rightarrow> id \<Rightarrow> decimal \<Rightarrow> db \<Rightarrow> unit tx" where
  "splitReservationForAllocation withdrawalId allocationId amount s =
     (case firstReservation TxRefType.WITHDRAW withdrawalId s of
        None \<Rightarrow> Inl (BadRequestException ''Withdrawal reservation not found'')
      | Some r \<Rightarrow>
          (if ar_amount r < amount then Inl (BadRequestException ''Withdrawal reservation insufficient'')
           else bindE (createReservation (ar_accountId r) amount TxRefType.WITHDRAW_ALLOCATION allocationId (ar_status r)
                  (modifyReservation (ar_id r) (subDec (Some (ar_amount r)) (Some amount)) s)) (\<lambda>_ s.
                forE (reservationsOf TxRefType.WITHDRAW withdrawalId s) (splitLimitReservation allocationId amount) s)))"

definition mergeLimitReservation :: "p2pAllocation \<Rightarrow> limitReservation \<Rightarrow> db \<Rightarrow> unit tx" where
  "mergeLimitReservation allocation reservation s =
     (let s' = (case findFirst (\<lambda>r. lr_refType r = TxRefType.WITHDRAW \<and> lr_refId r = al_withdrawalId allocation \<and>
                         lr_usageId r = lr_usageId reservation) (limitReservations s) of
                  None \<Rightarrow> s
                | Some original \<Rightarrow> modifyLimitReservation (lr_id original)
                    (addDec (Some (lr_amount original)) (Some (al_amount allocation))) s)
      in Inr ((), s'\<lparr>limitReservations := deleteRows (\<lambda>r. lr_id r = lr_id reservation) (limitReservations s')\<rparr>))"

definition mergeAccountReservation :: "p2pAllocation \<Rightarrow> db \<Rightarrow> db" where
  "mergeAccountReservation allocation s =
     (case firstReservation TxRefType.WITHDRAW_ALLOCATION (al_id allocation) s of
        None \<Rightarrow> s
      | Some ar \<Rightarrow>
          (let s' = (case findReservation TxRefType.WITHDRAW (al_withdrawalId allocation) (ar_accountId ar) s of
                       None \<Rightarrow> s
                     | Some original \<Rightarrow> modifyReservation (ar_id original)
                         (addDec (Some (ar_amount original)) (Some (al_amount allocation))) s)
           in s'\<lparr>accountReservations := deleteRows (\<lambda>r. ar_id r = ar_id ar) (accountReservations s')\<rparr>))"

definition mergeReservationBack :: "p2pAllocation \<Rightarrow> db \<Rightarrow> unit tx" where
  "mergeReservationBack allocation s =
     (let s' = mergeAccountReservation allocation s
      in forE (reservationsOf TxRefType.WITHDRAW_ALLOCATION (al_id allocation) s') (mergeLimitReservation allocation) s')"

section \<open>Assignment\<close>

record assignDto =
  as_systemDestination :: bool
  as_destinationId :: "id option"
  as_amount :: "decimal option"
  as_candidateId :: "id option"
  as_depositId :: "id option"
  as_items :: "(id \<times> decimal) list option"

definition normalizeAssignItems :: "assignDto \<Rightarrow> (id \<times> decimal) list" where
  "normalizeAssignItems dto =
     (if withDefault (as_items dto) [] \<noteq> [] then the (as_items dto)
      else let singleId = orElse (as_depositId dto) (as_candidateId dto)
      in if truthy singleId \<and> as_amount dto \<noteq> None then [(the singleId, the (as_amount dto))] else [])"

definition resolveAssignmentDestinationSnapshot ::
  "p2pEnv \<Rightarrow> withdrawRequest \<Rightarrow> assignDto \<Rightarrow> db \<Rightarrow> err + destinationSnapshot" where
  "resolveAssignmentDestinationSnapshot env withdrawal dto s =
     (let cr = pe_crypto env
      in if as_systemDestination dto
           then (if \<not> truthy (as_destinationId dto) then Inl (BadRequestException ''P2P_ASSIGN_INVALID'')
                 else resolveCollectionDestination cr (the (as_destinationId dto)) s)
         else case orElse (wd_destinationSnapshot withdrawal)
                (buildLegacySnapshot (wd_iban withdrawal) (wd_cardNumber withdrawal) (wd_bankName withdrawal)) of
           None \<Rightarrow> Inl (BadRequestException ''P2P_WITHDRAWAL_MISSING_DESTINATION'')
         | Some snapshot \<Rightarrow>
             (if truthy (wd_payoutDestinationId withdrawal) \<and> \<not> truthy (ds_title snapshot)
                then map_sum id (\<lambda>resolved. snapshot\<lparr>ds_value := orElse (ds_value snapshot) (ds_value resolved),
                        ds_maskedValue := orElse (ds_maskedValue snapshot) (ds_maskedValue resolved),
                        ds_bankName := orElse (ds_bankName snapshot) (ds_bankName resolved),
                        ds_ownerName := orElse (ds_ownerName snapshot) (ds_ownerName resolved),
                        ds_title := orElse (ds_title resolved) (ds_title snapshot)\<rparr>)
                      (if withDefault (wd_channel withdrawal) WithdrawalChannel.USER_TO_USER = WithdrawalChannel.USER_TO_ORG
                         then resolveCollectionDestination cr (the (wd_payoutDestinationId withdrawal)) s
                       else resolvePayoutDestinationForUser cr (wd_userId withdrawal)
                              (the (wd_payoutDestinationId withdrawal)) s)
              else Inr snapshot))"

text \<open>What the loop over the items carries: the running totals of the withdrawal and of each deposit.\<close>

record depositState =
  dx_assignedTotal :: decimal
  dx_remaining :: decimal
  dx_settledTotal :: decimal

record assignState =
  ax_withdrawalAssignedTotal :: decimal
  ax_depositState :: "id \<Rightarrow> depositState"
  ax_allocations :: "p2pAllocation list"

definition depositStateOf :: "depositRequest \<Rightarrow> depositState" where
  "depositStateOf d = \<lparr>dx_assignedTotal = dp_assignedAmountTotal d,
     dx_remaining = withDefault (dp_remainingAmount d) (dp_amount d), dx_settledTotal = dp_settledAmountTotal d\<rparr>"

definition createAllocationRow :: "p2pAllocation \<Rightarrow> db \<Rightarrow> p2pAllocation tx" where
  "createAllocationRow a s =
     (if \<exists>x\<in>set (p2pAllocations s). al_paymentCode x = al_paymentCode a
        then Inl (UniqueConstraintViolation ''P2PAllocation'')
      else Inr (a, (bumpId s)\<lparr>p2pAllocations := p2pAllocations s @ [a]\<rparr>))"

definition newAllocation ::
  "p2pEnv \<Rightarrow> withdrawRequest \<Rightarrow> destinationSnapshot \<Rightarrow> time \<Rightarrow> id \<Rightarrow> decimal \<Rightarrow> db \<Rightarrow> p2pAllocation" where
  "newAllocation env withdrawal snapshot expiresAt depositId amount s =
     \<lparr>al_id = freshId s, al_createdAt = db_now s, al_updatedAt = db_now s, al_withdrawalId = wd_id withdrawal,
      al_depositId = depositId, al_amount = amount, al_status = P2PAllocationStatus.ASSIGNED,
      al_paymentCode = pe_paymentCode env (freshId s), al_expiresAt = expiresAt, al_destinationSnapshot = snapshot,
      al_paymentMethod = PaymentMethod.UNKNOWN, al_payerBankRef = None, al_proofSubmittedAt = None,
      al_payerPaidAt = None, al_receiverConfirmedAt = None, al_receiverDisputedAt = None,
      al_receiverDisputeReason = None, al_adminVerifiedAt = None, al_adminVerifierId = None, al_adminNote = None,
      al_settledAt = None, al_withdrawerAccountTxId = None, al_payerAccountTxId = None\<rparr>"

definition assignItem ::
  "p2pEnv \<Rightarrow> withdrawRequest \<Rightarrow> destinationSnapshot \<Rightarrow> time \<Rightarrow> db \<Rightarrow> id \<times> decimal \<Rightarrow> assignState \<Rightarrow> db \<Rightarrow> assignState tx" where
  "assignItem env withdrawal snapshot expiresAt s0 item st s =
     (case findDeposit (fst item) s0 of
        None \<Rightarrow> Inl (NotFoundException (''Deposit '' @ fst item @ '' not found''))
      | Some deposit \<Rightarrow>
          (if dp_purpose deposit \<noteq> RequestPurpose.P2P then Inl (BadRequestException ''P2P_FORBIDDEN'')
           else let state = ax_depositState st (dp_id deposit); amount = snd item
           in if dx_remaining state < amount
                then Inl (BadRequestException ''P2P_ASSIGN_AMOUNT_EXCEEDS_DEPOSIT_REMAINING'')
              else bindE (createAllocationRow (newAllocation env withdrawal snapshot expiresAt (dp_id deposit) amount s) s)
                (\<lambda>allocation s.
              bindE (splitReservationForAllocation (wd_id withdrawal) (al_id allocation) amount s) (\<lambda>_ s.
              let assignedTotal = ax_withdrawalAssignedTotal st + amount;
                  state' = state\<lparr>dx_assignedTotal := dx_assignedTotal state + amount,
                                 dx_remaining := dx_remaining state - amount\<rparr>;
                  withdrawStatus = deriveWithdrawP2PStatus (wd_amount withdrawal) assignedTotal
                                     (wd_settledAmountTotal withdrawal) False False;
                  depositStatus = deriveDepositP2PStatus (dp_amount deposit) (dx_assignedTotal state')
                                    (dx_settledTotal state') False False;
                  s = modifyWithdraw (wd_id withdrawal) (\<lambda>w. w\<lparr>wd_assignedAmountTotal := assignedTotal,
                        wd_status := withdrawStatus,
                        wd_channel := Some (withDefault (wd_channel withdrawal) WithdrawalChannel.USER_TO_USER)\<rparr>) s;
                  s = modifyDeposit (dp_id deposit) (\<lambda>d. d\<lparr>dp_assignedAmountTotal := dx_assignedTotal state',
                        dp_remainingAmount := Some (dx_remaining state'), dp_status := depositStatus\<rparr>) s
              in Inr (\<lparr>ax_withdrawalAssignedTotal = assignedTotal,
                       ax_depositState = (ax_depositState st)(dp_id deposit := state'),
                       ax_allocations = ax_allocations st @ [allocation]\<rparr>, s)))))"

definition assignTx ::
  "p2pEnv \<Rightarrow> id \<Rightarrow> assignDto \<Rightarrow> (id \<times> decimal) list \<Rightarrow> db \<Rightarrow> p2pAllocation list tx" where
  "assignTx env withdrawalId dto items s =
     (case findWithdraw withdrawalId s of
        None \<Rightarrow> Inl (NotFoundException ''Withdraw not found'')
      | Some withdrawal \<Rightarrow>
          (if wd_purpose withdrawal \<noteq> RequestPurpose.P2P then Inl (BadRequestException ''P2P_FORBIDDEN'')
           else if subDec (Some (wd_amount withdrawal)) (Some (wd_assignedAmountTotal withdrawal)) < total snd items
             then Inl (BadRequestException ''P2P_ASSIGN_SUM_EXCEEDS_REMAINING'')
           else case resolveAssignmentDestinationSnapshot env withdrawal dto s of
             Inl e \<Rightarrow> Inl e
           | Inr snapshot \<Rightarrow>
               (let expiresAt = \<lfloor>of_int (db_now s) + getAllocationTtlMinutes env * 60000\<rfloor>
                in bindE (foldE items (assignItem env withdrawal snapshot expiresAt s)
                     \<lparr>ax_withdrawalAssignedTotal = wd_assignedAmountTotal withdrawal,
                      ax_depositState = (\<lambda>i. case findDeposit i s of
                          None \<Rightarrow> \<lparr>dx_assignedTotal = 0, dx_remaining = 0, dx_settledTotal = 0\<rparr>
                        | Some d \<Rightarrow> depositStateOf d),
                      ax_allocations = []\<rparr> s) (\<lambda>st s. Inr (ax_allocations st, s)))))"

definition assignAllocations ::
  "p2pEnv \<Rightarrow> id \<Rightarrow> assignDto \<Rightarrow> string option \<Rightarrow> db \<Rightarrow> p2pAllocation list tx" where
  "assignAllocations env withdrawalId dto idempotencyKey s =
     (let items = normalizeAssignItems dto
      in if items = [] then Inl (BadRequestException ''P2P_ASSIGN_INVALID'')
         else if list_ex (\<lambda>it. snd it \<le> 0) items then Inl (BadRequestException ''P2P_ASSIGN_INVALID'')
         else case (if truthy idempotencyKey
                then findFirst (\<lambda>r. ai_key r = the idempotencyKey \<and> ai_withdrawalId r = withdrawalId)
                       (p2pAssignmentIdempotencies s) else None) of
           Some existing \<Rightarrow> Inr (ai_responseJson existing, s)
         | None \<Rightarrow>
             bindE (assignTx env withdrawalId dto items s) (\<lambda>allocations s.
             if truthy idempotencyKey
               then Inr (allocations, s\<lparr>p2pAssignmentIdempotencies := p2pAssignmentIdempotencies s @
                      [\<lparr>ai_key = the idempotencyKey, ai_withdrawalId = withdrawalId, ai_responseJson = allocations\<rparr>]\<rparr>)
             else Inr (allocations, s)))"

section \<open>Proof, confirmation and verification\<close>

record proofDto =
  pf_bankRef :: string
  pf_method :: PaymentMethod
  pf_paidAt :: "time option"
  pf_fileIds :: "id list"

definition proofLinks :: "id \<Rightarrow> db \<Rightarrow> attachmentLink list" where
  "proofLinks allocationId s =
     findMany (\<lambda>l. lk_entityType l = AttachmentLinkEntityType.P2P_ALLOCATION \<and> lk_entityId l = allocationId \<and>
        lk_kind l = AttachmentLinkKind.P2P_PROOF) (attachmentLinks s)"

definition createProofLink :: "id \<Rightarrow> id \<Rightarrow> id \<Rightarrow> db \<Rightarrow> unit tx" where
  "createProofLink allocationId userId fileId s =
     Inr ((), (bumpId s)\<lparr>attachmentLinks := attachmentLinks s @
       [\<lparr>lk_id = freshId s, lk_createdAt = db_now s, lk_entityType = AttachmentLinkEntityType.P2P_ALLOCATION, lk_entityId = allocationId,
         lk_kind = AttachmentLinkKind.P2P_PROOF, lk_fileId = fileId, lk_uploaderUserId = Some userId\<rparr>]\<rparr>)"

definition updateAllocation :: "id \<Rightarrow> (p2pAllocation \<Rightarrow> p2pAllocation) \<Rightarrow> db \<Rightarrow> p2pAllocation tx" where
  "updateAllocation i f s =
     (let s' = modifyAllocation i f s
      in case findAllocation i s' of
           None \<Rightarrow> Inl (NotFoundException ''Allocation not found'')
         | Some a \<Rightarrow> Inr (a, s'))"

definition submitPayerProof :: "id \<Rightarrow> id \<Rightarrow> proofDto \<Rightarrow> db \<Rightarrow> p2pAllocation tx" where
  "submitPayerProof allocationId userId dto s =
     (if pf_fileIds dto = [] then Inl (BadRequestException ''P2P_PROOF_REQUIRED'')
      else case loadAllocation allocationId s of
        Inl e \<Rightarrow> Inl e
      | Inr (a, w, d) \<Rightarrow>
          (if dp_userId d \<noteq> userId then Inl (ForbiddenException ''P2P_FORBIDDEN'')
           else if al_status a \<in> {P2PAllocationStatus.CANCELLED, P2PAllocationStatus.EXPIRED,
                     P2PAllocationStatus.SETTLED, P2PAllocationStatus.DISPUTED}
             then Inl (BadRequestException ''Allocation is not assignable'')
           else if al_status a \<notin> {P2PAllocationStatus.ASSIGNED, P2PAllocationStatus.PROOF_SUBMITTED}
             then Inl (BadRequestException ''Allocation is not assignable'')
           else if al_receiverConfirmedAt a \<noteq> None \<or> al_adminVerifiedAt a \<noteq> None
             then Inl (BadRequestException ''Allocation is not assignable'')
           else if al_status a = P2PAllocationStatus.ASSIGNED \<and> allocationExpired a (db_now s)
             then Inl (BadRequestException ''P2P_ALLOCATION_EXPIRED'')
           else if 2 \<le> length (proofLinks allocationId s)
             then Inl (BadRequestException ''P2P_PROOF_MAX_ATTEMPTS_REACHED'')
           else let files = findMany (\<lambda>f. fi_id f \<in> set (pf_fileIds dto)) (fileRows s)
           in if length files \<noteq> length (pf_fileIds dto) then Inl (BadRequestException ''Invalid file IDs'')
              else if list_ex (\<lambda>f. fi_uploadedById f \<noteq> userId) files then Inl (ForbiddenException ''P2P_FORBIDDEN'')
              else bindE (forE (pf_fileIds dto) (createProofLink allocationId userId) s) (\<lambda>_ s.
                   updateAllocation allocationId (\<lambda>a. a\<lparr>al_status := P2PAllocationStatus.PROOF_SUBMITTED,
                      al_payerBankRef := Some (pf_bankRef dto), al_paymentMethod := pf_method dto,
                      al_payerPaidAt := Some (withDefault (pf_paidAt dto) (db_now s)),
                      al_proofSubmittedAt := Some (db_now s)\<rparr>) s)))"

definition receiverConfirm :: "p2pEnv \<Rightarrow> id \<Rightarrow> id \<Rightarrow> bool \<Rightarrow> string option \<Rightarrow> db \<Rightarrow> p2pAllocation tx" where
  "receiverConfirm env allocationId userId confirmed reason s =
     (case loadAllocation allocationId s of
        Inl e \<Rightarrow> Inl e
      | Inr (a, w, d) \<Rightarrow>
          (if wd_userId w \<noteq> userId then Inl (ForbiddenException ''P2P_FORBIDDEN'')
           else if al_status a \<notin> {P2PAllocationStatus.PROOF_SUBMITTED, P2PAllocationStatus.ADMIN_VERIFIED}
             then Inl (BadRequestException ''Allocation is not awaiting confirmation'')
           else if getConfirmationMode env = P2PConfirmationMode.ADMIN then Inl (ForbiddenException ''P2P_FORBIDDEN'')
           else if confirmed
             then updateAllocation allocationId (\<lambda>x. x\<lparr>al_status :=
                      (if al_status a = P2PAllocationStatus.ADMIN_VERIFIED then al_status a
                       else P2PAllocationStatus.RECEIVER_CONFIRMED),
                    al_receiverConfirmedAt := Some (db_now s)\<rparr>) s
           else updateAllocation allocationId (\<lambda>x. x\<lparr>al_status := P2PAllocationStatus.DISPUTED,
                    al_receiverDisputedAt := Some (db_now s),
                    al_receiverDisputeReason := Some (withDefault reason ''Receiver disputed payment'')\<rparr>) s))"

definition adminVerify :: "id \<Rightarrow> id \<Rightarrow> bool \<Rightarrow> string option \<Rightarrow> db \<Rightarrow> p2pAllocation tx" where
  "adminVerify allocationId adminId approved nt s =
     (case loadAllocation allocationId s of
        Inl e \<Rightarrow> Inl e
      | Inr (a, w, d) \<Rightarrow>
          (if al_status a \<notin> {P2PAllocationStatus.PROOF_SUBMITTED, P2PAllocationStatus.RECEIVER_CONFIRMED}
             then Inl (BadRequestException ''Allocation is not awaiting verification'')
           else updateAllocation allocationId (\<lambda>x. x\<lparr>al_status :=
                    (if approved then P2PAllocationStatus.ADMIN_VERIFIED else P2PAllocationStatus.DISPUTED),
                  al_adminVerifiedAt := Some (db_now s), al_adminVerifierId := Some adminId,
                  al_adminNote := orElse nt (al_adminNote a)\<rparr>) s))"

section \<open>Finalization, cancellation and expiry\<close>

definition finalizeAllocation :: "p2pEnv \<Rightarrow> id \<Rightarrow> id \<Rightarrow> db \<Rightarrow> p2pAllocation tx" where
  "finalizeAllocation env allocationId adminId s =
     (case loadAllocation allocationId s of
        Inl e \<Rightarrow> Inl e
      | Inr (a, w, d) \<Rightarrow>
          (if al_status a = P2PAllocationStatus.SETTLED then Inr (a, s)
           else if al_status a \<in> {P2PAllocationStatus.CANCELLED, P2PAllocationStatus.EXPIRED, P2PAllocationStatus.DISPUTED}
             then Inl (BadRequestException ''Allocation cannot be finalized'')
           else if al_status a = P2PAllocationStatus.ASSIGNED \<and> allocationExpired a (db_now s)
             then Inl (BadRequestException ''P2P_ALLOCATION_EXPIRED'')
           else case ensureFinalizable env a of
             Some e \<Rightarrow> Inl e
           | None \<Rightarrow>
          (if truthy (al_withdrawerAccountTxId a) \<or> truthy (al_payerAccountTxId a) then Inr (a, s)
           else bindE (consumeFunds (wd_userId w) IRR_INSTRUMENT_CODE TxRefType.WITHDRAW_ALLOCATION (al_id a) s) (\<lambda>_ s.
                bindE (consumeLimit TxRefType.WITHDRAW_ALLOCATION (al_id a) s) (\<lambda>_ s.
                bindE (getOrCreateAccount (wd_userId w) IRR_INSTRUMENT_CODE s) (\<lambda>withdrawerAccount s.
                bindE (getOrCreateAccount (dp_userId d) IRR_INSTRUMENT_CODE s) (\<lambda>payerAccount s.
                bindE (applyTransaction (ac_id withdrawerAccount) (- al_amount a) AccountTxType.REMITTANCE
                         TxRefType.WITHDRAW_ALLOCATION (Some (al_id a)) (Some adminId) None s) (\<lambda>debitTx s.
                bindE (applyTransaction (ac_id payerAccount) (al_amount a) AccountTxType.REMITTANCE
                         TxRefType.WITHDRAW_ALLOCATION (Some (al_id a)) (Some adminId) None s) (\<lambda>creditTx s.
                let s = modifyAllocation (al_id a) (\<lambda>x. x\<lparr>al_status := P2PAllocationStatus.SETTLED,
                          al_settledAt := Some (db_now s), al_withdrawerAccountTxId := Some (tx_id (fst debitTx)),
                          al_payerAccountTxId := Some (tx_id (fst creditTx))\<rparr>) s;
                    withdrawalSettled = addDec (Some (wd_settledAmountTotal w)) (Some (al_amount a));
                    depositSettled = addDec (Some (dp_settledAmountTotal d)) (Some (al_amount a));
                    s = modifyWithdraw (al_withdrawalId a) (\<lambda>x. x\<lparr>wd_settledAmountTotal := withdrawalSettled,
                          wd_status := deriveWithdrawP2PStatus (wd_amount w) (wd_assignedAmountTotal w)
                                         withdrawalSettled False False\<rparr>) s;
                    s = modifyDeposit (al_depositId a) (\<lambda>x. x\<lparr>dp_settledAmountTotal := depositSettled,
                          dp_status := deriveDepositP2PStatus (dp_amount d) (dp_assignedAmountTotal d)
                                         depositSettled False False\<rparr>) s
                in case findAllocation (al_id a) s of
                     None \<Rightarrow> Inl (NotFoundException ''Allocation not found'')
                   | Some reloaded \<Rightarrow> Inr (reloaded, s))))))))))"

text \<open>What \<open>cancelAllocation\<close> and \<open>expireAllocations\<close> share: the amount goes back to both requests.\<close>

definition giveBack :: "P2PAllocationStatus \<Rightarrow> p2pAllocation \<Rightarrow> withdrawRequest \<Rightarrow> depositRequest \<Rightarrow> db \<Rightarrow> unit tx" where
  "giveBack status a w d s =
     bindE (mergeReservationBack a s) (\<lambda>_ s.
     let s = modifyAllocation (al_id a) (\<lambda>x. x\<lparr>al_status := status\<rparr>) s;
         withdrawalAssigned = subDec (Some (wd_assignedAmountTotal w)) (Some (al_amount a));
         depositAssigned = subDec (Some (dp_assignedAmountTotal d)) (Some (al_amount a));
         s = modifyWithdraw (al_withdrawalId a) (\<lambda>x. x\<lparr>wd_assignedAmountTotal := withdrawalAssigned,
               wd_status := deriveWithdrawP2PStatus (wd_amount w) withdrawalAssigned (wd_settledAmountTotal w)
                              False False\<rparr>) s;
         s = modifyDeposit (al_depositId a) (\<lambda>x. x\<lparr>dp_assignedAmountTotal := depositAssigned,
               dp_remainingAmount := Some (withDefault (dp_remainingAmount d) (dp_amount d) + al_amount a),
               dp_status := deriveDepositP2PStatus (dp_amount d) depositAssigned (dp_settledAmountTotal d)
                              False False\<rparr>) s
     in Inr ((), s))"

definition cancelAllocation :: "id \<Rightarrow> db \<Rightarrow> p2pAllocation tx" where
  "cancelAllocation allocationId s =
     (case loadAllocation allocationId s of
        Inl e \<Rightarrow> Inl e
      | Inr (a, w, d) \<Rightarrow>
          (if al_status a \<in> {P2PAllocationStatus.CANCELLED, P2PAllocationStatus.EXPIRED} then Inr (a, s)
           else if al_status a = P2PAllocationStatus.SETTLED then Inl (BadRequestException ''Allocation already settled'')
           else bindE (giveBack P2PAllocationStatus.CANCELLED a w d s) (\<lambda>_ s.
                case findAllocation (al_id a) s of
                  None \<Rightarrow> Inl (NotFoundException ''Allocation not found'')
                | Some reloaded \<Rightarrow> Inr (reloaded, s))))"

text \<open>
  \<open>expireAllocations\<close>: the ids are read first, then each is expired in a transaction of its own; an
  exception ends the loop, and what was committed before it stays.
\<close>

definition expireOne :: "id \<Rightarrow> db \<Rightarrow> nat tx" where
  "expireOne i s =
     (case findAllocation i s of
        None \<Rightarrow> Inr (0, s)
      | Some a \<Rightarrow>
          (if al_status a \<noteq> P2PAllocationStatus.ASSIGNED then Inr (0, s)
           else case loadAllocation i s of
             Inl e \<Rightarrow> Inl e
           | Inr (a, w, d) \<Rightarrow> bindE (giveBack P2PAllocationStatus.EXPIRED a w d s) (\<lambda>_ s. Inr (1, s))))"

fun expireLoop :: "id list \<Rightarrow> nat \<Rightarrow> db \<Rightarrow> (err + nat) \<times> db" where
  "expireLoop [] processed s = (Inr processed, s)"
| "expireLoop (i # is) processed s =
     (case expireOne i s of
        Inl e \<Rightarrow> (Inl e, s)
      | Inr (n, t) \<Rightarrow> expireLoop is (processed + n) t)"

definition expireAllocations :: "db \<Rightarrow> (err + nat) \<times> db" where
  "expireAllocations s =
     expireLoop (map al_id (findMany (\<lambda>a. al_expiresAt a < db_now s \<and> al_status a = P2PAllocationStatus.ASSIGNED)
       (p2pAllocations s))) 0 s"

section \<open>The life cycle of an allocation\<close>

text \<open>
  The abstract machine: what a party of an allocation can see of it, and the moves it may make under a
  confirmation mode. The operations are proved to refine it below.
\<close>

record allocationView =
  lv_status :: P2PAllocationStatus
  lv_proofed :: bool
  lv_confirmed :: bool
  lv_verified :: bool
  lv_settled :: bool
  lv_debited :: bool
  lv_credited :: bool

definition viewOf :: "p2pAllocation \<Rightarrow> allocationView" where
  "viewOf a = \<lparr>lv_status = al_status a, lv_proofed = (al_proofSubmittedAt a \<noteq> None),
     lv_confirmed = (al_receiverConfirmedAt a \<noteq> None), lv_verified = (al_adminVerifiedAt a \<noteq> None),
     lv_settled = (al_settledAt a \<noteq> None), lv_debited = (al_withdrawerAccountTxId a \<noteq> None),
     lv_credited = (al_payerAccountTxId a \<noteq> None)\<rparr>"

definition assignedView :: allocationView where
  "assignedView = \<lparr>lv_status = P2PAllocationStatus.ASSIGNED, lv_proofed = False, lv_confirmed = False,
     lv_verified = False, lv_settled = False, lv_debited = False, lv_credited = False\<rparr>"

definition confirmedFor :: "P2PConfirmationMode \<Rightarrow> allocationView \<Rightarrow> bool" where
  "confirmedFor mode v =
     (case mode of
        P2PConfirmationMode.RECEIVER \<Rightarrow> lv_status v = P2PAllocationStatus.RECEIVER_CONFIRMED
      | P2PConfirmationMode.ADMIN \<Rightarrow> lv_status v = P2PAllocationStatus.ADMIN_VERIFIED
      | P2PConfirmationMode.RECEIVER_OR_ADMIN \<Rightarrow> lv_confirmed v \<or> lv_verified v
      | P2PConfirmationMode.BOTH \<Rightarrow> lv_confirmed v \<and> lv_verified v)"

inductive lifecycle :: "P2PConfirmationMode \<Rightarrow> allocationView \<Rightarrow> allocationView \<Rightarrow> bool" for mode where
  lc_proof: "lv_status v \<in> {P2PAllocationStatus.ASSIGNED, P2PAllocationStatus.PROOF_SUBMITTED} \<Longrightarrow>
    \<not> lv_confirmed v \<Longrightarrow> \<not> lv_verified v \<Longrightarrow>
    lifecycle mode v (v\<lparr>lv_status := P2PAllocationStatus.PROOF_SUBMITTED, lv_proofed := True\<rparr>)"
| lc_confirm: "mode \<noteq> P2PConfirmationMode.ADMIN \<Longrightarrow> lv_status v = P2PAllocationStatus.PROOF_SUBMITTED \<Longrightarrow>
    lifecycle mode v (v\<lparr>lv_status := P2PAllocationStatus.RECEIVER_CONFIRMED, lv_confirmed := True\<rparr>)"
| lc_confirm_verified: "mode \<noteq> P2PConfirmationMode.ADMIN \<Longrightarrow> lv_status v = P2PAllocationStatus.ADMIN_VERIFIED \<Longrightarrow>
    lifecycle mode v (v\<lparr>lv_confirmed := True\<rparr>)"
| lc_dispute: "mode \<noteq> P2PConfirmationMode.ADMIN \<Longrightarrow>
    lv_status v \<in> {P2PAllocationStatus.PROOF_SUBMITTED, P2PAllocationStatus.ADMIN_VERIFIED} \<Longrightarrow>
    lifecycle mode v (v\<lparr>lv_status := P2PAllocationStatus.DISPUTED\<rparr>)"
| lc_verify: "lv_status v \<in> {P2PAllocationStatus.PROOF_SUBMITTED, P2PAllocationStatus.RECEIVER_CONFIRMED} \<Longrightarrow>
    lifecycle mode v (v\<lparr>lv_status := P2PAllocationStatus.ADMIN_VERIFIED, lv_verified := True\<rparr>)"
| lc_refuse: "lv_status v \<in> {P2PAllocationStatus.PROOF_SUBMITTED, P2PAllocationStatus.RECEIVER_CONFIRMED} \<Longrightarrow>
    lifecycle mode v (v\<lparr>lv_status := P2PAllocationStatus.DISPUTED, lv_verified := True\<rparr>)"
| lc_settle: "lv_status v \<notin> {P2PAllocationStatus.CANCELLED, P2PAllocationStatus.EXPIRED, P2PAllocationStatus.DISPUTED,
      P2PAllocationStatus.SETTLED} \<Longrightarrow> confirmedFor mode v \<Longrightarrow>
    lifecycle mode v (v\<lparr>lv_status := P2PAllocationStatus.SETTLED, lv_settled := True, lv_debited := True, lv_credited := True\<rparr>)"
| lc_cancel: "lv_status v \<notin> {P2PAllocationStatus.CANCELLED, P2PAllocationStatus.EXPIRED, P2PAllocationStatus.SETTLED} \<Longrightarrow>
    lifecycle mode v (v\<lparr>lv_status := P2PAllocationStatus.CANCELLED\<rparr>)"
| lc_expire: "lv_status v = P2PAllocationStatus.ASSIGNED \<Longrightarrow>
    lifecycle mode v (v\<lparr>lv_status := P2PAllocationStatus.EXPIRED\<rparr>)"

inductive_simps lifecycle_simps: "lifecycle mode v w"

text \<open>What the parties agreed on at the assignment, which no operation changes.\<close>

definition sameTerms :: "p2pAllocation \<Rightarrow> p2pAllocation \<Rightarrow> bool" where
  "sameTerms a b \<longleftrightarrow> al_withdrawalId b = al_withdrawalId a \<and> al_depositId b = al_depositId a \<and>
     al_amount b = al_amount a \<and> al_paymentCode b = al_paymentCode a \<and> al_expiresAt b = al_expiresAt a \<and>
     al_destinationSnapshot b = al_destinationSnapshot a"

lemma sameTerms_trans: "sameTerms a b \<Longrightarrow> sameTerms b c \<Longrightarrow> sameTerms a c"
  by (simp add: sameTerms_def)

text \<open>\<open>evolves mode s t\<close>: every allocation of \<open>t\<close> comes from its row in \<open>s\<close>, or is new, by moves of the machine.\<close>

definition evolves :: "P2PConfirmationMode \<Rightarrow> db \<Rightarrow> db \<Rightarrow> bool" where
  "evolves mode s t \<longleftrightarrow>
     (\<forall>i. case findAllocation i s of
        Some a \<Rightarrow> \<exists>b. findAllocation i t = Some b \<and> sameTerms a b \<and> (lifecycle mode)\<^sup>*\<^sup>* (viewOf a) (viewOf b)
      | None \<Rightarrow> \<forall>b. findAllocation i t = Some b \<longrightarrow> (lifecycle mode)\<^sup>*\<^sup>* assignedView (viewOf b))"

lemma evolvesD:
  assumes "evolves mode s t"
  shows "findAllocation i s = Some a \<Longrightarrow> \<exists>b. findAllocation i t = Some b \<and> sameTerms a b \<and> (lifecycle mode)\<^sup>*\<^sup>* (viewOf a) (viewOf b)"
    "findAllocation i s = None \<Longrightarrow> findAllocation i t = Some b \<Longrightarrow> (lifecycle mode)\<^sup>*\<^sup>* assignedView (viewOf b)"
  using spec [OF assms [unfolded evolves_def], of i] by simp_all

lemma evolves_same: "p2pAllocations t = p2pAllocations s \<Longrightarrow> evolves mode s t"
proof -
  assume "p2pAllocations t = p2pAllocations s"
  then have "findAllocation i t = findAllocation i s" for i by (simp add: findAllocation_def)
  moreover have "(lifecycle mode)\<^sup>*\<^sup>* v v" for v by simp
  ultimately have "case findAllocation i s of
        Some a \<Rightarrow> \<exists>b. findAllocation i t = Some b \<and> sameTerms a b \<and> (lifecycle mode)\<^sup>*\<^sup>* (viewOf a) (viewOf b)
      | None \<Rightarrow> \<forall>b. findAllocation i t = Some b \<longrightarrow> (lifecycle mode)\<^sup>*\<^sup>* assignedView (viewOf b)" for i
    by (simp add: sameTerms_def split: option.split)
  then show ?thesis unfolding evolves_def by blast
qed

lemma evolves_trans:
  assumes st: "evolves mode s t" and tu: "evolves mode t u"
  shows "evolves mode s u"
  unfolding evolves_def
proof
  fix i
  show "case findAllocation i s of
        Some a \<Rightarrow> \<exists>b. findAllocation i u = Some b \<and> sameTerms a b \<and> (lifecycle mode)\<^sup>*\<^sup>* (viewOf a) (viewOf b)
      | None \<Rightarrow> \<forall>b. findAllocation i u = Some b \<longrightarrow> (lifecycle mode)\<^sup>*\<^sup>* assignedView (viewOf b)"
  proof (cases "findAllocation i s")
    case (Some a)
    obtain b where b: "findAllocation i t = Some b" "sameTerms a b" "(lifecycle mode)\<^sup>*\<^sup>* (viewOf a) (viewOf b)"
      using evolvesD(1) [OF st Some] by blast
    obtain c where "findAllocation i u = Some c" "sameTerms b c" "(lifecycle mode)\<^sup>*\<^sup>* (viewOf b) (viewOf c)"
      using evolvesD(1) [OF tu b(1)] by blast
    then show ?thesis using b Some by (auto intro: sameTerms_trans rtranclp_trans)
  next
    case None
    have "(lifecycle mode)\<^sup>*\<^sup>* assignedView (viewOf c)" if c: "findAllocation i u = Some c" for c
    proof (cases "findAllocation i t")
      case (Some b)
      obtain c' where "findAllocation i u = Some c'" "(lifecycle mode)\<^sup>*\<^sup>* (viewOf b) (viewOf c')"
        using evolvesD(1) [OF tu Some] by blast
      then show ?thesis using evolvesD(2) [OF st None Some] c by (auto intro: rtranclp_trans)
    qed (use evolvesD(2) [OF tu _ c] in simp)
    then show ?thesis using None by simp
  qed
qed

text \<open>One row moves; and a new row is appended.\<close>

lemma evolves_move:
  assumes a: "findAllocation i s = Some a" and f: "\<And>x. al_id (f x) = al_id x" "sameTerms a (f a)"
    and m: "lifecycle mode (viewOf a) (viewOf (f a))"
    and t: "p2pAllocations t = updateRows (\<lambda>x. al_id x = i) f (p2pAllocations s)"
  shows "evolves mode s t"
proof -
  have find: "findAllocation j t = map_option (\<lambda>x. if al_id x = i then f x else x) (findAllocation j s)" for j
    unfolding findAllocation_def t by (rule find_updateRows) (simp add: f(1))
  have "case findAllocation j s of
        Some a \<Rightarrow> \<exists>b. findAllocation j t = Some b \<and> sameTerms a b \<and> (lifecycle mode)\<^sup>*\<^sup>* (viewOf a) (viewOf b)
      | None \<Rightarrow> \<forall>b. findAllocation j t = Some b \<longrightarrow> (lifecycle mode)\<^sup>*\<^sup>* assignedView (viewOf b)" for j
  proof (cases "findAllocation j s")
    case (Some b)
    have "al_id b = j" using find_SomeD [OF Some [unfolded findAllocation_def]] by simp
    then show ?thesis using Some a f(2) m by (cases "j = i") (auto simp: find sameTerms_def)
  qed (simp add: find)
  then show ?thesis unfolding evolves_def by blast
qed

lemma find_snoc:
  "findFirst p (t @ [a]) = (case findFirst p t of Some b \<Rightarrow> Some b | None \<Rightarrow> if p a then Some a else None)"
  by (induction t) auto

lemma evolves_new:
  assumes t: "p2pAllocations t = p2pAllocations s @ [a]" and a: "viewOf a = assignedView"
  shows "evolves mode s t"
proof -
  have "findAllocation j t = (case findAllocation j s of Some b \<Rightarrow> Some b | None \<Rightarrow> if al_id a = j then Some a else None)" for j
    unfolding findAllocation_def t by (rule find_snoc)
  moreover have "(lifecycle mode)\<^sup>*\<^sup>* v v" for v by simp
  ultimately have "case findAllocation j s of
        Some a \<Rightarrow> \<exists>b. findAllocation j t = Some b \<and> sameTerms a b \<and> (lifecycle mode)\<^sup>*\<^sup>* (viewOf a) (viewOf b)
      | None \<Rightarrow> \<forall>b. findAllocation j t = Some b \<longrightarrow> (lifecycle mode)\<^sup>*\<^sup>* assignedView (viewOf b)" for j
    using a by (cases "findAllocation j s") (auto simp: sameTerms_def)
  then show ?thesis unfolding evolves_def by blast
qed

lemma evolves_modify:
  assumes "findAllocation i s = Some a" and "p2pAllocations s' = p2pAllocations s"
    and "\<And>x. al_id (f x) = al_id x" and "sameTerms a (f a)" and "lifecycle mode (viewOf a) (viewOf (f a))"
    and "p2pAllocations t = p2pAllocations (modifyAllocation i f s')"
  shows "evolves mode s t"
  by (rule evolves_move [OF assms(1), where f = "\<lambda>x. (f x)\<lparr>al_updatedAt := db_now s'\<rparr>"])
    (use assms(2-6) in \<open>simp_all add: modifyAllocation_def sameTerms_def viewOf_def\<close>)

lemma updateAllocation_evolves:
  assumes "updateAllocation i f s' = Inr (r, t)" and "findAllocation i s = Some a" and "p2pAllocations s' = p2pAllocations s"
    and "\<And>x. al_id (f x) = al_id x" and "sameTerms a (f a)" and "lifecycle mode (viewOf a) (viewOf (f a))"
  shows "evolves mode s t"
  by (rule evolves_modify [OF assms(2-6)]) (use assms(1) in \<open>auto simp: updateAllocation_def Let_def split: option.splits\<close>)

lemma loadAllocation_Inr:
  assumes "loadAllocation i s = Inr (a, w, d)"
  shows "findAllocation i s = Some a" "al_id a = i" "findWithdraw (al_withdrawalId a) s = Some w"
    "findDeposit (al_depositId a) s = Some d"
  using assms by (auto simp: loadAllocation_def findAllocation_def dest: find_SomeD split: option.splits)

lemma createProofLinks_allocations:
  "forE files (createProofLink i u) s = Inr (x, t) \<Longrightarrow> p2pAllocations t = p2pAllocations s"
proof -
  have "holdsE (\<lambda>_ t. p2pAllocations t = p2pAllocations s) (forE files (createProofLink i u) s)"
    by (rule holdsE_for) (simp_all add: createProofLink_def bumpId_def)
  then show "forE files (createProofLink i u) s = Inr (x, t) \<Longrightarrow> p2pAllocations t = p2pAllocations s" by (rule holdsE_D)
qed

lemma submitPayerProof_evolves:
  assumes "submitPayerProof i u dto s = Inr (r, t)"
  shows "evolves mode s t"
proof -
  obtain a w d where l: "loadAllocation i s = Inr (a, w, d)"
    using assms by (auto simp: submitPayerProof_def split: if_splits sum.splits)
  obtain v s1 where u: "forE (pf_fileIds dto) (createProofLink i u) s = Inr (v, s1)"
      "updateAllocation i (\<lambda>a. a\<lparr>al_status := P2PAllocationStatus.PROOF_SUBMITTED,
                      al_payerBankRef := Some (pf_bankRef dto), al_paymentMethod := pf_method dto,
                      al_payerPaidAt := Some (withDefault (pf_paidAt dto) (db_now s1)),
                      al_proofSubmittedAt := Some (db_now s1)\<rparr>) s1 = Inr (r, t)"
    and st: "al_status a \<in> {P2PAllocationStatus.ASSIGNED, P2PAllocationStatus.PROOF_SUBMITTED}"
      "al_receiverConfirmedAt a = None" "al_adminVerifiedAt a = None"
    using assms unfolding submitPayerProof_def l Let_def by (auto split: if_splits elim!: bindE_elim)
  show ?thesis
    by (rule updateAllocation_evolves [OF u(2) loadAllocation_Inr(1) [OF l] createProofLinks_allocations [OF u(1)]])
      (use lc_proof [of "viewOf a" mode] st in \<open>auto simp: viewOf_def sameTerms_def\<close>)
qed

lemma receiverConfirm_evolves:
  assumes "receiverConfirm env i u ok reason s = Inr (r, t)"
  shows "evolves (getConfirmationMode env) s t"
proof -
  let ?m = "getConfirmationMode env"
  obtain a w d where l: "loadAllocation i s = Inr (a, w, d)"
    using assms by (auto simp: receiverConfirm_def split: sum.splits)
  have st: "al_status a \<in> {P2PAllocationStatus.PROOF_SUBMITTED, P2PAllocationStatus.ADMIN_VERIFIED}"
      "?m \<noteq> P2PConfirmationMode.ADMIN" and u: "updateAllocation i (\<lambda>x. if ok then x\<lparr>al_status :=
                      (if al_status a = P2PAllocationStatus.ADMIN_VERIFIED then al_status a
                       else P2PAllocationStatus.RECEIVER_CONFIRMED),
                    al_receiverConfirmedAt := Some (db_now s)\<rparr>
           else x\<lparr>al_status := P2PAllocationStatus.DISPUTED, al_receiverDisputedAt := Some (db_now s),
                    al_receiverDisputeReason := Some (withDefault reason ''Receiver disputed payment'')\<rparr>) s = Inr (r, t)"
    using assms unfolding receiverConfirm_def l by (auto split: if_splits)
  show ?thesis
    by (rule updateAllocation_evolves [OF u loadAllocation_Inr(1) [OF l] refl])
      (use lc_confirm [of ?m "viewOf a"] lc_confirm_verified [of ?m "viewOf a"] lc_dispute [of ?m "viewOf a"] st
        in \<open>auto simp: viewOf_def sameTerms_def\<close>)
qed

lemma adminVerify_evolves:
  assumes "adminVerify i ad ok nt s = Inr (r, t)"
  shows "evolves mode s t"
proof -
  obtain a w d where l: "loadAllocation i s = Inr (a, w, d)"
    using assms by (auto simp: adminVerify_def split: sum.splits)
  have st: "al_status a \<in> {P2PAllocationStatus.PROOF_SUBMITTED, P2PAllocationStatus.RECEIVER_CONFIRMED}"
    and u: "updateAllocation i (\<lambda>x. x\<lparr>al_status := (if ok then P2PAllocationStatus.ADMIN_VERIFIED else P2PAllocationStatus.DISPUTED),
                  al_adminVerifiedAt := Some (db_now s), al_adminVerifierId := Some ad,
                  al_adminNote := orElse nt (al_adminNote a)\<rparr>) s = Inr (r, t)"
    using assms unfolding adminVerify_def l by (auto split: if_splits)
  show ?thesis
    by (rule updateAllocation_evolves [OF u loadAllocation_Inr(1) [OF l] refl])
      (use lc_verify [of "viewOf a" mode] lc_refuse [of "viewOf a" mode] st in \<open>auto simp: viewOf_def sameTerms_def\<close>)
qed

text \<open>The finalization.\<close>

lemma finalizeAllocation_outcomes:
  assumes "finalizeAllocation env i ad s = Inr (q, t)"
  obtains (same) "findAllocation i s = Some q" "t = s"
      "al_status q = P2PAllocationStatus.SETTLED \<or> truthy (al_withdrawerAccountTxId q) \<or> truthy (al_payerAccountTxId q)"
  | (settled) a w d x0 s1 y0 s2 wa s3 pa s4 debit s5 credit s6 where "loadAllocation i s = Inr (a, w, d)"
      "al_status a \<notin> {P2PAllocationStatus.SETTLED, P2PAllocationStatus.CANCELLED, P2PAllocationStatus.EXPIRED,
         P2PAllocationStatus.DISPUTED}" "ensureFinalizable env a = None"
      "consumeFunds (wd_userId w) IRR_INSTRUMENT_CODE TxRefType.WITHDRAW_ALLOCATION i s = Inr (x0, s1)"
      "consumeLimit TxRefType.WITHDRAW_ALLOCATION i s1 = Inr (y0, s2)"
      "getOrCreateAccount (wd_userId w) IRR_INSTRUMENT_CODE s2 = Inr (wa, s3)"
      "getOrCreateAccount (dp_userId d) IRR_INSTRUMENT_CODE s3 = Inr (pa, s4)"
      "applyTransaction (ac_id wa) (- al_amount a) AccountTxType.REMITTANCE TxRefType.WITHDRAW_ALLOCATION (Some i)
         (Some ad) None s4 = Inr (debit, s5)"
      "applyTransaction (ac_id pa) (al_amount a) AccountTxType.REMITTANCE TxRefType.WITHDRAW_ALLOCATION (Some i)
         (Some ad) None s5 = Inr (credit, s6)"
      "p2pAllocations t = p2pAllocations (modifyAllocation i (\<lambda>x. x\<lparr>al_status := P2PAllocationStatus.SETTLED,
          al_settledAt := Some (db_now s6), al_withdrawerAccountTxId := Some (tx_id (fst debit)),
          al_payerAccountTxId := Some (tx_id (fst credit))\<rparr>) s6)" "findAllocation i t = Some q" "sameLedger s6 t"
      "withdrawRequests t = withdrawRequests (modifyWithdraw (al_withdrawalId a) (\<lambda>x. x\<lparr>wd_settledAmountTotal :=
          wd_settledAmountTotal w + al_amount a, wd_status := deriveWithdrawP2PStatus (wd_amount w) (wd_assignedAmountTotal w)
          (wd_settledAmountTotal w + al_amount a) False False\<rparr>) s6)"
      "depositRequests t = depositRequests (modifyDeposit (al_depositId a) (\<lambda>x. x\<lparr>dp_settledAmountTotal :=
          dp_settledAmountTotal d + al_amount a, dp_status := deriveDepositP2PStatus (dp_amount d) (dp_assignedAmountTotal d)
          (dp_settledAmountTotal d + al_amount a) False False\<rparr>) s6)"
proof -
  obtain a w d where l: "loadAllocation i s = Inr (a, w, d)"
    using assms by (auto simp: finalizeAllocation_def split: sum.splits)
  note a = loadAllocation_Inr [OF l]
  show ?thesis
  proof (cases "al_status a = P2PAllocationStatus.SETTLED \<or> truthy (al_withdrawerAccountTxId a) \<or> truthy (al_payerAccountTxId a)")
    case True
    then have "q = a \<and> t = s" using assms by (auto simp: finalizeAllocation_def l split: if_splits option.splits)
    then show ?thesis using same a(1) True by simp
  next
    case False
    have g: "al_status a \<notin> {P2PAllocationStatus.SETTLED, P2PAllocationStatus.CANCELLED, P2PAllocationStatus.EXPIRED,
         P2PAllocationStatus.DISPUTED}" "ensureFinalizable env a = None"
      "\<not> (al_status a = P2PAllocationStatus.ASSIGNED \<and> allocationExpired a (db_now s))"
      using assms False by (auto simp: finalizeAllocation_def l split: if_splits option.splits)
    have none: "\<not> truthy (al_withdrawerAccountTxId a)" "\<not> truthy (al_payerAccountTxId a)"
      "al_status a \<noteq> P2PAllocationStatus.SETTLED" using False by simp_all
    have ng: "al_status a \<notin> {P2PAllocationStatus.CANCELLED, P2PAllocationStatus.EXPIRED, P2PAllocationStatus.DISPUTED}"
      using g(1) by simp
    from assms show ?thesis
      unfolding finalizeAllocation_def l sum.case prod.case if_not_P [OF none(3)] if_not_P [OF ng] if_not_P [OF g(3)] g(2)
        option.case Let_def a(2)
      apply (simp only: none simp_thms if_False)
      apply (elim bindE_elim)
      apply (rule settled [OF l g(1,2)], assumption+)
      apply (auto simp: modifyWithdraw_def modifyDeposit_def modifyAllocation_def sameLedger_def addDec_def dec_def split: option.splits)
      done
  qed
qed

lemma ensureFinalizable_confirmed:
  "ensureFinalizable env a = None \<Longrightarrow> confirmedFor (getConfirmationMode env) (viewOf a)"
  by (cases "getConfirmationMode env")
    (auto simp: ensureFinalizable_def confirmedFor_def viewOf_def Let_def split: if_splits)

lemma finalizeAllocation_evolves:
  assumes "finalizeAllocation env i ad s = Inr (q, t)"
  shows "evolves (getConfirmationMode env) s t"
  using assms
proof (cases rule: finalizeAllocation_outcomes)
  case same
  then show ?thesis by (simp add: evolves_same)
next
  case (settled a w d x0 s1 y0 s2 wa s3 pa s4 debit s5 credit s6)
  have "still s s6"
    using still_steps(4) [OF settled(4)] still_side [OF holdsE_D [OF side_consumeLimit settled(5)]] still_steps(1) [OF settled(6)]
      still_steps(1) [OF settled(7)] still_steps(5) [OF settled(8)] still_steps(5) [OF settled(9)] by (blast intro: still_trans)
  then have same: "p2pAllocations s6 = p2pAllocations s" by (simp add: still_def sameRows_sel(7))
  show ?thesis
    by (rule evolves_modify [OF loadAllocation_Inr(1) [OF settled(1)] same _ _ _ settled(10)])
      (use lc_settle [of "viewOf a" "getConfirmationMode env"] settled(2) ensureFinalizable_confirmed [OF settled(3)]
        in \<open>auto simp: viewOf_def sameTerms_def\<close>)
qed

text \<open>Giving back.\<close>

lemma mergeReservationBack_allocations: "mergeReservationBack a s = Inr (x, t) \<Longrightarrow> p2pAllocations t = p2pAllocations s"
proof -
  have 1: "p2pAllocations (mergeAccountReservation a s) = p2pAllocations s" for s
    by (auto simp: mergeAccountReservation_def modifyReservation_def updateReservation_def Let_def split: option.split)
  have "holdsE (\<lambda>_ t. p2pAllocations t = p2pAllocations s) (mergeReservationBack a s)"
    unfolding mergeReservationBack_def Let_def
    by (rule holdsE_for) (auto simp: 1 mergeLimitReservation_def modifyLimitReservation_def Let_def split: option.split)
  then show "mergeReservationBack a s = Inr (x, t) \<Longrightarrow> p2pAllocations t = p2pAllocations s" by (rule holdsE_D)
qed

lemma giveBack_split:
  assumes "giveBack st a w d s = Inr (x, t)"
  obtains s1 where "mergeReservationBack a s = Inr ((), s1)"
    "t = modifyDeposit (al_depositId a) (\<lambda>x. x\<lparr>dp_assignedAmountTotal := subDec (Some (dp_assignedAmountTotal d)) (Some (al_amount a)),
               dp_remainingAmount := Some (withDefault (dp_remainingAmount d) (dp_amount d) + al_amount a),
               dp_status := deriveDepositP2PStatus (dp_amount d) (subDec (Some (dp_assignedAmountTotal d)) (Some (al_amount a)))
                              (dp_settledAmountTotal d) False False\<rparr>)
        (modifyWithdraw (al_withdrawalId a) (\<lambda>x. x\<lparr>wd_assignedAmountTotal := subDec (Some (wd_assignedAmountTotal w)) (Some (al_amount a)),
               wd_status := deriveWithdrawP2PStatus (wd_amount w) (subDec (Some (wd_assignedAmountTotal w)) (Some (al_amount a)))
                              (wd_settledAmountTotal w) False False\<rparr>)
          (modifyAllocation (al_id a) (\<lambda>x. x\<lparr>al_status := st\<rparr>) s1))"
  using assms unfolding giveBack_def Let_def by (elim bindE_elim) auto

lemma giveBack_allocations:
  assumes "giveBack st a w d s = Inr (x, t)"
  obtains s1 where "p2pAllocations s1 = p2pAllocations s"
    "p2pAllocations t = p2pAllocations (modifyAllocation (al_id a) (\<lambda>x. x\<lparr>al_status := st\<rparr>) s1)"
proof -
  obtain s1 where "mergeReservationBack a s = Inr ((), s1)"
    "p2pAllocations t = p2pAllocations (modifyAllocation (al_id a) (\<lambda>x. x\<lparr>al_status := st\<rparr>) s1)"
    by (rule giveBack_split [OF assms]) (auto simp: modifyDeposit_def modifyWithdraw_def)
  then show ?thesis using that mergeReservationBack_allocations by blast
qed

lemma giveBack_evolves:
  assumes a: "findAllocation i s = Some a" "al_id a = i" and run: "giveBack st a w d s = Inr (x, t)"
    and m: "lifecycle mode (viewOf a) ((viewOf a)\<lparr>lv_status := st\<rparr>)"
  shows "evolves mode s t"
proof -
  obtain s1 where s1: "p2pAllocations s1 = p2pAllocations s"
    "p2pAllocations t = p2pAllocations (modifyAllocation (al_id a) (\<lambda>x. x\<lparr>al_status := st\<rparr>) s1)"
    by (rule giveBack_allocations [OF run])
  show ?thesis
    by (rule evolves_modify [OF a(1) s1(1) _ _ _ s1(2) [unfolded a(2)]]) (use m in \<open>auto simp: viewOf_def sameTerms_def\<close>)
qed

lemma cancelAllocation_outcomes:
  assumes "cancelAllocation i s = Inr (q, t)"
  obtains (same) "findAllocation i s = Some q" "t = s" "al_status q \<in> {P2PAllocationStatus.CANCELLED, P2PAllocationStatus.EXPIRED}"
  | (closed) a w d x where "loadAllocation i s = Inr (a, w, d)"
      "al_status a \<notin> {P2PAllocationStatus.CANCELLED, P2PAllocationStatus.EXPIRED, P2PAllocationStatus.SETTLED}"
      "giveBack P2PAllocationStatus.CANCELLED a w d s = Inr (x, t)" "findAllocation i t = Some q"
proof -
  obtain a w d where l: "loadAllocation i s = Inr (a, w, d)"
    using assms by (auto simp: cancelAllocation_def split: sum.splits)
  note a = loadAllocation_Inr [OF l]
  show ?thesis
  proof (cases "al_status a \<in> {P2PAllocationStatus.CANCELLED, P2PAllocationStatus.EXPIRED}")
    case True
    then show ?thesis using same assms a(1) by (auto simp: cancelAllocation_def l)
  next
    case False
    then have g: "al_status a \<notin> {P2PAllocationStatus.CANCELLED, P2PAllocationStatus.EXPIRED, P2PAllocationStatus.SETTLED}"
      using assms by (auto simp: cancelAllocation_def l)
    have "bindE (giveBack P2PAllocationStatus.CANCELLED a w d s) (\<lambda>_ s.
                case findAllocation i s of
                  None \<Rightarrow> Inl (NotFoundException ''Allocation not found'')
                | Some reloaded \<Rightarrow> Inr (reloaded, s)) = Inr (q, t)"
      using assms g a(2) by (simp add: cancelAllocation_def l)
    then show ?thesis by (rule bindE_elim) (rule closed [OF l g]; auto split: option.splits)
  qed
qed

lemma cancelAllocation_evolves:
  assumes "cancelAllocation i s = Inr (q, t)"
  shows "evolves mode s t"
  using assms
proof (cases rule: cancelAllocation_outcomes)
  case same
  then show ?thesis by (simp add: evolves_same)
next
  case (closed a w d x)
  note a = loadAllocation_Inr [OF closed(1)]
  show ?thesis
    by (rule giveBack_evolves [OF a(1,2) closed(3)]) (rule lc_cancel, use closed(2) in \<open>simp add: viewOf_def\<close>)
qed

lemma expireOne_outcomes:
  assumes "expireOne i s = Inr (n, t)"
  obtains (skipped) "n = 0" "t = s" "\<And>a. findAllocation i s = Some a \<Longrightarrow> al_status a \<noteq> P2PAllocationStatus.ASSIGNED"
  | (expired) a w d x where "n = 1" "loadAllocation i s = Inr (a, w, d)" "al_status a = P2PAllocationStatus.ASSIGNED"
      "giveBack P2PAllocationStatus.EXPIRED a w d s = Inr (x, t)"
proof (cases "findAllocation i s")
  case None
  then show ?thesis using assms skipped by (simp add: expireOne_def)
next
  case (Some a)
  show ?thesis
  proof (cases "al_status a = P2PAllocationStatus.ASSIGNED")
    case True
    then obtain a' w d where l: "loadAllocation i s = Inr (a', w, d)"
      using assms Some by (auto simp: expireOne_def split: sum.splits)
    have "a' = a" using loadAllocation_Inr(1) [OF l] Some by simp
    moreover have "bindE (giveBack P2PAllocationStatus.EXPIRED a' w d s) (\<lambda>_ s. Inr (1, s)) = Inr (n, t)"
      using assms Some True l by (simp add: expireOne_def)
    ultimately show ?thesis using expired [OF _ l] True by (auto elim!: bindE_elim)
  next
    case False
    show ?thesis by (rule skipped) (use assms Some False in \<open>simp_all add: expireOne_def\<close>)
  qed
qed

lemma expireOne_evolves:
  assumes "expireOne i s = Inr (n, t)"
  shows "evolves mode s t"
  using assms
proof (cases rule: expireOne_outcomes)
  case skipped
  then show ?thesis by (simp add: evolves_same)
next
  case (expired a w d x)
  note a = loadAllocation_Inr [OF expired(2)]
  show ?thesis
    by (rule giveBack_evolves [OF a(1,2) expired(4)]) (rule lc_expire, use expired(3) in \<open>simp add: viewOf_def\<close>)
qed

lemma expireLoop_evolves: "expireLoop is n s = (r, t) \<Longrightarrow> evolves mode s t"
proof (induction "is" n s rule: expireLoop.induct)
  case (2 i "is" n s)
  show ?case
  proof (cases "expireOne i s")
    case (Inl e)
    then show ?thesis using 2(2) by (auto simp: evolves_same)
  next
    case (Inr p)
    obtain m s1 where p: "expireOne i s = Inr (m, s1)" using Inr by (cases p) simp
    have "evolves mode s1 t" using 2(1) [OF p refl] 2(2) p by simp
    then show ?thesis using expireOne_evolves [OF p] evolves_trans by blast
  qed
qed (simp add: evolves_same)

text \<open>The assignment.\<close>

lemma splitReservation_allocations:
  "splitReservationForAllocation wi ai amt s = Inr (x, t) \<Longrightarrow> p2pAllocations t = p2pAllocations s"
proof -
  have loop: "holdsE (\<lambda>_ t. p2pAllocations t = p2pAllocations u) (forE rs (splitLimitReservation ai amt) u)" for rs u
    by (rule holdsE_for) (auto simp: splitLimitReservation_def createLimitReservation_def modifyLimitReservation_def bumpId_def)
  show "splitReservationForAllocation wi ai amt s = Inr (x, t) \<Longrightarrow> p2pAllocations t = p2pAllocations s"
    by (auto simp: splitReservationForAllocation_def createReservation_def modifyReservation_def updateReservation_def Let_def
        bumpId_def split: option.splits if_splits elim!: bindE_elim dest!: holdsE_D [OF loop])
qed

lemma assignItem_evolves:
  assumes "assignItem env w snap ex s0 it st s = Inr (st', t)"
  shows "evolves mode s t"
proof -
  obtain d where d: "findDeposit (fst it) s0 = Some d" using assms by (auto simp: assignItem_def split: option.splits)
  let ?a = "newAllocation env w snap ex (dp_id d) (snd it) s"
  obtain a s1 x s2 where 1: "createAllocationRow ?a s = Inr (a, s1)"
    "splitReservationForAllocation (wd_id w) (al_id a) (snd it) s1 = Inr (x, s2)" "p2pAllocations t = p2pAllocations s2"
    using assms d unfolding assignItem_def Let_def
    by (auto simp: modifyWithdraw_def modifyDeposit_def split: if_splits elim!: bindE_elim)
  have "p2pAllocations t = p2pAllocations s @ [?a]"
    using 1 splitReservation_allocations [OF 1(2)] by (auto simp: createAllocationRow_def bumpId_def split: if_splits)
  then show ?thesis by (rule evolves_new) (simp add: viewOf_def assignedView_def newAllocation_def)
qed

lemma assignTx_evolves:
  assumes "assignTx env i dto items s = Inr (as, t)"
  shows "evolves mode s t"
proof -
  have loop: "holdsE (\<lambda>_. evolves mode s) (foldE items (assignItem env w snap ex s) st s)" for w snap ex st
    by (rule holdsE_fold_rest [of "\<lambda>_ _. evolves mode s"])
      (auto simp: holdsE_def evolves_same intro: evolves_trans assignItem_evolves)
  show ?thesis
    using assms by (auto simp: assignTx_def Let_def split: option.splits if_splits sum.splits elim!: bindE_elim dest!: holdsE_D [OF loop])
qed

lemma assignAllocations_evolves:
  assumes "assignAllocations env i dto key s = Inr (as, t)"
  shows "evolves mode s t"
proof -
  have keep: "evolves mode s (u\<lparr>p2pAssignmentIdempotencies := xs\<rparr>)" if "evolves mode s u" for u xs
    by (rule evolves_trans [OF that evolves_same]) simp
  show ?thesis
    using assms assignTx_evolves
    by (auto simp: assignAllocations_def Let_def evolves_same split: option.splits if_splits elim!: bindE_elim intro: keep)
qed

text \<open>Any sequence of operations on allocations under one environment; expiry may stop on an exception.\<close>

inductive p2pRun :: "p2pEnv \<Rightarrow> db \<Rightarrow> db \<Rightarrow> bool" for env where
  pr_start: "p2pRun env s s"
| pr_clock: "p2pRun env s t \<Longrightarrow> p2pRun env s (t\<lparr>db_now := n\<rparr>)"
| pr_assign: "p2pRun env s t \<Longrightarrow> assignAllocations env w dto key t = Inr (as, t') \<Longrightarrow> p2pRun env s t'"
| pr_proof: "p2pRun env s t \<Longrightarrow> submitPayerProof i u pdto t = Inr (a, t') \<Longrightarrow> p2pRun env s t'"
| pr_confirm: "p2pRun env s t \<Longrightarrow> receiverConfirm env i u ok reason t = Inr (a, t') \<Longrightarrow> p2pRun env s t'"
| pr_verify: "p2pRun env s t \<Longrightarrow> adminVerify i ad ok nt t = Inr (a, t') \<Longrightarrow> p2pRun env s t'"
| pr_finalize: "p2pRun env s t \<Longrightarrow> finalizeAllocation env i ad t = Inr (a, t') \<Longrightarrow> p2pRun env s t'"
| pr_cancel: "p2pRun env s t \<Longrightarrow> cancelAllocation i t = Inr (a, t') \<Longrightarrow> p2pRun env s t'"
| pr_expire: "p2pRun env s t \<Longrightarrow> expireAllocations t = (r, t') \<Longrightarrow> p2pRun env s t'"

lemma p2pRun_evolves: "p2pRun env s t \<Longrightarrow> evolves (getConfirmationMode env) s t"
proof (induction rule: p2pRun.induct)
  case (pr_start s)
  show ?case by (rule evolves_same) simp
next
  case (pr_clock s t n)
  show ?case by (rule evolves_trans [OF pr_clock.IH evolves_same]) simp
next
  case (pr_assign s t w dto key as t')
  show ?case by (rule evolves_trans [OF pr_assign.IH assignAllocations_evolves [OF pr_assign.hyps(2)]])
next
  case (pr_proof s t i u pdto a t')
  show ?case by (rule evolves_trans [OF pr_proof.IH submitPayerProof_evolves [OF pr_proof.hyps(2)]])
next
  case (pr_confirm s t i u ok reason a t')
  show ?case by (rule evolves_trans [OF pr_confirm.IH receiverConfirm_evolves [OF pr_confirm.hyps(2)]])
next
  case (pr_verify s t i ad ok nt a t')
  show ?case by (rule evolves_trans [OF pr_verify.IH adminVerify_evolves [OF pr_verify.hyps(2)]])
next
  case (pr_finalize s t i ad a t')
  show ?case by (rule evolves_trans [OF pr_finalize.IH finalizeAllocation_evolves [OF pr_finalize.hyps(2)]])
next
  case (pr_cancel s t i a t')
  show ?case by (rule evolves_trans [OF pr_cancel.IH cancelAllocation_evolves [OF pr_cancel.hyps(2)]])
next
  case (pr_expire s t r t')
  show ?case
    by (rule evolves_trans [OF pr_expire.IH expireLoop_evolves]) (rule pr_expire.hyps(2) [unfolded expireAllocations_def])
qed

section \<open>Invariants of the abstract machine\<close>

definition confirmedBy :: "P2PConfirmationMode \<Rightarrow> bool \<Rightarrow> bool \<Rightarrow> bool" where
  "confirmedBy mode confirmed verified =
     (case mode of
        P2PConfirmationMode.RECEIVER \<Rightarrow> confirmed
      | P2PConfirmationMode.ADMIN \<Rightarrow> verified
      | P2PConfirmationMode.RECEIVER_OR_ADMIN \<Rightarrow> confirmed \<or> verified
      | P2PConfirmationMode.BOTH \<Rightarrow> confirmed \<and> verified)"

definition wellFormedView :: "P2PConfirmationMode \<Rightarrow> allocationView \<Rightarrow> bool" where
  "wellFormedView mode v \<longleftrightarrow>
     lv_settled v = (lv_status v = P2PAllocationStatus.SETTLED) \<and> lv_debited v = lv_settled v \<and> lv_credited v = lv_settled v \<and>
     (lv_status v = P2PAllocationStatus.SETTLED \<longrightarrow> confirmedBy mode (lv_confirmed v) (lv_verified v)) \<and>
     (case lv_status v of
        P2PAllocationStatus.ASSIGNED \<Rightarrow> \<not> lv_proofed v \<and> \<not> lv_confirmed v \<and> \<not> lv_verified v
      | P2PAllocationStatus.PROOF_SUBMITTED \<Rightarrow> lv_proofed v \<and> \<not> lv_confirmed v \<and> \<not> lv_verified v
      | P2PAllocationStatus.RECEIVER_CONFIRMED \<Rightarrow> lv_proofed v \<and> lv_confirmed v \<and> \<not> lv_verified v
      | P2PAllocationStatus.ADMIN_VERIFIED \<Rightarrow> lv_proofed v \<and> lv_verified v
      | P2PAllocationStatus.SETTLED \<Rightarrow> lv_proofed v
      | P2PAllocationStatus.DISPUTED \<Rightarrow> lv_proofed v
      | P2PAllocationStatus.CANCELLED \<Rightarrow> True
      | P2PAllocationStatus.EXPIRED \<Rightarrow> \<not> lv_proofed v \<and> \<not> lv_confirmed v \<and> \<not> lv_verified v)"

lemma wellFormed_assigned: "wellFormedView mode assignedView"
  by (simp add: wellFormedView_def assignedView_def)

lemma wellFormed_step: "lifecycle mode v w \<Longrightarrow> wellFormedView mode v \<Longrightarrow> wellFormedView mode w"
proof (induction rule: lifecycle.induct)
  case (lc_settle v)
  then show ?case
    by (cases mode; cases "lv_status v") (auto simp: wellFormedView_def confirmedFor_def confirmedBy_def)
qed (auto simp: wellFormedView_def)

lemma wellFormed_steps: "(lifecycle mode)\<^sup>*\<^sup>* v w \<Longrightarrow> wellFormedView mode v \<Longrightarrow> wellFormedView mode w"
  by (induction rule: rtranclp_induct) (auto intro: wellFormed_step)

text \<open>Under the mode \<open>RECEIVER\<close>, an allocation the administrator verified is never settled.\<close>

lemma receiver_dead_end:
  assumes "(lifecycle P2PConfirmationMode.RECEIVER)\<^sup>*\<^sup>* v w"
    and "lv_status v \<in> {P2PAllocationStatus.ADMIN_VERIFIED, P2PAllocationStatus.DISPUTED, P2PAllocationStatus.CANCELLED}"
  shows "lv_status w \<in> {P2PAllocationStatus.ADMIN_VERIFIED, P2PAllocationStatus.DISPUTED, P2PAllocationStatus.CANCELLED}"
  using assms by (induction rule: rtranclp_induct) (auto simp: lifecycle_simps confirmedFor_def)

section \<open>Expiry\<close>

definition allocationsLinked :: "db \<Rightarrow> bool" where
  "allocationsLinked s \<longleftrightarrow> distinct (map al_id (p2pAllocations s)) \<and>
     (\<forall>a\<in>set (p2pAllocations s). findWithdraw (al_withdrawalId a) s \<noteq> None \<and> findDeposit (al_depositId a) s \<noteq> None)"

lemma mergeReservationBack_total: "\<exists>t. mergeReservationBack a s = Inr ((), t) \<and> sameRows s t"
proof -
  have merge: "sameRows s (mergeAccountReservation a s)" for s
    by (auto simp: mergeAccountReservation_def modifyReservation_def updateReservation_def Let_def sameRows_def rowsView_def
        split: option.split)
  have "\<exists>t. forE rs (mergeLimitReservation a) u = Inr ((), t) \<and> sameRows u t" for rs u
  proof (induction rs arbitrary: u)
    case (Cons r rs)
    obtain v where v: "mergeLimitReservation a r u = Inr ((), v)" "sameRows u v"
      by (auto simp: mergeLimitReservation_def modifyLimitReservation_def Let_def sameRows_def rowsView_def split: option.split)
    obtain t where "forE rs (mergeLimitReservation a) v = Inr ((), t)" "sameRows v t" using Cons.IH by blast
    then show ?case using v sameRows_trans by auto
  qed simp
  then show ?thesis using merge [of s] sameRows_trans unfolding mergeReservationBack_def Let_def by blast
qed

definition expiredRows :: "db \<Rightarrow> id set \<Rightarrow> p2pAllocation list" where
  "expiredRows s I = map (\<lambda>a. if al_id a \<in> I then a\<lparr>al_status := P2PAllocationStatus.EXPIRED, al_updatedAt := db_now s\<rparr> else a)
     (p2pAllocations s)"

lemma findWithdraw_modifyWithdraw:
  assumes "\<And>w. wd_id (f w) = wd_id w"
  shows "findWithdraw j (modifyWithdraw i f s) = None \<longleftrightarrow> findWithdraw j s = None"
proof -
  have "findWithdraw j (modifyWithdraw i f s) =
      map_option (\<lambda>w. if wd_id w = i then (f w)\<lparr>wd_updatedAt := db_now s\<rparr> else w) (findWithdraw j s)"
    unfolding findWithdraw_def modifyWithdraw_def by (simp, rule find_updateRows) (simp add: assms)
  then show ?thesis by simp
qed

lemma findDeposit_modifyDeposit:
  assumes "\<And>d. dp_id (f d) = dp_id d"
  shows "findDeposit j (modifyDeposit i f s) = None \<longleftrightarrow> findDeposit j s = None"
proof -
  have "findDeposit j (modifyDeposit i f s) =
      map_option (\<lambda>d. if dp_id d = i then (f d)\<lparr>dp_updatedAt := db_now s\<rparr> else d) (findDeposit j s)"
    unfolding findDeposit_def modifyDeposit_def by (simp, rule find_updateRows) (simp add: assms)
  then show ?thesis by simp
qed

lemma giveBack_rows:
  assumes "allocationsLinked s" and "findAllocation i s = Some a"
  shows "\<exists>t. giveBack st a w d s = Inr ((), t) \<and> db_now t = db_now s \<and>
    p2pAllocations t = updateRows (\<lambda>x. al_id x = i) (\<lambda>x. x\<lparr>al_status := st, al_updatedAt := db_now s\<rparr>) (p2pAllocations s) \<and>
    (\<forall>j. findWithdraw j t = None \<longleftrightarrow> findWithdraw j s = None) \<and> (\<forall>j. findDeposit j t = None \<longleftrightarrow> findDeposit j s = None)"
proof -
  have i: "al_id a = i" using assms(2) by (auto simp: findAllocation_def dest: find_SomeD)
  obtain s1 where s1: "mergeReservationBack a s = Inr ((), s1)" "sameRows s s1" using mergeReservationBack_total by blast
  note same = sameRows_sel [OF s1(2)]
  obtain t where t: "giveBack st a w d s = Inr ((), t)" using s1(1) by (simp add: giveBack_def Let_def)
  obtain s2 where s2: "mergeReservationBack a s = Inr ((), s2)"
    "t = modifyDeposit (al_depositId a) (\<lambda>x. x\<lparr>dp_assignedAmountTotal := subDec (Some (dp_assignedAmountTotal d)) (Some (al_amount a)),
               dp_remainingAmount := Some (withDefault (dp_remainingAmount d) (dp_amount d) + al_amount a),
               dp_status := deriveDepositP2PStatus (dp_amount d) (subDec (Some (dp_assignedAmountTotal d)) (Some (al_amount a)))
                              (dp_settledAmountTotal d) False False\<rparr>)
        (modifyWithdraw (al_withdrawalId a) (\<lambda>x. x\<lparr>wd_assignedAmountTotal := subDec (Some (wd_assignedAmountTotal w)) (Some (al_amount a)),
               wd_status := deriveWithdrawP2PStatus (wd_amount w) (subDec (Some (wd_assignedAmountTotal w)) (Some (al_amount a)))
                              (wd_settledAmountTotal w) False False\<rparr>)
          (modifyAllocation (al_id a) (\<lambda>x. x\<lparr>al_status := st\<rparr>) s2))"
    by (rule giveBack_split [OF t])
  have eq: "s2 = s1" using s1(1) s2(1) by simp
  have "findWithdraw j (modifyAllocation i' f s1) = findWithdraw j s" "findDeposit j (modifyAllocation i' f s1) = findDeposit j s" for j i' f
    by (simp_all add: modifyAllocation_def findWithdraw_def findDeposit_def same)
  moreover have "findWithdraw j (modifyDeposit i' f u) = findWithdraw j u" "findDeposit j (modifyWithdraw i' g u) = findDeposit j u"
    for j i' f g u by (simp_all add: modifyDeposit_def modifyWithdraw_def findWithdraw_def findDeposit_def)
  ultimately have "(findWithdraw j t = None \<longleftrightarrow> findWithdraw j s = None) \<and> (findDeposit j t = None \<longleftrightarrow> findDeposit j s = None)" for j
    unfolding s2(2) eq by (simp add: findWithdraw_modifyWithdraw findDeposit_modifyDeposit)
  moreover have "p2pAllocations t = updateRows (\<lambda>x. al_id x = i) (\<lambda>x. x\<lparr>al_status := st, al_updatedAt := db_now s\<rparr>) (p2pAllocations s)"
      "db_now t = db_now s"
    unfolding s2(2) eq by (simp_all add: modifyDeposit_def modifyWithdraw_def modifyAllocation_def same i)
  ultimately show ?thesis using t by blast
qed

lemma expireLoop_all:
  assumes "allocationsLinked s" and "distinct is"
    and "\<And>i. i \<in> set is \<Longrightarrow> \<exists>a. findAllocation i s = Some a \<and> al_status a = P2PAllocationStatus.ASSIGNED"
  shows "\<exists>t. expireLoop is n s = (Inr (n + length is), t) \<and> p2pAllocations t = expiredRows s (set is) \<and>
    db_now t = db_now s \<and> allocationsLinked t"
  using assms
proof (induction "is" arbitrary: n s)
  case (Cons i "is")
  obtain a where a: "findAllocation i s = Some a" "al_status a = P2PAllocationStatus.ASSIGNED" using Cons.prems(3) [of i] by auto
  have m: "a \<in> set (p2pAllocations s)" using a(1) by (auto simp: findAllocation_def dest: find_SomeD)
  then obtain w d where wd: "findWithdraw (al_withdrawalId a) s = Some w" "findDeposit (al_depositId a) s = Some d"
    using Cons.prems(1) unfolding allocationsLinked_def by blast
  obtain s1 where s1: "giveBack P2PAllocationStatus.EXPIRED a w d s = Inr ((), s1)" "db_now s1 = db_now s"
    "p2pAllocations s1 = updateRows (\<lambda>x. al_id x = i) (\<lambda>x. x\<lparr>al_status := P2PAllocationStatus.EXPIRED, al_updatedAt := db_now s\<rparr>)
       (p2pAllocations s)"
    "\<And>j. findWithdraw j s1 = None \<longleftrightarrow> findWithdraw j s = None" "\<And>j. findDeposit j s1 = None \<longleftrightarrow> findDeposit j s = None"
    using giveBack_rows [OF Cons.prems(1) a(1)] by blast
  have one: "expireOne i s = Inr (1, s1)" using a wd s1(1) by (simp add: expireOne_def loadAllocation_def)
  have keys: "map al_id (p2pAllocations s1) = map al_id (p2pAllocations s)" unfolding s1(3) by (rule map_updateRows) simp
  have "allocationsLinked s1"
    using Cons.prems(1) unfolding allocationsLinked_def keys s1(4,5) by (auto simp: s1(3) set_updateRows)
  moreover have "\<exists>b. findAllocation j s1 = Some b \<and> al_status b = P2PAllocationStatus.ASSIGNED" if j: "j \<in> set is" for j
  proof -
    obtain b where b: "findAllocation j s = Some b" "al_status b = P2PAllocationStatus.ASSIGNED" using Cons.prems(3) [of j] j by auto
    have "findAllocation j s1 = map_option (\<lambda>x. if al_id x = i
        then x\<lparr>al_status := P2PAllocationStatus.EXPIRED, al_updatedAt := db_now s\<rparr> else x) (findAllocation j s)"
      unfolding findAllocation_def s1(3) by (rule find_updateRows) simp
    moreover have "al_id b \<noteq> i" using b(1) j Cons.prems(2) by (auto simp: findAllocation_def dest: find_SomeD)
    ultimately show ?thesis using b by simp
  qed
  ultimately obtain t where t: "expireLoop is (n + 1) s1 = (Inr (n + 1 + length is), t)" "p2pAllocations t = expiredRows s1 (set is)"
    "db_now t = db_now s1" "allocationsLinked t" using Cons.IH [of s1 "n + 1"] Cons.prems(2) by auto
  have "expiredRows s1 (set is) = expiredRows s (set (i # is))"
    unfolding expiredRows_def s1(2,3) updateRows_def map_map by (rule map_cong [OF refl]) simp
  then show ?case using t one s1(2) by simp
qed (simp add: expiredRows_def)

text \<open>The allocations that are past their time and still only assigned.\<close>

definition overdue :: "db \<Rightarrow> p2pAllocation list" where
  "overdue s = findMany (\<lambda>a. al_expiresAt a < db_now s \<and> al_status a = P2PAllocationStatus.ASSIGNED) (p2pAllocations s)"

interpretation allocs: keyed_table al_id "total :: (p2pAllocation \<Rightarrow> rat) \<Rightarrow> p2pAllocation list \<Rightarrow> rat"
  by unfold_locales simp_all

lemma expireAllocations_all:
  assumes "allocationsLinked s"
  obtains t where "expireAllocations s = (Inr (length (overdue s)), t)"
    "p2pAllocations t = expiredRows s (al_id ` set (overdue s))" "db_now t = db_now s" "allocationsLinked t"
proof -
  let ?is = "map al_id (overdue s)"
  have keys: "distinct (map al_id (p2pAllocations s))" using assms by (simp add: allocationsLinked_def)
  then have dist: "distinct ?is" by (simp add: overdue_def distinct_map_filter)
  have found: "\<exists>a. findAllocation i s = Some a \<and> al_status a = P2PAllocationStatus.ASSIGNED" if i: "i \<in> set ?is" for i
  proof -
    obtain a where a: "a \<in> set (overdue s)" "al_id a = i" using i by auto
    then have "a \<in> set (p2pAllocations s)" "al_status a = P2PAllocationStatus.ASSIGNED" by (auto simp: overdue_def)
    then show ?thesis using allocs.find_key [OF keys, of a] a(2) by (auto simp: findAllocation_def)
  qed
  from expireLoop_all [OF assms dist found] obtain t where "expireLoop ?is 0 s = (Inr (0 + length ?is), t)"
    "p2pAllocations t = expiredRows s (set ?is)" "db_now t = db_now s" "allocationsLinked t" by blast
  then show ?thesis using that by (simp add: expireAllocations_def overdue_def)
qed

section \<open>The split of a reservation, and its way back\<close>

lemma splitLimits_accounts:
  "forE rs (splitLimitReservation ai amt) s = Inr (x, t) \<Longrightarrow> accountReservations t = accountReservations s \<and> sameRows s t"
proof -
  have "holdsE (\<lambda>_ t. accountReservations t = accountReservations s \<and> sameRows s t) (forE rs (splitLimitReservation ai amt) s)"
    by (rule holdsE_for) (auto simp: splitLimitReservation_def createLimitReservation_def modifyLimitReservation_def bumpId_def
        sameRows_def rowsView_def)
  then show "forE rs (splitLimitReservation ai amt) s = Inr (x, t) \<Longrightarrow>
    accountReservations t = accountReservations s \<and> sameRows s t" by (rule holdsE_D)
qed

lemma splitReservation_table:
  assumes "splitReservationForAllocation wi ai amt s = Inr (x, t)"
  obtains r where "firstReservation TxRefType.WITHDRAW wi s = Some r" "amt \<le> ar_amount r"
    "findReservation TxRefType.WITHDRAW_ALLOCATION ai (ar_accountId r) s = None"
    "accountReservations t = updateRows (\<lambda>v. ar_id v = ar_id r) (\<lambda>v. v\<lparr>ar_amount := ar_amount r - amt\<rparr>) (accountReservations s) @
       [\<lparr>ar_id = freshId s, ar_accountId = ar_accountId r, ar_amount = amt, ar_refType = TxRefType.WITHDRAW_ALLOCATION,
         ar_refId = ai, ar_status = ar_status r\<rparr>]"
proof -
  obtain r where r: "firstReservation TxRefType.WITHDRAW wi s = Some r" "amt \<le> ar_amount r"
    using assms by (auto simp: splitReservationForAllocation_def not_less split: option.splits if_splits)
  let ?u = "modifyReservation (ar_id r) (ar_amount r - amt) s"
  have "\<not> ar_amount r < amt" using r(2) by simp
  then have "bindE (createReservation (ar_accountId r) amt TxRefType.WITHDRAW_ALLOCATION ai (ar_status r) ?u) (\<lambda>_ s.
      forE (reservationsOf TxRefType.WITHDRAW wi s) (splitLimitReservation ai amt) s) = Inr (x, t)"
    using assms r(1) by (simp add: splitReservationForAllocation_def subDec_def dec_def)
  then obtain v s1 where c: "createReservation (ar_accountId r) amt TxRefType.WITHDRAW_ALLOCATION ai (ar_status r) ?u = Inr (v, s1)"
    "forE (reservationsOf TxRefType.WITHDRAW wi s1) (splitLimitReservation ai amt) s1 = Inr (x, t)" by (rule bindE_elim)
  have u: "accountReservations ?u = updateRows (\<lambda>v. ar_id v = ar_id r) (\<lambda>v. v\<lparr>ar_amount := ar_amount r - amt\<rparr>) (accountReservations s)"
    "freshId ?u = freshId s" by (simp_all add: modifyReservation_def updateReservation_def freshId_def)
  have none: "findReservation TxRefType.WITHDRAW_ALLOCATION ai (ar_accountId r) ?u = None"
    "accountReservations s1 = accountReservations ?u @ [\<lparr>ar_id = freshId ?u, ar_accountId = ar_accountId r, ar_amount = amt,
       ar_refType = TxRefType.WITHDRAW_ALLOCATION, ar_refId = ai, ar_status = ar_status r\<rparr>]"
    using c(1) by (auto simp: createReservation_def Let_def bumpId_def split: if_splits)
  have "findReservation TxRefType.WITHDRAW_ALLOCATION ai (ar_accountId r) ?u =
      map_option (\<lambda>v. if ar_id v = ar_id r then v\<lparr>ar_amount := ar_amount r - amt\<rparr> else v)
        (findReservation TxRefType.WITHDRAW_ALLOCATION ai (ar_accountId r) s)"
    unfolding findReservation_def u(1) by (rule find_updateRows) simp
  then have "findReservation TxRefType.WITHDRAW_ALLOCATION ai (ar_accountId r) s = None" using none(1) by simp
  then show ?thesis using that [OF r] none(2) splitLimits_accounts [OF c(2)] u by simp
qed

lemma find_refine: "findFirst p t = Some x \<Longrightarrow> q x \<Longrightarrow> findFirst (\<lambda>y. p y \<and> q y) t = Some x"
  by (induction t) (auto split: if_splits)

lemma mergeReservationBack_accounts:
  "mergeReservationBack a s = Inr (x, t) \<Longrightarrow> accountReservations t = accountReservations (mergeAccountReservation a s)"
proof -
  have "holdsE (\<lambda>_ t. accountReservations t = accountReservations (mergeAccountReservation a s)) (mergeReservationBack a s)"
    unfolding mergeReservationBack_def Let_def
    by (rule holdsE_for) (auto simp: mergeLimitReservation_def modifyLimitReservation_def Let_def split: option.split)
  then show "mergeReservationBack a s = Inr (x, t) \<Longrightarrow>
    accountReservations t = accountReservations (mergeAccountReservation a s)" by (rule holdsE_D)
qed

lemma split_then_merge:
  assumes ok: "ledger_ok s" and none: "reservationsUnder TxRefType.WITHDRAW_ALLOCATION (al_id a) s = []"
    and split: "splitReservationForAllocation (al_withdrawalId a) (al_id a) (al_amount a) s = Inr (x, t)"
  shows "accountReservations (mergeAccountReservation a t) = accountReservations s"
proof -
  let ?A = "TxRefType.WITHDRAW_ALLOCATION" and ?R = "accountReservations s"
  obtain r where r: "firstReservation TxRefType.WITHDRAW (al_withdrawalId a) s = Some r"
    "accountReservations t = updateRows (\<lambda>v. ar_id v = ar_id r) (\<lambda>v. v\<lparr>ar_amount := ar_amount r - al_amount a\<rparr>) ?R @
       [\<lparr>ar_id = freshId s, ar_accountId = ar_accountId r, ar_amount = al_amount a, ar_refType = ?A,
         ar_refId = al_id a, ar_status = ar_status r\<rparr>]" by (rule splitReservation_table [OF split])
  let ?R' = "updateRows (\<lambda>v. ar_id v = ar_id r) (\<lambda>v. v\<lparr>ar_amount := ar_amount r - al_amount a\<rparr>) ?R"
  let ?n = "\<lparr>ar_id = freshId s, ar_accountId = ar_accountId r, ar_amount = al_amount a, ar_refType = ?A,
         ar_refId = al_id a, ar_status = ar_status r\<rparr>"
  have keys: "keys_ok s (map ar_id ?R)" using ok by (simp add: ledger_ok_def)
  then have fresh: "v \<in> set ?R \<Longrightarrow> ar_id v \<noteq> freshId s" for v using freshId_notin by force
  have rm: "r \<in> set ?R" using r(1) by (auto simp: firstReservation_def dest: find_SomeD)
  have fst: "firstReservation ?A (al_id a) t = Some ?n"
  proof -
    have "findFirst (\<lambda>v. ar_refType v = ?A \<and> ar_refId v = al_id a) ?R = None"
      using none by (auto simp: reservationsUnder_def find_None_iff filter_empty_conv)
    then have "findFirst (\<lambda>v. ar_refType v = ?A \<and> ar_refId v = al_id a) ?R' = None" by (subst find_updateRows) simp_all
    then show ?thesis by (simp add: firstReservation_def r(2) find_snoc)
  qed
  have orig: "findReservation TxRefType.WITHDRAW (al_withdrawalId a) (ar_accountId r) t =
      Some (r\<lparr>ar_amount := ar_amount r - al_amount a\<rparr>)"
  proof -
    have "findFirst (\<lambda>v. (ar_refType v = TxRefType.WITHDRAW \<and> ar_refId v = al_withdrawalId a) \<and> ar_accountId v = ar_accountId r) ?R = Some r"
      by (rule find_refine [OF r(1) [unfolded firstReservation_def]]) simp
    then have "findReservation TxRefType.WITHDRAW (al_withdrawalId a) (ar_accountId r) s = Some r"
      by (simp add: findReservation_def conj_assoc)
    moreover have "findFirst (\<lambda>v. ar_refType v = TxRefType.WITHDRAW \<and> ar_refId v = al_withdrawalId a \<and> ar_accountId v = ar_accountId r) ?R' =
       map_option (\<lambda>v. if ar_id v = ar_id r then v\<lparr>ar_amount := ar_amount r - al_amount a\<rparr> else v)
         (findReservation TxRefType.WITHDRAW (al_withdrawalId a) (ar_accountId r) s)"
      unfolding findReservation_def by (rule find_updateRows) simp
    ultimately show ?thesis by (simp add: findReservation_def r(2) find_snoc)
  qed
  have restored: "updateRows (\<lambda>v. ar_id v = ar_id r) (\<lambda>v. v\<lparr>ar_amount := ar_amount r\<rparr>) ?R' = ?R"
  proof -
    have "v\<lparr>ar_amount := ar_amount r\<rparr> = v" if "v \<in> set ?R" "ar_id v = ar_id r" for v
    proof -
      have "v = r" using that rm keys by (metis distinct_map inj_onD keys_ok_def)
      then show ?thesis by simp
    qed
    then have "map (\<lambda>v. if ar_id v = ar_id r then v\<lparr>ar_amount := ar_amount r\<rparr> else v) ?R = ?R"
      by (intro map_idI) auto
    moreover have "updateRows (\<lambda>v. ar_id v = ar_id r) (\<lambda>v. v\<lparr>ar_amount := ar_amount r\<rparr>) ?R' =
        map (\<lambda>v. if ar_id v = ar_id r then v\<lparr>ar_amount := ar_amount r\<rparr> else v) ?R"
      unfolding updateRows_def map_map by (rule map_cong [OF refl]) simp
    ultimately show ?thesis by simp
  qed
  have "freshId s \<noteq> ar_id r" using fresh [OF rm] by simp
  moreover have "deleteRows (\<lambda>v. ar_id v = freshId s) ?R = ?R" using fresh by (auto simp: deleteRows_def filter_id_conv)
  ultimately show ?thesis
    by (simp add: mergeAccountReservation_def fst orig Let_def modifyReservation_def updateReservation_def r(2) restored
        deleteRows_def)
qed

text \<open>The split moves a part of the hold, and every account keeps what is held on it.\<close>

lemma split_held:
  assumes ok: "ledger_ok s" and split: "splitReservationForAllocation wi ai amt s = Inr (x, t)"
  shows "held j t = held j s"
proof -
  obtain r where r: "firstReservation TxRefType.WITHDRAW wi s = Some r"
    "accountReservations t = updateRows (\<lambda>v. ar_id v = ar_id r) (\<lambda>v. v\<lparr>ar_amount := ar_amount r - amt\<rparr>) (accountReservations s) @
       [\<lparr>ar_id = freshId s, ar_accountId = ar_accountId r, ar_amount = amt, ar_refType = TxRefType.WITHDRAW_ALLOCATION,
         ar_refId = ai, ar_status = ar_status r\<rparr>]" by (rule splitReservation_table [OF split])
  have rm: "r \<in> set (accountReservations s)" using r(1) by (auto simp: firstReservation_def dest: find_SomeD)
  have dist: "distinct (map ar_id (accountReservations s))" using ok by (simp add: ledger_ok_def keys_ok_def)
  let ?g = "\<lambda>v. if ar_accountId v = j \<and> ar_status v = AccountReservationStatus.RESERVED then ar_amount v else 0"
  have "total ?g (updateRows (\<lambda>v. ar_id v = ar_id r) (\<lambda>v. v\<lparr>ar_amount := ar_amount r - amt\<rparr>) (accountReservations s)) =
      total ?g (accountReservations s) - ?g r + ?g (r\<lparr>ar_amount := ar_amount r - amt\<rparr>)"
    by (rule resv.rowsum_update [OF dist resv.find_key [OF dist rm]])
  then show ?thesis by (simp add: held_def r(2))
qed

section \<open>The finalization\<close>

lemma modifyAllocation_found:
  assumes "p2pAllocations t = p2pAllocations (modifyAllocation i f s)" and "\<And>x. al_id (f x) = al_id x"
    and "findAllocation i t = Some q"
  shows "\<exists>x. findAllocation i s = Some x \<and> q = (f x)\<lparr>al_updatedAt := db_now s\<rparr>"
proof -
  have "findAllocation i t = map_option (\<lambda>x. (f x)\<lparr>al_updatedAt := db_now s\<rparr>) (findAllocation i s)"
    unfolding findAllocation_def assms(1) modifyAllocation_def by (simp, rule find_replace) (simp add: assms(2))
  then show ?thesis using assms(3) by (cases "findAllocation i s") auto
qed

lemma finalization:
  assumes ok: "ledger_ok s" and l: "loadAllocation i s = Inr (a, w, d)"
    and new: "al_status a \<noteq> P2PAllocationStatus.SETTLED" "\<not> truthy (al_withdrawerAccountTxId a)" "\<not> truthy (al_payerAccountTxId a)"
    and h: "heldAs TxRefType.WITHDRAW_ALLOCATION i
      (Some (AccountReservationStatus.RESERVED, al_amount a, wd_userId w, IRR_INSTRUMENT_CODE)) s"
    and run: "finalizeAllocation env i ad s = Inr (q, t)"
  obtains wf wt where "walletId (wd_userId w) IRR_INSTRUMENT_CODE t = Some wf" "walletId (dp_userId d) IRR_INSTRUMENT_CODE t = Some wt"
    "\<forall>j. posted j t = posted j s - (if j = wf then al_amount a else 0) + (if j = wt then al_amount a else 0) \<and>
       held j t = held j s - (if j = wf then al_amount a else 0)"
    "al_status q = P2PAllocationStatus.SETTLED" "findAllocation i t = Some q" "ledger_ok t"
  using run
proof (cases rule: finalizeAllocation_outcomes)
  case same
  then show ?thesis using new loadAllocation_Inr(1) [OF l] by auto
next
  case (settled a' w' d' x0 s1 y0 s2 wa s3 pa s4 debit s5 credit s6)
  let ?rt = "TxRefType.WITHDRAW_ALLOCATION" and ?c = IRR_INSTRUMENT_CODE
  have eq: "a' = a" "w' = w" "d' = d" using settled(1) l by simp_all
  note r = settled(4-12) [unfolded eq]
  note e = effect_consume [OF ok h r(1)]
  note p0 = plain_side [OF effectD(2) [OF e(1)] holdsE_D [OF side_consumeLimit r(2)], where rt = ?rt and i = i]
  note p1 = plain_getAcc [OF plainD(1) [OF p0] r(3), where rt = ?rt and i = i]
  note p2 = plain_getAcc [OF plainD(1) [OF p1] r(4), where rt = ?rt and i = i]
  note p3 = plain_post [OF plainD(1) [OF p2] r(5)]
  note p4 = plain_post [OF plainD(1) [OF p3] r(6)]
  note p34 = plain_trans [OF p3 p4] and p24 = plain_trans [OF p2 plain_trans [OF p3 p4]]
  note p04 = plain_trans [OF p0 plain_trans [OF p1 p24]]
  note all = effect_trans [OF e(1) plainD(2) [OF p04]]
  obtain wf where wf: "walletId (wd_userId w) ?c s1 = Some wf" using e(3) by auto
  have ids: "walletId (wd_userId w) ?c s6 = Some (ac_id wa)" "walletId (dp_userId d) ?c s6 = Some (ac_id pa)"
    using plainD(4) [OF p24 getOrCreateAccount_effect(3) [OF r(3)]] plainD(4) [OF p34 getOrCreateAccount_effect(3) [OF r(4)]]
    by simp_all
  have same: "ac_id wa = wf" using plainD(4) [OF p04 wf] ids(1) by simp
  have "al_status q = P2PAllocationStatus.SETTLED" using modifyAllocation_found [OF r(7) _ r(8)] by auto
  moreover have "\<forall>j. posted j t = posted j s - (if j = wf then al_amount a else 0) + (if j = ac_id pa then al_amount a else 0) \<and>
       held j t = held j s - (if j = wf then al_amount a else 0)"
    using effectD(8,9) [OF all] wf same by (auto simp: sameLedger_sums [OF r(9)])
  ultimately show ?thesis
    using that [of wf "ac_id pa"] ids same r(8) sameLedger_ok [OF r(9) effectD(2) [OF all]]
    by (simp add: sameLedger_sums [OF r(9)])
qed

section \<open>Properties\<close>

text \<open>
  The concrete state: \<open>ali\<close> waits for 60 rials, \<open>sara\<close> offers to pay 50; and the environment of the
  default confirmation mode.
\<close>

definition aliWithdrawal :: withdrawRequest where
  "aliWithdrawal = \<lparr>wd_id = ''w'', wd_createdAt = 0, wd_updatedAt = 0, wd_userId = ''ali'', wd_amount = 60,
     wd_status = WithdrawStatus.WAITING_ASSIGNMENT, wd_purpose = RequestPurpose.P2P, wd_channel = None, wd_bankName = None,
     wd_iban = Some ''IR1'', wd_cardNumber = None, wd_payoutDestinationId = None, wd_destinationSnapshot = None,
     wd_assignedAmountTotal = 0, wd_settledAmountTotal = 0, wd_note = None, wd_processedAt = None, wd_processedById = None,
     wd_accountTxId = None, wd_idempotencyKey = None\<rparr>"

definition saraOffer :: depositRequest where
  "saraOffer = \<lparr>dp_id = ''d'', dp_createdAt = 0, dp_updatedAt = 0, dp_userId = ''sara'', dp_amount = 50, dp_method = ''CARD'',
     dp_status = DepositStatus.WAITING_ASSIGNMENT, dp_purpose = RequestPurpose.P2P, dp_remainingAmount = Some 50,
     dp_assignedAmountTotal = 0, dp_settledAmountTotal = 0, dp_refNo = None, dp_note = None, dp_processedAt = None,
     dp_processedById = None, dp_accountTxId = None\<rparr>"

definition offerDb :: db where
  "offerDb = aliDb\<lparr>db_seq := 3, users := [aliUser, sara], accounts := [aliAccount\<lparr>ac_blockedBalance := 60\<rparr>],
     accountReservations := [\<lparr>ar_id = unaryId 2, ar_accountId = unaryId 0, ar_amount = 60, ar_refType = TxRefType.WITHDRAW,
       ar_refId = ''w'', ar_status = AccountReservationStatus.RESERVED\<rparr>],
     withdrawRequests := [aliWithdrawal], depositRequests := [saraOffer],
     fileRows := [\<lparr>fi_id = ''f'', fi_uploadedById = ''sara'', fi_storageKey = ''k'', fi_createdAt = 0, fi_fileName = ''n'', fi_mimeType = ''t'',
       fi_sizeBytes = 1, fi_label = None\<rparr>]\<rparr>"

definition receiverEnv :: p2pEnv where
  "receiverEnv = \<lparr>pe_ttlMinutes = None, pe_confirmationMode = None, pe_paymentCode = (\<lambda>i. CHR ''P'' # i), pe_crypto = plainCrypto\<rparr>"

definition assignForty :: assignDto where
  "assignForty = \<lparr>as_systemDestination = False, as_destinationId = None, as_amount = Some 40, as_candidateId = None,
     as_depositId = Some ''d'', as_items = None\<rparr>"

definition saraProof :: proofDto where
  "saraProof = \<lparr>pf_bankRef = ''b'', pf_method = PaymentMethod.PAYA, pf_paidAt = None, pf_fileIds = [''f'']\<rparr>"

lemma offerDb_ok: "ledger_ok offerDb"
  using inj_unaryId
  by (simp add: inj_eq [OF inj_unaryId] ledger_ok_def keys_ok_def account_ok_def held_def posted_def offerDb_def aliDb_def
      emptyDb_def aliAccount_def aliTx_def acctKey_def resvKey_def)

text \<open>The allocation, confirmed by the receiver.\<close>

lemma offerDb_confirmed:
  obtains as t b u v c x where "assignAllocations receiverEnv ''w'' assignForty None offerDb = Inr (as, t)"
    "findAllocation (unaryId 3) t = Some b" "al_status b = P2PAllocationStatus.ASSIGNED"
    "submitPayerProof (unaryId 3) ''sara'' saraProof t = Inr (c, u)"
    "receiverConfirm receiverEnv (unaryId 3) ''ali'' True None u = Inr (x, v)"
    "findAllocation (unaryId 3) v = Some x" "al_status x = P2PAllocationStatus.RECEIVER_CONFIRMED"
    "p2pRun receiverEnv offerDb v" "\<exists>q z. finalizeAllocation receiverEnv (unaryId 3) ''root'' v = Inr (q, z)"
    "\<exists>q z. adminVerify (unaryId 3) ''root'' True None v = Inr (q, z)"
proof -
  have "case assignAllocations receiverEnv ''w'' assignForty None offerDb of Inl _ \<Rightarrow> False
    | Inr (as, t) \<Rightarrow> map_option al_status (findAllocation (unaryId 3) t) = Some P2PAllocationStatus.ASSIGNED \<and>
        (case submitPayerProof (unaryId 3) ''sara'' saraProof t of Inl _ \<Rightarrow> False
         | Inr (c, u) \<Rightarrow> (case receiverConfirm receiverEnv (unaryId 3) ''ali'' True None u of Inl _ \<Rightarrow> False
           | Inr (x, v) \<Rightarrow> findAllocation (unaryId 3) v = Some x \<and> al_status x = P2PAllocationStatus.RECEIVER_CONFIRMED \<and>
               (case finalizeAllocation receiverEnv (unaryId 3) ''root'' v of Inl _ \<Rightarrow> False | Inr (q, z) \<Rightarrow> True) \<and>
               (case adminVerify (unaryId 3) ''root'' True None v of Inl _ \<Rightarrow> False | Inr (q, z) \<Rightarrow> True)))" by code_simp
  from outcome_cases [OF this] obtain as t where 1: "assignAllocations receiverEnv ''w'' assignForty None offerDb = Inr (as, t)"
    "map_option al_status (findAllocation (unaryId 3) t) = Some P2PAllocationStatus.ASSIGNED"
    and 2: "case submitPayerProof (unaryId 3) ''sara'' saraProof t of Inl _ \<Rightarrow> False
         | Inr (c, u) \<Rightarrow> (case receiverConfirm receiverEnv (unaryId 3) ''ali'' True None u of Inl _ \<Rightarrow> False
           | Inr (x, v) \<Rightarrow> findAllocation (unaryId 3) v = Some x \<and> al_status x = P2PAllocationStatus.RECEIVER_CONFIRMED \<and>
               (case finalizeAllocation receiverEnv (unaryId 3) ''root'' v of Inl _ \<Rightarrow> False | Inr (q, z) \<Rightarrow> True) \<and>
               (case adminVerify (unaryId 3) ''root'' True None v of Inl _ \<Rightarrow> False | Inr (q, z) \<Rightarrow> True))" by blast
  from outcome_cases [OF 2] obtain c u where 3: "submitPayerProof (unaryId 3) ''sara'' saraProof t = Inr (c, u)"
    and 4: "case receiverConfirm receiverEnv (unaryId 3) ''ali'' True None u of Inl _ \<Rightarrow> False
           | Inr (x, v) \<Rightarrow> findAllocation (unaryId 3) v = Some x \<and> al_status x = P2PAllocationStatus.RECEIVER_CONFIRMED \<and>
               (case finalizeAllocation receiverEnv (unaryId 3) ''root'' v of Inl _ \<Rightarrow> False | Inr (q, z) \<Rightarrow> True) \<and>
               (case adminVerify (unaryId 3) ''root'' True None v of Inl _ \<Rightarrow> False | Inr (q, z) \<Rightarrow> True)" by blast
  from outcome_cases [OF 4] obtain x v where 5: "receiverConfirm receiverEnv (unaryId 3) ''ali'' True None u = Inr (x, v)"
    "findAllocation (unaryId 3) v = Some x" "al_status x = P2PAllocationStatus.RECEIVER_CONFIRMED"
    and 6: "case finalizeAllocation receiverEnv (unaryId 3) ''root'' v of Inl _ \<Rightarrow> False | Inr (q, z) \<Rightarrow> True"
      "case adminVerify (unaryId 3) ''root'' True None v of Inl _ \<Rightarrow> False | Inr (q, z) \<Rightarrow> True" by blast
  have run: "p2pRun receiverEnv offerDb v"
    by (rule pr_confirm [OF pr_proof [OF pr_assign [OF pr_start 1(1)] 3] 5(1)])
  obtain b where b: "findAllocation (unaryId 3) t = Some b" "al_status b = P2PAllocationStatus.ASSIGNED" using 1(2) by auto
  show ?thesis
    by (rule that [OF 1(1) b 3 5 run]) (use outcome_cases [OF 6(1)] outcome_cases [OF 6(2)] in blast)+
qed

lemma receiverEnv_mode: "getConfirmationMode receiverEnv = P2PConfirmationMode.RECEIVER"
  by code_simp

lemma offerDb_empty: "findAllocation i offerDb = None"
  by (simp add: findAllocation_def offerDb_def aliDb_def emptyDb_def)

text \<open>
  C5. The operations refine the life cycle of an allocation: whatever is called, in any order and with
  the clock moving in between, every allocation keeps the terms it was assigned with, a new one starts as
  assigned, and what it shows afterwards is reached from what it showed before by moves the abstract
  machine allows under the confirmation mode of the environment.
\<close>

theorem allocations_refine_lifecycle:
  assumes "p2pRun env s t"
  shows "(\<forall>a. findAllocation i s = Some a \<longrightarrow> (\<exists>b. findAllocation i t = Some b \<and> sameTerms a b \<and>
       (lifecycle (getConfirmationMode env))\<^sup>*\<^sup>* (viewOf a) (viewOf b))) \<and>
    (\<forall>b. findAllocation i s = None \<and> findAllocation i t = Some b \<longrightarrow>
       (lifecycle (getConfirmationMode env))\<^sup>*\<^sup>* assignedView (viewOf b))"
  using evolvesD [OF p2pRun_evolves [OF assms]] by blast

lemma allocations_refine_lifecycle_witness:
  "\<exists>t b. p2pRun receiverEnv offerDb t \<and> findAllocation (unaryId 3) t = Some b \<and>
     al_status b = P2PAllocationStatus.RECEIVER_CONFIRMED \<and>
     (lifecycle P2PConfirmationMode.RECEIVER)\<^sup>*\<^sup>* assignedView (viewOf b)"
proof -
  obtain v x where 1: "findAllocation (unaryId 3) v = Some x" "al_status x = P2PAllocationStatus.RECEIVER_CONFIRMED"
    "p2pRun receiverEnv offerDb v" by (rule offerDb_confirmed)
  then show ?thesis
    using allocations_refine_lifecycle [OF 1(3), of "unaryId 3"] offerDb_empty by (auto simp: receiverEnv_mode)
qed

text \<open>
  The rows of the allocations are always well formed. In every state reached from one without
  allocations, an allocation is settled exactly when it carries the time of its settlement and the two
  ledger entries, only when it was confirmed the way the confirmation mode asks for; and its status
  agrees with its times: a proof was submitted unless it is still assigned, expired or cancelled, a
  confirmed one has the time of the confirmation, a verified one that of the verification.
\<close>

theorem allocations_well_formed:
  assumes "p2pRun env s t" and "p2pAllocations s = []" and "findAllocation i t = Some a"
  shows "(al_status a = P2PAllocationStatus.SETTLED \<longleftrightarrow> al_settledAt a \<noteq> None) \<and>
    (al_withdrawerAccountTxId a \<noteq> None \<longleftrightarrow> al_settledAt a \<noteq> None) \<and> (al_payerAccountTxId a \<noteq> None \<longleftrightarrow> al_settledAt a \<noteq> None) \<and>
    (al_status a = P2PAllocationStatus.SETTLED \<longrightarrow>
       confirmedBy (getConfirmationMode env) (al_receiverConfirmedAt a \<noteq> None) (al_adminVerifiedAt a \<noteq> None)) \<and>
    (al_proofSubmittedAt a = None \<longrightarrow> al_status a \<in> {P2PAllocationStatus.ASSIGNED, P2PAllocationStatus.EXPIRED,
       P2PAllocationStatus.CANCELLED}) \<and>
    (al_status a = P2PAllocationStatus.RECEIVER_CONFIRMED \<longrightarrow> al_receiverConfirmedAt a \<noteq> None) \<and>
    (al_status a = P2PAllocationStatus.ADMIN_VERIFIED \<longrightarrow> al_adminVerifiedAt a \<noteq> None)"
proof -
  have "findAllocation i s = None" using assms(2) by (simp add: findAllocation_def)
  then have "(lifecycle (getConfirmationMode env))\<^sup>*\<^sup>* assignedView (viewOf a)"
    using evolvesD(2) [OF p2pRun_evolves [OF assms(1)] _ assms(3)] by blast
  then have "wellFormedView (getConfirmationMode env) (viewOf a)" using wellFormed_steps wellFormed_assigned by blast
  then show ?thesis by (cases "al_status a") (simp_all add: wellFormedView_def viewOf_def)
qed

lemma allocations_well_formed_witness:
  "\<exists>t q. p2pRun receiverEnv offerDb t \<and> findAllocation (unaryId 3) t = Some q \<and> al_status q = P2PAllocationStatus.SETTLED \<and>
     al_receiverConfirmedAt q \<noteq> None"
proof -
  obtain v q z where 1: "p2pRun receiverEnv offerDb v" "finalizeAllocation receiverEnv (unaryId 3) ''root'' v = Inr (q, z)"
    by (rule offerDb_confirmed) blast
  have run: "p2pRun receiverEnv offerDb z" by (rule pr_finalize [OF 1])
  have q: "findAllocation (unaryId 3) z = Some q"
    using 1(2) by (cases rule: finalizeAllocation_outcomes) simp_all
  have empty: "p2pAllocations offerDb = []" by (simp add: offerDb_def aliDb_def emptyDb_def)
  note w = allocations_well_formed [OF run empty q]
  have "al_status q = P2PAllocationStatus.SETTLED"
    using 1(2)
  proof (cases rule: finalizeAllocation_outcomes)
    case same
    then show ?thesis using w by (cases "al_withdrawerAccountTxId q"; cases "al_payerAccountTxId q") auto
  next
    case (settled a w d x0 s1 y0 s2 wa s3 pa s4 debit s5 credit s6)
    show ?thesis using modifyAllocation_found [OF settled(10) _ settled(11)] by auto
  qed
  then show ?thesis using run q w by (auto simp: confirmedBy_def receiverEnv_mode)
qed

text \<open>
  Verification by the administrator ends an allocation under the default mode. When the receiver
  alone is to confirm and the administrator verifies an allocation, it can never be settled any more,
  whatever is called afterwards: it stays verified, or ends disputed or cancelled, and finalizing it is
  refused for ever, although the receiver may have confirmed the payment.
\<close>

theorem verified_never_settles:
  assumes "p2pRun env s t" and "getConfirmationMode env = P2PConfirmationMode.RECEIVER"
    and "findAllocation i s = Some a" and "al_status a = P2PAllocationStatus.ADMIN_VERIFIED"
  shows "\<exists>b. findAllocation i t = Some b \<and>
    al_status b \<in> {P2PAllocationStatus.ADMIN_VERIFIED, P2PAllocationStatus.DISPUTED, P2PAllocationStatus.CANCELLED} \<and>
    (al_status b = P2PAllocationStatus.ADMIN_VERIFIED \<longrightarrow>
       ensureFinalizable env b = Some (BadRequestException ''P2P_ALLOCATION_NOT_FINALIZABLE''))"
proof -
  obtain b where b: "findAllocation i t = Some b" "(lifecycle P2PConfirmationMode.RECEIVER)\<^sup>*\<^sup>* (viewOf a) (viewOf b)"
    using evolvesD(1) [OF p2pRun_evolves [OF assms(1)] assms(3)] assms(2) by auto
  have "lv_status (viewOf b) \<in> {P2PAllocationStatus.ADMIN_VERIFIED, P2PAllocationStatus.DISPUTED, P2PAllocationStatus.CANCELLED}"
    by (rule receiver_dead_end [OF b(2)]) (simp add: viewOf_def assms(4))
  then show ?thesis using b(1) assms(2) by (auto simp: viewOf_def ensureFinalizable_def)
qed

lemma verified_never_settles_witness:
  "\<exists>u a t b. p2pRun receiverEnv offerDb u \<and> findAllocation (unaryId 3) u = Some a \<and>
     al_status a = P2PAllocationStatus.RECEIVER_CONFIRMED \<and> adminVerify (unaryId 3) ''root'' True None u = Inr (b, t) \<and>
     ensureFinalizable receiverEnv b = Some (BadRequestException ''P2P_ALLOCATION_NOT_FINALIZABLE'')"
proof -
  obtain v x b t where 1: "findAllocation (unaryId 3) v = Some x" "al_status x = P2PAllocationStatus.RECEIVER_CONFIRMED"
    "p2pRun receiverEnv offerDb v" "adminVerify (unaryId 3) ''root'' True None v = Inr (b, t)" by (rule offerDb_confirmed) blast
  from 1(4) obtain nt where u: "updateAllocation (unaryId 3) (\<lambda>y. y\<lparr>al_status := P2PAllocationStatus.ADMIN_VERIFIED,
      al_adminVerifiedAt := Some (db_now v), al_adminVerifierId := Some ''root'', al_adminNote := nt\<rparr>) v = Inr (b, t)"
    by (auto simp: adminVerify_def split: sum.splits if_splits)
  then have b: "findAllocation (unaryId 3) t = Some b" and t: "p2pAllocations t = p2pAllocations (modifyAllocation (unaryId 3)
      (\<lambda>y. y\<lparr>al_status := P2PAllocationStatus.ADMIN_VERIFIED, al_adminVerifiedAt := Some (db_now v),
         al_adminVerifierId := Some ''root'', al_adminNote := nt\<rparr>) v)"
    by (auto simp: updateAllocation_def Let_def split: option.splits)
  have "al_status b = P2PAllocationStatus.ADMIN_VERIFIED" using modifyAllocation_found [OF t _ b] by auto
  from verified_never_settles [OF pr_start receiverEnv_mode b this] b 1 \<open>al_status b = _\<close> show ?thesis by auto
qed

text \<open>
  C31. The expiry job ends and leaves nothing overdue. Over allocations whose requests exist, it always
  comes to its end without an exception, answers how many allocations were assigned and past their time,
  marks exactly those as expired and leaves every other one as it was; run again at the same time it finds
  nothing to do.
\<close>

theorem expiry_complete:
  assumes "allocationsLinked s"
  shows "\<exists>t. expireAllocations s = (Inr (length (overdue s)), t) \<and>
    p2pAllocations t = map (\<lambda>a. if al_expiresAt a < db_now s \<and> al_status a = P2PAllocationStatus.ASSIGNED
      then a\<lparr>al_status := P2PAllocationStatus.EXPIRED, al_updatedAt := db_now s\<rparr> else a) (p2pAllocations s) \<and>
    fst (expireAllocations t) = Inr 0 \<and> p2pAllocations (snd (expireAllocations t)) = p2pAllocations t"
proof -
  obtain t where t: "expireAllocations s = (Inr (length (overdue s)), t)" "p2pAllocations t = expiredRows s (al_id ` set (overdue s))"
    "db_now t = db_now s" "allocationsLinked t" by (rule expireAllocations_all [OF assms])
  have dist: "distinct (map al_id (p2pAllocations s))" using assms by (simp add: allocationsLinked_def)
  have "a \<in> set (p2pAllocations s) \<Longrightarrow> al_id a \<in> al_id ` set (overdue s) \<longleftrightarrow>
      al_expiresAt a < db_now s \<and> al_status a = P2PAllocationStatus.ASSIGNED" for a
    using dist by (auto simp: overdue_def distinct_map dest: inj_onD)
  then have rows: "p2pAllocations t = map (\<lambda>a. if al_expiresAt a < db_now s \<and> al_status a = P2PAllocationStatus.ASSIGNED
      then a\<lparr>al_status := P2PAllocationStatus.EXPIRED, al_updatedAt := db_now s\<rparr> else a) (p2pAllocations s)"
    unfolding t(2) expiredRows_def by (intro map_cong) auto
  then have none: "overdue t = []" by (auto simp: overdue_def t(3) filter_empty_conv)
  obtain u where "expireAllocations t = (Inr (length (overdue t)), u)" "p2pAllocations u = expiredRows t (al_id ` set (overdue t))"
    by (rule expireAllocations_all [OF t(4)])
  then show ?thesis using t(1) rows none by (simp add: expiredRows_def)
qed

lemma expiry_complete_witness:
  "\<exists>as t u. assignAllocations receiverEnv ''w'' assignForty None offerDb = Inr (as, t) \<and>
     expireAllocations (t\<lparr>db_now := 1000000000\<rparr>) = (Inr 1, u) \<and>
     map al_status (p2pAllocations u) = [P2PAllocationStatus.EXPIRED]"
proof -
  have "case assignAllocations receiverEnv ''w'' assignForty None offerDb of Inl _ \<Rightarrow> False
    | Inr (as, t) \<Rightarrow> length (p2pAllocations t) = 1 \<and>
        (let a = hd (p2pAllocations t) in al_expiresAt a < 1000000000 \<and> al_status a = P2PAllocationStatus.ASSIGNED \<and>
          findWithdraw (al_withdrawalId a) t \<noteq> None \<and> findDeposit (al_depositId a) t \<noteq> None)" by code_simp
  from outcome_cases [OF this] obtain as t where 1: "assignAllocations receiverEnv ''w'' assignForty None offerDb = Inr (as, t)"
    and 2: "length (p2pAllocations t) = 1" "let a = hd (p2pAllocations t) in al_expiresAt a < 1000000000 \<and>
       al_status a = P2PAllocationStatus.ASSIGNED \<and> findWithdraw (al_withdrawalId a) t \<noteq> None \<and>
       findDeposit (al_depositId a) t \<noteq> None" by blast
  obtain a where a: "p2pAllocations t = [a]" using 2(1) by (auto simp: length_Suc_conv)
  let ?t = "t\<lparr>db_now := 1000000000\<rparr>"
  have "allocationsLinked ?t" using 2(2) a by (simp add: allocationsLinked_def findWithdraw_def findDeposit_def Let_def)
  from expiry_complete [OF this] 1 2(2) a show ?thesis by (auto simp: overdue_def Let_def)
qed

text \<open>
  C23. An assignment only moves a hold, and cancelling it moves the hold back. Splitting a part of a
  withdrawal's reservation off for an allocation leaves what is held on every account unchanged, and
  merging it back restores the table of reservations exactly.
\<close>

theorem split_and_merge_restore:
  assumes "splitReservationForAllocation (al_withdrawalId a) (al_id a) (al_amount a) s = Inr ((), t)" and "ledger_ok s"
    and "reservationsUnder TxRefType.WITHDRAW_ALLOCATION (al_id a) s = []"
  shows "(\<forall>j. held j t = held j s) \<and>
    (\<exists>u. mergeReservationBack a t = Inr ((), u) \<and> accountReservations u = accountReservations s)"
proof -
  obtain u where u: "mergeReservationBack a t = Inr ((), u)" using mergeReservationBack_total by blast
  then show ?thesis
    using split_held [OF assms(2,1)] split_then_merge [OF assms(2,3,1)] mergeReservationBack_accounts [OF u] by simp
qed

definition someAllocation :: p2pAllocation where
  "someAllocation = newAllocation receiverEnv aliWithdrawal
     \<lparr>ds_type = PaymentDestinationType.IBAN, ds_value = None, ds_maskedValue = None, ds_bankName = None, ds_ownerName = None,
      ds_title = None\<rparr> 0 ''d'' 40 offerDb"

lemma split_and_merge_restore_witness:
  "\<exists>t u. splitReservationForAllocation ''w'' (al_id someAllocation) 40 offerDb = Inr ((), t) \<and>
     length (accountReservations t) = 2 \<and> mergeReservationBack someAllocation t = Inr ((), u) \<and>
     accountReservations u = accountReservations offerDb"
proof -
  have "case splitReservationForAllocation ''w'' (al_id someAllocation) 40 offerDb of Inl _ \<Rightarrow> False
    | Inr (_, t) \<Rightarrow> length (accountReservations t) = 2" by code_simp
  from outcome_cases [OF this] obtain t where
    1: "splitReservationForAllocation ''w'' (al_id someAllocation) 40 offerDb = Inr ((), t)" "length (accountReservations t) = 2"
    by auto
  have 2: "al_withdrawalId someAllocation = ''w''" "al_amount someAllocation = 40"
    by (simp_all add: someAllocation_def newAllocation_def aliWithdrawal_def)
  have "reservationsUnder TxRefType.WITHDRAW_ALLOCATION (al_id someAllocation) offerDb = []"
    by (simp add: reservationsUnder_def offerDb_def)
  from split_and_merge_restore [OF _ offerDb_ok this] 1 show ?thesis unfolding 2 by blast
qed

text \<open>
  C10. Finalizing moves the money once. When an allocation that is not settled yet is finalized and its
  amount is held for it, exactly that amount leaves the withdrawer's rial wallet together with the hold
  and reaches the payer's, nothing else moves, and the allocation is settled; finalizing it again answers
  the same row and changes nothing, and it can no longer be cancelled.
\<close>

theorem finalization_transfers_once:
  assumes "finalizeAllocation env i ad s = Inr (q, t)" and "loadAllocation i s = Inr (a, w, d)"
    and "al_status a \<noteq> P2PAllocationStatus.SETTLED" and "\<not> truthy (al_withdrawerAccountTxId a)"
    and "\<not> truthy (al_payerAccountTxId a)" and "ledger_ok s"
    and "heldAs TxRefType.WITHDRAW_ALLOCATION i
      (Some (AccountReservationStatus.RESERVED, al_amount a, wd_userId w, IRR_INSTRUMENT_CODE)) s"
  shows "ledger_ok t \<and> al_status q = P2PAllocationStatus.SETTLED \<and> findAllocation i t = Some q \<and>
    (\<exists>wf wt. walletId (wd_userId w) ''IRR'' t = Some wf \<and> walletId (dp_userId d) ''IRR'' t = Some wt \<and>
       (\<forall>j. posted j t = posted j s - (if j = wf then al_amount a else 0) + (if j = wt then al_amount a else 0) \<and>
            held j t = held j s - (if j = wf then al_amount a else 0))) \<and>
    (\<forall>w' d'. loadAllocation i t = Inr (q, w', d') \<longrightarrow> finalizeAllocation env' i ad' t = Inr (q, t) \<and>
       cancelAllocation i t = Inl (BadRequestException ''Allocation already settled''))"
proof -
  obtain wf wt where "walletId (wd_userId w) IRR_INSTRUMENT_CODE t = Some wf" "walletId (dp_userId d) IRR_INSTRUMENT_CODE t = Some wt"
    "\<forall>j. posted j t = posted j s - (if j = wf then al_amount a else 0) + (if j = wt then al_amount a else 0) \<and>
       held j t = held j s - (if j = wf then al_amount a else 0)"
    "al_status q = P2PAllocationStatus.SETTLED" "findAllocation i t = Some q" "ledger_ok t"
    by (rule finalization [OF assms(6,2-5,7,1)])
  then show ?thesis by (auto simp: IRR_INSTRUMENT_CODE_def finalizeAllocation_def cancelAllocation_def)
qed

text \<open>The state of the witness: the allocation of 40 is confirmed, and 40 of the 60 rials are held for it.\<close>

definition confirmedAllocation :: p2pAllocation where
  "confirmedAllocation = someAllocation\<lparr>al_status := P2PAllocationStatus.RECEIVER_CONFIRMED, al_proofSubmittedAt := Some 0,
     al_receiverConfirmedAt := Some 0\<rparr>"

definition confirmedDb :: db where
  "confirmedDb = offerDb\<lparr>db_seq := 5, p2pAllocations := [confirmedAllocation],
     accountReservations := [\<lparr>ar_id = unaryId 2, ar_accountId = unaryId 0, ar_amount = 20, ar_refType = TxRefType.WITHDRAW,
       ar_refId = ''w'', ar_status = AccountReservationStatus.RESERVED\<rparr>,
       \<lparr>ar_id = unaryId 4, ar_accountId = unaryId 0, ar_amount = 40, ar_refType = TxRefType.WITHDRAW_ALLOCATION,
       ar_refId = unaryId 3, ar_status = AccountReservationStatus.RESERVED\<rparr>]\<rparr>"

lemma confirmedDb_ok: "ledger_ok confirmedDb"
  using inj_unaryId
  by (simp add: inj_eq [OF inj_unaryId] ledger_ok_def keys_ok_def account_ok_def held_def posted_def confirmedDb_def offerDb_def
      aliDb_def emptyDb_def aliAccount_def aliTx_def acctKey_def resvKey_def)

lemma finalization_transfers_once_witness:
  "\<exists>q t k. finalizeAllocation receiverEnv (unaryId 3) ''root'' confirmedDb = Inr (q, t) \<and> walletId ''sara'' ''IRR'' t = Some k \<and>
     al_status q = P2PAllocationStatus.SETTLED \<and> ledger_ok t"
proof -
  have "case finalizeAllocation receiverEnv (unaryId 3) ''root'' confirmedDb of Inl _ \<Rightarrow> False | Inr (q, t) \<Rightarrow> True" by code_simp
  from outcome_cases [OF this] obtain q t where
    1: "finalizeAllocation receiverEnv (unaryId 3) ''root'' confirmedDb = Inr (q, t)" by blast
  have id: "al_id someAllocation = unaryId 3" "al_withdrawalId someAllocation = ''w''" "al_depositId someAllocation = ''d''"
    by (simp_all add: someAllocation_def newAllocation_def freshId_def offerDb_def aliDb_def emptyDb_def aliWithdrawal_def)
  have 2: "loadAllocation (unaryId 3) confirmedDb = Inr (confirmedAllocation, aliWithdrawal, saraOffer)"
    by (simp add: loadAllocation_def findAllocation_def findWithdraw_def findDeposit_def confirmedDb_def confirmedAllocation_def
        offerDb_def id aliWithdrawal_def saraOffer_def)
  have 3: "al_status confirmedAllocation \<noteq> P2PAllocationStatus.SETTLED" "\<not> truthy (al_withdrawerAccountTxId confirmedAllocation)"
    "\<not> truthy (al_payerAccountTxId confirmedAllocation)" "al_amount confirmedAllocation = 40"
    by (simp_all add: confirmedAllocation_def someAllocation_def newAllocation_def)
  have "heldAs TxRefType.WITHDRAW_ALLOCATION (unaryId 3)
      (Some (AccountReservationStatus.RESERVED, al_amount confirmedAllocation, wd_userId aliWithdrawal, IRR_INSTRUMENT_CODE)) confirmedDb"
    by (simp add: 3(4) reservationsUnder_def confirmedDb_def offerDb_def walletId_def findInstrument_def findAccountOf_def aliDb_def
        emptyDb_def irr_def IRR_INSTRUMENT_CODE_def aliAccount_def aliWithdrawal_def)
  from finalization_transfers_once [OF 1 2 3(1-3) confirmedDb_ok this, of receiverEnv "''root''"] 1 show ?thesis by (auto simp: saraOffer_def)
qed

end
