(* ===== verification/P2PTotals.thy ===== *)
theory P2PTotals
  imports P2P
begin

text \<open>
  The money of the P2P settlements. \<open>p2p_ok\<close> ties the running totals of a withdrawal and of a deposit to
  the allocations they are summed from, and the reservations of the ledger to both: what a withdrawal
  still holds is what is not assigned, every open allocation holds its amount on the withdrawer's wallet,
  a settled one has consumed it and a closed one holds nothing. Every operation of \<open>P2P\<close> keeps it; each
  is an instance of one step lemma about a change of a single allocation and its two requests.
\<close>

section \<open>The invariant\<close>

definition liveAmount :: "p2pAllocation \<Rightarrow> decimal" where
  "liveAmount a =
     (if al_status a \<in> {P2PAllocationStatus.CANCELLED, P2PAllocationStatus.EXPIRED} then 0 else al_amount a)"

definition settledAmount :: "p2pAllocation \<Rightarrow> decimal" where
  "settledAmount a = (if al_status a = P2PAllocationStatus.SETTLED then al_amount a else 0)"

definition sumFor :: "(p2pAllocation \<Rightarrow> decimal) \<Rightarrow> id \<Rightarrow> db \<Rightarrow> decimal" where
  "sumFor g i s = total (\<lambda>a. if al_withdrawalId a = i then g a else 0) (p2pAllocations s)"

definition sumFrom :: "(p2pAllocation \<Rightarrow> decimal) \<Rightarrow> id \<Rightarrow> db \<Rightarrow> decimal" where
  "sumFrom g i s = total (\<lambda>a. if al_depositId a = i then g a else 0) (p2pAllocations s)"

definition allocationHold :: "p2pAllocation \<Rightarrow> id \<Rightarrow> hold" where
  "allocationHold a u =
     (case al_status a of
        P2PAllocationStatus.CANCELLED \<Rightarrow> None
      | P2PAllocationStatus.EXPIRED \<Rightarrow> None
      | P2PAllocationStatus.SETTLED \<Rightarrow> Some (AccountReservationStatus.CONSUMED, al_amount a, u, IRR_INSTRUMENT_CODE)
      | _ \<Rightarrow> Some (AccountReservationStatus.RESERVED, al_amount a, u, IRR_INSTRUMENT_CODE))"

definition allocation_ok :: "db \<Rightarrow> p2pAllocation \<Rightarrow> bool" where
  "allocation_ok s a \<longleftrightarrow> 0 < al_amount a \<and>
     (\<exists>w. findWithdraw (al_withdrawalId a) s = Some w \<and> wd_purpose w = RequestPurpose.P2P \<and>
        heldAs TxRefType.WITHDRAW_ALLOCATION (al_id a) (allocationHold a (wd_userId w)) s) \<and>
     (\<exists>d. findDeposit (al_depositId a) s = Some d \<and> dp_purpose d = RequestPurpose.P2P)"

definition withdrawal_ok :: "db \<Rightarrow> withdrawRequest \<Rightarrow> bool" where
  "withdrawal_ok s w \<longleftrightarrow> (wd_purpose w = RequestPurpose.P2P \<longrightarrow>
     wd_assignedAmountTotal w = sumFor liveAmount (wd_id w) s \<and> wd_settledAmountTotal w = sumFor settledAmount (wd_id w) s \<and>
     heldAs TxRefType.WITHDRAW (wd_id w) (Some (AccountReservationStatus.RESERVED, wd_amount w - wd_assignedAmountTotal w,
       wd_userId w, IRR_INSTRUMENT_CODE)) s)"

definition deposit_ok :: "db \<Rightarrow> depositRequest \<Rightarrow> bool" where
  "deposit_ok s d \<longleftrightarrow> (dp_purpose d = RequestPurpose.P2P \<longrightarrow>
     dp_assignedAmountTotal d = sumFrom liveAmount (dp_id d) s \<and> dp_settledAmountTotal d = sumFrom settledAmount (dp_id d) s \<and>
     withDefault (dp_remainingAmount d) (dp_amount d) = dp_amount d - dp_assignedAmountTotal d \<and>
     dp_assignedAmountTotal d \<le> dp_amount d)"

definition p2p_ok :: "db \<Rightarrow> bool" where
  "p2p_ok s \<longleftrightarrow> ledger_ok s \<and> keys_ok s (map al_id (p2pAllocations s)) \<and>
     distinct (map wd_id (withdrawRequests s)) \<and> distinct (map dp_id (depositRequests s)) \<and>
     (\<forall>a\<in>set (p2pAllocations s). allocation_ok s a) \<and>
     (\<forall>w\<in>set (withdrawRequests s). withdrawal_ok s w) \<and> (\<forall>d\<in>set (depositRequests s). deposit_ok s d) \<and>
     (\<forall>v\<in>set (accountReservations s). ar_refType v = TxRefType.WITHDRAW_ALLOCATION \<longrightarrow>
        ar_refId v \<in> al_id ` set (p2pAllocations s))"

lemma p2p_okD:
  assumes "p2p_ok s"
  shows "ledger_ok s" "keys_ok s (map al_id (p2pAllocations s))"
    "distinct (map wd_id (withdrawRequests s))" "distinct (map dp_id (depositRequests s))"
    "a \<in> set (p2pAllocations s) \<Longrightarrow> allocation_ok s a" "w \<in> set (withdrawRequests s) \<Longrightarrow> withdrawal_ok s w"
    "d \<in> set (depositRequests s) \<Longrightarrow> deposit_ok s d"
    "v \<in> set (accountReservations s) \<Longrightarrow> ar_refType v = TxRefType.WITHDRAW_ALLOCATION \<Longrightarrow> ar_refId v \<in> al_id ` set (p2pAllocations s)"
  using assms by (simp_all add: p2p_ok_def)

lemma withdrawal_okD:
  assumes "withdrawal_ok s w" and "wd_purpose w = RequestPurpose.P2P"
  shows "wd_assignedAmountTotal w = sumFor liveAmount (wd_id w) s" "wd_settledAmountTotal w = sumFor settledAmount (wd_id w) s"
    "heldAs TxRefType.WITHDRAW (wd_id w) (Some (AccountReservationStatus.RESERVED, wd_amount w - wd_assignedAmountTotal w,
       wd_userId w, IRR_INSTRUMENT_CODE)) s"
  using assms unfolding withdrawal_ok_def by blast+

lemma found_rows:
  "findAllocation i s = Some a \<Longrightarrow> a \<in> set (p2pAllocations s) \<and> al_id a = i"
  "findWithdraw i s = Some w \<Longrightarrow> w \<in> set (withdrawRequests s) \<and> wd_id w = i"
  "findDeposit i s = Some d \<Longrightarrow> d \<in> set (depositRequests s) \<and> dp_id d = i"
  by (auto simp: findAllocation_def findWithdraw_def findDeposit_def dest: find_SomeD)

interpretation wds: keyed_table wd_id "total :: (withdrawRequest \<Rightarrow> rat) \<Rightarrow> withdrawRequest list \<Rightarrow> rat"
  by unfold_locales simp_all

interpretation dps: keyed_table dp_id "total :: (depositRequest \<Rightarrow> rat) \<Rightarrow> depositRequest list \<Rightarrow> rat"
  by unfold_locales simp_all

text \<open>What the bounds on a request's totals follow from.\<close>

lemma sums_ordered:
  assumes "p2p_ok s"
  shows "0 \<le> sumFor settledAmount j s" "sumFor settledAmount j s \<le> sumFor liveAmount j s"
    "0 \<le> sumFrom settledAmount j s" "sumFrom settledAmount j s \<le> sumFrom liveAmount j s"
proof -
  have pos: "0 \<le> al_amount a" if "a \<in> set (p2pAllocations s)" for a
    using p2p_okD(5) [OF assms that] by (simp add: allocation_ok_def)
  have mono: "total g xs \<le> total h xs" if "\<And>x. x \<in> set xs \<Longrightarrow> g x \<le> h x" for g h :: "p2pAllocation \<Rightarrow> rat" and xs
    using that by (induction xs) (auto intro: add_mono)
  show "0 \<le> sumFor settledAmount j s" "0 \<le> sumFrom settledAmount j s"
    unfolding sumFor_def sumFrom_def by (rule total_nonneg; simp add: settledAmount_def pos)+
  show "sumFor settledAmount j s \<le> sumFor liveAmount j s" "sumFrom settledAmount j s \<le> sumFrom liveAmount j s"
    unfolding sumFor_def sumFrom_def by (rule mono; simp add: settledAmount_def liveAmount_def pos)+
qed

lemma withdrawal_held_nonneg:
  assumes "ledger_ok s" and "heldAs rt i (Some (x, amt, u, c)) s"
  shows "0 \<le> amt"
proof -
  obtain v where v: "reservationsUnder rt i s = [v]" "ar_amount v = amt" using assms(2) by auto
  have "v \<in> set (reservationsUnder rt i s)" by (simp add: v(1))
  then have "v \<in> set (accountReservations s)" by (simp add: reservationsUnder_def)
  then show ?thesis using ledger_okD(5) [OF assms(1)] v(2) by auto
qed

section \<open>The step lemma\<close>

text \<open>
  One allocation changes (or is new), its withdrawal and its deposit are updated, and so are the
  reservations of both. \<open>d1\<close> and \<open>d2\<close> are the changes of the assigned and of the settled total.
\<close>

lemma p2p_step:
  assumes ok: "p2p_ok s" and led: "ledger_ok t" and keys: "keys_ok t (map al_id (p2pAllocations t))"
    and W: "withdrawRequests t = updateRows (\<lambda>x. wd_id x = al_withdrawalId b) fw (withdrawRequests s)"
    and D: "depositRequests t = updateRows (\<lambda>x. dp_id x = al_depositId b) fd (depositRequests s)"
    and fw: "\<And>x. wd_id (fw x) = wd_id x \<and> wd_purpose (fw x) = wd_purpose x \<and> wd_userId (fw x) = wd_userId x \<and>
      wd_amount (fw x) = wd_amount x"
    and fd: "\<And>x. dp_id (fd x) = dp_id x \<and> dp_purpose (fd x) = dp_purpose x \<and> dp_amount (fd x) = dp_amount x"
    and w: "findWithdraw (al_withdrawalId b) s = Some w" "wd_purpose w = RequestPurpose.P2P"
      "wd_assignedAmountTotal (fw w) = wd_assignedAmountTotal w + d1" "wd_settledAmountTotal (fw w) = wd_settledAmountTotal w + d2"
    and d: "findDeposit (al_depositId b) s = Some d" "dp_purpose d = RequestPurpose.P2P"
      "dp_assignedAmountTotal (fd d) = dp_assignedAmountTotal d + d1" "dp_settledAmountTotal (fd d) = dp_settledAmountTotal d + d2"
      "withDefault (dp_remainingAmount (fd d)) (dp_amount d) = withDefault (dp_remainingAmount d) (dp_amount d) - d1"
      "dp_assignedAmountTotal d + d1 \<le> dp_amount d"
    and sums: "\<And>j. sumFor liveAmount j t = sumFor liveAmount j s + (if j = al_withdrawalId b then d1 else 0)"
      "\<And>j. sumFor settledAmount j t = sumFor settledAmount j s + (if j = al_withdrawalId b then d2 else 0)"
      "\<And>j. sumFrom liveAmount j t = sumFrom liveAmount j s + (if j = al_depositId b then d1 else 0)"
      "\<And>j. sumFrom settledAmount j t = sumFrom settledAmount j s + (if j = al_depositId b then d2 else 0)"
    and other: "\<And>j. j \<noteq> al_withdrawalId b \<Longrightarrow> reservationsUnder TxRefType.WITHDRAW j t = reservationsUnder TxRefType.WITHDRAW j s"
      "\<And>j. j \<noteq> al_id b \<Longrightarrow> reservationsUnder TxRefType.WITHDRAW_ALLOCATION j t = reservationsUnder TxRefType.WITHDRAW_ALLOCATION j s"
    and wal: "\<And>u c k. walletId u c s = Some k \<Longrightarrow> walletId u c t = Some k"
    and hold: "heldAs TxRefType.WITHDRAW (al_withdrawalId b) (Some (AccountReservationStatus.RESERVED,
        wd_amount w - (wd_assignedAmountTotal w + d1), wd_userId w, IRR_INSTRUMENT_CODE)) t"
    and b: "0 < al_amount b" "heldAs TxRefType.WITHDRAW_ALLOCATION (al_id b) (allocationHold b (wd_userId w)) t"
      "b \<in> set (p2pAllocations t)"
    and allocs: "\<And>a. a \<in> set (p2pAllocations t) \<Longrightarrow> a = b \<or> a \<in> set (p2pAllocations s) \<and> al_id a \<noteq> al_id b"
      "al_id ` set (p2pAllocations s) \<subseteq> al_id ` set (p2pAllocations t)"
  shows "p2p_ok t"
proof -
  note D = D and keep = p2p_okD [OF ok]
  have fW: "findWithdraw j t = map_option (\<lambda>x. if j = al_withdrawalId b then fw x else x) (findWithdraw j s)" for j
    unfolding findWithdraw_def W by (rule wds.find_update) (simp add: fw)
  have fD: "findDeposit j t = map_option (\<lambda>x. if j = al_depositId b then fd x else x) (findDeposit j s)" for j
    unfolding findDeposit_def D by (rule dps.find_update) (simp add: fd)
  have "allocation_ok t a" if a: "a \<in> set (p2pAllocations t)" for a
  proof (cases "a = b")
    case True
    then show ?thesis using b w d fw fd by (simp add: allocation_ok_def fW fD)
  next
    case False
    then have m: "allocation_ok s a" "al_id a \<noteq> al_id b" using allocs(1) [OF a] keep(5) by auto
    have "heldAs TxRefType.WITHDRAW_ALLOCATION (al_id a) x t" if "heldAs TxRefType.WITHDRAW_ALLOCATION (al_id a) x s" for x
      by (rule heldAs_cong [OF other(2) [OF m(2)] wal that])
    moreover obtain x y where "0 < al_amount a" "findWithdraw (al_withdrawalId a) s = Some x" "wd_purpose x = RequestPurpose.P2P"
      "heldAs TxRefType.WITHDRAW_ALLOCATION (al_id a) (allocationHold a (wd_userId x)) s"
      "findDeposit (al_depositId a) s = Some y" "dp_purpose y = RequestPurpose.P2P" using m(1) by (auto simp: allocation_ok_def)
    ultimately show ?thesis using fw [of x] fd [of y] by (simp add: allocation_ok_def fW fD)
  qed
  moreover have "withdrawal_ok t x" if x: "x \<in> set (withdrawRequests t)" for x
  proof -
    obtain y where y: "y \<in> set (withdrawRequests s)" "x = (if wd_id y = al_withdrawalId b then fw y else y)"
      by (rule imageE [OF x [unfolded W set_updateRows]])
    show ?thesis
    proof (cases "wd_id y = al_withdrawalId b")
      case True
      have "y = w" using wds.key_eqD [OF keep(3) y(1), of w] found_rows(2) [OF w(1)] True by simp
      then show ?thesis
        using keep(6) [OF y(1)] y(2) True fw [of w] w hold by (simp add: withdrawal_ok_def sums del: heldAs.simps)
    next
      case False
      have "heldAs TxRefType.WITHDRAW (wd_id y) h t" if "heldAs TxRefType.WITHDRAW (wd_id y) h s" for h
        by (rule heldAs_cong [OF other(1) [OF False] wal that])
      then show ?thesis using keep(6) [OF y(1)] y(2) False by (auto simp: withdrawal_ok_def sums simp del: heldAs.simps)
    qed
  qed
  moreover have "deposit_ok t x" if x: "x \<in> set (depositRequests t)" for x
  proof -
    obtain y where y: "y \<in> set (depositRequests s)" "x = (if dp_id y = al_depositId b then fd y else y)"
      by (rule imageE [OF x [unfolded D set_updateRows]])
    show ?thesis
    proof (cases "dp_id y = al_depositId b")
      case True
      have "y = d" using dps.key_eqD [OF keep(4) y(1), of d] found_rows(3) [OF d(1)] True by simp
      then show ?thesis using keep(7) [OF y(1)] y(2) True fd [of d] d by (simp add: deposit_ok_def sums)
    next
      case False
      then show ?thesis using keep(7) [OF y(1)] y(2) by (auto simp: deposit_ok_def sums)
    qed
  qed
  moreover have "ar_refId v \<in> al_id ` set (p2pAllocations t)"
    if v: "v \<in> set (accountReservations t)" "ar_refType v = TxRefType.WITHDRAW_ALLOCATION" for v
  proof (cases "ar_refId v = al_id b")
    case False
    have "v \<in> set (reservationsUnder TxRefType.WITHDRAW_ALLOCATION (ar_refId v) t)" using v by (simp add: reservationsUnder_def)
    then have "v \<in> set (accountReservations s)" unfolding other(2) [OF False] by (simp add: reservationsUnder_def)
    then show ?thesis using keep(8) v(2) allocs(2) by blast
  qed (use b(3) in simp)
  moreover have "distinct (map wd_id (withdrawRequests t))" "distinct (map dp_id (depositRequests t))"
    using keep(3,4) fw fd by (simp_all add: W D map_updateRows)
  ultimately show ?thesis using led keys by (simp add: p2p_ok_def)
qed

text \<open>The four sums after a change of one row, and after a new row.\<close>

lemma sums_update:
  assumes "distinct (map al_id (p2pAllocations s))" and "findAllocation i s = Some a"
    and "p2pAllocations t = updateRows (\<lambda>x. al_id x = i) f (p2pAllocations s)"
    and "al_withdrawalId (f a) = al_withdrawalId a" "al_depositId (f a) = al_depositId a"
  shows "sumFor g j t = sumFor g j s + (if j = al_withdrawalId a then g (f a) - g a else 0)"
    "sumFrom g j t = sumFrom g j s + (if j = al_depositId a then g (f a) - g a else 0)"
  using allocs.rowsum_update [OF assms(1) assms(2) [unfolded findAllocation_def]] assms(4,5)
  by (auto simp: sumFor_def sumFrom_def assms(3))

lemma sums_new:
  assumes "p2pAllocations t = p2pAllocations s @ [a]"
  shows "sumFor g j t = sumFor g j s + (if j = al_withdrawalId a then g a else 0)"
    "sumFrom g j t = sumFrom g j s + (if j = al_depositId a then g a else 0)"
  by (simp_all add: sumFor_def sumFrom_def assms)

lemma updated_row:
  assumes "distinct (map al_id (p2pAllocations s))" and "findAllocation i s = Some a" and "\<And>x. al_id (f x) = al_id x"
    and t: "p2pAllocations t = updateRows (\<lambda>x. al_id x = i) f (p2pAllocations s)"
  shows "f a \<in> set (p2pAllocations t)" "al_id (f a) = i" "al_id ` set (p2pAllocations s) \<subseteq> al_id ` set (p2pAllocations t)"
    "x \<in> set (p2pAllocations t) \<Longrightarrow> x = f a \<or> x \<in> set (p2pAllocations s) \<and> al_id x \<noteq> i"
    "map al_id (p2pAllocations t) = map al_id (p2pAllocations s)"
proof -
  note a = found_rows(1) [OF assms(2)]
  show "f a \<in> set (p2pAllocations t)" using a by (auto simp: t set_updateRows)
  show "al_id (f a) = i" using a assms(3) by simp
  show m: "map al_id (p2pAllocations t) = map al_id (p2pAllocations s)" unfolding t by (rule map_updateRows) (rule assms(3))
  show "al_id ` set (p2pAllocations s) \<subseteq> al_id ` set (p2pAllocations t)"
    using arg_cong [OF m, of set] by simp
  show "x = f a \<or> x \<in> set (p2pAllocations s) \<and> al_id x \<noteq> i" if "x \<in> set (p2pAllocations t)"
  proof -
    obtain y where y: "y \<in> set (p2pAllocations s)" "x = (if al_id y = i then f y else y)" using \<open>x \<in> _\<close> by (auto simp: t set_updateRows)
    show ?thesis using y allocs.key_eqD [OF assms(1) y(1), of a] a by (cases "al_id y = i") simp_all
  qed
qed

section \<open>The reservations under a split and a merge\<close>

text \<open>A change of the reservation table that keeps every sum keeps the ledger.\<close>

lemma ledger_rebook:
  assumes ok: "ledger_ok s" and same: "accounts t = accounts s" "accountTxs t = accountTxs s" "db_gen t = db_gen s" "db_seq s \<le> db_seq t"
    and r: "keys_ok t (map ar_id (accountReservations t))" "distinct (map resvKey (accountReservations t))"
      "\<And>r. r \<in> set (accountReservations t) \<Longrightarrow> 0 \<le> ar_amount r \<and> ar_accountId r \<in> ac_id ` set (accounts s)"
      "\<And>j. held j t = held j s"
  shows "ledger_ok t"
proof (rule ledger_okI)
  have q: "quiet s t" using same by (simp add: quiet_def)
  show "keys_ok t (map ac_id (accounts t))" unfolding same(1) by (rule quiet_keys [OF q ledger_okD(1) [OF ok]])
  show "account_ok t a" if "a \<in> set (accounts t)" for a
    using ledger_okD(8) [OF ok, of a] that account_ok_cong [OF r(4) posted_cong [OF same(2)]] by (simp add: same(1))
  show "distinct (map acctKey (accounts t))" unfolding same(1) by (rule ledger_okD(3) [OF ok])
  show "x \<in> set (accountTxs t) \<Longrightarrow> tx_accountId x \<in> ac_id ` set (accounts t)" for x
    unfolding same by (rule ledger_okD(7) [OF ok])
  show "x \<in> set (accountReservations t) \<Longrightarrow> ar_accountId x \<in> ac_id ` set (accounts t)" for x
    unfolding same using r(3) by blast
qed (simp_all add: r(1-3))

text \<open>A hold is one row, found by its reference and its account.\<close>

lemma hold_row:
  assumes ok: "ledger_ok s" and h: "heldAs rt i (Some (x, amt, u, c)) s"
  obtains v where "reservationsUnder rt i s = [v]" "ar_status v = x" "ar_amount v = amt" "walletId u c s = Some (ar_accountId v)"
    "v \<in> set (accountReservations s)" "ar_refType v = rt" "ar_refId v = i" "firstReservation rt i s = Some v"
    "findReservation rt i (ar_accountId v) s = Some v" "0 \<le> amt"
proof -
  from h obtain v where v: "reservationsUnder rt i s = [v]" "ar_status v = x" "ar_amount v = amt" "walletId u c s = Some (ar_accountId v)"
    by auto
  have m: "v \<in> set (reservationsUnder rt i s)" by (simp add: v(1))
  have find_filter: "findFirst p xs = (case filter p xs of [] \<Rightarrow> None | y # _ \<Rightarrow> Some y)" for p and xs :: "accountReservation list"
    by (induction xs) auto
  have "firstReservation rt i s = Some v"
    using v(1) unfolding firstReservation_def find_filter reservationsUnder_def by simp
  moreover have "findReservation rt i (ar_accountId v) s = Some v" by (simp add: findReservation_under v(1))
  ultimately show ?thesis by (rule that [OF v, rotated 3]) (use m withdrawal_held_nonneg [OF ok h] in \<open>simp_all add: reservationsUnder_def\<close>)
qed

lemma split_effect:
  assumes ok: "ledger_ok s" and h: "heldAs TxRefType.WITHDRAW wi (Some (st, x, u, c)) s"
    and none: "reservationsUnder TxRefType.WITHDRAW_ALLOCATION ai s = []" and pos: "0 \<le> amt"
    and run: "splitReservationForAllocation wi ai amt s = Inr (y, t)"
  shows "ledger_ok t" "still s t" "walletId u' c' t = walletId u' c' s"
    "heldAs TxRefType.WITHDRAW wi (Some (st, x - amt, u, c)) t" "heldAs TxRefType.WITHDRAW_ALLOCATION ai (Some (st, amt, u, c)) t"
    "(rt, i) \<noteq> (TxRefType.WITHDRAW, wi) \<Longrightarrow> (rt, i) \<noteq> (TxRefType.WITHDRAW_ALLOCATION, ai) \<Longrightarrow>
      reservationsUnder rt i t = reservationsUnder rt i s"
proof -
  let ?W = TxRefType.WITHDRAW and ?A = TxRefType.WITHDRAW_ALLOCATION and ?R = "accountReservations s"
  obtain v where v: "reservationsUnder ?W wi s = [v]" "ar_status v = st" "ar_amount v = x" "walletId u c s = Some (ar_accountId v)"
    "v \<in> set ?R" "ar_refType v = ?W" "ar_refId v = wi" "firstReservation ?W wi s = Some v" by (rule hold_row [OF ok h]) blast
  obtain r where r: "firstReservation ?W wi s = Some r" "amt \<le> ar_amount r"
    "findReservation ?A ai (ar_accountId r) s = None"
    "accountReservations t = updateRows (\<lambda>v. ar_id v = ar_id r) (\<lambda>v. v\<lparr>ar_amount := ar_amount r - amt\<rparr>) ?R @
       [\<lparr>ar_id = freshId s, ar_accountId = ar_accountId r, ar_amount = amt, ar_refType = ?A,
         ar_refId = ai, ar_status = ar_status r\<rparr>]" by (rule splitReservation_table [OF run])
  have rv: "r = v" using r(1) v(8) by simp
  let ?n = "\<lparr>ar_id = freshId s, ar_accountId = ar_accountId v, ar_amount = amt, ar_refType = ?A, ar_refId = ai, ar_status = ar_status v\<rparr>"
  let ?u = "s\<lparr>accountReservations := updateRows (\<lambda>r. ar_id r = ar_id v) (\<lambda>r. r\<lparr>ar_amount := x - amt\<rparr>) ?R\<rparr>"
  have tab: "accountReservations t = accountReservations ?u @ [?n]" using r(4) v(3) by (simp add: rv)
  note keys = ledger_okD(2) [OF ok]
  have dist: "distinct (map ar_id ?R)" using keys by blast
  have under: "reservationsUnder rt' i' ?u = (if rt' = ?W \<and> i' = wi then [v\<lparr>ar_amount := x - amt\<rparr>] else reservationsUnder rt' i' s)" for rt' i'
    using reservationsUnder_update [OF dist v(5,6,7), of "\<lambda>r. r\<lparr>ar_amount := x - amt\<rparr>" ?u rt' i'] v(1) by simp
  have at: "reservationsUnder rt' i' t = reservationsUnder rt' i' ?u @ (if rt' = ?A \<and> i' = ai then [?n] else [])" for rt' i'
    using tab by (auto simp: reservationsUnder_def)
  have same: "sameRows s t" "accounts t = accounts s" "accountTxs t = accountTxs s" "db_gen t = db_gen s" "Suc (db_seq s) \<le> db_seq t"
    "instruments t = instruments s"
  proof -
    have loop: "holdsE (\<lambda>_ t. side u t) (forE rs (splitLimitReservation ai amt) u)" for rs u
      by (rule side_for) (auto simp: splitLimitReservation_def createLimitReservation_def modifyLimitReservation_def bumpId_def side_def core_def)
    obtain u1 z where u1: "createReservation (ar_accountId v) amt ?A ai (ar_status v) (modifyReservation (ar_id v) (ar_amount v - amt) s) = Inr (z, u1)"
      "side u1 t"
      using run r(2) v(8) unfolding splitReservationForAllocation_def rv
      by (auto simp: subDec_def dec_def split: if_splits elim!: bindE_elim dest: holdsE_D [OF loop])
    have "sameRows s u1 \<and> accounts u1 = accounts s \<and> accountTxs u1 = accountTxs s \<and> db_gen u1 = db_gen s \<and> db_seq u1 = Suc (db_seq s) \<and>
        instruments u1 = instruments s"
      using u1(1) by (auto simp: createReservation_def modifyReservation_def updateReservation_def bumpId_def Let_def sameRows_def rowsView_def
        split: if_splits)
    then show "sameRows s t" "accounts t = accounts s" "accountTxs t = accountTxs s" "db_gen t = db_gen s" "Suc (db_seq s) \<le> db_seq t"
      "instruments t = instruments s"
      using side_sel [OF u1(2)] sameRows_trans [OF _ sameRows_side [OF u1(2)]] by simp_all
  qed
  show wal: "walletId u' c' t = walletId u' c' s" for u' c'
    by (simp add: walletId_def findInstrument_def findAccountOf_def same split: option.split)
  show "still s t" using same by (simp add: still_def)
  show "heldAs ?W wi (Some (st, x - amt, u, c)) t" using v by (simp add: at under wal)
  show "heldAs ?A ai (Some (st, amt, u, c)) t" using v none by (simp add: at under wal)
  show "(rt, i) \<noteq> (?W, wi) \<Longrightarrow> (rt, i) \<noteq> (?A, ai) \<Longrightarrow> reservationsUnder rt i t = reservationsUnder rt i s"
    by (auto simp: at under)
  show "ledger_ok t"
  proof (rule ledger_rebook [OF ok same(2-4)])
    have "map ar_id (accountReservations ?u) = map ar_id ?R" by (simp add: map_updateRows)
    then have "keys_ok (bumpId s) (map ar_id (accountReservations t))" using keys_ok_snoc [OF keys] unfolding tab by simp
    then show "keys_ok t (map ar_id (accountReservations t))" using same(4,5) by (force simp: keys_ok_def bumpId_def)
    have k: "map resvKey (accountReservations ?u) = map resvKey ?R" by (simp add: map_updateRows resvKey_def)
    have "resvKey ?n \<notin> set (map resvKey ?R)"
      using none by (auto simp: resvKey_def reservationsUnder_def filter_empty_conv)
    then show "distinct (map resvKey (accountReservations t))" using ledger_okD(3,4) [OF ok] unfolding tab map_append k by simp
    show "0 \<le> ar_amount w \<and> ar_accountId w \<in> ac_id ` set (accounts s)" if "w \<in> set (accountReservations t)" for w
      using that ledger_okD(5,6) [OF ok] v(5) r(2) pos v(3) unfolding tab by (auto simp: set_updateRows rv)
  qed (use split_held [OF ok run] same(5) in simp_all)
qed

lemma mergeReservationBack_side:
  assumes "mergeReservationBack a s = Inr (y, t)"
  shows "side (mergeAccountReservation a s) t"
proof -
  have "holdsE (\<lambda>_ t. side (mergeAccountReservation a s) t) (mergeReservationBack a s)"
    unfolding mergeReservationBack_def Let_def
    by (rule side_for) (auto simp: mergeLimitReservation_def modifyLimitReservation_def Let_def side_def core_def split: option.split)
  then show ?thesis using assms by (rule holdsE_D)
qed

lemma merge_effect:
  assumes ok: "ledger_ok s"
    and h1: "heldAs TxRefType.WITHDRAW (al_withdrawalId a) (Some (AccountReservationStatus.RESERVED, x, u, c)) s"
    and h2: "heldAs TxRefType.WITHDRAW_ALLOCATION (al_id a) (Some (AccountReservationStatus.RESERVED, al_amount a, u, c)) s"
    and run: "mergeReservationBack a s = Inr (y, t)"
  shows "ledger_ok t" "still s t" "walletId u' c' t = walletId u' c' s"
    "heldAs TxRefType.WITHDRAW (al_withdrawalId a) (Some (AccountReservationStatus.RESERVED, x + al_amount a, u, c)) t"
    "heldAs TxRefType.WITHDRAW_ALLOCATION (al_id a) None t"
    "(rt, i) \<noteq> (TxRefType.WITHDRAW, al_withdrawalId a) \<Longrightarrow> (rt, i) \<noteq> (TxRefType.WITHDRAW_ALLOCATION, al_id a) \<Longrightarrow>
      reservationsUnder rt i t = reservationsUnder rt i s"
proof -
  let ?W = TxRefType.WITHDRAW and ?A = TxRefType.WITHDRAW_ALLOCATION and ?R = "accountReservations s"
  obtain v where v: "reservationsUnder ?W (al_withdrawalId a) s = [v]" "ar_status v = AccountReservationStatus.RESERVED" "ar_amount v = x"
    "walletId u c s = Some (ar_accountId v)" "v \<in> set ?R" "ar_refType v = ?W" "ar_refId v = al_withdrawalId a"
    "findReservation ?W (al_withdrawalId a) (ar_accountId v) s = Some v" "0 \<le> x" by (rule hold_row [OF ok h1]) blast
  obtain z where z: "reservationsUnder ?A (al_id a) s = [z]" "ar_status z = AccountReservationStatus.RESERVED" "ar_amount z = al_amount a"
    "walletId u c s = Some (ar_accountId z)" "z \<in> set ?R" "ar_refType z = ?A" "ar_refId z = al_id a"
    "firstReservation ?A (al_id a) s = Some z" "0 \<le> al_amount a" by (rule hold_row [OF ok h2]) blast
  have acc: "ar_accountId z = ar_accountId v" using v(4) z(4) by simp
  note keys = ledger_okD(2) [OF ok]
  have dist: "distinct (map ar_id ?R)" using keys by blast
  have ne: "ar_id z \<noteq> ar_id v" using resv.key_eqD [OF dist v(5) z(5)] v(6) z(6) by auto
  let ?f = "\<lambda>r. r\<lparr>ar_amount := x + al_amount a\<rparr>"
  let ?U = "updateRows (\<lambda>r. ar_id r = ar_id v) ?f ?R"
  let ?u = "s\<lparr>accountReservations := ?U\<rparr>"
  note sd = mergeReservationBack_side [OF run]
  have m: "mergeAccountReservation a s = s\<lparr>accountReservations := deleteRows (\<lambda>r. ar_id r = ar_id z) ?U\<rparr>"
    by (simp add: mergeAccountReservation_def z(8) acc v(8) v(3) modifyReservation_def updateReservation_def)
  have tab: "accountReservations t = deleteRows (\<lambda>r. ar_id r = ar_id z) ?U" using side_sel(7) [OF sd] by (simp add: m)
  have same: "still s t" "accounts t = accounts s" "accountTxs t = accountTxs s" "instruments t = instruments s" "db_gen t = db_gen s"
    "db_seq s \<le> db_seq t"
    using side_sel [OF sd] sameRows_trans [OF _ sameRows_side [OF sd], of s] by (simp_all add: m still_def sameRows_def rowsView_def)
  then show "still s t" by simp
  show wal: "walletId u' c' t = walletId u' c' s" for u' c'
    by (simp add: walletId_def findInstrument_def findAccountOf_def same split: option.split)
  have under: "reservationsUnder rt' i' ?u = (if rt' = ?W \<and> i' = al_withdrawalId a then [?f v] else reservationsUnder rt' i' s)" for rt' i'
    using reservationsUnder_update [OF dist v(5,6,7), of ?f ?u rt' i'] v(1) by simp
  have at: "reservationsUnder rt' i' t = filter (\<lambda>r. ar_id r \<noteq> ar_id z) (reservationsUnder rt' i' ?u)" for rt' i'
    by (simp add: reservationsUnder_def tab deleteRows_def conj_commute)
  have only: "filter (\<lambda>r. ar_id r \<noteq> ar_id z) (reservationsUnder rt' i' s) = reservationsUnder rt' i' s"
    if "(rt', i') \<noteq> (?A, al_id a)" for rt' i'
    unfolding filter_id_conv using that resv.key_eqD [OF dist _ z(5)] z(6,7) by (auto simp: reservationsUnder_def)
  show "heldAs ?W (al_withdrawalId a) (Some (AccountReservationStatus.RESERVED, x + al_amount a, u, c)) t"
    using v ne by (simp add: at under wal)
  show "heldAs ?A (al_id a) None t" using z by (simp add: at under)
  show "(rt, i) \<noteq> (?W, al_withdrawalId a) \<Longrightarrow> (rt, i) \<noteq> (?A, al_id a) \<Longrightarrow> reservationsUnder rt i t = reservationsUnder rt i s"
    by (auto simp: at under only)
  show "ledger_ok t"
  proof (rule ledger_rebook [OF ok same(2,3,5,6)])
    have k: "map ar_id ?U = map ar_id ?R" "map resvKey ?U = map resvKey ?R" by (simp_all add: map_updateRows resvKey_def)
    have "keys_ok s (map ar_id (accountReservations t))"
      using keys unfolding keys_ok_def tab deleteRows_def k(1) [symmetric] by (auto simp: distinct_map_filter)
    then show "keys_ok t (map ar_id (accountReservations t))" using same(5,6) by (force simp: keys_ok_def)
    show "distinct (map resvKey (accountReservations t))"
      using ledger_okD(4) [OF ok] unfolding tab deleteRows_def k(2) [symmetric] by (rule distinct_map_filter)
    show "0 \<le> ar_amount r \<and> ar_accountId r \<in> ac_id ` set (accounts s)" if "r \<in> set (accountReservations t)" for r
      using that ledger_okD(5,6) [OF ok] v(5,9) z(9) unfolding tab by (auto simp: set_updateRows)
    show "held j t = held j s" for j
    proof -
      let ?g = "\<lambda>r. if ar_accountId r = j \<and> ar_status r = AccountReservationStatus.RESERVED then ar_amount r else 0"
      have fz: "findFirst (\<lambda>r. ar_id r = ar_id z) ?U = Some z"
        using resv.find_key [OF dist z(5)] ne by (simp add: resv.find_update)
      have "distinct (map ar_id ?U)" using dist unfolding k(1) .
      from resv.rowsum_delete [OF this fz, of ?g] resv.rowsum_update [OF dist resv.find_key [OF dist v(5)], of ?g ?f]
      show ?thesis using v z acc by (auto simp: held_def tab)
    qed
  qed
qed

section \<open>Every operation keeps the invariant\<close>

lemma p2p_frame:
  assumes ok: "p2p_ok s" and l: "sameLedger s t" and rows: "p2pAllocations t = p2pAllocations s"
    "withdrawRequests t = withdrawRequests s" "depositRequests t = depositRequests s"
  shows "p2p_ok t"
proof -
  have r: "accountReservations t = accountReservations s" using l by (simp add: sameLedger_def)
  have h: "heldAs rt i x t = heldAs rt i x s" for rt i x
    by (cases "(rt, i, x, s)" rule: heldAs.cases) (simp_all add: reservationsUnder_cong [OF r] sameLedger_sums [OF l])
  have "allocation_ok t = allocation_ok s" "withdrawal_ok t = withdrawal_ok s" "deposit_ok t = deposit_ok s"
    by (simp_all add: fun_eq_iff allocation_ok_def withdrawal_ok_def deposit_ok_def findWithdraw_def findDeposit_def sumFor_def sumFrom_def
      rows h del: heldAs.simps)
  then show ?thesis
    using ok sameLedger_ok [OF l] quiet_keys [OF sameLedger_quiet [OF l]] by (simp add: p2p_ok_def rows r)
qed

lemma stamp [simp]:
  "liveAmount (a\<lparr>al_updatedAt := n\<rparr>) = liveAmount a" "settledAmount (a\<lparr>al_updatedAt := n\<rparr>) = settledAmount a"
  "allocationHold (a\<lparr>al_updatedAt := n\<rparr>) u = allocationHold a u"
  by (simp_all add: liveAmount_def settledAmount_def allocationHold_def split: P2PAllocationStatus.split)

text \<open>A change of a row that leaves its amounts and its hold alone.\<close>

lemma p2p_touch:
  assumes ok: "p2p_ok s" and l: "sameLedger s t" and a: "findAllocation i s = Some a" and f: "\<And>x. al_id (f x) = al_id x"
    and t: "p2pAllocations t = updateRows (\<lambda>x. al_id x = i) f (p2pAllocations s)"
      "withdrawRequests t = withdrawRequests s" "depositRequests t = depositRequests s"
    and same: "al_withdrawalId (f a) = al_withdrawalId a" "al_depositId (f a) = al_depositId a" "al_amount (f a) = al_amount a"
      "liveAmount (f a) = liveAmount a" "settledAmount (f a) = settledAmount a" "\<And>u. allocationHold (f a) u = allocationHold a u"
  shows "p2p_ok t"
proof -
  note keep = p2p_okD [OF ok]
  have dist: "distinct (map al_id (p2pAllocations s))" using keep(2) by blast
  note m = found_rows(1) [OF a] and up = updated_row [OF dist a f t(1)]
  note ao = keep(5) [of a, unfolded allocation_ok_def]
  obtain w d where w: "findWithdraw (al_withdrawalId a) s = Some w" "wd_purpose w = RequestPurpose.P2P"
    "heldAs TxRefType.WITHDRAW_ALLOCATION (al_id a) (allocationHold a (wd_userId w)) s"
    and d: "findDeposit (al_depositId a) s = Some d" "dp_purpose d = RequestPurpose.P2P" and pos: "0 < al_amount a"
    using ao m by blast
  have r: "accountReservations t = accountReservations s" using l by (simp add: sameLedger_def)
  have under: "reservationsUnder rt j t = reservationsUnder rt j s" for rt j by (rule reservationsUnder_cong [OF r])
  have h: "heldAs rt j x s \<Longrightarrow> heldAs rt j x t" for rt j x
    by (rule heldAs_cong [OF under]) (simp_all add: sameLedger_sums [OF l])
  have wo: "withdrawal_ok s w" "deposit_ok s d" using keep(6,7) found_rows(2) [OF w(1)] found_rows(3) [OF d(1)] by blast+
  show ?thesis
  proof (rule p2p_step [OF ok, where b = "f a" and fw = "\<lambda>x. x" and fd = "\<lambda>x. x" and w = w and d = d and ?d1.0 = 0 and ?d2.0 = 0])
    show "keys_ok t (map al_id (p2pAllocations t))" unfolding up(5) by (rule quiet_keys [OF sameLedger_quiet [OF l] keep(2)])
    show "withdrawRequests t = updateRows (\<lambda>x. wd_id x = al_withdrawalId (f a)) (\<lambda>x. x) (withdrawRequests s)"
      "depositRequests t = updateRows (\<lambda>x. dp_id x = al_depositId (f a)) (\<lambda>x. x) (depositRequests s)"
      by (simp_all add: t updateRows_def)
    show "heldAs TxRefType.WITHDRAW (al_withdrawalId (f a)) (Some (AccountReservationStatus.RESERVED,
        wd_amount w - (wd_assignedAmountTotal w + 0), wd_userId w, IRR_INSTRUMENT_CODE)) t"
      using wo(1) w found_rows(2) [OF w(1)] same(1) h by (auto simp: withdrawal_ok_def simp del: heldAs.simps)
    show "heldAs TxRefType.WITHDRAW_ALLOCATION (al_id (f a)) (allocationHold (f a) (wd_userId w)) t"
      using h [OF w(3)] m up(2) same(6) by simp
    show "dp_assignedAmountTotal d + 0 \<le> dp_amount d" using wo(2) d by (simp add: deposit_ok_def)
    show "x = f a \<or> x \<in> set (p2pAllocations s) \<and> al_id x \<noteq> al_id (f a)" if "x \<in> set (p2pAllocations t)" for x
      using up(2,4) that by blast
  qed (use sums_update [OF dist a t(1) same(1,2)] same(3-5) w d pos up(1,3) sameLedger_ok [OF l keep(1)] same(1,2)
      in \<open>simp_all add: under sameLedger_sums [OF l]\<close>)
qed

lemma p2p_updateAllocation:
  assumes run: "updateAllocation i f s' = Inr (r, t)" and ok: "p2p_ok s" and a: "findAllocation i s = Some a" and f: "\<And>x. al_id (f x) = al_id x"
    and s': "sameLedger s s'" "p2pAllocations s' = p2pAllocations s" "withdrawRequests s' = withdrawRequests s" "depositRequests s' = depositRequests s"
    and same: "sameTerms a (f a)" "liveAmount (f a) = liveAmount a" "settledAmount (f a) = settledAmount a" "\<And>u. allocationHold (f a) u = allocationHold a u"
  shows "p2p_ok t"
proof (rule p2p_touch [OF ok _ a, where f = "\<lambda>x. (f x)\<lparr>al_updatedAt := db_now s'\<rparr>"])
  have t: "t = modifyAllocation i f s'" using run by (auto simp: updateAllocation_def Let_def split: option.splits)
  show "sameLedger s t" using s'(1) by (simp add: t modifyAllocation_def sameLedger_def)
  show "p2pAllocations t = updateRows (\<lambda>x. al_id x = i) (\<lambda>x. (f x)\<lparr>al_updatedAt := db_now s'\<rparr>) (p2pAllocations s)"
    "withdrawRequests t = withdrawRequests s" "depositRequests t = depositRequests s"
    by (simp_all add: t modifyAllocation_def s')
qed (use same f in \<open>simp_all add: sameTerms_def\<close>)

lemma p2p_proof:
  assumes "submitPayerProof i u dto s = Inr (r, t)" and "p2p_ok s"
  shows "p2p_ok t"
proof -
  obtain a w d where l: "loadAllocation i s = Inr (a, w, d)"
    using assms by (auto simp: submitPayerProof_def split: if_splits sum.splits)
  obtain v s1 where u: "forE (pf_fileIds dto) (createProofLink i u) s = Inr (v, s1)"
      "updateAllocation i (\<lambda>a. a\<lparr>al_status := P2PAllocationStatus.PROOF_SUBMITTED,
                      al_payerBankRef := Some (pf_bankRef dto), al_paymentMethod := pf_method dto,
                      al_payerPaidAt := Some (withDefault (pf_paidAt dto) (db_now s1)),
                      al_proofSubmittedAt := Some (db_now s1)\<rparr>) s1 = Inr (r, t)"
    and st: "al_status a \<in> {P2PAllocationStatus.ASSIGNED, P2PAllocationStatus.PROOF_SUBMITTED}"
    using assms(1) unfolding submitPayerProof_def l Let_def by (auto split: if_splits elim!: bindE_elim)
  have "holdsE (\<lambda>_ t. sameLedger s t \<and> p2pAllocations t = p2pAllocations s \<and> withdrawRequests t = withdrawRequests s \<and>
      depositRequests t = depositRequests s) (forE (pf_fileIds dto) (createProofLink i u) s)"
    by (rule holdsE_for) (simp_all add: createProofLink_def bumpId_def sameLedger_def)
  from holdsE_D [OF this u(1)] show ?thesis
    by (intro p2p_updateAllocation [OF u(2) assms(2) loadAllocation_Inr(1) [OF l]])
      (use st in \<open>auto simp: sameTerms_def liveAmount_def settledAmount_def allocationHold_def\<close>)
qed

lemma p2p_confirm:
  assumes "receiverConfirm env i u ok reason s = Inr (r, t)" and "p2p_ok s"
  shows "p2p_ok t"
proof -
  obtain a w d where l: "loadAllocation i s = Inr (a, w, d)"
    using assms(1) by (auto simp: receiverConfirm_def split: sum.splits)
  have st: "al_status a \<in> {P2PAllocationStatus.PROOF_SUBMITTED, P2PAllocationStatus.ADMIN_VERIFIED}"
    and u: "updateAllocation i (\<lambda>x. if ok then x\<lparr>al_status :=
                      (if al_status a = P2PAllocationStatus.ADMIN_VERIFIED then al_status a
                       else P2PAllocationStatus.RECEIVER_CONFIRMED),
                    al_receiverConfirmedAt := Some (db_now s)\<rparr>
           else x\<lparr>al_status := P2PAllocationStatus.DISPUTED, al_receiverDisputedAt := Some (db_now s),
                    al_receiverDisputeReason := Some (withDefault reason ''Receiver disputed payment'')\<rparr>) s = Inr (r, t)"
    using assms(1) unfolding receiverConfirm_def l by (auto split: if_splits)
  show ?thesis
    by (rule p2p_updateAllocation [OF u assms(2) loadAllocation_Inr(1) [OF l]])
      (use st in \<open>auto simp: sameTerms_def liveAmount_def settledAmount_def allocationHold_def\<close>)
qed

lemma p2p_verify:
  assumes "adminVerify i ad ok nt s = Inr (r, t)" and "p2p_ok s"
  shows "p2p_ok t"
proof -
  obtain a w d where l: "loadAllocation i s = Inr (a, w, d)"
    using assms(1) by (auto simp: adminVerify_def split: sum.splits)
  have st: "al_status a \<in> {P2PAllocationStatus.PROOF_SUBMITTED, P2PAllocationStatus.RECEIVER_CONFIRMED}"
    and u: "updateAllocation i (\<lambda>x. x\<lparr>al_status := (if ok then P2PAllocationStatus.ADMIN_VERIFIED else P2PAllocationStatus.DISPUTED),
                  al_adminVerifiedAt := Some (db_now s), al_adminVerifierId := Some ad,
                  al_adminNote := orElse nt (al_adminNote a)\<rparr>) s = Inr (r, t)"
    using assms(1) unfolding adminVerify_def l by (auto split: if_splits)
  show ?thesis
    by (rule p2p_updateAllocation [OF u assms(2) loadAllocation_Inr(1) [OF l]])
      (use st in \<open>auto simp: sameTerms_def liveAmount_def settledAmount_def allocationHold_def\<close>)
qed

text \<open>The rows of an allocation that exists, as the steps need them.\<close>

lemma p2p_load:
  assumes ok: "p2p_ok s" and l: "loadAllocation i s = Inr (a, w, d)"
  shows "distinct (map al_id (p2pAllocations s))" "0 < al_amount a" "wd_purpose w = RequestPurpose.P2P" "wd_id w = al_withdrawalId a"
    "heldAs TxRefType.WITHDRAW_ALLOCATION (al_id a) (allocationHold a (wd_userId w)) s"
    "dp_purpose d = RequestPurpose.P2P" "withdrawal_ok s w" "deposit_ok s d"
    "heldAs TxRefType.WITHDRAW (al_withdrawalId a) (Some (AccountReservationStatus.RESERVED, wd_amount w - wd_assignedAmountTotal w,
       wd_userId w, IRR_INSTRUMENT_CODE)) s"
proof -
  note q = loadAllocation_Inr [OF l] and keep = p2p_okD [OF ok]
  show "distinct (map al_id (p2pAllocations s))" using keep(2) by blast
  have "allocation_ok s a" using keep(5) found_rows(1) [OF q(1)] by blast
  then show "0 < al_amount a" "wd_purpose w = RequestPurpose.P2P" "dp_purpose d = RequestPurpose.P2P"
    "heldAs TxRefType.WITHDRAW_ALLOCATION (al_id a) (allocationHold a (wd_userId w)) s" using q(3,4) by (auto simp: allocation_ok_def)
  show 1: "wd_id w = al_withdrawalId a" "withdrawal_ok s w" "deposit_ok s d"
    using keep(6,7) found_rows(2) [OF q(3)] found_rows(3) [OF q(4)] by blast+
  show "heldAs TxRefType.WITHDRAW (al_withdrawalId a) (Some (AccountReservationStatus.RESERVED, wd_amount w - wd_assignedAmountTotal w,
       wd_userId w, IRR_INSTRUMENT_CODE)) s"
    using withdrawal_okD(3) [OF 1(2) \<open>wd_purpose w = _\<close>] unfolding 1(1) .
qed

lemma p2p_giveBack:
  assumes ok: "p2p_ok s" and l: "loadAllocation i s = Inr (a, w, d)"
    and live: "al_status a \<notin> {P2PAllocationStatus.CANCELLED, P2PAllocationStatus.EXPIRED, P2PAllocationStatus.SETTLED}"
    and st: "st \<in> {P2PAllocationStatus.CANCELLED, P2PAllocationStatus.EXPIRED}" and run: "giveBack st a w d s = Inr (x, t)"
  shows "p2p_ok t"
proof -
  note q = loadAllocation_Inr [OF l] and pl = p2p_load [OF ok l] and keep = p2p_okD [OF ok]
  let ?amt = "al_amount a" and ?W = TxRefType.WITHDRAW and ?A = TxRefType.WITHDRAW_ALLOCATION
  let ?R = AccountReservationStatus.RESERVED and ?c = IRR_INSTRUMENT_CODE
  obtain s1 where s1: "mergeReservationBack a s = Inr ((), s1)" and t: "t = modifyDeposit (al_depositId a)
        (\<lambda>x. x\<lparr>dp_assignedAmountTotal := subDec (Some (dp_assignedAmountTotal d)) (Some ?amt),
               dp_remainingAmount := Some (withDefault (dp_remainingAmount d) (dp_amount d) + ?amt),
               dp_status := deriveDepositP2PStatus (dp_amount d) (subDec (Some (dp_assignedAmountTotal d)) (Some ?amt))
                              (dp_settledAmountTotal d) False False\<rparr>)
        (modifyWithdraw (al_withdrawalId a) (\<lambda>x. x\<lparr>wd_assignedAmountTotal := subDec (Some (wd_assignedAmountTotal w)) (Some ?amt),
               wd_status := deriveWithdrawP2PStatus (wd_amount w) (subDec (Some (wd_assignedAmountTotal w)) (Some ?amt))
                              (wd_settledAmountTotal w) False False\<rparr>)
          (modifyAllocation (al_id a) (\<lambda>x. x\<lparr>al_status := st\<rparr>) s1))" by (rule giveBack_split [OF run])
  have "heldAs ?A (al_id a) (Some (?R, ?amt, wd_userId w, ?c)) s"
    using pl(5) live by (simp add: allocationHold_def split: P2PAllocationStatus.splits)
  note me = merge_effect [OF keep(1) pl(9) this s1]
  note same = sameRows_sel [OF me(2) [unfolded still_def, THEN conjunct1]]
  have l1: "sameLedger s1 t" by (simp add: t modifyDeposit_def modifyWithdraw_def modifyAllocation_def sameLedger_def)
  have under: "reservationsUnder rt j t = reservationsUnder rt j s1" for rt j
    by (rule reservationsUnder_cong) (use l1 in \<open>simp add: sameLedger_def\<close>)
  have h: "heldAs rt j y t" if "heldAs rt j y s1" for rt j y
    by (rule heldAs_cong [OF under _ that]) (simp add: sameLedger_sums [OF l1])
  let ?f = "\<lambda>x. x\<lparr>al_status := st, al_updatedAt := db_now s1\<rparr>"
  have rows: "p2pAllocations t = updateRows (\<lambda>x. al_id x = i) ?f (p2pAllocations s)"
    by (simp add: t modifyDeposit_def modifyWithdraw_def modifyAllocation_def same q(2))
  note up = updated_row [OF pl(1) q(1) _ rows, simplified]
  have zero: "liveAmount (?f a) = 0" "settledAmount (?f a) = 0" "liveAmount a = ?amt" "settledAmount a = 0" "allocationHold (?f a) u = None" for u
    using live st by (auto simp: liveAmount_def settledAmount_def allocationHold_def)
  note sum = sums_update [OF pl(1) q(1) rows]
  have sums: "sumFor liveAmount j t = sumFor liveAmount j s + (if j = al_withdrawalId a then - ?amt else 0)"
    "sumFor settledAmount j t = sumFor settledAmount j s + (if j = al_withdrawalId a then 0 else 0)"
    "sumFrom liveAmount j t = sumFrom liveAmount j s + (if j = al_depositId a then - ?amt else 0)"
    "sumFrom settledAmount j t = sumFrom settledAmount j s + (if j = al_depositId a then 0 else 0)" for j
    using sum [of liveAmount j] sum [of settledAmount j] unfolding zero by simp_all
  show ?thesis
  proof (rule p2p_step [OF ok, where b = "?f a" and w = w and d = d and ?d1.0 = "- ?amt" and ?d2.0 = 0])
    show "keys_ok t (map al_id (p2pAllocations t))"
      using keep(2) me(2) l1 unfolding up(5) by (force simp: keys_ok_def still_def sameLedger_def same)
    show "withdrawRequests t = updateRows (\<lambda>x. wd_id x = al_withdrawalId (?f a))
        (\<lambda>x. x\<lparr>wd_assignedAmountTotal := wd_assignedAmountTotal w - ?amt, wd_status := deriveWithdrawP2PStatus (wd_amount w)
           (wd_assignedAmountTotal w - ?amt) (wd_settledAmountTotal w) False False, wd_updatedAt := db_now s1\<rparr>) (withdrawRequests s)"
      "depositRequests t = updateRows (\<lambda>x. dp_id x = al_depositId (?f a))
        (\<lambda>x. x\<lparr>dp_assignedAmountTotal := dp_assignedAmountTotal d - ?amt,
           dp_remainingAmount := Some (withDefault (dp_remainingAmount d) (dp_amount d) + ?amt), dp_status := deriveDepositP2PStatus
           (dp_amount d) (dp_assignedAmountTotal d - ?amt) (dp_settledAmountTotal d) False False, dp_updatedAt := db_now s1\<rparr>)
        (depositRequests s)"
      by (simp_all add: t modifyDeposit_def modifyWithdraw_def modifyAllocation_def same subDec_def dec_def)
    show "ledger_ok t" by (rule sameLedger_ok [OF l1 me(1)])
    show "heldAs ?W (al_withdrawalId (?f a)) (Some (?R, wd_amount w - (wd_assignedAmountTotal w + - ?amt), wd_userId w, ?c)) t"
      using h [OF me(4)] by (simp add: algebra_simps del: heldAs.simps)
    show "heldAs ?A (al_id (?f a)) (allocationHold (?f a) (wd_userId w)) t" using h [OF me(5)] unfolding zero(5) by simp
    show "dp_assignedAmountTotal d + - ?amt \<le> dp_amount d" using pl(2,6,8) by (simp add: deposit_ok_def)
    show "j \<noteq> al_withdrawalId (?f a) \<Longrightarrow> reservationsUnder ?W j t = reservationsUnder ?W j s" for j
      using me(6) [of ?W j] under by simp
    show "j \<noteq> al_id (?f a) \<Longrightarrow> reservationsUnder ?A j t = reservationsUnder ?A j s" for j
      using me(6) [of ?A j] under by simp
    show "y \<in> set (p2pAllocations t) \<Longrightarrow> y = ?f a \<or> y \<in> set (p2pAllocations s) \<and> al_id y \<noteq> al_id (?f a)" for y
      using up(4) q(2) by auto
  qed (use sums q pl up(1,3) me(3) in \<open>simp_all add: sameLedger_sums [OF l1]\<close>)
qed

lemma p2p_finalize:
  assumes ok: "p2p_ok s" and run: "finalizeAllocation env i ad s = Inr (r, t)"
  shows "p2p_ok t"
  using run
proof (cases rule: finalizeAllocation_outcomes)
  case same
  then show ?thesis using ok by simp
next
  case (settled a w d x0 s1 y0 s2 wa s3 pa s4 debit s5 credit s6)
  let ?amt = "al_amount a" and ?W = TxRefType.WITHDRAW and ?A = TxRefType.WITHDRAW_ALLOCATION and ?c = IRR_INSTRUMENT_CODE
  note q = loadAllocation_Inr [OF settled(1)] and pl = p2p_load [OF ok settled(1)] and keep = p2p_okD [OF ok]
  have hold: "heldAs ?A i (Some (AccountReservationStatus.RESERVED, ?amt, wd_userId w, ?c)) s"
    using pl(5) settled(2) q(2) by (simp add: allocationHold_def split: P2PAllocationStatus.splits)
  note e = effect_consume [OF keep(1) hold settled(4)]
  note p0 = plain_side [OF effectD(2) [OF e(1)] holdsE_D [OF side_consumeLimit settled(5)], where rt = ?A and i = i]
  note p1 = plain_getAcc [OF plainD(1) [OF p0] settled(6), where rt = ?A and i = i]
  note p2 = plain_getAcc [OF plainD(1) [OF p1] settled(7), where rt = ?A and i = i]
  note p3 = plain_post [OF plainD(1) [OF p2] settled(8)]
  note p4 = plain_post [OF plainD(1) [OF p3] settled(9)]
  note p04 = plain_trans [OF p0 plain_trans [OF p1 plain_trans [OF p2 plain_trans [OF p3 p4]]]]
  note all = effect_trans [OF e(1) plainD(2) [OF p04]]
  note l1 = settled(12) and same = sameRows_sel [OF effectD(3) [OF all]]
  have under: "reservationsUnder rt j t = reservationsUnder rt j s6" for rt j
    by (rule reservationsUnder_cong) (use l1 in \<open>simp add: sameLedger_def\<close>)
  have h: "heldAs rt j y t" if "heldAs rt j y s6" for rt j y
    by (rule heldAs_cong [OF under _ that]) (simp add: sameLedger_sums [OF l1])
  have hW: "heldAs ?W (al_withdrawalId a) y t" if "heldAs ?W (al_withdrawalId a) y s" for y
    by (rule h [OF effect_heldAs_other [OF all _ that]]) simp
  let ?f = "\<lambda>x. x\<lparr>al_status := P2PAllocationStatus.SETTLED, al_settledAt := Some (db_now s6),
      al_withdrawerAccountTxId := Some (tx_id (fst debit)), al_payerAccountTxId := Some (tx_id (fst credit)), al_updatedAt := db_now s6\<rparr>"
  have rows: "p2pAllocations t = updateRows (\<lambda>x. al_id x = i) ?f (p2pAllocations s)"
    by (simp add: settled(10) modifyAllocation_def same)
  note up = updated_row [OF pl(1) q(1) _ rows, simplified]
  have val: "liveAmount (?f a) = ?amt" "settledAmount (?f a) = ?amt" "liveAmount a = ?amt" "settledAmount a = 0"
    "allocationHold (?f a) u = Some (AccountReservationStatus.CONSUMED, ?amt, u, ?c)" for u
    using settled(2) by (auto simp: liveAmount_def settledAmount_def allocationHold_def)
  note sum = sums_update [OF pl(1) q(1) rows]
  have sums: "sumFor liveAmount j t = sumFor liveAmount j s + (if j = al_withdrawalId a then 0 else 0)"
    "sumFor settledAmount j t = sumFor settledAmount j s + (if j = al_withdrawalId a then ?amt else 0)"
    "sumFrom liveAmount j t = sumFrom liveAmount j s + (if j = al_depositId a then 0 else 0)"
    "sumFrom settledAmount j t = sumFrom settledAmount j s + (if j = al_depositId a then ?amt else 0)" for j
    using sum [of liveAmount j] sum [of settledAmount j] unfolding val by simp_all
  show ?thesis
  proof (rule p2p_step [OF ok, where b = "?f a" and w = w and d = d and ?d1.0 = 0 and ?d2.0 = ?amt])
    show "keys_ok t (map al_id (p2pAllocations t))"
      using keep(2) effectD(4) [OF all] l1 unfolding up(5) by (force simp: keys_ok_def sameLedger_def same)
    show "withdrawRequests t = updateRows (\<lambda>x. wd_id x = al_withdrawalId (?f a))
        (\<lambda>x. x\<lparr>wd_settledAmountTotal := wd_settledAmountTotal w + ?amt, wd_status := deriveWithdrawP2PStatus (wd_amount w)
           (wd_assignedAmountTotal w) (wd_settledAmountTotal w + ?amt) False False, wd_updatedAt := db_now s6\<rparr>) (withdrawRequests s)"
      "depositRequests t = updateRows (\<lambda>x. dp_id x = al_depositId (?f a))
        (\<lambda>x. x\<lparr>dp_settledAmountTotal := dp_settledAmountTotal d + ?amt, dp_status := deriveDepositP2PStatus
           (dp_amount d) (dp_assignedAmountTotal d) (dp_settledAmountTotal d + ?amt) False False, dp_updatedAt := db_now s6\<rparr>)
        (depositRequests s)"
      by (simp_all add: settled(13,14) modifyDeposit_def modifyWithdraw_def same)
    show "ledger_ok t" by (rule sameLedger_ok [OF l1 effectD(2) [OF all]])
    show "heldAs ?W (al_withdrawalId (?f a)) (Some (AccountReservationStatus.RESERVED,
        wd_amount w - (wd_assignedAmountTotal w + 0), wd_userId w, ?c)) t"
      using hW [OF pl(9)] by (simp del: heldAs.simps)
    show "heldAs ?A (al_id (?f a)) (allocationHold (?f a) (wd_userId w)) t"
      using h [OF plainD(3) [OF p04 e(2)]] q(2) unfolding val(5) by simp
    show "dp_assignedAmountTotal d + 0 \<le> dp_amount d" using pl(6,8) by (simp add: deposit_ok_def)
    show "j \<noteq> al_withdrawalId (?f a) \<Longrightarrow> reservationsUnder ?W j t = reservationsUnder ?W j s" for j
      using effectD(7) [OF all, of ?W j] under by simp
    show "j \<noteq> al_id (?f a) \<Longrightarrow> reservationsUnder ?A j t = reservationsUnder ?A j s" for j
      using effectD(7) [OF all, of ?A j] under q(2) by simp
    show "y \<in> set (p2pAllocations t) \<Longrightarrow> y = ?f a \<or> y \<in> set (p2pAllocations s) \<and> al_id y \<noteq> al_id (?f a)" for y
      using up(4) q(2) by auto
    show "walletId u c s = Some z \<Longrightarrow> walletId u c t = Some z" for u c z
      using effectD(5) [OF all, of u c z] by (simp add: sameLedger_sums [OF l1])
  qed (use sums q pl up(1,3) effectD(5) [OF all] in \<open>simp_all add: sameLedger_sums [OF l1]\<close>)
qed

text \<open>The totals the loop of an assignment carries are those of the rows it has written so far.\<close>

definition assigning :: "withdrawRequest \<Rightarrow> db \<Rightarrow> assignState \<Rightarrow> db \<Rightarrow> bool" where
  "assigning w s0 st s \<longleftrightarrow> p2p_ok s \<and>
     (\<exists>w'. findWithdraw (wd_id w) s = Some w' \<and> wd_purpose w' = RequestPurpose.P2P \<and> wd_userId w' = wd_userId w \<and>
        wd_amount w' = wd_amount w \<and> wd_assignedAmountTotal w' = ax_withdrawalAssignedTotal st) \<and>
     (\<forall>i d. findDeposit i s0 = Some d \<longrightarrow> (\<exists>d'. findDeposit i s = Some d' \<and> dp_purpose d' = dp_purpose d \<and>
        dp_amount d' = dp_amount d \<and> depositStateOf d' = ax_depositState st i))"

lemma assignItem_split:
  assumes "assignItem env w snap ex s0 it st s = Inr (st', t)" and d0: "findDeposit (fst it) s0 = Some d0"
  obtains a s1 s2 where "dp_purpose d0 = RequestPurpose.P2P" "snd it \<le> dx_remaining (ax_depositState st (dp_id d0))"
    "a = newAllocation env w snap ex (dp_id d0) (snd it) s" "s1 = (bumpId s)\<lparr>p2pAllocations := p2pAllocations s @ [a]\<rparr>"
    "splitReservationForAllocation (wd_id w) (al_id a) (snd it) s1 = Inr ((), s2)"
    "ax_withdrawalAssignedTotal st' = ax_withdrawalAssignedTotal st + snd it"
    "ax_depositState st' = (ax_depositState st)(dp_id d0 := (ax_depositState st (dp_id d0))\<lparr>
       dx_assignedTotal := dx_assignedTotal (ax_depositState st (dp_id d0)) + snd it,
       dx_remaining := dx_remaining (ax_depositState st (dp_id d0)) - snd it\<rparr>)"
    "t = modifyDeposit (dp_id d0) (\<lambda>d. d\<lparr>dp_assignedAmountTotal := dx_assignedTotal (ax_depositState st (dp_id d0)) + snd it,
           dp_remainingAmount := Some (dx_remaining (ax_depositState st (dp_id d0)) - snd it),
           dp_status := deriveDepositP2PStatus (dp_amount d0) (dx_assignedTotal (ax_depositState st (dp_id d0)) + snd it)
             (dx_settledTotal (ax_depositState st (dp_id d0))) False False\<rparr>)
         (modifyWithdraw (wd_id w) (\<lambda>x. x\<lparr>wd_assignedAmountTotal := ax_withdrawalAssignedTotal st + snd it,
           wd_status := deriveWithdrawP2PStatus (wd_amount w) (ax_withdrawalAssignedTotal st + snd it) (wd_settledAmountTotal w) False False,
           wd_channel := Some (withDefault (wd_channel w) WithdrawalChannel.USER_TO_USER)\<rparr>) s2)"
proof -
  have g: "dp_purpose d0 = RequestPurpose.P2P" "snd it \<le> dx_remaining (ax_depositState st (dp_id d0))"
    using assms by (auto simp: assignItem_def Let_def not_less split: if_splits)
  then have ng: "\<not> dx_remaining (ax_depositState st (dp_id d0)) < snd it" by simp
  from assms(1) obtain b u v where "createAllocationRow (newAllocation env w snap ex (dp_id d0) (snd it) s) s = Inr (b, u)"
    "splitReservationForAllocation (wd_id w) (al_id b) (snd it) u = Inr ((), v)" and rest: "Inr (st', t) = Inr (
       \<lparr>ax_withdrawalAssignedTotal = ax_withdrawalAssignedTotal st + snd it,
        ax_depositState = (ax_depositState st)(dp_id d0 := (ax_depositState st (dp_id d0))\<lparr>
          dx_assignedTotal := dx_assignedTotal (ax_depositState st (dp_id d0)) + snd it,
          dx_remaining := dx_remaining (ax_depositState st (dp_id d0)) - snd it\<rparr>),
        ax_allocations = ax_allocations st @ [b]\<rparr>, modifyDeposit (dp_id d0)
          (\<lambda>d. d\<lparr>dp_assignedAmountTotal := dx_assignedTotal (ax_depositState st (dp_id d0)) + snd it,
           dp_remainingAmount := Some (dx_remaining (ax_depositState st (dp_id d0)) - snd it),
           dp_status := deriveDepositP2PStatus (dp_amount d0) (dx_assignedTotal (ax_depositState st (dp_id d0)) + snd it)
             (dx_settledTotal (ax_depositState st (dp_id d0))) False False\<rparr>)
         (modifyWithdraw (wd_id w) (\<lambda>x. x\<lparr>wd_assignedAmountTotal := ax_withdrawalAssignedTotal st + snd it,
           wd_status := deriveWithdrawP2PStatus (wd_amount w) (ax_withdrawalAssignedTotal st + snd it) (wd_settledAmountTotal w) False False,
           wd_channel := Some (withDefault (wd_channel w) WithdrawalChannel.USER_TO_USER)\<rparr>) v))"
    unfolding assignItem_def d0 option.case Let_def if_not_P [OF ng] using g(1) by (auto elim!: bindE_elim)
  then show ?thesis by (intro that [OF g refl refl]) (auto simp: createAllocationRow_def split: if_splits)
qed

lemma assigning_item:
  assumes inv: "assigning w s0 st s" and pos: "0 < snd it" and run: "assignItem env w snap ex s0 it st s = Inr (st', t)"
  shows "assigning w s0 st' t"
proof -
  let ?amt = "snd it" and ?W = TxRefType.WITHDRAW and ?A = TxRefType.WITHDRAW_ALLOCATION and ?R = AccountReservationStatus.RESERVED
  obtain d0 where d0: "findDeposit (fst it) s0 = Some d0" using run by (auto simp: assignItem_def split: option.splits)
  have did: "dp_id d0 = fst it" using found_rows(3) [OF d0] by simp
  obtain a s1 s2 where sp: "dp_purpose d0 = RequestPurpose.P2P" "?amt \<le> dx_remaining (ax_depositState st (dp_id d0))"
    "a = newAllocation env w snap ex (dp_id d0) ?amt s" "s1 = (bumpId s)\<lparr>p2pAllocations := p2pAllocations s @ [a]\<rparr>"
    "splitReservationForAllocation (wd_id w) (al_id a) ?amt s1 = Inr ((), s2)"
    "ax_withdrawalAssignedTotal st' = ax_withdrawalAssignedTotal st + ?amt"
    "ax_depositState st' = (ax_depositState st)(dp_id d0 := (ax_depositState st (dp_id d0))\<lparr>
       dx_assignedTotal := dx_assignedTotal (ax_depositState st (dp_id d0)) + ?amt,
       dx_remaining := dx_remaining (ax_depositState st (dp_id d0)) - ?amt\<rparr>)"
    "t = modifyDeposit (dp_id d0) (\<lambda>d. d\<lparr>dp_assignedAmountTotal := dx_assignedTotal (ax_depositState st (dp_id d0)) + ?amt,
           dp_remainingAmount := Some (dx_remaining (ax_depositState st (dp_id d0)) - ?amt),
           dp_status := deriveDepositP2PStatus (dp_amount d0) (dx_assignedTotal (ax_depositState st (dp_id d0)) + ?amt)
             (dx_settledTotal (ax_depositState st (dp_id d0))) False False\<rparr>)
         (modifyWithdraw (wd_id w) (\<lambda>x. x\<lparr>wd_assignedAmountTotal := ax_withdrawalAssignedTotal st + ?amt,
           wd_status := deriveWithdrawP2PStatus (wd_amount w) (ax_withdrawalAssignedTotal st + ?amt) (wd_settledAmountTotal w) False False,
           wd_channel := Some (withDefault (wd_channel w) WithdrawalChannel.USER_TO_USER)\<rparr>) s2)"
    by (rule assignItem_split [OF run d0])
  note ok = inv [unfolded assigning_def, THEN conjunct1] and keep = p2p_okD [OF inv [unfolded assigning_def, THEN conjunct1]]
  obtain w' where w': "findWithdraw (wd_id w) s = Some w'" "wd_purpose w' = RequestPurpose.P2P" "wd_userId w' = wd_userId w"
    "wd_amount w' = wd_amount w" "wd_assignedAmountTotal w' = ax_withdrawalAssignedTotal st" using inv by (auto simp: assigning_def)
  have deps: "\<exists>d'. findDeposit i s = Some d' \<and> dp_purpose d' = dp_purpose d \<and> dp_amount d' = dp_amount d \<and>
      depositStateOf d' = ax_depositState st i" if "findDeposit i s0 = Some d" for i d using inv that by (auto simp: assigning_def)
  obtain d' where d': "findDeposit (dp_id d0) s = Some d'" "dp_purpose d' = dp_purpose d0" "dp_amount d' = dp_amount d0"
    "depositStateOf d' = ax_depositState st (dp_id d0)" using deps [OF d0] by (auto simp: did)
  have dx: "dx_assignedTotal (ax_depositState st (dp_id d0)) = dp_assignedAmountTotal d'"
    "dx_remaining (ax_depositState st (dp_id d0)) = withDefault (dp_remainingAmount d') (dp_amount d')"
    "dx_settledTotal (ax_depositState st (dp_id d0)) = dp_settledAmountTotal d'"
    by (simp_all add: d'(4) [symmetric] depositStateOf_def)
  have wo: "withdrawal_ok s w'" "deposit_ok s d'" "wd_id w' = wd_id w"
    using keep(6,7) found_rows(2) [OF w'(1)] found_rows(3) [OF d'(1)] by blast+
  have a: "al_withdrawalId a = wd_id w" "al_depositId a = dp_id d0" "al_amount a = ?amt" "al_id a = freshId s"
    "al_status a = P2PAllocationStatus.ASSIGNED" by (simp_all add: sp(3) newAllocation_def)
  have fresh: "freshId s \<notin> al_id ` set (p2pAllocations s)" using freshId_notin [OF keep(2)] by simp
  have ok1: "ledger_ok s1" using ledger_ok_bump [OF keep(1)] by (simp add: sp(4))
  have h1: "heldAs rt j y s1 = heldAs rt j y s" for rt j y
    by (cases "(rt, j, y, s)" rule: heldAs.cases)
      (simp_all add: reservationsUnder_def sp(4) walletId_def findInstrument_def findAccountOf_def bumpId_def split: option.split)
  have hw: "heldAs ?W (wd_id w) (Some (?R, wd_amount w' - wd_assignedAmountTotal w', wd_userId w', IRR_INSTRUMENT_CODE)) s1"
    using withdrawal_okD(3) [OF wo(1) w'(2)] unfolding h1 wo(3) .
  have r1: "reservationsUnder rt j s1 = reservationsUnder rt j s" for rt j by (simp add: reservationsUnder_def sp(4) bumpId_def)
  have none: "reservationsUnder ?A (al_id a) s1 = []"
    unfolding r1 a(4) using keep(8) fresh by (force simp: reservationsUnder_def filter_empty_conv)
  note se = split_effect [OF ok1 hw none less_imp_le [OF pos] sp(5)]
  have wal1: "walletId u c s1 = walletId u c s" for u c
    by (simp add: walletId_def findInstrument_def findAccountOf_def sp(4) bumpId_def split: option.split)
  note same = sameRows_sel [OF se(2) [unfolded still_def, THEN conjunct1]]
  have seq: "db_seq s1 \<le> db_seq s2" using se(2) by (simp add: still_def)
  have l1: "sameLedger s2 t" by (simp add: sp(8) modifyDeposit_def modifyWithdraw_def sameLedger_def)
  have under: "reservationsUnder rt j t = reservationsUnder rt j s2" for rt j
    by (rule reservationsUnder_cong) (use l1 in \<open>simp add: sameLedger_def\<close>)
  have h: "heldAs rt j y t" if "heldAs rt j y s2" for rt j y
    by (rule heldAs_cong [OF under _ that]) (simp add: sameLedger_sums [OF l1])
  have rows: "p2pAllocations t = p2pAllocations s @ [a]" by (simp add: sp(8) modifyDeposit_def modifyWithdraw_def same sp(4))
  have val: "liveAmount a = ?amt" "settledAmount a = 0" "allocationHold a u = Some (?R, ?amt, u, IRR_INSTRUMENT_CODE)" for u
    using a(3,5) by (simp_all add: liveAmount_def settledAmount_def allocationHold_def)
  let ?fw = "\<lambda>x. x\<lparr>wd_assignedAmountTotal := wd_assignedAmountTotal w' + ?amt, wd_status := deriveWithdrawP2PStatus (wd_amount w)
      (wd_assignedAmountTotal w' + ?amt) (wd_settledAmountTotal w) False False,
      wd_channel := Some (withDefault (wd_channel w) WithdrawalChannel.USER_TO_USER), wd_updatedAt := db_now s\<rparr>"
  let ?fd = "\<lambda>x. x\<lparr>dp_assignedAmountTotal := dp_assignedAmountTotal d' + ?amt,
      dp_remainingAmount := Some (withDefault (dp_remainingAmount d') (dp_amount d') - ?amt),
      dp_status := deriveDepositP2PStatus (dp_amount d0) (dp_assignedAmountTotal d' + ?amt) (dp_settledAmountTotal d') False False,
      dp_updatedAt := db_now s\<rparr>"
  have W: "withdrawRequests t = updateRows (\<lambda>x. wd_id x = wd_id w) ?fw (withdrawRequests s)"
    and D: "depositRequests t = updateRows (\<lambda>x. dp_id x = dp_id d0) ?fd (depositRequests s)"
    unfolding sp(8) dx w'(5) [symmetric] by (simp_all add: modifyDeposit_def modifyWithdraw_def same sp(4) bumpId_def)
  have ok': "p2p_ok t"
  proof (rule p2p_step [OF ok, where b = a and w = w' and d = d' and fw = ?fw and fd = ?fd and ?d1.0 = ?amt and ?d2.0 = 0])
    show "keys_ok t (map al_id (p2pAllocations t))"
      using keys_ok_snoc [OF keep(2)] l1 seq unfolding rows
      by (force simp: keys_ok_def sameLedger_def same sp(4) bumpId_def a(4))
    show "ledger_ok t" by (rule sameLedger_ok [OF l1 se(1)])
    show "heldAs ?W (al_withdrawalId a) (Some (?R, wd_amount w' - (wd_assignedAmountTotal w' + ?amt), wd_userId w', IRR_INSTRUMENT_CODE)) t"
      using h [OF se(4)] by (simp add: a algebra_simps del: heldAs.simps)
    show "heldAs ?A (al_id a) (allocationHold a (wd_userId w')) t" using h [OF se(5)] unfolding val(3) .
    show "dp_assignedAmountTotal d' + ?amt \<le> dp_amount d'" using wo(2) sp(1,2) d'(2) dx(2) by (simp add: deposit_ok_def)
    show "j \<noteq> al_withdrawalId a \<Longrightarrow> reservationsUnder ?W j t = reservationsUnder ?W j s" for j
      using se(6) [of ?W j] under r1 a(1) by simp
    show "j \<noteq> al_id a \<Longrightarrow> reservationsUnder ?A j t = reservationsUnder ?A j s" for j
      using se(6) [of ?A j] under r1 by simp
    show "y \<in> set (p2pAllocations t) \<Longrightarrow> y = a \<or> y \<in> set (p2pAllocations s) \<and> al_id y \<noteq> al_id a" for y
      using fresh a(4) by (auto simp: rows image_iff)
  qed (use w' d' sp(1) a rows W D sums_new [OF rows] val pos
      in \<open>auto simp: sameLedger_sums [OF l1] se(3) wal1 simp del: heldAs.simps\<close>)
  have fW: "findWithdraw j t = map_option (\<lambda>x. if j = wd_id w then ?fw x else x) (findWithdraw j s)" for j
    unfolding findWithdraw_def W by (rule wds.find_update) simp
  have fD: "findDeposit j t = map_option (\<lambda>x. if j = dp_id d0 then ?fd x else x) (findDeposit j s)" for j
    unfolding findDeposit_def D by (rule dps.find_update) simp
  have "\<exists>e'. findDeposit i t = Some e' \<and> dp_purpose e' = dp_purpose e \<and> dp_amount e' = dp_amount e \<and>
      depositStateOf e' = ax_depositState st' i" if e: "findDeposit i s0 = Some e" for i e
  proof (cases "i = dp_id d0")
    case True
    then have "e = d0" using e d0 did by simp
    then show ?thesis using True d' dx by (simp add: fD sp(7) depositStateOf_def)
  next
    case False
    then show ?thesis using deps [OF e] by (simp add: fD sp(7))
  qed
  moreover have "findWithdraw (wd_id w) t = Some (?fw w')" using w'(1) by (simp add: fW)
  ultimately show ?thesis unfolding assigning_def using ok' w' sp(6) by auto
qed

lemma p2p_assign:
  assumes ok: "p2p_ok s" and run: "assignAllocations env i dto key s = Inr (as, t)"
  shows "p2p_ok t"
proof -
  let ?items = "normalizeAssignItems dto"
  have tx: "p2p_ok u" if pos: "\<forall>it\<in>set ?items. 0 < snd it" and u: "assignTx env i dto ?items s = Inr (z, u)" for z u
  proof -
    obtain w where w: "findWithdraw i s = Some w" using u by (auto simp: assignTx_def split: option.splits)
    let ?st = "\<lparr>ax_withdrawalAssignedTotal = wd_assignedAmountTotal w, ax_depositState = (\<lambda>i. case findDeposit i s of
        None \<Rightarrow> \<lparr>dx_assignedTotal = 0, dx_remaining = 0, dx_settledTotal = 0\<rparr> | Some d \<Rightarrow> depositStateOf d), ax_allocations = []\<rparr>"
    obtain snap ex st' where g: "wd_purpose w = RequestPurpose.P2P" and f: "foldE ?items (assignItem env w snap ex s) ?st s = Inr (st', u)"
      using u w by (auto simp: assignTx_def Let_def split: if_splits sum.splits elim!: bindE_elim)
    have start: "(\<forall>it\<in>set ?items. 0 < snd it) \<and> assigning w s ?st s"
      using pos ok w g found_rows(2) [OF w] by (auto simp: assigning_def)
    have "holdsE (\<lambda>st u. (\<forall>it\<in>set []. 0 < snd (it :: id \<times> decimal)) \<and> assigning w s st u) (foldE ?items (assignItem env w snap ex s) ?st s)"
      by (rule holdsE_fold_rest [where P = "\<lambda>xs st u. (\<forall>it\<in>set xs. 0 < snd it) \<and> assigning w s st u", OF start])
        (auto simp: holdsE_def intro: assigning_item)
    from holdsE_D [OF this f] show ?thesis by (simp add: assigning_def)
  qed
  have frame: "p2p_ok (u\<lparr>p2pAssignmentIdempotencies := xs\<rparr>)" if "p2p_ok u" for u xs
    by (rule p2p_frame [OF that]) (simp_all add: sameLedger_def)
  from run show ?thesis
    unfolding assignAllocations_def Let_def
    using ok by (auto simp: list_ex_iff not_le intro: frame tx split: if_splits option.splits elim!: bindE_elim)
qed

lemma p2p_cancel:
  assumes "p2p_ok s" and "cancelAllocation i s = Inr (r, t)"
  shows "p2p_ok t"
  using assms(2)
proof (cases rule: cancelAllocation_outcomes)
  case (closed a w d x)
  show ?thesis by (rule p2p_giveBack [OF assms(1) closed(1,2) _ closed(3)]) simp
qed (use assms in simp)

lemma p2p_expireLoop: "p2p_ok s \<Longrightarrow> expireLoop is n s = (r, t) \<Longrightarrow> p2p_ok t"
proof (induction "is" n s rule: expireLoop.induct)
  case (2 i "is" n s)
  show ?case
  proof (cases "expireOne i s")
    case (Inl e)
    then show ?thesis using 2(2,3) by simp
  next
    case (Inr p)
    obtain m s1 where p: "expireOne i s = Inr (m, s1)" using Inr by (cases p) simp
    have "p2p_ok s1"
      using p
    proof (cases rule: expireOne_outcomes)
      case (expired a w d x)
      show ?thesis by (rule p2p_giveBack [OF 2(2) expired(2) _ _ expired(4)]) (simp_all add: expired(3))
    qed (use 2(2) in simp)
    then show ?thesis using 2(1) [OF p refl] 2(3) p by simp
  qed
qed simp

lemma p2pRun_ok: "p2pRun env s t \<Longrightarrow> p2p_ok s \<Longrightarrow> p2p_ok t"
proof (induction rule: p2pRun.induct)
  case (pr_clock s t n)
  show ?case by (rule p2p_frame [OF pr_clock.IH [OF pr_clock.prems]]) (simp_all add: sameLedger_def)
next
  case (pr_expire s t r t')
  then show ?case unfolding expireAllocations_def by (blast intro: p2p_expireLoop)
qed (blast intro: p2p_assign p2p_proof p2p_confirm p2p_verify p2p_finalize p2p_cancel)+

section \<open>Properties\<close>

lemma heldUnder_allocation:
  assumes "allocation_ok s a"
  shows "heldUnder TxRefType.WITHDRAW_ALLOCATION (al_id a) s = liveAmount a - settledAmount a"
proof -
  obtain u where u: "heldAs TxRefType.WITHDRAW_ALLOCATION (al_id a) (allocationHold a u) s" using assms by (auto simp: allocation_ok_def)
  show ?thesis unfolding heldAs_heldUnder [OF u]
    by (simp add: allocationHold_def liveAmount_def settledAmount_def split: P2PAllocationStatus.split)
qed

text \<open>
  C2. The money of the P2P settlements is conserved. From a state where the books agree, whatever is
  assigned, proved, confirmed, verified, finalized, cancelled or expired, in any order and with the clock
  moving in between, the ledger stays sound. What a P2P withdrawal or deposit records as assigned is the sum of
  the amounts of its allocations that are neither cancelled nor expired, and what it records as settled is the sum
  over its settled allocations. Of every P2P withdrawal exactly the part that is not assigned is still held under
  the withdrawal itself, exactly the part that is assigned and not yet settled is held under its allocations, and
  no more than its amount is ever assigned; a deposit is never assigned beyond its amount, its remaining amount
  being what is left of it.
\<close>

theorem p2p_money_conserved:
  assumes "p2pRun env s t" and "p2p_ok s"
  shows "ledger_ok t \<and>
    (\<forall>w\<in>set (withdrawRequests t). wd_purpose w = RequestPurpose.P2P \<longrightarrow>
       wd_assignedAmountTotal w = sumFor liveAmount (wd_id w) t \<and> wd_settledAmountTotal w = sumFor settledAmount (wd_id w) t \<and>
       0 \<le> wd_settledAmountTotal w \<and> wd_settledAmountTotal w \<le> wd_assignedAmountTotal w \<and> wd_assignedAmountTotal w \<le> wd_amount w \<and>
       heldUnder TxRefType.WITHDRAW (wd_id w) t = wd_amount w - wd_assignedAmountTotal w \<and>
       sumFor (\<lambda>a. heldUnder TxRefType.WITHDRAW_ALLOCATION (al_id a) t) (wd_id w) t =
         wd_assignedAmountTotal w - wd_settledAmountTotal w) \<and>
    (\<forall>d\<in>set (depositRequests t). dp_purpose d = RequestPurpose.P2P \<longrightarrow>
       dp_assignedAmountTotal d = sumFrom liveAmount (dp_id d) t \<and> dp_settledAmountTotal d = sumFrom settledAmount (dp_id d) t \<and>
       0 \<le> dp_settledAmountTotal d \<and> dp_settledAmountTotal d \<le> dp_assignedAmountTotal d \<and> dp_assignedAmountTotal d \<le> dp_amount d \<and>
       withDefault (dp_remainingAmount d) (dp_amount d) = dp_amount d - dp_assignedAmountTotal d)"
proof -
  note ok = p2pRun_ok [OF assms] and keep = p2p_okD [OF p2pRun_ok [OF assms]]
  have "sumFor (\<lambda>a. heldUnder TxRefType.WITHDRAW_ALLOCATION (al_id a) t) i t = sumFor (\<lambda>a. liveAmount a - settledAmount a) i t" for i
    unfolding sumFor_def by (rule total_cong) (simp add: heldUnder_allocation keep(5))
  moreover have "total (\<lambda>a. if al_withdrawalId a = i then g a - h a else 0) xs =
      total (\<lambda>a. if al_withdrawalId a = i then g a else 0) xs - total (\<lambda>a. if al_withdrawalId a = i then h a else 0) xs"
    for g h :: "p2pAllocation \<Rightarrow> rat" and i xs by (induction xs) auto
  ultimately have held: "sumFor (\<lambda>a. heldUnder TxRefType.WITHDRAW_ALLOCATION (al_id a) t) i t =
      sumFor liveAmount i t - sumFor settledAmount i t" for i by (simp add: sumFor_def)
  have "wd_assignedAmountTotal w = sumFor liveAmount (wd_id w) t \<and> wd_settledAmountTotal w = sumFor settledAmount (wd_id w) t \<and>
       0 \<le> wd_settledAmountTotal w \<and> wd_settledAmountTotal w \<le> wd_assignedAmountTotal w \<and> wd_assignedAmountTotal w \<le> wd_amount w \<and>
       heldUnder TxRefType.WITHDRAW (wd_id w) t = wd_amount w - wd_assignedAmountTotal w \<and>
       sumFor (\<lambda>a. heldUnder TxRefType.WITHDRAW_ALLOCATION (al_id a) t) (wd_id w) t = wd_assignedAmountTotal w - wd_settledAmountTotal w"
    if w: "w \<in> set (withdrawRequests t)" "wd_purpose w = RequestPurpose.P2P" for w
  proof -
    note wo = withdrawal_okD [OF keep(6) [OF w(1)] w(2)]
    show ?thesis
      using withdrawal_held_nonneg [OF keep(1) wo(3)] heldAs_heldUnder [OF wo(3)] sums_ordered(1,2) [OF ok, of "wd_id w"] held [of "wd_id w"] wo(1,2)
      by simp
  qed
  moreover have "dp_assignedAmountTotal d = sumFrom liveAmount (dp_id d) t \<and> dp_settledAmountTotal d = sumFrom settledAmount (dp_id d) t \<and>
       0 \<le> dp_settledAmountTotal d \<and> dp_settledAmountTotal d \<le> dp_assignedAmountTotal d \<and> dp_assignedAmountTotal d \<le> dp_amount d \<and>
       withDefault (dp_remainingAmount d) (dp_amount d) = dp_amount d - dp_assignedAmountTotal d"
    if d: "d \<in> set (depositRequests t)" "dp_purpose d = RequestPurpose.P2P" for d
    using keep(7) [OF d(1)] d(2) sums_ordered(3,4) [OF ok, of "dp_id d"] by (simp add: deposit_ok_def)
  ultimately show ?thesis using keep(1) by blast
qed

lemma offerDb_p2p: "p2p_ok offerDb"
proof -
  have 1: "p2pAllocations offerDb = []" "withdrawRequests offerDb = [aliWithdrawal]" "depositRequests offerDb = [saraOffer]"
    by (simp_all add: offerDb_def aliDb_def emptyDb_def)
  have "heldAs TxRefType.WITHDRAW ''w'' (Some (AccountReservationStatus.RESERVED, 60, ''ali'', IRR_INSTRUMENT_CODE)) offerDb"
    by (simp add: reservationsUnder_def offerDb_def walletId_def findInstrument_def findAccountOf_def aliDb_def
        emptyDb_def irr_def IRR_INSTRUMENT_CODE_def aliAccount_def)
  then show ?thesis
    using offerDb_ok
    by (auto simp: p2p_ok_def 1 withdrawal_ok_def deposit_ok_def sumFor_def sumFrom_def aliWithdrawal_def saraOffer_def keys_ok_def
        inj_unaryId offerDb_def aliDb_def emptyDb_def simp del: heldAs.simps)
qed

lemma p2p_money_conserved_witness:
  "\<exists>t w. p2pRun receiverEnv offerDb t \<and> findWithdraw ''w'' t = Some w \<and> wd_assignedAmountTotal w = 40 \<and>
     heldUnder TxRefType.WITHDRAW ''w'' t = 20 \<and> sumFor (\<lambda>a. heldUnder TxRefType.WITHDRAW_ALLOCATION (al_id a) t) ''w'' t = 40"
proof -
  have "case assignAllocations receiverEnv ''w'' assignForty None offerDb of Inl _ \<Rightarrow> False
    | Inr (as, t) \<Rightarrow> (case findWithdraw ''w'' t of None \<Rightarrow> False | Some w \<Rightarrow> wd_assignedAmountTotal w = 40 \<and>
        wd_settledAmountTotal w = 0 \<and> wd_amount w = 60 \<and> wd_purpose w = RequestPurpose.P2P)" by code_simp
  from outcome_cases [OF this] obtain as t where 1: "assignAllocations receiverEnv ''w'' assignForty None offerDb = Inr (as, t)"
    and 2: "case findWithdraw ''w'' t of None \<Rightarrow> False | Some w \<Rightarrow> wd_assignedAmountTotal w = 40 \<and>
        wd_settledAmountTotal w = 0 \<and> wd_amount w = 60 \<and> wd_purpose w = RequestPurpose.P2P" by blast
  then obtain w where w: "findWithdraw ''w'' t = Some w" "wd_assignedAmountTotal w = 40" "wd_settledAmountTotal w = 0" "wd_amount w = 60"
    "wd_purpose w = RequestPurpose.P2P" by (auto split: option.splits)
  have run: "p2pRun receiverEnv offerDb t" by (rule pr_assign [OF pr_start 1])
  from p2p_money_conserved [OF run offerDb_p2p] found_rows(2) [OF w(1)] w run show ?thesis by fastforce
qed

end
