(* ===== verification/Http.thy ===== *)
theory Http
  imports Prelude
begin

text \<open>
  What stands between a handler and the client: \<open>common/interceptors/sensitive-fields.interceptor.ts\<close>
  and \<open>common/http/api-response.interceptor.ts\<close> on the way out, \<open>common/http/api-exception.filter.ts\<close>
  for what was thrown, \<open>common/validation\<close> for a refused request, the trace id of a request and the
  base URL of links. A handler's answer is a JavaScript value (\<open>json\<close>); the time of an answer and the
  random part of a trace id are arguments.
\<close>

section \<open>JavaScript values\<close>

text \<open>
  Arrays, plain objects and instances of a class carry their address, so that a value reachable on two
  paths is written twice with the same address. A plain object is the list of its own entries, in
  their order; an instance also says whether it is a body to stream (\<open>StreamableFile\<close>, \<open>Buffer\<close>,
  \<open>Readable\<close>), a \<open>Date\<close>, or of any other class.
\<close>

datatype jsClass = STREAM_BODY | DATE | OTHER_CLASS

datatype json =
    JUndefined
  | JNull
  | JBool bool
  | JNum rat
  | JStr string
  | JArr nat "json list"
  | JObj nat "(string \<times> json) list"
  | JInst jsClass nat "(string \<times> json) list"

text \<open>\<open>isRecord\<close>: \<open>typeof\<close> is object and the value is not null, which holds of arrays too.\<close>

fun isRecord :: "json \<Rightarrow> bool" where
  "isRecord (JArr _ _) = True"
| "isRecord (JObj _ _) = True"
| "isRecord (JInst _ _ _) = True"
| "isRecord _ = False"

fun entriesOf :: "json \<Rightarrow> (string \<times> json) list" where
  "entriesOf (JObj _ es) = es"
| "entriesOf (JInst _ _ es) = es"
| "entriesOf _ = []"

definition propOf :: "json \<Rightarrow> string \<Rightarrow> json" where
  "propOf v k = withDefault (map_of (entriesOf v) k) JUndefined"

definition hasKey :: "json \<Rightarrow> string \<Rightarrow> bool" where
  "hasKey v k \<longleftrightarrow> map_of (entriesOf v) k \<noteq> None"

fun asString :: "json \<Rightarrow> string option" where
  "asString (JStr x) = Some x"
| "asString _ = None"

text \<open>\<open>v ?? w\<close>.\<close>

definition coalesce :: "json \<Rightarrow> json \<Rightarrow> json" where
  "coalesce v w = (if v = JUndefined \<or> v = JNull then w else v)"

text \<open>Assignment of a property: in its place when the key is there, at the end otherwise.\<close>

fun setKey :: "string \<Rightarrow> json \<Rightarrow> (string \<times> json) list \<Rightarrow> (string \<times> json) list" where
  "setKey k v [] = [(k, v)]"
| "setKey k v (e # es) = (if fst e = k then (k, v) # es else e # setKey k v es)"

section \<open>Strings\<close>

text \<open>\<open>join\<close> puts a separator between.\<close>

fun joinWith :: "string \<Rightarrow> string list \<Rightarrow> string" where
  "joinWith sep [] = []"
| "joinWith sep [x] = x"
| "joinWith sep (x # y # xs) = x @ sep @ joinWith sep (y # xs)"

definition beforeComma :: "string \<Rightarrow> string" where
  "beforeComma s = takeWhile (\<lambda>c. c \<noteq> CHR '','') s"

definition trimTrailingSlash :: "string \<Rightarrow> string" where
  "trimTrailingSlash s = rev (dropWhile (\<lambda>c. c = CHR ''/'') (rev s))"

section \<open>Sensitive fields\<close>

definition SENSITIVE_KEYS :: "string list" where
  "SENSITIVE_KEYS = [''password'', ''refreshToken'', ''otp'']"

text \<open>
  \<open>stripSensitive\<close>: the set \<open>seen\<close> of the objects met so far is threaded through, in the order in which
  the source visits them. The copy of an object is written with the address of what it copies.
\<close>

fun stripSensitive :: "json \<Rightarrow> nat set \<Rightarrow> json \<times> nat set"
  and stripElements :: "json list \<Rightarrow> nat set \<Rightarrow> json list \<times> nat set"
  and stripEntries :: "(string \<times> json) list \<Rightarrow> nat set \<Rightarrow> (string \<times> json) list \<times> nat set" where
  "stripSensitive (JArr a xs) seen =
     (if a \<in> seen then (JArr a xs, seen)
      else let r = stripElements xs (insert a seen) in (JArr a (fst r), snd r))"
| "stripSensitive (JObj a es) seen =
     (if a \<in> seen then (JObj a es, seen)
      else let r = stripEntries es (insert a seen) in (JObj a (fst r), snd r))"
| "stripSensitive v seen = (v, seen)"
| "stripElements [] seen = ([], seen)"
| "stripElements (x # xs) seen =
     (let r = stripSensitive x seen; q = stripElements xs (snd r) in (fst r # fst q, snd q))"
| "stripEntries [] seen = ([], seen)"
| "stripEntries ((k, v) # es) seen =
     (if k \<in> set SENSITIVE_KEYS then stripEntries es seen
      else let r = stripSensitive v seen; q = stripEntries es (snd r) in ((k, fst r) # fst q, snd q))"

definition interceptSensitive :: "json \<Rightarrow> json" where
  "interceptSensitive v = fst (stripSensitive v {})"

section \<open>The envelope of an answer\<close>

record requestInfo =
  rq_traceId :: "string option"
  rq_localsTraceId :: "string option"
  rq_xTraceId :: json

definition getTraceId :: "requestInfo \<Rightarrow> string" where
  "getTraceId r = withDefault (orElse (rq_traceId r) (orElse (rq_localsTraceId r) (asString (rq_xTraceId r)))) []"

definition isApiEnvelope :: "json \<Rightarrow> bool" where
  "isApiEnvelope v \<longleftrightarrow> isRecord v \<and> (\<exists>b \<in> {True, False}. propOf v ''ok'' = JBool b) \<and>
     (hasKey v ''result'' \<or> hasKey v ''error'')"

fun isStreamBody :: "json \<Rightarrow> bool" where
  "isStreamBody (JInst c _ _) = (c = STREAM_BODY)"
| "isStreamBody _ = False"

text \<open>
  \<open>skipWrap\<close> is the decorator of the handler, \<open>status\<close> the status code and \<open>contentType\<close> the header (if
  it is a string) set on the answer so far; \<open>a\<close> is the address of the envelope and \<open>now\<close> the time.
\<close>

definition interceptResponse ::
  "bool \<Rightarrow> int \<Rightarrow> string option \<Rightarrow> requestInfo \<Rightarrow> nat \<Rightarrow> string \<Rightarrow> json \<Rightarrow> json" where
  "interceptResponse skipWrap status contentType request a now data =
     (if skipWrap \<or> status = 204 then data
      else let traceId = getTraceId request in
        if truthy contentType \<and> \<not> hasSubstring (the contentType) ''application/json'' then data
        else if isStreamBody data then data
        else if isApiEnvelope data
          then JObj a (setKey ''ts'' (coalesce (propOf data ''ts'') (JStr now))
                 (setKey ''traceId'' (coalesce (propOf data ''traceId'') (JStr traceId)) (entriesOf data)))
        else JObj a [(''ok'', JBool True), (''result'', data), (''traceId'', JStr traceId), (''ts'', JStr now)])"

text \<open>
  The global interceptors of \<open>main.ts\<close>, the envelope outermost: the answer of the handler is stripped
  first and wrapped then.
\<close>

definition answer :: "bool \<Rightarrow> int \<Rightarrow> string option \<Rightarrow> requestInfo \<Rightarrow> nat \<Rightarrow> string \<Rightarrow> json \<Rightarrow> json" where
  "answer skipWrap status contentType request a now data =
     interceptResponse skipWrap status contentType request a now (interceptSensitive data)"

text \<open>\<open>RequestIdMiddleware\<close>: the two headers, and a fresh identifier when they are missing or blank.\<close>

definition requestTraceId :: "string option \<Rightarrow> string option \<Rightarrow> string \<Rightarrow> string" where
  "requestTraceId xRequestId xTraceId uuid =
     (let incomingId = orElse xRequestId xTraceId
      in if truthy incomingId \<and> trim (the incomingId) \<noteq> [] then the incomingId else ''req_'' @ uuid)"

definition requestIdMiddleware :: "string option \<Rightarrow> string option \<Rightarrow> string \<Rightarrow> requestInfo \<Rightarrow> requestInfo" where
  "requestIdMiddleware xRequestId xTraceId uuid r =
     (let traceId = requestTraceId xRequestId xTraceId uuid
      in r\<lparr>rq_traceId := Some traceId, rq_localsTraceId := Some traceId\<rparr>)"

section \<open>Refused requests\<close>

datatype ApiErrorCode =
    VALIDATION_ERROR | UNAUTHORIZED | FORBIDDEN | NOT_FOUND | CONFLICT | RATE_LIMITED
  | BUSINESS_RULE_VIOLATION | INTERNAL_ERROR | USER_NOT_FOUND | USER_BLOCKED
  | INVALID_STATUS_TRANSITION | GROUP_NOT_FOUND | GROUP_HAS_USERS | GROUP_DEFAULT_CANNOT_DELETE
  | KYC_ALREADY_VERIFIED | KYC_INVALID_LEVEL | KYC_INVALID_FILE_IDS | KYC_FILES_FORBIDDEN
  | FILE_NOT_FOUND | FILE_STREAM_ACCESS_DENIED | FILE_READ_FAILED | ACCOUNT_INSUFFICIENT_CAPACITY
  | LIMIT_EXCEEDED | TAHESAB_DISABLED | TAHESAB_CUSTOMER_CODE_REQUIRED | POLICY_RULE_NOT_FOUND
  | INVALID_SCOPE_FIELDS | INVALID_SELECTOR_COMBINATION | INVALID_VALUE

fun showCode :: "ApiErrorCode \<Rightarrow> string" where
  "showCode VALIDATION_ERROR = ''VALIDATION_ERROR''"
| "showCode UNAUTHORIZED = ''UNAUTHORIZED''"
| "showCode FORBIDDEN = ''FORBIDDEN''"
| "showCode NOT_FOUND = ''NOT_FOUND''"
| "showCode CONFLICT = ''CONFLICT''"
| "showCode RATE_LIMITED = ''RATE_LIMITED''"
| "showCode BUSINESS_RULE_VIOLATION = ''BUSINESS_RULE_VIOLATION''"
| "showCode INTERNAL_ERROR = ''INTERNAL_ERROR''"
| "showCode USER_NOT_FOUND = ''USER_NOT_FOUND''"
| "showCode USER_BLOCKED = ''USER_BLOCKED''"
| "showCode INVALID_STATUS_TRANSITION = ''INVALID_STATUS_TRANSITION''"
| "showCode GROUP_NOT_FOUND = ''GROUP_NOT_FOUND''"
| "showCode GROUP_HAS_USERS = ''GROUP_HAS_USERS''"
| "showCode GROUP_DEFAULT_CANNOT_DELETE = ''GROUP_DEFAULT_CANNOT_DELETE''"
| "showCode KYC_ALREADY_VERIFIED = ''KYC_ALREADY_VERIFIED''"
| "showCode KYC_INVALID_LEVEL = ''KYC_INVALID_LEVEL''"
| "showCode KYC_INVALID_FILE_IDS = ''KYC_INVALID_FILE_IDS''"
| "showCode KYC_FILES_FORBIDDEN = ''KYC_FILES_FORBIDDEN''"
| "showCode FILE_NOT_FOUND = ''FILE_NOT_FOUND''"
| "showCode FILE_STREAM_ACCESS_DENIED = ''FILE_STREAM_ACCESS_DENIED''"
| "showCode FILE_READ_FAILED = ''FILE_READ_FAILED''"
| "showCode ACCOUNT_INSUFFICIENT_CAPACITY = ''ACCOUNT_INSUFFICIENT_CAPACITY''"
| "showCode LIMIT_EXCEEDED = ''LIMIT_EXCEEDED''"
| "showCode TAHESAB_DISABLED = ''TAHESAB_DISABLED''"
| "showCode TAHESAB_CUSTOMER_CODE_REQUIRED = ''TAHESAB_CUSTOMER_CODE_REQUIRED''"
| "showCode POLICY_RULE_NOT_FOUND = ''POLICY_RULE_NOT_FOUND''"
| "showCode INVALID_SCOPE_FIELDS = ''INVALID_SCOPE_FIELDS''"
| "showCode INVALID_SELECTOR_COMBINATION = ''INVALID_SELECTOR_COMBINATION''"
| "showCode INVALID_VALUE = ''INVALID_VALUE''"

record fieldError =
  fe_path :: string
  fe_message :: string

text \<open>
  An error of \<open>class-validator\<close>: the property, the messages of the constraints it breaks and the
  errors of its children (an absent list is empty).
\<close>

datatype validationError =
  ValidationError (ve_property: string) (ve_constraints: "(string \<times> string) list") (ve_children: "validationError list")

definition isIndex :: "string \<Rightarrow> bool" where
  "isIndex s \<longleftrightarrow> s \<noteq> [] \<and> list_all (\<lambda>c. let n = of_char c :: nat in 48 \<le> n \<and> n \<le> 57) s"

definition joinPath :: "string \<Rightarrow> string \<Rightarrow> string" where
  "joinPath parent property =
     (if parent = [] then property
      else if isIndex property then parent @ ''['' @ property @ '']''
      else parent @ ''.'' @ property)"

fun flattenValidationErrors :: "validationError list \<Rightarrow> string \<Rightarrow> fieldError list" where
  "flattenValidationErrors [] parentPath = []"
| "flattenValidationErrors (ValidationError p cs children # errors) parentPath =
     (let currentPath = joinPath parentPath p
      in map (\<lambda>c. \<lparr>fe_path = currentPath, fe_message = snd c\<rparr>) cs
         @ flattenValidationErrors children currentPath)
     @ flattenValidationErrors errors parentPath"

section \<open>Exceptions\<close>

text \<open>
  What reaches the filter: an error of Prisma with its code and message, an \<open>HttpException\<close> with the
  class the filter tests for, its status and the response it was constructed with, or anything else.
\<close>

datatype httpClass = BAD_REQUEST | FORBIDDEN_CLASS | UNAUTHORIZED_CLASS | OTHER_HTTP

datatype thrown =
    KnownRequestError string string
  | HttpException httpClass int json
  | OtherThrown

record resolved =
  rv_status :: int
  rv_errorCode :: string
  rv_message :: string
  rv_details :: "fieldError list"

record failure =
  fl_status :: int
  fl_code :: string
  fl_message :: string
  fl_details :: "fieldError list option"
  fl_traceId :: string
  fl_ts :: string

definition mapPrismaError :: "string \<Rightarrow> string \<Rightarrow> resolved" where
  "mapPrismaError code message =
     (if code = ''P2002''
        then \<lparr>rv_status = 409, rv_errorCode = showCode CONFLICT, rv_message = ''Conflict'', rv_details = []\<rparr>
      else if code = ''P2025''
        then \<lparr>rv_status = 404, rv_errorCode = showCode NOT_FOUND, rv_message = ''Resource not found'', rv_details = []\<rparr>
      else \<lparr>rv_status = 500, rv_errorCode = showCode INTERNAL_ERROR, rv_message = message, rv_details = []\<rparr>)"

definition messageText :: "json \<Rightarrow> string" where
  "messageText m = withDefault (asString m) ''Invalid input''"

text \<open>A message that is a string, or a list that is not empty.\<close>

fun messageOf :: "json \<Rightarrow> string option" where
  "messageOf (JStr m) = Some m"
| "messageOf (JArr _ ms) = (if ms = [] then None else Some (joinWith ''; '' (map messageText ms)))"
| "messageOf _ = None"

definition extractMessage :: "json \<Rightarrow> string" where
  "extractMessage response =
     (case asString response of
        Some m \<Rightarrow> m
      | None \<Rightarrow> if isRecord response then withDefault (messageOf (propOf response ''message'')) ''Unexpected error''
               else ''Unexpected error'')"

definition extractCustomHttpException :: "json \<Rightarrow> string option \<times> string option" where
  "extractCustomHttpException response =
     (if \<not> isRecord response then (None, None)
      else (case asString (propOf response ''code'') of
              Some code \<Rightarrow> if trim code \<noteq> [] then Some (trim code) else None
            | None \<Rightarrow> None,
            messageOf (propOf response ''message'')))"

definition detailOf :: "json \<Rightarrow> fieldError" where
  "detailOf item = \<lparr>fe_path = withDefault (asString (propOf item ''path'')) [], fe_message = messageText (propOf item ''message'')\<rparr>"

definition extractValidationDetails :: "httpClass \<Rightarrow> json \<Rightarrow> fieldError list" where
  "extractValidationDetails cls response =
     (if cls \<noteq> BAD_REQUEST \<or> \<not> isRecord response then []
      else case propOf response ''details'' of
        JArr _ ds \<Rightarrow> map detailOf (filter isRecord ds)
      | _ \<Rightarrow> (case propOf response ''message'' of
                JArr _ ms \<Rightarrow> map (\<lambda>m. \<lparr>fe_path = [], fe_message = messageText m\<rparr>) ms
              | _ \<Rightarrow> []))"

definition mapStatusToCode :: "int \<Rightarrow> httpClass \<Rightarrow> ApiErrorCode" where
  "mapStatusToCode status cls =
     (if status = 400 then VALIDATION_ERROR
      else if status = 401 then UNAUTHORIZED
      else if status = 403 then FORBIDDEN
      else if status = 404 then NOT_FOUND
      else if status = 409 then CONFLICT
      else if status = 429 then RATE_LIMITED
      else case cls of FORBIDDEN_CLASS \<Rightarrow> FORBIDDEN | UNAUTHORIZED_CLASS \<Rightarrow> UNAUTHORIZED | _ \<Rightarrow> INTERNAL_ERROR)"

definition mapHttpException :: "httpClass \<Rightarrow> int \<Rightarrow> json \<Rightarrow> resolved" where
  "mapHttpException cls status response =
     (let custom = extractCustomHttpException response
      in \<lparr>rv_status = status,
          rv_errorCode = withDefault (fst custom) (showCode (mapStatusToCode status cls)),
          rv_message = withDefault (snd custom) (extractMessage response),
          rv_details = extractValidationDetails cls response\<rparr>)"

fun resolveException :: "thrown \<Rightarrow> resolved" where
  "resolveException (KnownRequestError code message) = mapPrismaError code message"
| "resolveException (HttpException cls status response) = mapHttpException cls status response"
| "resolveException OtherThrown =
     \<lparr>rv_status = 500, rv_errorCode = showCode INTERNAL_ERROR, rv_message = ''Internal server error'', rv_details = []\<rparr>"

definition catchException :: "requestInfo \<Rightarrow> string \<Rightarrow> thrown \<Rightarrow> failure" where
  "catchException request now exception =
     (let r = resolveException exception
      in \<lparr>fl_status = rv_status r, fl_code = rv_errorCode r, fl_message = rv_message r,
          fl_details = (if rv_details r = [] then None else Some (rv_details r)),
          fl_traceId = getTraceId request, fl_ts = now\<rparr>)"

text \<open>
  The exception factory of the validation pipe in \<open>main.ts\<close>; the addresses of the new objects matter to
  nothing that reads them.
\<close>

definition detailValue :: "fieldError \<Rightarrow> json" where
  "detailValue d = JObj 0 [(''path'', JStr (fe_path d)), (''message'', JStr (fe_message d))]"

definition validationException :: "validationError list \<Rightarrow> thrown" where
  "validationException errors =
     HttpException BAD_REQUEST 400
       (JObj 0 [(''message'', JStr ''Validation failed''),
                (''details'', JArr 0 (map detailValue (flattenValidationErrors errors [])))])"

text \<open>
  The exceptions of \<open>common/exceptions\<close>: a bad request constructed with a code and a message.
\<close>

definition codedException :: "string \<Rightarrow> string \<Rightarrow> thrown" where
  "codedException code message = HttpException BAD_REQUEST 400 (JObj 0 [(''code'', JStr code), (''message'', JStr message)])"

definition insufficientCreditException :: "string option \<Rightarrow> thrown" where
  "insufficientCreditException message =
     codedException ''ACCOUNT_INSUFFICIENT_CAPACITY''
       (withDefault message ''Insufficient usable balance for this operation'')"

definition policyViolationException :: "string \<Rightarrow> string option \<Rightarrow> thrown" where
  "policyViolationException code message =
     codedException code (if truthy message then the message else code)"

section \<open>The base URL of links\<close>

record urlRequest =
  ur_protocol :: string
  ur_host :: "string option"
  ur_forwardedProto :: "string option"
  ur_forwardedHost :: "string option"
  ur_forwardedPort :: "string option"

definition resolveBaseUrl :: "string option \<Rightarrow> string option \<Rightarrow> urlRequest \<Rightarrow> string" where
  "resolveBaseUrl PUBLIC_BASE_URL TRUST_PROXY req =
     (if truthy PUBLIC_BASE_URL then trimTrailingSlash (the PUBLIC_BASE_URL)
      else
        let trustProxy = (toLowerCase (withDefault TRUST_PROXY ''false'') = ''true'');
            protocol = (if trustProxy \<and> truthy (ur_forwardedProto req)
              then trim (beforeComma (the (ur_forwardedProto req))) else ur_protocol req);
            host = (if trustProxy \<and> truthy (ur_forwardedHost req)
              then trim (beforeComma (the (ur_forwardedHost req))) else withDefault (ur_host req) []);
            host = (if trustProxy \<and> truthy (ur_forwardedPort req) \<and> CHR '':'' \<notin> set host
              then host @ '':'' @ trim (beforeComma (the (ur_forwardedPort req))) else host)
        in trimTrailingSlash (protocol @ ''://'' @ host))"

section \<open>What the stripping removes\<close>

text \<open>
  The reference: a copy of the value without the sensitive entries of its plain objects, at any depth
  outside the instances of classes. \<open>addresses\<close> lists the objects the walk visits; a value is a tree when
  no address is listed twice.
\<close>

fun prune :: "json \<Rightarrow> json"
  and pruneElements :: "json list \<Rightarrow> json list"
  and pruneEntries :: "(string \<times> json) list \<Rightarrow> (string \<times> json) list" where
  "prune (JArr a xs) = JArr a (pruneElements xs)"
| "prune (JObj a es) = JObj a (pruneEntries es)"
| "prune v = v"
| "pruneElements [] = []"
| "pruneElements (x # xs) = prune x # pruneElements xs"
| "pruneEntries [] = []"
| "pruneEntries ((k, v) # es) = (if k \<in> set SENSITIVE_KEYS then pruneEntries es else (k, prune v) # pruneEntries es)"

fun addresses :: "json \<Rightarrow> nat list"
  and addressesElements :: "json list \<Rightarrow> nat list"
  and addressesEntries :: "(string \<times> json) list \<Rightarrow> nat list" where
  "addresses (JArr a xs) = a # addressesElements xs"
| "addresses (JObj a es) = a # addressesEntries es"
| "addresses v = []"
| "addressesElements [] = []"
| "addressesElements (x # xs) = addresses x @ addressesElements xs"
| "addressesEntries [] = []"
| "addressesEntries ((k, v) # es) = (if k \<in> set SENSITIVE_KEYS then addressesEntries es else addresses v @ addressesEntries es)"

text \<open>
  No sensitive key in a plain object that is reached through arrays and plain objects only. Like the walk, it
  does not look inside the instances of classes: those are answered as they are, with whatever they hold.
\<close>

fun plainly_free :: "json \<Rightarrow> bool"
  and elements_free :: "json list \<Rightarrow> bool"
  and entries_free :: "(string \<times> json) list \<Rightarrow> bool" where
  "plainly_free (JArr a xs) = elements_free xs"
| "plainly_free (JObj a es) = entries_free es"
| "plainly_free v = True"
| "elements_free [] = True"
| "elements_free (x # xs) = (plainly_free x \<and> elements_free xs)"
| "entries_free [] = True"
| "entries_free ((k, v) # es) = (k \<notin> set SENSITIVE_KEYS \<and> plainly_free v \<and> entries_free es)"

lemma strip_is_prune:
  "distinct (addresses v) \<Longrightarrow> set (addresses v) \<inter> seen = {} \<Longrightarrow>
     stripSensitive v seen = (prune v, seen \<union> set (addresses v))"
  "distinct (addressesElements xs) \<Longrightarrow> set (addressesElements xs) \<inter> seen = {} \<Longrightarrow>
     stripElements xs seen = (pruneElements xs, seen \<union> set (addressesElements xs))"
  "distinct (addressesEntries es) \<Longrightarrow> set (addressesEntries es) \<inter> seen = {} \<Longrightarrow>
     stripEntries es seen = (pruneEntries es, seen \<union> set (addressesEntries es))"
proof (induction v and xs and es arbitrary: seen and seen and seen
    rule: prune_pruneElements_pruneEntries.induct)
  case (1 a xs)
  then have "stripElements xs (insert a seen) = (pruneElements xs, insert a seen \<union> set (addressesElements xs))"
    by (intro 1) auto
  with 1 show ?case by auto
next
  case (2 a es)
  then have "stripEntries es (insert a seen) = (pruneEntries es, insert a seen \<union> set (addressesEntries es))"
    by (intro 2) auto
  with 2 show ?case by auto
next
  case (5 x xs)
  have "stripSensitive x seen = (prune x, seen \<union> set (addresses x))"
    using 5 by (intro 5(1)) auto
  moreover have "stripElements xs (seen \<union> set (addresses x)) =
      (pruneElements xs, seen \<union> set (addresses x) \<union> set (addressesElements xs))"
    using 5 by (intro 5(2)) auto
  ultimately show ?case by (simp add: Un_assoc)
next
  case (7 k v es)
  show ?case
  proof (cases "k \<in> set SENSITIVE_KEYS")
    case True
    with 7 show ?thesis by simp
  next
    case False
    have "stripSensitive v seen = (prune v, seen \<union> set (addresses v))"
      using 7 False by (intro 7(2)) auto
    moreover have "stripEntries es (seen \<union> set (addresses v)) =
        (pruneEntries es, seen \<union> set (addresses v) \<union> set (addressesEntries es))"
      using 7 False by (intro 7(3)) auto
    ultimately show ?thesis using False by (simp add: Un_assoc)
  qed
qed simp_all

lemma prune_free:
  "plainly_free (prune v)" "elements_free (pruneElements xs)" "entries_free (pruneEntries es)"
  by (induction v and xs and es rule: prune_pruneElements_pruneEntries.induct) simp_all

lemma prune_id:
  "plainly_free v \<Longrightarrow> prune v = v" "elements_free xs \<Longrightarrow> pruneElements xs = xs"
  "entries_free es \<Longrightarrow> pruneEntries es = es"
  by (induction v and xs and es rule: prune_pruneElements_pruneEntries.induct) simp_all

lemma addresses_prune [simp]:
  "addresses (prune v) = addresses v" "addressesElements (pruneElements xs) = addressesElements xs"
  "addressesEntries (pruneEntries es) = addressesEntries es"
  by (induction v and xs and es rule: prune_pruneElements_pruneEntries.induct) simp_all

lemma interceptSensitive_tree: "distinct (addresses v) \<Longrightarrow> interceptSensitive v = prune v"
  by (simp add: interceptSensitive_def strip_is_prune(1))

text \<open>The value at a path of keys and positions; the inside of an instance is not looked at.\<close>

datatype step = Key string | Index nat

fun valueAt :: "json \<Rightarrow> step list \<Rightarrow> json option" where
  "valueAt v [] = Some v"
| "valueAt (JArr a xs) (Index n # p) = (if n < length xs then valueAt (xs ! n) p else None)"
| "valueAt (JObj a es) (Key k # p) = (case map_of es k of None \<Rightarrow> None | Some v \<Rightarrow> valueAt v p)"
| "valueAt v (_ # p) = None"

lemma pruneElements_map: "pruneElements xs = map prune xs"
  by (induction xs) simp_all

lemma map_of_pruneEntries: "k \<notin> set SENSITIVE_KEYS \<Longrightarrow> map_of (pruneEntries es) k = map_option prune (map_of es k)"
  by (induction es) auto

lemma map_of_pruneEntries_secret: "k \<in> set SENSITIVE_KEYS \<Longrightarrow> map_of (pruneEntries es) k = None"
  by (induction es) auto

lemma valueAt_prune:
  "(\<forall>k\<in>set SENSITIVE_KEYS. Key k \<notin> set p) \<Longrightarrow> valueAt (prune v) p = map_option prune (valueAt v p)"
proof (induction v p rule: valueAt.induct)
  case (3 a es k p)
  then show ?case by (auto simp: map_of_pruneEntries split: option.splits)
qed (auto simp: pruneElements_map)

lemma valueAt_secret: "k \<in> set SENSITIVE_KEYS \<Longrightarrow> valueAt (prune v) (p @ Key k # q) = None"
proof (induction v p rule: valueAt.induct)
  case (1 v)
  then show ?case by (cases v) (auto simp: map_of_pruneEntries_secret split: option.splits)
next
  case (3 a es k' p)
  then show ?case
    by (cases "k' \<in> set SENSITIVE_KEYS") (auto simp: map_of_pruneEntries map_of_pruneEntries_secret split: option.splits)
qed (auto simp: pruneElements_map)

text \<open>
  C24. On a value no object of which is reached twice, no path of keys and positions into the answer leads through
  a password, a refreshToken or an otp, at any depth of arrays and plain objects; every other path leads to what
  it led to, without its own sensitive entries, so a scalar and an instance of a class are answered as they are
  (the walk does not enter instances); and stripping again changes nothing.
\<close>

theorem sensitive_fields_stripped:
  assumes "distinct (addresses v)"
  shows "(\<forall>k\<in>{''password'', ''refreshToken'', ''otp''}. \<forall>p q. valueAt (interceptSensitive v) (p @ Key k # q) = None) \<and>
    (\<forall>p. set p \<inter> {Key ''password'', Key ''refreshToken'', Key ''otp''} = {} \<longrightarrow>
      valueAt (interceptSensitive v) p = map_option prune (valueAt v p) \<and>
      (\<forall>c a es. valueAt v p = Some (JInst c a es) \<longrightarrow> valueAt (interceptSensitive v) p = Some (JInst c a es))) \<and>
    interceptSensitive (interceptSensitive v) = interceptSensitive v"
proof -
  have keys: "set SENSITIVE_KEYS = {''password'', ''refreshToken'', ''otp''}" by (simp add: SENSITIVE_KEYS_def)
  have s: "interceptSensitive v = prune v" "interceptSensitive (prune v) = prune v"
    using assms by (simp_all add: interceptSensitive_tree prune_free(1) prune_id(1))
  have kept: "valueAt (prune v) p = map_option prune (valueAt v p)"
    if "set p \<inter> {Key ''password'', Key ''refreshToken'', Key ''otp''} = {}" for p
    by (rule valueAt_prune) (use that in \<open>auto simp: keys\<close>)
  have gone: "valueAt (prune v) (p @ Key k # q) = None" if "k \<in> {''password'', ''refreshToken'', ''otp''}" for k p q
    by (rule valueAt_secret) (use that in \<open>simp add: keys\<close>)
  show ?thesis unfolding s using kept gone by simp
qed

definition sampleAnswer :: json where
  "sampleAnswer = JObj 0 [(''id'', JStr ''u1''), (''password'', JStr ''x''),
     (''sessions'', JArr 1 [JObj 2 [(''otp'', JNum 7), (''at'', JNum 5)]])]"

theorem sensitive_fields_stripped_witness:
  "valueAt (interceptSensitive sampleAnswer) [Key ''sessions'', Index 0, Key ''otp''] = None \<and>
   valueAt (interceptSensitive sampleAnswer) [Key ''sessions'', Index 0, Key ''at''] = Some (JNum 5)"
proof -
  have "distinct (addresses sampleAnswer)" by (simp add: sampleAnswer_def SENSITIVE_KEYS_def)
  note s = sensitive_fields_stripped [OF this]
  have "valueAt (interceptSensitive sampleAnswer) ([Key ''sessions'', Index 0] @ Key ''otp'' # []) = None"
    using s by blast
  moreover have "valueAt (interceptSensitive sampleAnswer) [Key ''sessions'', Index 0, Key ''at''] = Some (JNum 5)"
    using s [THEN conjunct2, THEN conjunct1, rule_format, of "[Key ''sessions'', Index 0, Key ''at'']"]
    by (simp add: sampleAnswer_def)
  ultimately show ?thesis by simp
qed

text \<open>
  The set of the objects seen is shared by the whole walk, so an object that an answer holds twice is
  returned as it is the second time: a list that holds one object with a password twice is answered
  with the password in the second place.
\<close>

theorem shared_object_keeps_secrets:
  assumes "distinct (addresses v)" "isRecord v" "addresses v \<noteq> []" "a \<notin> set (addresses v)"
  shows "interceptSensitive (JArr a [v, v]) = JArr a [prune v, v] \<and>
    (\<not> plainly_free v \<longrightarrow> \<not> plainly_free (interceptSensitive (JArr a [v, v])))"
proof -
  have 1: "stripSensitive v {a} = (prune v, {a} \<union> set (addresses v))"
    using assms by (intro strip_is_prune(1)) auto
  have 2: "stripSensitive v ({a} \<union> set (addresses v)) = (v, {a} \<union> set (addresses v))"
    using assms(3) by (cases v) auto
  have "interceptSensitive (JArr a [v, v]) = JArr a [prune v, v]"
    using 1 2 by (simp add: interceptSensitive_def)
  then show ?thesis by simp
qed

theorem shared_object_keeps_secrets_witness:
  "valueAt (interceptSensitive (JArr 9 [sampleAnswer, sampleAnswer])) [Index 1, Key ''password''] = Some (JStr ''x'')"
proof -
  have "interceptSensitive (JArr 9 [sampleAnswer, sampleAnswer]) = JArr 9 [prune sampleAnswer, sampleAnswer]"
    using shared_object_keeps_secrets [of sampleAnswer 9] by (simp add: sampleAnswer_def SENSITIVE_KEYS_def)
  then show ?thesis by (simp add: sampleAnswer_def)
qed

section \<open>What the envelope adds\<close>

lemma map_of_setKey [simp]: "map_of (setKey k v es) j = (if j = k then Some v else map_of es j)"
  by (induction es) auto

lemma setKey_same: "map_of es k = Some v \<Longrightarrow> setKey k v es = es"
  by (induction es) (auto split: if_splits)

lemma entries_free_setKey: "entries_free es \<Longrightarrow> k \<notin> set SENSITIVE_KEYS \<Longrightarrow> plainly_free v \<Longrightarrow> entries_free (setKey k v es)"
  by (induction es) auto

lemma free_map_of: "entries_free es \<Longrightarrow> map_of es k = Some v \<Longrightarrow> plainly_free v"
  by (induction es) (auto split: if_splits)

lemma propOf_obj [simp]: "propOf (JObj a es) k = withDefault (map_of es k) JUndefined"
  by (simp add: propOf_def)

lemma hasKey_obj [simp]: "hasKey (JObj a es) k \<longleftrightarrow> map_of es k \<noteq> None"
  by (simp add: hasKey_def)

lemma coalesce_present:
  "coalesce v (JStr w) \<noteq> JUndefined" "coalesce v (JStr w) \<noteq> JNull"
  "coalesce (coalesce v (JStr w)) u = coalesce v (JStr w)"
  by (simp_all add: coalesce_def)

lemma coalesce_free: "plainly_free v \<Longrightarrow> plainly_free (coalesce v (JStr w))"
  by (simp add: coalesce_def)

text \<open>An envelope, with the identifier and the time filled in, is left as it is.\<close>

definition complete :: "json \<Rightarrow> bool" where
  "complete e \<longleftrightarrow> isApiEnvelope e \<and> propOf e ''traceId'' \<notin> {JUndefined, JNull} \<and> propOf e ''ts'' \<notin> {JUndefined, JNull}"

lemma wrap_complete:
  assumes "\<not> skipWrap" "status \<noteq> 204" "truthy ct \<longrightarrow> hasSubstring (the ct) ''application/json''" "\<not> isStreamBody v"
  obtains es where "interceptResponse skipWrap status ct r a now v = JObj a es" "complete (JObj a es)"
proof (cases "isApiEnvelope v")
  case True
  let ?es = "setKey ''ts'' (coalesce (propOf v ''ts'') (JStr now))
    (setKey ''traceId'' (coalesce (propOf v ''traceId'') (JStr (getTraceId r))) (entriesOf v))"
  have "interceptResponse skipWrap status ct r a now v = JObj a ?es"
    using assms True by (auto simp: interceptResponse_def)
  moreover have "complete (JObj a ?es)"
    using True by (auto simp: complete_def isApiEnvelope_def coalesce_present propOf_def hasKey_def)
  ultimately show thesis by (rule that)
next
  case False
  with assms show thesis
    by (intro that) (auto simp: interceptResponse_def complete_def isApiEnvelope_def)
qed

lemma complete_again:
  assumes "complete (JObj a es)"
  shows "interceptResponse skipWrap status ct r a now (JObj a es) = JObj a es"
proof -
  obtain t u where t: "map_of es ''traceId'' = Some t" "t \<noteq> JUndefined" "t \<noteq> JNull"
    and u: "map_of es ''ts'' = Some u" "u \<noteq> JUndefined" "u \<noteq> JNull"
    using assms by (cases "map_of es ''traceId''"; cases "map_of es ''ts''") (auto simp: complete_def)
  have "isApiEnvelope (JObj a es)" using assms by (simp add: complete_def)
  with t u show ?thesis
    by (simp add: interceptResponse_def Let_def coalesce_def setKey_same)
qed

lemma wrap_free:
  assumes "plainly_free v" "\<And>c b es. v = JInst c b es \<Longrightarrow> \<not> isApiEnvelope v"
  shows "plainly_free (interceptResponse skipWrap status ct r a now v)"
proof (cases v)
  case (JObj b es)
  have "plainly_free (propOf v k)" for k
    using assms(1) JObj by (cases "map_of es k") (auto dest: free_map_of)
  then show ?thesis
    using assms(1) JObj
    by (auto simp: interceptResponse_def Let_def SENSITIVE_KEYS_def intro!: entries_free_setKey coalesce_free)
qed (use assms in \<open>auto simp: interceptResponse_def Let_def SENSITIVE_KEYS_def isApiEnvelope_def propOf_def hasKey_def\<close>)

lemma prune_inst: "prune v = JInst c a es \<longleftrightarrow> v = JInst c a es"
  by (cases v) auto

lemma prune_stream: "isStreamBody (prune v) = isStreamBody v"
  by (cases v) auto

text \<open>
  An answer that is wrapped is an envelope that has an outcome, a trace identifier and a time; outside instances it holds
  no sensitive field, the result included, when the handler's value is a tree and not an instance posing as
  an envelope; and an answer that passes a second time, at any later time, is not wrapped again.
\<close>

theorem answer_is_an_envelope:
  assumes "distinct (addresses v)" "\<not> skipWrap" "status \<noteq> 204" "\<not> isStreamBody v"
    and "truthy ct \<longrightarrow> hasSubstring (the ct) ''application/json''"
    and "\<And>c b es. v = JInst c b es \<Longrightarrow> \<not> isApiEnvelope v"
  shows "(let e = answer skipWrap status ct r a now v in
    complete e \<and> plainly_free e \<and> interceptResponse skipWrap' status' ct' r' a now' e = e \<and>
    (\<not> isApiEnvelope (prune v) \<longrightarrow> propOf e ''ok'' = JBool True \<and> propOf e ''result'' = prune v))"
proof -
  have e: "answer skipWrap status ct r a now v = interceptResponse skipWrap status ct r a now (prune v)"
    by (simp add: answer_def interceptSensitive_tree assms(1))
  have nb: "\<not> isStreamBody (prune v)" using assms(4) by (simp add: prune_stream)
  obtain es where es: "interceptResponse skipWrap status ct r a now (prune v) = JObj a es" "complete (JObj a es)"
    by (rule wrap_complete [OF assms(2,3,5) nb])
  have "\<not> isApiEnvelope (prune v)" if "prune v = JInst c b es" for c b es
    using assms(6) that by (auto simp: prune_inst)
  then have "plainly_free (interceptResponse skipWrap status ct r a now (prune v))"
    by (intro wrap_free prune_free(1))
  moreover have "propOf (JObj a es) ''ok'' = JBool True \<and> propOf (JObj a es) ''result'' = prune v"
    if "\<not> isApiEnvelope (prune v)"
    using that assms(2,3,5) nb es(1) [symmetric] by (auto simp: interceptResponse_def Let_def)
  ultimately show ?thesis
    unfolding e es(1) by (simp add: Let_def complete_again es(2))
qed

definition sampleRequest :: requestInfo where
  "sampleRequest = \<lparr>rq_traceId = Some ''t1'', rq_localsTraceId = None, rq_xTraceId = JUndefined\<rparr>"

theorem answer_is_an_envelope_witness:
  "(let e = answer False 200 None sampleRequest 9 ''now'' sampleAnswer in
    plainly_free e \<and> interceptResponse False 201 None sampleRequest 9 ''later'' e = e \<and> propOf e ''result'' = prune sampleAnswer)"
proof -
  have d: "distinct (addresses sampleAnswer)" by (simp add: sampleAnswer_def SENSITIVE_KEYS_def)
  have s: "\<not> isStreamBody sampleAnswer" "\<And>c b es. sampleAnswer = JInst c b es \<Longrightarrow> \<not> isApiEnvelope sampleAnswer"
    by (simp_all add: sampleAnswer_def)
  have p: "\<not> isApiEnvelope (prune sampleAnswer)"
    by (simp add: sampleAnswer_def SENSITIVE_KEYS_def isApiEnvelope_def)
  have "(let e = answer False 200 None sampleRequest 9 ''now'' sampleAnswer in
    complete e \<and> plainly_free e \<and> interceptResponse False 201 None sampleRequest 9 ''later'' e = e \<and>
    (\<not> isApiEnvelope (prune sampleAnswer) \<longrightarrow> propOf e ''ok'' = JBool True \<and> propOf e ''result'' = prune sampleAnswer))"
    by (rule answer_is_an_envelope [OF d _ _ s(1) _ s(2)]) simp_all
  with p show ?thesis by (simp add: Let_def)
qed

section \<open>What a refused request is told\<close>

text \<open>
  The reference for \<open>flattenValidationErrors\<close>: every broken constraint, in the order of the tree, with
  the chain of properties that leads to it.
\<close>

fun violations :: "validationError list \<Rightarrow> (string list \<times> string) list" where
  "violations [] = []"
| "violations (ValidationError p cs children # errors) =
     map (\<lambda>c. ([p], snd c)) cs @ map (\<lambda>v. (p # fst v, snd v)) (violations children) @ violations errors"

definition renderViolation :: "string \<Rightarrow> string list \<times> string \<Rightarrow> fieldError" where
  "renderViolation parent v = \<lparr>fe_path = foldl joinPath parent (fst v), fe_message = snd v\<rparr>"

lemma flatten_is_violations: "flattenValidationErrors errs parent = map (renderViolation parent) (violations errs)"
  by (induction errs parent rule: flattenValidationErrors.induct) (auto simp: renderViolation_def Let_def)

lemma detail_roundtrip [simp]: "detailOf (detailValue d) = d"
  by (simp add: detailOf_def detailValue_def messageText_def)

lemma details_are_records [simp]:
  "isRecord (detailValue d)"
  "filter isRecord (map (detailValue \<circ> f) xs) = map (detailValue \<circ> f) xs"
  by (induction xs) (simp_all add: detailValue_def)

lemma detail_roundtrip_comp [simp]: "detailOf \<circ> (detailValue \<circ> f) = f"
  by (simp add: fun_eq_iff)

text \<open>
  A request the validation pipe refuses is answered with status 400, the code \<open>VALIDATION_ERROR\<close> and one
  detail for every broken constraint at any depth, in order, under the path of its property; without
  any the details are left out.
\<close>

theorem validation_errors_reported:
  "catchException request now (validationException errs) =
    \<lparr>fl_status = 400, fl_code = ''VALIDATION_ERROR'', fl_message = ''Validation failed'',
     fl_details = (if violations errs = [] then None else Some (map (renderViolation []) (violations errs))),
     fl_traceId = getTraceId request, fl_ts = now\<rparr>"
  by (simp add: catchException_def validationException_def mapHttpException_def extractCustomHttpException_def
      extractValidationDetails_def mapStatusToCode_def flatten_is_violations Let_def)

lemma trim_nonblank: "trim c = c \<Longrightarrow> c \<noteq> [] \<Longrightarrow> trim c \<noteq> []"
  by simp

text \<open>
  What an exception tells the client: a coded one its own code and message, any other \<open>HttpException\<close> its
  status and a code that depends on the status; a broken unique constraint is a conflict, a missing row
  is not found, and an exception of no known class says nothing about its cause, but an error of Prisma
  with another code is answered with Prisma's own message.
\<close>

theorem exceptions_answered:
  "(\<forall>code msg. trim code = code \<and> code \<noteq> [] \<longrightarrow>
      resolveException (codedException code msg) =
        \<lparr>rv_status = 400, rv_errorCode = code, rv_message = msg, rv_details = []\<rparr>) \<and>
   (\<forall>cls status msg. resolveException (HttpException cls status (JStr msg)) =
        \<lparr>rv_status = status, rv_errorCode = showCode (mapStatusToCode status cls), rv_message = msg, rv_details = []\<rparr>) \<and>
   (\<forall>msg. fl_status (catchException r now (KnownRequestError ''P2002'' msg)) = 409 \<and>
      fl_message (catchException r now (KnownRequestError ''P2002'' msg)) = ''Conflict'' \<and>
      fl_status (catchException r now (KnownRequestError ''P2025'' msg)) = 404) \<and>
   fl_message (catchException r now OtherThrown) = ''Internal server error'' \<and>
   (\<forall>code msg. code \<notin> {''P2002'', ''P2025''} \<longrightarrow>
      fl_message (catchException r now (KnownRequestError code msg)) = msg) \<and>
   (\<forall>e. fl_details (catchException r now e) \<noteq> None \<longrightarrow> (\<exists>status v. e = HttpException BAD_REQUEST status v))"
proof -
  have coded: "resolveException (codedException code msg) =
      \<lparr>rv_status = 400, rv_errorCode = code, rv_message = msg, rv_details = []\<rparr>"
    if "trim code = code" "code \<noteq> []" for code msg
    using that by (simp add: codedException_def mapHttpException_def extractCustomHttpException_def
        extractValidationDetails_def Let_def)
  have plain: "resolveException (HttpException cls status (JStr msg)) =
      \<lparr>rv_status = status, rv_errorCode = showCode (mapStatusToCode status cls), rv_message = msg, rv_details = []\<rparr>"
    for cls status msg
    by (simp add: mapHttpException_def extractCustomHttpException_def extractValidationDetails_def extractMessage_def Let_def)
  have details: "\<exists>status v. e = HttpException BAD_REQUEST status v"
    if "fl_details (catchException r now e) \<noteq> None" for e
    using that
    by (cases e) (auto simp: catchException_def mapPrismaError_def mapHttpException_def extractValidationDetails_def
        Let_def split: if_splits)
  show ?thesis
    using coded plain details by (auto simp: catchException_def mapPrismaError_def Let_def)
qed

theorem exceptions_answered_witness:
  "resolveException (insufficientCreditException None) =
     \<lparr>rv_status = 400, rv_errorCode = ''ACCOUNT_INSUFFICIENT_CAPACITY'',
      rv_message = ''Insufficient usable balance for this operation'', rv_details = []\<rparr>"
  using exceptions_answered [of sampleRequest "''now''"]
  by (simp add: insufficientCreditException_def trim_def isSpace_def)

section \<open>Trace identifiers and links\<close>

lemma trace_id_set:
  "getTraceId (requestIdMiddleware h1 h2 uuid r) = requestTraceId h1 h2 uuid" "requestTraceId h1 h2 uuid \<noteq> []"
  by (auto simp: getTraceId_def requestIdMiddleware_def requestTraceId_def Let_def truthy_def split: option.splits)

text \<open>
  A base URL never ends in a slash, so that links are appended with one; and the forwarded headers of
  the request, which a client can set, count only if the proxy is trusted.
\<close>

lemma trimTrailingSlash_end: "trimTrailingSlash s = [] \<or> last (trimTrailingSlash s) \<noteq> CHR ''/''"
proof (cases "dropWhile (\<lambda>c. c = CHR ''/'') (rev s)")
  case (Cons c cs)
  then have "c \<noteq> CHR ''/''" using hd_dropWhile [of "\<lambda>c. c = CHR ''/''" "rev s"] by auto
  with Cons show ?thesis by (simp add: trimTrailingSlash_def)
qed (simp add: trimTrailingSlash_def)

lemma base_url_ends: "resolveBaseUrl pub tp req = [] \<or> last (resolveBaseUrl pub tp req) \<noteq> CHR ''/''"
  unfolding resolveBaseUrl_def Let_def using trimTrailingSlash_end by (auto split: if_splits)

lemma base_url_untrusted:
  assumes "toLowerCase (withDefault tp ''false'') \<noteq> ''true''"
  shows "resolveBaseUrl pub tp req =
    resolveBaseUrl pub tp (req\<lparr>ur_forwardedProto := p, ur_forwardedHost := h, ur_forwardedPort := q\<rparr>)"
  using assms by (simp add: resolveBaseUrl_def Let_def)

end
