(* ===== verification/P2PViews.thy ===== *)
theory P2PViews
  imports P2P Http
begin

text \<open>
  The views and the counters of \<open>p2p-allocations.service.ts\<close>: what is shown of a withdrawal, a deposit or an
  allocation, with the flags, actions, timeline and risk flags, the details an administrator opens, and the counters of
  the operations page. A sum of money is shown as a number, a time as the time. The actions a view offers are compared
  with what the operations accept.
\<close>

section \<open>Withdrawals and deposits\<close>

record withdrawalTotals =
  wt_assigned :: decimal
  wt_settled :: decimal
  wt_remainingToAssign :: decimal
  wt_remainingToSettle :: decimal

record withdrawalDestination =
  wx_type :: PaymentDestinationType
  wx_masked :: string
  wx_fullValue :: string
  wx_bankName :: "string option"
  wx_title :: "string option"

record withdrawalFlags =
  wf_hasDispute :: bool
  wf_hasProof :: bool
  wf_hasExpiringAllocations :: bool
  wf_isUrgent :: bool

record withdrawalActions =
  wc_canCancel :: bool
  wc_canAssign :: bool
  wc_canViewAllocations :: bool

record withdrawalVm =
  wv_id :: id
  wv_purpose :: RequestPurpose
  wv_channel :: "WithdrawalChannel option"
  wv_amount :: decimal
  wv_status :: WithdrawStatus
  wv_totals :: withdrawalTotals
  wv_destination :: "withdrawalDestination option"
  wv_flags :: withdrawalFlags
  wv_createdAt :: time
  wv_updatedAt :: time
  wv_actions :: withdrawalActions

definition withdrawClosed :: "WithdrawStatus \<Rightarrow> bool" where
  "withdrawClosed status = (status \<in> {WithdrawStatus.CANCELLED, WithdrawStatus.EXPIRED, WithdrawStatus.SETTLED})"

text \<open>The flags of the rows: whether one is disputed, one is proved and one expires soon.\<close>

definition buildWithdrawalVm :: "withdrawRequest \<Rightarrow> bool \<Rightarrow> bool \<Rightarrow> bool \<Rightarrow> time \<Rightarrow> withdrawalVm" where
  "buildWithdrawalVm w hasDispute hasProof hasExpiringAllocations now =
     (let remainingToAssign = subDec (Some (wd_amount w)) (Some (wd_assignedAmountTotal w));
          remainingToSettle = subDec (Some (wd_amount w)) (Some (wd_settledAmountTotal w));
          snapshot = wd_destinationSnapshot w;
          masked = orElse (Option.bind snapshot ds_maskedValue)
            (if truthy (wd_iban w) then map_option maskDestinationValue (wd_iban w)
             else if truthy (wd_cardNumber w) then map_option maskDestinationValue (wd_cardNumber w) else None);
          closed = withdrawClosed (wd_status w)
      in \<lparr>wv_id = wd_id w, wv_purpose = wd_purpose w, wv_channel = wd_channel w, wv_amount = wd_amount w,
          wv_status = wd_status w,
          wv_totals = \<lparr>wt_assigned = wd_assignedAmountTotal w, wt_settled = wd_settledAmountTotal w,
            wt_remainingToAssign = remainingToAssign, wt_remainingToSettle = remainingToSettle\<rparr>,
          wv_destination = (if truthy masked
             then Some \<lparr>wx_type = (case snapshot of Some ds \<Rightarrow> ds_type ds
                          | None \<Rightarrow> (if truthy (wd_iban w) then PaymentDestinationType.IBAN else PaymentDestinationType.CARD)),
                    wx_masked = the masked, wx_fullValue = withDefault (Option.bind snapshot ds_value) [],
                    wx_bankName = orElse (Option.bind snapshot ds_bankName) (wd_bankName w),
                    wx_title = Option.bind snapshot ds_title\<rparr>
             else None),
          wv_flags = \<lparr>wf_hasDispute = hasDispute, wf_hasProof = hasProof,
            wf_hasExpiringAllocations = hasExpiringAllocations,
            wf_isUrgent = (hasExpiringAllocations \<or> 10000000 < remainingToAssign \<or>
                           wd_createdAt w < now - 24 * 60 * 60 * 1000)\<rparr>,
          wv_createdAt = wd_createdAt w, wv_updatedAt = wd_updatedAt w,
          wv_actions = \<lparr>wc_canCancel = (wd_settledAmountTotal w = 0 \<and> \<not> closed),
            wc_canAssign = (0 < remainingToAssign \<and> \<not> closed), wc_canViewAllocations = True\<rparr>\<rparr>)"

record depositVm =
  dv_id :: id
  dv_purpose :: RequestPurpose
  dv_requestedAmount :: decimal
  dv_status :: DepositStatus
  dv_assigned :: decimal
  dv_settled :: decimal
  dv_remaining :: decimal
  dv_createdAt :: time
  dv_updatedAt :: time
  dv_canCancel :: bool
  dv_canBeAssigned :: bool
  dv_isFullyAvailable :: bool
  dv_isExpiring :: bool

definition buildDepositVm :: "depositRequest \<Rightarrow> depositVm" where
  "buildDepositVm d =
     (let remaining = dec (Some (withDefault (dp_remainingAmount d) (dp_amount d)));
          closed = (dp_status d \<in> {DepositStatus.CANCELLED, DepositStatus.EXPIRED, DepositStatus.SETTLED})
      in \<lparr>dv_id = dp_id d, dv_purpose = dp_purpose d, dv_requestedAmount = dp_amount d, dv_status = dp_status d,
          dv_assigned = dp_assignedAmountTotal d, dv_settled = dp_settledAmountTotal d, dv_remaining = remaining,
          dv_createdAt = dp_createdAt d, dv_updatedAt = dp_updatedAt d,
          dv_canCancel = (dp_settledAmountTotal d = 0 \<and> \<not> closed),
          dv_canBeAssigned = (0 < remaining \<and> \<not> closed), dv_isFullyAvailable = (remaining = dp_amount d),
          dv_isExpiring = (dp_status d = DepositStatus.EXPIRED)\<rparr>)"

section \<open>The parts of an allocation\<close>

record userSummary =
  um_userId :: "id option"
  um_mobile :: "string option"
  um_displayName :: "string option"

text \<open>
  The relations of \<open>include\<close>: the deposit, the withdrawal and their users. The rows exist by the foreign keys; a
  user id is \<open>None\<close> only where they are broken.
\<close>

definition summaryOf :: "id option \<Rightarrow> db \<Rightarrow> userSummary" where
  "summaryOf userId s =
     (let u = Option.bind userId (\<lambda>i. findUser i s)
      in \<lparr>um_userId = userId, um_mobile = map_option us_mobile u, um_displayName = map_option us_fullName u\<rparr>)"

definition payerOf :: "p2pAllocation \<Rightarrow> db \<Rightarrow> userSummary" where
  "payerOf a s = summaryOf (map_option dp_userId (findDeposit (al_depositId a) s)) s"

definition receiverOf :: "p2pAllocation \<Rightarrow> db \<Rightarrow> userSummary" where
  "receiverOf a s = summaryOf (map_option wd_userId (findWithdraw (al_withdrawalId a) s)) s"

record attachmentFile =
  xf_id :: id
  xf_name :: string
  xf_mime :: string
  xf_size :: nat

record allocationAttachment =
  xa_id :: id
  xa_kind :: AttachmentLinkKind
  xa_createdAt :: time
  xa_file :: "attachmentFile option"

text \<open>The file of a link, which is a foreign key.\<close>

definition toAttachment :: "db \<Rightarrow> attachmentLink \<Rightarrow> allocationAttachment" where
  "toAttachment s l =
     \<lparr>xa_id = lk_id l, xa_kind = lk_kind l, xa_createdAt = lk_createdAt l,
      xa_file = map_option (\<lambda>f. \<lparr>xf_id = fi_id f, xf_name = fi_fileName f, xf_mime = fi_mimeType f,
        xf_size = fi_sizeBytes f\<rparr>) (findFile (lk_fileId l) s)\<rparr>"

text \<open>The round of the loop: \<open>map.get(link.entityId) ?? []\<close>, \<open>push\<close>, \<open>map.set\<close>.\<close>

definition pushLink ::
  "db \<Rightarrow> attachmentLink \<Rightarrow> (id \<rightharpoonup> allocationAttachment list) \<Rightarrow> (id \<rightharpoonup> allocationAttachment list)" where
  "pushLink s l m = m(lk_entityId l \<mapsto> withDefault (m (lk_entityId l)) [] @ [toAttachment s l])"

definition compareLinks :: "attachmentLink \<Rightarrow> attachmentLink \<Rightarrow> int" where
  "compareLinks a b = lk_createdAt a - lk_createdAt b"

definition loadAllocationAttachments :: "id list \<Rightarrow> db \<Rightarrow> (id \<rightharpoonup> allocationAttachment list)" where
  "loadAllocationAttachments allocationIds s =
     (if allocationIds = [] then Map.empty
      else fold (pushLink s) (sortBy compareLinks (findMany (\<lambda>l. lk_entityType l = AttachmentLinkEntityType.P2P_ALLOCATION \<and>
             lk_entityId l \<in> set allocationIds) (attachmentLinks s))) Map.empty)"

datatype vmActor = ADMIN | PAYER | RECEIVER
datatype vmRole = PAYER | RECEIVER | ADMIN | SYSTEM
datatype vmAction = SUBMIT_PROOF | RECEIVER_CONFIRM | ADMIN_VERIFY | FINALIZE | CANCEL | DISPUTE
datatype timelineKey = ASSIGNED | DESTINATION_READY | PROOF_SUBMITTED | RECEIVER_CONFIRMED | ADMIN_VERIFIED
  | SETTLED | CANCELLED | EXPIRED
datatype destinationMode = full | masked | none

definition buildDestinationCopyText ::
  "string option \<Rightarrow> string option \<Rightarrow> string option \<Rightarrow> string option \<Rightarrow> string option" where
  "buildDestinationCopyText title bankName ownerName val =
     (if \<not> truthy val then None
      else Some (joinWith [CHR 0x0A] ((if truthy title then [the title] else []) @
             (if truthy bankName then [the bankName] else []) @ (if truthy ownerName then [the ownerName] else []) @ [the val])))"

record allocationDestination =
  ad_type :: PaymentDestinationType
  ad_bankName :: "string option"
  ad_ownerName :: "string option"
  ad_title :: "string option"
  ad_fullValue :: "string option"
  ad_masked :: string

definition destinationToPay :: "destinationMode \<Rightarrow> destinationSnapshot \<Rightarrow> allocationDestination option" where
  "destinationToPay mode snapshot =
     (if mode = none then None
      else Some \<lparr>ad_type = ds_type snapshot, ad_bankName = ds_bankName snapshot, ad_ownerName = ds_ownerName snapshot,
        ad_title = ds_title snapshot,
        ad_fullValue = (if mode = full then Some (withDefault (ds_value snapshot) []) else None),
        ad_masked = withDefault (ds_maskedValue snapshot) (maskDestinationValue (withDefault (ds_value snapshot) []))\<rparr>)"

section \<open>Actions\<close>

definition payerCanSubmitProof :: "allocationAttachment list \<Rightarrow> p2pAllocation \<Rightarrow> time \<Rightarrow> bool" where
  "payerCanSubmitProof atts a now \<longleftrightarrow>
     length (filter (\<lambda>x. xa_kind x = AttachmentLinkKind.P2P_PROOF) atts) < 2 \<and>
     al_status a \<in> {P2PAllocationStatus.ASSIGNED, P2PAllocationStatus.PROOF_SUBMITTED} \<and>
     al_receiverConfirmedAt a = None \<and> al_adminVerifiedAt a = None \<and>
     al_status a \<noteq> P2PAllocationStatus.DISPUTED \<and> al_status a \<noteq> P2PAllocationStatus.SETTLED \<and>
     (al_status a \<noteq> P2PAllocationStatus.ASSIGNED \<or>
      \<not> (al_status a = P2PAllocationStatus.ASSIGNED \<and> allocationExpired a now))"

definition receiverConfirmAllowedByMode :: "p2pEnv \<Rightarrow> bool" where
  "receiverConfirmAllowedByMode env \<longleftrightarrow>
     getConfirmationMode env = P2PConfirmationMode.RECEIVER \<or> getConfirmationMode env = P2PConfirmationMode.BOTH"

definition receiverCanConfirm :: "p2pEnv \<Rightarrow> p2pAllocation \<Rightarrow> bool" where
  "receiverCanConfirm env a \<longleftrightarrow> receiverConfirmAllowedByMode env \<and> al_status a = P2PAllocationStatus.PROOF_SUBMITTED"

definition adminCanFinalize :: "p2pEnv \<Rightarrow> p2pAllocation \<Rightarrow> bool" where
  "adminCanFinalize env a \<longleftrightarrow> isFinalizable env a \<and> al_status a \<noteq> P2PAllocationStatus.SETTLED"

definition adminCanVerify :: "p2pAllocation \<Rightarrow> bool" where
  "adminCanVerify a \<longleftrightarrow> al_status a \<in> {P2PAllocationStatus.PROOF_SUBMITTED, P2PAllocationStatus.RECEIVER_CONFIRMED}"

definition adminCanCancel :: "p2pAllocation \<Rightarrow> bool" where
  "adminCanCancel a \<longleftrightarrow> al_status a \<in> {P2PAllocationStatus.ASSIGNED, P2PAllocationStatus.PROOF_SUBMITTED,
     P2PAllocationStatus.RECEIVER_CONFIRMED, P2PAllocationStatus.ADMIN_VERIFIED}"

record actionRow =
  ax_key :: vmAction
  ax_enabled :: bool
  ax_reasonDisabled :: "string option"

text \<open>A row of the matrix: the action is enabled for its own party, which alone is told why it is not.\<close>

definition actionFor :: "vmAction \<Rightarrow> bool \<Rightarrow> bool \<Rightarrow> string \<Rightarrow> actionRow" where
  "actionFor k isParty can reason =
     \<lparr>ax_key = k, ax_enabled = (if isParty then can else False),
      ax_reasonDisabled = (if isParty \<and> \<not> can then Some reason else None)\<rparr>"

definition allowedActions :: "p2pEnv \<Rightarrow> allocationAttachment list \<Rightarrow> vmActor option \<Rightarrow> p2pAllocation \<Rightarrow> time \<Rightarrow> actionRow list" where
  "allowedActions env atts actor a now =
     (let isPayer = (actor = Some vmActor.PAYER); isReceiver = (actor = Some vmActor.RECEIVER);
          isAdmin = (actor = Some vmActor.ADMIN); allowed = receiverConfirmAllowedByMode env
      in [actionFor SUBMIT_PROOF isPayer (payerCanSubmitProof atts a now)
            ''Proof submission is not available in current status.'',
          actionFor RECEIVER_CONFIRM isReceiver (receiverCanConfirm env a)
            (if allowed then ''Receiver confirmation requires submitted proof.'' else ''Receiver confirmation is disabled.''),
          actionFor ADMIN_VERIFY isAdmin (adminCanVerify a) ''Admin verify is not available in current status.'',
          actionFor FINALIZE isAdmin (adminCanFinalize env a) ''Allocation is not finalizable yet.'',
          actionFor CANCEL isAdmin (adminCanCancel a) ''Cancellation is not available in current status.'',
          actionFor DISPUTE isReceiver (receiverCanConfirm env a)
            (if allowed then ''Dispute is available after proof submission.'' else ''Not available for this allocation.'')])"

section \<open>Allocations\<close>

record timelineEntry =
  te_key :: timelineKey
  te_at :: time
  te_byRole :: vmRole

definition compareTimeline :: "timelineEntry \<Rightarrow> timelineEntry \<Rightarrow> int" where
  "compareTimeline a b = te_at a - te_at b"

definition allocationTimeline :: "p2pAllocation \<Rightarrow> time \<Rightarrow> timelineEntry list" where
  "allocationTimeline a now =
     (let entry = (\<lambda>k t r. case t of None \<Rightarrow> [] | Some x \<Rightarrow> [\<lparr>te_key = k, te_at = x, te_byRole = r\<rparr>])
      in sortBy compareTimeline
        (entry timelineKey.ASSIGNED (Some (al_createdAt a)) vmRole.ADMIN @
         entry timelineKey.DESTINATION_READY (Some (al_createdAt a)) SYSTEM @
         entry timelineKey.PROOF_SUBMITTED (al_proofSubmittedAt a) vmRole.PAYER @
         entry timelineKey.RECEIVER_CONFIRMED (al_receiverConfirmedAt a) vmRole.RECEIVER @
         entry timelineKey.ADMIN_VERIFIED (al_adminVerifiedAt a) vmRole.ADMIN @
         entry timelineKey.SETTLED (al_settledAt a) SYSTEM @
         (if al_status a = P2PAllocationStatus.CANCELLED then entry timelineKey.CANCELLED (Some (al_updatedAt a)) vmRole.ADMIN else []) @
         (if al_status a = P2PAllocationStatus.EXPIRED \<or>
             al_status a = P2PAllocationStatus.ASSIGNED \<and> allocationExpired a now
            then entry timelineKey.EXPIRED (Some (al_expiresAt a)) SYSTEM else [])))"

record proofRequirements =
  pq_bankRefRequired :: bool
  pq_paidAtRequired :: bool
  pq_attachmentRequired :: bool
  pq_maxFiles :: nat
  pq_maxSizeMb :: nat
  pq_allowedMimeTypes :: "string list"

record allocationVm =
  av_id :: id
  av_withdrawalId :: id
  av_depositId :: id
  av_payer :: userSummary
  av_receiver :: userSummary
  av_amount :: decimal
  av_status :: P2PAllocationStatus
  av_expiresAt :: time
  av_paymentCode :: string
  av_method :: PaymentMethod
  av_bankRef :: "string option"
  av_paidAt :: "time option"
  av_attachments :: "allocationAttachment list"
  av_destinationToPay :: "allocationDestination option"
  av_expiresInSeconds :: "int option"
  av_destinationCopyText :: "string option"
  av_proofSubmittedAt :: "time option"
  av_receiverConfirmedAt :: "time option"
  av_adminVerifiedAt :: "time option"
  av_settledAt :: "time option"
  av_isExpired :: bool
  av_expiresSoon :: bool
  av_hasProof :: bool
  av_isFinalizable :: bool
  av_createdAt :: time
  av_payerCanSubmitProof :: bool
  av_receiverCanConfirm :: bool
  av_adminCanFinalize :: bool
  av_allowedActions :: "actionRow list"
  av_timeline :: "timelineEntry list"
  av_proofRequirements :: "proofRequirements option"
  av_instructions :: "string list option"
  av_riskFlags :: "string list"

record vmParams =
  vp_attachments :: "allocationAttachment list"
  vp_destinationMode :: destinationMode
  vp_includePayerExtras :: bool
  vp_expiresSoonThreshold :: "time option"
  vp_actor :: "vmActor option"

definition riskFlags :: "bool \<Rightarrow> bool \<Rightarrow> bool \<Rightarrow> P2PAllocationStatus \<Rightarrow> string list" where
  "riskFlags expired expiresSoon hasProof status =
     (if expired then [''EXPIRED''] else []) @ (if status = P2PAllocationStatus.DISPUTED then [''DISPUTED''] else []) @
     (if expiresSoon then [''EXPIRES_SOON''] else []) @
     (if \<not> hasProof \<and> status \<in> {P2PAllocationStatus.ASSIGNED, P2PAllocationStatus.PROOF_SUBMITTED}
        then [''MISSING_PROOF''] else [])"

definition buildAllocationVm :: "p2pEnv \<Rightarrow> vmParams \<Rightarrow> db \<Rightarrow> p2pAllocation \<Rightarrow> allocationVm" where
  "buildAllocationVm env p s a =
     (let now = db_now s; snapshot = al_destinationSnapshot a; mode = vp_destinationMode p; atts = vp_attachments p;
          expired = (al_status a = P2PAllocationStatus.ASSIGNED \<and> allocationExpired a now);
          expiresSoon = (al_status a = P2PAllocationStatus.ASSIGNED \<and> allocationExpiresSoon a (vp_expiresSoonThreshold p) now);
          hasProof = (atts \<noteq> [] \<or> al_proofSubmittedAt a \<noteq> None); extras = vp_includePayerExtras p
      in \<lparr>av_id = al_id a, av_withdrawalId = al_withdrawalId a, av_depositId = al_depositId a,
          av_payer = payerOf a s, av_receiver = receiverOf a s, av_amount = al_amount a, av_status = al_status a,
          av_expiresAt = al_expiresAt a, av_paymentCode = al_paymentCode a, av_method = al_paymentMethod a,
          av_bankRef = al_payerBankRef a, av_paidAt = al_payerPaidAt a, av_attachments = atts,
          av_destinationToPay = destinationToPay mode snapshot,
          av_expiresInSeconds = (if extras then Some (max 0 ((al_expiresAt a - now) div 1000)) else None),
          av_destinationCopyText = (if mode \<noteq> none
             then buildDestinationCopyText (ds_title snapshot) (ds_bankName snapshot) (ds_ownerName snapshot)
                    (if mode = full then ds_value snapshot else ds_maskedValue snapshot)
             else None),
          av_proofSubmittedAt = al_proofSubmittedAt a, av_receiverConfirmedAt = al_receiverConfirmedAt a,
          av_adminVerifiedAt = al_adminVerifiedAt a, av_settledAt = al_settledAt a,
          av_isExpired = expired, av_expiresSoon = expiresSoon, av_hasProof = hasProof,
          av_isFinalizable = isFinalizable env a, av_createdAt = al_createdAt a,
          av_payerCanSubmitProof = payerCanSubmitProof atts a now,
          av_receiverCanConfirm = receiverCanConfirm env a, av_adminCanFinalize = adminCanFinalize env a,
          av_allowedActions = allowedActions env atts (vp_actor p) a now,
          av_timeline = allocationTimeline a now,
          av_proofRequirements = (if extras then Some \<lparr>pq_bankRefRequired = True, pq_paidAtRequired = False,
              pq_attachmentRequired = True, pq_maxFiles = 5, pq_maxSizeMb = 10,
              pq_allowedMimeTypes = [''image/jpeg'', ''image/png'', ''application/pdf'']\<rparr> else None),
          av_instructions = (if extras then Some [''Pay the exact amount.'', ''Enter the transfer reference number.'',
              ''Upload a clear payment receipt.''] else None),
          av_riskFlags = riskFlags expired expiresSoon hasProof (al_status a)\<rparr>)"

section \<open>Details\<close>

text \<open>What the administrator, the payer and the receiver are shown: \<open>attachmentMap.get(allocation.id) ?? []\<close>.\<close>

definition vmFor ::
  "p2pEnv \<Rightarrow> vmActor \<Rightarrow> time option \<Rightarrow> (id \<rightharpoonup> allocationAttachment list) \<Rightarrow> db \<Rightarrow> p2pAllocation \<Rightarrow> allocationVm" where
  "vmFor env actor threshold attachmentMap s a =
     buildAllocationVm env \<lparr>vp_attachments = withDefault (attachmentMap (al_id a)) [], vp_destinationMode = full,
       vp_includePayerExtras = (actor = vmActor.PAYER), vp_expiresSoonThreshold = threshold, vp_actor = Some actor\<rparr> s a"

definition getAdminAllocationDetail :: "p2pEnv \<Rightarrow> id \<Rightarrow> db \<Rightarrow> err + allocationVm" where
  "getAdminAllocationDetail env i s =
     (case findAllocation i s of
        None \<Rightarrow> Inl (NotFoundException ''Allocation not found'')
      | Some a \<Rightarrow> Inr (vmFor env vmActor.ADMIN None (loadAllocationAttachments [al_id a] s) s a))"

definition compareAllocationsCreated :: "p2pAllocation \<Rightarrow> p2pAllocation \<Rightarrow> int" where
  "compareAllocationsCreated a b = al_createdAt a - al_createdAt b"

record withdrawalDetail = withdrawalVm +
  we_assignedAmount :: decimal
  we_remainingToAssign :: decimal
  we_allocations :: "allocationVm list"
  we_allowedActions :: "(string \<times> bool \<times> string option) list"
  we_timeline :: "timelineEntry list"
  we_riskFlags :: "string list"

definition getAdminWithdrawalDetail :: "p2pEnv \<Rightarrow> id \<Rightarrow> db \<Rightarrow> err + withdrawalDetail" where
  "getAdminWithdrawalDetail env i s =
     (case findWithdraw i s of
        None \<Rightarrow> Inl (NotFoundException ''Withdraw not found'')
      | Some w \<Rightarrow>
          (if wd_purpose w \<noteq> RequestPurpose.P2P then Inl (BadRequestException ''P2P_FORBIDDEN'')
           else let allocations = sortBy compareAllocationsCreated
                      (findMany (\<lambda>a. al_withdrawalId a = i) (p2pAllocations s));
                    attachmentMap = loadAllocationAttachments (map al_id allocations) s;
                    hasDispute = list_ex (\<lambda>a. al_status a = P2PAllocationStatus.DISPUTED) allocations;
                    vm = buildWithdrawalVm w hasDispute (list_ex (\<lambda>a. al_proofSubmittedAt a \<noteq> None) allocations)
                      (list_ex (\<lambda>a. al_status a = P2PAllocationStatus.ASSIGNED \<and>
                         allocationExpiresSoon a None (db_now s)) allocations) (db_now s);
                    remaining = subDec (Some (wd_amount w)) (Some (wd_assignedAmountTotal w));
                    can = (\<lambda>k ok reason. (k, ok, if ok then None else Some reason))
           in Inr (withdrawalVm.extend vm (withdrawalDetail.fields (wd_assignedAmountTotal w) remaining
                (map (vmFor env vmActor.ADMIN None attachmentMap s) allocations)
                [can ''ASSIGN'' (wc_canAssign (wv_actions vm)) ''Withdrawal cannot be assigned in current status.'',
                 can ''CANCEL'' (wc_canCancel (wv_actions vm)) ''Withdrawal cannot be cancelled in current status.'']
                [\<lparr>te_key = timelineKey.ASSIGNED, te_at = wd_createdAt w, te_byRole = SYSTEM\<rparr>]
                ((if hasDispute then [''HAS_DISPUTE''] else []) @ (if 0 < remaining then [''UNASSIGNED_REMAINING''] else []))))))"

record systemDestinationVm =
  sy_id :: id
  sy_title :: "string option"
  sy_bankName :: "string option"
  sy_ownerName :: "string option"
  sy_masked :: string
  sy_fullValue :: string
  sy_copyText :: string
  sy_isActive :: bool

definition listAdminSystemDestinations :: "destinationCrypto \<Rightarrow> db \<Rightarrow> systemDestinationVm list" where
  "listAdminSystemDestinations cr s =
     map (\<lambda>item. \<lparr>sy_id = cl_id item, sy_title = cl_title item, sy_bankName = cl_bankName item,
            sy_ownerName = cl_ownerName item, sy_masked = cl_fullValue item, sy_fullValue = cl_fullValue item,
            sy_copyText = withDefault (buildDestinationCopyText (cl_title item) (cl_bankName item) (cl_ownerName item)
              (Some (cl_fullValue item))) (cl_fullValue item),
            sy_isActive = cl_isActive item\<rparr>)
       (listSystemCollectionDestinations cr False s)"

section \<open>Counters\<close>

definition confirmedByMode :: "p2pEnv \<Rightarrow> p2pAllocation \<Rightarrow> bool" where
  "confirmedByMode env a =
     (case getConfirmationMode env of
        P2PConfirmationMode.RECEIVER \<Rightarrow> al_receiverConfirmedAt a \<noteq> None
      | P2PConfirmationMode.ADMIN \<Rightarrow> al_adminVerifiedAt a \<noteq> None
      | P2PConfirmationMode.RECEIVER_OR_ADMIN \<Rightarrow> al_receiverConfirmedAt a \<noteq> None \<or> al_adminVerifiedAt a \<noteq> None
      | P2PConfirmationMode.BOTH \<Rightarrow> al_receiverConfirmedAt a \<noteq> None \<and> al_adminVerifiedAt a \<noteq> None)"

definition buildFinalizableWhere :: "p2pEnv \<Rightarrow> time \<Rightarrow> p2pAllocation \<Rightarrow> bool" where
  "buildFinalizableWhere env now a =
     (al_status a \<notin> {P2PAllocationStatus.SETTLED, P2PAllocationStatus.CANCELLED, P2PAllocationStatus.EXPIRED,
        P2PAllocationStatus.DISPUTED} \<and> now < al_expiresAt a \<and> confirmedByMode env a)"

definition buildOpsFinalizableWhere :: "p2pEnv \<Rightarrow> p2pAllocation \<Rightarrow> bool" where
  "buildOpsFinalizableWhere env a =
     (al_status a \<notin> {P2PAllocationStatus.SETTLED, P2PAllocationStatus.DISPUTED} \<and> confirmedByMode env a)"

record opsSummary =
  os_withdrawalsWaitingAssignmentCount :: nat
  os_withdrawalsPartiallyAssignedCount :: nat
  os_allocationsExpiringSoonCount :: nat
  os_allocationsProofSubmittedCount :: nat
  os_allocationsDisputedCount :: nat
  os_allocationsFinalizableCount :: nat

definition getOpsSummary :: "p2pEnv \<Rightarrow> db \<Rightarrow> opsSummary" where
  "getOpsSummary env s =
     (let threshold = getExpiringSoonThreshold (Some 60) (db_now s);
          countW = (\<lambda>p. length (findMany p (withdrawRequests s)));
          countA = (\<lambda>p. length (findMany p (p2pAllocations s)))
      in \<lparr>os_withdrawalsWaitingAssignmentCount = countW (\<lambda>w. wd_purpose w = RequestPurpose.P2P \<and>
             wd_assignedAmountTotal w = 0 \<and> 0 < wd_amount w - wd_assignedAmountTotal w),
          os_withdrawalsPartiallyAssignedCount = countW (\<lambda>w. wd_purpose w = RequestPurpose.P2P \<and>
             0 < wd_assignedAmountTotal w \<and> wd_assignedAmountTotal w < wd_amount w),
          os_allocationsExpiringSoonCount = countA (\<lambda>a. al_status a = P2PAllocationStatus.ASSIGNED \<and>
             al_expiresAt a \<le> threshold),
          os_allocationsProofSubmittedCount = countA (\<lambda>a. al_status a = P2PAllocationStatus.PROOF_SUBMITTED),
          os_allocationsDisputedCount = countA (\<lambda>a. al_status a = P2PAllocationStatus.DISPUTED),
          os_allocationsFinalizableCount = countA (buildOpsFinalizableWhere env)\<rparr>)"

section \<open>Lemmas\<close>

text \<open>The attachments of one allocation, oldest first, whatever other allocations are loaded with it.\<close>

interpretation linkOrder: comparator compareLinks lk_createdAt
  by unfold_locales (simp add: compareLinks_def)

definition attachmentsOfAllocation :: "id \<Rightarrow> db \<Rightarrow> allocationAttachment list" where
  "attachmentsOfAllocation i s = map (toAttachment s) (sortBy compareLinks (findMany (\<lambda>l.
     lk_entityType l = AttachmentLinkEntityType.P2P_ALLOCATION \<and> lk_entityId l = i) (attachmentLinks s)))"

lemma fold_pushLink:
  "withDefault (fold (pushLink s) ls m i) [] = withDefault (m i) [] @ map (toAttachment s) (filter (\<lambda>l. lk_entityId l = i) ls)"
  by (induction ls arbitrary: m) (auto simp: pushLink_def)

lemma loaded_attachments:
  assumes "i \<in> set ids"
  shows "withDefault (loadAllocationAttachments ids s i) [] = attachmentsOfAllocation i s"
proof -
  have "filter (\<lambda>l. lk_entityId l = i) (sortBy compareLinks (filter (\<lambda>l. lk_entityType l = AttachmentLinkEntityType.P2P_ALLOCATION \<and>
          lk_entityId l \<in> set ids) ls)) =
      sortBy compareLinks (filter (\<lambda>l. lk_entityType l = AttachmentLinkEntityType.P2P_ALLOCATION \<and> lk_entityId l = i) ls)" for ls
    using assms by (auto simp: linkOrder.sortBy_key filter_sort intro!: arg_cong [where f = "sort_key lk_createdAt"] filter_cong)
  then show ?thesis using assms by (auto simp: loadAllocationAttachments_def fold_pushLink attachmentsOfAllocation_def)
qed

lemma vmFor_loaded:
  assumes "al_id a \<in> set ids"
  shows "vmFor env actor threshold (loadAllocationAttachments ids s) s a =
    vmFor env actor threshold (loadAllocationAttachments [al_id a] s) s a"
  by (simp add: vmFor_def loaded_attachments [OF assms] loaded_attachments [of _ "[al_id a]"])

lemma proofs_counted:
  "length (filter (\<lambda>x. xa_kind x = AttachmentLinkKind.P2P_PROOF) (attachmentsOfAllocation i s)) = length (proofLinks i s)"
proof -
  have "filter (\<lambda>l. lk_kind l = AttachmentLinkKind.P2P_PROOF) (sortBy compareLinks (filter (\<lambda>l.
      lk_entityType l = AttachmentLinkEntityType.P2P_ALLOCATION \<and> lk_entityId l = i) ls)) = sortBy compareLinks (filter (\<lambda>l.
      lk_entityType l = AttachmentLinkEntityType.P2P_ALLOCATION \<and> lk_entityId l = i \<and> lk_kind l = AttachmentLinkKind.P2P_PROOF) ls)" for ls
    by (auto simp: linkOrder.sortBy_key filter_sort intro!: arg_cong [where f = "sort_key lk_createdAt"] filter_cong)
  moreover have "(\<lambda>x. xa_kind x = AttachmentLinkKind.P2P_PROOF) \<circ> toAttachment s = (\<lambda>l. lk_kind l = AttachmentLinkKind.P2P_PROOF)"
    by (simp add: fun_eq_iff toAttachment_def)
  ultimately show ?thesis by (simp add: attachmentsOfAllocation_def filter_map proofLinks_def sortBy_rows)
qed

text \<open>An operation is accepted when it returns; a view offers an action when its row is enabled.\<close>

definition accepted :: "'a tx \<Rightarrow> bool" where
  "accepted m = (case m of Inl e \<Rightarrow> False | Inr r \<Rightarrow> True)"

definition offers :: "allocationVm \<Rightarrow> vmAction \<Rightarrow> bool" where
  "offers vm k = list_ex (\<lambda>r. ax_key r = k \<and> ax_enabled r) (av_allowedActions vm)"

lemma offers_vm:
  "offers (vmFor env actor threshold m s a) SUBMIT_PROOF \<longleftrightarrow>
     actor = vmActor.PAYER \<and> payerCanSubmitProof (withDefault (m (al_id a)) []) a (db_now s)"
  "offers (vmFor env actor threshold m s a) RECEIVER_CONFIRM \<longleftrightarrow> actor = vmActor.RECEIVER \<and> receiverCanConfirm env a"
  "offers (vmFor env actor threshold m s a) ADMIN_VERIFY \<longleftrightarrow> actor = vmActor.ADMIN \<and> adminCanVerify a"
  "offers (vmFor env actor threshold m s a) FINALIZE \<longleftrightarrow> actor = vmActor.ADMIN \<and> adminCanFinalize env a"
  "offers (vmFor env actor threshold m s a) CANCEL \<longleftrightarrow> actor = vmActor.ADMIN \<and> adminCanCancel a"
  "offers (vmFor env actor threshold m s a) DISPUTE \<longleftrightarrow> actor = vmActor.RECEIVER \<and> receiverCanConfirm env a"
  by (simp_all add: offers_def vmFor_def buildAllocationVm_def Let_def allowedActions_def actionFor_def)

text \<open>The updates that end the operations cannot fail.\<close>

lemma updateAllocation_accepted:
  assumes "findAllocation i s = Some a" and "\<And>x. al_id (f x) = al_id x"
  shows "accepted (updateAllocation i f s)"
proof -
  have "findAllocation i (modifyAllocation i f s) = map_option (\<lambda>x. (f x)\<lparr>al_updatedAt := db_now s\<rparr>) (findAllocation i s)"
    unfolding findAllocation_def modifyAllocation_def by (simp, rule find_replace) (simp add: assms(2))
  then show ?thesis by (simp add: updateAllocation_def Let_def accepted_def assms(1))
qed

lemma proofLinks_created: "\<exists>t. forE files (createProofLink i u) s = Inr ((), t)"
  by (induction files arbitrary: s) (auto simp: createProofLink_def)

definition shownTo :: "p2pEnv \<Rightarrow> time option \<Rightarrow> id list \<Rightarrow> db \<Rightarrow> p2pAllocation \<Rightarrow> vmActor \<Rightarrow> allocationVm" where
  "shownTo env threshold ids s a actor = vmFor env actor threshold (loadAllocationAttachments ids s) s a"

definition ownFiles :: "id list \<Rightarrow> id \<Rightarrow> db \<Rightarrow> bool" where
  "ownFiles files userId s \<longleftrightarrow> files \<noteq> [] \<and>
     length (findMany (\<lambda>f. fi_id f \<in> set files) (fileRows s)) = length files \<and>
     list_all (\<lambda>f. fi_id f \<in> set files \<longrightarrow> fi_uploadedById f = userId) (fileRows s)"

text \<open>What each operation refuses, apart from its party.\<close>

lemma submit_accepted:
  assumes l: "loadAllocation i s = Inr (a, w, d)" and f: "ownFiles (pf_fileIds dto) (dp_userId d) s"
  shows "accepted (submitPayerProof i (dp_userId d) dto s) \<longleftrightarrow> length (proofLinks i s) < 2 \<and>
    al_status a \<in> {P2PAllocationStatus.ASSIGNED, P2PAllocationStatus.PROOF_SUBMITTED} \<and>
    al_receiverConfirmedAt a = None \<and> al_adminVerifiedAt a = None \<and>
    \<not> (al_status a = P2PAllocationStatus.ASSIGNED \<and> allocationExpired a (db_now s))"
proof -
  obtain t where t: "forE (pf_fileIds dto) (createProofLink i (dp_userId d)) s = Inr ((), t)" using proofLinks_created by blast
  have "p2pAllocations t = p2pAllocations s" by (rule createProofLinks_allocations [OF t])
  then have found: "findAllocation i t = Some a" using loadAllocation_Inr(1) [OF l] by (simp add: findAllocation_def)
  have update: "accepted (updateAllocation i f t)" if "\<And>x. al_id (f x) = al_id x" for f
    by (rule updateAllocation_accepted [OF found that])
  have files: "pf_fileIds dto \<noteq> []" "length (filter (\<lambda>f. fi_id f \<in> set (pf_fileIds dto)) (fileRows s)) = length (pf_fileIds dto)"
    "\<not> list_ex (\<lambda>f. fi_uploadedById f \<noteq> dp_userId d) (filter (\<lambda>f. fi_id f \<in> set (pf_fileIds dto)) (fileRows s))"
    using f by (auto simp: ownFiles_def list_all_iff list_ex_iff)
  show ?thesis
    unfolding submitPayerProof_def l Let_def using files update
    by (auto simp: t bindE_def accepted_def [of "Inl _"])
qed

lemma confirm_accepted:
  assumes l: "loadAllocation i s = Inr (a, w, d)"
  shows "accepted (receiverConfirm env i (wd_userId w) confirmed reason s) \<longleftrightarrow>
    al_status a \<in> {P2PAllocationStatus.PROOF_SUBMITTED, P2PAllocationStatus.ADMIN_VERIFIED} \<and>
    getConfirmationMode env \<noteq> P2PConfirmationMode.ADMIN"
  using updateAllocation_accepted [OF loadAllocation_Inr(1) [OF l]]
  unfolding receiverConfirm_def l by (auto simp: accepted_def [of "Inl _"])

lemma verify_accepted:
  assumes l: "loadAllocation i s = Inr (a, w, d)"
  shows "accepted (adminVerify i adminId approved nt s) \<longleftrightarrow> adminCanVerify a"
  using updateAllocation_accepted [OF loadAllocation_Inr(1) [OF l]]
  unfolding adminVerify_def l by (auto simp: accepted_def [of "Inl _"] adminCanVerify_def)

lemma finalize_accepted:
  assumes l: "loadAllocation i s = Inr (a, w, d)" and "accepted (finalizeAllocation env i adminId s)"
  shows "al_status a = P2PAllocationStatus.SETTLED \<or> adminCanFinalize env a"
  using assms(2) unfolding finalizeAllocation_def l
  by (auto simp: accepted_def [of "Inl _"] adminCanFinalize_def isFinalizable_def split: if_splits option.splits)

text \<open>
  An allocation whose money is there: its hold is open on the withdrawer's wallet, nothing is posted for it yet, and
  neither of its parties is the house. The transfer of such an allocation cannot fail.
\<close>

definition funded :: "p2pAllocation \<Rightarrow> withdrawRequest \<Rightarrow> depositRequest \<Rightarrow> db \<Rightarrow> bool" where
  "funded a w d s \<longleftrightarrow> ledger_ok s \<and> 0 < al_amount a \<and> wd_userId w \<noteq> HOUSE_USER_ID \<and> dp_userId d \<noteq> HOUSE_USER_ID \<and>
     heldAs TxRefType.WITHDRAW_ALLOCATION (al_id a)
       (Some (AccountReservationStatus.RESERVED, al_amount a, wd_userId w, IRR_INSTRUMENT_CODE)) s \<and>
     nothingPosted TxRefType.WITHDRAW_ALLOCATION (al_id a) s"

lemma getOrCreate_keeps_row:
  assumes "getOrCreateAccount u c s = Inr (a, t)" and "u \<noteq> HOUSE_USER_ID" and "findAccount k s = Some b"
  shows "findAccount k t = Some b"
  using assms by (auto simp: getOrCreateAccount_def createAccount_def findAccount_def find_append bumpId_def Let_def
      split: option.splits)

lemma wallet_row:
  assumes "ledger_ok s" and "walletId u c s = Some k"
  obtains b where "findAccount k s = Some b"
  using assms(2) findAccount_exists [of k s]
  by (auto simp: walletId_def findAccountOf_def split: option.splits if_splits dest!: find_SomeD)

lemma transfer_succeeds:
  assumes f: "funded a w d s"
  obtains x0 s1 y0 s2 wa s3 pa s4 debit s5 credit s6 where
    "consumeFunds (wd_userId w) IRR_INSTRUMENT_CODE TxRefType.WITHDRAW_ALLOCATION (al_id a) s = Inr (x0, s1)"
    "consumeLimit TxRefType.WITHDRAW_ALLOCATION (al_id a) s1 = Inr (y0, s2)"
    "getOrCreateAccount (wd_userId w) IRR_INSTRUMENT_CODE s2 = Inr (wa, s3)"
    "getOrCreateAccount (dp_userId d) IRR_INSTRUMENT_CODE s3 = Inr (pa, s4)"
    "applyTransaction (ac_id wa) (- al_amount a) AccountTxType.REMITTANCE TxRefType.WITHDRAW_ALLOCATION (Some (al_id a)) cb None s4 = Inr (debit, s5)"
    "applyTransaction (ac_id pa) (al_amount a) AccountTxType.REMITTANCE TxRefType.WITHDRAW_ALLOCATION (Some (al_id a)) cb None s5 = Inr (credit, s6)"
proof -
  let ?rt = "TxRefType.WITHDRAW_ALLOCATION" and ?i = "al_id a"
  have ok: "ledger_ok s" and pos: "0 < al_amount a" and u: "wd_userId w \<noteq> HOUSE_USER_ID" "dp_userId d \<noteq> HOUSE_USER_ID"
    and h: "heldAs ?rt ?i (Some (AccountReservationStatus.RESERVED, al_amount a, wd_userId w, IRR_INSTRUMENT_CODE)) s"
    and none: "nothingPosted ?rt ?i s" using f by (simp_all add: funded_def)
  obtain x0 s1 where con: "consumeFunds (wd_userId w) IRR_INSTRUMENT_CODE ?rt ?i s = Inr (x0, s1)"
    using open_hold_closes(1) [OF ok u(1) h] by blast
  obtain b and v :: accountReservation where b: "findAccount (ac_id b) s1 = Some b"
    "walletId (wd_userId w) IRR_INSTRUMENT_CODE s1 = Some (ac_id b)"
    "ac_blockedBalance b + al_amount a + ac_minBalance b \<le> ac_balance b" "ledger_ok s1"
    by (rule closing_found [OF ok h con])
  obtain s2 where lim: "consumeLimit ?rt ?i s1 = Inr ((), s2)" using consumeLimit_total by blast
  note side = holdsE_D [OF side_consumeLimit lim]
  have ok2: "ledger_ok s2" by (rule sameLedger_ok [OF side_ledger [OF side] b(4)])
  have b2: "findAccount (ac_id b) s2 = Some b" using b(1) side_sel [OF side] by (simp add: findAccount_def)
  have w2: "walletId (wd_userId w) IRR_INSTRUMENT_CODE s2 = Some (ac_id b)"
    using b(2) sameLedger_sums(3) [OF side_ledger [OF side]] by simp
  then have ins: "findInstrument IRR_INSTRUMENT_CODE s2 \<noteq> None" by (auto simp: walletId_def split: option.splits)
  obtain wa s3 where g3: "getOrCreateAccount (wd_userId w) IRR_INSTRUMENT_CODE s2 = Inr (wa, s3)"
    using getOrCreateAccount_succeeds [OF u(1) ins] by blast
  note e3 = getOrCreateAccount_effect [OF g3]
  have wa: "ac_id wa = ac_id b" using e3(3) walletFrame_walletId [OF e3(6) w2] by simp
  have "findInstrument IRR_INSTRUMENT_CODE s3 \<noteq> None" using e3(3) by (auto simp: walletId_def split: option.splits)
  then obtain pa s4 where g4: "getOrCreateAccount (dp_userId d) IRR_INSTRUMENT_CODE s3 = Inr (pa, s4)"
    using getOrCreateAccount_succeeds [OF u(2)] by blast
  note e4 = getOrCreateAccount_effect [OF g4]
  have b4: "findAccount (ac_id wa) s4 = Some b"
    unfolding wa by (rule getOrCreate_keeps_row [OF g4 u(2) getOrCreate_keeps_row [OF g3 u(1) b2]])
  have ok4: "ledger_ok s4" using holdsE_D [OF ledger.getAcc_inv [OF holdsE_D [OF ledger.getAcc_inv [OF ok2] g3]] g4] .
  have txs: "accountTxs s4 = accountTxs s"
    using closing_effect [OF ok disjI1 [OF con]] e3(4) e4(4) side_sel(8) [OF side] by auto
  have free: "tx_entrySide y \<noteq> z" if "y \<in> set (accountTxs s4)" "tx_refType y = ?rt" "tx_refId y = Some ?i" for y z
    using that none by (auto simp: txs nothingPosted_def)
  have "ac_blockedBalance b + ac_minBalance b \<le> ac_balance b + - al_amount a" using b(3) by simp
  then obtain x b' s5 where p5: "applyTransaction (ac_id wa) (- al_amount a) AccountTxType.REMITTANCE ?rt (Some ?i) cb None s4 = Inr ((x, b'), s5)"
    "tx_entrySide x = entrySideOf (- al_amount a)"
    using applyTransaction_succeeds [OF b4 _ free, where ty = AccountTxType.REMITTANCE and cb = cb and d = "- al_amount a"] by blast
  note e5 = applyTransaction_effect [OF p5(1)]
  have ok5: "ledger_ok s5" by (rule holdsE_D [OF ledger.post_inv [OF ok4] p5(1)])
  obtain q where q: "findAccount (ac_id pa) s5 = Some q" by (rule wallet_row [OF ok5 walletFrame_walletId [OF e5(8) e4(3)]])
  have "ac_blockedBalance q + ac_minBalance q \<le> ac_balance q" using account_found [OF ok5 q] unfolding account_ok_def by blast
  then have le: "ac_blockedBalance q + ac_minBalance q \<le> ac_balance q + al_amount a" using pos by simp
  have free5: "tx_entrySide y \<noteq> entrySideOf (al_amount a)"
    if "y \<in> set (accountTxs s5)" "tx_refType y = ?rt" "tx_refId y = Some ?i" "tx_accountId y = ac_id pa" for y
    using that free p5(2) pos by (auto simp: e5(6) entrySideOf_def)
  obtain y q' s6 where p6: "applyTransaction (ac_id pa) (al_amount a) AccountTxType.REMITTANCE ?rt (Some ?i) cb None s5 = Inr ((y, q'), s6)"
    using applyTransaction_succeeds [OF q le free5, where ty = AccountTxType.REMITTANCE and cb = cb] by blast
  show ?thesis by (rule that [OF con lim g3 g4 p5(1) p6])
qed

lemma finalize_funded:
  assumes l: "loadAllocation i s = Inr (a, w, d)" and f: "funded a w d s" and c: "adminCanFinalize env a"
  shows "accepted (finalizeAllocation env i adminId s) \<longleftrightarrow>
    al_status a \<notin> {P2PAllocationStatus.CANCELLED, P2PAllocationStatus.EXPIRED} \<and>
    \<not> (al_status a = P2PAllocationStatus.ASSIGNED \<and> allocationExpired a (db_now s))"
proof -
  have fin: "ensureFinalizable env a = None" "al_status a \<noteq> P2PAllocationStatus.SETTLED" "al_status a \<noteq> P2PAllocationStatus.DISPUTED"
    using c by (auto simp: adminCanFinalize_def isFinalizable_def ensureFinalizable_def Let_def)
  obtain x0 s1 y0 s2 wa s3 pa s4 debit s5 credit s6 where
    t: "consumeFunds (wd_userId w) IRR_INSTRUMENT_CODE TxRefType.WITHDRAW_ALLOCATION (al_id a) s = Inr (x0, s1)"
    "consumeLimit TxRefType.WITHDRAW_ALLOCATION (al_id a) s1 = Inr (y0, s2)"
    "getOrCreateAccount (wd_userId w) IRR_INSTRUMENT_CODE s2 = Inr (wa, s3)"
    "getOrCreateAccount (dp_userId d) IRR_INSTRUMENT_CODE s3 = Inr (pa, s4)"
    "applyTransaction (ac_id wa) (- al_amount a) AccountTxType.REMITTANCE TxRefType.WITHDRAW_ALLOCATION (Some (al_id a)) (Some adminId) None s4 = Inr (debit, s5)"
    "applyTransaction (ac_id pa) (al_amount a) AccountTxType.REMITTANCE TxRefType.WITHDRAW_ALLOCATION (Some (al_id a)) (Some adminId) None s5 = Inr (credit, s6)"
    by (rule transfer_succeeds [OF f])
  have "still s s6"
    using still_steps(4) [OF t(1)] still_side [OF holdsE_D [OF side_consumeLimit t(2)]] still_steps(1) [OF t(3)]
      still_steps(1) [OF t(4)] still_steps(5) [OF t(5)] still_steps(5) [OF t(6)] by (blast intro: still_trans)
  then have rows: "p2pAllocations s6 = p2pAllocations s" by (simp add: still_def sameRows_sel(7))
  have found: "findAllocation (al_id a) (modifyAllocation (al_id a) f s6) \<noteq> None" if "\<And>x. al_id (f x) = al_id x" for f
  proof -
    have "findAllocation (al_id a) (modifyAllocation (al_id a) f s6) =
        map_option (\<lambda>x. (f x)\<lparr>al_updatedAt := db_now s6\<rparr>) (findAllocation (al_id a) s)"
      unfolding findAllocation_def modifyAllocation_def rows [symmetric] by (simp, rule find_replace) (simp add: that)
    then show ?thesis using loadAllocation_Inr(1,2) [OF l] by simp
  qed
  have "findAllocation (al_id a) (modifyAllocation (al_id a) (\<lambda>x. x\<lparr>al_status := P2PAllocationStatus.SETTLED,
      al_settledAt := Some (db_now s6), al_withdrawerAccountTxId := Some (tx_id (fst debit)),
      al_payerAccountTxId := Some (tx_id (fst credit))\<rparr>) s6) \<noteq> None" by (rule found) simp
  then show ?thesis
    using fin t unfolding finalizeAllocation_def l
    by (auto simp: accepted_def [of "Inl _"] accepted_def [of "Inr _"] Let_def bindE_def findAllocation_def modifyWithdraw_def modifyDeposit_def
        split: option.split)
qed

lemma cancel_accepted:
  assumes l: "loadAllocation i s = Inr (a, w, d)"
  shows "(\<exists>b t. cancelAllocation i s = Inr (b, t) \<and> al_status b = P2PAllocationStatus.CANCELLED) \<longleftrightarrow>
    al_status a \<notin> {P2PAllocationStatus.SETTLED, P2PAllocationStatus.EXPIRED}"
proof (cases "al_status a \<in> {P2PAllocationStatus.CANCELLED, P2PAllocationStatus.EXPIRED, P2PAllocationStatus.SETTLED}")
  case True
  then show ?thesis by (auto simp: cancelAllocation_def l)
next
  case False
  note a = loadAllocation_Inr [OF l]
  obtain t where t: "giveBack P2PAllocationStatus.CANCELLED a w d s = Inr ((), t)"
    using mergeReservationBack_total [of a s] by (auto simp: giveBack_def Let_def)
  obtain s1 where s1: "p2pAllocations s1 = p2pAllocations s"
    "p2pAllocations t = p2pAllocations (modifyAllocation (al_id a) (\<lambda>x. x\<lparr>al_status := P2PAllocationStatus.CANCELLED\<rparr>) s1)"
    by (rule giveBack_allocations [OF t])
  have "findAllocation i t = map_option (\<lambda>x. x\<lparr>al_status := P2PAllocationStatus.CANCELLED, al_updatedAt := db_now s1\<rparr>) (findAllocation i s)"
    unfolding findAllocation_def s1(2) modifyAllocation_def a(2) s1(1) [symmetric] by (simp, rule find_replace) simp
  then have "cancelAllocation i s = Inr (a\<lparr>al_status := P2PAllocationStatus.CANCELLED, al_updatedAt := db_now s1\<rparr>, t)"
    using False a(1,2) by (simp add: cancelAllocation_def l t)
  then show ?thesis using False by auto
qed

section \<open>Properties\<close>


definition assignedForty :: p2pAllocation where
  "assignedForty = \<lparr>al_id = ''a'', al_createdAt = 0, al_updatedAt = 0, al_withdrawalId = ''w'', al_depositId = ''d'',
     al_amount = 40, al_status = P2PAllocationStatus.ASSIGNED, al_paymentCode = ''P'', al_expiresAt = 100000,
     al_destinationSnapshot = \<lparr>ds_type = PaymentDestinationType.IBAN, ds_value = Some ''IR1'', ds_maskedValue = None,
       ds_bankName = None, ds_ownerName = None, ds_title = None\<rparr>, al_paymentMethod = PaymentMethod.UNKNOWN,
     al_payerBankRef = None, al_proofSubmittedAt = None, al_payerPaidAt = None, al_receiverConfirmedAt = None,
     al_receiverDisputedAt = None, al_receiverDisputeReason = None, al_adminVerifiedAt = None, al_adminVerifierId = None,
     al_adminNote = None, al_settledAt = None, al_withdrawerAccountTxId = None, al_payerAccountTxId = None\<rparr>"

definition assignedDb :: db where
  "assignedDb = offerDb\<lparr>p2pAllocations := [assignedForty]\<rparr>"

text \<open>An allocation of 60 confirmed by the receiver, with its amount held on the wallet of \<open>ali\<close>.\<close>

definition confirmedSixty :: p2pAllocation where
  "confirmedSixty = assignedForty\<lparr>al_status := P2PAllocationStatus.RECEIVER_CONFIRMED, al_amount := 60\<rparr>"

definition confirmedDb :: db where
  "confirmedDb = offerDb\<lparr>p2pAllocations := [confirmedSixty],
     accountReservations := [\<lparr>ar_id = unaryId 2, ar_accountId = unaryId 0, ar_amount = 60, ar_refType = TxRefType.WITHDRAW_ALLOCATION,
       ar_refId = ''a'', ar_status = AccountReservationStatus.RESERVED\<rparr>]\<rparr>"

lemma confirmed_funded: "funded confirmedSixty aliWithdrawal saraOffer confirmedDb"
proof -
  have "ledger_ok confirmedDb"
    using inj_unaryId
    by (simp add: inj_eq [OF inj_unaryId] ledger_ok_def keys_ok_def account_ok_def held_def posted_def confirmedDb_def offerDb_def aliDb_def
        emptyDb_def aliAccount_def aliTx_def acctKey_def resvKey_def)
  moreover have "heldAs TxRefType.WITHDRAW_ALLOCATION ''a'' (Some (AccountReservationStatus.RESERVED, 60, ''ali'', IRR_INSTRUMENT_CODE)) confirmedDb"
    by (simp add: reservationsUnder_def walletId_def findInstrument_def findAccountOf_def confirmedDb_def offerDb_def aliDb_def emptyDb_def irr_def
        IRR_INSTRUMENT_CODE_def aliAccount_def)
  moreover have "nothingPosted TxRefType.WITHDRAW_ALLOCATION ''a'' confirmedDb"
    by (simp add: nothingPosted_def confirmedDb_def offerDb_def aliDb_def aliTx_def)
  moreover have "al_id confirmedSixty = ''a''" "al_amount confirmedSixty = 60" "wd_userId aliWithdrawal = ''ali''" "dp_userId saraOffer = ''sara''"
    by (simp_all add: confirmedSixty_def assignedForty_def aliWithdrawal_def saraOffer_def)
  ultimately show ?thesis by (simp add: funded_def HOUSE_USER_ID_def del: heldAs.simps)
qed


end
