(* ===== verification/PolicyAdmin.thy ===== *)
theory PolicyAdmin
  imports Policy Outbox
begin

text \<open>
  The administration of \<open>modules/policy\<close>: the rules (\<open>admin-policy-rules.controller.ts\<close>), the limits of a
  user for a product (\<open>user-product-limits.admin.controller.ts\<close>), the customer groups
  (\<open>customer-groups.admin.controller.ts\<close>) and the effective policy shown of a user. These are the writers
  of the rules that \<open>Policy\<close> resolves; every one of them writes the audit log, except \<open>apply\<close>.
\<close>

section \<open>Requests\<close>

text \<open>
  A limit arrives as text, which is a number or is not. A field of an update is \<open>None\<close> when the request
  does not have it and \<open>Some None\<close> when it is null.
\<close>

datatype limitText = Numeric decimal | NotNumeric

record ruleDto =
  rd_scopeType :: PolicyScopeType
  rd_scopeUserId :: "id option"
  rd_scopeGroupId :: "id option"
  rd_action :: PolicyAction
  rd_metric :: PolicyMetric
  rd_period :: PolicyPeriod
  rd_limit :: limitText
  rd_instrumentId :: "id option"
  rd_instrumentType :: "InstrumentType option"
  rd_productId :: "id option"
  rd_minKycLevel :: "KycLevel option"
  rd_enabled :: "bool option"
  rd_priority :: "int option"
  rd_note :: "string option option"

record ruleUpdate =
  ru_scopeType :: "PolicyScopeType option"
  ru_scopeUserId :: "id option option"
  ru_scopeGroupId :: "id option option"
  ru_action :: "PolicyAction option"
  ru_metric :: "PolicyMetric option"
  ru_period :: "PolicyPeriod option"
  ru_limit :: "limitText option option"
  ru_instrumentId :: "id option option"
  ru_instrumentType :: "InstrumentType option option"
  ru_productId :: "id option option"
  ru_minKycLevel :: "KycLevel option"
  ru_enabled :: "bool option"
  ru_priority :: "int option"
  ru_note :: "string option option"

section \<open>The audit log and the checks of a rule\<close>

definition writeAudit ::
  "PolicyAuditEntityType \<Rightarrow> id \<Rightarrow> id option \<Rightarrow> auditJson option \<Rightarrow> auditJson option \<Rightarrow> string option \<Rightarrow> db \<Rightarrow> unit tx" where
  "writeAudit entityType entityId actorId beforeJson afterJson reason s =
     Inr ((), (bumpId s)\<lparr>policyAuditLogs := policyAuditLogs s @
       [\<lparr>pa_id = freshId s, pa_createdAt = db_now s, pa_entityType = entityType, pa_entityId = entityId,
         pa_actorId = actorId, pa_beforeJson = beforeJson, pa_afterJson = afterJson, pa_reason = reason\<rparr>]\<rparr>)"

definition findRule :: "id \<Rightarrow> db \<Rightarrow> policyRule option" where
  "findRule i s = findFirst (\<lambda>r. pr_id r = i) (policyRules s)"

definition validateScope :: "PolicyScopeType \<Rightarrow> id option \<Rightarrow> id option \<Rightarrow> err option" where
  "validateScope scopeType userId groupId =
     (if scopeType = PolicyScopeType.USER \<and> \<not> truthy userId then Some (BadRequestException ''INVALID_SCOPE_FIELDS'')
      else if scopeType = PolicyScopeType.GROUP \<and> \<not> truthy groupId then Some (BadRequestException ''INVALID_SCOPE_FIELDS'')
      else if scopeType = PolicyScopeType.GLOBAL \<and> (truthy userId \<or> truthy groupId)
        then Some (BadRequestException ''INVALID_SCOPE_FIELDS'')
      else None)"

definition validateSelector :: "selector \<Rightarrow> err option" where
  "validateSelector sel =
     (let setCount = length (filter id [truthy (sel_productId sel), truthy (sel_instrumentId sel), sel_instrumentType sel \<noteq> None])
      in if 1 < setCount then Some (BadRequestException ''INVALID_SELECTOR_COMBINATION'') else None)"

text \<open>A limit that is missing or null is not checked.\<close>

definition validateValue :: "limitText option \<Rightarrow> err option" where
  "validateValue limit =
     (case limit of None \<Rightarrow> None
      | Some NotNumeric \<Rightarrow> Some (BadRequestException ''INVALID_VALUE'')
      | Some (Numeric x) \<Rightarrow> if x \<le> 0 then Some (BadRequestException ''INVALID_VALUE'') else None)"

fun decText :: "limitText option \<Rightarrow> decimal" where
  "decText (Some (Numeric x)) = x"
| "decText _ = dec None"

definition firstError :: "err option list \<Rightarrow> err option" where
  "firstError es = fold (\<lambda>e acc. orElse acc e) es None"

text \<open>The foreign keys of a rule.\<close>

definition ruleReferences :: "policyRule \<Rightarrow> db \<Rightarrow> bool" where
  "ruleReferences r s \<longleftrightarrow>
     (\<forall>u\<in>set_option (pr_scopeUserId r). u \<in> us_id ` set (users s)) \<and>
     (\<forall>g\<in>set_option (pr_scopeGroupId r). g \<in> cg_id ` set (customerGroups s)) \<and>
     (\<forall>p\<in>set_option (pr_productId r). p \<in> mp_id ` set (marketProducts s)) \<and>
     (\<forall>i\<in>set_option (pr_instrumentId r). i \<in> in_id ` set (instruments s))"

definition insertRule :: "policyRule \<Rightarrow> db \<Rightarrow> policyRule tx" where
  "insertRule r s =
     (if \<not> ruleReferences r s then Inl (ForeignKeyViolation ''PolicyRule'')
      else Inr (r, (bumpId s)\<lparr>policyRules := policyRules s @ [r]\<rparr>))"

definition storeRule :: "policyRule \<Rightarrow> db \<Rightarrow> policyRule tx" where
  "storeRule r s =
     (let r = r\<lparr>pr_updatedAt := db_now s\<rparr>
      in if \<not> ruleReferences r s then Inl (ForeignKeyViolation ''PolicyRule'')
         else Inr (r, s\<lparr>policyRules := updateRows (\<lambda>x. pr_id x = pr_id r) (\<lambda>_. r) (policyRules s)\<rparr>))"

section \<open>AdminPolicyRulesController\<close>

definition selectorOfDto :: "ruleDto \<Rightarrow> selector" where
  "selectorOfDto dto = normalizeSelector
     \<lparr>sel_productId = rd_productId dto, sel_instrumentId = rd_instrumentId dto, sel_instrumentType = rd_instrumentType dto\<rparr>"

definition checkRuleDto :: "ruleDto \<Rightarrow> err option" where
  "checkRuleDto dto = firstError
     [validateScope (rd_scopeType dto) (rd_scopeUserId dto) (rd_scopeGroupId dto),
      validateSelector (selectorOfDto dto),
      validateValue (Some (rd_limit dto))]"

definition ruleOfDto :: "ruleDto \<Rightarrow> db \<Rightarrow> policyRule" where
  "ruleOfDto dto s =
     (let sel = selectorOfDto dto
      in \<lparr>pr_id = freshId s, pr_createdAt = db_now s, pr_updatedAt = db_now s, pr_scopeType = rd_scopeType dto,
          pr_scopeUserId = (if rd_scopeType dto = PolicyScopeType.USER then rd_scopeUserId dto else None),
          pr_scopeGroupId = (if rd_scopeType dto = PolicyScopeType.GROUP then rd_scopeGroupId dto else None),
          pr_action = rd_action dto, pr_metric = rd_metric dto, pr_period = rd_period dto,
          pr_limit = decText (Some (rd_limit dto)), pr_minKycLevel = withDefault (rd_minKycLevel dto) KycLevel.NONE,
          pr_instrumentId = sel_instrumentId sel, pr_instrumentType = sel_instrumentType sel,
          pr_productId = sel_productId sel, pr_enabled = withDefault (rd_enabled dto) True,
          pr_priority = withDefault (rd_priority dto) 100, pr_note = Option.bind (rd_note dto) id\<rparr>)"

definition createRule :: "id \<Rightarrow> ruleDto \<Rightarrow> db \<Rightarrow> policyRule tx" where
  "createRule actorId dto s =
     (case checkRuleDto dto of Some e \<Rightarrow> Inl e
      | None \<Rightarrow>
          bindE (insertRule (ruleOfDto dto s) s) (\<lambda>created s.
          bindE (writeAudit PolicyAuditEntityType.POLICY_RULE (pr_id created) (Some actorId) None (Some (AuditRule created)) None s)
            (\<lambda>_ s. Inr (created, s))))"

definition updateRule :: "id \<Rightarrow> id \<Rightarrow> ruleUpdate \<Rightarrow> db \<Rightarrow> policyRule tx" where
  "updateRule actorId i dto s =
     (case findRule i s of
        None \<Rightarrow> Inl (NotFoundException ''POLICY_RULE_NOT_FOUND'')
      | Some existing \<Rightarrow>
          (let scopeType = withDefault (ru_scopeType dto) (pr_scopeType existing);
               scopeUserId = withDefault (ru_scopeUserId dto) (pr_scopeUserId existing);
               scopeGroupId = withDefault (ru_scopeGroupId dto) (pr_scopeGroupId existing);
               sel = normalizeSelector
                 \<lparr>sel_productId = withDefault (ru_productId dto) (pr_productId existing),
                  sel_instrumentId = withDefault (ru_instrumentId dto) (pr_instrumentId existing),
                  sel_instrumentType = withDefault (ru_instrumentType dto) (pr_instrumentType existing)\<rparr>;
               limit = withDefault (ru_limit dto) (Some (Numeric (pr_limit existing)))
           in case firstError [validateScope scopeType scopeUserId scopeGroupId, validateSelector sel, validateValue limit] of
                Some e \<Rightarrow> Inl e
              | None \<Rightarrow>
                  bindE (storeRule
                    (existing\<lparr>pr_scopeType := scopeType,
                       pr_scopeUserId := (if scopeType = PolicyScopeType.USER then scopeUserId else None),
                       pr_scopeGroupId := (if scopeType = PolicyScopeType.GROUP then scopeGroupId else None),
                       pr_action := withDefault (ru_action dto) (pr_action existing),
                       pr_metric := withDefault (ru_metric dto) (pr_metric existing),
                       pr_period := withDefault (ru_period dto) (pr_period existing),
                       pr_limit := decText limit, pr_instrumentId := sel_instrumentId sel,
                       pr_instrumentType := sel_instrumentType sel, pr_productId := sel_productId sel,
                       pr_minKycLevel := withDefault (ru_minKycLevel dto) (pr_minKycLevel existing),
                       pr_enabled := withDefault (ru_enabled dto) (pr_enabled existing),
                       pr_priority := withDefault (ru_priority dto) (pr_priority existing),
                       pr_note := withDefault (ru_note dto) (pr_note existing)\<rparr>) s) (\<lambda>updated s.
                  bindE (writeAudit PolicyAuditEntityType.POLICY_RULE i (Some actorId) (Some (AuditRule existing))
                           (Some (AuditRule updated)) None s) (\<lambda>_ s. Inr (updated, s)))))"

definition deleteRule :: "id \<Rightarrow> id \<Rightarrow> db \<Rightarrow> unit tx" where
  "deleteRule actorId i s =
     (let existing = findRule i s
      in writeAudit PolicyAuditEntityType.POLICY_RULE i (Some actorId) (map_option AuditRule existing) None None
           (s\<lparr>policyRules := deleteRows (\<lambda>r. pr_id r = i) (policyRules s)\<rparr>))"

text \<open>The rule an item of a bulk request replaces: the first one of the same scope, request and selector.\<close>

definition sameRule :: "ruleDto \<Rightarrow> policyRule \<Rightarrow> bool" where
  "sameRule item r \<longleftrightarrow>
     pr_scopeType r = rd_scopeType item \<and>
     pr_scopeUserId r = (if rd_scopeType item = PolicyScopeType.USER then rd_scopeUserId item else None) \<and>
     pr_scopeGroupId r = (if rd_scopeType item = PolicyScopeType.GROUP then rd_scopeGroupId item else None) \<and>
     pr_action r = rd_action item \<and> pr_metric r = rd_metric item \<and> pr_period r = rd_period item \<and>
     (let sel = selectorOfDto item
      in if truthy (sel_productId sel) then pr_productId r = sel_productId sel
         else if truthy (sel_instrumentId sel) then pr_instrumentId r = sel_instrumentId sel
         else if sel_instrumentType sel \<noteq> None then pr_instrumentType r = sel_instrumentType sel
         else pr_productId r = None \<and> pr_instrumentId r = None \<and> pr_instrumentType r = None)"

record bulkResult =
  br_createdIds :: "id list"
  br_updatedIds :: "id list"

definition upsertRule :: "id \<Rightarrow> ruleDto \<Rightarrow> bulkResult \<Rightarrow> db \<Rightarrow> bulkResult tx" where
  "upsertRule actorId item res s =
     (case checkRuleDto item of Some e \<Rightarrow> Inl e
      | None \<Rightarrow>
          (case findFirst (sameRule item) (policyRules s) of
             Some existing \<Rightarrow>
               (let sel = selectorOfDto item
                in bindE (storeRule
                     (existing\<lparr>pr_limit := decText (Some (rd_limit item)),
                        pr_minKycLevel := withDefault (rd_minKycLevel item) (pr_minKycLevel existing),
                        pr_enabled := withDefault (rd_enabled item) True,
                        pr_priority := withDefault (rd_priority item) 100,
                        pr_note := withDefault (rd_note item) (pr_note existing),
                        pr_productId := sel_productId sel, pr_instrumentId := sel_instrumentId sel,
                        pr_instrumentType := sel_instrumentType sel\<rparr>) s) (\<lambda>updatedRule s.
                   bindE (writeAudit PolicyAuditEntityType.POLICY_RULE (pr_id updatedRule) (Some actorId)
                            (Some (AuditRule existing)) (Some (AuditRule updatedRule)) None s) (\<lambda>_ s.
                   Inr (res\<lparr>br_updatedIds := br_updatedIds res @ [pr_id updatedRule]\<rparr>, s))))
           | None \<Rightarrow>
               bindE (insertRule (ruleOfDto item s) s) (\<lambda>createdRule s.
               bindE (writeAudit PolicyAuditEntityType.POLICY_RULE (pr_id createdRule) (Some actorId) None
                        (Some (AuditRule createdRule)) None s) (\<lambda>_ s.
               Inr (res\<lparr>br_createdIds := br_createdIds res @ [pr_id createdRule]\<rparr>, s)))))"

definition bulkUpsert :: "id \<Rightarrow> ruleDto list \<Rightarrow> db \<Rightarrow> bulkResult tx" where
  "bulkUpsert actorId items s = foldE items (upsertRule actorId) \<lparr>br_createdIds = [], br_updatedIds = []\<rparr> s"

section \<open>UserProductLimitsAdminController\<close>

datatype cellChange = SET "decimal option" | CLEAR

record productChange =
  pg_productId :: id
  pg_buyDaily :: "cellChange option"
  pg_buyMonthly :: "cellChange option"
  pg_sellDaily :: "cellChange option"
  pg_sellMonthly :: "cellChange option"

record applyResult =
  ay_created :: nat
  ay_updated :: nat
  ay_deleted :: nat

definition productSelector :: "marketProduct \<Rightarrow> selector" where
  "productSelector product = normalizeSelector
     \<lparr>sel_productId = Some (mp_id product), sel_instrumentId = None, sel_instrumentType = None\<rparr>"

definition userProductRule :: "id \<Rightarrow> marketProduct \<Rightarrow> PolicyAction \<Rightarrow> PolicyPeriod \<Rightarrow> policyRule \<Rightarrow> bool" where
  "userProductRule userId product action period r \<longleftrightarrow>
     pr_scopeType r = PolicyScopeType.USER \<and> pr_scopeUserId r = Some userId \<and> pr_productId r = Some (mp_id product) \<and>
     pr_action r = action \<and> pr_metric r = mp_unitType product \<and> pr_period r = period"

text \<open>The rule a cell is stored in: its selector is the normalised one of the product.\<close>

definition userCell :: "id \<Rightarrow> marketProduct \<Rightarrow> PolicyAction \<Rightarrow> PolicyPeriod \<Rightarrow> policyRule \<Rightarrow> bool" where
  "userCell userId product action period r \<longleftrightarrow>
     (let sel = productSelector product
      in pr_scopeType r = PolicyScopeType.USER \<and> pr_scopeUserId r = Some userId \<and>
         pr_productId r = sel_productId sel \<and> pr_instrumentId r = sel_instrumentId sel \<and>
         pr_instrumentType r = sel_instrumentType sel \<and>
         pr_action r = action \<and> pr_metric r = mp_unitType product \<and> pr_period r = period)"

definition newUserRule :: "id \<Rightarrow> marketProduct \<Rightarrow> PolicyAction \<Rightarrow> PolicyPeriod \<Rightarrow> decimal \<Rightarrow> db \<Rightarrow> policyRule" where
  "newUserRule userId product action period value s = (let sel = productSelector product in
     \<lparr>pr_id = freshId s, pr_createdAt = db_now s, pr_updatedAt = db_now s, pr_scopeType = PolicyScopeType.USER,
      pr_scopeUserId = Some userId, pr_scopeGroupId = None, pr_action = action, pr_metric = mp_unitType product,
      pr_period = period, pr_limit = value, pr_minKycLevel = KycLevel.NONE,
      pr_instrumentId = sel_instrumentId sel, pr_instrumentType = sel_instrumentType sel,
      pr_productId = sel_productId sel, pr_enabled = True, pr_priority = 100, pr_note = None\<rparr>)"

definition applyCell ::
  "id \<Rightarrow> marketProduct \<Rightarrow> cellChange option \<Rightarrow> PolicyAction \<Rightarrow> PolicyPeriod \<Rightarrow> applyResult \<Rightarrow> db \<Rightarrow> applyResult tx" where
  "applyCell userId product cell action period res s =
     (case cell of
        None \<Rightarrow> Inr (res, s)
      | Some (SET value) \<Rightarrow>
          (if value = None \<or> the value \<le> 0 then Inl (BadRequestException ''INVALID_VALUE'')
           else case findFirst (userCell userId product action period) (policyRules s) of
                  Some existing \<Rightarrow>
                    bindE (storeRule (existing\<lparr>pr_limit := dec value\<rparr>) s) (\<lambda>_ s.
                    Inr (res\<lparr>ay_updated := Suc (ay_updated res)\<rparr>, s))
                | None \<Rightarrow>
                    bindE (insertRule (newUserRule userId product action period (dec value) s) s) (\<lambda>_ s.
                    Inr (res\<lparr>ay_created := Suc (ay_created res)\<rparr>, s)))
      | Some CLEAR \<Rightarrow>
          Inr (res\<lparr>ay_deleted := ay_deleted res + length (findMany (userProductRule userId product action period) (policyRules s))\<rparr>,
               s\<lparr>policyRules := deleteRows (userProductRule userId product action period) (policyRules s)\<rparr>))"

definition productById :: "id \<Rightarrow> db \<Rightarrow> marketProduct option" where
  "productById i s = findFirst (\<lambda>p. mp_id p = i) (marketProducts s)"

text \<open>The products are read before the transaction, which does not change them.\<close>

definition applyChange :: "id \<Rightarrow> (id \<Rightarrow> marketProduct option) \<Rightarrow> productChange \<Rightarrow> applyResult \<Rightarrow> db \<Rightarrow> applyResult tx" where
  "applyChange userId productMap change res s =
     (case productMap (pg_productId change) of
        None \<Rightarrow> Inl (TypeError ''product'')
      | Some product \<Rightarrow>
          bindE (applyCell userId product (pg_buyDaily change) PolicyAction.TRADE_BUY PolicyPeriod.DAILY res s) (\<lambda>res s.
          bindE (applyCell userId product (pg_buyMonthly change) PolicyAction.TRADE_BUY PolicyPeriod.MONTHLY res s) (\<lambda>res s.
          bindE (applyCell userId product (pg_sellDaily change) PolicyAction.TRADE_SELL PolicyPeriod.DAILY res s) (\<lambda>res s.
          applyCell userId product (pg_sellMonthly change) PolicyAction.TRADE_SELL PolicyPeriod.MONTHLY res s))))"

definition applyProductLimits :: "id \<Rightarrow> productChange list \<Rightarrow> db \<Rightarrow> applyResult tx" where
  "applyProductLimits userId changes s =
     (if \<forall>u\<in>set (users s). us_id u \<noteq> userId then Inl (NotFoundException ''User not found'')
      else if \<exists>c\<in>set changes. productById (pg_productId c) s = None
        then Inl (BadRequestException ''MARKET_PRODUCT_NOT_FOUND'')
      else foldE changes (applyChange userId (\<lambda>i. productById i s)) \<lparr>ay_created = 0, ay_updated = 0, ay_deleted = 0\<rparr> s)"

text \<open>
  A cell of the grid the administrator is shown. It reads the level of the KYC row whatever its status.
\<close>

record limitCell =
  lc_effectiveValue :: "decimal option"
  lc_source :: "PolicyScopeType option"
  lc_selectedRuleId :: "id option"
  lc_selectorUsed :: "PolicySelectorSource option"

definition findKyc :: "id \<Rightarrow> db \<Rightarrow> userKyc option" where
  "findKyc u s = findFirst (\<lambda>k. uk_userId k = u) (userKycs s)"

definition gridContext :: "user \<Rightarrow> marketProduct \<Rightarrow> instrument \<Rightarrow> db \<Rightarrow> policyContext" where
  "gridContext user product baseInstrument s =
     \<lparr>pc_userId = us_id user, pc_customerGroupId = Some (us_customerGroupId user), pc_productId = Some (mp_id product),
      pc_instrumentId = Some (mp_baseInstrumentId product), pc_instrumentType = Some (in_type baseInstrument),
      pc_tradeType = Some (mp_tradeType product),
      pc_kycLevel = Some (map_option uk_level (findKyc (us_id user) s))\<rparr>"

definition buildCell ::
  "user \<Rightarrow> marketProduct \<Rightarrow> instrument \<Rightarrow> PolicyAction \<Rightarrow> PolicyPeriod \<Rightarrow> db \<Rightarrow> limitCell" where
  "buildCell user product baseInstrument action period s =
     (let context = gridContext user product baseInstrument s;
          rules = loadRulesForContext context s;
          tr = resolveFromRules rules action (mp_unitType product) period context
      in \<lparr>lc_effectiveValue = map_option se_value (tr_selected tr), lc_source = map_option se_source (tr_selected tr),
          lc_selectedRuleId = map_option (\<lambda>x. pr_id (se_rule x)) (tr_selected tr),
          lc_selectorUsed = map_option se_selectorUsed (tr_selected tr)\<rparr>)"

text \<open>
  The grid: the products, active unless asked otherwise, in the order of their group and place, grouped by
  the key of their group. \<open>collate\<close> compares two group keys the way the database sorts text.
\<close>

record limitRow =
  lw_product :: marketProduct
  lw_buyDaily :: limitCell
  lw_buyMonthly :: limitCell
  lw_sellDaily :: limitCell
  lw_sellMonthly :: limitCell

text \<open>The keys of the groups in the order in which they first occur.\<close>

fun firstOccurrences :: "'k list \<Rightarrow> 'k list" where
  "firstOccurrences [] = []"
| "firstOccurrences (x # xs) = x # filter (\<lambda>y. y \<noteq> x) (firstOccurrences xs)"

definition compareProducts :: "(string \<Rightarrow> string \<Rightarrow> int) \<Rightarrow> marketProduct \<Rightarrow> marketProduct \<Rightarrow> int" where
  "compareProducts collate a b =
     (let d = collate (mp_groupKey a) (mp_groupKey b) in if d \<noteq> 0 then d else mp_sortOrder a - mp_sortOrder b)"

definition gridProducts :: "(string \<Rightarrow> string \<Rightarrow> int) \<Rightarrow> string option \<Rightarrow> bool \<Rightarrow> db \<Rightarrow> marketProduct list" where
  "gridProducts collate groupKey includeInactive s =
     sortBy (compareProducts collate)
       (findMany (\<lambda>p. (groupKey = None \<or> groupKey = Some (mp_groupKey p)) \<and> (includeInactive \<or> mp_isActive p)) (marketProducts s))"

definition buildRow :: "user \<Rightarrow> marketProduct \<Rightarrow> instrument \<Rightarrow> db \<Rightarrow> limitRow" where
  "buildRow user product baseInstrument s =
     (let cell = (\<lambda>action period. buildCell user product baseInstrument action period s)
      in \<lparr>lw_product = product,
          lw_buyDaily = cell PolicyAction.TRADE_BUY PolicyPeriod.DAILY,
          lw_buyMonthly = cell PolicyAction.TRADE_BUY PolicyPeriod.MONTHLY,
          lw_sellDaily = cell PolicyAction.TRADE_SELL PolicyPeriod.DAILY,
          lw_sellMonthly = cell PolicyAction.TRADE_SELL PolicyPeriod.MONTHLY\<rparr>)"

definition getGrid ::
  "(string \<Rightarrow> string \<Rightarrow> int) \<Rightarrow> id \<Rightarrow> string option \<Rightarrow> bool \<Rightarrow> db \<Rightarrow> (string \<times> limitRow list) list tx" where
  "getGrid collate userId groupKey includeInactive s =
     (case findFirst (\<lambda>u. us_id u = userId) (users s) of
        None \<Rightarrow> Inl (NotFoundException ''User not found'')
      | Some user \<Rightarrow>
          bindE (mapE (gridProducts collate groupKey includeInactive s) (\<lambda>product s.
              case findFirst (\<lambda>i. in_id i = mp_baseInstrumentId product) (instruments s) of
                None \<Rightarrow> Inl (TypeError ''product.baseInstrument'')
              | Some baseInstrument \<Rightarrow> Inr (buildRow user product baseInstrument s, s)) s) (\<lambda>rows s.
          Inr (map (\<lambda>k. (k, filter (\<lambda>r. mp_groupKey (lw_product r) = k) rows))
                 (firstOccurrences (map (\<lambda>r. mp_groupKey (lw_product r)) rows)), s)))"

section \<open>EffectivePolicyAdminController\<close>

record effectiveQuery =
  eq_productId :: "id option"
  eq_instrumentId :: "id option"
  eq_instrumentType :: "InstrumentType option"

definition effectiveContext :: "id \<Rightarrow> effectiveQuery \<Rightarrow> db \<Rightarrow> err + policyContext" where
  "effectiveContext i q s =
     (case getUserContext i s of Inl e \<Rightarrow> Inl e
      | Inr (userId, grp, level) \<Rightarrow>
          (let context = \<lparr>pc_userId = userId, pc_customerGroupId = Some grp, pc_productId = None, pc_instrumentId = None,
                 pc_instrumentType = None, pc_tradeType = None, pc_kycLevel = Some (Some level)\<rparr>
           in if truthy (eq_productId q)
              then (case buildFromMarketProduct (the (eq_productId q)) s of Inl e \<Rightarrow> Inl e
                    | Inr b \<Rightarrow> Inr (context\<lparr>pc_productId := Some (bp_productId b), pc_instrumentId := Some (bp_instrumentId b),
                                        pc_instrumentType := Some (bp_instrumentType b)\<rparr>))
              else if truthy (eq_instrumentId q)
              then Inr (context\<lparr>pc_instrumentId := eq_instrumentId q,
                          pc_instrumentType := map_option in_type (findFirst (\<lambda>x. Some (in_id x) = eq_instrumentId q) (instruments s))\<rparr>)
              else if eq_instrumentType q \<noteq> None then Inr (context\<lparr>pc_instrumentType := eq_instrumentType q\<rparr>)
              else Inr context))"

definition getEffectivePolicy ::
  "id \<Rightarrow> effectiveQuery \<Rightarrow> db \<Rightarrow> err + ((PolicyAction \<times> PolicyMetric \<times> PolicyPeriod) \<times> policyTrace) list" where
  "getEffectivePolicy i q s =
     (if 1 < length (filter id [truthy (eq_productId q), truthy (eq_instrumentId q), eq_instrumentType q \<noteq> None])
        then Inl (BadRequestException ''INVALID_SELECTOR_COMBINATION'')
      else case effectiveContext i q s of Inl e \<Rightarrow> Inl e
      | Inr context \<Rightarrow>
          (let rules = loadRulesForContext context s
           in Inr (map (\<lambda>(action, metric, period). ((action, metric, period), resolveFromRules rules action metric period context))
                (firstOccurrences (map (\<lambda>r. (pr_action r, pr_metric r, pr_period r)) rules)))))"

section \<open>CustomerGroupsAdminController\<close>

definition findGroup :: "id \<Rightarrow> db \<Rightarrow> customerGroup option" where
  "findGroup i s = findFirst (\<lambda>g. cg_id g = i) (customerGroups s)"

definition clearDefaultGroups :: "bool \<Rightarrow> db \<Rightarrow> db" where
  "clearDefaultGroups isDefault s =
     (if isDefault then s\<lparr>customerGroups := map (\<lambda>g. g\<lparr>cg_isDefault := False\<rparr>) (customerGroups s)\<rparr> else s)"

record groupDto =
  gd_code :: string
  gd_name :: string
  gd_tahesabGroupName :: "string option"
  gd_isDefault :: "bool option"

definition createGroup :: "id \<Rightarrow> groupDto \<Rightarrow> db \<Rightarrow> customerGroup tx" where
  "createGroup actorId dto s =
     (let s = clearDefaultGroups (withDefault (gd_isDefault dto) False) s;
          created = \<lparr>cg_id = freshId s, cg_code = gd_code dto, cg_name = gd_name dto,
            cg_tahesabGroupName = gd_tahesabGroupName dto, cg_isDefault = withDefault (gd_isDefault dto) False\<rparr>
      in if \<exists>g\<in>set (customerGroups s). cg_code g = gd_code dto then Inl (UniqueConstraintViolation ''CustomerGroup'')
         else bindE (Inr ((), (bumpId s)\<lparr>customerGroups := customerGroups s @ [created]\<rparr>)) (\<lambda>_ s.
              bindE (writeAudit PolicyAuditEntityType.CUSTOMER_GROUP (cg_id created) (Some actorId) None
                       (Some (AuditGroup created)) None s) (\<lambda>_ s. Inr (created, s))))"

record groupUpdate =
  gu_name :: "string option"
  gu_tahesabGroupName :: "string option option"
  gu_isDefault :: "bool option"

definition updateGroup :: "id \<Rightarrow> id \<Rightarrow> groupUpdate \<Rightarrow> db \<Rightarrow> customerGroup tx" where
  "updateGroup actorId i dto s =
     (case findGroup i s of
        None \<Rightarrow> Inl (NotFoundException ''GROUP_NOT_FOUND'')
      | Some existing \<Rightarrow>
          (let s = clearDefaultGroups (withDefault (gu_isDefault dto) False) s;
               row = withDefault (findGroup i s) existing;
               updated = row\<lparr>cg_name := withDefault (gu_name dto) (cg_name row),
                 cg_tahesabGroupName := withDefault (gu_tahesabGroupName dto) (cg_tahesabGroupName row),
                 cg_isDefault := withDefault (gu_isDefault dto) (cg_isDefault row)\<rparr>
           in bindE (Inr ((), s\<lparr>customerGroups := updateRows (\<lambda>g. cg_id g = i) (\<lambda>_. updated) (customerGroups s)\<rparr>)) (\<lambda>_ s.
              bindE (writeAudit PolicyAuditEntityType.CUSTOMER_GROUP i (Some actorId) (Some (AuditGroup existing))
                       (Some (AuditGroup updated)) None s) (\<lambda>_ s. Inr (updated, s)))))"

text \<open>
  \<open>delete\<close> on the group: the database refuses it while the group has settings (the key of
  \<open>CustomerGroupSettings\<close> restricts; \<open>hasSettings\<close> says whether it has), and sets the group of its rules to
  null (the key of \<open>PolicyRule\<close>).
\<close>

definition deleteGroupRow :: "bool \<Rightarrow> id \<Rightarrow> db \<Rightarrow> unit tx" where
  "deleteGroupRow hasSettings i s =
     (if hasSettings then Inl (ForeignKeyViolation ''CustomerGroupSettings'')
      else Inr ((), s\<lparr>customerGroups := deleteRows (\<lambda>g. cg_id g = i) (customerGroups s),
        policyRules := updateRows (\<lambda>r. pr_scopeGroupId r = Some i) (\<lambda>r. r\<lparr>pr_scopeGroupId := None\<rparr>) (policyRules s)\<rparr>))"

definition removeGroup :: "id \<Rightarrow> bool \<Rightarrow> id \<Rightarrow> db \<Rightarrow> unit tx" where
  "removeGroup actorId hasSettings i s =
     (case findGroup i s of
        None \<Rightarrow> Inl (NotFoundException ''GROUP_NOT_FOUND'')
      | Some grp \<Rightarrow>
          (if cg_isDefault grp then Inl (BadRequestException ''GROUP_DEFAULT_CANNOT_DELETE'')
           else if \<exists>u\<in>set (users s). us_customerGroupId u = Some i then Inl (BadRequestException ''GROUP_HAS_USERS'')
           else bindE (deleteGroupRow hasSettings i s) (\<lambda>_ s.
                writeAudit PolicyAuditEntityType.CUSTOMER_GROUP i (Some actorId) (Some (AuditGroup grp)) None (Some ''delete'') s)))"

text \<open>
  \<open>moveUsers\<close>: the users of the list that are in the group move, are logged, and are announced to Tahesab.
  The correlation id holds the time; \<open>showTime\<close> prints it.
\<close>

definition groupNameOf :: "customerGroup option \<Rightarrow> string" where
  "groupNameOf grp = (case grp of None \<Rightarrow> ''DEFAULT'' | Some g \<Rightarrow> withDefault (cg_tahesabGroupName g) (cg_code g))"

definition resyncUser :: "(time \<Rightarrow> string) \<Rightarrow> customerGroup \<Rightarrow> user \<Rightarrow> db \<Rightarrow> unit tx" where
  "resyncUser showTime toGroup user s =
     (if \<not> truthy (us_tahesabCustomerCode user) then Inr ((), s)
      else enqueue ''DoEditMoshtari''
        (EditMoshtari \<lparr>ms_moshtariCode = us_tahesabCustomerCode user, ms_name = us_fullName user,
           ms_groupName = groupNameOf (Some toGroup), ms_tel = us_mobile user\<rparr>)
        (Some (''customer:resync:'' @ us_id user @ '':'' @ showTime (db_now s))) s)"

definition moveUsers ::
  "tahesabConfig \<Rightarrow> (time \<Rightarrow> string) \<Rightarrow> id \<Rightarrow> id \<Rightarrow> id list \<Rightarrow> id \<Rightarrow> db \<Rightarrow> nat tx" where
  "moveUsers config showTime actorId i userIds toGroupId s =
     (case findGroup toGroupId s of
        None \<Rightarrow> Inl (NotFoundException ''GROUP_NOT_FOUND'')
      | Some toGroup \<Rightarrow>
          (let moving = findMany (\<lambda>u. us_id u \<in> set userIds \<and> us_customerGroupId u = Some i) (users s);
               ids = map us_id moving;
               inMove = (\<lambda>u. us_id u \<in> set ids \<and> us_customerGroupId u = Some i);
               moved = length (findMany inMove (users s));
               s = s\<lparr>users := updateRows inMove (\<lambda>u. u\<lparr>us_customerGroupId := Some toGroupId, us_updatedAt := db_now s\<rparr>) (users s)\<rparr>
           in bindE (writeAudit PolicyAuditEntityType.CUSTOMER_GROUP i (Some actorId) None
                (Some (AuditMove i toGroupId ids moved)) None s) (\<lambda>_ s.
              bindE (if isEnabled config then forE moving (resyncUser showTime toGroup) s else Inr ((), s)) (\<lambda>_ s.
              Inr (moved, s)))))"

section \<open>The invariant\<close>

text \<open>
  A rule names at most one of a product, an instrument and a type, and only the user or the group its
  scope asks for; the group of a group rule may be missing (see \<open>deleteGroupRow\<close>). Its references exist.
\<close>

definition selector_ok :: "policyRule \<Rightarrow> bool" where
  "selector_ok r \<longleftrightarrow> pr_productId r \<noteq> Some [] \<and> pr_instrumentId r \<noteq> Some [] \<and>
     (pr_productId r \<noteq> None \<longrightarrow> pr_instrumentId r = None \<and> pr_instrumentType r = None) \<and>
     (pr_instrumentId r \<noteq> None \<longrightarrow> pr_instrumentType r = None)"

definition scope_ok :: "policyRule \<Rightarrow> bool" where
  "scope_ok r \<longleftrightarrow> (case pr_scopeType r of
       PolicyScopeType.USER \<Rightarrow> truthy (pr_scopeUserId r) \<and> pr_scopeGroupId r = None
     | PolicyScopeType.GROUP \<Rightarrow> pr_scopeUserId r = None
     | PolicyScopeType.GLOBAL \<Rightarrow> pr_scopeUserId r = None \<and> pr_scopeGroupId r = None)"

definition rule_ok :: "db \<Rightarrow> policyRule \<Rightarrow> bool" where
  "rule_ok s r \<longleftrightarrow> selector_ok r \<and> scope_ok r \<and> 0 \<le> pr_limit r \<and> ruleReferences r s"

definition rules_ok :: "db \<Rightarrow> bool" where
  "rules_ok s \<longleftrightarrow> keys_ok s (map pr_id (policyRules s)) \<and> (\<forall>r\<in>set (policyRules s). rule_ok s r)"

text \<open>
  The groups have their own codes, one at most is the default, and the group of a user exists; no user
  and no product has the empty text for an identifier.
\<close>

definition groups_ok :: "db \<Rightarrow> bool" where
  "groups_ok s \<longleftrightarrow> keys_ok s (map cg_id (customerGroups s)) \<and> distinct (map cg_code (customerGroups s)) \<and>
     length (filter cg_isDefault (customerGroups s)) \<le> 1 \<and>
     [] \<notin> us_id ` set (users s) \<and> [] \<notin> mp_id ` set (marketProducts s) \<and>
     (\<forall>u\<in>set (users s). us_customerGroupId u \<noteq> None \<longrightarrow> the (us_customerGroupId u) \<in> cg_id ` set (customerGroups s))"

definition admin_ok :: "db \<Rightarrow> bool" where
  "admin_ok s \<longleftrightarrow> rules_ok s \<and> groups_ok s"

lemma admin_okD:
  assumes "admin_ok s"
  shows "keys_ok s (map pr_id (policyRules s))" "\<And>r. r \<in> set (policyRules s) \<Longrightarrow> rule_ok s r"
    "keys_ok s (map cg_id (customerGroups s))" "distinct (map cg_code (customerGroups s))"
    "length (filter cg_isDefault (customerGroups s)) \<le> 1"
    "\<And>u g. u \<in> set (users s) \<Longrightarrow> us_customerGroupId u = Some g \<Longrightarrow> g \<in> cg_id ` set (customerGroups s)"
    "[] \<notin> us_id ` set (users s)" "[] \<notin> mp_id ` set (marketProducts s)"
  using assms by (auto simp: admin_ok_def rules_ok_def groups_ok_def)

text \<open>The rules and their references depend on the tables, not on the rest of the state.\<close>

lemma admin_ok_bump:
  assumes "admin_ok s" "db_gen t = db_gen s" "db_seq s \<le> db_seq t"
    and "policyRules t = policyRules s" "customerGroups t = customerGroups s" "users t = users s"
    and "marketProducts t = marketProducts s" "instruments t = instruments s"
  shows "admin_ok t"
proof -
  have k: "keys_ok t ks" if "keys_ok s ks" for ks
    using that assms(2,3) by (fastforce simp: keys_ok_def)
  have "rule_ok t = rule_ok s"
    by (simp add: fun_eq_iff rule_ok_def ruleReferences_def assms)
  then show ?thesis using assms k by (simp add: admin_ok_def rules_ok_def groups_ok_def)
qed

lemma writeAudit_ok: "admin_ok s \<Longrightarrow> holdsE (\<lambda>_. admin_ok) (writeAudit ty i act bef aft rea s)"
  by (auto simp: writeAudit_def bumpId_def intro: admin_ok_bump)

lemma normalizeSelector_ok:
  assumes "sel = normalizeSelector x"
    and "pr_productId r = sel_productId sel" "pr_instrumentId r = sel_instrumentId sel" "pr_instrumentType r = sel_instrumentType sel"
  shows "selector_ok r"
  using assms by (auto simp: selector_ok_def normalizeSelector_def truthy_def split: option.splits)

lemma normalized_selector_valid: "validateSelector (normalizeSelector x) = None"
  by (simp add: validateSelector_def normalizeSelector_def)

lemma firstError_None: "firstError es = None \<longleftrightarrow> (\<forall>e\<in>set es. e = None)"
proof -
  have "fold (\<lambda>e acc. orElse acc e) es a = None \<longleftrightarrow> a = None \<and> (\<forall>e\<in>set es. e = None)" for a
    by (induction es arbitrary: a) (auto simp: orElse_def split: option.splits)
  then show ?thesis by (simp add: firstError_def)
qed

lemma validateScope_None:
  "validateScope t u g = None \<longleftrightarrow> (t = PolicyScopeType.USER \<longrightarrow> truthy u) \<and> (t = PolicyScopeType.GROUP \<longrightarrow> truthy g) \<and>
     (t = PolicyScopeType.GLOBAL \<longrightarrow> \<not> truthy u \<and> \<not> truthy g)"
  by (cases t) (simp_all add: validateScope_def)

lemma scoped_ok:
  assumes "validateScope t u g = None" "pr_scopeType r = t"
    and "pr_scopeUserId r = (if t = PolicyScopeType.USER then u else None)"
    and "pr_scopeGroupId r = (if t = PolicyScopeType.GROUP then g else None)"
  shows "scope_ok r"
  using assms by (cases t) (simp_all add: scope_ok_def validateScope_None)

lemma scope_ok_same:
  "scope_ok r \<Longrightarrow> pr_scopeType x = pr_scopeType r \<Longrightarrow> pr_scopeUserId x = pr_scopeUserId r \<Longrightarrow>
   pr_scopeGroupId x = pr_scopeGroupId r \<Longrightarrow> scope_ok x"
  by (cases "pr_scopeType r") (simp_all add: scope_ok_def)

lemma validateValue_nonneg: "validateValue l = None \<Longrightarrow> 0 \<le> decText l"
  by (cases l rule: decText.cases) (auto simp: validateValue_def dec_def split: if_splits)

text \<open>The two writers of a rule keep the invariant, whoever calls them with a well-formed rule.\<close>

lemma insertRule_ok:
  assumes "admin_ok s" "ruleReferences r s \<Longrightarrow> selector_ok r" "ruleReferences r s \<Longrightarrow> scope_ok r"
    and "0 \<le> pr_limit r" "pr_id r = freshId s"
  shows "holdsE (\<lambda>x t. x = r \<and> admin_ok t) (insertRule r s)"
proof (cases "ruleReferences r s")
  case True
  let ?t = "(bumpId s)\<lparr>policyRules := policyRules s @ [r]\<rparr>"
  note d = admin_okD [OF assms(1)]
  have eq: "rule_ok ?t = rule_ok s"
    by (simp add: fun_eq_iff rule_ok_def ruleReferences_def bumpId_def)
  have "keys_ok ?t (map pr_id (policyRules s) @ [pr_id r])"
    using keys_ok_snoc [OF d(1)] assms(5) by (simp add: keys_ok_def bumpId_def)
  moreover have "keys_ok ?t (map cg_id (customerGroups s))"
    using keys_ok_bump [OF d(3)] by (simp add: keys_ok_def bumpId_def)
  moreover have "rule_ok s r" using assms True by (simp add: rule_ok_def)
  ultimately have "admin_ok ?t"
    using assms(1) by (simp add: admin_ok_def rules_ok_def groups_ok_def eq) (simp add: bumpId_def)
  with True show ?thesis by (simp add: insertRule_def)
qed (simp add: insertRule_def)

lemma storeRule_ok:
  assumes "admin_ok s" "selector_ok r" "scope_ok r" "0 \<le> pr_limit r"
  shows "holdsE (\<lambda>_. admin_ok) (storeRule r s)"
proof (cases "ruleReferences (r\<lparr>pr_updatedAt := db_now s\<rparr>) s")
  case True
  let ?r = "r\<lparr>pr_updatedAt := db_now s\<rparr>"
  let ?t = "s\<lparr>policyRules := updateRows (\<lambda>x. pr_id x = pr_id ?r) (\<lambda>_. ?r) (policyRules s)\<rparr>"
  note d = admin_okD [OF assms(1)]
  have eq: "rule_ok ?t = rule_ok s"
    by (simp add: fun_eq_iff rule_ok_def ruleReferences_def)
  have ok: "rule_ok s ?r"
    using assms True scope_ok_same [OF assms(3), of ?r] by (simp add: rule_ok_def selector_ok_def)
  have ids: "map pr_id (policyRules ?t) = map pr_id (policyRules s)"
    by simp (rule map_updateRows, simp)
  have "rules_ok ?t"
    unfolding rules_ok_def ids eq using d(1,2) ok
    by (auto simp: keys_ok_def set_updateRows)
  moreover have "groups_ok ?t"
    using assms(1) by (simp add: admin_ok_def groups_ok_def keys_ok_def)
  ultimately have "admin_ok ?t" by (simp add: admin_ok_def)
  then show ?thesis using True by (simp add: storeRule_def Let_def)
qed (simp add: storeRule_def Let_def)

lemma deleteRules_ok: "admin_ok s \<Longrightarrow> admin_ok (s\<lparr>policyRules := deleteRows p (policyRules s)\<rparr>)"
proof -
  assume a: "admin_ok s"
  note d = admin_okD [OF a]
  have "keys_ok s (map pr_id (deleteRows p (policyRules s)))"
    using d(1) by (auto simp: keys_ok_def deleteRows_def distinct_map inj_on_def)
  then show ?thesis
    using a by (auto simp: admin_ok_def rules_ok_def groups_ok_def keys_ok_def rule_ok_def ruleReferences_def)
qed

section \<open>Every operation keeps it\<close>

lemma checkRuleDto_None:
  assumes "checkRuleDto dto = None"
  shows "selector_ok (ruleOfDto dto s)" "scope_ok (ruleOfDto dto s)" "0 \<le> pr_limit (ruleOfDto dto s)"
    "pr_id (ruleOfDto dto s) = freshId s" "0 < decText (Some (rd_limit dto))"
proof -
  have v: "validateScope (rd_scopeType dto) (rd_scopeUserId dto) (rd_scopeGroupId dto) = None"
    "validateValue (Some (rd_limit dto)) = None"
    using assms by (simp_all add: checkRuleDto_def firstError_None)
  show "selector_ok (ruleOfDto dto s)"
    by (rule normalizeSelector_ok [OF selectorOfDto_def]) (simp_all add: ruleOfDto_def Let_def)
  show "scope_ok (ruleOfDto dto s)"
    by (rule scoped_ok [OF v(1)]) (simp_all add: ruleOfDto_def Let_def)
  show "0 \<le> pr_limit (ruleOfDto dto s)"
    using validateValue_nonneg [OF v(2)] by (simp add: ruleOfDto_def Let_def)
  show "pr_id (ruleOfDto dto s) = freshId s" by (simp add: ruleOfDto_def Let_def)
  show "0 < decText (Some (rd_limit dto))"
    using v(2) by (cases "rd_limit dto") (auto simp: validateValue_def split: if_splits)
qed

lemma thenAudit_ok:
  "admin_ok s \<Longrightarrow> holdsE (\<lambda>_. admin_ok) (bindE (writeAudit ty i act bef aft rea s) (\<lambda>_ s. Inr (x, s)))"
  by (rule holdsE_bind [OF writeAudit_ok]) simp_all

lemma createRule_ok: "admin_ok s \<Longrightarrow> holdsE (\<lambda>_. admin_ok) (createRule actorId dto s)"
proof (cases "checkRuleDto dto")
  case None
  assume "admin_ok s"
  from insertRule_ok [OF this checkRuleDto_None(1,2) [OF None] checkRuleDto_None(3,4) [OF None]] None show ?thesis
    unfolding createRule_def by (simp del: bindE_simps) (erule holdsE_bind, simp add: thenAudit_ok)
qed (simp add: createRule_def)

lemma updateRule_ok:
  assumes "admin_ok s"
  shows "holdsE (\<lambda>_. admin_ok) (updateRule actorId i dto s)"
proof (cases "findRule i s")
  case (Some existing)
  let ?ty = "withDefault (ru_scopeType dto) (pr_scopeType existing)"
  let ?u = "withDefault (ru_scopeUserId dto) (pr_scopeUserId existing)"
  let ?g = "withDefault (ru_scopeGroupId dto) (pr_scopeGroupId existing)"
  let ?limit = "withDefault (ru_limit dto) (Some (Numeric (pr_limit existing)))"
  have stored: "holdsE (\<lambda>_. admin_ok) (storeRule r s)"
    if "validateScope ?ty ?u ?g = None" "validateValue ?limit = None" "pr_limit r = decText ?limit" "selector_ok r"
      "pr_scopeType r = ?ty" "pr_scopeUserId r = (if ?ty = PolicyScopeType.USER then ?u else None)"
      "pr_scopeGroupId r = (if ?ty = PolicyScopeType.GROUP then ?g else None)" for r
    by (rule storeRule_ok [OF assms that(4) scoped_ok [OF that(1,5-7)]])
      (simp add: that(3) validateValue_nonneg [OF that(2)])
  have selected: "selector_ok (x\<lparr>pr_instrumentId := sel_instrumentId (normalizeSelector w),
      pr_instrumentType := sel_instrumentType (normalizeSelector w), pr_productId := sel_productId (normalizeSelector w),
      pr_minKycLevel := k, pr_enabled := e, pr_priority := p, pr_note := n\<rparr>)" for x w k e p n
    by (rule normalizeSelector_ok [OF refl]) simp_all
  show ?thesis
    unfolding updateRule_def Some Let_def option.case
    by (split option.split, simp only: firstError_None, intro conjI impI allI)
      (auto intro!: holdsE_bind [OF stored] thenAudit_ok selected split: option.split)
qed (simp add: updateRule_def)

lemma deleteRule_ok: "admin_ok s \<Longrightarrow> holdsE (\<lambda>_. admin_ok) (deleteRule actorId i s)"
  unfolding deleteRule_def Let_def by (intro writeAudit_ok deleteRules_ok)

lemma upsertRule_ok:
  assumes "admin_ok s"
  shows "holdsE (\<lambda>_. admin_ok) (upsertRule actorId item res s)"
proof (cases "checkRuleDto item")
  case None
  note c = checkRuleDto_None [OF None]
  show ?thesis
  proof (cases "findFirst (sameRule item) (policyRules s)")
    case (Some existing)
    then have "scope_ok existing" using find_SomeD [OF Some] admin_okD(2) [OF assms] by (auto simp: rule_ok_def)
    let ?r = "existing\<lparr>pr_limit := decText (Some (rd_limit item)),
      pr_minKycLevel := withDefault (rd_minKycLevel item) (pr_minKycLevel existing),
      pr_enabled := withDefault (rd_enabled item) True, pr_priority := withDefault (rd_priority item) 100,
      pr_note := withDefault (rd_note item) (pr_note existing),
      pr_productId := sel_productId (selectorOfDto item), pr_instrumentId := sel_instrumentId (selectorOfDto item),
      pr_instrumentType := sel_instrumentType (selectorOfDto item)\<rparr>"
    have "holdsE (\<lambda>_. admin_ok) (storeRule ?r s)"
      by (rule storeRule_ok [OF assms normalizeSelector_ok [OF selectorOfDto_def] scope_ok_same [OF \<open>scope_ok existing\<close>]])
        (use c(5) in \<open>simp_all add: less_imp_le\<close>)
    then show ?thesis
      unfolding upsertRule_def None Some Let_def
      by (simp del: bindE_simps) (erule holdsE_bind, simp add: thenAudit_ok)
  next
    case no: None
    from insertRule_ok [OF assms c(1,2) c(3,4)] show ?thesis
      unfolding upsertRule_def None no
      by (simp del: bindE_simps) (erule holdsE_bind, simp add: thenAudit_ok)
  qed
qed (simp add: upsertRule_def)

lemma holdsE_fold_state:
  assumes "P s" "\<And>x v s. P s \<Longrightarrow> holdsE (\<lambda>_. P) (body x v s)"
  shows "holdsE (\<lambda>_. P) (foldE xs body v s)"
  by (rule holdsE_fold_rest [where P = "\<lambda>_ _. P"]) (use assms in simp_all)

lemma bulkUpsert_ok: "admin_ok s \<Longrightarrow> holdsE (\<lambda>_. admin_ok) (bulkUpsert actorId items s)"
  unfolding bulkUpsert_def by (intro holdsE_fold_state upsertRule_ok)

lemma applyCell_ok:
  assumes "admin_ok s"
  shows "holdsE (\<lambda>_. admin_ok) (applyCell userId product cell action period res s)"
proof -
  have upd: "holdsE (\<lambda>_. admin_ok) (storeRule (r\<lparr>pr_limit := v\<rparr>) s)"
    if "findFirst p (policyRules s) = Some r" "0 < v" for p r v
  proof -
    have "rule_ok s r" using find_SomeD [OF that(1)] admin_okD(2) [OF assms] by blast
    then show ?thesis
      using that(2) by (intro storeRule_ok [OF assms]) (auto simp: rule_ok_def selector_ok_def intro: scope_ok_same)
  qed
  have ins: "holdsE (\<lambda>x t. x = newUserRule userId product action period v s \<and> admin_ok t)
      (insertRule (newUserRule userId product action period v s) s)" if "0 < v" for v
  proof (rule insertRule_ok [OF assms])
    show "scope_ok (newUserRule userId product action period v s)"
      if "ruleReferences (newUserRule userId product action period v s) s"
      using that admin_okD(7) [OF assms] by (auto simp: newUserRule_def Let_def scope_ok_def ruleReferences_def image_iff)
    show "selector_ok (newUserRule userId product action period v s)"
      by (rule normalizeSelector_ok [OF productSelector_def]) (simp_all add: newUserRule_def Let_def)
  qed (use that in \<open>simp_all add: newUserRule_def Let_def\<close>)
  have skip: "holdsE (\<lambda>_. admin_ok) (bindE m (\<lambda>_ s. Inr (res', s)))" if "holdsE (\<lambda>_. admin_ok) m"
    for m :: "policyRule tx" and res' :: applyResult
    by (rule holdsE_bind [OF that]) simp
  show ?thesis
    using deleteRules_ok [OF assms] assms
    by (auto simp: applyCell_def dec_def split: option.split cellChange.split intro!: skip upd holdsE_weaken [OF ins])
qed

lemma applyProductLimits_ok: "admin_ok s \<Longrightarrow> holdsE (\<lambda>_. admin_ok) (applyProductLimits userId changes s)"
  unfolding applyProductLimits_def applyChange_def
  by (auto split: option.split intro!: holdsE_fold_state [where P = admin_ok] holdsE_bind [OF applyCell_ok] applyCell_ok)

lemma filter_one_true:
  assumes "\<And>x. x \<in> set xs \<Longrightarrow> \<not> P x"
  shows "length (filter P (xs @ [y])) \<le> 1" "distinct (map k xs) \<Longrightarrow> length (filter P (updateRows (\<lambda>x. k x = i) (\<lambda>_. y) xs)) \<le> 1"
proof -
  show "length (filter P (xs @ [y])) \<le> 1" using assms by (simp add: filter_False)
  show "length (filter P (updateRows (\<lambda>x. k x = i) (\<lambda>_. y) xs)) \<le> 1" if "distinct (map k xs)"
    using that assms
  proof (induction xs)
    case (Cons x xs)
    show ?case
    proof (cases "k x = i")
      case True
      with Cons.prems(1) have "updateRows (\<lambda>x. k x = i) (\<lambda>_. y) xs = xs" by (intro updateRows_none) (auto simp: image_iff)
      with True Cons.prems show ?thesis by (simp add: filter_False)
    qed (use Cons in auto)
  qed simp
qed

lemma clearDefaultGroups_ok:
  "admin_ok s \<Longrightarrow> admin_ok (clearDefaultGroups b s)"
  "b \<Longrightarrow> g \<in> set (customerGroups (clearDefaultGroups b s)) \<Longrightarrow> \<not> cg_isDefault g"
  "map cg_id (customerGroups (clearDefaultGroups b s)) = map cg_id (customerGroups s)"
  by (auto simp: clearDefaultGroups_def admin_ok_def rules_ok_def groups_ok_def rule_ok_def ruleReferences_def keys_ok_def
      o_def image_image filter_map)

lemma createGroup_ok:
  assumes "admin_ok s"
  shows "holdsE (\<lambda>_. admin_ok) (createGroup actorId dto s)"
proof -
  let ?b = "withDefault (gd_isDefault dto) False" and ?s = "clearDefaultGroups (withDefault (gd_isDefault dto) False) s"
  let ?g = "\<lparr>cg_id = freshId ?s, cg_code = gd_code dto, cg_name = gd_name dto,
    cg_tahesabGroupName = gd_tahesabGroupName dto, cg_isDefault = ?b\<rparr>"
  let ?t = "(bumpId ?s)\<lparr>customerGroups := customerGroups ?s @ [?g]\<rparr>"
  note a = clearDefaultGroups_ok(1) [OF assms, of ?b]
  note d = admin_okD [OF a]
  have "admin_ok ?t" if "\<forall>g\<in>set (customerGroups ?s). cg_code g \<noteq> gd_code dto"
  proof -
    have one: "length (filter cg_isDefault (customerGroups ?s @ [?g])) \<le> 1"
      using d(5) filter_one_true(1) [of "customerGroups ?s" cg_isDefault ?g] clearDefaultGroups_ok(2) [of ?b _ s]
      by (cases ?b) (simp_all add: filter_False)
    have refs: "rule_ok ?t r" if "rule_ok ?s r" for r
      using that by (auto simp: rule_ok_def ruleReferences_def bumpId_def)
    have "keys_ok ?t (map cg_id (customerGroups ?s) @ [freshId ?s])"
      using keys_ok_snoc [OF d(3)] by (simp add: keys_ok_def bumpId_def)
    moreover have "keys_ok ?t (map pr_id (policyRules ?s))"
      using keys_ok_bump [OF d(1)] by (simp add: keys_ok_def bumpId_def)
    ultimately show ?thesis
      using a that one refs by (fastforce simp: admin_ok_def rules_ok_def groups_ok_def bumpId_def)
  qed
  then show ?thesis
    unfolding createGroup_def Let_def by (auto intro!: thenAudit_ok)
qed

lemma filter_map_le: "(\<And>x. P (f x) \<Longrightarrow> P x) \<Longrightarrow> length (filter P (map f xs)) \<le> length (filter P xs)"
  by (induction xs) (auto intro: le_SucI)

lemma filter_deleteRows_le: "length (filter P (deleteRows Q xs)) \<le> length (filter P xs)"
  by (induction xs) (auto intro: le_SucI)

lemma updateGroup_ok:
  assumes "admin_ok s"
  shows "holdsE (\<lambda>_. admin_ok) (updateGroup actorId i dto s)"
proof (cases "findGroup i s")
  case (Some existing)
  let ?b = "withDefault (gu_isDefault dto) False" and ?s = "clearDefaultGroups (withDefault (gu_isDefault dto) False) s"
  note a = clearDefaultGroups_ok(1) [OF assms, of ?b]
  note d = admin_okD [OF a]
  have "i \<in> set (map cg_id (customerGroups s))"
    using find_SomeD [OF Some [unfolded findGroup_def]] by auto
  then obtain g where g: "g \<in> set (customerGroups ?s)" "cg_id g = i"
    unfolding clearDefaultGroups_ok(3) [of ?b s, symmetric] by auto
  obtain row where found: "findGroup i ?s = Some row"
    unfolding findGroup_def using find_exists [of g "customerGroups ?s" "\<lambda>g. cg_id g = i"] g by blast
  note row = found conjunct1 [OF find_SomeD [OF found [unfolded findGroup_def]]]
    conjunct2 [OF find_SomeD [OF found [unfolded findGroup_def]]]
  let ?g = "row\<lparr>cg_name := withDefault (gu_name dto) (cg_name row),
    cg_tahesabGroupName := withDefault (gu_tahesabGroupName dto) (cg_tahesabGroupName row),
    cg_isDefault := withDefault (gu_isDefault dto) (cg_isDefault row)\<rparr>"
  let ?rows = "updateRows (\<lambda>g. cg_id g = i) (\<lambda>_. ?g) (customerGroups ?s)"
  let ?t = "?s\<lparr>customerGroups := ?rows\<rparr>"
  have only: "g = row" if "g \<in> set (customerGroups ?s)" "cg_id g = i" for g
    using inj_onD [of cg_id "set (customerGroups ?s)" g row] d(3) that row(2,3)
    by (simp add: keys_ok_def distinct_map)
  have rows: "?rows = map (\<lambda>g. if g = row then ?g else g) (customerGroups ?s)"
    unfolding updateRows_def using only row(3) by (intro map_cong [OF refl]) metis
  have ids: "map cg_id ?rows = map cg_id (customerGroups ?s)" and codes: "map cg_code ?rows = map cg_code (customerGroups ?s)"
    using row(3) by (auto simp: rows)
  have one: "length (filter cg_isDefault ?rows) \<le> 1"
  proof (cases ?b)
    case True
    then have "\<not> cg_isDefault g" if "g \<in> set (customerGroups ?s)" for g using clearDefaultGroups_ok(2) [of ?b g s] that by simp
    then show ?thesis by (intro filter_one_true(2)) (use d(3) in auto)
  next
    case False
    then have "cg_isDefault ?g \<Longrightarrow> cg_isDefault row" by (cases "gu_isDefault dto") auto
    then have "length (filter cg_isDefault ?rows) \<le> length (filter cg_isDefault (customerGroups ?s))"
      unfolding rows by (intro filter_map_le) (auto split: if_splits)
    with d(5) show ?thesis by simp
  qed
  have sets: "cg_id ` set ?rows = cg_id ` set (customerGroups ?s)" using arg_cong [OF ids, of set] by simp
  have "rule_ok ?t = rule_ok ?s" by (simp add: fun_eq_iff rule_ok_def ruleReferences_def sets)
  then have "admin_ok ?t"
    using a one codes ids by (simp add: admin_ok_def rules_ok_def groups_ok_def sets keys_ok_def)
  then show ?thesis
    unfolding updateGroup_def Some Let_def option.case row(1) withDefault_def [of "Some _"] by (simp add: thenAudit_ok)
qed (simp add: updateGroup_def)

lemma removeGroup_ok:
  assumes "admin_ok s"
  shows "holdsE (\<lambda>_. admin_ok) (removeGroup actorId hasSettings i s)"
proof (cases "findGroup i s")
  case (Some grp)
  note d = admin_okD [OF assms]
  let ?t = "s\<lparr>customerGroups := deleteRows (\<lambda>g. cg_id g = i) (customerGroups s),
    policyRules := updateRows (\<lambda>r. pr_scopeGroupId r = Some i) (\<lambda>r. r\<lparr>pr_scopeGroupId := None\<rparr>) (policyRules s)\<rparr>"
  have "admin_ok ?t" if free: "\<forall>u\<in>set (users s). us_customerGroupId u \<noteq> Some i"
  proof -
    have left: "cg_id ` set (deleteRows (\<lambda>g. cg_id g = i) (customerGroups s)) = cg_id ` set (customerGroups s) - {i}"
      by auto
    have ids: "map pr_id (policyRules ?t) = map pr_id (policyRules s)" by simp (rule map_updateRows, simp)
    have "rule_ok ?t r" if "r \<in> set (policyRules s)" "pr_scopeGroupId r \<noteq> Some i" for r
      using d(2) [OF that(1)] that(2) by (auto simp: rule_ok_def ruleReferences_def)
    moreover have "rule_ok ?t (r\<lparr>pr_scopeGroupId := None\<rparr>)" if "r \<in> set (policyRules s)" "pr_scopeGroupId r = Some i" for r
    proof -
      have "scope_ok r" using d(2) [OF that(1)] by (simp add: rule_ok_def)
      then have "scope_ok (r\<lparr>pr_scopeGroupId := None\<rparr>)" by (cases "pr_scopeType r") (simp_all add: scope_ok_def)
      then show ?thesis using d(2) [OF that(1)] by (auto simp: rule_ok_def selector_ok_def ruleReferences_def)
    qed
    ultimately have "\<forall>r\<in>set (policyRules ?t). rule_ok ?t r" by (auto simp: set_updateRows)
    moreover have "keys_ok ?t (map cg_id (customerGroups ?t))" "distinct (map cg_code (customerGroups ?t))"
      using d(3,4) by (auto simp: keys_ok_def deleteRows_def distinct_map inj_on_def)
    moreover have "length (filter cg_isDefault (customerGroups ?t)) \<le> 1"
      using d(5) filter_deleteRows_le [of cg_isDefault "\<lambda>g. cg_id g = i" "customerGroups s"] by simp
    moreover have "the (us_customerGroupId u) \<in> cg_id ` set (customerGroups ?t)"
      if "u \<in> set (users s)" "us_customerGroupId u \<noteq> None" for u
      using d(6) [OF that(1)] free that left by auto
    ultimately show ?thesis
      using d(1,7,8) ids by (simp add: admin_ok_def rules_ok_def groups_ok_def keys_ok_def)
  qed
  then show ?thesis
    unfolding removeGroup_def Some deleteGroupRow_def by (auto intro!: writeAudit_ok)
qed (simp add: removeGroup_def)

lemma resyncUser_ok: "admin_ok s \<Longrightarrow> holdsE (\<lambda>_. admin_ok) (resyncUser showTime toGroup u s)"
  by (auto simp: resyncUser_def enqueue_def bumpId_def intro: admin_ok_bump)

lemma moveUsers_ok:
  assumes "admin_ok s"
  shows "holdsE (\<lambda>_. admin_ok) (moveUsers config showTime actorId i userIds toGroupId s)"
proof (cases "findGroup toGroupId s")
  case (Some toGroup)
  note d = admin_okD [OF assms]
  have g: "toGroupId \<in> cg_id ` set (customerGroups s)"
    using find_SomeD [OF Some [unfolded findGroup_def]] by auto
  have moved: "admin_ok (s\<lparr>users := updateRows p (\<lambda>u. u\<lparr>us_customerGroupId := Some toGroupId, us_updatedAt := db_now s\<rparr>) (users s)\<rparr>)"
    (is "admin_ok ?t") for p
  proof -
    have "map us_id (users ?t) = map us_id (users s)" by simp (rule map_updateRows, simp)
    from arg_cong [OF this, of set] have ids: "us_id ` set (users ?t) = us_id ` set (users s)" by simp
    have "rule_ok ?t = rule_ok s" unfolding rule_ok_def ruleReferences_def ids by simp
    moreover have "the (us_customerGroupId u) \<in> cg_id ` set (customerGroups s)"
      if "u \<in> set (users ?t)" "us_customerGroupId u \<noteq> None" for u
      using that d(6) g by (auto simp: set_updateRows split: if_splits)
    ultimately show ?thesis
      using assms ids by (simp add: admin_ok_def rules_ok_def groups_ok_def keys_ok_def)
  qed
  show ?thesis
    unfolding moveUsers_def Some Let_def option.case
    by (intro holdsE_bind [OF writeAudit_ok] moved holdsE_bind [where P = "\<lambda>_. admin_ok"])
      (auto intro!: holdsE_for resyncUser_ok)
qed (simp add: moveUsers_def)

section \<open>Runs\<close>

text \<open>
  A step of the administration: one of its operations that succeeds, or time that passes. An operation that
  throws leaves the state alone: what it had written is rolled back, or it had written nothing.
\<close>

inductive adminStep :: "db \<Rightarrow> db \<Rightarrow> bool" where
  create_rule: "createRule a dto s = Inr (r, t) \<Longrightarrow> adminStep s t"
| update_rule: "updateRule a i upd s = Inr (r, t) \<Longrightarrow> adminStep s t"
| delete_rule: "deleteRule a i s = Inr (u, t) \<Longrightarrow> adminStep s t"
| bulk_upsert: "bulkUpsert a items s = Inr (b, t) \<Longrightarrow> adminStep s t"
| apply_limits: "applyProductLimits userId changes s = Inr (c, t) \<Longrightarrow> adminStep s t"
| create_group: "createGroup a gdto s = Inr (g, t) \<Longrightarrow> adminStep s t"
| update_group: "updateGroup a i gupd s = Inr (g, t) \<Longrightarrow> adminStep s t"
| remove_group: "removeGroup a hasSettings i s = Inr (u, t) \<Longrightarrow> adminStep s t"
| move_users: "moveUsers config showTime a i userIds toGroupId s = Inr (n, t) \<Longrightarrow> adminStep s t"
| time_passes: "adminStep s (s\<lparr>db_now := now\<rparr>)"

lemma holds_admin: "holdsE (\<lambda>_. admin_ok) m \<Longrightarrow> m = Inr (x, t) \<Longrightarrow> admin_ok t"
  by (simp add: holdsE_def)

lemmas operations_ok =
  holds_admin [OF createRule_ok, rotated] holds_admin [OF updateRule_ok, rotated] holds_admin [OF deleteRule_ok, rotated]
  holds_admin [OF bulkUpsert_ok, rotated] holds_admin [OF applyProductLimits_ok, rotated]
  holds_admin [OF createGroup_ok, rotated] holds_admin [OF updateGroup_ok, rotated]
  holds_admin [OF removeGroup_ok, rotated] holds_admin [OF moveUsers_ok, rotated]

lemma adminStep_ok: "adminStep s t \<Longrightarrow> admin_ok s \<Longrightarrow> admin_ok t"
proof (induction rule: adminStep.induct)
  case (time_passes s now)
  then show ?case by (rule admin_ok_bump) simp_all
qed (erule (1) operations_ok)+

lemma adminRun_ok: "adminStep\<^sup>*\<^sup>* s t \<Longrightarrow> admin_ok s \<Longrightarrow> admin_ok t"
  by (induction rule: rtranclp_induct) (auto intro: adminStep_ok)

text \<open>
  C12. Along every run of the administration, each rule names at most one of a product, an instrument and a
  type and only the user or the group its scope asks for, its limit is not negative and what it names exists;
  the codes of the groups differ, at most one of them is the default, and the group of a user exists.
\<close>

theorem administration_well_formed:
  assumes "adminStep\<^sup>*\<^sup>* s t" and "admin_ok s"
  shows "(\<forall>r\<in>set (policyRules t). selector_ok r \<and> scope_ok r \<and> 0 \<le> pr_limit r \<and> ruleReferences r t) \<and>
    distinct (map pr_id (policyRules t)) \<and> distinct (map cg_code (customerGroups t)) \<and>
    length (filter cg_isDefault (customerGroups t)) \<le> 1 \<and>
    (\<forall>u\<in>set (users t). us_customerGroupId u \<noteq> None \<longrightarrow>
      (\<exists>g\<in>set (customerGroups t). us_customerGroupId u = Some (cg_id g)))"
proof -
  have ok: "admin_ok t" by (rule adminRun_ok [OF assms])
  note d = admin_okD [OF ok]
  have "\<exists>g\<in>set (customerGroups t). us_customerGroupId u = Some (cg_id g)"
    if "u \<in> set (users t)" "us_customerGroupId u \<noteq> None" for u
    using that d(6) [OF that(1)] by auto
  then show ?thesis
    using d(1,2,4,5) unfolding rule_ok_def by blast
qed

definition adminDb :: db where
  "adminDb = emptyDb\<lparr>users := [houseUser], marketProducts :=
     [\<lparr>mp_id = ''p'', mp_code = ''COIN'', mp_productType = MarketProductType.COIN, mp_tradeType = TradeType.SPOT,
       mp_baseInstrumentId = ''c'', mp_unitType = PolicyMetric.COUNT, mp_isActive = True, mp_createdAt = 0,
       mp_displayName = [], mp_groupKey = [], mp_sortOrder = 0\<rparr>],
     instruments := [\<lparr>in_id = ''c'', in_code = ''COIN'', in_name = ''Coin'', in_type = InstrumentType.COIN,
    in_unit = InstrumentUnit.PIECE\<rparr>]\<rparr>"

lemma adminDb_ok: "admin_ok adminDb"
  by (simp add: adminDb_def admin_ok_def rules_ok_def groups_ok_def keys_ok_def emptyDb_def inj_unaryId houseUser_def HOUSE_USER_ID_def)

definition coinRule :: ruleDto where
  "coinRule = \<lparr>rd_scopeType = PolicyScopeType.GLOBAL, rd_scopeUserId = None, rd_scopeGroupId = None,
     rd_action = PolicyAction.TRADE_BUY, rd_metric = PolicyMetric.COUNT, rd_period = PolicyPeriod.DAILY,
     rd_limit = Numeric 5, rd_instrumentId = None, rd_instrumentType = None, rd_productId = Some ''p'',
     rd_minKycLevel = None, rd_enabled = None, rd_priority = None, rd_note = None\<rparr>"

lemma createCoinRule:
  "\<exists>r t. createRule ''admin'' coinRule adminDb = Inr (r, t) \<and> policyRules t = [r] \<and> pr_limit r = 5 \<and> pr_productId r = Some ''p''"
  by (simp add: createRule_def checkRuleDto_def coinRule_def validateScope_def validateSelector_def selectorOfDto_def
      normalizeSelector_def validateValue_def firstError_def insertRule_def ruleOfDto_def ruleReferences_def
      writeAudit_def adminDb_def emptyDb_def bumpId_def)

theorem administration_well_formed_witness:
  "\<exists>t. adminStep\<^sup>*\<^sup>* adminDb t \<and> length (policyRules t) = 1 \<and> (\<forall>r\<in>set (policyRules t). selector_ok r \<and> ruleReferences r t)"
proof -
  obtain r t where c: "createRule ''admin'' coinRule adminDb = Inr (r, t)" "policyRules t = [r]"
    using createCoinRule by blast
  have run: "adminStep\<^sup>*\<^sup>* adminDb t" by (rule r_into_rtranclp) (rule create_rule [OF c(1)])
  show ?thesis
    using administration_well_formed [OF run adminDb_ok] run c(2) by (intro exI [of _ t]) simp
qed

section \<open>Bulk requests\<close>

text \<open>The key of a rule: what two rules have in common when one replaces the other.\<close>

datatype upsertKey = UpsertKey PolicyScopeType "id option" "id option" PolicyAction PolicyMetric PolicyPeriod
  "id option" "id option" "InstrumentType option"

definition keyOfRule :: "policyRule \<Rightarrow> upsertKey" where
  "keyOfRule r = UpsertKey (pr_scopeType r) (pr_scopeUserId r) (pr_scopeGroupId r) (pr_action r) (pr_metric r) (pr_period r)
     (pr_productId r) (pr_instrumentId r) (pr_instrumentType r)"

definition itemKey :: "ruleDto \<Rightarrow> upsertKey" where
  "itemKey item = keyOfRule (ruleOfDto item emptyDb)"

lemma keyOfRule_new: "keyOfRule (ruleOfDto item s) = itemKey item"
  by (simp add: itemKey_def keyOfRule_def ruleOfDto_def Let_def)

lemma sameRule_key:
  assumes "selector_ok r"
  shows "sameRule item r \<longleftrightarrow> keyOfRule r = itemKey item"
  using assms
  by (cases "rd_productId item"; cases "rd_instrumentId item"; cases "rd_instrumentType item")
    (auto simp: sameRule_def itemKey_def keyOfRule_def ruleOfDto_def Let_def selectorOfDto_def normalizeSelector_def
      selector_ok_def)

definition ruleAt :: "upsertKey \<Rightarrow> db \<Rightarrow> policyRule option" where
  "ruleAt k s = findFirst (\<lambda>r. keyOfRule r = k) (policyRules s)"

lemma find_sameRule: "admin_ok s \<Longrightarrow> findFirst (sameRule item) (policyRules s) = ruleAt (itemKey item) s"
  unfolding ruleAt_def using admin_okD(2) [of s]
  by (intro find_cong_set sameRule_key) (simp add: rule_ok_def)

text \<open>A rule that is as an item asks.\<close>

definition follows :: "ruleDto \<Rightarrow> policyRule \<Rightarrow> bool" where
  "follows item r \<longleftrightarrow> pr_limit r = decText (Some (rd_limit item)) \<and> pr_enabled r = withDefault (rd_enabled item) True \<and>
     pr_priority r = withDefault (rd_priority item) 100"

lemma find_replace_row:
  assumes "distinct (map k xs)" "findFirst P xs = Some x" "P y" "k y = k x"
  shows "findFirst P (updateRows (\<lambda>z. k z = k y) (\<lambda>_. y) xs) = Some y"
    "\<And>Q. \<not> Q x \<Longrightarrow> \<not> Q y \<Longrightarrow> findFirst Q (updateRows (\<lambda>z. k z = k y) (\<lambda>_. y) xs) = findFirst Q xs"
proof -
  show "findFirst P (updateRows (\<lambda>z. k z = k y) (\<lambda>_. y) xs) = Some y"
    using assms
  proof (induction xs)
    case (Cons z zs)
    then show ?case using find_SomeD [of P zs x] by (auto split: if_splits)
  qed simp
  have x: "x \<in> set xs" using find_SomeD [OF assms(2)] by simp
  show "findFirst Q (updateRows (\<lambda>z. k z = k y) (\<lambda>_. y) xs) = findFirst Q xs" if "\<not> Q x" "\<not> Q y" for Q
    using assms(1,4) x that
  proof (induction xs)
    case (Cons z zs)
    show ?case
    proof (cases "k z = k y")
      case True
      with Cons.prems have "updateRows (\<lambda>z. k z = k y) (\<lambda>_. y) zs = zs" by (intro updateRows_none) (auto simp: image_iff)
      moreover have "z = x" using True Cons.prems by (auto simp: image_iff)
      ultimately show ?thesis using True Cons.prems by simp
    next
      case False
      have "findFirst Q (updateRows (\<lambda>z. k z = k y) (\<lambda>_. y) zs) = findFirst Q zs"
        by (rule Cons.IH) (use Cons.prems False in auto)
      then show ?thesis using False by simp
    qed
  qed simp
qed

text \<open>What an item does: it makes the rule of its key as it asks, and leaves the rules of other keys alone.\<close>

lemma upsert_effect:
  assumes ok: "admin_ok s" and run: "upsertRule actorId item res s = Inr (res', t)"
  shows "\<exists>r. ruleAt (itemKey item) t = Some r \<and> follows item r"
    and "\<And>k. k \<noteq> itemKey item \<Longrightarrow> ruleAt k t = ruleAt k s"
    and "checkRuleDto item = None"
    and "length (br_createdIds res') + length (br_updatedIds res') = Suc (length (br_createdIds res) + length (br_updatedIds res))"
    and "length (policyRules t) + length (br_createdIds res) = length (policyRules s) + length (br_createdIds res')"
proof -
  show check: "checkRuleDto item = None"
    using run by (auto simp: upsertRule_def split: option.splits)
  have "(\<exists>r. ruleAt (itemKey item) t = Some r \<and> follows item r) \<and> (\<forall>k. k \<noteq> itemKey item \<longrightarrow> ruleAt k t = ruleAt k s) \<and>
    length (br_createdIds res') + length (br_updatedIds res') = Suc (length (br_createdIds res) + length (br_updatedIds res)) \<and>
    length (policyRules t) + length (br_createdIds res) = length (policyRules s) + length (br_createdIds res')"
  proof (cases "ruleAt (itemKey item) s")
    case (Some r)
    let ?sel = "selectorOfDto item"
    let ?r = "r\<lparr>pr_limit := decText (Some (rd_limit item)), pr_minKycLevel := withDefault (rd_minKycLevel item) (pr_minKycLevel r),
      pr_enabled := withDefault (rd_enabled item) True, pr_priority := withDefault (rd_priority item) 100,
      pr_note := withDefault (rd_note item) (pr_note r), pr_productId := sel_productId ?sel,
      pr_instrumentId := sel_instrumentId ?sel, pr_instrumentType := sel_instrumentType ?sel, pr_updatedAt := db_now s\<rparr>"
    have key: "keyOfRule r = itemKey item" using find_SomeD [OF Some [unfolded ruleAt_def]] by simp
    have key': "keyOfRule ?r = itemKey item"
      using key by (simp add: keyOfRule_def itemKey_def ruleOfDto_def Let_def)
    have t: "policyRules t = updateRows (\<lambda>x. pr_id x = pr_id ?r) (\<lambda>_. ?r) (policyRules s)"
      and res: "res' = res\<lparr>br_updatedIds := br_updatedIds res @ [pr_id r]\<rparr>"
      using run check Some
      by (auto simp: upsertRule_def find_sameRule [OF ok] storeRule_def writeAudit_def bumpId_def Let_def split: if_splits)
    have d: "distinct (map pr_id (policyRules s))" using admin_okD(1) [OF ok] by blast
    note f = find_replace_row [OF d Some [unfolded ruleAt_def], where y = ?r]
    have "ruleAt (itemKey item) t = Some ?r" unfolding ruleAt_def t by (rule f(1)) (simp_all add: key' del: select_convs)
    moreover have "ruleAt k t = ruleAt k s" if "k \<noteq> itemKey item" for k
      unfolding ruleAt_def t by (rule f(2)) (use key key' that in auto)
    ultimately show ?thesis using t res by (auto simp: follows_def)
  next
    case None
    let ?r = "ruleOfDto item s"
    have t: "policyRules t = policyRules s @ [?r]" and res: "res' = res\<lparr>br_createdIds := br_createdIds res @ [pr_id ?r]\<rparr>"
      using run check None
      by (auto simp: upsertRule_def find_sameRule [OF ok] insertRule_def writeAudit_def bumpId_def Let_def split: if_splits)
    have "ruleAt (itemKey item) t = Some ?r"
      using None by (simp add: ruleAt_def t find_append keyOfRule_new)
    moreover have "ruleAt k t = ruleAt k s" if "k \<noteq> itemKey item" for k
      using that by (simp add: ruleAt_def t find_append keyOfRule_new split: option.split)
    moreover have "follows item ?r" by (simp add: follows_def ruleOfDto_def Let_def)
    ultimately show ?thesis using t res by auto
  qed
  then show "\<exists>r. ruleAt (itemKey item) t = Some r \<and> follows item r" "\<And>k. k \<noteq> itemKey item \<Longrightarrow> ruleAt k t = ruleAt k s"
    "length (br_createdIds res') + length (br_updatedIds res') = Suc (length (br_createdIds res) + length (br_updatedIds res))"
    "length (policyRules t) + length (br_createdIds res) = length (policyRules s) + length (br_createdIds res')"
    by blast+
qed

text \<open>An item whose rule is there is stored in it, and creates nothing.\<close>

lemma upsert_again:
  assumes "admin_ok s" "checkRuleDto item = None" "ruleAt (itemKey item) s \<noteq> None"
  shows "\<exists>res' t. upsertRule actorId item res s = Inr (res', t) \<and> br_createdIds res' = br_createdIds res"
proof -
  obtain r where r: "ruleAt (itemKey item) s = Some r" using assms(3) by blast
  have "r \<in> set (policyRules s)" "keyOfRule r = itemKey item"
    using find_SomeD [OF r [unfolded ruleAt_def]] by simp_all
  then have "ruleReferences r s" using admin_okD(2) [OF assms(1)] by (simp add: rule_ok_def)
  with \<open>keyOfRule r = itemKey item\<close> show ?thesis
    using assms(2) r
    by (auto simp: upsertRule_def find_sameRule [OF assms(1)] storeRule_def writeAudit_def ruleReferences_def
        keyOfRule_def itemKey_def ruleOfDto_def Let_def)
qed

lemma foldE_Cons_elim:
  assumes "foldE (x # xs) body v s = Inr (w, t)"
  obtains v' s' where "body x v s = Inr (v', s')" "foldE xs body v' s' = Inr (w, t)"
  using assms by (auto elim: bindE_elim)

lemma bulk_effect:
  assumes "admin_ok s" "foldE items (upsertRule actorId) res s = Inr (res', t)"
  shows "admin_ok t"
    and "length (br_createdIds res') + length (br_updatedIds res') = length items + length (br_createdIds res) + length (br_updatedIds res)"
    and "length (policyRules t) + length (br_createdIds res) = length (policyRules s) + length (br_createdIds res')"
    and "\<And>k. k \<notin> itemKey ` set items \<Longrightarrow> ruleAt k t = ruleAt k s"
    and "\<And>xs item ys. items = xs @ item # ys \<Longrightarrow> itemKey item \<notin> itemKey ` set ys \<Longrightarrow>
      \<exists>r. ruleAt (itemKey item) t = Some r \<and> follows item r"
    and "\<And>item. item \<in> set items \<Longrightarrow> checkRuleDto item = None \<and> ruleAt (itemKey item) t \<noteq> None"
proof -
  have "admin_ok t \<and>
    length (br_createdIds res') + length (br_updatedIds res') = length items + length (br_createdIds res) + length (br_updatedIds res) \<and>
    length (policyRules t) + length (br_createdIds res) = length (policyRules s) + length (br_createdIds res') \<and>
    (\<forall>k. k \<notin> itemKey ` set items \<longrightarrow> ruleAt k t = ruleAt k s) \<and>
    (\<forall>xs item ys. items = xs @ item # ys \<longrightarrow> itemKey item \<notin> itemKey ` set ys \<longrightarrow>
      (\<exists>r. ruleAt (itemKey item) t = Some r \<and> follows item r)) \<and>
    (\<forall>item\<in>set items. checkRuleDto item = None \<and> ruleAt (itemKey item) t \<noteq> None) \<and>
    (\<forall>k. ruleAt k s \<noteq> None \<longrightarrow> ruleAt k t \<noteq> None)"
    using assms
  proof (induction items arbitrary: s res)
    case (Cons x items)
    obtain res1 s1 where x: "upsertRule actorId x res s = Inr (res1, s1)"
      and rest: "foldE items (upsertRule actorId) res1 s1 = Inr (res', t)"
      using Cons.prems(2) by (rule foldE_Cons_elim)
    have ok: "admin_ok s1" by (rule holds_admin [OF upsertRule_ok [OF Cons.prems(1)] x])
    note e = upsert_effect [OF Cons.prems(1) x]
    note ih = Cons.IH [OF ok rest]
    have here: "\<exists>r. ruleAt (itemKey x) t = Some r \<and> follows x r" if "itemKey x \<notin> itemKey ` set items"
      using e(1) ih that by auto
    have last: "\<exists>r. ruleAt (itemKey item) t = Some r \<and> follows item r"
      if "x # items = xs @ item # ys" "itemKey item \<notin> itemKey ` set ys" for xs item ys
      using that here ih by (cases xs) auto
    have "ruleAt k s1 \<noteq> None" if "ruleAt k s \<noteq> None" for k
      using that e(1,2) by (cases "k = itemKey x") auto
    moreover have "ruleAt k t = ruleAt k s" if "k \<notin> itemKey ` set (x # items)" for k
      using that e(2) ih by auto
    ultimately show ?case using e(1,3,4,5) ih last by auto
  qed simp
  then show "admin_ok t"
    "length (br_createdIds res') + length (br_updatedIds res') = length items + length (br_createdIds res) + length (br_updatedIds res)"
    "length (policyRules t) + length (br_createdIds res) = length (policyRules s) + length (br_createdIds res')"
    "\<And>k. k \<notin> itemKey ` set items \<Longrightarrow> ruleAt k t = ruleAt k s"
    "\<And>xs item ys. items = xs @ item # ys \<Longrightarrow> itemKey item \<notin> itemKey ` set ys \<Longrightarrow>
      \<exists>r. ruleAt (itemKey item) t = Some r \<and> follows item r"
    "\<And>item. item \<in> set items \<Longrightarrow> checkRuleDto item = None \<and> ruleAt (itemKey item) t \<noteq> None"
    by blast+
qed

lemma bulk_again:
  assumes "admin_ok s" "\<And>item. item \<in> set items \<Longrightarrow> checkRuleDto item = None \<and> ruleAt (itemKey item) s \<noteq> None"
  shows "\<exists>res' t. foldE items (upsertRule actorId) res s = Inr (res', t) \<and> br_createdIds res' = br_createdIds res"
  using assms
proof (induction items arbitrary: s res)
  case (Cons x items)
  have "checkRuleDto x = None" "ruleAt (itemKey x) s \<noteq> None" using Cons.prems(2) [of x] by simp_all
  from upsert_again [OF Cons.prems(1) this, of actorId res]
  obtain res1 s1 where x: "upsertRule actorId x res s = Inr (res1, s1)" "br_createdIds res1 = br_createdIds res"
    by blast
  note e = upsert_effect [OF Cons.prems(1) x(1)]
  have ok: "admin_ok s1" by (rule holds_admin [OF upsertRule_ok [OF Cons.prems(1)] x(1)])
  have "ruleAt (itemKey item) s1 \<noteq> None" if "item \<in> set items" for item
    using e(1) e(2) [of "itemKey item"] Cons.prems(2) [of item] that by (cases "itemKey item = itemKey x") auto
  with Cons.IH [OF ok, of res1] Cons.prems(2) x show ?case by auto
qed simp

text \<open>
  A bulk request that succeeds stores every item once, in the rule of its scope, request and selector or
  in a new one: afterwards that rule has the limit, the state and the priority of the last item for it, no
  other rule has changed, and sent again the request updates every rule and creates none.
\<close>

theorem bulk_upsert_is_idempotent:
  assumes "admin_ok s" and "bulkUpsert actorId items s = Inr (res, t)"
  shows "(\<forall>xs item ys. items = xs @ item # ys \<and> itemKey item \<notin> itemKey ` set ys \<longrightarrow>
      (\<exists>r. ruleAt (itemKey item) t = Some r \<and> follows item r)) \<and>
    (\<forall>k. k \<notin> itemKey ` set items \<longrightarrow> ruleAt k t = ruleAt k s) \<and>
    length (br_createdIds res) + length (br_updatedIds res) = length items \<and>
    length (policyRules t) = length (policyRules s) + length (br_createdIds res) \<and>
    (\<exists>res' u. bulkUpsert actorId' items t = Inr (res', u) \<and> br_createdIds res' = [] \<and>
      length (br_updatedIds res') = length items \<and> length (policyRules u) = length (policyRules t))"
proof -
  note e = bulk_effect [OF assms(1) assms(2) [unfolded bulkUpsert_def]]
  obtain res' u where again: "bulkUpsert actorId' items t = Inr (res', u)" "br_createdIds res' = []"
    using bulk_again [OF e(1), of items actorId' "\<lparr>br_createdIds = [], br_updatedIds = []\<rparr>"] e(6)
    unfolding bulkUpsert_def by auto
  note e' = bulk_effect [OF e(1) again(1) [unfolded bulkUpsert_def]]
  show ?thesis using e(2-5) e'(2,3) again by auto
qed

theorem bulk_upsert_is_idempotent_witness:
  "\<exists>res t res' u. bulkUpsert ''admin'' [coinRule, coinRule\<lparr>rd_limit := Numeric 7\<rparr>] adminDb = Inr (res, t) \<and>
     bulkUpsert ''admin'' [coinRule, coinRule\<lparr>rd_limit := Numeric 7\<rparr>] t = Inr (res', u) \<and>
     br_createdIds res' = [] \<and> length (policyRules u) = 1"
proof -
  have "\<exists>res t. bulkUpsert ''admin'' [coinRule, coinRule\<lparr>rd_limit := Numeric 7\<rparr>] adminDb = Inr (res, t) \<and> length (policyRules t) = 1"
    by (simp add: bulkUpsert_def upsertRule_def checkRuleDto_def coinRule_def validateScope_def validateSelector_def
        selectorOfDto_def normalizeSelector_def validateValue_def firstError_def insertRule_def storeRule_def sameRule_def
        ruleOfDto_def ruleReferences_def writeAudit_def adminDb_def emptyDb_def bumpId_def Let_def)
  then obtain res t where r: "bulkUpsert ''admin'' [coinRule, coinRule\<lparr>rd_limit := Numeric 7\<rparr>] adminDb = Inr (res, t)"
    "length (policyRules t) = 1" by blast
  show ?thesis using bulk_upsert_is_idempotent [OF adminDb_ok r(1), of "''admin''"] r by auto
qed

section \<open>A limit that is set is the limit that counts\<close>

text \<open>The request that changes one cell of the grid.\<close>

definition oneCell :: "id \<Rightarrow> PolicyAction \<Rightarrow> PolicyPeriod \<Rightarrow> cellChange \<Rightarrow> productChange" where
  "oneCell productId action period c =
     (let cell = (\<lambda>a p. if action = a \<and> period = p then Some c else None)
      in \<lparr>pg_productId = productId,
          pg_buyDaily = cell PolicyAction.TRADE_BUY PolicyPeriod.DAILY,
          pg_buyMonthly = cell PolicyAction.TRADE_BUY PolicyPeriod.MONTHLY,
          pg_sellDaily = cell PolicyAction.TRADE_SELL PolicyPeriod.DAILY,
          pg_sellMonthly = cell PolicyAction.TRADE_SELL PolicyPeriod.MONTHLY\<rparr>)"

lemma apply_oneCell:
  assumes "action \<in> {PolicyAction.TRADE_BUY, PolicyAction.TRADE_SELL}"
    and "u \<in> set (users s)" "us_id u = userId" "productById i s = Some product"
  shows "applyProductLimits userId [oneCell i action period c] s =
    applyCell userId product (Some c) action period \<lparr>ay_created = 0, ay_updated = 0, ay_deleted = 0\<rparr> s"
proof -
  have skip: "applyCell userId product None a p = (\<lambda>res s. Inr (res, s))" for a p
    by (simp add: applyCell_def fun_eq_iff)
  have nil: "foldE [] body = (\<lambda>v s. Inr (v, s))" for body :: "productChange \<Rightarrow> applyResult \<Rightarrow> db \<Rightarrow> applyResult tx"
    by (simp add: fun_eq_iff)
  have last: "bindE m (\<lambda>a s. Inr (a, s)) = m" for m :: "applyResult tx"
    by (cases m) (auto simp: bindE_def)
  show ?thesis
    using assms
    by (cases period) (auto simp: applyProductLimits_def applyChange_def oneCell_def skip nil last)
qed

lemma userCell_rule:
  "selector_ok r \<Longrightarrow> mp_id product \<noteq> [] \<Longrightarrow>
   userCell userId product action period r \<longleftrightarrow> userProductRule userId product action period r"
  by (auto simp: userCell_def userProductRule_def productSelector_def normalizeSelector_def selector_ok_def)

lemma hydrate_cong:
  assumes "users t = users s" "userKycs t = userKycs s"
  shows "hydrateContext ctx t = hydrateContext ctx s"
proof -
  have "getUserContext u t = getUserContext u s" for u
    by (simp add: getUserContext_def assms cong: option.case_cong)
  then show ?thesis by (simp add: hydrateContext_def)
qed

lemma hydrate_user:
  assumes "hydrateContext ctx s = Inr h"
  shows "pc_userId h = pc_userId ctx" "pc_productId h = pc_productId ctx"
    "pc_instrumentId h = pc_instrumentId ctx" "pc_instrumentType h = pc_instrumentType ctx"
  using assms by (auto simp: hydrateContext_def split: if_splits sum.splits)

lemma hydrate_total:
  assumes "u \<in> set (users s)" "us_id u = pc_userId ctx"
  shows "\<exists>h. hydrateContext ctx s = Inr h"
proof -
  have "findFirst (\<lambda>u. us_id u = pc_userId ctx) (users s) \<noteq> None"
    using assms by (auto simp: find_None_iff)
  then show ?thesis
    by (cases "hydrateContext ctx s") (auto simp: hydrateContext_def getUserContext_def split: if_splits sum.splits)
qed

lemma no_kyc_needed: "hasRequiredKyc level KycLevel.NONE"
  by (cases "withDefault level KycLevel.NONE") (simp_all add: hasRequiredKyc_def kycIndex_def)

text \<open>A rule of the user for the product that is enabled and asks for no KYC beats every other kind of rule.\<close>

lemma user_rule_selected:
  assumes only: "\<And>r. r \<in> set (policyRules t) \<Longrightarrow> userProductRule userId product action period r \<Longrightarrow> r = q"
    and q: "q \<in> set (policyRules t)" "userProductRule userId product action period q" "pr_enabled q" "pr_minKycLevel q = KycLevel.NONE"
    and ctx: "pc_userId ctx = userId" "pc_productId ctx = Some (mp_id product)" "mp_id product \<noteq> []"
    and u: "u \<in> set (users t)" "us_id u = userId"
  shows "\<exists>po. resolvePolicy action (mp_unitType product) period ctx t = Inr po \<and> po_value po = Some (pr_limit q) \<and>
    po_source po = Some PolicyScopeType.USER \<and> po_ruleId po = Some (pr_id q)"
proof -
  obtain h where h: "hydrateContext ctx t = Inr h" using hydrate_total [OF u(1), of ctx] u(2) ctx(1) by auto
  note hu = hydrate_user [OF h]
  let ?rules = "loadRulesForContext h t"
  have Q: "inScope action (mp_unitType product) period h q" "withinKyc h q" "q \<in> set ?rules"
    using q ctx hu
    by (simp_all add: inScope_def withinKyc_def userProductRule_def matchesScope_def matchesSelector_def
        loadRulesForContext_def no_kyc_needed)
  have key: "ruleKey q = (0, 0, pr_priority q, - pr_updatedAt q, - pr_createdAt q)"
    using q(2) ctx(3) by (simp add: ruleKey_def userProductRule_def selectorRank_def)
  show ?thesis
  proof (cases rule: resolution_choice [of ?rules action "mp_unitType product" period h])
    case none
    with Q show ?thesis by blast
  next
    case (some sel)
    let ?r = "se_rule sel"
    have "ruleKey ?r \<le> ruleKey q" by (rule some(7) [OF Q(3,1,2)])
    moreover have "0 \<le> scopeRank (pr_scopeType ?r)" by (cases "pr_scopeType ?r") simp_all
    moreover have "0 \<le> selectorRank ?r" by (simp add: selectorRank_def)
    ultimately have "scopeRank (pr_scopeType ?r) = 0" "selectorRank ?r = 0"
      unfolding key by (auto simp: ruleKey_def less_eq_prod_def)
    then have "pr_scopeType ?r = PolicyScopeType.USER" "truthy (pr_productId ?r)"
      by (cases "pr_scopeType ?r"; simp add: selectorRank_def split: if_splits)+
    with some(3) ctx hu have "userProductRule userId product action period ?r"
      by (simp add: userProductRule_def inScope_def matchesScope_def matchesSelector_def)
    moreover have "?r \<in> set (policyRules t)" using some(2) by (simp add: loadRulesForContext_def)
    ultimately have "?r = q" by (rule only [rotated])
    then show ?thesis
      using some(1,5,6) h q(2) by (simp add: resolvePolicy_def resolveWithTrace_def userProductRule_def)
  qed
qed

text \<open>The own rule of the user is the one that is selected, when he has none yet or an enabled one that asks for no KYC.\<close>

lemma limit_set_selected:
  assumes ok: "admin_ok s" and u: "u \<in> set (users s)" "us_id u = userId" and p: "productById i s = Some product"
    and act: "action \<in> {PolicyAction.TRADE_BUY, PolicyAction.TRADE_SELL}" and v: "0 < v"
    and one: "\<And>r. r \<in> set (policyRules s) \<Longrightarrow> userProductRule userId product action period r \<Longrightarrow>
      pr_enabled r \<and> pr_minKycLevel r = KycLevel.NONE \<and> (\<forall>x\<in>set (policyRules s). userProductRule userId product action period x \<longrightarrow> x = r)"
    and ctx: "pc_userId ctx = userId" "pc_productId ctx = Some i"
  shows "\<exists>res t po. applyProductLimits userId [oneCell i action period (SET (Some v))] s = Inr (res, t) \<and>
    resolvePolicy action (mp_unitType product) period ctx t = Inr po \<and>
    po_value po = Some v \<and> po_source po = Some PolicyScopeType.USER"
proof -
  note d = admin_okD [OF ok]
  have pr: "product \<in> set (marketProducts s)" "mp_id product = i" using find_SomeD [OF p [unfolded productById_def]] by simp_all
  have pid: "mp_id product \<noteq> []" using d(8) pr by (auto simp: image_iff)
  have cell: "findFirst (userCell userId product action period) (policyRules s) =
      findFirst (userProductRule userId product action period) (policyRules s)"
    by (rule find_cong_set) (use d(2) userCell_rule [OF _ pid] in \<open>simp add: rule_ok_def\<close>)
  have sel: "productSelector product = \<lparr>sel_productId = Some i, sel_instrumentId = None, sel_instrumentType = None\<rparr>"
    using pid pr by (simp add: productSelector_def normalizeSelector_def)
  show ?thesis
  proof (cases "findFirst (userProductRule userId product action period) (policyRules s)")
    case (Some r)
    have r: "r \<in> set (policyRules s)" "userProductRule userId product action period r" using find_SomeD [OF Some] by simp_all
    let ?q = "r\<lparr>pr_limit := v, pr_updatedAt := db_now s\<rparr>"
    let ?t = "s\<lparr>policyRules := updateRows (\<lambda>x. pr_id x = pr_id r) (\<lambda>_. ?q) (policyRules s)\<rparr>"
    have refs: "ruleReferences ?q s" using d(2) [OF r(1)] by (simp add: rule_ok_def ruleReferences_def)
    have run: "\<exists>res. applyProductLimits userId [oneCell i action period (SET (Some v))] s = Inr (res, ?t)"
      using v refs by (simp add: apply_oneCell [OF act u p] applyCell_def cell Some storeRule_def dec_def Let_def)
    have q: "?q \<in> set (policyRules ?t)" using r(1) by (auto simp: set_updateRows)
    have only: "x = ?q" if "x \<in> set (policyRules ?t)" "userProductRule userId product action period x" for x
      using that one [OF r] by (auto simp: set_updateRows split: if_splits)
    have "\<exists>po. resolvePolicy action (mp_unitType product) period ctx ?t = Inr po \<and> po_value po = Some (pr_limit ?q) \<and>
        po_source po = Some PolicyScopeType.USER \<and> po_ruleId po = Some (pr_id ?q)"
      by (rule user_rule_selected [OF only q])
        (use one [OF r] r(2) ctx pid pr(2) u in \<open>simp_all add: userProductRule_def\<close>)
    with run show ?thesis by auto
  next
    case None
    let ?q = "newUserRule userId product action period v s"
    let ?t = "(bumpId s)\<lparr>policyRules := policyRules s @ [?q]\<rparr>"
    have refs: "ruleReferences ?q s"
      using u pr by (auto simp: newUserRule_def sel Let_def ruleReferences_def)
    have run: "\<exists>res. applyProductLimits userId [oneCell i action period (SET (Some v))] s = Inr (res, ?t)"
      using v refs by (simp add: apply_oneCell [OF act u p] applyCell_def cell None insertRule_def dec_def)
    have q: "userProductRule userId product action period ?q" using pr(2) by (simp add: newUserRule_def sel Let_def userProductRule_def)
    have only: "x = ?q" if "x \<in> set (policyRules ?t)" "userProductRule userId product action period x" for x
      using that find_NoneD [OF None] by auto
    have "\<exists>po. resolvePolicy action (mp_unitType product) period ctx ?t = Inr po \<and> po_value po = Some (pr_limit ?q) \<and>
        po_source po = Some PolicyScopeType.USER \<and> po_ruleId po = Some (pr_id ?q)"
      by (rule user_rule_selected [OF only _ q])
        (use ctx pid pr(2) u in \<open>simp_all add: newUserRule_def Let_def bumpId_def\<close>)
    with run show ?thesis by (auto simp: newUserRule_def Let_def)
  qed
qed

text \<open>
  The same request on a rule that is disabled is answered as an update and has no effect: the rule stays
  disabled, and every policy resolved afterwards is what it was before.
\<close>

theorem limit_set_on_disabled_rule:
  assumes ok: "admin_ok s" and u: "u \<in> set (users s)" "us_id u = userId" and p: "productById i s = Some product"
    and act: "action \<in> {PolicyAction.TRADE_BUY, PolicyAction.TRADE_SELL}" and v: "0 < v"
    and r: "findFirst (userProductRule userId product action period) (policyRules s) = Some r" "\<not> pr_enabled r"
  shows "\<exists>res t. applyProductLimits userId [oneCell i action period (SET (Some v))] s = Inr (res, t) \<and> ay_updated res = 1 \<and>
    (\<forall>a m per ctx. resolvePolicy a m per ctx t = resolvePolicy a m per ctx s)"
proof -
  note d = admin_okD [OF ok]
  have pr: "product \<in> set (marketProducts s)" "mp_id product = i" using find_SomeD [OF p [unfolded productById_def]] by simp_all
  have pid: "mp_id product \<noteq> []" using d(8) pr by (auto simp: image_iff)
  have "findFirst (userCell userId product action period) (policyRules s) =
      findFirst (userProductRule userId product action period) (policyRules s)"
    by (rule find_cong_set) (use d(2) userCell_rule [OF _ pid] in \<open>simp add: rule_ok_def\<close>)
  then have cell: "findFirst (userCell userId product action period) (policyRules s) = Some r" using r by simp
  have mem: "r \<in> set (policyRules s)" using find_SomeD [OF r(1)] by simp
  let ?q = "r\<lparr>pr_limit := v, pr_updatedAt := db_now s\<rparr>"
  let ?t = "s\<lparr>policyRules := updateRows (\<lambda>x. pr_id x = pr_id r) (\<lambda>_. ?q) (policyRules s)\<rparr>"
  have refs: "ruleReferences ?q s" using d(2) [OF mem] by (simp add: rule_ok_def ruleReferences_def)
  have run: "\<exists>res. applyProductLimits userId [oneCell i action period (SET (Some v))] s = Inr (res, ?t) \<and> ay_updated res = 1"
    using v refs by (simp add: apply_oneCell [OF act u p] applyCell_def cell storeRule_def dec_def Let_def)
  have same: "x = r" if "x \<in> set (policyRules s)" "pr_id x = pr_id r" for x
    using d(1) that mem by (auto simp: keys_ok_def distinct_map dest: inj_onD)
  have keep: "filter P (updateRows (\<lambda>x. pr_id x = pr_id r) (\<lambda>_. ?q) xs) = filter P xs"
    if "\<And>x. P x \<Longrightarrow> pr_enabled x" "set xs \<subseteq> set (policyRules s)" for P xs
    using that(2)
  proof (induction xs)
    case (Cons x xs)
    then show ?case using same [of x] that(1) [of x] that(1) [of ?q] r(2) by auto
  qed simp
  have load: "loadRulesForContext ctx ?t = loadRulesForContext ctx s" for ctx
    unfolding loadRulesForContext_def by simp (rule keep, simp_all)
  have hyd: "hydrateContext ctx ?t = hydrateContext ctx s" for ctx
    by (rule hydrate_cong) simp_all
  have "resolvePolicy a m per ctx ?t = resolvePolicy a m per ctx s" for a m per ctx
    unfolding resolvePolicy_def resolveWithTrace_def load hyd ..
  with run show ?thesis by auto
qed

definition disabledRule :: policyRule where
  "disabledRule = \<lparr>pr_id = unaryId 0, pr_createdAt = 0, pr_updatedAt = 0, pr_scopeType = PolicyScopeType.USER,
     pr_scopeUserId = Some HOUSE_USER_ID, pr_scopeGroupId = None, pr_action = PolicyAction.TRADE_BUY,
     pr_metric = PolicyMetric.COUNT, pr_period = PolicyPeriod.DAILY, pr_limit = 1, pr_minKycLevel = KycLevel.NONE,
     pr_instrumentId = None, pr_instrumentType = None, pr_productId = Some ''p'', pr_enabled = False,
     pr_priority = 100, pr_note = None\<rparr>"

theorem limit_set_on_disabled_rule_witness:
  "\<exists>res t. applyProductLimits HOUSE_USER_ID [oneCell ''p'' PolicyAction.TRADE_BUY PolicyPeriod.DAILY (SET (Some 9))]
      (adminDb\<lparr>db_seq := 1, policyRules := [disabledRule]\<rparr>) = Inr (res, t) \<and> ay_updated res = 1"
proof -
  let ?s = "adminDb\<lparr>db_seq := 1, policyRules := [disabledRule]\<rparr>"
  let ?p = "\<lparr>mp_id = ''p'', mp_code = ''COIN'', mp_productType = MarketProductType.COIN, mp_tradeType = TradeType.SPOT,
       mp_baseInstrumentId = ''c'', mp_unitType = PolicyMetric.COUNT, mp_isActive = True, mp_createdAt = 0,
       mp_displayName = [], mp_groupKey = [], mp_sortOrder = 0\<rparr>"
  have ok: "admin_ok ?s"
    by (simp add: adminDb_def admin_ok_def rules_ok_def groups_ok_def keys_ok_def emptyDb_def inj_unaryId houseUser_def
        HOUSE_USER_ID_def disabledRule_def rule_ok_def selector_ok_def scope_ok_def ruleReferences_def)
  have "houseUser \<in> set (users ?s)" "us_id houseUser = HOUSE_USER_ID" "productById ''p'' ?s = Some ?p"
    "findFirst (userProductRule HOUSE_USER_ID ?p PolicyAction.TRADE_BUY PolicyPeriod.DAILY) (policyRules ?s) = Some disabledRule"
    by (simp_all add: adminDb_def houseUser_def productById_def userProductRule_def disabledRule_def)
  then show ?thesis
    using limit_set_on_disabled_rule [OF ok, of houseUser HOUSE_USER_ID "''p''" ?p PolicyAction.TRADE_BUY 9 PolicyPeriod.DAILY disabledRule]
    by (auto simp: disabledRule_def)
qed

lemma limit_set_succeeds:
  assumes ok: "admin_ok s" and u: "u \<in> set (users s)" "us_id u = userId" and p: "productById i s = Some product"
    and act: "action \<in> {PolicyAction.TRADE_BUY, PolicyAction.TRADE_SELL}" and v: "0 < v"
  shows "\<exists>res t. applyProductLimits userId [oneCell i action period (SET (Some v))] s = Inr (res, t)"
proof -
  note d = admin_okD [OF ok]
  have pr: "product \<in> set (marketProducts s)" "mp_id product = i" using find_SomeD [OF p [unfolded productById_def]] by simp_all
  have pid: "mp_id product \<noteq> []" using d(8) pr by (auto simp: image_iff)
  have cell: "findFirst (userCell userId product action period) (policyRules s) =
      findFirst (userProductRule userId product action period) (policyRules s)"
    by (rule find_cong_set) (use d(2) userCell_rule [OF _ pid] in \<open>simp add: rule_ok_def\<close>)
  show ?thesis
  proof (cases "findFirst (userProductRule userId product action period) (policyRules s)")
    case (Some r)
    have "r \<in> set (policyRules s)" using find_SomeD [OF Some] by simp
    then have "ruleReferences (r\<lparr>pr_limit := v, pr_updatedAt := db_now s\<rparr>) s" using d(2) by (simp add: rule_ok_def ruleReferences_def)
    then show ?thesis
      using v by (simp add: apply_oneCell [OF act u p] applyCell_def cell Some storeRule_def dec_def Let_def)
  next
    case None
    have "ruleReferences (newUserRule userId product action period v s) s"
      using u pr pid by (auto simp: newUserRule_def productSelector_def normalizeSelector_def Let_def ruleReferences_def)
    then show ?thesis
      using v by (simp add: apply_oneCell [OF act u p] applyCell_def cell None insertRule_def dec_def)
  qed
qed

text \<open>
  C38. Setting the limit of a user for a product always succeeds, when he has at most one rule of his own for the product,
  action and period. It takes effect at once when he has none yet, or an enabled one that asks for no KYC: the policy
  resolved for this user and product is the new limit, from the user's own rule, whatever the rules of his group and the
  global ones say. When his own rule is disabled it has no effect at all: every policy resolved afterwards, for whom and
  whatever it is, is what it was before.
\<close>

theorem limit_set_takes_effect:
  assumes ok: "admin_ok s" and u: "u \<in> set (users s)" "us_id u = userId" and p: "productById i s = Some product"
    and act: "action \<in> {PolicyAction.TRADE_BUY, PolicyAction.TRADE_SELL}" and v: "0 < v"
    and one: "\<And>r x. r \<in> set (policyRules s) \<Longrightarrow> userProductRule userId product action period r \<Longrightarrow>
      x \<in> set (policyRules s) \<Longrightarrow> userProductRule userId product action period x \<Longrightarrow> x = r"
    and ctx: "pc_userId ctx = userId" "pc_productId ctx = Some i"
  shows "\<exists>res t. applyProductLimits userId [oneCell i action period (SET (Some v))] s = Inr (res, t) \<and>
    ((\<forall>r\<in>set (policyRules s). userProductRule userId product action period r \<longrightarrow> pr_enabled r \<and> pr_minKycLevel r = KycLevel.NONE) \<longrightarrow>
      (\<exists>po. resolvePolicy action (mp_unitType product) period ctx t = Inr po \<and>
         po_value po = Some v \<and> po_source po = Some PolicyScopeType.USER)) \<and>
    ((\<exists>r\<in>set (policyRules s). userProductRule userId product action period r \<and> \<not> pr_enabled r) \<longrightarrow>
      (\<forall>a m per ctx. resolvePolicy a m per ctx t = resolvePolicy a m per ctx s))"
proof -
  obtain res t where run: "applyProductLimits userId [oneCell i action period (SET (Some v))] s = Inr (res, t)"
    using limit_set_succeeds [OF ok u p act v] by blast
  have "\<exists>po. resolvePolicy action (mp_unitType product) period ctx t = Inr po \<and> po_value po = Some v \<and> po_source po = Some PolicyScopeType.USER"
    if own: "\<forall>r\<in>set (policyRules s). userProductRule userId product action period r \<longrightarrow> pr_enabled r \<and> pr_minKycLevel r = KycLevel.NONE"
    using limit_set_selected [OF ok u p act v _ ctx, of period] own one run by auto
  moreover have "resolvePolicy a m per c t = resolvePolicy a m per c s"
    if r: "r \<in> set (policyRules s)" "userProductRule userId product action period r" "\<not> pr_enabled r" for r a m per c
  proof -
    obtain q where q: "findFirst (userProductRule userId product action period) (policyRules s) = Some q"
      using r(1,2) find_NoneD by (cases "findFirst (userProductRule userId product action period) (policyRules s)") force+
    have "q = r" using find_SomeD [OF q] one r(1,2) by blast
    then show ?thesis using limit_set_on_disabled_rule [OF ok u p act v] q r(3) run by fastforce
  qed
  ultimately show ?thesis using run by blast
qed

definition coinContext :: policyContext where
  "coinContext = \<lparr>pc_userId = HOUSE_USER_ID, pc_customerGroupId = None, pc_productId = Some ''p'', pc_instrumentId = Some ''c'',
     pc_instrumentType = Some InstrumentType.COIN, pc_tradeType = Some TradeType.SPOT, pc_kycLevel = None\<rparr>"

theorem limit_set_takes_effect_witness:
  "\<exists>res t po. applyProductLimits HOUSE_USER_ID
      [oneCell ''p'' PolicyAction.TRADE_SELL PolicyPeriod.MONTHLY (SET (Some 9))] adminDb = Inr (res, t) \<and>
    resolvePolicy PolicyAction.TRADE_SELL PolicyMetric.COUNT PolicyPeriod.MONTHLY coinContext t = Inr po \<and>
    po_value po = Some 9 \<and> po_source po = Some PolicyScopeType.USER"
proof -
  let ?p = "\<lparr>mp_id = ''p'', mp_code = ''COIN'', mp_productType = MarketProductType.COIN, mp_tradeType = TradeType.SPOT,
       mp_baseInstrumentId = ''c'', mp_unitType = PolicyMetric.COUNT, mp_isActive = True, mp_createdAt = 0,
       mp_displayName = [], mp_groupKey = [], mp_sortOrder = 0\<rparr>"
  have p: "productById ''p'' adminDb = Some ?p" by (simp add: productById_def adminDb_def)
  have "houseUser \<in> set (users adminDb)" "us_id houseUser = HOUSE_USER_ID"
    by (simp_all add: adminDb_def houseUser_def)
  then show ?thesis
    using limit_set_takes_effect [OF adminDb_ok _ _ p, of houseUser HOUSE_USER_ID PolicyAction.TRADE_SELL 9 PolicyPeriod.MONTHLY coinContext]
    by (simp add: coinContext_def adminDb_def emptyDb_def)
qed

section \<open>The grid and the resolution\<close>

lemma resolve_kyc_cong:
  assumes "pc_userId c = pc_userId d" "pc_customerGroupId c = pc_customerGroupId d" "pc_productId c = pc_productId d"
    "pc_instrumentId c = pc_instrumentId d" "pc_instrumentType c = pc_instrumentType d"
    and "kycIndex (Option.bind (pc_kycLevel c) id) = kycIndex (Option.bind (pc_kycLevel d) id)"
  shows "tr_selected (resolveFromRules rules a m per c) = tr_selected (resolveFromRules rules a m per d)"
proof -
  have "inScope a m per c r = inScope a m per d r" "withinKyc c r = withinKyc d r" for r
    using assms by (simp_all add: inScope_def matchesScope_def matchesSelector_def withinKyc_def hasRequiredKyc_def)
  moreover have "policyCandidateOf c = policyCandidateOf d"
    using assms by (simp add: fun_eq_iff policyCandidateOf_def matchesSelector_def hasRequiredKyc_def)
  ultimately show ?thesis by (simp add: resolveFromRules_unfold)
qed

text \<open>The context in which a request of the user for the product is resolved.\<close>

definition requestContext :: "user \<Rightarrow> marketProduct \<Rightarrow> instrument \<Rightarrow> policyContext" where
  "requestContext user product baseInstrument =
     \<lparr>pc_userId = us_id user, pc_customerGroupId = None, pc_productId = Some (mp_id product),
      pc_instrumentId = Some (mp_baseInstrumentId product), pc_instrumentType = Some (in_type baseInstrument),
      pc_tradeType = Some (mp_tradeType product), pc_kycLevel = None\<rparr>"

definition pendingUser :: user where
  "pendingUser = houseUser\<lparr>us_id := ''u''\<rparr>"

definition pendingDb :: db where
  "pendingDb = adminDb\<lparr>users := [pendingUser], userKycs := [\<lparr>uk_userId = ''u'', uk_status = KycStatus.PENDING,
       uk_level = KycLevel.FULL, uk_verifiedAt = None, uk_rejectedAt = None, uk_rejectReason = None, uk_updatedAt = 0\<rparr>],
     policyRules := [disabledRule\<lparr>pr_scopeType := PolicyScopeType.GLOBAL, pr_scopeUserId := None, pr_enabled := True,
       pr_minKycLevel := KycLevel.FULL\<rparr>]\<rparr>"

text \<open>
  A cell of the administrator's grid is the limit that is resolved for a request of the user, with the same
  rule, when the KYC of the user is verified or there is none; but the grid takes the level of a KYC that
  is not verified, so for a user whose full KYC is pending it shows a limit where there is none.
\<close>

theorem grid_agrees_with_resolution:
  "(\<forall>s user product inst action period.
      findFirst (\<lambda>u. us_id u = us_id user) (users s) = Some user \<longrightarrow>
      (\<forall>k. findKyc (us_id user) s = Some k \<longrightarrow> uk_status k = KycStatus.VERIFIED) \<longrightarrow>
      (\<exists>po. resolvePolicy action (mp_unitType product) period (requestContext user product inst) s = Inr po \<and>
        lc_effectiveValue (buildCell user product inst action period s) = po_value po \<and>
        lc_source (buildCell user product inst action period s) = po_source po \<and>
        lc_selectedRuleId (buildCell user product inst action period s) = po_ruleId po)) \<and>
   (\<exists>product inst po. lc_effectiveValue (buildCell pendingUser product inst PolicyAction.TRADE_BUY PolicyPeriod.DAILY pendingDb) = Some 1 \<and>
      resolvePolicy PolicyAction.TRADE_BUY (mp_unitType product) PolicyPeriod.DAILY (requestContext pendingUser product inst) pendingDb = Inr po \<and>
      po_value po = None \<and> po_kycRequiredLevel po = Some KycLevel.FULL)"
proof (intro conjI allI impI)
  fix s user product inst action period
  assume found: "findFirst (\<lambda>u. us_id u = us_id user) (users s) = Some user"
    and ver: "\<forall>k. findKyc (us_id user) s = Some k \<longrightarrow> uk_status k = KycStatus.VERIFIED"
  let ?level = "case findKyc (us_id user) s of None \<Rightarrow> KycLevel.NONE | Some k \<Rightarrow> uk_level k"
  let ?h = "(requestContext user product inst)\<lparr>pc_customerGroupId := Some (us_customerGroupId user), pc_kycLevel := Some (Some ?level)\<rparr>"
  have h: "hydrateContext (requestContext user product inst) s = Inr ?h"
    using found ver by (auto simp: hydrateContext_def getUserContext_def requestContext_def findKyc_def split: option.split)
  have load: "loadRulesForContext (gridContext user product inst s) s = loadRulesForContext ?h s"
    by (simp add: loadRulesForContext_def gridContext_def requestContext_def)
  have sel: "tr_selected (resolveFromRules rules a m per (gridContext user product inst s)) = tr_selected (resolveFromRules rules a m per ?h)"
    for rules a m per
    by (rule resolve_kyc_cong)
      (simp_all add: gridContext_def requestContext_def kycIndex_def split: option.split)
  show "\<exists>po. resolvePolicy action (mp_unitType product) period (requestContext user product inst) s = Inr po \<and>
        lc_effectiveValue (buildCell user product inst action period s) = po_value po \<and>
        lc_source (buildCell user product inst action period s) = po_source po \<and>
        lc_selectedRuleId (buildCell user product inst action period s) = po_ruleId po"
    by (simp add: resolvePolicy_def resolveWithTrace_def h buildCell_def load sel Let_def split: option.split)
next
  let ?p = "hd (marketProducts adminDb)" and ?i = "hd (instruments adminDb)"
  show "\<exists>product inst po. lc_effectiveValue (buildCell pendingUser product inst PolicyAction.TRADE_BUY PolicyPeriod.DAILY pendingDb) = Some 1 \<and>
      resolvePolicy PolicyAction.TRADE_BUY (mp_unitType product) PolicyPeriod.DAILY (requestContext pendingUser product inst) pendingDb = Inr po \<and>
      po_value po = None \<and> po_kycRequiredLevel po = Some KycLevel.FULL"
    by (rule exI [of _ ?p], rule exI [of _ ?i])
      (simp add: buildCell_def gridContext_def loadRulesForContext_def resolveFromRules_def resolvePolicy_def resolveWithTrace_def
        hydrateContext_def getUserContext_def requestContext_def pendingDb_def adminDb_def emptyDb_def pendingUser_def houseUser_def
        disabledRule_def findKyc_def matchesScope_def policyCandidateOf_def matchesSelector_def hasRequiredKyc_def kycIndex_def
        sortBy_def lowestLevel_def dec_def Let_def)
qed

theorem grid_agrees_with_resolution_witness:
  "findKyc HOUSE_USER_ID adminDb = None \<and> findUser HOUSE_USER_ID adminDb = Some houseUser \<and>
   (\<exists>po. resolvePolicy PolicyAction.TRADE_BUY (mp_unitType (hd (marketProducts adminDb))) PolicyPeriod.DAILY
        (requestContext houseUser (hd (marketProducts adminDb)) (hd (instruments adminDb))) adminDb = Inr po \<and>
      lc_effectiveValue (buildCell houseUser (hd (marketProducts adminDb)) (hd (instruments adminDb)) PolicyAction.TRADE_BUY
        PolicyPeriod.DAILY adminDb) = po_value po)"
proof -
  have found: "findUser HOUSE_USER_ID adminDb = Some houseUser" "findKyc HOUSE_USER_ID adminDb = None"
    by (simp_all add: findUser_def findKyc_def adminDb_def emptyDb_def houseUser_def)
  then have "findFirst (\<lambda>u. us_id u = us_id houseUser) (users adminDb) = Some houseUser"
    "\<forall>k. findKyc (us_id houseUser) adminDb = Some k \<longrightarrow> uk_status k = KycStatus.VERIFIED"
    by (simp_all add: findUser_def houseUser_def)
  then show ?thesis
    using grid_agrees_with_resolution [THEN conjunct1, rule_format, of houseUser adminDb] found by blast
qed

section \<open>The rules of a group that is deleted\<close>

text \<open>
  Deleting a group leaves its rules behind, enabled and without a group. The resolution the limits use
  never loads such a rule again; the older resolver gives it to every user who has no group; and no update
  that does not name a group or another scope can repair it.
\<close>

theorem removed_group_leaves_rules:
  assumes "removeGroup actorId hasSettings i s = Inr (x, t)"
    and "r \<in> set (policyRules s)" "pr_scopeType r = PolicyScopeType.GROUP" "pr_scopeGroupId r = Some i" "pr_enabled r"
    and "keys_ok s (map pr_id (policyRules s))"
  shows "r\<lparr>pr_scopeGroupId := None\<rparr> \<in> set (policyRules t) \<and>
    (\<forall>ctx. r\<lparr>pr_scopeGroupId := None\<rparr> \<notin> set (loadRulesForContext ctx t)) \<and>
    (\<forall>userId e. getEffectiveRules userId t = Inr e \<and> us_customerGroupId (ef_user e) = None \<longrightarrow>
      r\<lparr>pr_scopeGroupId := None\<rparr> \<in> set (ef_rules e)) \<and>
    (\<forall>a dto. ru_scopeType dto = None \<and> ru_scopeGroupId dto = None \<longrightarrow>
      updateRule a (pr_id r) dto t = Inl (BadRequestException ''INVALID_SCOPE_FIELDS''))"
proof -
  let ?r = "r\<lparr>pr_scopeGroupId := None\<rparr>"
  let ?rows = "updateRows (\<lambda>r. pr_scopeGroupId r = Some i) (\<lambda>r. r\<lparr>pr_scopeGroupId := None\<rparr>) (policyRules s)"
  have t: "policyRules t = ?rows"
    using assms(1) by (auto simp: removeGroup_def deleteGroupRow_def writeAudit_def bumpId_def split: option.splits if_splits)
  have mem: "?r \<in> set ?rows" using assms(2,4) by (auto simp: set_updateRows)
  have ids: "map pr_id ?rows = map pr_id (policyRules s)" by (rule map_updateRows) simp
  have "distinct (map pr_id ?rows)" unfolding ids using assms(6) by blast
  then have only: "x = ?r" if "x \<in> set ?rows" "pr_id x = pr_id r" for x
    using that mem inj_onD [of pr_id "set ?rows" x ?r] by (simp add: distinct_map)
  obtain x where x: "findRule (pr_id r) t = Some x"
    unfolding findRule_def t using find_exists [OF mem, of "\<lambda>x. pr_id x = pr_id r"] by auto
  have found: "findRule (pr_id r) t = Some ?r"
    using x only find_SomeD [OF x [unfolded findRule_def t]] by simp
  have "?r \<notin> set (loadRulesForContext ctx t)" for ctx
    using assms(3) by (auto simp: loadRulesForContext_def)
  moreover have "?r \<in> set (ef_rules e)"
    if "getEffectiveRules userId t = Inr e" "us_customerGroupId (ef_user e) = None" for userId e
    using that mem assms(3,5) by (auto simp: getEffectiveRules_def t resolverOrder.sortBy_set split: option.splits)
  moreover have "updateRule a (pr_id r) dto t = Inl (BadRequestException ''INVALID_SCOPE_FIELDS'')"
    if "ru_scopeType dto = None" "ru_scopeGroupId dto = None" for a dto
    unfolding updateRule_def found
    by (simp add: that assms(3) validateScope_def firstError_def normalized_selector_valid Let_def split: option.split)
  ultimately show ?thesis using mem t by auto
qed

definition vipDb :: db where
  "vipDb = adminDb\<lparr>db_seq := 2, customerGroups := [\<lparr>cg_id = unaryId 1, cg_code = ''VIP'', cg_name = ''VIP'',
       cg_tahesabGroupName = None, cg_isDefault = False\<rparr>],
     policyRules := [disabledRule\<lparr>pr_scopeType := PolicyScopeType.GROUP, pr_scopeUserId := None,
       pr_scopeGroupId := Some (unaryId 1), pr_enabled := True\<rparr>]\<rparr>"

theorem removed_group_leaves_rules_witness:
  "\<exists>t e. removeGroup ''admin'' False (unaryId 1) vipDb = Inr ((), t) \<and> customerGroups t = [] \<and>
    getEffectiveRules HOUSE_USER_ID t = Inr e \<and> ef_rules e \<noteq> []"
proof -
  let ?r = "disabledRule\<lparr>pr_scopeType := PolicyScopeType.GROUP, pr_scopeUserId := None,
       pr_scopeGroupId := Some (unaryId 1), pr_enabled := True\<rparr>"
  obtain t where t: "removeGroup ''admin'' False (unaryId 1) vipDb = Inr ((), t)" "customerGroups t = []" "users t = [houseUser]"
    by (simp add: removeGroup_def findGroup_def vipDb_def adminDb_def houseUser_def deleteGroupRow_def writeAudit_def bumpId_def)
  obtain e where e: "getEffectiveRules HOUSE_USER_ID t = Inr e" "ef_user e = houseUser"
    using t(3) by (simp add: getEffectiveRules_def houseUser_def)
  have "?r\<lparr>pr_scopeGroupId := None\<rparr> \<in> set (ef_rules e)"
    using removed_group_leaves_rules [OF t(1), of ?r] e
    by (simp add: vipDb_def adminDb_def emptyDb_def disabledRule_def houseUser_def keys_ok_def inj_unaryId)
  then have "ef_rules e \<noteq> []" by auto
  then show ?thesis using t(1,2) e(1) by blast
qed

section \<open>Checks that are not made\<close>

text \<open>
  A rule that is created with a product and an instrument is accepted for the product alone: the
  combination is checked after the selector has been reduced to one field, so that check never fails. And an
  update whose limit is null passes the check of the limit and sets it to zero.
\<close>

theorem rule_checks_passed_over:
  "(\<forall>actorId dto s r t. createRule actorId dto s = Inr (r, t) \<and> truthy (rd_productId dto) \<longrightarrow>
      pr_productId r = rd_productId dto \<and> pr_instrumentId r = None \<and> pr_instrumentType r = None) \<and>
   (\<forall>actorId dto s. createRule actorId dto s \<noteq> Inl (BadRequestException ''INVALID_SELECTOR_COMBINATION'')) \<and>
   (\<forall>actorId i dto s. updateRule actorId i dto s \<noteq> Inl (BadRequestException ''INVALID_SELECTOR_COMBINATION'')) \<and>
   (\<forall>actorId i dto s r t. ru_limit dto = Some None \<and> updateRule actorId i dto s = Inr (r, t) \<longrightarrow> pr_limit r = 0)"
proof -
  have e: "firstError [validateScope ty u g, None, validateValue v] \<noteq> Some (BadRequestException ''INVALID_SELECTOR_COMBINATION'')" for ty u g v
    by (auto simp: firstError_def validateScope_def validateValue_def split: option.split limitText.split)
  have "pr_productId r = rd_productId dto \<and> pr_instrumentId r = None \<and> pr_instrumentType r = None"
    if "createRule actorId dto s = Inr (r, t)" "truthy (rd_productId dto)" for actorId dto s r t
    using that by (auto simp: createRule_def insertRule_def writeAudit_def ruleOfDto_def selectorOfDto_def normalizeSelector_def
        Let_def split: option.splits if_splits)
  moreover have "createRule actorId dto s \<noteq> Inl (BadRequestException ''INVALID_SELECTOR_COMBINATION'')" for actorId dto s
    using e by (auto simp: createRule_def checkRuleDto_def selectorOfDto_def normalized_selector_valid insertRule_def writeAudit_def
        split: option.split)
  moreover have "updateRule actorId i dto s \<noteq> Inl (BadRequestException ''INVALID_SELECTOR_COMBINATION'')" for actorId i dto s
    using e by (auto simp: updateRule_def normalized_selector_valid storeRule_def writeAudit_def Let_def split: option.split)
  moreover have "pr_limit r = 0" if "ru_limit dto = Some None" "updateRule actorId i dto s = Inr (r, t)" for actorId i dto s r t
    using that by (auto simp: updateRule_def storeRule_def writeAudit_def dec_def Let_def split: option.splits if_splits)
  ultimately show ?thesis by blast
qed

definition bothSelectors :: ruleDto where
  "bothSelectors = coinRule\<lparr>rd_instrumentId := Some ''c''\<rparr>"

theorem rule_checks_passed_over_witness:
  "\<exists>r t. createRule ''admin'' bothSelectors adminDb = Inr (r, t) \<and> pr_productId r = Some ''p'' \<and> pr_instrumentId r = None"
proof -
  have "\<exists>r t. createRule ''admin'' bothSelectors adminDb = Inr (r, t)"
    by (simp add: createRule_def checkRuleDto_def bothSelectors_def coinRule_def validateScope_def validateSelector_def
        selectorOfDto_def normalizeSelector_def validateValue_def firstError_def insertRule_def ruleOfDto_def
        ruleReferences_def writeAudit_def adminDb_def emptyDb_def bumpId_def)
  then obtain r t where c: "createRule ''admin'' bothSelectors adminDb = Inr (r, t)" by blast
  have "truthy (rd_productId bothSelectors)" "rd_productId bothSelectors = Some ''p''" by (simp_all add: bothSelectors_def coinRule_def)
  then show ?thesis using rule_checks_passed_over c by metis
qed

end
