(* ===== verification/Users.thy ===== *)
theory Users
  imports PolicyAdmin Files
begin

text \<open>
  \<open>modules/auth\<close> and \<open>modules/users/users.service.ts\<close>: the accounts of the people. The hash of passwords
  (\<open>bcrypt\<close>), the signature of tokens and the printing of the time are arguments. A row of \<open>User\<close> holds the
  hash; what leaves the service is a \<open>safeUser\<close>, which has no field for it.
\<close>

section \<open>What leaves the service\<close>

record safeUser =
  sf_id :: id
  sf_fullName :: string
  sf_mobile :: string
  sf_email :: string
  sf_role :: UserRole
  sf_status :: UserStatus
  sf_customerGroupId :: "id option"
  sf_tahesabCustomerCode :: "string option"
  sf_createdAt :: time
  sf_updatedAt :: time

definition mapUserSafe :: "user \<Rightarrow> safeUser" where
  "mapUserSafe u = \<lparr>sf_id = us_id u, sf_fullName = us_fullName u, sf_mobile = us_mobile u, sf_email = us_email u,
     sf_role = us_role u, sf_status = us_status u, sf_customerGroupId = us_customerGroupId u,
     sf_tahesabCustomerCode = us_tahesabCustomerCode u, sf_createdAt = us_createdAt u, sf_updatedAt = us_updatedAt u\<rparr>"

section \<open>Reading users\<close>

definition userByMobile :: "string \<Rightarrow> db \<Rightarrow> user option" where
  "userByMobile mobile s = findFirst (\<lambda>u. us_mobile u = mobile) (users s)"

definition findById :: "id \<Rightarrow> db \<Rightarrow> err + safeUser" where
  "findById userId s =
     (case findUser userId s of
        None \<Rightarrow> Inl (NotFoundException ''User not found'')
      | Some u \<Rightarrow> Inr (mapUserSafe u))"

definition findByMobile :: "string \<Rightarrow> db \<Rightarrow> err + safeUser" where
  "findByMobile mobile s =
     (case userByMobile mobile s of
        None \<Rightarrow> Inl (NotFoundException ''User not found'')
      | Some u \<Rightarrow> Inr (mapUserSafe u))"

definition compareNewest :: "user \<Rightarrow> user \<Rightarrow> int" where
  "compareNewest a b = us_createdAt b - us_createdAt a"

definition findAllUsers :: "db \<Rightarrow> safeUser list" where
  "findAllUsers s = map mapUserSafe (sortBy compareNewest (users s))"

definition findWithPasswordByIdentifier :: "string \<Rightarrow> db \<Rightarrow> user option" where
  "findWithPasswordByIdentifier identifier s =
     findFirst (\<lambda>u. us_mobile u = identifier \<or> us_email u = identifier) (users s)"

section \<open>Writing users\<close>

text \<open>
  The unique columns of the table, in the order of its indexes: the first one in which a row would clash
  with a row of another identifier.
\<close>

definition uniqueClash :: "user \<Rightarrow> db \<Rightarrow> string option" where
  "uniqueClash row s =
     (let clash = (\<lambda>same. \<exists>u\<in>set (users s). us_id u \<noteq> us_id row \<and> same u)
      in if clash (\<lambda>u. us_mobile u = us_mobile row) then Some ''mobile''
         else if clash (\<lambda>u. us_email u = us_email row) then Some ''email''
         else if us_tahesabCustomerCode row \<noteq> None \<and> clash (\<lambda>u. us_tahesabCustomerCode u = us_tahesabCustomerCode row)
           then Some ''tahesabCustomerCode''
         else None)"

definition storeUser :: "user \<Rightarrow> db \<Rightarrow> user tx" where
  "storeUser row s =
     (let row = row\<lparr>us_updatedAt := db_now s\<rparr>
      in if uniqueClash row s \<noteq> None then Inl (UniqueConstraintViolation ''User'')
         else Inr (row, s\<lparr>users := updateRows (\<lambda>u. us_id u = us_id row) (\<lambda>_. row) (users s)\<rparr>))"

section \<open>What Tahesab is told\<close>

definition groupOf :: "user \<Rightarrow> db \<Rightarrow> customerGroup option" where
  "groupOf u s = Option.bind (us_customerGroupId u) (\<lambda>g. findGroup g s)"

definition buildMoshtariDto :: "user \<Rightarrow> db \<Rightarrow> moshtariPayload" where
  "buildMoshtariDto u s = \<lparr>ms_moshtariCode = us_tahesabCustomerCode u, ms_name = us_fullName u,
     ms_groupName = groupNameOf (groupOf u s), ms_tel = us_mobile u\<rparr>"

definition enqueueTahesabOnCreate :: "tahesabConfig \<Rightarrow> user \<Rightarrow> db \<Rightarrow> unit tx" where
  "enqueueTahesabOnCreate cfg user s =
     (if \<not> isEnabled cfg then Inr ((), s)
      else if \<not> truthy (us_tahesabCustomerCode user) then Inr ((), s)
      else case findUser (us_id user) s of
        None \<Rightarrow> Inr ((), s)
      | Some withGroup \<Rightarrow>
          enqueueOnce ''DoNewMoshtari'' (NewMoshtari (buildMoshtariDto withGroup s)) (''customer:create:'' @ us_id user) s)"

definition enqueueTahesabOnEdit :: "tahesabConfig \<Rightarrow> (time \<Rightarrow> string) \<Rightarrow> user \<Rightarrow> db \<Rightarrow> unit tx" where
  "enqueueTahesabOnEdit cfg showTime user s =
     (if \<not> isEnabled cfg then Inr ((), s)
      else if \<not> truthy (us_tahesabCustomerCode user) then Inr ((), s)
      else case findUser (us_id user) s of
        None \<Rightarrow> Inr ((), s)
      | Some withGroup \<Rightarrow>
          enqueueOnce ''DoEditMoshtari'' (EditMoshtari (buildMoshtariDto withGroup s))
            (''customer:edit:'' @ us_id user @ '':'' @ showTime (db_now s)) s)"

section \<open>UsersService\<close>

record createUserDto =
  cu_fullName :: string
  cu_mobile :: string
  cu_email :: string
  cu_password :: string
  cu_role :: "UserRole option"
  cu_tahesabCustomerCode :: "string option"

definition newUser :: "(string \<Rightarrow> string) \<Rightarrow> createUserDto \<Rightarrow> db \<Rightarrow> user" where
  "newUser hash dto s =
     \<lparr>us_id = freshId s, us_fullName = cu_fullName dto, us_mobile = cu_mobile dto, us_email = cu_email dto,
      us_role = withDefault (cu_role dto) UserRole.CLIENT, us_status = UserStatus.PENDING_APPROVAL,
      us_tahesabCustomerCode = cu_tahesabCustomerCode dto, us_customerGroupId = None,
      us_password = hash (cu_password dto), us_createdAt = db_now s, us_updatedAt = db_now s\<rparr>"

text \<open>
  The messages of the conflicts are in Persian; each is named by the column it speaks of. Whatever else
  fails inside the \<open>try\<close>, the announcement included, becomes an internal error. No transaction surrounds the row and its
  announcement, here and in \<open>updateUser\<close>, so that an announcement that failed would leave the row written. No branch
  of the announcement's code fails (\<open>announcement_total\<close>): what is refused is refused before the row is written
  (\<open>refused_before_written\<close>), and a loss of the connection to the database between the two is outside the model.
\<close>

definition createUser :: "tahesabConfig \<Rightarrow> (string \<Rightarrow> string) \<Rightarrow> createUserDto \<Rightarrow> db \<Rightarrow> safeUser tx" where
  "createUser cfg hash dto s =
     (let row = newUser hash dto s
      in case uniqueClash row s of
           Some column \<Rightarrow>
             Inl (ConflictException (if column = ''mobile'' \<or> column = ''email'' then column else ''user''))
         | None \<Rightarrow>
             (case enqueueTahesabOnCreate cfg row ((bumpId s)\<lparr>users := users s @ [row]\<rparr>) of
                Inl _ \<Rightarrow> Inl (InternalServerErrorException ''create'')
              | Inr r \<Rightarrow> Inr (mapUserSafe row, snd r)))"

definition activateUser :: "id \<Rightarrow> db \<Rightarrow> safeUser tx" where
  "activateUser userId s =
     (case findUser userId s of
        None \<Rightarrow> Inl (NotFoundException ''User not found'')
      | Some existing \<Rightarrow>
          bindE (storeUser (existing\<lparr>us_status := UserStatus.ACTIVE\<rparr>) s) (\<lambda>user s. Inr (mapUserSafe user, s)))"

record updateUserDto =
  uu_email :: "string option"
  uu_name :: "string option"
  uu_password :: "string option"

definition updateUser ::
  "tahesabConfig \<Rightarrow> (time \<Rightarrow> string) \<Rightarrow> (string \<Rightarrow> string) \<Rightarrow> id \<Rightarrow> updateUserDto \<Rightarrow> db \<Rightarrow> safeUser tx" where
  "updateUser cfg showTime hash i dto s =
     (case findUser i s of
        None \<Rightarrow> Inl (RecordNotFound ''User'')
      | Some existing \<Rightarrow>
          bindE (storeUser (existing\<lparr>us_email := withDefault (uu_email dto) (us_email existing),
                    us_fullName := withDefault (uu_name dto) (us_fullName existing),
                    us_password := (if truthy (uu_password dto) then hash (the (uu_password dto)) else us_password existing)\<rparr>) s)
            (\<lambda>user s.
          bindE (enqueueTahesabOnEdit cfg showTime user s) (\<lambda>_ s. Inr (mapUserSafe user, s))))"

section \<open>AuthService\<close>

record jwtPayload =
  jp_sub :: id
  jp_mobile :: string
  jp_role :: UserRole

text \<open>
  \<open>check\<close> compares a password with a hash and \<open>sign\<close> makes the token of a payload. Whether the user is active
  is not asked.
\<close>

definition login ::
  "(string \<Rightarrow> string \<Rightarrow> bool) \<Rightarrow> (jwtPayload \<Rightarrow> 'token) \<Rightarrow> string \<Rightarrow> string \<Rightarrow> db \<Rightarrow> err + 'token \<times> safeUser" where
  "login check sign mobile password s =
     (case userByMobile mobile s of
        None \<Rightarrow> Inl (UnauthorizedException ''Invalid credentials'')
      | Some user \<Rightarrow>
          (if \<not> check password (us_password user) then Inl (UnauthorizedException ''Invalid credentials'')
           else Inr (sign \<lparr>jp_sub = us_id user, jp_mobile = us_mobile user, jp_role = us_role user\<rparr>, mapUserSafe user)))"

record registerDto =
  rg_fullName :: string
  rg_mobile :: string
  rg_password :: string
  rg_email :: "string option"

definition register :: "tahesabConfig \<Rightarrow> (string \<Rightarrow> string) \<Rightarrow> registerDto \<Rightarrow> db \<Rightarrow> safeUser tx" where
  "register cfg hash dto s = createUser cfg hash
     \<lparr>cu_fullName = rg_fullName dto, cu_mobile = rg_mobile dto,
      cu_email = withDefault (rg_email dto) (rg_mobile dto @ ''@auto.local''),
      cu_password = rg_password dto, cu_role = Some UserRole.CLIENT, cu_tahesabCustomerCode = None\<rparr> s"

text \<open>\<open>JwtStrategy.validate\<close>: the user of a request is what its token says.\<close>

definition validatePayload :: "jwtPayload \<Rightarrow> actor" where
  "validatePayload payload = \<lparr>act_id = jp_sub payload, act_role = jp_role payload\<rparr>"

definition rolesGuard :: "UserRole list option \<Rightarrow> UserRole option \<Rightarrow> bool" where
  "rolesGuard requiredRoles role =
     (case requiredRoles of
        None \<Rightarrow> True
      | Some roles \<Rightarrow>
          if roles = [] then True
          else (case role of None \<Rightarrow> False | Some r \<Rightarrow> r = UserRole.ADMIN \<or> r \<in> set roles))"

section \<open>The administrator's changes\<close>

record adminUserUpdate =
  au_fullName :: "string option"
  au_email :: "string option"
  au_role :: "UserRole option"
  au_status :: "UserStatus option"
  au_customerGroupId :: "id option"
  au_tahesabCustomerCode :: "string option"

text \<open>The log holds what \<open>userSafeSelect\<close> selects: the row without its password.\<close>

definition withoutPassword :: "user \<Rightarrow> user" where
  "withoutPassword u = u\<lparr>us_password := []\<rparr>"

definition patchAdminUser :: "id \<Rightarrow> id \<Rightarrow> adminUserUpdate \<Rightarrow> db \<Rightarrow> safeUser tx" where
  "patchAdminUser actorId i dto s =
     (case findUser i s of
        None \<Rightarrow> Inl (NotFoundException ''USER_NOT_FOUND'')
      | Some existing \<Rightarrow>
          (if us_status existing = UserStatus.ACTIVE \<and> au_status dto = Some UserStatus.PENDING_APPROVAL
             then Inl (BadRequestException ''INVALID_STATUS_TRANSITION'')
           else if au_customerGroupId dto \<noteq> None \<and> findGroup (the (au_customerGroupId dto)) s = None
             then Inl (ForeignKeyViolation ''User'')
           else bindE (storeUser (existing\<lparr>us_fullName := withDefault (au_fullName dto) (us_fullName existing),
                    us_email := withDefault (au_email dto) (us_email existing),
                    us_role := withDefault (au_role dto) (us_role existing),
                    us_status := withDefault (au_status dto) (us_status existing),
                    us_customerGroupId := orElse (au_customerGroupId dto) (us_customerGroupId existing),
                    us_tahesabCustomerCode := orElse (au_tahesabCustomerCode dto) (us_tahesabCustomerCode existing)\<rparr>) s)
             (\<lambda>updated s.
           bindE (writeAudit PolicyAuditEntityType.USER i (Some actorId) (Some (AuditUser (withoutPassword existing)))
                    (Some (AuditUser (withoutPassword updated))) None s)
             (\<lambda>_ s. Inr (mapUserSafe updated, s)))))"

record usersQuery =
  uq_q :: "string option"
  uq_status :: "UserStatus option"
  uq_role :: "UserRole option"
  uq_customerGroupId :: "id option"
  uq_kycStatus :: "KycStatus option"
  uq_kycLevel :: "KycLevel option"
  uq_tahesabLinked :: "bool option"

definition containsInsensitive :: "string \<Rightarrow> string \<Rightarrow> bool" where
  "containsInsensitive text q = hasSubstring (toLowerCase text) (toLowerCase q)"

definition matchesUsersQuery :: "usersQuery \<Rightarrow> db \<Rightarrow> user \<Rightarrow> bool" where
  "matchesUsersQuery query s u \<longleftrightarrow>
     (truthy (uq_q query) \<longrightarrow> (let q = the (uq_q query) in
        containsInsensitive (us_fullName u) q \<or> containsInsensitive (us_mobile u) q \<or>
        containsInsensitive (us_email u) q \<or> containsInsensitive (us_id u) q)) \<and>
     (case uq_status query of None \<Rightarrow> True | Some x \<Rightarrow> us_status u = x) \<and>
     (case uq_role query of None \<Rightarrow> True | Some x \<Rightarrow> us_role u = x) \<and>
     (truthy (uq_customerGroupId query) \<longrightarrow> us_customerGroupId u = uq_customerGroupId query) \<and>
     (case uq_tahesabLinked query of None \<Rightarrow> True | Some b \<Rightarrow> b = (us_tahesabCustomerCode u \<noteq> None)) \<and>
     (uq_kycStatus query \<noteq> None \<or> uq_kycLevel query \<noteq> None \<longrightarrow>
        (case findKyc (us_id u) s of
           None \<Rightarrow> False
         | Some k \<Rightarrow> (case uq_kycStatus query of None \<Rightarrow> True | Some x \<Rightarrow> uk_status k = x) \<and>
             (case uq_kycLevel query of None \<Rightarrow> True | Some x \<Rightarrow> uk_level k = x)))"

definition listAdminUsers :: "usersQuery \<Rightarrow> rat \<Rightarrow> rat \<Rightarrow> db \<Rightarrow> (safeUser \<times> userKyc option) list \<times> pageMeta" where
  "listAdminUsers query page limit s =
     (let matching = findMany (matchesUsersQuery query s) (users s)
      in wrap (map (\<lambda>u. (mapUserSafe u, findKyc (us_id u) s)) (pageOf (sortBy compareNewest matching) page limit))
           (int (length matching)) page limit)"

lemma announcement_total:
  "\<exists>t. enqueueTahesabOnCreate cfg u s = Inr ((), t)" "\<exists>t. enqueueTahesabOnEdit cfg showTime u s = Inr ((), t)"
  using enqueueOnce_total by (auto simp: enqueueTahesabOnCreate_def enqueueTahesabOnEdit_def split: option.split)

lemma refused_before_written:
  "createUser cfg hash dto s = Inl e \<Longrightarrow> uniqueClash (newUser hash dto s) s \<noteq> None"
  "updateUser cfg showTime hash i edit s = Inl e \<Longrightarrow> findUser i s = None \<or> (\<exists>row. storeUser row s = Inl e)"
proof -
  show "createUser cfg hash dto s = Inl e \<Longrightarrow> uniqueClash (newUser hash dto s) s \<noteq> None"
    using announcement_total(1) [of cfg "newUser hash dto s" "(bumpId s)\<lparr>users := users s @ [newUser hash dto s]\<rparr>"]
    by (auto simp: createUser_def Let_def split: option.splits)
  assume run: "updateUser cfg showTime hash i edit s = Inl e"
  show "findUser i s = None \<or> (\<exists>row. storeUser row s = Inl e)"
  proof (cases "findUser i s")
    case (Some x)
    let ?m = "storeUser (x\<lparr>us_email := withDefault (uu_email edit) (us_email x), us_fullName := withDefault (uu_name edit) (us_fullName x),
        us_password := (if truthy (uu_password edit) then hash (the (uu_password edit)) else us_password x)\<rparr>) s"
    show ?thesis
    proof (cases ?m)
      case (Inr p)
      with run Some announcement_total(2) [of cfg showTime "fst p" "snd p"] show ?thesis
        by (cases p) (auto simp: updateUser_def bindE_def)
    qed (use run Some in \<open>auto simp: updateUser_def bindE_def\<close>)
  qed simp
qed

section \<open>The invariant of the table\<close>

text \<open>No two users share a mobile, an email or a Tahesab code; the house has its own identifier.\<close>

definition ownColumn :: "(user \<Rightarrow> 'k) \<Rightarrow> 'k set \<Rightarrow> user list \<Rightarrow> bool" where
  "ownColumn k free us \<longleftrightarrow> (\<forall>u\<in>set us. \<forall>v\<in>set us. k u = k v \<and> k u \<notin> free \<longrightarrow> us_id u = us_id v)"

definition users_ok :: "db \<Rightarrow> bool" where
  "users_ok s \<longleftrightarrow> inj (db_gen s) \<and> HOUSE_USER_ID \<notin> range (db_gen s) \<and> distinct (map us_id (users s)) \<and>
     us_id ` set (users s) \<subseteq> insert HOUSE_USER_ID (db_gen s ` {..<db_seq s}) \<and>
     ownColumn us_mobile {} (users s) \<and> ownColumn us_email {} (users s) \<and> ownColumn us_tahesabCustomerCode {None} (users s)"

lemma uniqueClash_None:
  "uniqueClash row s = None \<longleftrightarrow> (\<forall>u\<in>set (users s). us_id u \<noteq> us_id row \<longrightarrow>
     us_mobile u \<noteq> us_mobile row \<and> us_email u \<noteq> us_email row \<and>
     (us_tahesabCustomerCode row \<noteq> None \<longrightarrow> us_tahesabCustomerCode u \<noteq> us_tahesabCustomerCode row))"
  by (auto simp: uniqueClash_def Let_def)

lemma ownColumnD: "ownColumn k F us \<Longrightarrow> u \<in> set us \<Longrightarrow> v \<in> set us \<Longrightarrow> k u = k v \<Longrightarrow> k u \<notin> F \<Longrightarrow> us_id u = us_id v"
  unfolding ownColumn_def by blast

lemma ownColumn_insert:
  assumes "ownColumn k F us" "\<And>u. u \<in> set us \<Longrightarrow> k u \<noteq> k row \<or> k row \<in> F" "set vs \<subseteq> insert row (set us)"
  shows "ownColumn k F vs"
  unfolding ownColumn_def
proof (intro ballI impI)
  fix u v assume uv: "u \<in> set vs" "v \<in> set vs" "k u = k v \<and> k u \<notin> F"
  then consider "u = row" "v = row" | "u = row" "v \<in> set us" | "u \<in> set us" "v = row" | "u \<in> set us" "v \<in> set us"
    using assms(3) by blast
  then show "us_id u = us_id v"
  proof cases
    case 2
    with assms(2) [of v] uv(3) show ?thesis by auto
  next
    case 3
    with assms(2) [of u] uv(3) show ?thesis by auto
  next
    case 4
    with assms(1) uv(3) show ?thesis unfolding ownColumn_def by blast
  qed simp
qed

lemma ownColumn_append:
  "ownColumn k F us \<Longrightarrow> (\<And>u. u \<in> set us \<Longrightarrow> k u \<noteq> k row \<or> k row \<in> F) \<Longrightarrow> ownColumn k F (us @ [row])"
  by (rule ownColumn_insert) auto

lemma ownColumn_replace:
  assumes "ownColumn k F us" "\<And>u. u \<in> set us \<Longrightarrow> us_id u \<noteq> us_id row \<Longrightarrow> k u \<noteq> k row \<or> k row \<in> F"
  shows "ownColumn k F (updateRows (\<lambda>u. us_id u = us_id row) (\<lambda>_. row) us)"
proof (rule ownColumn_insert [of _ _ "filter (\<lambda>u. us_id u \<noteq> us_id row) us" row])
  show "ownColumn k F (filter (\<lambda>u. us_id u \<noteq> us_id row) us)" using assms(1) unfolding ownColumn_def by simp blast
qed (use assms(2) in \<open>auto simp: set_updateRows split: if_splits\<close>)

lemma users_ok_frame:
  assumes "users_ok s" "users t = users s" "db_gen t = db_gen s" "db_seq s \<le> db_seq t"
  shows "users_ok t"
proof -
  have "db_gen s ` {..<db_seq s} \<subseteq> db_gen s ` {..<db_seq t}" using assms(4) by (intro image_mono) auto
  then show ?thesis using assms(1-3) by (simp add: users_ok_def) blast
qed

lemma map_id_replace: "map us_id (updateRows (\<lambda>u. us_id u = us_id row) (\<lambda>_. row) us) = map us_id us"
  by (rule map_updateRows) simp

text \<open>The two writers of the table keep it.\<close>

lemma storeUser_ok:
  assumes "users_ok s"
  shows "holdsE (\<lambda>r t. users_ok t \<and> r = row\<lparr>us_updatedAt := db_now s\<rparr> \<and>
      users t = updateRows (\<lambda>u. us_id u = us_id row) (\<lambda>_. r) (users s) \<and>
      db_gen t = db_gen s \<and> db_seq t = db_seq s) (storeUser row s)"
proof (cases "uniqueClash (row\<lparr>us_updatedAt := db_now s\<rparr>) s")
  case None
  let ?r = "row\<lparr>us_updatedAt := db_now s\<rparr>"
  let ?us = "updateRows (\<lambda>u. us_id u = us_id ?r) (\<lambda>_. ?r) (users s)"
  note n = None [unfolded uniqueClash_None]
  have ids: "map us_id ?us = map us_id (users s)" by (rule map_id_replace)
  have "ownColumn us_mobile {} ?us"
    by (rule ownColumn_replace) (use assms n in \<open>auto simp: users_ok_def\<close>)
  moreover have "ownColumn us_email {} ?us"
    by (rule ownColumn_replace) (use assms n in \<open>auto simp: users_ok_def\<close>)
  moreover have "ownColumn us_tahesabCustomerCode {None} ?us"
    by (rule ownColumn_replace) (use assms n in \<open>auto simp: users_ok_def\<close>)
  ultimately have "users_ok (s\<lparr>users := ?us\<rparr>)"
    using assms ids arg_cong [OF ids, of set, unfolded list.set_map] by (simp add: users_ok_def)
  then show ?thesis using None by (simp add: storeUser_def Let_def)
qed (simp add: storeUser_def Let_def)

lemma appendUser_ok:
  assumes "users_ok s" "uniqueClash row s = None" "us_id row = freshId s"
  shows "users_ok ((bumpId s)\<lparr>users := users s @ [row]\<rparr>)"
proof -
  have fresh: "freshId s \<notin> us_id ` set (users s)"
  proof
    assume "freshId s \<in> us_id ` set (users s)"
    then have "freshId s \<in> insert HOUSE_USER_ID (db_gen s ` {..<db_seq s})" using assms(1) by (auto simp: users_ok_def)
    moreover have "freshId s \<noteq> HOUSE_USER_ID"
    proof
      assume "freshId s = HOUSE_USER_ID"
      then have "HOUSE_USER_ID \<in> range (db_gen s)" unfolding freshId_def by (metis rangeI)
      then show False using assms(1) by (simp add: users_ok_def)
    qed
    ultimately show False using assms(1) by (auto simp: users_ok_def freshId_def dest: injD)
  qed
  then have n: "us_id u \<noteq> us_id row" if "u \<in> set (users s)" for u
    using assms(3) that by (auto simp: image_iff)
  note c = assms(2) [unfolded uniqueClash_None]
  have "ownColumn us_mobile {} (users s @ [row])" "ownColumn us_email {} (users s @ [row])"
    "ownColumn us_tahesabCustomerCode {None} (users s @ [row])"
    using assms(1) c n by (auto simp: users_ok_def intro!: ownColumn_append)
  then show ?thesis
    using assms(1,3) fresh by (auto simp: users_ok_def bumpId_def freshId_def less_Suc_eq)
qed

lemma enqueueOnce_users:
  "holdsE (\<lambda>_ t. users t = users s \<and> db_gen t = db_gen s \<and> db_seq s \<le> db_seq t) (enqueueOnce m p c s)"
  by (auto simp: enqueueOnce_def enqueue_def bumpId_def split: option.split)

lemma enqueueOnCreate_users:
  "\<exists>t. enqueueTahesabOnCreate cfg u s = Inr ((), t) \<and> users t = users s \<and> db_gen t = db_gen s \<and> db_seq s \<le> db_seq t"
  by (auto simp: enqueueTahesabOnCreate_def enqueueOnce_def enqueue_def bumpId_def split: option.split)

lemma enqueueOnEdit_users:
  "holdsE (\<lambda>_ t. users t = users s \<and> db_gen t = db_gen s \<and> db_seq s \<le> db_seq t) (enqueueTahesabOnEdit cfg sh u s)"
  by (auto simp: enqueueTahesabOnEdit_def split: option.split intro: enqueueOnce_users)

lemma createUser_effect:
  assumes "createUser cfg hash dto s = Inr (u, t)"
  shows "uniqueClash (newUser hash dto s) s = None" "users t = users s @ [newUser hash dto s]"
    "u = mapUserSafe (newUser hash dto s)" "db_gen t = db_gen s" "Suc (db_seq s) \<le> db_seq t"
proof -
  obtain t' where "enqueueTahesabOnCreate cfg (newUser hash dto s) ((bumpId s)\<lparr>users := users s @ [newUser hash dto s]\<rparr>) = Inr ((), t')"
    "users t' = users s @ [newUser hash dto s]" "db_gen t' = db_gen s" "Suc (db_seq s) \<le> db_seq t'"
    using enqueueOnCreate_users [of cfg "newUser hash dto s" "(bumpId s)\<lparr>users := users s @ [newUser hash dto s]\<rparr>"]
    by (auto simp: bumpId_def)
  then show "uniqueClash (newUser hash dto s) s = None" "users t = users s @ [newUser hash dto s]"
    "u = mapUserSafe (newUser hash dto s)" "db_gen t = db_gen s" "Suc (db_seq s) \<le> db_seq t"
    using assms by (auto simp: createUser_def Let_def split: option.splits)
qed

section \<open>Runs\<close>

inductive userStep :: "db \<Rightarrow> db \<Rightarrow> bool" where
  create_user: "createUser cfg hash dto s = Inr (u, t) \<Longrightarrow> userStep s t"
| register_user: "register cfg hash rdto s = Inr (u, t) \<Longrightarrow> userStep s t"
| activate_user: "activateUser i s = Inr (u, t) \<Longrightarrow> userStep s t"
| update_user: "updateUser cfg showTime hash i udto s = Inr (u, t) \<Longrightarrow> userStep s t"
| patch_user: "patchAdminUser a i adto s = Inr (u, t) \<Longrightarrow> userStep s t"
| move_users: "moveUsers cfg showTime a i userIds toGroupId s = Inr (n, t) \<Longrightarrow> userStep s t"
| house: "ensureHouseUser s = Inr (x, t) \<Longrightarrow> userStep s t"
| users_untouched: "users t = users s \<Longrightarrow> db_gen t = db_gen s \<Longrightarrow> db_seq s \<le> db_seq t \<Longrightarrow> userStep s t"

text \<open>
  What a step does to the row of a user: nothing, or it replaces it by a row that respects the one rule
  about the status.
\<close>

definition statusKept :: "user \<Rightarrow> user \<Rightarrow> bool" where
  "statusKept u v \<longleftrightarrow> us_id v = us_id u \<and> us_mobile v = us_mobile u \<and>
     (us_status u = UserStatus.ACTIVE \<longrightarrow> us_status v \<noteq> UserStatus.PENDING_APPROVAL)"

definition usersKept :: "db \<Rightarrow> db \<Rightarrow> bool" where
  "usersKept s t \<longleftrightarrow> users_ok t \<and> (\<forall>u\<in>set (users s). \<exists>v\<in>set (users t). statusKept u v)"

lemma usersKept_same: "users_ok s \<Longrightarrow> users t = users s \<Longrightarrow> db_gen t = db_gen s \<Longrightarrow> db_seq s \<le> db_seq t \<Longrightarrow> usersKept s t"
  by (auto simp: usersKept_def statusKept_def intro: users_ok_frame)

lemma usersKept_store:
  assumes ok: "users_ok s" and u: "findUser i s = Some u" and row: "us_id row = i" "us_mobile row = us_mobile u"
    "us_status u = UserStatus.ACTIVE \<Longrightarrow> us_status row \<noteq> UserStatus.PENDING_APPROVAL"
    and run: "storeUser row s = Inr (r, t)"
  shows "usersKept s t" "db_gen t = db_gen s" "db_seq t = db_seq s"
proof -
  note h = holdsE_D [OF storeUser_ok [OF ok] run]
  have um: "u \<in> set (users s)" "us_id u = i" using find_SomeD [OF u [unfolded findUser_def]] by simp_all
  have "\<exists>v\<in>set (users t). statusKept x v" if "x \<in> set (users s)" for x
  proof (cases "us_id x = i")
    case True
    then have "x = u"
      using that um ok inj_onD [of us_id "set (users s)" x u] by (simp add: users_ok_def distinct_map)
    moreover have "r \<in> set (users t)" using h um row(1) by (auto simp: set_updateRows image_iff)
    ultimately show ?thesis using row h um by (intro bexI [of _ r]) (auto simp: statusKept_def)
  next
    case False
    then have "x \<in> set (users t)" using h that row(1) by (auto simp: set_updateRows image_iff)
    then show ?thesis by (auto simp: statusKept_def)
  qed
  then show "usersKept s t" "db_gen t = db_gen s" "db_seq t = db_seq s" using h by (auto simp: usersKept_def)
qed

lemma usersKept_then:
  "usersKept s t \<Longrightarrow> users w = users t \<Longrightarrow> db_gen w = db_gen t \<Longrightarrow> db_seq t \<le> db_seq w \<Longrightarrow> usersKept s w"
  by (auto simp: usersKept_def intro: users_ok_frame)

lemma usersKept_append:
  assumes "users_ok t" "users t = users s @ rows"
  shows "usersKept s t"
  using assms unfolding usersKept_def statusKept_def by auto

lemma createUser_kept: "createUser cfg hash dto s = Inr (u, t) \<Longrightarrow> users_ok s \<Longrightarrow> usersKept s t"
proof -
  assume run: "createUser cfg hash dto s = Inr (u, t)" and ok: "users_ok s"
  note e = createUser_effect [OF run]
  have "users_ok ((bumpId s)\<lparr>users := users s @ [newUser hash dto s]\<rparr>)"
    by (rule appendUser_ok [OF ok e(1)]) (simp add: newUser_def)
  then have "users_ok t" by (rule users_ok_frame) (use e in \<open>simp_all add: bumpId_def\<close>)
  then show ?thesis using e(2) by (rule usersKept_append)
qed

lemma ensureHouseUser_kept: "ensureHouseUser s = Inr (x, t) \<Longrightarrow> users_ok s \<Longrightarrow> usersKept s t"
proof -
  assume run: "ensureHouseUser s = Inr (x, t)" and ok: "users_ok s"
  show ?thesis
  proof (cases "\<exists>u\<in>set (users s). us_id u = HOUSE_USER_ID")
    case True
    then show ?thesis using run ok by (simp add: ensureHouseUser_def usersKept_same)
  next
    case False
    let ?h = "houseUser\<lparr>us_createdAt := db_now s, us_updatedAt := db_now s\<rparr>"
    have t: "t = s\<lparr>users := users s @ [?h]\<rparr>" and
      c: "\<And>u. u \<in> set (users s) \<Longrightarrow> us_mobile u \<noteq> us_mobile houseUser \<and> us_email u \<noteq> us_email houseUser"
      using run False by (auto simp: ensureHouseUser_def split: if_splits)
    have "ownColumn us_mobile {} (users s @ [?h])" "ownColumn us_email {} (users s @ [?h])"
      using ok c by (auto simp: users_ok_def intro!: ownColumn_append)
    moreover have "ownColumn us_tahesabCustomerCode {None} (users s @ [?h])"
      using ok by (intro ownColumn_append) (simp_all add: users_ok_def houseUser_def)
    ultimately have "users_ok t"
      using ok False by (auto simp: users_ok_def t houseUser_def)
    then show ?thesis by (rule usersKept_append) (simp add: t)
  qed
qed

lemma activateUser_kept:
  assumes run: "activateUser i s = Inr (u, t)" and ok: "users_ok s"
  shows "usersKept s t"
proof -
  obtain row r where row: "findUser i s = Some row" and st: "storeUser (row\<lparr>us_status := UserStatus.ACTIVE\<rparr>) s = Inr (r, t)"
    using run by (auto simp: activateUser_def split: option.splits elim!: bindE_elim)
  have "us_id row = i" using find_SomeD [OF row [unfolded findUser_def]] by simp
  then show ?thesis by (intro usersKept_store(1) [OF ok row _ _ _ st]) simp_all
qed

lemma updateUser_kept:
  assumes run: "updateUser cfg showTime hash i dto s = Inr (u, t)" and ok: "users_ok s"
  shows "usersKept s t"
proof -
  obtain row r w where row: "findUser i s = Some row"
    and st: "storeUser (row\<lparr>us_email := withDefault (uu_email dto) (us_email row),
        us_fullName := withDefault (uu_name dto) (us_fullName row),
        us_password := (if truthy (uu_password dto) then hash (the (uu_password dto)) else us_password row)\<rparr>) s = Inr (r, w)"
    and en: "bindE (enqueueTahesabOnEdit cfg showTime r w) (\<lambda>_ s. Inr (mapUserSafe r, s)) = Inr (u, t)"
    using run by (auto simp: updateUser_def split: option.splits elim!: bindE_elim)
  have "us_id row = i" using find_SomeD [OF row [unfolded findUser_def]] by simp
  then have kept: "usersKept s w"
    by (intro usersKept_store(1) [OF ok row _ _ _ st]) simp_all
  from en obtain x where "enqueueTahesabOnEdit cfg showTime r w = Inr (x, t)" by (auto elim!: bindE_elim)
  from holdsE_D [OF enqueueOnEdit_users this] show ?thesis by (intro usersKept_then [OF kept]) simp_all
qed

lemma patchAdminUser_kept:
  assumes run: "patchAdminUser a i dto s = Inr (u, t)" and ok: "users_ok s"
  shows "usersKept s t"
proof -
  obtain row r w where row: "findUser i s = Some row"
    and guard: "\<not> (us_status row = UserStatus.ACTIVE \<and> au_status dto = Some UserStatus.PENDING_APPROVAL)"
    and st: "storeUser (row\<lparr>us_fullName := withDefault (au_fullName dto) (us_fullName row),
        us_email := withDefault (au_email dto) (us_email row), us_role := withDefault (au_role dto) (us_role row),
        us_status := withDefault (au_status dto) (us_status row),
        us_customerGroupId := orElse (au_customerGroupId dto) (us_customerGroupId row),
        us_tahesabCustomerCode := orElse (au_tahesabCustomerCode dto) (us_tahesabCustomerCode row)\<rparr>) s = Inr (r, w)"
    and t: "users t = users w" "db_gen t = db_gen w" "db_seq w \<le> db_seq t"
    using run by (auto simp: patchAdminUser_def writeAudit_def bumpId_def split: option.splits if_splits elim!: bindE_elim)
  have "us_id row = i" using find_SomeD [OF row [unfolded findUser_def]] by simp
  then have "usersKept s w"
    using guard by (intro usersKept_store(1) [OF ok row _ _ _ st]) (cases "au_status dto"; simp)+
  then show ?thesis by (rule usersKept_then) (use t in simp_all)
qed

lemma ownColumn_map:
  "ownColumn k F us \<Longrightarrow> (\<And>u. k (f u) = k u) \<Longrightarrow> (\<And>u. us_id (f u) = us_id u) \<Longrightarrow> ownColumn k F (map f us)"
  by (simp add: ownColumn_def)

lemma usersKept_map:
  assumes ok: "users_ok s" and t: "users t = map f (users s)" "db_gen t = db_gen s" "db_seq s \<le> db_seq t"
    and f: "\<And>u. us_id (f u) = us_id u" "\<And>u. us_mobile (f u) = us_mobile u" "\<And>u. us_email (f u) = us_email u"
      "\<And>u. us_tahesabCustomerCode (f u) = us_tahesabCustomerCode u" "\<And>u. us_status (f u) = us_status u"
  shows "usersKept s t"
proof -
  have "users_ok (s\<lparr>users := map f (users s)\<rparr>)"
    using ok f by (simp add: users_ok_def ownColumn_map o_def image_image)
  then have "users_ok t" by (rule users_ok_frame) (use t in simp_all)
  then show ?thesis using t(1) f by (auto simp: usersKept_def statusKept_def)
qed

lemma resync_users:
  "holdsE (\<lambda>_ t. users t = users s \<and> db_gen t = db_gen s \<and> db_seq s \<le> db_seq t) (forE us (resyncUser sh g) s)"
  by (rule holdsE_for) (auto simp: resyncUser_def enqueue_def bumpId_def)

definition movedTo :: "id \<Rightarrow> time \<Rightarrow> (user \<Rightarrow> bool) \<Rightarrow> user \<Rightarrow> user" where
  "movedTo to now p u = (if p u then u\<lparr>us_customerGroupId := Some to, us_updatedAt := now\<rparr> else u)"

lemma moveUsers_users:
  "holdsE (\<lambda>_ t. \<exists>p. users t = map (movedTo to (db_now s) p) (users s) \<and> db_gen t = db_gen s \<and> db_seq s \<le> db_seq t)
     (moveUsers cfg sh a i ids to s)"
proof (cases "findGroup to s")
  case (Some g)
  let ?moving = "findMany (\<lambda>u. us_id u \<in> set ids \<and> us_customerGroupId u = Some i) (users s)"
  let ?p = "\<lambda>u. us_id u \<in> set (map us_id ?moving) \<and> us_customerGroupId u = Some i"
  let ?us = "map (movedTo to (db_now s) ?p) (users s)"
  let ?Q = "\<lambda>(_ :: unit) t. users t = ?us \<and> db_gen t = db_gen s \<and> db_seq s \<le> db_seq t"
  have us: "updateRows ?p (\<lambda>u. u\<lparr>us_customerGroupId := Some to, us_updatedAt := db_now s\<rparr>) (users s) = ?us"
    by (simp add: updateRows_def movedTo_def)
  have audit: "holdsE ?Q (writeAudit ty j act bef aft rea (s\<lparr>users := ?us\<rparr>))" for ty j act bef aft rea
    by (simp add: writeAudit_def bumpId_def)
  have sync: "holdsE ?Q (if isEnabled cfg then forE xs (resyncUser sh g) w else Inr ((), w))" if "?Q () w" for w xs
    using that by (auto intro!: holdsE_weaken [OF resync_users])
  show ?thesis
    unfolding moveUsers_def Some Let_def option.case us
    by (intro holdsE_bind [OF audit] holdsE_bind [OF sync]) auto
qed (simp add: moveUsers_def)

lemma moveUsers_kept:
  assumes run: "moveUsers cfg sh a i ids to s = Inr (n, t)" and ok: "users_ok s"
  shows "usersKept s t"
proof -
  obtain p where "users t = map (movedTo to (db_now s) p) (users s)" "db_gen t = db_gen s" "db_seq s \<le> db_seq t"
    using holdsE_D [OF moveUsers_users run] by blast
  then show ?thesis by (rule usersKept_map [OF ok]) (simp_all add: movedTo_def)
qed

lemma userStep_kept: "userStep s t \<Longrightarrow> users_ok s \<Longrightarrow> usersKept s t"
  by (induction rule: userStep.induct)
    (auto intro: createUser_kept activateUser_kept updateUser_kept patchAdminUser_kept moveUsers_kept ensureHouseUser_kept usersKept_same
      simp: register_def)

lemma userRun_kept:
  assumes "userStep\<^sup>*\<^sup>* s t" "users_ok s"
  shows "users_ok t" "\<And>u. u \<in> set (users s) \<Longrightarrow> \<exists>v\<in>set (users t). us_id v = us_id u \<and> us_mobile v = us_mobile u"
  using assms
proof (induction rule: rtranclp_induct)
  case (step t w)
  { case 1 with step userStep_kept [OF step(2)] show ?case by (simp add: usersKept_def) }
  { case 2
    then obtain v where "v \<in> set (users t)" "us_id v = us_id u" "us_mobile v = us_mobile u" using step by blast
    with 2 step userStep_kept [OF step(2)] show ?case by (fastforce simp: usersKept_def statusKept_def) }
qed auto

text \<open>
  C17. Along every run of the operations on users no user disappears or changes his mobile, and no two share
  an identifier, a mobile, an email or a Tahesab code; and no single operation takes an active user back to
  pending approval.
\<close>

theorem users_stay_unique:
  assumes "userStep\<^sup>*\<^sup>* s t" and "users_ok s"
  shows "distinct (map us_id (users t)) \<and>
    (\<forall>u\<in>set (users t). \<forall>v\<in>set (users t). us_id u \<noteq> us_id v \<longrightarrow> us_mobile u \<noteq> us_mobile v \<and> us_email u \<noteq> us_email v \<and>
      (us_tahesabCustomerCode u \<noteq> None \<longrightarrow> us_tahesabCustomerCode u \<noteq> us_tahesabCustomerCode v)) \<and>
    (\<forall>u\<in>set (users s). \<exists>v\<in>set (users t). us_id v = us_id u \<and> us_mobile v = us_mobile u) \<and>
    (\<forall>w u v. userStep t w \<and> u \<in> set (users t) \<and> v \<in> set (users w) \<and> us_id v = us_id u \<and> us_status u = UserStatus.ACTIVE \<longrightarrow>
      us_status v \<noteq> UserStatus.PENDING_APPROVAL)"
proof -
  note run = userRun_kept [OF assms]
  have ok: "users_ok t" by (rule run(1))
  have own: "us_id u = us_id v" if "u \<in> set (users t)" "v \<in> set (users t)"
    "us_mobile u = us_mobile v \<or> us_email u = us_email v \<or> (us_tahesabCustomerCode u \<noteq> None \<and> us_tahesabCustomerCode u = us_tahesabCustomerCode v)" for u v
    using that(3) ok ownColumnD [OF _ that(1,2), of us_mobile "{}"] ownColumnD [OF _ that(1,2), of us_email "{}"]
      ownColumnD [OF _ that(1,2), of us_tahesabCustomerCode "{None}"]
    by (cases "us_tahesabCustomerCode v") (auto simp: users_ok_def)
  have status: "us_status v \<noteq> UserStatus.PENDING_APPROVAL"
    if step: "userStep t w" "u \<in> set (users t)" "v \<in> set (users w)" "us_id v = us_id u" "us_status u = UserStatus.ACTIVE" for w u v
  proof -
    have k: "usersKept t w" by (rule userStep_kept [OF step(1) ok])
    then obtain x where x: "x \<in> set (users w)" "statusKept u x" using step(2) by (auto simp: usersKept_def)
    have "distinct (map us_id (users w))" using k by (simp add: usersKept_def users_ok_def)
    then have "x = v"
      using x step(3,4) inj_onD [of us_id "set (users w)" x v] by (simp add: distinct_map statusKept_def)
    with x(2) step(5) show ?thesis by (simp add: statusKept_def)
  qed
  have columns: "us_mobile u \<noteq> us_mobile v \<and> us_email u \<noteq> us_email v \<and>
      (us_tahesabCustomerCode u \<noteq> None \<longrightarrow> us_tahesabCustomerCode u \<noteq> us_tahesabCustomerCode v)"
    if "u \<in> set (users t)" "v \<in> set (users t)" "us_id u \<noteq> us_id v" for u v
    using own [OF that(1,2)] that(3) by auto
  show ?thesis
  proof (intro conjI)
    show "distinct (map us_id (users t))" using ok by (simp add: users_ok_def)
  qed (use columns in simp, use run(2) in simp, intro allI impI, elim conjE, rule status)
qed

definition saraDto :: registerDto where
  "saraDto = \<lparr>rg_fullName = ''Sara'', rg_mobile = ''0913'', rg_password = ''secret'', rg_email = None\<rparr>"

text \<open>A configuration with Tahesab switched off, and a hash one can see through.\<close>

definition quietTahesab :: tahesabConfig where
  "quietTahesab = \<lparr>tc_get = (\<lambda>_. Some ''false''), tc_shamsi = (\<lambda>_. ([], [], [])), tc_showDecimal = (\<lambda>_. []), tc_showInt = (\<lambda>_. [])\<rparr>"

definition saltHash :: "string \<Rightarrow> string" where
  "saltHash p = CHR ''#'' # p"

lemma emptyDb_users: "users_ok emptyDb"
  by (auto simp: users_ok_def emptyDb_def inj_unaryId ownColumn_def HOUSE_USER_ID_def unaryId_def)

lemma register_sara:
  "\<exists>u t. register quietTahesab saltHash saraDto emptyDb = Inr (u, t) \<and> length (users t) = 1 \<and> sf_mobile u = ''0913''"
  by (simp add: register_def createUser_def uniqueClash_def newUser_def enqueueTahesabOnCreate_def isEnabled_def quietTahesab_def
      saraDto_def emptyDb_def mapUserSafe_def Let_def)

theorem users_stay_unique_witness:
  "\<exists>t. userStep\<^sup>*\<^sup>* emptyDb t \<and> length (users t) = 1 \<and> distinct (map us_id (users t))"
proof -
  obtain u t where r: "register quietTahesab saltHash saraDto emptyDb = Inr (u, t)" "length (users t) = 1"
    using register_sara by blast
  have run: "userStep\<^sup>*\<^sup>* emptyDb t" by (rule r_into_rtranclp) (rule register_user [OF r(1)])
  from users_stay_unique [OF run emptyDb_users] run r(2) show ?thesis by blast
qed

text \<open>
  Registration and login: a registration that succeeds makes a client who awaits approval, and he can log in
  at once with his password, as long as the comparison accepts the hash of a password; with any other password,
  and for a mobile nobody has, the answer is the same; and the mobile cannot be registered again.
\<close>

theorem registration_then_login:
  assumes "users_ok s" and "register cfg hash dto s = Inr (u, t)" and "check (rg_password dto) (hash (rg_password dto))"
  shows "sf_status u = UserStatus.PENDING_APPROVAL \<and>
    login check sign (rg_mobile dto) (rg_password dto) t =
      Inr (sign \<lparr>jp_sub = sf_id u, jp_mobile = rg_mobile dto, jp_role = UserRole.CLIENT\<rparr>, u) \<and>
    (\<forall>p. \<not> check p (hash (rg_password dto)) \<longrightarrow>
      login check sign (rg_mobile dto) p t = Inl (UnauthorizedException ''Invalid credentials'')) \<and>
    (\<forall>m p. m \<notin> us_mobile ` set (users t) \<longrightarrow> login check sign m p t = Inl (UnauthorizedException ''Invalid credentials'')) \<and>
    (\<forall>again. rg_mobile again = rg_mobile dto \<longrightarrow> register cfg hash again t = Inl (ConflictException ''mobile''))"
proof -
  let ?dto = "\<lparr>cu_fullName = rg_fullName dto, cu_mobile = rg_mobile dto,
      cu_email = withDefault (rg_email dto) (rg_mobile dto @ ''@auto.local''),
      cu_password = rg_password dto, cu_role = Some UserRole.CLIENT, cu_tahesabCustomerCode = None\<rparr>"
  let ?row = "newUser hash ?dto s"
  note e = createUser_effect [OF assms(2) [unfolded register_def]]
  have fresh: "us_id x \<noteq> freshId s" if "x \<in> set (users s)" for x
  proof -
    have "us_id x \<in> insert HOUSE_USER_ID (db_gen s ` {..<db_seq s})" using assms(1) that by (auto simp: users_ok_def)
    moreover have "freshId s \<noteq> HOUSE_USER_ID" using assms(1) rangeI [of "db_gen s" "db_seq s"]
      unfolding freshId_def users_ok_def by metis
    ultimately show ?thesis using assms(1) by (auto simp: users_ok_def freshId_def dest: injD)
  qed
  have other: "us_mobile x \<noteq> rg_mobile dto" if "x \<in> set (users s)" for x
    using e(1) [unfolded uniqueClash_None] that fresh [OF that] by (simp add: newUser_def)
  have found: "userByMobile (rg_mobile dto) t = Some ?row"
    unfolding userByMobile_def e(2) by (rule find_snoc_new) (use other in \<open>simp_all add: newUser_def\<close>)
  have none: "userByMobile m t = None" if "m \<notin> us_mobile ` set (users t)" for m
    using that by (auto simp: userByMobile_def find_None_iff)
  have again: "register cfg hash dto2 t = Inl (ConflictException ''mobile'')" if "rg_mobile dto2 = rg_mobile dto" for dto2
  proof -
    have "freshId t \<noteq> freshId s" using assms(1) e(4,5) by (auto simp: freshId_def users_ok_def dest: injD)
    then have "\<exists>x\<in>set (users t). us_id x \<noteq> freshId t \<and> us_mobile x = rg_mobile dto2"
      using that by (intro bexI [of _ ?row]) (simp_all add: e(2) newUser_def)
    then show ?thesis by (auto simp: register_def createUser_def uniqueClash_def newUser_def Let_def)
  qed
  show ?thesis
    using found none again assms(3) e(3)
    by (auto simp: login_def newUser_def mapUserSafe_def)
qed

theorem registration_then_login_witness:
  "\<exists>u t. register quietTahesab saltHash saraDto emptyDb = Inr (u, t) \<and>
     login (\<lambda>p h. h = saltHash p) jp_sub ''0913'' ''secret'' t = Inr (sf_id u, u) \<and>
     login (\<lambda>p h. h = saltHash p) jp_sub ''0913'' ''guess'' t = Inl (UnauthorizedException ''Invalid credentials'')"
proof -
  obtain u t where r: "register quietTahesab saltHash saraDto emptyDb = Inr (u, t)"
    using register_sara by blast
  show ?thesis
    using registration_then_login [OF emptyDb_users r, of "\<lambda>p h. h = saltHash p" jp_sub] r
    by (simp add: saraDto_def saltHash_def)
qed

text \<open>
  The rule about the status binds one operation only: blocked in between, an active user is put back to
  pending approval.
\<close>

definition setStatus :: "UserStatus \<Rightarrow> adminUserUpdate" where
  "setStatus st = \<lparr>au_fullName = None, au_email = None, au_role = None, au_status = Some st, au_customerGroupId = None,
     au_tahesabCustomerCode = None\<rparr>"

lemma patch_status:
  assumes "findUser i s = Some u" "us_status u = UserStatus.ACTIVE \<longrightarrow> st \<noteq> UserStatus.PENDING_APPROVAL" "users_ok s"
  shows "\<exists>v t. patchAdminUser a i (setStatus st) s = Inr (v, t) \<and> sf_status v = st \<and> usersKept s t \<and>
    (\<exists>x. findUser i t = Some x \<and> us_status x = st)"
proof -
  have u: "u \<in> set (users s)" "us_id u = i" using find_SomeD [OF assms(1) [unfolded findUser_def]] by simp_all
  let ?r = "u\<lparr>us_status := st, us_updatedAt := db_now s\<rparr>"
  have "uniqueClash ?r s = None"
    unfolding uniqueClash_None
  proof (intro ballI impI)
    fix v assume v: "v \<in> set (users s)" "us_id v \<noteq> us_id ?r"
    then show "us_mobile v \<noteq> us_mobile ?r \<and> us_email v \<noteq> us_email ?r \<and>
        (us_tahesabCustomerCode ?r \<noteq> None \<longrightarrow> us_tahesabCustomerCode v \<noteq> us_tahesabCustomerCode ?r)"
      using assms(3) ownColumnD [OF _ v(1) u(1), of us_mobile "{}"] ownColumnD [OF _ v(1) u(1), of us_email "{}"]
        ownColumnD [OF _ v(1) u(1), of us_tahesabCustomerCode "{None}"]
      by (auto simp: users_ok_def)
  qed
  then obtain v t where run: "patchAdminUser a i (setStatus st) s = Inr (v, t)" "sf_status v = st"
      and t: "users t = updateRows (\<lambda>x. us_id x = i) (\<lambda>_. ?r) (users s)"
    using assms(1,2) u(2)
    by (auto simp: patchAdminUser_def setStatus_def storeUser_def writeAudit_def bumpId_def mapUserSafe_def Let_def)
  have "findUser i t = Some ?r"
    using assms(1) u(2) by (simp add: findUser_def t find_replace)
  with run patchAdminUser_kept [OF run(1) assms(3)] show ?thesis by auto
qed

text \<open>
  An administrator can bring an active user back to pending approval in two requests, which the check of the
  transition refuses in one.
\<close>

theorem status_check_is_bypassed:
  assumes "users_ok s" and "findUser i s = Some u" and "us_status u = UserStatus.ACTIVE"
  shows "patchAdminUser a i (setStatus UserStatus.PENDING_APPROVAL) s = Inl (BadRequestException ''INVALID_STATUS_TRANSITION'') \<and>
    (\<exists>v t w x. patchAdminUser a i (setStatus UserStatus.BLOCKED) s = Inr (v, t) \<and>
      patchAdminUser a i (setStatus UserStatus.PENDING_APPROVAL) t = Inr (w, x) \<and> sf_status w = UserStatus.PENDING_APPROVAL)"
proof -
  obtain v t y where 1: "patchAdminUser a i (setStatus UserStatus.BLOCKED) s = Inr (v, t)" "usersKept s t"
    "findUser i t = Some y" "us_status y = UserStatus.BLOCKED"
    using patch_status [OF assms(2), of UserStatus.BLOCKED a] assms(1,3) by auto
  obtain w x where "patchAdminUser a i (setStatus UserStatus.PENDING_APPROVAL) t = Inr (w, x)" "sf_status w = UserStatus.PENDING_APPROVAL"
    using patch_status [OF 1(3), of UserStatus.PENDING_APPROVAL a] 1(2,4) by (auto simp: usersKept_def)
  then show ?thesis using 1(1) assms(2,3) by (auto simp: patchAdminUser_def setStatus_def)
qed

theorem status_check_is_bypassed_witness:
  "\<exists>w x t v. patchAdminUser ''a'' HOUSE_USER_ID (setStatus UserStatus.BLOCKED) (emptyDb\<lparr>users := [houseUser]\<rparr>) = Inr (v, t) \<and>
     patchAdminUser ''a'' HOUSE_USER_ID (setStatus UserStatus.PENDING_APPROVAL) t = Inr (w, x) \<and> sf_status w = UserStatus.PENDING_APPROVAL"
proof -
  have ok: "users_ok (emptyDb\<lparr>users := [houseUser]\<rparr>)"
    by (auto simp: users_ok_def emptyDb_def inj_unaryId ownColumn_def HOUSE_USER_ID_def unaryId_def houseUser_def)
  show ?thesis
    using status_check_is_bypassed [OF ok, of HOUSE_USER_ID houseUser "''a''"] by (auto simp: findUser_def houseUser_def)
qed

end
