(* ===== verification/Foundation.thy ===== *)
theory Foundation
  imports Users Trades
begin

text \<open>
  \<open>users/foundation-context.service.ts\<close>, \<open>users/foundation.controller.ts\<close>, the two access guards and the
  administrator's KYC decision: what a user is shown of his account, what he is told he may do, what the
  guards let him do, the submission of his KYC and the adjustment of a wallet. The services live for one
  request and cache what they read; a cache is part of the state passed along.
\<close>

section \<open>The context of a user\<close>

record foundationContext =
  fx_id :: id
  fx_role :: UserRole
  fx_status :: UserStatus
  fx_customerGroupId :: "id option"
  fx_tahesabCustomerCode :: "string option"
  fx_kyc :: "userKyc option"
  fx_settings :: "settings \<times> settingsSources"

record requestCache =
  rc_contexts :: "id \<rightharpoonup> foundationContext"
  rc_settings :: settingsCache

definition emptyCache :: requestCache where
  "emptyCache = \<lparr>rc_contexts = Map.empty, rc_settings = Map.empty\<rparr>"

definition getFoundationContext ::
  "settingsStore \<Rightarrow> id \<Rightarrow> requestCache \<Rightarrow> db \<Rightarrow> err + foundationContext \<times> requestCache" where
  "getFoundationContext st userId cache s =
     (case rc_contexts cache userId of
        Some cached \<Rightarrow> Inr (cached, cache)
      | None \<Rightarrow>
          (case findUser userId s of
             None \<Rightarrow> Inl (NotFoundException ''USER_NOT_FOUND'')
           | Some user \<Rightarrow>
               (let r = getEffectiveWithSources st userId (rc_settings cache);
                    result = \<lparr>fx_id = us_id user, fx_role = us_role user, fx_status = us_status user,
                      fx_customerGroupId = us_customerGroupId user, fx_tahesabCustomerCode = us_tahesabCustomerCode user,
                      fx_kyc = findKyc userId s, fx_settings = fst r\<rparr>
                in Inr (result, \<lparr>rc_contexts = (rc_contexts cache)(userId \<mapsto> result), rc_settings = snd r\<rparr>))))"

section \<open>The wallet\<close>

record walletAccount =
  wa_instrument :: instrument
  wa_balance :: "decimal option"
  wa_blockedBalance :: "decimal option"
  wa_minBalance :: "decimal option"
  wa_available :: "decimal option"
  wa_balancesHidden :: bool

definition mapWalletAccountDto :: "account \<times> instrument \<Rightarrow> bool \<Rightarrow> walletAccount" where
  "mapWalletAccountDto ai hideBalances =
     (let a = fst ai; shown = (\<lambda>x. if hideBalances then None else Some x)
      in \<lparr>wa_instrument = snd ai, wa_balance = shown (ac_balance a), wa_blockedBalance = shown (ac_blockedBalance a),
          wa_minBalance = shown (ac_minBalance a), wa_available = shown (ac_balance a - ac_blockedBalance a - ac_minBalance a),
          wa_balancesHidden = hideBalances\<rparr>)"

text \<open>The accounts of a user with their instruments; the foreign key gives every account one.\<close>

definition accountsWithInstrument :: "id \<Rightarrow> db \<Rightarrow> (account \<times> instrument) list" where
  "accountsWithInstrument userId s =
     List.map_filter (\<lambda>a. map_option (Pair a) (findFirst (\<lambda>i. in_id i = ac_instrumentId a) (instruments s)))
       (findMany (\<lambda>a. ac_userId a = userId) (accounts s))"

record walletSummary =
  ws_accounts :: "walletAccount list"
  ws_balancesHiddenByUserSetting :: bool
  ws_irrAvailable :: "decimal option"

definition irrAvailable :: "id \<Rightarrow> db \<Rightarrow> decimal option" where
  "irrAvailable userId s =
     map_option (\<lambda>ai. ac_balance (fst ai) - ac_blockedBalance (fst ai) - ac_minBalance (fst ai))
       (findFirst (\<lambda>ai. in_code (snd ai) = IRR_INSTRUMENT_CODE) (accountsWithInstrument userId s))"

definition getWalletSummary ::
  "settingsStore \<Rightarrow> id \<Rightarrow> bool \<Rightarrow> requestCache \<Rightarrow> db \<Rightarrow> walletSummary \<times> requestCache" where
  "getWalletSummary st userId includeHiddenForAdmin cache s =
     (let r = getEffective st userId (rc_settings cache);
          balancesHiddenByUserSetting = (st_showBalances (fst r) \<noteq> Some True);
          hideBalances = (\<not> includeHiddenForAdmin \<and> balancesHiddenByUserSetting)
      in (\<lparr>ws_accounts = map (\<lambda>ai. mapWalletAccountDto ai hideBalances) (accountsWithInstrument userId s),
           ws_balancesHiddenByUserSetting = balancesHiddenByUserSetting,
           ws_irrAvailable = (if hideBalances then None else irrAvailable userId s)\<rparr>,
          cache\<lparr>rc_settings := snd r\<rparr>))"

section \<open>The policy\<close>

definition userOnly :: "id \<Rightarrow> policyContext" where
  "userOnly userId = \<lparr>pc_userId = userId, pc_customerGroupId = None, pc_productId = None, pc_instrumentId = None,
     pc_instrumentType = None, pc_tradeType = None, pc_kycLevel = None\<rparr>"

record policyLine =
  pl_limit :: "decimal option"
  pl_kycRequiredLevel :: "KycLevel option"
  pl_ruleId :: "id option"
  pl_source :: "PolicyScopeType option"

definition buildLine :: "id \<Rightarrow> PolicyAction \<Rightarrow> PolicyPeriod \<Rightarrow> db \<Rightarrow> err + policyLine" where
  "buildLine userId action period s =
     map_sum id (\<lambda>r. \<lparr>pl_limit = po_value r, pl_kycRequiredLevel = po_kycRequiredLevel r, pl_ruleId = po_ruleId r,
        pl_source = po_source r\<rparr>)
       (resolvePolicy action PolicyMetric.NOTIONAL_IRR period (userOnly userId) s)"

text \<open>The six lines of the summary, in the order in which they are resolved.\<close>

definition summaryKeys :: "(PolicyAction \<times> PolicyPeriod) list" where
  "summaryKeys = [(PolicyAction.WITHDRAW_IRR, PolicyPeriod.DAILY), (PolicyAction.WITHDRAW_IRR, PolicyPeriod.MONTHLY),
     (PolicyAction.TRADE_BUY, PolicyPeriod.DAILY), (PolicyAction.TRADE_BUY, PolicyPeriod.MONTHLY),
     (PolicyAction.TRADE_SELL, PolicyPeriod.DAILY), (PolicyAction.TRADE_SELL, PolicyPeriod.MONTHLY)]"

fun resolveLines :: "id \<Rightarrow> (PolicyAction \<times> PolicyPeriod) list \<Rightarrow> db \<Rightarrow> err + policyLine list" where
  "resolveLines userId [] s = Inr []"
| "resolveLines userId ((action, period) # ks) s =
     (case buildLine userId action period s of Inl e \<Rightarrow> Inl e
      | Inr l \<Rightarrow> (case resolveLines userId ks s of Inl e \<Rightarrow> Inl e | Inr ls \<Rightarrow> Inr (l # ls)))"

definition getPolicySummary :: "id \<Rightarrow> db \<Rightarrow> err + policyLine list" where
  "getPolicySummary userId s = resolveLines userId summaryKeys s"

section \<open>The capabilities\<close>

definition maxKyc :: "KycLevel option list \<Rightarrow> KycLevel" where
  "maxKyc levels =
     foldl (\<lambda>acc current. case current of None \<Rightarrow> acc | Some l \<Rightarrow> if kycRank acc < kycRank l then l else acc) KycLevel.NONE levels"

record capabilities =
  cb_canTrade :: bool
  cb_canWithdraw :: bool
  cb_reasons :: "(string \<times> KycLevel option) list"
  cb_needsKycForWithdraw :: KycLevel
  cb_needsKycForTrade :: KycLevel

text \<open>A reason is pushed once for its code.\<close>

definition pushReason :: "bool \<Rightarrow> string \<Rightarrow> KycLevel option \<Rightarrow> (string \<times> KycLevel option) list \<Rightarrow> (string \<times> KycLevel option) list" where
  "pushReason condition code level reasons =
     (if condition \<and> code \<notin> fst ` set reasons then reasons @ [(code, level)] else reasons)"

definition effectiveKyc :: "userKyc option \<Rightarrow> KycLevel" where
  "effectiveKyc kyc = (case kyc of None \<Rightarrow> KycLevel.NONE
     | Some k \<Rightarrow> if uk_status k = KycStatus.VERIFIED then uk_level k else KycLevel.NONE)"

definition capabilitiesOf :: "foundationContext \<Rightarrow> decimal option \<Rightarrow> KycLevel \<Rightarrow> KycLevel \<Rightarrow> capabilities" where
  "capabilitiesOf ctx available needsWithdraw needsTrade =
     (let active = (fx_status ctx = UserStatus.ACTIVE);
          effective = fst (fx_settings ctx);
          tradeOn = (st_tradeEnabled effective = Some True);
          withdrawOn = (st_withdrawEnabled effective = Some True);
          level = effectiveKyc (fx_kyc ctx);
          withdrawKyc = (needsWithdraw \<noteq> KycLevel.NONE \<and> kycRank level < kycRank needsWithdraw);
          tradeKyc = (needsTrade \<noteq> KycLevel.NONE \<and> kycRank level < kycRank needsTrade);
          canWithdraw = (active \<and> withdrawOn \<and> \<not> withdrawKyc);
          noMoney = (canWithdraw \<and> withDefault available 0 \<le> 0)
      in \<lparr>cb_canTrade = (active \<and> tradeOn \<and> \<not> tradeKyc),
          cb_canWithdraw = (canWithdraw \<and> \<not> noMoney),
          cb_reasons =
            pushReason noMoney ''INSUFFICIENT_AVAILABLE_IRR'' None
            (pushReason tradeKyc ''KYC_REQUIRED'' (Some needsTrade)
            (pushReason withdrawKyc ''KYC_REQUIRED'' (Some needsWithdraw)
            (pushReason (\<not> withdrawOn) ''SETTINGS_WITHDRAW_DISABLED'' None
            (pushReason (\<not> tradeOn) ''SETTINGS_TRADE_DISABLED'' None
            (pushReason (\<not> active) ''USER_BLOCKED'' None []))))),
          cb_needsKycForWithdraw = needsWithdraw, cb_needsKycForTrade = needsTrade\<rparr>)"

definition getCapabilities ::
  "settingsStore \<Rightarrow> id \<Rightarrow> requestCache \<Rightarrow> db \<Rightarrow> err + capabilities \<times> requestCache" where
  "getCapabilities st userId cache s =
     (case getFoundationContext st userId cache s of Inl e \<Rightarrow> Inl e
      | Inr (ctx, cache) \<Rightarrow>
          (let w = getWalletSummary st userId False cache s
           in case resolveLines userId summaryKeys s of Inl e \<Rightarrow> Inl e
              | Inr ls \<Rightarrow>
                  (let required = map pl_kycRequiredLevel ls
                   in Inr (capabilitiesOf ctx (ws_irrAvailable (fst w)) (maxKyc (take 2 required)) (maxKyc (drop 2 required)),
                           snd w))))"

section \<open>The guards\<close>

definition withdrawAccessGuard :: "settingsStore \<Rightarrow> actor option \<Rightarrow> err + bool" where
  "withdrawAccessGuard st user =
     (case user of None \<Rightarrow> Inr False
      | Some u \<Rightarrow>
          if st_withdrawEnabled (fst (getEffective st (act_id u) Map.empty)) \<noteq> Some True
            then Inl (ForbiddenException ''USER_WITHDRAW_DISABLED'') else Inr True)"

definition tradeAccessGuard :: "settingsStore \<Rightarrow> actor option \<Rightarrow> db \<Rightarrow> err + bool" where
  "tradeAccessGuard st user s =
     (case user of None \<Rightarrow> Inr False
      | Some u \<Rightarrow>
          (let settings = fst (getEffective st (act_id u) Map.empty);
               activeTrades = length (findMany (\<lambda>t. td_clientId t = act_id u \<and>
                 td_status t \<in> {TradeStatus.PENDING, TradeStatus.APPROVED}) (trades s))
           in if st_tradeEnabled settings \<noteq> Some True then Inl (ForbiddenException ''USER_TRADE_DISABLED'')
              else case st_maxOpenTrades settings of
                     None \<Rightarrow> Inr True
                   | Some m \<Rightarrow> if m \<le> int activeTrades then Inl (ConflictException ''MAX_OPEN_TRADES_REACHED'') else Inr True))"

section \<open>The controller\<close>

definition upsertKyc :: "userKyc \<Rightarrow> (userKyc \<Rightarrow> userKyc) \<Rightarrow> db \<Rightarrow> userKyc tx" where
  "upsertKyc new change s =
     (case findKyc (uk_userId new) s of
        None \<Rightarrow>
          (if findUser (uk_userId new) s = None then Inl (ForeignKeyViolation ''UserKyc'')
           else Inr (new, s\<lparr>userKycs := userKycs s @ [new]\<rparr>))
      | Some k \<Rightarrow>
          (let k = (change k)\<lparr>uk_updatedAt := db_now s\<rparr>
           in Inr (k, s\<lparr>userKycs := updateRows (\<lambda>x. uk_userId x = uk_userId new) (\<lambda>_. k) (userKycs s)\<rparr>)))"

record submitKycDto =
  sk_levelRequested :: "KycLevel option"
  sk_note :: "string option"
  sk_fileIds :: "id list option"

text \<open>\<open>Array.from(new Set(...))\<close> keeps the first of equal elements.\<close>

definition submitKyc :: "id \<Rightarrow> submitKycDto \<Rightarrow> db \<Rightarrow> userKyc tx" where
  "submitKyc userId body s =
     (let existing = findKyc userId s;
          requestedLevel = withDefault (sk_levelRequested body) KycLevel.BASIC;
          fileIds = firstOccurrences (withDefault (sk_fileIds body) []);
          files = findMany (\<lambda>f. fi_id f \<in> set fileIds) (fileRows s)
      in if (case existing of None \<Rightarrow> False
             | Some k \<Rightarrow> uk_status k = KycStatus.VERIFIED \<and> (uk_level k = requestedLevel \<or> uk_level k = KycLevel.FULL))
           then Inl (BadRequestException ''KYC_ALREADY_VERIFIED'')
         else if fileIds \<noteq> [] \<and> length files \<noteq> length fileIds then Inl (BadRequestException ''KYC_INVALID_FILE_IDS'')
         else if fileIds \<noteq> [] \<and> (\<exists>f\<in>set files. fi_uploadedById f \<noteq> userId) then Inl (ForbiddenException ''KYC_FILES_FORBIDDEN'')
         else
           bindE (upsertKyc
             \<lparr>uk_userId = userId, uk_status = KycStatus.PENDING, uk_level = requestedLevel, uk_verifiedAt = None,
              uk_rejectedAt = None, uk_rejectReason = None, uk_updatedAt = db_now s\<rparr>
             (\<lambda>k. k\<lparr>uk_status := KycStatus.PENDING, uk_level := requestedLevel\<rparr>) s) (\<lambda>updated s.
           bindE (forE fileIds (createAttachment AttachmentEntityType.KYC userId) s) (\<lambda>_ s.
           bindE (writeAudit PolicyAuditEntityType.USER_KYC userId (Some userId) (map_option AuditKyc existing)
                    (Some (AuditKyc updated)) (sk_note body) s) (\<lambda>_ s. Inr (updated, s)))))"

text \<open>\<open>UserKycAdminController.update\<close>.\<close>

definition updateUserKyc :: "id \<Rightarrow> id \<Rightarrow> KycStatus \<Rightarrow> KycLevel \<Rightarrow> string option \<Rightarrow> db \<Rightarrow> userKyc tx" where
  "updateUserKyc actorId userId status level reason s =
     (let existing = findKyc userId s;
          verifiedAt = (if status = KycStatus.VERIFIED then Some (db_now s) else None);
          rejectedAt = (if status = KycStatus.REJECTED then Some (db_now s) else None)
      in bindE (upsertKyc
           \<lparr>uk_userId = userId, uk_status = status, uk_level = level, uk_verifiedAt = verifiedAt,
            uk_rejectedAt = rejectedAt, uk_rejectReason = reason, uk_updatedAt = db_now s\<rparr>
           (\<lambda>k. k\<lparr>uk_status := status, uk_level := level, uk_verifiedAt := verifiedAt, uk_rejectedAt := rejectedAt,
                uk_rejectReason := orElse reason (uk_rejectReason k)\<rparr>) s) (\<lambda>updated s.
         bindE (writeAudit PolicyAuditEntityType.USER_KYC userId (Some actorId) (map_option AuditKyc existing)
                  (Some (AuditKyc updated)) reason s) (\<lambda>_ s. Inr (updated, s))))"

record walletAdjustDto =
  wj_instrumentCode :: string
  wj_amount :: decimal
  wj_reason :: string
  wj_externalRef :: "string option"

text \<open>
  \<open>adjustWallet\<close>: the account and the posting are two transactions, and the log a third statement; what
  an earlier one has written stays when a later one throws.
\<close>

definition adjustWallet :: "id \<Rightarrow> id \<Rightarrow> walletAdjustDto \<Rightarrow> db \<Rightarrow> (err + accountTx \<times> account) \<times> db" where
  "adjustWallet actorId userId body s =
     (case getOrCreateAccount userId (wj_instrumentCode body) s of
        Inl e \<Rightarrow> (Inl e, s)
      | Inr (account, s) \<Rightarrow>
          (case applyTransaction (ac_id account) (wj_amount body) AccountTxType.ADJUSTMENT TxRefType.ADJUSTMENT
                  (Some (withDefault (wj_externalRef body) (wj_reason body))) (Some actorId) None s of
             Inl e \<Rightarrow> (Inl e, s)
           | Inr (out, s) \<Rightarrow>
               (case writeAudit PolicyAuditEntityType.ACCOUNT_ADJUSTMENT (tx_id (fst out)) (Some actorId) None
                  (Some (AuditAdjustment userId (wj_instrumentCode body) (wj_amount body) (wj_reason body))) None s of
                  Inl e \<Rightarrow> (Inl e, s)
                | Inr (_, s) \<Rightarrow> (Inr out, s))))"

section \<open>Lemmas\<close>

lemma settings_fromStore:
  "fst (getEffective st i Map.empty) = fst (fromStore st i)"
  "fst (getEffectiveWithSources st i Map.empty) = fromStore st i"
  by (simp_all add: getEffective_def Let_def fromStore_def)

lemma maxKyc_upper:
  "kycRank acc \<le> kycRank (foldl (\<lambda>acc current. case current of None \<Rightarrow> acc
      | Some l \<Rightarrow> if kycRank acc < kycRank l then l else acc) acc ls)"
  "Some l \<in> set ls \<Longrightarrow> kycRank l \<le> kycRank (foldl (\<lambda>acc current. case current of None \<Rightarrow> acc
      | Some l \<Rightarrow> if kycRank acc < kycRank l then l else acc) acc ls)"
proof (induction ls arbitrary: acc)
  case (Cons x ls)
  let ?f = "\<lambda>acc current. case current of None \<Rightarrow> acc | Some l \<Rightarrow> if kycRank acc < kycRank l then l else acc"
  { case 1 show ?case using Cons.IH(1) [of "?f acc x"] by (auto split: option.splits if_splits) }
  { case 2 then show ?case using Cons.IH(1) [of "?f acc x"] Cons.IH(2) [of "?f acc x"] by (auto split: if_splits) }
qed simp_all

lemma maxKyc_le: "Some l \<in> set ls \<Longrightarrow> kycRank l \<le> kycRank (maxKyc ls)"
  unfolding maxKyc_def by (rule maxKyc_upper(2))

lemma kycRank_nonneg [simp]: "0 \<le> kycRank l"
  by (cases l) simp_all

lemma pushReason_Nil [simp]: "pushReason b code l rs = [] \<longleftrightarrow> rs = [] \<and> \<not> b"
  by (auto simp: pushReason_def)

lemma reasons_listed:
  "pushReason e ''INSUFFICIENT_AVAILABLE_IRR'' None (pushReason d ''KYC_REQUIRED'' T (pushReason c ''KYC_REQUIRED'' W
     (pushReason b ''SETTINGS_WITHDRAW_DISABLED'' None (pushReason a ''SETTINGS_TRADE_DISABLED'' None
       (pushReason z ''USER_BLOCKED'' None []))))) =
   (if z then [(''USER_BLOCKED'', None)] else []) @ (if a then [(''SETTINGS_TRADE_DISABLED'', None)] else []) @
   (if b then [(''SETTINGS_WITHDRAW_DISABLED'', None)] else []) @
   (if c then [(''KYC_REQUIRED'', W)] else if d then [(''KYC_REQUIRED'', T)] else []) @
   (if e then [(''INSUFFICIENT_AVAILABLE_IRR'', None)] else [])"
  by (cases z; cases a; cases b; cases c; cases d; cases e) (simp_all add: pushReason_def)

lemma resolveLines_nth:
  "resolveLines i ks s = Inr ls \<Longrightarrow> k < length ks \<Longrightarrow>
   k < length ls \<and> buildLine i (fst (ks ! k)) (snd (ks ! k)) s = Inr (ls ! k)"
proof (induction i ks s arbitrary: ls k rule: resolveLines.induct)
  case (2 userId action period ks s)
  then show ?case by (cases k) (auto split: sum.splits)
qed simp

text \<open>What the capabilities are computed from, when a request asks for them first.\<close>

lemma getCapabilities_eq:
  assumes "getCapabilities st i emptyCache s = Inr (cb, c)"
  obtains u ls where "findUser i s = Some u" "resolveLines i summaryKeys s = Inr ls"
    and "cb = capabilitiesOf
      \<lparr>fx_id = us_id u, fx_role = us_role u, fx_status = us_status u, fx_customerGroupId = us_customerGroupId u,
       fx_tahesabCustomerCode = us_tahesabCustomerCode u, fx_kyc = findKyc i s, fx_settings = fromStore st i\<rparr>
      (if st_showBalances (fst (fromStore st i)) \<noteq> Some True then None else irrAvailable i s)
      (maxKyc (take 2 (map pl_kycRequiredLevel ls))) (maxKyc (drop 2 (map pl_kycRequiredLevel ls)))"
proof -
  have cached: "fst (getEffectiveWithSources st i (snd (getEffectiveWithSources st i Map.empty))) = fromStore st i"
    by (rule getEffectiveWithSources_result(1) [OF getEffectiveWithSources_result(2)]) (simp add: cache_ok_def)
  from assms obtain u where u: "findUser i s = Some u"
    by (auto simp: getCapabilities_def getFoundationContext_def emptyCache_def split: option.splits sum.splits)
  with assms cached show thesis
    by (auto simp: getCapabilities_def getFoundationContext_def emptyCache_def getWalletSummary_def getEffective_def Let_def
        settings_fromStore split: sum.splits intro!: that)
qed

section \<open>Properties\<close>

text \<open>What the summary is compared with: the levels the policy asks for, the level that counts, and the money there is.\<close>

definition asksFor :: "id \<Rightarrow> PolicyAction set \<Rightarrow> db \<Rightarrow> KycLevel \<Rightarrow> bool" where
  "asksFor i actions s n \<longleftrightarrow> (\<exists>k\<in>actions. \<exists>p\<in>{PolicyPeriod.DAILY, PolicyPeriod.MONTHLY}. \<exists>r.
     resolvePolicy k PolicyMetric.NOTIONAL_IRR p (userOnly i) s = Inr r \<and> po_kycRequiredLevel r = Some n)"

definition highestAsked :: "id \<Rightarrow> PolicyAction set \<Rightarrow> db \<Rightarrow> KycLevel \<Rightarrow> bool" where
  "highestAsked i actions s n \<longleftrightarrow> (n = KycLevel.NONE \<or> asksFor i actions s n) \<and>
     (\<forall>m. asksFor i actions s m \<longrightarrow> kycRank m \<le> kycRank n)"

definition verifiedRank :: "id \<Rightarrow> db \<Rightarrow> int" where
  "verifiedRank i s = (case findKyc i s of None \<Rightarrow> 0 | Some k \<Rightarrow> if uk_status k = KycStatus.VERIFIED then kycRank (uk_level k) else 0)"

definition rialWallet :: "id \<Rightarrow> db \<Rightarrow> account option" where
  "rialWallet i s = findFirst (\<lambda>a. ac_userId a = i \<and>
     (\<exists>n. findFirst (\<lambda>n. in_id n = ac_instrumentId a) (instruments s) = Some n \<and> in_code n = ''IRR'')) (accounts s)"

lemma irrAvailable_wallet: "irrAvailable i s = map_option getUsableCapacity (rialWallet i s)"
proof -
  have "map_option (\<lambda>ai. ac_balance (fst ai) - ac_blockedBalance (fst ai) - ac_minBalance (fst ai))
      (findFirst (\<lambda>ai. in_code (snd ai) = IRR_INSTRUMENT_CODE) (List.map_filter (\<lambda>a. map_option (Pair a) (g a))
        (filter (\<lambda>a. ac_userId a = i) xs))) =
    map_option getUsableCapacity (findFirst (\<lambda>a. ac_userId a = i \<and> (\<exists>n. g a = Some n \<and> in_code n = ''IRR'')) xs)"
    for g :: "account \<Rightarrow> instrument option" and xs
    by (induction xs) (auto simp: map_filter_simps IRR_INSTRUMENT_CODE_def getUsableCapacity_def split: option.split)
  then show ?thesis by (simp add: irrAvailable_def accountsWithInstrument_def rialWallet_def)
qed

lemma maxKyc_member: "maxKyc ls = KycLevel.NONE \<or> Some (maxKyc ls) \<in> set ls"
proof -
  have "foldl (\<lambda>acc current. case current of None \<Rightarrow> acc | Some l \<Rightarrow> if kycRank acc < kycRank l then l else acc) acc ls = acc \<or>
    Some (foldl (\<lambda>acc current. case current of None \<Rightarrow> acc | Some l \<Rightarrow> if kycRank acc < kycRank l then l else acc) acc ls) \<in> set ls" for acc
    by (induction ls arbitrary: acc) (auto split: option.split)
  then show ?thesis by (simp add: maxKyc_def)
qed

lemma buildLine_level:
  "(\<exists>r. resolvePolicy k PolicyMetric.NOTIONAL_IRR p (userOnly i) s = Inr r \<and> po_kycRequiredLevel r = Some n) \<longleftrightarrow>
   (\<exists>l. buildLine i k p s = Inr l \<and> pl_kycRequiredLevel l = Some n)"
  by (cases "resolvePolicy k PolicyMetric.NOTIONAL_IRR p (userOnly i) s") (auto simp: buildLine_def)

lemma maxKyc_highest:
  assumes "\<And>n. Some n \<in> set ls \<longleftrightarrow> asksFor i ks s n"
  shows "highestAsked i ks s (maxKyc ls)"
  using maxKyc_member [of ls] maxKyc_le [of _ ls] by (auto simp: highestAsked_def assms)

lemma summary_levels:
  assumes "resolveLines i summaryKeys s = Inr ls"
  shows "highestAsked i {PolicyAction.WITHDRAW_IRR} s (maxKyc (take 2 (map pl_kycRequiredLevel ls)))"
    "highestAsked i {PolicyAction.TRADE_BUY, PolicyAction.TRADE_SELL} s (maxKyc (drop 2 (map pl_kycRequiredLevel ls)))"
proof -
  obtain a b c d e f where ls: "ls = [a, b, c, d, e, f]"
    and l: "buildLine i PolicyAction.WITHDRAW_IRR PolicyPeriod.DAILY s = Inr a" "buildLine i PolicyAction.WITHDRAW_IRR PolicyPeriod.MONTHLY s = Inr b"
      "buildLine i PolicyAction.TRADE_BUY PolicyPeriod.DAILY s = Inr c" "buildLine i PolicyAction.TRADE_BUY PolicyPeriod.MONTHLY s = Inr d"
      "buildLine i PolicyAction.TRADE_SELL PolicyPeriod.DAILY s = Inr e" "buildLine i PolicyAction.TRADE_SELL PolicyPeriod.MONTHLY s = Inr f"
    using assms by (auto simp: summaryKeys_def split: sum.splits)
  show "highestAsked i {PolicyAction.WITHDRAW_IRR} s (maxKyc (take 2 (map pl_kycRequiredLevel ls)))"
    by (rule maxKyc_highest) (auto simp: asksFor_def buildLine_level l ls)
  show "highestAsked i {PolicyAction.TRADE_BUY, PolicyAction.TRADE_SELL} s (maxKyc (drop 2 (map pl_kycRequiredLevel ls)))"
    by (rule maxKyc_highest) (auto simp: asksFor_def buildLine_level l ls)
qed

text \<open>
  C21. What a user is told he may do, and why not. The level named for withdrawals is the highest one that a daily or
  monthly withdrawal rule resolved for him asks for, and the level named for trades the highest of the four trade rules.
  He is told that he can withdraw exactly when he is active, the withdrawal guard lets him pass, his verified level is at
  least the one asked for, his balances are not hidden and the ledger would let him reserve something on his rial wallet;
  and that he can trade exactly when he is active, the trade guard does not find trading disabled and his verified level
  is at least the one asked for. The reasons are, in this order and no others: that he is not active, that trading is
  disabled, that withdrawing is, that a level is required, with the level for withdrawals if that is missing and the one
  for trades otherwise, and that nothing is available, which is said only when nothing else prevents a withdrawal.
\<close>

theorem capabilities_characterised:
  assumes "getCapabilities st i emptyCache s = Inr (cb, c)"
  shows "\<exists>u. findUser i s = Some u \<and>
    (let active = (us_status u = UserStatus.ACTIVE); W = cb_needsKycForWithdraw cb; T = cb_needsKycForTrade cb;
         closed = (withdrawAccessGuard st (Some \<lparr>act_id = i, act_role = r\<rparr>) \<noteq> Inr True);
         noTrade = (tradeAccessGuard st (Some \<lparr>act_id = i, act_role = r\<rparr>) s = Inl (ForbiddenException ''USER_TRADE_DISABLED''));
         lowW = (verifiedRank i s < kycRank W); lowT = (verifiedRank i s < kycRank T);
         money = (st_showBalances (fst (fromStore st i)) = Some True \<and> (\<exists>a. rialWallet i s = Some a \<and> 0 < getUsableCapacity a))
     in highestAsked i {PolicyAction.WITHDRAW_IRR} s W \<and> highestAsked i {PolicyAction.TRADE_BUY, PolicyAction.TRADE_SELL} s T \<and>
        cb_canWithdraw cb = (active \<and> \<not> closed \<and> \<not> lowW \<and> money) \<and> cb_canTrade cb = (active \<and> \<not> noTrade \<and> \<not> lowT) \<and>
        cb_reasons cb =
          (if active then [] else [(''USER_BLOCKED'', None)]) @ (if noTrade then [(''SETTINGS_TRADE_DISABLED'', None)] else []) @
          (if closed then [(''SETTINGS_WITHDRAW_DISABLED'', None)] else []) @
          (if lowW then [(''KYC_REQUIRED'', Some W)] else if lowT then [(''KYC_REQUIRED'', Some T)] else []) @
          (if active \<and> \<not> closed \<and> \<not> lowW \<and> \<not> money then [(''INSUFFICIENT_AVAILABLE_IRR'', None)] else []))"
proof -
  obtain u ls where u: "findUser i s = Some u" and ls: "resolveLines i summaryKeys s = Inr ls"
    and cb: "cb = capabilitiesOf
      \<lparr>fx_id = us_id u, fx_role = us_role u, fx_status = us_status u, fx_customerGroupId = us_customerGroupId u,
       fx_tahesabCustomerCode = us_tahesabCustomerCode u, fx_kyc = findKyc i s, fx_settings = fromStore st i\<rparr>
      (if st_showBalances (fst (fromStore st i)) \<noteq> Some True then None else irrAvailable i s)
      (maxKyc (take 2 (map pl_kycRequiredLevel ls))) (maxKyc (drop 2 (map pl_kycRequiredLevel ls)))"
    using getCapabilities_eq [OF assms] by blast
  have rank: "(n \<noteq> KycLevel.NONE \<and> x < kycRank n) = (x < kycRank n)" if "0 \<le> x" for n x
    using that by (cases n) simp_all
  have level: "kycRank (effectiveKyc (findKyc i s)) = verifiedRank i s" "0 \<le> verifiedRank i s"
    by (simp_all add: effectiveKyc_def verifiedRank_def split: option.split)
  have closed: "(withdrawAccessGuard st (Some \<lparr>act_id = i, act_role = r\<rparr>) \<noteq> Inr True) = (st_withdrawEnabled (fst (fromStore st i)) \<noteq> Some True)"
    by (simp add: withdrawAccessGuard_def settings_fromStore)
  have noTrade: "(tradeAccessGuard st (Some \<lparr>act_id = i, act_role = r\<rparr>) s = Inl (ForbiddenException ''USER_TRADE_DISABLED'')) =
      (st_tradeEnabled (fst (fromStore st i)) \<noteq> Some True)"
    by (auto simp: tradeAccessGuard_def settings_fromStore split: option.splits if_splits)
  let ?av = "if st_showBalances (fst (fromStore st i)) \<noteq> Some True then None else irrAvailable i s"
  have money: "(withDefault ?av 0 \<le> 0) = (\<not> (st_showBalances (fst (fromStore st i)) = Some True \<and>
      (\<exists>a. rialWallet i s = Some a \<and> 0 < getUsableCapacity a)))"
    by (cases "rialWallet i s") (auto simp: irrAvailable_wallet not_less)
  have needs: "cb_needsKycForWithdraw cb = maxKyc (take 2 (map pl_kycRequiredLevel ls))"
    "cb_needsKycForTrade cb = maxKyc (drop 2 (map pl_kycRequiredLevel ls))" by (simp_all add: cb capabilitiesOf_def Let_def)
  have told: "cb_canWithdraw cb = (us_status u = UserStatus.ACTIVE \<and> st_withdrawEnabled (fst (fromStore st i)) = Some True \<and>
        \<not> verifiedRank i s < kycRank (cb_needsKycForWithdraw cb) \<and> \<not> withDefault ?av 0 \<le> 0)"
    "cb_canTrade cb = (us_status u = UserStatus.ACTIVE \<and> st_tradeEnabled (fst (fromStore st i)) = Some True \<and>
        \<not> verifiedRank i s < kycRank (cb_needsKycForTrade cb))"
    unfolding cb capabilitiesOf_def Let_def by (simp_all only: level rank capabilities.simps foundationContext.simps) blast+
  show ?thesis
    using u summary_levels [OF ls] told
    unfolding Let_def closed noTrade needs money
    unfolding cb capabilitiesOf_def Let_def
    by (simp only: level rank capabilities.simps foundationContext.simps money reasons_listed) simp
qed

lemma map_sum_fst: "map_sum id fst m = Inr a \<Longrightarrow> \<exists>s. m = Inr (a, s)"
  by (cases m) auto

text \<open>A user with a verified level, one file and one wallet with money in it.\<close>

definition reza :: user where
  "reza = \<lparr>us_id = ''u1'', us_fullName = ''Reza'', us_mobile = ''0912'', us_email = ''r@x'', us_role = UserRole.CLIENT,
     us_status = UserStatus.ACTIVE, us_tahesabCustomerCode = None, us_customerGroupId = None, us_password = ''h'',
     us_createdAt = 0, us_updatedAt = 0\<rparr>"

definition rezaDb :: db where
  "rezaDb = emptyDb\<lparr>users := [reza],
     userKycs := [\<lparr>uk_userId = ''u1'', uk_status = KycStatus.VERIFIED, uk_level = KycLevel.BASIC, uk_verifiedAt = Some 0,
       uk_rejectedAt = None, uk_rejectReason = None, uk_updatedAt = 0\<rparr>],
     instruments := [irr], accounts := [\<lparr>ac_id = ''w1'', ac_userId = ''u1'', ac_instrumentId = in_id irr, ac_balance = 70,
       ac_blockedBalance = 20, ac_minBalance = 0\<rparr>],
     fileRows := [\<lparr>fi_id = ''passport'', fi_uploadedById = ''u1'', fi_storageKey = ''k'', fi_createdAt = 0, fi_fileName = ''n'', fi_mimeType = ''t'',
       fi_sizeBytes = 1, fi_label = None\<rparr>]\<rparr>"

definition plainStore :: settingsStore where
  "plainStore = \<lparr>ss_groupOf = (\<lambda>_. None), ss_groupSettings = (\<lambda>_. None), ss_userSettings = (\<lambda>_. None)\<rparr>"

text \<open>The same with a rule for everybody that asks for the full level to sell.\<close>

definition fullToSell :: policyRule where
  "fullToSell = \<lparr>pr_id = ''r'', pr_createdAt = 0, pr_updatedAt = 0, pr_scopeType = PolicyScopeType.GLOBAL, pr_scopeUserId = None,
     pr_scopeGroupId = None, pr_action = PolicyAction.TRADE_SELL, pr_metric = PolicyMetric.NOTIONAL_IRR, pr_period = PolicyPeriod.MONTHLY,
     pr_limit = 5, pr_minKycLevel = KycLevel.FULL, pr_instrumentId = None, pr_instrumentType = None, pr_productId = None,
     pr_enabled = True, pr_priority = 1, pr_note = None\<rparr>"

lemma reza_summary:
  "map_sum id fst (getCapabilities plainStore ''u1'' emptyCache (rezaDb\<lparr>policyRules := [fullToSell]\<rparr>)) = Inr
     \<lparr>cb_canTrade = False, cb_canWithdraw = True, cb_reasons = [(''KYC_REQUIRED'', Some KycLevel.FULL)],
      cb_needsKycForWithdraw = KycLevel.NONE, cb_needsKycForTrade = KycLevel.FULL\<rparr>"
  by code_simp

lemma capabilities_characterised_witness:
  "\<exists>cb c a. getCapabilities plainStore ''u1'' emptyCache (rezaDb\<lparr>policyRules := [fullToSell]\<rparr>) = Inr (cb, c) \<and>
     cb_reasons cb = [(''KYC_REQUIRED'', Some KycLevel.FULL)] \<and> cb_canWithdraw cb \<and>
     highestAsked ''u1'' {PolicyAction.TRADE_BUY, PolicyAction.TRADE_SELL} (rezaDb\<lparr>policyRules := [fullToSell]\<rparr>) KycLevel.FULL \<and>
     rialWallet ''u1'' (rezaDb\<lparr>policyRules := [fullToSell]\<rparr>) = Some a \<and> 0 < getUsableCapacity a"
proof -
  obtain cb c where r: "getCapabilities plainStore ''u1'' emptyCache (rezaDb\<lparr>policyRules := [fullToSell]\<rparr>) = Inr (cb, c)"
    "cb = \<lparr>cb_canTrade = False, cb_canWithdraw = True, cb_reasons = [(''KYC_REQUIRED'', Some KycLevel.FULL)],
      cb_needsKycForWithdraw = KycLevel.NONE, cb_needsKycForTrade = KycLevel.FULL\<rparr>"
    using map_sum_fst [OF reza_summary] by auto
  show ?thesis using capabilities_characterised [OF r(1), of UserRole.CLIENT] r by (auto simp: Let_def)
qed

lemma guard_Inr: "(if b then Inl e else m) = Inr x \<longleftrightarrow> \<not> b \<and> m = Inr x"
  by simp

lemma set_firstOccurrences [simp]: "set (firstOccurrences xs) = set xs"
  by (induction xs) auto

lemma findKyc_upsert:
  assumes "upsertKyc new change s = Inr (k, t)" and "\<And>x. uk_userId (change x) = uk_userId x"
  shows "findKyc (uk_userId new) t = Some k" "users t = users s" "fileRows t = fileRows s"
proof -
  show "users t = users s" "fileRows t = fileRows s"
    using assms(1) by (auto simp: upsertKyc_def Let_def split: option.splits if_splits)
  show "findKyc (uk_userId new) t = Some k"
  proof (cases "findKyc (uk_userId new) s")
    case None
    then show ?thesis using assms(1) by (auto simp: upsertKyc_def findKyc_def find_append split: if_splits)
  next
    case (Some x)
    then have "uk_userId x = uk_userId new" using find_SomeD [OF Some [unfolded findKyc_def]] by simp
    then show ?thesis
      using assms Some by (auto simp: upsertKyc_def Let_def findKyc_def find_replace)
  qed
qed

lemma createAttachments_frame:
  "forE ids (createAttachment et ei) s = Inr (y, x) \<Longrightarrow> userKycs x = userKycs s \<and> users x = users s"
  by (induction ids arbitrary: s) (auto simp: createAttachment_def bumpId_def bindE_Inr_iff)

lemma updateUserKyc_result:
  assumes "updateUserKyc a i st l r s = Inr (k, t)"
  shows "findKyc i t = Some k" "uk_status k = st" "uk_level k = l" "users t = users s" "fileRows t = fileRows s"
proof -
  from assms obtain w where up: "upsertKyc
           \<lparr>uk_userId = i, uk_status = st, uk_level = l, uk_verifiedAt = (if st = KycStatus.VERIFIED then Some (db_now s) else None),
            uk_rejectedAt = (if st = KycStatus.REJECTED then Some (db_now s) else None), uk_rejectReason = r, uk_updatedAt = db_now s\<rparr>
           (\<lambda>k. k\<lparr>uk_status := st, uk_level := l, uk_verifiedAt := (if st = KycStatus.VERIFIED then Some (db_now s) else None),
                uk_rejectedAt := (if st = KycStatus.REJECTED then Some (db_now s) else None),
                uk_rejectReason := orElse r (uk_rejectReason k)\<rparr>) s = Inr (k, w)"
      and w: "userKycs t = userKycs w" "users t = users w" "fileRows t = fileRows w"
    by (auto simp: updateUserKyc_def Let_def bindE_Inr_iff writeAudit_def bumpId_def)
  show "findKyc i t = Some k" "users t = users s" "fileRows t = fileRows s"
    using findKyc_upsert [OF up] w by (simp_all add: findKyc_def)
  show "uk_status k = st" "uk_level k = l"
    using up by (auto simp: upsertKyc_def Let_def split: option.splits if_splits)
qed

lemma submitKyc_result:
  assumes "submitKyc i body s = Inr (k, t)"
  shows "findKyc i t = Some k" "uk_status k = KycStatus.PENDING" "uk_level k = withDefault (sk_levelRequested body) KycLevel.BASIC"
    "users t = users s"
    "\<And>e. findKyc i s = Some e \<Longrightarrow> uk_status e = KycStatus.VERIFIED \<Longrightarrow> uk_level e \<noteq> uk_level k \<and> uk_level e \<noteq> KycLevel.FULL"
    "distinct (map fi_id (fileRows s)) \<Longrightarrow> f \<in> set (withDefault (sk_fileIds body) []) \<Longrightarrow>
       \<exists>x\<in>set (fileRows s). fi_id x = f \<and> fi_uploadedById x = i"
proof -
  let ?l = "withDefault (sk_levelRequested body) KycLevel.BASIC"
  let ?ids = "firstOccurrences (withDefault (sk_fileIds body) [])"
  let ?files = "findMany (\<lambda>f. fi_id f \<in> set ?ids) (fileRows s)"
  let ?up = "upsertKyc
             \<lparr>uk_userId = i, uk_status = KycStatus.PENDING, uk_level = ?l, uk_verifiedAt = None,
              uk_rejectedAt = None, uk_rejectReason = None, uk_updatedAt = db_now s\<rparr>
             (\<lambda>k. k\<lparr>uk_status := KycStatus.PENDING, uk_level := ?l\<rparr>) s"
  from assms have verified: "\<not> (case findKyc i s of None \<Rightarrow> False
             | Some k \<Rightarrow> uk_status k = KycStatus.VERIFIED \<and> (uk_level k = ?l \<or> uk_level k = KycLevel.FULL))"
      and files: "\<not> (?ids \<noteq> [] \<and> length ?files \<noteq> length ?ids)" "\<not> (?ids \<noteq> [] \<and> (\<exists>f\<in>set ?files. fi_uploadedById f \<noteq> i))"
      and run: "bindE ?up (\<lambda>updated v.
           bindE (forE ?ids (createAttachment AttachmentEntityType.KYC i) v) (\<lambda>_ x.
           bindE (writeAudit PolicyAuditEntityType.USER_KYC i (Some i) (map_option AuditKyc (findKyc i s))
                    (Some (AuditKyc updated)) (sk_note body) x) (\<lambda>_ s. Inr (updated, s)))) = Inr (k, t)"
    unfolding submitKyc_def Let_def guard_Inr by blast+
  from run obtain w where up: "?up = Inr (k, w)"
      and w: "userKycs t = userKycs w" "users t = users w"
    unfolding bindE_Inr_iff by (auto simp: writeAudit_def bumpId_def dest!: createAttachments_frame)
  have checks: "\<And>e. findKyc i s = Some e \<Longrightarrow> \<not> (uk_status e = KycStatus.VERIFIED \<and> (uk_level e = ?l \<or> uk_level e = KycLevel.FULL))"
        "?ids = [] \<or> length ?files = length ?ids \<and> (\<forall>f\<in>set ?files. fi_uploadedById f = i)"
    using verified files by (simp_all del: set_filter) blast
  note u = findKyc_upsert [OF up]
  show "findKyc i t = Some k" "users t = users s" using u w by (simp_all add: findKyc_def)
  show k: "uk_status k = KycStatus.PENDING" "uk_level k = ?l"
    using up by (auto simp: upsertKyc_def Let_def split: option.splits if_splits)
  show "uk_level e \<noteq> uk_level k \<and> uk_level e \<noteq> KycLevel.FULL" if "findKyc i s = Some e" "uk_status e = KycStatus.VERIFIED" for e
    using checks(1) that k by auto
  show "\<exists>x\<in>set (fileRows s). fi_id x = f \<and> fi_uploadedById x = i"
    if rows: "distinct (map fi_id (fileRows s))" and f: "f \<in> set (withDefault (sk_fileIds body) [])"
  proof -
    have in_ids: "f \<in> set ?ids" using f by simp
    then have "?ids \<noteq> []" by (intro notI) (simp only: list.set empty_iff)
    then have "length ?files = length ?ids" and own: "\<forall>f\<in>set ?files. fi_uploadedById f = i" using checks(2) by blast+
    from files_found(2) [OF rows this(1) in_ids] obtain x where "x \<in> set (fileRows s)" "fi_id x = f" by blast
    then show ?thesis using own in_ids by auto
  qed
qed

text \<open>
  The life of a KYC. The level an administrator has verified is the level the policies see. A further
  submission is refused unless it asks for another level and the verified one is not the full one; when it is
  accepted its files exist and are the user's own, and from then on, until the next decision, the policies see no
  level at all: the user loses the level he had.
\<close>

theorem kyc_submission_suspends_level:
  assumes "updateUserKyc a i KycStatus.VERIFIED l reason s = Inr (k, t)" and "findUser i s = Some u"
    and "distinct (map fi_id (fileRows s))"
  shows "getUserContext i t = Inr (i, us_customerGroupId u, l) \<and>
    (\<forall>body. l = KycLevel.FULL \<or> l = withDefault (sk_levelRequested body) KycLevel.BASIC \<longrightarrow>
       submitKyc i body t = Inl (BadRequestException ''KYC_ALREADY_VERIFIED'')) \<and>
    (\<forall>body k' w. submitKyc i body t = Inr (k', w) \<longrightarrow>
       uk_level k' = withDefault (sk_levelRequested body) KycLevel.BASIC \<and>
       (\<forall>f\<in>set (withDefault (sk_fileIds body) []). \<exists>x\<in>set (fileRows t). fi_id x = f \<and> fi_uploadedById x = i) \<and>
       getUserContext i w = Inr (i, us_customerGroupId u, KycLevel.NONE))"
proof -
  note up = updateUserKyc_result [OF assms(1)]
  have u: "us_id u = i" using find_SomeD [OF assms(2) [unfolded findUser_def]] by simp
  have ctx: "getUserContext i x = Inr (i, us_customerGroupId u, effectiveKyc (findKyc i x))" if "users x = users s" for x
    using assms(2) u that by (auto simp: getUserContext_def findUser_def findKyc_def effectiveKyc_def split: option.split)
  have refused: "submitKyc i body t = Inl (BadRequestException ''KYC_ALREADY_VERIFIED'')"
    if "l = KycLevel.FULL \<or> l = withDefault (sk_levelRequested body) KycLevel.BASIC" for body
    using that up(1-3) by (auto simp: submitKyc_def Let_def)
  have accepted: "uk_level k' = withDefault (sk_levelRequested body) KycLevel.BASIC \<and>
      (\<forall>f\<in>set (withDefault (sk_fileIds body) []). \<exists>x\<in>set (fileRows t). fi_id x = f \<and> fi_uploadedById x = i) \<and>
      getUserContext i w = Inr (i, us_customerGroupId u, KycLevel.NONE)"
    if run: "submitKyc i body t = Inr (k', w)" for body k' w
  proof -
    note sub = submitKyc_result [OF run]
    have "users w = users s" using sub(4) up(4) by simp
    then show ?thesis using sub(1-3,6) ctx [of w] assms(3) up(5) by (simp add: effectiveKyc_def)
  qed
  show ?thesis using ctx [OF up(4)] up(1-3) refused accepted by (auto simp: effectiveKyc_def)
qed

theorem kyc_submission_suspends_level_witness:
  "\<exists>k t k' w. updateUserKyc ''admin'' ''u1'' KycStatus.VERIFIED KycLevel.BASIC None rezaDb = Inr (k, t) \<and>
     submitKyc ''u1'' \<lparr>sk_levelRequested = Some KycLevel.FULL, sk_note = None, sk_fileIds = Some [''passport'']\<rparr> t = Inr (k', w) \<and>
     getUserContext ''u1'' t = Inr (''u1'', None, KycLevel.BASIC) \<and> getUserContext ''u1'' w = Inr (''u1'', None, KycLevel.NONE)"
proof -
  let ?body = "\<lparr>sk_levelRequested = Some KycLevel.FULL, sk_note = None, sk_fileIds = Some [''passport'']\<rparr>"
  have "map_sum id fst (bindE (updateUserKyc ''admin'' ''u1'' KycStatus.VERIFIED KycLevel.BASIC None rezaDb) (\<lambda>_. submitKyc ''u1'' ?body)) =
      Inr \<lparr>uk_userId = ''u1'', uk_status = KycStatus.PENDING, uk_level = KycLevel.FULL, uk_verifiedAt = Some 0,
        uk_rejectedAt = None, uk_rejectReason = None, uk_updatedAt = 0\<rparr>"
    by code_simp
  then obtain k t k' w where run: "updateUserKyc ''admin'' ''u1'' KycStatus.VERIFIED KycLevel.BASIC None rezaDb = Inr (k, t)"
      "submitKyc ''u1'' ?body t = Inr (k', w)"
    by (auto simp: bindE_def split: sum.splits dest!: map_sum_fst)
  have "findUser ''u1'' rezaDb = Some reza" "distinct (map fi_id (fileRows rezaDb))" "us_customerGroupId reza = None"
    by (simp_all add: rezaDb_def reza_def findUser_def)
  from kyc_submission_suspends_level [OF run(1) this(1,2)] this(3) run show ?thesis by metis
qed

text \<open>
  An adjustment by an administrator posts its amount to the one wallet and to no other, keeps the ledger in
  order and cannot be posted twice: a further adjustment of the same wallet in the same direction with the same
  reference, which is the text of the reason when none is given, is refused and changes nothing.
\<close>

theorem adjustment_posts_once:
  assumes "ledger_ok s" and "adjustWallet admin i body s = (Inr (x, b), t)"
  shows "ledger_ok t \<and> walletOf i (wj_instrumentCode body) b t \<and>
    (\<forall>j. posted j t = posted j s + (if j = ac_id b then wj_amount body else 0) \<and> held j t = held j s) \<and>
    (\<forall>other again. wj_instrumentCode again = wj_instrumentCode body \<and> (wj_amount again < 0 \<longleftrightarrow> wj_amount body < 0) \<and>
      withDefault (wj_externalRef again) (wj_reason again) = withDefault (wj_externalRef body) (wj_reason body) \<longrightarrow>
      (\<exists>e. adjustWallet other i again t = (Inl e, t)))"
proof -
  let ?ref = "withDefault (wj_externalRef body) (wj_reason body)"
  from assms(2) obtain a v w where get: "getOrCreateAccount i (wj_instrumentCode body) s = Inr (a, v)"
      and app: "applyTransaction (ac_id a) (wj_amount body) AccountTxType.ADJUSTMENT TxRefType.ADJUSTMENT (Some ?ref) (Some admin) None v
        = Inr ((x, b), w)"
      and t: "sameLedger w t"
    by (auto simp: adjustWallet_def writeAudit_def bumpId_def sameLedger_def split: sum.splits)
  have v: "ledger_ok v" "findAccount (ac_id a) v = Some a" using holdsE_D [OF getOrCreateAccount_keeps [OF assms(1)] get] by auto
  have w: "ledger_ok w" using holdsE_D [OF applyTransaction_keeps [OF v(1)] app] .
  note ge = getOrCreateAccount_effect [OF get] and ae = applyTransaction_effect [OF app]
  let ?f = "\<lambda>r. r\<lparr>ac_balance := ac_balance a + wj_amount body\<rparr>"
  have eqs: "b = ?f a" "\<exists>n ts. w = updateAccount (ac_id a) ?f (v\<lparr>db_seq := n, accountTxs := ts\<rparr>)"
    using app v(2) by (auto simp: applyTransaction_def createAccountTx_def Let_def bumpId_def split: if_splits)
  then obtain n ts where shape: "w = updateAccount (ac_id a) ?f (v\<lparr>db_seq := n, accountTxs := ts\<rparr>)" by blast
  have "walletOf i (wj_instrumentCode body) (?f a) w"
    unfolding shape
    by (rule walletOf_update) (use ledger_okD(3) [OF v(1)] walletOf_cong [OF getOrCreate_walletOf [OF get]] in \<open>auto simp: acctKey_def\<close>)
  then have wallet: "walletOf i (wj_instrumentCode body) b t" using eqs(1) sameLedger_sums(7) [OF t] by simp
  have ok: "ledger_ok t" by (rule sameLedger_ok [OF t w])
  have refused: "\<exists>e. adjustWallet other i again t = (Inl e, t)"
    if same: "wj_instrumentCode again = wj_instrumentCode body" "wj_amount again < 0 \<longleftrightarrow> wj_amount body < 0"
      "withDefault (wj_externalRef again) (wj_reason again) = ?ref" for other again
  proof (cases "applyTransaction (ac_id b) (wj_amount again) AccountTxType.ADJUSTMENT TxRefType.ADJUSTMENT (Some ?ref) (Some other) None t")
    case (Inl e)
    then show ?thesis using same walletOf_getOrCreate [OF wallet] by (simp add: adjustWallet_def)
  next
    case (Inr r)
    then obtain y c u where "applyTransaction (ac_id b) (wj_amount again) AccountTxType.ADJUSTMENT TxRefType.ADJUSTMENT (Some ?ref)
        (Some other) None t = Inr ((y, c), u)" by (cases r) auto
    note applyTransaction_unique(2) [OF this, of x] applyTransaction_unique(1) [OF app]
    moreover have "x \<in> set (accountTxs t)" using ae(6) t by (simp add: sameLedger_def)
    ultimately have False using same(2) ae(5,9,10) eqs(1) by (simp add: entrySideOf_def)
    then show ?thesis ..
  qed
  have "posted j t = posted j s + (if j = ac_id b then wj_amount body else 0) \<and> held j t = held j s" for j
    using sameLedger_sums(1,2) [OF t, of j] ae(1,2) [of j] ge(1,2) [of j] eqs(1) by simp
  with ok wallet refused show ?thesis by blast
qed

definition correction :: walletAdjustDto where
  "correction = \<lparr>wj_instrumentCode = ''IRR'', wj_amount = 5, wj_reason = ''correction'', wj_externalRef = None\<rparr>"

theorem adjustment_posts_once_witness:
  "\<exists>x b t e. adjustWallet ''admin'' ''u1'' correction (emptyDb\<lparr>users := [reza], instruments := [irr]\<rparr>) = (Inr (x, b), t) \<and>
     posted (ac_id b) t = 5 \<and> adjustWallet ''admin'' ''u1'' correction t = (Inl e, t)"
proof -
  let ?s = "emptyDb\<lparr>users := [reza], instruments := [irr]\<rparr>"
  have "ledger_ok ?s" by (simp add: ledger_ok_def emptyDb_def keys_ok_def inj_unaryId)
  moreover have "map_sum id (\<lambda>_. ()) (fst (adjustWallet ''admin'' ''u1'' correction ?s)) = Inr ()" by code_simp
  then obtain x b t where run: "adjustWallet ''admin'' ''u1'' correction ?s = (Inr (x, b), t)"
    by (cases "adjustWallet ''admin'' ''u1'' correction ?s"; cases "fst (adjustWallet ''admin'' ''u1'' correction ?s)") auto
  moreover have "posted j ?s = 0" for j by (simp add: posted_def emptyDb_def)
  ultimately show ?thesis
    using adjustment_posts_once [of ?s "''admin''" "''u1''" correction x b t] by (force simp: correction_def)
qed

end
