(* ===== verification/MarketAdmin.thy ===== *)
theory MarketAdmin
  imports Market
begin

text \<open>
  The catalogue the market reads and the worker that prices it: \<open>modules/market-products\<close>,
  \<open>modules/price-providers\<close>, \<open>modules/product-provider-mappings\<close>, \<open>modules/price-overrides\<close>,
  \<open>modules/instruments\<close>, and the registry of providers and the worker of \<open>modules/market\<close>. Columns of free
  JSON are left out. \<open>collate\<close> compares two texts the way the database sorts them.
\<close>

section \<open>The tables\<close>

record priceProvider =
  pp_id :: id
  pp_key :: string
  pp_displayName :: string
  pp_baseUrl :: "string option"
  pp_isEnabled :: bool
  pp_supportsStreaming :: bool
  pp_defaultPollIntervalSec :: "int option"

record productProviderMapping =
  mg_id :: id
  mg_productId :: id
  mg_providerId :: id
  mg_providerSymbol :: string
  mg_priority :: int
  mg_isEnabled :: bool

datatype PricingOverrideMode = ABSOLUTE | DELTA_BPS | DELTA_AMOUNT

record adminPriceOverride =
  ov_id :: id
  ov_createdAt :: time
  ov_updatedAt :: time
  ov_productId :: id
  ov_mode :: PricingOverrideMode
  ov_buyAbsolute :: "decimal option"
  ov_sellAbsolute :: "decimal option"
  ov_buyDeltaBps :: "int option"
  ov_sellDeltaBps :: "int option"
  ov_buyDeltaAmount :: "decimal option"
  ov_sellDeltaAmount :: "decimal option"
  ov_isActive :: bool
  ov_startsAt :: time
  ov_expiresAt :: time
  ov_reason :: string
  ov_createdByAdminId :: id
  ov_revokedAt :: "time option"
  ov_revokedByAdminId :: "id option"

record instrumentPrice =
  ip_id :: id
  ip_createdAt :: time
  ip_instrumentId :: id
  ip_buyPrice :: decimal
  ip_sellPrice :: decimal
  ip_source :: "string option"

text \<open>The catalogue: these tables beside the others, which hold the products, the clock and the identifiers.\<close>

record catalogue =
  ct_db :: db
  ct_providers :: "priceProvider list"
  ct_mappings :: "productProviderMapping list"
  ct_overrides :: "adminPriceOverride list"
  ct_prices :: "instrumentPrice list"

type_synonym 'a ctx = "('a, catalogue) outcome"

definition ct_now :: "catalogue \<Rightarrow> time" where
  "ct_now c = db_now (ct_db c)"

definition ct_fresh :: "catalogue \<Rightarrow> id" where
  "ct_fresh c = freshId (ct_db c)"

definition ct_bump :: "catalogue \<Rightarrow> catalogue" where
  "ct_bump c = c\<lparr>ct_db := bumpId (ct_db c)\<rparr>"

section \<open>MarketProductsService\<close>

text \<open>Two keys of an \<open>orderBy\<close>: the second one decides when the first one is equal.\<close>

definition thenBy :: "int \<Rightarrow> int \<Rightarrow> int" where
  "thenBy a b = (if a \<noteq> 0 then a else b)"

record listProductsQuery =
  lp_isActive :: "string option"
  lp_groupKey :: "string option"
  lp_search :: "string option"

definition foldedContains :: "string \<Rightarrow> string \<Rightarrow> bool" where
  "foldedContains value q = hasSubstring (toLowerCase value) (toLowerCase q)"

definition listAdminProducts :: "(string \<Rightarrow> string \<Rightarrow> int) \<Rightarrow> listProductsQuery \<Rightarrow> catalogue \<Rightarrow> marketProduct list" where
  "listAdminProducts collate query c =
     sortBy (\<lambda>a b. thenBy (mp_sortOrder a - mp_sortOrder b) (collate (mp_code a) (mp_code b)))
       (findMany (\<lambda>p.
          (case lp_isActive query of None \<Rightarrow> True | Some x \<Rightarrow> mp_isActive p = (x = ''true'')) \<and>
          (truthy (lp_groupKey query) \<longrightarrow> mp_groupKey p = the (lp_groupKey query)) \<and>
          (truthy (lp_search query) \<longrightarrow>
             foldedContains (mp_code p) (the (lp_search query)) \<or> foldedContains (mp_displayName p) (the (lp_search query))))
        (marketProducts (ct_db c)))"

definition compareByGroup :: "(string \<Rightarrow> string \<Rightarrow> int) \<Rightarrow> marketProduct \<Rightarrow> marketProduct \<Rightarrow> int" where
  "compareByGroup collate a b = thenBy (collate (mp_groupKey a) (mp_groupKey b)) (mp_sortOrder a - mp_sortOrder b)"

definition listActiveProducts :: "(string \<Rightarrow> string \<Rightarrow> int) \<Rightarrow> catalogue \<Rightarrow> marketProduct list" where
  "listActiveProducts collate c = sortBy (compareByGroup collate) (findMany mp_isActive (marketProducts (ct_db c)))"

definition listActiveForUser :: "(string \<Rightarrow> string \<Rightarrow> int) \<Rightarrow> settings \<Rightarrow> catalogue \<Rightarrow> marketProduct list" where
  "listActiveForUser collate st c =
     (let hiddenTypes = (if isOn (st_showGold st) then [] else [MarketProductType.GOLD]) @
            (if isOn (st_showCoins st) then [] else [MarketProductType.COIN]) @
            (if isOn (st_showCash st) then [] else [MarketProductType.CASH])
      in sortBy (compareByGroup collate)
           (findMany (\<lambda>p. mp_isActive p \<and> mp_productType p \<notin> set hiddenTypes) (marketProducts (ct_db c))))"

text \<open>What the database asks of a row: the base instrument exists, and no other row has the code.\<close>

definition storableProduct :: "marketProduct \<Rightarrow> db \<Rightarrow> err option" where
  "storableProduct p s =
     (if \<exists>q\<in>set (marketProducts s). mp_id q \<noteq> mp_id p \<and> mp_code q = mp_code p
        then Some (UniqueConstraintViolation ''MarketProduct'')
      else if mp_baseInstrumentId p \<notin> in_id ` set (instruments s) then Some (ForeignKeyViolation ''MarketProduct'')
      else None)"

record productDto =
  pd_code :: string
  pd_displayName :: string
  pd_productType :: MarketProductType
  pd_tradeType :: TradeType
  pd_baseInstrumentId :: id
  pd_unitType :: PolicyMetric
  pd_groupKey :: string
  pd_sortOrder :: int
  pd_isActive :: bool

definition createProduct :: "productDto \<Rightarrow> catalogue \<Rightarrow> marketProduct ctx" where
  "createProduct dto c =
     (let p = \<lparr>mp_id = ct_fresh c, mp_code = pd_code dto, mp_productType = pd_productType dto,
            mp_tradeType = pd_tradeType dto, mp_baseInstrumentId = pd_baseInstrumentId dto, mp_unitType = pd_unitType dto,
            mp_isActive = pd_isActive dto, mp_createdAt = ct_now c, mp_displayName = pd_displayName dto,
            mp_groupKey = pd_groupKey dto, mp_sortOrder = pd_sortOrder dto\<rparr>
      in case storableProduct p (ct_db c) of Some e \<Rightarrow> Inl e
         | None \<Rightarrow> Inr (p, c\<lparr>ct_db := (bumpId (ct_db c))\<lparr>marketProducts := marketProducts (ct_db c) @ [p]\<rparr>\<rparr>))"

text \<open>\<open>marketProduct.update\<close>: the row with this id as \<open>change\<close> leaves it.\<close>

definition changeProduct :: "id \<Rightarrow> (marketProduct \<Rightarrow> marketProduct) \<Rightarrow> catalogue \<Rightarrow> marketProduct ctx" where
  "changeProduct i change c =
     (case findProduct i (ct_db c) of
        None \<Rightarrow> Inl (RecordNotFound ''MarketProduct'')
      | Some p \<Rightarrow>
          (case storableProduct (change p) (ct_db c) of Some e \<Rightarrow> Inl e
           | None \<Rightarrow> Inr (change p, c\<lparr>ct_db := (ct_db c)\<lparr>marketProducts :=
               updateRows (\<lambda>q. mp_id q = i) (\<lambda>_. change p) (marketProducts (ct_db c))\<rparr>\<rparr>)))"

record productUpdate =
  pu_code :: "string option"
  pu_displayName :: "string option"
  pu_productType :: "MarketProductType option"
  pu_tradeType :: "TradeType option"
  pu_baseInstrumentId :: "id option"
  pu_unitType :: "PolicyMetric option"
  pu_groupKey :: "string option"
  pu_sortOrder :: "int option"
  pu_isActive :: "bool option"

definition updateProduct :: "id \<Rightarrow> productUpdate \<Rightarrow> catalogue \<Rightarrow> marketProduct ctx" where
  "updateProduct i dto = changeProduct i (\<lambda>p. p\<lparr>
     mp_code := withDefault (pu_code dto) (mp_code p), mp_displayName := withDefault (pu_displayName dto) (mp_displayName p),
     mp_productType := withDefault (pu_productType dto) (mp_productType p),
     mp_tradeType := withDefault (pu_tradeType dto) (mp_tradeType p),
     mp_baseInstrumentId := withDefault (pu_baseInstrumentId dto) (mp_baseInstrumentId p),
     mp_unitType := withDefault (pu_unitType dto) (mp_unitType p),
     mp_groupKey := withDefault (pu_groupKey dto) (mp_groupKey p),
     mp_sortOrder := withDefault (pu_sortOrder dto) (mp_sortOrder p),
     mp_isActive := withDefault (pu_isActive dto) (mp_isActive p)\<rparr>)"

definition activateProduct :: "id \<Rightarrow> catalogue \<Rightarrow> marketProduct ctx" where
  "activateProduct i = changeProduct i (mp_isActive_update (\<lambda>_. True))"

definition deactivateProduct :: "id \<Rightarrow> catalogue \<Rightarrow> marketProduct ctx" where
  "deactivateProduct i = changeProduct i (mp_isActive_update (\<lambda>_. False))"

section \<open>PriceProvidersService\<close>

record providerDto =
  vd_key :: string
  vd_displayName :: string
  vd_baseUrl :: "string option"
  vd_isEnabled :: bool
  vd_supportsStreaming :: bool
  vd_defaultPollIntervalSec :: "int option"

definition listProviders :: "(string \<Rightarrow> string \<Rightarrow> int) \<Rightarrow> catalogue \<Rightarrow> priceProvider list" where
  "listProviders collate c = sortBy (\<lambda>a b. collate (pp_key a) (pp_key b)) (ct_providers c)"

definition createProvider :: "providerDto \<Rightarrow> catalogue \<Rightarrow> priceProvider ctx" where
  "createProvider dto c =
     (if \<exists>q\<in>set (ct_providers c). pp_key q = vd_key dto then Inl (UniqueConstraintViolation ''PriceProvider'')
      else let p = \<lparr>pp_id = ct_fresh c, pp_key = vd_key dto, pp_displayName = vd_displayName dto, pp_baseUrl = vd_baseUrl dto,
             pp_isEnabled = vd_isEnabled dto, pp_supportsStreaming = vd_supportsStreaming dto,
             pp_defaultPollIntervalSec = vd_defaultPollIntervalSec dto\<rparr>
           in Inr (p, (ct_bump c)\<lparr>ct_providers := ct_providers c @ [p]\<rparr>))"

definition changeProvider :: "id \<Rightarrow> (priceProvider \<Rightarrow> priceProvider) \<Rightarrow> catalogue \<Rightarrow> priceProvider ctx" where
  "changeProvider i change c =
     (case findFirst (\<lambda>p. pp_id p = i) (ct_providers c) of
        None \<Rightarrow> Inl (RecordNotFound ''PriceProvider'')
      | Some p \<Rightarrow>
          (if \<exists>q\<in>set (ct_providers c). pp_id q \<noteq> i \<and> pp_key q = pp_key (change p)
             then Inl (UniqueConstraintViolation ''PriceProvider'')
           else Inr (change p, c\<lparr>ct_providers := updateRows (\<lambda>q. pp_id q = i) (\<lambda>_. change p) (ct_providers c)\<rparr>)))"

record providerUpdate =
  vu_key :: "string option"
  vu_displayName :: "string option"
  vu_baseUrl :: "string option"
  vu_isEnabled :: "bool option"
  vu_supportsStreaming :: "bool option"
  vu_defaultPollIntervalSec :: "int option"

definition updateProvider :: "id \<Rightarrow> providerUpdate \<Rightarrow> catalogue \<Rightarrow> priceProvider ctx" where
  "updateProvider i dto = changeProvider i (\<lambda>p. p\<lparr>
     pp_key := withDefault (vu_key dto) (pp_key p), pp_displayName := withDefault (vu_displayName dto) (pp_displayName p),
     pp_baseUrl := orElse (vu_baseUrl dto) (pp_baseUrl p), pp_isEnabled := withDefault (vu_isEnabled dto) (pp_isEnabled p),
     pp_supportsStreaming := withDefault (vu_supportsStreaming dto) (pp_supportsStreaming p),
     pp_defaultPollIntervalSec := orElse (vu_defaultPollIntervalSec dto) (pp_defaultPollIntervalSec p)\<rparr>)"

definition enableProvider :: "id \<Rightarrow> catalogue \<Rightarrow> priceProvider ctx" where
  "enableProvider i = changeProvider i (pp_isEnabled_update (\<lambda>_. True))"

definition disableProvider :: "id \<Rightarrow> catalogue \<Rightarrow> priceProvider ctx" where
  "disableProvider i = changeProvider i (pp_isEnabled_update (\<lambda>_. False))"

section \<open>ProductProviderMappingsService\<close>

definition listMappings :: "(string \<Rightarrow> string \<Rightarrow> int) \<Rightarrow> id option \<Rightarrow> id option \<Rightarrow> catalogue \<Rightarrow> productProviderMapping list" where
  "listMappings collate productId providerId c =
     sortBy (\<lambda>a b. thenBy (collate (mg_productId a) (mg_productId b)) (mg_priority a - mg_priority b))
       (findMany (\<lambda>m. (truthy productId \<longrightarrow> Some (mg_productId m) = productId) \<and>
          (truthy providerId \<longrightarrow> Some (mg_providerId m) = providerId)) (ct_mappings c))"

definition storableMapping :: "productProviderMapping \<Rightarrow> catalogue \<Rightarrow> err option" where
  "storableMapping m c =
     (if \<exists>n\<in>set (ct_mappings c). mg_id n \<noteq> mg_id m \<and> mg_productId n = mg_productId m \<and> mg_providerId n = mg_providerId m
        then Some (UniqueConstraintViolation ''ProductProviderMapping'')
      else if mg_productId m \<notin> mp_id ` set (marketProducts (ct_db c)) \<or> mg_providerId m \<notin> pp_id ` set (ct_providers c)
        then Some (ForeignKeyViolation ''ProductProviderMapping'')
      else None)"

definition insertMapping :: "productProviderMapping \<Rightarrow> catalogue \<Rightarrow> productProviderMapping ctx" where
  "insertMapping m c =
     (case storableMapping m c of Some e \<Rightarrow> Inl e
      | None \<Rightarrow> Inr (m, (ct_bump c)\<lparr>ct_mappings := ct_mappings c @ [m]\<rparr>))"

text \<open>An item of the payload of \<open>replaceMappings\<close>; with a product it is the request of \<open>create\<close>.\<close>

record mappingItem =
  mi_providerId :: id
  mi_providerSymbol :: string
  mi_priority :: int
  mi_isEnabled :: bool

definition mappingRow :: "id \<Rightarrow> mappingItem \<Rightarrow> catalogue \<Rightarrow> productProviderMapping" where
  "mappingRow productId m c = \<lparr>mg_id = ct_fresh c, mg_productId = productId, mg_providerId = mi_providerId m,
     mg_providerSymbol = mi_providerSymbol m, mg_priority = mi_priority m, mg_isEnabled = mi_isEnabled m\<rparr>"

definition createMapping :: "id \<Rightarrow> mappingItem \<Rightarrow> catalogue \<Rightarrow> productProviderMapping ctx" where
  "createMapping productId dto c = insertMapping (mappingRow productId dto c) c"

definition changeMapping ::
  "id \<Rightarrow> (productProviderMapping \<Rightarrow> productProviderMapping) \<Rightarrow> catalogue \<Rightarrow> productProviderMapping ctx" where
  "changeMapping i change c =
     (case findFirst (\<lambda>m. mg_id m = i) (ct_mappings c) of
        None \<Rightarrow> Inl (RecordNotFound ''ProductProviderMapping'')
      | Some m \<Rightarrow>
          (case storableMapping (change m) c of Some e \<Rightarrow> Inl e
           | None \<Rightarrow> Inr (change m, c\<lparr>ct_mappings := updateRows (\<lambda>n. mg_id n = i) (\<lambda>_. change m) (ct_mappings c)\<rparr>)))"

record mappingUpdate =
  mu_productId :: "id option"
  mu_providerId :: "id option"
  mu_providerSymbol :: "string option"
  mu_priority :: "int option"
  mu_isEnabled :: "bool option"

definition updateMapping :: "id \<Rightarrow> mappingUpdate \<Rightarrow> catalogue \<Rightarrow> productProviderMapping ctx" where
  "updateMapping i dto = changeMapping i (\<lambda>m. m\<lparr>
     mg_productId := withDefault (mu_productId dto) (mg_productId m),
     mg_providerId := withDefault (mu_providerId dto) (mg_providerId m),
     mg_providerSymbol := withDefault (mu_providerSymbol dto) (mg_providerSymbol m),
     mg_priority := withDefault (mu_priority dto) (mg_priority m),
     mg_isEnabled := withDefault (mu_isEnabled dto) (mg_isEnabled m)\<rparr>)"

definition enableMapping :: "id \<Rightarrow> catalogue \<Rightarrow> productProviderMapping ctx" where
  "enableMapping i = changeMapping i (mg_isEnabled_update (\<lambda>_. True))"

definition disableMapping :: "id \<Rightarrow> catalogue \<Rightarrow> productProviderMapping ctx" where
  "disableMapping i = changeMapping i (mg_isEnabled_update (\<lambda>_. False))"

text \<open>The check of the payload, one item after the other; the message names the column.\<close>

fun checkMappings :: "mappingItem list \<Rightarrow> id set \<Rightarrow> int set \<Rightarrow> err option" where
  "checkMappings [] seenProviderIds seenPriorities = None"
| "checkMappings (m # ms) seenProviderIds seenPriorities =
     (if mi_providerId m \<in> seenProviderIds then Some (BadRequestException ''Duplicate providerId in payload'')
      else if mi_priority m \<in> seenPriorities then Some (BadRequestException ''Duplicate priority in payload'')
      else checkMappings ms (insert (mi_providerId m) seenProviderIds) (insert (mi_priority m) seenPriorities))"

definition replaceMappings :: "id \<Rightarrow> mappingItem list \<Rightarrow> catalogue \<Rightarrow> productProviderMapping list ctx" where
  "replaceMappings productId mappings c =
     (case checkMappings mappings {} {} of Some e \<Rightarrow> Inl e
      | None \<Rightarrow>
          (let c = c\<lparr>ct_mappings := deleteRows (\<lambda>m. mg_productId m = productId) (ct_mappings c)\<rparr>
           in if mappings = [] then Inr ([], c)
              else bindE (forE mappings (\<lambda>m c. bindE (createMapping productId m c) (\<lambda>_ c. Inr ((), c))) c) (\<lambda>_ c.
                   Inr (sortBy (\<lambda>a b. mg_priority a - mg_priority b)
                          (findMany (\<lambda>m. mg_productId m = productId) (ct_mappings c)), c))))"

section \<open>PriceOverridesService\<close>

definition flag :: "bool \<Rightarrow> int" where
  "flag b = (if b then 1 else 0)"

definition listOverrides :: "id option \<Rightarrow> bool \<Rightarrow> catalogue \<Rightarrow> adminPriceOverride list" where
  "listOverrides productId activeOnly c =
     sortBy (\<lambda>a b. thenBy (flag (ov_isActive b) - flag (ov_isActive a)) (ov_createdAt b - ov_createdAt a))
       (findMany (\<lambda>v. (truthy productId \<longrightarrow> Some (ov_productId v) = productId) \<and> (activeOnly \<longrightarrow> ov_isActive v)) (ct_overrides c))"

record overrideDto =
  od_productId :: id
  od_mode :: PricingOverrideMode
  od_buyAbsolute :: "decimal option"
  od_sellAbsolute :: "decimal option"
  od_buyDeltaBps :: "int option"
  od_sellDeltaBps :: "int option"
  od_buyDeltaAmount :: "decimal option"
  od_sellDeltaAmount :: "decimal option"
  od_expiresAt :: time
  od_reason :: string
  od_replaceExisting :: "bool option"

definition maxTtlMs :: time where
  "maxTtlMs = 7 * 24 * 60 * 60 * 1000"

definition validateOverride :: "overrideDto \<Rightarrow> time \<Rightarrow> err option" where
  "validateOverride dto now =
     (if od_mode dto = ABSOLUTE \<and> (od_buyAbsolute dto = None \<or> od_sellAbsolute dto = None)
        then Some (BadRequestException ''Absolute overrides require buyAbsolute and sellAbsolute'')
      else if od_mode dto = DELTA_BPS \<and> (od_buyDeltaBps dto = None \<or> od_sellDeltaBps dto = None)
        then Some (BadRequestException ''Delta BPS overrides require buyDeltaBps and sellDeltaBps'')
      else if od_mode dto = DELTA_AMOUNT \<and> (od_buyDeltaAmount dto = None \<or> od_sellDeltaAmount dto = None)
        then Some (BadRequestException ''Delta amount overrides require buyDeltaAmount and sellDeltaAmount'')
      else if od_expiresAt dto \<le> now then Some (BadRequestException ''expiresAt must be in the future'')
      else if maxTtlMs < od_expiresAt dto - now then Some (BadRequestException ''Override TTL exceeds allowed window'')
      else None)"

definition newOverride :: "overrideDto \<Rightarrow> id \<Rightarrow> catalogue \<Rightarrow> adminPriceOverride" where
  "newOverride dto adminId c =
     \<lparr>ov_id = ct_fresh c, ov_createdAt = ct_now c, ov_updatedAt = ct_now c, ov_productId = od_productId dto,
      ov_mode = od_mode dto, ov_buyAbsolute = od_buyAbsolute dto, ov_sellAbsolute = od_sellAbsolute dto,
      ov_buyDeltaBps = od_buyDeltaBps dto, ov_sellDeltaBps = od_sellDeltaBps dto,
      ov_buyDeltaAmount = od_buyDeltaAmount dto, ov_sellDeltaAmount = od_sellDeltaAmount dto, ov_isActive = True,
      ov_startsAt = ct_now c, ov_expiresAt = od_expiresAt dto, ov_reason = od_reason dto, ov_createdByAdminId = adminId,
      ov_revokedAt = None, ov_revokedByAdminId = None\<rparr>"

text \<open>The row of an override that is revoked, by \<open>revoke\<close> or by its successor.\<close>

definition revoked :: "id \<Rightarrow> time \<Rightarrow> adminPriceOverride \<Rightarrow> adminPriceOverride" where
  "revoked adminId now v =
     v\<lparr>ov_isActive := False, ov_revokedAt := Some now, ov_revokedByAdminId := Some adminId, ov_updatedAt := now\<rparr>"

definition createOverride :: "overrideDto \<Rightarrow> id \<Rightarrow> catalogue \<Rightarrow> adminPriceOverride ctx" where
  "createOverride dto adminId c =
     (case validateOverride dto (ct_now c) of Some e \<Rightarrow> Inl e
      | None \<Rightarrow>
          (let active = (\<lambda>v. ov_productId v = od_productId dto \<and> ov_isActive v);
               replace = od_replaceExisting dto \<noteq> Some False
           in if \<not> replace \<and> (\<exists>v\<in>set (ct_overrides c). active v)
                then Inl (BadRequestException ''Active override exists; set replaceExisting to true to replace it'')
              else let c = (if replace
                       then c\<lparr>ct_overrides := updateRows active (revoked adminId (ct_now c)) (ct_overrides c)\<rparr> else c);
                     v = newOverride dto adminId c
              in if od_productId dto \<notin> mp_id ` set (marketProducts (ct_db c)) \<or> adminId \<notin> us_id ` set (users (ct_db c))
                   then Inl (ForeignKeyViolation ''AdminPriceOverride'')
                 else Inr (v, (ct_bump c)\<lparr>ct_overrides := ct_overrides c @ [v]\<rparr>)))"

definition revokeOverride :: "id \<Rightarrow> id \<Rightarrow> catalogue \<Rightarrow> adminPriceOverride ctx" where
  "revokeOverride i adminId c =
     (case findFirst (\<lambda>v. ov_id v = i) (ct_overrides c) of
        None \<Rightarrow> Inl (RecordNotFound ''AdminPriceOverride'')
      | Some v \<Rightarrow> Inr (revoked adminId (ct_now c) v,
          c\<lparr>ct_overrides := updateRows (\<lambda>w. ov_id w = i) (revoked adminId (ct_now c)) (ct_overrides c)\<rparr>))"

section \<open>InstrumentsService\<close>

definition findAllInstruments :: "(string \<Rightarrow> string \<Rightarrow> int) \<Rightarrow> catalogue \<Rightarrow> instrument list" where
  "findAllInstruments collate c = sortBy (\<lambda>a b. collate (in_code a) (in_code b)) (instruments (ct_db c))"

definition findInstrumentByCode :: "string \<Rightarrow> catalogue \<Rightarrow> err + instrument" where
  "findInstrumentByCode code c =
     (case findFirst (\<lambda>i. in_code i = code) (instruments (ct_db c)) of
        None \<Rightarrow> Inl (NotFoundException (''Instrument '' @ code @ '' not found''))
      | Some i \<Rightarrow> Inr i)"

definition findLatestPrice :: "id \<Rightarrow> catalogue \<Rightarrow> instrumentPrice option" where
  "findLatestPrice instrumentId c =
     (case sortBy (\<lambda>a b. ip_createdAt b - ip_createdAt a) (findMany (\<lambda>p. ip_instrumentId p = instrumentId) (ct_prices c)) of
        [] \<Rightarrow> None | p # _ \<Rightarrow> Some p)"

definition createPrice :: "id \<Rightarrow> decimal \<Rightarrow> decimal \<Rightarrow> string option \<Rightarrow> catalogue \<Rightarrow> instrumentPrice ctx" where
  "createPrice instrumentId buyPrice sellPrice source c =
     (if instrumentId \<notin> in_id ` set (instruments (ct_db c)) then Inl (ForeignKeyViolation ''InstrumentPrice'')
      else let p = \<lparr>ip_id = ct_fresh c, ip_createdAt = ct_now c, ip_instrumentId = instrumentId, ip_buyPrice = buyPrice,
             ip_sellPrice = sellPrice, ip_source = source\<rparr>
           in Inr (p, (ct_bump c)\<lparr>ct_prices := ct_prices c @ [p]\<rparr>))"

section \<open>The registry of providers\<close>

text \<open>
  A provider answers null or a quote, or throws a message. The two of \<open>market/providers/impl\<close> answer null;
  \<open>MarketModule\<close> registers them.
\<close>

type_synonym provider = "productProviderMapping \<Rightarrow> marketProduct \<Rightarrow> string + providerQuote option"

definition manualProvider :: provider where
  "manualProvider mapping product = Inr None"

definition stubProvider :: provider where
  "stubProvider mapping product = Inr None"

definition registerProvider :: "string \<Rightarrow> provider \<Rightarrow> (string \<rightharpoonup> provider) \<Rightarrow> string \<rightharpoonup> provider" where
  "registerProvider key p registry = registry(key \<mapsto> p)"

definition marketModule :: "string \<rightharpoonup> provider" where
  "marketModule = registerProvider ''STUB'' stubProvider (registerProvider ''MANUAL'' manualProvider Map.empty)"

section \<open>PriceIngestionWorker\<close>

text \<open>What the worker writes to Redis: the quotes, the messages published, the index and the last tick.\<close>

record board =
  bd_quotes :: "id \<rightharpoonup> canonicalQuote"
  bd_published :: "(id \<times> time \<times> QuoteStatus) list"
  bd_index :: "id list option"
  bd_lastTick :: "(time \<times> nat \<times> nat \<times> nat) option"

definition emptyBoard :: board where
  "emptyBoard = \<lparr>bd_quotes = Map.empty, bd_published = [], bd_index = None, bd_lastTick = None\<rparr>"

definition asPriceOverride :: "adminPriceOverride \<Rightarrow> priceOverride" where
  "asPriceOverride v = \<lparr>po_isActive = ov_isActive v, po_revokedAt = ov_revokedAt v, po_startsAt = Some (ov_startsAt v),
     po_expiresAt = Some (ov_expiresAt v)\<rparr>"

text \<open>The enabled mappings of a product by priority, each with the provider its key names.\<close>

definition mappingsOf :: "id \<Rightarrow> catalogue \<Rightarrow> productProviderMapping list" where
  "mappingsOf productId c =
     sortBy (\<lambda>a b. mg_priority a - mg_priority b) (findMany (\<lambda>m. mg_productId m = productId \<and> mg_isEnabled m) (ct_mappings c))"

definition providerKeyOf :: "productProviderMapping \<Rightarrow> catalogue \<Rightarrow> string" where
  "providerKeyOf m c =
     (case findFirst (\<lambda>p. pp_id p = mg_providerId m) (ct_providers c) of None \<Rightarrow> mg_providerId m | Some p \<Rightarrow> pp_key p)"

definition fetchOne ::
  "(string \<rightharpoonup> provider) \<Rightarrow> marketProduct \<Rightarrow> catalogue \<Rightarrow> productProviderMapping \<Rightarrow> (string + providerQuote option) option" where
  "fetchOne registry product c m =
     (let providerKey = providerKeyOf m c
      in if providerKey = [] then None else map_option (\<lambda>p. p m product) (registry providerKey))"

text \<open>The first of the live overrides of a product, latest update first, then latest creation.\<close>

definition overrideOf :: "id \<Rightarrow> catalogue \<Rightarrow> adminPriceOverride option" where
  "overrideOf productId c =
     (case sortBy (\<lambda>a b. thenBy (ov_updatedAt b - ov_updatedAt a) (ov_createdAt b - ov_createdAt a))
             (findMany (\<lambda>v. ov_productId v = productId \<and> ov_isActive v \<and> ov_startsAt v \<le> ct_now c \<and> ct_now c < ov_expiresAt v \<and>
                ov_revokedAt v = None) (ct_overrides c)) of
        [] \<Rightarrow> None | v # _ \<Rightarrow> Some v)"

definition resolveProduct :: "(string \<rightharpoonup> provider) \<Rightarrow> catalogue \<Rightarrow> marketProduct \<Rightarrow> canonicalQuote option" where
  "resolveProduct registry c product =
     resolveQuote (fetchOne registry product c) (mappingsOf (mp_id product) c)
       (map_option asPriceOverride (overrideOf (mp_id product) c)) (ct_now c)"

record tickCounts =
  tk_ok :: nat
  tk_stale :: nat
  tk_noPrice :: nat

text \<open>The loop over the products. What it has written stays written when a later round throws.\<close>

fun ingestProducts ::
  "(string \<rightharpoonup> provider) \<Rightarrow> catalogue \<Rightarrow> marketProduct list \<Rightarrow> tickCounts \<Rightarrow> board \<Rightarrow> (err + tickCounts) \<times> board" where
  "ingestProducts registry c [] n b = (Inr n, b)"
| "ingestProducts registry c (product # ps) n b =
     (case resolveProduct registry c product of
        None \<Rightarrow> (Inl (TypeError ''status''), b)
      | Some q \<Rightarrow>
          (let n = (if cq_status q = OK then n\<lparr>tk_ok := Suc (tk_ok n)\<rparr>
                    else if cq_status q = STALE then n\<lparr>tk_stale := Suc (tk_stale n)\<rparr>
                    else n\<lparr>tk_noPrice := Suc (tk_noPrice n)\<rparr>);
               b = b\<lparr>bd_quotes := (bd_quotes b)(mp_id product \<mapsto> q),
                     bd_published := bd_published b @ [(mp_id product, cq_asOf q, cq_status q)]\<rparr>
           in ingestProducts registry c ps n b))"

text \<open>
  \<open>handleTick\<close>. \<open>enabled\<close> is the answer of \<open>RedisService.isEnabled\<close>, and \<open>acquired\<close> that of the store to the
  request for the lock.
\<close>

definition redisIsEnabled :: bool where
  "redisIsEnabled = False"

definition handleTick ::
  "(string \<Rightarrow> string \<Rightarrow> int) \<Rightarrow> (string \<rightharpoonup> provider) \<Rightarrow> bool \<Rightarrow> bool \<Rightarrow> catalogue \<Rightarrow> board \<Rightarrow> (err + unit) \<times> board" where
  "handleTick collate registry enabled acquired c b =
     (if \<not> enabled then (Inr (), b)
      else if \<not> acquired then (Inr (), b)
      else let products = listActiveProducts collate c
      in if products = [] then (Inr (), b)
      else case ingestProducts registry c products \<lparr>tk_ok = 0, tk_stale = 0, tk_noPrice = 0\<rparr> b of
             (Inl e, b) \<Rightarrow> (Inl e, b)
           | (Inr n, b) \<Rightarrow>
               (let b = b\<lparr>bd_index := Some (map mp_id products)\<rparr>
                in (Inr (), b\<lparr>bd_lastTick := Some (ct_now c, tk_ok n, tk_stale n, tk_noPrice n)\<rparr>)))"

section \<open>The invariant of the catalogue\<close>

text \<open>A table: its identifiers come from the generator, and no two rows agree in its unique column.\<close>

definition table_ok :: "db \<Rightarrow> ('r \<Rightarrow> id) \<Rightarrow> ('r \<Rightarrow> 'k) \<Rightarrow> 'r list \<Rightarrow> bool" where
  "table_ok s key column xs \<longleftrightarrow> keys_ok s (map key xs) \<and> distinct (map column xs)"

lemma distinct_replaced:
  assumes "distinct (map key t)" "distinct (map column t)"
    and "\<And>q. q \<in> set t \<Longrightarrow> key q \<noteq> i \<Longrightarrow> column q \<noteq> column r"
  shows "distinct (map column (updateRows (\<lambda>q. key q = i) (\<lambda>_. r) t))"
  using assms
proof (induction t)
  case (Cons x t)
  have tl: "distinct (map column (updateRows (\<lambda>q. key q = i) (\<lambda>_. r) t))"
    by (rule Cons.IH) (use Cons.prems in auto)
  show ?case
  proof (cases "key x = i")
    case True
    then have "updateRows (\<lambda>q. key q = i) (\<lambda>_. r) t = t"
      using Cons.prems(1) by (intro updateRows_none) (auto simp: image_iff)
    then show ?thesis using True Cons.prems by (fastforce simp: image_iff)
  next
    case False
    then show ?thesis using tl Cons.prems by (force simp: set_updateRows)
  qed
qed simp

lemma table_mono:
  "table_ok s key column xs \<Longrightarrow> db_gen t = db_gen s \<Longrightarrow> db_seq s \<le> db_seq t \<Longrightarrow> table_ok t key column xs"
  using image_mono [of "{..<db_seq s}" "{..<db_seq t}" "db_gen s"] by (auto simp: table_ok_def keys_ok_def)

lemma table_fresh: "table_ok s key column xs \<Longrightarrow> q \<in> set xs \<Longrightarrow> key q \<noteq> freshId s"
  using freshId_notin [of s "map key xs"] by (auto simp: table_ok_def image_iff)

lemma table_inserted:
  assumes "table_ok s key column xs" and "key r = freshId s" "\<And>q. q \<in> set xs \<Longrightarrow> column q \<noteq> column r"
    and "db_gen t = db_gen s" "db_seq t = Suc (db_seq s)"
  shows "table_ok t key column (xs @ [r])"
proof -
  have "keys_ok (bumpId s) (map key xs @ [freshId s])" using assms(1) by (simp add: table_ok_def keys_ok_snoc)
  then have "keys_ok t (map key (xs @ [r]))" using assms(2,4,5) by (simp add: keys_ok_def bumpId_def)
  moreover have "column r \<notin> column ` set xs" using assms(3) by (metis imageE)
  ultimately show ?thesis using assms(1) by (simp add: table_ok_def)
qed

lemma table_replaced:
  assumes "table_ok s key column xs" and "key r = i" "\<And>q. q \<in> set xs \<Longrightarrow> key q \<noteq> i \<Longrightarrow> column q \<noteq> column r"
    and "db_gen t = db_gen s" "db_seq s \<le> db_seq t"
  shows "table_ok t key column (updateRows (\<lambda>q. key q = i) (\<lambda>_. r) xs)"
proof -
  have ids: "map key (updateRows (\<lambda>q. key q = i) (\<lambda>_. r) xs) = map key xs"
    by (rule map_updateRows) (simp add: assms(2))
  have "distinct (map column (updateRows (\<lambda>q. key q = i) (\<lambda>_. r) xs))"
    using assms(1,3) by (intro distinct_replaced) (auto simp: table_ok_def keys_ok_def)
  moreover have "keys_ok t (map key xs)" using table_mono [OF assms(1,4,5)] by (simp add: table_ok_def)
  ultimately show ?thesis unfolding table_ok_def ids by blast
qed

lemma table_deleted: "table_ok s key column xs \<Longrightarrow> table_ok s key column (deleteRows p xs)"
  by (auto simp: table_ok_def keys_ok_def deleteRows_def intro: distinct_map_filter)

text \<open>An override has the values of its mode, lives at most seven days, and is active until it is revoked.\<close>

definition override_ok :: "adminPriceOverride \<Rightarrow> bool" where
  "override_ok v \<longleftrightarrow>
     (ov_mode v = ABSOLUTE \<longrightarrow> ov_buyAbsolute v \<noteq> None \<and> ov_sellAbsolute v \<noteq> None) \<and>
     (ov_mode v = DELTA_BPS \<longrightarrow> ov_buyDeltaBps v \<noteq> None \<and> ov_sellDeltaBps v \<noteq> None) \<and>
     (ov_mode v = DELTA_AMOUNT \<longrightarrow> ov_buyDeltaAmount v \<noteq> None \<and> ov_sellDeltaAmount v \<noteq> None) \<and>
     ov_startsAt v < ov_expiresAt v \<and> ov_expiresAt v \<le> ov_startsAt v + maxTtlMs \<and> (ov_isActive v \<longleftrightarrow> ov_revokedAt v = None)"

definition catalogue_ok :: "catalogue \<Rightarrow> bool" where
  "catalogue_ok c \<longleftrightarrow>
     table_ok (ct_db c) mp_id mp_code (marketProducts (ct_db c)) \<and> table_ok (ct_db c) pp_id pp_key (ct_providers c) \<and>
     table_ok (ct_db c) mg_id (\<lambda>m. (mg_productId m, mg_providerId m)) (ct_mappings c) \<and>
     table_ok (ct_db c) ov_id ov_id (ct_overrides c) \<and>
     distinct (map ov_productId (filter ov_isActive (ct_overrides c))) \<and> (\<forall>v\<in>set (ct_overrides c). override_ok v)"

lemma catalogue_okD:
  assumes "catalogue_ok c"
  shows "table_ok (ct_db c) mp_id mp_code (marketProducts (ct_db c))" "table_ok (ct_db c) pp_id pp_key (ct_providers c)"
    "table_ok (ct_db c) mg_id (\<lambda>m. (mg_productId m, mg_providerId m)) (ct_mappings c)"
    "table_ok (ct_db c) ov_id ov_id (ct_overrides c)" "distinct (map ov_productId (filter ov_isActive (ct_overrides c)))"
    "\<And>v. v \<in> set (ct_overrides c) \<Longrightarrow> override_ok v"
  using assms by (simp_all add: catalogue_ok_def)

inductive catalogueStep :: "catalogue \<Rightarrow> catalogue \<Rightarrow> bool" where
  create_product: "createProduct dto c = Inr (p, d) \<Longrightarrow> catalogueStep c d"
| update_product: "updateProduct i dto c = Inr (p, d) \<Longrightarrow> catalogueStep c d"
| activate_product: "activateProduct i c = Inr (p, d) \<Longrightarrow> catalogueStep c d"
| deactivate_product: "deactivateProduct i c = Inr (p, d) \<Longrightarrow> catalogueStep c d"
| create_provider: "createProvider dto c = Inr (p, d) \<Longrightarrow> catalogueStep c d"
| update_provider: "updateProvider i dto c = Inr (p, d) \<Longrightarrow> catalogueStep c d"
| enable_provider: "enableProvider i c = Inr (p, d) \<Longrightarrow> catalogueStep c d"
| disable_provider: "disableProvider i c = Inr (p, d) \<Longrightarrow> catalogueStep c d"
| create_mapping: "createMapping i item c = Inr (m, d) \<Longrightarrow> catalogueStep c d"
| update_mapping: "updateMapping i dto c = Inr (m, d) \<Longrightarrow> catalogueStep c d"
| enable_mapping: "enableMapping i c = Inr (m, d) \<Longrightarrow> catalogueStep c d"
| disable_mapping: "disableMapping i c = Inr (m, d) \<Longrightarrow> catalogueStep c d"
| replace_mappings: "replaceMappings i items c = Inr (ms, d) \<Longrightarrow> catalogueStep c d"
| create_override: "createOverride dto a c = Inr (v, d) \<Longrightarrow> catalogueStep c d"
| revoke_override: "revokeOverride i a c = Inr (v, d) \<Longrightarrow> catalogueStep c d"
| create_price: "createPrice i b s src c = Inr (r, d) \<Longrightarrow> catalogueStep c d"
| time_passes: "ct_now c \<le> n \<Longrightarrow> catalogueStep c (c\<lparr>ct_db := (ct_db c)\<lparr>db_now := n\<rparr>\<rparr>)"

text \<open>A step that touches one table: what is left alone follows from the invariant before it.\<close>

lemma catalogue_okI:
  assumes "catalogue_ok c" and "db_gen (ct_db d) = db_gen (ct_db c)" "db_seq (ct_db c) \<le> db_seq (ct_db d)"
    and "marketProducts (ct_db d) = marketProducts (ct_db c) \<or> table_ok (ct_db d) mp_id mp_code (marketProducts (ct_db d))"
    and "ct_providers d = ct_providers c \<or> table_ok (ct_db d) pp_id pp_key (ct_providers d)"
    and "ct_mappings d = ct_mappings c \<or> table_ok (ct_db d) mg_id (\<lambda>m. (mg_productId m, mg_providerId m)) (ct_mappings d)"
    and "ct_overrides d = ct_overrides c"
  shows "catalogue_ok d"
  unfolding catalogue_ok_def
  using assms(4-7) table_mono [OF catalogue_okD(1) [OF assms(1)] assms(2,3)] table_mono [OF catalogue_okD(2) [OF assms(1)] assms(2,3)]
    table_mono [OF catalogue_okD(3) [OF assms(1)] assms(2,3)] table_mono [OF catalogue_okD(4) [OF assms(1)] assms(2,3)]
    catalogue_okD(5,6) [OF assms(1)]
  by auto

lemma products_stored:
  assumes ok: "catalogue_ok c" and st: "storableProduct p (ct_db c) = None"
  shows "mp_id p = freshId (ct_db c) \<Longrightarrow>
      catalogue_ok (c\<lparr>ct_db := (bumpId (ct_db c))\<lparr>marketProducts := marketProducts (ct_db c) @ [p]\<rparr>\<rparr>)"
    "mp_id p = i \<Longrightarrow>
      catalogue_ok (c\<lparr>ct_db := (ct_db c)\<lparr>marketProducts := updateRows (\<lambda>q. mp_id q = i) (\<lambda>_. p) (marketProducts (ct_db c))\<rparr>\<rparr>)"
proof -
  note tab = catalogue_okD(1) [OF ok]
  have code: "mp_code q \<noteq> mp_code p" if "q \<in> set (marketProducts (ct_db c))" "mp_id q \<noteq> mp_id p" for q
    using st that by (auto simp: storableProduct_def split: if_splits)
  { assume i: "mp_id p = freshId (ct_db c)"
    have "table_ok ((bumpId (ct_db c))\<lparr>marketProducts := marketProducts (ct_db c) @ [p]\<rparr>) mp_id mp_code (marketProducts (ct_db c) @ [p])"
      by (rule table_inserted [OF tab]) (use i code table_fresh [OF tab] in \<open>simp_all add: bumpId_def\<close>)
    then show "catalogue_ok (c\<lparr>ct_db := (bumpId (ct_db c))\<lparr>marketProducts := marketProducts (ct_db c) @ [p]\<rparr>\<rparr>)"
      by (intro catalogue_okI [OF ok]) (simp_all add: bumpId_def) }
  { assume i: "mp_id p = i"
    let ?xs = "updateRows (\<lambda>q. mp_id q = i) (\<lambda>_. p) (marketProducts (ct_db c))"
    have "table_ok ((ct_db c)\<lparr>marketProducts := ?xs\<rparr>) mp_id mp_code ?xs"
      by (rule table_replaced [OF tab]) (use i code in simp_all)
    then show "catalogue_ok (c\<lparr>ct_db := (ct_db c)\<lparr>marketProducts := ?xs\<rparr>\<rparr>)"
      by (intro catalogue_okI [OF ok]) simp_all }
qed

lemma providers_stored:
  assumes ok: "catalogue_ok c" and st: "\<And>q. q \<in> set (ct_providers c) \<Longrightarrow> pp_id q \<noteq> pp_id p \<Longrightarrow> pp_key q \<noteq> pp_key p"
  shows "pp_id p = freshId (ct_db c) \<Longrightarrow> catalogue_ok ((ct_bump c)\<lparr>ct_providers := ct_providers c @ [p]\<rparr>)"
    "pp_id p = i \<Longrightarrow> catalogue_ok (c\<lparr>ct_providers := updateRows (\<lambda>q. pp_id q = i) (\<lambda>_. p) (ct_providers c)\<rparr>)"
proof -
  note tab = catalogue_okD(2) [OF ok]
  { assume i: "pp_id p = freshId (ct_db c)"
    have "table_ok (bumpId (ct_db c)) pp_id pp_key (ct_providers c @ [p])"
      by (rule table_inserted [OF tab]) (use i st table_fresh [OF tab] in \<open>simp_all add: bumpId_def\<close>)
    then show "catalogue_ok ((ct_bump c)\<lparr>ct_providers := ct_providers c @ [p]\<rparr>)"
      by (intro catalogue_okI [OF ok]) (simp_all add: ct_bump_def bumpId_def) }
  { assume i: "pp_id p = i"
    have "table_ok (ct_db c) pp_id pp_key (updateRows (\<lambda>q. pp_id q = i) (\<lambda>_. p) (ct_providers c))"
      by (rule table_replaced [OF tab]) (use i st in simp_all)
    then show "catalogue_ok (c\<lparr>ct_providers := updateRows (\<lambda>q. pp_id q = i) (\<lambda>_. p) (ct_providers c)\<rparr>)"
      by (intro catalogue_okI [OF ok]) simp_all }
qed

lemma mappings_stored:
  assumes ok: "catalogue_ok c" and st: "storableMapping m c = None"
  shows "mg_id m = freshId (ct_db c) \<Longrightarrow> catalogue_ok ((ct_bump c)\<lparr>ct_mappings := ct_mappings c @ [m]\<rparr>)"
    "mg_id m = i \<Longrightarrow> catalogue_ok (c\<lparr>ct_mappings := updateRows (\<lambda>q. mg_id q = i) (\<lambda>_. m) (ct_mappings c)\<rparr>)"
proof -
  note tab = catalogue_okD(3) [OF ok]
  have pair: "(mg_productId n, mg_providerId n) \<noteq> (mg_productId m, mg_providerId m)"
    if "n \<in> set (ct_mappings c)" "mg_id n \<noteq> mg_id m" for n
    using st that by (auto simp: storableMapping_def split: if_splits)
  { assume i: "mg_id m = freshId (ct_db c)"
    have "table_ok (bumpId (ct_db c)) mg_id (\<lambda>m. (mg_productId m, mg_providerId m)) (ct_mappings c @ [m])"
      by (rule table_inserted [OF tab i pair]) (use i table_fresh [OF tab] in \<open>simp_all add: bumpId_def\<close>)
    then show "catalogue_ok ((ct_bump c)\<lparr>ct_mappings := ct_mappings c @ [m]\<rparr>)"
      by (intro catalogue_okI [OF ok]) (simp_all add: ct_bump_def bumpId_def) }
  { assume i: "mg_id m = i"
    have "table_ok (ct_db c) mg_id (\<lambda>m. (mg_productId m, mg_providerId m)) (updateRows (\<lambda>q. mg_id q = i) (\<lambda>_. m) (ct_mappings c))"
      by (rule table_replaced [OF tab i pair]) (use i in simp_all)
    then show "catalogue_ok (c\<lparr>ct_mappings := updateRows (\<lambda>q. mg_id q = i) (\<lambda>_. m) (ct_mappings c)\<rparr>)"
      by (intro catalogue_okI [OF ok]) simp_all }
qed

lemma createProduct_ok: "catalogue_ok c \<Longrightarrow> holdsE (\<lambda>_. catalogue_ok) (createProduct dto c)"
  unfolding createProduct_def Let_def
  by (simp split: option.split) (auto intro: products_stored(1) simp: ct_fresh_def)

lemma changeProduct_ok:
  assumes "catalogue_ok c" and keep: "\<And>p. mp_id (change p) = mp_id p"
  shows "holdsE (\<lambda>_. catalogue_ok) (changeProduct i change c)"
proof (cases "findProduct i (ct_db c)")
  case (Some p)
  have i: "mp_id (change p) = i"
    using find_SomeD [OF Some [unfolded findProduct_def]] by (simp add: keep)
  show ?thesis
  proof (cases "storableProduct (change p) (ct_db c)")
    case None
    show ?thesis using products_stored(2) [OF assms(1) None i] by (simp add: changeProduct_def Some None)
  qed (simp add: changeProduct_def Some)
qed (simp add: changeProduct_def)

lemma createProvider_ok: "catalogue_ok c \<Longrightarrow> holdsE (\<lambda>_. catalogue_ok) (createProvider dto c)"
  unfolding createProvider_def Let_def
  by (simp add: ct_fresh_def) (auto intro!: providers_stored(1))

lemma changeProvider_ok:
  assumes "catalogue_ok c" and keep: "\<And>p. pp_id (change p) = pp_id p"
  shows "holdsE (\<lambda>_. catalogue_ok) (changeProvider i change c)"
proof (cases "findFirst (\<lambda>p. pp_id p = i) (ct_providers c)")
  case (Some p)
  have i: "pp_id (change p) = i" using find_SomeD [OF Some] by (simp add: keep)
  show ?thesis
  proof (cases "\<exists>q\<in>set (ct_providers c). pp_id q \<noteq> i \<and> pp_key q = pp_key (change p)")
    case False
    then show ?thesis using providers_stored(2) [OF assms(1) _ i] i by (auto simp: changeProvider_def Some)
  qed (simp add: changeProvider_def Some)
qed (simp add: changeProvider_def)

lemma createMapping_ok: "catalogue_ok c \<Longrightarrow> holdsE (\<lambda>_. catalogue_ok) (createMapping i item c)"
  unfolding createMapping_def insertMapping_def
  by (simp split: option.split) (auto intro: mappings_stored(1) simp: ct_fresh_def mappingRow_def)

lemma changeMapping_ok:
  assumes "catalogue_ok c" and keep: "\<And>p. mg_id (change p) = mg_id p"
  shows "holdsE (\<lambda>_. catalogue_ok) (changeMapping i change c)"
proof (cases "findFirst (\<lambda>m. mg_id m = i) (ct_mappings c)")
  case (Some p)
  have i: "mg_id (change p) = i"
    using find_SomeD [OF Some] by (simp add: keep)
  show ?thesis
  proof (cases "storableMapping (change p) c")
    case None
    show ?thesis using mappings_stored(2) [OF assms(1) None i] by (simp add: changeMapping_def Some None)
  qed (simp add: changeMapping_def Some)
qed (simp add: changeMapping_def)

lemma replaceMappings_ok:
  assumes "catalogue_ok c"
  shows "holdsE (\<lambda>_. catalogue_ok) (replaceMappings i items c)"
proof -
  have "catalogue_ok (c\<lparr>ct_mappings := deleteRows p (ct_mappings c)\<rparr>)" for p
    by (rule catalogue_okI [OF assms]) (simp_all add: table_deleted catalogue_okD(3) [OF assms])
  moreover have "holdsE (\<lambda>_. catalogue_ok) (forE items (\<lambda>m c. bindE (createMapping i m c) (\<lambda>_ c. Inr ((), c))) d)"
    if "catalogue_ok d" for d
    by (rule holdsE_for [where P = catalogue_ok], rule that, rule holdsE_bind [OF createMapping_ok]) simp_all
  ultimately show ?thesis
    unfolding replaceMappings_def Let_def
    by (simp split: option.split) (auto intro!: holdsE_bind [where P = "\<lambda>_. catalogue_ok"])
qed

text \<open>Revoking the rows that satisfy \<open>p\<close> keeps the invariant, and leaves active the others only.\<close>

lemma active_revoked:
  "filter ov_isActive (updateRows p (revoked a n) vs) = filter (\<lambda>v. ov_isActive v \<and> \<not> p v) vs"
  by (induction vs) (auto simp: revoked_def)

lemma revoked_ok:
  assumes "catalogue_ok c"
  shows "catalogue_ok (c\<lparr>ct_overrides := updateRows p (revoked a n) (ct_overrides c)\<rparr>)"
proof -
  have ids: "map ov_id (updateRows p (revoked a n) (ct_overrides c)) = map ov_id (ct_overrides c)"
    by (rule map_updateRows) (simp add: revoked_def)
  have "distinct (map ov_productId (filter (\<lambda>v. ov_isActive v \<and> \<not> p v) (ct_overrides c)))"
    using distinct_map_filter [OF catalogue_okD(5) [OF assms], of "\<lambda>v. \<not> p v"] by (simp add: conj_commute)
  moreover have "override_ok (revoked a n v)" if "override_ok v" for v
    using that by (simp add: override_ok_def revoked_def)
  ultimately show ?thesis
    using catalogue_okD [OF assms] by (auto simp: catalogue_ok_def table_ok_def ids active_revoked set_updateRows)
qed

lemma newOverride_ok: "validateOverride dto (ct_now c) = None \<Longrightarrow> override_ok (newOverride dto a c)"
  by (auto simp: validateOverride_def newOverride_def override_ok_def split: if_splits)

lemma override_added:
  assumes "catalogue_ok c" and "override_ok v" "ov_id v = freshId (ct_db c)"
    and "\<And>w. w \<in> set (ct_overrides c) \<Longrightarrow> ov_isActive w \<Longrightarrow> ov_productId w \<noteq> ov_productId v"
  shows "catalogue_ok ((ct_bump c)\<lparr>ct_overrides := ct_overrides c @ [v]\<rparr>)"
proof -
  note d = catalogue_okD [OF assms(1)]
  have seq: "db_gen (bumpId (ct_db c)) = db_gen (ct_db c)" "db_seq (ct_db c) \<le> db_seq (bumpId (ct_db c))"
    "marketProducts (bumpId (ct_db c)) = marketProducts (ct_db c)" "db_seq (bumpId (ct_db c)) = Suc (db_seq (ct_db c))"
    by (simp_all add: bumpId_def)
  have "table_ok (bumpId (ct_db c)) ov_id ov_id (ct_overrides c @ [v])"
    by (rule table_inserted [OF d(4) assms(3) _ seq(1,4)]) (use table_fresh [OF d(4)] assms(3) in simp)
  moreover have "ov_productId v \<notin> ov_productId ` set (filter ov_isActive (ct_overrides c))" using assms(4) by force
  ultimately show ?thesis
    using table_mono [OF d(1) seq(1,2)] table_mono [OF d(2) seq(1,2)] table_mono [OF d(3) seq(1,2)] d(5,6) assms(2)
    by (auto simp: catalogue_ok_def ct_bump_def seq(3))
qed

lemma createOverride_ok:
  assumes "catalogue_ok c"
  shows "holdsE (\<lambda>_. catalogue_ok) (createOverride dto a c)"
proof (cases "validateOverride dto (ct_now c)")
  case None
  let ?active = "\<lambda>v. ov_productId v = od_productId dto \<and> ov_isActive v"
  let ?c = "if od_replaceExisting dto \<noteq> Some False
    then c\<lparr>ct_overrides := updateRows ?active (revoked a (ct_now c)) (ct_overrides c)\<rparr> else c"
  have ok: "catalogue_ok ?c" using assms revoked_ok [OF assms] by simp
  have new: "override_ok (newOverride dto a ?c)" "ov_id (newOverride dto a ?c) = freshId (ct_db ?c)"
    using newOverride_ok [OF None, of a] by (simp_all add: newOverride_def ct_now_def ct_fresh_def)
  have other: "ov_productId w \<noteq> ov_productId (newOverride dto a ?c)"
    if "od_replaceExisting dto \<noteq> Some False \<or> \<not> (\<exists>v\<in>set (ct_overrides c). ?active v)" "w \<in> set (ct_overrides ?c)" "ov_isActive w" for w
    using that by (auto simp: newOverride_def set_updateRows revoked_def split: if_splits)
  show ?thesis
  proof (cases "od_replaceExisting dto \<noteq> Some False \<or> \<not> (\<exists>v\<in>set (ct_overrides c). ?active v)")
    case True
    show ?thesis
      using override_added [OF ok new other [OF True]] True
      by (cases "od_replaceExisting dto = Some False") (simp_all add: createOverride_def None Let_def)
  qed (simp add: createOverride_def None Let_def)
qed (simp add: createOverride_def)

lemma revokeOverride_ok: "catalogue_ok c \<Longrightarrow> holdsE (\<lambda>_. catalogue_ok) (revokeOverride i a c)"
  by (auto simp: revokeOverride_def revoked_ok split: option.split)

lemma other_steps_ok:
  "catalogue_ok c \<Longrightarrow> holdsE (\<lambda>_. catalogue_ok) (createPrice i b s src c)"
  "catalogue_ok c \<Longrightarrow> catalogue_ok (c\<lparr>ct_db := (ct_db c)\<lparr>db_now := n\<rparr>\<rparr>)"
  by (auto simp: createPrice_def Let_def ct_bump_def bumpId_def intro!: catalogue_okI [of c])

lemmas catalogue_steps_ok = createProduct_ok changeProduct_ok createProvider_ok changeProvider_ok createMapping_ok changeMapping_ok
  replaceMappings_ok createOverride_ok revokeOverride_ok other_steps_ok(1)

lemma catalogueStep_ok:
  assumes "catalogueStep c d" "catalogue_ok c"
  shows "catalogue_ok d"
  using assms
  by (induction rule: catalogueStep.induct)
    (auto simp: updateProduct_def activateProduct_def deactivateProduct_def updateProvider_def enableProvider_def disableProvider_def
      updateMapping_def enableMapping_def disableMapping_def intro: other_steps_ok(2) elim!: holdsE_D [rotated] intro!: catalogue_steps_ok)

section \<open>Properties\<close>

text \<open>Two active overrides of one product are the same row.\<close>

lemma one_active:
  assumes "catalogue_ok c" "v \<in> set (ct_overrides c)" "w \<in> set (ct_overrides c)" "ov_isActive v" "ov_isActive w"
    "ov_productId v = ov_productId w"
  shows "v = w"
  using catalogue_okD(5) [OF assms(1)] assms(2-6) inj_onD [of ov_productId "set (filter ov_isActive (ct_overrides c))" v w]
  by (simp add: distinct_map)

definition liveOverride :: "adminPriceOverride \<Rightarrow> time \<Rightarrow> bool" where
  "liveOverride v now \<longleftrightarrow> ov_isActive v \<and> ov_startsAt v \<le> now \<and> now < ov_expiresAt v \<and> ov_revokedAt v = None"

interpretation byUpdate: comparator "\<lambda>a b. thenBy (ov_updatedAt b - ov_updatedAt a) (ov_createdAt b - ov_createdAt a)"
  "\<lambda>v. (- ov_updatedAt v, - ov_createdAt v)"
  by unfold_locales (auto simp: thenBy_def less_eq_prod_def)

interpretation byPriority: comparator "\<lambda>a b. mg_priority a - mg_priority b" mg_priority
  by unfold_locales simp

lemma overrideOf_iff:
  assumes "catalogue_ok c"
  shows "overrideOf p c = Some v \<longleftrightarrow> v \<in> set (ct_overrides c) \<and> ov_productId v = p \<and> liveOverride v (ct_now c)"
proof -
  let ?vs = "findMany (\<lambda>v. ov_productId v = p \<and> ov_isActive v \<and> ov_startsAt v \<le> ct_now c \<and> ct_now c < ov_expiresAt v \<and>
                ov_revokedAt v = None) (ct_overrides c)"
  let ?sorted = "sortBy (\<lambda>a b. thenBy (ov_updatedAt b - ov_updatedAt a) (ov_createdAt b - ov_createdAt a)) ?vs"
  have set: "set ?sorted = {v \<in> set (ct_overrides c). ov_productId v = p \<and> liveOverride v (ct_now c)}"
    unfolding byUpdate.sortBy_set by (auto simp: liveOverride_def)
  have one: "v = w" if "v \<in> set ?sorted" "w \<in> set ?sorted" for v w
    using that one_active [OF assms, of v w] unfolding set by (simp add: liveOverride_def)
  show ?thesis
  proof (cases ?sorted)
    case Nil
    then show ?thesis using set by (simp add: overrideOf_def)
  next
    case (Cons w ws)
    then have "overrideOf p c = Some w" by (simp add: overrideOf_def)
    moreover have "w \<in> set ?sorted" using Cons by simp
    ultimately show ?thesis using set one by auto
  qed
qed

text \<open>
  C15. Whatever the administrators do and however the time passes: product codes, provider keys and the provider of
  a product are unique, an override carries the values of its mode and lives at most seven days, a product has
  at most one active override, and the worker prices a product with the live one when there is one.
\<close>

theorem catalogue_well_formed:
  assumes "catalogueStep\<^sup>*\<^sup>* c d" and "catalogue_ok c"
  shows "distinct (map mp_code (marketProducts (ct_db d))) \<and> distinct (map pp_key (ct_providers d)) \<and>
    distinct (map (\<lambda>m. (mg_productId m, mg_providerId m)) (ct_mappings d)) \<and>
    (\<forall>v\<in>set (ct_overrides d). override_ok v) \<and>
    (\<forall>v\<in>set (ct_overrides d). \<forall>w\<in>set (ct_overrides d).
       ov_isActive v \<and> ov_isActive w \<and> ov_productId v = ov_productId w \<longrightarrow> v = w) \<and>
    (\<forall>p v. overrideOf p d = Some v \<longleftrightarrow> v \<in> set (ct_overrides d) \<and> ov_productId v = p \<and> liveOverride v (ct_now d))"
proof -
  have ok: "catalogue_ok d" using assms by (induction rule: rtranclp_induct) (auto intro: catalogueStep_ok)
  show ?thesis
    using catalogue_okD [OF ok] one_active [OF ok] overrideOf_iff [OF ok] by (simp add: table_ok_def)
qed

definition emptyCatalogue :: catalogue where
  "emptyCatalogue = \<lparr>ct_db = emptyDb\<lparr>users := [houseUser], marketProducts := [], instruments := [\<lparr>in_id = ''c'', in_code = ''COIN'',
     in_name = ''Coin'', in_type = InstrumentType.COIN,
    in_unit = InstrumentUnit.PIECE\<rparr>]\<rparr>, ct_providers = [], ct_mappings = [], ct_overrides = [], ct_prices = []\<rparr>"

definition coinDto :: productDto where
  "coinDto = \<lparr>pd_code = ''COIN'', pd_displayName = ''Coin'', pd_productType = MarketProductType.COIN, pd_tradeType = TradeType.SPOT,
     pd_baseInstrumentId = ''c'', pd_unitType = PolicyMetric.COUNT, pd_groupKey = ''coins'', pd_sortOrder = 0, pd_isActive = True\<rparr>"

definition coinOverride :: overrideDto where
  "coinOverride = \<lparr>od_productId = unaryId 0, od_mode = ABSOLUTE, od_buyAbsolute = Some 6, od_sellAbsolute = Some 5,
     od_buyDeltaBps = None, od_sellDeltaBps = None, od_buyDeltaAmount = None, od_sellDeltaAmount = None, od_expiresAt = 1000,
     od_reason = ''holiday'', od_replaceExisting = None\<rparr>"

lemma emptyCatalogue_ok: "catalogue_ok emptyCatalogue"
  by (simp add: catalogue_ok_def emptyCatalogue_def table_ok_def keys_ok_def emptyDb_def inj_unaryId)

definition coinRow :: marketProduct where
  "coinRow = aCoin\<lparr>mp_id := unaryId 0, mp_displayName := ''Coin'', mp_groupKey := ''coins''\<rparr>"

definition coinCatalogue :: catalogue where
  "coinCatalogue = emptyCatalogue\<lparr>ct_db := (bumpId (ct_db emptyCatalogue))\<lparr>marketProducts := [coinRow]\<rparr>\<rparr>"

lemma coinCatalogue_step: "createProduct coinDto emptyCatalogue = Inr (coinRow, coinCatalogue)"
  by (simp add: createProduct_def coinDto_def emptyCatalogue_def storableProduct_def coinCatalogue_def coinRow_def aCoin_def
      ct_fresh_def ct_now_def freshId_def emptyDb_def bumpId_def Let_def)

lemma coinOverride_step:
  "createOverride coinOverride HOUSE_USER_ID coinCatalogue =
     Inr (newOverride coinOverride HOUSE_USER_ID coinCatalogue,
       (ct_bump coinCatalogue)\<lparr>ct_overrides := [newOverride coinOverride HOUSE_USER_ID coinCatalogue]\<rparr>)"
  by (simp add: createOverride_def validateOverride_def coinOverride_def coinCatalogue_def coinRow_def emptyCatalogue_def
      ct_now_def emptyDb_def bumpId_def houseUser_def maxTtlMs_def Let_def)

theorem catalogue_well_formed_witness:
  "\<exists>d v. catalogueStep\<^sup>*\<^sup>* emptyCatalogue d \<and> overrideOf (unaryId 0) d = Some v \<and> ov_buyAbsolute v = Some 6"
proof -
  let ?v = "newOverride coinOverride HOUSE_USER_ID coinCatalogue"
  let ?d = "(ct_bump coinCatalogue)\<lparr>ct_overrides := [?v]\<rparr>"
  have run: "catalogueStep\<^sup>*\<^sup>* emptyCatalogue ?d"
    using create_product [OF coinCatalogue_step] create_override [OF coinOverride_step] by (meson converse_rtranclp_into_rtranclp rtranclp.rtrancl_refl)
  have "ov_productId ?v = unaryId 0" "ov_buyAbsolute ?v = Some 6" by (simp_all add: newOverride_def coinOverride_def)
  moreover have "liveOverride ?v (ct_now ?d)" "?v \<in> set (ct_overrides ?d)"
    by (simp_all add: liveOverride_def newOverride_def coinOverride_def coinCatalogue_def emptyCatalogue_def emptyDb_def
        ct_now_def ct_bump_def bumpId_def)
  ultimately have "overrideOf (unaryId 0) ?d = Some ?v"
    using catalogue_well_formed [OF run emptyCatalogue_ok] by blast
  then show ?thesis using run \<open>ov_buyAbsolute ?v = Some 6\<close> by blast
qed

text \<open>
  An override that has expired stays active: nothing prices the product any more, and a request for a new
  override that does not replace is refused because of it.
\<close>

theorem expired_override_blocks:
  assumes "catalogue_ok c" and "createOverride dto a c = Inr (v, d)" and "od_expiresAt dto \<le> n"
  shows "(let e = d\<lparr>ct_db := (ct_db d)\<lparr>db_now := n\<rparr>\<rparr>
    in overrideOf (od_productId dto) e = None \<and>
       (\<forall>new b. od_productId new = od_productId dto \<and> od_replaceExisting new = Some False \<longrightarrow> (\<exists>x. createOverride new b e = Inl x)))"
proof -
  let ?e = "d\<lparr>ct_db := (ct_db d)\<lparr>db_now := n\<rparr>\<rparr>"
  have v: "v \<in> set (ct_overrides d)" "ov_isActive v" "ov_productId v = od_productId dto" "ov_expiresAt v = od_expiresAt dto"
    using assms(2) by (auto simp: createOverride_def newOverride_def Let_def split: option.splits if_splits)
  have ok: "catalogue_ok ?e" by (intro other_steps_ok(2)) (rule holdsE_D [OF createOverride_ok [OF assms(1)] assms(2)])
  have "overrideOf (od_productId dto) ?e = None"
  proof (cases "overrideOf (od_productId dto) ?e")
    case (Some w)
    then have w: "w \<in> set (ct_overrides ?e)" "ov_productId w = od_productId dto" "liveOverride w n"
      using overrideOf_iff [OF ok] by (auto simp: ct_now_def)
    then have "v = w" using one_active [OF ok _ w(1), of v] v by (simp add: liveOverride_def)
    then show ?thesis using w(3) v(4) assms(3) by (simp add: liveOverride_def)
  qed
  moreover have "\<exists>x. createOverride new b ?e = Inl x"
    if "od_productId new = od_productId dto" "od_replaceExisting new = Some False" for new b
    using that v by (auto simp: createOverride_def Let_def split: option.split)
  ultimately show ?thesis by (simp add: Let_def)
qed

theorem expired_override_blocks_witness:
  "\<exists>d x. createOverride coinOverride HOUSE_USER_ID coinCatalogue = Inr (newOverride coinOverride HOUSE_USER_ID coinCatalogue, d) \<and>
     createOverride (coinOverride\<lparr>od_expiresAt := 2000, od_replaceExisting := Some False\<rparr>) HOUSE_USER_ID
       (d\<lparr>ct_db := (ct_db d)\<lparr>db_now := 1000\<rparr>\<rparr>) = Inl x"
proof -
  have "catalogue_ok coinCatalogue" using catalogueStep_ok [OF create_product [OF coinCatalogue_step] emptyCatalogue_ok] .
  from expired_override_blocks [OF this coinOverride_step, of 1000] coinOverride_step
  show ?thesis by (fastforce simp: coinOverride_def Let_def)
qed

lemma find_other_row:
  "key r = i \<Longrightarrow> j \<noteq> i \<Longrightarrow> findFirst (\<lambda>q. key q = j) (updateRows (\<lambda>q. key q = i) (\<lambda>_. r) t) = findFirst (\<lambda>q. key q = j) t"
  by (induction t) auto

text \<open>Whether a provider is enabled is asked of its mappings only.\<close>

lemma disabled_provider_still_priced:
  assumes "disableProvider i c = Inr (p, d)"
  shows "resolveProduct registry d product = resolveProduct registry c product"
proof -
  have d: "ct_db d = ct_db c" "ct_mappings d = ct_mappings c" "ct_overrides d = ct_overrides c"
    using assms by (auto simp: disableProvider_def changeProvider_def split: option.splits if_splits)
  have "ct_providers d = updateRows (\<lambda>q. pp_id q = i) (\<lambda>_. p) (ct_providers c) \<and> pp_id p = i \<and>
      (\<exists>q. findFirst (\<lambda>q. pp_id q = i) (ct_providers c) = Some q \<and> pp_key q = pp_key p)"
    using assms by (auto simp: disableProvider_def changeProvider_def split: option.splits if_splits dest: find_SomeD)
  then have "map_option pp_key (findFirst (\<lambda>q. pp_id q = j) (ct_providers d)) = map_option pp_key (findFirst (\<lambda>q. pp_id q = j) (ct_providers c))" for j
    by (cases "j = i") (auto simp: find_replace find_other_row)
  then have "providerKeyOf m d = providerKeyOf m c" for m
    by (auto simp: providerKeyOf_def split: option.splits)
      (metis None_eq_map_option_iff option.simps(3) option.map(2) option.inject)+
  then have "fetchOne registry product d = fetchOne registry product c" by (simp add: fetchOne_def fun_eq_iff)
  then show ?thesis
    by (simp add: resolveProduct_def mappingsOf_def overrideOf_def ct_now_def d)
qed

definition mappingView :: "productProviderMapping \<Rightarrow> id \<times> string \<times> int \<times> bool" where
  "mappingView m = (mg_providerId m, mg_providerSymbol m, mg_priority m, mg_isEnabled m)"

definition itemView :: "mappingItem \<Rightarrow> id \<times> string \<times> int \<times> bool" where
  "itemView m = (mi_providerId m, mi_providerSymbol m, mi_priority m, mi_isEnabled m)"

lemma checkMappings_None:
  "checkMappings ms ps qs = None \<longleftrightarrow> distinct (map mi_providerId ms) \<and> distinct (map mi_priority ms) \<and>
     mi_providerId ` set ms \<inter> ps = {} \<and> mi_priority ` set ms \<inter> qs = {}"
  by (induction ms ps qs rule: checkMappings.induct) auto

lemma createMappings_rows:
  assumes "forE items (\<lambda>m c. bindE (createMapping p m c) (\<lambda>_ c. Inr ((), c))) c = Inr (u, d)"
  shows "\<exists>new. ct_mappings d = ct_mappings c @ new \<and> map mappingView new = map itemView items \<and> (\<forall>m\<in>set new. mg_productId m = p)"
  using assms
proof (induction items arbitrary: c)
  case (Cons m items)
  obtain e where e: "createMapping p m c = Inr (mappingRow p m c, e)" "ct_mappings e = ct_mappings c @ [mappingRow p m c]"
    "forE items (\<lambda>m c. bindE (createMapping p m c) (\<lambda>_ c. Inr ((), c))) e = Inr (u, d)"
    using Cons.prems by (auto simp: bindE_Inr_iff createMapping_def insertMapping_def split: option.splits)
  obtain new where "ct_mappings d = ct_mappings e @ new" "map mappingView new = map itemView items" "\<forall>m\<in>set new. mg_productId m = p"
    using Cons.IH [OF e(3)] by blast
  moreover have "mappingView (mappingRow p m c) = itemView m" "mg_productId (mappingRow p m c) = p"
    by (simp_all add: mappingRow_def mappingView_def itemView_def)
  ultimately show ?case using e(2) by (intro exI [of _ "mappingRow p m c # new"]) simp
qed simp

text \<open>
  Replacing the mappings of a product leaves it with exactly the given ones, each provider and each priority
  once, and the mappings of the other products as they were; the answer lists them by priority, and the enabled ones of
  it are, in that order, those the worker asks. A list that repeats a provider or a priority is refused.
\<close>

theorem replace_mappings_exact:
  "(\<forall>ms d. replaceMappings p items c = Inr (ms, d) \<longrightarrow>
      mset (map mappingView ms) = mset (map itemView items) \<and> sorted (map mg_priority ms) \<and>
      distinct (map mg_providerId ms) \<and> distinct (map mg_priority ms) \<and>
      mset (filter (\<lambda>m. mg_productId m = p) (ct_mappings d)) = mset ms \<and>
      filter (\<lambda>m. mg_productId m \<noteq> p) (ct_mappings d) = filter (\<lambda>m. mg_productId m \<noteq> p) (ct_mappings c) \<and>
      mappingsOf p d = filter mg_isEnabled ms) \<and>
   (\<not> (distinct (map mi_providerId items) \<and> distinct (map mi_priority items)) \<longrightarrow>
      (\<exists>message. replaceMappings p items c = Inl (BadRequestException message)))"
proof (intro conjI allI impI)
  fix ms d assume run: "replaceMappings p items c = Inr (ms, d)"
  let ?e = "c\<lparr>ct_mappings := deleteRows (\<lambda>m. mg_productId m = p) (ct_mappings c)\<rparr>"
  have check: "checkMappings items {} {} = None" using run by (simp add: replaceMappings_def split: option.splits)
  obtain new where new: "ct_mappings d = ct_mappings ?e @ new" "map mappingView new = map itemView items" "\<forall>m\<in>set new. mg_productId m = p"
    and ms: "ms = sortBy (\<lambda>a b. mg_priority a - mg_priority b) (findMany (\<lambda>m. mg_productId m = p) (ct_mappings d))"
  proof (cases "items = []")
    case True
    then have "ms = []" "d = ?e" using run by (simp_all add: replaceMappings_def)
    then show thesis using True by (intro that [of "[]"]) (simp_all add: sortBy_def deleteRows_def filter_empty_conv)
  next
    case False
    then show thesis
      using run check createMappings_rows [of items p ?e] that by (auto simp: replaceMappings_def bindE_Inr_iff Let_def)
  qed
  have own: "findMany (\<lambda>m. mg_productId m = p) (ct_mappings d) = new" using new(1,3) by (simp add: deleteRows_def)
  have set: "mset ms = mset new" by (simp add: ms own byPriority.sortBy_mset)
  have views: "map mg_providerId new = map mi_providerId items" "map mg_priority new = map mi_priority items"
    using arg_cong [OF new(2), of "map fst"] arg_cong [OF new(2), of "map (fst \<circ> snd \<circ> snd)"]
    by (simp_all add: comp_def mappingView_def itemView_def)
  have same: "mset (map f ms) = mset (map f new)" for f :: "productProviderMapping \<Rightarrow> 'b" using set by (metis mset_map)
  show "mset (map mappingView ms) = mset (map itemView items)" using same [of mappingView] new(2) by simp
  show "sorted (map mg_priority ms)" by (simp add: ms byPriority.sortBy_sorted)
  show "distinct (map mg_providerId ms)" "distinct (map mg_priority ms)"
    using check mset_eq_imp_distinct_iff [OF same [of mg_providerId]] mset_eq_imp_distinct_iff [OF same [of mg_priority]]
    by (simp_all only: views checkMappings_None)
  show "mset (findMany (\<lambda>m. mg_productId m = p) (ct_mappings d)) = mset ms" by (simp only: own set)
  show "findMany (\<lambda>m. mg_productId m \<noteq> p) (ct_mappings d) = findMany (\<lambda>m. mg_productId m \<noteq> p) (ct_mappings c)"
    using new(1,3) by (auto simp: deleteRows_def filter_empty_conv)
  show "mappingsOf p d = filter mg_isEnabled ms"
    unfolding mappingsOf_def ms byPriority.sortBy_key filter_sort by (simp add: conj_commute)
next
  assume "\<not> (distinct (map mi_providerId items) \<and> distinct (map mi_priority items))"
  then have "checkMappings items {} {} \<noteq> None" by (simp add: checkMappings_None)
  moreover have "\<exists>message. checkMappings ms ps qs = Some (BadRequestException message)" if "checkMappings ms ps qs \<noteq> None" for ms ps qs
    using that by (induction ms ps qs rule: checkMappings.induct) (auto split: if_splits)
  ultimately show "\<exists>message. replaceMappings p items c = Inl (BadRequestException message)"
    by (fastforce simp: replaceMappings_def)
qed

definition feed :: priceProvider where
  "feed = \<lparr>pp_id = ''v1'', pp_key = ''STUB'', pp_displayName = ''Stub'', pp_baseUrl = None, pp_isEnabled = True,
     pp_supportsStreaming = False, pp_defaultPollIntervalSec = None\<rparr>"

theorem replace_mappings_exact_witness:
  "\<exists>ms d. replaceMappings (unaryId 0) [\<lparr>mi_providerId = ''v1'', mi_providerSymbol = ''XAU'', mi_priority = 1, mi_isEnabled = True\<rparr>]
      (coinCatalogue\<lparr>ct_providers := [feed]\<rparr>) = Inr (ms, d) \<and> map mappingView ms = [(''v1'', ''XAU'', 1, True)] \<and>
     mappingsOf (unaryId 0) d = ms"
proof -
  let ?items = "[\<lparr>mi_providerId = ''v1'', mi_providerSymbol = ''XAU'', mi_priority = 1, mi_isEnabled = True\<rparr>]"
  let ?c = "coinCatalogue\<lparr>ct_providers := [feed]\<rparr>"
  obtain ms d where run: "replaceMappings (unaryId 0) ?items ?c = Inr (ms, d)"
    by (simp add: replaceMappings_def createMapping_def insertMapping_def storableMapping_def mappingRow_def coinCatalogue_def
        emptyCatalogue_def coinRow_def feed_def ct_bump_def bumpId_def bindE_def Let_def)
  from replace_mappings_exact [of "unaryId 0" ?items ?c, THEN conjunct1, rule_format, OF run]
  have "mset (map mappingView ms) = {#(''v1'', ''XAU'', 1, True)#}" and m: "mappingsOf (unaryId 0) d = filter mg_isEnabled ms"
    by (simp_all add: itemView_def)
  then have v: "map mappingView ms = [(''v1'', ''XAU'', 1, True)]"
    by (metis mset_single_iff)
  then have "filter mg_isEnabled ms = ms" by (auto simp: mappingView_def)
  with run v m show ?thesis by metis
qed

section \<open>What the worker writes\<close>

text \<open>The board changes by the ticks of the worker, with any providers registered, and by the lapse of its quotes.\<close>

inductive boardStep :: "board \<Rightarrow> board \<Rightarrow> bool" where
  tick: "handleTick collate registry enabled acquired c b = (r, d) \<Longrightarrow> boardStep b d"
| lapse: "boardStep b (b\<lparr>bd_quotes := (bd_quotes b)(p := None)\<rparr>)"

inductive_cases boardStepE: "boardStep b d"

lemma resolveProduct_price:
  "resolveProduct registry c product =
     (if chooseQuote (fetchOne registry product c) (mappingsOf (mp_id product) c) = None
      then Some \<lparr>cq_baseBuy = None, cq_baseSell = None, cq_displayBuy = None, cq_displaySell = None, cq_status = NO_PRICE,
        cq_asOf = ct_now c, cq_updatedAt = ct_now c\<rparr>
      else None)"
  by (auto simp: resolveProduct_def resolveQuote_def applyOverride_def split: option.split)

lemma ingestProducts_unpriced:
  assumes "ingestProducts registry c ps n b = (r, d)" and "bd_quotes d p = Some q"
  shows "bd_quotes b p = Some q \<or> cq_status q = NO_PRICE"
  using assms
  by (induction ps arbitrary: n b) (fastforce simp: resolveProduct_price Let_def split: if_splits)+

lemma ingestProducts_completes:
  "(\<exists>m. fst (ingestProducts registry c ps n b) = Inr m) \<longleftrightarrow>
     (\<forall>p\<in>set ps. chooseQuote (fetchOne registry p c) (mappingsOf (mp_id p) c) = None)"
  by (induction ps arbitrary: n b) (simp_all add: resolveProduct_price Let_def)

lemma handleTick_unpriced:
  assumes "handleTick collate registry enabled acquired c b = (r, d)" and "bd_quotes d p = Some q"
  shows "bd_quotes b p = Some q \<or> cq_status q = NO_PRICE"
  using assms
  by (auto simp: handleTick_def Let_def dest: ingestProducts_unpriced split: if_splits prod.splits sum.splits)

lemma board_unpriced:
  assumes "boardStep\<^sup>*\<^sup>* emptyBoard b"
  shows "bd_quotes b p = Some q \<Longrightarrow> cq_status q = NO_PRICE"
  using assms
proof (induction arbitrary: p q rule: rtranclp_induct)
  case (step b d)
  from step.hyps(2) show ?case
    using step.IH step.prems by cases (auto dest: handleTick_unpriced split: if_splits)
qed (simp add: emptyBoard_def)

text \<open>
  Whatever providers are registered and whatever they answer, no quote the worker writes carries a price, so that no
  user can lock one; a tick comes to its end exactly when the store is enabled, the lock is not had or no provider of
  an active product gives a valid quote, and with the store as it is, disabled, it writes nothing at all.
\<close>

theorem board_never_priced:
  "(\<forall>b. boardStep\<^sup>*\<^sup>* emptyBoard b \<longrightarrow>
      (\<forall>st env u p side f s. qe_quote env = bd_quotes b \<longrightarrow> (\<exists>e. lockQuote st env u p side f s = Inl e))) \<and>
   (fst (handleTick collate registry enabled acquired c b) = Inr () \<longleftrightarrow>
      \<not> enabled \<or> \<not> acquired \<or>
      (\<forall>p\<in>set (listActiveProducts collate c). chooseQuote (fetchOne registry p c) (mappingsOf (mp_id p) c) = None)) \<and>
   handleTick collate registry redisIsEnabled acquired c b = (Inr (), b)"
proof (intro conjI allI impI)
  fix b st u p side f s and env :: quoteEnv
  assume b: "boardStep\<^sup>*\<^sup>* emptyBoard b" and env: "qe_quote env = bd_quotes b"
  have "assertExecutable (qe_quote env p) \<noteq> None"
    using board_unpriced [OF b, of p] by (auto simp: assertExecutable_def env split: option.splits)
  then show "\<exists>e. lockQuote st env u p side f s = Inl e"
    by (auto simp: lockQuote_def getExistingLockId_def Let_def split: option.splits)
next
  let ?run = "ingestProducts registry c (listActiveProducts collate c) \<lparr>tk_ok = 0, tk_stale = 0, tk_noPrice = 0\<rparr> b"
  show "fst (handleTick collate registry enabled acquired c b) = Inr () \<longleftrightarrow>
      \<not> enabled \<or> \<not> acquired \<or>
      (\<forall>p\<in>set (listActiveProducts collate c). chooseQuote (fetchOne registry p c) (mappingsOf (mp_id p) c) = None)"
    using ingestProducts_completes [of registry c "listActiveProducts collate c" "\<lparr>tk_ok = 0, tk_stale = 0, tk_noPrice = 0\<rparr>" b]
    by (cases ?run; cases "fst ?run") (auto simp: handleTick_def Let_def)
qed (simp add: handleTick_def redisIsEnabled_def)

theorem board_never_priced_witness:
  "\<exists>d q e. boardStep\<^sup>*\<^sup>* emptyBoard d \<and> bd_quotes d (unaryId 0) = Some q \<and>
     lockQuote noSettings \<lparr>qe_quote = bd_quotes d, qe_lock = Map.empty, qe_lockTtlSec = 30\<rparr> HOUSE_USER_ID (unaryId 0) TradeSide.BUY
       False (ct_db coinCatalogue) = Inl e"
proof -
  obtain r d q where run: "handleTick (\<lambda>_ _. 0) marketModule True True coinCatalogue emptyBoard = (r, d)" "bd_quotes d (unaryId 0) = Some q"
    by (simp add: handleTick_def listActiveProducts_def coinCatalogue_def coinRow_def aCoin_def resolveProduct_price mappingsOf_def
        emptyCatalogue_def sortBy_def bumpId_def emptyDb_def Let_def)
  then have reach: "boardStep\<^sup>*\<^sup>* emptyBoard d" by (intro r_into_rtranclp boardStep.tick)
  with run board_never_priced [THEN conjunct1, rule_format, OF reach] show ?thesis by fastforce
qed

end
