(* ===== verification/TahesabApi.thy ===== *)
theory TahesabApi
  imports Users Http
begin

text \<open>
  What is sent to Tahesab: the method map of \<open>modules/tahesab/tahesab.methods.ts\<close>, the services that turn a
  request object into the positional arguments of a method (the facade \<open>tahesab.service.ts\<close> and the specific ones
  for documents, accounts, inventory, labels, names, RFID and reports), the HTTP client, and the administrator's
  operations on the outbox (\<open>tahesab.admin.controller.ts\<close>). The server on the other side is an argument.
\<close>

section \<open>Arguments and methods\<close>

text \<open>A field of type \<open>string | number\<close> is a \<open>code\<close>.\<close>

datatype code = Code string | Number rat

datatype arg = Text string | Num rat | Codes "code list"

fun codeArg :: "code \<Rightarrow> arg" where
  "codeArg (Code c) = Text c"
| "codeArg (Number n) = Num n"

definition optText :: "string option \<Rightarrow> arg" where
  "optText x = Text (withDefault x [])"

definition optCode :: "code option \<Rightarrow> arg" where
  "optCode x = (case x of None \<Rightarrow> Text [] | Some c \<Rightarrow> codeArg c)"

definition flagArg :: "bool \<Rightarrow> arg" where
  "flagArg b = Num (if b then 1 else 0)"

text \<open>A request of a service: the method and its arguments.\<close>

type_synonym apiRequest = "string \<times> arg list"

text \<open>
  \<open>TahesabMethodMap\<close>: for each method the alternatives its arguments may have, each with the labels and
  types of the arguments it needs and of those it may leave out at the end.
\<close>

datatype argType = TString | TNumber | TCode | TCodes | TStrings

fun hasType :: "argType \<Rightarrow> arg \<Rightarrow> bool" where
  "hasType TString (Text _) = True"
| "hasType TNumber (Num _) = True"
| "hasType TCode (Text _) = True"
| "hasType TCode (Num _) = True"
| "hasType TCodes (Codes _) = True"
| "hasType TStrings (Codes cs) = list_all (\<lambda>c. case c of Code _ \<Rightarrow> True | Number _ \<Rightarrow> False) cs"
| "hasType _ _ = False"

type_synonym labels = "(string \<times> argType) list"

definition customerLabels :: labels where
  "customerLabels = [(''name'', TString), (''groupName'', TString), (''tel'', TString), (''address'', TString),
     (''nationalCode'', TString), (''birthDateShamsi'', TString), (''referrerName'', TString), (''referrerCode'', TCode)]"

definition dateLabels :: labels where
  "dateLabels = [(''shamsiYear'', TString), (''shamsiMonth'', TString), (''shamsiDay'', TString)]"

definition goldVoucherLabels :: labels where
  "goldVoucherLabels = [(''sabteKolOrMovaghat'', TNumber), (''moshtariCode'', TCode), (''factorNumber'', TCode),
     (''radifNumber'', TCode)] @ dateLabels @
     [(''vazn'', TCode), (''ayar'', TCode), (''angNumber'', TString), (''nameAz'', TString), (''isVoroodOrKhorooj'', TNumber),
      (''isMotefaregheOrAbshode'', TNumber), (''sharh'', TString), (''factorCode'', TString)]"

definition buySellLabels :: labels where
  "buySellLabels = [(''sabteKolOrMovaghat'', TNumber), (''moshtariCode'', TCode), (''factorNumber'', TCode)] @ dateLabels @
     [(''mablagh'', TCode), (''ayar'', TCode), (''vazn'', TCode), (''angNumber'', TString), (''nameAz'', TString),
      (''buyOrSale'', TNumber), (''sharh'', TString), (''factorCode'', TCode), (''jensFelez'', TNumber)]"

definition simpleVoucherLabels :: labels where
  "simpleVoucherLabels = [(''sabteKolOrMovaghat'', TNumber), (''moshtariCode'', TCode), (''factorNumber'', TCode)] @ dateLabels @
     [(''mablagh'', TCode), (''sharh'', TString), (''factorCode'', TCode)]"

definition methodMap :: "(string \<times> (labels \<times> labels) list) list" where
  "methodMap =
    [(''Ping'', [([], [])]),
     (''GetMojoodiBank'', [([(''nameBank'', TString)], [])]),
     (''GetMojoodiAbshodeMotefareghe'', [([([], TNumber), ([], TNumber)], [])]),
     (''GetMojoodiKarSakhte'', [([(''jensFelez'', TNumber)], [])]),
     (''DoTarazAbshodeSekehArz'', [([([], TNumber), ([], TNumber)], [])]),
     (''DoNewMoshtari'', [(customerLabels @ [(''moshtariCode'', TCode), (''jensFelez'', TNumber)], [])]),
     (''DoEditMoshtari'', [((''moshtariCode'', TCode) # customerLabels @ [(''description'', TString)], [])]),
     (''DoListMoshtari'', [([(''mobile'', TString)], []), ([(''fromCode'', TCode), (''toCode'', TCode)], [])]),
     (''GetMoshtariByCode'', [([(''customerCode'', TCode)], [])]),
     (''GetMandeHesabByGID'', [([(''gid'', TCode)], [])]),
     (''getmandehesabbycode'', [([(''customerCodes'', TCodes)], [])]),
     (''GetMandeHesabByTarikh'', [([(''customerCode'', TCode), (''dateShamsi'', TString)], [])]),
     (''DoListNameSekeh'', [([], [])]), (''DoListHesabBanki'', [([], [])]), (''DoListNameKarSakhte'', [([], [])]),
     (''GetBankMande'', [([(''bankCode'', TString)], [])]),
     (''GetSandoghMande'', [([(''cashboxCode'', TString)], [])]),
     (''DoNewSanadVKHGOLD'', [(goldVoucherLabels, [(''havalehBeMcode'', TCode), (''multiRadif'', TNumber), (''jensFelez'', TNumber)])]),
     (''DoNewSanadBuySaleGOLD'', [(buySellLabels, [])]), (''DoNewSanadVKHSEKEH'', [(buySellLabels, [])]),
     (''DoNewSanadBuySaleSEKEH'', [(buySellLabels, [])]), (''DoNewSanadVKHVaghNaghd'', [(simpleVoucherLabels, [])]),
     (''DoNewSanadVKHBank'', [(simpleVoucherLabels, [])]), (''DoNewSanadTakhfif'', [(simpleVoucherLabels, [])]),
     (''DoNewSanadTalabBedehi'', [(simpleVoucherLabels, [])]), (''DoNewSanadBuySaleKar'', [(buySellLabels, [])]),
     (''DoNewSanadVKHKar'', [(buySellLabels, [])]), (''DoNewSanadBuySaleEtiket'', [(buySellLabels, [])]),
     (''DoNewSanadVKHEtiket'', [(buySellLabels, [])]),
     (''GetEtiketPictureByFileName'', [([(''fileName'', TString)], [])]),
     (''getetiketinfobycode'', [([([], TCodes)], [])]), (''getetiketinfobycodewithimage'', [([([], TCodes)], [])]),
     (''DoListEtiket'', [([(''fromCode'', TCode), (''toCode'', TCode), (''withPhoto'', TNumber)], [])]),
     (''DoListGetUpdatedEtiket'', [([(''fromDate'', TString), (''toDate'', TString)], [])]),
     (''DoList_EtiketByCodeKar'', [([(''codeKar'', TString)], [])]),
     (''GetEtiketTableInfo'', [([], [])]), (''SetEtiketRFIDClear'', [([(''code'', TCode)], [])]),
     (''DoListAsnad'', [([(''countLast'', TNumber), (''customerCode'', TString), (''fromDateShamsi'', TString),
        (''toDateShamsi'', TString), (''filterNoSanad'', TString), (''jensFelez'', TNumber)], [])]),
     (''DoNewSanadInquiry'', [([(''moshtariCode'', TCode), (''factorNumber'', TCode)] @ dateLabels, [])]),
     (''DoDeleteSanad'', [([(''factorCode'', TString)], [])]),
     (''GetInfoWithImage'', [([(''epcs'', TStrings)], [])]), (''GetInfo'', [([(''epcs'', TStrings)], [])]),
     (''epcList'', [([(''epcs'', TStrings)], [])])]"

text \<open>Arguments fit labels: all that are needed, and some first ones of those that may be left out.\<close>

definition fits :: "arg list \<Rightarrow> labels \<times> labels \<Rightarrow> bool" where
  "fits xs sig \<longleftrightarrow>
     (let ls = fst sig @ snd sig
      in length (fst sig) \<le> length xs \<and> length xs \<le> length ls \<and>
         list_all2 (\<lambda>l x. hasType (snd l) x) (take (length xs) ls) xs)"

definition conforms :: "apiRequest \<Rightarrow> bool" where
  "conforms r \<longleftrightarrow> (case map_of methodMap (fst r) of None \<Rightarrow> False | Some sigs \<Rightarrow> list_ex (fits (snd r)) sigs)"

section \<open>Request objects\<close>

record newMoshtariDto =
  nm_name :: string
  nm_groupName :: string
  nm_tel :: string
  nm_address :: string
  nm_nationalCode :: string
  nm_birthDateShamsi :: "string option"
  nm_referrerName :: "string option"
  nm_referrerCode :: "code option"
  nm_moshtariCode :: "code option"
  nm_jensFelez :: "rat option"

record editMoshtariDto =
  em_moshtariCode :: code
  em_name :: string
  em_groupName :: string
  em_tel :: string
  em_address :: string
  em_nationalCode :: string
  em_birthDateShamsi :: "string option"
  em_referrerName :: "string option"
  em_referrerCode :: "code option"
  em_description :: "string option"

record listMoshtariDto =
  lm_fromCode :: "code option"
  lm_toCode :: "code option"
  lm_mobile :: "string option"

record sanadGoldDto =
  sg_sabteKolOrMovaghat :: rat
  sg_moshtariCode :: code
  sg_factorNumber :: code
  sg_radifNumber :: code
  sg_shamsiYear :: string
  sg_shamsiMonth :: string
  sg_shamsiDay :: string
  sg_vazn :: code
  sg_ayar :: code
  sg_angNumber :: string
  sg_nameAz :: string
  sg_isVoroodOrKhorooj :: rat
  sg_isMotefaregheOrAbshode :: rat
  sg_sharh :: string
  sg_factorCode :: string
  sg_havalehBeMcode :: "code option"
  sg_multiRadif :: "rat option"
  sg_jensFelez :: "rat option"

record buySellDto =
  bs_sabteKolOrMovaghat :: rat
  bs_moshtariCode :: code
  bs_factorNumber :: code
  bs_shamsiYear :: string
  bs_shamsiMonth :: string
  bs_shamsiDay :: string
  bs_mablagh :: code
  bs_ayar :: code
  bs_vazn :: code
  bs_angNumber :: string
  bs_nameAz :: string
  bs_buyOrSale :: rat
  bs_sharh :: "string option"
  bs_factorCode :: "code option"
  bs_jensFelez :: "rat option"

record simpleVoucherDto =
  si_sabteKolOrMovaghat :: rat
  si_moshtariCode :: code
  si_factorNumber :: code
  si_shamsiYear :: string
  si_shamsiMonth :: string
  si_shamsiDay :: string
  si_mablagh :: code
  si_sharh :: "string option"
  si_factorCode :: "code option"

record inquiryDto =
  iq_moshtariCode :: code
  iq_factorNumber :: code
  iq_shamsiYear :: string
  iq_shamsiMonth :: string
  iq_shamsiDay :: string

record listAsnadDto =
  la_countLast :: rat
  la_customerCode :: string
  la_fromDateShamsi :: string
  la_toDateShamsi :: string
  la_filterNoSanad :: "string option"
  la_jensFelez :: "rat option"

record listEtiketDto =
  le_fromCode :: "code option"
  le_toCode :: "code option"
  le_withPhoto :: "bool option"

definition optNum :: "rat option \<Rightarrow> rat \<Rightarrow> arg" where
  "optNum x d = Num (withDefault x d)"

text \<open>\<open>JensFelez.Gold\<close>.\<close>

definition JensFelez_Gold :: rat where
  "JensFelez_Gold = 1"

section \<open>TahesabDocumentsService\<close>

text \<open>
  Each operation of a service is the request it makes; \<open>call\<close> below sends it, and the operation answers what
  \<open>call\<close> answers.
\<close>

definition createGoldInOut :: "sanadGoldDto \<Rightarrow> apiRequest" where
  "createGoldInOut p = (''DoNewSanadVKHGOLD'',
     [Num (sg_sabteKolOrMovaghat p), codeArg (sg_moshtariCode p), codeArg (sg_factorNumber p), codeArg (sg_radifNumber p),
      Text (sg_shamsiYear p), Text (sg_shamsiMonth p), Text (sg_shamsiDay p), codeArg (sg_vazn p), codeArg (sg_ayar p),
      Text (sg_angNumber p), Text (sg_nameAz p), Num (sg_isVoroodOrKhorooj p), Num (sg_isMotefaregheOrAbshode p),
      Text (sg_sharh p), Text (sg_factorCode p), optCode (sg_havalehBeMcode p), optNum (sg_multiRadif p) 0,
      optNum (sg_jensFelez p) 0])"

text \<open>The array that eight of the operations build.\<close>

definition buySellArray :: "buySellDto \<Rightarrow> arg list" where
  "buySellArray dto =
     [Num (bs_sabteKolOrMovaghat dto), codeArg (bs_moshtariCode dto), codeArg (bs_factorNumber dto), Text (bs_shamsiYear dto),
      Text (bs_shamsiMonth dto), Text (bs_shamsiDay dto), codeArg (bs_mablagh dto), codeArg (bs_ayar dto), codeArg (bs_vazn dto),
      Text (bs_angNumber dto), Text (bs_nameAz dto), Num (bs_buyOrSale dto), optText (bs_sharh dto), optCode (bs_factorCode dto),
      optNum (bs_jensFelez dto) JensFelez_Gold]"

definition createGoldBuySell :: "buySellDto \<Rightarrow> apiRequest" where
  "createGoldBuySell dto = (''DoNewSanadBuySaleGOLD'', buySellArray dto)"

definition createSekehInOut :: "buySellDto \<Rightarrow> apiRequest" where
  "createSekehInOut dto = (''DoNewSanadVKHSEKEH'', buySellArray dto)"

definition createSekehBuySell :: "buySellDto \<Rightarrow> apiRequest" where
  "createSekehBuySell dto = (''DoNewSanadBuySaleSEKEH'', buySellArray dto)"

text \<open>The array that four of the operations build.\<close>

definition simpleVoucherArray :: "simpleVoucherDto \<Rightarrow> arg list" where
  "simpleVoucherArray dto =
     [Num (si_sabteKolOrMovaghat dto), codeArg (si_moshtariCode dto), codeArg (si_factorNumber dto), Text (si_shamsiYear dto),
      Text (si_shamsiMonth dto), Text (si_shamsiDay dto), codeArg (si_mablagh dto), optText (si_sharh dto),
      optCode (si_factorCode dto)]"

definition createCashInOut :: "simpleVoucherDto \<Rightarrow> apiRequest" where
  "createCashInOut dto = (''DoNewSanadVKHVaghNaghd'', simpleVoucherArray dto)"

definition createBankInOut :: "simpleVoucherDto \<Rightarrow> apiRequest" where
  "createBankInOut dto = (''DoNewSanadVKHBank'', simpleVoucherArray dto)"

definition createDiscount :: "simpleVoucherDto \<Rightarrow> apiRequest" where
  "createDiscount dto = (''DoNewSanadTakhfif'', simpleVoucherArray dto)"

definition createTalabBedehi :: "simpleVoucherDto \<Rightarrow> apiRequest" where
  "createTalabBedehi dto = (''DoNewSanadTalabBedehi'', simpleVoucherArray dto)"

definition createKarsakhteBuySell :: "buySellDto \<Rightarrow> apiRequest" where
  "createKarsakhteBuySell dto = (''DoNewSanadBuySaleKar'', buySellArray dto)"

definition createKarsakhteInOut :: "buySellDto \<Rightarrow> apiRequest" where
  "createKarsakhteInOut dto = (''DoNewSanadVKHKar'', buySellArray dto)"

definition createEtiketBuySell :: "buySellDto \<Rightarrow> apiRequest" where
  "createEtiketBuySell dto = (''DoNewSanadBuySaleEtiket'', buySellArray dto)"

definition createEtiketInOut :: "buySellDto \<Rightarrow> apiRequest" where
  "createEtiketInOut dto = (''DoNewSanadVKHEtiket'', buySellArray dto)"

definition deleteDocument :: "string \<Rightarrow> apiRequest" where
  "deleteDocument factorCode = (''DoDeleteSanad'', [Text factorCode])"

definition inquiryArray :: "inquiryDto \<Rightarrow> arg list" where
  "inquiryArray dto = [codeArg (iq_moshtariCode dto), codeArg (iq_factorNumber dto), Text (iq_shamsiYear dto),
     Text (iq_shamsiMonth dto), Text (iq_shamsiDay dto)]"

definition inquireDocument :: "inquiryDto \<Rightarrow> apiRequest" where
  "inquireDocument dto = (''DoNewSanadInquiry'', inquiryArray dto)"

section \<open>TahesabAccountsService\<close>

definition createCustomer :: "newMoshtariDto \<Rightarrow> apiRequest" where
  "createCustomer p = (''DoNewMoshtari'',
     [Text (nm_name p), Text (nm_groupName p), Text (nm_tel p), Text (nm_address p), Text (nm_nationalCode p),
      optText (nm_birthDateShamsi p), optText (nm_referrerName p), optCode (nm_referrerCode p),
      codeArg (withDefault (nm_moshtariCode p) (Number (- 1))), optNum (nm_jensFelez p) 0])"

definition updateCustomer :: "editMoshtariDto \<Rightarrow> apiRequest" where
  "updateCustomer p = (''DoEditMoshtari'',
     [codeArg (em_moshtariCode p), Text (em_name p), Text (em_groupName p), Text (em_tel p), Text (em_address p),
      Text (em_nationalCode p), optText (em_birthDateShamsi p), optText (em_referrerName p), optCode (em_referrerCode p),
      optText (em_description p)])"

definition listCustomers :: "listMoshtariDto \<Rightarrow> apiRequest" where
  "listCustomers dto = (''DoListMoshtari'',
     if truthy (lm_mobile dto) then [Text (the (lm_mobile dto))] else [optCode (lm_fromCode dto), optCode (lm_toCode dto)])"

definition getCustomerByCode :: "string \<Rightarrow> apiRequest" where
  "getCustomerByCode customerCode = (''GetMoshtariByCode'', [Text customerCode])"

definition getBalanceByGId :: "code \<Rightarrow> apiRequest" where
  "getBalanceByGId gid = (''GetMandeHesabByGID'', [codeArg gid])"

definition getBalanceByCustomerCode :: "code list \<Rightarrow> apiRequest" where
  "getBalanceByCustomerCode customerCodes = (''getmandehesabbycode'', [Codes customerCodes])"

definition getBalanceByDate :: "string \<Rightarrow> string \<Rightarrow> apiRequest" where
  "getBalanceByDate customerCode dateShamsi = (''GetMandeHesabByTarikh'', [Text customerCode, Text dateShamsi])"

section \<open>The inventory, label, name, RFID and report services\<close>

text \<open>\<open>show\<close> is the conversion of a number to text by \<open>String\<close>.\<close>

definition codeText :: "(rat \<Rightarrow> string) \<Rightarrow> code \<Rightarrow> string" where
  "codeText show c = (case c of Code x \<Rightarrow> x | Number n \<Rightarrow> show n)"

definition inventoryBankBalance :: "string option \<Rightarrow> apiRequest" where
  "inventoryBankBalance nameBank = (''GetMojoodiBank'', [optText nameBank])"

definition getAbshodeMojoodi :: "rat \<Rightarrow> rat option \<Rightarrow> apiRequest" where
  "getAbshodeMojoodi ayar jensFelez = (''GetMojoodiAbshodeMotefareghe'', [Num ayar, optNum jensFelez JensFelez_Gold])"

definition getKarsakhteMojoodi :: "rat \<Rightarrow> apiRequest" where
  "getKarsakhteMojoodi jensFelez = (''GetMojoodiKarSakhte'', [Num jensFelez])"

definition getTarazAbshodeSekehArz :: "bool \<Rightarrow> rat option \<Rightarrow> apiRequest" where
  "getTarazAbshodeSekehArz includeCoin jensFelez =
     (''DoTarazAbshodeSekehArz'', [flagArg includeCoin, optNum jensFelez JensFelez_Gold])"

definition inventoryMojoodiBank :: "(rat \<Rightarrow> string) \<Rightarrow> code \<Rightarrow> apiRequest" where
  "inventoryMojoodiBank show bankCode = (''GetMojoodiBank'', [Text (codeText show bankCode)])"

definition inventoryMojoodiKarSakhte :: "rat \<Rightarrow> apiRequest" where
  "inventoryMojoodiKarSakhte jensFelez = (''GetMojoodiKarSakhte'', [Num jensFelez])"

definition getEtiketPictureByFileName :: "string \<Rightarrow> apiRequest" where
  "getEtiketPictureByFileName fileName = (''GetEtiketPictureByFileName'', [Text fileName])"

definition getEtiketInfoByCode :: "code list \<Rightarrow> apiRequest" where
  "getEtiketInfoByCode codes = (''getetiketinfobycode'', [Codes codes])"

definition getEtiketInfoWithImage :: "code list \<Rightarrow> apiRequest" where
  "getEtiketInfoWithImage codes = (''getetiketinfobycodewithimage'', [Codes codes])"

definition listEtikets :: "listEtiketDto \<Rightarrow> apiRequest" where
  "listEtikets dto = (''DoListEtiket'',
     [optCode (le_fromCode dto), optCode (le_toCode dto), flagArg (le_withPhoto dto = Some True)])"

definition listUpdatedEtikets :: "string \<Rightarrow> string \<Rightarrow> apiRequest" where
  "listUpdatedEtikets fromDateTime toDateTime = (''DoListGetUpdatedEtiket'', [Text fromDateTime, Text toDateTime])"

definition listEtiketsByCodeKar :: "string \<Rightarrow> apiRequest" where
  "listEtiketsByCodeKar codeKar = (''DoList_EtiketByCodeKar'', [Text codeKar])"

definition getEtiketTableInfo :: apiRequest where
  "getEtiketTableInfo = (''GetEtiketTableInfo'', [])"

definition clearEtiketRFID :: "code \<Rightarrow> apiRequest" where
  "clearEtiketRFID c = (''SetEtiketRFIDClear'', [codeArg c])"

definition listCoins :: apiRequest where
  "listCoins = (''DoListNameSekeh'', [])"

definition listBankAccounts :: apiRequest where
  "listBankAccounts = (''DoListHesabBanki'', [])"

definition listKarSakhte :: apiRequest where
  "listKarSakhte = (''DoListNameKarSakhte'', [])"

definition getRfidInfo :: "string list \<Rightarrow> apiRequest" where
  "getRfidInfo epcs = (''GetInfo'', [Codes (map Code epcs)])"

definition getRfidInfoWithImage :: "string list \<Rightarrow> apiRequest" where
  "getRfidInfoWithImage epcs = (''GetInfoWithImage'', [Codes (map Code epcs)])"

definition sendEpcList :: "string list \<Rightarrow> apiRequest" where
  "sendEpcList epcs = (''epcList'', [Codes (map Code epcs)])"

definition listDocuments :: "listAsnadDto \<Rightarrow> apiRequest" where
  "listDocuments dto = (''DoListAsnad'',
     [Num (la_countLast dto), Text (la_customerCode dto), Text (la_fromDateShamsi dto), Text (la_toDateShamsi dto),
      optText (la_filterNoSanad dto), optNum (la_jensFelez dto) 0])"

definition reportInquiryDocument :: "inquiryDto \<Rightarrow> apiRequest" where
  "reportInquiryDocument dto = (''DoNewSanadInquiry'', inquiryArray dto)"

definition reportDeleteDocument :: "string \<Rightarrow> apiRequest" where
  "reportDeleteDocument factorCode = (''DoDeleteSanad'', [Text factorCode])"

section \<open>TahesabService, the facade\<close>

definition facadeCreateCustomer :: "newMoshtariDto \<Rightarrow> apiRequest" where
  "facadeCreateCustomer p = (''DoNewMoshtari'',
     [Text (nm_name p), Text (nm_groupName p), Text (nm_tel p), Text (nm_address p), Text (nm_nationalCode p),
      optText (nm_birthDateShamsi p), optText (nm_referrerName p), optCode (nm_referrerCode p),
      codeArg (withDefault (nm_moshtariCode p) (Number (- 1))), optNum (nm_jensFelez p) 0])"

definition facadeUpdateCustomer :: "editMoshtariDto \<Rightarrow> apiRequest" where
  "facadeUpdateCustomer p = (''DoEditMoshtari'',
     [codeArg (em_moshtariCode p), Text (em_name p), Text (em_groupName p), Text (em_tel p), Text (em_address p),
      Text (em_nationalCode p), optText (em_birthDateShamsi p), optText (em_referrerName p), optCode (em_referrerCode p),
      optText (em_description p)])"

text \<open>Here a mobile counts when it is there, be it empty.\<close>

definition facadeListCustomers :: "listMoshtariDto \<Rightarrow> apiRequest" where
  "facadeListCustomers payload = (''DoListMoshtari'',
     case lm_mobile payload of Some mobile \<Rightarrow> [Text mobile]
     | None \<Rightarrow> [optCode (lm_fromCode payload), optCode (lm_toCode payload)])"

definition facadeGetCustomerByCode :: "string \<Rightarrow> apiRequest" where
  "facadeGetCustomerByCode customerCode = (''GetMoshtariByCode'', [Text customerCode])"

definition facadeGetBalanceByGId :: "code \<Rightarrow> apiRequest" where
  "facadeGetBalanceByGId gid = (''GetMandeHesabByGID'', [codeArg gid])"

definition facadeGetBalanceByCustomerCode :: "code list \<Rightarrow> apiRequest" where
  "facadeGetBalanceByCustomerCode customerCodes = (''getmandehesabbycode'', [Codes customerCodes])"

definition facadeGetBalanceByDate :: "string \<Rightarrow> string \<Rightarrow> apiRequest" where
  "facadeGetBalanceByDate customerCode dateShamsi = (''GetMandeHesabByTarikh'', [Text customerCode, Text dateShamsi])"

definition facadeListDocuments :: "listAsnadDto \<Rightarrow> apiRequest" where
  "facadeListDocuments payload = (''DoListAsnad'',
     [Num (la_countLast payload), Text (la_customerCode payload), Text (la_fromDateShamsi payload),
      Text (la_toDateShamsi payload), optText (la_filterNoSanad payload), optNum (la_jensFelez payload) 0])"

definition facadeGetAbshodeInventory :: "rat \<Rightarrow> rat \<Rightarrow> apiRequest" where
  "facadeGetAbshodeInventory ayar jensFelez = (''GetMojoodiAbshodeMotefareghe'', [Num ayar, Num jensFelez])"

definition facadeAbshodeSekeCurrencyBalance :: "bool \<Rightarrow> rat \<Rightarrow> apiRequest" where
  "facadeAbshodeSekeCurrencyBalance includeCoin jensFelez = (''DoTarazAbshodeSekehArz'', [flagArg includeCoin, Num jensFelez])"

definition facadeListEtikets :: "listEtiketDto \<Rightarrow> apiRequest" where
  "facadeListEtikets payload = (''DoListEtiket'',
     [optCode (le_fromCode payload), optCode (le_toCode payload), flagArg (le_withPhoto payload = Some True)])"

definition facadeListUpdatedEtikets :: "string \<Rightarrow> string \<Rightarrow> apiRequest" where
  "facadeListUpdatedEtikets fromDateTime toDateTime = (''DoListGetUpdatedEtiket'', [Text fromDateTime, Text toDateTime])"

definition facadeGetEtiketTableInfo :: apiRequest where
  "facadeGetEtiketTableInfo = (''GetEtiketTableInfo'', [])"

definition facadeGetItemInfo :: "string list \<Rightarrow> apiRequest" where
  "facadeGetItemInfo epcList = (''GetInfo'', [Codes (map Code epcList)])"

definition facadeGetItemInfoWithImage :: "string list \<Rightarrow> apiRequest" where
  "facadeGetItemInfoWithImage epcList = (''GetInfoWithImage'', [Codes (map Code epcList)])"

definition facadeGetEtiketInfoByCode :: "code list \<Rightarrow> apiRequest" where
  "facadeGetEtiketInfoByCode codes = (''getetiketinfobycode'', [Codes codes])"

definition facadeGetEtiketInfoByCodeWithImage :: "code list \<Rightarrow> apiRequest" where
  "facadeGetEtiketInfoByCodeWithImage codes = (''getetiketinfobycodewithimage'', [Codes codes])"

definition facadeClearEtiketRfid :: "code \<Rightarrow> apiRequest" where
  "facadeClearEtiketRfid c = (''SetEtiketRFIDClear'', [codeArg c])"

definition createGoldVoucher :: "sanadGoldDto \<Rightarrow> apiRequest" where
  "createGoldVoucher p = (''DoNewSanadVKHGOLD'',
     [Num (sg_sabteKolOrMovaghat p), codeArg (sg_moshtariCode p), codeArg (sg_factorNumber p), codeArg (sg_radifNumber p),
      Text (sg_shamsiYear p), Text (sg_shamsiMonth p), Text (sg_shamsiDay p), codeArg (sg_vazn p), codeArg (sg_ayar p),
      Text (sg_angNumber p), Text (sg_nameAz p), Num (sg_isVoroodOrKhorooj p), Num (sg_isMotefaregheOrAbshode p),
      Text (sg_sharh p), Text (sg_factorCode p), optCode (sg_havalehBeMcode p), optNum (sg_multiRadif p) 0,
      optNum (sg_jensFelez p) 0])"

definition deleteVoucher :: "string \<Rightarrow> apiRequest" where
  "deleteVoucher factorCode = (''DoDeleteSanad'', [Text factorCode])"

definition inquireVoucher :: "inquiryDto \<Rightarrow> apiRequest" where
  "inquireVoucher payload = (''DoNewSanadInquiry'',
     [codeArg (iq_moshtariCode payload), codeArg (iq_factorNumber payload), Text (iq_shamsiYear payload),
      Text (iq_shamsiMonth payload), Text (iq_shamsiDay payload)])"

definition pingRequest :: apiRequest where
  "pingRequest = (''Ping'', [])"

definition facadeGetBankBalance :: "string \<Rightarrow> apiRequest" where
  "facadeGetBankBalance bankCode = (''GetBankMande'', [Text bankCode])"

definition facadeGetCashboxBalance :: "string \<Rightarrow> apiRequest" where
  "facadeGetCashboxBalance cashboxCode = (''GetSandoghMande'', [Text cashboxCode])"

definition facadeListCoins :: apiRequest where
  "facadeListCoins = (''DoListNameSekeh'', [])"

definition facadeListBankAccounts :: apiRequest where
  "facadeListBankAccounts = (''DoListHesabBanki'', [])"

definition facadeListKarSakhte :: apiRequest where
  "facadeListKarSakhte = (''DoListNameKarSakhte'', [])"

definition facadeGetMojoodiBank :: "(rat \<Rightarrow> string) \<Rightarrow> code \<Rightarrow> apiRequest" where
  "facadeGetMojoodiBank show bankCode = (''GetMojoodiBank'', [Text (codeText show bankCode)])"

definition facadeGetMojoodiKarSakhte :: "rat \<Rightarrow> apiRequest" where
  "facadeGetMojoodiKarSakhte jensFelez = (''GetMojoodiKarSakhte'', [Num jensFelez])"

section \<open>TahesabHttpClient\<close>

text \<open>
  \<open>th_post\<close> is the server: it answers a body and headers by a value or by an error of axios, which has the status
  and the body of an answer if there was one, and a message. The body is an object with the method as its only
  key; a header that is undefined is not sent.
\<close>

record axiosError =
  ax_status :: "int option"
  ax_data :: json
  ax_message :: string

type_synonym headers = "(string \<times> string option) list"

record tahesabHttp =
  th_token :: "string option"
  th_dbName :: "string option"
  th_post :: "apiRequest \<Rightarrow> headers \<Rightarrow> axiosError + json"

fun spread :: "headers \<Rightarrow> headers \<Rightarrow> headers" where
  "spread hs [] = hs"
| "spread hs ((k, v) # rest) =
     spread (if k \<in> fst ` set hs then map (\<lambda>h. if fst h = k then (k, v) else h) hs else hs @ [(k, v)]) rest"

definition buildHeaders :: "tahesabHttp \<Rightarrow> headers \<Rightarrow> headers" where
  "buildHeaders cl additionalHeaders =
     spread [(''Authorization'', if truthy (th_token cl) then Some (''Bearer '' @ the (th_token cl)) else None),
             (''DBName'', th_dbName cl), (''Content-Type'', Some ''application/json'')] additionalHeaders"

definition axiosMessage :: "axiosError \<Rightarrow> string" where
  "axiosMessage e =
     (if truthy (asString (ax_data e)) then the (asString (ax_data e))
      else if ax_message e \<noteq> [] then ax_message e else ''Error communicating with Tahesab API'')"

definition callTahesab :: "tahesabHttp \<Rightarrow> headers \<Rightarrow> apiRequest \<Rightarrow> thrown + json" where
  "callTahesab cl additional request =
     (case th_post cl request (buildHeaders cl additional) of
        Inr data \<Rightarrow> Inr data
      | Inl e \<Rightarrow> Inl (HttpException OTHER_HTTP (withDefault (ax_status e) 500) (JStr (axiosMessage e))))"

definition callMethod :: "tahesabHttp \<Rightarrow> apiRequest \<Rightarrow> thrown + json" where
  "callMethod cl request = callTahesab cl [] request"

text \<open>The one operation of the facade that changes the answer. \<open>a\<close> is the address of the new object.\<close>

definition getAbshodeSekeCurrencyBalance :: "tahesabHttp \<Rightarrow> nat \<Rightarrow> bool \<Rightarrow> rat \<Rightarrow> thrown + json" where
  "getAbshodeSekeCurrencyBalance cl a includeCoin jensFelez =
     map_sum id (\<lambda>rows. JObj a [(''balances'', rows)]) (callMethod cl (facadeAbshodeSekeCurrencyBalance includeCoin jensFelez))"

section \<open>Every request fits the method map\<close>

text \<open>What the services send. The casts \<open>as any\<close> of the source keep the compiler from checking it.\<close>

inductive sends :: "apiRequest \<Rightarrow> bool" where
  "sends (createGoldInOut p)"
| "sends (createGoldBuySell b)"
| "sends (createSekehInOut b)"
| "sends (createSekehBuySell b)"
| "sends (createCashInOut v)"
| "sends (createBankInOut v)"
| "sends (createDiscount v)"
| "sends (createTalabBedehi v)"
| "sends (createKarsakhteBuySell b)"
| "sends (createKarsakhteInOut b)"
| "sends (createEtiketBuySell b)"
| "sends (createEtiketInOut b)"
| "sends (deleteDocument x)"
| "sends (inquireDocument i)"
| "sends (createCustomer n)"
| "sends (updateCustomer e)"
| "sends (listCustomers l)"
| "sends (getCustomerByCode x)"
| "sends (getBalanceByGId c)"
| "sends (getBalanceByCustomerCode cs)"
| "sends (getBalanceByDate x y)"
| "sends (inventoryBankBalance o')"
| "sends (getAbshodeMojoodi r ro)"
| "sends (getKarsakhteMojoodi r)"
| "sends (getTarazAbshodeSekehArz f ro)"
| "sends (inventoryMojoodiBank show c)"
| "sends (inventoryMojoodiKarSakhte r)"
| "sends (getEtiketPictureByFileName x)"
| "sends (getEtiketInfoByCode cs)"
| "sends (getEtiketInfoWithImage cs)"
| "sends (listEtikets k)"
| "sends (listUpdatedEtikets x y)"
| "sends (listEtiketsByCodeKar x)"
| "sends getEtiketTableInfo"
| "sends (clearEtiketRFID c)"
| "sends listCoins"
| "sends listBankAccounts"
| "sends listKarSakhte"
| "sends (getRfidInfo xs)"
| "sends (getRfidInfoWithImage xs)"
| "sends (sendEpcList xs)"
| "sends (listDocuments a)"
| "sends (reportInquiryDocument i)"
| "sends (reportDeleteDocument x)"
| "sends (facadeCreateCustomer n)"
| "sends (facadeUpdateCustomer e)"
| "sends (facadeListCustomers l)"
| "sends (facadeGetCustomerByCode x)"
| "sends (facadeGetBalanceByGId c)"
| "sends (facadeGetBalanceByCustomerCode cs)"
| "sends (facadeGetBalanceByDate x y)"
| "sends (facadeListDocuments a)"
| "sends (facadeGetAbshodeInventory r r')"
| "sends (facadeAbshodeSekeCurrencyBalance f r)"
| "sends (facadeListEtikets k)"
| "sends (facadeListUpdatedEtikets x y)"
| "sends facadeGetEtiketTableInfo"
| "sends (facadeGetItemInfo xs)"
| "sends (facadeGetItemInfoWithImage xs)"
| "sends (facadeGetEtiketInfoByCode cs)"
| "sends (facadeGetEtiketInfoByCodeWithImage cs)"
| "sends (facadeClearEtiketRfid c)"
| "sends (createGoldVoucher p)"
| "sends (deleteVoucher x)"
| "sends (inquireVoucher i)"
| "sends pingRequest"
| "sends (facadeGetBankBalance x)"
| "sends (facadeGetCashboxBalance x)"
| "sends facadeListCoins"
| "sends facadeListBankAccounts"
| "sends facadeListKarSakhte"
| "sends (facadeGetMojoodiBank show c)"
| "sends (facadeGetMojoodiKarSakhte r)"

lemmas service_requests =
  createGoldInOut_def createGoldBuySell_def createSekehInOut_def createSekehBuySell_def createCashInOut_def
  createBankInOut_def createDiscount_def createTalabBedehi_def createKarsakhteBuySell_def createKarsakhteInOut_def
  createEtiketBuySell_def createEtiketInOut_def deleteDocument_def inquireDocument_def createCustomer_def
  updateCustomer_def listCustomers_def getCustomerByCode_def getBalanceByGId_def getBalanceByCustomerCode_def
  getBalanceByDate_def inventoryBankBalance_def getAbshodeMojoodi_def getKarsakhteMojoodi_def
  getTarazAbshodeSekehArz_def inventoryMojoodiBank_def inventoryMojoodiKarSakhte_def getEtiketPictureByFileName_def
  getEtiketInfoByCode_def getEtiketInfoWithImage_def listEtikets_def listUpdatedEtikets_def listEtiketsByCodeKar_def
  getEtiketTableInfo_def clearEtiketRFID_def listCoins_def listBankAccounts_def listKarSakhte_def getRfidInfo_def
  getRfidInfoWithImage_def sendEpcList_def listDocuments_def reportInquiryDocument_def reportDeleteDocument_def

lemmas facade_requests =
  facadeCreateCustomer_def facadeUpdateCustomer_def facadeListCustomers_def facadeGetCustomerByCode_def
  facadeGetBalanceByGId_def facadeGetBalanceByCustomerCode_def facadeGetBalanceByDate_def facadeListDocuments_def
  facadeGetAbshodeInventory_def facadeAbshodeSekeCurrencyBalance_def facadeListEtikets_def facadeListUpdatedEtikets_def
  facadeGetEtiketTableInfo_def facadeGetItemInfo_def facadeGetItemInfoWithImage_def facadeGetEtiketInfoByCode_def
  facadeGetEtiketInfoByCodeWithImage_def facadeClearEtiketRfid_def createGoldVoucher_def deleteVoucher_def
  inquireVoucher_def pingRequest_def facadeGetBankBalance_def facadeGetCashboxBalance_def facadeListCoins_def
  facadeListBankAccounts_def facadeListKarSakhte_def facadeGetMojoodiBank_def facadeGetMojoodiKarSakhte_def

lemmas request_arrays = buySellArray_def simpleVoucherArray_def inquiryArray_def goldVoucherLabels_def buySellLabels_def
  simpleVoucherLabels_def dateLabels_def customerLabels_def

lemma method_sigs:
  "map_of methodMap ''Ping'' = Some [([], [])]"
  "map_of methodMap ''GetMojoodiBank'' = Some [([(''nameBank'', TString)], [])]"
  "map_of methodMap ''GetMojoodiAbshodeMotefareghe'' = Some [([([], TNumber), ([], TNumber)], [])]"
  "map_of methodMap ''GetMojoodiKarSakhte'' = Some [([(''jensFelez'', TNumber)], [])]"
  "map_of methodMap ''DoTarazAbshodeSekehArz'' = Some [([([], TNumber), ([], TNumber)], [])]"
  "map_of methodMap ''DoNewMoshtari'' = Some [(customerLabels @ [(''moshtariCode'', TCode), (''jensFelez'', TNumber)], [])]"
  "map_of methodMap ''DoEditMoshtari'' = Some [((''moshtariCode'', TCode) # customerLabels @ [(''description'', TString)], [])]"
  "map_of methodMap ''DoListMoshtari'' = Some [([(''mobile'', TString)], []), ([(''fromCode'', TCode), (''toCode'', TCode)], [])]"
  "map_of methodMap ''GetMoshtariByCode'' = Some [([(''customerCode'', TCode)], [])]"
  "map_of methodMap ''GetMandeHesabByGID'' = Some [([(''gid'', TCode)], [])]"
  "map_of methodMap ''getmandehesabbycode'' = Some [([(''customerCodes'', TCodes)], [])]"
  "map_of methodMap ''GetMandeHesabByTarikh'' = Some [([(''customerCode'', TCode), (''dateShamsi'', TString)], [])]"
  "map_of methodMap ''DoListNameSekeh'' = Some [([], [])]"
  "map_of methodMap ''DoListHesabBanki'' = Some [([], [])]"
  "map_of methodMap ''DoListNameKarSakhte'' = Some [([], [])]"
  "map_of methodMap ''GetBankMande'' = Some [([(''bankCode'', TString)], [])]"
  "map_of methodMap ''GetSandoghMande'' = Some [([(''cashboxCode'', TString)], [])]"
  "map_of methodMap ''DoNewSanadVKHGOLD'' = Some [(goldVoucherLabels, [(''havalehBeMcode'', TCode), (''multiRadif'', TNumber), (''jensFelez'', TNumber)])]"
  "map_of methodMap ''DoNewSanadBuySaleGOLD'' = Some [(buySellLabels, [])]"
  "map_of methodMap ''DoNewSanadVKHSEKEH'' = Some [(buySellLabels, [])]"
  "map_of methodMap ''DoNewSanadBuySaleSEKEH'' = Some [(buySellLabels, [])]"
  "map_of methodMap ''DoNewSanadVKHVaghNaghd'' = Some [(simpleVoucherLabels, [])]"
  "map_of methodMap ''DoNewSanadVKHBank'' = Some [(simpleVoucherLabels, [])]"
  "map_of methodMap ''DoNewSanadTakhfif'' = Some [(simpleVoucherLabels, [])]"
  "map_of methodMap ''DoNewSanadTalabBedehi'' = Some [(simpleVoucherLabels, [])]"
  "map_of methodMap ''DoNewSanadBuySaleKar'' = Some [(buySellLabels, [])]"
  "map_of methodMap ''DoNewSanadVKHKar'' = Some [(buySellLabels, [])]"
  "map_of methodMap ''DoNewSanadBuySaleEtiket'' = Some [(buySellLabels, [])]"
  "map_of methodMap ''DoNewSanadVKHEtiket'' = Some [(buySellLabels, [])]"
  "map_of methodMap ''GetEtiketPictureByFileName'' = Some [([(''fileName'', TString)], [])]"
  "map_of methodMap ''getetiketinfobycode'' = Some [([([], TCodes)], [])]"
  "map_of methodMap ''getetiketinfobycodewithimage'' = Some [([([], TCodes)], [])]"
  "map_of methodMap ''DoListEtiket'' = Some [([(''fromCode'', TCode), (''toCode'', TCode), (''withPhoto'', TNumber)], [])]"
  "map_of methodMap ''DoListGetUpdatedEtiket'' = Some [([(''fromDate'', TString), (''toDate'', TString)], [])]"
  "map_of methodMap ''DoList_EtiketByCodeKar'' = Some [([(''codeKar'', TString)], [])]"
  "map_of methodMap ''GetEtiketTableInfo'' = Some [([], [])]"
  "map_of methodMap ''SetEtiketRFIDClear'' = Some [([(''code'', TCode)], [])]"
  "map_of methodMap ''DoListAsnad'' = Some [([(''countLast'', TNumber), (''customerCode'', TString), (''fromDateShamsi'', TString), (''toDateShamsi'', TString), (''filterNoSanad'', TString), (''jensFelez'', TNumber)], [])]"
  "map_of methodMap ''DoNewSanadInquiry'' = Some [([(''moshtariCode'', TCode), (''factorNumber'', TCode)] @ dateLabels, [])]"
  "map_of methodMap ''DoDeleteSanad'' = Some [([(''factorCode'', TString)], [])]"
  "map_of methodMap ''GetInfoWithImage'' = Some [([(''epcs'', TStrings)], [])]"
  "map_of methodMap ''GetInfo'' = Some [([(''epcs'', TStrings)], [])]"
  "map_of methodMap ''epcList'' = Some [([(''epcs'', TStrings)], [])]"
  by (simp_all add: methodMap_def)

lemma hasType_simps [simp]:
  "hasType TCode (codeArg c)" "hasType TString (optText x)" "hasType TCode (optCode y)" "hasType TNumber (optNum n d)"
  "hasType TNumber (flagArg b)"
  by (cases c, simp_all add: optText_def optCode_def optNum_def flagArg_def split: option.split)
    (metis codeArg.elims hasType.simps(3,4))

lemma epcs_strings [simp]: "list_all (\<lambda>c. case c of Code _ \<Rightarrow> True | Number _ \<Rightarrow> False) (map Code xs)"
  by (simp add: list.pred_map comp_def list.pred_True)

text \<open>
  C34. Whatever a service is asked, the request it sends is one the method map knows, with as many arguments as
  the method takes and each of the type it declares.
\<close>

theorem every_request_conforms:
  assumes "sends r"
  shows "conforms r"
  using assms
  by cases (simp_all add: conforms_def fits_def method_sigs service_requests facade_requests request_arrays split: option.split)

theorem every_request_conforms_witness:
  "conforms (createCashInOut \<lparr>si_sabteKolOrMovaghat = 1, si_moshtariCode = Code ''12'', si_factorNumber = Code ''d1'',
     si_shamsiYear = ''1403'', si_shamsiMonth = ''1'', si_shamsiDay = ''2'', si_mablagh = Number 5, si_sharh = None, si_factorCode = None\<rparr>)"
  by (rule every_request_conforms) (rule sends.intros)

section \<open>Vouchers and their arrays\<close>

text \<open>
  The reference: the fields a request object has, and the array that lists them under the labels of a method, with a
  default for the fields that are missing.
\<close>

definition present :: "string \<Rightarrow> ('a \<Rightarrow> arg) \<Rightarrow> 'a option \<Rightarrow> (string \<times> arg) list" where
  "present l f x = (case x of None \<Rightarrow> [] | Some v \<Rightarrow> [(l, f v)])"

definition positional :: "labels \<Rightarrow> (string \<Rightarrow> arg) \<Rightarrow> (string \<times> arg) list \<Rightarrow> arg list" where
  "positional ls absent given = map (\<lambda>l. withDefault (map_of given (fst l)) (absent (fst l))) ls"

definition sanadGoldFields :: "sanadGoldDto \<Rightarrow> (string \<times> arg) list" where
  "sanadGoldFields p =
     [(''sabteKolOrMovaghat'', Num (sg_sabteKolOrMovaghat p)), (''moshtariCode'', codeArg (sg_moshtariCode p)),
      (''factorNumber'', codeArg (sg_factorNumber p)), (''radifNumber'', codeArg (sg_radifNumber p)),
      (''shamsiYear'', Text (sg_shamsiYear p)), (''shamsiMonth'', Text (sg_shamsiMonth p)), (''shamsiDay'', Text (sg_shamsiDay p)),
      (''vazn'', codeArg (sg_vazn p)), (''ayar'', codeArg (sg_ayar p)), (''angNumber'', Text (sg_angNumber p)),
      (''nameAz'', Text (sg_nameAz p)), (''isVoroodOrKhorooj'', Num (sg_isVoroodOrKhorooj p)),
      (''isMotefaregheOrAbshode'', Num (sg_isMotefaregheOrAbshode p)), (''sharh'', Text (sg_sharh p)),
      (''factorCode'', Text (sg_factorCode p))] @ present ''havalehBeMcode'' codeArg (sg_havalehBeMcode p) @
     present ''multiRadif'' Num (sg_multiRadif p) @ present ''jensFelez'' Num (sg_jensFelez p)"

definition buySellFields :: "buySellDto \<Rightarrow> (string \<times> arg) list" where
  "buySellFields d =
     [(''sabteKolOrMovaghat'', Num (bs_sabteKolOrMovaghat d)), (''moshtariCode'', codeArg (bs_moshtariCode d)),
      (''factorNumber'', codeArg (bs_factorNumber d)), (''shamsiYear'', Text (bs_shamsiYear d)),
      (''shamsiMonth'', Text (bs_shamsiMonth d)), (''shamsiDay'', Text (bs_shamsiDay d)), (''mablagh'', codeArg (bs_mablagh d)),
      (''ayar'', codeArg (bs_ayar d)), (''vazn'', codeArg (bs_vazn d)), (''angNumber'', Text (bs_angNumber d)),
      (''nameAz'', Text (bs_nameAz d)), (''buyOrSale'', Num (bs_buyOrSale d))] @ present ''sharh'' Text (bs_sharh d) @
     present ''factorCode'' codeArg (bs_factorCode d) @ present ''jensFelez'' Num (bs_jensFelez d)"

definition simpleVoucherFields :: "simpleVoucherDto \<Rightarrow> (string \<times> arg) list" where
  "simpleVoucherFields d =
     [(''sabteKolOrMovaghat'', Num (si_sabteKolOrMovaghat d)), (''moshtariCode'', codeArg (si_moshtariCode d)),
      (''factorNumber'', codeArg (si_factorNumber d)), (''shamsiYear'', Text (si_shamsiYear d)),
      (''shamsiMonth'', Text (si_shamsiMonth d)), (''shamsiDay'', Text (si_shamsiDay d)), (''mablagh'', codeArg (si_mablagh d))] @
     present ''sharh'' Text (si_sharh d) @ present ''factorCode'' codeArg (si_factorCode d)"

definition newMoshtariFields :: "newMoshtariDto \<Rightarrow> (string \<times> arg) list" where
  "newMoshtariFields p =
     [(''name'', Text (nm_name p)), (''groupName'', Text (nm_groupName p)), (''tel'', Text (nm_tel p)),
      (''address'', Text (nm_address p)), (''nationalCode'', Text (nm_nationalCode p))] @
     present ''birthDateShamsi'' Text (nm_birthDateShamsi p) @ present ''referrerName'' Text (nm_referrerName p) @
     present ''referrerCode'' codeArg (nm_referrerCode p) @ present ''moshtariCode'' codeArg (nm_moshtariCode p) @
     present ''jensFelez'' Num (nm_jensFelez p)"

definition editMoshtariFields :: "editMoshtariDto \<Rightarrow> (string \<times> arg) list" where
  "editMoshtariFields p =
     [(''moshtariCode'', codeArg (em_moshtariCode p)), (''name'', Text (em_name p)), (''groupName'', Text (em_groupName p)),
      (''tel'', Text (em_tel p)), (''address'', Text (em_address p)), (''nationalCode'', Text (em_nationalCode p))] @
     present ''birthDateShamsi'' Text (em_birthDateShamsi p) @ present ''referrerName'' Text (em_referrerName p) @
     present ''referrerCode'' codeArg (em_referrerCode p) @ present ''description'' Text (em_description p)"

text \<open>What stands for a missing field: of vouchers in and out, of the other vouchers, and of customers.\<close>

definition goldAbsent :: "string \<Rightarrow> arg" where
  "goldAbsent l = (if l \<in> {''multiRadif'', ''jensFelez''} then Num 0 else Text [])"

definition voucherAbsent :: "string \<Rightarrow> arg" where
  "voucherAbsent l = (if l = ''jensFelez'' then Num JensFelez_Gold else Text [])"

definition customerAbsent :: "string \<Rightarrow> arg" where
  "customerAbsent l = (if l = ''moshtariCode'' then Num (- 1) else if l = ''jensFelez'' then Num 0 else Text [])"

text \<open>The labels of a method that has one alternative.\<close>

definition labelsOf :: "string \<Rightarrow> labels" where
  "labelsOf m = (case map_of methodMap m of Some [sig] \<Rightarrow> fst sig @ snd sig | _ \<Rightarrow> [])"

lemma map_of_present [simp]:
  "k \<noteq> l \<Longrightarrow> (m ++ map_of (present l f x)) k = m k" "k \<noteq> l \<Longrightarrow> map_of (present l f x) k = None"
  "(m ++ map_of (present l f x)) l = (case x of None \<Rightarrow> m l | Some v \<Rightarrow> Some (f v))" "map_of (present l f x) l = map_option f x"
  by (simp_all add: present_def map_add_def split: option.split)

lemma withDefault_present [simp]:
  "withDefault (case x of None \<Rightarrow> None | Some v \<Rightarrow> Some (f v)) d = (case x of None \<Rightarrow> d | Some v \<Rightarrow> f v)"
  "withDefault (map_option f x) d = (case x of None \<Rightarrow> d | Some v \<Rightarrow> f v)"
  by (simp_all split: option.split)

lemma opt_args:
  "optText x = (case x of None \<Rightarrow> Text [] | Some v \<Rightarrow> Text v)" "optCode y = (case y of None \<Rightarrow> Text [] | Some v \<Rightarrow> codeArg v)"
  "optNum n d = (case n of None \<Rightarrow> Num d | Some v \<Rightarrow> Num v)"
  "codeArg (withDefault y (Number r)) = (case y of None \<Rightarrow> Num r | Some v \<Rightarrow> codeArg v)"
  by (simp_all add: optText_def optCode_def optNum_def split: option.split)

lemmas voucher_fields = positional_def goldAbsent_def voucherAbsent_def customerAbsent_def sanadGoldFields_def buySellFields_def
  simpleVoucherFields_def newMoshtariFields_def editMoshtariFields_def opt_args

lemma labels_of:
  "labelsOf ''DoNewSanadVKHGOLD'' = goldVoucherLabels @ [(''havalehBeMcode'', TCode), (''multiRadif'', TNumber), (''jensFelez'', TNumber)]"
  "labelsOf ''DoNewMoshtari'' = customerLabels @ [(''moshtariCode'', TCode), (''jensFelez'', TNumber)]"
  "labelsOf ''DoEditMoshtari'' = (''moshtariCode'', TCode) # customerLabels @ [(''description'', TString)]"
  by (simp_all add: labelsOf_def method_sigs)

lemma array_of_fields:
  "buySellArray b = positional buySellLabels voucherAbsent (buySellFields b)"
  "simpleVoucherArray v = positional simpleVoucherLabels voucherAbsent (simpleVoucherFields v)"
  "snd (createGoldInOut p) = positional (labelsOf ''DoNewSanadVKHGOLD'') goldAbsent (sanadGoldFields p)"
  "snd (createCustomer n) = positional (labelsOf ''DoNewMoshtari'') customerAbsent (newMoshtariFields n)"
  "snd (updateCustomer e) = positional (labelsOf ''DoEditMoshtari'') customerAbsent (editMoshtariFields e)"
  by (simp_all add: voucher_fields labels_of request_arrays createGoldInOut_def createCustomer_def updateCustomer_def cong: option.case_cong)

text \<open>What is left of a request object when a missing field is its default.\<close>

definition goldNormal :: "sanadGoldDto \<Rightarrow> sanadGoldDto" where
  "goldNormal p = p\<lparr>sg_havalehBeMcode := Some (withDefault (sg_havalehBeMcode p) (Code [])),
     sg_multiRadif := Some (withDefault (sg_multiRadif p) 0), sg_jensFelez := Some (withDefault (sg_jensFelez p) 0)\<rparr>"

definition buySellNormal :: "buySellDto \<Rightarrow> buySellDto" where
  "buySellNormal d = d\<lparr>bs_sharh := Some (withDefault (bs_sharh d) []), bs_factorCode := Some (withDefault (bs_factorCode d) (Code [])),
     bs_jensFelez := Some (withDefault (bs_jensFelez d) JensFelez_Gold)\<rparr>"

definition simpleNormal :: "simpleVoucherDto \<Rightarrow> simpleVoucherDto" where
  "simpleNormal d = d\<lparr>si_sharh := Some (withDefault (si_sharh d) []), si_factorCode := Some (withDefault (si_factorCode d) (Code []))\<rparr>"

lemma codeArg_eq [simp]: "codeArg c = codeArg d \<longleftrightarrow> c = d"
  by (cases c; cases d) simp_all

lemma optCode_default: "optCode c = codeArg (withDefault c (Code []))"
  by (simp add: optCode_def split: option.split)

lemma array_injective:
  "buySellArray b = buySellArray b' \<longleftrightarrow> buySellNormal b = buySellNormal b'"
  "simpleVoucherArray v = simpleVoucherArray v' \<longleftrightarrow> simpleNormal v = simpleNormal v'"
  "createGoldInOut p = createGoldInOut p' \<longleftrightarrow> goldNormal p = goldNormal p'"
  by (cases b, cases b', simp add: buySellArray_def buySellNormal_def optText_def optCode_default optNum_def)
    (cases v, cases v', simp add: simpleVoucherArray_def simpleNormal_def optText_def optCode_default,
     cases p, cases p', simp add: createGoldInOut_def goldNormal_def optCode_default optNum_def)

lemma voucher_labels:
  "labelsOf ''DoNewSanadBuySaleGOLD'' = buySellLabels" "labelsOf ''DoNewSanadVKHSEKEH'' = buySellLabels"
  "labelsOf ''DoNewSanadBuySaleSEKEH'' = buySellLabels" "labelsOf ''DoNewSanadBuySaleKar'' = buySellLabels"
  "labelsOf ''DoNewSanadVKHKar'' = buySellLabels" "labelsOf ''DoNewSanadBuySaleEtiket'' = buySellLabels"
  "labelsOf ''DoNewSanadVKHEtiket'' = buySellLabels" "labelsOf ''DoNewSanadVKHVaghNaghd'' = simpleVoucherLabels"
  "labelsOf ''DoNewSanadVKHBank'' = simpleVoucherLabels" "labelsOf ''DoNewSanadTakhfif'' = simpleVoucherLabels"
  "labelsOf ''DoNewSanadTalabBedehi'' = simpleVoucherLabels"
  by (simp_all add: labelsOf_def method_sigs)

lemmas array_requests =
  createGoldBuySell_def createSekehInOut_def createSekehBuySell_def createKarsakhteBuySell_def createKarsakhteInOut_def
  createEtiketBuySell_def createEtiketInOut_def createCashInOut_def createBankInOut_def createDiscount_def createTalabBedehi_def

lemma method_of_request:
  "createGoldInOut p = (''DoNewSanadVKHGOLD'', snd (createGoldInOut p))" "createCustomer n = (''DoNewMoshtari'', snd (createCustomer n))"
  "updateCustomer e = (''DoEditMoshtari'', snd (updateCustomer e))"
  by (simp_all add: createGoldInOut_def createCustomer_def updateCustomer_def)

text \<open>
  C33. A voucher is sent as the array that lists the fields of its request object in the order of the labels the
  method map gives the method, a missing field being its default; and two requests are the same array exactly
  when they agree in every field up to these defaults, so nothing of a voucher is lost on the way.
\<close>

theorem vouchers_keep_their_fields:
  "[createGoldBuySell b, createSekehInOut b, createSekehBuySell b, createKarsakhteBuySell b, createKarsakhteInOut b,
      createEtiketBuySell b, createEtiketInOut b] =
     map (\<lambda>m. (m, positional (labelsOf m) voucherAbsent (buySellFields b)))
       [''DoNewSanadBuySaleGOLD'', ''DoNewSanadVKHSEKEH'', ''DoNewSanadBuySaleSEKEH'', ''DoNewSanadBuySaleKar'',
        ''DoNewSanadVKHKar'', ''DoNewSanadBuySaleEtiket'', ''DoNewSanadVKHEtiket''] \<and>
   [createCashInOut v, createBankInOut v, createDiscount v, createTalabBedehi v] =
     map (\<lambda>m. (m, positional (labelsOf m) voucherAbsent (simpleVoucherFields v)))
       [''DoNewSanadVKHVaghNaghd'', ''DoNewSanadVKHBank'', ''DoNewSanadTakhfif'', ''DoNewSanadTalabBedehi''] \<and>
   createGoldInOut p = (''DoNewSanadVKHGOLD'', positional (labelsOf ''DoNewSanadVKHGOLD'') goldAbsent (sanadGoldFields p)) \<and>
   createCustomer n = (''DoNewMoshtari'', positional (labelsOf ''DoNewMoshtari'') customerAbsent (newMoshtariFields n)) \<and>
   updateCustomer e = (''DoEditMoshtari'', positional (labelsOf ''DoEditMoshtari'') customerAbsent (editMoshtariFields e)) \<and>
   (createGoldInOut p = createGoldInOut p' \<longleftrightarrow> goldNormal p = goldNormal p') \<and>
   (createGoldBuySell b = createGoldBuySell b' \<longleftrightarrow> buySellNormal b = buySellNormal b') \<and>
   (createCashInOut v = createCashInOut v' \<longleftrightarrow> simpleNormal v = simpleNormal v')"
proof (intro conjI)
  show "createGoldBuySell b = createGoldBuySell b' \<longleftrightarrow> buySellNormal b = buySellNormal b'"
    by (simp only: createGoldBuySell_def prod.inject array_injective simp_thms)
  show "createCashInOut v = createCashInOut v' \<longleftrightarrow> simpleNormal v = simpleNormal v'"
    by (simp only: createCashInOut_def prod.inject array_injective simp_thms)
  show "createGoldInOut p = createGoldInOut p' \<longleftrightarrow> goldNormal p = goldNormal p'"
    by (rule array_injective)
  show "createGoldInOut p = (''DoNewSanadVKHGOLD'', positional (labelsOf ''DoNewSanadVKHGOLD'') goldAbsent (sanadGoldFields p))"
    by (rule method_of_request(1) [unfolded array_of_fields])
  show "createCustomer n = (''DoNewMoshtari'', positional (labelsOf ''DoNewMoshtari'') customerAbsent (newMoshtariFields n))"
    by (rule method_of_request(2) [unfolded array_of_fields])
  show "updateCustomer e = (''DoEditMoshtari'', positional (labelsOf ''DoEditMoshtari'') customerAbsent (editMoshtariFields e))"
    by (rule method_of_request(3) [unfolded array_of_fields])
qed (simp_all only: list.map voucher_labels array_requests array_of_fields)

section \<open>The facade and the specific services\<close>

text \<open>
  The facade sends what the specific services send for the same request, with one exception: asked for the
  customers of an empty mobile it sends the empty mobile, where the specific service sends the range of codes.
\<close>

theorem facade_agrees_with_services:
  "facadeCreateCustomer = createCustomer \<and> facadeUpdateCustomer = updateCustomer \<and>
   facadeGetCustomerByCode = getCustomerByCode \<and> facadeGetBalanceByGId = getBalanceByGId \<and>
   facadeGetBalanceByCustomerCode = getBalanceByCustomerCode \<and> facadeGetBalanceByDate = getBalanceByDate \<and>
   facadeListDocuments = listDocuments \<and> createGoldVoucher = createGoldInOut \<and> deleteVoucher = deleteDocument \<and>
   deleteVoucher = reportDeleteDocument \<and> inquireVoucher = inquireDocument \<and> inquireVoucher = reportInquiryDocument \<and>
   (\<forall>r j. facadeGetAbshodeInventory r j = getAbshodeMojoodi r (Some j)) \<and>
   (\<forall>f j. facadeAbshodeSekeCurrencyBalance f j = getTarazAbshodeSekehArz f (Some j)) \<and>
   facadeListEtikets = listEtikets \<and> facadeListUpdatedEtikets = listUpdatedEtikets \<and>
   facadeGetEtiketTableInfo = getEtiketTableInfo \<and> facadeGetItemInfo = getRfidInfo \<and>
   facadeGetItemInfoWithImage = getRfidInfoWithImage \<and> facadeGetEtiketInfoByCode = getEtiketInfoByCode \<and>
   facadeGetEtiketInfoByCodeWithImage = getEtiketInfoWithImage \<and> facadeClearEtiketRfid = clearEtiketRFID \<and>
   facadeListCoins = listCoins \<and> facadeListBankAccounts = listBankAccounts \<and> facadeListKarSakhte = listKarSakhte \<and>
   facadeGetMojoodiBank = inventoryMojoodiBank \<and> facadeGetMojoodiKarSakhte = inventoryMojoodiKarSakhte \<and>
   (\<forall>l. facadeListCustomers l = listCustomers l \<longleftrightarrow> lm_mobile l \<noteq> Some [])"
  by (auto simp: fun_eq_iff facade_requests service_requests request_arrays optNum_def truthy_def split: option.splits)

end
