(* ===== verification/TahesabAdmin.thy ===== *)
theory TahesabAdmin
  imports TahesabApi
begin

text \<open>
  What becomes of a row of the outbox once it is sent: the client that \<open>tahesab-outbox.service.ts\<close> dispatches to,
  made of the services of \<open>TahesabApi\<close> and the HTTP client, and the operations of an administrator on the outbox
  (\<open>tahesab.admin.controller.ts\<close>). They complete the model of \<open>Outbox\<close>, whose batches take any client.
\<close>

section \<open>The client of the outbox\<close>

text \<open>
  The request objects of a payload, whose fields that are always empty the payload does not store
  (\<open>buildMoshtariCreateDto\<close>, \<open>buildMoshtariEditDto\<close>).
\<close>

definition newMoshtariOf :: "moshtariPayload \<Rightarrow> newMoshtariDto" where
  "newMoshtariOf p =
     \<lparr>nm_name = ms_name p, nm_groupName = ms_groupName p, nm_tel = ms_tel p, nm_address = [], nm_nationalCode = [],
      nm_birthDateShamsi = None, nm_referrerName = None, nm_referrerCode = None,
      nm_moshtariCode = map_option Code (ms_moshtariCode p), nm_jensFelez = Some 0\<rparr>"

definition editMoshtariOf :: "moshtariPayload \<Rightarrow> editMoshtariDto" where
  "editMoshtariOf p =
     \<lparr>em_moshtariCode = Code (withDefault (ms_moshtariCode p) []), em_name = ms_name p, em_groupName = ms_groupName p,
      em_tel = ms_tel p, em_address = [], em_nationalCode = [], em_birthDateShamsi = None, em_referrerName = None,
      em_referrerCode = None, em_description = Some []\<rparr>"

text \<open>
  The factor code of an answer goes into a column of strings: \<open>refused\<close> is the message with which Prisma refuses
  any other value, and the row counts as failed then.
\<close>

definition falsy :: "json \<Rightarrow> bool" where
  "falsy v \<longleftrightarrow> v \<in> {JUndefined, JNull, JBool False, JNum 0, JStr []}"

definition answerOf :: "(json \<Rightarrow> string) \<Rightarrow> json \<Rightarrow> string + tahesabAnswer" where
  "answerOf refused result =
     (if falsy result then Inr None
      else case coalesce (propOf result ''Sh_factor'') (propOf result ''factorCode'') of
        JStr code \<Rightarrow> Inr (Some (asString (propOf result ''Sh_factor''), asString (propOf result ''factorCode'')))
      | v \<Rightarrow> if v = JUndefined \<or> v = JNull then Inr (Some (None, None)) else Inl (refused v))"

text \<open>An exception of the client has its message as its response.\<close>

fun thrownMessage :: "thrown \<Rightarrow> string" where
  "thrownMessage (HttpException _ _ (JStr m)) = m"
| "thrownMessage (KnownRequestError _ m) = m"
| "thrownMessage _ = []"

definition sendRequest :: "tahesabHttp \<Rightarrow> (json \<Rightarrow> string) \<Rightarrow> apiRequest \<Rightarrow> string + tahesabAnswer" where
  "sendRequest cl refused request =
     (case callTahesab cl [] request of Inl e \<Rightarrow> Inl (thrownMessage e) | Inr result \<Rightarrow> answerOf refused result)"

text \<open>The cases of \<open>dispatch\<close> that reach a service.\<close>

definition httpTahesabClient :: "tahesabHttp \<Rightarrow> (json \<Rightarrow> string) \<Rightarrow> tahesabClient" where
  "httpTahesabClient cl refused s method payload =
     (case payload of
        NewMoshtari p \<Rightarrow> sendRequest cl refused (createCustomer (newMoshtariOf p))
      | EditMoshtari p \<Rightarrow> sendRequest cl refused (updateCustomer (editMoshtariOf p))
      | DeleteSanad factorCode \<Rightarrow> sendRequest cl refused (deleteDocument factorCode)
      | _ \<Rightarrow> Inr None)"

section \<open>TahesabAdminController\<close>

record outboxQuery =
  oq_status :: "TahesabOutboxStatus option"
  oq_method :: "string option"
  oq_correlationId :: "string option"
  oq_from :: "time option"
  oq_to :: "time option"

definition matchesOutboxQuery :: "outboxQuery \<Rightarrow> tahesabOutbox \<Rightarrow> bool" where
  "matchesOutboxQuery query ob \<longleftrightarrow>
     (case oq_status query of None \<Rightarrow> True | Some x \<Rightarrow> ob_status ob = x) \<and>
     (truthy (oq_method query) \<longrightarrow> Some (ob_method ob) = oq_method query) \<and>
     (truthy (oq_correlationId query) \<longrightarrow>
        (case ob_correlationId ob of None \<Rightarrow> False | Some c \<Rightarrow> containsInsensitive c (the (oq_correlationId query)))) \<and>
     (case oq_from query of None \<Rightarrow> True | Some t \<Rightarrow> t \<le> ob_createdAt ob) \<and>
     (case oq_to query of None \<Rightarrow> True | Some t \<Rightarrow> ob_createdAt ob \<le> t)"

definition listOutbox :: "outboxQuery \<Rightarrow> rat \<Rightarrow> rat \<Rightarrow> db \<Rightarrow> tahesabOutbox list \<times> pageMeta" where
  "listOutbox query page limit s =
     (let matching = findMany (matchesOutboxQuery query) (tahesabOutboxes s)
      in wrap (pageOf (sortBy (\<lambda>a b. compareCreated b a) matching) page limit) (int (length matching)) page limit)"

definition retried :: "time \<Rightarrow> tahesabOutbox \<Rightarrow> tahesabOutbox" where
  "retried now ob = ob\<lparr>ob_status := TahesabOutboxStatus.PENDING, ob_nextRetryAt := now, ob_lastError := None\<rparr>"

definition retryOutbox :: "id \<Rightarrow> db \<Rightarrow> tahesabOutbox tx" where
  "retryOutbox i s =
     (case findFirst (\<lambda>ob. ob_id ob = i) (tahesabOutboxes s) of
        None \<Rightarrow> Inl (RecordNotFound ''TahesabOutbox'')
      | Some ob \<Rightarrow> Inr (retried (db_now s) ob, updateOutbox i (retried (db_now s)) s))"

text \<open>The request object and the correlation id of a resync; \<open>showTime\<close> is \<open>toISOString\<close>.\<close>

definition resyncPayload :: "customerGroup option \<Rightarrow> user \<Rightarrow> outboxPayload" where
  "resyncPayload grp u = EditMoshtari
     \<lparr>ms_moshtariCode = us_tahesabCustomerCode u, ms_name = us_fullName u, ms_groupName = groupNameOf grp, ms_tel = us_mobile u\<rparr>"

definition resyncCorrelation :: "(time \<Rightarrow> string) \<Rightarrow> time \<Rightarrow> user \<Rightarrow> string" where
  "resyncCorrelation showTime now u = ''customer:resync:'' @ us_id u @ '':'' @ showTime now"

definition resyncOneUser :: "tahesabConfig \<Rightarrow> (time \<Rightarrow> string) \<Rightarrow> id \<Rightarrow> db \<Rightarrow> bool tx" where
  "resyncOneUser cfg showTime i s =
     (if \<not> isEnabled cfg then Inl (BadRequestException ''TAHESAB_DISABLED'')
      else case findUser i s of
        None \<Rightarrow> Inl (NotFoundException ''USER_NOT_FOUND'')
      | Some u \<Rightarrow>
          (if \<not> truthy (us_tahesabCustomerCode u) then Inl (BadRequestException ''TAHESAB_CUSTOMER_CODE_REQUIRED'')
           else bindE (enqueue ''DoEditMoshtari'' (resyncPayload (groupOf u s) u)
                  (Some (resyncCorrelation showTime (db_now s) u)) s) (\<lambda>_ s.
                Inr (True, s))))"

datatype GroupResyncMode = ONLY_LINKED | ALL

record resyncGroupDto =
  rs_mode :: GroupResyncMode
  rs_userIds :: "id list option"

definition resyncRound :: "(time \<Rightarrow> string) \<Rightarrow> customerGroup \<Rightarrow> user \<Rightarrow> nat \<Rightarrow> db \<Rightarrow> nat tx" where
  "resyncRound showTime grp u queued s =
     (if \<not> truthy (us_tahesabCustomerCode u) then Inr (queued, s)
      else bindE (enqueue ''DoEditMoshtari'' (resyncPayload (Some grp) u) (Some (resyncCorrelation showTime (db_now s) u)) s)
             (\<lambda>_ s. Inr (queued + 1, s)))"

definition resyncSelects :: "resyncGroupDto \<Rightarrow> id \<Rightarrow> user \<Rightarrow> bool" where
  "resyncSelects dto groupId u \<longleftrightarrow>
     us_customerGroupId u = Some groupId \<and>
     (case rs_userIds dto of None \<Rightarrow> True | Some ids \<Rightarrow> ids = [] \<or> us_id u \<in> set ids) \<and>
     (rs_mode dto = ONLY_LINKED \<longrightarrow> us_tahesabCustomerCode u \<noteq> None)"

definition resyncGroupUsers :: "tahesabConfig \<Rightarrow> (time \<Rightarrow> string) \<Rightarrow> id \<Rightarrow> resyncGroupDto \<Rightarrow> db \<Rightarrow> nat tx" where
  "resyncGroupUsers cfg showTime groupId dto s =
     (if \<not> isEnabled cfg then Inl (BadRequestException ''TAHESAB_DISABLED'')
      else case findGroup groupId s of
        None \<Rightarrow> Inl (NotFoundException ''GROUP_NOT_FOUND'')
      | Some grp \<Rightarrow> foldE (findMany (resyncSelects dto groupId) (users s)) (resyncRound showTime grp) 0 s)"

section \<open>Lemmas\<close>

lemma axiosMessage_nonempty: "axiosMessage e \<noteq> []"
  by (simp add: axiosMessage_def truthy_def split: option.split)

text \<open>The headers of a call: no two have one name, and what is given for the call wins.\<close>

lemma spread_keys: "distinct (map fst hs) \<Longrightarrow> distinct (map fst (spread hs add))"
proof (induction hs add rule: spread.induct)
  case (2 hs k v rest)
  have "map fst (map (\<lambda>h. if fst h = k then (k, v) else h) hs) = map fst hs" by (induction hs) simp_all
  then have "distinct (map fst (if k \<in> fst ` set hs then map (\<lambda>h. if fst h = k then (k, v) else h) hs else hs @ [(k, v)]))"
    using 2(2) by (cases "k \<in> fst ` set hs") (simp_all only: if_True if_False, simp)
  then show ?case unfolding spread.simps by (rule 2(1))
qed simp

lemma map_of_replaced:
  "map_of (map (\<lambda>h. if fst h = k then (k, v) else h) hs) x = (if x = k \<and> k \<in> fst ` set hs then Some v else map_of hs x)"
proof (induction hs)
  case (Cons h hs)
  then show ?case by (cases h) force
qed simp

lemma spread_one:
  "map_of (if k \<in> fst ` set hs then map (\<lambda>h. if fst h = k then (k, v) else h) hs else hs @ [(k, v)]) x =
     (if x = k then Some v else map_of hs x)"
proof (cases "k \<in> fst ` set hs")
  case True
  then show ?thesis by (simp only: if_True map_of_replaced simp_thms)
next
  case False
  then have "map_of hs k = None" by (simp add: map_of_eq_None_iff)
  with False show ?thesis by (simp add: map_add_def split: option.split)
qed

lemma spread_lookup: "map_of (spread hs add) x = orElse (map_of (rev add) x) (map_of hs x)"
proof (induction hs add rule: spread.induct)
  case (2 hs k v rest)
  have "map_of (spread hs ((k, v) # rest)) x = orElse (map_of (rev rest) x) (if x = k then Some v else map_of hs x)"
    unfolding spread.simps 2 spread_one by (rule refl)
  then show ?case by (simp add: map_add_def orElse_def split: option.split)
qed simp

lemma buildHeaders_keys: "distinct (map fst (buildHeaders cl extra))"
  unfolding buildHeaders_def by (rule spread_keys) simp

text \<open>The row that resyncs a user of a group.\<close>

definition resyncRow :: "(time \<Rightarrow> string) \<Rightarrow> db \<Rightarrow> customerGroup \<Rightarrow> nat \<times> user \<Rightarrow> tahesabOutbox" where
  "resyncRow showTime s grp = (\<lambda>(j, u).
     \<lparr>ob_id = db_gen s j, ob_createdAt = db_now s, ob_method = ''DoEditMoshtari'', ob_payload = resyncPayload (Some grp) u,
      ob_status = TahesabOutboxStatus.PENDING, ob_retryCount = 0, ob_lastError = None, ob_nextRetryAt = db_now s,
      ob_correlationId = Some (resyncCorrelation showTime (db_now s) u), ob_tahesabFactorCode = None\<rparr>)"

definition isLinked :: "user \<Rightarrow> bool" where
  "isLinked u \<longleftrightarrow> truthy (us_tahesabCustomerCode u)"

lemma resync_round:
  "resyncRound showTime grp u q s =
     (if isLinked u
      then Inr (q + 1, s\<lparr>db_seq := Suc (db_seq s), tahesabOutboxes := tahesabOutboxes s @ [resyncRow showTime s grp (db_seq s, u)]\<rparr>)
      else Inr (q, s))"
  by (simp add: resyncRound_def isLinked_def enqueue_def bumpId_def freshId_def resyncRow_def)

lemma resync_rounds:
  "foldE us (resyncRound showTime grp) q s =
     Inr (q + length (filter isLinked us),
          s\<lparr>db_seq := db_seq s + length (filter isLinked us),
            tahesabOutboxes := tahesabOutboxes s @ map (resyncRow showTime s grp) (enumerate (db_seq s) (filter isLinked us))\<rparr>)"
proof (induction us arbitrary: q s)
  case (Cons u us)
  have row: "resyncRow showTime (s\<lparr>db_seq := m, tahesabOutboxes := rows\<rparr>) grp = resyncRow showTime s grp" for m rows
    by (simp add: resyncRow_def)
  show ?case
    by (cases "isLinked u") (simp_all add: resync_round [of showTime grp u] Cons.IH row)
qed simp

lemma selected_linked:
  "findMany (\<lambda>u. resyncSelects dto g u \<and> isLinked u) us =
     findMany (\<lambda>u. us_customerGroupId u = Some g \<and> isLinked u \<and>
       (case rs_userIds dto of None \<Rightarrow> True | Some ids \<Rightarrow> ids = [] \<or> us_id u \<in> set ids)) us"
  by (rule filter_cong) (auto simp: resyncSelects_def isLinked_def truthy_def split: option.splits)

lemma resync_request:
  "isLinked u \<Longrightarrow> dispatch (httpTahesabClient cl refused) t ''DoEditMoshtari'' (resyncPayload grp u) =
     sendRequest cl refused (''DoEditMoshtari'', map Text
       [the (us_tahesabCustomerCode u), us_fullName u, groupNameOf grp, us_mobile u, [], [], [], [], [], []])"
  by (auto simp: dispatch_def dispatchSimple_def httpTahesabClient_def resyncPayload_def updateCustomer_def editMoshtariOf_def
      optText_def optCode_def isLinked_def truthy_def withDefault_def split: option.split)

section \<open>Properties\<close>

text \<open>
  A call answers what Tahesab answers, and fails exactly when it does: with the status of Tahesab's answer, or
  500 when there was none, and with a message that is never empty, and the exception filter passes both on to the
  client. No header is sent twice, one given for the call wins over the service's own, and the token, when there
  is one, goes along as a bearer.
\<close>

theorem tahesab_failures_answered:
  "(case th_post cl request (buildHeaders cl extra) of
      Inr data \<Rightarrow> callTahesab cl extra request = Inr data
    | Inl e \<Rightarrow> (\<exists>exc. callTahesab cl extra request = Inl exc \<and>
        fl_status (catchException req now exc) = withDefault (ax_status e) 500 \<and>
        fl_message (catchException req now exc) = axiosMessage e \<and> axiosMessage e \<noteq> [] \<and>
        fl_details (catchException req now exc) = None)) \<and>
   distinct (map fst (buildHeaders cl extra)) \<and>
   map_of (buildHeaders cl extra) k = orElse (map_of (rev extra) k) (map_of (buildHeaders cl []) k) \<and>
   map_of (buildHeaders cl []) ''Authorization'' =
     Some (case th_token cl of None \<Rightarrow> None | Some tok \<Rightarrow> if tok = [] then None else Some (''Bearer '' @ tok))"
proof (intro conjI)
  show "case th_post cl request (buildHeaders cl extra) of
      Inr data \<Rightarrow> callTahesab cl extra request = Inr data
    | Inl e \<Rightarrow> (\<exists>exc. callTahesab cl extra request = Inl exc \<and>
        fl_status (catchException req now exc) = withDefault (ax_status e) 500 \<and>
        fl_message (catchException req now exc) = axiosMessage e \<and> axiosMessage e \<noteq> [] \<and>
        fl_details (catchException req now exc) = None)"
    by (simp add: callTahesab_def catchException_def mapHttpException_def extractCustomHttpException_def extractMessage_def
        extractValidationDetails_def axiosMessage_nonempty split: sum.split)
qed (rule buildHeaders_keys, simp_all add: buildHeaders_def spread_lookup truthy_def split: option.split)

text \<open>
  The resync of a group queues one request for each of its users that is linked to Tahesab, of those asked for
  when some are, in the order of the table, and writes nothing else; both modes do the same. Each request, once it
  is taken up, sends the customer's code, name, group and mobile to Tahesab, and leaves the other fields empty.
\<close>

theorem group_resync_exact:
  assumes "resyncGroupUsers cfg showTime g dto s = Inr (n, t)"
    and "linked = findMany (\<lambda>u. us_customerGroupId u = Some g \<and> isLinked u \<and>
      (case rs_userIds dto of None \<Rightarrow> True | Some ids \<Rightarrow> ids = [] \<or> us_id u \<in> set ids)) (users s)"
  shows "\<exists>grp. findGroup g s = Some grp \<and> n = length linked \<and>
      t = s\<lparr>db_seq := db_seq s + n, tahesabOutboxes := tahesabOutboxes s @ map (resyncRow showTime s grp) (enumerate (db_seq s) linked)\<rparr> \<and>
      resyncGroupUsers cfg showTime g (dto\<lparr>rs_mode := mode\<rparr>) s = Inr (n, t) \<and>
      (\<forall>u\<in>set linked. \<forall>j. let row = resyncRow showTime s grp (j, u)
        in dispatch (httpTahesabClient cl refused) t (ob_method row) (ob_payload row) =
           sendRequest cl refused (''DoEditMoshtari'', map Text
             [the (us_tahesabCustomerCode u), us_fullName u, groupNameOf (Some grp), us_mobile u, [], [], [], [], [], []]))"
proof -
  obtain grp where grp: "findGroup g s = Some grp" "isEnabled cfg"
    using assms(1) by (auto simp: resyncGroupUsers_def split: if_splits option.splits)
  have rows: "resyncGroupUsers cfg showTime g (dto\<lparr>rs_mode := m\<rparr>) s =
      Inr (length linked, s\<lparr>db_seq := db_seq s + length linked,
        tahesabOutboxes := tahesabOutboxes s @ map (resyncRow showTime s grp) (enumerate (db_seq s) linked)\<rparr>)" for m
    using grp assms(2) by (simp add: resyncGroupUsers_def resync_rounds selected_linked)
  have "dto = dto\<lparr>rs_mode := rs_mode dto\<rparr>" by simp
  with rows [of "rs_mode dto"] assms(1) have nt: "n = length linked" "t = s\<lparr>db_seq := db_seq s + length linked,
        tahesabOutboxes := tahesabOutboxes s @ map (resyncRow showTime s grp) (enumerate (db_seq s) linked)\<rparr>"
    by simp_all
  have sent: "dispatch (httpTahesabClient cl refused) t ''DoEditMoshtari'' (resyncPayload (Some grp) u) =
      sendRequest cl refused (''DoEditMoshtari'', map Text
        [the (us_tahesabCustomerCode u), us_fullName u, groupNameOf (Some grp), us_mobile u, [], [], [], [], [], []])"
    if "u \<in> set linked" for u
    using that assms(2) by (intro resync_request) auto
  show ?thesis
    using grp rows [of mode] nt sent by (intro exI [of _ grp]) (simp add: resyncRow_def Let_def)
qed

text \<open>A group of three users, two of which are linked.\<close>

definition linkedUser :: "id \<Rightarrow> string option \<Rightarrow> user" where
  "linkedUser i code = \<lparr>us_id = i, us_fullName = ''User '' @ i, us_mobile = i, us_email = i, us_role = UserRole.CLIENT,
     us_status = UserStatus.ACTIVE, us_tahesabCustomerCode = code, us_customerGroupId = Some ''g'', us_password = [],
     us_createdAt = 0, us_updatedAt = 0\<rparr>"

definition vipGroup :: customerGroup where
  "vipGroup = \<lparr>cg_id = ''g'', cg_code = ''vip'', cg_name = ''VIP'', cg_tahesabGroupName = None, cg_isDefault = False\<rparr>"

definition resyncDb :: db where
  "resyncDb = emptyDb\<lparr>users := [linkedUser ''a'' (Some ''101''), linkedUser ''b'' None, linkedUser ''c'' (Some ''103'')],
     customerGroups := [vipGroup]\<rparr>"

definition onTahesab :: tahesabConfig where
  "onTahesab = quietTahesab\<lparr>tc_get := (\<lambda>_. None)\<rparr>"

lemma group_resync_exact_witness:
  "\<exists>t. resyncGroupUsers onTahesab (\<lambda>_. ''now'') ''g'' \<lparr>rs_mode = GroupResyncMode.ALL, rs_userIds = None\<rparr> resyncDb = Inr (2, t) \<and>
     map ob_payload (tahesabOutboxes t) =
       [resyncPayload (Some vipGroup) (linkedUser ''a'' (Some ''101'')), resyncPayload (Some vipGroup) (linkedUser ''c'' (Some ''103''))]"
proof -
  have grp: "findGroup ''g'' resyncDb = Some vipGroup" "isEnabled onTahesab"
    by (simp_all add: findGroup_def resyncDb_def vipGroup_def isEnabled_def onTahesab_def)
  have "\<exists>n t. resyncGroupUsers onTahesab (\<lambda>_. ''now'') ''g'' \<lparr>rs_mode = ONLY_LINKED, rs_userIds = None\<rparr> resyncDb = Inr (n, t)"
    by (simp add: resyncGroupUsers_def grp resync_rounds)
  then obtain n t where run:
      "resyncGroupUsers onTahesab (\<lambda>_. ''now'') ''g'' \<lparr>rs_mode = ONLY_LINKED, rs_userIds = None\<rparr> resyncDb = Inr (n, t)"
    by blast
  from group_resync_exact [OF run refl, of GroupResyncMode.ALL] grp show ?thesis
    by (auto simp: resyncDb_def linkedUser_def isLinked_def truthy_def emptyDb_def resyncRow_def)
qed

text \<open>
  An administrator's retry makes a row pending and due, whatever its status was, and keeps its count of
  attempts and its factor code; the next batch takes it up, when no more rows are due than it takes, and settles it.
\<close>

theorem retry_sends_again:
  assumes "distinct (map ob_id (tahesabOutboxes s))" and "retryOutbox i s = Inr (row, t)"
    and "length (findMany (\<lambda>ob. ob_status ob = TahesabOutboxStatus.PENDING \<and> ob_nextRetryAt ob \<le> db_now s) (tahesabOutboxes t)) \<le> limit"
  shows "(\<exists>old\<in>set (tahesabOutboxes s). ob_id old = i \<and> row = old\<lparr>ob_status := TahesabOutboxStatus.PENDING,
            ob_nextRetryAt := db_now s, ob_lastError := None\<rparr>) \<and>
    row \<in> set (pendingBatch limit t) \<and>
    (\<exists>u. db_now u = db_now s \<and> outcomeRow call u row \<in> set (tahesabOutboxes (processBatch call limit t)))"
proof -
  obtain old where old: "findFirst (\<lambda>ob. ob_id ob = i) (tahesabOutboxes s) = Some old" "row = retried (db_now s) old"
      "t = updateOutbox i (retried (db_now s)) s"
    using assms(2) by (auto simp: retryOutbox_def split: option.splits)
  have mem: "old \<in> set (tahesabOutboxes s)" "ob_id old = i" using find_SomeD [OF old(1)] by auto
  have ids: "map ob_id (tahesabOutboxes t) = map ob_id (tahesabOutboxes s)"
    unfolding old(3) updateOutbox_def by simp (rule map_updateRows, simp add: retried_def)
  have row: "row \<in> set (tahesabOutboxes t)"
    using mem by (auto simp: old(2,3) updateOutbox_def set_updateRows)
  have now: "db_now t = db_now s" by (simp add: old(3) updateOutbox_def)
  have batch: "row \<in> set (pendingBatch limit t)"
    using row assms(3) unfolding pendingBatch_def now
    by (simp add: createdOrder.sortBy_set createdOrder.sortBy_key) (simp add: old(2) retried_def)
  moreover have "\<exists>u. db_now u = db_now s \<and> outcomeRow call u row \<in> set (tahesabOutboxes (processBatch call limit t))"
    using batch_rows [of t row limit call] batch row assms(1) ids now by simp
  ultimately show ?thesis using mem old(2) by (auto simp: retried_def)
qed

text \<open>A deletion that succeeded, retried: the next batch sends it again, and here it fails.\<close>

definition doneRow :: tahesabOutbox where
  "doneRow = \<lparr>ob_id = ''o'', ob_createdAt = 0, ob_method = ''DoDeleteSanad'', ob_payload = DeleteSanad ''7'',
     ob_status = TahesabOutboxStatus.SUCCESS, ob_retryCount = 0, ob_lastError = None, ob_nextRetryAt = 0,
     ob_correlationId = None, ob_tahesabFactorCode = Some ''7''\<rparr>"

lemma retry_sends_again_witness:
  "\<exists>row t. retryOutbox ''o'' (emptyDb\<lparr>tahesabOutboxes := [doneRow]\<rparr>) = Inr (row, t) \<and>
     (\<exists>failed\<in>set (tahesabOutboxes (processBatch (\<lambda>_ _ _. Inl ''gone'') 50 t)).
        ob_status failed = TahesabOutboxStatus.FAILED \<and> ob_tahesabFactorCode failed = Some ''7'')"
proof -
  let ?s = "emptyDb\<lparr>tahesabOutboxes := [doneRow]\<rparr>" and ?call = "\<lambda>_ _ _. Inl ''gone''"
  obtain row t where run: "retryOutbox ''o'' ?s = Inr (row, t)" "length (tahesabOutboxes t) = 1"
    "ob_tahesabFactorCode row = Some ''7''" "ob_method row = ''DoDeleteSanad''"
    by (simp add: retryOutbox_def doneRow_def updateOutbox_def retried_def)
  have "length (findMany (\<lambda>ob. ob_status ob = TahesabOutboxStatus.PENDING \<and> ob_nextRetryAt ob \<le> db_now ?s) (tahesabOutboxes t)) \<le> 50"
    by (rule order_trans [OF length_filter_le]) (simp add: run(2))
  from retry_sends_again [OF _ run(1) this, of ?call] obtain u
    where "outcomeRow ?call u row \<in> set (tahesabOutboxes (processBatch ?call 50 t))" by auto
  moreover have "ob_status (outcomeRow ?call u row) = TahesabOutboxStatus.FAILED"
    "ob_tahesabFactorCode (outcomeRow ?call u row) = Some ''7''"
    using run(3,4) by (simp_all add: outcomeRow_def dispatch_def dispatchSimple_def)
  ultimately show ?thesis using run(1) by blast
qed

end
