(* ===== verification/Statement.thy ===== *)
theory Statement
  imports Foundation
begin

text \<open>
  The statement of a user's wallet (\<open>getStatementForUser\<close> of \<open>accounts.service.ts\<close>) and the handlers of
  \<open>accounts.controller.ts\<close> that show it and the accounts, with the setting that hides balances. The order the
  database gives two identifiers is an argument; a sum of money is shown as a number.
\<close>

section \<open>The statement\<close>

record statementFilters =
  fs_from :: "time option"
  fs_to :: "time option"
  fs_instrumentCode :: "string option"
  fs_page :: "rat option"
  fs_limit :: "rat option"

datatype statementSide = CREDIT | DEBIT | NONE

record statementRow =
  sr_id :: id
  sr_createdAt :: time
  sr_refType :: TxRefType
  sr_refId :: "id option"
  sr_type :: string
  sr_instrumentCode :: string
  sr_side :: statementSide
  sr_amountMoney :: "decimal option"
  sr_amountWeight :: "decimal option"
  sr_note :: "string option"
  sr_balancesHidden :: bool

definition withInstrument :: "account list \<Rightarrow> db \<Rightarrow> (account \<times> instrument) list" where
  "withInstrument as s =
     List.map_filter (\<lambda>a. map_option (Pair a) (findFirst (\<lambda>i. in_id i = ac_instrumentId a) (instruments s))) as"

definition resolveAccountsForStatement :: "id \<Rightarrow> statementFilters \<Rightarrow> db \<Rightarrow> err + (account \<times> instrument) list" where
  "resolveAccountsForStatement userId filters s =
     (if truthy (fs_instrumentCode filters)
      then let code = the (fs_instrumentCode filters)
           in case findInstrument code s of
                None \<Rightarrow> Inl (NotFoundException (''Instrument '' @ code @ '' not found''))
              | Some instrument \<Rightarrow>
                  (case findAccountOf userId (in_id instrument) s of
                     None \<Rightarrow> Inr []
                   | Some account \<Rightarrow> Inr (withInstrument [account] s))
      else Inr (findMany (\<lambda>ai. in_code (snd ai) = IRR_INSTRUMENT_CODE \<or> in_type (snd ai) = InstrumentType.GOLD)
             (accountsWithInstrument userId s)))"

definition inStatement :: "statementFilters \<Rightarrow> accountTx \<Rightarrow> bool" where
  "inStatement filters t \<longleftrightarrow>
     (case fs_from filters of None \<Rightarrow> True | Some x \<Rightarrow> x \<le> tx_createdAt t) \<and>
     (case fs_to filters of None \<Rightarrow> True | Some x \<Rightarrow> tx_createdAt t \<le> x)"

definition compareEntries :: "(id \<Rightarrow> id \<Rightarrow> int) \<Rightarrow> accountTx \<Rightarrow> accountTx \<Rightarrow> int" where
  "compareEntries collate a b =
     (if tx_createdAt a \<noteq> tx_createdAt b then tx_createdAt a - tx_createdAt b else collate (tx_id a) (tx_id b))"

fun showRefType :: "TxRefType \<Rightarrow> string" where
  "showRefType TxRefType.TRADE = ''TRADE''" | "showRefType TxRefType.DEPOSIT = ''DEPOSIT''"
| "showRefType TxRefType.WITHDRAW = ''WITHDRAW''" | "showRefType TxRefType.WITHDRAW_ALLOCATION = ''WITHDRAW_ALLOCATION''"
| "showRefType TxRefType.ADJUSTMENT = ''ADJUSTMENT''" | "showRefType TxRefType.GOLD_LOT = ''GOLD_LOT''"
| "showRefType TxRefType.REMITTANCE = ''REMITTANCE''"
| "showRefType TxRefType.PHYSICAL_CUSTODY_MOVEMENT = ''PHYSICAL_CUSTODY_MOVEMENT''"

text \<open>
  The type and the note of an entry: those of the document it refers to, where that is found. An instrument of a
  trade exists by its foreign key.
\<close>

definition describeEntry :: "id \<Rightarrow> db \<Rightarrow> accountTx \<Rightarrow> string \<times> string option" where
  "describeEntry userId s t =
     (let plain = (showRefType (tx_refType t), None)
      in if \<not> truthy (tx_refId t) then plain
         else let i = the (tx_refId t) in
           (case tx_refType t of
              TxRefType.DEPOSIT \<Rightarrow>
                (case findFirst (\<lambda>d. dp_id d = i) (depositRequests s) of
                   None \<Rightarrow> plain | Some deposit \<Rightarrow> (''DEPOSIT'', dp_note deposit))
            | TxRefType.WITHDRAW \<Rightarrow>
                (case findFirst (\<lambda>w. wd_id w = i) (withdrawRequests s) of
                   None \<Rightarrow> plain | Some withdraw \<Rightarrow> (''WITHDRAW'', wd_note withdraw))
            | TxRefType.TRADE \<Rightarrow>
                (case findFirst (\<lambda>x. td_id x = i) (trades s) of
                   None \<Rightarrow> plain
                 | Some trade \<Rightarrow>
                     (if td_side trade = TradeSide.BUY then ''TRADE_BUY'' else ''TRADE_SELL'',
                      orElse (td_clientNote trade)
                        (map_option in_name (findFirst (\<lambda>x. in_id x = td_instrumentId trade) (instruments s)))))
            | TxRefType.REMITTANCE \<Rightarrow>
                (case findFirst (\<lambda>r. rm_id r = i) (remittances s) of
                   None \<Rightarrow> plain
                 | Some remittance \<Rightarrow>
                     (if rm_fromUserId remittance = userId then ''REMITTANCE_OUT'' else ''REMITTANCE_IN'', rm_note remittance))
            | _ \<Rightarrow> plain))"

definition statementEntry :: "id \<Rightarrow> db \<Rightarrow> instrument \<Rightarrow> accountTx \<Rightarrow> statementRow" where
  "statementEntry userId s instrument t =
     (let delta = tx_delta t; amountAbs = \<bar>delta\<bar>; d = describeEntry userId s t
      in \<lparr>sr_id = tx_id t, sr_createdAt = tx_createdAt t, sr_refType = tx_refType t, sr_refId = tx_refId t,
          sr_type = fst d, sr_instrumentCode = in_code instrument,
          sr_side = (if delta = 0 then NONE else if 0 < delta then CREDIT else DEBIT),
          sr_amountMoney = (if in_code instrument = IRR_INSTRUMENT_CODE \<and> delta \<noteq> 0 then Some amountAbs else None),
          sr_amountWeight = (if in_type instrument = InstrumentType.GOLD \<and> delta \<noteq> 0 then Some amountAbs else None),
          sr_note = snd d, sr_balancesHidden = False\<rparr>)"

definition instrumentOfTx :: "(account \<times> instrument) list \<Rightarrow> accountTx \<Rightarrow> instrument option" where
  "instrumentOfTx accs t = map_option snd (findFirst (\<lambda>ai. ac_id (fst ai) = tx_accountId t) accs)"

definition getStatementForUserRaw ::
  "(id \<Rightarrow> id \<Rightarrow> int) \<Rightarrow> id \<Rightarrow> statementFilters \<Rightarrow> db \<Rightarrow> err + statementRow list" where
  "getStatementForUserRaw collate userId filters s =
     (case resolveAccountsForStatement userId filters s of
        Inl e \<Rightarrow> Inl e
      | Inr accs \<Rightarrow>
          (let txs = sortBy (compareEntries collate)
                 (findMany (\<lambda>t. tx_accountId t \<in> ac_id ` fst ` set accs \<and> inStatement filters t) (accountTxs s))
           in Inr (List.map_filter (\<lambda>t. map_option (\<lambda>i. statementEntry userId s i t) (instrumentOfTx accs t)) txs)))"

definition getStatementForUser ::
  "(id \<Rightarrow> id \<Rightarrow> int) \<Rightarrow> id \<Rightarrow> statementFilters \<Rightarrow> db \<Rightarrow> err + statementRow list \<times> pageMeta" where
  "getStatementForUser collate userId filters s =
     (let page = withDefault (fs_page filters) 1; limit = withDefault (fs_limit filters) 20
      in map_sum id (\<lambda>allEntries. wrap (pageOf allEntries page limit) (int (length allEntries)) page limit)
           (getStatementForUserRaw collate userId filters s))"

section \<open>AccountsController\<close>

text \<open>New accounts are at the end of the table, so the newest come first in its reverse.\<close>

definition getAccountsWithInstrument :: "id \<Rightarrow> db \<Rightarrow> (account \<times> instrument) list" where
  "getAccountsWithInstrument userId s = rev (accountsWithInstrument userId s)"

definition listMyAccounts :: "settingsStore \<Rightarrow> id \<Rightarrow> settingsCache \<Rightarrow> db \<Rightarrow> walletAccount list" where
  "listMyAccounts st userId cache s =
     (let hide = (st_showBalances (fst (getEffective st userId cache)) \<noteq> Some True)
      in map (\<lambda>ai. mapWalletAccountDto ai hide) (getAccountsWithInstrument userId s))"

definition listAccountsByUser :: "id \<Rightarrow> db \<Rightarrow> walletAccount list" where
  "listAccountsByUser userId s =
     (let targetUserId = (if userId = ''house'' then HOUSE_USER_ID else userId)
      in map (\<lambda>ai. mapWalletAccountDto ai False) (getAccountsWithInstrument targetUserId s))"

definition hideAmounts :: "statementRow \<Rightarrow> statementRow" where
  "hideAmounts r = r\<lparr>sr_amountMoney := None, sr_amountWeight := None, sr_balancesHidden := True\<rparr>"

definition getMyStatement ::
  "(id \<Rightarrow> id \<Rightarrow> int) \<Rightarrow> settingsStore \<Rightarrow> id \<Rightarrow> statementFilters \<Rightarrow> settingsCache \<Rightarrow> db \<Rightarrow> err + statementRow list \<times> pageMeta" where
  "getMyStatement collate st userId filters cache s =
     (case getStatementForUser collate userId filters s of
        Inl e \<Rightarrow> Inl e
      | Inr entries \<Rightarrow>
          (if st_showBalances (fst (getEffective st userId cache)) \<noteq> Some True
           then Inr (map hideAmounts (fst entries), snd entries) else Inr entries))"

section \<open>Lemmas\<close>

lemma total_map_filter: "total g (List.map_filter f xs) = total (\<lambda>x. case f x of None \<Rightarrow> 0 | Some y \<Rightarrow> g y) xs"
  by (induction xs) (simp_all add: List.map_filter_def split: option.split)

text \<open>What an entry says of the balance.\<close>

definition signedAmount :: "statementRow \<Rightarrow> decimal" where
  "signedAmount r =
     (let amount = withDefault (orElse (sr_amountMoney r) (sr_amountWeight r)) 0
      in case sr_side r of CREDIT \<Rightarrow> amount | DEBIT \<Rightarrow> - amount | NONE \<Rightarrow> 0)"

definition shownInstrument :: "instrument \<Rightarrow> bool" where
  "shownInstrument i \<longleftrightarrow> in_code i = IRR_INSTRUMENT_CODE \<or> in_type i = InstrumentType.GOLD"

lemma statementEntry_amount:
  "signedAmount (statementEntry u s i t) = (if shownInstrument i then tx_delta t else 0)"
  "sr_instrumentCode (statementEntry u s i t) = in_code i"
  by (auto simp: signedAmount_def statementEntry_def shownInstrument_def orElse_def withDefault_def Let_def)

lemma find_by_key: "distinct (map k t) \<Longrightarrow> r \<in> set t \<Longrightarrow> findFirst (\<lambda>x. k x = k r) t = Some r"
  by (induction t) (auto simp: image_iff)

lemma map_filter_member: "y \<in> set (List.map_filter f xs) \<longleftrightarrow> (\<exists>x\<in>set xs. f x = Some y)"
  by (induction xs) (auto simp: List.map_filter_def split: option.splits)

lemma withInstrument_members:
  assumes "distinct (map in_id (instruments s))"
  shows "(a, i) \<in> set (withInstrument as s) \<longleftrightarrow> a \<in> set as \<and> i \<in> set (instruments s) \<and> in_id i = ac_instrumentId a"
proof -
  have "findFirst (\<lambda>j. in_id j = ac_instrumentId a) (instruments s) = Some i \<longleftrightarrow>
      i \<in> set (instruments s) \<and> in_id i = ac_instrumentId a"
    using find_by_key [OF assms, of i] find_SomeD [of _ "instruments s" i] by auto
  then show ?thesis
    by (auto simp: withInstrument_def map_filter_member)
qed

lemma accountsWithInstrument_members:
  "distinct (map in_id (instruments s)) \<Longrightarrow> (a, i) \<in> set (accountsWithInstrument u s) \<longleftrightarrow>
     a \<in> set (accounts s) \<and> ac_userId a = u \<and> i \<in> set (instruments s) \<and> in_id i = ac_instrumentId a"
  using withInstrument_members [of s a i "findMany (\<lambda>a. ac_userId a = u) (accounts s)"]
  by (auto simp: accountsWithInstrument_def withInstrument_def)

text \<open>The accounts of a statement are the user's with their instruments, and hold the one looked for.\<close>

lemma resolved_accounts:
  assumes ids: "distinct (map in_id (instruments s))" and codes: "distinct (map in_code (instruments s))"
    and ok: "ledger_ok s" and r: "resolveAccountsForStatement u f s = Inr accs"
  shows "(b, j) \<in> set accs \<Longrightarrow> b \<in> set (accounts s) \<and> ac_userId b = u \<and> j \<in> set (instruments s) \<and> in_id j = ac_instrumentId b"
    and "a \<in> set (accounts s) \<Longrightarrow> ac_userId a = u \<Longrightarrow> i \<in> set (instruments s) \<Longrightarrow> in_id i = ac_instrumentId a \<Longrightarrow>
      shownInstrument i \<Longrightarrow> fs_instrumentCode f = None \<or> fs_instrumentCode f = Some (in_code i) \<Longrightarrow> (a, i) \<in> set accs"
proof -
  show "b \<in> set (accounts s) \<and> ac_userId b = u \<and> j \<in> set (instruments s) \<and> in_id j = ac_instrumentId b"
    if "(b, j) \<in> set accs"
    using that r accountsWithInstrument_members [OF ids] withInstrument_members [OF ids]
    by (auto simp: resolveAccountsForStatement_def findAccountOf_def Let_def split: if_splits option.splits dest!: find_SomeD)
  show "(a, i) \<in> set accs"
    if a: "a \<in> set (accounts s)" "ac_userId a = u" "i \<in> set (instruments s)" "in_id i = ac_instrumentId a"
      and c: "shownInstrument i" "fs_instrumentCode f = None \<or> fs_instrumentCode f = Some (in_code i)"
  proof (cases "truthy (fs_instrumentCode f)")
    case True
    with c have code: "the (fs_instrumentCode f) = in_code i" by (auto simp: truthy_def)
    have "findInstrument (in_code i) s = Some i"
      unfolding findInstrument_def using codes a(3) by (rule find_by_key)
    moreover have "findAccountOf u (in_id i) s = Some a"
      using find_by_key [OF ledger_okD(3) [OF ok] a(1)] a(2,4) by (simp add: findAccountOf_def acctKey_def)
    ultimately show ?thesis
      using True code r a withInstrument_members [OF ids, of a i "[a]"] by (simp add: resolveAccountsForStatement_def)
  next
    case False
    with r c(1) a accountsWithInstrument_members [OF ids] show ?thesis
      by (auto simp: resolveAccountsForStatement_def shownInstrument_def)
  qed
qed

text \<open>The entries of one instrument add up to the postings of its account.\<close>

lemma statement_total:
  assumes ids: "distinct (map in_id (instruments s))" and codes: "distinct (map in_code (instruments s))"
    and ok: "ledger_ok s" and rows: "getStatementForUserRaw collate u f s = Inr rows"
    and a: "a \<in> set (accounts s)" "ac_userId a = u" "i \<in> set (instruments s)" "in_id i = ac_instrumentId a"
    and c: "shownInstrument i" "fs_instrumentCode f = None \<or> fs_instrumentCode f = Some (in_code i)"
  shows "total (\<lambda>r. if sr_instrumentCode r = in_code i then signedAmount r else 0) rows =
    total (\<lambda>t. if tx_accountId t = ac_id a \<and> inStatement f t then tx_delta t else 0) (accountTxs s)"
proof -
  obtain accs where r: "resolveAccountsForStatement u f s = Inr accs"
    using rows by (auto simp: getStatementForUserRaw_def split: sum.splits)
  note member = resolved_accounts(1) [OF ids codes ok r] and ai = resolved_accounts(2) [OF ids codes ok r a c]
  have same: "b = a" if "(b, j) \<in> set accs" "in_code j = in_code i" for b j
  proof -
    have "j = i" using member [OF that(1)] that(2) a(3) codes by (metis distinct_map inj_onD)
    then have "acctKey b = acctKey a" using member [OF that(1)] a(2,4) by (simp add: acctKey_def)
    then show ?thesis using member [OF that(1)] a(1) ledger_okD(3) [OF ok] by (metis distinct_map inj_onD)
  qed
  have pick: "(if tx_accountId t \<in> ac_id ` fst ` set accs \<and> inStatement f t
      then case instrumentOfTx accs t of None \<Rightarrow> 0
           | Some j \<Rightarrow> if in_code j = in_code i then signedAmount (statementEntry u s j t) else 0 else 0) =
      (if tx_accountId t = ac_id a \<and> inStatement f t then tx_delta t else 0)" for t
  proof (cases "instrumentOfTx accs t")
    case None
    then have "tx_accountId t \<noteq> ac_id b" if "(b, j) \<in> set accs" for b j
      using find_NoneD [of "\<lambda>ai. ac_id (fst ai) = tx_accountId t" accs "(b, j)"] that by (auto simp: instrumentOfTx_def)
    with None ai show ?thesis by force
  next
    case (Some j)
    then obtain b where b: "(b, j) \<in> set accs" "ac_id b = tx_accountId t"
      by (auto simp: instrumentOfTx_def dest!: find_SomeD)
    have "in_code j = in_code i \<longleftrightarrow> tx_accountId t = ac_id a"
    proof
      assume "tx_accountId t = ac_id a"
      then have "b = a" using b(2) member [OF b(1)] a(1) ledger_okD(1) [OF ok] by (metis distinct_map inj_onD keys_ok_distinct)
      then have "in_id j = in_id i" using member [OF b(1)] a(4) by simp
      then show "in_code j = in_code i" using member [OF b(1)] a(3) ids by (metis distinct_map inj_onD)
    qed (use same [OF b(1)] b(2) in simp)
    moreover have "j = i" if "in_code j = in_code i"
      using that member [OF b(1)] a(3) codes by (metis distinct_map inj_onD)
    moreover have "tx_accountId t \<in> ac_id ` fst ` set accs" using b by force
    ultimately show ?thesis using Some c(1) by (auto simp: statementEntry_amount)
  qed
  have "total (\<lambda>r. if sr_instrumentCode r = in_code i then signedAmount r else 0) rows =
      total (\<lambda>t. case instrumentOfTx accs t of None \<Rightarrow> 0
           | Some j \<Rightarrow> if in_code j = in_code i then signedAmount (statementEntry u s j t) else 0)
        (findMany (\<lambda>t. tx_accountId t \<in> ac_id ` fst ` set accs \<and> inStatement f t) (accountTxs s))"
    using rows r
    by (auto simp: getStatementForUserRaw_def total_map_filter statementEntry_amount(2) option.case_eq_if
        intro!: trans [OF total_cong total_mset [OF sortBy_rows(1)]])
  also have "\<dots> = total (\<lambda>t. if tx_accountId t = ac_id a \<and> inStatement f t then tx_delta t else 0) (accountTxs s)"
    unfolding total_filter pick ..
  finally show ?thesis .
qed

section \<open>What a user who hides his balances is told\<close>

text \<open>A database without its sums: the balances are gone, and of a posting only the sign is left.\<close>

definition eraseAccount :: "account \<Rightarrow> account" where
  "eraseAccount a = a\<lparr>ac_balance := 0, ac_blockedBalance := 0, ac_minBalance := 0\<rparr>"

definition eraseTx :: "accountTx \<Rightarrow> accountTx" where
  "eraseTx t = t\<lparr>tx_delta := sgn (tx_delta t)\<rparr>"

definition eraseAmounts :: "db \<Rightarrow> db" where
  "eraseAmounts s = s\<lparr>accounts := map eraseAccount (accounts s), accountTxs := map eraseTx (accountTxs s)\<rparr>"

lemma erase_simps [simp]:
  "ac_id (eraseAccount a) = ac_id a" "ac_userId (eraseAccount a) = ac_userId a"
  "ac_instrumentId (eraseAccount a) = ac_instrumentId a" "tx_accountId (eraseTx t) = tx_accountId t"
  "inStatement f (eraseTx t) = inStatement f t" "compareEntries c (eraseTx t) (eraseTx t') = compareEntries c t t'"
  "accounts (eraseAmounts s) = map eraseAccount (accounts s)" "accountTxs (eraseAmounts s) = map eraseTx (accountTxs s)"
  "instruments (eraseAmounts s) = instruments s" "findInstrument code (eraseAmounts s) = findInstrument code s"
  by (simp_all add: eraseAccount_def eraseTx_def eraseAmounts_def inStatement_def compareEntries_def findInstrument_def
      cong: option.case_cong)

lemma sortBy_map: "(\<And>a b. cmp (f a) (f b) = cmp a b) \<Longrightarrow> sortBy cmp (map f xs) = map f (sortBy cmp xs)"
proof -
  assume cmp: "\<And>a b. cmp (f a) (f b) = cmp a b"
  have "insertBy cmp (f x) (map f ys) = map f (insertBy cmp x ys)" for x ys by (induction ys) (simp_all add: cmp)
  then show ?thesis unfolding sortBy_def by (induction xs) simp_all
qed

lemma find_map: "findFirst p (map f xs) = map_option f (findFirst (\<lambda>x. p (f x)) xs)"
  by (induction xs) simp_all

lemma map_filter_maps:
  "List.map_filter g (map f xs) = List.map_filter (\<lambda>x. g (f x)) xs"
  "map h (List.map_filter k xs') = List.map_filter (\<lambda>x. map_option h (k x)) xs'"
  by (induction xs, simp_all add: List.map_filter_simps split: option.split) (induction xs', simp_all add: List.map_filter_simps split: option.split)

lemma withInstrument_erase:
  "withInstrument (map eraseAccount as) (eraseAmounts s) = map (\<lambda>ai. (eraseAccount (fst ai), snd ai)) (withInstrument as s)"
  by (simp add: withInstrument_def map_filter_maps option.map_comp comp_def)

lemma accountsWithInstrument_erase:
  "accountsWithInstrument u (eraseAmounts s) = map (\<lambda>ai. (eraseAccount (fst ai), snd ai)) (accountsWithInstrument u s)"
  using withInstrument_erase [of "findMany (\<lambda>a. ac_userId a = u) (accounts s)" s]
  by (simp add: withInstrument_def accountsWithInstrument_def filter_map comp_def)

lemma resolveAccounts_erase:
  "resolveAccountsForStatement u f (eraseAmounts s) =
     map_sum id (map (\<lambda>ai. (eraseAccount (fst ai), snd ai))) (resolveAccountsForStatement u f s)"
proof -
  have "findAccountOf u i (eraseAmounts s) = map_option eraseAccount (findAccountOf u i s)" for i
    by (simp add: findAccountOf_def find_map comp_def)
  then show ?thesis
    using withInstrument_erase [of "[a]" s for a, simplified]
    by (simp add: resolveAccountsForStatement_def accountsWithInstrument_erase filter_map comp_def Let_def split: option.split)
qed

lemma hidden_entry: "hideAmounts (statementEntry u (eraseAmounts s) i (eraseTx t)) = hideAmounts (statementEntry u s i t)"
proof -
  have "describeEntry u (eraseAmounts s) (eraseTx t) = describeEntry u s t"
    by (cases "tx_refType t") (simp_all add: describeEntry_def eraseAmounts_def eraseTx_def Let_def cong: option.case_cong)
  then show ?thesis
    by (simp add: statementEntry_def hideAmounts_def Let_def eraseTx_def sgn_if)
qed

lemma hidden_statement:
  "map_sum id (map hideAmounts) (getStatementForUserRaw c u f (eraseAmounts s)) =
     map_sum id (map hideAmounts) (getStatementForUserRaw c u f s)"
proof -
  have "instrumentOfTx (map (\<lambda>ai. (eraseAccount (fst ai), snd ai)) accs) (eraseTx t) = instrumentOfTx accs t" for accs t
    by (simp add: instrumentOfTx_def find_map comp_def option.map_comp)
  then show ?thesis
    by (simp add: getStatementForUserRaw_def resolveAccounts_erase filter_map comp_def image_image sortBy_map map_filter_maps
        option.map_comp hidden_entry split: sum.split)
qed

lemma hidden_page:
  assumes "st_showBalances (fst (getEffective st u cache)) \<noteq> Some True"
  shows "getMyStatement c st u f cache s =
    (let page = withDefault (fs_page f) 1; limit = withDefault (fs_limit f) 20
     in map_sum id (\<lambda>es. wrap (pageOf es page limit) (int (length es)) page limit)
          (map_sum id (map hideAmounts) (getStatementForUserRaw c u f s)))"
  using assms
  by (cases "getStatementForUserRaw c u f s")
    (simp_all add: getMyStatement_def getStatementForUser_def Let_def wrap_def pageOf_def take_map drop_map)

lemma hidden_accounts:
  "map (\<lambda>ai. mapWalletAccountDto ai True) (accountsWithInstrument u (eraseAmounts s)) =
     map (\<lambda>ai. mapWalletAccountDto ai True) (accountsWithInstrument u s)"
  by (simp add: accountsWithInstrument_erase mapWalletAccountDto_def comp_def)

section \<open>Properties\<close>

text \<open>
  C14. The statement of a user adds up: the signed amounts of the entries of the rial or of a gold instrument are the
  postings to his account within the dates asked for, none missing and none twice, and without dates they make up
  its balance, whether the statement is asked for the instrument or for all.
\<close>

theorem statement_reconciles:
  assumes "ledger_ok s" and "distinct (map in_id (instruments s))" and "distinct (map in_code (instruments s))"
    and "a \<in> set (accounts s)" and "i \<in> set (instruments s)" and "in_id i = ac_instrumentId a"
    and "in_code i = IRR_INSTRUMENT_CODE \<or> in_type i = InstrumentType.GOLD"
    and "fs_instrumentCode f = None \<or> fs_instrumentCode f = Some (in_code i)"
    and "getStatementForUserRaw collate (ac_userId a) f s = Inr rows"
  shows "total (\<lambda>r. if sr_instrumentCode r = in_code i then signedAmount r else 0) rows =
      total (\<lambda>t. if tx_accountId t = ac_id a \<and> inStatement f t then tx_delta t else 0) (accountTxs s) \<and>
    (fs_from f = None \<and> fs_to f = None \<longrightarrow>
      total (\<lambda>r. if sr_instrumentCode r = in_code i then signedAmount r else 0) rows = ac_balance a)"
proof -
  have sum: "total (\<lambda>r. if sr_instrumentCode r = in_code i then signedAmount r else 0) rows =
      total (\<lambda>t. if tx_accountId t = ac_id a \<and> inStatement f t then tx_delta t else 0) (accountTxs s)"
    by (rule statement_total [OF assms(2,3,1,9,4) refl assms(5,6) _ assms(8)]) (simp add: shownInstrument_def assms(7))
  have "ac_balance a = posted (ac_id a) s"
    using ledger_okD(8) [OF assms(1,4)] by (simp add: account_ok_def)
  with sum show ?thesis by (simp add: posted_def inStatement_def)
qed

definition wholeStatement :: statementFilters where
  "wholeStatement = \<lparr>fs_from = None, fs_to = None, fs_instrumentCode = None, fs_page = None, fs_limit = None\<rparr>"

lemma ali_statement:
  "\<exists>rows. getStatementForUserRaw (\<lambda>_ _. 0) ''ali'' wholeStatement aliDb = Inr rows \<and> length rows = 1"
  by (simp add: getStatementForUserRaw_def resolveAccountsForStatement_def wholeStatement_def accountsWithInstrument_def
      aliDb_def emptyDb_def aliAccount_def irr_def aliTx_def IRR_INSTRUMENT_CODE_def List.map_filter_simps sortBy_def
      inStatement_def instrumentOfTx_def)

theorem statement_reconciles_witness:
  "\<exists>rows. getStatementForUserRaw (\<lambda>_ _. 0) ''ali'' wholeStatement aliDb = Inr rows \<and>
     total (\<lambda>r. if sr_instrumentCode r = ''IRR'' then signedAmount r else 0) rows = 100"
proof -
  obtain rows where rows: "getStatementForUserRaw (\<lambda>_ _. 0) (ac_userId aliAccount) wholeStatement aliDb = Inr rows"
    using ali_statement by (auto simp: aliAccount_def)
  have "total (\<lambda>r. if sr_instrumentCode r = in_code irr then signedAmount r else 0) rows = ac_balance aliAccount"
    by (rule statement_reconciles [OF aliDb_ok _ _ _ _ _ _ _ rows, THEN conjunct2, THEN mp])
      (simp_all add: aliDb_def irr_def aliAccount_def wholeStatement_def IRR_INSTRUMENT_CODE_def)
  with rows show ?thesis by (auto simp: irr_def aliAccount_def)
qed

text \<open>
  C20. A user who hides his balances is not told them: the list of his accounts, the summary of his wallet and his
  statement are the same on any two databases that differ only in balances and in the size of the postings. Of a
  posting the statement still gives the sign.
\<close>

theorem hidden_balances_not_told:
  assumes "st_showBalances (fst (getEffective st u (rc_settings cache))) \<noteq> Some True"
    and "eraseAmounts s = eraseAmounts t"
  shows "getMyStatement collate st u f (rc_settings cache) s = getMyStatement collate st u f (rc_settings cache) t \<and>
    listMyAccounts st u (rc_settings cache) s = listMyAccounts st u (rc_settings cache) t \<and>
    getWalletSummary st u False cache s = getWalletSummary st u False cache t"
proof (intro conjI)
  show "getMyStatement collate st u f (rc_settings cache) s = getMyStatement collate st u f (rc_settings cache) t"
    unfolding hidden_page [OF assms(1)] using hidden_statement [of collate u f s] hidden_statement [of collate u f t] assms(2)
    by simp
  note same = hidden_accounts [of u s, unfolded assms(2) hidden_accounts]
  show "listMyAccounts st u (rc_settings cache) s = listMyAccounts st u (rc_settings cache) t"
    using assms(1) same by (simp add: listMyAccounts_def getAccountsWithInstrument_def flip: rev_map)
  show "getWalletSummary st u False cache s = getWalletSummary st u False cache t"
    using assms(1) same by (simp add: getWalletSummary_def Let_def)
qed

definition hiding :: settingsStore where
  "hiding = \<lparr>ss_groupOf = Map.empty, ss_groupSettings = Map.empty,
     ss_userSettings = (\<lambda>_. Some (USER_SETTINGS_DEFAULTS\<lparr>st_showBalances := Some False\<rparr>))\<rparr>"

definition richAliDb :: db where
  "richAliDb = aliDb\<lparr>accounts := [aliAccount\<lparr>ac_balance := 900\<rparr>], accountTxs := [aliTx\<lparr>tx_delta := 900\<rparr>]\<rparr>"

theorem hidden_balances_not_told_witness:
  "getMyStatement (\<lambda>_ _. 0) hiding ''ali'' wholeStatement Map.empty aliDb =
     getMyStatement (\<lambda>_ _. 0) hiding ''ali'' wholeStatement Map.empty richAliDb \<and>
   getWalletSummary hiding ''ali'' False emptyCache aliDb = getWalletSummary hiding ''ali'' False emptyCache richAliDb"
proof -
  have "st_showBalances (fst (getEffective hiding ''ali'' (rc_settings emptyCache))) \<noteq> Some True"
    by (simp add: getEffective_def getEffectiveWithSources_def effectiveOf_def hiding_def emptyCache_def Let_def truthy_def)
  moreover have "eraseAmounts aliDb = eraseAmounts richAliDb"
    by (simp add: eraseAmounts_def richAliDb_def aliDb_def eraseAccount_def eraseTx_def aliTx_def aliAccount_def)
  ultimately have "getMyStatement (\<lambda>_ _. 0) hiding ''ali'' wholeStatement (rc_settings emptyCache) aliDb =
      getMyStatement (\<lambda>_ _. 0) hiding ''ali'' wholeStatement (rc_settings emptyCache) richAliDb \<and>
    getWalletSummary hiding ''ali'' False emptyCache aliDb = getWalletSummary hiding ''ali'' False emptyCache richAliDb"
    using hidden_balances_not_told by blast
  then show ?thesis by (simp add: emptyCache_def)
qed

end
