(* ===== verification/FileStore.thy ===== *)
theory FileStore
  imports Users Http
begin

text \<open>
  The bytes behind the rows of \<open>Files\<close>: uploads, downloads, links and deletions of \<open>files.service.ts\<close>, the
  handlers of \<open>files.controller.ts\<close> and \<open>admin-files.controller.ts\<close>, the upload filter and the storage on the
  local disk (\<open>storage/local.storage.ts\<close>). A storage provider is a record of functions, as the interface
  \<open>storage.provider.ts\<close> has it; the one of the object store S3 is a parameter. The calendar, the parsing of a
  number and \<open>encodeURIComponent\<close> are arguments.
\<close>

section \<open>Storage providers\<close>

type_synonym bytes = string

text \<open>
  What a provider may throw: an exception of the framework, or an error with a name and a message. Of a failed
  presign only the name and the message matter.
\<close>

datatype storageError = HttpError err | NamedError "string option" "string option"

datatype disposition = INLINE | ATTACHMENT

record presignRequest =
  ps_key :: string
  ps_expiresInSeconds :: rat
  ps_fileName :: string
  ps_contentType :: string
  ps_disposition :: disposition

record 'st storageProvider =
  sp_putObject :: "string \<Rightarrow> bytes \<Rightarrow> 'st \<Rightarrow> storageError + 'st"
  sp_getObjectStream :: "string \<Rightarrow> 'st \<Rightarrow> storageError + (bytes \<times> nat option)"
  sp_deleteObject :: "(string \<Rightarrow> 'st \<Rightarrow> storageError + 'st) option"
  sp_getPresignedGetUrl :: "(presignRequest \<Rightarrow> (string option \<times> string option) + string) option"

section \<open>Paths\<close>

fun splitOn :: "char \<Rightarrow> string \<Rightarrow> string list" where
  "splitOn d [] = [[]]"
| "splitOn d (c # s) =
     (if c = d then [] # splitOn d s
      else case splitOn d s of [] \<Rightarrow> [[c]] | x # xs \<Rightarrow> (c # x) # xs)"

text \<open>
  \<open>path.normalize\<close> on the segments of a path: empty ones and dots go, two dots take the segment before
  with them; above the root of an absolute path there is nothing.
\<close>

fun normalizeSegments :: "bool \<Rightarrow> string list \<Rightarrow> string list \<Rightarrow> string list" where
  "normalizeSegments absolute acc [] = rev acc"
| "normalizeSegments absolute acc (x # xs) =
     (if x = [] \<or> x = ''.'' then normalizeSegments absolute acc xs
      else if x = ''..'' then
        (case acc of
           [] \<Rightarrow> normalizeSegments absolute (if absolute then [] else [x]) xs
         | y # ys \<Rightarrow> normalizeSegments absolute (if y = ''..'' then x # acc else ys) xs)
      else normalizeSegments absolute (x # acc) xs)"

definition pathJoin :: "string list \<Rightarrow> bool \<times> string list" where
  "pathJoin parts =
     (let given = filter (\<lambda>p. p \<noteq> []) parts; absolute = (case given of [] \<Rightarrow> False | p # _ \<Rightarrow> startsWith p ''/'')
      in (absolute, normalizeSegments absolute [] (concat (map (splitOn (CHR ''/'')) given))))"

section \<open>LocalStorageProvider\<close>

text \<open>The file system: the content of the files, by path.\<close>

type_synonym fileSystem = "bool \<times> string list \<rightharpoonup> bytes"

definition getAbsolutePath :: "string \<Rightarrow> string \<Rightarrow> bool \<times> string list" where
  "getAbsolutePath uploadRoot key = pathJoin [uploadRoot, key]"

definition localPutObject :: "string \<Rightarrow> string \<Rightarrow> bytes \<Rightarrow> fileSystem \<Rightarrow> storageError + fileSystem" where
  "localPutObject uploadRoot key body fs = Inr (fs(getAbsolutePath uploadRoot key \<mapsto> body))"

definition localGetObjectStream :: "string \<Rightarrow> string \<Rightarrow> fileSystem \<Rightarrow> storageError + (bytes \<times> nat option)" where
  "localGetObjectStream uploadRoot key fs =
     (case fs (getAbsolutePath uploadRoot key) of
        None \<Rightarrow> Inl (HttpError (NotFoundException ''FILE_NOT_FOUND''))
      | Some content \<Rightarrow> Inr (content, Some (length content)))"

definition localDeleteObject :: "string \<Rightarrow> string \<Rightarrow> fileSystem \<Rightarrow> storageError + fileSystem" where
  "localDeleteObject uploadRoot key fs = Inr (fs(getAbsolutePath uploadRoot key := None))"

definition localStorage :: "string \<Rightarrow> fileSystem storageProvider" where
  "localStorage uploadRoot =
     \<lparr>sp_putObject = localPutObject uploadRoot, sp_getObjectStream = localGetObjectStream uploadRoot,
      sp_deleteObject = Some (localDeleteObject uploadRoot),
      sp_getPresignedGetUrl = Some (\<lambda>_. Inl (Some ''NotImplementedException'',
        Some ''Presigned URLs are not supported for local storage''))\<rparr>"

section \<open>The upload filter\<close>

record uploadOptions =
  uo_fileSize :: rat
  uo_allowed :: "string list"

definition buildOptions :: "(string \<Rightarrow> rat option) \<Rightarrow> string option \<Rightarrow> string option \<Rightarrow> uploadOptions" where
  "buildOptions parseFinite FILE_MAX_SIZE_BYTES FILE_ALLOWED_MIME =
     (let parsedMaxSize = (if truthy FILE_MAX_SIZE_BYTES then parseFinite (the FILE_MAX_SIZE_BYTES) else None);
          allowedRaw = (if truthy FILE_ALLOWED_MIME then the FILE_ALLOWED_MIME else ''image/jpeg,image/png,application/pdf'')
      in \<lparr>uo_fileSize = withDefault parsedMaxSize 5000000,
          uo_allowed = filter (\<lambda>m. m \<noteq> []) (map trim (splitOn (CHR '','') allowedRaw))\<rparr>)"

definition fileFilter :: "uploadOptions \<Rightarrow> string \<Rightarrow> err option" where
  "fileFilter options mimetype =
     (if uo_allowed options \<noteq> [] \<and> mimetype \<notin> set (uo_allowed options)
      then Some (BadRequestException ''MIME type not allowed'') else None)"

section \<open>FilesService: uploads\<close>

record upload =
  ul_originalname :: string
  ul_mimetype :: string
  ul_buffer :: bytes

fun digitChar :: "nat \<Rightarrow> char" where
  "digitChar n = char_of (48 + n mod 10)"

fun showNat :: "nat \<Rightarrow> string" where
  "showNat n = (if n < 10 then [digitChar n] else showNat (n div 10) @ [digitChar n])"

declare showNat.simps [simp del]

definition showInt :: "int \<Rightarrow> string" where
  "showInt n = (if n < 0 then CHR ''-'' # showNat (nat (- n)) else showNat (nat n))"

definition padStart2 :: "string \<Rightarrow> string" where
  "padStart2 s = replicate (2 - length s) (CHR ''0'') @ s"

definition safeChar :: "char \<Rightarrow> bool" where
  "safeChar c = (let n = of_char c :: nat in
     (97 \<le> n \<and> n \<le> 122) \<or> (65 \<le> n \<and> n \<le> 90) \<or> (48 \<le> n \<and> n \<le> 57) \<or> c \<in> {CHR ''_'', CHR ''.'', CHR ''-''})"

definition safeName :: "string \<Rightarrow> string" where
  "safeName originalname = map (\<lambda>c. if safeChar c then c else CHR ''_'') originalname"

text \<open>\<open>calendar\<close> gives the year, the month counted from 0 and the day of a time.\<close>

type_synonym calendar = "time \<Rightarrow> nat \<times> nat \<times> nat"

definition keySegments :: "calendar \<Rightarrow> time \<Rightarrow> string \<Rightarrow> string list" where
  "keySegments cal now originalname =
     (case cal now of (year, month, day) \<Rightarrow>
        [showNat year, padStart2 (showNat (month + 1)), padStart2 (showNat day),
         showInt now @ ''_'' @ safeName originalname])"

definition storageKeyOf :: "calendar \<Rightarrow> time \<Rightarrow> string \<Rightarrow> string" where
  "storageKeyOf cal now originalname = joinWith ''/'' (snd (pathJoin (keySegments cal now originalname)))"

definition newFileRow :: "calendar \<Rightarrow> upload \<Rightarrow> id \<Rightarrow> string option \<Rightarrow> db \<Rightarrow> fileRow" where
  "newFileRow cal file uploadedById label s =
     \<lparr>fi_id = freshId s, fi_uploadedById = uploadedById, fi_storageKey = storageKeyOf cal (db_now s) (ul_originalname file),
      fi_createdAt = db_now s, fi_fileName = ul_originalname file, fi_mimeType = ul_mimetype file,
      fi_sizeBytes = length (ul_buffer file), fi_label = label\<rparr>"

text \<open>An operation answers and leaves a database and a storage, whether it fails or not.\<close>

definition storeFile ::
  "'st storageProvider \<Rightarrow> calendar \<Rightarrow> upload \<Rightarrow> id \<Rightarrow> string option \<Rightarrow> db \<Rightarrow> 'st \<Rightarrow> (storageError + fileRow) \<times> db \<times> 'st" where
  "storeFile sp cal file uploadedById label s st =
     (case sp_putObject sp (storageKeyOf cal (db_now s) (ul_originalname file)) (ul_buffer file) st of
        Inl e \<Rightarrow> (Inl e, s, st)
      | Inr st \<Rightarrow>
          (let row = newFileRow cal file uploadedById label s
           in if uploadedById \<notin> us_id ` set (users s) then (Inl (HttpError (ForeignKeyViolation ''File'')), s, st)
              else (Inr row, (bumpId s)\<lparr>fileRows := fileRows s @ [row]\<rparr>, st)))"

section \<open>FilesService: downloads\<close>

definition notFoundNames :: "string option set" where
  "notFoundNames = {Some ''NoSuchKey'', Some ''NotFound''}"

definition getFileStream :: "'st storageProvider \<Rightarrow> string \<Rightarrow> 'st \<Rightarrow> err + (bytes \<times> nat option)" where
  "getFileStream sp storageKey st =
     (case sp_getObjectStream sp storageKey st of
        Inr r \<Rightarrow> Inr r
      | Inl (HttpError e) \<Rightarrow> Inl e
      | Inl (NamedError name message) \<Rightarrow>
          Inl (if name \<in> notFoundNames then NotFoundException ''FILE_NOT_FOUND''
               else InternalServerErrorException ''FILE_READ_FAILED''))"

record rawResponse =
  rw_contentType :: string
  rw_contentLength :: "nat option"
  rw_contentDisposition :: string
  rw_body :: bytes

definition dispositionName :: "disposition \<Rightarrow> string" where
  "dispositionName d = (case d of INLINE \<Rightarrow> ''inline'' | ATTACHMENT \<Rightarrow> ''attachment'')"

definition serveRaw ::
  "'st storageProvider \<Rightarrow> (string \<Rightarrow> string) \<Rightarrow> id \<Rightarrow> actor \<Rightarrow> string option \<Rightarrow> db \<Rightarrow> 'st \<Rightarrow> err + rawResponse" where
  "serveRaw sp encodeURIComponent i user disposition s st =
     (case getFileAuthorized i user s of
        Inl e \<Rightarrow> Inl e
      | Inr file \<Rightarrow>
          (case getFileStream sp (fi_storageKey file) st of
             Inl e \<Rightarrow> Inl e
           | Inr (stream, contentLength) \<Rightarrow>
               Inr \<lparr>rw_contentType = fi_mimeType file, rw_contentLength = contentLength,
                 rw_contentDisposition = (if disposition = Some ''inline'' then ''inline'' else ''attachment'') @
                   ''; filename='' @ [CHR 34] @ encodeURIComponent (fi_fileName file) @ [CHR 34],
                 rw_body = stream\<rparr>))"

record fileMeta =
  fm_id :: id
  fm_createdAt :: time
  fm_fileName :: string
  fm_mimeType :: string
  fm_sizeBytes :: nat
  fm_label :: "string option"
  fm_attachments :: "(id \<times> AttachmentEntityType \<times> id \<times> time) list"
  fm_uploadedById :: "id option"
  fm_storageKey :: "string option"

definition getFileMetaAuthorized :: "id \<Rightarrow> actor \<Rightarrow> db \<Rightarrow> err + fileMeta" where
  "getFileMetaAuthorized fileId actor s =
     (case getFileAuthorized fileId actor s of
        Inl e \<Rightarrow> Inl e
      | Inr file \<Rightarrow>
          (let base = \<lparr>fm_id = fi_id file, fm_createdAt = fi_createdAt file, fm_fileName = fi_fileName file,
                 fm_mimeType = fi_mimeType file, fm_sizeBytes = fi_sizeBytes file, fm_label = fi_label file,
                 fm_attachments = map (\<lambda>a. (at_id a, at_entityType a, at_entityId a, at_createdAt a)) (attachmentsOf fileId s),
                 fm_uploadedById = None, fm_storageKey = None\<rparr>
           in Inr (if act_role actor = UserRole.ADMIN
                then base\<lparr>fm_uploadedById := Some (fi_uploadedById file), fm_storageKey := Some (fi_storageKey file)\<rparr> else base)))"

text \<open>\<open>FilesController.getMeta\<close>, which takes the two fields away once more.\<close>

definition getMeta :: "id \<Rightarrow> actor \<Rightarrow> db \<Rightarrow> err + fileMeta" where
  "getMeta i user s =
     (case getFileMetaAuthorized i user s of
        Inl e \<Rightarrow> Inl e
      | Inr m \<Rightarrow> Inr (if act_role user \<noteq> UserRole.ADMIN then m\<lparr>fm_uploadedById := None, fm_storageKey := None\<rparr> else m))"

section \<open>FilesService: links\<close>

datatype linkMethod = PRESIGNED | RAW

record fileLinks =
  fk_id :: id
  fk_name :: string
  fk_mimeType :: string
  fk_sizeBytes :: nat
  fk_label :: "string option"
  fk_method :: linkMethod
  fk_expiresInSeconds :: "rat option"
  fk_previewUrl :: string
  fk_downloadUrl :: string
  fk_url :: string

definition linksFor :: "fileRow \<Rightarrow> linkMethod \<Rightarrow> rat option \<Rightarrow> string \<Rightarrow> string \<Rightarrow> fileLinks" where
  "linksFor file m expiresIn previewUrl downloadUrl =
     \<lparr>fk_id = fi_id file, fk_name = fi_fileName file, fk_mimeType = fi_mimeType file, fk_sizeBytes = fi_sizeBytes file,
      fk_label = fi_label file, fk_method = m, fk_expiresInSeconds = expiresIn, fk_previewUrl = previewUrl,
      fk_downloadUrl = downloadUrl, fk_url = downloadUrl\<rparr>"

text \<open>The message of a failed presign: what the provider said for an administrator, nothing of it for others.\<close>

definition presignMessage :: "actor \<Rightarrow> string option \<Rightarrow> string option \<Rightarrow> string" where
  "presignMessage actor name message =
     (if act_role actor = UserRole.ADMIN
      then ''S3 presign failed: '' @ withDefault name ''Error'' @ '' '' @
           (if truthy message then the message else ''check config'') @ ''. Check endpoint/bucket/keys.''
      else ''Download link generation failed'')"

definition getFileLinksAuthorized ::
  "'st storageProvider \<Rightarrow> string option \<Rightarrow> rat option \<Rightarrow> string \<Rightarrow> id \<Rightarrow> actor \<Rightarrow> db \<Rightarrow> (err \<times> string option) + fileLinks" where
  "getFileLinksAuthorized sp STORAGE_DRIVER FILE_SIGNED_URL_EXPIRES_SECONDS baseUrl fileId actor s =
     (case getFileAuthorized fileId actor s of
        Inl e \<Rightarrow> Inl (e, None)
      | Inr file \<Rightarrow>
          (let expiresIn = withDefault FILE_SIGNED_URL_EXPIRES_SECONDS 60;
               driver = toLowerCase (if truthy STORAGE_DRIVER then the STORAGE_DRIVER else ''local'')
           in if driver = ''s3'' then
                (case sp_getPresignedGetUrl sp of
                   None \<Rightarrow> Inl (InternalServerErrorException ''FILE_READ_FAILED'', Some ''S3 presign not supported; check config'')
                 | Some presign \<Rightarrow>
                     (let request = (\<lambda>d. \<lparr>ps_key = fi_storageKey file, ps_expiresInSeconds = expiresIn,
                            ps_fileName = fi_fileName file, ps_contentType = fi_mimeType file, ps_disposition = d\<rparr>);
                          failed = (\<lambda>e. Inl (InternalServerErrorException ''FILE_READ_FAILED'', Some (presignMessage actor (fst e) (snd e))))
                      in case presign (request INLINE) of
                           Inl e \<Rightarrow> failed e
                         | Inr previewUrl \<Rightarrow>
                             (case presign (request ATTACHMENT) of
                                Inl e \<Rightarrow> failed e
                              | Inr downloadUrl \<Rightarrow> Inr (linksFor file PRESIGNED (Some expiresIn) previewUrl downloadUrl))))
              else Inr (linksFor file RAW None (baseUrl @ ''/files/'' @ fi_id file @ ''/raw?disposition=inline'')
                     (baseUrl @ ''/files/'' @ fi_id file @ ''/raw?disposition=attachment''))))"

section \<open>FilesService: deletions\<close>

definition deleteStorageObject :: "'st storageProvider \<Rightarrow> string \<Rightarrow> 'st \<Rightarrow> err + 'st" where
  "deleteStorageObject sp storageKey st =
     (case sp_deleteObject sp of
        None \<Rightarrow> Inr st
      | Some delete \<Rightarrow>
          (case delete storageKey st of
             Inr st \<Rightarrow> Inr st
           | Inl (HttpError (NotFoundException _)) \<Rightarrow> Inr st
           | Inl (NamedError name message) \<Rightarrow>
               if name \<in> notFoundNames then Inr st else Inl (InternalServerErrorException ''FILE_READ_FAILED'')
           | Inl _ \<Rightarrow> Inl (InternalServerErrorException ''FILE_READ_FAILED'')))"

text \<open>The rows go first, by the operations of \<open>Files\<close>; they are gone when the storage fails afterwards.\<close>

definition removeObjectOf :: "'st storageProvider \<Rightarrow> fileRow \<Rightarrow> db \<Rightarrow> 'st \<Rightarrow> (err + unit) \<times> db \<times> 'st" where
  "removeObjectOf sp file s st =
     (case deleteStorageObject sp (fi_storageKey file) st of Inl e \<Rightarrow> (Inl e, s, st) | Inr st \<Rightarrow> (Inr (), s, st))"

definition removeFileAsUser :: "'st storageProvider \<Rightarrow> id \<Rightarrow> actor \<Rightarrow> db \<Rightarrow> 'st \<Rightarrow> (err + unit) \<times> db \<times> 'st" where
  "removeFileAsUser sp fileId actor s st =
     (case deleteFileAsUser fileId actor s of
        Inl e \<Rightarrow> (Inl e, s, st)
      | Inr (_, t) \<Rightarrow> removeObjectOf sp (the (findFile fileId s)) t st)"

definition removeFileAsAdmin :: "'st storageProvider \<Rightarrow> id \<Rightarrow> bool \<Rightarrow> db \<Rightarrow> 'st \<Rightarrow> (err + unit) \<times> db \<times> 'st" where
  "removeFileAsAdmin sp fileId force s st =
     (case deleteFileAsAdmin fileId force s of
        Inl e \<Rightarrow> (Inl e, s, st)
      | Inr (_, t) \<Rightarrow> removeObjectOf sp (the (findFile fileId s)) t st)"

section \<open>Lemmas: paths\<close>

definition cleanSegment :: "string \<Rightarrow> bool" where
  "cleanSegment x \<longleftrightarrow> x \<notin> {[], ''.'', ''..''} \<and> CHR ''/'' \<notin> set x"

definition cleanKey :: "string \<Rightarrow> bool" where
  "cleanKey key \<longleftrightarrow> list_all cleanSegment (splitOn (CHR ''/'') key)"

lemma splitOn_nonempty [simp]: "splitOn d s \<noteq> []"
  by (induction s) (simp_all split: list.split)

lemma splitOn_none [simp]: "d \<notin> set s \<Longrightarrow> splitOn d s = [s]"
  by (induction s) auto

lemma splitOn_sep: "d \<notin> set x \<Longrightarrow> splitOn d (x @ d # s) = x # splitOn d s"
  by (induction x) auto

lemma splitOn_join: "xs \<noteq> [] \<Longrightarrow> list_all (\<lambda>x. d \<notin> set x) xs \<Longrightarrow> splitOn d (joinWith [d] xs) = xs"
  by (induction "[d]" xs rule: joinWith.induct) (auto simp: splitOn_sep)

lemma join_splitOn: "joinWith [d] (splitOn d s) = s"
proof (induction s)
  case (Cons c s)
  have "splitOn d s = x # xs \<Longrightarrow> joinWith [d] ((c # x) # xs) = c # joinWith [d] (x # xs)" for x xs
    by (cases xs) simp_all
  with Cons show ?case
    by (cases "splitOn d s"; cases "tl (splitOn d s)") auto
qed simp

lemma splitOn_eq: "splitOn d s = splitOn d t \<longleftrightarrow> s = t"
  by (metis join_splitOn)

lemma normalize_clean_end: "list_all cleanSegment ys \<Longrightarrow> normalizeSegments absolute acc ys = rev acc @ ys"
  by (induction ys arbitrary: acc) (auto simp: cleanSegment_def)

lemma normalize_clean:
  "list_all cleanSegment ys \<Longrightarrow> normalizeSegments absolute acc (xs @ ys) = normalizeSegments absolute acc xs @ ys"
  by (induction absolute acc xs rule: normalizeSegments.induct) (auto simp: normalize_clean_end split: list.split)

lemma path_of_key:
  assumes "cleanKey key"
  shows "getAbsolutePath base key = (fst (pathJoin [base]), snd (pathJoin [base]) @ splitOn (CHR ''/'') key)"
proof -
  have "key \<noteq> []" using assms by (auto simp: cleanKey_def cleanSegment_def)
  moreover have "\<not> startsWith key ''/''"
    using assms by (cases key) (auto simp: cleanKey_def cleanSegment_def)
  ultimately show ?thesis
    using assms by (simp add: getAbsolutePath_def pathJoin_def Let_def cleanKey_def normalize_clean normalize_clean_end)
qed

lemma path_inj: "cleanKey j \<Longrightarrow> cleanKey k \<Longrightarrow> getAbsolutePath base j = getAbsolutePath base k \<longleftrightarrow> j = k"
  by (simp add: path_of_key splitOn_eq)

section \<open>Lemmas: keys\<close>

lemma digitChar_code: "(of_char (digitChar n) :: nat) = 48 + n mod 10"
  by (simp add: of_char_of)

lemma showNat_safe: "c \<in> set (showNat n) \<Longrightarrow> 48 \<le> (of_char c :: nat) \<and> (of_char c :: nat) \<le> 57"
proof (induction n rule: showNat.induct)
  case (1 n)
  then show ?case
    by (subst (asm) (2) showNat.simps) (auto simp: digitChar_code split: if_splits simp del: digitChar.simps)
qed

lemma showNat_nonempty [simp]: "showNat n \<noteq> []"
  by (subst showNat.simps) simp

definition readNat :: "string \<Rightarrow> nat" where
  "readNat s = foldl (\<lambda>n c. n * 10 + ((of_char c :: nat) - 48)) 0 s"

lemma read_showNat: "readNat (showNat n) = n"
proof (induction n rule: showNat.induct)
  case (1 n)
  then show ?case
    by (subst showNat.simps) (auto simp: readNat_def digitChar_code simp del: digitChar.simps)
qed

lemma showNat_eq: "showNat m = showNat n \<longleftrightarrow> m = n"
  by (metis read_showNat)

lemma showInt_chars: "c \<in> set (showInt n) \<Longrightarrow> c \<noteq> CHR ''_'' \<and> c \<noteq> CHR ''/''"
  using showNat_safe [of "CHR ''_''"] showNat_safe [of "CHR ''/''"] by (auto simp: showInt_def split: if_splits)

lemma showInt_eq: "showInt m = showInt n \<longleftrightarrow> m = n"
proof -
  have "CHR ''-'' \<notin> set (showNat k)" for k using showNat_safe [of "CHR ''-''" k] by auto
  then have "CHR ''-'' # showNat j \<noteq> showNat k" "showNat k \<noteq> CHR ''-'' # showNat j" for j k by (metis list.set_intros(1))+
  then show ?thesis by (auto simp: showInt_def showNat_eq)
qed

text \<open>A name with an underscore or a digit in it, and no slash, is clean.\<close>

lemma clean_by_char: "CHR ''/'' \<notin> set x \<Longrightarrow> c \<in> set x \<Longrightarrow> c \<noteq> CHR ''.'' \<Longrightarrow> cleanSegment x"
  by (auto simp: cleanSegment_def)

lemma clean_number: "cleanSegment (padStart2 (showNat n))" "cleanSegment (showNat n)"
proof -
  obtain c where c: "c \<in> set (showNat n)" using showNat_nonempty [of n] by (metis list.set_intros(1) list.exhaust)
  have "CHR ''/'' \<notin> set (showNat n)" "c \<noteq> CHR ''.''" using showNat_safe [of "CHR ''/''" n] showNat_safe [OF c] by auto
  with c show "cleanSegment (padStart2 (showNat n))" "cleanSegment (showNat n)"
    by (auto intro!: clean_by_char [of _ c] simp: padStart2_def)
qed

lemma safeName_chars: "c \<in> set (safeName x) \<Longrightarrow> safeChar c" "CHR ''/'' \<notin> set (safeName x)"
  by (auto simp: safeName_def safeChar_def)

lemma keySegments_clean: "list_all cleanSegment (keySegments cal now x)" "keySegments cal now x \<noteq> []"
proof -
  have "cleanSegment (showInt now @ ''_'' @ safeName x)"
    by (rule clean_by_char [of _ "CHR ''_''"]) (use safeName_chars(2) showInt_chars in auto)
  then show "list_all cleanSegment (keySegments cal now x)"
    by (auto simp: keySegments_def clean_number split: prod.split)
qed (simp add: keySegments_def split: prod.split)

lemma storageKey_segments: "splitOn (CHR ''/'') (storageKeyOf cal now x) = keySegments cal now x"
proof -
  let ?xs = "keySegments cal now x"
  have no: "list_all (\<lambda>y. CHR ''/'' \<notin> set y) ?xs" "filter (\<lambda>p. p \<noteq> []) ?xs = ?xs"
    using keySegments_clean(1) [of cal now x] by (auto simp: cleanSegment_def list_all_iff filter_id_conv)
  have split: "concat (map (splitOn (CHR ''/'')) ys) = ys" if "list_all (\<lambda>y. CHR ''/'' \<notin> set y) ys" for ys
    using that by (induction ys) simp_all
  have "snd (pathJoin ?xs) = ?xs"
    using normalize_clean_end [OF keySegments_clean(1)] by (simp add: pathJoin_def Let_def no(2) split [OF no(1)])
  then show ?thesis
    using splitOn_join [OF keySegments_clean(2) no(1)] by (simp add: storageKeyOf_def)
qed

lemma storageKey_clean: "cleanKey (storageKeyOf cal now x)"
  by (simp add: cleanKey_def storageKey_segments keySegments_clean(1))

lemma storageKey_time: "storageKeyOf cal t x = storageKeyOf cal t' y \<Longrightarrow> t = t'"
proof -
  assume "storageKeyOf cal t x = storageKeyOf cal t' y"
  then have "last (keySegments cal t x) = last (keySegments cal t' y)" by (metis storageKey_segments)
  then have "showInt t @ ''_'' @ safeName x = showInt t' @ ''_'' @ safeName y"
    by (simp add: keySegments_def split: prod.splits)
  then have "takeWhile (\<lambda>c. c \<noteq> CHR ''_'') (showInt t @ ''_'' @ safeName x) =
      takeWhile (\<lambda>c. c \<noteq> CHR ''_'') (showInt t' @ ''_'' @ safeName y)" by simp
  moreover have "takeWhile (\<lambda>c. c \<noteq> CHR ''_'') (showInt u @ ''_'' @ z) = showInt u" for u z
    by (subst takeWhile_append2) (use showInt_chars in auto)
  ultimately show "t = t'" by (metis showInt_eq)
qed

lemma storageKey_same:
  "storageKeyOf cal t x = storageKeyOf cal t y \<longleftrightarrow> safeName x = safeName y"
proof
  assume "storageKeyOf cal t x = storageKeyOf cal t y"
  then have "last (keySegments cal t x) = last (keySegments cal t y)" by (metis storageKey_segments)
  then show "safeName x = safeName y" by (simp add: keySegments_def split: prod.splits)
qed (simp add: storageKeyOf_def keySegments_def)

section \<open>What an object store promises\<close>

text \<open>
  What the service needs of a provider: what was put under a key can be got, and putting or deleting under one key
  leaves the others alone. \<open>good\<close> are the keys that are used.
\<close>

locale object_store =
  fixes sp :: "'st storageProvider" and good :: "string \<Rightarrow> bool"
  assumes put_get: "good k \<Longrightarrow> sp_putObject sp k b st = Inr st' \<Longrightarrow> \<exists>n. sp_getObjectStream sp k st' = Inr (b, n)"
    and put_other: "good k \<Longrightarrow> good j \<Longrightarrow> j \<noteq> k \<Longrightarrow> sp_putObject sp k b st = Inr st' \<Longrightarrow>
      sp_getObjectStream sp j st' = sp_getObjectStream sp j st"
    and delete_other: "good k \<Longrightarrow> good j \<Longrightarrow> j \<noteq> k \<Longrightarrow> sp_deleteObject sp = Some d \<Longrightarrow> d k st = Inr st' \<Longrightarrow>
      sp_getObjectStream sp j st' = sp_getObjectStream sp j st"

text \<open>
  The invariant: every row has a key of its own, made from its time and name, and the bytes under it are as many as
  the row says.
\<close>

definition stored_ok :: "'st storageProvider \<Rightarrow> calendar \<Rightarrow> db \<Rightarrow> 'st \<Rightarrow> bool" where
  "stored_ok sp cal s st \<longleftrightarrow>
     keys_ok s (map fi_id (fileRows s)) \<and> distinct (map fi_createdAt (fileRows s)) \<and>
     (\<forall>f\<in>set (fileRows s). fi_storageKey f = storageKeyOf cal (fi_createdAt f) (fi_fileName f) \<and>
        (\<exists>b n. sp_getObjectStream sp (fi_storageKey f) st = Inr (b, n) \<and> length b = fi_sizeBytes f))"

lemma stored_okD:
  assumes "stored_ok sp cal s st"
  shows "keys_ok s (map fi_id (fileRows s))" "distinct (map fi_createdAt (fileRows s))"
    "f \<in> set (fileRows s) \<Longrightarrow> fi_storageKey f = storageKeyOf cal (fi_createdAt f) (fi_fileName f)"
    "f \<in> set (fileRows s) \<Longrightarrow> \<exists>b n. sp_getObjectStream sp (fi_storageKey f) st = Inr (b, n) \<and> length b = fi_sizeBytes f"
  using assms unfolding stored_ok_def by blast+

text \<open>What happens to files: uploads, of which no two fall on one time, deletions, and time.\<close>

inductive fileStep :: "'st storageProvider \<Rightarrow> calendar \<Rightarrow> db \<times> 'st \<Rightarrow> db \<times> 'st \<Rightarrow> bool" for sp cal where
  upload_file: "storeFile sp cal up u label s st = (r, t, st') \<Longrightarrow> \<forall>f\<in>set (fileRows s). fi_createdAt f \<noteq> db_now s \<Longrightarrow>
     fileStep sp cal (s, st) (t, st')"
| remove_as_user: "removeFileAsUser sp i actor s st = (r', t, st') \<Longrightarrow> fileStep sp cal (s, st) (t, st')"
| remove_as_admin: "removeFileAsAdmin sp i force s st = (r', t, st') \<Longrightarrow> fileStep sp cal (s, st) (t, st')"
| time_goes_on: "fileStep sp cal (s, st) (s\<lparr>db_now := now\<rparr>, st)"

lemma removed_rows:
  "deleteFileAsUser i actor s = Inr (u, t) \<Longrightarrow> \<exists>f. findFile i s = Some f \<and> fileRows t = deleteRows (\<lambda>x. fi_id x = i) (fileRows s) \<and>
     db_gen t = db_gen s \<and> db_seq t = db_seq s"
  "deleteFileAsAdmin i force s = Inr (u, t) \<Longrightarrow> \<exists>f. findFile i s = Some f \<and> fileRows t = deleteRows (\<lambda>x. fi_id x = i) (fileRows s) \<and>
     db_gen t = db_gen s \<and> db_seq t = db_seq s"
  by (auto simp: deleteFileAsUser_def deleteFileAsAdmin_def deleteFileRow_def findFile_def Let_def
      split: option.splits if_splits dest!: find_SomeD)

context object_store
begin

lemma removed_object:
  assumes "deleteStorageObject sp k st = Inr st'" and "good k" "good j" "j \<noteq> k"
  shows "sp_getObjectStream sp j st' = sp_getObjectStream sp j st"
  using assms(1) delete_other [OF assms(2-4)]
  by (auto simp: deleteStorageObject_def split: option.splits sum.splits storageError.splits err.splits if_splits)

lemma upload_keeps:
  assumes ok: "stored_ok sp cal s st" and run: "storeFile sp cal file u label s st = (r, t, st')"
    and new: "\<forall>f\<in>set (fileRows s). fi_createdAt f \<noteq> db_now s" and good: "\<And>t x. good (storageKeyOf cal t x)"
  shows "stored_ok sp cal t st'"
proof (cases "sp_putObject sp (storageKeyOf cal (db_now s) (ul_originalname file)) (ul_buffer file) st")
  case (Inl e)
  with ok run show ?thesis by (simp add: storeFile_def)
next
  case (Inr st1)
  let ?row = "newFileRow cal file u label s"
  have st': "st' = st1" using run Inr by (auto simp: storeFile_def Let_def split: if_splits)
  have old: "\<exists>b n. sp_getObjectStream sp (fi_storageKey f) st1 = Inr (b, n) \<and> length b = fi_sizeBytes f"
    if f: "f \<in> set (fileRows s)" for f
  proof -
    note key = stored_okD(3) [OF ok f]
    then have "fi_storageKey f \<noteq> storageKeyOf cal (db_now s) (ul_originalname file)"
      using new f storageKey_time by metis
    then have "sp_getObjectStream sp (fi_storageKey f) st1 = sp_getObjectStream sp (fi_storageKey f) st"
      using put_other [OF good _ _ Inr] good by (metis key)
    with stored_okD(4) [OF ok f] show ?thesis by simp
  qed
  obtain n where n: "sp_getObjectStream sp (fi_storageKey ?row) st1 = Inr (ul_buffer file, n)"
    using put_get [OF good Inr] by (auto simp: newFileRow_def)
  have row: "fi_storageKey ?row = storageKeyOf cal (fi_createdAt ?row) (fi_fileName ?row)" "fi_sizeBytes ?row = length (ul_buffer file)"
    "fi_id ?row = freshId s" "fi_createdAt ?row = db_now s"
    by (simp_all add: newFileRow_def)
  show ?thesis
  proof (cases "u \<in> us_id ` set (users s)")
    case False
    with run Inr have "t = s" by (simp add: storeFile_def Let_def)
    with ok old st' show ?thesis by (simp add: stored_ok_def)
  next
    case True
    with run Inr have t: "t = (bumpId s)\<lparr>fileRows := fileRows s @ [?row]\<rparr>" by (simp add: storeFile_def Let_def)
    have "keys_ok t (map fi_id (fileRows t))"
      using ok keys_ok_snoc [of s "map fi_id (fileRows s)"] row(3) by (simp add: stored_ok_def t keys_ok_def)
    with ok old n row new show ?thesis by (auto simp: stored_ok_def st' t)
  qed
qed

lemma removal_keeps:
  assumes ok: "stored_ok sp cal s st" and f: "findFile i s = Some f"
    and t: "fileRows t = deleteRows (\<lambda>x. fi_id x = i) (fileRows s)" "db_gen t = db_gen s" "db_seq t = db_seq s"
    and run: "removeObjectOf sp f t st = (r, t', st')" and good: "\<And>t x. good (storageKeyOf cal t x)"
  shows "stored_ok sp cal t' st'"
proof -
  have fd: "f \<in> set (fileRows s)" "fi_id f = i" using find_SomeD [OF f [unfolded findFile_def]] by auto
  have t': "t' = t" using run by (simp add: removeObjectOf_def split: sum.splits)
  have key: "fi_storageKey x = storageKeyOf cal (fi_createdAt x) (fi_fileName x)" if "x \<in> set (fileRows s)" for x
    using ok that by (simp add: stored_ok_def)
  have get: "sp_getObjectStream sp (fi_storageKey x) st' = sp_getObjectStream sp (fi_storageKey x) st"
    if x: "x \<in> set (fileRows s)" "fi_id x \<noteq> i" for x
  proof -
    have "fi_createdAt x \<noteq> fi_createdAt f"
      using ok x fd by (auto simp: stored_ok_def distinct_map dest: inj_onD)
    then have "fi_storageKey x \<noteq> fi_storageKey f" using key [OF x(1)] key [OF fd(1)] storageKey_time by metis
    then show ?thesis
      using run removed_object [of "fi_storageKey f" st st' "fi_storageKey x"] good key [OF x(1)] key [OF fd(1)]
      by (auto simp: removeObjectOf_def split: sum.splits)
  qed
  have sub: "distinct (map k (deleteRows p rows))" if "distinct (map k rows)" for k :: "fileRow \<Rightarrow> 'k" and p rows
    using that by (simp add: deleteRows_def distinct_map_filter)
  have "keys_ok t (map fi_id (fileRows t))"
    using ok sub [of fi_id "fileRows s"] by (auto simp: stored_ok_def keys_ok_def t)
  with ok get sub [of fi_createdAt "fileRows s"] show ?thesis by (auto simp: stored_ok_def t' t(1))
qed

lemma steps_keep:
  assumes "fileStep sp cal (s, st) (t, st')" and "stored_ok sp cal s st" and good: "\<And>t x. good (storageKeyOf cal t x)"
  shows "stored_ok sp cal t st'"
  using assms(1,2)
proof (cases rule: fileStep.cases)
  case (upload_file up u label r)
  then show ?thesis using upload_keeps [OF assms(2)] good by blast
next
  case (remove_as_user i actor r')
  then show ?thesis
  proof (cases "deleteFileAsUser i actor s")
    case (Inr q)
    then obtain u s' where q: "deleteFileAsUser i actor s = Inr (u, s')" by (cases q) simp
    from removed_rows(1) [OF q] obtain f where f: "findFile i s = Some f"
      "fileRows s' = deleteRows (\<lambda>x. fi_id x = i) (fileRows s)" "db_gen s' = db_gen s" "db_seq s' = db_seq s" by blast
    have "removeObjectOf sp f s' st = (r', t, st')" using remove_as_user q f(1) by (simp add: removeFileAsUser_def)
    then show ?thesis by (rule removal_keeps [OF assms(2) f _ good])
  qed (use assms(2) remove_as_user in \<open>simp add: removeFileAsUser_def\<close>)
next
  case (remove_as_admin i force r')
  then show ?thesis
  proof (cases "deleteFileAsAdmin i force s")
    case (Inr q)
    then obtain u s' where q: "deleteFileAsAdmin i force s = Inr (u, s')" by (cases q) simp
    from removed_rows(2) [OF q] obtain f where f: "findFile i s = Some f"
      "fileRows s' = deleteRows (\<lambda>x. fi_id x = i) (fileRows s)" "db_gen s' = db_gen s" "db_seq s' = db_seq s" by blast
    have "removeObjectOf sp f s' st = (r', t, st')" using remove_as_admin q f(1) by (simp add: removeFileAsAdmin_def)
    then show ?thesis by (rule removal_keeps [OF assms(2) f _ good])
  qed (use assms(2) remove_as_admin in \<open>simp add: removeFileAsAdmin_def\<close>)
next
  case (time_goes_on now)
  moreover have "stored_ok sp cal (s\<lparr>db_now := now\<rparr>) st = stored_ok sp cal s st"
    by (simp add: stored_ok_def keys_ok_def)
  ultimately show ?thesis using assms(2) by simp
qed

lemma runs_keep:
  assumes "(fileStep sp cal)\<^sup>*\<^sup>* p q" and "stored_ok sp cal (fst p) (snd p)" and "\<And>t x. good (storageKeyOf cal t x)"
  shows "stored_ok sp cal (fst q) (snd q)"
  using assms(1,2) by (induction) (auto intro: steps_keep [OF _ _ assms(3)])

end

interpretation local_store: object_store "localStorage base" cleanKey for base
  by unfold_locales
    (auto simp: localStorage_def localPutObject_def localGetObjectStream_def localDeleteObject_def path_inj)

text \<open>What an upload to the local disk does.\<close>

lemma local_upload:
  "storeFile (localStorage base) cal up u label s fs =
     (let row = newFileRow cal up u label s; fs' = fs(getAbsolutePath base (fi_storageKey row) \<mapsto> ul_buffer up)
      in if u \<in> us_id ` set (users s) then (Inr row, (bumpId s)\<lparr>fileRows := fileRows s @ [row]\<rparr>, fs')
         else (Inl (HttpError (ForeignKeyViolation ''File'')), s, fs'))"
  by (simp add: storeFile_def localStorage_def localPutObject_def Let_def newFileRow_def)

section \<open>Properties\<close>

text \<open>
  C35. Whatever name a client gives a file, its bytes go to one path of four segments below the upload directory,
  the year, the month, the day and a name made of letters, digits and \<open>_\<close>, \<open>.\<close>, \<open>-\<close>, and to no other: the name
  cannot lead out of the directory.
\<close>

theorem uploads_stay_inside:
  "(\<exists>year month day name.
     keySegments cal clock original = [year, month, day, name] \<and>
     list_all cleanSegment [year, month, day, name] \<and> list_all safeChar name \<and>
     getAbsolutePath base (storageKeyOf cal clock original) =
       (fst (pathJoin [base]), snd (pathJoin [base]) @ [year, month, day, name])) \<and>
   snd (snd (storeFile (localStorage base) cal up u label s fs)) =
     fs(getAbsolutePath base (storageKeyOf cal (db_now s) (ul_originalname up)) \<mapsto> ul_buffer up)"
proof (rule conjI)
  obtain y m d where c: "cal clock = (y, m, d)" by (cases "cal clock")
  let ?segs = "keySegments cal clock original"
  have segs: "?segs = [showNat y, padStart2 (showNat (m + 1)), padStart2 (showNat d), showInt clock @ ''_'' @ safeName original]"
    by (simp add: keySegments_def c)
  have path: "getAbsolutePath base (storageKeyOf cal clock original) = (fst (pathJoin [base]), snd (pathJoin [base]) @ ?segs)"
    by (simp add: path_of_key storageKey_clean storageKey_segments)
  have "safeChar c" if "c \<in> set (showInt clock @ ''_'' @ safeName original)" for c
    using that showNat_safe [of c] safeName_chars(1) [of c]
    by (auto simp: showInt_def safeChar_def split: if_splits)
  then have "list_all safeChar (showInt clock @ ''_'' @ safeName original)" by (auto simp: list_all_iff)
  with path keySegments_clean(1) [of cal clock original]
  show "\<exists>year month day name. ?segs = [year, month, day, name] \<and> list_all cleanSegment [year, month, day, name] \<and>
      list_all safeChar name \<and>
      getAbsolutePath base (storageKeyOf cal clock original) = (fst (pathJoin [base]), snd (pathJoin [base]) @ [year, month, day, name])"
    unfolding segs by blast
  show "snd (snd (storeFile (localStorage base) cal up u label s fs)) =
     fs(getAbsolutePath base (storageKeyOf cal (db_now s) (ul_originalname up)) \<mapsto> ul_buffer up)"
    by (simp add: local_upload Let_def newFileRow_def)
qed

text \<open>A database with one user, and an upload of his.\<close>

definition diskDb :: db where
  "diskDb = emptyDb\<lparr>users := [houseUser]\<rparr>"

definition newYear :: calendar where
  "newYear = (\<lambda>_. (2024, 0, 1))"

definition receipt :: "string \<Rightarrow> bytes \<Rightarrow> upload" where
  "receipt name content = \<lparr>ul_originalname = name, ul_mimetype = ''image/png'', ul_buffer = content\<rparr>"

definition uploadsDir :: "fileSystem storageProvider" where
  "uploadsDir = localStorage ''uploads''"

lemma receipt_stored:
  "\<exists>row t fs. storeFile uploadsDir newYear (receipt name content) HOUSE_USER_ID None diskDb Map.empty = (Inr row, t, fs) \<and>
     fileRows t = [row] \<and> row = newFileRow newYear (receipt name content) HOUSE_USER_ID None diskDb \<and>
     fi_sizeBytes row = length content \<and> fi_id row = freshId diskDb \<and> HOUSE_USER_ID \<in> us_id ` set (users t)"
  by (simp add: uploadsDir_def local_upload Let_def newFileRow_def diskDb_def emptyDb_def bumpId_def houseUser_def freshId_def receipt_def)

text \<open>
  C18. As long as no two uploads fall on one millisecond, no upload and no deletion ever harms another file: after any
  run of uploads, deletions by users and administrators, failed ones included, and time, every row of the table can
  be downloaded and has as many bytes as it says.
\<close>

theorem files_stay_readable:
  assumes "(fileStep (localStorage base) cal)\<^sup>*\<^sup>* (s, fs) (t, fs')" and "stored_ok (localStorage base) cal s fs"
    and "f \<in> set (fileRows t)"
  shows "\<exists>content. getFileStream (localStorage base) (fi_storageKey f) fs' = Inr (content, Some (length content)) \<and>
    length content = fi_sizeBytes f"
proof -
  have "stored_ok (localStorage base) cal t fs'"
    using local_store.runs_keep [OF assms(1)] assms(2) storageKey_clean by simp
  from stored_okD(4) [OF this assms(3)] obtain b n
    where b: "sp_getObjectStream (localStorage base) (fi_storageKey f) fs' = Inr (b, n)" "length b = fi_sizeBytes f" by blast
  moreover have "n = Some (length b)"
    using b(1) by (auto simp: localStorage_def localGetObjectStream_def split: option.splits)
  ultimately show ?thesis by (simp add: getFileStream_def)
qed

theorem files_stay_readable_witness:
  "\<exists>f t fs. storeFile uploadsDir newYear (receipt ''r.png'' ''abc'') HOUSE_USER_ID None diskDb Map.empty = (Inr f, t, fs) \<and>
     (\<exists>content. getFileStream uploadsDir (fi_storageKey f) fs = Inr (content, Some (length content)) \<and> length content = 3)"
proof -
  from receipt_stored [of "''r.png''" "''abc''"] obtain f t fs
    where run: "storeFile uploadsDir newYear (receipt ''r.png'' ''abc'') HOUSE_USER_ID None diskDb Map.empty = (Inr f, t, fs)"
      and f: "fileRows t = [f]" "fi_sizeBytes f = 3" by auto
  have "fileStep uploadsDir newYear (diskDb, Map.empty) (t, fs)"
    by (rule upload_file [OF run]) (simp add: diskDb_def emptyDb_def)
  moreover have "stored_ok uploadsDir newYear diskDb Map.empty"
    using inj_unaryId by (simp add: stored_ok_def diskDb_def emptyDb_def keys_ok_def)
  ultimately have "\<exists>content. getFileStream uploadsDir (fi_storageKey f) fs = Inr (content, Some (length content)) \<and>
      length content = fi_sizeBytes f"
    unfolding uploadsDir_def using f(1)
    by (intro files_stay_readable [where cal = newYear and s = diskDb and fs = Map.empty and t = t]) auto
  with run f(2) show ?thesis by auto
qed

text \<open>
  C32. What is uploaded is what is downloaded: the uploader and every administrator get the bytes back with their
  length and type, and a user who did not upload the file is refused, as long as no attachment was waiting for it.
\<close>

theorem upload_then_download:
  assumes "storeFile (localStorage base) cal up u label s fs = (Inr row, t, fs')"
    and "keys_ok s (map fi_id (fileRows s))" and "attachmentsOf (freshId s) s = []" and "linksOf (freshId s) s = []"
  shows "serveRaw (localStorage base) enc (fi_id row) actor disp t fs' =
    (if act_role actor = UserRole.ADMIN \<or> act_id actor = u
     then Inr \<lparr>rw_contentType = ul_mimetype up, rw_contentLength = Some (length (ul_buffer up)),
       rw_contentDisposition = (if disp = Some ''inline'' then ''inline'' else ''attachment'') @ ''; filename='' @ [CHR 34] @
         enc (ul_originalname up) @ [CHR 34], rw_body = ul_buffer up\<rparr>
     else Inl (ForbiddenException ''FILE_STREAM_ACCESS_DENIED''))"
proof -
  from assms(1) have row: "row = newFileRow cal up u label s" and t: "t = (bumpId s)\<lparr>fileRows := fileRows s @ [row]\<rparr>"
    and fs': "fs' = fs(getAbsolutePath base (fi_storageKey row) \<mapsto> ul_buffer up)"
    by (auto simp: local_upload Let_def split: if_splits)
  have i: "fi_id row = freshId s" "fi_uploadedById row = u" "fi_mimeType row = ul_mimetype up" "fi_fileName row = ul_originalname up"
    by (simp_all add: row newFileRow_def)
  have "findFirst (\<lambda>f. fi_id f = freshId s) (fileRows s) = None"
    using freshId_notin [OF assms(2)] by (force simp: find_None_iff)
  then have find: "findFile (freshId s) t = Some row"
    using i(1) by (simp add: findFile_def t bumpId_def find_append)
  have "attachmentsOf (freshId s) t = []" "linksOf (freshId s) t = []"
    using assms(3,4) by (simp_all add: attachmentsOf_def linksOf_def t bumpId_def)
  then have auth: "getFileAuthorized (freshId s) actor t = (if act_role actor = UserRole.ADMIN \<or> act_id actor = u then Inr row
      else Inl (ForbiddenException ''FILE_STREAM_ACCESS_DENIED''))"
    using i(2) by (auto simp: getFileAuthorized_def find)
  have "getFileStream (localStorage base) (fi_storageKey row) fs' = Inr (ul_buffer up, Some (length (ul_buffer up)))"
    by (simp add: getFileStream_def localStorage_def localGetObjectStream_def fs')
  with auth i show ?thesis by (simp add: serveRaw_def)
qed

theorem upload_then_download_witness:
  "\<exists>f t fs. storeFile uploadsDir newYear (receipt ''r.png'' ''abc'') HOUSE_USER_ID None diskDb Map.empty = (Inr f, t, fs) \<and>
     serveRaw uploadsDir id (fi_id f) \<lparr>act_id = ''eve'', act_role = UserRole.CLIENT\<rparr> None t fs =
       Inl (ForbiddenException ''FILE_STREAM_ACCESS_DENIED'')"
proof -
  from receipt_stored [of "''r.png''" "''abc''"] obtain f t fs
    where run: "storeFile uploadsDir newYear (receipt ''r.png'' ''abc'') HOUSE_USER_ID None diskDb Map.empty = (Inr f, t, fs)"
    by auto
  have "serveRaw uploadsDir id (fi_id f) \<lparr>act_id = ''eve'', act_role = UserRole.CLIENT\<rparr> None t fs =
      Inl (ForbiddenException ''FILE_STREAM_ACCESS_DENIED'')"
    unfolding uploadsDir_def using inj_unaryId
    by (subst upload_then_download [OF run [unfolded uploadsDir_def]])
      (simp_all add: diskDb_def emptyDb_def keys_ok_def attachmentsOf_def linksOf_def HOUSE_USER_ID_def)
  with run show ?thesis by blast
qed

text \<open>
  Two uploads in one millisecond whose names differ only in characters that are replaced share one object: the
  first row downloads as the bytes of the second, whoever uploaded it, and when the second is deleted the first is
  gone too. The name of an object has neither the user nor anything random in it.
\<close>

theorem colliding_uploads_share_content:
  assumes "storeFile (localStorage base) cal up1 u1 l1 s fs = (Inr row1, s1, fs1)"
    and "storeFile (localStorage base) cal up2 u2 l2 s1 fs1 = (Inr row2, s2, fs2)"
    and "safeName (ul_originalname up1) = safeName (ul_originalname up2)"
  shows "getFileStream (localStorage base) (fi_storageKey row1) fs2 = Inr (ul_buffer up2, Some (length (ul_buffer up2))) \<and>
    (\<exists>fs3. removeObjectOf (localStorage base) row2 s2 fs2 = (Inr (), s2, fs3) \<and>
       getFileStream (localStorage base) (fi_storageKey row1) fs3 = Inl (NotFoundException ''FILE_NOT_FOUND''))"
proof -
  from assms(1) have 1: "row1 = newFileRow cal up1 u1 l1 s" "db_now s1 = db_now s"
    by (auto simp: local_upload Let_def bumpId_def split: if_splits)
  from assms(2) have 2: "row2 = newFileRow cal up2 u2 l2 s1" "fs2 = fs1(getAbsolutePath base (fi_storageKey row2) \<mapsto> ul_buffer up2)"
    by (auto simp: local_upload Let_def split: if_splits)
  have "fi_storageKey row1 = fi_storageKey row2"
    using assms(3) storageKey_same by (simp add: 1 2(1) newFileRow_def)
  with 2(2) show ?thesis
    by (simp add: getFileStream_def removeObjectOf_def deleteStorageObject_def localStorage_def localGetObjectStream_def
        localDeleteObject_def)
qed

theorem colliding_uploads_share_content_witness:
  "\<exists>row1 s1 fs1 row2 s2 fs2.
     storeFile uploadsDir newYear (receipt ''my id.png'' ''secret'') HOUSE_USER_ID None diskDb Map.empty = (Inr row1, s1, fs1) \<and>
     storeFile uploadsDir newYear (receipt ''my_id.png'' ''other'') HOUSE_USER_ID None s1 fs1 = (Inr row2, s2, fs2) \<and>
     getFileStream uploadsDir (fi_storageKey row1) fs2 = Inr (''other'', Some 5)"
proof -
  from receipt_stored [of "''my id.png''" "''secret''"] obtain row1 s1 fs1
    where 1: "storeFile uploadsDir newYear (receipt ''my id.png'' ''secret'') HOUSE_USER_ID None diskDb Map.empty = (Inr row1, s1, fs1)"
      "HOUSE_USER_ID \<in> us_id ` set (users s1)" by blast
  then obtain row2 s2 fs2
    where 2: "storeFile uploadsDir newYear (receipt ''my_id.png'' ''other'') HOUSE_USER_ID None s1 fs1 = (Inr row2, s2, fs2)"
    by (simp add: uploadsDir_def local_upload Let_def)
  have "safeName (ul_originalname (receipt ''my id.png'' ''secret'')) = safeName (ul_originalname (receipt ''my_id.png'' ''other''))"
    by (simp add: receipt_def safeName_def safeChar_def)
  from colliding_uploads_share_content [OF 1(1) [unfolded uploadsDir_def] 2 [unfolded uploadsDir_def] this] 1(1) 2
  show ?thesis unfolding uploadsDir_def by (auto simp: receipt_def)
qed

end
