(* ===== verification/Queries.thy ===== *)
theory Queries
  imports FileStore
begin

text \<open>
  The parameters of a query (\<open>common/pagination/query-parsers.ts\<close>) and what a paged list promises. A value of the
  query string is a JavaScript value; the conversions \<open>String\<close> and \<open>Number\<close> of a value that is not a string are
  arguments.
\<close>

section \<open>Booleans and numbers\<close>

definition parseBoolean :: "(json \<Rightarrow> string) \<Rightarrow> json \<Rightarrow> err + bool option" where
  "parseBoolean toText v =
     (if v = JUndefined \<or> v = JNull \<or> v = JStr [] then Inr None
      else case v of
        JBool b \<Rightarrow> Inr (Some b)
      | _ \<Rightarrow>
          (if v = JNum 1 then Inr (Some True) else if v = JNum 0 then Inr (Some False)
           else let normalized = toLowerCase (trim (case v of JStr x \<Rightarrow> x | _ \<Rightarrow> toText v))
           in if normalized \<in> {''true'', ''1'', ''yes'', ''on''} then Inr (Some True)
              else if normalized \<in> {''false'', ''0'', ''no'', ''off''} then Inr (Some False)
              else Inl (BadRequestException ''must be a boolean value'')))"

text \<open>\<open>toNumber\<close> gives nothing when \<open>Number\<close> is not finite.\<close>

definition parseNumber :: "(json \<Rightarrow> rat option) \<Rightarrow> json \<Rightarrow> err + rat option" where
  "parseNumber toNumber v =
     (if v = JUndefined \<or> v = JNull \<or> v = JStr [] then Inr None
      else if (case v of JStr x \<Rightarrow> toLowerCase (trim x) \<in> {[], ''undefined'', ''null''} | _ \<Rightarrow> False) then Inr None
      else case toNumber v of
        Some n \<Rightarrow> Inr (Some n)
      | None \<Rightarrow> Inl (BadRequestException ''must be a numeric value''))"

section \<open>The sort parameter\<close>

text \<open>The match of \<open>/^(.*)_(asc|desc)$/i\<close>: the point matches no line end.\<close>

definition isLineEnd :: "char \<Rightarrow> bool" where
  "isLineEnd c = ((of_char c :: nat) \<in> {10, 13})"

definition sortSuffix :: "string \<Rightarrow> (string \<times> string) option" where
  "sortSuffix entry =
     (let split = (\<lambda>k. (take (length entry - k) entry, drop (length entry - k + 1) entry));
          fits = (\<lambda>k suffix. k \<le> length entry \<and> toLowerCase (drop (length entry - k) entry) = suffix \<and>
            \<not> list_ex isLineEnd (take (length entry - k) entry))
      in if fits 4 ''_asc'' then Some (split 4) else if fits 5 ''_desc'' then Some (split 5) else None)"

record sortParams =
  so_sort :: "string option"
  so_sortBy :: "string option"
  so_orderBy :: "string option"
  so_direction :: "string option"
  so_dir :: "string option"
  so_order :: "string option"

fun normalizeEntries :: "string option \<Rightarrow> string list option \<Rightarrow> string list \<Rightarrow> err + (string \<times> string) list" where
  "normalizeEntries hint allowed [] = Inr []"
| "normalizeEntries hint allowed (e # es) =
     (case normalizeSortEntry sortSuffix hint allowed e of
        Inl err \<Rightarrow> Inl err
      | Inr fd \<Rightarrow> map_sum id (\<lambda>rest. fd # rest) (normalizeEntries hint allowed es))"

definition sortEntries :: "string \<Rightarrow> string list" where
  "sortEntries rawSort = filter (\<lambda>e. e \<noteq> []) (map trim (splitOn (CHR '','') rawSort))"

definition normalizeSort :: "sortParams \<Rightarrow> string list option \<Rightarrow> err + (string \<times> string) list" where
  "normalizeSort params allowedFields =
     (let rawSort = orElse (so_sort params) (orElse (so_orderBy params) (so_sortBy params));
          directionParam = orElse (so_direction params) (orElse (so_dir params) (so_order params));
          directionHint = (if truthy directionParam then map_option toLowerCase directionParam else None)
      in if \<not> truthy rawSort then Inr []
         else normalizeEntries directionHint allowedFields (sortEntries (the rawSort)))"

section \<open>Notations of a sort\<close>

text \<open>The ways to write a field and a direction.\<close>

datatype sortStyle = MINUS | COLON | SUFFIX

definition writeSort :: "sortStyle \<Rightarrow> string \<times> bool \<Rightarrow> string" where
  "writeSort style fd =
     (let field = fst fd; direction = (if snd fd then ''asc'' else ''desc'')
      in case style of
           MINUS \<Rightarrow> if snd fd then field else CHR ''-'' # field
         | COLON \<Rightarrow> field @ '':'' @ direction
         | SUFFIX \<Rightarrow> field @ ''_'' @ direction)"

definition plainField :: "string \<Rightarrow> bool" where
  "plainField f \<longleftrightarrow> f \<noteq> [] \<and> list_all (\<lambda>c. let n = of_char c :: nat in (97 \<le> n \<and> n \<le> 122) \<or> (65 \<le> n \<and> n \<le> 90)) f"

lemma plainField_chars:
  "plainField f \<Longrightarrow> c \<in> set f \<Longrightarrow> c \<notin> {CHR ''-'', CHR '':'', CHR ''_'', CHR '',''} \<and> \<not> isSpace c \<and> \<not> isLineEnd c"
  by (auto simp: plainField_def list_all_iff isSpace_def isLineEnd_def)

lemma trim_plain: "list_all (\<lambda>c. \<not> isSpace c) x \<Longrightarrow> trim x = x"
proof -
  assume x: "list_all (\<lambda>c. \<not> isSpace c) x"
  have drop: "dropWhile isSpace y = y" if "list_all (\<lambda>c. \<not> isSpace c) y" for y
    using that by (cases y) simp_all
  have "list_all (\<lambda>c. \<not> isSpace c) (rev x)" using x by (simp add: list_all_iff)
  with x show ?thesis by (simp add: trim_def drop)
qed

lemma writeSort_chars:
  assumes "plainField (fst fd)"
  shows "list_all (\<lambda>c. \<not> isSpace c) (writeSort style fd)" "CHR '','' \<notin> set (writeSort style fd)" "writeSort style fd \<noteq> []"
  using plainField_chars [OF assms] assms
  by (cases style; auto simp: writeSort_def Let_def list_all_iff isSpace_def plainField_def)+

lemma splitColon_field: "CHR '':'' \<notin> set f \<Longrightarrow> CHR '':'' \<notin> set d \<Longrightarrow> splitColon (f @ '':'' @ d) = (f, Some d)"
proof (induction f)
  case Nil
  then have "takeWhile (\<lambda>x. x \<noteq> CHR '':'') d = d" by (auto simp: takeWhile_eq_all_conv)
  then show ?case by simp
qed auto

lemma sortSuffix_written:
  "plainField f \<Longrightarrow> sortSuffix (f @ ''_asc'') = Some (f, ''asc'')" "plainField f \<Longrightarrow> sortSuffix (f @ ''_desc'') = Some (f, ''desc'')"
proof -
  assume f: "plainField f"
  have ends: "\<not> list_ex isLineEnd f" using plainField_chars [OF f] by (auto simp: list_ex_iff)
  have cut: "drop (length (f @ ''_desc'') - 4) (f @ ''_desc'') = ''desc''" by simp
  show "sortSuffix (f @ ''_asc'') = Some (f, ''asc'')"
    using ends by (simp add: sortSuffix_def toLowerCase_def lowerChar_def)
  show "sortSuffix (f @ ''_desc'') = Some (f, ''desc'')"
    using ends by (simp add: sortSuffix_def toLowerCase_def lowerChar_def)
qed

lemma entry_written:
  assumes f: "plainField (fst fd)"
  shows "normalizeSortEntry sortSuffix None None (writeSort style fd) = Inr (fst fd, if snd fd then ''asc'' else ''desc'')"
proof -
  obtain f' b where fd: "fd = (f', b)" by (cases fd)
  from f have f': "plainField f'" by (simp add: fd)
  have ne: "f' \<noteq> []" using f' by (simp add: plainField_def)
  then have start: "\<not> startsWith (f' @ x) ''-''" for x
    using plainField_chars [OF f', of "hd f'"] by (cases f') auto
  have no: "CHR '':'' \<notin> set f'" "CHR ''_'' \<notin> set f'" using plainField_chars [OF f'] by blast+
  have low: "toLowerCase ''asc'' = ''asc''" "toLowerCase ''desc'' = ''desc''" by (simp_all add: toLowerCase_def lowerChar_def)
  note colon = splitColon_field [OF no(1), of "''asc''"] splitColon_field [OF no(1), of "''desc''"]
  note suffix = sortSuffix_written [OF f']
  show ?thesis
  proof (cases style)
    case MINUS
    with ne no start [of "[]"] show ?thesis by (cases b) (simp_all add: fd writeSort_def normalizeSortEntry_def)
  next
    case COLON
    with ne no colon start [of "'':asc''"] start [of "'':desc''"] low show ?thesis
      by (cases b) (simp_all add: fd writeSort_def normalizeSortEntry_def)
  next
    case SUFFIX
    with ne no suffix start [of "''_asc''"] start [of "''_desc''"] low show ?thesis
      by (cases b) (simp_all add: fd writeSort_def normalizeSortEntry_def)
  qed
qed

section \<open>What a paged list promises\<close>

text \<open>All the pages of a list at a page size, one after the other.\<close>

definition allPages :: "(rat \<Rightarrow> rat \<Rightarrow> 'v list \<times> pageMeta) \<Rightarrow> rat \<Rightarrow> 'v list" where
  "allPages lst limit =
     concat (map (\<lambda>p. fst (lst (of_int (int p + 1)) limit)) [0..<nat (pm_totalPages (snd (lst 1 limit)))])"

text \<open>
  A list is paged when there is one order of its rows of which every page is a cut. \<open>view\<close> is what the page shows of
  a row.
\<close>

locale page_list =
  fixes lst :: "rat \<Rightarrow> rat \<Rightarrow> 'v list \<times> pageMeta" and rows :: "'r list" and view :: "'r \<Rightarrow> 'v"
  assumes cut: "\<exists>xs. mset xs = mset rows \<and>
    (\<forall>page limit. lst page limit = (map view (pageOf xs page limit), meta (int (length xs)) page limit))"
begin

lemma pages_complete: "mset (allPages lst limit) = image_mset view (mset rows)"
proof -
  from cut obtain xs where xs: "mset xs = mset rows"
      "\<And>page limit. lst page limit = (map view (pageOf xs page limit), meta (int (length xs)) page limit)" by blast
  have "allPages lst limit = map view (concat (map (\<lambda>p. pageOf xs (of_int (int p + 1)) limit)
      [0..<nat (pm_totalPages (meta (int (length xs)) 1 limit))]))"
    by (simp add: allPages_def xs(2) map_concat comp_def)
  also have "\<dots> = map view xs" by (simp only: all_pages)
  finally show ?thesis by (simp add: xs(1))
qed

lemma total_items: "pm_totalItems (snd (lst page limit)) = int (length rows)"
  using cut by (auto simp: meta_def Let_def) (metis size_mset)

lemma page_shows: "set (fst (lst page limit)) \<subseteq> view ` set rows"
proof -
  from cut obtain xs where xs: "mset xs = mset rows"
      "\<And>page limit. lst page limit = (map view (pageOf xs page limit), meta (int (length xs)) page limit)" by blast
  have "set (pageOf xs page limit) \<subseteq> set xs"
    by (auto simp: pageOf_def Let_def dest: in_set_takeD in_set_dropD)
  also have "set xs = set rows" using xs(1) by (metis set_mset_mset)
  finally show ?thesis by (auto simp: xs(2))
qed

lemma page_bounded: "length (fst (lst page limit)) \<le> 100"
proof -
  from cut obtain xs where "\<And>page limit. lst page limit = (map view (pageOf xs page limit), meta (int (length xs)) page limit)" by blast
  moreover have "length (pageOf xs page limit) \<le> 100"
    unfolding pageOf_def Let_def by (rule order_trans [of _ "nat (st_take (getSkipTake page limit))"]) (auto simp: getSkipTake_def Let_def)
  ultimately show ?thesis by simp
qed

end

lemma meta_sanitized: "meta n (of_int (st_page (getSkipTake p l))) (of_int (st_limit (getSkipTake p l))) = meta n p l"
  by (simp add: meta_def getSkipTake_def Let_def)

lemma cut_sorted:
  assumes "mset xs = mset rows"
    and "\<And>page limit. lst page limit = wrap (map view (pageOf xs page limit)) (int (length xs)) page limit"
  shows "page_list lst rows view"
  using assms by unfold_locales (auto simp: wrap_def Let_def meta_sanitized intro!: exI [of _ xs])

section \<open>Properties\<close>

text \<open>
  A sort parameter that lists fields with directions, each written in any of the three notations
  (\<open>-field\<close>, \<open>field:desc\<close>, \<open>field_desc\<close>, and likewise for ascending), is read back as that list.
\<close>

theorem sort_round_trip:
  assumes "xs \<noteq> []" and "list_all (\<lambda>x. plainField (fst (snd x))) xs"
    and "so_direction params = None" and "so_dir params = None" and "so_order params = None"
    and "so_sort params = Some (joinWith '','' (map (\<lambda>x. writeSort (fst x) (snd x)) xs))"
  shows "normalizeSort params None = Inr (map (\<lambda>x. (fst (snd x), if snd (snd x) then ''asc'' else ''desc'')) xs)"
proof -
  let ?ws = "map (\<lambda>x. writeSort (fst x) (snd x)) xs"
  have plain: "plainField (fst (snd x))" if "x \<in> set xs" for x using assms(2) that by (simp add: list_all_iff)
  have split: "splitOn (CHR '','') (joinWith '','' ?ws) = ?ws"
    using assms(1) writeSort_chars(2) plain by (intro splitOn_join) (auto simp: list_all_iff)
  have "map trim ?ws = ?ws" using writeSort_chars(1) plain by (auto intro!: trim_plain)
  moreover have "filter (\<lambda>e. e \<noteq> []) ?ws = ?ws" using writeSort_chars(3) plain by (auto simp: filter_id_conv)
  ultimately have entries: "sortEntries (joinWith '','' ?ws) = ?ws" by (simp only: sortEntries_def split)
  have "?ws \<noteq> []" using assms(1) by simp
  then have raw: "joinWith '','' ?ws \<noteq> []" using split writeSort_chars(3) plain
    by (metis (no_types, lifting) assms(1) list.set_intros(1) list.simps(9) neq_Nil_conv splitOn.simps(1) list.inject)
  have "normalizeEntries None None (map (\<lambda>x. writeSort (fst x) (snd x)) ys) =
      Inr (map (\<lambda>x. (fst (snd x), if snd (snd x) then ''asc'' else ''desc'')) ys)" if "set ys \<subseteq> set xs" for ys
    using that plain by (induction ys) (simp_all add: entry_written)
  from this [of xs] raw entries assms(3-6) show ?thesis by (simp add: normalizeSort_def)
qed

theorem sort_round_trip_witness:
  "normalizeSort \<lparr>so_sort = Some ''-amount,createdAt:asc,paidAt_desc'', so_sortBy = None, so_orderBy = None, so_direction = None,
     so_dir = None, so_order = None\<rparr> None = Inr [(''amount'', ''desc''), (''createdAt'', ''asc''), (''paidAt'', ''desc'')]"
  by (subst sort_round_trip [where xs = "[(MINUS, (''amount'', False)), (COLON, (''createdAt'', True)), (SUFFIX, (''paidAt'', False))]"])
    (simp_all add: plainField_def writeSort_def)

end
