(* ===== verification/Responses.thy ===== *)
theory Responses
  imports Trades
begin

text \<open>
  What the administrators and the owners are shown of deposits, withdrawals and trades: the mappers of
  \<open>common/mappers/user.mapper.ts\<close>, \<open>deposits.mapper.ts\<close>, \<open>withdrawals.mapper.ts\<close>, \<open>trades.mapper.ts\<close>, their
  \<open>admin.mapper.ts\<close> counterparts, and the detail pages. An amount is shown by its value. The columns of a trade
  that name the origin of its price are not in the rows of the model, nor is the time of the last update of an
  outbox row.
\<close>

section \<open>Users\<close>

record minimalUser =
  mu_id :: id
  mu_fullName :: string
  mu_mobile :: string

record safeUserDto = minimalUser +
  su_email :: string
  su_role :: UserRole
  su_status :: UserStatus
  su_tahesabCustomerCode :: "string option"
  su_createdAt :: time
  su_updatedAt :: time

definition toUserMinimalDto :: "user option \<Rightarrow> minimalUser option" where
  "toUserMinimalDto u = map_option (\<lambda>u. \<lparr>mu_id = us_id u, mu_fullName = us_fullName u, mu_mobile = us_mobile u\<rparr>) u"

definition toUserSafeDto :: "user option \<Rightarrow> safeUserDto option" where
  "toUserSafeDto u = map_option (\<lambda>u. \<lparr>mu_id = us_id u, mu_fullName = us_fullName u, mu_mobile = us_mobile u,
     su_email = us_email u, su_role = us_role u, su_status = us_status u,
     su_tahesabCustomerCode = us_tahesabCustomerCode u, su_createdAt = us_createdAt u, su_updatedAt = us_updatedAt u\<rparr>) u"

text \<open>The relation \<open>processedBy\<close>, absent when the column is null.\<close>

definition relatedUser :: "id option \<Rightarrow> db \<Rightarrow> user option" where
  "relatedUser i s = Option.bind i (\<lambda>i. findUser i s)"

section \<open>Deposits\<close>

record depositResponse =
  de_id :: id
  de_userId :: id
  de_user :: "safeUserDto option"
  de_amount :: decimal
  de_method :: string
  de_status :: DepositStatus
  de_refNo :: "string option"
  de_note :: "string option"
  de_processedAt :: "time option"
  de_processedById :: "id option"
  de_processedBy :: "minimalUser option"
  de_accountTxId :: "id option"
  de_createdAt :: time
  de_updatedAt :: time

definition toDepositResponse :: "db \<Rightarrow> depositRequest \<Rightarrow> depositResponse" where
  "toDepositResponse s d =
     \<lparr>de_id = dp_id d, de_userId = dp_userId d, de_user = toUserSafeDto (findUser (dp_userId d) s), de_amount = dp_amount d,
      de_method = dp_method d, de_status = dp_status d, de_refNo = dp_refNo d, de_note = dp_note d,
      de_processedAt = dp_processedAt d, de_processedById = dp_processedById d,
      de_processedBy = toUserMinimalDto (relatedUser (dp_processedById d) s), de_accountTxId = dp_accountTxId d,
      de_createdAt = dp_createdAt d, de_updatedAt = dp_updatedAt d\<rparr>"

section \<open>Withdrawals\<close>

record withdrawalDestination =
  dt_type :: PaymentDestinationType
  dt_maskedValue :: string
  dt_bankName :: "string option"
  dt_ownerNameMasked :: "string option"

text \<open>
  \<open>resolveDestination\<close>. The test of the columns takes an empty string for an absent one, the choice of the number
  (\<open>iban ?? cardNumber\<close>) does not.
\<close>

definition resolveDestination :: "withdrawRequest \<Rightarrow> withdrawalDestination option" where
  "resolveDestination w =
     (case wd_destinationSnapshot w of
        Some snapshot \<Rightarrow>
          Some \<lparr>dt_type = ds_type snapshot,
             dt_maskedValue =
               (if truthy (ds_maskedValue snapshot) then the (ds_maskedValue snapshot)
                else if truthy (ds_value snapshot) then maskDestinationValue (the (ds_value snapshot)) else ''****''),
             dt_bankName = orElse (ds_bankName snapshot) (wd_bankName w),
             dt_ownerNameMasked = maskOwnerName (ds_ownerName snapshot)\<rparr>
      | None \<Rightarrow>
          (if truthy (wd_iban w) \<or> truthy (wd_cardNumber w)
           then let raw = withDefault (orElse (wd_iban w) (wd_cardNumber w)) []
             in Some \<lparr>dt_type = (if truthy (wd_iban w) then PaymentDestinationType.IBAN else PaymentDestinationType.CARD),
                  dt_maskedValue = maskDestinationValue raw, dt_bankName = wd_bankName w, dt_ownerNameMasked = None\<rparr>
           else None))"

record withdrawalResponse =
  we_id :: id
  we_userId :: id
  we_user :: "safeUserDto option"
  we_amount :: decimal
  we_status :: WithdrawStatus
  we_purpose :: RequestPurpose
  we_destination :: "withdrawalDestination option"
  we_bankName :: "string option"
  we_iban :: "string option"
  we_cardNumber :: "string option"
  we_note :: "string option"
  we_processedAt :: "time option"
  we_processedById :: "id option"
  we_processedBy :: "minimalUser option"
  we_accountTxId :: "id option"
  we_createdAt :: time
  we_updatedAt :: time

definition maskedColumn :: "string option \<Rightarrow> string option" where
  "maskedColumn v = (if truthy v then Some (maskDestinationValue (the v)) else None)"

definition toWithdrawalResponse :: "db \<Rightarrow> withdrawRequest \<Rightarrow> withdrawalResponse" where
  "toWithdrawalResponse s w =
     \<lparr>we_id = wd_id w, we_userId = wd_userId w, we_user = toUserSafeDto (findUser (wd_userId w) s), we_amount = wd_amount w,
      we_status = wd_status w, we_purpose = wd_purpose w, we_destination = resolveDestination w, we_bankName = wd_bankName w,
      we_iban = maskedColumn (wd_iban w), we_cardNumber = maskedColumn (wd_cardNumber w), we_note = wd_note w,
      we_processedAt = wd_processedAt w, we_processedById = wd_processedById w,
      we_processedBy = toUserMinimalDto (relatedUser (wd_processedById w) s), we_accountTxId = wd_accountTxId w,
      we_createdAt = wd_createdAt w, we_updatedAt = wd_updatedAt w\<rparr>"

text \<open>\<open>findMy\<close> and \<open>findByStatus\<close>.\<close>

definition myWithdrawals :: "id \<Rightarrow> db \<Rightarrow> withdrawalResponse list" where
  "myWithdrawals userId s = map (toWithdrawalResponse s) (findMyWithdrawals userId s)"

definition withdrawalsByStatus :: "WithdrawStatus option \<Rightarrow> db \<Rightarrow> withdrawalResponse list" where
  "withdrawalsByStatus status s =
     map (toWithdrawalResponse s) (sortBy (\<lambda>a b. wd_createdAt a - wd_createdAt b)
       (findMany (\<lambda>w. case status of None \<Rightarrow> True | Some x \<Rightarrow> wd_status w = x) (withdrawRequests s)))"

definition depositsByStatus :: "DepositStatus option \<Rightarrow> db \<Rightarrow> depositResponse list" where
  "depositsByStatus status s =
     map (toDepositResponse s) (sortBy (\<lambda>a b. dp_createdAt a - dp_createdAt b)
       (findMany (\<lambda>d. case status of None \<Rightarrow> True | Some x \<Rightarrow> dp_status d = x) (depositRequests s)))"

section \<open>Trades\<close>

record tradeInstrumentDto =
  ti_id :: id
  ti_code :: string
  ti_name :: string
  ti_unit :: InstrumentUnit

definition toInstrumentDto :: "instrument \<Rightarrow> tradeInstrumentDto" where
  "toInstrumentDto i = \<lparr>ti_id = in_id i, ti_code = in_code i, ti_name = in_name i, ti_unit = in_unit i\<rparr>"

record tradeResponse =
  te_id :: id
  te_clientId :: id
  te_client :: "safeUserDto option"
  te_instrument :: "tradeInstrumentDto option"
  te_side :: TradeSide
  te_status :: TradeStatus
  te_type :: TradeType
  te_settlementMethod :: SettlementMethod
  te_quantity :: decimal
  te_pricePerUnit :: decimal
  te_executedPrice :: "decimal option"
  te_quoteId :: "id option"
  te_priceSourceAsOf :: "time option"
  te_lockedBaseBuy :: "decimal option"
  te_lockedBaseSell :: "decimal option"
  te_lockedDisplayBuy :: "decimal option"
  te_lockedDisplaySell :: "decimal option"
  te_totalAmount :: decimal
  te_settlementPrice :: "decimal option"
  te_settlementAmount :: "decimal option"
  te_realizedPnl :: "decimal option"
  te_clientNote :: "string option"
  te_adminNote :: "string option"
  te_approvedBy :: "minimalUser option"
  te_approvedById :: "id option"
  te_approvedAt :: "time option"
  te_rejectedAt :: "time option"
  te_rejectReason :: "string option"
  te_reversedAt :: "time option"
  te_createdAt :: time
  te_updatedAt :: time

text \<open>What the list and the detail show of a trade; they differ in the price it was executed at.\<close>

definition tradeFields :: "decimal option \<Rightarrow> db \<Rightarrow> trade \<Rightarrow> tradeResponse" where
  "tradeFields executedPrice s t =
     \<lparr>te_id = td_id t, te_clientId = td_clientId t, te_client = toUserSafeDto (findUser (td_clientId t) s),
      te_instrument = map_option toInstrumentDto (instrumentById (td_instrumentId t) s), te_side = td_side t,
      te_status = td_status t, te_type = td_type t, te_settlementMethod = td_settlementMethod t,
      te_quantity = td_quantity t, te_pricePerUnit = td_pricePerUnit t, te_executedPrice = executedPrice,
      te_quoteId = td_quoteId t, te_priceSourceAsOf = td_priceSourceAsOf t, te_lockedBaseBuy = td_lockedBaseBuy t,
      te_lockedBaseSell = td_lockedBaseSell t, te_lockedDisplayBuy = td_lockedDisplayBuy t,
      te_lockedDisplaySell = td_lockedDisplaySell t, te_totalAmount = td_totalAmount t,
      te_settlementPrice = td_settlementPrice t, te_settlementAmount = td_settlementAmount t,
      te_realizedPnl = td_realizedPnl t, te_clientNote = td_clientNote t, te_adminNote = td_adminNote t,
      te_approvedBy = toUserMinimalDto (relatedUser (td_approvedById t) s), te_approvedById = td_approvedById t,
      te_approvedAt = td_approvedAt t, te_rejectedAt = td_rejectedAt t, te_rejectReason = td_rejectReason t,
      te_reversedAt = td_reversedAt t, te_createdAt = td_createdAt t, te_updatedAt = td_updatedAt t\<rparr>"

definition toTradeResponse :: "db \<Rightarrow> trade \<Rightarrow> tradeResponse" where
  "toTradeResponse s t = tradeFields (orElse (td_executedPrice t) (Some (td_pricePerUnit t))) s t"

definition tradesByStatus :: "TradeStatus option \<Rightarrow> db \<Rightarrow> tradeResponse list" where
  "tradesByStatus status s =
     map (toTradeResponse s) (sortBy (\<lambda>a b. td_createdAt a - td_createdAt b)
       (findMany (\<lambda>t. case status of None \<Rightarrow> True | Some x \<Rightarrow> td_status t = x) (trades s)))"

section \<open>The detail pages of the administrators\<close>

record accountTxDto =
  xd_id :: id
  xd_accountId :: id
  xd_createdAt :: time
  xd_type :: AccountTxType
  xd_refType :: TxRefType
  xd_refId :: "id option"
  xd_delta :: decimal
  xd_instrument :: "tradeInstrumentDto option"

text \<open>The account of the entry is shown by its identifier and its instrument.\<close>

definition toAccountTxDto :: "db \<Rightarrow> accountTx option \<Rightarrow> accountTxDto option" where
  "toAccountTxDto s accountTx = map_option (\<lambda>x.
     \<lparr>xd_id = tx_id x, xd_accountId = tx_accountId x, xd_createdAt = tx_createdAt x, xd_type = tx_type x,
      xd_refType = tx_refType x, xd_refId = tx_refId x, xd_delta = tx_delta x,
      xd_instrument = map_option toInstrumentDto
        (Option.bind (findAccount (tx_accountId x) s) (\<lambda>a. instrumentById (ac_instrumentId a) s))\<rparr>) accountTx"

definition relatedTx :: "id option \<Rightarrow> db \<Rightarrow> accountTx option" where
  "relatedTx i s = Option.bind i (\<lambda>i. findFirst (\<lambda>x. tx_id x = i) (accountTxs s))"

record adminFileDto =
  af_id :: id
  af_fileName :: string
  af_mimeType :: string
  af_sizeBytes :: nat
  af_label :: "string option"
  af_createdAt :: time

record adminAttachmentDto =
  aa_id :: id
  aa_fileId :: id
  aa_purpose :: "string option"
  aa_createdAt :: time
  aa_file :: "adminFileDto option"

definition mapAdminAttachment :: "db \<Rightarrow> attachment \<Rightarrow> adminAttachmentDto" where
  "mapAdminAttachment s a =
     \<lparr>aa_id = at_id a, aa_fileId = at_fileId a, aa_purpose = at_purpose a, aa_createdAt = at_createdAt a,
      aa_file = map_option (\<lambda>f. \<lparr>af_id = fi_id f, af_fileName = fi_fileName f, af_mimeType = fi_mimeType f,
        af_sizeBytes = fi_sizeBytes f, af_label = fi_label f, af_createdAt = fi_createdAt f\<rparr>) (findFile (at_fileId a) s)\<rparr>"

definition adminAttachments :: "AttachmentEntityType \<Rightarrow> id \<Rightarrow> db \<Rightarrow> adminAttachmentDto list" where
  "adminAttachments entityType entityId s =
     map (mapAdminAttachment s) (sortBy (\<lambda>a b. at_createdAt a - at_createdAt b)
       (findMany (\<lambda>a. at_entityId a = entityId \<and> at_entityType a = entityType) (attachments s)))"

record adminOutboxDto =
  ao_id :: id
  ao_status :: TahesabOutboxStatus
  ao_lastError :: "string option"
  ao_correlationId :: "string option"
  ao_method :: string
  ao_retryCount :: nat
  ao_tahesabFactorCode :: "string option"
  ao_createdAt :: time

definition toOutboxDto :: "tahesabOutbox \<Rightarrow> adminOutboxDto" where
  "toOutboxDto ob = \<lparr>ao_id = ob_id ob, ao_status = ob_status ob, ao_lastError = ob_lastError ob,
     ao_correlationId = ob_correlationId ob, ao_method = ob_method ob, ao_retryCount = ob_retryCount ob,
     ao_tahesabFactorCode = ob_tahesabFactorCode ob, ao_createdAt = ob_createdAt ob\<rparr>"

text \<open>\<open>findFirst({ where: { correlationId: id }, orderBy: { createdAt: 'desc' } })\<close>\<close>

definition newestOutboxOf :: "id \<Rightarrow> db \<Rightarrow> tahesabOutbox option" where
  "newestOutboxOf i s = findFirst (\<lambda>_. True)
     (sortBy (\<lambda>a b. ob_createdAt b - ob_createdAt a) (findMany (\<lambda>ob. ob_correlationId ob = Some i) (tahesabOutboxes s)))"

record adminDepositDetail =
  ad_id :: id
  ad_userId :: id
  ad_user :: "safeUserDto option"
  ad_amount :: decimal
  ad_method :: string
  ad_status :: DepositStatus
  ad_refNo :: "string option"
  ad_note :: "string option"
  ad_processedAt :: "time option"
  ad_processedById :: "id option"
  ad_processedBy :: "minimalUser option"
  ad_accountTx :: "accountTxDto option"
  ad_attachments :: "adminAttachmentDto list"
  ad_outbox :: "adminOutboxDto option"
  ad_createdAt :: time
  ad_updatedAt :: time

definition toDepositDetail ::
  "db \<Rightarrow> depositRequest \<Rightarrow> adminAttachmentDto list \<Rightarrow> tahesabOutbox option \<Rightarrow> adminDepositDetail" where
  "toDepositDetail s d atts outbox =
     \<lparr>ad_id = dp_id d, ad_userId = dp_userId d, ad_user = toUserSafeDto (findUser (dp_userId d) s), ad_amount = dp_amount d,
      ad_method = dp_method d, ad_status = dp_status d, ad_refNo = dp_refNo d, ad_note = dp_note d,
      ad_processedAt = dp_processedAt d, ad_processedById = dp_processedById d,
      ad_processedBy = toUserMinimalDto (relatedUser (dp_processedById d) s),
      ad_accountTx = toAccountTxDto s (relatedTx (dp_accountTxId d) s), ad_attachments = atts,
      ad_outbox = map_option toOutboxDto outbox, ad_createdAt = dp_createdAt d, ad_updatedAt = dp_updatedAt d\<rparr>"

definition depositDetail :: "id \<Rightarrow> db \<Rightarrow> err + adminDepositDetail" where
  "depositDetail i s =
     (case findDeposit i s of
        None \<Rightarrow> Inl (NotFoundException ''Deposit not found'')
      | Some d \<Rightarrow> Inr (toDepositDetail s d (adminAttachments AttachmentEntityType.DEPOSIT i s) (newestOutboxOf i s)))"

record adminWithdrawalDetail =
  aw_id :: id
  aw_userId :: id
  aw_user :: "safeUserDto option"
  aw_amount :: decimal
  aw_status :: WithdrawStatus
  aw_bankName :: "string option"
  aw_iban :: "string option"
  aw_cardNumber :: "string option"
  aw_note :: "string option"
  aw_processedAt :: "time option"
  aw_processedById :: "id option"
  aw_processedBy :: "minimalUser option"
  aw_accountTx :: "accountTxDto option"
  aw_attachments :: "adminAttachmentDto list"
  aw_outbox :: "adminOutboxDto option"
  aw_createdAt :: time
  aw_updatedAt :: time

definition toWithdrawalDetail ::
  "db \<Rightarrow> withdrawRequest \<Rightarrow> adminAttachmentDto list \<Rightarrow> tahesabOutbox option \<Rightarrow> adminWithdrawalDetail" where
  "toWithdrawalDetail s w atts outbox =
     \<lparr>aw_id = wd_id w, aw_userId = wd_userId w, aw_user = toUserSafeDto (findUser (wd_userId w) s), aw_amount = wd_amount w,
      aw_status = wd_status w, aw_bankName = wd_bankName w, aw_iban = wd_iban w, aw_cardNumber = wd_cardNumber w,
      aw_note = wd_note w, aw_processedAt = wd_processedAt w, aw_processedById = wd_processedById w,
      aw_processedBy = toUserMinimalDto (relatedUser (wd_processedById w) s),
      aw_accountTx = toAccountTxDto s (relatedTx (wd_accountTxId w) s), aw_attachments = atts,
      aw_outbox = map_option toOutboxDto outbox, aw_createdAt = wd_createdAt w, aw_updatedAt = wd_updatedAt w\<rparr>"

definition withdrawalDetail :: "id \<Rightarrow> db \<Rightarrow> err + adminWithdrawalDetail" where
  "withdrawalDetail i s =
     (case findWithdraw i s of
        None \<Rightarrow> Inl (NotFoundException ''Withdraw not found'')
      | Some w \<Rightarrow> Inr (toWithdrawalDetail s w (adminAttachments AttachmentEntityType.WITHDRAW i s) (newestOutboxOf i s)))"

record adminTradeDetail =
  ar_trade :: tradeResponse
  ar_attachments :: "adminAttachmentDto list"
  ar_outbox :: "adminOutboxDto option"

definition toTradeDetail :: "db \<Rightarrow> trade \<Rightarrow> adminAttachmentDto list \<Rightarrow> tahesabOutbox option \<Rightarrow> adminTradeDetail" where
  "toTradeDetail s t atts outbox =
     \<lparr>ar_trade = tradeFields (td_executedPrice t) s t, ar_attachments = atts, ar_outbox = map_option toOutboxDto outbox\<rparr>"

definition tradeDetail :: "id \<Rightarrow> db \<Rightarrow> err + adminTradeDetail" where
  "tradeDetail i s =
     (case findTrade i s of
        None \<Rightarrow> Inl (NotFoundException ''Trade not found'')
      | Some t \<Rightarrow> Inr (toTradeDetail s t (adminAttachments AttachmentEntityType.TRADE i s) (newestOutboxOf i s)))"

section \<open>Masks\<close>

text \<open>A withdrawal with every number replaced by its mask, and the name of its owner too.\<close>

definition maskNumber :: "string \<Rightarrow> string" where
  "maskNumber v = (if v = [] then [] else maskDestinationValue v)"

definition snapshotWithoutNumber :: "destinationSnapshot \<Rightarrow> destinationSnapshot" where
  "snapshotWithoutNumber d = d\<lparr>ds_value := map_option maskNumber (ds_value d), ds_ownerName := maskOwnerName (ds_ownerName d)\<rparr>"

definition withoutNumbers :: "withdrawRequest \<Rightarrow> withdrawRequest" where
  "withoutNumbers w = w\<lparr>wd_iban := map_option maskNumber (wd_iban w), wd_cardNumber := map_option maskNumber (wd_cardNumber w),
     wd_destinationSnapshot := map_option snapshotWithoutNumber (wd_destinationSnapshot w)\<rparr>"

abbreviation alike :: "withdrawRequest \<Rightarrow> withdrawRequest \<Rightarrow> bool" where
  "alike v w \<equiv> withoutNumbers v = withoutNumbers w"

lemma maskDestinationValue_ne: "maskDestinationValue v \<noteq> []"
  by (simp add: maskDestinationValue_def Let_def)

lemma same_number:
  assumes "map_option maskNumber a = map_option maskNumber b"
  shows "truthy a = truthy b" "maskedColumn a = maskedColumn b"
    "maskDestinationValue (withDefault a []) = maskDestinationValue (withDefault b [])"
proof -
  have ne: "(maskNumber v = []) = (v = [])" for v by (simp add: maskNumber_def maskDestinationValue_ne)
  have truthy_map: "truthy (map_option maskNumber v) = truthy v" for v by (cases v) (simp_all add: truthy_def ne)
  show t: "truthy a = truthy b" using truthy_map [of a] truthy_map [of b] assms by simp
  have column: "maskedColumn v = (if truthy v then map_option maskNumber v else None)" for v
    by (cases v) (simp_all add: maskedColumn_def truthy_def maskNumber_def)
  show "maskedColumn a = maskedColumn b" by (simp only: column t assms)
  have raw: "maskDestinationValue (withDefault v []) = withDefault (maskedColumn v) (maskDestinationValue [])" for v
    by (cases v) (simp_all add: maskedColumn_def truthy_def)
  show "maskDestinationValue (withDefault a []) = maskDestinationValue (withDefault b [])"
    by (simp only: raw column t assms)
qed

text \<open>The columns that two such rows share.\<close>

lemma alikeD:
  assumes "alike v w"
  shows "wd_id v = wd_id w" "wd_createdAt v = wd_createdAt w" "wd_updatedAt v = wd_updatedAt w" "wd_userId v = wd_userId w"
    "wd_amount v = wd_amount w" "wd_status v = wd_status w" "wd_purpose v = wd_purpose w" "wd_bankName v = wd_bankName w"
    "wd_note v = wd_note w" "wd_processedAt v = wd_processedAt w" "wd_processedById v = wd_processedById w"
    "wd_accountTxId v = wd_accountTxId w" "map_option maskNumber (wd_iban v) = map_option maskNumber (wd_iban w)"
    "map_option maskNumber (wd_cardNumber v) = map_option maskNumber (wd_cardNumber w)"
  using arg_cong [OF assms, of wd_id] arg_cong [OF assms, of wd_createdAt] arg_cong [OF assms, of wd_updatedAt]
    arg_cong [OF assms, of wd_userId] arg_cong [OF assms, of wd_amount] arg_cong [OF assms, of wd_status]
    arg_cong [OF assms, of wd_purpose] arg_cong [OF assms, of wd_bankName] arg_cong [OF assms, of wd_note]
    arg_cong [OF assms, of wd_processedAt] arg_cong [OF assms, of wd_processedById]
    arg_cong [OF assms, of wd_accountTxId] arg_cong [OF assms, of wd_iban] arg_cong [OF assms, of wd_cardNumber]
  by (simp_all add: withoutNumbers_def)

lemma alike_destination:
  assumes "alike v w"
  shows "resolveDestination v = resolveDestination w"
proof (cases "wd_destinationSnapshot v")
  case None
  with arg_cong [OF assms, of wd_destinationSnapshot] have none: "wd_destinationSnapshot w = None" by (simp add: withoutNumbers_def)
  have "map_option maskNumber (orElse (wd_iban v) (wd_cardNumber v)) =
      map_option maskNumber (orElse (wd_iban w) (wd_cardNumber w))"
    using alikeD(13,14) [OF assms] by (cases "wd_iban v"; cases "wd_iban w") (simp_all add: orElse_def)
  from same_number(3) [OF this] show ?thesis
    using None none same_number(1) [OF alikeD(13) [OF assms]] same_number(1) [OF alikeD(14) [OF assms]]
    by (simp add: resolveDestination_def Let_def alikeD(8) [OF assms])
next
  case (Some a)
  with arg_cong [OF assms, of wd_destinationSnapshot] obtain b where b: "wd_destinationSnapshot w = Some b"
      "snapshotWithoutNumber a = snapshotWithoutNumber b"
    by (cases "wd_destinationSnapshot w") (auto simp: withoutNumbers_def)
  have ab: "ds_type a = ds_type b" "ds_maskedValue a = ds_maskedValue b" "ds_bankName a = ds_bankName b"
      "map_option maskNumber (ds_value a) = map_option maskNumber (ds_value b)"
      "maskOwnerName (ds_ownerName a) = maskOwnerName (ds_ownerName b)"
    using arg_cong [OF b(2), of ds_type] arg_cong [OF b(2), of ds_maskedValue] arg_cong [OF b(2), of ds_bankName]
      arg_cong [OF b(2), of ds_value] arg_cong [OF b(2), of ds_ownerName] by (simp_all add: snapshotWithoutNumber_def)
  have shown: "(if truthy m then the m else if truthy v then maskDestinationValue (the v) else ''****'') =
      (if truthy m then the m else withDefault (maskedColumn v) ''****'')" for m v
    by (simp add: maskedColumn_def)
  show ?thesis
    by (simp only: resolveDestination_def Some b(1) option.case shown same_number(2) [OF ab(4)] ab alikeD(8) [OF assms])
qed

lemma alike_response:
  assumes "alike v w"
  shows "toWithdrawalResponse s v = toWithdrawalResponse s w"
  by (simp only: toWithdrawalResponse_def alikeD(1-12) [OF assms] alike_destination [OF assms]
      same_number(2) [OF alikeD(13) [OF assms]] same_number(2) [OF alikeD(14) [OF assms]])

section \<open>Properties\<close>

text \<open>
  The detail of an approved deposit tells the whole decision: its status, who decided, and the ledger entry, which
  is the amount of the deposit, filed under the deposit, on the client's rial wallet.
\<close>

theorem approved_deposit_shown:
  assumes "findDeposit i s = Some d0" and "dp_status d0 = DepositStatus.PENDING" and "dp_accountTxId d0 = None"
    and "deposits_ok s" and "approveDeposit cfg i nt admin s = Inr (d, t)"
  shows "\<exists>v x. depositDetail i t = Inr v \<and> ad_status v = DepositStatus.APPROVED \<and> ad_amount v = dp_amount d0 \<and>
    ad_processedById v = orElse (dp_processedById d0) (Some admin) \<and> ad_accountTx v = Some x \<and>
    xd_delta x = dp_amount d0 \<and> xd_refType x = TxRefType.DEPOSIT \<and> xd_refId x = Some i \<and>
    walletId (dp_userId d0) ''IRR'' t = Some (xd_accountId x)"
proof -
  from assms(5) obtain t' where 1: "approveDepositTx nt admin i s = Inr (d, t')" "side t' t"
    by (rule approveDeposit_split)
  have "\<not> truthy (dp_accountTxId d0)" using assms(3) by simp
  from approveDepositTx_effect [OF 1(1) assms(1) this] obtain w and x :: accountTx and s1 s2 where
    w: "walletId (dp_userId d0) IRR_INSTRUMENT_CODE t' = Some w"
    and d: "d = d0\<lparr>dp_updatedAt := db_now s, dp_status := DepositStatus.APPROVED,
          dp_processedAt := Some (withDefault (dp_processedAt d0) (db_now s)),
          dp_processedById := orElse (dp_processedById d0) (Some admin),
          dp_note := orElse nt (dp_note d0), dp_accountTxId := Some (tx_id x)\<rparr>"
    and x: "accountTxs t' = accountTxs s @ [x]" "tx_accountId x = w"
    and p: "quiet s s1" "posting TxRefType.DEPOSIT i (dp_amount d0) s1 s2" "quiet s2 t'" by metis
  have found: "findDeposit i t = Some d"
    using approveDepositTx_closes [OF 1(1)] assms(1,2) 1(2) by (auto simp: findDeposit_def side_sel d)
  have ok: "deposits_ok t'" using holdsE_D [OF deposits_ok_approve [OF assms(4)] 1(1)] by simp
  have "distinct (map tx_id (accountTxs t'))"
    using depositBooks.books_D(2) [OF deposits_okD(2) [OF ok]] by blast
  then have "relatedTx (dp_accountTxId d) t = Some x"
    using 1(2) by (auto simp: relatedTx_def d side_sel x(1) image_iff intro!: find_snoc_new)
  moreover have "tx_delta x = dp_amount d0" "tx_refType x = TxRefType.DEPOSIT" "tx_refId x = Some i"
    using p x(1) by (auto simp: quiet_def posting_def)
  ultimately show ?thesis
    using found w sameLedger_sums [OF side_ledger [OF 1(2)]]
    by (simp add: depositDetail_def toDepositDetail_def toAccountTxDto_def d x(2) IRR_INSTRUMENT_CODE_def)
qed

theorem approved_deposit_shown_witness:
  "\<exists>d t v x. approveDeposit noTahesab (unaryId 0) None ''root'' depositDb = Inr (d, t) \<and>
     depositDetail (unaryId 0) t = Inr v \<and> ad_accountTx v = Some x \<and> xd_delta x = 40 \<and> ad_processedById v = Some ''root''"
proof -
  obtain d t where a: "approveDeposit noTahesab (unaryId 0) None ''root'' depositDb = Inr (d, t)"
    by (rule cancel_after_approval [OF depositDb_ok depositDb_facts])
  have fields: "dp_processedById aliDeposit = None" "dp_amount aliDeposit = 40" by (simp_all add: aliDeposit_def)
  from approved_deposit_shown [OF depositDb_facts(1-3) depositDb_ok a] a show ?thesis
    by (auto simp: fields)
qed

end
