(* ===== verification/AdminLists.thy ===== *)
theory AdminLists
  imports Responses Queries TahesabAdmin Foundation
begin

text \<open>
  The paged lists of the administrators: deposits, withdrawals, trades, users, members of a group, groups, policy rules,
  the policy log, the KYC queue, the use of limits, files and the outbox. Each is a filter of a table, an order, a page and
  a count; every one of them is shown to be a cut of one ordered listing of the matching rows.
\<close>

section \<open>Ordered lists\<close>

text \<open>
  \<open>$transaction([findMany({ where, orderBy, skip, take }), count({ where })])\<close>. The order of the rows in a table of the
  model stands for the order in which the database comes upon them, and the sort keeps it among rows whose keys are equal.
  PostgreSQL does not promise this order, and it may be another one for the next query: what a page shows of such rows is
  known only for one order of the table at a time, and a statement about several requests has to say which order each of
  them saw.
\<close>

definition findPage :: "('r \<Rightarrow> bool) \<Rightarrow> ('r \<Rightarrow> 'r \<Rightarrow> int) \<Rightarrow> 'r list \<Rightarrow> rat \<Rightarrow> rat \<Rightarrow> 'r list \<times> int" where
  "findPage p cmp rows page limit =
     (let matching = findMany p rows in (pageOf (sortBy cmp matching) page limit, int (length matching)))"

definition wrapPage :: "('r \<Rightarrow> 'v) \<Rightarrow> 'r list \<times> int \<Rightarrow> rat \<Rightarrow> rat \<Rightarrow> 'v list \<times> pageMeta" where
  "wrapPage view found page limit = wrap (map view (fst found)) (snd found) page limit"

locale ordered_list =
  fixes lst :: "rat \<Rightarrow> rat \<Rightarrow> 'v list \<times> pageMeta" and rows :: "'r list" and view :: "'r \<Rightarrow> 'v"
    and before :: "'r \<Rightarrow> 'r \<Rightarrow> bool"
  assumes ordered_cut: "\<exists>xs. mset xs = mset rows \<and> sorted_wrt before xs \<and>
    (\<forall>page limit. lst page limit = (map view (pageOf xs page limit), meta (int (length xs)) page limit))"

sublocale ordered_list \<subseteq> page_list lst rows view
  using ordered_cut by unfold_locales blast

text \<open>
  A listing is complete when its pages, one after the other, show every row once and in order; a page has at most a hundred
  rows, and the count is that of all rows.
\<close>

definition listed ::
  "(rat \<Rightarrow> rat \<Rightarrow> 'v list \<times> pageMeta) \<Rightarrow> 'r list \<Rightarrow> ('r \<Rightarrow> 'v) \<Rightarrow> ('r \<Rightarrow> 'r \<Rightarrow> bool) \<Rightarrow> rat \<Rightarrow> rat \<Rightarrow> bool" where
  "listed lst rows view before page limit \<longleftrightarrow>
     (\<exists>xs. mset xs = mset rows \<and> sorted_wrt before xs \<and> allPages lst limit = map view xs) \<and>
     length (fst (lst page limit)) \<le> 100 \<and> pm_totalItems (snd (lst page limit)) = int (length rows)"

context ordered_list
begin

lemma in_order: "\<exists>xs. mset xs = mset rows \<and> sorted_wrt before xs \<and> allPages lst limit = map view xs"
proof -
  from ordered_cut obtain xs where xs: "mset xs = mset rows" "sorted_wrt before xs"
      "\<And>page limit. lst page limit = (map view (pageOf xs page limit), meta (int (length xs)) page limit)" by blast
  have "allPages lst limit = map view (concat (map (\<lambda>p. pageOf xs (of_int (int p + 1)) limit)
      [0..<nat (pm_totalPages (meta (int (length xs)) 1 limit))]))"
    by (simp add: allPages_def xs(3) map_concat comp_def)
  also have "\<dots> = map view xs" by (simp only: all_pages)
  finally show ?thesis using xs(1,2) by blast
qed

lemma complete: "listed lst rows view before page limit"
  using in_order page_bounded total_items by (simp add: listed_def)

end

lemma wrapped_list:
  assumes "comparator cmp key" and "\<And>page limit. lst page limit = wrapPage view (findPage p cmp t page limit) page limit"
  shows "ordered_list lst (filter p t) view (\<lambda>a b. key a \<le> key b)"
proof
  let ?xs = "sortBy cmp (filter p t)"
  have "sorted_wrt (\<lambda>a b. key a \<le> key b) ?xs"
    using comparator.sortBy_sorted [OF assms(1), of "filter p t"] by (simp add: sorted_map)
  then show "\<exists>xs. mset xs = mset (filter p t) \<and> sorted_wrt (\<lambda>a b. key a \<le> key b) xs \<and>
      (\<forall>page limit. lst page limit = (map view (pageOf xs page limit), meta (int (length xs)) page limit))"
    by (intro exI [of _ ?xs])
      (simp add: assms(2) wrapPage_def findPage_def Let_def wrap_def meta_sanitized sortBy_rows)
qed

lemma sanitized: "wrapPage view found (of_int (st_page (getSkipTake p l))) (of_int (st_limit (getSkipTake p l))) = wrapPage view found p l"
proof -
  have "getSkipTake (of_int (st_page (getSkipTake p l))) (of_int (st_limit (getSkipTake p l))) = getSkipTake p l"
    by (simp add: getSkipTake_def Let_def)
  then show ?thesis by (simp add: wrapPage_def wrap_def)
qed

section \<open>Deposits, withdrawals and trades\<close>

record 'st adminListQuery =
  lq_status :: "'st option"
  lq_userId :: "id option"
  lq_mobile :: "string option"
  lq_createdFrom :: "time option"
  lq_createdTo :: "time option"
  lq_amountFrom :: "decimal option"
  lq_amountTo :: "decimal option"
  lq_q :: "string option"

record adminTradesQuery = "TradeStatus adminListQuery" +
  lq_instrumentId :: "id option"
  lq_side :: "TradeSide option"

text \<open>A filter that is absent lets every row pass.\<close>

definition given :: "'a option \<Rightarrow> ('a \<Rightarrow> bool) \<Rightarrow> bool" where
  "given f p = (case f of None \<Rightarrow> True | Some x \<Rightarrow> p x)"

definition between :: "'a::order option \<Rightarrow> 'a option \<Rightarrow> 'a \<Rightarrow> bool" where
  "between low high x \<longleftrightarrow> given low (\<lambda>l. l \<le> x) \<and> given high (\<lambda>h. x \<le> h)"

definition hasMobile :: "string option \<Rightarrow> id \<Rightarrow> db \<Rightarrow> bool" where
  "hasMobile mobile userId s \<longleftrightarrow>
     (truthy mobile \<longrightarrow> (case findUser userId s of None \<Rightarrow> False | Some u \<Rightarrow> containsInsensitive (us_mobile u) (the mobile)))"

definition columnContains :: "string option \<Rightarrow> string \<Rightarrow> bool" where
  "columnContains column q = (case column of None \<Rightarrow> False | Some text \<Rightarrow> containsInsensitive text q)"

definition matchesDeposit :: "DepositStatus adminListQuery \<Rightarrow> db \<Rightarrow> depositRequest \<Rightarrow> bool" where
  "matchesDeposit query s d \<longleftrightarrow>
     given (lq_status query) (\<lambda>x. dp_status d = x) \<and> given (lq_userId query) (\<lambda>u. dp_userId d = u) \<and>
     between (lq_amountFrom query) (lq_amountTo query) (dp_amount d) \<and>
     between (lq_createdFrom query) (lq_createdTo query) (dp_createdAt d) \<and> hasMobile (lq_mobile query) (dp_userId d) s \<and>
     (truthy (lq_q query) \<longrightarrow> columnContains (dp_refNo d) (the (lq_q query)) \<or> dp_id d = the (lq_q query))"

definition listAdminDeposits ::
  "DepositStatus adminListQuery \<Rightarrow> rat \<Rightarrow> rat \<Rightarrow> db \<Rightarrow> depositResponse list \<times> pageMeta" where
  "listAdminDeposits query queryPage queryLimit s =
     (let st = getSkipTake queryPage queryLimit
      in wrapPage (toDepositResponse s)
           (findPage (matchesDeposit query s) compareDepositsDesc (depositRequests s) queryPage queryLimit)
           (of_int (st_page st)) (of_int (st_limit st)))"

definition matchesWithdrawal :: "WithdrawStatus adminListQuery \<Rightarrow> db \<Rightarrow> withdrawRequest \<Rightarrow> bool" where
  "matchesWithdrawal query s w \<longleftrightarrow>
     given (lq_status query) (\<lambda>x. wd_status w = x) \<and> given (lq_userId query) (\<lambda>u. wd_userId w = u) \<and>
     between (lq_amountFrom query) (lq_amountTo query) (wd_amount w) \<and>
     between (lq_createdFrom query) (lq_createdTo query) (wd_createdAt w) \<and> hasMobile (lq_mobile query) (wd_userId w) s \<and>
     (truthy (lq_q query) \<longrightarrow> wd_id w = the (lq_q query))"

definition listAdminWithdrawals ::
  "WithdrawStatus adminListQuery \<Rightarrow> rat \<Rightarrow> rat \<Rightarrow> db \<Rightarrow> withdrawalResponse list \<times> pageMeta" where
  "listAdminWithdrawals query queryPage queryLimit s =
     (let st = getSkipTake queryPage queryLimit
      in wrapPage (toWithdrawalResponse s)
           (findPage (matchesWithdrawal query s) compareWithdrawsDesc (withdrawRequests s) queryPage queryLimit)
           (of_int (st_page st)) (of_int (st_limit st)))"

definition matchesTrade :: "adminTradesQuery \<Rightarrow> db \<Rightarrow> trade \<Rightarrow> bool" where
  "matchesTrade query s t \<longleftrightarrow>
     given (lq_status query) (\<lambda>x. td_status t = x) \<and> given (lq_userId query) (\<lambda>u. td_clientId t = u) \<and>
     given (lq_instrumentId query) (\<lambda>i. td_instrumentId t = i) \<and> given (lq_side query) (\<lambda>x. td_side t = x) \<and>
     between (lq_amountFrom query) (lq_amountTo query) (td_totalAmount t) \<and>
     between (lq_createdFrom query) (lq_createdTo query) (td_createdAt t) \<and> hasMobile (lq_mobile query) (td_clientId t) s \<and>
     (truthy (lq_q query) \<longrightarrow> td_id t = the (lq_q query) \<or> columnContains (td_clientNote t) (the (lq_q query)))"

definition listAdminTrades :: "adminTradesQuery \<Rightarrow> rat \<Rightarrow> rat \<Rightarrow> db \<Rightarrow> tradeResponse list \<times> pageMeta" where
  "listAdminTrades query queryPage queryLimit s =
     (let st = getSkipTake queryPage queryLimit
      in wrapPage (toTradeResponse s)
           (findPage (matchesTrade query s) compareTradesDesc (trades s) queryPage queryLimit)
           (of_int (st_page st)) (of_int (st_limit st)))"

section \<open>Groups and their members\<close>

text \<open>\<open>collate\<close> is the order of strings of the database.\<close>

record groupRow =
  gr_id :: id
  gr_code :: string
  gr_name :: string
  gr_isDefault :: bool
  gr_tahesabGroupName :: "string option"
  gr_usersCount :: nat

definition toGroupRow :: "db \<Rightarrow> customerGroup \<Rightarrow> groupRow" where
  "toGroupRow s g = \<lparr>gr_id = cg_id g, gr_code = cg_code g, gr_name = cg_name g, gr_isDefault = cg_isDefault g,
     gr_tahesabGroupName = cg_tahesabGroupName g,
     gr_usersCount = length (findMany (\<lambda>u. us_customerGroupId u = Some (cg_id g)) (users s))\<rparr>"

definition listGroups :: "(string \<Rightarrow> string \<Rightarrow> int) \<Rightarrow> db \<Rightarrow> customerGroup list" where
  "listGroups collate s = sortBy (\<lambda>a b. collate (cg_code a) (cg_code b)) (customerGroups s)"

definition matchesGroup :: "string option \<Rightarrow> customerGroup \<Rightarrow> bool" where
  "matchesGroup q g \<longleftrightarrow> (truthy q \<longrightarrow> containsInsensitive (cg_code g) (the q) \<or> containsInsensitive (cg_name g) (the q) \<or>
     columnContains (cg_tahesabGroupName g) (the q))"

definition listPagedGroups ::
  "(string \<Rightarrow> string \<Rightarrow> int) \<Rightarrow> string option \<Rightarrow> rat \<Rightarrow> rat \<Rightarrow> db \<Rightarrow> groupRow list \<times> pageMeta" where
  "listPagedGroups collate q page limit s =
     wrapPage (toGroupRow s)
       (findPage (matchesGroup q) (\<lambda>a b. collate (cg_code a) (cg_code b)) (customerGroups s) page limit) page limit"

record groupUserRow =
  gu_user :: safeUser
  gu_customerGroup :: "(id \<times> string \<times> string \<times> string option) option"
  gu_kyc :: "(KycStatus \<times> KycLevel) option"

definition mapAdminGroupUserRow :: "db \<Rightarrow> user \<Rightarrow> groupUserRow" where
  "mapAdminGroupUserRow s u =
     \<lparr>gu_user = mapUserSafe u,
      gu_customerGroup = map_option (\<lambda>g. (cg_id g, cg_code g, cg_name g, cg_tahesabGroupName g)) (groupOf u s),
      gu_kyc = map_option (\<lambda>k. (uk_status k, uk_level k)) (findKyc (us_id u) s)\<rparr>"

definition matchesMember :: "id \<Rightarrow> string option \<Rightarrow> user \<Rightarrow> bool" where
  "matchesMember i q u \<longleftrightarrow> us_customerGroupId u = Some i \<and>
     (truthy q \<longrightarrow> containsInsensitive (us_fullName u) (the q) \<or> containsInsensitive (us_mobile u) (the q) \<or>
        containsInsensitive (us_email u) (the q) \<or> containsInsensitive (us_id u) (the q))"

definition listGroupUsers :: "id \<Rightarrow> string option \<Rightarrow> rat \<Rightarrow> rat \<Rightarrow> db \<Rightarrow> groupUserRow list \<times> pageMeta" where
  "listGroupUsers i q queryPage queryLimit s =
     (let st = getSkipTake queryPage queryLimit
      in wrapPage (mapAdminGroupUserRow s) (findPage (matchesMember i q) compareNewest (users s) queryPage queryLimit)
           (of_int (st_page st)) (of_int (st_limit st)))"

section \<open>Rules, the log of the policies, the KYC queue and the use of limits\<close>

record rulesQuery =
  rq_scopeType :: "PolicyScopeType option"
  rq_customerGroupId :: "id option"
  rq_userId :: "id option"
  rq_productId :: "id option"
  rq_instrumentId :: "id option"
  rq_instrumentType :: "InstrumentType option"
  rq_action :: "PolicyAction option"
  rq_metric :: "PolicyMetric option"
  rq_period :: "PolicyPeriod option"

definition matchesRulesQuery :: "rulesQuery \<Rightarrow> policyRule \<Rightarrow> bool" where
  "matchesRulesQuery query r \<longleftrightarrow>
     given (rq_scopeType query) (\<lambda>x. pr_scopeType r = x) \<and>
     (truthy (rq_customerGroupId query) \<longrightarrow> pr_scopeGroupId r = rq_customerGroupId query) \<and>
     (truthy (rq_userId query) \<longrightarrow> pr_scopeUserId r = rq_userId query) \<and>
     (truthy (rq_productId query) \<longrightarrow> pr_productId r = rq_productId query) \<and>
     (truthy (rq_instrumentId query) \<longrightarrow> pr_instrumentId r = rq_instrumentId query) \<and>
     given (rq_instrumentType query) (\<lambda>x. pr_instrumentType r = Some x) \<and> given (rq_action query) (\<lambda>x. pr_action r = x) \<and>
     given (rq_metric query) (\<lambda>x. pr_metric r = x) \<and> given (rq_period query) (\<lambda>x. pr_period r = x)"

definition comparePriority :: "policyRule \<Rightarrow> policyRule \<Rightarrow> int" where
  "comparePriority a b =
     (if pr_priority a \<noteq> pr_priority b then pr_priority a - pr_priority b else pr_updatedAt b - pr_updatedAt a)"

definition listPolicyRules :: "rulesQuery \<Rightarrow> rat \<Rightarrow> rat \<Rightarrow> db \<Rightarrow> policyRule list \<times> pageMeta" where
  "listPolicyRules query queryPage queryLimit s =
     (let st = getSkipTake queryPage queryLimit
      in wrapPage id (findPage (matchesRulesQuery query) comparePriority (policyRules s) queryPage queryLimit)
           (of_int (st_page st)) (of_int (st_limit st)))"

record auditQuery =
  aq_entityType :: "PolicyAuditEntityType option"
  aq_entityId :: "id option"
  aq_actorId :: "id option"

definition matchesAudit :: "auditQuery \<Rightarrow> policyAuditLog \<Rightarrow> bool" where
  "matchesAudit query l \<longleftrightarrow> given (aq_entityType query) (\<lambda>x. pa_entityType l = x) \<and>
     (truthy (aq_entityId query) \<longrightarrow> Some (pa_entityId l) = aq_entityId query) \<and>
     (truthy (aq_actorId query) \<longrightarrow> pa_actorId l = aq_actorId query)"

definition listPolicyAudit :: "auditQuery \<Rightarrow> rat \<Rightarrow> rat \<Rightarrow> db \<Rightarrow> policyAuditLog list \<times> pageMeta" where
  "listPolicyAudit query queryPage queryLimit s =
     (let st = getSkipTake queryPage queryLimit
      in wrapPage id
           (findPage (matchesAudit query) (\<lambda>a b. pa_createdAt b - pa_createdAt a) (policyAuditLogs s) queryPage queryLimit)
           (of_int (st_page st)) (of_int (st_limit st)))"

text \<open>
  \<open>queue\<close>: the row \<open>kyc\<close> is the row the query included the user in, so it carries the whole user; what keeps the hash of
  the password from the client is \<open>SensitiveFieldsInterceptor\<close>.
\<close>

record kycQueueRow =
  kq_user :: "(id \<times> string \<times> string \<times> string) option"
  kq_kyc :: "userKyc \<times> user option"
  kq_submittedAt :: time

definition toKycQueueRow :: "db \<Rightarrow> userKyc \<Rightarrow> kycQueueRow" where
  "toKycQueueRow s k =
     (let u = findUser (uk_userId k) s
      in \<lparr>kq_user = map_option (\<lambda>u. (us_id u, us_fullName u, us_mobile u, us_email u)) u, kq_kyc = (k, u),
          kq_submittedAt = uk_updatedAt k\<rparr>)"

definition matchesKyc :: "KycStatus option \<Rightarrow> KycLevel option \<Rightarrow> userKyc \<Rightarrow> bool" where
  "matchesKyc status level k \<longleftrightarrow> given status (\<lambda>x. uk_status k = x) \<and> given level (\<lambda>x. uk_level k = x)"

definition kycQueue :: "KycStatus option \<Rightarrow> KycLevel option \<Rightarrow> rat \<Rightarrow> rat \<Rightarrow> db \<Rightarrow> kycQueueRow list \<times> pageMeta" where
  "kycQueue status level queryPage queryLimit s =
     (let st = getSkipTake queryPage queryLimit
      in wrapPage (toKycQueueRow s)
           (findPage (matchesKyc status level) (\<lambda>a b. uk_updatedAt b - uk_updatedAt a) (userKycs s) queryPage queryLimit)
           (of_int (st_page st)) (of_int (st_limit st)))"

text \<open>The rows of the limits have no \<open>updatedAt\<close> in the model; it is an argument.\<close>

record usageQuery =
  xq_periodKey :: "string option"
  xq_action :: "PolicyAction option"
  xq_metric :: "PolicyMetric option"
  xq_instrumentKey :: "string option"

definition matchesUsage :: "id \<Rightarrow> usageQuery \<Rightarrow> limitUsage \<Rightarrow> bool" where
  "matchesUsage userId query u \<longleftrightarrow> lu_userId u = userId \<and>
     (truthy (xq_periodKey query) \<longrightarrow> Some (lu_periodKey u) = xq_periodKey query) \<and>
     given (xq_action query) (\<lambda>x. lu_action u = x) \<and> given (xq_metric query) (\<lambda>x. lu_metric u = x) \<and>
     (truthy (xq_instrumentKey query) \<longrightarrow> Some (lu_instrumentKey u) = xq_instrumentKey query)"

definition listLimitUsage ::
  "(limitUsage \<Rightarrow> time) \<Rightarrow> id \<Rightarrow> usageQuery \<Rightarrow> rat \<Rightarrow> rat \<Rightarrow> db \<Rightarrow> limitUsage list \<times> pageMeta" where
  "listLimitUsage updatedAt userId query queryPage queryLimit s =
     (let st = getSkipTake queryPage queryLimit
      in wrapPage id
           (findPage (matchesUsage userId query) (\<lambda>a b. updatedAt b - updatedAt a) (limitUsages s) queryPage queryLimit)
           (of_int (st_page st)) (of_int (st_limit st)))"

definition matchesReservation :: "id \<Rightarrow> LimitReservationStatus option \<Rightarrow> limitReservation \<Rightarrow> bool" where
  "matchesReservation userId status r \<longleftrightarrow> lr_userId r = userId \<and> given status (\<lambda>x. lr_status r = x)"

definition listLimitReservations ::
  "(limitReservation \<Rightarrow> time) \<Rightarrow> id \<Rightarrow> LimitReservationStatus option \<Rightarrow> rat \<Rightarrow> rat \<Rightarrow> db \<Rightarrow> limitReservation list \<times> pageMeta" where
  "listLimitReservations updatedAt userId status queryPage queryLimit s =
     (let st = getSkipTake queryPage queryLimit
      in wrapPage id
           (findPage (matchesReservation userId status) (\<lambda>a b. updatedAt b - updatedAt a) (limitReservations s) queryPage queryLimit)
           (of_int (st_page st)) (of_int (st_limit st)))"

section \<open>Files\<close>

record filesQuery =
  fq_label :: "string option"
  fq_mimeType :: "string option"
  fq_createdFrom :: "time option"
  fq_createdTo :: "time option"

record adminFilesQuery = filesQuery +
  fq_uploadedById :: "id option"
  fq_storageKeyPrefix :: "string option"

text \<open>\<open>buildFileWhere\<close>, and the two overrides.\<close>

definition matchesFile :: "'q filesQuery_scheme \<Rightarrow> fileRow \<Rightarrow> bool" where
  "matchesFile query f \<longleftrightarrow>
     (truthy (fq_label query) \<longrightarrow> columnContains (fi_label f) (the (fq_label query))) \<and>
     given (fq_mimeType query) (\<lambda>m. fi_mimeType f = m) \<and>
     between (fq_createdFrom query) (fq_createdTo query) (fi_createdAt f)"

definition matchesMyFile :: "id \<Rightarrow> filesQuery \<Rightarrow> fileRow \<Rightarrow> bool" where
  "matchesMyFile actorId query f \<longleftrightarrow> fi_uploadedById f = actorId \<and> matchesFile query f"

definition matchesAdminFile :: "adminFilesQuery \<Rightarrow> fileRow \<Rightarrow> bool" where
  "matchesAdminFile query f \<longleftrightarrow> given (fq_uploadedById query) (\<lambda>u. fi_uploadedById f = u) \<and>
     (truthy (fq_storageKeyPrefix query) \<longrightarrow> startsWith (fi_storageKey f) (the (fq_storageKeyPrefix query))) \<and>
     matchesFile query f"

definition queryFiles :: "(fileRow \<Rightarrow> bool) \<Rightarrow> rat option \<Rightarrow> rat option \<Rightarrow> db \<Rightarrow> fileRow list \<times> int" where
  "queryFiles p queryPage queryLimit s =
     (let page = max (trunc (withDefault queryPage 1)) 1; limit = min (max (trunc (withDefault queryLimit 20)) 1) 100;
          matching = findMany p (fileRows s)
      in (take (nat limit) (drop (nat ((page - 1) * limit)) (sortBy (\<lambda>a b. fi_createdAt b - fi_createdAt a) matching)),
          int (length matching)))"

text \<open>The controllers resolve the page first, and answer the page and its numbers.\<close>

definition filesPage ::
  "(fileRow \<Rightarrow> bool) \<Rightarrow> (fileRow \<Rightarrow> 'v) \<Rightarrow> rat option \<Rightarrow> rat option \<Rightarrow> rat option \<Rightarrow> db \<Rightarrow> 'v list \<times> pageMeta" where
  "filesPage p view queryPage queryLimit queryOffset s =
     (let r = resolvePaging queryPage queryLimit queryOffset; page = of_int (fst r); limit = of_int (fst (snd r));
          found = queryFiles p (Some page) (Some limit) s
      in (map view (fst found), meta (snd found) page limit))"

definition shownFile :: "fileRow \<Rightarrow> adminFileDto" where
  "shownFile f = \<lparr>af_id = fi_id f, af_fileName = fi_fileName f, af_mimeType = fi_mimeType f,
     af_sizeBytes = fi_sizeBytes f, af_label = fi_label f, af_createdAt = fi_createdAt f\<rparr>"

definition listMyFiles ::
  "id \<Rightarrow> filesQuery \<Rightarrow> rat option \<Rightarrow> rat option \<Rightarrow> rat option \<Rightarrow> db \<Rightarrow> adminFileDto list \<times> pageMeta" where
  "listMyFiles userId query = filesPage (matchesMyFile userId query) shownFile"

definition listAdminFiles ::
  "adminFilesQuery \<Rightarrow> rat option \<Rightarrow> rat option \<Rightarrow> rat option \<Rightarrow> db \<Rightarrow> (adminFileDto \<times> id \<times> string) list \<times> pageMeta" where
  "listAdminFiles query = filesPage (matchesAdminFile query) (\<lambda>f. (shownFile f, fi_uploadedById f, fi_storageKey f))"

lemma files_list:
  "ordered_list (\<lambda>page limit. filesPage p view (Some page) (Some limit) offset s) (filter p (fileRows s)) view
     (\<lambda>a b. - fi_createdAt a \<le> - fi_createdAt b)"
proof (rule wrapped_list [where cmp = "\<lambda>a b. fi_createdAt b - fi_createdAt a"])
  show "comparator (\<lambda>a b. fi_createdAt b - fi_createdAt a) (\<lambda>a. - fi_createdAt a)" by unfold_locales simp
  have "st_take (getSkipTake page limit) = min (max (trunc limit) 1) 100"
    "st_skip (getSkipTake page limit) = (max (trunc page) 1 - 1) * min (max (trunc limit) 1) 100"
    "meta n (of_int (max (trunc page) 1)) (of_int (min (max (trunc limit) 1) 100)) = meta n page limit"
    for page limit n
    by (simp_all add: getSkipTake_def meta_def Let_def max.commute)
  then show "filesPage p view (Some page) (Some limit) offset s = wrapPage view
      (findPage p (\<lambda>a b. fi_createdAt b - fi_createdAt a) (fileRows s) page limit) page limit" for page limit
    by (simp add: filesPage_def queryFiles_def resolvePaging_def wrapPage_def findPage_def wrap_def pageOf_def Let_def
        meta_sanitized withDefault_def)
qed

section \<open>The lists of the program\<close>

text \<open>Newest first, as most of the lists are.\<close>

lemma newest: "comparator (\<lambda>a b. t b - t a) (\<lambda>a. - (t a :: int))"
  by unfold_locales simp

lemma newest_list:
  fixes time :: "'r \<Rightarrow> int"
  assumes "\<And>page limit. lst page limit =
      wrapPage view (findPage p (\<lambda>a b. time b - time a) t page limit) page limit"
  shows "ordered_list lst (filter p t) view (\<lambda>a b. time b \<le> time a)"
  using wrapped_list [OF newest assms] by simp

interpretation depositList: ordered_list "\<lambda>page limit. listAdminDeposits query page limit s"
    "filter (matchesDeposit query s) (depositRequests s)" "toDepositResponse s" "\<lambda>a b. dp_createdAt b \<le> dp_createdAt a"
  for query s
  by (rule newest_list) (simp add: listAdminDeposits_def Let_def sanitized compareDepositsDesc_def [abs_def])

interpretation withdrawalList: ordered_list "\<lambda>page limit. listAdminWithdrawals query page limit s"
    "filter (matchesWithdrawal query s) (withdrawRequests s)" "toWithdrawalResponse s" "\<lambda>a b. wd_createdAt b \<le> wd_createdAt a"
  for query s
  by (rule newest_list) (simp add: listAdminWithdrawals_def Let_def sanitized compareWithdrawsDesc_def [abs_def])

interpretation tradeList: ordered_list "\<lambda>page limit. listAdminTrades query page limit s"
    "filter (matchesTrade query s) (trades s)" "toTradeResponse s" "\<lambda>a b. td_createdAt b \<le> td_createdAt a"
  for query s
  by (rule newest_list) (simp add: listAdminTrades_def Let_def sanitized compareTradesDesc_def [abs_def])

interpretation userList: ordered_list "\<lambda>page limit. listAdminUsers query page limit s"
    "filter (matchesUsersQuery query s) (users s)" "\<lambda>u. (mapUserSafe u, findKyc (us_id u) s)"
    "\<lambda>a b. us_createdAt b \<le> us_createdAt a"
  for query s
  by (rule newest_list) (simp add: listAdminUsers_def Let_def wrapPage_def findPage_def compareNewest_def [abs_def])

interpretation memberList: ordered_list "\<lambda>page limit. listGroupUsers i q page limit s"
    "filter (matchesMember i q) (users s)" "mapAdminGroupUserRow s" "\<lambda>a b. us_createdAt b \<le> us_createdAt a"
  for i q s
  by (rule newest_list) (simp add: listGroupUsers_def Let_def sanitized compareNewest_def [abs_def])

interpretation auditList: ordered_list "\<lambda>page limit. listPolicyAudit query page limit s"
    "filter (matchesAudit query) (policyAuditLogs s)" id "\<lambda>a b. pa_createdAt b \<le> pa_createdAt a"
  for query s
  by (rule newest_list) (simp add: listPolicyAudit_def Let_def sanitized)

interpretation kycList: ordered_list "\<lambda>page limit. kycQueue status level page limit s"
    "filter (matchesKyc status level) (userKycs s)" "toKycQueueRow s" "\<lambda>a b. uk_updatedAt b \<le> uk_updatedAt a"
  for status level s
  by (rule newest_list) (simp add: kycQueue_def Let_def sanitized)

interpretation usageList: ordered_list "\<lambda>page limit. listLimitUsage updatedAt i query page limit s"
    "filter (matchesUsage i query) (limitUsages s)" id "\<lambda>a b. updatedAt b \<le> updatedAt a"
  for updatedAt i query s
  by (rule newest_list) (simp add: listLimitUsage_def Let_def sanitized)

interpretation reservationList: ordered_list "\<lambda>page limit. listLimitReservations updatedAt i status page limit s"
    "filter (matchesReservation i status) (limitReservations s)" id "\<lambda>a b. updatedAt b \<le> updatedAt a"
  for updatedAt i status s
  by (rule newest_list) (simp add: listLimitReservations_def Let_def sanitized)

interpretation outboxList: ordered_list "\<lambda>page limit. listOutbox query page limit s"
    "filter (matchesOutboxQuery query) (tahesabOutboxes s)" id "\<lambda>a b. ob_createdAt b \<le> ob_createdAt a"
  for query s
  by (rule newest_list) (simp add: listOutbox_def Let_def wrapPage_def findPage_def compareCreated_def [abs_def])

interpretation myFileList: ordered_list "\<lambda>page limit. listMyFiles i query (Some page) (Some limit) offset s"
    "filter (matchesMyFile i query) (fileRows s)" shownFile "\<lambda>a b. - fi_createdAt a \<le> - fi_createdAt b"
  for i query offset s
  unfolding listMyFiles_def by (rule files_list)

interpretation fileList: ordered_list "\<lambda>page limit. listAdminFiles query (Some page) (Some limit) offset s"
    "filter (matchesAdminFile query) (fileRows s)" "\<lambda>f. (shownFile f, fi_uploadedById f, fi_storageKey f)"
    "\<lambda>a b. - fi_createdAt a \<le> - fi_createdAt b"
  for query offset s
  unfolding listAdminFiles_def by (rule files_list)

interpretation ruleList: ordered_list "\<lambda>page limit. listPolicyRules query page limit s"
    "filter (matchesRulesQuery query) (policyRules s)" id
    "\<lambda>a b. (pr_priority a, - pr_updatedAt a) \<le> (pr_priority b, - pr_updatedAt b)"
  for query s
proof (rule wrapped_list [where cmp = comparePriority])
  show "comparator comparePriority (\<lambda>a. (pr_priority a, - pr_updatedAt a))"
    by unfold_locales (auto simp: comparePriority_def)
qed (simp add: listPolicyRules_def Let_def sanitized)

interpretation groupList: page_list "\<lambda>page limit. listPagedGroups collate q page limit s"
    "filter (matchesGroup q) (customerGroups s)" "toGroupRow s"
  for collate q s
  by (rule cut_sorted [where xs = "sortBy (\<lambda>a b. collate (cg_code a) (cg_code b)) (filter (matchesGroup q) (customerGroups s))"])
    (simp_all add: sortBy_rows listPagedGroups_def wrapPage_def findPage_def Let_def)

section \<open>Properties\<close>

text \<open>
  The paged lists that share \<open>findPage\<close>, for one order of the rows of the table: for every filter, page and page size, the
  pages of deposits, of withdrawals, of trades, of users, of the members of a group, of the log, of the KYC queue, of the
  outbox and of the files of a user put together show every row their filter lets pass exactly once, newest first; the rules
  come by their priority, and then newest first; no page has more than a hundred rows, and the count is that of these rows.
\<close>

theorem admin_lists_complete:
  "listed (\<lambda>p l. listAdminDeposits dq p l s) (filter (matchesDeposit dq s) (depositRequests s)) (toDepositResponse s)
     (\<lambda>a b. dp_createdAt b \<le> dp_createdAt a) page limit \<and>
   listed (\<lambda>p l. listAdminWithdrawals wq p l s) (filter (matchesWithdrawal wq s) (withdrawRequests s))
     (toWithdrawalResponse s) (\<lambda>a b. wd_createdAt b \<le> wd_createdAt a) page limit \<and>
   listed (\<lambda>p l. listAdminTrades tq p l s) (filter (matchesTrade tq s) (trades s)) (toTradeResponse s)
     (\<lambda>a b. td_createdAt b \<le> td_createdAt a) page limit \<and>
   listed (\<lambda>p l. listAdminUsers uq p l s) (filter (matchesUsersQuery uq s) (users s))
     (\<lambda>u. (mapUserSafe u, findKyc (us_id u) s)) (\<lambda>a b. us_createdAt b \<le> us_createdAt a) page limit \<and>
   listed (\<lambda>p l. listGroupUsers g q p l s) (filter (matchesMember g q) (users s)) (mapAdminGroupUserRow s)
     (\<lambda>a b. us_createdAt b \<le> us_createdAt a) page limit \<and>
   listed (\<lambda>p l. listPolicyAudit aq p l s) (filter (matchesAudit aq) (policyAuditLogs s)) id
     (\<lambda>a b. pa_createdAt b \<le> pa_createdAt a) page limit \<and>
   listed (\<lambda>p l. kycQueue status level p l s) (filter (matchesKyc status level) (userKycs s)) (toKycQueueRow s)
     (\<lambda>a b. uk_updatedAt b \<le> uk_updatedAt a) page limit \<and>
   listed (\<lambda>p l. listOutbox oq p l s) (filter (matchesOutboxQuery oq) (tahesabOutboxes s)) id
     (\<lambda>a b. ob_createdAt b \<le> ob_createdAt a) page limit \<and>
   listed (\<lambda>p l. listMyFiles i mq (Some p) (Some l) None s) (filter (matchesMyFile i mq) (fileRows s)) shownFile
     (\<lambda>a b. - fi_createdAt a \<le> - fi_createdAt b) page limit \<and>
   listed (\<lambda>p l. listPolicyRules rq p l s) (filter (matchesRulesQuery rq) (policyRules s)) id
     (\<lambda>a b. (pr_priority a, - pr_updatedAt a) \<le> (pr_priority b, - pr_updatedAt b)) page limit"
  by (intro conjI depositList.complete withdrawalList.complete tradeList.complete userList.complete memberList.complete
      auditList.complete kycList.complete outboxList.complete myFileList.complete ruleList.complete)

text \<open>Lists of rows that differ only in their numbers stay so through a filter, an order and a page.\<close>

lemma insertBy_related:
  assumes "\<And>a b c d. R a b \<Longrightarrow> R c d \<Longrightarrow> cmp a c = cmp b d" and "R x y" and "list_all2 R xs ys"
  shows "list_all2 R (insertBy cmp x xs) (insertBy cmp y ys)"
  using assms(3)
proof (induction xs ys rule: list_all2_induct)
  case (Cons a xs b ys)
  then show ?case using assms(1) [OF assms(2) Cons.hyps(1)] assms(2) by simp
qed (simp add: assms(2))

lemma sortBy_related:
  assumes "\<And>a b c d. R a b \<Longrightarrow> R c d \<Longrightarrow> cmp a c = cmp b d" and "list_all2 R xs ys"
  shows "list_all2 R (sortBy cmp xs) (sortBy cmp ys)"
  using assms(2)
proof (induction xs ys rule: list_all2_induct)
  case (Cons a xs b ys)
  show ?case
    unfolding sortBy_def foldr.simps comp_apply
    using insertBy_related [of R cmp, OF assms(1) Cons.hyps(1) Cons.IH [unfolded sortBy_def]] by blast
qed (simp add: sortBy_def)

lemma filter_related:
  assumes "list_all2 R xs ys" and "\<And>a b. R a b \<Longrightarrow> p a = q b"
  shows "list_all2 R (filter p xs) (filter q ys)"
  using assms by (induction xs ys rule: list_all2_induct) auto

lemma map_related: "list_all2 R xs ys \<Longrightarrow> (\<And>a b. R a b \<Longrightarrow> f a = g b) \<Longrightarrow> map f xs = map g ys"
  by (induction xs ys rule: list_all2_induct) auto

lemma alike_list:
  assumes "list_all2 alike xs ys" and "\<And>a b. alike a b \<Longrightarrow> p a = p b"
    and "\<And>a b c d. alike a b \<Longrightarrow> alike c d \<Longrightarrow> cmp a c = cmp b d"
  shows "list_all2 alike (sortBy cmp (filter p xs)) (sortBy cmp (filter p ys))"
  by (rule sortBy_related [OF assms(3) filter_related [OF assms(1,2)]])

text \<open>
  C25. The withdrawals that are listed tell of a bank number only its mask, and of the owner of a destination only the
  masked name: whatever rows the table held instead, with the same masks, the owner's list, the list by status and every
  page of the administrators' list would be the same.
\<close>

theorem withdrawal_lists_masked:
  assumes "map withoutNumbers ws = map withoutNumbers (withdrawRequests s)"
  shows "myWithdrawals userId (s\<lparr>withdrawRequests := ws\<rparr>) = myWithdrawals userId s \<and>
    withdrawalsByStatus status (s\<lparr>withdrawRequests := ws\<rparr>) = withdrawalsByStatus status s \<and>
    listAdminWithdrawals query page limit (s\<lparr>withdrawRequests := ws\<rparr>) = listAdminWithdrawals query page limit s"
proof -
  let ?t = "s\<lparr>withdrawRequests := ws\<rparr>"
  have rows: "list_all2 alike (withdrawRequests ?t) (withdrawRequests s)"
    using assms by (simp add: list_all2_map1 list_all2_map2 flip: list.rel_eq)
  have view: "toWithdrawalResponse ?t a = toWithdrawalResponse s b" if "alike a b" for a b
    using alike_response [OF that, of s] by (simp add: toWithdrawalResponse_def findUser_def relatedUser_def)
  have desc: "compareWithdrawsDesc a c = compareWithdrawsDesc b d" if "alike a b" "alike c d" for a b c d
    by (simp only: compareWithdrawsDesc_def alikeD(2) [OF that(1)] alikeD(2) [OF that(2)])
  have asc: "wd_createdAt a - wd_createdAt c = wd_createdAt b - wd_createdAt d" if "alike a b" "alike c d" for a b c d
    by (simp only: alikeD(2) [OF that(1)] alikeD(2) [OF that(2)])
  have mine: "(wd_userId a = userId) = (wd_userId b = userId)" and st: "given status (\<lambda>x. wd_status a = x) = given status (\<lambda>x. wd_status b = x)"
    and match: "matchesWithdrawal query s a = matchesWithdrawal query s b" if "alike a b" for a b
    by (simp_all only: matchesWithdrawal_def alikeD(1-6) [OF that])
  have same: "matchesWithdrawal query ?t = matchesWithdrawal query s"
    by (simp add: matchesWithdrawal_def hasMobile_def findUser_def fun_eq_iff)
  note sorted = alike_list [OF rows match desc]
  have "list_all2 alike (pageOf (sortBy compareWithdrawsDesc (filter (matchesWithdrawal query s) (withdrawRequests ?t))) page limit)
      (pageOf (sortBy compareWithdrawsDesc (filter (matchesWithdrawal query s) (withdrawRequests s))) page limit)"
    unfolding pageOf_def Let_def by (intro list_all2_takeI list_all2_dropI sorted)
  from map_related [OF this view] map_related [OF alike_list [OF rows mine desc] view]
    map_related [OF alike_list [OF rows st asc] view] list_all2_lengthD [OF filter_related [OF rows match]]
  show ?thesis
    by (simp only: myWithdrawals_def findMyWithdrawals_def withdrawalsByStatus_def given_def listAdminWithdrawals_def
        wrapPage_def findPage_def Let_def same fst_conv snd_conv)
qed

definition bankRow :: "string \<Rightarrow> withdrawRequest" where
  "bankRow iban = \<lparr>wd_id = ''w'', wd_createdAt = 0, wd_updatedAt = 0, wd_userId = ''ali'', wd_amount = 60,
     wd_status = WithdrawStatus.PENDING, wd_purpose = RequestPurpose.DIRECT, wd_channel = None, wd_bankName = None,
     wd_iban = Some iban, wd_cardNumber = None, wd_payoutDestinationId = None, wd_destinationSnapshot = None,
     wd_assignedAmountTotal = 0, wd_settledAmountTotal = 0, wd_note = None, wd_processedAt = None, wd_processedById = None,
     wd_accountTxId = None, wd_idempotencyKey = None\<rparr>"

theorem withdrawal_lists_masked_witness:
  "myWithdrawals ''ali'' (emptyDb\<lparr>withdrawRequests := [bankRow ''IR11112345'']\<rparr>) =
     myWithdrawals ''ali'' (emptyDb\<lparr>withdrawRequests := [bankRow ''IR99992345'']\<rparr>) \<and>
   map we_iban (myWithdrawals ''ali'' (emptyDb\<lparr>withdrawRequests := [bankRow ''IR99992345'']\<rparr>)) = [Some ''****2345'']"
proof -
  have "map withoutNumbers [bankRow ''IR11112345''] =
      map withoutNumbers (withdrawRequests (emptyDb\<lparr>withdrawRequests := [bankRow ''IR99992345'']\<rparr>))"
    by (simp add: withoutNumbers_def bankRow_def maskNumber_def maskDestinationValue_def lastN_def trim_def isSpace_def)
  from withdrawal_lists_masked [OF this, of "''ali''"] show ?thesis
    by (simp add: myWithdrawals_def findMyWithdrawals_def sortBy_def toWithdrawalResponse_def maskedColumn_def
        bankRow_def maskDestinationValue_def lastN_def trim_def isSpace_def)
qed

end
