(* ===== verification/P2PLists.thy ===== *)
theory P2PLists
  imports P2PViews AdminLists
begin

text \<open>
  The lists of \<open>p2p-allocations.service.ts\<close>: the candidates for a withdrawal, the allocations a user pays or receives,
  and the administrators' list of allocations, a raw SQL query with joins and a grouping. The parameters of each are read
  first, the status list as text. Each list is shown to be a cut of one ordered listing of the matching rows, the one in
  SQL too. Where a sort leaves rows equal the database may return them in any order, and in another one for the next page:
  here they keep the order of the table, and the property of the lists lets every page see the rows of the table in an
  order of its own.
\<close>

section \<open>Parameters\<close>

definition parseStatusFilter :: "string option \<Rightarrow> string list option" where
  "parseStatusFilter status =
     (if \<not> truthy status then None
      else let values = filter (\<lambda>x. x \<noteq> []) (map trim (splitOn (CHR '','') (the status)))
      in if values \<noteq> [] then Some values else None)"

text \<open>
  The values of the enums as the database reads them; one that is none of them makes the query fail, by the validation of
  Prisma or by the cast in SQL, and no handler names that error.
\<close>

definition allocationStatuses :: "(string \<times> P2PAllocationStatus) list" where
  "allocationStatuses =
     [(''ASSIGNED'', P2PAllocationStatus.ASSIGNED), (''PROOF_SUBMITTED'', P2PAllocationStatus.PROOF_SUBMITTED),
      (''RECEIVER_CONFIRMED'', P2PAllocationStatus.RECEIVER_CONFIRMED), (''ADMIN_VERIFIED'', P2PAllocationStatus.ADMIN_VERIFIED),
      (''SETTLED'', P2PAllocationStatus.SETTLED), (''DISPUTED'', P2PAllocationStatus.DISPUTED),
      (''CANCELLED'', P2PAllocationStatus.CANCELLED), (''EXPIRED'', P2PAllocationStatus.EXPIRED)]"

definition depositStatuses :: "(string \<times> DepositStatus) list" where
  "depositStatuses =
     [(''PENDING'', DepositStatus.PENDING), (''APPROVED'', DepositStatus.APPROVED), (''REJECTED'', DepositStatus.REJECTED),
      (''CANCELLED'', DepositStatus.CANCELLED), (''REVERSED'', DepositStatus.REVERSED), (''CREATED'', DepositStatus.CREATED),
      (''WAITING_ASSIGNMENT'', DepositStatus.WAITING_ASSIGNMENT), (''PARTIALLY_ASSIGNED'', DepositStatus.PARTIALLY_ASSIGNED),
      (''FULLY_ASSIGNED'', DepositStatus.FULLY_ASSIGNED), (''PARTIALLY_SETTLED'', DepositStatus.PARTIALLY_SETTLED),
      (''SETTLED'', DepositStatus.SETTLED), (''EXPIRED'', DepositStatus.EXPIRED)]"

definition readStatuses :: "(string \<times> 'st) list \<Rightarrow> string list option \<Rightarrow> err + 'st list option" where
  "readStatuses names values =
     (case values of
        None \<Rightarrow> Inr None
      | Some xs \<Rightarrow>
          (if list_all (\<lambda>x. map_of names x \<noteq> None) xs then Inr (Some (map (\<lambda>x. the (map_of names x)) xs))
           else Inl (InternalServerErrorException ''invalid status'')))"

text \<open>The page and the sort of \<open>ListQueryDto\<close>.\<close>

record listQuery =
  ql_page :: "rat option"
  ql_limit :: "rat option"
  ql_offset :: "rat option"
  ql_sort :: sortParams

definition primarySort :: "listQuery \<Rightarrow> string list \<Rightarrow> err + (string \<times> string) option" where
  "primarySort q allowedFields =
     map_sum id (\<lambda>sorts. case sorts of [] \<Rightarrow> None | p # ps \<Rightarrow> Some p) (normalizeSort (ql_sort q) (Some allowedFields))"

text \<open>
  \<open>ORDER BY\<close> with the key of a row. In PostgreSQL a null comes after every value, so last in ascending and first in
  descending order, unless the query says \<open>NULLS LAST\<close>.
\<close>

definition sortKey :: "bool \<Rightarrow> string \<Rightarrow> rat option \<Rightarrow> int \<times> rat" where
  "sortKey nullsLast direction v =
     (case v of
        None \<Rightarrow> (if nullsLast \<or> direction \<noteq> ''desc'' then 1 else - 1, 0)
      | Some x \<Rightarrow> (0, if direction = ''desc'' then - x else x))"

definition orderBy :: "('r \<Rightarrow> 'k::linorder) \<Rightarrow> 'r \<Rightarrow> 'r \<Rightarrow> int" where
  "orderBy key a b = (if key a < key b then - 1 else if key a = key b then 0 else 1)"

interpretation byKey: comparator "orderBy key" key for key :: "'r \<Rightarrow> 'k::linorder"
  by unfold_locales (auto simp: orderBy_def)

text \<open>The column a primary sort names, before the default order.\<close>

definition primaryKey :: "('r \<Rightarrow> string \<Rightarrow> rat option) \<Rightarrow> (string \<times> string) option \<Rightarrow> 'r \<Rightarrow> int \<times> rat" where
  "primaryKey column primary r =
     (case primary of None \<Rightarrow> (0, 0) | Some fd \<Rightarrow> sortKey False (snd fd) (column r (fst fd)))"

section \<open>Candidates\<close>

record candidateQuery = listQuery +
  qc_status :: "string option"
  qc_remainingMin :: "decimal option"
  qc_createdFrom :: "time option"
  qc_createdTo :: "time option"
  qc_mobile :: "string option"
  qc_userId :: "id option"
  qc_excludeUserId :: "id option"

definition candidateMatches ::
  "candidateQuery \<Rightarrow> DepositStatus list option \<Rightarrow> withdrawRequest \<Rightarrow> db \<Rightarrow> depositRequest \<Rightarrow> bool" where
  "candidateMatches q statusList w s d \<longleftrightarrow>
     dp_purpose d = RequestPurpose.P2P \<and> given statusList (\<lambda>xs. dp_status d \<in> set xs) \<and>
     (case dp_remainingAmount d of None \<Rightarrow> False | Some r \<Rightarrow> 0 < r \<and> given (qc_remainingMin q) (\<lambda>m. m \<le> r)) \<and>
     between (qc_createdFrom q) (qc_createdTo q) (dp_createdAt d) \<and> hasMobile (qc_mobile q) (dp_userId d) s \<and>
     (truthy (qc_userId q) \<longrightarrow> Some (dp_userId d) = qc_userId q) \<and>
     dp_userId d \<noteq> wd_userId w \<and> (truthy (qc_excludeUserId q) \<longrightarrow> Some (dp_userId d) \<noteq> qc_excludeUserId q)"

definition candidateColumn :: "depositRequest \<Rightarrow> string \<Rightarrow> rat option" where
  "candidateColumn d field =
     (if field = ''createdAt'' then Some (of_int (dp_createdAt d)) else dp_remainingAmount d)"

definition candidateKey :: "(string \<times> string) option \<Rightarrow> depositRequest \<Rightarrow> (int \<times> rat) \<times> int" where
  "candidateKey primary d = (primaryKey candidateColumn primary d, - dp_createdAt d)"

definition candidatePage ::
  "candidateQuery \<Rightarrow> DepositStatus list option \<Rightarrow> (string \<times> string) option \<Rightarrow> withdrawRequest \<Rightarrow> db \<Rightarrow> rat \<Rightarrow> rat \<Rightarrow>
   depositVm list \<times> pageMeta" where
  "candidatePage q statusList primary w s page limit =
     (let found = findPage (candidateMatches q statusList w s) (orderBy (candidateKey primary)) (depositRequests s) page limit
      in (map buildDepositVm (fst found), meta (snd found) page limit))"

text \<open>\<open>resolvePaging\<close>, then the page.\<close>

definition resolved :: "listQuery \<Rightarrow> (rat \<Rightarrow> rat \<Rightarrow> 'v) \<Rightarrow> 'v" where
  "resolved q f = (let r = resolvePaging (ql_page q) (ql_limit q) (ql_offset q) in f (of_int (fst r)) (of_int (fst (snd r))))"

definition listCandidates :: "id \<Rightarrow> candidateQuery \<Rightarrow> db \<Rightarrow> err + depositVm list \<times> pageMeta" where
  "listCandidates withdrawalId q s =
     (case findWithdraw withdrawalId s of
        None \<Rightarrow> Inl (NotFoundException ''Withdraw not found'')
      | Some w \<Rightarrow>
          (if wd_purpose w \<noteq> RequestPurpose.P2P then Inl (BadRequestException ''P2P_FORBIDDEN'')
           else case primarySort (listQuery.truncate q) [''createdAt'', ''remaining'', ''remainingAmount''] of
             Inl e \<Rightarrow> Inl e
           | Inr primary \<Rightarrow>
               map_sum id (\<lambda>statusList. resolved (listQuery.truncate q) (candidatePage q statusList primary w s))
                 (readStatuses depositStatuses (parseStatusFilter (qc_status q)))))"

section \<open>The lists of a user\<close>

record allocationQuery = listQuery +
  qa_status :: "string option"
  qa_expiresSoon :: "decimal option"

text \<open>The status filter with its default; with \<open>expiresSoon\<close> only \<open>ASSIGNED\<close> is left of it.\<close>

definition statusFilter :: "allocationQuery \<Rightarrow> string \<Rightarrow> string list option" where
  "statusFilter q defaultStatus =
     (let statusList = parseStatusFilter (Some (withDefault (qa_status q) defaultStatus))
      in if qa_expiresSoon q = None then statusList
         else Some (case statusList of None \<Rightarrow> [''ASSIGNED''] | Some xs \<Rightarrow> filter (\<lambda>x. x = ''ASSIGNED'') xs))"

definition allocationMatches :: "allocationQuery \<Rightarrow> P2PAllocationStatus list option \<Rightarrow> time \<Rightarrow> p2pAllocation \<Rightarrow> bool" where
  "allocationMatches q statusList now a \<longleftrightarrow>
     given statusList (\<lambda>xs. al_status a \<in> set xs) \<and>
     given (qa_expiresSoon q) (\<lambda>m. al_expiresAt a \<le> getExpiringSoonThreshold (Some m) now)"

definition matchesPayer :: "id \<Rightarrow> allocationQuery \<Rightarrow> P2PAllocationStatus list option \<Rightarrow> db \<Rightarrow> p2pAllocation \<Rightarrow> bool" where
  "matchesPayer userId q statusList s a \<longleftrightarrow> allocationMatches q statusList (db_now s) a \<and>
     map_option dp_userId (findDeposit (al_depositId a) s) = Some userId"

definition matchesReceiver :: "id \<Rightarrow> allocationQuery \<Rightarrow> P2PAllocationStatus list option \<Rightarrow> db \<Rightarrow> p2pAllocation \<Rightarrow> bool" where
  "matchesReceiver userId q statusList s a \<longleftrightarrow> allocationMatches q statusList (db_now s) a \<and>
     map_option wd_userId (findWithdraw (al_withdrawalId a) s) = Some userId"

definition allocationColumn :: "p2pAllocation \<Rightarrow> string \<Rightarrow> rat option" where
  "allocationColumn a field =
     (if field = ''createdAt'' then Some (of_int (al_createdAt a))
      else if field = ''expiresAt'' then Some (of_int (al_expiresAt a))
      else if field = ''updatedAt'' then Some (of_int (al_updatedAt a))
      else if field = ''paidAt'' then map_option of_int (al_payerPaidAt a)
      else Some (al_amount a))"

definition payerKey :: "(string \<times> string) option \<Rightarrow> p2pAllocation \<Rightarrow> (int \<times> rat) \<times> int" where
  "payerKey primary a = (primaryKey allocationColumn primary a, al_expiresAt a)"

definition receiverKey :: "(string \<times> string) option \<Rightarrow> p2pAllocation \<Rightarrow> (int \<times> rat) \<times> int" where
  "receiverKey primary a = (primaryKey allocationColumn primary a, - al_updatedAt a)"

text \<open>The page with the attachments of its rows.\<close>

definition allocationPage ::
  "p2pEnv \<Rightarrow> vmActor \<Rightarrow> time \<Rightarrow> (p2pAllocation \<Rightarrow> bool) \<Rightarrow> (p2pAllocation \<Rightarrow> (int \<times> rat) \<times> int) \<Rightarrow> db \<Rightarrow> rat \<Rightarrow> rat \<Rightarrow>
   allocationVm list \<times> pageMeta" where
  "allocationPage env actor threshold p key s page limit =
     (let found = findPage p (orderBy key) (p2pAllocations s) page limit;
          attachmentMap = loadAllocationAttachments (map al_id (fst found)) s
      in (map (vmFor env actor (Some threshold) attachmentMap s) (fst found), meta (snd found) page limit))"

definition payerPage ::
  "p2pEnv \<Rightarrow> id \<Rightarrow> allocationQuery \<Rightarrow> P2PAllocationStatus list option \<Rightarrow> (string \<times> string) option \<Rightarrow> db \<Rightarrow> rat \<Rightarrow> rat \<Rightarrow>
   allocationVm list \<times> pageMeta" where
  "payerPage env userId q statusList primary s =
     allocationPage env vmActor.PAYER (getExpiringSoonThreshold (qa_expiresSoon q) (db_now s))
       (matchesPayer userId q statusList s) (payerKey primary) s"

definition receiverPage ::
  "p2pEnv \<Rightarrow> id \<Rightarrow> allocationQuery \<Rightarrow> P2PAllocationStatus list option \<Rightarrow> (string \<times> string) option \<Rightarrow> db \<Rightarrow> rat \<Rightarrow> rat \<Rightarrow>
   allocationVm list \<times> pageMeta" where
  "receiverPage env userId q statusList primary s =
     allocationPage env vmActor.RECEIVER (getExpiringSoonThreshold (qa_expiresSoon q) (db_now s))
       (matchesReceiver userId q statusList s) (receiverKey primary) s"

definition listMyAllocationsAsPayer :: "p2pEnv \<Rightarrow> id \<Rightarrow> allocationQuery \<Rightarrow> db \<Rightarrow> err + allocationVm list \<times> pageMeta" where
  "listMyAllocationsAsPayer env userId q s =
     (case primarySort (listQuery.truncate q) [''createdAt'', ''expiresAt'', ''paidAt'', ''amount''] of
        Inl e \<Rightarrow> Inl e
      | Inr primary \<Rightarrow>
          map_sum id (\<lambda>statusList. resolved (listQuery.truncate q) (payerPage env userId q statusList primary s))
            (readStatuses allocationStatuses (statusFilter q ''ASSIGNED,PROOF_SUBMITTED'')))"

definition listMyAllocationsAsReceiver :: "p2pEnv \<Rightarrow> id \<Rightarrow> allocationQuery \<Rightarrow> db \<Rightarrow> err + allocationVm list \<times> pageMeta" where
  "listMyAllocationsAsReceiver env userId q s =
     (case primarySort (listQuery.truncate q) [''paidAt'', ''updatedAt'', ''createdAt''] of
        Inl e \<Rightarrow> Inl e
      | Inr primary \<Rightarrow>
          map_sum id (\<lambda>statusList. resolved (listQuery.truncate q) (receiverPage env userId q statusList primary s))
            (readStatuses allocationStatuses (statusFilter q ''PROOF_SUBMITTED'')))"

section \<open>The list of the administrators\<close>

text \<open>
  \<open>LIKE\<close>: the percent sign stands for any text, the underscore for any character, and the backslash takes the next
  character as it is. A pattern that ends in a backslash, which PostgreSQL refuses, cannot arise: every pattern here ends
  in a percent sign.
\<close>

function likeMatch :: "string \<Rightarrow> string \<Rightarrow> bool" where
  "likeMatch text [] = (text = [])"
| "likeMatch text (p # ps) =
     (if p = CHR ''%'' then likeMatch text ps \<or> (case text of [] \<Rightarrow> False | c # rest \<Rightarrow> likeMatch rest (p # ps))
      else if p = CHR 0x5C
        then (case ps of [] \<Rightarrow> False
              | e # es \<Rightarrow> (case text of [] \<Rightarrow> False | c # rest \<Rightarrow> c = e \<and> likeMatch rest es))
      else (case text of [] \<Rightarrow> False | c # rest \<Rightarrow> (p = CHR ''_'' \<or> c = p) \<and> likeMatch rest ps))"
  by pat_completeness auto
termination by (relation "measure (\<lambda>(text, ps). length text + length ps)") auto

definition ilike :: "string \<Rightarrow> string \<Rightarrow> bool" where
  "ilike text pattern = likeMatch (toLowerCase text) (toLowerCase pattern)"

record adminAllocationsQuery = listQuery +
  qd_status :: "string option"
  qd_withdrawalId :: "id option"
  qd_depositId :: "id option"
  qd_payerUserId :: "id option"
  qd_receiverUserId :: "id option"
  qd_method :: "PaymentMethod option"
  qd_hasProof :: "bool option"
  qd_receiverConfirmed :: "bool option"
  qd_adminVerified :: "bool option"
  qd_expired :: "bool option"
  qd_expiresSoonMinutes :: "decimal option"
  qd_bankRef :: "string option"
  qd_bankRefSearch :: "string option"
  qd_createdFrom :: "time option"
  qd_createdTo :: "time option"
  qd_paidFrom :: "time option"
  qd_paidTo :: "time option"

text \<open>A row of the joined tables; the link is null where an allocation has none.\<close>

record joinedRow =
  jr_a :: p2pAllocation
  jr_d :: depositRequest
  jr_w :: withdrawRequest
  jr_al :: "attachmentLink option"

definition leftJoinLinks :: "p2pAllocation \<Rightarrow> db \<Rightarrow> attachmentLink option list" where
  "leftJoinLinks a s =
     (let links = findMany (\<lambda>al. lk_entityType al = AttachmentLinkEntityType.P2P_ALLOCATION \<and>
            lk_kind al = AttachmentLinkKind.P2P_PROOF \<and> lk_entityId al = al_id a) (attachmentLinks s)
      in if links = [] then [None] else map Some links)"

definition joinedRows :: "db \<Rightarrow> joinedRow list" where
  "joinedRows s =
     concat (map (\<lambda>a. concat (map (\<lambda>d. concat (map (\<lambda>w.
         map (\<lambda>al. \<lparr>jr_a = a, jr_d = d, jr_w = w, jr_al = al\<rparr>) (leftJoinLinks a s))
       (findMany (\<lambda>w. wd_id w = al_withdrawalId a) (withdrawRequests s))))
       (findMany (\<lambda>d. dp_id d = al_depositId a) (depositRequests s)))) (p2pAllocations s))"

text \<open>The conditions of the query on the columns of the joined rows; a comparison with null does not hold.\<close>

definition paidBetween :: "time option \<Rightarrow> time option \<Rightarrow> time option \<Rightarrow> bool" where
  "paidBetween low high paidAt \<longleftrightarrow>
     given low (\<lambda>l. case paidAt of None \<Rightarrow> False | Some x \<Rightarrow> l \<le> x) \<and>
     given high (\<lambda>h. case paidAt of None \<Rightarrow> False | Some x \<Rightarrow> x \<le> h)"

definition allocationWhere ::
  "adminAllocationsQuery \<Rightarrow> P2PAllocationStatus list option \<Rightarrow> time \<Rightarrow> p2pAllocation \<Rightarrow> id \<Rightarrow> id \<Rightarrow> bool" where
  "allocationWhere q statusList now a payerUserId receiverUserId \<longleftrightarrow>
     (let bankRefSearch = orElse (qd_bankRefSearch q) (qd_bankRef q)
      in given statusList (\<lambda>xs. al_status a \<in> set xs) \<and>
         (truthy (qd_withdrawalId q) \<longrightarrow> Some (al_withdrawalId a) = qd_withdrawalId q) \<and>
         (truthy (qd_depositId q) \<longrightarrow> Some (al_depositId a) = qd_depositId q) \<and>
         given (qd_method q) (\<lambda>m. al_paymentMethod a = m) \<and>
         (truthy bankRefSearch \<longrightarrow> (case al_payerBankRef a of None \<Rightarrow> False
            | Some ref \<Rightarrow> ilike ref (''%'' @ the bankRefSearch @ ''%''))) \<and>
         given (qd_receiverConfirmed q) (\<lambda>b. (al_receiverConfirmedAt a \<noteq> None) = b) \<and>
         given (qd_adminVerified q) (\<lambda>b. (al_adminVerifiedAt a \<noteq> None) = b) \<and>
         between (qd_createdFrom q) (qd_createdTo q) (al_createdAt a) \<and>
         paidBetween (qd_paidFrom q) (qd_paidTo q) (al_payerPaidAt a) \<and>
         (truthy (qd_payerUserId q) \<longrightarrow> Some payerUserId = qd_payerUserId q) \<and>
         (truthy (qd_receiverUserId q) \<longrightarrow> Some receiverUserId = qd_receiverUserId q) \<and>
         (qd_expired q = Some True \<longrightarrow> al_status a = P2PAllocationStatus.ASSIGNED \<and> al_expiresAt a < now) \<and>
         given (qd_expiresSoonMinutes q) (\<lambda>m. al_status a = P2PAllocationStatus.ASSIGNED \<and>
            al_expiresAt a \<le> getExpiringSoonThreshold (Some m) now))"

definition rowWhere :: "adminAllocationsQuery \<Rightarrow> P2PAllocationStatus list option \<Rightarrow> time \<Rightarrow> joinedRow \<Rightarrow> bool" where
  "rowWhere q statusList now r \<longleftrightarrow>
     allocationWhere q statusList now (jr_a r) (dp_userId (jr_d r)) (wd_userId (jr_w r)) \<and>
     given (qd_hasProof q) (\<lambda>b. (jr_al r \<noteq> None) = b)"

text \<open>\<open>GROUP BY\<close> the selected columns: each combination once.\<close>

record baseRow =
  br_id :: id
  br_expiresAt :: time
  br_payerPaidAt :: "time option"
  br_amount :: decimal
  br_createdAt :: time

definition toBase :: "p2pAllocation \<Rightarrow> baseRow" where
  "toBase a = \<lparr>br_id = al_id a, br_expiresAt = al_expiresAt a, br_payerPaidAt = al_payerPaidAt a,
     br_amount = al_amount a, br_createdAt = al_createdAt a\<rparr>"

definition baseRows :: "adminAllocationsQuery \<Rightarrow> P2PAllocationStatus list option \<Rightarrow> db \<Rightarrow> baseRow list" where
  "baseRows q statusList s =
     remdups (map (\<lambda>r. toBase (jr_a r)) (filter (rowWhere q statusList (db_now s)) (joinedRows s)))"

definition baseKey :: "(string \<times> string) option \<Rightarrow> baseRow \<Rightarrow> int \<times> rat" where
  "baseKey primary b =
     (let createdAt = (\<lambda>direction. sortKey False direction (Some (of_int (br_createdAt b))))
      in case primary of
           None \<Rightarrow> createdAt ''desc''
         | Some (field, direction) \<Rightarrow>
             (if field = ''expiresAt'' then sortKey False direction (Some (of_int (br_expiresAt b)))
              else if field = ''paidAt'' then sortKey True direction (map_option of_int (br_payerPaidAt b))
              else if field = ''amount'' then sortKey False direction (Some (br_amount b))
              else createdAt (if direction = ''asc'' then ''asc'' else ''desc'')))"

text \<open>
  The count and the ids of the page, the rows of these ids with their relations, and the views in the order of the ids. The
  \<open>ORDER BY\<close> of the query has no unique last key: among rows with equal keys the order is the one in which this query came
  upon them, which in the model is that of the table it is given.
\<close>

definition adminPage ::
  "p2pEnv \<Rightarrow> adminAllocationsQuery \<Rightarrow> P2PAllocationStatus list option \<Rightarrow> (string \<times> string) option \<Rightarrow> db \<Rightarrow> rat \<Rightarrow> rat \<Rightarrow>
   allocationVm list \<times> pageMeta" where
  "adminPage env q statusList primary s page limit =
     (let threshold = getExpiringSoonThreshold (qd_expiresSoonMinutes q) (db_now s);
          base = baseRows q statusList s;
          ids = map br_id (pageOf (sortBy (orderBy (baseKey primary)) base) page limit);
          items = (if ids \<noteq> [] then findMany (\<lambda>a. al_id a \<in> set ids) (p2pAllocations s) else []);
          attachmentMap = loadAllocationAttachments (map al_id items) s;
          itemMap = map_of (rev (map (\<lambda>a. (al_id a, a)) items))
      in (map (vmFor env vmActor.ADMIN (Some threshold) attachmentMap s) (List.map_filter itemMap ids),
          meta (int (length base)) page limit))"

definition listAdminAllocations :: "p2pEnv \<Rightarrow> adminAllocationsQuery \<Rightarrow> db \<Rightarrow> err + allocationVm list \<times> pageMeta" where
  "listAdminAllocations env q s =
     (case primarySort (listQuery.truncate q) [''createdAt'', ''expiresAt'', ''paidAt'', ''amount''] of
        Inl e \<Rightarrow> Inl e
      | Inr primary \<Rightarrow>
          map_sum id (\<lambda>statusList. resolved (listQuery.truncate q) (adminPage env q statusList primary s))
            (readStatuses allocationStatuses (parseStatusFilter (qd_status q))))"

section \<open>Lemmas\<close>

text \<open>A page of an ordered listing, with the attachments of the page or of the row alone.\<close>

lemma listing:
  "ordered_list (\<lambda>page limit. let found = findPage p (orderBy key) rows page limit
      in (map view (fst found), meta (snd found) page limit)) (filter p rows) view (\<lambda>a b. key a \<le> key b)"
proof
  show "\<exists>xs. mset xs = mset (filter p rows) \<and> sorted_wrt (\<lambda>a b. key a \<le> key b) xs \<and>
      (\<forall>page limit. (let found = findPage p (orderBy key) rows page limit
        in (map view (fst found), meta (snd found) page limit)) = (map view (pageOf xs page limit), meta (int (length xs)) page limit))"
    using byKey.sortBy_sorted [of key "filter p rows"]
    by (intro exI [of _ "sortBy (orderBy key) (filter p rows)"]) (simp add: findPage_def Let_def sortBy_rows sorted_map)
qed

lemma views_of_page:
  "map (vmFor env actor threshold (loadAllocationAttachments (map al_id as) s) s) as =
   map (\<lambda>a. vmFor env actor threshold (loadAllocationAttachments [al_id a] s) s a) as"
  by (rule map_cong [OF refl], rule vmFor_loaded) simp

interpretation candidateList: ordered_list "candidatePage q statusList primary w s"
    "filter (candidateMatches q statusList w s) (depositRequests s)" buildDepositVm
    "\<lambda>a b. candidateKey primary a \<le> candidateKey primary b"
  for q statusList primary w s
  using listing [of "candidateMatches q statusList w s" "candidateKey primary" "depositRequests s" buildDepositVm]
  by (simp add: candidatePage_def [abs_def])

text \<open>What a list shows of an allocation to its party.\<close>

definition listedVm :: "p2pEnv \<Rightarrow> vmActor \<Rightarrow> decimal option \<Rightarrow> db \<Rightarrow> p2pAllocation \<Rightarrow> allocationVm" where
  "listedVm env actor minutes s a =
     vmFor env actor (Some (getExpiringSoonThreshold minutes (db_now s))) (loadAllocationAttachments [al_id a] s) s a"

lemma allocation_listing:
  "ordered_list (allocationPage env actor (getExpiringSoonThreshold minutes (db_now s)) p key s) (filter p (p2pAllocations s))
     (listedVm env actor minutes s) (\<lambda>a b. key a \<le> key b)"
  unfolding allocationPage_def [abs_def] views_of_page Let_def listedVm_def [abs_def]
  by (rule listing [unfolded Let_def])

interpretation payerList: ordered_list "payerPage env userId q statusList primary s"
    "filter (matchesPayer userId q statusList s) (p2pAllocations s)"
    "listedVm env vmActor.PAYER (qa_expiresSoon q) s" "\<lambda>a b. payerKey primary a \<le> payerKey primary b"
  for env userId q statusList primary s
  unfolding payerPage_def by (rule allocation_listing)

interpretation receiverList: ordered_list "receiverPage env userId q statusList primary s"
    "filter (matchesReceiver userId q statusList s) (p2pAllocations s)"
    "listedVm env vmActor.RECEIVER (qa_expiresSoon q) s" "\<lambda>a b. receiverKey primary a \<le> receiverKey primary b"
  for env userId q statusList primary s
  unfolding receiverPage_def by (rule allocation_listing)

text \<open>
  The reference of the SQL query: an allocation matches by its own deposit and withdrawal, and is proved when a link to it is.
\<close>

definition matchesAdmin :: "adminAllocationsQuery \<Rightarrow> P2PAllocationStatus list option \<Rightarrow> db \<Rightarrow> p2pAllocation \<Rightarrow> bool" where
  "matchesAdmin q statusList s a \<longleftrightarrow>
     (case (findDeposit (al_depositId a) s, findWithdraw (al_withdrawalId a) s) of
        (Some d, Some w) \<Rightarrow> allocationWhere q statusList (db_now s) a (dp_userId d) (wd_userId w)
      | _ \<Rightarrow> False) \<and>
     given (qd_hasProof q) (\<lambda>b. (proofLinks (al_id a) s \<noteq> []) = b)"

definition uniqueIds :: "db \<Rightarrow> bool" where
  "uniqueIds s \<longleftrightarrow> distinct (map al_id (p2pAllocations s)) \<and> distinct (map dp_id (depositRequests s)) \<and>
     distinct (map wd_id (withdrawRequests s))"

lemma find_unique: "distinct (map k t) \<Longrightarrow> findFirst (\<lambda>x. k x = i) t = Some r \<longleftrightarrow> r \<in> set t \<and> k r = i"
  by (induction t) (auto simp: image_iff)

lemma leftJoin_proofs:
  "(\<exists>al\<in>set (leftJoinLinks a s). given h (\<lambda>b. (al \<noteq> None) = b)) \<longleftrightarrow> given h (\<lambda>b. (proofLinks (al_id a) s \<noteq> []) = b)"
proof -
  have "leftJoinLinks a s = (if proofLinks (al_id a) s = [] then [None] else map Some (proofLinks (al_id a) s))"
    by (simp add: leftJoinLinks_def Let_def proofLinks_def conj_commute conj_left_commute)
  then show ?thesis by (cases "proofLinks (al_id a) s") (auto simp: given_def split: option.split)
qed

lemma joined_member:
  "r \<in> set (joinedRows s) \<longleftrightarrow> jr_a r \<in> set (p2pAllocations s) \<and> jr_d r \<in> set (depositRequests s) \<and> dp_id (jr_d r) = al_depositId (jr_a r) \<and>
     jr_w r \<in> set (withdrawRequests s) \<and> wd_id (jr_w r) = al_withdrawalId (jr_a r) \<and> jr_al r \<in> set (leftJoinLinks (jr_a r) s)"
  by (cases r) (auto simp: joinedRows_def)

lemma base_member:
  assumes "uniqueIds s"
  shows "set (baseRows q statusList s) = toBase ` set (filter (matchesAdmin q statusList s) (p2pAllocations s))"
proof -
  have d: "findDeposit (al_depositId a) s = Some d \<longleftrightarrow> d \<in> set (depositRequests s) \<and> dp_id d = al_depositId a"
    and w: "findWithdraw (al_withdrawalId a) s = Some w \<longleftrightarrow> w \<in> set (withdrawRequests s) \<and> wd_id w = al_withdrawalId a" for a d w
    using assms by (simp_all add: uniqueIds_def findDeposit_def findWithdraw_def find_unique)
  have "(\<exists>r\<in>set (joinedRows s). rowWhere q statusList (db_now s) r \<and> jr_a r = a) \<longleftrightarrow>
      a \<in> set (p2pAllocations s) \<and> matchesAdmin q statusList s a" (is "?l \<longleftrightarrow> ?r") for a
  proof
    assume ?l
    then obtain r where r: "r \<in> set (joinedRows s)" "rowWhere q statusList (db_now s) r" "a = jr_a r" by blast
    then have "findDeposit (al_depositId a) s = Some (jr_d r)" "findWithdraw (al_withdrawalId a) s = Some (jr_w r)"
      "\<exists>al\<in>set (leftJoinLinks a s). given (qd_hasProof q) (\<lambda>b. (al \<noteq> None) = b)"
      by (auto simp: joined_member d w rowWhere_def)
    then show ?r using r unfolding leftJoin_proofs by (simp add: matchesAdmin_def rowWhere_def joined_member)
  next
    assume r: ?r
    then obtain d' w' al where j: "findDeposit (al_depositId a) s = Some d'" "findWithdraw (al_withdrawalId a) s = Some w'"
        "al \<in> set (leftJoinLinks a s)" "given (qd_hasProof q) (\<lambda>b. (al \<noteq> None) = b)"
        "allocationWhere q statusList (db_now s) a (dp_userId d') (wd_userId w')"
      unfolding matchesAdmin_def leftJoin_proofs [symmetric] by (auto split: option.splits)
    then show ?l using r unfolding d w
      by (intro bexI [of _ "\<lparr>jr_a = a, jr_d = d', jr_w = w', jr_al = al\<rparr>"]) (simp_all add: rowWhere_def joined_member)
  qed
  then show ?thesis unfolding baseRows_def by (auto simp: image_iff) metis+
qed

lemma base_rows:
  assumes "uniqueIds s"
  shows "mset (baseRows q statusList s) = mset (map toBase (filter (matchesAdmin q statusList s) (p2pAllocations s)))"
proof -
  have ids: "distinct (map al_id (filter (matchesAdmin q statusList s) (p2pAllocations s)))"
    using assms by (simp add: uniqueIds_def distinct_map_filter)
  have "distinct (map br_id (map toBase (filter (matchesAdmin q statusList s) (p2pAllocations s))))"
    using ids by (simp add: comp_def toBase_def)
  then have "distinct (map toBase (filter (matchesAdmin q statusList s) (p2pAllocations s)))" by (simp only: distinct_map)
  moreover have "distinct (baseRows q statusList s)" by (simp add: baseRows_def)
  moreover have "set (baseRows q statusList s) = set (map toBase (filter (matchesAdmin q statusList s) (p2pAllocations s)))"
    using base_member [OF assms] by simp
  ultimately show ?thesis by (simp only: set_eq_iff_mset_eq_distinct)
qed

text \<open>The row of a base row, and the items of a page in the order of the ids.\<close>

definition rowOf :: "db \<Rightarrow> baseRow \<Rightarrow> p2pAllocation" where
  "rowOf s b = the (findAllocation (br_id b) s)"

lemma rowOf_toBase: "uniqueIds s \<Longrightarrow> a \<in> set (p2pAllocations s) \<Longrightarrow> rowOf s (toBase a) = a"
  by (simp add: rowOf_def findAllocation_def toBase_def uniqueIds_def find_unique [THEN iffD2])

lemma page_items:
  assumes ids: "distinct (map al_id as)" and row: "\<And>i. i \<in> set is \<Longrightarrow> f i \<in> set as \<and> al_id (f i) = i"
  shows "List.map_filter (map_of (rev (map (\<lambda>a. (al_id a, a)) (filter (\<lambda>a. al_id a \<in> set is) as)))) is = map f is"
proof -
  let ?xs = "map (\<lambda>a. (al_id a, a)) (filter (\<lambda>a. al_id a \<in> set is) as)"
  have "distinct (map fst (rev ?xs))" using ids by (simp add: rev_map [symmetric] comp_def distinct_map_filter)
  then have "map_of (rev ?xs) i = Some (f i)" if "i \<in> set is" for i
    using row [OF that] that by (intro map_of_is_SomeI) (auto intro!: image_eqI [where x = "f i"])
  then have "List.map_filter (map_of (rev ?xs)) js = map f js" if "set js \<subseteq> set is" for js
    using that by (induction js) (simp_all add: List.map_filter_def)
  then show ?thesis by simp
qed

lemma admin_listing:
  assumes "uniqueIds s"
  shows "ordered_list (adminPage env q statusList primary s) (filter (matchesAdmin q statusList s) (p2pAllocations s))
    (listedVm env vmActor.ADMIN (qd_expiresSoonMinutes q) s) (\<lambda>a b. baseKey primary (toBase a) \<le> baseKey primary (toBase b))"
proof
  let ?as = "filter (matchesAdmin q statusList s) (p2pAllocations s)"
  let ?bs = "sortBy (orderBy (baseKey primary)) (baseRows q statusList s)"
  let ?xs = "map (rowOf s) ?bs"
  have held: "toBase (rowOf s b) = b" "rowOf s b \<in> set (p2pAllocations s)" "al_id (rowOf s b) = br_id b" if "b \<in> set ?bs" for b
    using that rowOf_toBase [OF assms] by (auto simp: byKey.sortBy_set base_member [OF assms] toBase_def)
  have "mset ?xs = mset (map (rowOf s) (map toBase ?as))" by (simp only: mset_map sortBy_rows base_rows [OF assms])
  also have "map (rowOf s) (map toBase ?as) = ?as" using rowOf_toBase [OF assms] by (auto intro!: map_idI)
  finally have rows: "mset ?xs = mset ?as" .
  have "sorted_wrt (\<lambda>b c. baseKey primary b \<le> baseKey primary c) ?bs"
    using byKey.sortBy_sorted [of "baseKey primary" "baseRows q statusList s"] by (simp add: sorted_map)
  then have sorted: "sorted_wrt (\<lambda>a b. baseKey primary (toBase a) \<le> baseKey primary (toBase b)) ?xs"
    unfolding sorted_wrt_map by (rule sorted_wrt_mono_rel [rotated]) (simp add: held(1))
  have page: "adminPage env q statusList primary s page limit =
      (map (listedVm env vmActor.ADMIN (qd_expiresSoonMinutes q) s) (pageOf ?xs page limit), meta (int (length ?xs)) page limit)"
    for page limit
  proof -
    let ?p = "pageOf ?bs page limit" and ?f = "\<lambda>i. the (findAllocation i s)"
    let ?items = "filter (\<lambda>a. al_id a \<in> set (map br_id ?p)) (p2pAllocations s)"
    have p: "b \<in> set ?bs" if "b \<in> set ?p" for b
      using that by (auto simp: pageOf_def Let_def dest: in_set_takeD in_set_dropD)
    have "List.map_filter (map_of (rev (map (\<lambda>a. (al_id a, a)) ?items))) (map br_id ?p) = map ?f (map br_id ?p)"
    proof (rule page_items)
      show "distinct (map al_id (p2pAllocations s))" using assms by (simp add: uniqueIds_def)
      show "?f i \<in> set (p2pAllocations s) \<and> al_id (?f i) = i" if "i \<in> set (map br_id ?p)" for i
        using that held(2,3) p by (auto simp: rowOf_def)
    qed
    also have "map ?f (map br_id ?p) = pageOf ?xs page limit"
      by (simp add: pageOf_def Let_def rowOf_def take_map drop_map)
    finally have items: "List.map_filter (map_of (rev (map (\<lambda>a. (al_id a, a)) ?items))) (map br_id ?p) = pageOf ?xs page limit" .
    have "al_id a \<in> set (map al_id ?items)" if "a \<in> set (pageOf ?xs page limit)" for a
      using that held(2,3) p by (auto simp: pageOf_def Let_def take_map drop_map)
    then have "map (vmFor env vmActor.ADMIN th (loadAllocationAttachments (map al_id ?items) s) s) (pageOf ?xs page limit) =
        map (\<lambda>a. vmFor env vmActor.ADMIN th (loadAllocationAttachments [al_id a] s) s a) (pageOf ?xs page limit)" for th
      by (intro map_cong [OF refl] vmFor_loaded)
    moreover have "(if map br_id ?p \<noteq> [] then ?items else []) = ?items" by simp
    ultimately show ?thesis by (simp only: adminPage_def Let_def items listedVm_def [abs_def] sortBy_rows length_map)
  qed
  show "\<exists>xs. mset xs = mset ?as \<and> sorted_wrt (\<lambda>a b. baseKey primary (toBase a) \<le> baseKey primary (toBase b)) xs \<and>
      (\<forall>page limit. adminPage env q statusList primary s page limit =
        (map (listedVm env vmActor.ADMIN (qd_expiresSoonMinutes q) s) (pageOf xs page limit), meta (int (length xs)) page limit))"
    using rows sorted page by blast
qed

text \<open>A request that is answered is answered for every page, and the page asked for is the page of the listing.\<close>

lemma resolved_listing:
  fixes q :: listQuery
  assumes "ordered_list lst rows view before"
  shows "resolved (q\<lparr>ql_page := Some p, ql_limit := Some l\<rparr>) lst = lst p l"
proof -
  from ordered_list.ordered_cut [OF assms] obtain xs where
    xs: "\<And>page limit. lst page limit = (map view (pageOf xs page limit), meta (int (length xs)) page limit)" by blast
  have "getSkipTake (of_int (max (trunc p) 1)) (of_int (min (max (trunc l) 1) 100)) = getSkipTake p l"
    by (simp add: getSkipTake_def Let_def max.commute)
  then show ?thesis by (simp add: resolved_def resolvePaging_def Let_def xs pageOf_def meta_def withDefault_def)
qed

lemma truncated_pages:
  "listQuery.truncate (q\<lparr>ql_page := x, ql_limit := y\<rparr>) = (listQuery.truncate q)\<lparr>ql_page := x, ql_limit := y\<rparr>"
  "primarySort (r\<lparr>ql_page := x, ql_limit := y\<rparr>) fs = primarySort r fs"
  by (simp_all add: listQuery.truncate_def primarySort_def)

lemma map_sum_Inr: "map_sum id f m = Inr y \<longleftrightarrow> (\<exists>x. m = Inr x \<and> y = f x)"
  by (cases m) auto

lemma admin_pages:
  assumes "uniqueIds s" and *: "primarySort (listQuery.truncate q) [''createdAt'', ''expiresAt'', ''paidAt'', ''amount''] = Inr primary"
    "readStatuses allocationStatuses (parseStatusFilter (qd_status q)) = Inr statusList"
  shows "projr (listAdminAllocations env (q\<lparr>ql_page := Some p, ql_limit := Some l\<rparr>) s) = adminPage env q statusList primary s p l"
proof -
  have "adminPage env (q\<lparr>ql_page := Some p, ql_limit := Some l\<rparr>) statusList primary s = adminPage env q statusList primary s" for p l
    by (simp add: adminPage_def [abs_def] baseRows_def rowWhere_def [abs_def] allocationWhere_def)
  then show ?thesis
    by (simp add: listAdminAllocations_def truncated_pages * resolved_listing [OF admin_listing [OF assms(1)]])
qed

lemma payer_pages:
  assumes *: "primarySort (listQuery.truncate q) [''createdAt'', ''expiresAt'', ''paidAt'', ''amount''] = Inr primary"
    "readStatuses allocationStatuses (statusFilter q ''ASSIGNED,PROOF_SUBMITTED'') = Inr statusList"
  shows "projr (listMyAllocationsAsPayer env userId (q\<lparr>ql_page := Some p, ql_limit := Some l\<rparr>) s) =
       payerPage env userId q statusList primary s p l"
proof -
  have "payerPage env userId (q\<lparr>ql_page := x, ql_limit := y\<rparr>) statusList primary s = payerPage env userId q statusList primary s"
    "statusFilter (q\<lparr>ql_page := x, ql_limit := y\<rparr>) d = statusFilter q d" for x y d
    by (simp_all add: payerPage_def matchesPayer_def [abs_def] allocationMatches_def statusFilter_def)
  then show ?thesis
    by (simp add: listMyAllocationsAsPayer_def truncated_pages * resolved_listing [OF payerList.ordered_list_axioms])
qed

lemma receiver_pages:
  assumes *: "primarySort (listQuery.truncate q) [''paidAt'', ''updatedAt'', ''createdAt''] = Inr primary"
    "readStatuses allocationStatuses (statusFilter q ''PROOF_SUBMITTED'') = Inr statusList"
  shows "projr (listMyAllocationsAsReceiver env userId (q\<lparr>ql_page := Some p, ql_limit := Some l\<rparr>) s) =
       receiverPage env userId q statusList primary s p l"
proof -
  have "receiverPage env userId (q\<lparr>ql_page := x, ql_limit := y\<rparr>) statusList primary s = receiverPage env userId q statusList primary s"
    "statusFilter (q\<lparr>ql_page := x, ql_limit := y\<rparr>) d = statusFilter q d" for x y d
    by (simp_all add: receiverPage_def matchesReceiver_def [abs_def] allocationMatches_def statusFilter_def)
  then show ?thesis
    by (simp add: listMyAllocationsAsReceiver_def truncated_pages * resolved_listing [OF receiverList.ordered_list_axioms])
qed

lemma candidate_pages:
  assumes *: "findWithdraw i s = Some w" "wd_purpose w = RequestPurpose.P2P"
    "primarySort (listQuery.truncate q) [''createdAt'', ''remaining'', ''remainingAmount''] = Inr primary"
    "readStatuses depositStatuses (parseStatusFilter (qc_status q)) = Inr statusList"
  shows "projr (listCandidates i (q\<lparr>ql_page := Some p, ql_limit := Some l\<rparr>) s) = candidatePage q statusList primary w s p l"
proof -
  have "candidatePage (q\<lparr>ql_page := x, ql_limit := y\<rparr>) statusList primary w s = candidatePage q statusList primary w s" for x y
    by (simp add: candidatePage_def [abs_def] candidateMatches_def [abs_def] cong: option.case_cong)
  then show ?thesis
    by (simp add: listCandidates_def truncated_pages * resolved_listing [OF candidateList.ordered_list_axioms])
qed

text \<open>A search text without wildcards is searched as it is, whatever its case.\<close>

definition plainPattern :: "string \<Rightarrow> bool" where
  "plainPattern x \<longleftrightarrow> set x \<inter> {CHR ''%'', CHR ''_'', CHR 0x5C} = {}"

lemma like_steps:
  "likeMatch [] (CHR ''%'' # ps) = likeMatch [] ps"
  "likeMatch (c # text) (CHR ''%'' # ps) = (likeMatch (c # text) ps \<or> likeMatch text (CHR ''%'' # ps))"
  "p \<notin> {CHR ''%'', CHR ''_'', CHR 0x5C} \<Longrightarrow> likeMatch [] (p # ps) = False"
  "p \<notin> {CHR ''%'', CHR ''_'', CHR 0x5C} \<Longrightarrow> likeMatch (c # text) (p # ps) = (c = p \<and> likeMatch text ps)"
  by (subst likeMatch.simps(2), simp del: likeMatch.simps(2))+

declare likeMatch.simps(2) [simp del]

lemma like_rest: "likeMatch t ''%''"
  by (induction t) (simp_all add: like_steps)

lemma like_prefix: "plainPattern x \<Longrightarrow> likeMatch t (x @ ''%'') = startsWith t x"
proof (induction x arbitrary: t)
  case (Cons p x)
  then have "p \<notin> {CHR ''%'', CHR ''_'', CHR 0x5C}" "plainPattern x" by (auto simp: plainPattern_def)
  with Cons.IH show ?case by (cases t) (simp_all add: like_steps(3,4) eq_commute)
qed (simp add: like_rest)

lemma like_contains: "plainPattern x \<Longrightarrow> likeMatch t (''%'' @ x @ ''%'') = hasSubstring t x"
proof (induction t)
  case Nil
  then show ?case using like_prefix [OF Nil, of "[]"] by (cases x) (simp_all add: like_steps)
next
  case (Cons c t)
  then show ?case using like_prefix [OF Cons.prems, of "c # t"] by (simp add: like_steps)
qed

lemma ilike_plain:
  assumes "plainPattern x"
  shows "ilike text (''%'' @ x @ ''%'') = containsInsensitive text x"
proof -
  have "lowerChar c \<notin> {CHR ''%'', CHR ''_'', CHR 0x5C}" if "c \<notin> {CHR ''%'', CHR ''_'', CHR 0x5C}" for c
  proof (cases "65 \<le> (of_char c :: nat) \<and> (of_char c :: nat) \<le> 90")
    case True
    then have "of_char (lowerChar c) = (of_char c + 32 :: nat)" by (simp add: lowerChar_def of_char_of)
    then have "97 \<le> (of_char (lowerChar c) :: nat)" using True by simp
    moreover have "(of_char (lowerChar c) :: nat) \<le> 95" if "lowerChar c \<in> {CHR ''%'', CHR ''_'', CHR 0x5C}"
      using that by (elim insertE) simp_all
    ultimately show ?thesis by linarith
  next
    case False
    then have "lowerChar c = c" by (auto simp: lowerChar_def Let_def)
    then show ?thesis using that by simp
  qed
  then have "\<forall>c\<in>set x. lowerChar c \<notin> {CHR ''%'', CHR ''_'', CHR 0x5C}" using assms unfolding plainPattern_def by blast
  then have plain: "plainPattern (toLowerCase x)" unfolding plainPattern_def toLowerCase_def set_map by blast
  have "lowerChar (CHR ''%'') = CHR ''%''" by (simp add: lowerChar_def)
  then have "toLowerCase (''%'' @ x @ ''%'') = ''%'' @ toLowerCase x @ ''%''" by (simp add: toLowerCase_def)
  then show ?thesis unfolding ilike_def containsInsensitive_def by (simp only: like_contains [OF plain])
qed

text \<open>With the default statuses, the receiver who asks for what expires soon is never shown anything.\<close>

lemma receiver_expiring_empty:
  assumes "qa_status q = None" and "qa_expiresSoon q = Some m" and "listMyAllocationsAsReceiver env userId q s = Inr res"
  shows "fst res = []" "pm_totalItems (snd res) = 0"
proof -
  have "statusFilter q ''PROOF_SUBMITTED'' = Some []"
  proof -
    have "parseStatusFilter (Some ''PROOF_SUBMITTED'') = Some [''PROOF_SUBMITTED'']" by code_simp
    then show ?thesis using assms(1,2) by (simp add: statusFilter_def)
  qed
  then have "fst res = [] \<and> pm_totalItems (snd res) = 0"
    using assms(3) by (auto simp: listMyAllocationsAsReceiver_def map_sum_Inr readStatuses_def resolved_def receiverPage_def
        allocationPage_def findPage_def matchesReceiver_def [abs_def] allocationMatches_def given_def sortBy_def pageOf_def meta_def Let_def
        split: sum.splits)
  then show "fst res = []" "pm_totalItems (snd res) = 0" by simp_all
qed

section \<open>Properties\<close>

text \<open>
  What the pages of a list show when every page sees the table in an order of its own. A page is always a page of some
  ordering of the matching rows by the key, with the exact count, and has at most a hundred rows. If the keys of the matching
  rows are distinct, or every page sees the rows in the same order, the pages put together are one ordering of all of them.
\<close>

definition pagesShown ::
  "(rat \<Rightarrow> rat \<Rightarrow> 'v list \<times> pageMeta) \<Rightarrow> 'r list \<Rightarrow> ('r \<Rightarrow> 'v) \<Rightarrow> ('r \<Rightarrow> 'k::linorder) \<Rightarrow> bool \<Rightarrow> rat \<Rightarrow> rat \<Rightarrow> bool" where
  "pagesShown lst rows view key same page limit \<longleftrightarrow>
     (\<exists>xs. mset xs = mset rows \<and> sorted (map key xs) \<and>
        lst page limit = (map view (pageOf xs page limit), meta (int (length rows)) page limit)) \<and>
     length (fst (lst page limit)) \<le> 100 \<and>
     (same \<or> distinct (map key rows) \<longrightarrow>
        (\<exists>xs. mset xs = mset rows \<and> sorted (map key xs) \<and> allPages lst limit = map view xs))"

lemma ordering_unique:
  assumes "mset xs = mset ys" "sorted (map key xs)" "sorted (map key ys)" "distinct (map key ys)"
  shows "xs = (ys :: 'r list)"
proof -
  have set: "set xs = set ys" using assms(1) by (metis set_mset_mset)
  have "mset (map key xs) = mset (map key ys)" using assms(1) by simp
  then have "distinct (map key xs)" using assms(4) by (metis mset_eq_imp_distinct_iff)
  then have "map key xs = map key ys"
    by (intro sorted_distinct_set_unique) (use assms set in simp_all)
  moreover have "inj_on key (set xs \<union> set ys)" using assms(4) set by (simp add: distinct_map)
  ultimately show ?thesis using map_inj_on by blast
qed

lemma pages_shown:
  fixes key :: "'r \<Rightarrow> 'k::linorder"
  assumes lists: "\<And>p. ordered_list (f p) (rows p) view (\<lambda>a b. key a \<le> key b)" and rows: "\<And>p. mset (rows p) = mset rs"
    and same: "\<And>p. same \<Longrightarrow> f p = f 0"
  shows "pagesShown (\<lambda>p l. f p p l) rs view key same page limit"
proof -
  have cut: "\<exists>xs. mset xs = mset rs \<and> sorted (map key xs) \<and>
      (\<forall>page limit. f p page limit = (map view (pageOf xs page limit), meta (int (length rs)) page limit))" for p
  proof -
    obtain xs where "mset xs = mset (rows p)" "sorted_wrt (\<lambda>a b. key a \<le> key b) xs"
      "\<And>page limit. f p page limit = (map view (pageOf xs page limit), meta (int (length xs)) page limit)"
      using ordered_list.ordered_cut [OF lists [of p]] by blast
    then show ?thesis using rows [of p] mset_eq_length [of xs rs] by (intro exI [of _ xs]) (simp add: sorted_map)
  qed
  have "length (fst (f page page limit)) \<le> 100"
    using ordered_list.complete [OF lists [of page], of page limit] by (simp add: listed_def)
  moreover have "\<exists>xs. mset xs = mset rs \<and> sorted (map key xs) \<and> allPages (\<lambda>p l. f p p l) limit = map view xs"
    if d: "same \<or> distinct (map key rs)"
  proof -
    have one: "f p p l = f 0 p l" for p l
    proof (cases same)
      case True
      then show ?thesis using same by metis
    next
      case False
      obtain xs ys where "mset xs = mset rs" "sorted (map key xs)" "\<And>page limit. f p page limit = (map view (pageOf xs page limit), meta (int (length rs)) page limit)"
        "mset ys = mset rs" "sorted (map key ys)" "\<And>page limit. f 0 page limit = (map view (pageOf ys page limit), meta (int (length rs)) page limit)"
        using cut [of p] cut [of 0] by blast
      moreover have "distinct (map key ys)" using calculation(4) d False by (metis mset_map mset_eq_imp_distinct_iff)
      ultimately show ?thesis using ordering_unique [of xs ys key] by simp
    qed
    then have "allPages (\<lambda>p l. f p p l) limit = allPages (f 0) limit" by (simp add: allPages_def)
    then show ?thesis
      using ordered_list.in_order [OF lists [of 0], of limit] rows [of 0] by (simp add: sorted_map)
  qed
  ultimately show ?thesis using cut [of page] by (auto simp: pagesShown_def)
qed

text \<open>The order of a table changes neither what matches nor what is shown of a row.\<close>

lemma scan_order:
  "matchesAdmin q sts (s\<lparr>p2pAllocations := as\<rparr>) = matchesAdmin q sts s"
  "matchesPayer u pq sts (s\<lparr>p2pAllocations := as\<rparr>) = matchesPayer u pq sts s"
  "matchesReceiver u pq sts (s\<lparr>p2pAllocations := as\<rparr>) = matchesReceiver u pq sts s"
  "listedVm env actor m (s\<lparr>p2pAllocations := as\<rparr>) = listedVm env actor m s"
  "candidateMatches cq dts w (s\<lparr>depositRequests := ds\<rparr>) = candidateMatches cq dts w s"
  by (simp_all add: matchesAdmin_def [abs_def] matchesPayer_def [abs_def] matchesReceiver_def [abs_def] listedVm_def [abs_def]
      candidateMatches_def [abs_def] hasMobile_def findDeposit_def findWithdraw_def findUser_def proofLinks_def vmFor_def payerOf_def
      receiverOf_def summaryOf_def toAttachment_def findFile_def pushLink_def [abs_def] buildAllocationVm_def loadAllocationAttachments_def Let_def cong: option.case_cong)

text \<open>
  C30. The lists of allocations and of candidates, whatever order of the table each page of them is answered from. For a
  request that is answered: a page is a page of one ordering of exactly the matching rows by the key asked for, each as its own
  view with its own attachments, at most a hundred of them, and the count told is that of the matching rows. When the keys of
  the matching rows are distinct, or every page sees the table in the same order, the pages put together show every matching
  row exactly once and in order; with equal keys and another order for every page they need not. The administrators' list
  joins the proofs of an allocation in SQL and groups the rows again: an allocation with several proofs counts and is shown
  once, and what matches is said by the allocation, its deposit, its withdrawal and whether a proof exists.
\<close>

theorem p2p_lists_complete:
  assumes "uniqueIds s" and "listAdminAllocations env aq s = Inr r1" and "listMyAllocationsAsPayer env u pq s = Inr r2"
    and "listMyAllocationsAsReceiver env u rq s = Inr r3" and "listCandidates i cq s = Inr r4"
    and as: "\<And>p. mset (as p) = mset (p2pAllocations s)" and ds: "\<And>p. mset (ds p) = mset (depositRequests s)"
  shows "(\<exists>sts primary. readStatuses allocationStatuses (parseStatusFilter (qd_status aq)) = Inr sts \<and>
      primarySort (listQuery.truncate aq) [''createdAt'', ''expiresAt'', ''paidAt'', ''amount''] = Inr primary \<and>
      pagesShown (\<lambda>p l. projr (listAdminAllocations env (aq\<lparr>ql_page := Some p, ql_limit := Some l\<rparr>) (s\<lparr>p2pAllocations := as p\<rparr>)))
        (filter (matchesAdmin aq sts s) (p2pAllocations s)) (listedVm env vmActor.ADMIN (qd_expiresSoonMinutes aq) s)
        (\<lambda>a. baseKey primary (toBase a)) (\<forall>p. as p = as 0) page limit) \<and>
    (\<exists>sts primary. readStatuses allocationStatuses (statusFilter pq ''ASSIGNED,PROOF_SUBMITTED'') = Inr sts \<and>
      primarySort (listQuery.truncate pq) [''createdAt'', ''expiresAt'', ''paidAt'', ''amount''] = Inr primary \<and>
      pagesShown (\<lambda>p l. projr (listMyAllocationsAsPayer env u (pq\<lparr>ql_page := Some p, ql_limit := Some l\<rparr>) (s\<lparr>p2pAllocations := as p\<rparr>)))
        (filter (matchesPayer u pq sts s) (p2pAllocations s)) (listedVm env vmActor.PAYER (qa_expiresSoon pq) s)
        (payerKey primary) (\<forall>p. as p = as 0) page limit) \<and>
    (\<exists>sts primary. readStatuses allocationStatuses (statusFilter rq ''PROOF_SUBMITTED'') = Inr sts \<and>
      primarySort (listQuery.truncate rq) [''paidAt'', ''updatedAt'', ''createdAt''] = Inr primary \<and>
      pagesShown (\<lambda>p l. projr (listMyAllocationsAsReceiver env u (rq\<lparr>ql_page := Some p, ql_limit := Some l\<rparr>) (s\<lparr>p2pAllocations := as p\<rparr>)))
        (filter (matchesReceiver u rq sts s) (p2pAllocations s)) (listedVm env vmActor.RECEIVER (qa_expiresSoon rq) s)
        (receiverKey primary) (\<forall>p. as p = as 0) page limit) \<and>
    (\<exists>w sts primary. findWithdraw i s = Some w \<and> readStatuses depositStatuses (parseStatusFilter (qc_status cq)) = Inr sts \<and>
      primarySort (listQuery.truncate cq) [''createdAt'', ''remaining'', ''remainingAmount''] = Inr primary \<and>
      pagesShown (\<lambda>p l. projr (listCandidates i (cq\<lparr>ql_page := Some p, ql_limit := Some l\<rparr>) (s\<lparr>depositRequests := ds p\<rparr>)))
        (filter (candidateMatches cq sts w s) (depositRequests s)) buildDepositVm
        (candidateKey primary) (\<forall>p. ds p = ds 0) page limit)"
    (is "?admin \<and> ?payer \<and> ?receiver \<and> ?candidates")
proof (intro conjI)
  have rows: "mset (filter P (as p)) = mset (filter P (p2pAllocations s))" "mset (filter Q (ds p)) = mset (filter Q (depositRequests s))"
    for P Q p by (simp_all add: as ds)
  have unique: "uniqueIds (s\<lparr>p2pAllocations := as p\<rparr>)" for p
    using assms(1) as [of p] by (auto simp: uniqueIds_def) (metis mset_map mset_eq_imp_distinct_iff)
  show ?admin
  proof -
    obtain primary sts where *: "primarySort (listQuery.truncate aq) [''createdAt'', ''expiresAt'', ''paidAt'', ''amount''] = Inr primary"
      "readStatuses allocationStatuses (parseStatusFilter (qd_status aq)) = Inr sts"
      using assms(2) by (auto simp: listAdminAllocations_def map_sum_Inr split: sum.splits)
    show ?thesis
      unfolding admin_pages [OF unique *]
      by (intro exI conjI, rule *(2), rule *(1), rule pages_shown [OF admin_listing [OF unique, unfolded scan_order]]) (simp add: as, metis)
  qed
  show ?payer
  proof -
    obtain primary sts where *: "primarySort (listQuery.truncate pq) [''createdAt'', ''expiresAt'', ''paidAt'', ''amount''] = Inr primary"
      "readStatuses allocationStatuses (statusFilter pq ''ASSIGNED,PROOF_SUBMITTED'') = Inr sts"
      using assms(3) by (auto simp: listMyAllocationsAsPayer_def map_sum_Inr split: sum.splits)
    show ?thesis
      unfolding payer_pages [OF *]
      by (intro exI conjI, rule *(2), rule *(1), rule pages_shown [OF payerList.ordered_list_axioms
        [of env u pq sts primary "s\<lparr>p2pAllocations := as p\<rparr>" for p, unfolded scan_order]]) (simp add: as, metis)
  qed
  show ?receiver
  proof -
    obtain primary sts where *: "primarySort (listQuery.truncate rq) [''paidAt'', ''updatedAt'', ''createdAt''] = Inr primary"
      "readStatuses allocationStatuses (statusFilter rq ''PROOF_SUBMITTED'') = Inr sts"
      using assms(4) by (auto simp: listMyAllocationsAsReceiver_def map_sum_Inr split: sum.splits)
    show ?thesis
      unfolding receiver_pages [OF *]
      by (intro exI conjI, rule *(2), rule *(1), rule pages_shown [OF receiverList.ordered_list_axioms
        [of env u rq sts primary "s\<lparr>p2pAllocations := as p\<rparr>" for p, unfolded scan_order]]) (simp add: as, metis)
  qed
  show ?candidates
  proof -
    obtain w primary sts where *: "findWithdraw i s = Some w" "wd_purpose w = RequestPurpose.P2P"
      "primarySort (listQuery.truncate cq) [''createdAt'', ''remaining'', ''remainingAmount''] = Inr primary"
      "readStatuses depositStatuses (parseStatusFilter (qc_status cq)) = Inr sts"
      using assms(5) by (auto simp: listCandidates_def map_sum_Inr split: sum.splits option.splits if_splits)
    have w: "findWithdraw i (s\<lparr>depositRequests := ds p\<rparr>) = Some w" for p using *(1) by (simp add: findWithdraw_def)
    show ?thesis
      unfolding candidate_pages [OF w *(2-4)]
      by (intro exI conjI, rule *(1), rule *(4), rule *(3), rule pages_shown [OF candidateList.ordered_list_axioms
        [of cq sts primary w "s\<lparr>depositRequests := ds p\<rparr>" for p, unfolded scan_order]]) (simp add: ds, metis)
  qed
qed

text \<open>The concrete state: an allocation with two proofs, and requests without filters.\<close>

definition noSort :: sortParams where
  "noSort = \<lparr>so_sort = None, so_sortBy = None, so_orderBy = None, so_direction = None, so_dir = None, so_order = None\<rparr>"

definition anyAllocation :: adminAllocationsQuery where
  "anyAllocation = \<lparr>ql_page = None, ql_limit = None, ql_offset = None, ql_sort = noSort, qd_status = None, qd_withdrawalId = None,
     qd_depositId = None, qd_payerUserId = None, qd_receiverUserId = None, qd_method = None, qd_hasProof = Some True,
     qd_receiverConfirmed = None, qd_adminVerified = None, qd_expired = None, qd_expiresSoonMinutes = None, qd_bankRef = None,
     qd_bankRefSearch = None, qd_createdFrom = None, qd_createdTo = None, qd_paidFrom = None, qd_paidTo = None\<rparr>"

definition anyOwn :: allocationQuery where
  "anyOwn = \<lparr>ql_page = None, ql_limit = None, ql_offset = None, ql_sort = noSort, qa_status = None, qa_expiresSoon = None\<rparr>"

definition anyCandidate :: candidateQuery where
  "anyCandidate = \<lparr>ql_page = None, ql_limit = None, ql_offset = None, ql_sort = noSort, qc_status = None, qc_remainingMin = None,
     qc_createdFrom = None, qc_createdTo = None, qc_mobile = None, qc_userId = None, qc_excludeUserId = None\<rparr>"

definition proofOf :: "id \<Rightarrow> attachmentLink" where
  "proofOf i = \<lparr>lk_id = i, lk_createdAt = 0, lk_entityType = AttachmentLinkEntityType.P2P_ALLOCATION, lk_entityId = ''a'',
     lk_kind = AttachmentLinkKind.P2P_PROOF, lk_fileId = ''f'', lk_uploaderUserId = Some ''sara''\<rparr>"

definition twiceProved :: db where
  "twiceProved = assignedDb\<lparr>attachmentLinks := [proofOf ''1'', proofOf ''2'']\<rparr>"

lemma p2p_lists_complete_witness:
  "\<exists>lst. lst = (\<lambda>p l. projr (listAdminAllocations receiverEnv (anyAllocation\<lparr>ql_page := Some p, ql_limit := Some l\<rparr>) twiceProved)) \<and>
     pm_totalItems (snd (lst 1 1)) = 1 \<and> map av_id (allPages lst 1) = [''a'']"
proof -
  have answered: "\<exists>r. m = Inr r" if "\<not> isl m" for m :: "err + 'v" using that by (cases m) simp_all
  have statuses: "\<not> isl (readStatuses allocationStatuses (parseStatusFilter (Some ''ASSIGNED,PROOF_SUBMITTED'')))"
    "\<not> isl (readStatuses allocationStatuses (parseStatusFilter (Some ''PROOF_SUBMITTED'')))"
    by code_simp+
  have mapped: "isl (map_sum id f m) = isl m" for f :: "'x \<Rightarrow> 'y" and m :: "err + 'x" by (cases m) simp_all
  have unsorted: "primarySort (listQuery.truncate q) fs = Inr None" if "ql_sort q = noSort" for q :: "'q listQuery_scheme" and fs
    using that by (simp add: primarySort_def listQuery.truncate_def normalizeSort_def noSort_def)
  have withdrawal: "findWithdraw ''w'' twiceProved = Some aliWithdrawal" "wd_purpose aliWithdrawal = RequestPurpose.P2P"
    by (simp_all add: findWithdraw_def twiceProved_def assignedDb_def offerDb_def aliWithdrawal_def)
  have "\<not> isl (listAdminAllocations receiverEnv anyAllocation twiceProved)"
    "\<not> isl (listMyAllocationsAsPayer receiverEnv ''sara'' anyOwn twiceProved)"
    "\<not> isl (listMyAllocationsAsReceiver receiverEnv ''sara'' anyOwn twiceProved)"
    "\<not> isl (listCandidates ''w'' anyCandidate twiceProved)"
    using statuses by (simp_all add: mapped unsorted withdrawal listAdminAllocations_def listMyAllocationsAsPayer_def listMyAllocationsAsReceiver_def listCandidates_def
        statusFilter_def anyAllocation_def anyOwn_def anyCandidate_def parseStatusFilter_def [of None] readStatuses_def [of _ None])
  then obtain r1 r2 r3 r4 where r: "listAdminAllocations receiverEnv anyAllocation twiceProved = Inr r1"
    "listMyAllocationsAsPayer receiverEnv ''sara'' anyOwn twiceProved = Inr r2"
    "listMyAllocationsAsReceiver receiverEnv ''sara'' anyOwn twiceProved = Inr r3"
    "listCandidates ''w'' anyCandidate twiceProved = Inr r4"
    using answered by metis
  have "uniqueIds twiceProved"
    by (simp add: uniqueIds_def twiceProved_def assignedDb_def offerDb_def)
  let ?lst = "\<lambda>p l. projr (listAdminAllocations receiverEnv (anyAllocation\<lparr>ql_page := Some p, ql_limit := Some l\<rparr>) twiceProved)"
  have "\<exists>sts primary. readStatuses allocationStatuses (parseStatusFilter (qd_status anyAllocation)) = Inr sts \<and>
      pagesShown ?lst (filter (matchesAdmin anyAllocation sts twiceProved) (p2pAllocations twiceProved))
        (listedVm receiverEnv vmActor.ADMIN (qd_expiresSoonMinutes anyAllocation) twiceProved) (\<lambda>a. baseKey primary (toBase a)) True 1 1"
    using p2p_lists_complete [OF \<open>uniqueIds twiceProved\<close> r, of "\<lambda>_. p2pAllocations twiceProved" "\<lambda>_. depositRequests twiceProved" 1 1] by auto
  then obtain sts primary where sts: "readStatuses allocationStatuses (parseStatusFilter (qd_status anyAllocation)) = Inr sts"
    and shown: "pagesShown ?lst (filter (matchesAdmin anyAllocation sts twiceProved) (p2pAllocations twiceProved))
        (listedVm receiverEnv vmActor.ADMIN (qd_expiresSoonMinutes anyAllocation) twiceProved) (\<lambda>a. baseKey primary (toBase a)) True 1 1" by blast
  have "sts = None" using sts by (simp add: anyAllocation_def parseStatusFilter_def readStatuses_def)
  moreover have "matchesAdmin anyAllocation None twiceProved assignedForty" by code_simp
  ultimately have one: "filter (matchesAdmin anyAllocation sts twiceProved) (p2pAllocations twiceProved) = [assignedForty]"
    by (simp add: twiceProved_def assignedDb_def)
  have "av_id (listedVm receiverEnv vmActor.ADMIN m twiceProved assignedForty) = ''a''" for m
    by (simp add: listedVm_def vmFor_def buildAllocationVm_def Let_def assignedForty_def)
  then show ?thesis using shown unfolding one pagesShown_def by (auto simp: meta_def Let_def)
qed

text \<open>
  With equal keys and another order of the table for the second page, one of two rows is shown on both pages and the other on
  none: the sort by \<open>createdAt\<close>, by the amount or by a time leaves rows equal, and the query has no unique last key.
\<close>

definition pairDb :: "p2pAllocation list \<Rightarrow> db" where
  "pairDb as = assignedDb\<lparr>p2pAllocations := as\<rparr>"

lemma ties_repeat_a_row:
  "map (\<lambda>(p, as). map av_id (fst (projr (listAdminAllocations receiverEnv (anyAllocation\<lparr>qd_hasProof := None, ql_page := Some p, ql_limit := Some 1\<rparr>)
      (pairDb as))))) [(1, [assignedForty, assignedForty\<lparr>al_id := ''b''\<rparr>]), (2, [assignedForty\<lparr>al_id := ''b''\<rparr>, assignedForty])] =
   [[''a''], [''a'']]"
  by code_simp

end
