(* ===== verification/Spec2Isabelle.thy ===== *)
theory Spec2Isabelle
  imports Accounts Common Policy PolicyLimits Outbox Files Destinations Books Requests Deposits Withdrawals Custody
    Settings Market Trades Remittances P2P P2PTotals P2PViews Http PolicyAdmin Users Foundation MarketAdmin
    TahesabApi TahesabAdmin Statement FileStore Queries Responses AdminLists P2PLists
begin

text \<open>
  A verification library for the back end of a gold trading house: a NestJS service over PostgreSQL
  (through Prisma), with the wallets of its clients, their deposits, withdrawals, trades, transfers and
  vault movements, the settlement of withdrawals by other clients' deposits (P2P), the policy limits
  that bound all of these, and an outbox towards the accounting system Tahesab.

  \<^bold>\<open>The program and the model.\<close> Every service method that changes state is a HOL function from the
  database to a result and a database. \<open>Schema\<close> models \<open>prisma/schema.prisma\<close>: one datatype per enum,
  one record per table and \<open>db\<close>, a record with one list of rows per table, a clock and a generator
  of identifiers. \<open>Prelude\<close> has the shape of a transaction: \<open>'a tx = exn + 'a * db\<close>, where \<open>Inl\<close> is
  the exception thrown (with its HTTP class and code) and an exception rolls the transaction back;
  \<open>bindE\<close> is the sequence of awaits and \<open>forE\<close>, \<open>mapE\<close>, \<open>foldE\<close> are loops with awaits in the body.
  A method composed of several transactions returns the database it stops with, exception or not.
  The theories and the files under \<open>src/src\<close> they translate:

  \<^item> \<open>Accounts\<close>: \<open>modules/accounts/accounts.service.ts\<close>, the ledger all the others post to.
  \<^item> \<open>Common\<close>: \<open>common/db/tx.util.ts\<close>, \<open>common/pagination\<close>, and \<open>Array.sort\<close> with a comparator.
  \<^item> \<open>Policy\<close>, \<open>PolicyLimits\<close>: \<open>modules/policy\<close>, the resolution of a rule and the limits.
  \<^item> \<open>Outbox\<close>: \<open>modules/tahesab\<close> (outbox, configuration, vouchers of remittances).
  \<^item> \<open>TahesabApi\<close>, \<open>TahesabAdmin\<close>: the method map, the services and the HTTP client of \<open>modules/tahesab\<close>, which turn
    request objects into positional arguments, and \<open>tahesab.admin.controller.ts\<close>.
  \<^item> \<open>Files\<close>, \<open>FileStore\<close>: \<open>modules/files\<close> and \<open>modules/attachments\<close>: access to files, and the bytes behind them
    (uploads, downloads, links, the storage on the local disk).
  \<^item> \<open>Statement\<close>: the statement of \<open>accounts.service.ts\<close> and \<open>accounts.controller.ts\<close>.
  \<^item> \<open>Queries\<close>, \<open>Responses\<close>, \<open>AdminLists\<close>: \<open>common/pagination/query-parsers.ts\<close>, the response mappers and the details
    of deposits, withdrawals and trades, and the paged lists of the administrators.
  \<^item> \<open>Destinations\<close>: \<open>modules/payment-destinations\<close>, bank destinations, masks and snapshots.
  \<^item> \<open>Deposits\<close>, \<open>Withdrawals\<close>, \<open>Custody\<close>, \<open>Trades\<close>, \<open>Remittances\<close>: the service of the same name
    (with \<open>modules/gold\<close> in \<open>Deposits\<close> and \<open>modules/physical-custody\<close> in \<open>Custody\<close>).
  \<^item> \<open>Settings\<close>, \<open>Market\<close>: \<open>modules/user-settings\<close> and \<open>modules/market\<close> (pricing, quotes, locks).
  \<^item> \<open>P2P\<close>, \<open>P2PViews\<close>, \<open>P2PLists\<close>: \<open>modules/p2p-allocations\<close>, the operations, the views with the actions they offer, and the lists.
  \<^item> \<open>Http\<close>: \<open>common/http\<close>, \<open>common/interceptors\<close>, \<open>common/validation\<close>, \<open>common/exceptions\<close>: what every
    answer and every exception goes through.
  \<^item> \<open>Users\<close>: \<open>modules/auth\<close>, \<open>modules/users/users.service.ts\<close> and the administrator's changes of users.
  \<^item> \<open>Foundation\<close>: \<open>modules/users/foundation-context.service.ts\<close>, the KYC, wallet and overview operations of
    \<open>foundation.controller.ts\<close>, and the access guards of trades and withdrawals.
  \<^item> \<open>PolicyAdmin\<close>: the controllers of \<open>modules/policy\<close> for rules, product limits and customer groups.
  \<^item> \<open>MarketAdmin\<close>: \<open>modules/market-products\<close>, \<open>product-provider-mappings\<close>, \<open>price-overrides\<close>,
    \<open>price-providers\<close>, \<open>instruments\<close> and the ingestion worker of \<open>modules/market\<close>.

  \<open>Books\<close> and \<open>Requests\<close> model no file: they hold the theory of a request, shared by the services; nor does
  \<open>P2PTotals\<close>, the conservation of money along the runs of \<open>P2P\<close>.

  \<^bold>\<open>How the parts interact.\<close> A request (deposit, withdrawal, movement, trade, remittance) has a row
  in a table of its own, and works on the ledger under a reference, the type and the id of the row. It
  may reserve funds (\<open>reserveFunds\<close>), then consume or release them, and posts transactions
  (\<open>applyTransaction\<close>); it reserves, consumes and releases its limits under the same reference, and
  enqueues vouchers in the outbox after its transaction. An allocation of a P2P withdrawal takes a part of
  the withdrawal's two reservations (funds and limits) over to its own reference and gives it back.

  \<^bold>\<open>The interfaces.\<close> Each is a locale, interpreted on the model's own definitions:
  \<^item> \<open>keyed_table\<close> (\<open>Prelude\<close>): a table with a key and sums over its rows. Interpreted for accounts,
    reservations, limit usages, limit reservations and allocations.
  \<^item> \<open>comparator\<close> (\<open>Common\<close>): a comparator that realises a linear order of keys; gives sortedness,
    stability and the least element of a sorted list. Interpreted for the comparators the services use.
  \<^item> \<open>decision\<close> and \<open>decision_pair\<close> (\<open>Common\<close>): an operation that decides an open request once.
  \<^item> \<open>wallet_ledger\<close> (\<open>Accounts\<close>): an invariant that the five ledger operations keep. Interpreted
    with \<open>ledger_ok\<close> and with \<open>walletFrame\<close>, what a ledger operation leaves alone.
  \<^item> \<open>request_books\<close> (\<open>Books\<close>): what is posted under a request is what its status says is due.
  \<^item> \<open>request_ledger\<close> (\<open>Requests\<close>): the same with a hold; interpreted by the withdrawals, the
    movements, the trades and the remittances. It carries both halves through a row's creation, its
    decision, its removal and any step that leaves the requests alone.
  \<^item> \<open>object_store\<close> (\<open>FileStore\<close>): a storage that answers what was put last under a key and keeps the other
    keys; interpreted by the local disk, for the keys the uploads make.
  \<^item> \<open>page_list\<close> (\<open>Queries\<close>) and \<open>ordered_list\<close> (\<open>AdminLists\<close>): a list of which every page is a cut of one
    (ordered) listing of the matching rows; interpreted by the eighteen paged lists of the program.

  \<^bold>\<open>What is shown.\<close> For the ledger: the floor \<open>blocked + min \<le> balance\<close>, the balance as the sum of
  the transactions and the blocked amount as the sum of the open reservations hold along every run, a
  reservation can always be settled, and reserving then releasing is the identity. For every kind of
  request: along every run of its operations the ledger is sound, what is posted under a request is
  what its status says (nothing while it is open, the amount once approved, nothing after a reversal) and
  what it holds likewise; what approval, reversal and the other decisions do to the wallets, and
  that they do it once. For the policies: the rule selected is the best of the applicable ones by scope,
  selector, priority and age, and a reservation never takes a usage over its limit. For P2P: the
  allocations refine an abstract life cycle, splitting a reservation and merging it back restores it,
  the expiry loop handles every expired allocation or stops at the first exception, and an allocation
  is finalized once; what is assigned and settled of a withdrawal and a deposit is the sum over the
  allocations, and what is held for them adds up. For files: exactly the administrator, the uploader and the owners of what a
  file is attached to read it. For quotes: a locked price is the price shown. For the administration: along
  every run the rules, groups, users, products, mappings and overrides keep their uniqueness and their
  well-formedness, a limit set for a user is the limit resolved for him, a bulk request sent again changes
  nothing, and a registered user can log in. For the statement of a wallet: its amounts add up to the
  change of the accounts, and a user who hides his balances is shown nothing that depends on them. For uploads: they
  stay inside their directory, and come back byte for byte as long as no two keys meet. For the lists: their pages
  show every matching row once and in order, the joined and grouped SQL of the allocations too, and tell bank numbers by
  their masks only. The actions a view of an allocation offers are those the operations accept. For Tahesab: every request
  fits the method map, and every field of a voucher stands where the map has its name. For answers: no sensitive field is left in a tree. Some theorems state what
  the code does wrong; the findings of the manifest name them.

  \<^bold>\<open>Numbers, time and bounds.\<close> \<open>Decimal\<close> is an exact rational: the 20 digits of decimal.js and the
  rounding to a column's scale are not modelled, except where the source rounds itself
  (\<open>toFixed6\<close> in \<open>Custody\<close>). Times are integers, in milliseconds. Identifiers are strings and fresh
  ones come from \<open>db_gen\<close>, an injective generator. There is no fuel: every loop of the source runs over
  a list, \<open>runInTx\<close> retries at most \<open>maxRetries\<close> times (the recursion is on what is left of them), and
  every function is total.

  \<^bold>\<open>Parameters.\<close> What is not in the repository is an argument of the definitions: the environment
  variables, encryption and hashing, the HTTP calls to Tahesab, Redis, the price providers, the Persian
  calendar, the printing of numbers, the random codes. Hypotheses about them (decryption undoes
  encryption) stand in the theorems that need them, with concrete instances in the witnesses.

  \<^bold>\<open>Not modelled.\<close> Concurrent transactions (a transaction runs alone: row locks have no effect, and the
  interleavings they guard against are outside the model), the module wiring, decorators and
  Swagger descriptions of NestJS, the checks of the validation pipe before a handler (the requests are
  arbitrary records), the administrators' list of P2P withdrawals, whose SQL PostgreSQL refuses, the client of the object store
  S3, the commands of Redis and the seed script.
  The manifest lists each with its reason.
\<close>

end
